(* ===== verification/Prelude.thy ===== *)
theory Prelude
  imports Complex_Main "HOL-Library.List_Lexorder" "HOL-Library.Char_ord" "HOL-Library.Product_Lexorder"
begin

text \<open>
  The ground every component of the development stands on: the errors the domain layer raises,
  results with an error side, the JSON-like values the Python code passes around as
  \<^verbatim>\<open>Mapping[str, object]\<close>, insertion-ordered dictionaries, and the text and number operations
  of the Python standard library the sources call.

  Conventions of the model.
  \<^item> A raised exception is \<open>Inl e\<close>, a returned value is \<open>Inr v\<close>. An error carries its class and
    its message; the \<^verbatim>\<open>details\<close> dictionary of an error is diagnostic evidence and is left out.
  \<^item> Values are JSON documents: \<^verbatim>\<open>bytes\<close> and \<^verbatim>\<open>Decimal\<close> instances do not occur in them, and a
    tuple is the sequence \<open>PList\<close> it is read as.
  \<^item> A dictionary is an association list in insertion order; keys are unique in every dictionary
    a Python program can build (\<open>wf_val\<close>, \<open>wf_dict\<close>).
  \<^item> Text is ASCII text; the Unicode tables behind \<^verbatim>\<open>str.strip\<close>, \<^verbatim>\<open>str.lower\<close>, \<^verbatim>\<open>str.casefold\<close>
    and \<^verbatim>\<open>str.isalnum\<close> are those of the ASCII range.
  \<^item> A finite float carries the exact binary value \<open>m * 2 ^ e\<close> that comparisons use, and the
    decimal \<open>d * 10 ^ x\<close> that \<^verbatim>\<open>repr\<close> prints for it; negative zero is zero.
\<close>

named_theorems result_simps \<open>rewriting of results to their successful runs\<close>
named_theorems dict_simps \<open>lookups in dictionaries\<close>
named_theorems text_simps \<open>text helpers\<close>

section \<open>Errors and results\<close>

text \<open>The exception classes of \<^verbatim>\<open>domain/errors.py\<close>, and the built-in exceptions a call can raise.\<close>

datatype error =
    ValidationFailed string
  | PermissionDenied string
  | NotFound string
  | ConflictDetected string
  | RateLimited string
  | InvariantViolation string
  | KeyError
  | IndexError
  | TypeError
  | ValueError
  | OverflowError
  | RuntimeError string
  | NoResultFound
  | MultipleResultsFound
  | StopIteration
  | IntegrityError

type_synonym 'a result = "error + 'a"

definition rbind :: "'a result \<Rightarrow> ('a \<Rightarrow> 'b result) \<Rightarrow> 'b result" where
  "rbind m f = (case m of Inl e \<Rightarrow> Inl e | Inr x \<Rightarrow> f x)"

definition raise_if :: "bool \<Rightarrow> error \<Rightarrow> unit result" where
  "raise_if c e = (if c then Inl e else Inr ())"

text \<open>A comprehension whose body may raise, and a loop of checks.\<close>

fun map_result :: "('a \<Rightarrow> 'b result) \<Rightarrow> 'a list \<Rightarrow> 'b list result" where
  "map_result f [] = Inr []"
| "map_result f (x # xs) = rbind (f x) (\<lambda>y. rbind (map_result f xs) (\<lambda>ys. Inr (y # ys)))"

fun each :: "('a \<Rightarrow> unit result) \<Rightarrow> 'a list \<Rightarrow> unit result" where
  "each f [] = Inr ()"
| "each f (x # xs) = rbind (f x) (\<lambda>_. each f xs)"

fun fold_result :: "('a \<Rightarrow> 's \<Rightarrow> 's result) \<Rightarrow> 'a list \<Rightarrow> 's \<Rightarrow> 's result" where
  "fold_result f [] s = Inr s"
| "fold_result f (x # xs) s = rbind (f x s) (fold_result f xs)"

text \<open>A generator consumed by \<^verbatim>\<open>any\<close> and \<^verbatim>\<open>all\<close>: evaluation stops at the first decisive item, and
  an exception raised before it propagates.\<close>

fun any_result :: "('a \<Rightarrow> bool result) \<Rightarrow> 'a list \<Rightarrow> bool result" where
  "any_result f [] = Inr False"
| "any_result f (x # xs) = rbind (f x) (\<lambda>b. if b then Inr True else any_result f xs)"

fun all_result :: "('a \<Rightarrow> bool result) \<Rightarrow> 'a list \<Rightarrow> bool result" where
  "all_result f [] = Inr True"
| "all_result f (x # xs) = rbind (f x) (\<lambda>b. if b then all_result f xs else Inr False)"

definition is_ok :: "'a result \<Rightarrow> bool" where
  "is_ok r = (case r of Inl _ \<Rightarrow> False | Inr _ \<Rightarrow> True)"

text \<open>Calls that read or change something outside the value they return (a clock, an identifier
  supply): the state \<open>'w\<close> of that outside is passed along.\<close>

type_synonym ('w, 'a) io = "'w \<Rightarrow> ('a \<times> 'w) result"

definition io_return :: "'a \<Rightarrow> ('w, 'a) io" where
  "io_return x = (\<lambda>w. Inr (x, w))"

definition io_raise :: "error \<Rightarrow> ('w, 'a) io" where
  "io_raise e = (\<lambda>w. Inl e)"

definition io_bind :: "('w, 'a) io \<Rightarrow> ('a \<Rightarrow> ('w, 'b) io) \<Rightarrow> ('w, 'b) io" where
  "io_bind m f = (\<lambda>w. rbind (m w) (\<lambda>(x, w'). f x w'))"

definition io_lift :: "'a result \<Rightarrow> ('w, 'a) io" where
  "io_lift r = (\<lambda>w. rbind r (\<lambda>x. Inr (x, w)))"

fun io_map :: "('a \<Rightarrow> ('w, 'b) io) \<Rightarrow> 'a list \<Rightarrow> ('w, 'b list) io" where
  "io_map f [] = io_return []"
| "io_map f (x # xs) = io_bind (f x) (\<lambda>y. io_bind (io_map f xs) (\<lambda>ys. io_return (y # ys)))"

fun io_fold :: "('a \<Rightarrow> 's \<Rightarrow> ('w, 's) io) \<Rightarrow> 'a list \<Rightarrow> 's \<Rightarrow> ('w, 's) io" where
  "io_fold f [] s = io_return s"
| "io_fold f (x # xs) s = io_bind (f x s) (io_fold f xs)"

section \<open>Values\<close>

datatype pyfloat =
    Finite int int int int
  | PosInf
  | NegInf
  | NaN

datatype pyval =
    PNone
  | PBool bool
  | PInt int
  | PFloat pyfloat
  | PStr string
  | PList "pyval list"
  | PDict "(string \<times> pyval) list"

type_synonym dict = "(string \<times> pyval) list"

text \<open>Dictionaries: \<open>map_of d k\<close> is \<^verbatim>\<open>d.get(k)\<close>, \<open>dput k v d\<close> is \<^verbatim>\<open>d[k] = v\<close>, which keeps the
  position of an existing key and appends a new one.\<close>

fun dput :: "'k \<Rightarrow> 'v \<Rightarrow> ('k \<times> 'v) list \<Rightarrow> ('k \<times> 'v) list" where
  "dput k v [] = [(k, v)]"
| "dput k v ((k', v') # d) = (if k = k' then (k, v) # d else (k', v') # dput k v d)"

definition dkeys :: "('k \<times> 'v) list \<Rightarrow> 'k list" where
  "dkeys d = map fst d"

definition has_key :: "('k \<times> 'v) list \<Rightarrow> 'k \<Rightarrow> bool" where
  "has_key d k = (k \<in> set (dkeys d))"

definition wf_dict :: "('k \<times> 'v) list \<Rightarrow> bool" where
  "wf_dict d = distinct (dkeys d)"

text \<open>\<^verbatim>\<open>{**a, **b}\<close> and \<^verbatim>\<open>a.update(b)\<close>.\<close>

fun dupdate :: "('k \<times> 'v) list \<Rightarrow> ('k \<times> 'v) list \<Rightarrow> ('k \<times> 'v) list" where
  "dupdate a [] = a"
| "dupdate a ((k, v) # b) = dupdate (dput k v a) b"

text \<open>\<^verbatim>\<open>d.get(key)\<close> and \<^verbatim>\<open>d.get(key, default)\<close> as values.\<close>

definition get_or :: "pyval \<Rightarrow> dict \<Rightarrow> string \<Rightarrow> pyval" where
  "get_or v d k = (case map_of d k of None \<Rightarrow> v | Some w \<Rightarrow> w)"

abbreviation get_val :: "dict \<Rightarrow> string \<Rightarrow> pyval" where
  "get_val d k \<equiv> get_or PNone d k"

text \<open>\<^verbatim>\<open>isinstance\<close> tests of the sources.\<close>

fun is_mapping :: "pyval \<Rightarrow> bool" where
  "is_mapping (PDict _) = True"
| "is_mapping _ = False"

fun is_sequence :: "pyval \<Rightarrow> bool" where
  "is_sequence (PList _) = True"
| "is_sequence _ = False"

fun is_text :: "pyval \<Rightarrow> bool" where
  "is_text (PStr _) = True"
| "is_text _ = False"

text \<open>\<^verbatim>\<open>x in {...}\<close> hashes \<open>x\<close>: a list or a dictionary raises.\<close>

definition in_names :: "pyval \<Rightarrow> string list \<Rightarrow> bool result" where
  "in_names v names = (if is_sequence v \<or> is_mapping v then Inl TypeError else Inr (v \<in> PStr ` set names))"

text \<open>\<^verbatim>\<open>isinstance(value, str) and value\<close>: non-empty text.\<close>

fun nonempty_text :: "pyval \<Rightarrow> string option" where
  "nonempty_text (PStr s) = (if s = [] then None else Some s)"
| "nonempty_text _ = None"

text \<open>\<^verbatim>\<open>isinstance(value, int) and not isinstance(value, bool)\<close>.\<close>

fun plain_int :: "pyval \<Rightarrow> int option" where
  "plain_int (PInt n) = Some n"
| "plain_int _ = None"

text \<open>Python's truth test.\<close>

fun truthy :: "pyval \<Rightarrow> bool" where
  "truthy PNone = False"
| "truthy (PBool b) = b"
| "truthy (PInt n) = (n \<noteq> 0)"
| "truthy (PFloat (Finite m e d x)) = (m \<noteq> 0)"
| "truthy (PFloat _) = True"
| "truthy (PStr s) = (s \<noteq> [])"
| "truthy (PList xs) = (xs \<noteq> [])"
| "truthy (PDict d) = (d \<noteq> [])"

text \<open>Every dictionary inside a value has unique keys.\<close>

fun wf_val :: "pyval \<Rightarrow> bool" where
  "wf_val (PList xs) = (\<forall>x \<in> set xs. wf_val x)"
| "wf_val (PDict d) = (distinct (map fst d) \<and> (\<forall>x \<in> set (map snd d). wf_val x))"
| "wf_val _ = True"


section \<open>Numbers\<close>

text \<open>A number \<open>m * b ^ e\<close> as a pair; comparison brings both to the smaller exponent.\<close>

type_synonym sci = "int \<times> int"

definition sci_align :: "int \<Rightarrow> sci \<Rightarrow> sci \<Rightarrow> int \<times> int" where
  "sci_align b x y = (let e = min (snd x) (snd y) in
     (fst x * b ^ nat (snd x - e), fst y * b ^ nat (snd y - e)))"

definition sci_eq :: "int \<Rightarrow> sci \<Rightarrow> sci \<Rightarrow> bool" where
  "sci_eq b x y = (case sci_align b x y of (m, n) \<Rightarrow> m = n)"

definition sci_less :: "int \<Rightarrow> sci \<Rightarrow> sci \<Rightarrow> bool" where
  "sci_less b x y = (case sci_align b x y of (m, n) \<Rightarrow> m < n)"

text \<open>The rational number a pair stands for (specification only).\<close>

definition sci_val :: "int \<Rightarrow> sci \<Rightarrow> rat" where
  "sci_val b x = of_int (fst x) * (of_int b powi snd x)"

text \<open>Python's numeric tower on values: booleans are the integers 0 and 1, and comparisons between
  integers and floats use the exact binary value. \<open>None\<close>: not a number, or not comparable (NaN).\<close>

datatype extended = ENum sci | EPosInf | ENegInf

fun py_number :: "pyval \<Rightarrow> extended option" where
  "py_number (PBool b) = Some (ENum (if b then 1 else 0, 0))"
| "py_number (PInt n) = Some (ENum (n, 0))"
| "py_number (PFloat (Finite m e _ _)) = Some (ENum (m, e))"
| "py_number (PFloat PosInf) = Some EPosInf"
| "py_number (PFloat NegInf) = Some ENegInf"
| "py_number _ = None"

fun extended_eq :: "extended \<Rightarrow> extended \<Rightarrow> bool" where
  "extended_eq (ENum x) (ENum y) = sci_eq 2 x y"
| "extended_eq EPosInf EPosInf = True"
| "extended_eq ENegInf ENegInf = True"
| "extended_eq _ _ = False"

fun extended_less :: "extended \<Rightarrow> extended \<Rightarrow> bool" where
  "extended_less (ENum x) (ENum y) = sci_less 2 x y"
| "extended_less (ENum _) EPosInf = True"
| "extended_less ENegInf (ENum _) = True"
| "extended_less ENegInf EPosInf = True"
| "extended_less _ _ = False"

text \<open>Python's \<^verbatim>\<open>==\<close> on values: numbers compare across \<^verbatim>\<open>bool\<close>, \<^verbatim>\<open>int\<close> and \<^verbatim>\<open>float\<close>, dictionaries
  without regard to order.\<close>

fun py_eq :: "pyval \<Rightarrow> pyval \<Rightarrow> bool"
and py_eq_list :: "pyval list \<Rightarrow> pyval list \<Rightarrow> bool"
and py_eq_items :: "dict \<Rightarrow> dict \<Rightarrow> bool" where
  "py_eq v w =
     (case v of
        PNone \<Rightarrow> w = PNone
      | PStr s \<Rightarrow> w = PStr s
      | PList xs \<Rightarrow> (case w of PList ys \<Rightarrow> py_eq_list xs ys | _ \<Rightarrow> False)
      | PDict d \<Rightarrow> (case w of PDict d' \<Rightarrow> length d = length d' \<and> py_eq_items d d' | _ \<Rightarrow> False)
      | _ \<Rightarrow> (case (py_number v, py_number w) of
                (Some a, Some b) \<Rightarrow> extended_eq a b
              | _ \<Rightarrow> False))"
| "py_eq_list [] ys = (ys = [])"
| "py_eq_list (x # xs) ys = (case ys of [] \<Rightarrow> False | y # ys' \<Rightarrow> py_eq x y \<and> py_eq_list xs ys')"
| "py_eq_items [] d' = True"
| "py_eq_items ((k, v) # d) d' =
     (case map_of d' k of None \<Rightarrow> False | Some w \<Rightarrow> py_eq v w \<and> py_eq_items d d')"

declare py_eq.simps [simp del]

section \<open>Text\<close>

definition is_space :: "char \<Rightarrow> bool" where
  "is_space c = (let n = (of_char c :: nat) in n = 32 \<or> 9 \<le> n \<and> n \<le> 13 \<or> 28 \<le> n \<and> n \<le> 31)"

definition is_digit :: "char \<Rightarrow> bool" where
  "is_digit c = (let n = (of_char c :: nat) in 48 \<le> n \<and> n \<le> 57)"

definition is_upper :: "char \<Rightarrow> bool" where
  "is_upper c = (let n = (of_char c :: nat) in 65 \<le> n \<and> n \<le> 90)"

definition is_lower :: "char \<Rightarrow> bool" where
  "is_lower c = (let n = (of_char c :: nat) in 97 \<le> n \<and> n \<le> 122)"

definition is_alnum :: "char \<Rightarrow> bool" where
  "is_alnum c = (is_digit c \<or> is_upper c \<or> is_lower c)"

definition lower_char :: "char \<Rightarrow> char" where
  "lower_char c = (if is_upper c then char_of ((of_char c :: nat) + 32) else c)"

definition upper_char :: "char \<Rightarrow> char" where
  "upper_char c = (if is_lower c then char_of ((of_char c :: nat) - 32) else c)"

definition py_lower :: "string \<Rightarrow> string" where
  "py_lower s = map lower_char s"

definition py_upper :: "string \<Rightarrow> string" where
  "py_upper s = map upper_char s"

definition strip_by :: "(char \<Rightarrow> bool) \<Rightarrow> string \<Rightarrow> string" where
  "strip_by p s = rev (dropWhile p (rev (dropWhile p s)))"

definition py_strip :: "string \<Rightarrow> string" where
  "py_strip s = strip_by is_space s"

text \<open>\<^verbatim>\<open>needle in haystack\<close> and \<^verbatim>\<open>s.startswith(prefix)\<close>.\<close>

fun starts_with :: "string \<Rightarrow> string \<Rightarrow> bool" where
  "starts_with s [] = True"
| "starts_with [] (p # ps) = False"
| "starts_with (c # s) (p # ps) = (c = p \<and> starts_with s ps)"

fun contains_text :: "string \<Rightarrow> string \<Rightarrow> bool" where
  "contains_text [] p = (p = [])"
| "contains_text (c # s) p = (starts_with (c # s) p \<or> contains_text s p)"

text \<open>Decimal notation of integers.\<close>

definition digit_char :: "nat \<Rightarrow> char" where
  "digit_char n = char_of (48 + n)"

fun show_nat :: "nat \<Rightarrow> string" where
  "show_nat n = (if n < 10 then [digit_char n] else show_nat (n div 10) @ [digit_char (n mod 10)])"

declare show_nat.simps [simp del]

definition show_int :: "int \<Rightarrow> string" where
  "show_int n = (if n < 0 then CHR ''-'' # show_nat (nat (- n)) else show_nat (nat n))"

definition digit_value :: "char \<Rightarrow> nat" where
  "digit_value c = of_char c - 48"

definition read_nat :: "string \<Rightarrow> nat" where
  "read_nat s = foldl (\<lambda>a c. a * 10 + digit_value c) 0 s"

text \<open>\<^verbatim>\<open>repr\<close> of text: single quotes unless the text has a single quote and no double quote.\<close>

definition hex_digit :: "nat \<Rightarrow> char" where
  "hex_digit n = (if n < 10 then char_of (48 + n) else char_of (87 + n))"

definition repr_char :: "char \<Rightarrow> char \<Rightarrow> string" where
  "repr_char q c = (let n = (of_char c :: nat) in
     if c = q \<or> n = 92 then [CHR 0x5C, c]
     else if n = 10 then [CHR 0x5C, CHR ''n'']
     else if n = 13 then [CHR 0x5C, CHR ''r'']
     else if n = 9 then [CHR 0x5C, CHR ''t'']
     else if n < 32 \<or> n = 127 then [CHR 0x5C, CHR ''x'', hex_digit (n div 16), hex_digit (n mod 16)]
     else [c])"

definition repr_text :: "string \<Rightarrow> string" where
  "repr_text s = (let q = (if CHR 0x27 \<in> set s \<and> CHR 0x22 \<notin> set s then CHR 0x22 else CHR 0x27) in
     [q] @ concat (map (repr_char q) s) @ [q])"

text \<open>\<^verbatim>\<open>repr\<close> of a finite float from its shortest decimal \<open>d * 10 ^ x\<close> (\<open>d\<close> without trailing zeros):
  positional notation for decimal points in \<open>(-4, 16]\<close>, scientific notation otherwise.\<close>

definition repr_decimal :: "int \<Rightarrow> int \<Rightarrow> string" where
  "repr_decimal d x = (let ds = show_nat (nat (abs d)); k = int (length ds); p = k + x;
       sign = (if d < 0 then ''-'' else []) in
     if d = 0 then ''0.0''
     else if 0 < p \<and> p \<le> 16 then
       (if k \<le> p then sign @ ds @ replicate (nat (p - k)) CHR ''0'' @ ''.0''
        else sign @ take (nat p) ds @ ''.'' @ drop (nat p) ds)
     else if -4 < p \<and> p \<le> 0 then sign @ ''0.'' @ replicate (nat (- p)) CHR ''0'' @ ds
     else (let q = p - 1; es = show_nat (nat (abs q)) in
       sign @ take 1 ds @ (if k = 1 then [] else ''.'' @ drop 1 ds) @ ''e'' @
       (if q < 0 then ''-'' else ''+'') @ (if length es = 1 then ''0'' @ es else es)))"

fun repr_float :: "pyfloat \<Rightarrow> string" where
  "repr_float (Finite m e d x) = repr_decimal d x"
| "repr_float PosInf = ''inf''"
| "repr_float NegInf = ''-inf''"
| "repr_float NaN = ''nan''"

text \<open>\<^verbatim>\<open>", ".join(parts)\<close>.\<close>

fun join_comma :: "string list \<Rightarrow> string" where
  "join_comma [] = []"
| "join_comma [s] = s"
| "join_comma (s # ss) = s @ '', '' @ join_comma ss"

fun py_repr :: "pyval \<Rightarrow> string" where
  "py_repr PNone = ''None''"
| "py_repr (PBool b) = (if b then ''True'' else ''False'')"
| "py_repr (PInt n) = show_int n"
| "py_repr (PFloat f) = repr_float f"
| "py_repr (PStr s) = repr_text s"
| "py_repr (PList xs) = ''['' @ join_comma (map py_repr xs) @ '']''"
| "py_repr (PDict d) =
     ''{'' @ join_comma (map (\<lambda>(k, v). repr_text k @ '': '' @ py_repr v) d) @ ''}''"

fun py_str :: "pyval \<Rightarrow> string" where
  "py_str (PStr s) = s"
| "py_str v = py_repr v"


section \<open>Facts about results\<close>

lemma rbind_Inr [simp]: "rbind (Inr x) f = f x"
  and rbind_Inl [simp]: "rbind (Inl e) f = Inl e"
  by (simp_all add: rbind_def)

lemma rbind_cong [fundef_cong]:
  "m = m' \<Longrightarrow> (\<And>x. m' = Inr x \<Longrightarrow> f x = g x) \<Longrightarrow> rbind m f = rbind m' g"
  by (cases m') auto

lemma rbind_eq_Inr [result_simps]: "rbind m f = Inr y \<longleftrightarrow> (\<exists>x. m = Inr x \<and> f x = Inr y)"
  by (cases m) auto

lemma rbind_InrE: "rbind m f = Inr y \<Longrightarrow> (\<And>x. m = Inr x \<Longrightarrow> f x = Inr y \<Longrightarrow> P) \<Longrightarrow> P"
  by (auto simp: rbind_eq_Inr)

lemma rbind_eq_Inl [result_simps]:
  "rbind m f = Inl e \<longleftrightarrow> m = Inl e \<or> (\<exists>x. m = Inr x \<and> f x = Inl e)"
  by (cases m) auto

lemma rbind_assoc: "rbind (rbind m f) g = rbind m (\<lambda>x. rbind (f x) g)"
  by (cases m) auto

lemma raise_if_Inr [simp]: "raise_if c e = Inr u \<longleftrightarrow> \<not> c"
  by (simp add: raise_if_def)

lemma raise_if_Inl [simp]: "raise_if c e = Inl e' \<longleftrightarrow> c \<and> e' = e"
  by (auto simp: raise_if_def)

lemma raise_if_simps [simp]: "raise_if True e = Inl e" "raise_if False e = Inr ()"
  by (simp_all add: raise_if_def)

lemma each_Inr [result_simps]: "each f xs = Inr u \<longleftrightarrow> (\<forall>x \<in> set xs. f x = Inr ())"
  by (induction xs) (auto simp: rbind_eq_Inr)

lemma each_Inl: "each f xs = Inl e \<Longrightarrow> \<exists>x \<in> set xs. f x = Inl e"
  by (induction xs) (auto simp: rbind_eq_Inl)

lemma map_result_Inr [result_simps]:
  "map_result f xs = Inr ys \<longleftrightarrow> list_all2 (\<lambda>x y. f x = Inr y) xs ys"
  by (induction xs arbitrary: ys) (auto simp: rbind_eq_Inr list_all2_Cons1)

lemma map_result_Inl: "map_result f xs = Inl e \<Longrightarrow> \<exists>x \<in> set xs. f x = Inl e"
  by (induction xs) (auto simp: rbind_eq_Inl)

lemma map_result_ok: "(\<And>x. x \<in> set xs \<Longrightarrow> f x = Inr (g x)) \<Longrightarrow> map_result f xs = Inr (map g xs)"
  by (induction xs) auto

lemma map_result_cong [fundef_cong]:
  "xs = ys \<Longrightarrow> (\<And>x. x \<in> set ys \<Longrightarrow> f x = g x) \<Longrightarrow> map_result f xs = map_result g ys"
  by (induction ys arbitrary: xs) auto

lemma each_cong [fundef_cong]:
  "xs = ys \<Longrightarrow> (\<And>x. x \<in> set ys \<Longrightarrow> f x = g x) \<Longrightarrow> each f xs = each g ys"
  by (induction ys arbitrary: xs) auto

lemma any_result_cong [fundef_cong]:
  "xs = ys \<Longrightarrow> (\<And>x. x \<in> set ys \<Longrightarrow> f x = g x) \<Longrightarrow> any_result f xs = any_result g ys"
proof (induction ys arbitrary: xs)
  case (Cons y ys)
  then have "any_result f ys = any_result g ys" by simp
  with Cons.prems show ?case by (cases "g y") auto
qed simp

lemma all_result_cong [fundef_cong]:
  "xs = ys \<Longrightarrow> (\<And>x. x \<in> set ys \<Longrightarrow> f x = g x) \<Longrightarrow> all_result f xs = all_result g ys"
proof (induction ys arbitrary: xs)
  case (Cons y ys)
  then have "all_result f ys = all_result g ys" by simp
  with Cons.prems show ?case by (cases "g y") auto
qed simp

lemma fold_result_append [result_simps]:
  "fold_result f (xs @ ys) s = rbind (fold_result f xs s) (fold_result f ys)"
proof (induction xs arbitrary: s)
  case (Cons x xs)
  then have "fold_result f (xs @ ys) = (\<lambda>t. rbind (fold_result f xs t) (fold_result f ys))" by blast
  then show ?case by (simp add: rbind_assoc)
qed simp

lemma fold_result_invariant:
  assumes "fold_result f xs s = Inr t" "P s"
    and "\<And>x s t. x \<in> set xs \<Longrightarrow> P s \<Longrightarrow> f x s = Inr t \<Longrightarrow> P t"
  shows "P t"
  using assms by (induction xs arbitrary: s) (auto simp: rbind_eq_Inr)

lemma map_result_item: "map_result f xs = Inr ys \<Longrightarrow> y \<in> set ys \<Longrightarrow> \<exists>x \<in> set xs. f x = Inr y"
  by (induction xs arbitrary: ys) (auto simp: rbind_eq_Inr)

lemma map_result_source: "map_result f xs = Inr ys \<Longrightarrow> x \<in> set xs \<Longrightarrow> \<exists>y \<in> set ys. f x = Inr y"
  by (induction xs arbitrary: ys) (auto simp: rbind_eq_Inr)

lemma io_return_Inr [simp]: "io_return x w = Inr r \<longleftrightarrow> r = (x, w)"
  and io_return_Inl [simp]: "io_return x w \<noteq> Inl e"
  and io_raise_Inr [simp]: "io_raise e w \<noteq> Inr r"
  and io_raise_Inl [simp]: "io_raise e w = Inl e' \<longleftrightarrow> e' = e"
  by (auto simp: io_return_def io_raise_def)

lemma io_bind_Inr [result_simps]:
  "io_bind m f w = Inr r \<longleftrightarrow> (\<exists>x w'. m w = Inr (x, w') \<and> f x w' = Inr r)"
  by (auto simp: io_bind_def rbind_eq_Inr)

lemma io_bind_Inl [result_simps]:
  "io_bind m f w = Inl e \<longleftrightarrow> m w = Inl e \<or> (\<exists>x w'. m w = Inr (x, w') \<and> f x w' = Inl e)"
  by (auto simp: io_bind_def rbind_eq_Inl)

lemma io_lift_Inr [result_simps]: "io_lift r w = Inr (x, w') \<longleftrightarrow> r = Inr x \<and> w' = w"
  and io_lift_Inl [result_simps]: "io_lift r w = Inl e \<longleftrightarrow> r = Inl e"
  by (cases r; auto simp: io_lift_def)+

lemma io_map_Inr:
  assumes "io_map f xs w = Inr (ys, w')"
  shows "list_all2 (\<lambda>x y. \<exists>v v'. f x v = Inr (y, v')) xs ys"
  using assms by (induction xs arbitrary: ys w) (auto simp: io_bind_Inr)

lemma io_map_Inl: "io_map f xs w = Inl e \<Longrightarrow> \<exists>x \<in> set xs. \<exists>v. f x v = Inl e"
  by (induction xs arbitrary: w) (auto simp: io_bind_Inl)

lemma io_fold_append_Inr:
  "io_fold f (xs @ ys) s w = Inr r \<longleftrightarrow> (\<exists>t v. io_fold f xs s w = Inr (t, v) \<and> io_fold f ys t v = Inr r)"
  by (induction xs arbitrary: s w) (auto simp: io_bind_Inr)

lemma io_fold_invariant:
  assumes "io_fold f xs s w = Inr (t, v)" "P s"
    and "\<And>x s w t v. x \<in> set xs \<Longrightarrow> P s \<Longrightarrow> f x s w = Inr (t, v) \<Longrightarrow> P t"
  shows "P t"
  using assms
proof (induction xs arbitrary: s w)
  case (Cons x xs)
  from Cons.prems(1) obtain u w' where "f x s w = Inr (u, w')" "io_fold f xs u w' = Inr (t, v)"
    by (auto simp: io_bind_Inr)
  moreover from this Cons.prems have "P u" by (meson list.set_intros(1))
  ultimately show ?case using Cons by (meson list.set_intros(2))
qed simp

lemma io_fold_Inl:
  assumes "io_fold f xs s w = Inl e"
  shows "\<exists>before x after t v. xs = before @ x # after \<and> io_fold f before s w = Inr (t, v) \<and> f x t v = Inl e"
  using assms
proof (induction xs arbitrary: s w)
  case (Cons x xs)
  show ?case
  proof (cases "f x s w")
    case (Inl e')
    with Cons.prems have "f x s w = Inl e" by (simp add: io_bind_Inl)
    then have "x # xs = [] @ x # xs \<and> io_fold f [] s w = Inr (s, w) \<and> f x s w = Inl e" by simp
    then show ?thesis by blast
  next
    case (Inr r)
    then obtain t v where r: "f x s w = Inr (t, v)" by (cases r) auto
    with Cons.prems have "io_fold f xs t v = Inl e" by (auto simp: io_bind_Inl)
    with Cons.IH obtain before y after t' v' where
      "xs = before @ y # after" "io_fold f before t v = Inr (t', v')" "f y t' v' = Inl e" by blast
    with r have "x # xs = (x # before) @ y # after \<and> io_fold f (x # before) s w = Inr (t', v')
        \<and> f y t' v' = Inl e" by (auto simp: io_bind_Inr)
    then show ?thesis by blast
  qed
qed simp

lemma is_ok_iff [simp]: "is_ok r \<longleftrightarrow> (\<exists>x. r = Inr x)"
  by (cases r) (auto simp: is_ok_def)

section \<open>Facts about dictionaries\<close>

lemma map_of_dput [simp, dict_simps]: "map_of (dput k v d) = (map_of d)(k \<mapsto> v)"
  by (induction d) auto

lemma dkeys_simps [simp]: "dkeys [] = []" "dkeys ((k, v) # d) = k # dkeys d"
  by (simp_all add: dkeys_def)

lemma dkeys_dput: "dkeys (dput k v d) = (if k \<in> set (dkeys d) then dkeys d else dkeys d @ [k])"
  by (induction d) auto

lemma set_dkeys_dput [simp]: "set (dkeys (dput k v d)) = insert k (set (dkeys d))"
  by (auto simp: dkeys_dput)

lemma wf_dict_dput [intro]: "wf_dict d \<Longrightarrow> wf_dict (dput k v d)"
  by (auto simp: wf_dict_def dkeys_dput)

lemma has_key_map_of [dict_simps]: "has_key d k \<longleftrightarrow> map_of d k \<noteq> None"
  by (auto simp: has_key_def dkeys_def map_of_eq_None_iff)

lemma wf_dict_Nil [simp]: "wf_dict []"
  by (simp add: wf_dict_def)

lemma map_of_dupdate [simp, dict_simps]: "map_of (dupdate a b) k =
    (case map_of (rev b) k of None \<Rightarrow> map_of a k | Some v \<Rightarrow> Some v)"
  by (induction a b rule: dupdate.induct) (auto split: option.splits simp: map_add_def)

lemma set_dkeys_dupdate [simp]: "set (dkeys (dupdate a b)) = set (dkeys a) \<union> set (dkeys b)"
  by (induction a b rule: dupdate.induct) auto

lemma wf_dict_dupdate [intro]: "wf_dict a \<Longrightarrow> wf_dict (dupdate a b)"
  by (induction a b rule: dupdate.induct) auto

lemma dput_append: "k \<notin> set (dkeys d) \<Longrightarrow> dput k v d = d @ [(k, v)]"
  by (induction d) auto

lemma dput_same: "map_of d k = Some v \<Longrightarrow> dput k v d = d"
  by (induction d) (auto split: if_splits)

lemma dkeys_append [simp]: "dkeys (d @ d') = dkeys d @ dkeys d'"
  by (simp add: dkeys_def)

text \<open>Rebuilding a dictionary entry by entry gives the same dictionary.\<close>

lemma dupdate_fresh: "distinct (dkeys (a @ b)) \<Longrightarrow> dupdate a b = a @ b"
proof (induction a b rule: dupdate.induct)
  case (2 a k v b)
  then have "dput k v a = a @ [(k, v)]" by (simp add: dput_append)
  with 2 show ?case by simp
qed simp

lemma map_of_in_dkeys: "map_of d k = Some v \<Longrightarrow> k \<in> set (dkeys d)"
  by (metis dkeys_def fst_conv imageI image_set map_of_SomeD)

lemma get_or_Some [simp]: "map_of d k = Some v \<Longrightarrow> get_or w d k = v"
  and get_or_None [simp]: "map_of d k = None \<Longrightarrow> get_or w d k = w"
  by (simp_all add: get_or_def)

lemma get_or_Cons [simp]: "get_or w ((k', v) # d) k = (if k' = k then v else get_or w d k)"
  and get_or_Nil [simp]: "get_or w [] k = w"
  by (simp_all add: get_or_def)

lemma nonempty_text_Some [simp]: "nonempty_text v = Some s \<longleftrightarrow> v = PStr s \<and> s \<noteq> []"
  by (cases v) auto

lemma plain_int_Some [simp]: "plain_int v = Some n \<longleftrightarrow> v = PInt n"
  by (cases v) auto

section \<open>Facts about text and numbers\<close>

lemma of_char_digit_char: "n < 10 \<Longrightarrow> (of_char (digit_char n) :: nat) = 48 + n"
  by (simp add: digit_char_def)

lemma digit_value_digit_char [text_simps]: "n < 10 \<Longrightarrow> digit_value (digit_char n) = n"
  by (simp add: digit_value_def of_char_digit_char)

lemma is_digit_digit_char [text_simps]: "n < 10 \<Longrightarrow> is_digit (digit_char n)"
  by (simp add: is_digit_def of_char_digit_char Let_def)

lemma read_nat_snoc: "read_nat (s @ [c]) = read_nat s * 10 + digit_value c"
  by (simp add: read_nat_def)

lemma read_show_nat [simp]: "read_nat (show_nat n) = n"
proof (induction n rule: show_nat.induct)
  case (1 n)
  show ?case
  proof (cases "n < 10")
    case True
    then show ?thesis
      by (subst show_nat.simps) (simp add: read_nat_def digit_value_digit_char)
  next
    case False
    with 1 show ?thesis
      by (subst show_nat.simps) (simp add: read_nat_snoc digit_value_digit_char)
  qed
qed

lemma show_nat_inject [simp]: "show_nat m = show_nat n \<longleftrightarrow> m = n"
  by (metis read_show_nat)

lemma show_nat_digits: "c \<in> set (show_nat n) \<Longrightarrow> is_digit c"
proof (induction n rule: show_nat.induct)
  case (1 n)
  show ?case
  proof (cases "n < 10")
    case True
    with 1 show ?thesis
      by (subst (asm) (2) show_nat.simps) (simp add: is_digit_digit_char)
  next
    case False
    with 1 show ?thesis
      by (subst (asm) (2) show_nat.simps) (auto simp: is_digit_digit_char)
  qed
qed

lemma show_nat_nonempty [simp]: "show_nat n \<noteq> []"
  by (subst show_nat.simps) auto

lemma starts_with_append [simp]: "starts_with (p @ s) p"
  by (induction p) auto

lemma starts_with_iff: "starts_with s p \<longleftrightarrow> (\<exists>t. s = p @ t)"
  by (induction s p rule: starts_with.induct) auto

lemma contains_text_iff: "contains_text s p \<longleftrightarrow> (\<exists>a b. s = a @ p @ b)"
proof (induction s)
  case (Cons c s)
  show ?case
  proof
    assume "contains_text (c # s) p"
    with Cons show "\<exists>a b. c # s = a @ p @ b"
      by (metis append_Cons append_Nil contains_text.simps(2) starts_with_iff)
  next
    assume "\<exists>a b. c # s = a @ p @ b"
    then obtain a b where ab: "c # s = a @ p @ b" by blast
    show "contains_text (c # s) p"
    proof (cases a)
      case Nil
      with ab have "starts_with (c # s) p" by (simp add: starts_with_iff)
      then show ?thesis by simp
    next
      case (Cons x xs)
      with ab have "s = xs @ p @ b" by simp
      with Cons.IH show ?thesis by auto
    qed
  qed
qed auto

lemma strip_by_ends:
  assumes "s \<noteq> []" "\<not> p (hd s)" "\<not> p (last s)"
  shows "strip_by p s = s"
proof -
  have "dropWhile p s = s" using assms(1,2) by (cases s) auto
  moreover have "dropWhile p (rev s) = rev s" using assms(1,3) by (cases s rule: rev_cases) auto
  ultimately show ?thesis by (simp add: strip_by_def)
qed

lemma strip_by_result:
  assumes "strip_by p s \<noteq> []"
  shows "\<not> p (hd (strip_by p s))" "\<not> p (last (strip_by p s))"
proof -
  let ?t = "rev (dropWhile p s)"
  have some: "dropWhile p ?t \<noteq> []" using assms by (simp add: strip_by_def)
  show "\<not> p (last (strip_by p s))"
    using hd_dropWhile [OF some] some by (simp add: strip_by_def last_rev)
  obtain pre where pre: "?t = pre @ dropWhile p ?t" by (metis takeWhile_dropWhile_id)
  then have front: "dropWhile p s = strip_by p s @ rev pre" by (metis rev_append rev_rev_ident strip_by_def)
  then have "dropWhile p s \<noteq> []" "hd (dropWhile p s) = hd (strip_by p s)" using assms by simp_all
  with hd_dropWhile show "\<not> p (hd (strip_by p s))" by metis
qed

lemma py_strip_idem [simp]: "py_strip (py_strip s) = py_strip s"
proof (cases "py_strip s = []")
  case False
  then show ?thesis using strip_by_result [of is_space s] strip_by_ends by (simp add: py_strip_def)
next
  case True
  show ?thesis unfolding True by (simp add: py_strip_def strip_by_def)
qed

lemma sci_scale:
  assumes "0 < b" "e \<le> snd x"
  shows "sci_val b x = of_int (fst x * b ^ nat (snd x - e)) * (of_int b powi e)"
proof -
  have "(of_int b :: rat) powi snd x = of_int b powi (snd x - e) * of_int b powi e"
    using assms by (simp flip: power_int_add)
  moreover have "(of_int b :: rat) powi (snd x - e) = of_int (b ^ nat (snd x - e))"
    using assms by (simp add: power_int_def)
  ultimately show ?thesis by (simp add: sci_val_def)
qed

lemma sci_align_val:
  assumes "0 < b"
  obtains c where "0 < c" "sci_val b x = of_int (fst (sci_align b x y)) * c"
    "sci_val b y = of_int (snd (sci_align b x y)) * c"
proof
  let ?e = "min (snd x) (snd y)"
  show "0 < (of_int b :: rat) powi ?e" using assms by simp
  show "sci_val b x = of_int (fst (sci_align b x y)) * (of_int b powi ?e)"
    using sci_scale [OF assms, of ?e x] by (simp add: sci_align_def Let_def)
  show "sci_val b y = of_int (snd (sci_align b x y)) * (of_int b powi ?e)"
    using sci_scale [OF assms, of ?e y] by (simp add: sci_align_def Let_def)
qed

lemma sci_eq_val: "0 < b \<Longrightarrow> sci_eq b x y \<longleftrightarrow> sci_val b x = sci_val b y"
  by (rule sci_align_val [of b x y]) (auto simp: sci_eq_def split: prod.splits)

lemma sci_less_val: "0 < b \<Longrightarrow> sci_less b x y \<longleftrightarrow> sci_val b x < sci_val b y"
  by (rule sci_align_val [of b x y]) (auto simp: sci_less_def split: prod.splits)

lemma extended_eq_refl [simp]: "extended_eq a a"
  by (cases a) (simp_all add: sci_eq_val)

lemma extended_eq_sym: "extended_eq a b \<Longrightarrow> extended_eq b a"
  by (cases a; cases b) (simp_all add: sci_eq_val)

lemma extended_eq_trans: "extended_eq a b \<Longrightarrow> extended_eq b c \<Longrightarrow> extended_eq a c"
  by (cases a; cases b; cases c) (simp_all add: sci_eq_val)

section \<open>What a computation keeps\<close>

text \<open>A relation between the states before and after is kept by a computation when every successful
  run of it satisfies the relation; for a preorder the combinators pass this on.\<close>

definition io_keeps :: "('w \<Rightarrow> 'w \<Rightarrow> bool) \<Rightarrow> ('w, 'a) io \<Rightarrow> bool" where
  "io_keeps R m \<longleftrightarrow> (\<forall>w x w'. m w = Inr (x, w') \<longrightarrow> R w w')"

locale state_preorder =
  fixes R :: "'w \<Rightarrow> 'w \<Rightarrow> bool"
  assumes R_refl: "R w w" and R_trans: "R w w' \<Longrightarrow> R w' w'' \<Longrightarrow> R w w''"
begin

lemma keeps_return: "io_keeps R (io_return x)"
  by (auto simp: io_keeps_def R_refl)

lemma keeps_raise: "io_keeps R (io_raise e)"
  by (auto simp: io_keeps_def)

lemma keeps_lift: "io_keeps R (io_lift r)"
  by (auto simp: io_keeps_def io_lift_Inr R_refl)

lemma keeps_bind: "io_keeps R m \<Longrightarrow> (\<And>x. io_keeps R (f x)) \<Longrightarrow> io_keeps R (io_bind m f)"
  unfolding io_keeps_def io_bind_Inr by (blast intro: R_trans)

lemma keeps_map: "(\<And>x. x \<in> set xs \<Longrightarrow> io_keeps R (f x)) \<Longrightarrow> io_keeps R (io_map f xs)"
  by (induction xs) (auto intro!: keeps_return keeps_bind)

lemma keeps_if: "io_keeps R m \<Longrightarrow> io_keeps R n \<Longrightarrow> io_keeps R (if b then m else n)"
  by simp

lemmas keeps_intros = keeps_return keeps_raise keeps_lift keeps_bind keeps_map keeps_if

end

lemma io_keepsD: "io_keeps R m \<Longrightarrow> m w = Inr (x, w') \<Longrightarrow> R w w'"
  by (simp add: io_keeps_def)

lemma io_keeps_mono: "io_keeps R m \<Longrightarrow> (\<And>w w'. R w w' \<Longrightarrow> S w w') \<Longrightarrow> io_keeps S m"
  by (auto simp: io_keeps_def)

lemma keeps_option:
  "io_keeps R m \<Longrightarrow> (\<And>x. io_keeps R (f x)) \<Longrightarrow> io_keeps R (case v of None \<Rightarrow> m | Some x \<Rightarrow> f x)"
  by (cases v) simp_all

end
