(* ===== verification/Edit_Plan.thy ===== *)
theory Edit_Plan
  imports Prelude
begin

text \<open>
  \<^verbatim>\<open>domain/action_runtime/edit_plan.py\<close>: the immutable set of edits one action submission will
  commit, and the structural validation every plan passes before the committer sees it.
  The abstract promise is \<open>plan_consistent\<close>; \<open>validate_edit_plan_iff\<close> shows that the validator
  accepts exactly the consistent plans.
\<close>

section \<open>Data\<close>

record object_ref =
  ref_object_type :: string
  ref_object_id :: string
  ref_version :: int

record object_create =
  oc_operation_key :: string
  oc_rule_id :: string
  oc_object_type :: string
  oc_primary_key :: pyval
  oc_properties :: dict

record object_modify =
  om_operation_key :: string
  om_rule_id :: string
  om_object_type :: string
  om_object_id :: string
  om_expected_version :: int
  om_patch :: dict
  om_should_create_if_absent :: bool

record object_delete =
  od_operation_key :: string
  od_rule_id :: string
  od_object_type :: string
  od_object_id :: string
  od_expected_version :: int

record link_create =
  lc_operation_key :: string
  lc_rule_id :: string
  lc_link_type :: string
  lc_source_object_id :: string
  lc_target_object_id :: string

record link_delete =
  ld_operation_key :: string
  ld_rule_id :: string
  ld_link_type :: string
  ld_source_object_id :: string
  ld_target_object_id :: string

record criteria_read_expectation =
  cr_reference_key :: string
  cr_link_type :: string
  cr_direction :: string
  cr_anchor_object_type :: string
  cr_anchor_object_id :: string
  cr_linked_object_type :: string
  cr_property_name :: string
  cr_aggregation :: string
  cr_snapshot_fingerprint :: string

record edit_plan =
  objects_to_create :: "object_create list"
  objects_to_modify :: "object_modify list"
  objects_to_delete :: "object_delete list"
  links_to_create :: "link_create list"
  links_to_delete :: "link_delete list"
  read_set_versions :: "(string \<times> int) list"
  criteria_read_expectations :: "criteria_read_expectation list"

section \<open>Validation\<close>

definition plan_is_empty :: "edit_plan \<Rightarrow> bool" where
  "plan_is_empty plan =
     (\<not> (objects_to_create plan \<noteq> [] \<or> objects_to_modify plan \<noteq> [] \<or> objects_to_delete plan \<noteq> []
        \<or> links_to_create plan \<noteq> [] \<or> links_to_delete plan \<noteq> []))"

definition all_operation_keys :: "edit_plan \<Rightarrow> string list" where
  "all_operation_keys plan =
     map oc_operation_key (objects_to_create plan)
     @ map om_operation_key (objects_to_modify plan)
     @ map od_operation_key (objects_to_delete plan)
     @ map lc_operation_key (links_to_create plan)
     @ map ld_operation_key (links_to_delete plan)"

definition validate_unique_operation_keys :: "edit_plan \<Rightarrow> unit result" where
  "validate_unique_operation_keys plan =
     (let keys = all_operation_keys plan in
      raise_if (length keys \<noteq> card (set keys))
        (ValidationFailed ''edit plan has duplicate operation keys''))"

definition modify_key :: "object_modify \<Rightarrow> string \<times> string" where
  "modify_key e = (om_object_type e, om_object_id e)"

definition delete_key :: "object_delete \<Rightarrow> string \<times> string" where
  "delete_key e = (od_object_type e, od_object_id e)"

definition validate_object_ids_touched_once :: "edit_plan \<Rightarrow> unit result" where
  "validate_object_ids_touched_once plan =
     (let modify_keys = map modify_key (objects_to_modify plan);
          delete_keys = map delete_key (objects_to_delete plan);
          conflict = set modify_keys \<inter> set delete_keys in
      rbind (raise_if (conflict \<noteq> {})
              (ValidationFailed ''edit plan modifies and deletes the same object'')) (\<lambda>_.
      rbind (raise_if (length modify_keys \<noteq> card (set modify_keys))
              (ValidationFailed ''edit plan modifies the same object twice'')) (\<lambda>_.
      raise_if (length delete_keys \<noteq> card (set delete_keys))
              (ValidationFailed ''edit plan deletes the same object twice''))))"

definition validate_links_reference_live_objects :: "edit_plan \<Rightarrow> unit result" where
  "validate_links_reference_live_objects plan =
     (let deleted = set (map od_object_id (objects_to_delete plan)) in
      each (\<lambda>link.
        let dangling = {lc_source_object_id link, lc_target_object_id link} \<inter> deleted in
        raise_if (dangling \<noteq> {})
          (ValidationFailed ''edit plan creates a link to an object it deletes''))
        (links_to_create plan))"

definition validate_edit_plan :: "edit_plan \<Rightarrow> unit result" where
  "validate_edit_plan plan =
     rbind (raise_if (plan_is_empty plan) (ValidationFailed ''edit plan is empty'')) (\<lambda>_.
     rbind (validate_unique_operation_keys plan) (\<lambda>_.
     rbind (validate_object_ids_touched_once plan) (\<lambda>_.
     validate_links_reference_live_objects plan)))"

section \<open>The abstract promise\<close>

definition plan_edit_count :: "edit_plan \<Rightarrow> nat" where
  "plan_edit_count plan = length (all_operation_keys plan)"

definition plan_consistent :: "edit_plan \<Rightarrow> bool" where
  "plan_consistent plan \<longleftrightarrow>
     0 < plan_edit_count plan
     \<and> distinct (all_operation_keys plan)
     \<and> distinct (map modify_key (objects_to_modify plan) @ map delete_key (objects_to_delete plan))
     \<and> (\<forall>link \<in> set (links_to_create plan). \<forall>d \<in> set (objects_to_delete plan).
          od_object_id d \<noteq> lc_source_object_id link \<and> od_object_id d \<noteq> lc_target_object_id link)"

lemma length_card_distinct: "length xs = card (set xs) \<longleftrightarrow> distinct xs"
  by (metis card_distinct distinct_card)

lemma plan_is_empty_count: "plan_is_empty plan \<longleftrightarrow> plan_edit_count plan = 0"
  by (auto simp: plan_is_empty_def plan_edit_count_def all_operation_keys_def)

lemma validate_unique_operation_keys_iff:
  "validate_unique_operation_keys plan = Inr () \<longleftrightarrow> distinct (all_operation_keys plan)"
  by (simp add: validate_unique_operation_keys_def Let_def length_card_distinct)

lemma validate_object_ids_touched_once_iff:
  "validate_object_ids_touched_once plan = Inr () \<longleftrightarrow>
     distinct (map modify_key (objects_to_modify plan) @ map delete_key (objects_to_delete plan))"
  unfolding validate_object_ids_touched_once_def Let_def rbind_eq_Inr raise_if_Inr not_not
    length_card_distinct distinct_append
  by blast

lemma validate_links_iff:
  "validate_links_reference_live_objects plan = Inr () \<longleftrightarrow>
     (\<forall>link \<in> set (links_to_create plan). \<forall>d \<in> set (objects_to_delete plan).
        od_object_id d \<noteq> lc_source_object_id link \<and> od_object_id d \<noteq> lc_target_object_id link)"
  unfolding validate_links_reference_live_objects_def Let_def each_Inr raise_if_Inr
  by (simp add: image_iff) metis

lemma validate_edit_plan_consistent: "validate_edit_plan plan = Inr () \<longleftrightarrow> plan_consistent plan"
  by (simp add: validate_edit_plan_def rbind_eq_Inr plan_consistent_def plan_is_empty_count
      validate_unique_operation_keys_iff validate_object_ids_touched_once_iff validate_links_iff)

lemma distinct_filter_eq: "distinct xs \<Longrightarrow> length (filter (\<lambda>x. x = k) xs) \<le> 1"
  by (induction xs) (auto simp: filter_empty_conv)

lemma plan_consistent_unique_writer:
  assumes "plan_consistent plan"
  shows "length (filter (\<lambda>e. modify_key e = k) (objects_to_modify plan))
       + length (filter (\<lambda>e. delete_key e = k) (objects_to_delete plan)) \<le> 1"
proof -
  let ?ks = "map modify_key (objects_to_modify plan) @ map delete_key (objects_to_delete plan)"
  have "length (filter (\<lambda>x. x = k) ?ks) \<le> 1"
    using assms by (intro distinct_filter_eq) (simp only: plan_consistent_def)
  then show ?thesis by (simp add: filter_map comp_def)
qed

section \<open>Properties of validation\<close>


definition one_modify_plan :: edit_plan where
  "one_modify_plan = \<lparr>objects_to_create = [], objects_to_modify =
     [\<lparr>om_operation_key = ''k'', om_rule_id = ''r'', om_object_type = ''Order'', om_object_id = ''o1'',
       om_expected_version = 1, om_patch = [], om_should_create_if_absent = False\<rparr>],
     objects_to_delete = [], links_to_create = [], links_to_delete = [], read_set_versions = [],
     criteria_read_expectations = []\<rparr>"


text \<open>Object ids are unique per object type only, yet the link check compares bare ids: a plan that
  deletes the customer \<open>x\<close> and links the untouched order \<open>x\<close> is refused.\<close>

definition cross_type_plan :: edit_plan where
  "cross_type_plan = \<lparr>objects_to_create = [], objects_to_modify = [], objects_to_delete =
     [\<lparr>od_operation_key = ''k1'', od_rule_id = ''r1'', od_object_type = ''Customer'', od_object_id = ''x'',
       od_expected_version = 1\<rparr>],
     links_to_create = [\<lparr>lc_operation_key = ''k2'', lc_rule_id = ''r2'', lc_link_type = ''orderItem'',
       lc_source_object_id = ''x'', lc_target_object_id = ''i1''\<rparr>], links_to_delete = [],
     read_set_versions = [], criteria_read_expectations = []\<rparr>"

lemma link_check_confuses_object_types:
  "validate_edit_plan cross_type_plan
     = Inl (ValidationFailed ''edit plan creates a link to an object it deletes'')"
  by code_simp

end
