(* ===== verification/Action_IR.thy ===== *)
theory Action_IR
  imports Prelude
begin

text \<open>
  \<^verbatim>\<open>domain/action_runtime/value_expression.py\<close> and \<^verbatim>\<open>domain/action_runtime/action_ir.py\<close>: the typed
  value sources of an action rule, their wire parser and evaluator, the ordered rule set of an
  action, and its compile-time validation. \<open>rules_well_ordered\<close> states what the ordering check is
  for; \<open>validate_ordering_iff\<close> shows the check decides it.
\<close>

section \<open>Value expressions\<close>

datatype value_expression =
    LiteralValue pyval
  | ParameterValue string
  | ObjectPropertyValue string string
  | PriorRuleOutputValue string string
  | FunctionOutputValue string
  | CurrentUserValue "string option"
  | CurrentTimeValue string
  | GeneratedIdValue string
  | WebhookResponseValue string

text \<open>The application-provided resolver of the leaf sources; every call may raise, and may read a
  clock or an identifier supply.\<close>

record 'w value_context =
  vc_parameter :: "string \<Rightarrow> ('w, pyval) io"
  vc_object_property :: "string \<Rightarrow> string \<Rightarrow> ('w, pyval) io"
  vc_prior_rule_output :: "string \<Rightarrow> string \<Rightarrow> ('w, pyval) io"
  vc_function_output :: "string \<Rightarrow> ('w, pyval) io"
  vc_current_user :: "string option \<Rightarrow> ('w, pyval) io"
  vc_current_time :: "string \<Rightarrow> ('w, string) io"
  vc_generated_id :: "string \<Rightarrow> ('w, string) io"
  vc_webhook_response :: "string \<Rightarrow> ('w, pyval) io"

fun evaluate_value :: "value_expression \<Rightarrow> ('w, 'z) value_context_scheme \<Rightarrow> ('w, pyval) io" where
  "evaluate_value (LiteralValue value) context = io_return value"
| "evaluate_value (ParameterValue name) context = vc_parameter context name"
| "evaluate_value (ObjectPropertyValue name prop) context = vc_object_property context name prop"
| "evaluate_value (PriorRuleOutputValue rule_id output) context =
     vc_prior_rule_output context rule_id output"
| "evaluate_value (FunctionOutputValue key) context = vc_function_output context key"
| "evaluate_value (CurrentUserValue attribute) context = vc_current_user context attribute"
| "evaluate_value (CurrentTimeValue unit) context =
     io_bind (vc_current_time context unit) (\<lambda>s. io_return (PStr s))"
| "evaluate_value (GeneratedIdValue strategy) context =
     io_bind (vc_generated_id context strategy) (\<lambda>s. io_return (PStr s))"
| "evaluate_value (WebhookResponseValue field) context = vc_webhook_response context field"

definition contextual_time_units :: "string list" where
  "contextual_time_units = [''timestamp'', ''date'']"

definition require_text :: "dict \<Rightarrow> string \<Rightarrow> string result" where
  "require_text payload key = (case nonempty_text (get_val payload key) of
     None \<Rightarrow> Inl (ValidationFailed ''value expression field is required'')
   | Some s \<Rightarrow> Inr s)"

definition parse_literal :: "dict \<Rightarrow> value_expression result" where
  "parse_literal payload = Inr (LiteralValue (get_val payload ''value''))"

definition parse_parameter :: "dict \<Rightarrow> value_expression result" where
  "parse_parameter payload = rbind (require_text payload ''parameter'') (\<lambda>p. Inr (ParameterValue p))"

definition parse_object_property :: "dict \<Rightarrow> value_expression result" where
  "parse_object_property payload =
     rbind (require_text payload ''parameter'') (\<lambda>p.
     rbind (require_text payload ''property'') (\<lambda>q. Inr (ObjectPropertyValue p q)))"

definition parse_prior_rule_output :: "dict \<Rightarrow> value_expression result" where
  "parse_prior_rule_output payload =
     rbind (require_text payload ''ruleId'') (\<lambda>r.
     rbind (require_text payload ''output'') (\<lambda>out. Inr (PriorRuleOutputValue r out)))"

definition parse_function_output :: "dict \<Rightarrow> value_expression result" where
  "parse_function_output payload = rbind (require_text payload ''key'') (\<lambda>k. Inr (FunctionOutputValue k))"

definition parse_current_user :: "dict \<Rightarrow> value_expression result" where
  "parse_current_user payload = Inr (CurrentUserValue (nonempty_text (get_val payload ''attribute'')))"

definition parse_current_time :: "dict \<Rightarrow> value_expression result" where
  "parse_current_time payload =
     rbind (require_text payload ''unit'') (\<lambda>unit.
     rbind (raise_if (unit \<notin> set contextual_time_units)
             (ValidationFailed ''unsupported current-time unit'')) (\<lambda>_.
     Inr (CurrentTimeValue unit)))"

definition parse_generated_id :: "dict \<Rightarrow> value_expression result" where
  "parse_generated_id payload = rbind (require_text payload ''strategy'') (\<lambda>s. Inr (GeneratedIdValue s))"

definition parse_webhook_response :: "dict \<Rightarrow> value_expression result" where
  "parse_webhook_response payload = rbind (require_text payload ''field'') (\<lambda>f. Inr (WebhookResponseValue f))"

definition value_parsers :: "(string \<times> (dict \<Rightarrow> value_expression result)) list" where
  "value_parsers =
     [(''literal'', parse_literal), (''parameter'', parse_parameter),
      (''objectProperty'', parse_object_property), (''priorRuleOutput'', parse_prior_rule_output),
      (''functionOutput'', parse_function_output), (''currentUser'', parse_current_user),
      (''currentTime'', parse_current_time), (''generatedId'', parse_generated_id),
      (''webhookResponse'', parse_webhook_response)]"

definition parse_value_expression :: "dict \<Rightarrow> value_expression result" where
  "parse_value_expression payload =
     (case map_of value_parsers (py_str (get_val payload ''kind'')) of
        None \<Rightarrow> Inl (ValidationFailed ''unsupported value expression kind'')
      | Some parser \<Rightarrow> parser payload)"

section \<open>Rules\<close>

record property_assignment =
  pa_property :: string
  pa_value :: value_expression

datatype action_rule =
    CreateObjectRule (rule_id_of: string) string "value_expression option" "property_assignment list"
      "string option"
  | ModifyObjectRule (rule_id_of: string) string value_expression "property_assignment list" string bool
      "string option"
  | DeleteObjectRule (rule_id_of: string) string value_expression string "string option"
  | CreateLinkRule (rule_id_of: string) string value_expression value_expression "string option" "string option"
  | DeleteLinkRule (rule_id_of: string) string value_expression value_expression "string option" "string option"
  | ResolvedInterfaceLinkDeleteRule (rule_id_of: string) "string list" value_expression value_expression
  | FunctionEditRule (rule_id_of: string) string string

record action_definition_v2 =
  api_name :: string
  rules :: "action_rule list"

fun iter_value_expressions :: "action_rule \<Rightarrow> value_expression list" where
  "iter_value_expressions (CreateObjectRule _ _ primary_key assignments _) =
     (case primary_key of None \<Rightarrow> [] | Some e \<Rightarrow> [e]) @ map pa_value assignments"
| "iter_value_expressions (ModifyObjectRule _ _ target assignments _ _ _) = target # map pa_value assignments"
| "iter_value_expressions (DeleteObjectRule _ _ target _ _) = [target]"
| "iter_value_expressions (CreateLinkRule _ _ source target _ _) = [source, target]"
| "iter_value_expressions (DeleteLinkRule _ _ source target _ _) = [source, target]"
| "iter_value_expressions (ResolvedInterfaceLinkDeleteRule _ _ source target) = [source, target]"
| "iter_value_expressions (FunctionEditRule _ _ _) = []"

fun prior_rule_id :: "value_expression \<Rightarrow> string option" where
  "prior_rule_id (PriorRuleOutputValue rule_id _) = Some rule_id"
| "prior_rule_id _ = None"

definition referenced_prior_rule_ids :: "action_rule \<Rightarrow> string list" where
  "referenced_prior_rule_ids rule = remdups (List.map_filter prior_rule_id (iter_value_expressions rule))"

fun is_create_rule :: "action_rule \<Rightarrow> bool" where
  "is_create_rule (CreateObjectRule _ _ _ _ _) = True"
| "is_create_rule _ = False"

fun is_delete_rule :: "action_rule \<Rightarrow> bool" where
  "is_delete_rule (DeleteObjectRule _ _ _ _ _) = True"
| "is_delete_rule _ = False"

fun is_function_rule :: "action_rule \<Rightarrow> bool" where
  "is_function_rule (FunctionEditRule _ _ _) = True"
| "is_function_rule _ = False"

text \<open>\<^verbatim>\<open>getattr(rule.primary_key, "value", None)\<close>: of the value sources only a literal has a
  \<^verbatim>\<open>value\<close> attribute.\<close>

fun literal_primary_key :: "action_rule \<Rightarrow> (string \<times> string) option" where
  "literal_primary_key (CreateObjectRule _ object_type (Some (LiteralValue (PStr key))) _ _) =
     (if key = [] then None else Some (object_type, key))"
| "literal_primary_key _ = None"

definition literal_primary_keys :: "action_rule list \<Rightarrow> (string \<times> string) list" where
  "literal_primary_keys rs = List.map_filter literal_primary_key rs"

section \<open>Validation\<close>

fun validate_unique_rule_ids_from :: "string list \<Rightarrow> action_rule list \<Rightarrow> unit result" where
  "validate_unique_rule_ids_from seen [] = Inr ()"
| "validate_unique_rule_ids_from seen (rule # rs) =
     rbind (raise_if (rule_id_of rule \<in> set seen) (ValidationFailed ''duplicate action rule id'')) (\<lambda>_.
     validate_unique_rule_ids_from (rule_id_of rule # seen) rs)"

definition validate_unique_rule_ids :: "action_rule list \<Rightarrow> unit result" where
  "validate_unique_rule_ids rs = validate_unique_rule_ids_from [] rs"

definition validate_function_exclusivity :: "action_rule list \<Rightarrow> unit result" where
  "validate_function_exclusivity rs =
     raise_if ((\<exists>rule \<in> set rs. is_function_rule rule) \<and> length rs \<noteq> 1)
       (ValidationFailed ''a function rule must be the only rule in the action'')"

fun validate_double_create_from :: "(string \<times> string) list \<Rightarrow> (string \<times> string) list \<Rightarrow> unit result" where
  "validate_double_create_from seen [] = Inr ()"
| "validate_double_create_from seen (key # keys) =
     rbind (raise_if (key \<in> set seen) (ValidationFailed ''object created twice in one action'')) (\<lambda>_.
     validate_double_create_from (key # seen) keys)"

definition validate_double_create :: "action_rule list \<Rightarrow> unit result" where
  "validate_double_create rs = validate_double_create_from [] (literal_primary_keys rs)"

definition check_reference :: "string list \<Rightarrow> string list \<Rightarrow> string \<Rightarrow> unit result" where
  "check_reference created deleted referenced =
     rbind (raise_if (referenced \<notin> set created)
             (ValidationFailed ''rule references an object before it is created'')) (\<lambda>_.
     raise_if (referenced \<in> set deleted)
             (ValidationFailed ''rule references an object after it is deleted''))"

fun validate_ordering_from :: "string list \<Rightarrow> string list \<Rightarrow> action_rule list \<Rightarrow> unit result" where
  "validate_ordering_from created deleted [] = Inr ()"
| "validate_ordering_from created deleted (rule # rs) =
     rbind (each (check_reference created deleted) (referenced_prior_rule_ids rule)) (\<lambda>_.
     if is_create_rule rule then validate_ordering_from (rule_id_of rule # created) deleted rs
     else if is_delete_rule rule
          then validate_ordering_from created (referenced_prior_rule_ids rule @ deleted) rs
     else validate_ordering_from created deleted rs)"

definition validate_ordering :: "action_rule list \<Rightarrow> unit result" where
  "validate_ordering rs = validate_ordering_from [] [] rs"

definition validate_action_definition :: "action_definition_v2 \<Rightarrow> unit result" where
  "validate_action_definition definition =
     (let rs = rules definition in
      rbind (raise_if (rs = []) (ValidationFailed ''action definition has no rules'')) (\<lambda>_.
      rbind (validate_unique_rule_ids rs) (\<lambda>_.
      rbind (validate_function_exclusivity rs) (\<lambda>_.
      rbind (validate_double_create rs) (\<lambda>_.
      validate_ordering rs)))))"

section \<open>What validation guarantees\<close>

definition created_by :: "action_rule list \<Rightarrow> string set" where
  "created_by rs = rule_id_of ` {r \<in> set rs. is_create_rule r}"

definition deleted_by :: "action_rule list \<Rightarrow> string set" where
  "deleted_by rs = (\<Union>r \<in> {r \<in> set rs. is_delete_rule r}. set (referenced_prior_rule_ids r))"

text \<open>Every reference to an earlier rule's output names a create rule that stands before it, and
  no delete rule before it has removed that object.\<close>

definition rules_well_ordered :: "action_rule list \<Rightarrow> bool" where
  "rules_well_ordered rs \<longleftrightarrow>
     (\<forall>before rule after. rs = before @ rule # after \<longrightarrow>
        (\<forall>r \<in> set (referenced_prior_rule_ids rule). r \<in> created_by before \<and> r \<notin> deleted_by before))"

lemma validate_unique_rule_ids_from_iff:
  "validate_unique_rule_ids_from seen rs = Inr () \<longleftrightarrow>
     distinct (map rule_id_of rs) \<and> set (map rule_id_of rs) \<inter> set seen = {}"
  by (induction rs arbitrary: seen) (auto simp: rbind_eq_Inr)

lemma validate_double_create_from_iff:
  "validate_double_create_from seen keys = Inr () \<longleftrightarrow> distinct keys \<and> set keys \<inter> set seen = {}"
  by (induction keys arbitrary: seen) (auto simp: rbind_eq_Inr)

lemma check_reference_iff:
  "check_reference created deleted r = Inr () \<longleftrightarrow> r \<in> set created \<and> r \<notin> set deleted"
  by (simp add: check_reference_def rbind_eq_Inr)

lemma created_by_Cons [simp]:
  "created_by (r # rs) = (if is_create_rule r then {rule_id_of r} else {}) \<union> created_by rs"
  by (auto simp: created_by_def)

lemma deleted_by_Cons [simp]:
  "deleted_by (r # rs) = (if is_delete_rule r then set (referenced_prior_rule_ids r) else {}) \<union> deleted_by rs"
  by (auto simp: deleted_by_def)

lemma created_deleted_Nil [simp]: "created_by [] = {}" "deleted_by [] = {}"
  by (simp_all add: created_by_def deleted_by_def)

text \<open>The ordering invariant with the state the loop carries.\<close>

definition well_ordered_from :: "string set \<Rightarrow> string set \<Rightarrow> action_rule list \<Rightarrow> bool" where
  "well_ordered_from C D rs \<longleftrightarrow>
     (\<forall>before rule after. rs = before @ rule # after \<longrightarrow>
        (\<forall>r \<in> set (referenced_prior_rule_ids rule).
           r \<in> C \<union> created_by before \<and> r \<notin> D \<union> deleted_by before))"

lemma well_ordered_from_Nil [simp]: "well_ordered_from C D []"
  by (simp add: well_ordered_from_def)

lemma well_ordered_from_Cons:
  "well_ordered_from C D (rule # rs) \<longleftrightarrow>
     (\<forall>r \<in> set (referenced_prior_rule_ids rule). r \<in> C \<and> r \<notin> D)
     \<and> well_ordered_from (C \<union> created_by [rule]) (D \<union> deleted_by [rule]) rs"
  (is "?L \<longleftrightarrow> ?R \<and> ?S")
proof
  assume L: ?L
  have H: "x \<in> C \<union> created_by before \<and> x \<notin> D \<union> deleted_by before"
    if "rule # rs = before @ r # after" "x \<in> set (referenced_prior_rule_ids r)" for before r after x
    using L that unfolding well_ordered_from_def by blast
  have ?R using H [of "[]" rule rs] by simp
  moreover have ?S
    unfolding well_ordered_from_def
  proof (intro allI impI ballI)
    fix before r after x
    assume "rs = before @ r # after" "x \<in> set (referenced_prior_rule_ids r)"
    with H [of "rule # before" r after x]
    show "x \<in> C \<union> created_by [rule] \<union> created_by before \<and> x \<notin> D \<union> deleted_by [rule] \<union> deleted_by before"
      by simp
  qed
  ultimately show "?R \<and> ?S" ..
next
  assume RS: "?R \<and> ?S"
  show ?L
    unfolding well_ordered_from_def
  proof (intro allI impI ballI)
    fix before r after x
    assume eq: "rule # rs = before @ r # after" and x: "x \<in> set (referenced_prior_rule_ids r)"
    show "x \<in> C \<union> created_by before \<and> x \<notin> D \<union> deleted_by before"
    proof (cases before)
      case Nil
      with eq x RS show ?thesis by simp
    next
      case (Cons b bs)
      with eq have "b = rule" "rs = bs @ r # after" by auto
      moreover from this x RS
      have "x \<in> C \<union> created_by [rule] \<union> created_by bs \<and> x \<notin> D \<union> deleted_by [rule] \<union> deleted_by bs"
        unfolding well_ordered_from_def by blast
      ultimately show ?thesis using Cons by simp
    qed
  qed
qed

lemma validate_ordering_from_iff:
  "validate_ordering_from created deleted rs = Inr () \<longleftrightarrow>
     well_ordered_from (set created) (set deleted) rs"
proof (induction rs arbitrary: created deleted)
  case (Cons rule rs)
  show ?case
    by (cases rule) (auto simp: rbind_eq_Inr each_Inr check_reference_iff well_ordered_from_Cons
        Cons.IH insert_commute Un_commute)
qed simp

lemma validate_ordering_iff: "validate_ordering rs = Inr () \<longleftrightarrow> rules_well_ordered rs"
  by (simp add: validate_ordering_def validate_ordering_from_iff well_ordered_from_def rules_well_ordered_def)

lemma validate_action_definition_iff:
  "validate_action_definition d = Inr () \<longleftrightarrow>
     rules d \<noteq> [] \<and> distinct (map rule_id_of (rules d))
     \<and> ((\<exists>r \<in> set (rules d). is_function_rule r) \<longrightarrow> length (rules d) = 1)
     \<and> distinct (literal_primary_keys (rules d))
     \<and> rules_well_ordered (rules d)"
  by (auto simp: validate_action_definition_def Let_def rbind_eq_Inr validate_unique_rule_ids_def
      validate_unique_rule_ids_from_iff validate_function_exclusivity_def validate_double_create_def
      validate_double_create_from_iff validate_ordering_iff)

section \<open>Properties of validation\<close>

text \<open>
  C29. An action definition is accepted exactly when it has a rule, its rule ids are distinct, a function
  rule stands alone, no literal primary key is created twice, and wherever a rule refers to the output of
  an earlier rule, that rule is a create rule before it whose object no delete rule in between has removed.
\<close>

theorem validate_action_definition_exact:
  "validate_action_definition d = Inr () \<longleftrightarrow>
     rules d \<noteq> [] \<and> distinct (map rule_id_of (rules d))
     \<and> ((\<exists>r \<in> set (rules d). is_function_rule r) \<longrightarrow> length (rules d) = 1)
     \<and> distinct (literal_primary_keys (rules d))
     \<and> (\<forall>before rule after. rules d = before @ rule # after \<longrightarrow>
          (\<forall>r \<in> set (referenced_prior_rule_ids rule). r \<in> created_by before \<and> r \<notin> deleted_by before))"
  unfolding validate_action_definition_iff rules_well_ordered_def by (rule refl)

definition create_then_link :: action_definition_v2 where
  "create_then_link = \<lparr>api_name = ''placeOrder'', rules =
     [CreateObjectRule ''r1'' ''Order'' (Some (LiteralValue (PStr ''o1''))) [] None,
      CreateLinkRule ''r2'' ''placedBy'' (PriorRuleOutputValue ''r1'' ''id'') (LiteralValue (PStr ''c1'')) None None]\<rparr>"

theorem validate_action_definition_exact_witness:
  "validate_action_definition create_then_link = Inr ()
   \<and> ''r1'' \<in> created_by [hd (rules create_then_link)] \<and> ''r1'' \<notin> deleted_by [hd (rules create_then_link)]"
proof -
  have ok: "validate_action_definition create_then_link = Inr ()" by code_simp
  have split: "rules create_then_link = [hd (rules create_then_link)] @ last (rules create_then_link) # []"
    by (simp add: create_then_link_def)
  have "''r1'' \<in> set (referenced_prior_rule_ids (last (rules create_then_link)))" by code_simp
  with ok split validate_action_definition_exact [of create_then_link] show ?thesis by blast
qed

end
