(* ===== verification/Plan_Builder.thy ===== *)
theory Plan_Builder
  imports Edit_Plan Action_IR
begin

text \<open>
  \<^verbatim>\<open>domain/action_runtime/edit_plan_builder.py\<close>: the walk that resolves the validated rules of an
  action into concrete edits, through a resolution context that performs all reads.
  Shown: for a validated action the walk adds no error about unknown creations, a link to an object
  created by an earlier rule is bound to that object's identity, and the recorded read set agrees
  with the versions the edits expect.
\<close>

section \<open>The resolution context and the working set\<close>

record 'w plan_context =
  pc_evaluate :: "value_expression \<Rightarrow> ('w, pyval) io"
  pc_resolve_existing_object :: "string \<Rightarrow> value_expression \<Rightarrow> ('w, object_ref) io"
  pc_resolve_existing_object_set :: "string \<Rightarrow> value_expression \<Rightarrow> ('w, object_ref list) io"
  pc_resolve_link_endpoint :: "string \<Rightarrow> string \<Rightarrow> value_expression \<Rightarrow> ('w, string) io"
  pc_resolve_interface_link_deletes ::
    "string list \<Rightarrow> value_expression \<Rightarrow> value_expression \<Rightarrow> ('w, (string \<times> string \<times> string) list) io"
  pc_generate_object_id :: "string \<Rightarrow> ('w, string) io"
  pc_operation_key :: "string \<Rightarrow> string \<Rightarrow> string"

record plan_accumulator =
  acc_creates :: "object_create list"
  acc_modifies :: "object_modify list"
  acc_deletes :: "object_delete list"
  acc_link_creates :: "link_create list"
  acc_link_deletes :: "link_delete list"
  acc_read_versions :: "(string \<times> int) list"
  acc_created_ids :: "(string \<times> string) list"

definition empty_accumulator :: plan_accumulator where
  "empty_accumulator = \<lparr>acc_creates = [], acc_modifies = [], acc_deletes = [], acc_link_creates = [],
     acc_link_deletes = [], acc_read_versions = [], acc_created_ids = []\<rparr>"

definition record_read :: "object_ref \<Rightarrow> plan_accumulator \<Rightarrow> plan_accumulator" where
  "record_read ref acc = acc\<lparr>acc_read_versions := dput (ref_object_id ref) (ref_version ref) (acc_read_versions acc)\<rparr>"

definition to_plan :: "plan_accumulator \<Rightarrow> edit_plan" where
  "to_plan acc = \<lparr>objects_to_create = acc_creates acc, objects_to_modify = acc_modifies acc,
     objects_to_delete = acc_deletes acc, links_to_create = acc_link_creates acc,
     links_to_delete = acc_link_deletes acc, read_set_versions = acc_read_versions acc,
     criteria_read_expectations = []\<rparr>"

section \<open>The rule walk\<close>

definition resolved_properties ::
  "property_assignment list \<Rightarrow> 'w plan_context \<Rightarrow> ('w, dict) io" where
  "resolved_properties assignments context =
     io_bind (io_map (\<lambda>a. io_bind (pc_evaluate context (pa_value a)) (\<lambda>v. io_return (pa_property a, v))) assignments)
       (\<lambda>items. io_return (dupdate [] items))"

definition allocate_object_id ::
  "string \<Rightarrow> value_expression option \<Rightarrow> 'w plan_context \<Rightarrow> ('w, string) io" where
  "allocate_object_id rule_id primary_key context =
     (case primary_key of
        None \<Rightarrow> pc_generate_object_id context rule_id
      | Some (GeneratedIdValue _) \<Rightarrow> pc_generate_object_id context rule_id
      | Some expression \<Rightarrow>
          io_bind (pc_evaluate context expression) (\<lambda>resolved.
          if resolved = PNone \<or> py_str resolved = []
          then io_raise (ValidationFailed ''createObject primary key resolved to an empty value'')
          else io_return (py_str resolved)))"

definition plan_create ::
  "string \<Rightarrow> string \<Rightarrow> value_expression option \<Rightarrow> property_assignment list \<Rightarrow> 'w plan_context
     \<Rightarrow> plan_accumulator \<Rightarrow> ('w, plan_accumulator) io" where
  "plan_create rule_id object_type primary_key assignments context acc =
     io_bind (allocate_object_id rule_id primary_key context) (\<lambda>object_id.
     io_bind (resolved_properties assignments context) (\<lambda>properties.
     io_return (acc\<lparr>acc_created_ids := dput rule_id object_id (acc_created_ids acc),
       acc_creates := acc_creates acc @
         [\<lparr>oc_operation_key = pc_operation_key context rule_id object_id, oc_rule_id = rule_id,
           oc_object_type = object_type, oc_primary_key = PStr object_id, oc_properties = properties\<rparr>]\<rparr>)))"

definition resolve_targets ::
  "string \<Rightarrow> string \<Rightarrow> value_expression \<Rightarrow> 'w plan_context \<Rightarrow> plan_accumulator
     \<Rightarrow> ('w, object_ref list \<times> plan_accumulator) io" where
  "resolve_targets object_type cardinality target context acc =
     io_bind (if cardinality = ''many'' then pc_resolve_existing_object_set context object_type target
              else io_bind (pc_resolve_existing_object context object_type target) (\<lambda>ref. io_return [ref]))
       (\<lambda>refs. io_return (refs, fold record_read refs acc))"

definition plan_modify ::
  "string \<Rightarrow> string \<Rightarrow> value_expression \<Rightarrow> property_assignment list \<Rightarrow> string \<Rightarrow> bool \<Rightarrow> 'w plan_context
     \<Rightarrow> plan_accumulator \<Rightarrow> ('w, plan_accumulator) io" where
  "plan_modify rule_id object_type target assignments cardinality should_create_if_absent context acc =
     io_bind (resolved_properties assignments context) (\<lambda>patch.
     io_bind (resolve_targets object_type cardinality target context acc) (\<lambda>(targets, acc').
     io_return (acc'\<lparr>acc_modifies := acc_modifies acc' @ map (\<lambda>ref.
         \<lparr>om_operation_key = pc_operation_key context rule_id (ref_object_id ref), om_rule_id = rule_id,
          om_object_type = object_type, om_object_id = ref_object_id ref,
          om_expected_version = ref_version ref, om_patch = patch,
          om_should_create_if_absent = should_create_if_absent\<rparr>) targets\<rparr>)))"

definition plan_delete ::
  "string \<Rightarrow> string \<Rightarrow> value_expression \<Rightarrow> string \<Rightarrow> 'w plan_context \<Rightarrow> plan_accumulator
     \<Rightarrow> ('w, plan_accumulator) io" where
  "plan_delete rule_id object_type target cardinality context acc =
     io_bind (resolve_targets object_type cardinality target context acc) (\<lambda>(targets, acc').
     io_return (acc'\<lparr>acc_deletes := acc_deletes acc' @ map (\<lambda>ref.
         \<lparr>od_operation_key = pc_operation_key context rule_id (ref_object_id ref), od_rule_id = rule_id,
          od_object_type = object_type, od_object_id = ref_object_id ref,
          od_expected_version = ref_version ref\<rparr>) targets\<rparr>))"

definition resolve_endpoint ::
  "string \<Rightarrow> string \<Rightarrow> value_expression \<Rightarrow> 'w plan_context \<Rightarrow> plan_accumulator \<Rightarrow> ('w, string) io" where
  "resolve_endpoint link_type role expression context acc =
     (case expression of
        PriorRuleOutputValue rule_id _ \<Rightarrow>
          (case map_of (acc_created_ids acc) rule_id of
             None \<Rightarrow> io_raise (ValidationFailed ''link endpoint references an object not created in this action'')
           | Some created \<Rightarrow> io_return created)
      | _ \<Rightarrow> pc_resolve_link_endpoint context link_type role expression)"

definition plan_link ::
  "bool \<Rightarrow> string \<Rightarrow> string \<Rightarrow> value_expression \<Rightarrow> value_expression \<Rightarrow> 'w plan_context
     \<Rightarrow> plan_accumulator \<Rightarrow> ('w, plan_accumulator) io" where
  "plan_link is_create rule_id link_type source_expr target_expr context acc =
     io_bind (resolve_endpoint link_type ''source'' source_expr context acc) (\<lambda>source.
     io_bind (resolve_endpoint link_type ''target'' target_expr context acc) (\<lambda>target.
     let key = pc_operation_key context rule_id (source @ ''->'' @ target) in
     io_return (if is_create
       then acc\<lparr>acc_link_creates := acc_link_creates acc @
         [\<lparr>lc_operation_key = key, lc_rule_id = rule_id, lc_link_type = link_type,
           lc_source_object_id = source, lc_target_object_id = target\<rparr>]\<rparr>
       else acc\<lparr>acc_link_deletes := acc_link_deletes acc @
         [\<lparr>ld_operation_key = key, ld_rule_id = rule_id, ld_link_type = link_type,
           ld_source_object_id = source, ld_target_object_id = target\<rparr>]\<rparr>)))"

definition plan_interface_link_deletes ::
  "string \<Rightarrow> string list \<Rightarrow> value_expression \<Rightarrow> value_expression \<Rightarrow> 'w plan_context
     \<Rightarrow> plan_accumulator \<Rightarrow> ('w, plan_accumulator) io" where
  "plan_interface_link_deletes rule_id concrete_link_types source_expr target_expr context acc =
     io_bind (pc_resolve_interface_link_deletes context concrete_link_types source_expr target_expr) (\<lambda>endpoints.
     io_return (acc\<lparr>acc_link_deletes := acc_link_deletes acc @ map (\<lambda>(link_type, source, target).
         \<lparr>ld_operation_key = pc_operation_key context rule_id (link_type @ '':'' @ source @ ''->'' @ target),
          ld_rule_id = rule_id, ld_link_type = link_type,
          ld_source_object_id = source, ld_target_object_id = target\<rparr>) endpoints\<rparr>))"

fun apply_rule :: "'w plan_context \<Rightarrow> action_rule \<Rightarrow> plan_accumulator \<Rightarrow> ('w, plan_accumulator) io" where
  "apply_rule context (CreateObjectRule rule_id object_type primary_key assignments _) acc =
     plan_create rule_id object_type primary_key assignments context acc"
| "apply_rule context (ModifyObjectRule rule_id object_type target assignments cardinality upsert _) acc =
     plan_modify rule_id object_type target assignments cardinality upsert context acc"
| "apply_rule context (DeleteObjectRule rule_id object_type target cardinality _) acc =
     plan_delete rule_id object_type target cardinality context acc"
| "apply_rule context (CreateLinkRule rule_id link_type source target _ _) acc =
     plan_link True rule_id link_type source target context acc"
| "apply_rule context (DeleteLinkRule rule_id link_type source target _ _) acc =
     plan_link False rule_id link_type source target context acc"
| "apply_rule context (ResolvedInterfaceLinkDeleteRule rule_id link_types source target) acc =
     plan_interface_link_deletes rule_id link_types source target context acc"
| "apply_rule context (FunctionEditRule _ _ _) acc =
     io_raise (ValidationFailed
       ''function-backed actions are planned by the function edit adapter, not the rule planner'')"

definition build_edit_plan :: "action_definition_v2 \<Rightarrow> 'w plan_context \<Rightarrow> ('w, edit_plan) io" where
  "build_edit_plan definition context =
     io_bind (io_fold (apply_rule context) (rules definition) empty_accumulator) (\<lambda>acc. io_return (to_plan acc))"

section \<open>What a call of the context can raise\<close>

definition context_raises :: "'w plan_context \<Rightarrow> error \<Rightarrow> bool" where
  "context_raises context e \<longleftrightarrow>
     (\<exists>x w. pc_evaluate context x w = Inl e)
     \<or> (\<exists>t x w. pc_resolve_existing_object context t x w = Inl e)
     \<or> (\<exists>t x w. pc_resolve_existing_object_set context t x w = Inl e)
     \<or> (\<exists>t r x w. pc_resolve_link_endpoint context t r x w = Inl e)
     \<or> (\<exists>ts x y w. pc_resolve_interface_link_deletes context ts x y w = Inl e)
     \<or> (\<exists>r w. pc_generate_object_id context r w = Inl e)"

lemma context_raises_intros:
  "pc_evaluate context x w = Inl e \<Longrightarrow> context_raises context e"
  "pc_resolve_existing_object context t x w = Inl e \<Longrightarrow> context_raises context e"
  "pc_resolve_existing_object_set context t x w = Inl e \<Longrightarrow> context_raises context e"
  "pc_resolve_link_endpoint context t r x w = Inl e \<Longrightarrow> context_raises context e"
  "pc_resolve_interface_link_deletes context ts x y w = Inl e \<Longrightarrow> context_raises context e"
  "pc_generate_object_id context r w = Inl e \<Longrightarrow> context_raises context e"
  unfolding context_raises_def by blast+

lemma resolved_properties_raises:
  "resolved_properties assignments context w = Inl e \<Longrightarrow> context_raises context e"
  by (auto simp: resolved_properties_def io_bind_Inl dest!: io_map_Inl intro: context_raises_intros)

lemma resolve_targets_raises:
  "resolve_targets t c x context acc w = Inl e \<Longrightarrow> context_raises context e"
  by (auto simp: resolve_targets_def io_bind_Inl split: if_splits intro: context_raises_intros)

lemma allocate_object_id_raises:
  "allocate_object_id rid pk context w = Inl e \<Longrightarrow>
     context_raises context e \<or> e = ValidationFailed ''createObject primary key resolved to an empty value''"
  by (auto simp: allocate_object_id_def io_bind_Inl split: option.splits value_expression.splits if_splits
      intro: context_raises_intros)

lemma resolve_endpoint_raises:
  assumes "resolve_endpoint t r x context acc w = Inl e"
    and "\<And>rid. prior_rule_id x = Some rid \<Longrightarrow> map_of (acc_created_ids acc) rid \<noteq> None"
  shows "context_raises context e"
  using assms
  by (auto simp: resolve_endpoint_def split: value_expression.splits option.splits intro: context_raises_intros)

section \<open>Invariants of the walk\<close>

text \<open>The created identities are those of the creates planned so far; lists only grow.\<close>

definition created_ids_planned :: "plan_accumulator \<Rightarrow> bool" where
  "created_ids_planned acc \<longleftrightarrow>
     (\<forall>r i. map_of (acc_created_ids acc) r = Some i \<longrightarrow>
        (\<exists>oc \<in> set (acc_creates acc). oc_rule_id oc = r \<and> oc_primary_key oc = PStr i))"

definition reads_match_edits :: "plan_accumulator \<Rightarrow> bool" where
  "reads_match_edits acc \<longleftrightarrow>
     (let touched = (\<lambda>m. (om_object_id m, om_expected_version m)) ` set (acc_modifies acc)
                  \<union> (\<lambda>d. (od_object_id d, od_expected_version d)) ` set (acc_deletes acc) in
      fst ` touched = set (dkeys (acc_read_versions acc))
      \<and> (\<forall>i v. map_of (acc_read_versions acc) i = Some v \<longrightarrow> (i, v) \<in> touched))"

lemma record_read_frame [simp]:
  "acc_creates (record_read ref acc) = acc_creates acc"
  "acc_modifies (record_read ref acc) = acc_modifies acc"
  "acc_deletes (record_read ref acc) = acc_deletes acc"
  "acc_link_creates (record_read ref acc) = acc_link_creates acc"
  "acc_link_deletes (record_read ref acc) = acc_link_deletes acc"
  "acc_created_ids (record_read ref acc) = acc_created_ids acc"
  by (simp_all add: record_read_def)

lemma record_reads_frame [simp]:
  "acc_creates (fold record_read refs acc) = acc_creates acc"
  "acc_modifies (fold record_read refs acc) = acc_modifies acc"
  "acc_deletes (fold record_read refs acc) = acc_deletes acc"
  "acc_link_creates (fold record_read refs acc) = acc_link_creates acc"
  "acc_link_deletes (fold record_read refs acc) = acc_link_deletes acc"
  "acc_created_ids (fold record_read refs acc) = acc_created_ids acc"
  by (induction refs arbitrary: acc) simp_all

lemma record_reads_keys:
  "set (dkeys (acc_read_versions (fold record_read refs acc))) =
     set (dkeys (acc_read_versions acc)) \<union> ref_object_id ` set refs"
  by (induction refs arbitrary: acc) (auto simp: record_read_def)

lemma record_reads_values:
  "map_of (acc_read_versions (fold record_read refs acc)) i = Some v \<Longrightarrow>
     map_of (acc_read_versions acc) i = Some v \<or> (\<exists>ref \<in> set refs. i = ref_object_id ref \<and> v = ref_version ref)"
proof (induction refs arbitrary: acc)
  case (Cons ref refs)
  from Cons.IH [of "record_read ref acc"] Cons.prems show ?case
    by (auto simp: record_read_def split: if_splits)
qed simp

lemmas plan_step_defs = plan_create_def plan_modify_def plan_delete_def plan_link_def
  plan_interface_link_deletes_def resolve_targets_def Let_def

lemma apply_rule_created_ids:
  assumes "apply_rule context rule acc w = Inr (acc', w')"
  shows "dom (map_of (acc_created_ids acc')) = dom (map_of (acc_created_ids acc)) \<union> created_by [rule]"
  using assms by (cases rule) (auto simp: plan_step_defs io_bind_Inr split: if_splits prod.splits)

lemma apply_rule_created_ids_planned:
  assumes "apply_rule context rule acc w = Inr (acc', w')" "created_ids_planned acc"
  shows "created_ids_planned acc'"
  using assms unfolding created_ids_planned_def
  by (cases rule) (auto simp: plan_step_defs io_bind_Inr split: if_splits prod.splits)

lemma apply_rule_grows:
  assumes "apply_rule context rule acc w = Inr (acc', w')"
  shows "set (acc_creates acc) \<subseteq> set (acc_creates acc') \<and> set (acc_link_creates acc) \<subseteq> set (acc_link_creates acc')"
  using assms by (cases rule) (auto simp: plan_step_defs io_bind_Inr split: if_splits prod.splits)

lemma reads_match_edits_step:
  assumes "reads_match_edits acc"
    and "acc_read_versions acc' = acc_read_versions (fold record_read refs acc)"
    and "(\<lambda>m. (om_object_id m, om_expected_version m)) ` set (acc_modifies acc')
           \<union> (\<lambda>d. (od_object_id d, od_expected_version d)) ` set (acc_deletes acc')
         = (\<lambda>m. (om_object_id m, om_expected_version m)) ` set (acc_modifies acc)
           \<union> (\<lambda>d. (od_object_id d, od_expected_version d)) ` set (acc_deletes acc)
           \<union> (\<lambda>ref. (ref_object_id ref, ref_version ref)) ` set refs"
  shows "reads_match_edits acc'"
  using assms(1) unfolding reads_match_edits_def Let_def assms(2,3)
  by (auto simp: record_reads_keys image_Un image_image dest!: record_reads_values)

lemma reads_match_edits_frame:
  assumes "reads_match_edits acc" "acc_modifies acc' = acc_modifies acc" "acc_deletes acc' = acc_deletes acc"
    "acc_read_versions acc' = acc_read_versions acc"
  shows "reads_match_edits acc'"
  using assms by (simp add: reads_match_edits_def)

lemma apply_rule_reads:
  assumes "apply_rule context rule acc w = Inr (acc', w')" "reads_match_edits acc"
  shows "reads_match_edits acc'"
proof (cases rule)
  case ModifyObjectRule
  with assms(1) obtain refs where
    "acc_read_versions acc' = acc_read_versions (fold record_read refs acc)"
    "acc_deletes acc' = acc_deletes acc"
    "(\<lambda>m. (om_object_id m, om_expected_version m)) ` set (acc_modifies acc') =
       (\<lambda>m. (om_object_id m, om_expected_version m)) ` set (acc_modifies acc)
       \<union> (\<lambda>ref. (ref_object_id ref, ref_version ref)) ` set refs"
    by (auto simp: plan_step_defs io_bind_Inr image_Un image_image)
  then show ?thesis by (intro reads_match_edits_step [OF assms(2)]) auto
next
  case DeleteObjectRule
  with assms(1) obtain refs where
    "acc_read_versions acc' = acc_read_versions (fold record_read refs acc)"
    "acc_modifies acc' = acc_modifies acc"
    "(\<lambda>m. (od_object_id m, od_expected_version m)) ` set (acc_deletes acc') =
       (\<lambda>m. (od_object_id m, od_expected_version m)) ` set (acc_deletes acc)
       \<union> (\<lambda>ref. (ref_object_id ref, ref_version ref)) ` set refs"
    by (auto simp: plan_step_defs io_bind_Inr image_Un image_image)
  then show ?thesis by (intro reads_match_edits_step [OF assms(2)]) auto
qed (use assms in \<open>auto simp: plan_step_defs io_bind_Inr elim!: reads_match_edits_frame split: if_splits\<close>)

section \<open>The whole walk\<close>

lemma walk_created_ids:
  assumes "io_fold (apply_rule context) rs acc w = Inr (acc', w')"
  shows "dom (map_of (acc_created_ids acc')) = dom (map_of (acc_created_ids acc)) \<union> created_by rs"
  using assms
proof (induction rs arbitrary: acc w)
  case (Cons rule rs)
  then obtain acc1 w1 where step: "apply_rule context rule acc w = Inr (acc1, w1)"
    and rest: "io_fold (apply_rule context) rs acc1 w1 = Inr (acc', w')" by (auto simp: io_bind_Inr)
  show ?case using Cons.IH [OF rest] apply_rule_created_ids [OF step] by auto
qed simp

lemma walk_grows:
  assumes "io_fold (apply_rule context) rs acc w = Inr (acc', w')"
  shows "set (acc_creates acc) \<subseteq> set (acc_creates acc') \<and> set (acc_link_creates acc) \<subseteq> set (acc_link_creates acc')"
  using io_fold_invariant [OF assms, of "\<lambda>a. set (acc_creates acc) \<subseteq> set (acc_creates a)
      \<and> set (acc_link_creates acc) \<subseteq> set (acc_link_creates a)"] apply_rule_grows
  by (meson dual_order.trans order_refl)

lemma walk_created_ids_planned:
  assumes "io_fold (apply_rule context) rs empty_accumulator w = Inr (acc', w')"
  shows "created_ids_planned acc'"
  by (rule io_fold_invariant [OF assms])
    (auto simp: created_ids_planned_def empty_accumulator_def intro: apply_rule_created_ids_planned
      [unfolded created_ids_planned_def, rule_format])

lemma reads_match_edits_empty: "reads_match_edits empty_accumulator"
  by (simp add: reads_match_edits_def empty_accumulator_def)

lemma walk_reads:
  assumes "io_fold (apply_rule context) rs empty_accumulator w = Inr (acc', w')"
  shows "reads_match_edits acc'"
  by (rule io_fold_invariant [OF assms])
    (auto simp: reads_match_edits_empty intro: apply_rule_reads)

definition endpoint_bound :: "edit_plan \<Rightarrow> value_expression \<Rightarrow> string \<Rightarrow> bool" where
  "endpoint_bound plan expression object_id =
     (case expression of
        PriorRuleOutputValue rule_id _ \<Rightarrow>
          (\<exists>oc \<in> set (objects_to_create plan). oc_rule_id oc = rule_id \<and> oc_primary_key oc = PStr object_id)
      | _ \<Rightarrow> True)"

lemma resolve_endpoint_bound:
  assumes "resolve_endpoint t r x context acc w = Inr (i, w')" "created_ids_planned acc"
    and "set (acc_creates acc) \<subseteq> set (objects_to_create plan)"
  shows "endpoint_bound plan x i"
  using assms
  by (fastforce simp: resolve_endpoint_def endpoint_bound_def created_ids_planned_def
      split: value_expression.splits option.splits)

lemma apply_rule_raises:
  assumes "apply_rule context rule acc w = Inl e"
    and "\<And>r. r \<in> set (referenced_prior_rule_ids rule) \<Longrightarrow> map_of (acc_created_ids acc) r \<noteq> None"
  shows "context_raises context e
       \<or> e = ValidationFailed ''createObject primary key resolved to an empty value''
       \<or> is_function_rule rule \<and> e = ValidationFailed
           ''function-backed actions are planned by the function edit adapter, not the rule planner''"
proof (cases rule)
  case (CreateLinkRule rid lt x y i c)
  have "map_of (acc_created_ids acc) r \<noteq> None" if "prior_rule_id x = Some r \<or> prior_rule_id y = Some r" for r
    using that CreateLinkRule by (intro assms(2)) (auto simp: referenced_prior_rule_ids_def List.map_filter_def)
  with CreateLinkRule assms(1) show ?thesis
    by (auto simp: plan_link_def Let_def io_bind_Inl dest!: resolve_endpoint_raises)
next
  case (DeleteLinkRule rid lt x y i c)
  have "map_of (acc_created_ids acc) r \<noteq> None" if "prior_rule_id x = Some r \<or> prior_rule_id y = Some r" for r
    using that DeleteLinkRule by (intro assms(2)) (auto simp: referenced_prior_rule_ids_def List.map_filter_def)
  with DeleteLinkRule assms(1) show ?thesis
    by (auto simp: plan_link_def Let_def io_bind_Inl dest!: resolve_endpoint_raises)
qed (use assms(1) in \<open>auto simp: plan_create_def plan_modify_def plan_delete_def plan_interface_link_deletes_def
      io_bind_Inl dest!: resolved_properties_raises resolve_targets_raises allocate_object_id_raises
      intro: context_raises_intros\<close>)

section \<open>Properties of the builder\<close>

text \<open>
  Building a plan of a validated action can only fail for a reason the resolution context gives,
  for an explicitly declared primary key that resolves to nothing, or because the action is
  function-backed. In particular the builder's own check that a link endpoint was created in this
  action never fires: compile-time ordering validation has already excluded it.
\<close>

theorem build_edit_plan_error_origin:
  assumes "validate_action_definition definition = Inr ()"
    and "build_edit_plan definition context w = Inl e"
  shows "context_raises context e
       \<or> e = ValidationFailed ''createObject primary key resolved to an empty value''
       \<or> length (rules definition) = 1 \<and> e = ValidationFailed
           ''function-backed actions are planned by the function edit adapter, not the rule planner''"
proof -
  from assms(2) have "io_fold (apply_rule context) (rules definition) empty_accumulator w = Inl e"
    by (auto simp: build_edit_plan_def io_bind_Inl)
  from io_fold_Inl [OF this] obtain before rule after acc v where rs: "rules definition = before @ rule # after"
    and walked: "io_fold (apply_rule context) before empty_accumulator w = Inr (acc, v)"
    and raised: "apply_rule context rule acc v = Inl e"
    by blast
  have valid: "rules_well_ordered (rules definition)"
    "(\<exists>r \<in> set (rules definition). is_function_rule r) \<longrightarrow> length (rules definition) = 1"
    using assms(1) by (auto simp: validate_action_definition_iff)
  have "dom (map_of (acc_created_ids acc)) = created_by before"
    using walk_created_ids [OF walked] by (simp add: empty_accumulator_def)
  with valid(1) rs have "map_of (acc_created_ids acc) r \<noteq> None"
    if "r \<in> set (referenced_prior_rule_ids rule)" for r
    using that unfolding rules_well_ordered_def by blast
  from apply_rule_raises [OF raised this] valid(2) rs show ?thesis by auto
qed

text \<open>A small context over literal sources, at which the properties of the builder are applied.\<close>

definition literal_context :: "unit plan_context" where
  "literal_context =
     (let evaluate = (\<lambda>x. case x of LiteralValue v \<Rightarrow> io_return v
            | _ \<Rightarrow> io_raise (ValidationFailed ''literal sources only''));
          resolve = (\<lambda>t x. io_bind (evaluate x) (\<lambda>v. io_return
            \<lparr>ref_object_type = t, ref_object_id = py_str v, ref_version = 3\<rparr>)) in
      \<lparr>pc_evaluate = evaluate,
       pc_resolve_existing_object = resolve,
       pc_resolve_existing_object_set = (\<lambda>t x. io_bind (resolve t x) (\<lambda>r. io_return [r])),
       pc_resolve_link_endpoint = (\<lambda>t r x. io_bind (evaluate x) (\<lambda>v. io_return (py_str v))),
       pc_resolve_interface_link_deletes = (\<lambda>ts x y. io_return []),
       pc_generate_object_id = (\<lambda>r. io_return (''obj_'' @ r)),
       pc_operation_key = (\<lambda>r d. r @ '':'' @ d)\<rparr>)"

definition order_action :: "pyval \<Rightarrow> action_definition_v2" where
  "order_action key = \<lparr>api_name = ''placeOrder'', rules =
     [CreateObjectRule ''r1'' ''Order'' (Some (LiteralValue key)) [] None,
      ModifyObjectRule ''r2'' ''Customer'' (LiteralValue (PStr ''c1''))
        [\<lparr>pa_property = ''tier'', pa_value = LiteralValue (PStr ''gold'')\<rparr>] ''one'' False None,
      CreateLinkRule ''r3'' ''placedBy'' (PriorRuleOutputValue ''r1'' ''id'') (LiteralValue (PStr ''c1'')) None None]\<rparr>"

definition order_plan :: edit_plan where
  "order_plan =
     \<lparr>objects_to_create = [\<lparr>oc_operation_key = ''r1:o1'', oc_rule_id = ''r1'', oc_object_type = ''Order'',
        oc_primary_key = PStr ''o1'', oc_properties = []\<rparr>],
      objects_to_modify = [\<lparr>om_operation_key = ''r2:c1'', om_rule_id = ''r2'', om_object_type = ''Customer'',
        om_object_id = ''c1'', om_expected_version = 3, om_patch = [(''tier'', PStr ''gold'')],
        om_should_create_if_absent = False\<rparr>],
      objects_to_delete = [],
      links_to_create = [\<lparr>lc_operation_key = ''r3:o1->c1'', lc_rule_id = ''r3'', lc_link_type = ''placedBy'',
        lc_source_object_id = ''o1'', lc_target_object_id = ''c1''\<rparr>],
      links_to_delete = [], read_set_versions = [(''c1'', 3)], criteria_read_expectations = []\<rparr>"

lemma build_order_plan: "build_edit_plan (order_action (PStr ''o1'')) literal_context () = Inr (order_plan, ())"
  by code_simp

theorem build_edit_plan_error_origin_witness:
  "validate_action_definition (order_action PNone) = Inr ()
   \<and> build_edit_plan (order_action PNone) literal_context () =
       Inl (ValidationFailed ''createObject primary key resolved to an empty value'')
   \<and> (context_raises literal_context (ValidationFailed ''createObject primary key resolved to an empty value'')
      \<or> length (rules (order_action PNone)) = 3)"
proof -
  have v: "validate_action_definition (order_action PNone) = Inr ()" by code_simp
  have b: "build_edit_plan (order_action PNone) literal_context () =
      Inl (ValidationFailed ''createObject primary key resolved to an empty value'')" by code_simp
  show ?thesis using v b build_edit_plan_error_origin [OF v b] by (simp add: order_action_def)
qed

text \<open>
  C30. In the plan of an action every create-link rule has its link, and an endpoint that names the
  output of an earlier rule is the primary key of an object that rule creates in the same plan.
\<close>

theorem build_edit_plan_binds_created_links:
  assumes "build_edit_plan definition context w = Inr (plan, w')"
    and "CreateLinkRule rid link_type source target interface constraint \<in> set (rules definition)"
  shows "\<exists>link \<in> set (links_to_create plan). lc_rule_id link = rid \<and> lc_link_type link = link_type
       \<and> endpoint_bound plan source (lc_source_object_id link)
       \<and> endpoint_bound plan target (lc_target_object_id link)"
proof -
  let ?rule = "CreateLinkRule rid link_type source target interface constraint"
  from assms(2) obtain before after where rs: "rules definition = before @ ?rule # after"
    by (meson split_list)
  from assms(1) obtain acc where all: "io_fold (apply_rule context) (rules definition) empty_accumulator w = Inr (acc, w')"
    and plan: "plan = to_plan acc" by (auto simp: build_edit_plan_def io_bind_Inr)
  then obtain acc1 v1 acc2 v2 where walked: "io_fold (apply_rule context) before empty_accumulator w = Inr (acc1, v1)"
    and step: "apply_rule context ?rule acc1 v1 = Inr (acc2, v2)"
    and rest: "io_fold (apply_rule context) after acc2 v2 = Inr (acc, w')"
    unfolding rs by (auto simp: io_fold_append_Inr io_bind_Inr)
  have planned: "created_ids_planned acc1" using walk_created_ids_planned [OF walked] .
  have "set (acc_creates acc1) \<subseteq> set (objects_to_create plan)"
    using apply_rule_grows [OF step] walk_grows [OF rest] plan by (auto simp: to_plan_def)
  note bound = resolve_endpoint_bound [OF _ planned this]
  from step obtain s t v' v'' where ends: "resolve_endpoint link_type ''source'' source context acc1 v1 = Inr (s, v')"
    "resolve_endpoint link_type ''target'' target context acc1 v' = Inr (t, v'')"
    and link: "\<lparr>lc_operation_key = pc_operation_key context rid (s @ ''->'' @ t), lc_rule_id = rid,
        lc_link_type = link_type, lc_source_object_id = s, lc_target_object_id = t\<rparr> \<in> set (acc_link_creates acc2)"
    by (auto simp: plan_link_def Let_def io_bind_Inr)
  have "set (acc_link_creates acc2) \<subseteq> set (links_to_create plan)"
    using walk_grows [OF rest] plan by (simp add: to_plan_def)
  with link have "\<lparr>lc_operation_key = pc_operation_key context rid (s @ ''->'' @ t), lc_rule_id = rid,
        lc_link_type = link_type, lc_source_object_id = s, lc_target_object_id = t\<rparr> \<in> set (links_to_create plan)"
    by blast
  then show ?thesis using bound [OF ends(1)] bound [OF ends(2)] by (intro bexI) auto
qed

theorem build_edit_plan_binds_created_links_witness:
  "\<exists>link \<in> set (links_to_create order_plan). lc_rule_id link = ''r3''
     \<and> endpoint_bound order_plan (PriorRuleOutputValue ''r1'' ''id'') (lc_source_object_id link)"
proof -
  have "CreateLinkRule ''r3'' ''placedBy'' (PriorRuleOutputValue ''r1'' ''id'') (LiteralValue (PStr ''c1'')) None None
      \<in> set (rules (order_action (PStr ''o1'')))" by (simp add: order_action_def)
  from build_edit_plan_binds_created_links [OF build_order_plan this] show ?thesis by blast
qed

text \<open>
  When no object identity is touched twice, the read set a plan records gives for every object it
  modifies or deletes the version that edit expects, and it records nothing else.
\<close>

theorem build_edit_plan_read_set:
  assumes "build_edit_plan definition context w = Inr (plan, w')"
    and "distinct (map om_object_id (objects_to_modify plan) @ map od_object_id (objects_to_delete plan))"
  shows "(\<forall>m \<in> set (objects_to_modify plan).
            map_of (read_set_versions plan) (om_object_id m) = Some (om_expected_version m))
       \<and> (\<forall>d \<in> set (objects_to_delete plan).
            map_of (read_set_versions plan) (od_object_id d) = Some (od_expected_version d))
       \<and> set (dkeys (read_set_versions plan)) =
            om_object_id ` set (objects_to_modify plan) \<union> od_object_id ` set (objects_to_delete plan)"
proof -
  from assms(1) obtain acc where "io_fold (apply_rule context) (rules definition) empty_accumulator w = Inr (acc, w')"
    and plan: "plan = to_plan acc" by (auto simp: build_edit_plan_def io_bind_Inr)
  then have inv: "reads_match_edits acc" by (auto dest: walk_reads)
  have keys: "set (dkeys (read_set_versions plan)) =
      om_object_id ` set (objects_to_modify plan) \<union> od_object_id ` set (objects_to_delete plan)"
    using inv by (simp add: reads_match_edits_def plan to_plan_def image_Un image_image)
  have recorded: "(\<exists>m \<in> set (objects_to_modify plan). om_object_id m = i \<and> om_expected_version m = v)
      \<or> (\<exists>d \<in> set (objects_to_delete plan). od_object_id d = i \<and> od_expected_version d = v)"
    if "map_of (read_set_versions plan) i = Some v" for i v
    using inv that unfolding reads_match_edits_def Let_def plan to_plan_def
    by (elim conjE allE [of _ i] allE [of _ v]) auto
  have read: "\<exists>v. map_of (read_set_versions plan) i = Some v" if "i \<in> set (dkeys (read_set_versions plan))" for i
    using that by (metis dkeys_def map_of_eq_None_iff not_None_eq set_map)
  have once: "inj_on om_object_id (set (objects_to_modify plan))" "inj_on od_object_id (set (objects_to_delete plan))"
    "om_object_id ` set (objects_to_modify plan) \<inter> od_object_id ` set (objects_to_delete plan) = {}"
    using assms(2) by (auto simp: distinct_map)
  have "map_of (read_set_versions plan) (om_object_id m) = Some (om_expected_version m)"
    if m: "m \<in> set (objects_to_modify plan)" for m
  proof -
    obtain v where v: "map_of (read_set_versions plan) (om_object_id m) = Some v"
      using read [of "om_object_id m"] keys m by blast
    with recorded [OF v] once m show ?thesis by (auto dest: inj_onD)
  qed
  moreover have "map_of (read_set_versions plan) (od_object_id d) = Some (od_expected_version d)"
    if d: "d \<in> set (objects_to_delete plan)" for d
  proof -
    obtain v where v: "map_of (read_set_versions plan) (od_object_id d) = Some v"
      using read [of "od_object_id d"] keys d by blast
    with recorded [OF v] once d show ?thesis by (auto dest: inj_onD)
  qed
  ultimately show ?thesis using keys by blast
qed

theorem build_edit_plan_read_set_witness:
  "map_of (read_set_versions order_plan) ''c1'' = Some 3 \<and> length (objects_to_modify order_plan) = 1"
proof -
  have "distinct (map om_object_id (objects_to_modify order_plan) @ map od_object_id (objects_to_delete order_plan))"
    by (simp add: order_plan_def)
  from build_edit_plan_read_set [OF build_order_plan this] show ?thesis by (simp add: order_plan_def)
qed

end
