(* ===== verification/Plan_Manifest.thy ===== *)
theory Plan_Manifest
  imports Edit_Plan "HOL-Library.Multiset" Json_Text
begin

text \<open>
  \<^verbatim>\<open>domain/action_runtime/action_execution_plan.py\<close>: the storage-safe manifest of an edit plan, the
  plan rebuilt from it before asynchronous dispatch, and the sealed hash. The digest of the standard
  library is an argument of \<open>seal_action_execution_plan\<close>; the canonical JSON it is taken over is
  modelled. Shown: a plan whose fields are storable survives the trip through its manifest, and
  whatever manifest is read back yields a storable, consistent plan or an error.
\<close>

section \<open>Writing a manifest\<close>

definition object_create_manifest :: "object_create \<Rightarrow> pyval" where
  "object_create_manifest item = PDict
     [(''operationKey'', PStr (oc_operation_key item)), (''ruleId'', PStr (oc_rule_id item)),
      (''objectType'', PStr (oc_object_type item)), (''objectId'', oc_primary_key item),
      (''properties'', PDict (oc_properties item))]"

definition object_modify_manifest :: "object_modify \<Rightarrow> pyval" where
  "object_modify_manifest item = PDict
     [(''operationKey'', PStr (om_operation_key item)), (''ruleId'', PStr (om_rule_id item)),
      (''objectType'', PStr (om_object_type item)), (''objectId'', PStr (om_object_id item)),
      (''expectedObjectVersion'', PInt (om_expected_version item)), (''patch'', PDict (om_patch item)),
      (''createIfAbsent'', PBool (om_should_create_if_absent item))]"

definition object_delete_manifest :: "object_delete \<Rightarrow> pyval" where
  "object_delete_manifest item = PDict
     [(''operationKey'', PStr (od_operation_key item)), (''ruleId'', PStr (od_rule_id item)),
      (''objectType'', PStr (od_object_type item)), (''objectId'', PStr (od_object_id item)),
      (''expectedObjectVersion'', PInt (od_expected_version item))]"

definition link_manifest :: "string \<Rightarrow> string \<Rightarrow> string \<Rightarrow> string \<Rightarrow> string \<Rightarrow> pyval" where
  "link_manifest operation_key rule_id link_type source_object_id target_object_id = PDict
     [(''operationKey'', PStr operation_key), (''ruleId'', PStr rule_id), (''linkType'', PStr link_type),
      (''sourceObjectId'', PStr source_object_id), (''targetObjectId'', PStr target_object_id)]"

definition link_create_manifest :: "link_create \<Rightarrow> pyval" where
  "link_create_manifest item = link_manifest (lc_operation_key item) (lc_rule_id item) (lc_link_type item)
     (lc_source_object_id item) (lc_target_object_id item)"

definition link_delete_manifest :: "link_delete \<Rightarrow> pyval" where
  "link_delete_manifest item = link_manifest (ld_operation_key item) (ld_rule_id item) (ld_link_type item)
     (ld_source_object_id item) (ld_target_object_id item)"

definition criteria_read_manifest :: "criteria_read_expectation \<Rightarrow> pyval" where
  "criteria_read_manifest item = PDict
     [(''referenceKey'', PStr (cr_reference_key item)), (''linkType'', PStr (cr_link_type item)),
      (''direction'', PStr (cr_direction item)), (''anchorObjectType'', PStr (cr_anchor_object_type item)),
      (''anchorObjectId'', PStr (cr_anchor_object_id item)),
      (''linkedObjectType'', PStr (cr_linked_object_type item)), (''property'', PStr (cr_property_name item)),
      (''aggregation'', PStr (cr_aggregation item)),
      (''snapshotFingerprint'', PStr (cr_snapshot_fingerprint item))]"

definition edit_plan_manifest :: "edit_plan \<Rightarrow> dict" where
  "edit_plan_manifest plan =
     [(''objectCreates'', PList (map object_create_manifest (objects_to_create plan))),
      (''objectModifies'', PList (map object_modify_manifest (objects_to_modify plan))),
      (''objectDeletes'', PList (map object_delete_manifest (objects_to_delete plan))),
      (''linkCreates'', PList (map link_create_manifest (links_to_create plan))),
      (''linkDeletes'', PList (map link_delete_manifest (links_to_delete plan))),
      (''readSetVersions'', PDict (map (\<lambda>(k, v). (k, PInt v)) (sort (read_set_versions plan))))]
     @ (if criteria_read_expectations plan = [] then []
        else [(''criteriaReadSet'', PList (map criteria_read_manifest (criteria_read_expectations plan)))])"

section \<open>Reading a manifest\<close>

fun manifest_mapping :: "pyval \<Rightarrow> dict result" where
  "manifest_mapping (PDict d) = Inr d"
| "manifest_mapping _ = Inl (ValidationFailed ''Action plan manifest field must be an object'')"

definition manifest_items :: "dict \<Rightarrow> string \<Rightarrow> dict list result" where
  "manifest_items manifest key =
     (case get_or (PList []) manifest key of
        PList raw \<Rightarrow> map_result manifest_mapping raw
      | _ \<Rightarrow> Inl (ValidationFailed ''Action plan manifest field must be a list''))"

text \<open>\<^verbatim>\<open>tuple(read(item) for item in _items(manifest, key))\<close>.\<close>

definition manifest_list :: "dict \<Rightarrow> string \<Rightarrow> (dict \<Rightarrow> 'a result) \<Rightarrow> 'a list result" where
  "manifest_list manifest key read = rbind (manifest_items manifest key) (map_result read)"

definition manifest_text :: "dict \<Rightarrow> string \<Rightarrow> string result" where
  "manifest_text item key =
     (case nonempty_text (get_val item key) of
        None \<Rightarrow> Inl (ValidationFailed ''Action plan manifest text field is invalid'')
      | Some s \<Rightarrow> Inr s)"

definition manifest_version :: "dict \<Rightarrow> string \<Rightarrow> int result" where
  "manifest_version item key =
     (case plain_int (get_val item key) of
        None \<Rightarrow> Inl (ValidationFailed ''Action plan manifest version is invalid'')
      | Some n \<Rightarrow> if n < 0 then Inl (ValidationFailed ''Action plan manifest version is invalid'') else Inr n)"

definition read_version_entry :: "string \<times> pyval \<Rightarrow> (string \<times> int) list \<Rightarrow> (string \<times> int) list result" where
  "read_version_entry entry versions =
     (case plain_int (snd entry) of
        None \<Rightarrow> Inl (ValidationFailed ''Action plan read-set version is invalid'')
      | Some n \<Rightarrow> if n < 0 then Inl (ValidationFailed ''Action plan read-set version is invalid'')
                 else Inr (dput (fst entry) n versions))"

definition read_versions :: "pyval \<Rightarrow> (string \<times> int) list result" where
  "read_versions raw =
     rbind (manifest_mapping (if truthy raw then raw else PDict [])) (\<lambda>values.
     fold_result read_version_entry values [])"

definition object_create_of :: "dict \<Rightarrow> object_create result" where
  "object_create_of item =
     rbind (manifest_text item ''operationKey'') (\<lambda>k.
     rbind (manifest_text item ''ruleId'') (\<lambda>r.
     rbind (manifest_text item ''objectType'') (\<lambda>t.
     rbind (manifest_mapping (get_val item ''properties'')) (\<lambda>ps.
     Inr \<lparr>oc_operation_key = k, oc_rule_id = r, oc_object_type = t,
          oc_primary_key = get_val item ''objectId'', oc_properties = ps\<rparr>))))"

definition object_modify_of :: "dict \<Rightarrow> object_modify result" where
  "object_modify_of item =
     rbind (manifest_text item ''operationKey'') (\<lambda>k.
     rbind (manifest_text item ''ruleId'') (\<lambda>r.
     rbind (manifest_text item ''objectType'') (\<lambda>t.
     rbind (manifest_text item ''objectId'') (\<lambda>i.
     rbind (manifest_version item ''expectedObjectVersion'') (\<lambda>v.
     rbind (manifest_mapping (get_val item ''patch'')) (\<lambda>p.
     Inr \<lparr>om_operation_key = k, om_rule_id = r, om_object_type = t, om_object_id = i,
          om_expected_version = v, om_patch = p,
          om_should_create_if_absent = truthy (get_or (PBool False) item ''createIfAbsent'')\<rparr>))))))"

definition object_delete_of :: "dict \<Rightarrow> object_delete result" where
  "object_delete_of item =
     rbind (manifest_text item ''operationKey'') (\<lambda>k.
     rbind (manifest_text item ''ruleId'') (\<lambda>r.
     rbind (manifest_text item ''objectType'') (\<lambda>t.
     rbind (manifest_text item ''objectId'') (\<lambda>i.
     rbind (manifest_version item ''expectedObjectVersion'') (\<lambda>v.
     Inr \<lparr>od_operation_key = k, od_rule_id = r, od_object_type = t, od_object_id = i,
          od_expected_version = v\<rparr>)))))"

definition link_create_of :: "dict \<Rightarrow> link_create result" where
  "link_create_of item =
     rbind (manifest_text item ''operationKey'') (\<lambda>k.
     rbind (manifest_text item ''ruleId'') (\<lambda>r.
     rbind (manifest_text item ''linkType'') (\<lambda>t.
     rbind (manifest_text item ''sourceObjectId'') (\<lambda>s.
     rbind (manifest_text item ''targetObjectId'') (\<lambda>u.
     Inr \<lparr>lc_operation_key = k, lc_rule_id = r, lc_link_type = t, lc_source_object_id = s,
          lc_target_object_id = u\<rparr>)))))"

definition link_delete_of :: "dict \<Rightarrow> link_delete result" where
  "link_delete_of item =
     rbind (manifest_text item ''operationKey'') (\<lambda>k.
     rbind (manifest_text item ''ruleId'') (\<lambda>r.
     rbind (manifest_text item ''linkType'') (\<lambda>t.
     rbind (manifest_text item ''sourceObjectId'') (\<lambda>s.
     rbind (manifest_text item ''targetObjectId'') (\<lambda>u.
     Inr \<lparr>ld_operation_key = k, ld_rule_id = r, ld_link_type = t, ld_source_object_id = s,
          ld_target_object_id = u\<rparr>)))))"

definition criteria_read_of :: "dict \<Rightarrow> criteria_read_expectation result" where
  "criteria_read_of item =
     rbind (manifest_text item ''direction'') (\<lambda>direction.
     rbind (manifest_text item ''aggregation'') (\<lambda>aggregation.
     rbind (raise_if (direction \<notin> {''incoming'', ''outgoing''})
             (ValidationFailed ''Action criteria read direction is invalid'')) (\<lambda>_.
     rbind (raise_if (aggregation \<notin> {''values'', ''count''})
             (ValidationFailed ''Action criteria read aggregation is invalid'')) (\<lambda>_.
     rbind (manifest_text item ''referenceKey'') (\<lambda>k.
     rbind (manifest_text item ''linkType'') (\<lambda>t.
     rbind (manifest_text item ''anchorObjectType'') (\<lambda>atype.
     rbind (manifest_text item ''anchorObjectId'') (\<lambda>ai.
     rbind (manifest_text item ''linkedObjectType'') (\<lambda>lt.
     rbind (manifest_text item ''property'') (\<lambda>p.
     rbind (manifest_text item ''snapshotFingerprint'') (\<lambda>f.
     Inr \<lparr>cr_reference_key = k, cr_link_type = t, cr_direction = direction, cr_anchor_object_type = atype,
          cr_anchor_object_id = ai, cr_linked_object_type = lt, cr_property_name = p,
          cr_aggregation = aggregation, cr_snapshot_fingerprint = f\<rparr>)))))))))))"

definition criteria_read_expectations_from_manifest :: "dict \<Rightarrow> criteria_read_expectation list result" where
  "criteria_read_expectations_from_manifest manifest =
     manifest_list manifest ''criteriaReadSet'' criteria_read_of"

definition edit_plan_from_manifest :: "dict \<Rightarrow> edit_plan result" where
  "edit_plan_from_manifest manifest =
     rbind (manifest_list manifest ''objectCreates'' object_create_of) (\<lambda>creates.
     rbind (manifest_list manifest ''objectModifies'' object_modify_of) (\<lambda>modifies.
     rbind (manifest_list manifest ''objectDeletes'' object_delete_of) (\<lambda>deletes.
     rbind (manifest_list manifest ''linkCreates'' link_create_of) (\<lambda>link_creates.
     rbind (manifest_list manifest ''linkDeletes'' link_delete_of) (\<lambda>link_deletes.
     rbind (read_versions (get_val manifest ''readSetVersions'')) (\<lambda>versions.
     rbind (manifest_list manifest ''criteriaReadSet'' criteria_read_of) (\<lambda>criteria.
     let plan = \<lparr>objects_to_create = creates, objects_to_modify = modifies, objects_to_delete = deletes,
           links_to_create = link_creates, links_to_delete = link_deletes, read_set_versions = versions,
           criteria_read_expectations = criteria\<rparr> in
     rbind (validate_edit_plan plan) (\<lambda>_. Inr plan))))))))"

section \<open>The sealed hash\<close>

definition ignored_plan_fields :: "string list" where
  "ignored_plan_fields = [''planHash'', ''requestId'', ''createdAt'', ''isDryRun'', ''authorization'']"

definition seal_action_execution_plan :: "(string \<Rightarrow> string) \<Rightarrow> dict \<Rightarrow> dict" where
  "seal_action_execution_plan sha256_hex payload =
     (let canonical = filter (\<lambda>(key, v). key \<notin> set ignored_plan_fields) payload;
          encoded = json_dumps (PDict canonical) in
      dput ''planHash'' (PStr (''sha256:'' @ sha256_hex encoded)) payload)"

section \<open>Storable plans\<close>

definition storable_create :: "object_create \<Rightarrow> bool" where
  "storable_create e \<longleftrightarrow> oc_operation_key e \<noteq> [] \<and> oc_rule_id e \<noteq> [] \<and> oc_object_type e \<noteq> []"

definition storable_modify :: "object_modify \<Rightarrow> bool" where
  "storable_modify e \<longleftrightarrow> om_operation_key e \<noteq> [] \<and> om_rule_id e \<noteq> [] \<and> om_object_type e \<noteq> []
     \<and> om_object_id e \<noteq> [] \<and> 0 \<le> om_expected_version e"

definition storable_delete :: "object_delete \<Rightarrow> bool" where
  "storable_delete e \<longleftrightarrow> od_operation_key e \<noteq> [] \<and> od_rule_id e \<noteq> [] \<and> od_object_type e \<noteq> []
     \<and> od_object_id e \<noteq> [] \<and> 0 \<le> od_expected_version e"

definition storable_link_create :: "link_create \<Rightarrow> bool" where
  "storable_link_create e \<longleftrightarrow> lc_operation_key e \<noteq> [] \<and> lc_rule_id e \<noteq> [] \<and> lc_link_type e \<noteq> []
     \<and> lc_source_object_id e \<noteq> [] \<and> lc_target_object_id e \<noteq> []"

definition storable_link_delete :: "link_delete \<Rightarrow> bool" where
  "storable_link_delete e \<longleftrightarrow> ld_operation_key e \<noteq> [] \<and> ld_rule_id e \<noteq> [] \<and> ld_link_type e \<noteq> []
     \<and> ld_source_object_id e \<noteq> [] \<and> ld_target_object_id e \<noteq> []"

definition storable_criteria :: "criteria_read_expectation \<Rightarrow> bool" where
  "storable_criteria e \<longleftrightarrow> cr_direction e \<in> {''incoming'', ''outgoing''} \<and> cr_aggregation e \<in> {''values'', ''count''}
     \<and> cr_reference_key e \<noteq> [] \<and> cr_link_type e \<noteq> [] \<and> cr_anchor_object_type e \<noteq> []
     \<and> cr_anchor_object_id e \<noteq> [] \<and> cr_linked_object_type e \<noteq> [] \<and> cr_property_name e \<noteq> []
     \<and> cr_snapshot_fingerprint e \<noteq> []"

definition storable_plan :: "edit_plan \<Rightarrow> bool" where
  "storable_plan plan \<longleftrightarrow>
     list_all storable_create (objects_to_create plan) \<and> list_all storable_modify (objects_to_modify plan)
     \<and> list_all storable_delete (objects_to_delete plan) \<and> list_all storable_link_create (links_to_create plan)
     \<and> list_all storable_link_delete (links_to_delete plan)
     \<and> list_all storable_criteria (criteria_read_expectations plan)
     \<and> wf_dict (read_set_versions plan) \<and> list_all (\<lambda>(k, v). 0 \<le> v) (read_set_versions plan)"

lemmas storable_defs = storable_create_def storable_modify_def storable_delete_def
  storable_link_create_def storable_link_delete_def storable_criteria_def
lemmas manifest_defs = object_create_manifest_def object_modify_manifest_def object_delete_manifest_def
  link_create_manifest_def link_delete_manifest_def link_manifest_def criteria_read_manifest_def
lemmas of_manifest_defs = object_create_of_def object_modify_of_def object_delete_of_def
  link_create_of_def link_delete_of_def criteria_read_of_def

lemma manifest_text_Inr [simp]: "manifest_text d k = Inr s \<longleftrightarrow> get_val d k = PStr s \<and> s \<noteq> []"
  by (auto simp: manifest_text_def split: option.splits if_splits)

lemma manifest_version_Inr [simp]: "manifest_version d k = Inr n \<longleftrightarrow> get_val d k = PInt n \<and> 0 \<le> n"
  by (auto simp: manifest_version_def split: option.splits if_splits)

lemma manifest_mapping_Inr [simp]: "manifest_mapping v = Inr d \<longleftrightarrow> v = PDict d"
  by (cases v) auto

subsection \<open>One entry at a time\<close>

lemma entry_roundtrip:
  "storable_create c \<Longrightarrow> rbind (manifest_mapping (object_create_manifest c)) object_create_of = Inr c"
  "storable_modify m \<Longrightarrow> rbind (manifest_mapping (object_modify_manifest m)) object_modify_of = Inr m"
  "storable_delete d \<Longrightarrow> rbind (manifest_mapping (object_delete_manifest d)) object_delete_of = Inr d"
  "storable_link_create lc \<Longrightarrow> rbind (manifest_mapping (link_create_manifest lc)) link_create_of = Inr lc"
  "storable_link_delete ld \<Longrightarrow> rbind (manifest_mapping (link_delete_manifest ld)) link_delete_of = Inr ld"
  "storable_criteria cr \<Longrightarrow> rbind (manifest_mapping (criteria_read_manifest cr)) criteria_read_of = Inr cr"
  by (simp_all add: manifest_defs of_manifest_defs storable_defs manifest_text_def manifest_version_def) auto

lemma entry_storable:
  "object_create_of x = Inr c \<Longrightarrow> storable_create c"
  "object_modify_of x = Inr m \<Longrightarrow> storable_modify m"
  "object_delete_of x = Inr d \<Longrightarrow> storable_delete d"
  "link_create_of x = Inr lc \<Longrightarrow> storable_link_create lc"
  "link_delete_of x = Inr ld \<Longrightarrow> storable_link_delete ld"
  "criteria_read_of x = Inr cr \<Longrightarrow> storable_criteria cr"
  by (unfold of_manifest_defs storable_defs rbind_eq_Inr raise_if_Inr not_not manifest_text_Inr
      manifest_version_Inr manifest_mapping_Inr) (clarify, simp)+

lemma items_roundtrip:
  assumes "map_of manifest key = Some (PList (map write xs)) \<or> map_of manifest key = None \<and> xs = []"
    and "list_all P xs" and "\<And>x. P x \<Longrightarrow> rbind (manifest_mapping (write x)) read = Inr x"
  shows "manifest_list manifest key read = Inr xs"
proof -
  have "rbind (map_result manifest_mapping (map write xs)) (map_result read) = Inr xs"
    using assms(2)
  proof (induction xs)
    case (Cons x xs)
    with assms(3) [of x] show ?case by (auto simp: rbind_eq_Inr)
  qed simp
  with assms(1) show ?thesis by (auto simp: manifest_list_def manifest_items_def)
qed

lemma items_storable:
  assumes "manifest_list manifest key read = Inr xs"
    and "\<And>x y. read x = Inr y \<Longrightarrow> P y"
  shows "list_all P xs"
proof -
  from assms(1) obtain ds where "list_all2 (\<lambda>x y. read x = Inr y) ds xs"
    by (auto simp: manifest_list_def rbind_eq_Inr map_result_Inr)
  then show ?thesis by (induction) (auto intro: assms(2))
qed

subsection \<open>The read set\<close>

lemma read_version_entries_roundtrip:
  assumes "distinct (dkeys (vs @ ws))" "list_all (\<lambda>(k, v). 0 \<le> v) ws"
  shows "fold_result read_version_entry (map (\<lambda>(k, v). (k, PInt v)) ws) vs = Inr (vs @ ws)"
  using assms
proof (induction ws arbitrary: vs)
  case (Cons w ws)
  obtain k v where w: "w = (k, v)" by fastforce
  with Cons.prems have "dput k v vs = vs @ [(k, v)]" by (intro dput_append) auto
  with Cons w show ?case by (simp add: read_version_entry_def)
qed simp

lemma read_versions_roundtrip:
  assumes "wf_dict vs" "list_all (\<lambda>(k, v). 0 \<le> v) vs"
  shows "read_versions (PDict (map (\<lambda>(k, v). (k, PInt v)) vs)) = Inr vs"
  using read_version_entries_roundtrip [of "[]" vs] assms
  by (auto simp: read_versions_def wf_dict_def)

lemma read_version_entries_storable:
  assumes "fold_result read_version_entry items vs = Inr ws" "wf_dict vs" "list_all (\<lambda>(k, v). 0 \<le> v) vs"
  shows "wf_dict ws \<and> list_all (\<lambda>(k, v). 0 \<le> v) ws"
proof -
  have step: "list_all (\<lambda>(k, v). 0 \<le> v) (dput k n vs)" if "list_all (\<lambda>(k, v). 0 \<le> v) vs" "0 \<le> n"
    for k and n :: int and vs :: "(string \<times> int) list"
    using that by (induction vs) auto
  show ?thesis
    by (rule fold_result_invariant [OF assms(1)])
      (use assms in \<open>auto simp: read_version_entry_def split: option.splits if_splits intro: step\<close>)
qed

lemma wf_dict_sort: "wf_dict (sort vs) = wf_dict vs"
  unfolding wf_dict_def dkeys_def by (metis distinct_map distinct_sort set_sort)

lemma list_all_sort: "list_all P (sort vs) = list_all P vs"
  by (simp add: list_all_iff)

lemma storable_read_set_sorted:
  "storable_plan (plan\<lparr>read_set_versions := sort (read_set_versions plan)\<rparr>) = storable_plan plan"
  by (simp add: storable_plan_def wf_dict_sort list_all_sort)

lemma plan_consistent_read_set [simp]:
  "plan_consistent (plan\<lparr>read_set_versions := vs\<rparr>) = plan_consistent plan"
  by (simp add: plan_consistent_def plan_edit_count_def all_operation_keys_def)

section \<open>Properties of the manifest\<close>

lemma manifest_reads:
  assumes "storable_plan plan"
  shows
    "manifest_list (edit_plan_manifest plan) ''objectCreates'' object_create_of = Inr (objects_to_create plan)"
    "manifest_list (edit_plan_manifest plan) ''objectModifies'' object_modify_of = Inr (objects_to_modify plan)"
    "manifest_list (edit_plan_manifest plan) ''objectDeletes'' object_delete_of = Inr (objects_to_delete plan)"
    "manifest_list (edit_plan_manifest plan) ''linkCreates'' link_create_of = Inr (links_to_create plan)"
    "manifest_list (edit_plan_manifest plan) ''linkDeletes'' link_delete_of = Inr (links_to_delete plan)"
    "manifest_list (edit_plan_manifest plan) ''criteriaReadSet'' criteria_read_of = Inr (criteria_read_expectations plan)"
    "read_versions (get_val (edit_plan_manifest plan) ''readSetVersions'') = Inr (sort (read_set_versions plan))"
  using assms unfolding storable_plan_def
  by (auto intro!: items_roundtrip [OF _ _ entry_roundtrip(1)] items_roundtrip [OF _ _ entry_roundtrip(2)]
      items_roundtrip [OF _ _ entry_roundtrip(3)] items_roundtrip [OF _ _ entry_roundtrip(4)]
      items_roundtrip [OF _ _ entry_roundtrip(5)] items_roundtrip [OF _ _ entry_roundtrip(6)]
      read_versions_roundtrip simp: edit_plan_manifest_def wf_dict_sort list_all_sort)

lemma plan_survives_manifest:
  assumes "storable_plan plan" "validate_edit_plan plan = Inr ()"
  shows "edit_plan_from_manifest (edit_plan_manifest plan) =
           Inr (plan\<lparr>read_set_versions := sort (read_set_versions plan)\<rparr>)"
proof -
  let ?plan = "plan\<lparr>read_set_versions := sort (read_set_versions plan)\<rparr>"
  have "validate_edit_plan ?plan = Inr ()"
    using assms(2) by (simp only: validate_edit_plan_consistent plan_consistent_read_set)
  then show ?thesis
    by (cases plan) (use manifest_reads [OF assms(1)] in \<open>simp add: edit_plan_from_manifest_def Let_def\<close>)
qed

lemma plan_from_manifest_storable:
  assumes "edit_plan_from_manifest manifest = Inr plan"
  shows "storable_plan plan \<and> plan_consistent plan"
proof -
  from assms obtain raw where
    items: "manifest_list manifest ''objectCreates'' object_create_of = Inr (objects_to_create plan)"
      "manifest_list manifest ''objectModifies'' object_modify_of = Inr (objects_to_modify plan)"
      "manifest_list manifest ''objectDeletes'' object_delete_of = Inr (objects_to_delete plan)"
      "manifest_list manifest ''linkCreates'' link_create_of = Inr (links_to_create plan)"
      "manifest_list manifest ''linkDeletes'' link_delete_of = Inr (links_to_delete plan)"
      "manifest_list manifest ''criteriaReadSet'' criteria_read_of = Inr (criteria_read_expectations plan)"
    and reads: "fold_result read_version_entry raw [] = Inr (read_set_versions plan)"
    and valid: "validate_edit_plan plan = Inr ()"
    unfolding edit_plan_from_manifest_def Let_def read_versions_def by (elim rbind_InrE) auto
  have "wf_dict (read_set_versions plan) \<and> list_all (\<lambda>(k, v). 0 \<le> v) (read_set_versions plan)"
    using read_version_entries_storable [OF reads] by simp
  with items valid show ?thesis
    unfolding storable_plan_def validate_edit_plan_consistent
    by (auto intro: items_storable [OF items(1) entry_storable(1)] items_storable [OF items(2) entry_storable(2)]
        items_storable [OF items(3) entry_storable(3)] items_storable [OF items(4) entry_storable(4)]
        items_storable [OF items(5) entry_storable(5)] items_storable [OF items(6) entry_storable(6)])
qed

text \<open>Printing does not see the order in which the keys of a dictionary were inserted.\<close>

lemma json_dumps_order:
  assumes "wf_dict d" "wf_dict d'" "set d = set d'"
  shows "json_dumps (PDict d) = json_dumps (PDict d')"
proof -
  let ?p = "map (\<lambda>(k, v). (k, json_dumps v))"
  have fst: "map fst (?p ds) = map fst ds" for ds :: dict by (induction ds) auto
  have "distinct d" "distinct d'"
    using assms by (auto simp: wf_dict_def dkeys_def distinct_map)
  with assms(3) have "mset d = mset d'" by (simp add: set_eq_iff_mset_eq_distinct)
  then have "mset (?p d) = mset (?p d')" by (metis mset_map)
  then have "mset (?p d) = mset (sort_key fst (?p d'))" by simp
  moreover have "inj_on fst (set (?p d))"
    using assms(1) fst [of d] unfolding wf_dict_def dkeys_def by (metis distinct_map)
  ultimately have "sort_key fst (?p d) = sort_key fst (?p d')"
    by (intro sort_key_inj_key_eq) auto
  then show ?thesis by simp
qed

lemma set_filter_keys:
  assumes "wf_dict d"
  shows "set (filter (\<lambda>(k, v). P k) d) = {(k, v). map_of d k = Some v \<and> P k}"
  using assms by (auto simp: wf_dict_def dkeys_def)

lemma wf_dict_filter: "wf_dict d \<Longrightarrow> wf_dict (filter P d)"
  unfolding wf_dict_def dkeys_def by (induction d) auto

text \<open>
  C31. A validated plan whose fields are storable is rebuilt exactly from its manifest, the recorded
  read set in key order.
\<close>

theorem edit_plan_manifest_roundtrip:
  assumes "storable_plan plan" "validate_edit_plan plan = Inr ()"
  shows "edit_plan_from_manifest (edit_plan_manifest plan) =
           Inr (plan\<lparr>read_set_versions := sort (read_set_versions plan)\<rparr>)"
  using assms by (rule plan_survives_manifest)

theorem edit_plan_manifest_roundtrip_witness:
  "\<exists>plan. storable_plan plan \<and> validate_edit_plan plan = Inr () \<and> length (objects_to_modify plan) = 1
     \<and> edit_plan_from_manifest (edit_plan_manifest plan) =
         Inr (plan\<lparr>read_set_versions := [(''a'', 2), (''c1'', 3)]\<rparr>)"
proof -
  let ?plan = "\<lparr>objects_to_create = [],
      objects_to_modify = [\<lparr>om_operation_key = ''r2:c1'', om_rule_id = ''r2'', om_object_type = ''Customer'',
        om_object_id = ''c1'', om_expected_version = 3, om_patch = [(''tier'', PStr ''gold'')],
        om_should_create_if_absent = False\<rparr>],
      objects_to_delete = [], links_to_create = [], links_to_delete = [],
      read_set_versions = [(''c1'', 3), (''a'', 2)], criteria_read_expectations = []\<rparr>"
  have "storable_plan ?plan" by code_simp
  moreover have "validate_edit_plan ?plan = Inr ()" by code_simp
  moreover have "sort (read_set_versions ?plan) = [(''a'', 2), (''c1'', 3)]" by code_simp
  ultimately show ?thesis
    using edit_plan_manifest_roundtrip [of ?plan] by (intro exI [of _ ?plan]) simp
qed

text \<open>
  Whatever manifest is read back, the plan that comes out is storable and consistent; so its own
  manifest can be stored and read again, and a second trip changes nothing.
\<close>

theorem edit_plan_from_manifest_stable:
  assumes "edit_plan_from_manifest manifest = Inr plan"
  shows "storable_plan plan \<and> plan_consistent plan
    \<and> edit_plan_from_manifest (edit_plan_manifest (plan\<lparr>read_set_versions := sort (read_set_versions plan)\<rparr>)) =
        Inr (plan\<lparr>read_set_versions := sort (read_set_versions plan)\<rparr>)"
proof -
  have "storable_plan plan" "plan_consistent plan" using plan_from_manifest_storable [OF assms] by auto
  then show ?thesis
    using plan_survives_manifest [of "plan\<lparr>read_set_versions := sort (read_set_versions plan)\<rparr>"]
    by (simp add: storable_read_set_sorted validate_edit_plan_consistent sorted_sort_id)
qed


theorem edit_plan_from_manifest_stable_witness:
  "\<exists>plan. edit_plan_from_manifest
       [(''objectDeletes'', PList [PDict [(''operationKey'', PStr ''k''), (''ruleId'', PStr ''r''),
          (''objectType'', PStr ''T''), (''objectId'', PStr ''1''), (''expectedObjectVersion'', PInt 4)]])] = Inr plan
     \<and> storable_plan plan"
proof -
  let ?m = "[(''objectDeletes'', PList [PDict [(''operationKey'', PStr ''k''), (''ruleId'', PStr ''r''),
          (''objectType'', PStr ''T''), (''objectId'', PStr ''1''), (''expectedObjectVersion'', PInt 4)]])]"
  let ?plan = "\<lparr>objects_to_create = [], objects_to_modify = [], objects_to_delete =
        [\<lparr>od_operation_key = ''k'', od_rule_id = ''r'', od_object_type = ''T'', od_object_id = ''1'',
          od_expected_version = 4\<rparr>], links_to_create = [], links_to_delete = [],
      read_set_versions = [], criteria_read_expectations = []\<rparr>"
  have "edit_plan_from_manifest ?m = Inr ?plan" by code_simp
  with edit_plan_from_manifest_stable [OF this] show ?thesis by blast
qed

text \<open>
  The hash of a sealed plan depends only on the fields that matter to the execution: payloads that
  agree on those, in whatever order their keys were inserted, get the same hash, and nothing but
  the hash field is written.
\<close>

theorem seal_action_execution_plan_canonical:
  assumes "wf_dict payload" "wf_dict payload'"
    and "\<And>k. k \<notin> set ignored_plan_fields \<Longrightarrow> map_of payload k = map_of payload' k"
  shows "map_of (seal_action_execution_plan sha payload) ''planHash'' =
           map_of (seal_action_execution_plan sha payload') ''planHash''
       \<and> (\<forall>k. k \<noteq> ''planHash'' \<longrightarrow>
             map_of (seal_action_execution_plan sha payload) k = map_of payload k)"
proof -
  let ?canon = "filter (\<lambda>(key, v). key \<notin> set ignored_plan_fields)"
  have "set (?canon payload) = set (?canon payload')"
    unfolding set_filter_keys [OF assms(1)] set_filter_keys [OF assms(2)] using assms(3) by auto
  then have "json_dumps (PDict (?canon payload)) = json_dumps (PDict (?canon payload'))"
    by (intro json_dumps_order wf_dict_filter assms)
  then show ?thesis by (simp add: seal_action_execution_plan_def Let_def)
qed


theorem seal_action_execution_plan_canonical_witness:
  "map_of (seal_action_execution_plan rev [(''a'', PInt 1), (''b'', PNone), (''requestId'', PStr ''x'')]) ''planHash'' =
   map_of (seal_action_execution_plan rev [(''isDryRun'', PBool True), (''b'', PNone), (''a'', PInt 1)]) ''planHash''"
  by (rule conjunct1 [OF seal_action_execution_plan_canonical])
    (simp_all add: wf_dict_def dkeys_def ignored_plan_fields_def)

end
