(* ===== verification/Edit_Batch.thy ===== *)
theory Edit_Batch
  imports Edit_Plan "HOL-Library.Multiset"
begin

text \<open>
  \<^verbatim>\<open>domain/action_runtime/ontology_edit_batch.py\<close>: the edit batch a compute-only function returns,
  its translation into an edit plan, and the combination of several batches into one commit.
  Shown: translation keeps every edit exactly once under a key of its own, the payload form is
  faithful, and combination keeps the edits in order and agrees on every version read.
\<close>

section \<open>Data and field readers\<close>

definition ontology_edit_batch_edit_limit :: nat where
  "ontology_edit_batch_edit_limit = 10000"

definition ontology_edit_batch_object_type_limit :: nat where
  "ontology_edit_batch_object_type_limit = 50"

record ontology_edit_batch =
  batch_edits :: "dict list"
  batch_read_set_versions :: "(string \<times> int) list"
  batch_provenance :: dict

definition required_version :: "dict \<Rightarrow> int result" where
  "required_version edit =
     (case plain_int (get_val edit ''expectedVersion'') of
        None \<Rightarrow> Inl (ValidationFailed ''ontology edit expectedVersion must be a non-negative integer'')
      | Some n \<Rightarrow> if n < 0 then Inl (ValidationFailed ''ontology edit expectedVersion must be a non-negative integer'')
                 else Inr n)"

definition batch_rule_id :: "dict \<Rightarrow> string result" where
  "batch_rule_id edit =
     (case nonempty_text (get_or (PStr ''function:edit'') edit ''ruleId'') of
        None \<Rightarrow> Inl (ValidationFailed ''ontology edit ruleId must be a non-empty string'')
      | Some s \<Rightarrow> Inr s)"

definition required_text :: "dict \<Rightarrow> string \<Rightarrow> string result" where
  "required_text payload key =
     (case nonempty_text (get_val payload key) of
        None \<Rightarrow> Inl (ValidationFailed (''ontology edit '' @ key @ '' must be a non-empty string''))
      | Some s \<Rightarrow> Inr s)"

fun optional_bool :: "pyval \<Rightarrow> string \<Rightarrow> bool result" where
  "optional_bool PNone field = Inr False"
| "optional_bool (PBool b) field = Inr b"
| "optional_bool _ field = Inl (ValidationFailed (''ontology edit '' @ field @ '' must be a boolean''))"

fun optional_mapping :: "pyval \<Rightarrow> string \<Rightarrow> dict result" where
  "optional_mapping PNone field = Inr []"
| "optional_mapping (PDict d) field = Inr d"
| "optional_mapping _ field = Inl (ValidationFailed (''ontology edit batch '' @ field @ '' must be an object''))"

fun batch_mapping :: "string \<Rightarrow> pyval \<Rightarrow> dict result" where
  "batch_mapping field (PDict d) = Inr d"
| "batch_mapping field _ = Inl (ValidationFailed (''ontology edit batch '' @ field @ '' entries must be objects''))"

fun batch_sequence :: "pyval \<Rightarrow> string \<Rightarrow> pyval list result" where
  "batch_sequence (PList xs) field = Inr xs"
| "batch_sequence _ field = Inl (ValidationFailed (''ontology edit batch '' @ field @ '' must be a list''))"

definition read_set_entry :: "string \<times> pyval \<Rightarrow> (string \<times> int) list \<Rightarrow> (string \<times> int) list result" where
  "read_set_entry entry versions =
     (case plain_int (snd entry) of
        None \<Rightarrow> Inl (ValidationFailed ''read set versions must be non-negative integers'')
      | Some n \<Rightarrow> if n < 0 then Inl (ValidationFailed ''read set versions must be non-negative integers'')
                 else Inr (dput (fst entry) n versions))"

definition batch_read_set :: "pyval \<Rightarrow> (string \<times> int) list result" where
  "batch_read_set raw =
     rbind (optional_mapping raw ''readSetVersions'') (\<lambda>payload. fold_result read_set_entry payload [])"

definition batch_object_types :: "dict list \<Rightarrow> string list" where
  "batch_object_types edits = remdups (List.map_filter (\<lambda>edit.
     case get_val edit ''objectType'' of PStr s \<Rightarrow> Some s | _ \<Rightarrow> None) edits)"

definition require_edit_limits :: "dict list \<Rightarrow> unit result" where
  "require_edit_limits edits =
     rbind (raise_if (ontology_edit_batch_edit_limit < length edits)
             (ValidationFailed ''ontology edit batch edit limit exceeded'')) (\<lambda>_.
     raise_if (ontology_edit_batch_object_type_limit < length (batch_object_types edits))
             (ValidationFailed ''ontology edit batch object type limit exceeded''))"

section \<open>Operations of a batch\<close>

definition batch_from_payload :: "dict \<Rightarrow> ontology_edit_batch result" where
  "batch_from_payload payload =
     rbind (batch_sequence (get_val payload ''edits'') ''edits'') (\<lambda>items.
     rbind (map_result (batch_mapping ''edits'') items) (\<lambda>edits.
     rbind (raise_if (edits = []) (ValidationFailed ''ontology edit batch must contain at least one edit'')) (\<lambda>_.
     rbind (batch_read_set (get_or (PDict []) payload ''readSetVersions'')) (\<lambda>versions.
     rbind (optional_mapping (get_val payload ''provenance'') ''provenance'') (\<lambda>provenance.
     rbind (require_edit_limits edits) (\<lambda>_.
     Inr \<lparr>batch_edits = edits, batch_read_set_versions = versions, batch_provenance = provenance\<rparr>))))))"

definition merge_read_entry :: "string \<times> int \<Rightarrow> (string \<times> int) list \<Rightarrow> (string \<times> int) list result" where
  "merge_read_entry entry target =
     (case map_of target (fst entry) of
        Some existing \<Rightarrow>
          if existing \<noteq> snd entry
          then Inl (ValidationFailed ''ontology edit batches disagree on a read-set version'')
          else Inr (dput (fst entry) (snd entry) target)
      | None \<Rightarrow> Inr (dput (fst entry) (snd entry) target))"

definition merge_read_set ::
  "(string \<times> int) list \<Rightarrow> (string \<times> int) list \<Rightarrow> (string \<times> int) list result" where
  "merge_read_set source target = fold_result merge_read_entry source target"

definition batch_combine :: "ontology_edit_batch list \<Rightarrow> ontology_edit_batch result" where
  "batch_combine batches =
     rbind (raise_if (batches = []) (ValidationFailed ''at least one ontology edit batch is required'')) (\<lambda>_.
     let edits = concat (map batch_edits batches) in
     rbind (fold_result (\<lambda>batch. merge_read_set (batch_read_set_versions batch)) batches []) (\<lambda>versions.
     rbind (require_edit_limits edits) (\<lambda>_.
     Inr \<lparr>batch_edits = edits, batch_read_set_versions = versions,
          batch_provenance = [(''invocations'', PList (map (\<lambda>batch. PDict (batch_provenance batch)) batches))]\<rparr>)))"

definition batch_to_payload :: "ontology_edit_batch \<Rightarrow> dict" where
  "batch_to_payload batch =
     [(''edits'', PList (map PDict (batch_edits batch))),
      (''readSetVersions'', PDict (map (\<lambda>(k, v). (k, PInt v)) (batch_read_set_versions batch))),
      (''provenance'', PDict (batch_provenance batch))]"

section \<open>Translation into an edit plan\<close>

record edit_buckets =
  bk_creates :: "object_create list"
  bk_modifies :: "object_modify list"
  bk_deletes :: "object_delete list"
  bk_link_creates :: "link_create list"
  bk_link_deletes :: "link_delete list"

definition empty_buckets :: edit_buckets where
  "empty_buckets = \<lparr>bk_creates = [], bk_modifies = [], bk_deletes = [], bk_link_creates = [], bk_link_deletes = []\<rparr>"

definition bucket_create :: "dict \<Rightarrow> string \<Rightarrow> edit_buckets \<Rightarrow> edit_buckets result" where
  "bucket_create edit operation_key bk =
     rbind (batch_rule_id edit) (\<lambda>r.
     rbind (required_text edit ''objectType'') (\<lambda>t.
     rbind (optional_mapping (get_val edit ''properties'') ''properties'') (\<lambda>ps.
     Inr (bk\<lparr>bk_creates := bk_creates bk @ [\<lparr>oc_operation_key = operation_key, oc_rule_id = r, oc_object_type = t,
       oc_primary_key = get_val edit ''primaryKey'', oc_properties = ps\<rparr>]\<rparr>))))"

definition bucket_modify :: "dict \<Rightarrow> string \<Rightarrow> edit_buckets \<Rightarrow> edit_buckets result" where
  "bucket_modify edit operation_key bk =
     rbind (batch_rule_id edit) (\<lambda>r.
     rbind (required_text edit ''objectType'') (\<lambda>t.
     rbind (required_text edit ''objectId'') (\<lambda>i.
     rbind (required_version edit) (\<lambda>v.
     rbind (optional_mapping (get_val edit ''patch'') ''patch'') (\<lambda>p.
     rbind (optional_bool (get_val edit ''createIfAbsent'') ''createIfAbsent'') (\<lambda>c.
     Inr (bk\<lparr>bk_modifies := bk_modifies bk @ [\<lparr>om_operation_key = operation_key, om_rule_id = r, om_object_type = t,
       om_object_id = i, om_expected_version = v, om_patch = p, om_should_create_if_absent = c\<rparr>]\<rparr>)))))))"

definition bucket_delete :: "dict \<Rightarrow> string \<Rightarrow> edit_buckets \<Rightarrow> edit_buckets result" where
  "bucket_delete edit operation_key bk =
     rbind (batch_rule_id edit) (\<lambda>r.
     rbind (required_text edit ''objectType'') (\<lambda>t.
     rbind (required_text edit ''objectId'') (\<lambda>i.
     rbind (required_version edit) (\<lambda>v.
     Inr (bk\<lparr>bk_deletes := bk_deletes bk @ [\<lparr>od_operation_key = operation_key, od_rule_id = r, od_object_type = t,
       od_object_id = i, od_expected_version = v\<rparr>]\<rparr>)))))"

definition batch_link_create :: "dict \<Rightarrow> string \<Rightarrow> link_create result" where
  "batch_link_create edit operation_key =
     rbind (batch_rule_id edit) (\<lambda>r.
     rbind (required_text edit ''linkType'') (\<lambda>t.
     rbind (required_text edit ''sourceObjectId'') (\<lambda>s.
     rbind (required_text edit ''targetObjectId'') (\<lambda>u.
     Inr \<lparr>lc_operation_key = operation_key, lc_rule_id = r, lc_link_type = t, lc_source_object_id = s,
          lc_target_object_id = u\<rparr>))))"

definition batch_link_delete :: "dict \<Rightarrow> string \<Rightarrow> link_delete result" where
  "batch_link_delete edit operation_key =
     rbind (batch_rule_id edit) (\<lambda>r.
     rbind (required_text edit ''linkType'') (\<lambda>t.
     rbind (required_text edit ''sourceObjectId'') (\<lambda>s.
     rbind (required_text edit ''targetObjectId'') (\<lambda>u.
     Inr \<lparr>ld_operation_key = operation_key, ld_rule_id = r, ld_link_type = t, ld_source_object_id = s,
          ld_target_object_id = u\<rparr>))))"

definition bucket_create_link :: "dict \<Rightarrow> string \<Rightarrow> edit_buckets \<Rightarrow> edit_buckets result" where
  "bucket_create_link edit operation_key bk =
     rbind (batch_link_create edit operation_key) (\<lambda>l.
     Inr (bk\<lparr>bk_link_creates := bk_link_creates bk @ [l]\<rparr>))"

definition bucket_delete_link :: "dict \<Rightarrow> string \<Rightarrow> edit_buckets \<Rightarrow> edit_buckets result" where
  "bucket_delete_link edit operation_key bk =
     rbind (batch_link_delete edit operation_key) (\<lambda>l.
     Inr (bk\<lparr>bk_link_deletes := bk_link_deletes bk @ [l]\<rparr>))"

definition edit_builders ::
  "(string \<times> (dict \<Rightarrow> string \<Rightarrow> edit_buckets \<Rightarrow> edit_buckets result)) list" where
  "edit_builders =
     [(''createObject'', bucket_create), (''modifyObject'', bucket_modify), (''deleteObject'', bucket_delete),
      (''createLink'', bucket_create_link), (''deleteLink'', bucket_delete_link)]"

definition bucket_append :: "dict \<Rightarrow> string \<Rightarrow> edit_buckets \<Rightarrow> edit_buckets result" where
  "bucket_append edit operation_key bk =
     rbind (required_text edit ''kind'') (\<lambda>kind.
     case map_of edit_builders kind of
       None \<Rightarrow> Inl (ValidationFailed ''unsupported ontology edit batch operation'')
     | Some builder \<Rightarrow> builder edit operation_key bk)"

definition buckets_plan :: "(string \<times> int) list \<Rightarrow> edit_buckets \<Rightarrow> edit_plan" where
  "buckets_plan versions bk =
     \<lparr>objects_to_create = bk_creates bk, objects_to_modify = bk_modifies bk, objects_to_delete = bk_deletes bk,
      links_to_create = bk_link_creates bk, links_to_delete = bk_link_deletes bk,
      read_set_versions = versions, criteria_read_expectations = []\<rparr>"

definition indexed_key :: "string \<Rightarrow> nat \<Rightarrow> string" where
  "indexed_key operation_prefix index = operation_prefix @ '':'' @ show_nat index"

definition batch_to_edit_plan :: "string \<Rightarrow> ontology_edit_batch \<Rightarrow> edit_plan result" where
  "batch_to_edit_plan operation_prefix batch =
     rbind (fold_result (\<lambda>(index, edit). bucket_append edit (indexed_key operation_prefix index))
              (enumerate 0 (batch_edits batch)) empty_buckets) (\<lambda>bk.
     let plan = buckets_plan (batch_read_set_versions batch) bk in
     rbind (validate_edit_plan plan) (\<lambda>_. Inr plan))"

section \<open>Every edit once\<close>

abbreviation bucket_keys :: "edit_buckets \<Rightarrow> string list" where
  "bucket_keys bk \<equiv> all_operation_keys (buckets_plan [] bk)"

lemma bucket_append_keys:
  assumes "bucket_append edit key bk = Inr bk'"
  shows "mset (bucket_keys bk') = add_mset key (mset (bucket_keys bk))"
  using assms
  by (auto simp: bucket_append_def edit_builders_def bucket_create_def bucket_modify_def bucket_delete_def
      bucket_create_link_def bucket_delete_link_def batch_link_create_def batch_link_delete_def
      all_operation_keys_def buckets_plan_def elim!: rbind_InrE split: if_splits)

lemma bucket_walk_keys:
  assumes "fold_result (\<lambda>(index, edit). bucket_append edit (indexed_key prefix index)) (enumerate n edits) bk = Inr bk'"
  shows "mset (bucket_keys bk') = mset (bucket_keys bk) + mset (map (indexed_key prefix) [n ..< n + length edits])"
  using assms
proof (induction edits arbitrary: n bk)
  case (Cons edit edits)
  then obtain bk1 where step: "bucket_append edit (indexed_key prefix n) bk = Inr bk1"
    and rest: "fold_result (\<lambda>(index, edit). bucket_append edit (indexed_key prefix index)) (enumerate (Suc n) edits) bk1 = Inr bk'"
    by (auto simp: rbind_eq_Inr)
  have "[n ..< n + length (edit # edits)] = n # [Suc n ..< Suc n + length edits]"
    by (subst upt_conv_Cons) simp_all
  then show ?case
    using Cons.IH [OF rest] bucket_append_keys [OF step] by (simp only: list.map mset.simps) simp
qed simp

lemma indexed_key_inject [simp]: "indexed_key p m = indexed_key p n \<longleftrightarrow> m = n"
  by (simp add: indexed_key_def)

lemma all_operation_keys_versions: "all_operation_keys (buckets_plan vs bk) = bucket_keys bk"
  by (simp add: all_operation_keys_def buckets_plan_def)

lemma empty_bucket_keys [simp]: "bucket_keys empty_buckets = []"
  by (simp add: all_operation_keys_def buckets_plan_def empty_buckets_def)

text \<open>The messages of the field readers all speak of the batch, never of the plan.\<close>

lemma bucket_append_error:
  assumes "bucket_append edit key bk = Inl e"
  shows "\<exists>m. e = ValidationFailed (''ontology edit '' @ m) \<or> e = ValidationFailed (''unsupported '' @ m)"
proof -
  have field: "required_text d k = Inl e \<Longrightarrow> \<exists>m. e = ValidationFailed (''ontology edit '' @ m)" for d k
    by (auto simp: required_text_def split: option.splits)
  have rid: "batch_rule_id d = Inl e \<Longrightarrow> \<exists>m. e = ValidationFailed (''ontology edit '' @ m)" for d
    by (auto simp: batch_rule_id_def split: option.splits)
  have ver: "required_version d = Inl e \<Longrightarrow> \<exists>m. e = ValidationFailed (''ontology edit '' @ m)" for d
    by (auto simp: required_version_def split: option.splits if_splits)
  have map: "optional_mapping v f = Inl e \<Longrightarrow> \<exists>m. e = ValidationFailed (''ontology edit '' @ m)" for v f
    by (cases v) auto
  have bool: "optional_bool v f = Inl e \<Longrightarrow> \<exists>m. e = ValidationFailed (''ontology edit '' @ m)" for v f
    by (cases v) auto
  have builders: "\<exists>m. e = ValidationFailed (''ontology edit '' @ m)" if "map_of edit_builders k = Some f" "f edit key bk = Inl e" for k f
    using that
    by (auto simp: edit_builders_def bucket_create_def bucket_modify_def bucket_delete_def bucket_create_link_def
        bucket_delete_link_def batch_link_create_def batch_link_delete_def rbind_eq_Inl rbind_eq_Inr
        dest!: field rid ver map bool split: if_splits)
  show ?thesis
  proof (cases "required_text edit ''kind''")
    case (Inl e')
    with assms field [of edit "''kind''"] show ?thesis by (auto simp: bucket_append_def)
  next
    case (Inr k)
    with assms builders [of k] show ?thesis by (cases "map_of edit_builders k") (auto simp: bucket_append_def)
  qed
qed

lemma bucket_walk_error:
  assumes "fold_result (\<lambda>(index, edit). bucket_append edit (indexed_key prefix index)) items bk = Inl e"
  shows "e \<noteq> ValidationFailed ''edit plan has duplicate operation keys''"
  using assms
  by (induction items arbitrary: bk) (auto simp: rbind_eq_Inl dest!: bucket_append_error)

lemma validate_edit_plan_other_error:
  "distinct (all_operation_keys plan) \<Longrightarrow>
     validate_edit_plan plan \<noteq> Inl (ValidationFailed ''edit plan has duplicate operation keys'')"
  by (auto simp: validate_edit_plan_def rbind_eq_Inl rbind_eq_Inr validate_unique_operation_keys_def Let_def
      length_card_distinct validate_object_ids_touched_once_def validate_links_reference_live_objects_def
      dest!: each_Inl)

text \<open>
  The plan made of a function's edit batch contains every edit of the batch exactly once: its
  operation keys are the prefix with the indexes of the edits, so they never clash, and the check
  for duplicate keys cannot be the reason a batch is refused.
\<close>

theorem batch_to_edit_plan_keys:
  "case batch_to_edit_plan prefix batch of
     Inr plan \<Rightarrow> plan_consistent plan
       \<and> mset (all_operation_keys plan) = mset (map (indexed_key prefix) [0 ..< length (batch_edits batch)])
       \<and> read_set_versions plan = batch_read_set_versions batch
   | Inl e \<Rightarrow> e \<noteq> ValidationFailed ''edit plan has duplicate operation keys''"
proof -
  let ?walk = "fold_result (\<lambda>(index, edit). bucket_append edit (indexed_key prefix index))
      (enumerate 0 (batch_edits batch)) empty_buckets"
  let ?keys = "map (indexed_key prefix) [0 ..< length (batch_edits batch)]"
  have keys: "mset (all_operation_keys (buckets_plan vs bk)) = mset ?keys" if "?walk = Inr bk" for bk vs
    using bucket_walk_keys [OF that] unfolding all_operation_keys_versions [of vs bk] by simp
  have "distinct ?keys" by (auto simp: distinct_map intro!: inj_onI)
  then have distinct: "distinct (all_operation_keys (buckets_plan vs bk))" if "?walk = Inr bk" for bk vs
    using keys [OF that, of vs] mset_eq_imp_distinct_iff by blast
  have walk_error: "e \<noteq> ValidationFailed ''edit plan has duplicate operation keys''" if "?walk = Inl e" for e
    using bucket_walk_error [OF that] .
  have valid_error: "validate_edit_plan (buckets_plan vs bk)
      \<noteq> Inl (ValidationFailed ''edit plan has duplicate operation keys'')" if "?walk = Inr bk" for bk vs
    using distinct [OF that] by (intro validate_edit_plan_other_error) simp
  show ?thesis
  proof (cases ?walk)
    case (Inl e)
    with walk_error [OF this] show ?thesis by (simp add: batch_to_edit_plan_def)
  next
    case (Inr bk)
    let ?plan = "buckets_plan (batch_read_set_versions batch) bk"
    from Inr have run: "batch_to_edit_plan prefix batch = rbind (validate_edit_plan ?plan) (\<lambda>_. Inr ?plan)"
      by (simp add: batch_to_edit_plan_def Let_def)
    have "read_set_versions ?plan = batch_read_set_versions batch" by (simp add: buckets_plan_def)
    moreover have "plan_consistent ?plan" if "validate_edit_plan ?plan = Inr ()"
      using that by (simp add: validate_edit_plan_consistent)
    ultimately show ?thesis
      unfolding run using keys [OF Inr] valid_error [OF Inr] by (cases "validate_edit_plan ?plan") auto
  qed
qed

section \<open>Payload form\<close>

definition storable_batch :: "ontology_edit_batch \<Rightarrow> bool" where
  "storable_batch batch \<longleftrightarrow> batch_edits batch \<noteq> [] \<and> require_edit_limits (batch_edits batch) = Inr ()
     \<and> wf_dict (batch_read_set_versions batch) \<and> list_all (\<lambda>(k, v). 0 \<le> v) (batch_read_set_versions batch)"

lemma read_set_entries_roundtrip:
  assumes "distinct (dkeys (vs @ ws))" "list_all (\<lambda>(k, v). 0 \<le> v) ws"
  shows "fold_result read_set_entry (map (\<lambda>(k, v). (k, PInt v)) ws) vs = Inr (vs @ ws)"
  using assms
proof (induction ws arbitrary: vs)
  case (Cons w ws)
  obtain k v where w: "w = (k, v)" by fastforce
  with Cons.prems have "dput k v vs = vs @ [(k, v)]" by (intro dput_append) auto
  with Cons w show ?case by (simp add: read_set_entry_def)
qed simp

lemma list_all_dput:
  "list_all (\<lambda>(k, v). P v) d \<Longrightarrow> P n \<Longrightarrow> list_all (\<lambda>(k, v). P v) (dput k n d)"
  by (induction d) auto

lemma batch_read_set_storable:
  assumes "batch_read_set raw = Inr vs"
  shows "wf_dict vs \<and> list_all (\<lambda>(k, v). 0 \<le> v) vs"
proof -
  from assms obtain items where "fold_result read_set_entry items [] = Inr vs"
    by (auto simp: batch_read_set_def rbind_eq_Inr)
  then show ?thesis
    by (rule fold_result_invariant)
      (auto simp: read_set_entry_def split: option.splits if_splits intro: list_all_dput [where P = "(\<le>) 0"])
qed

text \<open>
  The payload form of a batch is faithful: a batch read from any payload can be written and
  read back unchanged.
\<close>

theorem batch_payload_roundtrip:
  "(storable_batch batch \<longrightarrow> batch_from_payload (batch_to_payload batch) = Inr batch)
   \<and> (\<forall>payload. batch_from_payload payload = Inr batch \<longrightarrow> storable_batch batch)"
proof (intro conjI allI impI)
  assume b: "storable_batch batch"
  have "map_result (batch_mapping ''edits'') (map PDict es) = Inr es" for es
    by (induction es) auto
  moreover have "batch_read_set (PDict (map (\<lambda>(k, v). (k, PInt v)) (batch_read_set_versions batch))) =
      Inr (batch_read_set_versions batch)"
    using read_set_entries_roundtrip [of "[]" "batch_read_set_versions batch"] b
    by (auto simp: batch_read_set_def storable_batch_def wf_dict_def)
  ultimately show "batch_from_payload (batch_to_payload batch) = Inr batch"
    using b by (simp add: batch_from_payload_def batch_to_payload_def storable_batch_def)
next
  fix payload
  assume "batch_from_payload payload = Inr batch"
  then show "storable_batch batch"
    unfolding batch_from_payload_def storable_batch_def
    by (elim rbind_InrE) (auto dest: batch_read_set_storable)
qed

theorem batch_payload_roundtrip_witness:
  "batch_from_payload (batch_to_payload
      \<lparr>batch_edits = [[(''kind'', PStr ''deleteLink'')]], batch_read_set_versions = [(''o1'', 7)], batch_provenance = []\<rparr>) =
    Inr \<lparr>batch_edits = [[(''kind'', PStr ''deleteLink'')]], batch_read_set_versions = [(''o1'', 7)], batch_provenance = []\<rparr>"
  by (rule batch_payload_roundtrip [THEN conjunct1, rule_format]) code_simp

section \<open>Combination\<close>

lemma merge_entries_ok:
  "fold_result merge_read_entry es target = Inr merged \<Longrightarrow> map_of target k = Some v \<Longrightarrow> map_of merged k = Some v"
  "fold_result merge_read_entry es target = Inr merged \<Longrightarrow> (k, v) \<in> set es \<Longrightarrow> map_of merged k = Some v"
  "fold_result merge_read_entry es target = Inr merged \<Longrightarrow> map_of merged k = Some v \<Longrightarrow>
     map_of target k = Some v \<or> (k, v) \<in> set es"
proof (induction es arbitrary: target)
  case (Cons e es)
  note step = merge_read_entry_def rbind_eq_Inr
  { case 1
    then obtain t where t: "merge_read_entry e target = Inr t" "fold_result merge_read_entry es t = Inr merged"
      by (auto simp: rbind_eq_Inr)
    from t(1) 1(2) have "map_of t k = Some v"
      by (cases e) (auto simp: step split: option.splits if_splits)
    from Cons.IH(1) [OF t(2) this] show ?case . }
  { case 2
    then show ?case by (cases e) (auto simp: step split: option.splits if_splits intro: Cons.IH) }
  { case 3
    then obtain t where t: "merge_read_entry e target = Inr t" "fold_result merge_read_entry es t = Inr merged"
      by (auto simp: rbind_eq_Inr)
    from Cons.IH(3) [OF t(2) 3(2)] t(1) show ?case
      by (cases e) (auto simp: step split: option.splits if_splits) }
qed auto

lemma merge_entries_error:
  assumes "fold_result merge_read_entry es target = Inl e"
  shows "e = ValidationFailed ''ontology edit batches disagree on a read-set version''
    \<and> (\<exists>k v v'. v \<noteq> v' \<and> (k, v) \<in> set es \<and> (map_of target k = Some v' \<or> (k, v') \<in> set es))"
  using assms
proof (induction es arbitrary: target)
  case (Cons x es)
  show ?case
  proof (cases "merge_read_entry x target")
    case (Inl e')
    with Cons.prems show ?thesis
      by (cases x) (simp add: merge_read_entry_def split: option.splits if_splits, metis)
  next
    case (Inr t)
    with Cons.prems have "fold_result merge_read_entry es t = Inl e" by simp
    from Cons.IH [OF this] Inr show ?thesis
      by (cases x) (fastforce simp: merge_read_entry_def split: option.splits if_splits)
  qed
qed simp

lemma merge_read_sets_flat:
  "fold_result (\<lambda>b. merge_read_set (batch_read_set_versions b)) bs target =
     fold_result merge_read_entry (concat (map batch_read_set_versions bs)) target"
proof (induction bs arbitrary: target)
  case (Cons b bs)
  then have "fold_result (\<lambda>b. merge_read_set (batch_read_set_versions b)) bs =
      fold_result merge_read_entry (concat (map batch_read_set_versions bs))" by blast
  then show ?case
    by (simp only: fold_result.simps list.map concat.simps fold_result_append)
      (simp only: merge_read_set_def)
qed simp

text \<open>
  Combining batches into one commit keeps all edits in invocation order and within the limits,
  and the combined read set holds exactly the versions the batches read; batches that read
  different versions of one object are refused.
\<close>

theorem batch_combine_agrees:
  "case batch_combine batches of
     Inr combined \<Rightarrow>
       batch_edits combined = concat (map batch_edits batches)
       \<and> length (batch_edits combined) \<le> ontology_edit_batch_edit_limit
       \<and> (\<forall>k v. map_of (batch_read_set_versions combined) k = Some v \<longleftrightarrow>
            (\<exists>b \<in> set batches. (k, v) \<in> set (batch_read_set_versions b)))
   | Inl e \<Rightarrow>
       batches = [] \<or> (\<exists>e'. require_edit_limits (concat (map batch_edits batches)) = Inl e')
       \<or> (\<exists>b \<in> set batches. \<exists>b' \<in> set batches. \<exists>k v v'. v \<noteq> v'
            \<and> (k, v) \<in> set (batch_read_set_versions b) \<and> (k, v') \<in> set (batch_read_set_versions b'))"
proof -
  let ?es = "concat (map batch_read_set_versions batches)"
  have run: "batch_combine batches =
    rbind (raise_if (batches = []) (ValidationFailed ''at least one ontology edit batch is required'')) (\<lambda>_.
    rbind (fold_result merge_read_entry ?es []) (\<lambda>versions.
    rbind (require_edit_limits (concat (map batch_edits batches))) (\<lambda>_.
    Inr \<lparr>batch_edits = concat (map batch_edits batches), batch_read_set_versions = versions,
         batch_provenance = [(''invocations'', PList (map (\<lambda>batch. PDict (batch_provenance batch)) batches))]\<rparr>)))"
    by (simp add: batch_combine_def Let_def merge_read_sets_flat)
  show ?thesis
  proof (cases "fold_result merge_read_entry ?es []")
    case (Inl e)
    from merge_entries_error [OF this] show ?thesis
      unfolding run by (cases "batches = []") (simp_all add: Inl, blast)
  next
    case (Inr versions)
    have "map_of versions k = Some v \<longleftrightarrow> (k, v) \<in> set ?es" for k v
      using merge_entries_ok(2,3) [OF Inr, of k v] by auto
    then show ?thesis
      unfolding run
      by (cases "batches = []"; cases "require_edit_limits (concat (map batch_edits batches))")
        (auto simp: Inr require_edit_limits_def rbind_eq_Inr)
  qed
qed

end
