(* ===== verification/Sql_Table.thy ===== *)
theory Sql_Table
  imports Prelude
begin

text \<open>
  The part of SQL the repositories rely on: a table is the list of its rows, an \<^verbatim>\<open>UPDATE .. WHERE\<close>
  rewrites the matching rows and reports how many there were, and an insert with
  \<^verbatim>\<open>ON CONFLICT DO NOTHING\<close> on a unique key adds a row only when no row has that key. A statement
  is one atomic step of its transaction.
\<close>

definition sql_update :: "('r \<Rightarrow> bool) \<Rightarrow> ('r \<Rightarrow> 'r) \<Rightarrow> 'r list \<Rightarrow> 'r list \<times> nat" where
  "sql_update p f rows = (map (\<lambda>r. if p r then f r else r) rows, length (filter p rows))"

definition sql_insert_or_skip :: "('r \<Rightarrow> 'k) \<Rightarrow> 'r \<Rightarrow> 'r list \<Rightarrow> 'r list \<times> bool" where
  "sql_insert_or_skip key row rows =
     (if key row \<in> set (map key rows) then (rows, False) else (rows @ [row], True))"

definition sql_upsert :: "('r \<Rightarrow> 'k) \<Rightarrow> 'r \<Rightarrow> ('r \<Rightarrow> 'r) \<Rightarrow> 'r list \<Rightarrow> 'r list" where
  "sql_upsert key row f rows =
     (if key row \<in> set (map key rows) then map (\<lambda>r. if key r = key row then f r else r) rows
      else rows @ [row])"

definition sql_first :: "('r \<Rightarrow> bool) \<Rightarrow> 'r list \<Rightarrow> 'r option" where
  "sql_first p rows = find p rows"

text \<open>A column set with a unique constraint.\<close>

definition unique_on :: "('r \<Rightarrow> 'k) \<Rightarrow> 'r list \<Rightarrow> bool" where
  "unique_on key rows \<longleftrightarrow> distinct (map key rows)"

lemma sql_update_keys:
  assumes "\<And>r. p r \<Longrightarrow> key (f r) = key r"
  shows "map key (fst (sql_update p f rows)) = map key rows"
  using assms by (simp add: sql_update_def)

lemma unique_on_update [intro]:
  assumes "unique_on key rows" "\<And>r. p r \<Longrightarrow> key (f r) = key r"
  shows "unique_on key (fst (sql_update p f rows))"
  using assms sql_update_keys [of p key f rows] by (simp add: unique_on_def)

lemma unique_on_insert [intro]:
  "unique_on key rows \<Longrightarrow> unique_on key (fst (sql_insert_or_skip key row rows))"
  by (auto simp: unique_on_def sql_insert_or_skip_def)

lemma unique_on_upsert [intro]:
  assumes "unique_on key rows" "\<And>r. key (f r) = key r"
  shows "unique_on key (sql_upsert key row f rows)"
proof -
  have "map key (map (\<lambda>r. if key r = key row then f r else r) rows) = map key rows"
    using assms(2) by simp
  with assms(1) show ?thesis by (simp add: unique_on_def sql_upsert_def del: map_map)
qed

lemma sql_update_none: "snd (sql_update p f rows) = 0 \<Longrightarrow> fst (sql_update p f rows) = rows"
  by (auto simp: sql_update_def filter_empty_conv intro!: map_idI)

lemma unique_on_inj:
  "unique_on key rows \<Longrightarrow> r \<in> set rows \<Longrightarrow> r' \<in> set rows \<Longrightarrow> key r = key r' \<Longrightarrow> r = r'"
  by (auto simp: unique_on_def distinct_map dest: inj_onD)

lemma unique_on_count:
  assumes "unique_on key rows" "\<And>r. p r \<Longrightarrow> key r = k"
  shows "length (filter p rows) \<le> 1"
  using assms unfolding unique_on_def
proof (induction rows)
  case (Cons r rows)
  have "filter p rows = []" if "p r"
    using Cons.prems that by (auto simp: filter_empty_conv image_iff)
  with Cons show ?case by auto
qed simp

lemma sql_update_one:
  assumes "unique_on key rows" "\<And>r. p r \<Longrightarrow> key r = k" "snd (sql_update p f rows) \<noteq> 0"
  obtains before r after where "rows = before @ r # after" "p r"
    "fst (sql_update p f rows) = before @ f r # after" "snd (sql_update p f rows) = 1"
proof -
  from assms(3) obtain r where r: "r \<in> set rows" "p r"
    by (auto simp: sql_update_def filter_empty_conv)
  then obtain before after where split: "rows = before @ r # after" by (meson split_list)
  have other: "\<not> p x" if "x \<in> set before \<union> set after" for x
    using assms(1,2) r that unfolding unique_on_def split by (auto simp: image_iff)
  then have "map (\<lambda>r. if p r then f r else r) before = before" "map (\<lambda>r. if p r then f r else r) after = after"
    by (auto intro!: map_idI)
  moreover have "filter p before = []" "filter p after = []" using other by (auto simp: filter_empty_conv)
  ultimately show thesis
    using that [OF split r(2)] r(2) by (simp add: sql_update_def split)
qed

lemma set_sql_update: "set (fst (sql_update p f rows)) = (\<lambda>r. if p r then f r else r) ` set rows"
  by (simp add: sql_update_def)

lemma sql_first_Some: "sql_first p rows = Some r \<Longrightarrow> r \<in> set rows \<and> p r"
  by (auto simp: sql_first_def find_Some_iff)

lemma sql_first_unique:
  assumes "unique_on key rows" "\<And>r. p r \<Longrightarrow> key r = k" "r \<in> set rows" "p r"
  shows "sql_first p rows = Some r"
proof (cases "sql_first p rows")
  case None
  with assms show ?thesis by (auto simp: sql_first_def find_None_iff)
next
  case (Some r')
  with assms show ?thesis using sql_first_Some unique_on_inj by fastforce
qed

end
