(* ===== verification/State_Transitions.thy ===== *)
theory State_Transitions
  imports Sql_Table
begin

text \<open>
  \<^verbatim>\<open>application/state_transitions.py\<close>, \<^verbatim>\<open>infrastructure/repositories/status_cas.py\<close> and
  \<^verbatim>\<open>domain/platform/state.py\<close>: the table of allowed status transitions, the compare-and-set updates that
  perform them, and the classification of a miss. Workers race on the rows of a table by running such
  updates in any order; \<open>cas_step\<close> is one update by one of them. The locale \<open>closed_statuses\<close> states
  when a set of statuses cannot be left, and its interpretations on the transition table give the
  lifecycle guarantees.
\<close>

section \<open>Transitions and outcomes\<close>

record status_transition =
  from_statuses :: "string list"
  to_status :: string

definition mk_transition :: "string list \<Rightarrow> string \<Rightarrow> status_transition" where
  "mk_transition froms to = \<lparr>from_statuses = froms, to_status = to\<rparr>"

datatype transition_outcome = Updated | Not_found | Already_terminal | Stale_state | Condition_conflict

record transition_result =
  outcome :: transition_outcome
  transition_of :: status_transition
  current_status :: "string option"

definition is_updated :: "transition_result \<Rightarrow> bool" where
  "is_updated r = (outcome r = Updated)"

definition transition_updated :: "status_transition \<Rightarrow> transition_result" where
  "transition_updated t = \<lparr>outcome = Updated, transition_of = t, current_status = Some (to_status t)\<rparr>"

definition classify_transition_miss :: "status_transition \<Rightarrow> string option \<Rightarrow> transition_result" where
  "classify_transition_miss t current =
     (case current of
        None \<Rightarrow> \<lparr>outcome = Not_found, transition_of = t, current_status = None\<rparr>
      | Some s \<Rightarrow>
          if s = to_status t then \<lparr>outcome = Already_terminal, transition_of = t, current_status = current\<rparr>
          else if s \<in> set (from_statuses t)
               then \<lparr>outcome = Condition_conflict, transition_of = t, current_status = current\<rparr>
          else \<lparr>outcome = Stale_state, transition_of = t, current_status = current\<rparr>)"

text \<open>The transitions of each resource, by the name of their constant.\<close>

definition dataset_transaction_transitions :: "(string \<times> status_transition) list" where
  "dataset_transaction_transitions =
     [(''DATASET_TRANSACTION_ABORTING'', mk_transition [''OPEN''] ''ABORTING''),
      (''DATASET_TRANSACTION_ABORT'', mk_transition [''OPEN'', ''ABORTING''] ''ABORTED''),
      (''DATASET_TRANSACTION_COMMIT'', mk_transition [''OPEN''] ''COMMITTED'')]"

definition media_transaction_transitions :: "(string \<times> status_transition) list" where
  "media_transaction_transitions =
     [(''MEDIA_TRANSACTION_COMMIT'', mk_transition [''OPEN''] ''COMMITTED''),
      (''MEDIA_TRANSACTION_ABORT'', mk_transition [''OPEN''] ''ABORTED'')]"

definition media_version_transitions :: "(string \<times> status_transition) list" where
  "media_version_transitions =
     [(''MEDIA_VERSION_COMMITTED'', mk_transition [''STAGED''] ''COMMITTED'')]"

definition media_derivative_transitions :: "(string \<times> status_transition) list" where
  "media_derivative_transitions =
     [(''MEDIA_DERIVATIVE_COMMITTED'', mk_transition [''STAGED''] ''COMMITTED''),
      (''MEDIA_DERIVATIVE_FAILED'', mk_transition [''STAGED''] ''FAILED'')]"

definition media_run_transitions :: "(string \<times> status_transition) list" where
  "media_run_transitions =
     [(''MEDIA_RUN_SUCCEEDED'', mk_transition [''RUNNING''] ''SUCCEEDED''),
      (''MEDIA_RUN_FAILED'', mk_transition [''RUNNING''] ''FAILED'')]"

definition sync_run_transitions :: "(string \<times> status_transition) list" where
  "sync_run_transitions =
     [(''SYNC_RUN_COMMITTED'', mk_transition [''EXTRACTING''] ''COMMITTED''),
      (''SYNC_RUN_FAILED'', mk_transition [''EXTRACTING''] ''FAILED'')]"

definition source_agent_transitions :: "(string \<times> status_transition) list" where
  "source_agent_transitions =
     [(''SOURCE_AGENT_HEARTBEAT'', mk_transition [''registered'', ''online''] ''online'')]"

definition source_connection_test_transitions :: "(string \<times> status_transition) list" where
  "source_connection_test_transitions =
     [(''SOURCE_CONNECTION_TEST_SUCCEEDED'', mk_transition [''running''] ''succeeded''),
      (''SOURCE_CONNECTION_TEST_FAILED'', mk_transition [''running''] ''failed'')]"

definition source_connection_transitions :: "(string \<times> status_transition) list" where
  "source_connection_transitions =
     [(''SOURCE_CONNECTION_DISABLED'', mk_transition [''active''] ''disabled''),
      (''SOURCE_CONNECTION_ENABLED'', mk_transition [''disabled''] ''active'')]"

definition source_sync_schedule_transitions :: "(string \<times> status_transition) list" where
  "source_sync_schedule_transitions =
     [(''SOURCE_SYNC_SCHEDULE_PAUSED'', mk_transition [''active''] ''paused''),
      (''SOURCE_SYNC_SCHEDULE_RESUMED'', mk_transition [''paused''] ''active'')]"

definition source_sync_run_transitions :: "(string \<times> status_transition) list" where
  "source_sync_run_transitions =
     [(''SOURCE_SYNC_RUN_RUNNING'', mk_transition [''running''] ''running''),
      (''SOURCE_SYNC_RUN_SUCCEEDED'', mk_transition [''running''] ''succeeded''),
      (''SOURCE_SYNC_RUN_FAILED'', mk_transition [''running''] ''failed''),
      (''SOURCE_SYNC_RUN_CANCELLED'', mk_transition [''running''] ''cancelled'')]"

definition transform_run_transitions :: "(string \<times> status_transition) list" where
  "transform_run_transitions =
     [(''TRANSFORM_RUN_SUCCEEDED'', mk_transition [''RUNNING''] ''SUCCESS''),
      (''TRANSFORM_RUN_FAILED'', mk_transition [''RUNNING''] ''FAILED'')]"

definition materialization_run_transitions :: "(string \<times> status_transition) list" where
  "materialization_run_transitions =
     [(''MATERIALIZATION_RUN_SUCCEEDED'', mk_transition [''running''] ''succeeded''),
      (''MATERIALIZATION_RUN_FAILED'', mk_transition [''running''] ''failed''),
      (''MATERIALIZATION_RUN_ABORT_FAILED'', mk_transition [''running''] ''FAILED'')]"

definition index_run_transitions :: "(string \<times> status_transition) list" where
  "index_run_transitions =
     [(''INDEX_RUN_SUCCEEDED'', mk_transition [''running''] ''succeeded''),
      (''INDEX_RUN_FAILED'', mk_transition [''running''] ''failed'')]"

definition ontology_version_transitions :: "(string \<times> status_transition) list" where
  "ontology_version_transitions =
     [(''ONTOLOGY_VERSION_ARCHIVED'', mk_transition [''active''] ''archived''),
      (''ONTOLOGY_VERSION_ACTIVE'', mk_transition [''draft''] ''active'')]"

definition ontology_proposal_transitions :: "(string \<times> status_transition) list" where
  "ontology_proposal_transitions =
     [(''ONTOLOGY_PROPOSAL_WITHDRAWN'', mk_transition [''pending'', ''approved''] ''rejected'')]"

definition ontology_branch_transitions :: "(string \<times> status_transition) list" where
  "ontology_branch_transitions =
     [(''ONTOLOGY_BRANCH_MERGED'', mk_transition [''open''] ''merged''),
      (''ONTOLOGY_BRANCH_ABANDONED'', mk_transition [''open''] ''abandoned'')]"

definition action_run_transitions :: "(string \<times> status_transition) list" where
  "action_run_transitions =
     [(''ACTION_RUN_EXTERNAL_PENDING'', mk_transition [''received''] ''external_pending''),
      (''ACTION_RUN_SUCCEEDED'', mk_transition [''received'', ''external_pending''] ''succeeded''),
      (''ACTION_RUN_FAILED'', mk_transition [''received'', ''external_pending''] ''failed''),
      (''ACTION_RUN_CONFLICT'', mk_transition [''received''] ''conflict''),
      (''ACTION_RUN_RETRYABLE'', mk_transition [''received''] ''retryable''),
      (''ACTION_RUN_OUTCOME_UNKNOWN'', mk_transition [''received'', ''external_pending''] ''outcome_unknown''),
      (''ACTION_RUN_COMPENSATION_REQUIRED'', mk_transition [''received'', ''external_pending''] ''compensation_required''),
      (''ACTION_RUN_RECONCILED'', mk_transition [''outcome_unknown'', ''compensation_required''] ''reconciled''),
      (''ACTION_RUN_ASYNC_RUNNING'', mk_transition [''queued'', ''running''] ''running''),
      (''ACTION_RUN_COMMIT_PENDING'', mk_transition [''running''] ''commit_pending''),
      (''ACTION_RUN_CANCELLING'', mk_transition [''queued'', ''running'', ''commit_pending''] ''cancelling''),
      (''ACTION_RUN_ASYNC_SUCCEEDED'', mk_transition [''commit_pending''] ''succeeded''),
      (''ACTION_RUN_ASYNC_FAILED'', mk_transition [''queued'', ''running'', ''commit_pending'', ''cancelling''] ''failed''),
      (''ACTION_RUN_ASYNC_CANCELLED'', mk_transition [''queued'', ''running'', ''cancelling''] ''cancelled''),
      (''ACTION_RUN_ASYNC_CONFLICT'', mk_transition [''running'', ''commit_pending''] ''conflict''),
      (''ACTION_RUN_ASYNC_OUTCOME_UNKNOWN'', mk_transition [''running''] ''outcome_unknown'')]"

definition action_writeback_transitions :: "(string \<times> status_transition) list" where
  "action_writeback_transitions =
     [(''ACTION_WRITEBACK_RECONCILED'', mk_transition [''outcome_unknown'', ''compensation_required''] ''reconciled'')]"

definition action_step_transitions :: "(string \<times> status_transition) list" where
  "action_step_transitions =
     [(''ACTION_STEP_RUNNING'', mk_transition [''pending'', ''running'', ''retry_wait''] ''running''),
      (''ACTION_STEP_RETRY_WAIT'', mk_transition [''running''] ''retry_wait''),
      (''ACTION_STEP_SUCCEEDED'', mk_transition [''running''] ''succeeded''),
      (''ACTION_STEP_FAILED'', mk_transition [''running''] ''failed''),
      (''ACTION_STEP_CANCELLED'', mk_transition [''pending'', ''running'', ''retry_wait''] ''cancelled''),
      (''ACTION_STEP_CANCEL_UNSTARTED'', mk_transition [''pending'', ''retry_wait''] ''cancelled'')]"

definition action_attempt_transitions :: "(string \<times> status_transition) list" where
  "action_attempt_transitions =
     [(''ACTION_ATTEMPT_SUCCEEDED'', mk_transition [''running''] ''succeeded''),
      (''ACTION_ATTEMPT_FAILED'', mk_transition [''running''] ''failed''),
      (''ACTION_ATTEMPT_CANCELLED'', mk_transition [''running''] ''cancelled''),
      (''ACTION_ATTEMPT_LOST'', mk_transition [''running''] ''lost'')]"

definition action_effect_transitions :: "(string \<times> status_transition) list" where
  "action_effect_transitions =
     [(''ACTION_EFFECT_DELIVERING'', mk_transition [''pending'', ''retry_wait'', ''delivering''] ''delivering''),
      (''ACTION_EFFECT_SUCCEEDED'', mk_transition [''delivering''] ''succeeded''),
      (''ACTION_EFFECT_RETRY_WAIT'', mk_transition [''delivering''] ''retry_wait''),
      (''ACTION_EFFECT_DEAD_LETTER'', mk_transition [''delivering''] ''dead_letter''),
      (''ACTION_EFFECT_OUTCOME_UNKNOWN'', mk_transition [''delivering''] ''outcome_unknown''),
      (''ACTION_EFFECT_CANCELLED'', mk_transition [''pending'', ''retry_wait'', ''delivering''] ''cancelled''),
      (''ACTION_EFFECT_MANUAL_RETRY'', mk_transition [''dead_letter''] ''retry_wait''),
      (''ACTION_EFFECT_RECONCILED_SUCCEEDED'', mk_transition [''outcome_unknown''] ''succeeded''),
      (''ACTION_EFFECT_RECONCILED_DEAD_LETTER'', mk_transition [''outcome_unknown''] ''dead_letter'')]"

definition action_notification_policy_transitions :: "(string \<times> status_transition) list" where
  "action_notification_policy_transitions =
     [(''ACTION_NOTIFICATION_POLICY_ACTIVE'', mk_transition [''active'', ''disabled''] ''active''),
      (''ACTION_NOTIFICATION_POLICY_DISABLED'', mk_transition [''active'', ''disabled''] ''disabled'')]"

definition dead_letter_transitions :: "(string \<times> status_transition) list" where
  "dead_letter_transitions =
     [(''DEAD_LETTER_REPLAY_REQUESTED'', mk_transition [''QUARANTINED''] ''REPLAY_REQUESTED''),
      (''DEAD_LETTER_REPLAY_RUNNING'', mk_transition [''REPLAY_REQUESTED'', ''REPLAYING''] ''REPLAYING''),
      (''DEAD_LETTER_REPLAY_SUCCEEDED'', mk_transition [''REPLAY_REQUESTED'', ''REPLAYING''] ''RESOLVED''),
      (''DEAD_LETTER_REPLAY_FAILED'', mk_transition [''REPLAY_REQUESTED'', ''REPLAYING''] ''QUARANTINED''),
      (''DEAD_LETTER_DISCARDED'', mk_transition [''QUARANTINED''] ''DISCARDED'')]"

definition outbox_transitions :: "(string \<times> status_transition) list" where
  "outbox_transitions =
     [(''OUTBOX_PUBLISHING'', mk_transition [''pending''] ''publishing''),
      (''OUTBOX_PUBLISHED'', mk_transition [''publishing''] ''published''),
      (''OUTBOX_PUBLISH_RETRY_PENDING'', mk_transition [''publishing''] ''pending''),
      (''OUTBOX_PUBLISH_FAILED'', mk_transition [''publishing''] ''failed''),
      (''OUTBOX_RETRY_PENDING'', mk_transition [''failed''] ''pending''),
      (''OUTBOX_PUBLISHING_RECLAIM'', mk_transition [''publishing''] ''pending'')]"

definition erasure_request_transitions :: "(string \<times> status_transition) list" where
  "erasure_request_transitions =
     [(''ERASURE_REQUEST_EXECUTED'', mk_transition [''requested''] ''executed'')]"

definition workflow_run_transitions :: "(string \<times> status_transition) list" where
  "workflow_run_transitions =
     [(''WORKFLOW_RUN_STARTING'', mk_transition [''requested'', ''start_unknown''] ''starting''),
      (''WORKFLOW_RUN_RUNNING'', mk_transition [''starting''] ''running''),
      (''WORKFLOW_RUN_SUCCEEDED'', mk_transition [''starting'', ''running'', ''start_unknown''] ''succeeded''),
      (''WORKFLOW_RUN_FAILED'', mk_transition [''requested'', ''starting'', ''running'', ''start_unknown''] ''failed''),
      (''WORKFLOW_RUN_CANCELLED'', mk_transition [''requested'', ''starting'', ''running'', ''start_unknown''] ''cancelled''),
      (''WORKFLOW_RUN_START_UNKNOWN'', mk_transition [''requested'', ''starting''] ''start_unknown''),
      (''WORKFLOW_RUN_LEASE_RUNNING'', mk_transition [''requested'', ''starting'', ''running'', ''succeeded'', ''failed'', ''cancelled'', ''start_unknown''] ''running'')]"

definition ai_run_transitions :: "(string \<times> status_transition) list" where
  "ai_run_transitions =
     [(''AI_RUN_SUCCEEDED'', mk_transition [''started'', ''running''] ''succeeded''),
      (''AI_RUN_CHALLENGE_REFRESHED'', mk_transition [''started''] ''started''),
      (''AI_RUN_FAILED'', mk_transition [''started'', ''running''] ''failed''),
      (''AI_RUN_RETRY_RUNNING'', mk_transition [''failed''] ''running''),
      (''AI_RUN_CANCELLED'', mk_transition [''started'', ''running''] ''cancelled'')]"

definition ai_eval_run_transitions :: "(string \<times> status_transition) list" where
  "ai_eval_run_transitions =
     [(''AI_EVAL_RUN_PASSED'', mk_transition [''running''] ''passed''),
      (''AI_EVAL_RUN_FAILED'', mk_transition [''running''] ''failed'')]"

definition pipeline_run_transitions :: "(string \<times> status_transition) list" where
  "pipeline_run_transitions =
     [(''PIPELINE_RUN_RUNNING'', mk_transition [''queued'', ''running'', ''executing''] ''running''),
      (''PIPELINE_RUN_EXECUTING'', mk_transition [''running''] ''executing''),
      (''PIPELINE_RUN_CANCELLING'', mk_transition [''queued'', ''running'', ''executing''] ''cancelling''),
      (''PIPELINE_RUN_SUCCEEDED'', mk_transition [''running'', ''executing''] ''succeeded''),
      (''PIPELINE_RUN_PARTIAL'', mk_transition [''running'', ''executing'', ''cancelling''] ''partial''),
      (''PIPELINE_RUN_FAILED'', mk_transition [''queued'', ''running'', ''executing''] ''failed''),
      (''PIPELINE_RUN_CANCELLED'', mk_transition [''queued'', ''running'', ''executing'', ''cancelling''] ''cancelled''),
      (''PIPELINE_RUN_RECONCILED_SUCCEEDED'', mk_transition [''partial''] ''succeeded''),
      (''PIPELINE_RUN_RECONCILED_PARTIAL'', mk_transition [''partial''] ''partial''),
      (''PIPELINE_RUN_RECONCILED_FAILED'', mk_transition [''partial''] ''failed'')]"

definition pipeline_node_run_transitions :: "(string \<times> status_transition) list" where
  "pipeline_node_run_transitions =
     [(''PIPELINE_NODE_RUN_RUNNING'', mk_transition [''PENDING'', ''READY'', ''RETRY_WAIT''] ''RUNNING''),
      (''PIPELINE_NODE_RUN_ATTEMPT_CLAIMED'', mk_transition [''PENDING'', ''READY'', ''RUNNING'', ''RETRY_WAIT''] ''RUNNING''),
      (''PIPELINE_NODE_RUN_SUCCEEDED'', mk_transition [''RUNNING''] ''SUCCEEDED''),
      (''PIPELINE_NODE_RUN_FAILED'', mk_transition [''RUNNING''] ''FAILED''),
      (''PIPELINE_NODE_RUN_RETRY_WAIT'', mk_transition [''RUNNING'', ''FAILED''] ''RETRY_WAIT''),
      (''PIPELINE_NODE_RUN_SKIPPED'', mk_transition [''PENDING''] ''SKIPPED''),
      (''PIPELINE_NODE_RUN_CANCELLED'', mk_transition [''PENDING'', ''READY'', ''RETRY_WAIT'', ''RUNNING''] ''CANCELLED'')]"

definition pipeline_node_attempt_transitions :: "(string \<times> status_transition) list" where
  "pipeline_node_attempt_transitions =
     [(''PIPELINE_NODE_ATTEMPT_SUCCEEDED'', mk_transition [''RUNNING''] ''SUCCEEDED''),
      (''PIPELINE_NODE_ATTEMPT_FAILED'', mk_transition [''RUNNING''] ''FAILED''),
      (''PIPELINE_NODE_ATTEMPT_LOST'', mk_transition [''RUNNING''] ''LOST''),
      (''PIPELINE_NODE_ATTEMPT_CANCELLED'', mk_transition [''RUNNING''] ''CANCELLED'')]"

definition pipeline_preview_transitions :: "(string \<times> status_transition) list" where
  "pipeline_preview_transitions =
     [(''PIPELINE_PREVIEW_RUNNING'', mk_transition [''QUEUED''] ''RUNNING''),
      (''PIPELINE_PREVIEW_CANCEL_REQUESTED'', mk_transition [''QUEUED'', ''RUNNING''] ''CANCEL_REQUESTED''),
      (''PIPELINE_PREVIEW_SUCCEEDED'', mk_transition [''QUEUED'', ''RUNNING''] ''SUCCEEDED''),
      (''PIPELINE_PREVIEW_FAILED'', mk_transition [''QUEUED'', ''RUNNING''] ''FAILED''),
      (''PIPELINE_PREVIEW_CANCELLED'', mk_transition [''QUEUED'', ''RUNNING'', ''CANCEL_REQUESTED''] ''CANCELLED'')]"

definition dataset_quality_contract_transitions :: "(string \<times> status_transition) list" where
  "dataset_quality_contract_transitions =
     [(''DATASET_QUALITY_CONTRACT_ACTIVE'', mk_transition [''DRAFT''] ''ACTIVE''),
      (''DATASET_QUALITY_CONTRACT_SUPERSEDED'', mk_transition [''ACTIVE''] ''SUPERSEDED'')]"

definition resource_catalog_transitions :: "(string \<times> status_transition) list" where
  "resource_catalog_transitions =
     [(''RESOURCE_CATALOG_TRASH'', mk_transition [''active''] ''trashed''),
      (''RESOURCE_CATALOG_RESTORE'', mk_transition [''trashed''] ''active'')]"

definition osdk_application_client_transitions :: "(string \<times> status_transition) list" where
  "osdk_application_client_transitions =
     [(''OSDK_APPLICATION_CLIENT_ACTIVE'', mk_transition [''active'', ''inactive''] ''active''),
      (''OSDK_APPLICATION_CLIENT_INACTIVE'', mk_transition [''active'', ''inactive''] ''inactive'')]"

definition osdk_client_secret_transitions :: "(string \<times> status_transition) list" where
  "osdk_client_secret_transitions =
     [(''OSDK_CLIENT_SECRET_ROTATED'', mk_transition [''active''] ''rotated''),
      (''OSDK_CLIENT_SECRET_REVOKED'', mk_transition [''active''] ''revoked'')]"

definition osdk_mcp_session_transitions :: "(string \<times> status_transition) list" where
  "osdk_mcp_session_transitions =
     [(''OSDK_MCP_SESSION_TERMINATED'', mk_transition [''active''] ''terminated'')]"

definition osdk_download_token_transitions :: "(string \<times> status_transition) list" where
  "osdk_download_token_transitions =
     [(''OSDK_DOWNLOAD_TOKEN_USED'', mk_transition [''active''] ''used'')]"

definition osdk_oauth_refresh_transitions :: "(string \<times> status_transition) list" where
  "osdk_oauth_refresh_transitions =
     [(''OSDK_OAUTH_REFRESH_REVOKED'', mk_transition [''active'', ''rotated''] ''revoked''),
      (''OSDK_OAUTH_REFRESH_ROTATED'', mk_transition [''active''] ''rotated'')]"

definition osdk_oauth_session_transitions :: "(string \<times> status_transition) list" where
  "osdk_oauth_session_transitions =
     [(''OSDK_OAUTH_SESSION_COMPROMISED'', mk_transition [''active''] ''compromised''),
      (''OSDK_OAUTH_SESSION_REVOKED'', mk_transition [''active''] ''revoked'')]"

definition observability_incident_transitions :: "(string \<times> status_transition) list" where
  "observability_incident_transitions =
     [(''OBSERVABILITY_INCIDENT_ACKNOWLEDGED'', mk_transition [''open''] ''acknowledged''),
      (''OBSERVABILITY_INCIDENT_RESOLVED'', mk_transition [''open'', ''acknowledged''] ''resolved'')]"

definition transition_table :: "(string \<times> status_transition) list" where
  "transition_table = concat
     [dataset_transaction_transitions,
      media_transaction_transitions,
      media_version_transitions,
      media_derivative_transitions,
      media_run_transitions,
      sync_run_transitions,
      source_agent_transitions,
      source_connection_test_transitions,
      source_connection_transitions,
      source_sync_schedule_transitions,
      source_sync_run_transitions,
      transform_run_transitions,
      materialization_run_transitions,
      index_run_transitions,
      ontology_version_transitions,
      ontology_proposal_transitions,
      ontology_branch_transitions,
      action_run_transitions,
      action_writeback_transitions,
      action_step_transitions,
      action_attempt_transitions,
      action_effect_transitions,
      action_notification_policy_transitions,
      dead_letter_transitions,
      outbox_transitions,
      erasure_request_transitions,
      workflow_run_transitions,
      ai_run_transitions,
      ai_eval_run_transitions,
      pipeline_run_transitions,
      pipeline_node_run_transitions,
      pipeline_node_attempt_transitions,
      pipeline_preview_transitions,
      dataset_quality_contract_transitions,
      resource_catalog_transitions,
      osdk_application_client_transitions,
      osdk_client_secret_transitions,
      osdk_mcp_session_transitions,
      osdk_download_token_transitions,
      osdk_oauth_refresh_transitions,
      osdk_oauth_session_transitions,
      observability_incident_transitions]"

definition the_transition :: "string \<Rightarrow> status_transition" where
  "the_transition name = (case map_of transition_table name of Some t \<Rightarrow> t | None \<Rightarrow> mk_transition [] [])"

definition observability_incident_transition :: "string \<Rightarrow> status_transition result" where
  "observability_incident_transition status =
     (if status = ''acknowledged'' then Inr (the_transition ''OBSERVABILITY_INCIDENT_ACKNOWLEDGED'')
      else if status = ''resolved'' then Inr (the_transition ''OBSERVABILITY_INCIDENT_RESOLVED'')
      else Inl ValueError)"

definition dataset_run_failed_transition :: "string \<Rightarrow> status_transition" where
  "dataset_run_failed_transition run_kind =
     (if run_kind = ''sync'' then the_transition ''SYNC_RUN_FAILED''
      else if run_kind = ''transform'' then the_transition ''TRANSFORM_RUN_FAILED''
      else the_transition ''MATERIALIZATION_RUN_ABORT_FAILED'')"

section \<open>Compare-and-set updates\<close>

record status_row =
  row_tenant_id :: string
  row_id :: string
  row_status :: "string option"
  row_values :: dict

abbreviation row_key :: "status_row \<Rightarrow> string \<times> string" where
  "row_key r \<equiv> (row_tenant_id r, row_id r)"

definition status_in :: "status_row \<Rightarrow> string list \<Rightarrow> bool" where
  "status_in r statuses = (case row_status r of None \<Rightarrow> False | Some s \<Rightarrow> s \<in> set statuses)"

definition set_status :: "status_transition \<Rightarrow> dict \<Rightarrow> status_row \<Rightarrow> status_row" where
  "set_status t values r = r\<lparr>row_status := Some (to_status t), row_values := dupdate (row_values r) values\<rparr>"

definition stored_status :: "string \<Rightarrow> string \<Rightarrow> status_row list \<Rightarrow> string option" where
  "stored_status tenant_id rid rows =
     (case sql_first (\<lambda>r. row_tenant_id r = tenant_id \<and> row_id r = rid) rows of
        None \<Rightarrow> None | Some r \<Rightarrow> row_status r)"

definition cas_status_transition ::
  "string \<Rightarrow> string \<Rightarrow> status_transition \<Rightarrow> dict \<Rightarrow> (status_row \<Rightarrow> bool) \<Rightarrow> status_row list
     \<Rightarrow> status_row list \<times> transition_result" where
  "cas_status_transition tenant_id rid t values conditions rows =
     (let (rows', rowcount) = sql_update
            (\<lambda>r. row_tenant_id r = tenant_id \<and> row_id r = rid \<and> status_in r (from_statuses t) \<and> conditions r)
            (set_status t values) rows in
      (rows', if rowcount = 1 then transition_updated t
              else classify_transition_miss t (stored_status tenant_id rid rows')))"

definition cas_status_update ::
  "string \<Rightarrow> string \<Rightarrow> status_transition \<Rightarrow> dict \<Rightarrow> (status_row \<Rightarrow> bool) \<Rightarrow> status_row list
     \<Rightarrow> status_row list \<times> bool" where
  "cas_status_update tenant_id rid t values conditions rows =
     (let (rows', r) = cas_status_transition tenant_id rid t values conditions rows in (rows', is_updated r))"

definition cas_status_update_many ::
  "string \<Rightarrow> status_transition \<Rightarrow> dict \<Rightarrow> (status_row \<Rightarrow> bool) \<Rightarrow> status_row list \<Rightarrow> status_row list \<times> nat" where
  "cas_status_update_many tenant_id t values conditions rows =
     sql_update (\<lambda>r. row_tenant_id r = tenant_id \<and> status_in r (from_statuses t) \<and> conditions r)
       (set_status t values) rows"

definition cas_status_guarded_update ::
  "string \<Rightarrow> string \<Rightarrow> string list \<Rightarrow> dict \<Rightarrow> (status_row \<Rightarrow> bool) \<Rightarrow> status_row list \<Rightarrow> status_row list \<times> bool" where
  "cas_status_guarded_update tenant_id rid allowed_statuses values conditions rows =
     (let (rows', rowcount) = sql_update
            (\<lambda>r. row_tenant_id r = tenant_id \<and> row_id r = rid \<and> status_in r allowed_statuses \<and> conditions r)
            (\<lambda>r. r\<lparr>row_values := dupdate (row_values r) values\<rparr>) rows in
      (rows', rowcount = 1))"

section \<open>Terminal states of the domain layer\<close>

definition default_terminal_states :: "string list" where
  "default_terminal_states =
     [''succeeded'', ''failed'', ''cancelled'', ''conflict'', ''discarded'', ''resolved'', ''quarantined'',
      ''reconciled'', ''compensation_required'', ''outcome_unknown'']"

definition default_retryable_terminal_states :: "string list" where
  "default_retryable_terminal_states = [''failed'', ''retryable'', ''outcome_unknown'']"

definition is_terminal_state :: "string option \<Rightarrow> string list \<Rightarrow> bool" where
  "is_terminal_state status terminal_states =
     (case status of None \<Rightarrow> False | Some s \<Rightarrow> py_lower s \<in> set (map py_lower terminal_states))"

definition is_retryable_terminal_state :: "string option \<Rightarrow> string list \<Rightarrow> bool" where
  "is_retryable_terminal_state status retryable_states =
     (case status of None \<Rightarrow> False | Some s \<Rightarrow> py_lower s \<in> set (map py_lower retryable_states))"

definition ensure_nonterminal_transition :: "string option \<Rightarrow> string \<Rightarrow> string list \<Rightarrow> unit result" where
  "ensure_nonterminal_transition current next_status terminal_states =
     raise_if (is_terminal_state current terminal_states) (ConflictDetected ''terminal state cannot transition'')"

section \<open>Racing workers\<close>

text \<open>One update of one worker, with whatever extra conditions and values it carries. Every kind of
  update the repositories issue on a status table is a step.\<close>

inductive cas_step :: "status_transition list \<Rightarrow> status_row list \<Rightarrow> status_row list \<Rightarrow> bool"
  for transitions where
  transition: "t \<in> set transitions \<Longrightarrow>
     cas_step transitions rows (fst (cas_status_transition tenant_id rid t values conditions rows))"
| many: "t \<in> set transitions \<Longrightarrow>
     cas_step transitions rows (fst (cas_status_update_many tenant_id t values conditions rows))"
| guarded: "cas_step transitions rows (fst (cas_status_guarded_update tenant_id rid allowed values conditions rows))"

inductive cas_run :: "status_transition list \<Rightarrow> status_row list \<Rightarrow> status_row list \<Rightarrow> bool"
  for transitions where
  start: "cas_run transitions rows rows"
| more: "cas_run transitions rows rows' \<Longrightarrow> cas_step transitions rows' rows'' \<Longrightarrow> cas_run transitions rows rows''"

inductive_cases cas_stepE: "cas_step transitions rows rows'"

definition status_within :: "string set \<Rightarrow> string \<times> string \<Rightarrow> status_row list \<Rightarrow> bool" where
  "status_within S key rows \<longleftrightarrow> (\<forall>r \<in> set rows. row_key r = key \<longrightarrow> (\<exists>s \<in> S. row_status r = Some s))"

lemma row_key_set_status [simp]: "row_key (set_status t values r) = row_key r"
  by (simp add: set_status_def)

lemma fst_cas_status_transition:
  "fst (cas_status_transition tenant_id rid t values conditions rows) =
     fst (sql_update (\<lambda>r. row_tenant_id r = tenant_id \<and> row_id r = rid \<and> status_in r (from_statuses t) \<and> conditions r)
       (set_status t values) rows)"
  by (simp add: cas_status_transition_def Let_def split: prod.split)

lemma fst_cas_status_guarded_update:
  "fst (cas_status_guarded_update tenant_id rid allowed values conditions rows) =
     fst (sql_update (\<lambda>r. row_tenant_id r = tenant_id \<and> row_id r = rid \<and> status_in r allowed \<and> conditions r)
       (\<lambda>r. r\<lparr>row_values := dupdate (row_values r) values\<rparr>) rows)"
  by (simp add: cas_status_guarded_update_def Let_def split: prod.split)

lemmas cas_updates = fst_cas_status_transition fst_cas_status_guarded_update cas_status_update_many_def set_sql_update

lemma cas_step_unique:
  assumes "cas_step transitions rows rows'" "unique_on row_key rows"
  shows "unique_on row_key rows'"
  using assms(1)
proof cases
  case transition
  then show ?thesis using assms(2) unfolding fst_cas_status_transition by (simp add: unique_on_update)
next
  case many
  then show ?thesis using assms(2) unfolding cas_status_update_many_def by (simp add: unique_on_update)
next
  case guarded
  then show ?thesis using assms(2) unfolding fst_cas_status_guarded_update by (simp add: unique_on_update)
qed

text \<open>Statuses no transition of a family leaves.\<close>

locale closed_statuses =
  fixes transitions :: "status_transition list" and S :: "string set"
  assumes closed: "t \<in> set transitions \<Longrightarrow> \<exists>s \<in> S. s \<in> set (from_statuses t) \<Longrightarrow> to_status t \<in> S"
begin

lemma set_status_within:
  assumes "t \<in> set transitions" "status_in r (from_statuses t)" "\<exists>s \<in> S. row_status r = Some s"
  shows "\<exists>s \<in> S. row_status (set_status t values r) = Some s"
proof -
  have "\<exists>s \<in> S. s \<in> set (from_statuses t)" using assms(2,3) by (auto simp: status_in_def)
  from closed [OF assms(1) this] show ?thesis by (simp add: set_status_def)
qed

lemma step_within:
  assumes "cas_step transitions rows rows'" "status_within S key rows"
  shows "status_within S key rows'"
  using assms(1)
proof cases
  case transition
  with assms(2) show ?thesis
    by (fastforce simp: status_within_def cas_updates intro: set_status_within)
next
  case many
  with assms(2) show ?thesis
    by (fastforce simp: status_within_def cas_updates intro: set_status_within)
next
  case guarded
  with assms(2) show ?thesis by (auto simp: status_within_def cas_updates)
qed

lemma run_within:
  assumes "cas_run transitions rows rows'" "status_within S key rows"
  shows "status_within S key rows'"
  using assms by induction (auto intro: step_within)

end

lemma closed_statusesI:
  "list_all (\<lambda>t. list_ex (\<lambda>s. s \<in> set (from_statuses t)) ss \<longrightarrow> to_status t \<in> set ss) transitions
     \<Longrightarrow> closed_statuses transitions (set ss)"
  by unfold_locales (fastforce simp: list_all_iff list_ex_iff)

interpretation cancelling_run: closed_statuses "map snd action_run_transitions" "set [''cancelling'', ''cancelled'', ''failed'']"
  by (rule closed_statusesI) code_simp

text \<open>Statuses meant to be final, with the transition family of their table.\<close>

definition final_statuses :: "((string \<times> status_transition) list \<times> string list) list" where
  "final_statuses =
     [(dataset_transaction_transitions, [''ABORTED'', ''COMMITTED'']),
      (media_transaction_transitions, [''COMMITTED'', ''ABORTED'']),
      (media_version_transitions, [''COMMITTED'']),
      (media_derivative_transitions, [''COMMITTED'', ''FAILED'']),
      (media_run_transitions, [''SUCCEEDED'', ''FAILED'']),
      (sync_run_transitions, [''COMMITTED'', ''FAILED'']),
      (source_connection_test_transitions, [''succeeded'', ''failed'']),
      (source_sync_run_transitions, [''succeeded'', ''failed'', ''cancelled'']),
      (transform_run_transitions, [''SUCCESS'', ''FAILED'']),
      (materialization_run_transitions, [''succeeded'', ''failed'', ''FAILED'']),
      (index_run_transitions, [''succeeded'', ''failed'']),
      (ontology_version_transitions, [''archived'']),
      (ontology_branch_transitions, [''merged'', ''abandoned'']),
      (action_run_transitions, [''succeeded'', ''failed'', ''conflict'', ''retryable'', ''reconciled'', ''cancelled'']),
      (action_writeback_transitions, [''reconciled'']),
      (action_step_transitions, [''succeeded'', ''failed'', ''cancelled'']),
      (action_attempt_transitions, [''succeeded'', ''failed'', ''cancelled'', ''lost'']),
      (action_effect_transitions, [''succeeded'', ''cancelled'']),
      (dead_letter_transitions, [''RESOLVED'', ''DISCARDED'']),
      (outbox_transitions, [''published'']),
      (erasure_request_transitions, [''executed'']),
      (ai_run_transitions, [''succeeded'', ''cancelled'']),
      (ai_eval_run_transitions, [''passed'', ''failed'']),
      (pipeline_run_transitions, [''succeeded'', ''failed'', ''cancelled'']),
      (pipeline_node_run_transitions, [''SUCCEEDED'', ''SKIPPED'', ''CANCELLED'']),
      (pipeline_node_attempt_transitions, [''SUCCEEDED'', ''FAILED'', ''LOST'', ''CANCELLED'']),
      (pipeline_preview_transitions, [''SUCCEEDED'', ''FAILED'', ''CANCELLED'']),
      (dataset_quality_contract_transitions, [''SUPERSEDED'']),
      (osdk_client_secret_transitions, [''rotated'', ''revoked'']),
      (osdk_mcp_session_transitions, [''terminated'']),
      (osdk_download_token_transitions, [''used'']),
      (osdk_oauth_refresh_transitions, [''revoked'']),
      (osdk_oauth_session_transitions, [''compromised'', ''revoked'']),
      (observability_incident_transitions, [''resolved''])]"

definition leaves_no_final :: "status_transition list \<Rightarrow> string \<Rightarrow> bool" where
  "leaves_no_final transitions s = list_all (\<lambda>t. s \<in> set (from_statuses t) \<longrightarrow> to_status t = s) transitions"

lemma final_statuses_checked:
  "list_all (\<lambda>(transitions, finals). list_all (leaves_no_final (map snd transitions)) finals) final_statuses"
  by code_simp

lemma final_statuses_closed:
  assumes "(transitions, finals) \<in> set final_statuses" "s \<in> set finals"
  shows "closed_statuses (map snd transitions) {s}"
proof -
  have "leaves_no_final (map snd transitions) s"
    using final_statuses_checked assms by (auto simp only: list_all_iff)
  then show ?thesis by unfold_locales (auto simp: leaves_no_final_def list_all_iff)
qed

section \<open>Properties\<close>

text \<open>
  C5. However workers interleave their compare-and-set updates, an action run whose cancellation has
  been accepted only ever moves on to cancelled or failed; it can no longer reach the commit.
\<close>

theorem cancelling_run_never_commits:
  assumes "cas_run (map snd action_run_transitions) rows rows'"
    and "status_within {''cancelling''} key rows"
    and "r \<in> set rows'" "row_key r = key"
  shows "row_status r \<in> {Some ''cancelling'', Some ''cancelled'', Some ''failed''}"
proof -
  have "status_within (set [''cancelling'', ''cancelled'', ''failed'']) key rows"
    using assms(2) by (auto simp: status_within_def)
  from cancelling_run.run_within [OF assms(1) this] assms(3,4) show ?thesis
    by (auto simp: status_within_def)
qed

theorem cancelling_run_never_commits_witness:
  "\<exists>rows'. cas_run (map snd action_run_transitions)
       [\<lparr>row_tenant_id = ''t'', row_id = ''run1'', row_status = Some ''cancelling'', row_values = []\<rparr>] rows'
     \<and> map row_status rows' = [Some ''cancelled'']
     \<and> row_status (hd rows') \<in> {Some ''cancelling'', Some ''cancelled'', Some ''failed''}"
proof -
  let ?rows = "[\<lparr>row_tenant_id = ''t'', row_id = ''run1'', row_status = Some ''cancelling'', row_values = []\<rparr>]"
  let ?rows' = "fst (cas_status_transition ''t'' ''run1'' (mk_transition [''queued'', ''running'', ''cancelling''] ''cancelled'') []
      (\<lambda>_. True) ?rows)"
  have t: "mk_transition [''queued'', ''running'', ''cancelling''] ''cancelled'' \<in> set (map snd action_run_transitions)" by code_simp
  have run: "cas_run (map snd action_run_transitions) ?rows ?rows'"
    by (rule cas_run.more [OF cas_run.start cas_step.transition [OF t]])
  have eq: "?rows' = [\<lparr>row_tenant_id = ''t'', row_id = ''run1'', row_status = Some ''cancelled'', row_values = []\<rparr>]"
    by (simp add: fst_cas_status_transition sql_update_def status_in_def mk_transition_def set_status_def)
  then have status: "map row_status ?rows' = [Some ''cancelled'']" by simp
  have "hd ?rows' \<in> set ?rows'" "row_key (hd ?rows') = (''t'', ''run1'')" by (simp_all add: eq)
  from cancelling_run_never_commits [OF run _ this] have
    member: "row_status (hd ?rows') \<in> {Some ''cancelling'', Some ''cancelled'', Some ''failed''}"
    by (simp add: status_within_def)
  show ?thesis by (intro exI [of _ ?rows'] conjI run status member)
qed



lemma status_in_dest: "status_in r ss \<Longrightarrow> \<exists>s. row_status r = Some s \<and> s \<in> set ss"
  by (auto simp: status_in_def split: option.splits)

lemma cas_hit_or_miss:
  assumes "unique_on row_key rows"
  obtains
    (hit) before row after where "rows = before @ row # after" "row_key row = (tenant_id, rid)"
      "status_in row (from_statuses t)" "conditions row"
      "cas_status_transition tenant_id rid t values conditions rows =
         (before @ set_status t values row # after, transition_updated t)"
  | (miss) "\<And>row. row \<in> set rows \<Longrightarrow> row_key row = (tenant_id, rid) \<Longrightarrow>
        status_in row (from_statuses t) \<Longrightarrow> \<not> conditions row"
      "cas_status_transition tenant_id rid t values conditions rows =
         (rows, classify_transition_miss t (stored_status tenant_id rid rows))"
proof -
  let ?p = "\<lambda>r. row_tenant_id r = tenant_id \<and> row_id r = rid \<and> status_in r (from_statuses t) \<and> conditions r"
  show thesis
  proof (cases "snd (sql_update ?p (set_status t values) rows) = 0")
    case True
    then have "\<forall>r \<in> set rows. \<not> ?p r" by (auto simp: sql_update_def filter_empty_conv)
    moreover have "fst (sql_update ?p (set_status t values) rows) = rows" using True by (rule sql_update_none)
    ultimately show thesis
      using True by (intro miss) (auto simp: cas_status_transition_def Let_def split: prod.splits)
  next
    case False
    from sql_update_one [OF assms, where p = ?p and k = "(tenant_id, rid)" and f = "set_status t values"] False
    obtain before row after where "rows = before @ row # after" "?p row"
      "fst (sql_update ?p (set_status t values) rows) = before @ set_status t values row # after"
      "snd (sql_update ?p (set_status t values) rows) = 1" by auto
    then show thesis
      by (intro hit [of before row after]) (auto simp: cas_status_transition_def Let_def split: prod.splits)
  qed
qed

lemma stored_status_found:
  assumes "unique_on row_key rows" "row \<in> set rows" "row_key row = (tenant_id, rid)"
  shows "stored_status tenant_id rid rows = row_status row"
proof -
  have "sql_first (\<lambda>r. row_tenant_id r = tenant_id \<and> row_id r = rid) rows = Some row"
    using assms by (intro sql_first_unique [where key = row_key]) auto
  then show ?thesis by (simp add: stored_status_def)
qed

lemma stored_status_Some:
  assumes "stored_status tenant_id rid rows = Some s"
  obtains row where "row \<in> set rows" "row_key row = (tenant_id, rid)" "row_status row = Some s"
  using assms by (auto simp: stored_status_def dest!: sql_first_Some split: option.splits)

text \<open>
  Exactly one of two workers wins: once a transition has been performed on a row, a transition
  that does not start from the status it led to is refused, changes nothing, and is reported as
  stale or already done.
\<close>

theorem cas_single_winner:
  assumes "unique_on row_key rows"
    and "cas_status_transition tenant_id rid t values conditions rows = (rows', result)" "is_updated result"
    and "to_status t \<notin> set (from_statuses u)"
    and "cas_status_transition tenant_id rid u values' conditions' rows' = (rows'', result')"
  shows "rows'' = rows' \<and> \<not> is_updated result'
       \<and> outcome result' = (if to_status u = to_status t then Already_terminal else Stale_state)"
proof -
  have "(rows', result) \<noteq> (rows, classify_transition_miss t (stored_status tenant_id rid rows))"
    using assms(3) by (auto simp: is_updated_def classify_transition_miss_def split: option.splits if_splits)
  with assms(2) obtain before row after where row: "rows = before @ row # after" "row_key row = (tenant_id, rid)"
    "rows' = before @ set_status t values row # after"
    by (cases rule: cas_hit_or_miss [OF assms(1), of tenant_id rid t conditions "values"]) auto
  then have row': "set_status t values row \<in> set rows'" "row_key (set_status t values row) = (tenant_id, rid)"
    "row_status (set_status t values row) = Some (to_status t)" by (auto simp: set_status_def)
  have unique: "unique_on row_key rows'"
    using assms(1) row unfolding unique_on_def by (simp add: set_status_def)
  have none: "\<not> status_in r (from_statuses u)" if "r \<in> set rows'" "row_key r = (tenant_id, rid)" for r
    using unique_on_inj [OF unique that(1) row'(1)] that(2) row'(2,3) assms(4) by (auto simp: status_in_def)
  have "cas_status_transition tenant_id rid u values' conditions' rows' =
      (rows', classify_transition_miss u (stored_status tenant_id rid rows'))"
    by (cases rule: cas_hit_or_miss [OF unique, of tenant_id rid u conditions' values']) (use none in auto)
  then show ?thesis
    using assms(4,5) stored_status_found [OF unique row'(1,2)] row'(3)
    by (auto simp: classify_transition_miss_def is_updated_def)
qed

theorem cas_single_winner_witness:
  "\<exists>rows'. cas_status_transition ''t'' ''run1'' (mk_transition [''received'', ''external_pending''] ''succeeded'') []
       (\<lambda>_. True) [\<lparr>row_tenant_id = ''t'', row_id = ''run1'', row_status = Some ''received'', row_values = []\<rparr>] =
       (rows', transition_updated (mk_transition [''received'', ''external_pending''] ''succeeded''))
     \<and> fst (cas_status_transition ''t'' ''run1'' (mk_transition [''received'', ''external_pending''] ''failed'') []
       (\<lambda>_. True) rows') = rows'"
proof -
  let ?rows = "[\<lparr>row_tenant_id = ''t'', row_id = ''run1'', row_status = Some ''received'', row_values = []\<rparr>]"
  let ?t = "mk_transition [''received'', ''external_pending''] ''succeeded''"
  let ?u = "mk_transition [''received'', ''external_pending''] ''failed''"
  let ?rows' = "[\<lparr>row_tenant_id = ''t'', row_id = ''run1'', row_status = Some ''succeeded'', row_values = []\<rparr>]"
  have run: "cas_status_transition ''t'' ''run1'' ?t [] (\<lambda>_. True) ?rows = (?rows', transition_updated ?t)"
    by (simp add: cas_status_transition_def sql_update_def status_in_def mk_transition_def set_status_def)
  obtain rows'' result' where second: "cas_status_transition ''t'' ''run1'' ?u [] (\<lambda>_. True) ?rows' = (rows'', result')"
    by fastforce
  have "unique_on row_key ?rows" "is_updated (transition_updated ?t)" "to_status ?t \<notin> set (from_statuses ?u)"
    by (simp_all add: unique_on_def is_updated_def transition_updated_def mk_transition_def)
  from cas_single_winner [OF this(1) run this(2,3) second] run second show ?thesis
    by (intro exI [of _ ?rows']) simp
qed

text \<open>
  A refused transition changes nothing and its outcome says why: no such row, the row already is
  in the target status, it is in a status the transition does not start from, or an extra condition
  of the update failed.
\<close>

theorem cas_miss_classified:
  assumes "unique_on row_key rows"
    and "cas_status_transition tenant_id rid t values conditions rows = (rows', result)"
    and "\<not> is_updated result"
  shows "rows' = rows \<and> (case outcome result of
      Updated \<Rightarrow> False
    | Not_found \<Rightarrow> \<forall>row \<in> set rows. row_key row = (tenant_id, rid) \<longrightarrow> row_status row = None
    | Already_terminal \<Rightarrow> \<exists>row \<in> set rows. row_key row = (tenant_id, rid) \<and> row_status row = Some (to_status t)
    | Stale_state \<Rightarrow> \<exists>row \<in> set rows. \<exists>s. row_key row = (tenant_id, rid) \<and> row_status row = Some s
        \<and> s \<noteq> to_status t \<and> s \<notin> set (from_statuses t)
    | Condition_conflict \<Rightarrow> \<exists>row \<in> set rows. row_key row = (tenant_id, rid)
        \<and> status_in row (from_statuses t) \<and> \<not> conditions row)"
proof (cases rule: cas_hit_or_miss [OF assms(1), of tenant_id rid t conditions "values", case_names hit miss])
  case hit
  with assms(2,3) show ?thesis by (simp add: is_updated_def transition_updated_def)
next
  case miss
  show ?thesis
  proof (cases "stored_status tenant_id rid rows")
    case None
    then have "row_status row = None" if "row \<in> set rows" "row_key row = (tenant_id, rid)" for row
      using stored_status_found [OF assms(1) that] by simp
    with None miss assms(2) show ?thesis by (auto simp: classify_transition_miss_def)
  next
    case (Some s)
    then obtain row where row: "row \<in> set rows" "row_key row = (tenant_id, rid)" "row_status row = Some s"
      by (rule stored_status_Some)
    with Some miss(2) assms(2) miss(1) [OF row(1,2)] show ?thesis
      by (auto simp: classify_transition_miss_def status_in_def intro!: bexI [of _ row])
  qed
qed

theorem cas_miss_classified_witness:
  "outcome (snd (cas_status_transition ''t'' ''x'' (mk_transition [''open''] ''merged'') [] (\<lambda>_. True) [])) = Not_found"
proof -
  let ?c = "cas_status_transition ''t'' ''x'' (mk_transition [''open''] ''merged'') [] (\<lambda>_. True) []"
  have "\<not> is_updated (snd ?c)" "unique_on row_key []"
    by (simp_all add: cas_status_transition_def sql_update_def is_updated_def classify_transition_miss_def
        stored_status_def sql_first_def unique_on_def)
  from cas_miss_classified [OF this(2) prod.collapse [symmetric] this(1)]
  have "case outcome (snd ?c) of Updated \<Rightarrow> False | Not_found \<Rightarrow> True | _ \<Rightarrow> False"
    by (auto split: transition_outcome.splits)
  then show ?thesis by (simp split: transition_outcome.splits)
qed

end
