(* ===== verification/Object_Store.thy ===== *)
theory Object_Store
  imports State_Transitions
begin

text \<open>
  \<^verbatim>\<open>infrastructure/repositories/object_write_ops.py\<close>, \<^verbatim>\<open>object_change_sequence.py\<close> and the object
  writes of \<^verbatim>\<open>action_repository.py\<close>: the tables of objects and links, the writes an action commit is
  made of, and the reads that find their targets. Rows follow \<^verbatim>\<open>infrastructure/schema/objects.py\<close>.
  A write runs in the caller's transaction; both supported dialects (PostgreSQL and SQLite) give
  the statements this meaning. Identifiers and timestamps come from a supply that is an argument.
\<close>

section \<open>Tables\<close>

record object_row =
  or_id :: string
  or_tenant_id :: string
  or_object_type_id :: string
  or_object_type_api_name :: string
  or_object_id :: string
  or_index_version :: string
  or_is_active :: bool
  or_properties :: dict
  or_base_properties :: dict
  or_edit_properties :: dict
  or_property_versions :: dict
  or_source_dataset_version_id :: "string option"
  or_source_hash :: "string option"
  or_object_version :: int
  or_object_change_sequence :: "int option"
  or_deleted :: bool
  or_deletion_reason :: "string option"
  or_created_at :: string
  or_updated_at :: string

text \<open>A row of \<^verbatim>\<open>object_record_versions\<close>: its own identifier, and the copied columns.\<close>

record object_version_row =
  ov_id :: string
  ov_row :: object_row

record link_row =
  lr_id :: string
  lr_tenant_id :: string
  lr_link_type_id :: string
  lr_link_type_api_name :: string
  lr_index_version :: string
  lr_is_active :: bool
  lr_from_object_type_id :: string
  lr_from_api_name :: string
  lr_from_object_id :: string
  lr_to_object_type_id :: string
  lr_to_api_name :: string
  lr_to_object_id :: string
  lr_properties :: dict
  lr_source_dataset_version_id :: "string option"
  lr_link_version :: int
  lr_deleted :: bool
  lr_deletion_reason :: "string option"
  lr_updated_at :: string

record edit_row =
  er_id :: string
  er_tenant_id :: string
  er_action_run_id :: string
  er_object_type_id :: string
  er_object_type_api_name :: string
  er_object_id :: string
  er_edit_type :: string
  er_patch :: dict
  er_previous_values :: dict
  er_revert_payload :: "dict option"
  er_actor_user_id :: string
  er_idempotency_key :: string
  er_created_at :: string

text \<open>What the runtime boundary is asked to record: an outbox event and an audit entry.\<close>

record outbox_event =
  ob_event_type :: string
  ob_aggregate_type :: string
  ob_aggregate_id :: string
  ob_payload :: dict
  ob_idempotency_key :: string

record audit_entry =
  au_event_type :: string
  au_resource_id :: string
  au_action :: string
  au_after_ref :: dict

record object_db =
  db_records :: "object_row list"
  db_versions :: "object_version_row list"
  db_links :: "link_row list"
  db_counters :: "(string \<times> int) list"
  db_edits :: "edit_row list"
  db_action_runs :: "status_row list"
  db_outbox :: "outbox_event list"
  db_audit :: "audit_entry list"
  db_uuids :: nat
  db_ticks :: nat

text \<open>The supply of identifiers and timestamps: the hexadecimal text of the \<open>n\<close>-th \<^verbatim>\<open>uuid4()\<close> and the
  text of the \<open>n\<close>-th reading of the clock.\<close>

record id_supply =
  uuid_hex :: "nat \<Rightarrow> string"
  clock_text :: "nat \<Rightarrow> string"

definition new_id :: "id_supply \<Rightarrow> string \<Rightarrow> (object_db, string) io" where
  "new_id ids prefix = (\<lambda>db. Inr (prefix @ ''_'' @ uuid_hex ids (db_uuids db), db\<lparr>db_uuids := db_uuids db + 1\<rparr>))"

definition now :: "id_supply \<Rightarrow> (object_db, string) io" where
  "now ids = (\<lambda>db. Inr (clock_text ids (db_ticks db), db\<lparr>db_ticks := db_ticks db + 1\<rparr>))"

section \<open>Reads\<close>

definition object_record :: "string \<Rightarrow> string \<Rightarrow> string \<Rightarrow> object_db \<Rightarrow> object_row option" where
  "object_record tenant_id object_type_api_name object_id db =
     sql_first (\<lambda>r. or_tenant_id r = tenant_id \<and> or_object_type_api_name r = object_type_api_name
                  \<and> or_is_active r \<and> or_object_id r = object_id) (db_records db)"

definition object_target_for_revert :: "string \<Rightarrow> string \<Rightarrow> string \<Rightarrow> object_db \<Rightarrow> object_row option" where
  "object_target_for_revert tenant_id object_type_id object_id db =
     sql_first (\<lambda>r. or_tenant_id r = tenant_id \<and> or_object_type_id r = object_type_id
                  \<and> or_object_id r = object_id \<and> or_index_version r = ''active'') (db_records db)"

section \<open>Object writes\<close>

definition next_object_change_sequence :: "string \<Rightarrow> (object_db, int) io" where
  "next_object_change_sequence tenant_id = (\<lambda>db.
     let n = (case map_of (db_counters db) tenant_id of None \<Rightarrow> 1 | Some n \<Rightarrow> n + 1) in
     Inr (n, db\<lparr>db_counters := dput tenant_id n (db_counters db)\<rparr>))"

definition snapshot_object_record_version :: "id_supply \<Rightarrow> string \<Rightarrow> string \<Rightarrow> (object_db, unit) io" where
  "snapshot_object_record_version ids tenant_id record_id = (\<lambda>db.
     case filter (\<lambda>r. or_tenant_id r = tenant_id \<and> or_id r = record_id) (db_records db) of
       [row] \<Rightarrow> io_bind (new_id ids ''object_record_version'') (\<lambda>i.
                 \<lambda>db. Inr ((), db\<lparr>db_versions := db_versions db @ [\<lparr>ov_id = i, ov_row = row\<rparr>]\<rparr>)) db
     | _ \<Rightarrow> Inl NoResultFound)"

record object_create_write =
  ocw_object_record_id :: string
  ocw_tenant_id :: string
  ocw_object_type_id :: string
  ocw_object_type_api_name :: string
  ocw_object_id :: string
  ocw_properties :: dict
  ocw_created_at :: string

definition object_create_values :: "object_create_write \<Rightarrow> int \<Rightarrow> object_row" where
  "object_create_values w change_sequence =
     \<lparr>or_id = ocw_object_record_id w, or_tenant_id = ocw_tenant_id w, or_object_type_id = ocw_object_type_id w,
      or_object_type_api_name = ocw_object_type_api_name w, or_object_id = ocw_object_id w,
      or_index_version = ''active'', or_is_active = True, or_properties = ocw_properties w,
      or_base_properties = [], or_edit_properties = ocw_properties w,
      or_property_versions = map (\<lambda>(name, v). (name, PInt 1)) (ocw_properties w),
      or_source_dataset_version_id = None, or_source_hash = None, or_object_version = 1,
      or_object_change_sequence = Some change_sequence, or_deleted = False, or_deletion_reason = None,
      or_created_at = ocw_created_at w, or_updated_at = ocw_created_at w\<rparr>"

abbreviation object_identity :: "object_row \<Rightarrow> string \<times> string \<times> string \<times> string" where
  "object_identity r \<equiv> (or_tenant_id r, or_object_type_id r, or_object_id r, or_index_version r)"

definition create_object_record_write :: "id_supply \<Rightarrow> object_create_write \<Rightarrow> (object_db, bool) io" where
  "create_object_record_write ids w =
     io_bind (next_object_change_sequence (ocw_tenant_id w)) (\<lambda>change_sequence. \<lambda>db.
     let row = object_create_values w change_sequence;
         (rows, inserted) = sql_insert_or_skip object_identity row (db_records db) in
     if \<not> inserted then Inr (False, db)
     else if or_id row \<in> set (map or_id (db_records db)) then Inl IntegrityError
     else io_bind (snapshot_object_record_version ids (ocw_tenant_id w) (ocw_object_record_id w))
            (\<lambda>_. io_return True) (db\<lparr>db_records := rows\<rparr>))"

text \<open>The three compare-and-set writes on an object row share the shape: allocate a change sequence,
  update the row where identity and guard match, and append the row to the version history.\<close>

definition object_cas ::
  "id_supply \<Rightarrow> string \<Rightarrow> string \<Rightarrow> (object_row \<Rightarrow> bool) \<Rightarrow> (int \<Rightarrow> object_row \<Rightarrow> object_row) \<Rightarrow> (object_db, bool) io" where
  "object_cas ids tenant_id record_id guard change =
     io_bind (next_object_change_sequence tenant_id) (\<lambda>change_sequence. \<lambda>db.
     let (rows, rowcount) = sql_update
           (\<lambda>r. or_tenant_id r = tenant_id \<and> or_id r = record_id \<and> guard r)
           (change change_sequence) (db_records db) in
     if rowcount \<noteq> 1 then Inr (False, db\<lparr>db_records := rows\<rparr>)
     else io_bind (snapshot_object_record_version ids tenant_id record_id) (\<lambda>_. io_return True)
            (db\<lparr>db_records := rows\<rparr>))"

record object_target_update =
  otu_object_record_id :: string
  otu_tenant_id :: string
  otu_expected_object_version :: int
  otu_edit_properties :: dict
  otu_properties :: dict
  otu_next_object_version :: int
  otu_updated_at :: string

definition update_object_target :: "id_supply \<Rightarrow> object_target_update \<Rightarrow> (object_db, bool) io" where
  "update_object_target ids w =
     object_cas ids (otu_tenant_id w) (otu_object_record_id w)
       (\<lambda>r. or_object_version r = otu_expected_object_version w)
       (\<lambda>change_sequence r. r\<lparr>or_edit_properties := otu_edit_properties w, or_properties := otu_properties w,
          or_object_version := otu_next_object_version w, or_object_change_sequence := Some change_sequence,
          or_updated_at := otu_updated_at w\<rparr>)"

record object_delete_write =
  odw_object_record_id :: string
  odw_tenant_id :: string
  odw_expected_object_version :: int
  odw_deletion_reason :: string
  odw_updated_at :: string

definition soft_delete_object_write :: "id_supply \<Rightarrow> object_delete_write \<Rightarrow> (object_db, bool) io" where
  "soft_delete_object_write ids w =
     object_cas ids (odw_tenant_id w) (odw_object_record_id w)
       (\<lambda>r. or_object_version r = odw_expected_object_version w)
       (\<lambda>change_sequence r. r\<lparr>or_deleted := True, or_is_active := False,
          or_deletion_reason := Some (odw_deletion_reason w),
          or_object_version := odw_expected_object_version w + 1,
          or_object_change_sequence := Some change_sequence, or_updated_at := odw_updated_at w\<rparr>)"

record object_restore_write =
  orw_object_record_id :: string
  orw_tenant_id :: string
  orw_expected_object_version :: int
  orw_updated_at :: string

definition restore_object_write :: "id_supply \<Rightarrow> object_restore_write \<Rightarrow> (object_db, bool) io" where
  "restore_object_write ids w =
     object_cas ids (orw_tenant_id w) (orw_object_record_id w)
       (\<lambda>r. or_object_version r = orw_expected_object_version w \<and> or_deleted r)
       (\<lambda>change_sequence r. r\<lparr>or_deleted := False, or_is_active := True, or_deletion_reason := None,
          or_object_version := orw_expected_object_version w + 1,
          or_object_change_sequence := Some change_sequence, or_updated_at := orw_updated_at w\<rparr>)"

section \<open>Link writes\<close>

record object_link_write =
  olw_link_record_id :: string
  olw_tenant_id :: string
  olw_link_type_id :: string
  olw_link_type_api_name :: string
  olw_from_object_type_id :: string
  olw_from_api_name :: string
  olw_from_object_id :: string
  olw_to_object_type_id :: string
  olw_to_api_name :: string
  olw_to_object_id :: string
  olw_updated_at :: string

definition object_link_values :: "object_link_write \<Rightarrow> link_row" where
  "object_link_values w =
     \<lparr>lr_id = olw_link_record_id w, lr_tenant_id = olw_tenant_id w, lr_link_type_id = olw_link_type_id w,
      lr_link_type_api_name = olw_link_type_api_name w, lr_index_version = ''active'', lr_is_active = True,
      lr_from_object_type_id = olw_from_object_type_id w, lr_from_api_name = olw_from_api_name w,
      lr_from_object_id = olw_from_object_id w, lr_to_object_type_id = olw_to_object_type_id w,
      lr_to_api_name = olw_to_api_name w, lr_to_object_id = olw_to_object_id w, lr_properties = [],
      lr_source_dataset_version_id = None, lr_link_version = 1, lr_deleted = False,
      lr_deletion_reason = None, lr_updated_at = olw_updated_at w\<rparr>"

abbreviation link_identity :: "link_row \<Rightarrow> string \<times> string \<times> string \<times> string \<times> string" where
  "link_identity r \<equiv> (lr_tenant_id r, lr_link_type_id r, lr_from_object_id r, lr_to_object_id r, lr_index_version r)"

definition link_reactivation :: "object_link_write \<Rightarrow> link_row \<Rightarrow> link_row" where
  "link_reactivation w r = r\<lparr>lr_is_active := True, lr_deleted := False, lr_deletion_reason := None,
     lr_link_version := lr_link_version r + 1, lr_updated_at := olw_updated_at w\<rparr>"

definition create_object_link_write :: "object_link_write \<Rightarrow> (object_db, unit) io" where
  "create_object_link_write w = (\<lambda>db.
     let row = object_link_values w in
     if link_identity row \<notin> set (map link_identity (db_links db)) \<and> lr_id row \<in> set (map lr_id (db_links db))
     then Inl IntegrityError
     else Inr ((), db\<lparr>db_links := sql_upsert link_identity row (link_reactivation w) (db_links db)\<rparr>))"

record object_link_delete_write =
  oldw_tenant_id :: string
  oldw_link_type_id :: string
  oldw_from_object_id :: string
  oldw_to_object_id :: string
  oldw_deletion_reason :: string
  oldw_updated_at :: string

definition soft_delete_object_link_write :: "object_link_delete_write \<Rightarrow> (object_db, bool) io" where
  "soft_delete_object_link_write w = (\<lambda>db.
     let (rows, rowcount) = sql_update
           (\<lambda>r. lr_tenant_id r = oldw_tenant_id w \<and> lr_link_type_id r = oldw_link_type_id w
              \<and> lr_from_object_id r = oldw_from_object_id w \<and> lr_to_object_id r = oldw_to_object_id w
              \<and> lr_is_active r \<and> \<not> lr_deleted r)
           (\<lambda>r. r\<lparr>lr_is_active := False, lr_deleted := True, lr_deletion_reason := Some (oldw_deletion_reason w),
              lr_link_version := lr_link_version r + 1, lr_updated_at := oldw_updated_at w\<rparr>) (db_links db) in
     Inr (1 \<le> rowcount, db\<lparr>db_links := rows\<rparr>))"

section \<open>Edit log and action run\<close>

definition insert_object_edit :: "edit_row \<Rightarrow> (object_db, unit) io" where
  "insert_object_edit row = (\<lambda>db.
     if er_id row \<in> set (map er_id (db_edits db)) then Inl IntegrityError
     else Inr ((), db\<lparr>db_edits := db_edits db @ [row]\<rparr>))"

definition update_action_run_terminal ::
  "string \<Rightarrow> string \<Rightarrow> status_transition \<Rightarrow> pyval \<Rightarrow> pyval \<Rightarrow> pyval \<Rightarrow> (object_db, bool) io" where
  "update_action_run_terminal tenant_id action_run_id t err completed_at res = (\<lambda>db.
     let (rows, updated) = cas_status_update tenant_id action_run_id t
           [(''error'', err), (''result'', res), (''completed_at'', completed_at)] (\<lambda>_. True) (db_action_runs db) in
     Inr (updated, db\<lparr>db_action_runs := rows\<rparr>))"

section \<open>The invariant of the object tables\<close>

text \<open>Keys are unique; the version history holds the current state of every object, no version of an
  object twice, none newer than the object; and no change sequence of a tenant is used twice or is
  above its counter.\<close>

abbreviation version_key :: "object_version_row \<Rightarrow> string \<times> int" where
  "version_key v \<equiv> (or_id (ov_row v), or_object_version (ov_row v))"

abbreviation sequence_key :: "object_version_row \<Rightarrow> string \<times> int option" where
  "sequence_key v \<equiv> (or_tenant_id (ov_row v), or_object_change_sequence (ov_row v))"

definition db_ok :: "object_db \<Rightarrow> bool" where
  "db_ok db \<longleftrightarrow>
     unique_on or_id (db_records db) \<and> unique_on object_identity (db_records db)
     \<and> (\<forall>r \<in> set (db_records db). r \<in> ov_row ` set (db_versions db))
     \<and> (\<forall>v \<in> set (db_versions db). \<exists>r \<in> set (db_records db).
          or_id r = or_id (ov_row v) \<and> or_object_version (ov_row v) \<le> or_object_version r)
     \<and> unique_on version_key (db_versions db)
     \<and> (\<forall>v \<in> set (db_versions db). \<forall>n. or_object_change_sequence (ov_row v) = Some n \<longrightarrow>
          (\<exists>c. map_of (db_counters db) (or_tenant_id (ov_row v)) = Some c \<and> n \<le> c))
     \<and> unique_on sequence_key (filter (\<lambda>v. or_object_change_sequence (ov_row v) \<noteq> None) (db_versions db))"

lemma db_ok_unique_id: "db_ok db \<Longrightarrow> unique_on or_id (db_records db)"
  unfolding db_ok_def by (rule conjunct1)

lemma db_ok_unique_identity: "db_ok db \<Longrightarrow> unique_on object_identity (db_records db)"
  unfolding db_ok_def by (elim conjE)

definition next_sequence :: "string \<Rightarrow> object_db \<Rightarrow> int" where
  "next_sequence tenant_id db = (case map_of (db_counters db) tenant_id of None \<Rightarrow> 1 | Some n \<Rightarrow> n + 1)"

definition advance_counter :: "string \<Rightarrow> object_db \<Rightarrow> object_db" where
  "advance_counter tenant_id db = db\<lparr>db_counters := dput tenant_id (next_sequence tenant_id db) (db_counters db)\<rparr>"

lemma next_object_change_sequence_eq:
  "next_object_change_sequence tenant_id db = Inr (next_sequence tenant_id db, advance_counter tenant_id db)"
  by (simp add: next_object_change_sequence_def next_sequence_def advance_counter_def Let_def)

lemma next_sequence_fresh:
  assumes "db_ok db" "v \<in> set (db_versions db)" "or_object_change_sequence (ov_row v) = Some n"
  shows "n < next_sequence (or_tenant_id (ov_row v)) db"
proof -
  have "\<forall>v \<in> set (db_versions db). \<forall>n. or_object_change_sequence (ov_row v) = Some n \<longrightarrow>
      (\<exists>c. map_of (db_counters db) (or_tenant_id (ov_row v)) = Some c \<and> n \<le> c)"
    using assms(1) unfolding db_ok_def by (elim conjE)
  with assms(2,3) obtain c where "map_of (db_counters db) (or_tenant_id (ov_row v)) = Some c" "n \<le> c" by blast
  then show ?thesis by (simp add: next_sequence_def)
qed

lemma db_ok_advance: "db_ok db \<Longrightarrow> db_ok (advance_counter tenant_id db)"
proof -
  assume ok: "db_ok db"
  have "\<exists>c. map_of (db_counters (advance_counter tenant_id db)) (or_tenant_id (ov_row v)) = Some c \<and> n \<le> c"
    if "v \<in> set (db_versions db)" "or_object_change_sequence (ov_row v) = Some n" for v n
  proof (cases "or_tenant_id (ov_row v) = tenant_id")
    case True
    with next_sequence_fresh [OF ok that] show ?thesis by (auto simp: advance_counter_def)
  next
    case False
    moreover have "\<exists>c. map_of (db_counters db) (or_tenant_id (ov_row v)) = Some c \<and> n \<le> c"
      using ok that unfolding db_ok_def by (elim conjE) blast
    ultimately show ?thesis by (simp add: advance_counter_def)
  qed
  moreover have "db_records (advance_counter tenant_id db) = db_records db"
    "db_versions (advance_counter tenant_id db) = db_versions db" by (simp_all add: advance_counter_def)
  ultimately show ?thesis using ok unfolding db_ok_def by (simp only:) blast
qed

text \<open>Appending a new state of one row keeps the invariant.\<close>

definition put_version :: "id_supply \<Rightarrow> object_row list \<Rightarrow> object_row \<Rightarrow> object_db \<Rightarrow> object_db" where
  "put_version ids rows row db = db\<lparr>db_records := rows, db_uuids := db_uuids db + 1,
     db_versions := db_versions db @
       [\<lparr>ov_id = ''object_record_version_'' @ uuid_hex ids (db_uuids db), ov_row = row\<rparr>]\<rparr>"

lemma db_ok_put:
  assumes ok: "db_ok db"
    and keys: "unique_on or_id rows" "unique_on object_identity rows"
    and row: "row \<in> set rows" "or_object_change_sequence row = Some (next_sequence (or_tenant_id row) db)"
    and rest: "\<And>r. r \<in> set rows \<Longrightarrow> r = row \<or> r \<in> set (db_records db)"
    and newer: "\<And>r. r \<in> set (db_records db) \<Longrightarrow> or_id r \<noteq> or_id row \<Longrightarrow> r \<in> set rows"
      "\<And>r. r \<in> set (db_records db) \<Longrightarrow> or_id r = or_id row \<Longrightarrow> or_object_version r < or_object_version row"
  shows "db_ok (put_version ids rows row (advance_counter (or_tenant_id row) db))"
proof -
  let ?db = "put_version ids rows row (advance_counter (or_tenant_id row) db)"
  let ?v = "\<lparr>ov_id = ''object_record_version_'' @ uuid_hex ids (db_uuids db), ov_row = row\<rparr>"
  have recs: "db_records ?db = rows" and vers: "db_versions ?db = db_versions db @ [?v]"
    and counters: "db_counters ?db = db_counters (advance_counter (or_tenant_id row) db)"
    by (simp_all add: put_version_def advance_counter_def)
  note parts = ok [unfolded db_ok_def]
  have old_le: "\<exists>r \<in> set (db_records db). or_id r = or_id (ov_row v) \<and> or_object_version (ov_row v) \<le> or_object_version r"
    if "v \<in> set (db_versions db)" for v using parts that by (elim conjE) blast
  have complete: "\<forall>r \<in> set rows. r \<in> ov_row ` set (db_versions db @ [?v])"
  proof
    fix r assume "r \<in> set rows"
    with rest consider "r = row" | "r \<in> set (db_records db)" by blast
    then show "r \<in> ov_row ` set (db_versions db @ [?v])"
    proof cases
      case 2
      moreover have "\<forall>r \<in> set (db_records db). r \<in> ov_row ` set (db_versions db)" using parts by (elim conjE)
      ultimately show ?thesis by auto
    qed auto
  qed
  have bounded: "\<exists>r \<in> set rows. or_id r = or_id (ov_row v) \<and> or_object_version (ov_row v) \<le> or_object_version r"
    if "v \<in> set (db_versions db @ [?v])" for v
  proof (cases "v = ?v")
    case True
    with row(1) show ?thesis by (auto intro!: bexI [of _ row])
  next
    case False
    with that have "v \<in> set (db_versions db)" by simp
    from old_le [OF this] obtain r where r: "r \<in> set (db_records db)" "or_id r = or_id (ov_row v)"
      "or_object_version (ov_row v) \<le> or_object_version r" by blast
    show ?thesis
    proof (cases "or_id r = or_id row")
      case True
      with newer(2) [OF r(1)] r row(1) show ?thesis by (intro bexI [of _ row]) auto
    next
      case False
      with newer(1) [OF r(1)] r show ?thesis by blast
    qed
  qed
  have fresh: "version_key ?v \<notin> set (map version_key (db_versions db))"
    using old_le newer(2) by fastforce
  have vkeys: "unique_on version_key (db_versions db @ [?v])"
    using parts fresh unfolding unique_on_def by (elim conjE) auto
  have fresh_seq: "sequence_key ?v \<notin> set (map sequence_key (db_versions db))"
  proof
    assume "sequence_key ?v \<in> set (map sequence_key (db_versions db))"
    then obtain v where "v \<in> set (db_versions db)" "or_tenant_id (ov_row v) = or_tenant_id row"
      "or_object_change_sequence (ov_row v) = or_object_change_sequence row" by auto
    with next_sequence_fresh [OF ok, of v] row(2) show False by simp
  qed
  have skeys: "unique_on sequence_key (filter (\<lambda>v. or_object_change_sequence (ov_row v) \<noteq> None) (db_versions db @ [?v]))"
    using parts fresh_seq unfolding unique_on_def by (elim conjE) auto
  have counts: "\<exists>c. map_of (db_counters ?db) (or_tenant_id (ov_row v)) = Some c \<and> n \<le> c"
    if "v \<in> set (db_versions db @ [?v])" "or_object_change_sequence (ov_row v) = Some n" for v n
  proof (cases "v = ?v")
    case True
    with that row(2) have "n = next_sequence (or_tenant_id row) db" by simp
    with True show ?thesis unfolding counters by (simp add: advance_counter_def)
  next
    case False
    with that have "v \<in> set (db_versions (advance_counter (or_tenant_id row) db))" by (simp add: advance_counter_def)
    with db_ok_advance [OF ok, of "or_tenant_id row"] that(2) show ?thesis
      unfolding counters db_ok_def by (elim conjE) blast
  qed
  show ?thesis
    unfolding db_ok_def recs vers using keys complete bounded vkeys skeys counts by blast
qed

lemma snapshot_eq:
  assumes "filter (\<lambda>r. or_tenant_id r = tenant_id \<and> or_id r = record_id) rows = [row]"
  shows "snapshot_object_record_version ids tenant_id record_id (db\<lparr>db_records := rows\<rparr>) =
           Inr ((), put_version ids rows row db)"
  using assms by (simp add: snapshot_object_record_version_def new_id_def io_bind_def put_version_def)

lemma filter_unique_id:
  assumes "unique_on or_id rows" "row \<in> set rows"
  shows "filter (\<lambda>r. or_tenant_id r = or_tenant_id row \<and> or_id r = or_id row) rows = [row]"
proof -
  from assms(2) obtain before after where split: "rows = before @ row # after" by (meson split_list)
  have "or_id row \<notin> or_id ` (set before \<union> set after)"
    using assms(1) unfolding split unique_on_def by (simp add: image_Un)
  then have "\<forall>r \<in> set before \<union> set after. or_id r \<noteq> or_id row" by (metis imageI)
  then have "filter (\<lambda>r. or_tenant_id r = or_tenant_id row \<and> or_id r = or_id row) before = []"
    "filter (\<lambda>r. or_tenant_id r = or_tenant_id row \<and> or_id r = or_id row) after = []"
    by (auto simp: filter_empty_conv)
  with split show ?thesis by simp
qed

section \<open>The contract of a compare-and-set write\<close>

definition version_above :: "string \<Rightarrow> int \<Rightarrow> object_db \<Rightarrow> bool" where
  "version_above rid expected db \<longleftrightarrow> (\<exists>r \<in> set (db_records db). or_id r = rid \<and> expected < or_object_version r)"

text \<open>What the three writes promise, whatever columns they change: the identity of the row stays, its
  version grows by one, and it carries the change sequence allocated for the write.\<close>

locale versioned_change =
  fixes guard :: "object_row \<Rightarrow> bool" and change :: "int \<Rightarrow> object_row \<Rightarrow> object_row"
  assumes keeps_id: "or_id (change q r) = or_id r"
    and keeps_identity: "object_identity (change q r) = object_identity r"
    and next_version: "guard r \<Longrightarrow> or_object_version (change q r) = or_object_version r + 1"
    and sequence: "or_object_change_sequence (change q r) = Some q"
begin

lemma keeps_tenant [simp]: "or_tenant_id (change q r) = or_tenant_id r"
  using keeps_identity [of q r] by simp

lemma cas_cases:
  assumes "unique_on or_id (db_records db)"
  obtains
    (hit) before row after where "db_records db = before @ row # after"
      "or_tenant_id row = tenant_id" "or_id row = record_id" "guard row"
      "object_cas ids tenant_id record_id guard change db = Inr (True,
         put_version ids (before @ change (next_sequence tenant_id db) row # after)
           (change (next_sequence tenant_id db) row) (advance_counter tenant_id db))"
  | (miss) "\<And>row. row \<in> set (db_records db) \<Longrightarrow> or_tenant_id row = tenant_id \<Longrightarrow> or_id row = record_id
        \<Longrightarrow> \<not> guard row"
      "object_cas ids tenant_id record_id guard change db = Inr (False, advance_counter tenant_id db)"
proof -
  let ?p = "\<lambda>r. or_tenant_id r = tenant_id \<and> or_id r = record_id \<and> guard r"
  let ?q = "next_sequence tenant_id db"
  let ?u = "sql_update ?p (change ?q) (db_records db)"
  have recs: "db_records (advance_counter tenant_id db) = db_records db" by (simp add: advance_counter_def)
  have run: "object_cas ids tenant_id record_id guard change db =
      (if snd ?u \<noteq> 1 then Inr (False, (advance_counter tenant_id db)\<lparr>db_records := fst ?u\<rparr>)
       else io_bind (snapshot_object_record_version ids tenant_id record_id) (\<lambda>_. io_return True)
              ((advance_counter tenant_id db)\<lparr>db_records := fst ?u\<rparr>))"
    by (simp add: object_cas_def io_bind_def next_object_change_sequence_eq Let_def recs split: prod.split)
  show thesis
  proof (cases "snd ?u = 0")
    case True
    then have "\<forall>r \<in> set (db_records db). \<not> ?p r" by (auto simp: sql_update_def filter_empty_conv)
    moreover have "fst ?u = db_records db" using True by (rule sql_update_none)
    ultimately show thesis
      using True by (intro miss) (auto simp: run advance_counter_def)
  next
    case False
    from sql_update_one [OF assms, where p = ?p and k = record_id and f = "change ?q"] False
    obtain before row after where hit': "db_records db = before @ row # after" "?p row"
      "fst ?u = before @ change ?q row # after" "snd ?u = 1" by auto
    have "unique_on or_id (fst ?u)"
      using assms unfolding hit'(3) unfolding hit'(1) unique_on_def by (simp add: keeps_id)
    from filter_unique_id [OF this, of "change ?q row"] hit'
    have "filter (\<lambda>r. or_tenant_id r = tenant_id \<and> or_id r = record_id) (fst ?u) = [change ?q row]"
      by (simp add: keeps_id)
    from snapshot_eq [OF this] hit' show thesis
      by (intro hit [of before row after]) (auto simp: run io_bind_def)
  qed
qed

lemma cas_keeps_ok:
  assumes ok: "db_ok db" and run: "object_cas ids tenant_id record_id guard change db = Inr (done, db')"
  shows "db_ok db'"
proof -
  note unique = db_ok_unique_id [OF ok] db_ok_unique_identity [OF ok]
  show ?thesis
  proof (cases rule: cas_cases [OF unique(1), of tenant_id record_id ids, case_names hit miss])
    case (hit before row after)
    let ?row = "change (next_sequence tenant_id db) row"
    have tenant: "or_tenant_id ?row = tenant_id" using hit by simp
    have "db_ok (put_version ids (before @ ?row # after) ?row (advance_counter (or_tenant_id ?row) db))"
    proof (rule db_ok_put [OF ok])
      show "unique_on or_id (before @ ?row # after)" "unique_on object_identity (before @ ?row # after)"
        using unique hit(1) keeps_identity [of _ row] unfolding unique_on_def by (simp_all add: keeps_id)
      show "or_object_change_sequence ?row = Some (next_sequence (or_tenant_id ?row) db)"
        using hit by (simp add: sequence)
      show "r \<in> set (before @ ?row # after)" if "r \<in> set (db_records db)" "or_id r \<noteq> or_id ?row" for r
        using that hit(1) by (auto simp: keeps_id)
      show "or_object_version r < or_object_version ?row" if "r \<in> set (db_records db)" "or_id r = or_id ?row" for r
        using that hit unique_on_inj [OF unique(1) that(1), of row] next_version [OF hit(4)]
        by (simp add: keeps_id)
    qed (use hit(1) in auto)
    with run hit(5) tenant show ?thesis by simp
  next
    case miss
    with run have "db' = advance_counter tenant_id db" by simp
    then show ?thesis using db_ok_advance [OF ok] by simp
  qed
qed

lemma cas_moves_on:
  assumes "unique_on or_id (db_records db)"
    and "object_cas ids tenant_id record_id guard change db = Inr (True, db')"
    and "\<And>r. guard r \<Longrightarrow> or_object_version r = expected"
  shows "version_above record_id expected db'"
proof (cases rule: cas_cases [OF assms(1), of tenant_id record_id ids, case_names hit miss])
  case (hit before row after)
  with assms(2) have "db' = put_version ids (before @ change (next_sequence tenant_id db) row # after)
      (change (next_sequence tenant_id db) row) (advance_counter tenant_id db)" by simp
  then show ?thesis
    using hit next_version [OF hit(4)] assms(3) [OF hit(4)] by (simp add: version_above_def put_version_def keeps_id)
next
  case miss
  with assms(2) show ?thesis by simp
qed

lemma cas_keeps_above:
  assumes "unique_on or_id (db_records db)"
    and "object_cas ids tenant_id record_id guard change db = Inr (b, db')" "version_above rid expected db"
  shows "version_above rid expected db'"
proof (cases rule: cas_cases [OF assms(1), of tenant_id record_id ids, case_names hit miss])
  case (hit before row after)
  with assms(2) have "db' = put_version ids (before @ change (next_sequence tenant_id db) row # after)
      (change (next_sequence tenant_id db) row) (advance_counter tenant_id db)" by simp
  then have "db_records db' = before @ change (next_sequence tenant_id db) row # after" by (simp add: put_version_def)
  then show ?thesis
    using assms(3) next_version [OF hit(4), of "next_sequence tenant_id db"]
    unfolding version_above_def hit(1) by (auto simp: keeps_id)
next
  case miss
  with assms(2) have "db' = advance_counter tenant_id db" by simp
  then show ?thesis using assms(3) by (simp add: version_above_def advance_counter_def)
qed

text \<open>A write that expects a version some other write has already moved past changes nothing.\<close>

lemma stale_write_refused:
  assumes "unique_on or_id (db_records db)" "row \<in> set (db_records db)" "or_id row = record_id" "\<not> guard row"
  shows "object_cas ids tenant_id record_id guard change db = Inr (False, advance_counter tenant_id db)"
proof (cases rule: cas_cases [OF assms(1), of tenant_id record_id ids, case_names hit miss])
  case (hit before row' after)
  with assms unique_on_inj [OF assms(1,2), of row'] show ?thesis by auto
qed

end

interpretation update_writer: versioned_change
  "\<lambda>r. or_object_version r = expected"
  "\<lambda>change_sequence r. r\<lparr>or_edit_properties := edit_properties, or_properties := properties,
      or_object_version := expected + 1, or_object_change_sequence := Some change_sequence,
      or_updated_at := updated_at\<rparr>"
  for expected edit_properties properties updated_at
  by unfold_locales simp_all

interpretation delete_writer: versioned_change
  "\<lambda>r. or_object_version r = expected"
  "\<lambda>change_sequence r. r\<lparr>or_deleted := True, or_is_active := False,
      or_deletion_reason := Some reason, or_object_version := expected + 1,
      or_object_change_sequence := Some change_sequence, or_updated_at := updated_at\<rparr>"
  for expected reason updated_at
  by unfold_locales simp_all

interpretation restore_writer: versioned_change
  "\<lambda>r. or_object_version r = expected \<and> or_deleted r"
  "\<lambda>change_sequence r. r\<lparr>or_deleted := False, or_is_active := True, or_deletion_reason := None,
      or_object_version := expected + 1,
      or_object_change_sequence := Some change_sequence, or_updated_at := updated_at\<rparr>"
  for expected updated_at
  by unfold_locales simp_all

section \<open>The writes keep the invariant\<close>

lemma create_object_record_cases:
  assumes "db_ok db"
  obtains
    (exists) "object_identity (object_create_values w (next_sequence (ocw_tenant_id w) db)) \<in> set (map object_identity (db_records db))"
      "create_object_record_write ids w db = Inr (False, advance_counter (ocw_tenant_id w) db)"
  | (duplicate_id) "ocw_object_record_id w \<in> set (map or_id (db_records db))"
      "create_object_record_write ids w db = Inl IntegrityError"
  | (inserted) row where "row = object_create_values w (next_sequence (ocw_tenant_id w) db)"
      "object_identity row \<notin> set (map object_identity (db_records db))"
      "or_id row \<notin> set (map or_id (db_records db))"
      "create_object_record_write ids w db =
         Inr (True, put_version ids (db_records db @ [row]) row (advance_counter (ocw_tenant_id w) db))"
proof -
  let ?row = "object_create_values w (next_sequence (ocw_tenant_id w) db)"
  have recs: "db_records (advance_counter (ocw_tenant_id w) db) = db_records db" by (simp add: advance_counter_def)
  have ident: "or_id ?row = ocw_object_record_id w" "or_tenant_id ?row = ocw_tenant_id w"
    by (simp_all add: object_create_values_def)
  have run: "create_object_record_write ids w db =
      (if object_identity ?row \<in> set (map object_identity (db_records db))
       then Inr (False, advance_counter (ocw_tenant_id w) db)
       else if or_id ?row \<in> set (map or_id (db_records db)) then Inl IntegrityError
       else io_bind (snapshot_object_record_version ids (ocw_tenant_id w) (ocw_object_record_id w))
              (\<lambda>_. io_return True) ((advance_counter (ocw_tenant_id w) db)\<lparr>db_records := db_records db @ [?row]\<rparr>))"
    by (simp add: create_object_record_write_def io_bind_def next_object_change_sequence_eq Let_def recs
        sql_insert_or_skip_def split: prod.split)
  consider (a) "object_identity ?row \<in> set (map object_identity (db_records db))"
    | (b) "object_identity ?row \<notin> set (map object_identity (db_records db))" "or_id ?row \<in> set (map or_id (db_records db))"
    | (c) "object_identity ?row \<notin> set (map object_identity (db_records db))" "or_id ?row \<notin> set (map or_id (db_records db))"
    by blast
  then show thesis
  proof cases
    case a
    then show thesis by (intro exists) (simp_all only: run if_True)
  next
    case b
    then show thesis by (intro duplicate_id) (simp_all only: run if_True if_False ident)
  next
    case c
    then have "unique_on or_id (db_records db @ [?row])"
      using db_ok_unique_id [OF assms] by (simp add: unique_on_def)
    from filter_unique_id [OF this, of ?row] have
      "filter (\<lambda>r. or_tenant_id r = ocw_tenant_id w \<and> or_id r = ocw_object_record_id w) (db_records db @ [?row]) = [?row]"
      by (simp add: ident)
    from snapshot_eq [OF this] have "create_object_record_write ids w db =
        Inr (True, put_version ids (db_records db @ [?row]) ?row (advance_counter (ocw_tenant_id w) db))"
      by (simp only: run c if_False) (simp add: io_bind_def)
    with c show thesis by (intro inserted) simp_all
  qed
qed

lemma create_keeps_ok:
  assumes ok: "db_ok db" and run: "create_object_record_write ids w db = Inr (inserted, db')"
  shows "db_ok db'"
proof (cases rule: create_object_record_cases [OF ok, of w ids, case_names exists duplicate_id inserted])
  case exists
  with run have "db' = advance_counter (ocw_tenant_id w) db" by simp
  then show ?thesis using db_ok_advance [OF ok] by simp
next
  case duplicate_id
  with run show ?thesis by simp
next
  case (inserted row)
  have tenant: "or_tenant_id row = ocw_tenant_id w" by (simp add: inserted(1) object_create_values_def)
  have "db_ok (put_version ids (db_records db @ [row]) row (advance_counter (or_tenant_id row) db))"
  proof (rule db_ok_put [OF ok])
    show "unique_on or_id (db_records db @ [row])" "unique_on object_identity (db_records db @ [row])"
      using db_ok_unique_id [OF ok] db_ok_unique_identity [OF ok] inserted(2,3) by (simp_all add: unique_on_def)
    show "or_object_change_sequence row = Some (next_sequence (or_tenant_id row) db)"
      by (simp add: inserted(1) object_create_values_def)
    show "or_object_version r < or_object_version row"
      if "r \<in> set (db_records db)" "or_id r = or_id row" for r
      using that inserted(3) by (metis image_eqI list.set_map)
  qed auto
  with run inserted(4) tenant show ?thesis by simp
qed

lemma update_object_target_eq:
  assumes "otu_next_object_version w = otu_expected_object_version w + 1"
  shows "update_object_target ids w = object_cas ids (otu_tenant_id w) (otu_object_record_id w)
     (\<lambda>r. or_object_version r = otu_expected_object_version w)
     (\<lambda>change_sequence r. r\<lparr>or_edit_properties := otu_edit_properties w, or_properties := otu_properties w,
        or_object_version := otu_expected_object_version w + 1, or_object_change_sequence := Some change_sequence,
        or_updated_at := otu_updated_at w\<rparr>)"
  by (simp add: update_object_target_def assms)

lemma update_keeps_ok:
  assumes "db_ok db" "otu_next_object_version w = otu_expected_object_version w + 1"
    and "update_object_target ids w db = Inr (updated, db')"
  shows "db_ok db'"
  using assms(3) unfolding update_object_target_eq [OF assms(2)]
  by (rule update_writer.cas_keeps_ok [OF assms(1)])

lemma delete_keeps_ok:
  assumes "db_ok db" "soft_delete_object_write ids w db = Inr (deleted, db')"
  shows "db_ok db'"
  using assms(2) unfolding soft_delete_object_write_def by (rule delete_writer.cas_keeps_ok [OF assms(1)])

lemma restore_keeps_ok:
  assumes "db_ok db" "restore_object_write ids w db = Inr (restored, db')"
  shows "db_ok db'"
  using assms(2) unfolding restore_object_write_def by (rule restore_writer.cas_keeps_ok [OF assms(1)])

lemmas write_keeps_ok = create_keeps_ok update_keeps_ok delete_keeps_ok restore_keeps_ok

section \<open>Properties of the object writes\<close>

text \<open>Any sequence of writes, by any number of committers.\<close>

datatype object_write =
    Create_object object_create_write
  | Update_target object_target_update
  | Soft_delete object_delete_write
  | Restore_target object_restore_write

fun run_object_write :: "id_supply \<Rightarrow> object_write \<Rightarrow> (object_db, bool) io" where
  "run_object_write ids (Create_object w) = create_object_record_write ids w"
| "run_object_write ids (Update_target w) = update_object_target ids w"
| "run_object_write ids (Soft_delete w) = soft_delete_object_write ids w"
| "run_object_write ids (Restore_target w) = restore_object_write ids w"

text \<open>The record and version a compare-and-set write expects, and its tenant.\<close>

fun write_expects :: "object_write \<Rightarrow> (string \<times> int) option" where
  "write_expects (Create_object w) = None"
| "write_expects (Update_target w) = Some (otu_object_record_id w, otu_expected_object_version w)"
| "write_expects (Soft_delete w) = Some (odw_object_record_id w, odw_expected_object_version w)"
| "write_expects (Restore_target w) = Some (orw_object_record_id w, orw_expected_object_version w)"

fun write_tenant :: "object_write \<Rightarrow> string" where
  "write_tenant (Create_object w) = ocw_tenant_id w"
| "write_tenant (Update_target w) = otu_tenant_id w"
| "write_tenant (Soft_delete w) = odw_tenant_id w"
| "write_tenant (Restore_target w) = orw_tenant_id w"

fun steps_version :: "object_write \<Rightarrow> bool" where
  "steps_version (Update_target w) = (otu_next_object_version w = otu_expected_object_version w + 1)"
| "steps_version _ = True"

inductive write_run :: "id_supply \<Rightarrow> object_db \<Rightarrow> object_db \<Rightarrow> bool" for ids where
  no_write: "write_run ids db db"
| one_more: "write_run ids db db' \<Longrightarrow> steps_version w \<Longrightarrow> run_object_write ids w db' = Inr (b, db'')
    \<Longrightarrow> write_run ids db db''"

lemma object_write_keeps_ok:
  "db_ok db \<Longrightarrow> steps_version w \<Longrightarrow> run_object_write ids w db = Inr (b, db') \<Longrightarrow> db_ok db'"
  by (cases w) (auto intro: write_keeps_ok)

lemma object_write_keeps_above:
  assumes "db_ok db" "steps_version w" "run_object_write ids w db = Inr (b, db')" "version_above rid expected db"
  shows "version_above rid expected db'"
proof (cases w)
  case (Create_object c)
  with assms(3) have run: "create_object_record_write ids c db = Inr (b, db')" by simp
  then have "set (db_records db) \<subseteq> set (db_records db')"
    by (cases rule: create_object_record_cases [OF assms(1), of c ids])
      (auto simp: advance_counter_def put_version_def)
  with assms(4) show ?thesis by (auto simp: version_above_def)
next
  case (Update_target u)
  with assms show ?thesis
    using update_writer.cas_keeps_above [OF db_ok_unique_id [OF assms(1)]]
    by (simp add: update_object_target_eq)
next
  case (Soft_delete d)
  with assms show ?thesis
    using delete_writer.cas_keeps_above [OF db_ok_unique_id [OF assms(1)]]
    by (simp add: soft_delete_object_write_def)
next
  case (Restore_target r)
  with assms show ?thesis
    using restore_writer.cas_keeps_above [OF db_ok_unique_id [OF assms(1)]]
    by (simp add: restore_object_write_def)
qed

lemma write_run_keeps:
  assumes "write_run ids db db'" "db_ok db"
  shows "db_ok db' \<and> (version_above rid expected db \<longrightarrow> version_above rid expected db')"
  using assms by induction (auto intro: object_write_keeps_ok object_write_keeps_above)

lemma object_write_moves_on:
  assumes "db_ok db" "steps_version w" "write_expects w = Some (rid, expected)"
    and "run_object_write ids w db = Inr (True, db')"
  shows "version_above rid expected db'"
proof (cases w)
  case (Update_target u)
  with assms show ?thesis
    using update_writer.cas_moves_on [OF db_ok_unique_id [OF assms(1)]]
    by (simp add: update_object_target_eq)
next
  case (Soft_delete d)
  with assms show ?thesis
    using delete_writer.cas_moves_on [OF db_ok_unique_id [OF assms(1)]]
    by (simp add: soft_delete_object_write_def)
next
  case (Restore_target r)
  with assms show ?thesis
    using restore_writer.cas_moves_on [OF db_ok_unique_id [OF assms(1)], where expected = "orw_expected_object_version r"]
    by (simp add: restore_object_write_def)
qed (use assms in simp)

lemma stale_object_write:
  assumes "db_ok db" "steps_version w" "write_expects w = Some (rid, expected)" "version_above rid expected db"
  shows "run_object_write ids w db = Inr (False, advance_counter (write_tenant w) db)"
proof -
  from assms(4) obtain row where row: "row \<in> set (db_records db)" "or_id row = rid" "or_object_version row \<noteq> expected"
    by (auto simp: version_above_def)
  note unique = db_ok_unique_id [OF assms(1)]
  show ?thesis
  proof (cases w)
    case (Update_target u)
    with assms(2,3) row show ?thesis
      by (simp add: update_object_target_eq update_writer.stale_write_refused [OF unique row(1)])
  next
    case (Soft_delete d)
    with assms(3) row show ?thesis
      by (simp add: soft_delete_object_write_def delete_writer.stale_write_refused [OF unique row(1)])
  next
    case (Restore_target r)
    with assms(3) row show ?thesis
      by (simp add: restore_object_write_def restore_writer.stale_write_refused [OF unique row(1)])
  qed (use assms(3) in simp)
qed

text \<open>
  C18. Every sequence of object writes, by any number of committers, preserves the invariant of the
  tables: keys stay unique, the history records each state of each object once and never runs
  ahead of it, and change sequences of a tenant are never reused.
\<close>

theorem object_writes_preserve_db_ok:
  assumes "write_run ids db db'" "db_ok db"
  shows "db_ok db'"
  using write_run_keeps [OF assms] by blast

definition empty_db :: object_db where
  "empty_db = \<lparr>db_records = [], db_versions = [], db_links = [], db_counters = [], db_edits = [],
     db_action_runs = [], db_outbox = [], db_audit = [], db_uuids = 0, db_ticks = 0\<rparr>"

definition plain_ids :: id_supply where
  "plain_ids = \<lparr>uuid_hex = show_nat, clock_text = (\<lambda>n. ''tick'' @ show_nat n)\<rparr>"

definition sample_create :: object_create_write where
  "sample_create = \<lparr>ocw_object_record_id = ''obj_first'', ocw_tenant_id = ''t'', ocw_object_type_id = ''ty'',
     ocw_object_type_api_name = ''Order'', ocw_object_id = ''o1'', ocw_properties = [(''state'', PStr ''new'')],
     ocw_created_at = ''now''\<rparr>"

lemma empty_db_ok: "db_ok empty_db"
  by (simp add: db_ok_def empty_db_def unique_on_def)

definition sample_db :: object_db where
  "sample_db = (case create_object_record_write plain_ids sample_create empty_db of
     Inr (_, db) \<Rightarrow> db | Inl _ \<Rightarrow> empty_db)"

lemma sample_create_runs: "create_object_record_write plain_ids sample_create empty_db = Inr (True, sample_db)"
proof -
  show ?thesis
    by (cases rule: create_object_record_cases [OF empty_db_ok, of sample_create plain_ids])
      (auto simp: sample_db_def empty_db_def)
qed

theorem object_writes_preserve_db_ok_witness:
  "\<exists>db'. create_object_record_write plain_ids sample_create empty_db = Inr (True, db') \<and> db_ok db'"
proof -
  have "write_run plain_ids empty_db sample_db"
    using write_run.one_more [OF write_run.no_write, of "Create_object sample_create"] sample_create_runs by simp
  from object_writes_preserve_db_ok [OF this empty_db_ok] sample_create_runs show ?thesis by blast
qed

text \<open>
  C2. No lost update: once a write that expected some version of a record has succeeded, then however
  many writes happen in between, any other write that expects that same version is refused, and it
  changes nothing but the tenant's change counter.
\<close>

theorem no_lost_update:
  assumes "db_ok db" "steps_version w" "run_object_write ids w db = Inr (True, db1)"
    and "write_run ids db1 db2"
    and "steps_version w'" "write_expects w' = write_expects w" "write_expects w \<noteq> None"
  shows "run_object_write ids w' db2 = Inr (False, advance_counter (write_tenant w') db2)"
proof -
  from assms(7) obtain rid expected where e: "write_expects w = Some (rid, expected)" by auto
  have "db_ok db1" using object_write_keeps_ok [OF assms(1-3)] .
  moreover have "version_above rid expected db1" using object_write_moves_on [OF assms(1,2) e assms(3)] .
  ultimately have "db_ok db2" "version_above rid expected db2" using write_run_keeps [OF assms(4)] by auto
  with assms(5,6) e show ?thesis by (intro stale_object_write) auto
qed

definition sample_update :: "string \<Rightarrow> object_write" where
  "sample_update state = Update_target \<lparr>otu_object_record_id = ''obj_first'', otu_tenant_id = ''t'',
     otu_expected_object_version = 1, otu_edit_properties = [(''state'', PStr state)],
     otu_properties = [(''state'', PStr state)], otu_next_object_version = 2, otu_updated_at = ''later''\<rparr>"

theorem no_lost_update_witness:
  "\<exists>db1. run_object_write plain_ids (sample_update ''paid'') sample_db = Inr (True, db1)
     \<and> run_object_write plain_ids (sample_update ''cancelled'') db1 = Inr (False, advance_counter ''t'' db1)"
proof -
  have "map_sum id fst (run_object_write plain_ids (sample_update ''paid'') sample_db) = Inr True" by code_simp
  then obtain db1 where run: "run_object_write plain_ids (sample_update ''paid'') sample_db = Inr (True, db1)"
    by (cases "run_object_write plain_ids (sample_update ''paid'') sample_db") auto
  have ok: "db_ok sample_db" using create_keeps_ok [OF empty_db_ok sample_create_runs] .
  have "run_object_write plain_ids (sample_update ''cancelled'') db1 =
      Inr (False, advance_counter (write_tenant (sample_update ''cancelled'')) db1)"
    by (rule no_lost_update [OF ok _ run write_run.no_write]) (simp_all add: sample_update_def)
  with run show ?thesis by (auto simp: sample_update_def)
qed

end
