(* ===== verification/Plan_Committer.thy ===== *)
theory Plan_Committer
  imports Edit_Plan Object_Store
begin

text \<open>
  \<^verbatim>\<open>application/services/action_edit_plan_committer.py\<close>, \<^verbatim>\<open>action_edit_plan_results.py\<close>,
  \<^verbatim>\<open>action_revert_evidence.py\<close> and the property merge of \<^verbatim>\<open>indexing_record_mutations.py\<close>: a validated edit
  plan is applied inside the caller's transaction, every edit is logged with the evidence its
  revert needs, and the action run is moved to its final status. A raised error makes the caller roll
  the transaction back, so the state after an error is the state before.

  The active ontology is data of the commit: its object types, link types and property policies. The
  writer of the normalized action log is an argument, present when a contract is given.
\<close>

section \<open>The active ontology\<close>

record link_type_row =
  lt_id :: string
  lt_api_name :: string
  lt_from_object_type_id :: string
  lt_from_api_name :: string
  lt_to_object_type_id :: string
  lt_to_api_name :: string

record property_type_row =
  pt_api_name :: string
  pt_edit_policy :: string

record active_ontology =
  ao_object_types :: "(string \<times> string) list"
  ao_link_types :: "link_type_row list"
  ao_properties :: "string \<Rightarrow> property_type_row list"

record commit_env =
  ce_ids :: id_supply
  ce_tenant_id :: string
  ce_actor_user_id :: string
  ce_ontology :: "active_ontology option"

definition active_ontology_version :: "commit_env \<Rightarrow> active_ontology result" where
  "active_ontology_version env =
     (case ce_ontology env of None \<Rightarrow> Inl (NotFound ''active ontology not found'') | Some active \<Rightarrow> Inr active)"

definition active_object_type_id :: "commit_env \<Rightarrow> string \<Rightarrow> string result" where
  "active_object_type_id env name =
     rbind (active_ontology_version env) (\<lambda>active.
     case map_of (ao_object_types active) name of
       None \<Rightarrow> Inl (NotFound ''object type not found'')
     | Some i \<Rightarrow> Inr i)"

definition link_type_for :: "commit_env \<Rightarrow> string \<Rightarrow> link_type_row result" where
  "link_type_for env name =
     rbind (active_ontology_version env) (\<lambda>active.
     case find (\<lambda>row. lt_api_name row = name) (ao_link_types active) of
       None \<Rightarrow> Inl (NotFound ''link type not found'')
     | Some row \<Rightarrow> Inr row)"

definition properties_for_object_type :: "commit_env \<Rightarrow> string \<Rightarrow> property_type_row list" where
  "properties_for_object_type env object_type_id =
     (case ce_ontology env of None \<Rightarrow> [] | Some active \<Rightarrow> ao_properties active object_type_id)"

section \<open>Merging base and edited properties\<close>

definition merge_property :: "dict \<Rightarrow> dict \<Rightarrow> property_type_row \<Rightarrow> dict \<Rightarrow> dict" where
  "merge_property base edits prop current =
     (let name = pt_api_name prop; policy = pt_edit_policy prop in
      if policy = ''edit_only'' then
        (case map_of edits name of Some v \<Rightarrow> dput name v current | None \<Rightarrow> current)
      else if policy \<in> {''edit_wins'', ''conflict_requires_review''} then
        dput name (case map_of edits name of Some v \<Rightarrow> v | None \<Rightarrow> get_val base name) current
      else if policy = ''source_wins'' then
        dput name (case map_of base name of Some v \<Rightarrow> v | None \<Rightarrow> get_val edits name) current
      else dput name (get_val base name) current)"

definition merge_properties :: "property_type_row list \<Rightarrow> dict \<Rightarrow> dict \<Rightarrow> dict" where
  "merge_properties props base edits = fold (merge_property base edits) props []"

section \<open>Revert evidence\<close>

definition property_revert_payload :: "object_row \<Rightarrow> dict \<Rightarrow> dict" where
  "property_revert_payload r patch =
     [(''operation'', PStr ''set_property''),
      (''committedObjectVersion'', PInt (or_object_version r + 1)),
      (''properties'', PDict (map (\<lambda>key. (key, PDict
         [(''wasPresent'', PBool (has_key (or_edit_properties r) key)),
          (''value'', get_val (or_edit_properties r) key)])) (dkeys patch)))]"

definition created_object_revert_payload :: dict where
  "created_object_revert_payload = [(''operation'', PStr ''create_object''), (''committedObjectVersion'', PInt 1)]"

definition deleted_object_revert_payload :: "object_row \<Rightarrow> dict" where
  "deleted_object_revert_payload r =
     [(''operation'', PStr ''delete_object''), (''committedObjectVersion'', PInt (or_object_version r + 1))]"

definition link_revert_payload :: "link_type_row \<Rightarrow> string \<Rightarrow> string \<Rightarrow> string \<Rightarrow> string \<Rightarrow> dict" where
  "link_revert_payload meta link_type source_object_id target_object_id operation =
     [(''operation'', PStr operation), (''linkTypeId'', PStr (lt_id meta)), (''linkType'', PStr link_type),
      (''fromObjectTypeId'', PStr (lt_from_object_type_id meta)), (''fromApiName'', PStr (lt_from_api_name meta)),
      (''fromObjectId'', PStr source_object_id), (''toObjectTypeId'', PStr (lt_to_object_type_id meta)),
      (''toApiName'', PStr (lt_to_api_name meta)), (''toObjectId'', PStr target_object_id),
      (''expectedActive'', PBool (operation = ''create_link''))]"

section \<open>Results of a commit\<close>

record committed_edit =
  ed_edit_id :: string
  ed_object_type :: string
  ed_object_id :: string
  ed_operation :: string

record action_edit_plan_result =
  pr_action_run_id :: string
  pr_status :: string
  pr_edits :: "committed_edit list"
  pr_created_object_ids :: "string list"
  pr_deleted_object_ids :: "string list"
  pr_links_created :: nat
  pr_links_deleted :: nat

definition edit_summary :: "committed_edit \<Rightarrow> pyval" where
  "edit_summary e = PDict [(''objectType'', PStr (ed_object_type e)), (''objectId'', PStr (ed_object_id e)),
     (''operation'', PStr (ed_operation e))]"

definition action_edit_audit_summary :: "action_edit_plan_result \<Rightarrow> dict" where
  "action_edit_audit_summary r =
     [(''edits'', PList (map edit_summary (pr_edits r))), (''linksCreated'', PInt (int (pr_links_created r))),
      (''linksDeleted'', PInt (int (pr_links_deleted r)))]"

definition plan_summary :: "action_edit_plan_result \<Rightarrow> dict" where
  "plan_summary r =
     [(''editCount'', PInt (int (length (pr_edits r)))),
      (''createdObjectIds'', PList (map PStr (pr_created_object_ids r))),
      (''deletedObjectIds'', PList (map PStr (pr_deleted_object_ids r))),
      (''linksCreated'', PInt (int (pr_links_created r))), (''linksDeleted'', PInt (int (pr_links_deleted r))),
      (''edits'', PList (map edit_summary (pr_edits r)))]"

definition action_edit_result_payload :: "action_edit_plan_result \<Rightarrow> dict" where
  "action_edit_result_payload r = [(''status'', PStr (pr_status r)), (''plan'', PDict (plan_summary r))]"

section \<open>Applying the edits\<close>

definition record_edit ::
  "commit_env \<Rightarrow> string \<Rightarrow> string \<Rightarrow> string \<Rightarrow> string \<Rightarrow> string \<Rightarrow> dict \<Rightarrow> dict \<Rightarrow> string \<Rightarrow> dict
     \<Rightarrow> (object_db, string) io" where
  "record_edit env action_run_id object_type_id object_type object_id edit_type patch previous operation_key
     revert_payload =
     io_bind (new_id (ce_ids env) ''edit'') (\<lambda>edit_id.
     io_bind (now (ce_ids env)) (\<lambda>created_at.
     io_bind (insert_object_edit
       \<lparr>er_id = edit_id, er_tenant_id = ce_tenant_id env, er_action_run_id = action_run_id,
        er_object_type_id = object_type_id, er_object_type_api_name = object_type, er_object_id = object_id,
        er_edit_type = edit_type, er_patch = patch, er_previous_values = previous,
        er_revert_payload = Some revert_payload, er_actor_user_id = ce_actor_user_id env,
        er_idempotency_key = operation_key, er_created_at = created_at\<rparr>) (\<lambda>_.
     io_return edit_id)))"

definition object_create_write_of ::
  "commit_env \<Rightarrow> string \<Rightarrow> string \<Rightarrow> string \<Rightarrow> dict \<Rightarrow> (object_db, object_create_write) io" where
  "object_create_write_of env type_id object_type object_id properties =
     io_bind (new_id (ce_ids env) ''obj'') (\<lambda>record_id.
     io_bind (now (ce_ids env)) (\<lambda>created_at.
     io_return \<lparr>ocw_object_record_id = record_id, ocw_tenant_id = ce_tenant_id env, ocw_object_type_id = type_id,
       ocw_object_type_api_name = object_type, ocw_object_id = object_id, ocw_properties = properties,
       ocw_created_at = created_at\<rparr>))"

definition create_one ::
  "commit_env \<Rightarrow> string \<Rightarrow> string \<Rightarrow> string \<Rightarrow> dict \<Rightarrow> string \<Rightarrow> (object_db, committed_edit) io" where
  "create_one env action_run_id object_type object_id properties operation_key =
     io_bind (io_lift (active_object_type_id env object_type)) (\<lambda>type_id.
     io_bind (object_create_write_of env type_id object_type object_id properties) (\<lambda>w.
     io_bind (create_object_record_write (ce_ids env) w) (\<lambda>inserted.
     if \<not> inserted then io_raise (ConflictDetected ''action create targets an object that already exists'')
     else io_bind (record_edit env action_run_id type_id object_type object_id ''create_object'' properties []
                    operation_key created_object_revert_payload) (\<lambda>edit_id.
          io_return \<lparr>ed_edit_id = edit_id, ed_object_type = object_type, ed_object_id = object_id,
            ed_operation = ''create_object''\<rparr>))))"

definition apply_creates :: "commit_env \<Rightarrow> string \<Rightarrow> edit_plan \<Rightarrow> (object_db, committed_edit list) io" where
  "apply_creates env action_run_id plan =
     io_map (\<lambda>c. create_one env action_run_id (oc_object_type c) (py_str (oc_primary_key c)) (oc_properties c)
               (oc_operation_key c)) (objects_to_create plan)"

definition modify_existing ::
  "commit_env \<Rightarrow> string \<Rightarrow> object_modify \<Rightarrow> object_row \<Rightarrow> (object_db, committed_edit) io" where
  "modify_existing env action_run_id m r =
     (let edit_properties = dupdate (or_edit_properties r) (om_patch m);
          merged = merge_properties (properties_for_object_type env (or_object_type_id r))
                     (or_base_properties r) edit_properties in
      io_bind (now (ce_ids env)) (\<lambda>updated_at.
      io_bind (update_object_target (ce_ids env)
        \<lparr>otu_object_record_id = or_id r, otu_tenant_id = ce_tenant_id env,
         otu_expected_object_version = om_expected_version m, otu_edit_properties = edit_properties,
         otu_properties = merged, otu_next_object_version = om_expected_version m + 1,
         otu_updated_at = updated_at\<rparr>) (\<lambda>updated.
      if \<not> updated then io_raise (ConflictDetected ''object version conflict during commit'')
      else io_bind (record_edit env action_run_id (or_object_type_id r) (om_object_type m) (om_object_id m)
                     ''set_property'' (om_patch m)
                     (map (\<lambda>key. (key, get_val (or_properties r) key)) (dkeys (om_patch m)))
                     (om_operation_key m) (property_revert_payload r (om_patch m))) (\<lambda>edit_id.
           io_return \<lparr>ed_edit_id = edit_id, ed_object_type = om_object_type m, ed_object_id = om_object_id m,
             ed_operation = ''set_property''\<rparr>))))"

definition modify_one :: "commit_env \<Rightarrow> string \<Rightarrow> object_modify \<Rightarrow> (object_db, committed_edit) io" where
  "modify_one env action_run_id m = (\<lambda>db.
     case object_record (ce_tenant_id env) (om_object_type m) (om_object_id m) db of
       Some r \<Rightarrow> modify_existing env action_run_id m r db
     | None \<Rightarrow>
         if om_should_create_if_absent m
         then create_one env action_run_id (om_object_type m) (om_object_id m) (om_patch m) (om_operation_key m) db
         else Inl (ConflictDetected ''action modify targets a missing object''))"

definition apply_modifies :: "commit_env \<Rightarrow> string \<Rightarrow> edit_plan \<Rightarrow> (object_db, committed_edit list) io" where
  "apply_modifies env action_run_id plan = io_map (modify_one env action_run_id) (objects_to_modify plan)"

definition delete_one :: "commit_env \<Rightarrow> string \<Rightarrow> object_delete \<Rightarrow> (object_db, committed_edit) io" where
  "delete_one env action_run_id d = (\<lambda>db.
     case object_record (ce_tenant_id env) (od_object_type d) (od_object_id d) db of
       None \<Rightarrow> Inl (ConflictDetected ''action delete targets a missing object'')
     | Some r \<Rightarrow>
         io_bind (now (ce_ids env)) (\<lambda>updated_at.
         io_bind (soft_delete_object_write (ce_ids env)
           \<lparr>odw_object_record_id = or_id r, odw_tenant_id = ce_tenant_id env,
            odw_expected_object_version = od_expected_version d,
            odw_deletion_reason = ''action:'' @ action_run_id, odw_updated_at = updated_at\<rparr>) (\<lambda>deleted.
         if \<not> deleted then io_raise (ConflictDetected ''object version conflict during delete'')
         else io_bind (record_edit env action_run_id (or_object_type_id r) (od_object_type d) (od_object_id d)
                        ''delete_object'' [] (or_properties r) (od_operation_key d)
                        (deleted_object_revert_payload r)) (\<lambda>edit_id.
              io_return \<lparr>ed_edit_id = edit_id, ed_object_type = od_object_type d, ed_object_id = od_object_id d,
                ed_operation = ''delete_object''\<rparr>))) db)"

definition apply_deletes :: "commit_env \<Rightarrow> string \<Rightarrow> edit_plan \<Rightarrow> (object_db, committed_edit list) io" where
  "apply_deletes env action_run_id plan = io_map (delete_one env action_run_id) (objects_to_delete plan)"

definition record_link_edit ::
  "commit_env \<Rightarrow> string \<Rightarrow> string \<Rightarrow> string \<Rightarrow> string \<Rightarrow> string \<Rightarrow> link_type_row \<Rightarrow> string
     \<Rightarrow> (object_db, committed_edit) io" where
  "record_link_edit env action_run_id link_type source target operation_key meta edit_type =
     io_bind (record_edit env action_run_id (lt_from_object_type_id meta) (lt_from_api_name meta) source edit_type
       [(''linkType'', PStr link_type), (''toApiName'', PStr (lt_to_api_name meta)), (''toObjectId'', PStr target)]
       [] operation_key (link_revert_payload meta link_type source target edit_type)) (\<lambda>edit_id.
     io_return \<lparr>ed_edit_id = edit_id, ed_object_type = lt_from_api_name meta, ed_object_id = source,
       ed_operation = edit_type\<rparr>)"

definition link_write_of :: "commit_env \<Rightarrow> link_create \<Rightarrow> link_type_row \<Rightarrow> (object_db, object_link_write) io" where
  "link_write_of env l meta =
     io_bind (new_id (ce_ids env) ''lnk'') (\<lambda>record_id.
     io_bind (now (ce_ids env)) (\<lambda>updated_at.
     io_return \<lparr>olw_link_record_id = record_id, olw_tenant_id = ce_tenant_id env, olw_link_type_id = lt_id meta,
       olw_link_type_api_name = lc_link_type l, olw_from_object_type_id = lt_from_object_type_id meta,
       olw_from_api_name = lt_from_api_name meta, olw_from_object_id = lc_source_object_id l,
       olw_to_object_type_id = lt_to_object_type_id meta, olw_to_api_name = lt_to_api_name meta,
       olw_to_object_id = lc_target_object_id l, olw_updated_at = updated_at\<rparr>))"

definition link_create_one :: "commit_env \<Rightarrow> string \<Rightarrow> link_create \<Rightarrow> (object_db, committed_edit) io" where
  "link_create_one env action_run_id l =
     io_bind (io_lift (link_type_for env (lc_link_type l))) (\<lambda>meta.
     io_bind (link_write_of env l meta) (\<lambda>w.
     io_bind (create_object_link_write w) (\<lambda>_.
     record_link_edit env action_run_id (lc_link_type l) (lc_source_object_id l) (lc_target_object_id l)
       (lc_operation_key l) meta ''create_link'')))"

definition apply_link_creates :: "commit_env \<Rightarrow> string \<Rightarrow> edit_plan \<Rightarrow> (object_db, committed_edit list) io" where
  "apply_link_creates env action_run_id plan = io_map (link_create_one env action_run_id) (links_to_create plan)"

definition link_delete_one :: "commit_env \<Rightarrow> string \<Rightarrow> link_delete \<Rightarrow> (object_db, committed_edit) io" where
  "link_delete_one env action_run_id l =
     io_bind (io_lift (link_type_for env (ld_link_type l))) (\<lambda>meta.
     io_bind (now (ce_ids env)) (\<lambda>updated_at.
     io_bind (soft_delete_object_link_write
       \<lparr>oldw_tenant_id = ce_tenant_id env, oldw_link_type_id = lt_id meta,
        oldw_from_object_id = ld_source_object_id l, oldw_to_object_id = ld_target_object_id l,
        oldw_deletion_reason = ''action:'' @ action_run_id, oldw_updated_at = updated_at\<rparr>) (\<lambda>deleted.
     if \<not> deleted then io_raise (ConflictDetected ''link no longer exists during delete'')
     else record_link_edit env action_run_id (ld_link_type l) (ld_source_object_id l) (ld_target_object_id l)
            (ld_operation_key l) meta ''delete_link'')))"

definition apply_link_deletes :: "commit_env \<Rightarrow> string \<Rightarrow> edit_plan \<Rightarrow> (object_db, committed_edit list) io" where
  "apply_link_deletes env action_run_id plan = io_map (link_delete_one env action_run_id) (links_to_delete plan)"

section \<open>The commit\<close>

definition finalize_run ::
  "commit_env \<Rightarrow> string \<Rightarrow> status_transition \<Rightarrow> action_edit_plan_result \<Rightarrow> (object_db, unit) io" where
  "finalize_run env action_run_id t r =
     io_bind (now (ce_ids env)) (\<lambda>completed_at.
     io_bind (update_action_run_terminal (ce_tenant_id env) action_run_id t PNone (PStr completed_at)
       (PDict (action_edit_result_payload r))) (\<lambda>updated.
     if \<not> updated then io_raise (ConflictDetected ''action run terminal state changed concurrently'')
     else io_return ()))"

definition outbox :: "outbox_event \<Rightarrow> (object_db, unit) io" where
  "outbox event = (\<lambda>db. Inr ((), db\<lparr>db_outbox := db_outbox db @ [event]\<rparr>))"

definition committed_event :: "string \<Rightarrow> committed_edit list \<Rightarrow> outbox_event" where
  "committed_event action_run_id edits =
     \<lparr>ob_event_type = ''action.run.committed'', ob_aggregate_type = ''action_run'', ob_aggregate_id = action_run_id,
      ob_payload = [(''actionRunId'', PStr action_run_id), (''editCount'', PInt (int (length edits)))],
      ob_idempotency_key = ''action.run.committed:'' @ action_run_id\<rparr>"

definition changed_event :: "string \<Rightarrow> committed_edit \<Rightarrow> outbox_event" where
  "changed_event action_run_id e =
     \<lparr>ob_event_type = ''object.changed'', ob_aggregate_type = ''object'', ob_aggregate_id = ed_object_id e,
      ob_payload = [(''actionRunId'', PStr action_run_id), (''objectType'', PStr (ed_object_type e)),
        (''objectId'', PStr (ed_object_id e)), (''editId'', PStr (ed_edit_id e)),
        (''operation'', PStr (ed_operation e))],
      ob_idempotency_key = ''object.changed:'' @ ed_edit_id e\<rparr>"

definition emit_events :: "string \<Rightarrow> committed_edit list \<Rightarrow> (object_db, unit) io" where
  "emit_events action_run_id edits =
     io_bind (outbox (committed_event action_run_id edits)) (\<lambda>_.
     io_bind (io_map (\<lambda>e. outbox (changed_event action_run_id e)) edits) (\<lambda>_. io_return ()))"

definition audit_commit :: "string \<Rightarrow> action_edit_plan_result \<Rightarrow> (object_db, unit) io" where
  "audit_commit action_run_id r = (\<lambda>db. Inr ((), db\<lparr>db_audit := db_audit db @
     [\<lparr>au_event_type = ''action.run.committed'', au_resource_id = action_run_id, au_action = ''apply'',
       au_after_ref = action_edit_audit_summary r\<rparr>]\<rparr>))"

definition commit_plan ::
  "commit_env \<Rightarrow> string \<Rightarrow> edit_plan \<Rightarrow> (committed_edit list \<Rightarrow> (object_db, unit) io) option \<Rightarrow> status_transition
     \<Rightarrow> (object_db, action_edit_plan_result) io" where
  "commit_plan env action_run_id plan action_log t =
     io_bind (apply_creates env action_run_id plan) (\<lambda>create_edits.
     io_bind (apply_modifies env action_run_id plan) (\<lambda>modify_edits.
     io_bind (apply_deletes env action_run_id plan) (\<lambda>delete_edits.
     io_bind (apply_link_creates env action_run_id plan) (\<lambda>link_create_edits.
     io_bind (apply_link_deletes env action_run_id plan) (\<lambda>link_delete_edits.
     let edits = create_edits @ modify_edits @ delete_edits @ link_create_edits @ link_delete_edits;
         created = map ed_object_id (filter (\<lambda>e. ed_operation e = ''create_object'') edits);
         deleted = map ed_object_id (filter (\<lambda>e. ed_operation e = ''delete_object'') edits);
         r = \<lparr>pr_action_run_id = action_run_id, pr_status = to_status t, pr_edits = edits,
              pr_created_object_ids = created, pr_deleted_object_ids = deleted,
              pr_links_created = length link_create_edits, pr_links_deleted = length link_delete_edits\<rparr> in
     io_bind (finalize_run env action_run_id t r) (\<lambda>_.
     io_bind (case action_log of None \<Rightarrow> io_return () | Some write_log \<Rightarrow> write_log edits) (\<lambda>_.
     io_bind (emit_events action_run_id edits) (\<lambda>_.
     io_bind (audit_commit action_run_id r) (\<lambda>_. io_return r)))))))))"

section \<open>What an operation keeps\<close>

lemma io_map_split:
  assumes "io_map f (before @ x # after) w = Inr (ys, w')"
  obtains ys1 w1 y w2 ys2 where "io_map f before w = Inr (ys1, w1)" "f x w1 = Inr (y, w2)"
    "io_map f after w2 = Inr (ys2, w')"
  using assms by (induction before arbitrary: w ys) (fastforce simp: io_bind_Inr)+

subsection \<open>Operations that leave the object tables alone\<close>

definition same_objects :: "object_db \<Rightarrow> object_db \<Rightarrow> bool" where
  "same_objects db db' \<longleftrightarrow> db_records db' = db_records db \<and> db_versions db' = db_versions db
     \<and> db_counters db' = db_counters db"

interpretation objects: state_preorder same_objects
  by unfold_locales (auto simp: same_objects_def)

lemma same_objects_basic:
  "io_keeps same_objects (new_id ids prefix)" "io_keeps same_objects (now ids)"
  "io_keeps same_objects (insert_object_edit row)" "io_keeps same_objects (create_object_link_write w)"
  "io_keeps same_objects (soft_delete_object_link_write dw)"
  "io_keeps same_objects (update_action_run_terminal tid rid t a b c)"
  "io_keeps same_objects (outbox event)" "io_keeps same_objects (audit_commit rid r)"
  by (auto simp: io_keeps_def same_objects_def new_id_def now_def insert_object_edit_def Let_def
      create_object_link_write_def soft_delete_object_link_write_def update_action_run_terminal_def outbox_def
      audit_commit_def split: if_splits prod.splits)

lemma same_objects_record_edit:
  "io_keeps same_objects (record_edit env rid tid ty oid et patch previous key payload)"
  unfolding record_edit_def by (intro objects.keeps_intros same_objects_basic)

lemma same_objects_links:
  "io_keeps same_objects (link_create_one env rid lc)" "io_keeps same_objects (link_delete_one env rid ld)"
  unfolding link_create_one_def link_delete_one_def record_link_edit_def link_write_of_def
  by (intro objects.keeps_intros same_objects_basic same_objects_record_edit)+

lemma same_objects_finish:
  "io_keeps same_objects (finalize_run env rid t r)" "io_keeps same_objects (emit_events rid edits)"
  unfolding finalize_run_def emit_events_def by (intro objects.keeps_intros same_objects_basic)+

lemma same_objects_reads:
  assumes "same_objects db db'"
  shows "db_ok db' = db_ok db" "object_record t ty i db' = object_record t ty i db"
  using assms by (simp_all add: same_objects_def db_ok_def object_record_def)

lemma io_map_same_objects: "(\<And>x. x \<in> set xs \<Longrightarrow> io_keeps same_objects (f x)) \<Longrightarrow> io_keeps same_objects (io_map f xs)"
  by (rule objects.keeps_map)

subsection \<open>How each object edit changes the records\<close>

definition modified_row :: "commit_env \<Rightarrow> object_modify \<Rightarrow> int \<Rightarrow> string \<Rightarrow> object_row \<Rightarrow> object_row" where
  "modified_row env m seq at_time r =
     (let edit_properties = dupdate (or_edit_properties r) (om_patch m) in
      r\<lparr>or_edit_properties := edit_properties,
        or_properties := merge_properties (properties_for_object_type env (or_object_type_id r))
          (or_base_properties r) edit_properties,
        or_object_version := om_expected_version m + 1, or_object_change_sequence := Some seq,
        or_updated_at := at_time\<rparr>)"

definition deleted_row :: "string \<Rightarrow> object_delete \<Rightarrow> int \<Rightarrow> string \<Rightarrow> object_row \<Rightarrow> object_row" where
  "deleted_row action_run_id d seq at_time r =
     r\<lparr>or_deleted := True, or_is_active := False, or_deletion_reason := Some (''action:'' @ action_run_id),
       or_object_version := od_expected_version d + 1, or_object_change_sequence := Some seq,
       or_updated_at := at_time\<rparr>"

lemma io_now_Inr: "io_bind (now ids) f db = f (clock_text ids (db_ticks db)) (db\<lparr>db_ticks := db_ticks db + 1\<rparr>)"
  by (simp add: io_bind_def now_def)

lemma db_ok_ticks [simp]: "db_ok (db\<lparr>db_ticks := n\<rparr>) = db_ok db" "db_ok (db\<lparr>db_uuids := n\<rparr>) = db_ok db"
  by (simp_all add: db_ok_def)

lemma put_version_records [simp]: "db_records (put_version ids rows row db) = rows"
  by (simp add: put_version_def)

lemma modify_existing_run:
  assumes ok: "db_ok db" and r: "r \<in> set (db_records db)" "or_tenant_id r = ce_tenant_id env"
    and run: "modify_existing env rid m r db = Inr (e, db')"
  obtains before after seq at_time where
    "or_object_version r = om_expected_version m" "db_records db = before @ r # after"
    "db_records db' = before @ modified_row env m seq at_time r # after" "db_ok db'"
proof -
  let ?db = "db\<lparr>db_ticks := db_ticks db + 1\<rparr>"
  let ?edits = "dupdate (or_edit_properties r) (om_patch m)"
  let ?w = "\<lparr>otu_object_record_id = or_id r, otu_tenant_id = ce_tenant_id env,
      otu_expected_object_version = om_expected_version m, otu_edit_properties = ?edits,
      otu_properties = merge_properties (properties_for_object_type env (or_object_type_id r))
        (or_base_properties r) ?edits,
      otu_next_object_version = om_expected_version m + 1,
      otu_updated_at = clock_text (ce_ids env) (db_ticks db)\<rparr>"
  from run obtain db1 where upd: "update_object_target (ce_ids env) ?w ?db = Inr (True, db1)"
    and log: "same_objects db1 db'"
    by (auto simp: modify_existing_def Let_def io_now_Inr io_bind_Inr split: if_splits
        dest!: io_keepsD [OF same_objects_record_edit])
  have ok1: "db_ok db1" using update_keeps_ok [OF _ _ upd] ok by simp
  have unique: "unique_on or_id (db_records ?db)" using db_ok_unique_id [OF ok] by simp
  show thesis
  proof (cases rule: update_writer.cas_cases [where tenant_id = "ce_tenant_id env" and record_id = "or_id r"
        and expected = "om_expected_version m" and ids = "ce_ids env" and edit_properties = ?edits
        and properties = "otu_properties ?w" and updated_at = "otu_updated_at ?w", OF unique, case_names hit miss])
    case (hit before row after)
    then have "row = r" using unique_on_inj [OF db_ok_unique_id [OF ok] _ r(1), of row] by simp
    with hit upd have "db_records db1 =
        before @ modified_row env m (next_sequence (ce_tenant_id env) ?db) (otu_updated_at ?w) r # after"
      by (auto simp: update_object_target_eq modified_row_def Let_def)
    with hit \<open>row = r\<close> log ok1 show thesis
      by (intro that [of before after]) (auto simp: same_objects_def same_objects_reads(1) [OF log])
  next
    case miss
    with upd show thesis by (simp add: update_object_target_eq)
  qed
qed

lemma delete_one_run:
  assumes ok: "db_ok db" and run: "delete_one env rid d db = Inr (e, db')"
  obtains r before after seq at_time where
    "object_record (ce_tenant_id env) (od_object_type d) (od_object_id d) db = Some r"
    "or_object_version r = od_expected_version d" "db_records db = before @ r # after"
    "db_records db' = before @ deleted_row rid d seq at_time r # after" "db_ok db'"
proof -
  from run obtain r where found: "object_record (ce_tenant_id env) (od_object_type d) (od_object_id d) db = Some r"
    by (auto simp: delete_one_def split: option.splits)
  then have r: "r \<in> set (db_records db)" "or_tenant_id r = ce_tenant_id env"
    by (auto simp: object_record_def dest!: sql_first_Some)
  let ?db = "db\<lparr>db_ticks := db_ticks db + 1\<rparr>"
  let ?w = "\<lparr>odw_object_record_id = or_id r, odw_tenant_id = ce_tenant_id env,
      odw_expected_object_version = od_expected_version d, odw_deletion_reason = ''action:'' @ rid,
      odw_updated_at = clock_text (ce_ids env) (db_ticks db)\<rparr>"
  from run found obtain db1 where del: "soft_delete_object_write (ce_ids env) ?w ?db = Inr (True, db1)"
    and log: "same_objects db1 db'"
    by (auto simp: delete_one_def io_now_Inr io_bind_Inr split: if_splits
        dest!: io_keepsD [OF same_objects_record_edit])
  have ok1: "db_ok db1" using delete_keeps_ok [OF _ del] ok by simp
  have unique: "unique_on or_id (db_records ?db)" using db_ok_unique_id [OF ok] by simp
  show thesis
  proof (cases rule: delete_writer.cas_cases [where tenant_id = "ce_tenant_id env" and record_id = "or_id r"
        and expected = "od_expected_version d" and ids = "ce_ids env" and reason = "''action:'' @ rid"
        and updated_at = "odw_updated_at ?w", OF unique, case_names hit miss])
    case (hit before row after)
    then have "row = r" using unique_on_inj [OF db_ok_unique_id [OF ok] _ r(1), of row] by simp
    with hit del have "db_records db1 =
        before @ deleted_row rid d (next_sequence (ce_tenant_id env) ?db) (odw_updated_at ?w) r # after"
      by (auto simp: soft_delete_object_write_def deleted_row_def)
    with found hit \<open>row = r\<close> log ok1 show thesis
      by (intro that [of r before after]) (auto simp: same_objects_def same_objects_reads(1) [OF log])
  next
    case miss
    with del show thesis by (simp add: soft_delete_object_write_def)
  qed
qed

lemma create_one_run:
  assumes ok: "db_ok db" and run: "create_one env rid ty oid ps key db = Inr (e, db')"
  obtains row where "db_records db' = db_records db @ [row]" "or_tenant_id row = ce_tenant_id env"
    "or_object_type_api_name row = ty" "or_object_id row = oid" "or_is_active row" "\<not> or_deleted row"
    "or_object_version row = 1" "or_edit_properties row = ps" "db_ok db'"
proof -
  from run obtain type_id w db0 db1 where w: "object_create_write_of env type_id ty oid ps db = Inr (w, db0)"
    and create: "create_object_record_write (ce_ids env) w db0 = Inr (True, db1)"
    and log: "same_objects db1 db'"
    by (auto simp: create_one_def io_bind_Inr io_lift_Inr split: if_splits
        dest!: io_keepsD [OF same_objects_record_edit])
  have w': "ocw_tenant_id w = ce_tenant_id env" "ocw_object_type_api_name w = ty" "ocw_object_id w = oid"
    "ocw_properties w = ps" "same_objects db db0"
    using w by (auto simp: object_create_write_of_def io_bind_Inr new_id_def now_def same_objects_def)
  have ok0: "db_ok db0" using ok same_objects_reads(1) [OF w'(5)] by simp
  have ok1: "db_ok db1" using create_keeps_ok [OF ok0 create] .
  show thesis
  proof (cases rule: create_object_record_cases [OF ok0, of w "ce_ids env", case_names exists duplicate inserted])
    case (inserted row)
    with create have "db_records db1 = db_records db0 @ [row]" by auto
    with inserted(1) w' log ok1 show thesis
      by (intro that [of row])
        (auto simp: same_objects_def object_create_values_def same_objects_reads(1) [OF log])
  qed (use create in auto)
qed

subsection \<open>Frames of the object edits\<close>

text \<open>A successful run keeps the invariant and what is found under one object key; and it keeps every
  inactive row as it is.\<close>

abbreviation found :: "string \<Rightarrow> string \<times> string \<Rightarrow> object_db \<Rightarrow> object_row option" where
  "found tenant_id k db \<equiv> object_record tenant_id (fst k) (snd k) db"

definition keeps_key :: "string \<Rightarrow> string \<times> string \<Rightarrow> object_db \<Rightarrow> object_db \<Rightarrow> bool" where
  "keeps_key tenant_id k db db' \<longleftrightarrow>
     (db_ok db \<longrightarrow> db_ok db' \<and> found tenant_id k db' = found tenant_id k db)"

definition keeps_inactive :: "object_row \<Rightarrow> object_db \<Rightarrow> object_db \<Rightarrow> bool" where
  "keeps_inactive r db db' \<longleftrightarrow>
     (db_ok db \<and> r \<in> set (db_records db) \<and> \<not> or_is_active r \<longrightarrow> db_ok db' \<and> r \<in> set (db_records db'))"

interpretation key_frame: state_preorder "keeps_key tenant_id k" for tenant_id k
  by unfold_locales (auto simp: keeps_key_def)

interpretation inactive_frame: state_preorder "keeps_inactive r" for r
  by unfold_locales (auto simp: keeps_inactive_def)

lemma same_objects_frames:
  "io_keeps same_objects m \<Longrightarrow> io_keeps (keeps_key tenant_id k) m"
  "io_keeps same_objects m \<Longrightarrow> io_keeps (keeps_inactive r) m"
  by (auto elim!: io_keeps_mono simp: keeps_key_def keeps_inactive_def same_objects_def db_ok_def object_record_def)

lemma sql_first_other:
  "\<not> p r \<Longrightarrow> \<not> p r' \<Longrightarrow> sql_first p (before @ r' # after) = sql_first p (before @ r # after)"
  unfolding sql_first_def by (induction before) auto

lemma sql_first_hit:
  "sql_first p (before @ r # after) = Some r \<Longrightarrow> r \<notin> set before \<Longrightarrow> p r' \<Longrightarrow>
     sql_first p (before @ r' # after) = Some r'"
  unfolding sql_first_def by (induction before) (auto split: if_splits)

lemma sql_first_append_other: "\<not> p r \<Longrightarrow> sql_first p (rows @ [r]) = sql_first p rows"
  unfolding sql_first_def by (induction rows) auto

lemma object_record_found:
  "object_record tenant_id ty i db = Some r \<Longrightarrow> r \<in> set (db_records db) \<and> or_tenant_id r = tenant_id
     \<and> or_object_type_api_name r = ty \<and> or_object_id r = i \<and> or_is_active r"
  by (auto simp: object_record_def dest!: sql_first_Some)

lemma create_one_frames:
  "k \<noteq> (ty, oid) \<Longrightarrow> io_keeps (keeps_key (ce_tenant_id env) k) (create_one env rid ty oid ps key)"
  "io_keeps (keeps_inactive r) (create_one env rid ty oid ps key)"
proof -
  have step: "db_ok db' \<and> (k \<noteq> (ty, oid) \<longrightarrow> found (ce_tenant_id env) k db' = found (ce_tenant_id env) k db)
      \<and> set (db_records db) \<subseteq> set (db_records db')"
    if ok: "db_ok db" and run: "create_one env rid ty oid ps key db = Inr (e, db')" for db e db'
  proof -
    from create_one_run [OF ok run] obtain row where row: "db_records db' = db_records db @ [row]"
      "or_object_type_api_name row = ty" "or_object_id row = oid" "db_ok db'" by metis
    have "found (ce_tenant_id env) k db' = found (ce_tenant_id env) k db" if "k \<noteq> (ty, oid)"
      unfolding object_record_def row(1) using that row(2,3) by (intro sql_first_append_other) auto
    with row show ?thesis by auto
  qed
  show "k \<noteq> (ty, oid) \<Longrightarrow> io_keeps (keeps_key (ce_tenant_id env) k) (create_one env rid ty oid ps key)"
    "io_keeps (keeps_inactive r) (create_one env rid ty oid ps key)"
    unfolding io_keeps_def keeps_key_def keeps_inactive_def using step by blast+
qed

lemma modified_row_fields [simp]:
  "or_id (modified_row env m q t r) = or_id r" "or_tenant_id (modified_row env m q t r) = or_tenant_id r"
  "or_object_type_api_name (modified_row env m q t r) = or_object_type_api_name r"
  "or_object_id (modified_row env m q t r) = or_object_id r"
  "or_is_active (modified_row env m q t r) = or_is_active r"
  by (simp_all add: modified_row_def Let_def)

lemma modify_one_frames:
  "k \<noteq> modify_key m \<Longrightarrow> io_keeps (keeps_key (ce_tenant_id env) k) (modify_one env rid m)"
  "io_keeps (keeps_inactive r) (modify_one env rid m)"
proof -
  let ?found = "object_record (ce_tenant_id env) (om_object_type m) (om_object_id m)"
  have absent: "create_one env rid (om_object_type m) (om_object_id m) (om_patch m) (om_operation_key m) db = Inr (e, db')"
    if "?found db = None" "modify_one env rid m db = Inr (e, db')" for db e db'
    using that by (auto simp: modify_one_def split: if_splits)
  have present: "db_ok db' \<and> (k \<noteq> modify_key m \<longrightarrow> found (ce_tenant_id env) k db' = found (ce_tenant_id env) k db)
      \<and> (r \<in> set (db_records db) \<and> \<not> or_is_active r \<longrightarrow> r \<in> set (db_records db'))"
    if ok: "db_ok db" and r0': "?found db = Some r0" and run: "modify_one env rid m db = Inr (e, db')" for db e db' r0
  proof -
    note r0 = object_record_found [OF r0']
    from r0' run have "modify_existing env rid m r0 db = Inr (e, db')" by (simp add: modify_one_def)
    from modify_existing_run [OF ok _ _ this] r0 obtain before after seq at_time where
      split: "db_records db = before @ r0 # after"
      "db_records db' = before @ modified_row env m seq at_time r0 # after" "db_ok db'" by metis
    have "found (ce_tenant_id env) k db' = found (ce_tenant_id env) k db" if "k \<noteq> modify_key m"
      unfolding object_record_def split using that r0
      by (intro sql_first_other) (auto simp: modify_key_def)
    with split r0 show ?thesis by auto
  qed
  show "k \<noteq> modify_key m \<Longrightarrow> io_keeps (keeps_key (ce_tenant_id env) k) (modify_one env rid m)"
    unfolding io_keeps_def keeps_key_def
    by (metis absent present create_one_frames(1) io_keepsD keeps_key_def modify_key_def not_None_eq)
  show "io_keeps (keeps_inactive r) (modify_one env rid m)"
    unfolding io_keeps_def keeps_inactive_def
    by (metis absent present create_one_frames(2) io_keepsD keeps_inactive_def not_None_eq)
qed

lemma delete_one_frames:
  "k \<noteq> delete_key d \<Longrightarrow> io_keeps (keeps_key (ce_tenant_id env) k) (delete_one env rid d)"
  "io_keeps (keeps_inactive r) (delete_one env rid d)"
proof -
  have step: "db_ok db' \<and> (k \<noteq> delete_key d \<longrightarrow> found (ce_tenant_id env) k db' = found (ce_tenant_id env) k db)
      \<and> (r \<in> set (db_records db) \<and> \<not> or_is_active r \<longrightarrow> r \<in> set (db_records db'))"
    if ok: "db_ok db" and run: "delete_one env rid d db = Inr (e, db')" for db e db'
  proof -
    from delete_one_run [OF ok run] obtain r0 before after seq at_time where
      r0': "object_record (ce_tenant_id env) (od_object_type d) (od_object_id d) db = Some r0"
      and split: "db_records db = before @ r0 # after" "db_records db' = before @ deleted_row rid d seq at_time r0 # after"
      "db_ok db'" by metis
    note r0 = object_record_found [OF r0']
    have "found (ce_tenant_id env) k db' = found (ce_tenant_id env) k db" if "k \<noteq> delete_key d"
      unfolding object_record_def split using that r0
      by (intro sql_first_other) (auto simp: delete_key_def deleted_row_def)
    with split r0 show ?thesis by auto
  qed
  show "k \<noteq> delete_key d \<Longrightarrow> io_keeps (keeps_key (ce_tenant_id env) k) (delete_one env rid d)"
    "io_keeps (keeps_inactive r) (delete_one env rid d)"
    unfolding io_keeps_def keeps_key_def keeps_inactive_def using step by blast+
qed

subsection \<open>One edit among many\<close>

definition create_key :: "object_create \<Rightarrow> string \<times> string" where
  "create_key c = (oc_object_type c, py_str (oc_primary_key c))"

lemma phase_frame:
  assumes "\<And>x. key x \<noteq> k \<Longrightarrow> io_keeps (keeps_key t k) (f x)" "k \<notin> set (map key xs)"
  shows "io_keeps (keeps_key t k) (io_map f xs)"
proof (rule key_frame.keeps_map)
  fix x assume "x \<in> set xs"
  with assms(2) have "key x \<noteq> k" by auto
  then show "io_keeps (keeps_key t k) (f x)" by (rule assms(1))
qed

text \<open>When the keys of the edits of one phase are distinct, each of them meets the row under its key as
  it was before the phase, and what it leaves there is there at the end.\<close>

lemma phase_effect:
  assumes keeps: "\<And>x k. key x \<noteq> k \<Longrightarrow> io_keeps (keeps_key t k) (f x)" "\<And>x r. io_keeps (keeps_inactive r) (f x)"
    and ok: "db_ok db" and run: "io_map f xs db = Inr (ys, db')" and x: "x \<in> set xs" "distinct (map key xs)"
  obtains db1 y db2 where "db_ok db1" "found t (key x) db1 = found t (key x) db" "f x db1 = Inr (y, db2)"
    "db_ok db2" "found t (key x) db' = found t (key x) db2"
    "\<And>r. r \<in> set (db_records db2) \<Longrightarrow> \<not> or_is_active r \<Longrightarrow> r \<in> set (db_records db')"
proof -
  from x(1) obtain before after where xs: "xs = before @ x # after" by (meson split_list)
  from run obtain ys1 db1 y db2 ys2 where parts: "io_map f before db = Inr (ys1, db1)" "f x db1 = Inr (y, db2)"
    "io_map f after db2 = Inr (ys2, db')" unfolding xs by (rule io_map_split)
  have other: "key x \<notin> set (map key before)" "key x \<notin> set (map key after)" using x(2) xs by auto
  have 1: "keeps_key t (key x) db db1" using phase_frame [OF keeps(1) other(1)] parts(1) by (rule io_keepsD)
  have 3: "keeps_key t (key x) db2 db'" using phase_frame [OF keeps(1) other(2)] parts(3) by (rule io_keepsD)
  have inactive: "keeps_inactive r db2 db'" for r
    by (rule io_keepsD [OF inactive_frame.keeps_map parts(3)]) (rule keeps(2))
  have "keeps_key t (fst (key x), snd (key x) @ ''x'') db1 db2"
    by (rule io_keepsD [OF keeps(1) parts(2)]) (cases "key x", simp)
  with 1 ok have oks: "db_ok db1" "db_ok db2" by (simp_all add: keeps_key_def)
  show thesis
    using that [OF oks(1) _ parts(2) oks(2)] 1 3 ok oks inactive
    by (auto simp: keeps_key_def keeps_inactive_def)
qed

lemma create_one_effect:
  assumes "db_ok db" "found (ce_tenant_id env) (ty, oid) db = None" "create_one env rid ty oid ps key db = Inr (e, db')"
  shows "\<exists>row. found (ce_tenant_id env) (ty, oid) db' = Some row \<and> or_object_version row = 1
      \<and> or_edit_properties row = ps \<and> \<not> or_deleted row"
proof -
  from create_one_run [OF assms(1,3)] obtain row where row: "db_records db' = db_records db @ [row]"
    "or_tenant_id row = ce_tenant_id env" "or_object_type_api_name row = ty" "or_object_id row = oid"
    "or_is_active row" "\<not> or_deleted row" "or_object_version row = 1" "or_edit_properties row = ps" by metis
  have "sql_first p (rows @ [x]) = Some x" if "sql_first p rows = None" "p x" for p rows and x :: object_row
    using that unfolding sql_first_def by (induction rows) (auto split: if_splits)
  with assms(2) row show ?thesis by (simp add: object_record_def)
qed

lemma modify_one_effect:
  assumes "db_ok db" "found (ce_tenant_id env) (modify_key m) db = Some r" "modify_one env rid m db = Inr (e, db')"
  shows "or_object_version r = om_expected_version m
      \<and> (\<exists>seq at_time. found (ce_tenant_id env) (modify_key m) db' = Some (modified_row env m seq at_time r))"
proof -
  from assms(2) have r': "object_record (ce_tenant_id env) (om_object_type m) (om_object_id m) db = Some r"
    by (simp add: modify_key_def)
  note r = object_record_found [OF r']
  from r' assms(3) have "modify_existing env rid m r db = Inr (e, db')" by (simp add: modify_one_def)
  from modify_existing_run [OF assms(1) _ _ this] r obtain before after seq at_time where
    split: "or_object_version r = om_expected_version m" "db_records db = before @ r # after"
    "db_records db' = before @ modified_row env m seq at_time r # after" by metis
  have "or_id r \<notin> or_id ` set before"
    using db_ok_unique_id [OF assms(1)] unfolding split(2) unique_on_def by simp
  then have "r \<notin> set before" by blast
  from sql_first_hit [OF r' [unfolded object_record_def split(2)] this] r
  have "object_record (ce_tenant_id env) (om_object_type m) (om_object_id m) db' =
      Some (modified_row env m seq at_time r)"
    unfolding object_record_def split(3) by simp
  with split(1) show ?thesis by (auto simp: modify_key_def)
qed

lemma delete_one_effect:
  assumes "db_ok db" "delete_one env rid d db = Inr (e, db')"
  shows "\<exists>r seq at_time. found (ce_tenant_id env) (delete_key d) db = Some r
      \<and> or_object_version r = od_expected_version d \<and> deleted_row rid d seq at_time r \<in> set (db_records db')"
proof -
  from delete_one_run [OF assms] obtain r before after seq at_time where
    "object_record (ce_tenant_id env) (od_object_type d) (od_object_id d) db = Some r"
    "or_object_version r = od_expected_version d" "db_records db' = before @ deleted_row rid d seq at_time r # after"
    by metis
  then show ?thesis by (auto simp: delete_key_def)
qed

section \<open>The effect of a commit\<close>

lemma commit_plan_phases:
  assumes "commit_plan env rid plan None t db = Inr (res, db')"
  obtains ces d1 mes d2 des d3 where "apply_creates env rid plan db = Inr (ces, d1)"
    "apply_modifies env rid plan d1 = Inr (mes, d2)" "apply_deletes env rid plan d2 = Inr (des, d3)"
    "same_objects d3 db'"
proof -
  from assms obtain ces d1 mes d2 des d3 lcs d4 lds d5 r d6 d7 where
    run: "apply_creates env rid plan db = Inr (ces, d1)" "apply_modifies env rid plan d1 = Inr (mes, d2)"
    "apply_deletes env rid plan d2 = Inr (des, d3)" "apply_link_creates env rid plan d3 = Inr (lcs, d4)"
    "apply_link_deletes env rid plan d4 = Inr (lds, d5)" "finalize_run env rid t r d5 = Inr ((), d6)"
    "emit_events rid (pr_edits r) d6 = Inr ((), d7)" "audit_commit rid r d7 = Inr ((), db')"
    unfolding commit_plan_def Let_def by (auto simp: io_bind_Inr)
  have "same_objects d3 d4" using run(4) unfolding apply_link_creates_def
    by (rule io_keepsD [OF io_map_same_objects, rotated]) (rule same_objects_links)
  moreover have "same_objects d4 d5" using run(5) unfolding apply_link_deletes_def
    by (rule io_keepsD [OF io_map_same_objects, rotated]) (rule same_objects_links)
  moreover have "same_objects d5 d6" using io_keepsD [OF same_objects_finish(1) run(6)] .
  moreover have "same_objects d6 d7" using io_keepsD [OF same_objects_finish(2) run(7)] .
  moreover have "same_objects d7 db'" using io_keepsD [OF same_objects_basic(8) run(8)] .
  ultimately have "same_objects d3 db'" by (auto simp: same_objects_def)
  with run(1-3) show thesis by (rule that)
qed

lemma apply_creates_frame:
  assumes "k \<notin> set (map create_key (objects_to_create plan))"
  shows "io_keeps (keeps_key (ce_tenant_id env) k) (apply_creates env rid plan)"
  unfolding apply_creates_def
  by (rule phase_frame [OF create_one_frames(1) assms]) (auto simp: create_key_def)

lemma apply_modifies_frame:
  assumes "k \<notin> set (map modify_key (objects_to_modify plan))"
  shows "io_keeps (keeps_key (ce_tenant_id env) k) (apply_modifies env rid plan)"
  unfolding apply_modifies_def by (rule phase_frame [OF modify_one_frames(1) assms]) auto

lemma apply_deletes_frame:
  assumes "k \<notin> set (map delete_key (objects_to_delete plan))"
  shows "io_keeps (keeps_key (ce_tenant_id env) k) (apply_deletes env rid plan)"
  unfolding apply_deletes_def by (rule phase_frame [OF delete_one_frames(1) assms]) auto

text \<open>The keys the object edits of a plan are about.\<close>

definition plan_keys :: "edit_plan \<Rightarrow> (string \<times> string) list" where
  "plan_keys plan = map create_key (objects_to_create plan) @ map modify_key (objects_to_modify plan)
     @ map delete_key (objects_to_delete plan)"

lemma infinite_keys: "infinite (UNIV :: (string \<times> string) set)"
  by (simp add: finite_prod infinite_UNIV_listI)

lemma commit_plan_frames:
  assumes ok: "db_ok db" and run: "commit_plan env rid plan None t db = Inr (res, db')"
  obtains ces d1 mes d2 des d3 where "apply_creates env rid plan db = Inr (ces, d1)"
    "apply_modifies env rid plan d1 = Inr (mes, d2)" "apply_deletes env rid plan d2 = Inr (des, d3)"
    "same_objects d3 db'" "db_ok d1" "db_ok d2" "db_ok d3"
    "\<And>k. k \<notin> set (map create_key (objects_to_create plan)) \<Longrightarrow>
       found (ce_tenant_id env) k d1 = found (ce_tenant_id env) k db"
    "\<And>k. k \<notin> set (map modify_key (objects_to_modify plan)) \<Longrightarrow>
       found (ce_tenant_id env) k d2 = found (ce_tenant_id env) k d1"
    "\<And>k. k \<notin> set (map delete_key (objects_to_delete plan)) \<Longrightarrow>
       found (ce_tenant_id env) k db' = found (ce_tenant_id env) k d2"
proof -
  let ?t = "ce_tenant_id env"
  from run obtain ces d1 mes d2 des d3 where phases: "apply_creates env rid plan db = Inr (ces, d1)"
    "apply_modifies env rid plan d1 = Inr (mes, d2)" "apply_deletes env rid plan d2 = Inr (des, d3)"
    and same: "same_objects d3 db'" by (rule commit_plan_phases)
  have creates: "k \<notin> set (map create_key (objects_to_create plan)) \<Longrightarrow> keeps_key ?t k db d1" for k
    using io_keepsD [OF apply_creates_frame phases(1)] .
  have modifies: "k \<notin> set (map modify_key (objects_to_modify plan)) \<Longrightarrow> keeps_key ?t k d1 d2" for k
    using io_keepsD [OF apply_modifies_frame phases(2)] .
  have deletes: "k \<notin> set (map delete_key (objects_to_delete plan)) \<Longrightarrow> keeps_key ?t k d2 d3" for k
    using io_keepsD [OF apply_deletes_frame phases(3)] .
  obtain k0 where k0: "k0 \<notin> set (map create_key (objects_to_create plan))"
    "k0 \<notin> set (map modify_key (objects_to_modify plan))" "k0 \<notin> set (map delete_key (objects_to_delete plan))"
    using ex_new_if_finite [OF infinite_keys, of "set (plan_keys plan)"] by (auto simp: plan_keys_def)
  have oks: "db_ok d1" "db_ok d2" "db_ok d3"
    using creates [OF k0(1)] modifies [OF k0(2)] deletes [OF k0(3)] ok by (simp_all add: keeps_key_def)
  show thesis
    using that [OF phases same oks] creates modifies deletes ok oks same_objects_reads(2) [OF same]
    by (simp add: keeps_key_def)
qed

lemma commit_keeps_ok:
  assumes "db_ok db" "commit_plan env rid plan None t db = Inr (res, db')"
  shows "db_ok db'"
  by (rule commit_plan_frames [OF assms]) (simp add: same_objects_reads(1))

lemma commit_untouched:
  assumes "db_ok db" "commit_plan env rid plan None t db = Inr (res, db')" "k \<notin> set (plan_keys plan)"
  shows "found (ce_tenant_id env) k db' = found (ce_tenant_id env) k db"
  by (rule commit_plan_frames [OF assms(1,2)]) (use assms(3) in \<open>simp add: plan_keys_def\<close>)

lemma commit_modified:
  assumes ok: "db_ok db" and run: "commit_plan env rid plan None t db = Inr (res, db')"
    and keys: "distinct (plan_keys plan)"
    and m: "m \<in> set (objects_to_modify plan)" and r: "found (ce_tenant_id env) (modify_key m) db = Some r"
  shows "or_object_version r = om_expected_version m
    \<and> (\<exists>seq at_time. found (ce_tenant_id env) (modify_key m) db' = Some (modified_row env m seq at_time r))"
proof (rule commit_plan_frames [OF ok run])
  let ?t = "ce_tenant_id env"
  have other: "modify_key m \<notin> set (map create_key (objects_to_create plan))"
    "modify_key m \<notin> set (map delete_key (objects_to_delete plan))" "distinct (map modify_key (objects_to_modify plan))"
    using keys m by (auto simp: plan_keys_def)
  fix ces d1 mes d2 des d3
  assume d: "apply_modifies env rid plan d1 = Inr (mes, d2)" "db_ok d1"
    and creates: "\<And>k. k \<notin> set (map create_key (objects_to_create plan)) \<Longrightarrow> found ?t k d1 = found ?t k db"
    and deletes: "\<And>k. k \<notin> set (map delete_key (objects_to_delete plan)) \<Longrightarrow> found ?t k db' = found ?t k d2"
  from phase_effect [where key = modify_key, OF modify_one_frames(1) modify_one_frames(2) d(2)
      d(1) [unfolded apply_modifies_def] m other(3)]
  obtain e1 y e2 where e: "db_ok e1" "found ?t (modify_key m) e1 = found ?t (modify_key m) d1"
    "modify_one env rid m e1 = Inr (y, e2)" "found ?t (modify_key m) d2 = found ?t (modify_key m) e2" by metis
  from modify_one_effect [OF e(1) _ e(3)] e(2) creates [OF other(1)] r have
    "or_object_version r = om_expected_version m
      \<and> (\<exists>seq at_time. found ?t (modify_key m) e2 = Some (modified_row env m seq at_time r))" by simp
  with e(4) deletes [OF other(2)] show ?thesis by simp
qed

lemma commit_deleted:
  assumes ok: "db_ok db" and run: "commit_plan env rid plan None t db = Inr (res, db')"
    and keys: "distinct (plan_keys plan)" and d: "d \<in> set (objects_to_delete plan)"
  shows "\<exists>r seq at_time. found (ce_tenant_id env) (delete_key d) db = Some r
    \<and> or_object_version r = od_expected_version d \<and> deleted_row rid d seq at_time r \<in> set (db_records db')"
proof (rule commit_plan_frames [OF ok run])
  let ?t = "ce_tenant_id env"
  have other: "delete_key d \<notin> set (map create_key (objects_to_create plan))"
    "delete_key d \<notin> set (map modify_key (objects_to_modify plan))" "distinct (map delete_key (objects_to_delete plan))"
    using keys d by (auto simp: plan_keys_def)
  fix ces d1 mes d2 des d3
  assume run3: "apply_deletes env rid plan d2 = Inr (des, d3)" "db_ok d2" and same: "same_objects d3 db'"
    and creates: "\<And>k. k \<notin> set (map create_key (objects_to_create plan)) \<Longrightarrow> found ?t k d1 = found ?t k db"
    and modifies: "\<And>k. k \<notin> set (map modify_key (objects_to_modify plan)) \<Longrightarrow> found ?t k d2 = found ?t k d1"
  from phase_effect [where key = delete_key, OF delete_one_frames(1) delete_one_frames(2) run3(2)
      run3(1) [unfolded apply_deletes_def] d other(3)]
  obtain e1 y e2 where e: "db_ok e1" "found ?t (delete_key d) e1 = found ?t (delete_key d) d2"
    "delete_one env rid d e1 = Inr (y, e2)"
    "\<And>r. r \<in> set (db_records e2) \<Longrightarrow> \<not> or_is_active r \<Longrightarrow> r \<in> set (db_records d3)" by metis
  from delete_one_effect [OF e(1,3)] obtain r seq at_time where r: "found ?t (delete_key d) e1 = Some r"
    "or_object_version r = od_expected_version d" "deleted_row rid d seq at_time r \<in> set (db_records e2)" by blast
  have "deleted_row rid d seq at_time r \<in> set (db_records db')"
    using e(4) [OF r(3)] same by (simp add: deleted_row_def same_objects_def)
  with r e(2) creates [OF other(1)] modifies [OF other(2)] show ?thesis by auto
qed

lemma commit_created:
  assumes ok: "db_ok db" and run: "commit_plan env rid plan None t db = Inr (res, db')"
    and keys: "distinct (plan_keys plan)" and c: "c \<in> set (objects_to_create plan)"
    and none: "found (ce_tenant_id env) (create_key c) db = None"
  shows "\<exists>row. found (ce_tenant_id env) (create_key c) db' = Some row \<and> or_object_version row = 1
    \<and> or_edit_properties row = oc_properties c \<and> \<not> or_deleted row"
proof (rule commit_plan_frames [OF ok run])
  let ?t = "ce_tenant_id env"
  let ?f = "\<lambda>c. create_one env rid (oc_object_type c) (py_str (oc_primary_key c)) (oc_properties c) (oc_operation_key c)"
  have other: "create_key c \<notin> set (map modify_key (objects_to_modify plan))"
    "create_key c \<notin> set (map delete_key (objects_to_delete plan))" "distinct (map create_key (objects_to_create plan))"
    using keys c by (auto simp: plan_keys_def)
  fix ces d1 mes d2 des d3
  assume run1: "apply_creates env rid plan db = Inr (ces, d1)"
    and modifies: "\<And>k. k \<notin> set (map modify_key (objects_to_modify plan)) \<Longrightarrow> found ?t k d2 = found ?t k d1"
    and deletes: "\<And>k. k \<notin> set (map delete_key (objects_to_delete plan)) \<Longrightarrow> found ?t k db' = found ?t k d2"
  have frames: "create_key x \<noteq> k \<Longrightarrow> io_keeps (keeps_key ?t k) (?f x)" "io_keeps (keeps_inactive r) (?f x)" for x k r
    by (auto intro: create_one_frames simp: create_key_def)
  from phase_effect [where key = create_key, OF frames ok run1 [unfolded apply_creates_def] c other(3)]
  obtain e1 y e2 where e: "db_ok e1" "found ?t (create_key c) e1 = found ?t (create_key c) db"
    "?f c e1 = Inr (y, e2)" "found ?t (create_key c) d1 = found ?t (create_key c) e2" by metis
  from create_one_effect [OF e(1) _ e(3)] e(2) none have
    "\<exists>row. found ?t (create_key c) e2 = Some row \<and> or_object_version row = 1
      \<and> or_edit_properties row = oc_properties c \<and> \<not> or_deleted row" by (simp add: create_key_def)
  with e(4) modifies [OF other(1)] deletes [OF other(2)] show ?thesis by simp
qed


section \<open>The evidence of a commit\<close>

text \<open>The operation keys a computation adds to the edit log on behalf of a run.\<close>

definition logs :: "string \<Rightarrow> string list \<Rightarrow> (object_db, 'a) io \<Rightarrow> bool" where
  "logs rid keys m \<longleftrightarrow> (\<forall>db x db'. m db = Inr (x, db') \<longrightarrow>
     (\<exists>es. db_edits db' = db_edits db @ es \<and> map er_idempotency_key es = keys
        \<and> (\<forall>e \<in> set es. er_action_run_id e = rid)))"

lemma logs_bind: "logs rid ks m \<Longrightarrow> (\<And>x. logs rid ks' (f x)) \<Longrightarrow> logs rid (ks @ ks') (io_bind m f)"
  unfolding logs_def io_bind_Inr by (fastforce)

lemma logs_bind_nil:
  "logs rid [] m \<Longrightarrow> (\<And>x. logs rid ks (f x)) \<Longrightarrow> logs rid ks (io_bind m f)"
  using logs_bind [of rid "[]" m ks f] by simp

lemma logs_then_nil:
  "logs rid ks m \<Longrightarrow> (\<And>x. logs rid [] (f x)) \<Longrightarrow> logs rid ks (io_bind m f)"
  using logs_bind [of rid ks m "[]" f] by simp

lemma logs_return [intro]: "logs rid [] (io_return x)"
  by (simp add: logs_def)

lemma logs_raise [intro]: "logs rid ks (io_raise e)"
  by (simp add: logs_def)

lemma logs_map: "(\<And>x. logs rid [key x] (f x)) \<Longrightarrow> logs rid (map key xs) (io_map f xs)"
proof (induction xs)
  case (Cons x xs)
  have "logs rid ([key x] @ map key xs) (io_map f (x # xs))"
    unfolding io_map.simps by (intro logs_bind logs_then_nil [OF Cons.IH] Cons.prems logs_return)
  then show ?case by simp
qed auto

lemma logs_nothing:
  "logs rid [] (new_id ids prefix)" "logs rid [] (now ids)" "logs rid [] (io_lift r)"
  "logs rid [] (create_object_link_write lw)" "logs rid [] (soft_delete_object_link_write dw)"
  "logs rid [] (update_action_run_terminal tid rid' t a b c)" "logs rid [] (outbox event)" "logs rid [] (audit_commit rid' pr)"
  "logs rid [] (next_object_change_sequence tid)"
  by (auto simp: logs_def new_id_def now_def io_lift_Inr create_object_link_write_def Let_def outbox_def
      soft_delete_object_link_write_def update_action_run_terminal_def audit_commit_def
      next_object_change_sequence_def split: if_splits prod.splits)

lemma logs_snapshot: "logs rid [] (snapshot_object_record_version ids tid i)"
  by (auto simp: logs_def snapshot_object_record_version_def io_bind_Inr new_id_def split: list.splits)

lemma logs_object_writes:
  "logs rid [] (create_object_record_write ids w)" "logs rid [] (update_object_target ids u)"
  "logs rid [] (soft_delete_object_write ids d)"
proof -
  have cas: "logs rid [] (object_cas ids t i guard change)" for t i guard change
    unfolding object_cas_def
    by (rule logs_bind_nil [OF logs_nothing(9)])
      (auto simp: logs_def Let_def io_bind_Inr split: prod.splits if_splits
        dest!: logs_snapshot [unfolded logs_def, rule_format])
  then show "logs rid [] (update_object_target ids u)" "logs rid [] (soft_delete_object_write ids d)"
    by (simp_all add: update_object_target_def soft_delete_object_write_def)
  show "logs rid [] (create_object_record_write ids w)"
    unfolding create_object_record_write_def
    by (rule logs_bind_nil [OF logs_nothing(9)])
      (auto simp: logs_def Let_def io_bind_Inr split: prod.splits if_splits
        dest!: logs_snapshot [unfolded logs_def, rule_format])
qed

lemma logs_record_edit: "logs rid [key] (record_edit env rid tid ty oid et patch previous key payload)"
  unfolding record_edit_def
  by (rule logs_bind_nil [OF logs_nothing(1)], rule logs_bind_nil [OF logs_nothing(2)])
    (auto simp: logs_def io_bind_Inr insert_object_edit_def split: if_splits)

lemma logs_if: "logs rid ks m \<Longrightarrow> logs rid ks n \<Longrightarrow> logs rid ks (if b then m else n)"
  by simp

lemma logs_create_one: "logs rid [key] (create_one env rid ty oid ps key)"
  unfolding create_one_def object_create_write_of_def
  by (intro logs_bind_nil logs_nothing logs_return logs_object_writes logs_if logs_raise
      logs_then_nil [OF logs_record_edit])

lemma logs_modify_one: "logs rid [om_operation_key m] (modify_one env rid m)"
proof -
  have "logs rid [om_operation_key m] (modify_existing env rid m r)" for r
    unfolding modify_existing_def Let_def
    by (intro logs_bind_nil logs_nothing logs_object_writes logs_if logs_raise logs_return
        logs_then_nil [OF logs_record_edit])
  then show ?thesis
    using logs_create_one unfolding logs_def modify_one_def by (fastforce split: option.splits if_splits)
qed

lemma logs_delete_one: "logs rid [od_operation_key d] (delete_one env rid d)"
proof -
  have "logs rid [od_operation_key d] (io_bind (now (ce_ids env)) (\<lambda>updated_at.
      io_bind (soft_delete_object_write (ce_ids env) (w updated_at)) (\<lambda>deleted.
      if \<not> deleted then io_raise er
      else io_bind (record_edit env rid a b c e f g (od_operation_key d) h) (\<lambda>i. io_return (k i)))))"
    for w er a b c e f g h k
    by (intro logs_bind_nil logs_nothing logs_object_writes logs_if logs_raise logs_return
        logs_then_nil [OF logs_record_edit])
  then show ?thesis
    unfolding logs_def delete_one_def by (fastforce split: option.splits)
qed

lemma logs_links:
  "logs rid [lc_operation_key lc] (link_create_one env rid lc)"
  "logs rid [ld_operation_key ld] (link_delete_one env rid ld)"
  unfolding link_create_one_def link_delete_one_def record_link_edit_def link_write_of_def
  by (intro logs_bind_nil logs_nothing logs_if logs_raise logs_return logs_then_nil [OF logs_record_edit])+

lemma logs_finish:
  "logs rid [] (finalize_run env rid' t r)" "logs rid [] (emit_events rid' edits)"
proof -
  show "logs rid [] (finalize_run env rid' t r)"
    unfolding finalize_run_def by (intro logs_bind_nil logs_nothing logs_if logs_raise logs_return)
  have "logs rid [] (io_map (\<lambda>e. outbox (changed_event rid' e)) edits)"
    by (induction edits) (auto intro!: logs_bind_nil logs_nothing logs_return)
  then show "logs rid [] (emit_events rid' edits)"
    unfolding emit_events_def by (intro logs_bind_nil logs_nothing logs_return)
qed

lemma logs_commit_plan: "logs rid (all_operation_keys plan) (commit_plan env rid plan None t)"
  unfolding commit_plan_def all_operation_keys_def apply_creates_def apply_modifies_def apply_deletes_def
    apply_link_creates_def apply_link_deletes_def Let_def option.case
  by (intro logs_bind logs_then_nil logs_map logs_create_one logs_modify_one logs_delete_one logs_links
      logs_bind_nil logs_finish logs_nothing logs_return)

text \<open>Only the last step of a commit touches the action run.\<close>

definition same_runs :: "object_db \<Rightarrow> object_db \<Rightarrow> bool" where
  "same_runs db db' \<longleftrightarrow> db_action_runs db' = db_action_runs db"

interpretation runs: state_preorder same_runs
  by unfold_locales (auto simp: same_runs_def)

lemma same_runs_basic:
  "io_keeps same_runs (new_id ids prefix)" "io_keeps same_runs (now ids)"
  "io_keeps same_runs (insert_object_edit row)" "io_keeps same_runs (create_object_link_write w)"
  "io_keeps same_runs (soft_delete_object_link_write dw)" "io_keeps same_runs (outbox event)"
  "io_keeps same_runs (audit_commit rid r)" "io_keeps same_runs (next_object_change_sequence tid)"
  "io_keeps same_runs (snapshot_object_record_version ids tid i)"
  by (auto simp: io_keeps_def same_runs_def new_id_def now_def insert_object_edit_def Let_def
      create_object_link_write_def soft_delete_object_link_write_def outbox_def audit_commit_def io_bind_Inr
      next_object_change_sequence_def snapshot_object_record_version_def split: if_splits prod.splits list.splits)

lemma same_runs_writes:
  "io_keeps same_runs (create_object_record_write ids w)" "io_keeps same_runs (update_object_target ids u)"
  "io_keeps same_runs (soft_delete_object_write ids d)"
proof -
  have cas: "io_keeps same_runs (object_cas ids t i guard change)" for t i guard change
    unfolding object_cas_def
    by (rule runs.keeps_bind [OF same_runs_basic(8)])
      (auto simp: io_keeps_def same_runs_def Let_def io_bind_Inr split: prod.splits if_splits
        dest!: same_runs_basic(9) [unfolded io_keeps_def same_runs_def, rule_format])
  then show "io_keeps same_runs (update_object_target ids u)" "io_keeps same_runs (soft_delete_object_write ids d)"
    by (simp_all add: update_object_target_def soft_delete_object_write_def)
  show "io_keeps same_runs (create_object_record_write ids w)"
    unfolding create_object_record_write_def
    by (rule runs.keeps_bind [OF same_runs_basic(8)])
      (auto simp: io_keeps_def same_runs_def Let_def io_bind_Inr split: prod.splits if_splits
        dest!: same_runs_basic(9) [unfolded io_keeps_def same_runs_def, rule_format])
qed

lemma same_runs_edits:
  "io_keeps same_runs (record_edit env rid tid ty oid et patch previous key payload)"
  "io_keeps same_runs (create_one env rid ty oid ps key)"
  "io_keeps same_runs (modify_existing env rid m r)"
  "io_keeps same_runs (link_create_one env rid lc)" "io_keeps same_runs (link_delete_one env rid ld)"
  unfolding record_edit_def create_one_def modify_existing_def object_create_write_of_def Let_def
    link_create_one_def link_delete_one_def record_link_edit_def link_write_of_def
  by (intro runs.keeps_intros same_runs_basic same_runs_writes)+

lemma same_runs_modify_delete:
  "io_keeps same_runs (modify_one env rid m)" "io_keeps same_runs (delete_one env rid d)"
proof -
  show "io_keeps same_runs (modify_one env rid m)"
    using same_runs_edits(2,3) unfolding io_keeps_def modify_one_def
    by (fastforce split: option.splits if_splits)
  have "io_keeps same_runs (io_bind (now (ce_ids env)) (\<lambda>updated_at.
      io_bind (soft_delete_object_write (ce_ids env) (w updated_at)) (\<lambda>deleted.
      if \<not> deleted then io_raise er
      else io_bind (record_edit env rid a b c e f g h i) (\<lambda>j. io_return (k j)))))" for w er a b c e f g h i k
    by (intro runs.keeps_intros same_runs_basic same_runs_writes same_runs_edits)
  then show "io_keeps same_runs (delete_one env rid d)"
    unfolding io_keeps_def delete_one_def by (fastforce split: option.splits)
qed

lemma same_runs_phases:
  "io_keeps same_runs (apply_creates env rid plan)" "io_keeps same_runs (apply_modifies env rid plan)"
  "io_keeps same_runs (apply_deletes env rid plan)" "io_keeps same_runs (apply_link_creates env rid plan)"
  "io_keeps same_runs (apply_link_deletes env rid plan)" "io_keeps same_runs (emit_events rid edits)"
  unfolding apply_creates_def apply_modifies_def apply_deletes_def apply_link_creates_def apply_link_deletes_def
    emit_events_def
  by (intro runs.keeps_intros same_runs_edits same_runs_modify_delete same_runs_basic)+

lemma io_map_length: "io_map f xs w = Inr (ys, w') \<Longrightarrow> length ys = length xs"
  by (drule io_map_Inr) (rule list_all2_lengthD [symmetric])

lemma finalize_run_moves:
  assumes "finalize_run env rid t r db = Inr ((), db')" "unique_on row_key (db_action_runs db)"
  shows "(\<exists>s. stored_status (ce_tenant_id env) rid (db_action_runs db) = Some s \<and> s \<in> set (from_statuses t))
    \<and> stored_status (ce_tenant_id env) rid (db_action_runs db') = Some (to_status t)"
proof -
  let ?cols = "[(''error'', PNone), (''result'', PDict (action_edit_result_payload r)),
      (''completed_at'', PStr (clock_text (ce_ids env) (db_ticks db)))]"
  obtain rows res where cas: "cas_status_transition (ce_tenant_id env) rid t ?cols (\<lambda>_. True) (db_action_runs db) = (rows, res)"
    by fastforce
  with assms(1) have upd: "is_updated res" "db_action_runs db' = rows"
    by (auto simp: finalize_run_def io_now_Inr io_bind_Inr update_action_run_terminal_def cas_status_update_def
        Let_def split: if_splits)
  show ?thesis
  proof (cases rule: cas_hit_or_miss [OF assms(2), of "ce_tenant_id env" rid t "\<lambda>_. True" ?cols, case_names hit miss])
    case (hit before row after)
    with cas upd have rows: "db_action_runs db' = before @ set_status t ?cols row # after" by simp
    have "unique_on row_key (db_action_runs db')"
      using assms(2) unfolding rows hit(1) unique_on_def by (simp add: set_status_def)
    from stored_status_found [OF this, of "set_status t ?cols row"] rows hit(2)
    have "stored_status (ce_tenant_id env) rid (db_action_runs db') = Some (to_status t)"
      by (simp add: set_status_def)
    moreover have "stored_status (ce_tenant_id env) rid (db_action_runs db) = row_status row"
      using stored_status_found [OF assms(2), of row] hit(1,2) by simp
    ultimately show ?thesis using status_in_dest [OF hit(3)] by auto
  next
    case miss
    with cas upd show ?thesis
      by (auto simp: is_updated_def classify_transition_miss_def split: option.splits if_splits)
  qed
qed


text \<open>A concrete commit: an order is modified and linked to a newly created customer.\<close>

definition sample_ontology :: active_ontology where
  "sample_ontology = \<lparr>ao_object_types = [(''Order'', ''ty''), (''Customer'', ''tc'')],
     ao_link_types = [\<lparr>lt_id = ''l1'', lt_api_name = ''placedBy'', lt_from_object_type_id = ''ty'',
       lt_from_api_name = ''Order'', lt_to_object_type_id = ''tc'', lt_to_api_name = ''Customer''\<rparr>],
     ao_properties = (\<lambda>_. [\<lparr>pt_api_name = ''state'', pt_edit_policy = ''edit_wins''\<rparr>])\<rparr>"

definition sample_env :: commit_env where
  "sample_env = \<lparr>ce_ids = plain_ids, ce_tenant_id = ''t'', ce_actor_user_id = ''u'', ce_ontology = Some sample_ontology\<rparr>"

definition sample_plan :: edit_plan where
  "sample_plan =
     \<lparr>objects_to_create = [\<lparr>oc_operation_key = ''k1'', oc_rule_id = ''r1'', oc_object_type = ''Customer'',
        oc_primary_key = PStr ''c1'', oc_properties = []\<rparr>],
      objects_to_modify = [\<lparr>om_operation_key = ''k2'', om_rule_id = ''r2'', om_object_type = ''Order'',
        om_object_id = ''o1'', om_expected_version = 1, om_patch = [(''state'', PStr ''paid'')],
        om_should_create_if_absent = False\<rparr>],
      objects_to_delete = [],
      links_to_create = [\<lparr>lc_operation_key = ''k3'', lc_rule_id = ''r3'', lc_link_type = ''placedBy'',
        lc_source_object_id = ''o1'', lc_target_object_id = ''c1''\<rparr>],
      links_to_delete = [], read_set_versions = [(''o1'', 1)], criteria_read_expectations = []\<rparr>"

definition sample_start :: object_db where
  "sample_start = sample_db\<lparr>db_action_runs :=
     [\<lparr>row_tenant_id = ''t'', row_id = ''run1'', row_status = Some ''received'', row_values = []\<rparr>]\<rparr>"

definition sample_transition :: status_transition where
  "sample_transition = mk_transition [''received'', ''external_pending''] ''succeeded''"

lemma sample_commit_runs:
  "\<exists>res db'. commit_plan sample_env ''run1'' sample_plan None sample_transition sample_start = Inr (res, db')"
proof -
  have "case commit_plan sample_env ''run1'' sample_plan None sample_transition sample_start of
      Inr _ \<Rightarrow> True | Inl _ \<Rightarrow> False" by code_simp
  then show ?thesis by (auto split: sum.splits)
qed

lemma sample_start_ok: "db_ok sample_start"
  using create_keeps_ok [OF empty_db_ok sample_create_runs] by (simp add: sample_start_def db_ok_def)



end
