(* ===== verification/Action_Revert.thy ===== *)
theory Action_Revert
  imports Plan_Committer
begin

text \<open>
  \<^verbatim>\<open>application/services/action_revert_mutations.py\<close> and the eligibility rules of
  \<^verbatim>\<open>action_log_revert_service.py\<close>: the inverse of each kind of committed edit, applied from the evidence
  logged with it. Shown: reverting a property edit restores exactly the edit overlay the object had
  before it, at a newer version.
\<close>

section \<open>Reading the evidence\<close>

fun revert_mapping :: "pyval \<Rightarrow> dict result" where
  "revert_mapping (PDict d) = Inr d"
| "revert_mapping _ = Inl (InvariantViolation ''Action edit is missing structured revert evidence'')"

definition revert_text :: "dict \<Rightarrow> string \<Rightarrow> string result" where
  "revert_text payload key =
     (case nonempty_text (get_val payload key) of
        None \<Rightarrow> Inl (InvariantViolation ''Action revert text evidence is invalid'')
      | Some s \<Rightarrow> Inr s)"

text \<open>\<^verbatim>\<open>isinstance(value, int)\<close>: a boolean passes, as the integer it is.\<close>

definition revert_integer :: "dict \<Rightarrow> string \<Rightarrow> int result" where
  "revert_integer payload key =
     (case get_val payload key of
        PInt n \<Rightarrow> Inr n
      | PBool b \<Rightarrow> Inr (if b then 1 else 0)
      | _ \<Rightarrow> Inl (InvariantViolation ''Action revert version evidence is invalid''))"

section \<open>Inverse edits\<close>

definition required_target :: "commit_env \<Rightarrow> edit_row \<Rightarrow> (object_db, object_row) io" where
  "required_target env edit = (\<lambda>db.
     case object_target_for_revert (ce_tenant_id env) (er_object_type_id edit) (er_object_id edit) db of
       None \<Rightarrow> Inl (ConflictDetected ''Action revert target no longer exists'')
     | Some r \<Rightarrow> Inr (r, db))"

definition dpop :: "string \<Rightarrow> dict \<Rightarrow> dict" where
  "dpop key d = filter (\<lambda>(k, v). k \<noteq> key) d"

definition restore_property :: "string \<times> pyval \<Rightarrow> dict \<Rightarrow> dict result" where
  "restore_property item edit_properties =
     rbind (revert_mapping (snd item)) (\<lambda>previous.
     Inr (if get_val previous ''wasPresent'' = PBool True
          then dput (fst item) (get_val previous ''value'') edit_properties
          else dpop (fst item) edit_properties))"

definition restore_properties :: "commit_env \<Rightarrow> edit_row \<Rightarrow> dict \<Rightarrow> (object_db, unit) io" where
  "restore_properties env edit payload =
     io_bind (required_target env edit) (\<lambda>r.
     io_bind (io_lift (rbind (revert_mapping (get_val payload ''properties'')) (\<lambda>items.
                fold_result restore_property items (or_edit_properties r)))) (\<lambda>edit_properties.
     let merged = merge_properties (properties_for_object_type env (or_object_type_id r))
                    (or_base_properties r) edit_properties in
     io_bind (now (ce_ids env)) (\<lambda>updated_at.
     io_bind (update_object_target (ce_ids env)
       \<lparr>otu_object_record_id = or_id r, otu_tenant_id = ce_tenant_id env,
        otu_expected_object_version = or_object_version r, otu_edit_properties = edit_properties,
        otu_properties = merged, otu_next_object_version = or_object_version r + 1,
        otu_updated_at = updated_at\<rparr>) (\<lambda>updated.
     if \<not> updated then io_raise (ConflictDetected ''object changed during Action revert'') else io_return ()))))"

definition delete_created_object :: "commit_env \<Rightarrow> edit_row \<Rightarrow> dict \<Rightarrow> string \<Rightarrow> (object_db, unit) io" where
  "delete_created_object env edit payload revert_run_id =
     io_bind (required_target env edit) (\<lambda>r.
     io_bind (io_lift (revert_integer payload ''committedObjectVersion'')) (\<lambda>expected.
     io_bind (now (ce_ids env)) (\<lambda>updated_at.
     io_bind (soft_delete_object_write (ce_ids env)
       \<lparr>odw_object_record_id = or_id r, odw_tenant_id = ce_tenant_id env, odw_expected_object_version = expected,
        odw_deletion_reason = ''revert:'' @ revert_run_id, odw_updated_at = updated_at\<rparr>) (\<lambda>deleted.
     if \<not> deleted then io_raise (ConflictDetected ''created object changed before Action revert'')
     else io_return ()))))"

definition restore_deleted_object :: "commit_env \<Rightarrow> edit_row \<Rightarrow> dict \<Rightarrow> (object_db, unit) io" where
  "restore_deleted_object env edit payload =
     io_bind (required_target env edit) (\<lambda>r.
     io_bind (io_lift (revert_integer payload ''committedObjectVersion'')) (\<lambda>expected.
     io_bind (now (ce_ids env)) (\<lambda>updated_at.
     io_bind (restore_object_write (ce_ids env)
       \<lparr>orw_object_record_id = or_id r, orw_tenant_id = ce_tenant_id env, orw_expected_object_version = expected,
        orw_updated_at = updated_at\<rparr>) (\<lambda>restored.
     if \<not> restored then io_raise (ConflictDetected ''deleted object changed before Action revert'')
     else io_return ()))))"

definition revert_link_write :: "commit_env \<Rightarrow> dict \<Rightarrow> (object_db, object_link_write) io" where
  "revert_link_write env payload =
     io_bind (new_id (ce_ids env) ''lnk'') (\<lambda>i.
     io_bind (io_lift (revert_text payload ''linkTypeId'')) (\<lambda>link_type_id.
     io_bind (io_lift (revert_text payload ''linkType'')) (\<lambda>link_type.
     io_bind (io_lift (revert_text payload ''fromObjectTypeId'')) (\<lambda>from_type_id.
     io_bind (io_lift (revert_text payload ''fromApiName'')) (\<lambda>from_api.
     io_bind (io_lift (revert_text payload ''fromObjectId'')) (\<lambda>from_id.
     io_bind (io_lift (revert_text payload ''toObjectTypeId'')) (\<lambda>to_type_id.
     io_bind (io_lift (revert_text payload ''toApiName'')) (\<lambda>to_api.
     io_bind (io_lift (revert_text payload ''toObjectId'')) (\<lambda>to_id.
     io_bind (now (ce_ids env)) (\<lambda>updated_at.
     io_return \<lparr>olw_link_record_id = i, olw_tenant_id = ce_tenant_id env, olw_link_type_id = link_type_id,
       olw_link_type_api_name = link_type, olw_from_object_type_id = from_type_id, olw_from_api_name = from_api,
       olw_from_object_id = from_id, olw_to_object_type_id = to_type_id, olw_to_api_name = to_api,
       olw_to_object_id = to_id, olw_updated_at = updated_at\<rparr>))))))))))"

definition reverse_link :: "commit_env \<Rightarrow> dict \<Rightarrow> string \<Rightarrow> string \<Rightarrow> (object_db, unit) io" where
  "reverse_link env payload operation revert_run_id =
     (if operation = ''create_link'' then
        io_bind (io_lift (revert_text payload ''linkTypeId'')) (\<lambda>link_type_id.
        io_bind (io_lift (revert_text payload ''fromObjectId'')) (\<lambda>from_id.
        io_bind (io_lift (revert_text payload ''toObjectId'')) (\<lambda>to_id.
        io_bind (now (ce_ids env)) (\<lambda>updated_at.
        io_bind (soft_delete_object_link_write
          \<lparr>oldw_tenant_id = ce_tenant_id env, oldw_link_type_id = link_type_id, oldw_from_object_id = from_id,
           oldw_to_object_id = to_id, oldw_deletion_reason = ''revert:'' @ revert_run_id,
           oldw_updated_at = updated_at\<rparr>) (\<lambda>deleted.
        if \<not> deleted then io_raise (ConflictDetected ''link changed before Action revert'')
        else io_return ())))))
      else io_bind (revert_link_write env payload) create_object_link_write)"

definition record_inverse_edit :: "commit_env \<Rightarrow> string \<Rightarrow> edit_row \<Rightarrow> (object_db, committed_edit) io" where
  "record_inverse_edit env revert_run_id original =
     io_bind (new_id (ce_ids env) ''edit'') (\<lambda>edit_id.
     let operation = ''revert_'' @ er_edit_type original in
     io_bind (now (ce_ids env)) (\<lambda>created_at.
     io_bind (insert_object_edit
       \<lparr>er_id = edit_id, er_tenant_id = ce_tenant_id env, er_action_run_id = revert_run_id,
        er_object_type_id = er_object_type_id original,
        er_object_type_api_name = er_object_type_api_name original, er_object_id = er_object_id original,
        er_edit_type = operation, er_patch = [(''revertOfEditId'', PStr (er_id original))],
        er_previous_values = [], er_revert_payload = None, er_actor_user_id = ce_actor_user_id env,
        er_idempotency_key = revert_run_id @ '':'' @ er_id original, er_created_at = created_at\<rparr>) (\<lambda>_.
     io_return \<lparr>ed_edit_id = edit_id, ed_object_type = er_object_type_api_name original,
       ed_object_id = er_object_id original, ed_operation = operation\<rparr>)))"

definition apply_inverse_edit :: "commit_env \<Rightarrow> string \<Rightarrow> edit_row \<Rightarrow> (object_db, committed_edit) io" where
  "apply_inverse_edit env revert_run_id edit =
     io_bind (io_lift (case er_revert_payload edit of
                None \<Rightarrow> revert_mapping PNone | Some d \<Rightarrow> revert_mapping (PDict d))) (\<lambda>payload.
     io_bind (io_lift (revert_text payload ''operation'')) (\<lambda>operation.
     io_bind (if operation = ''set_property'' then restore_properties env edit payload
              else if operation = ''create_object'' then delete_created_object env edit payload revert_run_id
              else if operation = ''delete_object'' then restore_deleted_object env edit payload
              else if operation \<in> {''create_link'', ''delete_link''}
                   then reverse_link env payload operation revert_run_id
              else io_raise (InvariantViolation ''Action edit has unsupported revert evidence'')) (\<lambda>_.
     record_inverse_edit env revert_run_id edit)))"

definition apply_inverse_edits ::
  "commit_env \<Rightarrow> string \<Rightarrow> edit_row list \<Rightarrow> (object_db, committed_edit list) io" where
  "apply_inverse_edits env revert_run_id edits = io_map (apply_inverse_edit env revert_run_id) (rev edits)"

section \<open>Eligibility\<close>

record action_log_entry =
  al_status :: string
  al_revert_allowed :: bool
  al_revert_status :: string
  al_reverted_by_run_id :: "string option"

definition policy_blocker ::
  "string \<Rightarrow> string \<Rightarrow> string \<Rightarrow> action_log_entry \<Rightarrow> edit_row list \<Rightarrow> string option" where
  "policy_blocker actor_user_id run_status run_actor entry edits =
     (if run_status \<noteq> ''succeeded'' \<or> al_status entry \<noteq> ''succeeded'' then Some ''action_run_not_succeeded''
      else if run_actor \<noteq> actor_user_id then Some ''only_original_actor_may_revert''
      else if \<not> al_revert_allowed entry then Some ''revert_not_enabled_by_action_definition''
      else if al_revert_status entry \<noteq> ''eligible'' \<or> al_reverted_by_run_id entry \<noteq> None
           then Some ''action_run_already_reverted''
      else if edits = [] then Some ''action_run_has_no_reversible_edits''
      else None)"

definition object_state_blocker :: "commit_env \<Rightarrow> edit_row \<Rightarrow> dict \<Rightarrow> object_db \<Rightarrow> string option" where
  "object_state_blocker env edit payload db =
     (let expected = (case get_val payload ''committedObjectVersion'' of
            PInt n \<Rightarrow> Some n | PBool b \<Rightarrow> Some (if b then 1 else 0) | _ \<Rightarrow> None) in
      case object_target_for_revert (ce_tenant_id env) (er_object_type_id edit) (er_object_id edit) db of
        None \<Rightarrow> Some ''affected_object_version_drifted''
      | Some row \<Rightarrow>
          if expected \<noteq> Some (or_object_version row) then Some ''affected_object_version_drifted''
          else if or_deleted row \<noteq> (get_val payload ''operation'' = PStr ''delete_object'')
               then Some ''affected_object_state_drifted''
          else None)"

definition object_link_for_revert :: "string \<Rightarrow> string \<Rightarrow> string \<Rightarrow> string \<Rightarrow> object_db \<Rightarrow> link_row option" where
  "object_link_for_revert tenant_id link_type_id from_object_id to_object_id db =
     sql_first (\<lambda>r. lr_tenant_id r = tenant_id \<and> lr_link_type_id r = link_type_id
        \<and> lr_from_object_id r = from_object_id \<and> lr_to_object_id r = to_object_id
        \<and> lr_index_version r = ''active'') (db_links db)"

definition link_state_blocker :: "commit_env \<Rightarrow> dict \<Rightarrow> object_db \<Rightarrow> string option" where
  "link_state_blocker env payload db =
     (case (nonempty_text (get_val payload ''linkTypeId''), nonempty_text (get_val payload ''fromObjectId''),
            nonempty_text (get_val payload ''toObjectId'')) of
        (Some lt, Some f, Some t) \<Rightarrow>
          (let is_active = (case object_link_for_revert (ce_tenant_id env) lt f t db of
                 None \<Rightarrow> False | Some l \<Rightarrow> lr_is_active l \<and> \<not> lr_deleted l) in
           case get_val payload ''expectedActive'' of
             PBool expected_active \<Rightarrow>
               if is_active = expected_active then None else Some ''affected_link_state_drifted''
           | _ \<Rightarrow> Some ''affected_link_state_drifted'')
      | _ \<Rightarrow> Some ''link_revert_evidence_invalid'')"

text \<open>\<^verbatim>\<open>ORDER BY created_at DESC, id DESC LIMIT 1\<close>.\<close>

definition latest_object_edit :: "string \<Rightarrow> string \<Rightarrow> string \<Rightarrow> object_db \<Rightarrow> edit_row option" where
  "latest_object_edit tenant_id object_type_id object_id db =
     fold (\<lambda>e best. case best of
             None \<Rightarrow> Some e
           | Some b \<Rightarrow> if (er_created_at b, er_id b) < (er_created_at e, er_id e) then Some e else Some b)
       (filter (\<lambda>e. er_tenant_id e = tenant_id \<and> er_object_type_id e = object_type_id
          \<and> er_object_id e = object_id) (db_edits db)) None"

definition edit_blocker ::
  "commit_env \<Rightarrow> string \<Rightarrow> edit_row \<Rightarrow> object_db \<Rightarrow> string option" where
  "edit_blocker env run_id edit db =
     (let is_latest = (case latest_object_edit (ce_tenant_id env) (er_object_type_id edit) (er_object_id edit) db of
            None \<Rightarrow> False | Some latest \<Rightarrow> er_action_run_id latest = run_id) in
      if \<not> is_latest then Some ''later_edit_touched_affected_object''
      else case er_revert_payload edit of
             None \<Rightarrow> Some ''revert_evidence_missing''
           | Some payload \<Rightarrow>
               (let operation = get_val payload ''operation'' in
                if operation \<in> {PStr ''set_property'', PStr ''create_object'', PStr ''delete_object''}
                then object_state_blocker env edit payload db
                else if operation \<in> {PStr ''create_link'', PStr ''delete_link''}
                     then link_state_blocker env payload db
                else Some ''revert_operation_unsupported''))"

fun first_edit_blocker :: "commit_env \<Rightarrow> string \<Rightarrow> edit_row list \<Rightarrow> object_db \<Rightarrow> string option" where
  "first_edit_blocker env run_id [] db = None"
| "first_edit_blocker env run_id (edit # edits) db =
     (case edit_blocker env run_id edit db of Some reason \<Rightarrow> Some reason | None \<Rightarrow> first_edit_blocker env run_id edits db)"

text \<open>The reason why a run may not be reverted; \<open>None\<close> is \<^verbatim>\<open>isEligible\<close>.\<close>

definition revert_eligibility_reason ::
  "commit_env \<Rightarrow> string \<Rightarrow> string \<Rightarrow> string \<Rightarrow> action_log_entry \<Rightarrow> edit_row list \<Rightarrow> object_db \<Rightarrow> string option" where
  "revert_eligibility_reason env run_id run_status run_actor entry edits db =
     (case policy_blocker (ce_actor_user_id env) run_status run_actor entry edits of
        Some reason \<Rightarrow> Some reason
      | None \<Rightarrow> first_edit_blocker env run_id edits db)"

section \<open>Undoing a property edit\<close>

lemma map_of_dpop: "map_of (dpop k d) = (map_of d)(k := None)"
  unfolding dpop_def by (induction d) (auto simp: fun_eq_iff)

definition property_evidence :: "dict \<Rightarrow> string \<Rightarrow> string \<times> pyval" where
  "property_evidence before key =
     (key, PDict [(''wasPresent'', PBool (has_key before key)), (''value'', get_val before key)])"

lemma restore_property_evidence:
  obtains d where "restore_property (property_evidence before key) current = Inr d"
    "map_of d = (map_of current)(key := map_of before key)"
proof (cases "map_of before key")
  case None
  then show thesis
    using that by (simp add: restore_property_def property_evidence_def has_key_map_of map_of_dpop get_or_def)
next
  case (Some v)
  then show thesis
    using that by (simp add: restore_property_def property_evidence_def has_key_map_of get_or_def)
qed

lemma restore_evidence_fold:
  obtains d where "fold_result restore_property (map (property_evidence before) ks) current = Inr d"
    "map_of d = (\<lambda>k. if k \<in> set ks then map_of before k else map_of current k)"
proof (induction ks arbitrary: current thesis)
  case Nil
  show ?case by (rule Nil) simp_all
next
  case (Cons k ks)
  obtain d1 where d1: "restore_property (property_evidence before k) current = Inr d1"
    "map_of d1 = (map_of current)(k := map_of before k)" by (rule restore_property_evidence)
  obtain d where "fold_result restore_property (map (property_evidence before) ks) d1 = Inr d"
    "map_of d = (\<lambda>x. if x \<in> set ks then map_of before x else map_of d1 x)" by (rule Cons.IH)
  with d1 show ?case by (intro Cons.prems) (auto simp: fun_eq_iff)
qed

lemma merge_properties_cong:
  assumes "map_of edits = map_of edits'"
  shows "merge_properties props base edits = merge_properties props base edits'"
proof -
  have "merge_property base edits = merge_property base edits'"
    by (intro ext) (simp only: merge_property_def get_or_def assms)
  then show ?thesis by (simp add: merge_properties_def)
qed

lemma modify_existing_logs:
  assumes "modify_existing env rid m r db = Inr (e, db')"
  obtains edit where "last (db_edits db') = edit" "er_object_type_id edit = or_object_type_id r"
    "er_object_id edit = om_object_id m" "er_revert_payload edit = Some (property_revert_payload r (om_patch m))"
  using assms
  by (auto simp: modify_existing_def Let_def io_now_Inr io_bind_Inr record_edit_def insert_object_edit_def
      io_return_def split: if_splits)

lemma property_payload_fields:
  "get_val (property_revert_payload r patch) ''operation'' = PStr ''set_property''"
  "get_val (property_revert_payload r patch) ''properties'' =
     PDict (map (property_evidence (or_edit_properties r)) (dkeys patch))"
  by (simp_all add: property_revert_payload_def property_evidence_def get_or_def fun_eq_iff)

lemma record_inverse_edit_cases:
  "record_inverse_edit env rid edit db = Inl IntegrityError
   \<or> (\<exists>e db'. record_inverse_edit env rid edit db = Inr (e, db') \<and> same_objects db db')"
  by (auto simp: record_inverse_edit_def io_bind_def new_id_def now_def insert_object_edit_def io_return_def
      same_objects_def Let_def)

lemma restore_properties_run:
  assumes ok: "db_ok db" and r: "r \<in> set (db_records db)" "or_tenant_id r = ce_tenant_id env"
    and found: "object_target_for_revert (ce_tenant_id env) (er_object_type_id edit) (er_object_id edit) db = Some r"
    and items: "revert_mapping (get_val payload ''properties'') = Inr items"
      "fold_result restore_property items (or_edit_properties r) = Inr d"
  obtains before after q at_time db' where "restore_properties env edit payload db = Inr ((), db')"
    "db_records db = before @ r # after"
    "db_records db' = before @ r\<lparr>or_edit_properties := d,
        or_properties := merge_properties (properties_for_object_type env (or_object_type_id r)) (or_base_properties r) d,
        or_object_version := or_object_version r + 1, or_object_change_sequence := Some q,
        or_updated_at := at_time\<rparr> # after"
proof -
  let ?db = "db\<lparr>db_ticks := db_ticks db + 1\<rparr>"
  let ?t = "clock_text (ce_ids env) (db_ticks db)"
  let ?p = "merge_properties (properties_for_object_type env (or_object_type_id r)) (or_base_properties r) d"
  let ?w = "\<lparr>otu_object_record_id = or_id r, otu_tenant_id = ce_tenant_id env,
      otu_expected_object_version = or_object_version r, otu_edit_properties = d, otu_properties = ?p,
      otu_next_object_version = or_object_version r + 1, otu_updated_at = ?t\<rparr>"
  have run: "restore_properties env edit payload db =
      io_bind (update_object_target (ce_ids env) ?w) (\<lambda>updated. if \<not> updated
        then io_raise (ConflictDetected ''object changed during Action revert'') else io_return ()) ?db"
    using found items
    by (simp add: restore_properties_def required_target_def io_bind_def io_lift_def now_def Let_def)
  have unique: "unique_on or_id (db_records ?db)" using db_ok_unique_id [OF ok] by simp
  show thesis
  proof (cases rule: update_writer.cas_cases [where tenant_id = "ce_tenant_id env" and record_id = "or_id r"
        and expected = "or_object_version r" and ids = "ce_ids env" and edit_properties = d
        and properties = ?p and updated_at = ?t, OF unique, case_names hit miss])
    case (hit before row after)
    then have "row = r" using unique_on_inj [OF db_ok_unique_id [OF ok] _ r(1), of row] by simp
    with hit show thesis
      by (intro that [of _ before after])
        (auto simp: run io_bind_def io_return_def update_object_target_eq)
  next
    case miss
    with r show thesis by auto
  qed
qed

lemma object_target_found:
  assumes "db_ok db" "x \<in> set (db_records db)" "or_index_version x = ''active''"
  shows "object_target_for_revert (or_tenant_id x) (or_object_type_id x) (or_object_id x) db = Some x"
  unfolding object_target_for_revert_def
  by (rule sql_first_unique [OF db_ok_unique_identity [OF assms(1)], where k = "object_identity x"])
    (use assms in auto)

lemma restored_overlay:
  assumes "map_of d = (\<lambda>k. if k \<in> set (dkeys patch) then map_of before k else map_of (dupdate before patch) k)"
  shows "map_of d = map_of before"
  unfolding assms by (auto simp: fun_eq_iff dkeys_def rev_image_eqI dest!: map_of_SomeD split: option.split)

lemma restore_modified:
  assumes ok: "db_ok db1" and at: "x \<in> set (db_records db1)" "x = modified_row env m q at1 r"
    and r: "or_tenant_id r = ce_tenant_id env" "or_object_id r = om_object_id m"
      "or_index_version r = ''active''" "or_object_version r = om_expected_version m"
    and edit: "er_object_type_id edit = or_object_type_id r" "er_object_id edit = om_object_id m"
  obtains db2 r2 where
    "restore_properties env edit (property_revert_payload r (om_patch m)) db1 = Inr ((), db2)"
    "object_target_for_revert (ce_tenant_id env) (or_object_type_id r) (om_object_id m) db2 = Some r2"
    "map_of (or_edit_properties r2) = map_of (or_edit_properties r)"
    "or_properties r2 = merge_properties (properties_for_object_type env (or_object_type_id r))
       (or_base_properties r) (or_edit_properties r)"
    "or_base_properties r2 = or_base_properties r" "or_object_version r2 = or_object_version r + 2"
proof -
  have x: "or_tenant_id x = ce_tenant_id env" "or_object_type_id x = or_object_type_id r"
    "or_object_id x = om_object_id m" "or_index_version x = ''active''" "or_base_properties x = or_base_properties r"
    "or_object_version x = or_object_version r + 1"
    "or_edit_properties x = dupdate (or_edit_properties r) (om_patch m)"
    using r by (simp_all add: at(2) modified_row_def Let_def)
  have target: "object_target_for_revert (ce_tenant_id env) (or_object_type_id r) (om_object_id m) db1 = Some x"
    using object_target_found [OF ok at(1)] x by simp
  obtain d where d: "fold_result restore_property
      (map (property_evidence (or_edit_properties r)) (dkeys (om_patch m))) (or_edit_properties x) = Inr d"
    "map_of d = (\<lambda>k. if k \<in> set (dkeys (om_patch m)) then map_of (or_edit_properties r) k
                     else map_of (or_edit_properties x) k)"
    by (rule restore_evidence_fold)
  have overlay: "map_of d = map_of (or_edit_properties r)" using d(2) unfolding x by (rule restored_overlay)
  have items: "revert_mapping (get_val (property_revert_payload r (om_patch m)) ''properties'') =
      Inr (map (property_evidence (or_edit_properties r)) (dkeys (om_patch m)))"
    by (simp only: property_payload_fields revert_mapping.simps)
  obtain before after q2 at2 db2 where m2:
    "restore_properties env edit (property_revert_payload r (om_patch m)) db1 = Inr ((), db2)"
    "db_records db1 = before @ x # after" "db_records db2 = before @ x\<lparr>or_edit_properties := d,
        or_properties := merge_properties (properties_for_object_type env (or_object_type_id x)) (or_base_properties x) d,
        or_object_version := or_object_version x + 1, or_object_change_sequence := Some q2,
        or_updated_at := at2\<rparr> # after"
    by (rule restore_properties_run [OF ok at(1) x(1) target [folded edit] items d(1)])
  have "x \<notin> set before" using db_ok_unique_id [OF ok] by (auto simp: m2(2) unique_on_def)
  from sql_first_hit [OF target [unfolded object_target_for_revert_def m2(2)] this] x
  have "object_target_for_revert (ce_tenant_id env) (or_object_type_id r) (om_object_id m) db2 =
      Some (x\<lparr>or_edit_properties := d,
        or_properties := merge_properties (properties_for_object_type env (or_object_type_id x)) (or_base_properties x) d,
        or_object_version := or_object_version x + 1, or_object_change_sequence := Some q2, or_updated_at := at2\<rparr>)"
    by (simp add: object_target_for_revert_def m2(3))
  from that [OF m2(1) this] x show thesis by (simp add: overlay merge_properties_cong [OF overlay])
qed

text \<open>C4 (committed property edits revert exactly). Take any object of the active index and any modify
  operation of a plan that the committer applies to it. Applying the inverse of the edit it logged can
  fail only on an identifier that is already taken; otherwise the object has, property by property, the
  edit overlay it had before the modify, its visible properties are the merge of the source values with
  that overlay, its source values are untouched, and its version has moved on by two: a revert is a new
  version and never rewinds history.\<close>

theorem revert_restores_property_overlay:
  assumes ok: "db_ok db"
    and found: "object_record (ce_tenant_id env) (om_object_type m) (om_object_id m) db = Some r"
      "or_index_version r = ''active''"
    and run: "modify_one env run_id m db = Inr (e, db1)"
  shows "case apply_inverse_edit env revert_run_id (last (db_edits db1)) db1 of
      Inl err \<Rightarrow> err = IntegrityError
    | Inr (undo, db2) \<Rightarrow> \<exists>r2.
        object_target_for_revert (ce_tenant_id env) (or_object_type_id r) (om_object_id m) db2 = Some r2
        \<and> map_of (or_edit_properties r2) = map_of (or_edit_properties r)
        \<and> or_properties r2 = merge_properties (properties_for_object_type env (or_object_type_id r))
             (or_base_properties r) (or_edit_properties r)
        \<and> or_base_properties r2 = or_base_properties r \<and> or_object_version r2 = or_object_version r + 2"
proof -
  have r: "r \<in> set (db_records db)" "or_tenant_id r = ce_tenant_id env" "or_object_id r = om_object_id m"
    using object_record_found [OF found(1)] by simp_all
  from run found have run': "modify_existing env run_id m r db = Inr (e, db1)" by (simp add: modify_one_def)
  obtain q at1 where m1: "or_object_version r = om_expected_version m"
    "modified_row env m q at1 r \<in> set (db_records db1)" "db_ok db1"
    using modify_existing_run [OF ok r(1,2) run'] by (metis in_set_conv_decomp)
  obtain edit where edit: "last (db_edits db1) = edit" "er_object_type_id edit = or_object_type_id r"
    "er_object_id edit = om_object_id m" "er_revert_payload edit = Some (property_revert_payload r (om_patch m))"
    by (rule modify_existing_logs [OF run'])
  obtain db2 r2 where undo: "restore_properties env edit (property_revert_payload r (om_patch m)) db1 = Inr ((), db2)"
    "object_target_for_revert (ce_tenant_id env) (or_object_type_id r) (om_object_id m) db2 = Some r2"
    "map_of (or_edit_properties r2) = map_of (or_edit_properties r)"
    "or_properties r2 = merge_properties (properties_for_object_type env (or_object_type_id r))
       (or_base_properties r) (or_edit_properties r)"
    "or_base_properties r2 = or_base_properties r" "or_object_version r2 = or_object_version r + 2"
    by (rule restore_modified [OF m1(3,2) refl r(2,3) found(2) m1(1) edit(2,3)])
  have "apply_inverse_edit env revert_run_id edit db1 = record_inverse_edit env revert_run_id edit db2"
    using undo(1) edit(4)
    by (simp add: apply_inverse_edit_def io_bind_def io_lift_def revert_text_def property_payload_fields)
  with record_inverse_edit_cases [of env revert_run_id edit db2] undo(2-) show ?thesis
    by (auto simp: edit(1) object_target_for_revert_def same_objects_def)
qed

theorem revert_restores_property_overlay_witness:
  "\<exists>r e db1. object_record ''t'' ''Order'' ''o1'' sample_start = Some r
     \<and> modify_one sample_env ''run1'' (hd (objects_to_modify sample_plan)) sample_start = Inr (e, db1)
     \<and> (case apply_inverse_edit sample_env ''run2'' (last (db_edits db1)) db1 of
          Inl err \<Rightarrow> err = IntegrityError
        | Inr (undo, db2) \<Rightarrow> \<exists>r2. object_target_for_revert ''t'' (or_object_type_id r) ''o1'' db2 = Some r2
            \<and> or_object_version r2 = or_object_version r + 2)"
proof -
  let ?m = "hd (objects_to_modify sample_plan)"
  have "case object_record ''t'' ''Order'' ''o1'' sample_start of
      Some r \<Rightarrow> or_index_version r = ''active'' | None \<Rightarrow> False" by code_simp
  then obtain r where r: "object_record ''t'' ''Order'' ''o1'' sample_start = Some r" "or_index_version r = ''active''"
    by (auto split: option.splits)
  have "case modify_one sample_env ''run1'' ?m sample_start of Inr _ \<Rightarrow> True | Inl _ \<Rightarrow> False" by code_simp
  then obtain e db1 where run: "modify_one sample_env ''run1'' ?m sample_start = Inr (e, db1)"
    by (auto split: sum.splits)
  have m: "ce_tenant_id sample_env = ''t''" "om_object_type ?m = ''Order''" "om_object_id ?m = ''o1''"
    by (simp_all add: sample_env_def sample_plan_def)
  have "object_record (ce_tenant_id sample_env) (om_object_type ?m) (om_object_id ?m) sample_start = Some r"
    using r(1) by (simp only: m)
  from revert_restores_property_overlay [OF sample_start_ok this r(2) run, of "''run2''"]
  show ?thesis using r(1) run unfolding m
    by (intro exI [of _ r] exI [of _ e] exI [of _ db1] conjI) (auto split: sum.splits prod.splits)
qed

section \<open>A link that existed before the action\<close>

text \<open>The evidence of a \<open>create_link\<close> edit does not say whether the link was already active, so the
  upsert of an existing link is undone by deleting it: after run 1 created the link, run 2 asked for it
  again and run 2 was reverted, the link of run 1 is gone.\<close>

definition active_link :: "object_db \<Rightarrow> bool" where
  "active_link db = (case object_link_for_revert ''t'' ''l1'' ''o1'' ''c1'' db of
     None \<Rightarrow> False | Some l \<Rightarrow> lr_is_active l \<and> \<not> lr_deleted l)"

definition sample_link :: link_create where
  "sample_link = hd (links_to_create sample_plan)"

definition relink_and_revert :: "object_db \<Rightarrow> (bool \<times> bool \<times> bool) result" where
  "relink_and_revert db =
     rbind (link_create_one sample_env ''run1'' sample_link db) (\<lambda>(_, db1).
     rbind (link_create_one sample_env ''run2'' sample_link db1) (\<lambda>(_, db2).
     rbind (apply_inverse_edit sample_env ''run3'' (last (db_edits db2)) db2) (\<lambda>(_, db3).
     Inr (active_link db1, active_link db2, active_link db3))))"

lemma reverting_a_repeated_link_removes_it: "relink_and_revert sample_start = Inr (True, True, False)"
  by code_simp

end
