(* ===== verification/Scalars.thy ===== *)
theory Scalars
  imports Prelude
begin

text \<open>
  \<^verbatim>\<open>domain/scalar_values.py\<close> and \<^verbatim>\<open>domain/json_values.py\<close>: the scalar grammars of the ontology runtime
  (numbers, 32-bit integers, decimals, calendar dates, timestamps with an offset) and the bound on JSON
  documents. The parts of \<^verbatim>\<open>datetime\<close>, \<^verbatim>\<open>decimal\<close> and \<^verbatim>\<open>float\<close> the module calls are written out: the
  proleptic Gregorian calendar by ordinal days, \<^verbatim>\<open>fromisoformat\<close> on the accepted shape, rounding to the
  nearest double, and the exponent limits of an exact \<^verbatim>\<open>Decimal\<close>.
\<close>

section \<open>Number texts\<close>

definition split_sign :: "string \<Rightarrow> bool \<times> string" where
  "split_sign s = (case s of
       [] \<Rightarrow> (False, [])
     | c # r \<Rightarrow> if c = CHR ''-'' then (True, r) else if c = CHR ''+'' then (False, r) else (False, s))"

definition all_digits :: "string \<Rightarrow> bool" where
  "all_digits s = (s \<noteq> [] \<and> list_all is_digit s)"

definition signed :: "bool \<Rightarrow> int \<Rightarrow> int" where
  "signed neg n = (if neg then - n else n)"

text \<open>The integer a run of digits denotes.\<close>

definition read_digits :: "string \<Rightarrow> int" where
  "read_digits s = foldl (\<lambda>a c. a * 10 + int (digit_value c)) 0 s"

text \<open>The number read by \<^verbatim>\<open>_INTEGER_PATTERN\<close>, with the digits it is written with.\<close>

definition integer_text :: "string \<Rightarrow> (int \<times> nat) option" where
  "integer_text s = (case split_sign s of (neg, ds) \<Rightarrow>
     if all_digits ds then Some (signed neg (read_digits ds), length ds) else None)"

definition exponent_text :: "string \<Rightarrow> int option" where
  "exponent_text s = (case s of
       [] \<Rightarrow> Some 0
     | c # r \<Rightarrow> if c = CHR ''e'' \<or> c = CHR ''E''
                then map_option fst (integer_text r) else None)"

text \<open>\<^verbatim>\<open>_DECIMAL_NUMBER_PATTERN\<close>: the number \<open>c * 10 ^ x\<close> the text denotes.\<close>

definition decimal_text :: "string \<Rightarrow> sci option" where
  "decimal_text s = (case split_sign s of (neg, body) \<Rightarrow>
     let whole = takeWhile is_digit body; rest = dropWhile is_digit body;
         dotted = (case rest of c # r \<Rightarrow> c = CHR ''.'' | [] \<Rightarrow> False);
         frac = (if dotted then takeWhile is_digit (tl rest) else []);
         tail = (if dotted then dropWhile is_digit (tl rest) else rest) in
     if whole = [] \<and> frac = [] then None
     else map_option (\<lambda>x. (signed neg (read_digits (whole @ frac)), x - int (length frac))) (exponent_text tail))"

section \<open>Rounding to a double\<close>

function bit_length :: "int \<Rightarrow> int" where
  "bit_length n = (if n \<le> 0 then 0 else 1 + bit_length (n div 2))"
  by pat_completeness auto
termination by (relation "measure nat") auto

declare bit_length.simps [simp del]

definition round_half_even :: "int \<Rightarrow> int \<Rightarrow> int" where
  "round_half_even p q = (let k = p div q; r = p mod q in
     if 2 * r < q then k else if q < 2 * r then k + 1 else if even k then k else k + 1)"

text \<open>The scale \<open>p / (q * 2 ^ e)\<close> as numerator and denominator.\<close>

definition scaled :: "int \<Rightarrow> int \<Rightarrow> int \<Rightarrow> int \<times> int" where
  "scaled p q e = (if 0 \<le> e then (p, q * 2 ^ nat e) else (p * 2 ^ nat (- e), q))"

definition floor_log2 :: "int \<Rightarrow> int \<Rightarrow> int" where
  "floor_log2 p q = (let l = bit_length p - bit_length q; (a, b) = scaled p q l in
     if b \<le> a then l else l - 1)"

text \<open>The double nearest to \<open>n / q\<close> as \<open>m * 2 ^ e\<close> with \<open>m\<close> of at most 53 bits, ties to even;
  \<open>None\<close> beyond the largest double.\<close>

definition nearest_double :: "int \<Rightarrow> int \<Rightarrow> sci option" where
  "nearest_double n q = (if n = 0 then Some (0, 0) else
     let p = abs n; e = max (floor_log2 p q - 52) (- 1074); (a, b) = scaled p q e;
         m = round_half_even a b in
     if m * 2 ^ nat (e + 1074) < 2 ^ (1024 + 1074) then Some (signed (n < 0) m, e) else None)"

definition decimal_double :: "sci \<Rightarrow> sci option" where
  "decimal_double d = (if 0 \<le> snd d then nearest_double (fst d * 10 ^ nat (snd d)) 1
     else nearest_double (fst d) (10 ^ nat (- snd d)))"

section \<open>Numbers\<close>

fun is_finite_number :: "pyval \<Rightarrow> bool" where
  "is_finite_number (PInt _) = True"
| "is_finite_number (PFloat (Finite _ _ _ _)) = True"
| "is_finite_number _ = False"

fun finite_number_value :: "pyval \<Rightarrow> sci option" where
  "finite_number_value (PInt n) = nearest_double n 1"
| "finite_number_value (PFloat (Finite m e _ _)) = Some (m, e)"
| "finite_number_value (PStr s) = Option.bind (decimal_text s) decimal_double"
| "finite_number_value _ = None"

definition integer_min_value :: int where
  "integer_min_value = - (2 ^ 31)"

definition integer_max_value :: int where
  "integer_max_value = 2 ^ 31 - 1"

definition long_min_value :: int where
  "long_min_value = - (2 ^ 53 - 1)"

definition long_max_value :: int where
  "long_max_value = 2 ^ 53 - 1"

text \<open>\<^verbatim>\<open>int(text)\<close> refuses more than 4300 digits, leading zeros included.\<close>

definition parsed_integer :: "pyval \<Rightarrow> int option" where
  "parsed_integer v = (case v of
       PInt n \<Rightarrow> Some n
     | PStr s \<Rightarrow> (case integer_text s of None \<Rightarrow> None | Some (n, k) \<Rightarrow> if k \<le> 4300 then Some n else None)
     | _ \<Rightarrow> None)"

definition integer_value :: "pyval \<Rightarrow> int option" where
  "integer_value v = (case parsed_integer v of
       None \<Rightarrow> None
     | Some n \<Rightarrow> if integer_min_value \<le> n \<and> n \<le> integer_max_value then Some n else None)"

text \<open>An exact \<^verbatim>\<open>Decimal\<close>: the exponent limits of the C implementation on 64-bit platforms; a text
  outside them raises \<^verbatim>\<open>InvalidOperation\<close>.\<close>

definition exact_decimal :: "sci \<Rightarrow> bool" where
  "exact_decimal d = (- 1999999999999999997 \<le> snd d
     \<and> snd d + (if fst d = 0 then 0 else int (length (show_nat (nat (abs (fst d)))) - 1)) \<le> 999999999999999999)"

definition decimal_value :: "pyval \<Rightarrow> sci option" where
  "decimal_value v = (case v of
       PStr s \<Rightarrow> (case decimal_text s of None \<Rightarrow> None | Some d \<Rightarrow> if exact_decimal d then Some d else None)
     | _ \<Rightarrow> None)"

definition is_finite_decimal :: "pyval \<Rightarrow> bool" where
  "is_finite_decimal v = (decimal_value v \<noteq> None)"

section \<open>The calendar\<close>

definition is_leap :: "int \<Rightarrow> bool" where
  "is_leap y = (4 dvd y \<and> (\<not> 100 dvd y \<or> 400 dvd y))"

definition month_length :: "bool \<Rightarrow> int \<Rightarrow> int" where
  "month_length leap m = (if m = 2 then (if leap then 29 else 28) else if m \<in> {4, 6, 9, 11} then 30 else 31)"

definition month_start :: "bool \<Rightarrow> int \<Rightarrow> int" where
  "month_start leap m = [0, 0, 31, 59, 90, 120, 151, 181, 212, 243, 273, 304, 334] ! nat m
     + (if 2 < m \<and> leap then 1 else 0)"

definition days_in_month :: "int \<Rightarrow> int \<Rightarrow> int" where
  "days_in_month y m = month_length (is_leap y) m"

definition days_before_month :: "int \<Rightarrow> int \<Rightarrow> int" where
  "days_before_month y m = month_start (is_leap y) m"

definition days_before_year :: "int \<Rightarrow> int" where
  "days_before_year y = (let n = y - 1 in n * 365 + n div 4 - n div 100 + n div 400)"

definition ymd_to_ordinal :: "int \<times> int \<times> int \<Rightarrow> int" where
  "ymd_to_ordinal ymd = (case ymd of (y, m, d) \<Rightarrow> days_before_year y + days_before_month y m + d)"

definition month_of :: "bool \<Rightarrow> int \<Rightarrow> int" where
  "month_of leap n = (let m = (n + 50) div 32 in if n < month_start leap m then m - 1 else m)"

definition ordinal_to_ymd :: "int \<Rightarrow> int \<times> int \<times> int" where
  "ordinal_to_ymd ordinal =
     (let n = ordinal - 1; n400 = n div 146097; n = n mod 146097;
          n100 = n div 36524; n = n mod 36524; n4 = n div 1461; n = n mod 1461;
          n1 = n div 365; n = n mod 365; y = n400 * 400 + 1 + n100 * 100 + n4 * 4 + n1 in
      if n1 = 4 \<or> n100 = 4 then (y - 1, 12, 31)
      else (let m = month_of (is_leap y) n in (y, m, n - days_before_month y m + 1)))"

definition valid_date :: "int \<times> int \<times> int \<Rightarrow> bool" where
  "valid_date ymd = (case ymd of (y, m, d) \<Rightarrow>
     1 \<le> y \<and> y \<le> 9999 \<and> 1 \<le> m \<and> m \<le> 12 \<and> 1 \<le> d \<and> d \<le> days_in_month y m)"

section \<open>Date and timestamp texts\<close>

definition take_digits :: "nat \<Rightarrow> string \<Rightarrow> (int \<times> string) option" where
  "take_digits n s = (if n \<le> length s \<and> list_all is_digit (take n s)
     then Some (read_digits (take n s), drop n s) else None)"

definition take_char :: "char list \<Rightarrow> string \<Rightarrow> string option" where
  "take_char cs s = (case s of [] \<Rightarrow> None | c # r \<Rightarrow> if c \<in> set cs then Some r else None)"

definition take_date :: "string \<Rightarrow> ((int \<times> int \<times> int) \<times> string) option" where
  "take_date s =
     Option.bind (take_digits 4 s) (\<lambda>(y, s). Option.bind (take_char ''-'' s) (\<lambda>s.
     Option.bind (take_digits 2 s) (\<lambda>(m, s). Option.bind (take_char ''-'' s) (\<lambda>s.
     Option.bind (take_digits 2 s) (\<lambda>(d, s). Some ((y, m, d), s))))))"

definition take_clock :: "string \<Rightarrow> ((int \<times> int \<times> int) \<times> string) option" where
  "take_clock s =
     Option.bind (take_digits 2 s) (\<lambda>(h, s). Option.bind (take_char '':'' s) (\<lambda>s.
     Option.bind (take_digits 2 s) (\<lambda>(m, s). Option.bind (take_char '':'' s) (\<lambda>s.
     Option.bind (take_digits 2 s) (\<lambda>(sec, s). Some ((h, m, sec), s))))))"

definition take_fraction :: "string \<Rightarrow> (int \<times> string) option" where
  "take_fraction s = (case take_char ''.'' s of
       None \<Rightarrow> Some (0, s)
     | Some r \<Rightarrow> let ds = takeWhile is_digit r in
         if 1 \<le> length ds \<and> length ds \<le> 6
         then Some (read_digits ds * 10 ^ (6 - length ds), dropWhile is_digit r) else None)"

definition take_offset :: "string \<Rightarrow> int option" where
  "take_offset s = (if s = ''Z'' then Some 0 else
     case s of
       [] \<Rightarrow> None
     | c # r \<Rightarrow> if c = CHR ''+'' \<or> c = CHR ''-'' then
         Option.bind (take_digits 2 r) (\<lambda>(h, r). Option.bind (take_char '':'' r) (\<lambda>r.
         Option.bind (take_digits 2 r) (\<lambda>(m, r).
         if r = [] then Some (signed (c = CHR ''-'') (h * 60 + m)) else None)))
       else None)"

record aware_datetime =
  dt_date :: "int \<times> int \<times> int"
  dt_clock :: "int \<times> int \<times> int"
  dt_microsecond :: int
  dt_offset :: int

definition valid_clock :: "int \<times> int \<times> int \<Rightarrow> bool" where
  "valid_clock hms = (case hms of (h, m, s) \<Rightarrow> h < 24 \<and> m < 60 \<and> s < 60)"

definition valid_datetime :: "aware_datetime \<Rightarrow> bool" where
  "valid_datetime dt = (valid_date (dt_date dt) \<and> valid_clock (dt_clock dt) \<and> abs (dt_offset dt) < 1440)"

definition parse_aware_timestamp :: "pyval \<Rightarrow> aware_datetime option" where
  "parse_aware_timestamp v = (case v of
       PStr s \<Rightarrow>
         Option.bind (take_date s) (\<lambda>(ymd, s). Option.bind (take_char ''Tt'' s) (\<lambda>s.
         Option.bind (take_clock s) (\<lambda>(hms, s). Option.bind (take_fraction s) (\<lambda>(us, s).
         Option.bind (take_offset s) (\<lambda>off.
         let dt = \<lparr>dt_date = ymd, dt_clock = hms, dt_microsecond = us, dt_offset = off\<rparr> in
         if valid_datetime dt then Some dt else None)))))
     | _ \<Rightarrow> None)"

definition is_iso_date :: "pyval \<Rightarrow> bool" where
  "is_iso_date v = (case v of
       PStr s \<Rightarrow> (case take_date s of Some (ymd, []) \<Rightarrow> valid_date ymd | _ \<Rightarrow> False)
     | _ \<Rightarrow> False)"

definition is_iso_timestamp :: "pyval \<Rightarrow> bool" where
  "is_iso_timestamp v = (parse_aware_timestamp v \<noteq> None)"

section \<open>Timestamps as microseconds\<close>

text \<open>Microseconds since the start of year 1 in UTC, which orders aware datetimes.\<close>

definition clock_seconds :: "int \<times> int \<times> int \<Rightarrow> int" where
  "clock_seconds hms = (case hms of (h, m, s) \<Rightarrow> h * 3600 + m * 60 + s)"

definition instant :: "aware_datetime \<Rightarrow> int" where
  "instant dt = ((ymd_to_ordinal (dt_date dt) - 1) * 86400 + clock_seconds (dt_clock dt)
     - dt_offset dt * 60) * 1000000 + dt_microsecond dt"

definition unix_epoch :: int where
  "unix_epoch = 719162 * 86400 * 1000000"

definition instant_limit :: int where
  "instant_limit = 3652059 * 86400 * 1000000"

text \<open>\<^verbatim>\<open>astimezone(UTC)\<close> raises \<^verbatim>\<open>OverflowError\<close> when the instant is outside the years 1 to 9999.\<close>

definition timestamp_microseconds :: "pyval \<Rightarrow> int option result" where
  "timestamp_microseconds v = (case parse_aware_timestamp v of
       None \<Rightarrow> Inr None
     | Some dt \<Rightarrow> if 0 \<le> instant dt \<and> instant dt < instant_limit
                  then Inr (Some (instant dt - unix_epoch)) else Inl OverflowError)"

text \<open>\<^verbatim>\<open>%0wd\<close> of a number below \<open>10 ^ w\<close>.\<close>

fun pad :: "nat \<Rightarrow> int \<Rightarrow> string" where
  "pad 0 n = []"
| "pad (Suc w) n = pad w (n div 10) @ [digit_char (nat (n mod 10))]"

definition utc_isoformat :: "int \<Rightarrow> string" where
  "utc_isoformat t =
     (let us = t mod 1000000; secs = t div 1000000; day = secs mod 86400;
          (y, m, d) = ordinal_to_ymd (secs div 86400 + 1) in
      pad 4 y @ ''-'' @ pad 2 m @ ''-'' @ pad 2 d @ ''T'' @ pad 2 (day div 3600) @ '':'' @
      pad 2 (day div 60 mod 60) @ '':'' @ pad 2 (day mod 60) @
      (if us = 0 then [] else ''.'' @ pad 6 us) @ ''Z'')"

definition timestamp_from_microseconds :: "pyval \<Rightarrow> string option" where
  "timestamp_from_microseconds v = (case v of
       PInt n \<Rightarrow> let t = n + unix_epoch in
         if 0 \<le> t \<and> t < instant_limit then Some (utc_isoformat t) else None
     | _ \<Rightarrow> None)"

section \<open>Scalar types\<close>

definition is_integer_scalar :: "pyval \<Rightarrow> bool" where
  "is_integer_scalar v = (integer_value v \<noteq> None \<and> \<not> is_text v)"

definition is_long_scalar :: "pyval \<Rightarrow> bool" where
  "is_long_scalar v = (case v of PInt n \<Rightarrow> long_min_value \<le> n \<and> n \<le> long_max_value | _ \<Rightarrow> False)"

fun is_boolean_scalar :: "pyval \<Rightarrow> bool" where
  "is_boolean_scalar (PBool _) = True"
| "is_boolean_scalar _ = False"

definition scalar_type_matchers :: "(string \<times> (pyval \<Rightarrow> bool)) list" where
  "scalar_type_matchers =
     [(''string'', is_text), (''integer'', is_integer_scalar), (''long'', is_long_scalar),
      (''float'', is_finite_number), (''decimal'', is_finite_decimal), (''boolean'', is_boolean_scalar),
      (''date'', is_iso_date), (''timestamp'', is_iso_timestamp)]"

definition matches_scalar_type :: "string \<Rightarrow> pyval \<Rightarrow> bool" where
  "matches_scalar_type data_type v =
     (case map_of scalar_type_matchers data_type of None \<Rightarrow> False | Some matcher \<Rightarrow> matcher v)"

section \<open>Bounded JSON\<close>

text \<open>Values are trees, so the cycle guard of the source never fires.\<close>

fun is_json_value :: "nat \<Rightarrow> nat \<Rightarrow> pyval \<Rightarrow> bool" where
  "is_json_value max_depth depth v = (depth \<le> max_depth \<and>
     (case v of
        PFloat f \<Rightarrow> (case f of Finite _ _ _ _ \<Rightarrow> True | _ \<Rightarrow> False)
      | PList xs \<Rightarrow> (\<forall>x \<in> set xs. is_json_value max_depth (depth + 1) x)
      | PDict d \<Rightarrow> (\<forall>x \<in> set (map snd d). is_json_value max_depth (depth + 1) x)
      | _ \<Rightarrow> True))"

declare is_json_value.simps [simp del]

definition max_json_depth :: nat where
  "max_json_depth = 64"

definition is_bounded_json_value :: "pyval \<Rightarrow> bool" where
  "is_bounded_json_value v = is_json_value max_json_depth 0 v"

section \<open>The calendar is a bijection\<close>

text \<open>Within a year of 365 days or the first 365 days of a leap year: the month found holds the day.\<close>

definition month_fits :: "bool \<Rightarrow> int \<Rightarrow> bool" where
  "month_fits leap n = (let m = month_of leap n in
     1 \<le> m \<and> m \<le> 12 \<and> month_start leap m \<le> n \<and> n - month_start leap m < month_length leap m)"

lemma month_fits_table: "list_all (\<lambda>n. month_fits True n \<and> month_fits False n) [0..364]"
  by code_simp

lemma month_fits: "0 \<le> n \<Longrightarrow> n < 365 \<Longrightarrow> month_fits leap n"
  using month_fits_table by (cases leap) (auto simp: list_all_iff)

text \<open>The digits of an ordinal in the cycles of 400, 100, 4 years and 1 year.\<close>

definition ordinal_digits :: "int \<Rightarrow> int \<times> int \<times> int \<times> int \<times> int" where
  "ordinal_digits n =
     (let r100 = n mod 146097; r4 = r100 mod 36524; r1 = r4 mod 1461 in
      (n div 146097, r100 div 36524, r4 div 1461, r1 div 365, r1 mod 365))"

lemma ordinal_digits_sound:
  assumes "0 \<le> n" "ordinal_digits n = (a, b, c, d, e)"
  shows "n = 146097 * a + 36524 * b + 1461 * c + 365 * d + e"
    and "0 \<le> a" "0 \<le> b" "b \<le> 4" "0 \<le> c" "c \<le> 24" "0 \<le> d" "d \<le> 4" "0 \<le> e" "e < 365"
    and "d = 4 \<Longrightarrow> e = 0 \<and> c < 24" "b = 4 \<Longrightarrow> c = 0 \<and> d = 0 \<and> e = 0"
proof -
  define r100 where "r100 = n mod 146097"
  define r4 where "r4 = r100 mod 36524"
  define r1 where "r1 = r4 mod 1461"
  from assms(2) have eqs: "a = n div 146097" "b = r100 div 36524" "c = r4 div 1461" "d = r1 div 365" "e = r1 mod 365"
    by (auto simp: ordinal_digits_def Let_def r100_def r4_def r1_def)
  have sums: "n = 146097 * a + r100" "r100 = 36524 * b + r4" "r4 = 1461 * c + r1" "r1 = 365 * d + e"
    unfolding eqs r100_def r4_def r1_def by simp_all
  have r: "0 \<le> r100" "r100 < 146097" "0 \<le> r4" "r4 < 36524" "0 \<le> r1" "r1 < 1461"
    unfolding r100_def r4_def r1_def by simp_all
  show e: "0 \<le> e" "e < 365" unfolding eqs by simp_all
  show nonneg: "0 \<le> a" "0 \<le> b" "0 \<le> c" "0 \<le> d"
    using assms(1) r unfolding eqs by (simp_all add: pos_imp_zdiv_nonneg_iff)
  show "n = 146097 * a + 36524 * b + 1461 * c + 365 * d + e" using sums by linarith
  show "b \<le> 4" "c \<le> 24" "d \<le> 4" using sums r e by linarith+
  show "e = 0 \<and> c < 24" if "d = 4" using that sums r e by linarith
  show "c = 0 \<and> d = 0 \<and> e = 0" if "b = 4" using that sums r e nonneg by linarith
qed

lemma days_before_year_digits:
  assumes "0 \<le> b" "b < 4" "0 \<le> c" "c \<le> 24" "0 \<le> d" "d < 4"
  shows "days_before_year (400 * a + 100 * b + 4 * c + d + 1) = 146097 * a + 36524 * b + 1461 * c + 365 * d"
proof -
  let ?k = "400 * a + 100 * b + 4 * c + d"
  have "?k div 4 = 100 * a + 25 * b + c" by (rule int_div_pos_eq [where r = d]) (use assms in simp_all)
  moreover have "?k div 100 = 4 * a + b" by (rule int_div_pos_eq [where r = "4 * c + d"]) (use assms in simp_all)
  moreover have "?k div 400 = a" by (rule int_div_pos_eq [where r = "100 * b + 4 * c + d"]) (use assms in simp_all)
  ultimately show ?thesis by (simp add: days_before_year_def Let_def)
qed

lemma dvd_last_digit:
  fixes m q r :: int
  assumes "x = m * q + r" "0 < r" "r \<le> m"
  shows "m dvd x \<longleftrightarrow> r = m"
proof -
  have "m dvd x \<longleftrightarrow> m dvd r" by (simp add: assms(1) dvd_add_right_iff)
  also have "\<dots> \<longleftrightarrow> r = m" using assms(2,3) zdvd_imp_le [of m r] by auto
  finally show ?thesis .
qed

lemma is_leap_digits:
  assumes "0 \<le> b" "b < 4" "0 \<le> c" "c \<le> 24" "0 \<le> d" "d < 4"
  shows "is_leap (400 * a + 100 * b + 4 * c + d + 1) \<longleftrightarrow> d = 3 \<and> (c \<noteq> 24 \<or> b = 3)"
proof -
  let ?y = "400 * a + 100 * b + 4 * c + d + 1"
  have "4 dvd ?y \<longleftrightarrow> d + 1 = 4" by (rule dvd_last_digit [where q = "100 * a + 25 * b + c"]) (use assms in simp_all)
  moreover have "100 dvd ?y \<longleftrightarrow> 4 * c + d + 1 = 100"
    by (rule dvd_last_digit [where q = "4 * a + b"]) (use assms in simp_all)
  moreover have "400 dvd ?y \<longleftrightarrow> 100 * b + 4 * c + d + 1 = 400"
    by (rule dvd_last_digit [where q = a]) (use assms in simp_all)
  ultimately show ?thesis unfolding is_leap_def using assms by auto
qed

lemma ordinal_to_ymd_digits:
  assumes "ordinal_digits (n - 1) = (a, b, c, d, e)"
  shows "ordinal_to_ymd n = (let y = 400 * a + 100 * b + 4 * c + d + 1 in
     if d = 4 \<or> b = 4 then (y - 1, 12, 31)
     else (y, month_of (is_leap y) e, e - days_before_month y (month_of (is_leap y) e) + 1))"
proof -
  have eqs: "a = (n - 1) div 146097" "b = (n - 1) mod 146097 div 36524"
    "c = (n - 1) mod 146097 mod 36524 div 1461" "d = (n - 1) mod 146097 mod 36524 mod 1461 div 365"
    "e = (n - 1) mod 146097 mod 36524 mod 1461 mod 365"
    using assms by (simp_all only: ordinal_digits_def Let_def prod.inject)
  show ?thesis unfolding ordinal_to_ymd_def Let_def eqs [symmetric] by (simp add: algebra_simps)
qed

text \<open>The last day of a leap year, found by the two early returns.\<close>

lemma last_day_ordinal:
  assumes "is_leap y" "days_before_year y + 366 = n"
  shows "ymd_to_ordinal (y, 12, 31) = n"
  using assms by (simp add: ymd_to_ordinal_def days_before_month_def month_start_def)

lemma ordinal_to_ymd_sound:
  assumes "1 \<le> n" "n \<le> 3652059"
  shows "valid_date (ordinal_to_ymd n)" "ymd_to_ordinal (ordinal_to_ymd n) = n"
proof -
  obtain a b c d e where dig: "ordinal_digits (n - 1) = (a, b, c, d, e)" by (cases "ordinal_digits (n - 1)")
  note [simp] = ordinal_to_ymd_digits [OF dig]
  have "0 \<le> n - 1" using assms(1) by simp
  note s = ordinal_digits_sound [OF this dig]
  let ?y = "400 * a + 100 * b + 4 * c + d + 1"
  consider (day) "d < 4" "b < 4" | (last4) "d = 4" "b < 4" | (last400) "b = 4"
    using s by linarith
  then have "valid_date (ordinal_to_ymd n) \<and> ymd_to_ordinal (ordinal_to_ymd n) = n"
  proof cases
    case day
    let ?m = "month_of (is_leap ?y) e"
    have "month_fits (is_leap ?y) e" using s by (intro month_fits) auto
    moreover have "days_before_year ?y = 146097 * a + 36524 * b + 1461 * c + 365 * d"
      using day s by (intro days_before_year_digits) auto
    moreover have "?y \<le> 9999" "1 \<le> ?y" using s assms by linarith+
    ultimately show ?thesis
      using day s(1) by (simp add: month_fits_def Let_def valid_date_def ymd_to_ordinal_def days_before_month_def
          days_in_month_def)
  next
    case last4
    then have d: "?y - 1 = 400 * a + 100 * b + 4 * c + 3 + 1" "e = 0" "c < 24" using s by auto
    have "is_leap (?y - 1)" unfolding d using last4 s d is_leap_digits [of b c 3 a] by simp
    moreover have "days_before_year (?y - 1) + 366 = n"
      unfolding d using last4 s d days_before_year_digits [of b c 3 a] by simp
    moreover have "1 \<le> ?y - 1" "?y - 1 \<le> 9999" using s assms last4 by linarith+
    ultimately show ?thesis
      using last4 last_day_ordinal [of "?y - 1" n] by (simp add: valid_date_def days_in_month_def month_length_def)
  next
    case last400
    then have d: "?y - 1 = 400 * a + 100 * 3 + 4 * 24 + 3 + 1" "c = 0" "d = 0" "e = 0" using s by auto
    have "is_leap (?y - 1)" unfolding d(1) using is_leap_digits [of 3 24 3 a] by simp
    moreover have "days_before_year (?y - 1) + 366 = n"
      unfolding d(1) using last400 s(1) d(2-) days_before_year_digits [of 3 24 3 a] by simp
    moreover have "1 \<le> ?y - 1" "?y - 1 \<le> 9999" using s assms last400 by linarith+
    ultimately show ?thesis
      using last400 last_day_ordinal [of "?y - 1" n] by (simp add: valid_date_def days_in_month_def month_length_def)
  qed
  then show "valid_date (ordinal_to_ymd n)" "ymd_to_ordinal (ordinal_to_ymd n) = n" by simp_all
qed

section \<open>Timestamp texts round-trip\<close>

lemma read_digits_snoc: "read_digits (s @ [c]) = read_digits s * 10 + int (digit_value c)"
  by (simp add: read_digits_def)

lemma read_digits_pad: "0 \<le> n \<Longrightarrow> n < 10 ^ w \<Longrightarrow> read_digits (pad w n) = n"
proof (induction w arbitrary: n)
  case 0
  then show ?case by (simp add: read_digits_def)
next
  case (Suc w)
  then have "n div 10 < 10 ^ w" by (simp add: int_div_less_self mult.commute zdiv_mono1 div_less_iff_less_mult)
  with Suc show ?case
    by (simp add: read_digits_snoc digit_value_digit_char pos_imp_zdiv_nonneg_iff)
qed

lemma length_pad [simp]: "length (pad w n) = w"
  by (induction w arbitrary: n) auto

lemma pad_digits: "list_all is_digit (pad w n)"
  by (induction w arbitrary: n) (auto simp: is_digit_digit_char)

lemma take_digits_pad [simp]: "0 \<le> n \<Longrightarrow> n < 10 ^ w \<Longrightarrow> take_digits w (pad w n @ r) = Some (n, r)"
  by (simp add: take_digits_def pad_digits read_digits_pad)

lemma take_char_Cons [simp]: "take_char cs (c # r) = (if c \<in> set cs then Some r else None)"
  by (simp add: take_char_def)

lemma take_date_pad:
  assumes "valid_date (y, m, d)"
  shows "take_date (pad 4 y @ ''-'' @ pad 2 m @ ''-'' @ pad 2 d @ r) = Some ((y, m, d), r)"
proof -
  have "d < 100" using assms by (auto simp: valid_date_def days_in_month_def month_length_def split: if_splits)
  with assms show ?thesis by (simp add: take_date_def valid_date_def)
qed

lemma take_clock_pad:
  assumes "valid_clock (h, m, sec)" "0 \<le> h" "0 \<le> m" "0 \<le> sec"
  shows "take_clock (pad 2 h @ '':'' @ pad 2 m @ '':'' @ pad 2 sec @ r) = Some ((h, m, sec), r)"
  using assms by (simp add: take_clock_def valid_clock_def)

lemma take_fraction_pad:
  assumes "0 \<le> us" "us < 1000000"
  shows "take_fraction ((if us = 0 then [] else ''.'' @ pad 6 us) @ ''Z'') = Some (us, ''Z'')"
proof -
  have run: "takeWhile is_digit (pad 6 us @ ''Z'') = pad 6 us" "dropWhile is_digit (pad 6 us @ ''Z'') = ''Z''"
    using pad_digits [of 6 us]
    by (auto simp: takeWhile_append2 dropWhile_append2 list_all_iff is_digit_def takeWhile_append1)
  show ?thesis
    using assms run by (auto simp: take_fraction_def take_char_def read_digits_pad Let_def)
qed

lemma clock_split: "x div 3600 * 3600 + x div 60 mod 60 * 60 + x mod 60 = (x :: int)"
proof -
  have "x div 3600 = x div 60 div 60" using zdiv_zmult2_eq [of 60 x 60] by simp
  then show ?thesis using div_mult_mod_eq [of "x div 60" 60] div_mult_mod_eq [of x 60] by linarith
qed

definition day_clock :: "int \<Rightarrow> int \<times> int \<times> int" where
  "day_clock x = (x div 3600, x div 60 mod 60, x mod 60)"

lemma day_clock_sound:
  assumes "0 \<le> x" "x < 86400"
  shows "valid_clock (day_clock x)" "clock_seconds (day_clock x) = x" "0 \<le> x div 3600"
proof -
  have "x div 3600 < 24" using assms by linarith
  then show "valid_clock (day_clock x)" by (simp add: valid_clock_def day_clock_def)
  show "clock_seconds (day_clock x) = x" unfolding clock_seconds_def day_clock_def prod.case by (rule clock_split)
  show "0 \<le> x div 3600" using assms by (simp add: pos_imp_zdiv_nonneg_iff)
qed

lemma parse_utc_text:
  assumes "valid_date (y, m, d)" "0 \<le> x" "x < 86400" "0 \<le> us" "us < 1000000"
  shows "parse_aware_timestamp (PStr (pad 4 y @ ''-'' @ pad 2 m @ ''-'' @ pad 2 d @ ''T'' @ pad 2 (x div 3600) @ '':'' @
      pad 2 (x div 60 mod 60) @ '':'' @ pad 2 (x mod 60) @ (if us = 0 then [] else ''.'' @ pad 6 us) @ ''Z''))
    = Some \<lparr>dt_date = (y, m, d), dt_clock = day_clock x, dt_microsecond = us, dt_offset = 0\<rparr>"
proof -
  note clock = day_clock_sound [OF assms(2,3)]
  have "0 \<le> x div 60 mod 60" "0 \<le> x mod 60" by simp_all
  note take_clock = take_clock_pad [OF clock(1) [unfolded day_clock_def] clock(3) this]
  have T: "take_char ''Tt'' (''T'' @ r) = Some r" for r by simp
  have Z: "take_offset ''Z'' = Some 0" by (simp add: take_offset_def)
  show ?thesis
    unfolding parse_aware_timestamp_def pyval.case take_date_pad [OF assms(1)] bind.bind_lunit prod.case T
      take_clock take_fraction_pad [OF assms(4,5)] Z
    using clock(1) assms(1) by (simp add: valid_datetime_def day_clock_def)
qed

lemma parse_utc_isoformat:
  assumes "0 \<le> t" "t < instant_limit"
  shows "\<exists>dt. parse_aware_timestamp (PStr (utc_isoformat t)) = Some dt \<and> instant dt = t"
proof -
  define us secs where "us = t mod 1000000" and "secs = t div 1000000"
  define x days where "x = secs mod 86400" and "days = secs div 86400"
  obtain y m d where ymd: "ordinal_to_ymd (days + 1) = (y, m, d)" by (cases "ordinal_to_ymd (days + 1)")
  have split: "t = secs * 1000000 + us" "secs = days * 86400 + x" unfolding us_def secs_def x_def days_def by simp_all
  have bounds: "0 \<le> us" "us < 1000000" "0 \<le> x" "x < 86400" unfolding us_def x_def by simp_all
  have "0 \<le> days" "days < 3652059" using assms split bounds unfolding instant_limit_def by linarith+
  then have date: "valid_date (y, m, d)" "ymd_to_ordinal (y, m, d) = days + 1"
    using ordinal_to_ymd_sound [of "days + 1"] by (simp_all add: ymd)
  have "utc_isoformat t = pad 4 y @ ''-'' @ pad 2 m @ ''-'' @ pad 2 d @ ''T'' @ pad 2 (x div 3600) @ '':'' @
      pad 2 (x div 60 mod 60) @ '':'' @ pad 2 (x mod 60) @ (if us = 0 then [] else ''.'' @ pad 6 us) @ ''Z''"
    unfolding utc_isoformat_def Let_def by (simp only: us_def [symmetric] secs_def [symmetric] x_def [symmetric]
        days_def [symmetric] ymd prod.case)
  then show ?thesis
    using parse_utc_text [OF date(1) bounds(3,4,1,2)] day_clock_sound [OF bounds(3,4)] date(2) split
    by (simp add: instant_def)
qed

section \<open>Properties\<close>

text \<open>
  C40. Timestamps keep every microsecond: whatever text a timestamp is written in, with any offset, the
  microsecond key it is compared by can be written back as a canonical UTC text with the same key; and
  every key that can be written is read back unchanged, from the first microsecond of year 1 to the last
  of year 9999.
\<close>

theorem timestamp_microseconds_roundtrip:
  "(timestamp_microseconds v = Inr (Some n) \<longrightarrow>
      (\<exists>s. timestamp_from_microseconds (PInt n) = Some s \<and> timestamp_microseconds (PStr s) = Inr (Some n)))
   \<and> (timestamp_from_microseconds (PInt k) = Some t \<longrightarrow> timestamp_microseconds (PStr t) = Inr (Some k))"
proof -
  have reread: "timestamp_microseconds (PStr s) = Inr (Some k)" if "timestamp_from_microseconds (PInt k) = Some s" for k s
  proof -
    from that have range: "0 \<le> k + unix_epoch" "k + unix_epoch < instant_limit" and s: "s = utc_isoformat (k + unix_epoch)"
      by (auto simp: timestamp_from_microseconds_def Let_def split: if_splits)
    from parse_utc_isoformat [OF range] range s show ?thesis by (auto simp: timestamp_microseconds_def)
  qed
  have "\<exists>s. timestamp_from_microseconds (PInt n) = Some s" if "timestamp_microseconds v = Inr (Some n)"
    using that by (auto simp: timestamp_microseconds_def timestamp_from_microseconds_def split: option.splits if_splits)
  with reread show ?thesis by blast
qed

theorem timestamp_microseconds_roundtrip_witness:
  "timestamp_microseconds (PStr ''2024-02-29t23:59:59.5+05:30'') = Inr (Some 1709231399500000)
   \<and> (\<exists>s. timestamp_from_microseconds (PInt 1709231399500000) = Some s
        \<and> timestamp_microseconds (PStr s) = Inr (Some 1709231399500000))"
proof -
  have "timestamp_microseconds (PStr ''2024-02-29t23:59:59.5+05:30'') = Inr (Some 1709231399500000)" by code_simp
  with timestamp_microseconds_roundtrip show ?thesis by blast
qed

text \<open>A timestamp the grammar accepts can have no key: near the ends of the calendar the change to UTC
  raises.\<close>

lemma accepted_timestamp_without_key:
  "is_iso_timestamp (PStr ''0001-01-01T00:00:00+01:00'')
   \<and> timestamp_microseconds (PStr ''0001-01-01T00:00:00+01:00'') = Inl OverflowError"
  by code_simp

lemma read_digits_nat: "read_digits s = int (read_nat s)"
  by (induction s rule: rev_induct) (simp_all add: read_digits_snoc read_nat_snoc read_digits_def read_nat_def)

lemma length_show_nat: "n < 10 ^ w \<Longrightarrow> 0 < w \<Longrightarrow> length (show_nat n) \<le> w"
proof (induction n arbitrary: w rule: show_nat.induct)
  case (1 n)
  show ?case
  proof (cases "n < 10")
    case True
    with 1 show ?thesis by (subst show_nat.simps) simp
  next
    case False
    with 1(2) obtain v where w: "w = Suc v" "0 < v" by (cases w; cases "w - 1") auto
    with 1(2) have "n div 10 < 10 ^ v" by (simp add: div_less_iff_less_mult mult.commute)
    with 1(1) [OF False _ w(2)] w False show ?thesis by (subst show_nat.simps) simp
  qed
qed

lemma all_digits_show_nat: "all_digits (show_nat n)"
  by (auto simp: all_digits_def list_all_iff show_nat_digits)

lemma split_sign_show_int: "split_sign (show_int n) = (n < 0, show_nat (nat (abs n)))"
proof (cases "n < 0")
  case False
  obtain c r where "show_nat (nat n) = c # r" by (cases "show_nat (nat n)") auto
  moreover from this have "is_digit c" using show_nat_digits [of c "nat n"] by simp
  ultimately show ?thesis using False by (auto simp: split_sign_def show_int_def is_digit_def)
qed (simp add: split_sign_def show_int_def)

lemma integer_text_show_int: "integer_text (show_int n) = Some (n, length (show_nat (nat (abs n))))"
  by (simp add: integer_text_def split_sign_show_int all_digits_show_nat read_digits_nat signed_def)

text \<open>
  An ontology integer is a 32-bit integer in either representation: a number and its decimal text
  are normalised alike, to that number when it is in the 32-bit range and to nothing outside it.
\<close>

theorem integer_value_32_bit:
  "integer_value (PInt n) = (if - 2147483648 \<le> n \<and> n \<le> 2147483647 then Some n else None)
   \<and> integer_value (PStr (show_int n)) = integer_value (PInt n)"
proof -
  have "length (show_nat (nat (abs n))) \<le> 4300" if "integer_min_value \<le> n" "n \<le> integer_max_value"
  proof -
    from that have "nat (abs n) < 10 ^ 10" by (simp add: integer_min_value_def integer_max_value_def)
    from length_show_nat [OF this] show ?thesis by simp
  qed
  then show ?thesis
    by (simp add: integer_value_def parsed_integer_def integer_text_show_int integer_min_value_def
        integer_max_value_def)
qed

end
