(* ===== verification/Conditions.thy ===== *)
theory Conditions
  imports Scalars
begin

text \<open>
  \<^verbatim>\<open>domain/action_runtime/action_conditions.py\<close>: the closed condition language of submission criteria and
  parameter overrides. Conditions are JSON documents; they are validated without runtime values and
  evaluated in a three-valued logic, where a value that is missing makes a comparison undecided. The
  regular-expression engine of Python (\<^verbatim>\<open>re.compile\<close>, \<^verbatim>\<open>re.fullmatch\<close>) is a parameter; the guard that
  keeps expensive patterns away from it is modelled.
\<close>

section \<open>Values\<close>

definition is_numeric_type :: "pyval \<Rightarrow> bool" where
  "is_numeric_type v = (case v of PInt _ \<Rightarrow> True | PFloat _ \<Rightarrow> True | _ \<Rightarrow> False)"

text \<open>\<^verbatim>\<open>Decimal(str(value))\<close> of a finite number.\<close>

definition decimal_number :: "pyval \<Rightarrow> sci option" where
  "decimal_number v = (case v of
       PInt n \<Rightarrow> Some (n, 0)
     | PFloat (Finite _ _ d x) \<Rightarrow> Some (d, x)
     | _ \<Rightarrow> None)"

definition numeric_values_equal :: "pyval \<Rightarrow> pyval \<Rightarrow> bool" where
  "numeric_values_equal l r = (case (decimal_number l, decimal_number r) of
       (Some a, Some b) \<Rightarrow> sci_eq 10 a b
     | _ \<Rightarrow> False)"

fun present_values_equal :: "pyval \<Rightarrow> pyval \<Rightarrow> bool"
and collection_values_equal :: "pyval list \<Rightarrow> pyval list \<Rightarrow> bool"
and mapping_values_equal :: "dict \<Rightarrow> dict \<Rightarrow> bool" where
  "present_values_equal l r =
     (if is_boolean_scalar l \<or> is_boolean_scalar r then is_boolean_scalar l \<and> is_boolean_scalar r \<and> l = r
      else if is_numeric_type l \<or> is_numeric_type r then numeric_values_equal l r
      else case l of
        PDict d \<Rightarrow> (case r of
            PDict d' \<Rightarrow> length d = length d' \<and> set (dkeys d) = set (dkeys d') \<and> mapping_values_equal d d'
          | _ \<Rightarrow> False)
      | PList xs \<Rightarrow> (case r of PList ys \<Rightarrow> collection_values_equal xs ys | _ \<Rightarrow> False)
      | _ \<Rightarrow> l = r)"
| "collection_values_equal [] ys = (ys = [])"
| "collection_values_equal (x # xs) ys =
     (case ys of [] \<Rightarrow> False | y # ys' \<Rightarrow> present_values_equal x y \<and> collection_values_equal xs ys')"
| "mapping_values_equal [] d' = True"
| "mapping_values_equal ((k, v) # d) d' =
     (case map_of d' k of None \<Rightarrow> False | Some w \<Rightarrow> present_values_equal v w \<and> mapping_values_equal d d')"

declare present_values_equal.simps [simp del]

text \<open>A value that may be the marker \<^verbatim>\<open>_MISSING\<close>.\<close>

definition action_condition_values_equal :: "pyval option \<Rightarrow> pyval option \<Rightarrow> bool" where
  "action_condition_values_equal l r = (case (l, r) of
       (Some v, Some w) \<Rightarrow> present_values_equal v w
     | _ \<Rightarrow> False)"

section \<open>The pattern guard\<close>

record regex_engine =
  re_compiles :: "string \<Rightarrow> bool"
  re_fullmatch :: "string \<Rightarrow> string \<Rightarrow> bool"

definition max_regex_pattern_chars :: nat where
  "max_regex_pattern_chars = 256"

definition max_regex_input_chars :: nat where
  "max_regex_input_chars = 4096"

text \<open>Escaped characters and character classes are masked out; \<open>prev\<close> holds the reversed output.\<close>

record mask_state =
  mk_masked :: string
  mk_escaped :: bool
  mk_class :: bool
  mk_backreference :: bool

definition mask_step :: "char \<Rightarrow> mask_state \<Rightarrow> mask_state" where
  "mask_step c st =
     (if mk_escaped st then
        st\<lparr>mk_backreference := mk_backreference st \<or> c \<in> set ''123456789'',
           mk_masked := CHR ''_'' # CHR ''_'' # tl (mk_masked st), mk_escaped := False\<rparr>
      else if c = CHR 0x5C then st\<lparr>mk_masked := c # mk_masked st, mk_escaped := True\<rparr>
      else if mk_class st then st\<lparr>mk_masked := CHR ''_'' # mk_masked st, mk_class := c \<noteq> CHR '']''\<rparr>
      else if c = CHR ''['' then st\<lparr>mk_masked := CHR ''_'' # mk_masked st, mk_class := True\<rparr>
      else st\<lparr>mk_masked := c # mk_masked st\<rparr>)"

definition masked_regex_structure :: "string \<Rightarrow> string \<times> bool" where
  "masked_regex_structure pattern =
     (let st = fold mask_step pattern
            \<lparr>mk_masked = [], mk_escaped = False, mk_class = False, mk_backreference = False\<rparr> in
      (rev (mk_masked st), mk_backreference st))"

text \<open>\<^verbatim>\<open>re.search(r"\(\?(?!:)", masked)\<close>.\<close>

fun has_special_group :: "string \<Rightarrow> bool" where
  "has_special_group (a # b # s) =
     (a = CHR ''('' \<and> b = CHR ''?'' \<and> (case s of c # _ \<Rightarrow> c \<noteq> CHR '':'' | [] \<Rightarrow> True) \<or> has_special_group (b # s))"
| "has_special_group _ = False"

text \<open>Open groups as \<open>(has repeat, has alternation)\<close>, innermost first; closed groups by the position
  of their closing parenthesis.\<close>

type_synonym group_flags = "bool \<times> bool"
type_synonym group_state = "group_flags list \<times> (nat \<times> group_flags) list"

definition close_regex_group :: "nat \<Rightarrow> group_flags \<Rightarrow> group_flags list \<Rightarrow> (nat \<times> group_flags) list \<Rightarrow> group_state" where
  "close_regex_group index flags rest finished =
     ((case rest of [] \<Rightarrow> [] | (r, a) # outer \<Rightarrow> (r \<or> fst flags, a \<or> snd flags) # outer), finished @ [(index, flags)])"

definition track_regex_group_character :: "char \<Rightarrow> nat \<Rightarrow> group_state \<Rightarrow> group_state" where
  "track_regex_group_character c index st =
     (case st of (stack, finished) \<Rightarrow>
        if c = CHR ''('' then ((False, False) # stack, finished)
        else case stack of
            [] \<Rightarrow> st
          | (has_repeat, has_alternation) # rest \<Rightarrow>
              if c = CHR ''|'' then ((has_repeat, True) # rest, finished)
              else if c \<in> set ''*+?{'' then ((True, has_alternation) # rest, finished)
              else if c \<noteq> CHR '')'' then st
              else close_regex_group index (has_repeat, has_alternation) rest finished)"

fun closed_regex_groups_from :: "nat \<Rightarrow> char option \<Rightarrow> string \<Rightarrow> group_state \<Rightarrow> group_state" where
  "closed_regex_groups_from index prev [] st = st"
| "closed_regex_groups_from index prev (c # s) st =
     closed_regex_groups_from (Suc index) (Some c) s
       (if c = CHR ''?'' \<and> prev = Some (CHR ''('') then st else track_regex_group_character c index st)"

definition closed_regex_groups :: "string \<Rightarrow> (nat \<times> group_flags) list" where
  "closed_regex_groups masked = snd (closed_regex_groups_from 0 None masked ([], []))"

text \<open>\<^verbatim>\<open>re.match(r"\{\d+(?:,\d*)?\}", s)\<close>.\<close>

definition counted_quantifier :: "string \<Rightarrow> bool" where
  "counted_quantifier s = (case s of
       [] \<Rightarrow> False
     | c # r \<Rightarrow> c = CHR ''{'' \<and> takeWhile is_digit r \<noteq> [] \<and>
         (case dropWhile is_digit r of
            [] \<Rightarrow> False
          | d # t \<Rightarrow> d = CHR ''}'' \<or> d = CHR '','' \<and>
              (case dropWhile is_digit t of [] \<Rightarrow> False | e # _ \<Rightarrow> e = CHR ''}'')))"

definition regex_quantifier_at :: "string \<Rightarrow> nat \<Rightarrow> bool" where
  "regex_quantifier_at pattern index = (case drop index pattern of
       [] \<Rightarrow> False
     | c # s \<Rightarrow> c \<in> set ''*+?'' \<or> counted_quantifier (c # s))"

definition has_unsafe_closed_regex_group :: "string \<Rightarrow> (nat \<times> group_flags) list \<Rightarrow> bool" where
  "has_unsafe_closed_regex_group pattern finished =
     list_ex (\<lambda>(close_index, has_repeat, has_alternation).
       regex_quantifier_at pattern (close_index + 1) \<and> (has_repeat \<or> has_alternation)) finished"

definition regex_backtracking_risk :: "string \<Rightarrow> string option" where
  "regex_backtracking_risk pattern =
     (case masked_regex_structure pattern of (masked, has_backreference) \<Rightarrow>
        if has_backreference then Some ''backreference''
        else if has_special_group masked then Some ''lookaround-or-inline-group''
        else if has_unsafe_closed_regex_group masked (closed_regex_groups masked)
             then Some ''repeated-variable-or-alternating-group''
        else None)"

definition validate_safe_regex_pattern :: "regex_engine \<Rightarrow> string \<Rightarrow> unit result" where
  "validate_safe_regex_pattern re pattern =
     rbind (raise_if (length pattern > max_regex_pattern_chars)
              (ValidationFailed ''action condition regex is too long'')) (\<lambda>_.
     rbind (raise_if (\<not> re_compiles re pattern) (ValidationFailed ''action condition regex is invalid'')) (\<lambda>_.
     raise_if (regex_backtracking_risk pattern \<noteq> None)
       (ValidationFailed ''action condition regex uses an unsafe backtracking construct'')))"

section \<open>Comparisons\<close>

datatype order_op = Lt | Lte | Gt | Gte

fun apply_order :: "order_op \<Rightarrow> ('a \<Rightarrow> 'a \<Rightarrow> bool) \<Rightarrow> 'a \<Rightarrow> 'a \<Rightarrow> bool" where
  "apply_order Lt before l r = before l r"
| "apply_order Lte before l r = (\<not> before r l)"
| "apply_order Gt before l r = before r l"
| "apply_order Gte before l r = (\<not> before l r)"

definition looks_like_timestamp :: "string \<Rightarrow> bool" where
  "looks_like_timestamp s =
     (case take_date s of None \<Rightarrow> False | Some (_, r) \<Rightarrow> take_char ''Tt'' r \<noteq> None)"

definition timestamp_order_result :: "order_op \<Rightarrow> string \<Rightarrow> string \<Rightarrow> bool option" where
  "timestamp_order_result operator l r =
     (let left_timestamp = parse_aware_timestamp (PStr l); right_timestamp = parse_aware_timestamp (PStr r);
          has_timestamp_shape = (looks_like_timestamp l \<or> looks_like_timestamp r) in
      if left_timestamp = None \<and> right_timestamp = None \<and> \<not> has_timestamp_shape then None
      else case (left_timestamp, right_timestamp) of
          (Some a, Some b) \<Rightarrow> Some (apply_order operator (\<lambda>x y. instant x < instant y) a b)
        | _ \<Rightarrow> Some False)"

definition ordered_compare :: "order_op \<Rightarrow> pyval \<Rightarrow> pyval \<Rightarrow> bool" where
  "ordered_compare operator l r =
     (case (decimal_number l, decimal_number r) of
        (Some a, Some b) \<Rightarrow> apply_order operator (sci_less 10) a b
      | _ \<Rightarrow> (case (l, r) of
          (PStr s, PStr t) \<Rightarrow>
            (case timestamp_order_result operator s t of
               Some b \<Rightarrow> b
             | None \<Rightarrow> apply_order operator (<) s t)
        | _ \<Rightarrow> False))"

definition contains_value :: "pyval \<Rightarrow> pyval \<Rightarrow> bool" where
  "contains_value container member = (case container of
       PStr s \<Rightarrow> (case member of PStr t \<Rightarrow> contains_text s t | _ \<Rightarrow> False)
     | PList xs \<Rightarrow> list_ex (\<lambda>x. present_values_equal x member) xs
     | _ \<Rightarrow> False)"

definition contains_any :: "pyval \<Rightarrow> pyval \<Rightarrow> bool" where
  "contains_any container members = (case (container, members) of
       (PList _, PList ms) \<Rightarrow> list_ex (contains_value container) ms
     | _ \<Rightarrow> False)"

definition matches_pattern :: "regex_engine \<Rightarrow> pyval \<Rightarrow> pyval \<Rightarrow> bool result" where
  "matches_pattern re l pattern = (case (l, pattern) of
       (PStr s, PStr p) \<Rightarrow>
         if length s > max_regex_input_chars then Inr False
         else rbind (validate_safe_regex_pattern re p) (\<lambda>_. Inr (re_fullmatch re p s))
     | _ \<Rightarrow> Inr False)"

definition each_is :: "bool \<Rightarrow> pyval \<Rightarrow> pyval \<Rightarrow> bool" where
  "each_is positive l r = (case l of
       PList ms \<Rightarrow> list_all (\<lambda>m. present_values_equal m r = positive) ms
     | _ \<Rightarrow> False)"

text \<open>The dispatch table \<^verbatim>\<open>_COMPARISONS\<close>.\<close>

definition comparisons :: "regex_engine \<Rightarrow> (string \<times> (pyval \<Rightarrow> pyval \<Rightarrow> bool result)) list" where
  "comparisons re =
     [(''eq'', \<lambda>l r. Inr (present_values_equal l r)),
      (''neq'', \<lambda>l r. Inr (\<not> present_values_equal l r)),
      (''in'', \<lambda>l r. Inr (is_sequence r \<and> contains_value r l)),
      (''notIn'', \<lambda>l r. Inr (is_sequence r \<and> \<not> contains_value r l)),
      (''lt'', \<lambda>l r. Inr (ordered_compare Lt l r)),
      (''lte'', \<lambda>l r. Inr (ordered_compare Lte l r)),
      (''gt'', \<lambda>l r. Inr (ordered_compare Gt l r)),
      (''gte'', \<lambda>l r. Inr (ordered_compare Gte l r)),
      (''contains'', \<lambda>l r. Inr (contains_value l r)),
      (''containsAny'', \<lambda>l r. Inr (contains_any l r)),
      (''startsWith'', \<lambda>l r. Inr (case (l, r) of (PStr s, PStr p) \<Rightarrow> starts_with s p | _ \<Rightarrow> False)),
      (''matches'', matches_pattern re),
      (''eachIs'', \<lambda>l r. Inr (each_is True l r)),
      (''eachIsNot'', \<lambda>l r. Inr (each_is False l r))]"

definition comparison_operators :: "string list" where
  "comparison_operators = [''eq'', ''neq'', ''in'', ''notIn'', ''lt'', ''lte'', ''gt'', ''gte'', ''contains'',
     ''containsAny'', ''startsWith'', ''matches'', ''eachIs'', ''eachIsNot'', ''exists'']"

definition compare_values :: "regex_engine \<Rightarrow> string \<Rightarrow> pyval \<Rightarrow> pyval \<Rightarrow> bool result" where
  "compare_values re operator l r =
     (case map_of (comparisons re) operator of
        None \<Rightarrow> Inl (ValidationFailed ''unsupported action condition operator'')
      | Some comparison \<Rightarrow> comparison l r)"

section \<open>Decimal comparisons\<close>

definition decimal_is :: "sci \<Rightarrow> pyval \<Rightarrow> bool" where
  "decimal_is number item = (case decimal_value item of None \<Rightarrow> False | Some d \<Rightarrow> sci_eq 10 d number)"

definition decimal_collection_contains :: "pyval \<Rightarrow> pyval \<Rightarrow> bool" where
  "decimal_collection_contains container member = (case (container, decimal_value member) of
       (PList items, Some number) \<Rightarrow> list_ex (decimal_is number) items
     | _ \<Rightarrow> False)"

definition each_decimal_is :: "bool \<Rightarrow> pyval \<Rightarrow> pyval \<Rightarrow> bool" where
  "each_decimal_is positive l r = (case (l, decimal_value r) of
       (PList items, Some number) \<Rightarrow> list_all (\<lambda>item. decimal_is number item = positive) items
     | _ \<Rightarrow> False)"

definition order_operator :: "string \<Rightarrow> order_op option" where
  "order_operator operator = map_of [(''lt'', Lt), (''lte'', Lte), (''gt'', Gt), (''gte'', Gte)] operator"

definition compare_decimal_scalars :: "string \<Rightarrow> pyval \<Rightarrow> pyval \<Rightarrow> bool" where
  "compare_decimal_scalars operator l r = (case (decimal_value l, decimal_value r) of
       (Some a, Some b) \<Rightarrow>
         if operator = ''eq'' then sci_eq 10 a b
         else if operator = ''neq'' then \<not> sci_eq 10 a b
         else (case order_operator operator of None \<Rightarrow> False | Some ord \<Rightarrow> apply_order ord (sci_less 10) a b)
     | _ \<Rightarrow> False)"

definition compare_decimal_values :: "string \<Rightarrow> pyval \<Rightarrow> pyval \<Rightarrow> bool" where
  "compare_decimal_values operator l r =
     (if operator = ''in'' then decimal_collection_contains r l
      else if operator = ''notIn'' then is_sequence r \<and> \<not> decimal_collection_contains r l
      else if operator = ''contains'' then decimal_collection_contains l r
      else if operator = ''eachIs'' then each_decimal_is True l r
      else if operator = ''eachIsNot'' then each_decimal_is False l r
      else compare_decimal_scalars operator l r)"

section \<open>Contexts and operands\<close>

record condition_context =
  cc_parameters :: dict
  cc_object_properties :: dict
  cc_actor_user_id :: string
  cc_actor_groups :: "string list"
  cc_actor_attributes :: dict
  cc_linked_object_properties :: dict
  cc_parameter_types :: "(string \<times> string) list"
  cc_object_property_types :: "(string \<times> string) list"
  cc_linked_object_property_types :: "(string \<times> string) list"

definition linked_object_property_key :: "string \<Rightarrow> string \<Rightarrow> string \<Rightarrow> string \<Rightarrow> string" where
  "linked_object_property_key link_type direction property_name aggregation =
     direction @ '':'' @ link_type @ '':'' @ property_name @ '':'' @ aggregation"

definition current_user :: "condition_context \<Rightarrow> string option \<Rightarrow> pyval option" where
  "current_user ctx attribute = (case attribute of
       None \<Rightarrow> Some (PStr (cc_actor_user_id ctx))
     | Some a \<Rightarrow> if a = ''id'' then Some (PStr (cc_actor_user_id ctx))
                 else if a \<in> {''group'', ''groups'', ''roles''} then Some (PList (map PStr (cc_actor_groups ctx)))
                 else map_of (cc_actor_attributes ctx) a)"

definition linked_object_property :: "condition_context \<Rightarrow> string \<Rightarrow> pyval result" where
  "linked_object_property ctx key = (case map_of (cc_linked_object_properties ctx) key of
       None \<Rightarrow> Inl (ValidationFailed ''linked-object condition value was not resolved'')
     | Some v \<Rightarrow> Inr v)"

text \<open>An empty type name counts as none.\<close>

definition context_value_type :: "(string \<times> string) list \<Rightarrow> string \<Rightarrow> string option" where
  "context_value_type types name = (case map_of types name of
       None \<Rightarrow> None | Some t \<Rightarrow> if t = [] then None else Some t)"

definition condition_text :: "dict \<Rightarrow> string \<Rightarrow> string result" where
  "condition_text payload key = (case nonempty_text (get_val payload key) of
       None \<Rightarrow> Inl (ValidationFailed ''action condition field is required'')
     | Some s \<Rightarrow> Inr s)"

definition condition_mapping :: "string \<Rightarrow> pyval \<Rightarrow> dict result" where
  "condition_mapping f raw = (case raw of
       PDict d \<Rightarrow> Inr d
     | _ \<Rightarrow> Inl (ValidationFailed (f @ '' must be an object'')))"

definition linked_direction :: "dict \<Rightarrow> string result" where
  "linked_direction v =
     (let direction = get_or (PStr ''outgoing'') v ''direction'' in
      rbind (in_names direction [''outgoing'', ''incoming'']) (\<lambda>known.
      if known then Inr (py_str direction)
      else Inl (ValidationFailed ''linked-object condition direction must be outgoing or incoming'')))"

definition linked_aggregation :: "dict \<Rightarrow> string result" where
  "linked_aggregation v =
     (let aggregation = get_or (PStr ''values'') v ''aggregation'' in
      rbind (in_names aggregation [''values'', ''count'']) (\<lambda>known.
      if known then Inr (py_str aggregation)
      else Inl (ValidationFailed ''linked-object condition aggregation must be values or count'')))"

record condition_operand =
  op_value :: "pyval option"
  op_data_type :: "string option"

definition condition_value :: "condition_context \<Rightarrow> pyval \<Rightarrow> condition_operand result" where
  "condition_value ctx raw =
     rbind (condition_mapping ''condition value'' raw) (\<lambda>v.
     let kind = get_val v ''kind'' in
     if kind = PStr ''literal'' then Inr \<lparr>op_value = Some (get_val v ''value''), op_data_type = None\<rparr>
     else if kind = PStr ''parameter'' then
       rbind (condition_text v ''parameter'') (\<lambda>name.
       Inr \<lparr>op_value = map_of (cc_parameters ctx) name,
            op_data_type = context_value_type (cc_parameter_types ctx) name\<rparr>)
     else if kind = PStr ''objectProperty'' then
       rbind (condition_text v ''property'') (\<lambda>name.
       Inr \<lparr>op_value = map_of (cc_object_properties ctx) name,
            op_data_type = context_value_type (cc_object_property_types ctx) name\<rparr>)
     else if kind = PStr ''currentUser'' then
       Inr \<lparr>op_value = current_user ctx (case get_val v ''attribute'' of PStr a \<Rightarrow> Some a | _ \<Rightarrow> None),
            op_data_type = None\<rparr>
     else if kind = PStr ''linkedObjectProperty'' then
       rbind (condition_text v ''linkType'') (\<lambda>link_type.
       rbind (linked_direction v) (\<lambda>direction.
       rbind (condition_text v ''property'') (\<lambda>property_name.
       rbind (linked_aggregation v) (\<lambda>aggregation.
       let key = linked_object_property_key link_type direction property_name aggregation in
       rbind (linked_object_property ctx key) (\<lambda>x.
       Inr \<lparr>op_value = Some x,
            op_data_type = context_value_type (cc_linked_object_property_types ctx) key\<rparr>)))))
     else Inl (ValidationFailed ''unsupported action condition value''))"

section \<open>Nodes\<close>

definition condition_node_kind :: "dict \<Rightarrow> string result" where
  "condition_node_kind condition =
     (case filter (has_key condition) [''all'', ''any'', ''not'', ''op''] of
        [kind] \<Rightarrow> Inr kind
      | _ \<Rightarrow> Inl (ValidationFailed ''action condition must contain exactly one node kind''))"

definition is_nonempty_text :: "pyval \<Rightarrow> bool" where
  "is_nonempty_text v = (case v of PStr s \<Rightarrow> py_strip s \<noteq> [] | _ \<Rightarrow> False)"

definition validate_condition_fields :: "dict \<Rightarrow> string \<Rightarrow> unit result" where
  "validate_condition_fields condition kind =
     (let allowed = [''message'', ''policyName'', kind] @ (if kind = ''op'' then [''left'', ''right''] else []) in
      rbind (raise_if (\<exists>f \<in> set (dkeys condition). f \<notin> set allowed)
               (ValidationFailed ''unsupported action condition fields'')) (\<lambda>_.
      each (\<lambda>f. raise_if (has_key condition f \<and> \<not> is_nonempty_text (get_val condition f))
              (ValidationFailed ''action condition metadata must be non-empty text''))
        [''message'', ''policyName'']))"

definition condition_list :: "string \<Rightarrow> pyval \<Rightarrow> dict list result" where
  "condition_list f raw = (case raw of
       PList items \<Rightarrow> map_result (condition_mapping (''condition '' @ f)) items
     | _ \<Rightarrow> Inl (ValidationFailed ''action condition group must be a list''))"

definition condition_operator :: "dict \<Rightarrow> string result" where
  "condition_operator condition = (case get_val condition ''op'' of
       PStr operator \<Rightarrow> if operator \<in> set comparison_operators then Inr operator
                       else Inl (ValidationFailed ''unsupported action condition operator'')
     | _ \<Rightarrow> Inl (ValidationFailed ''unsupported action condition operator''))"

text \<open>A child of a node is smaller than the node.\<close>

definition dict_size :: "dict \<Rightarrow> nat" where
  "dict_size d = size (PDict d)"

lemma map_of_size: "map_of d k = Some v \<Longrightarrow> size v < dict_size d"
  by (induction d) (auto simp: dict_size_def split: if_splits)

lemma condition_mapping_Inr [simp]: "condition_mapping f v = Inr d \<longleftrightarrow> v = PDict d"
  by (cases v) (auto simp: condition_mapping_def)

lemma get_val_size: "get_val d k = v \<Longrightarrow> v \<noteq> PNone \<Longrightarrow> size v < dict_size d"
  by (auto simp: get_or_def map_of_size split: option.splits)

lemma condition_list_size:
  assumes "condition_list f (get_val d k) = Inr cs" "c \<in> set cs"
  shows "dict_size c < dict_size d"
proof -
  from assms(1) obtain items where items: "get_val d k = PList items" "map_result (condition_mapping (''condition '' @ f)) items = Inr cs"
    by (auto simp: condition_list_def split: pyval.splits)
  with assms(2) have "PDict c \<in> set items"
    by (auto simp: map_result_Inr list_all2_conv_all_nth in_set_conv_nth)
  then have "size (PDict c) < size (PList items)" by (simp add: size_list_estimation' less_Suc_eq_le)
  with get_val_size [OF items(1)] show ?thesis by (simp add: dict_size_def)
qed

lemma condition_child_size: "condition_mapping f (get_val d k) = Inr c \<Longrightarrow> dict_size c < dict_size d"
  using get_val_size [of d k "PDict c"] by (simp add: dict_size_def)

section \<open>Group identity\<close>

definition is_group_identity_value :: "pyval \<Rightarrow> bool result" where
  "is_group_identity_value raw = (case raw of
       PDict v \<Rightarrow> if get_val v ''kind'' = PStr ''currentUser''
                  then in_names (get_or (PStr ''id'') v ''attribute'') [''group'', ''groups'', ''roles'']
                  else Inr False
     | _ \<Rightarrow> Inr False)"

definition comparison_uses_group_identity :: "dict \<Rightarrow> bool result" where
  "comparison_uses_group_identity condition =
     any_result (\<lambda>side. is_group_identity_value (get_val condition side)) [''left'', ''right'']"

function uses_group_identity :: "dict \<Rightarrow> bool result" where
  "uses_group_identity condition =
     rbind (condition_node_kind condition) (\<lambda>kind.
     if kind \<in> {''all'', ''any''} then
       rbind (condition_list kind (get_val condition kind)) (\<lambda>children. any_result uses_group_identity children)
     else if kind = ''not'' then
       rbind (condition_mapping ''condition not'' (get_val condition ''not'')) uses_group_identity
     else comparison_uses_group_identity condition)"
  by pat_completeness auto
termination
  by (relation "measure dict_size") (auto intro: condition_list_size condition_child_size simp del: condition_mapping_Inr)

declare uses_group_identity.simps [simp del]

section \<open>Validation\<close>

definition validate_value_fields :: "dict \<Rightarrow> string list \<Rightarrow> string list \<Rightarrow> unit result" where
  "validate_value_fields v required optional =
     raise_if ((\<exists>f \<in> set required. \<not> has_key v f) \<or> (\<exists>f \<in> set (dkeys v). f \<notin> set (required @ optional)))
       (ValidationFailed ''action condition value has invalid fields'')"

definition validate_current_user_attribute :: "dict \<Rightarrow> unit result" where
  "validate_current_user_attribute v =
     raise_if (\<not> is_nonempty_text (get_or (PStr ''id'') v ''attribute''))
       (ValidationFailed ''unsupported current-user attribute'')"

definition validate_condition_value :: "pyval \<Rightarrow> unit result" where
  "validate_condition_value raw =
     rbind (condition_mapping ''condition value'' raw) (\<lambda>v.
     let kind = get_val v ''kind'' in
     if kind = PStr ''literal'' then validate_value_fields v [''kind'', ''value''] []
     else if kind = PStr ''parameter'' then
       rbind (validate_value_fields v [''kind'', ''parameter''] []) (\<lambda>_.
       rbind (condition_text v ''parameter'') (\<lambda>_. Inr ()))
     else if kind = PStr ''objectProperty'' then
       rbind (validate_value_fields v [''kind'', ''property''] []) (\<lambda>_.
       rbind (condition_text v ''property'') (\<lambda>_. Inr ()))
     else if kind = PStr ''currentUser'' then
       rbind (validate_value_fields v [''kind''] [''attribute'']) (\<lambda>_.
       validate_current_user_attribute v)
     else if kind = PStr ''linkedObjectProperty'' then
       rbind (validate_value_fields v [''kind'', ''linkType'', ''property''] [''direction'', ''aggregation'']) (\<lambda>_.
       rbind (condition_text v ''linkType'') (\<lambda>_.
       rbind (linked_direction v) (\<lambda>_.
       rbind (condition_text v ''property'') (\<lambda>_.
       rbind (linked_aggregation v) (\<lambda>_. Inr ())))))
     else Inl (ValidationFailed ''unsupported action condition value''))"

definition validate_literal_regex :: "regex_engine \<Rightarrow> pyval \<Rightarrow> unit result" where
  "validate_literal_regex re raw =
     rbind (condition_mapping ''condition value'' raw) (\<lambda>v.
     if get_val v ''kind'' \<noteq> PStr ''literal'' then Inr ()
     else case get_val v ''value'' of
         PStr pattern \<Rightarrow> validate_safe_regex_pattern re pattern
       | _ \<Rightarrow> Inl (ValidationFailed ''action condition regex must be text''))"

definition validate_comparison :: "regex_engine \<Rightarrow> dict \<Rightarrow> unit result" where
  "validate_comparison re condition =
     rbind (condition_operator condition) (\<lambda>operator.
     rbind (validate_condition_value (get_val condition ''left'')) (\<lambda>_.
     rbind (if operator = ''exists''
            then raise_if (has_key condition ''right'')
                   (ValidationFailed ''exists condition does not accept a right value'')
            else validate_condition_value (get_val condition ''right'')) (\<lambda>_.
     rbind (if operator = ''matches'' then validate_literal_regex re (get_val condition ''right'') else Inr ()) (\<lambda>_.
     if operator \<in> {''neq'', ''notIn''} then
       rbind (comparison_uses_group_identity condition) (\<lambda>b.
       raise_if b (ValidationFailed ''group identity conditions require a positive operator''))
     else Inr ()))))"

function validate_action_condition :: "regex_engine \<Rightarrow> dict \<Rightarrow> unit result" where
  "validate_action_condition re condition =
     rbind (condition_node_kind condition) (\<lambda>kind.
     rbind (validate_condition_fields condition kind) (\<lambda>_.
     if kind \<in> {''all'', ''any''} then
       rbind (condition_list kind (get_val condition kind)) (\<lambda>children.
       rbind (raise_if (children = []) (ValidationFailed ''action condition group cannot be empty'')) (\<lambda>_.
       each (validate_action_condition re) children))
     else if kind = ''not'' then
       rbind (condition_mapping ''condition not'' (get_val condition ''not'')) (\<lambda>child.
       rbind (uses_group_identity child) (\<lambda>b.
       rbind (raise_if b (ValidationFailed ''group identity conditions cannot be negated'')) (\<lambda>_.
       validate_action_condition re child)))
     else validate_comparison re condition))"
  by pat_completeness auto
termination
  by (relation "measure (\<lambda>(re, d). dict_size d)")
    (auto intro: condition_list_size condition_child_size simp del: condition_mapping_Inr)

declare validate_action_condition.simps [simp del]

section \<open>Evaluation\<close>

definition has_value :: "pyval option \<Rightarrow> bool" where
  "has_value v = (case v of
       None \<Rightarrow> False
     | Some x \<Rightarrow> (case x of PNone \<Rightarrow> False | PStr s \<Rightarrow> s \<noteq> [] | PDict d \<Rightarrow> d \<noteq> [] | PList xs \<Rightarrow> xs \<noteq> [] | _ \<Rightarrow> True))"

definition compare_operands ::
  "regex_engine \<Rightarrow> string \<Rightarrow> string option \<Rightarrow> string option \<Rightarrow> pyval \<Rightarrow> pyval \<Rightarrow> bool result" where
  "compare_operands re operator left_type right_type l r =
     (if left_type \<noteq> None \<and> right_type \<noteq> None \<and> left_type \<noteq> right_type then Inr False
      else if (if left_type \<noteq> None then left_type else right_type) = Some ''decimal''
           then Inr (compare_decimal_values operator l r)
      else compare_values re operator l r)"

definition evaluate_comparison :: "regex_engine \<Rightarrow> condition_context \<Rightarrow> dict \<Rightarrow> bool option result" where
  "evaluate_comparison re ctx condition =
     rbind (condition_operator condition) (\<lambda>operator.
     rbind (condition_value ctx (get_val condition ''left'')) (\<lambda>l.
     if operator = ''exists'' then Inr (Some (has_value (op_value l)))
     else rbind (condition_value ctx (get_val condition ''right'')) (\<lambda>r.
       case (op_value l, op_value r) of
         (Some a, Some b) \<Rightarrow> rbind (compare_operands re operator (op_data_type l) (op_data_type r) a b) (\<lambda>b. Inr (Some b))
       | _ \<Rightarrow> Inr None)))"

definition logical_result :: "string \<Rightarrow> bool option list \<Rightarrow> bool option" where
  "logical_result kind results =
     (let decisive = (kind \<noteq> ''all'') in
      if Some decisive \<in> set results then Some decisive
      else if None \<in> set results then None
      else Some (\<not> decisive))"

function evaluate_validated_condition ::
  "regex_engine \<Rightarrow> condition_context \<Rightarrow> dict \<Rightarrow> bool option result" where
  "evaluate_validated_condition re ctx condition =
     rbind (condition_node_kind condition) (\<lambda>kind.
     if kind \<in> {''all'', ''any''} then
       rbind (condition_list kind (get_val condition kind)) (\<lambda>children.
       rbind (map_result (evaluate_validated_condition re ctx) children) (\<lambda>results.
       Inr (logical_result kind results)))
     else if kind = ''not'' then
       rbind (condition_mapping ''condition not'' (get_val condition ''not'')) (\<lambda>child.
       rbind (evaluate_validated_condition re ctx child) (\<lambda>res. Inr (map_option Not res)))
     else evaluate_comparison re ctx condition)"
  by pat_completeness auto
termination
  by (relation "measure (\<lambda>(re, ctx, d). dict_size d)")
    (auto intro: condition_list_size condition_child_size simp del: condition_mapping_Inr)

declare evaluate_validated_condition.simps [simp del]

definition evaluate_action_condition :: "regex_engine \<Rightarrow> condition_context \<Rightarrow> dict \<Rightarrow> bool result" where
  "evaluate_action_condition re ctx condition =
     rbind (validate_action_condition re condition) (\<lambda>_.
     rbind (evaluate_validated_condition re ctx condition) (\<lambda>res.
     Inr (res = Some True)))"

section \<open>Literals against parameter types\<close>

definition scalar_condition_types :: "string list" where
  "scalar_condition_types =
     [''string'', ''integer'', ''long'', ''float'', ''decimal'', ''boolean'', ''date'', ''timestamp'']"

definition expects_parameter_literal_collection :: "string \<Rightarrow> pyval \<Rightarrow> bool \<Rightarrow> bool" where
  "expects_parameter_literal_collection operator v is_parameter_left =
     (if is_parameter_left then operator \<in> {''in'', ''notIn''}
      else operator \<in> {''eachIs'', ''eachIsNot''} \<or> operator = ''contains'' \<and> is_sequence v)"

definition parameter_literal_values :: "pyval \<Rightarrow> bool \<Rightarrow> pyval list result" where
  "parameter_literal_values v should_expect_collection =
     (if \<not> should_expect_collection then Inr [v]
      else case v of
          PList items \<Rightarrow> Inr items
        | _ \<Rightarrow> Inl (ValidationFailed ''action condition literal must be a collection''))"

definition validate_parameter_literal_pair ::
  "dict \<Rightarrow> dict \<Rightarrow> string \<Rightarrow> (string \<times> string) list \<Rightarrow> bool \<Rightarrow> unit result" where
  "validate_parameter_literal_pair parameter literal operator parameter_types is_parameter_left =
     (if get_val parameter ''kind'' \<noteq> PStr ''parameter'' \<or> get_val literal ''kind'' \<noteq> PStr ''literal'' then Inr ()
      else rbind (condition_text parameter ''parameter'') (\<lambda>name.
        case map_of parameter_types name of
          None \<Rightarrow> Inr ()
        | Some data_type \<Rightarrow>
            if data_type \<notin> set scalar_condition_types then Inr ()
            else let v = get_val literal ''value'' in
              rbind (parameter_literal_values v (expects_parameter_literal_collection operator v is_parameter_left))
                (\<lambda>items.
              raise_if (\<not> list_all (matches_scalar_type data_type) items)
                (ValidationFailed ''action condition literal has the wrong parameter type''))))"

definition validate_comparison_parameter_literals :: "dict \<Rightarrow> (string \<times> string) list \<Rightarrow> unit result" where
  "validate_comparison_parameter_literals condition parameter_types =
     rbind (condition_operator condition) (\<lambda>operator.
     if operator = ''exists'' then Inr ()
     else rbind (condition_mapping ''condition value'' (get_val condition ''left'')) (\<lambda>l.
       rbind (condition_mapping ''condition value'' (get_val condition ''right'')) (\<lambda>r.
       rbind (validate_parameter_literal_pair l r operator parameter_types True) (\<lambda>_.
       validate_parameter_literal_pair r l operator parameter_types False))))"

function validate_action_condition_parameter_literals :: "dict \<Rightarrow> (string \<times> string) list \<Rightarrow> unit result" where
  "validate_action_condition_parameter_literals condition parameter_types =
     rbind (condition_node_kind condition) (\<lambda>kind.
     if kind \<in> {''all'', ''any''} then
       rbind (condition_list kind (get_val condition kind)) (\<lambda>children.
       each (\<lambda>child. validate_action_condition_parameter_literals child parameter_types) children)
     else if kind = ''not'' then
       rbind (condition_mapping ''condition not'' (get_val condition ''not'')) (\<lambda>child.
       validate_action_condition_parameter_literals child parameter_types)
     else validate_comparison_parameter_literals condition parameter_types)"
  by pat_completeness auto
termination
  by (relation "measure (\<lambda>(d, ts). dict_size d)")
    (auto intro: condition_list_size condition_child_size simp del: condition_mapping_Inr)

declare validate_action_condition_parameter_literals.simps [simp del]

section \<open>What a condition reads\<close>

text \<open>The four reference collectors walk the tree alike and differ in what they take from the operands
  of a comparison.\<close>

function condition_references :: "(dict \<Rightarrow> 'a set result) \<Rightarrow> dict \<Rightarrow> 'a set result" where
  "condition_references leaf condition =
     rbind (condition_node_kind condition) (\<lambda>kind.
     if kind \<in> {''all'', ''any''} then
       rbind (condition_list kind (get_val condition kind)) (\<lambda>children.
       rbind (map_result (condition_references leaf) children) (\<lambda>refs. Inr (\<Union>(set refs))))
     else if kind = ''not'' then
       rbind (condition_mapping ''condition not'' (get_val condition ''not'')) (condition_references leaf)
     else leaf condition)"
  by pat_completeness auto
termination
  by (relation "measure (\<lambda>(leaf, d). dict_size d)")
    (auto intro: condition_list_size condition_child_size simp del: condition_mapping_Inr)

declare condition_references.simps [simp del]

definition operand_text :: "string \<Rightarrow> string \<Rightarrow> pyval \<Rightarrow> string set" where
  "operand_text kind key raw = (case raw of
       PDict v \<Rightarrow> if get_val v ''kind'' = PStr kind
                  then (case nonempty_text (get_val v key) of None \<Rightarrow> {} | Some s \<Rightarrow> {s}) else {}
     | _ \<Rightarrow> {})"

definition referenced_condition_parameters :: "dict \<Rightarrow> string set result" where
  "referenced_condition_parameters = condition_references (\<lambda>c. Inr (
     operand_text ''parameter'' ''parameter'' (get_val c ''left'')
     \<union> operand_text ''parameter'' ''parameter'' (get_val c ''right'')))"

definition referenced_condition_object_properties :: "dict \<Rightarrow> string set result" where
  "referenced_condition_object_properties = condition_references (\<lambda>c. Inr (
     operand_text ''objectProperty'' ''property'' (get_val c ''left'')
     \<union> operand_text ''objectProperty'' ''property'' (get_val c ''right'')))"

definition condition_value_kind :: "pyval \<Rightarrow> string set" where
  "condition_value_kind raw = (case raw of
       PDict v \<Rightarrow> (case nonempty_text (get_val v ''kind'') of None \<Rightarrow> {} | Some s \<Rightarrow> {s})
     | _ \<Rightarrow> {})"

definition referenced_condition_value_kinds :: "dict \<Rightarrow> string set result" where
  "referenced_condition_value_kinds = condition_references (\<lambda>c. Inr (
     condition_value_kind (get_val c ''left'') \<union> condition_value_kind (get_val c ''right'')))"

record linked_object_property_reference =
  lp_link_type :: string
  lp_direction :: string
  lp_property_name :: string
  lp_aggregation :: string

definition linked_object_ref :: "pyval \<Rightarrow> linked_object_property_reference set result" where
  "linked_object_ref raw = (case raw of
       PDict v \<Rightarrow> if get_val v ''kind'' \<noteq> PStr ''linkedObjectProperty'' then Inr {}
         else rbind (condition_text v ''linkType'') (\<lambda>link_type.
           rbind (linked_direction v) (\<lambda>direction.
           rbind (condition_text v ''property'') (\<lambda>property_name.
           rbind (linked_aggregation v) (\<lambda>aggregation.
           Inr {\<lparr>lp_link_type = link_type, lp_direction = direction, lp_property_name = property_name,
                 lp_aggregation = aggregation\<rparr>}))))
     | _ \<Rightarrow> Inr {})"

definition referenced_linked_object_properties :: "dict \<Rightarrow> linked_object_property_reference set result" where
  "referenced_linked_object_properties = condition_references (\<lambda>c.
     rbind (linked_object_ref (get_val c ''left'')) (\<lambda>l.
     rbind (linked_object_ref (get_val c ''right'')) (\<lambda>r. Inr (l \<union> r))))"

section \<open>Equality of condition values\<close>

lemma mapping_values_equal_iff:
  "mapping_values_equal d d' \<longleftrightarrow> (\<forall>(k, v) \<in> set d. \<exists>w. map_of d' k = Some w \<and> present_values_equal v w)"
  by (induction d) (auto split: option.splits)

lemma collection_values_equal_iff: "collection_values_equal xs ys \<longleftrightarrow> list_all2 present_values_equal xs ys"
  by (induction xs arbitrary: ys) (auto split: list.splits)

lemma numeric_values_equal_iff:
  "numeric_values_equal l r \<longleftrightarrow>
     (\<exists>a b. decimal_number l = Some a \<and> decimal_number r = Some b \<and> sci_val 10 a = sci_val 10 b)"
  by (auto simp: numeric_values_equal_def sci_eq_val split: option.splits)

lemma present_values_equal_simps [simp]:
  "present_values_equal PNone r \<longleftrightarrow> r = PNone"
  "present_values_equal (PBool b) r \<longleftrightarrow> r = PBool b"
  "present_values_equal (PInt n) r \<longleftrightarrow> numeric_values_equal (PInt n) r"
  "present_values_equal (PFloat f) r \<longleftrightarrow> numeric_values_equal (PFloat f) r"
  "present_values_equal (PStr s) r \<longleftrightarrow> r = PStr s"
  "present_values_equal (PList xs) r \<longleftrightarrow> (\<exists>ys. r = PList ys \<and> list_all2 present_values_equal xs ys)"
  "present_values_equal (PDict d) r \<longleftrightarrow> (\<exists>d'. r = PDict d' \<and> length d = length d' \<and> set (dkeys d) = set (dkeys d')
     \<and> (\<forall>(k, v) \<in> set d. \<exists>w. map_of d' k = Some w \<and> present_values_equal v w))"
  by (cases r; auto simp: present_values_equal.simps is_numeric_type_def numeric_values_equal_iff decimal_number_def
      collection_values_equal_iff mapping_values_equal_iff)+

lemma numeric_values_sym: "numeric_values_equal l r \<longleftrightarrow> numeric_values_equal r l"
  by (auto simp: numeric_values_equal_iff)

lemma numeric_values_only: "numeric_values_equal l r \<Longrightarrow> is_numeric_type l \<and> is_numeric_type r"
  by (auto simp: numeric_values_equal_iff decimal_number_def is_numeric_type_def split: pyval.splits)

lemma numeric_values_trans: "numeric_values_equal x y \<Longrightarrow> numeric_values_equal y z \<Longrightarrow> numeric_values_equal x z"
  by (auto simp: numeric_values_equal_iff)

lemma present_equal_numeric:
  "is_numeric_type l \<Longrightarrow> present_values_equal l r \<longleftrightarrow> numeric_values_equal l r"
  by (cases l) (auto simp: is_numeric_type_def)

fun finite_value :: "pyval \<Rightarrow> bool" where
  "finite_value (PFloat f) = (case f of Finite _ _ _ _ \<Rightarrow> True | _ \<Rightarrow> False)"
| "finite_value (PList xs) = (\<forall>x \<in> set xs. finite_value x)"
| "finite_value (PDict d) = (\<forall>x \<in> set (map snd d). finite_value x)"
| "finite_value _ = True"

lemma present_values_refl: "wf_val v \<Longrightarrow> finite_value v \<Longrightarrow> present_values_equal v v"
proof (induction v)
  case (PFloat f)
  then show ?case by (cases f) (auto simp: numeric_values_equal_iff decimal_number_def)
next
  case (PDict d)
  then have "map_of d k = Some v \<and> present_values_equal v v" if "(k, v) \<in> set d" for k v
    using that by (force simp: snds.simps)
  then show ?case by force
qed (auto simp: list_all2_same numeric_values_equal_iff decimal_number_def)

lemma present_values_sym:
  "wf_val l \<Longrightarrow> wf_val r \<Longrightarrow> present_values_equal l r \<Longrightarrow> present_values_equal r l"
proof (induction l arbitrary: r)
  case (PList xs)
  then obtain ys where ys: "r = PList ys" "list_all2 present_values_equal xs ys" by auto
  with PList have "list_all2 present_values_equal ys xs"
    by (auto simp: list_all2_conv_all_nth)
  with ys show ?case by simp
next
  case (PDict d)
  then obtain d' where d': "r = PDict d'" "length d = length d'" "set (dkeys d) = set (dkeys d')"
    "\<forall>(k, v) \<in> set d. \<exists>w. map_of d' k = Some w \<and> present_values_equal v w" by auto
  have "\<exists>v. map_of d k = Some v \<and> present_values_equal w v" if kw: "(k, w) \<in> set d'" for k w
  proof -
    from kw d'(3) obtain v where v: "(k, v) \<in> set d" by (force simp: dkeys_def)
    from kw d'(1) PDict.prems(2) have "map_of d' k = Some w" by simp
    with d'(4) v have "present_values_equal v w" by auto
    moreover from v kw PDict.prems d'(1) have "wf_val v" "wf_val w" by force+
    ultimately have "present_values_equal w v" using PDict.IH [of "(k, v)" v w] v by (simp add: snds.simps)
    with v PDict.prems(1) show ?thesis by auto
  qed
  with d' show ?case by auto
next
  case (PInt n)
  then show ?case using numeric_values_only [of "PInt n" r] by (simp add: present_equal_numeric numeric_values_sym)
next
  case (PFloat f)
  then show ?case using numeric_values_only [of "PFloat f" r] by (simp add: present_equal_numeric numeric_values_sym)
qed auto

lemma present_values_trans:
  "wf_val x \<Longrightarrow> wf_val y \<Longrightarrow> wf_val z \<Longrightarrow> present_values_equal x y \<Longrightarrow> present_values_equal y z \<Longrightarrow> present_values_equal x z"
proof (induction x arbitrary: y z)
  case (PInt n)
  then show ?case using numeric_values_trans [of "PInt n" y z] numeric_values_only [of "PInt n" y]
    by (simp add: present_equal_numeric)
next
  case (PFloat f)
  then show ?case using numeric_values_trans [of "PFloat f" y z] numeric_values_only [of "PFloat f" y]
    by (simp add: present_equal_numeric)
next
  case (PList xs)
  then obtain ys zs where l: "y = PList ys" "z = PList zs" "list_all2 present_values_equal xs ys"
    "list_all2 present_values_equal ys zs" by auto
  with PList have "list_all2 present_values_equal xs zs"
    by (auto simp: list_all2_conv_all_nth) (metis nth_mem)
  with l show ?case by simp
next
  case (PDict d)
  then obtain d1 d2 where m: "y = PDict d1" "z = PDict d2" "length d = length d2" "set (dkeys d) = set (dkeys d2)"
    "\<forall>(k, v) \<in> set d. \<exists>w. map_of d1 k = Some w \<and> present_values_equal v w"
    "\<forall>(k, v) \<in> set d1. \<exists>w. map_of d2 k = Some w \<and> present_values_equal v w" by auto
  have "\<exists>w. map_of d2 k = Some w \<and> present_values_equal v w" if kv: "(k, v) \<in> set d" for k v
  proof -
    from kv m(5) obtain u where u: "map_of d1 k = Some u" "present_values_equal v u" by auto
    from m(6) map_of_SomeD [OF u(1)] obtain w where w: "map_of d2 k = Some w" "present_values_equal u w" by auto
    have "wf_val v" "wf_val u" "wf_val w"
      using PDict.prems(1-3) m(1,2) kv map_of_SomeD [OF u(1)] map_of_SomeD [OF w(1)] by force+
    with PDict.IH [of "(k, v)" v u w] kv u w show ?thesis by (simp add: snds.simps)
  qed
  with m show ?case by auto
qed auto

section \<open>Evaluation of validated conditions\<close>

definition evaluation_errors :: "error set" where
  "evaluation_errors =
     {ValidationFailed ''linked-object condition value was not resolved'',
      ValidationFailed ''action condition regex is too long'', ValidationFailed ''action condition regex is invalid'',
      ValidationFailed ''action condition regex uses an unsafe backtracking construct''}"

lemma condition_value_error:
  assumes "validate_condition_value raw = Inr ()" "condition_value ctx raw = Inl e"
  shows "e \<in> evaluation_errors"
proof -
  from assms(1) obtain v where v: "raw = PDict v" by (auto simp: validate_condition_value_def rbind_eq_Inr)
  consider "get_val v ''kind'' = PStr ''literal''" | "get_val v ''kind'' = PStr ''parameter''"
    | "get_val v ''kind'' = PStr ''objectProperty''" | "get_val v ''kind'' = PStr ''currentUser''"
    | "get_val v ''kind'' = PStr ''linkedObjectProperty''"
    using assms(1) v
    by (auto simp: validate_condition_value_def condition_mapping_def Let_def split: if_splits)
  then show ?thesis
    using assms v
    by cases (auto simp: validate_condition_value_def condition_value_def condition_mapping_def Let_def rbind_eq_Inr
        rbind_eq_Inl linked_object_property_def evaluation_errors_def split: option.splits)
qed

lemma validate_safe_regex_error: "validate_safe_regex_pattern re p = Inl e \<Longrightarrow> e \<in> evaluation_errors"
  by (auto simp: validate_safe_regex_pattern_def rbind_eq_Inl evaluation_errors_def)

lemma compare_values_error:
  assumes "operator \<in> set comparison_operators" "operator \<noteq> ''exists''" "compare_values re operator l r = Inl e"
  shows "e \<in> evaluation_errors"
proof -
  have "map_of (comparisons re) operator \<noteq> None"
    using assms(1,2) by (auto simp: comparison_operators_def comparisons_def)
  moreover have "operator = ''matches''" if "map_of (comparisons re) operator = Some f" "f l r = Inl e" for f
    using that by (auto simp: comparisons_def split: if_splits)
  moreover have "map_of (comparisons re) ''matches'' = Some (matches_pattern re)" by (simp add: comparisons_def)
  ultimately have "matches_pattern re l r = Inl e"
    using assms(3) by (auto simp: compare_values_def)
  then show ?thesis
    by (auto simp: matches_pattern_def rbind_eq_Inl dest: validate_safe_regex_error split: pyval.splits if_splits)
qed

lemma condition_operator_Inr:
  "condition_operator c = Inr operator \<longleftrightarrow> get_val c ''op'' = PStr operator \<and> operator \<in> set comparison_operators"
  by (auto simp: condition_operator_def split: pyval.splits)

lemma validate_comparison_Inr:
  assumes "validate_comparison re c = Inr ()"
  obtains operator where "condition_operator c = Inr operator"
    "validate_condition_value (get_val c ''left'') = Inr ()"
    "operator \<noteq> ''exists'' \<longrightarrow> validate_condition_value (get_val c ''right'') = Inr ()"
  using assms unfolding validate_comparison_def by (elim rbind_InrE) (auto split: if_splits)

lemma evaluate_comparison_error:
  assumes "validate_comparison re c = Inr ()" "evaluate_comparison re ctx c = Inl e"
  shows "e \<in> evaluation_errors"
proof -
  obtain operator where operator: "condition_operator c = Inr operator"
    and l: "validate_condition_value (get_val c ''left'') = Inr ()"
    and r: "operator \<noteq> ''exists'' \<longrightarrow> validate_condition_value (get_val c ''right'') = Inr ()"
    by (rule validate_comparison_Inr [OF assms(1)])
  show ?thesis
  proof (cases "condition_value ctx (get_val c ''left'')")
    case (Inl e')
    with assms(2) operator have "e = e'" by (simp add: evaluate_comparison_def)
    with condition_value_error [OF l Inl] show ?thesis by simp
  next
    case left: (Inr x)
    with assms(2) operator have ne: "operator \<noteq> ''exists''" by (auto simp: evaluate_comparison_def)
    with r have r: "validate_condition_value (get_val c ''right'') = Inr ()" by simp
    show ?thesis
    proof (cases "condition_value ctx (get_val c ''right'')")
      case (Inl e')
      with assms(2) operator left ne have "e = e'" by (simp add: evaluate_comparison_def)
      with condition_value_error [OF r Inl] show ?thesis by simp
    next
      case (Inr y)
      with assms(2) operator left ne obtain a b where
        "compare_operands re operator (op_data_type x) (op_data_type y) a b = Inl e"
        by (auto simp: evaluate_comparison_def rbind_eq_Inl split: option.splits)
      then have "compare_values re operator a b = Inl e" by (simp add: compare_operands_def split: if_splits)
      from compare_values_error [OF _ ne this] operator show ?thesis by (simp add: condition_operator_Inr)
    qed
  qed
qed

subsection \<open>Induction over condition trees\<close>

lemma condition_induct [case_names node]:
  assumes "\<And>c. (\<And>kind cs x. condition_list kind (get_val c kind) = Inr cs \<Longrightarrow> x \<in> set cs \<Longrightarrow> P x)
      \<Longrightarrow> (\<And>x. get_val c ''not'' = PDict x \<Longrightarrow> P x) \<Longrightarrow> P c"
  shows "P c"
proof (induction c rule: measure_induct_rule [of dict_size])
  case (less c)
  show ?case
  proof (rule assms)
    show "P x" if "condition_list kind (get_val c kind) = Inr cs" "x \<in> set cs" for kind cs x
      by (rule less) (rule condition_list_size [OF that])
    show "P x" if "get_val c ''not'' = PDict x" for x
      by (rule less) (rule condition_child_size [of "[]" c "''not''"], simp add: that)
  qed
qed

lemma condition_node_cases:
  assumes "condition_node_kind c = Inr kind"
  obtains (group) "kind \<in> {''all'', ''any''}" | (neg) "kind = ''not''" | (comparison) "kind = ''op''"
  using assms by (auto simp: condition_node_kind_def split: list.splits if_splits)

lemma evaluate_group:
  "condition_node_kind c = Inr kind \<Longrightarrow> kind \<in> {''all'', ''any''} \<Longrightarrow>
   evaluate_validated_condition re ctx c = rbind (condition_list kind (get_val c kind)) (\<lambda>cs.
     rbind (map_result (evaluate_validated_condition re ctx) cs) (\<lambda>results. Inr (logical_result kind results)))"
  by (subst evaluate_validated_condition.simps) simp

lemma evaluate_not:
  "condition_node_kind c = Inr ''not'' \<Longrightarrow> evaluate_validated_condition re ctx c =
     rbind (condition_mapping ''condition not'' (get_val c ''not'')) (\<lambda>child.
     rbind (evaluate_validated_condition re ctx child) (\<lambda>res. Inr (map_option Not res)))"
  by (subst evaluate_validated_condition.simps) simp

lemma evaluate_op:
  "condition_node_kind c = Inr ''op'' \<Longrightarrow> evaluate_validated_condition re ctx c = evaluate_comparison re ctx c"
  by (subst evaluate_validated_condition.simps) simp

lemmas evaluate_nodes = evaluate_group evaluate_not evaluate_op

lemma validated_condition_cases:
  assumes "validate_action_condition re c = Inr ()"
  obtains (group) kind cs where "condition_node_kind c = Inr kind" "kind \<in> {''all'', ''any''}"
      "condition_list kind (get_val c kind) = Inr cs" "\<And>x. x \<in> set cs \<Longrightarrow> validate_action_condition re x = Inr ()"
  | (neg) x where "condition_node_kind c = Inr ''not''" "get_val c ''not'' = PDict x"
      "validate_action_condition re x = Inr ()"
  | (comparison) "condition_node_kind c = Inr ''op''" "validate_comparison re c = Inr ()"
proof -
  obtain kind where kind: "condition_node_kind c = Inr kind"
    using assms by (cases "condition_node_kind c") (auto simp: validate_action_condition.simps [of re c])
  then show thesis
  proof (cases rule: condition_node_cases)
    case group
    with assms kind obtain cs where "condition_list kind (get_val c kind) = Inr cs"
      "\<forall>x \<in> set cs. validate_action_condition re x = Inr ()"
      by (auto simp: validate_action_condition.simps [of re c] each_Inr elim!: rbind_InrE)
    with that(1) [OF kind group, of cs] show thesis by blast
  next
    case neg
    with assms kind show thesis
      by (auto simp: validate_action_condition.simps [of re c] intro: that(2) elim!: rbind_InrE)
  next
    case comparison
    with assms kind show thesis
      by (intro that(3)) (auto simp: validate_action_condition.simps [of re c] elim!: rbind_InrE)
  qed
qed

lemma evaluate_validated_error:
  "validate_action_condition re c = Inr () \<Longrightarrow> evaluate_validated_condition re ctx c = Inl e \<Longrightarrow> e \<in> evaluation_errors"
proof (induction c rule: condition_induct)
  case (node c)
  from node.prems(1) show ?case
  proof (cases rule: validated_condition_cases)
    case (group kind cs)
    with node.prems(2) obtain x where "x \<in> set cs" "evaluate_validated_condition re ctx x = Inl e"
      by (auto simp: evaluate_group rbind_eq_Inl dest!: map_result_Inl)
    with node.IH(1) [OF group(3)] group(4) show ?thesis by blast
  next
    case (neg x)
    with node.prems(2) have "evaluate_validated_condition re ctx x = Inl e"
      by (simp add: evaluate_not rbind_eq_Inl condition_mapping_def)
    with node.IH(2) neg show ?thesis by blast
  next
    case comparison
    with node.prems(2) show ?thesis by (simp add: evaluate_op evaluate_comparison_error)
  qed
qed

subsection \<open>More information never changes a decision\<close>

text \<open>The later context knows every value the earlier one knows, and possibly more.\<close>

definition knows_more :: "condition_context \<Rightarrow> condition_context \<Rightarrow> bool" where
  "knows_more ctx ctx' \<longleftrightarrow>
     map_of (cc_parameters ctx) \<subseteq>\<^sub>m map_of (cc_parameters ctx')
     \<and> map_of (cc_object_properties ctx) \<subseteq>\<^sub>m map_of (cc_object_properties ctx')
     \<and> map_of (cc_actor_attributes ctx) \<subseteq>\<^sub>m map_of (cc_actor_attributes ctx')
     \<and> cc_actor_user_id ctx' = cc_actor_user_id ctx \<and> cc_actor_groups ctx' = cc_actor_groups ctx
     \<and> cc_linked_object_properties ctx' = cc_linked_object_properties ctx
     \<and> cc_parameter_types ctx' = cc_parameter_types ctx
     \<and> cc_object_property_types ctx' = cc_object_property_types ctx
     \<and> cc_linked_object_property_types ctx' = cc_linked_object_property_types ctx"

definition less_defined :: "'a option \<Rightarrow> 'a option \<Rightarrow> bool" where
  "less_defined x y \<longleftrightarrow> x = None \<or> x = y"

lemma map_le_less_defined: "m \<subseteq>\<^sub>m m' \<Longrightarrow> less_defined (m k) (m' k)"
  by (cases "m k") (auto simp: map_le_def less_defined_def dom_def)

lemma condition_value_mono:
  assumes more: "knows_more ctx ctx'" and run: "condition_value ctx raw = Inr x" "condition_value ctx' raw = Inr y"
  shows "less_defined (op_value x) (op_value y) \<and> op_data_type x = op_data_type y"
proof -
  from run obtain v where v: "raw = PDict v" by (auto simp: condition_value_def rbind_eq_Inr)
  have user: "less_defined (current_user ctx a) (current_user ctx' a)" for a
    using more by (auto simp: knows_more_def current_user_def less_defined_def map_le_less_defined [unfolded less_defined_def]
        split: option.splits)
  consider "get_val v ''kind'' = PStr ''literal''" | "get_val v ''kind'' = PStr ''parameter''"
    | "get_val v ''kind'' = PStr ''objectProperty''" | "get_val v ''kind'' = PStr ''currentUser''"
    | "get_val v ''kind'' = PStr ''linkedObjectProperty''"
    using run(1) v by (auto simp: condition_value_def condition_mapping_def Let_def split: if_splits)
  then show ?thesis
    using run v more user
    by cases (auto simp: condition_value_def condition_mapping_def Let_def knows_more_def map_le_less_defined
        less_defined_def [of "Some _"] linked_object_property_def elim!: rbind_InrE split: option.splits)
qed

lemma evaluate_comparison_mono:
  assumes more: "knows_more ctx ctx'" and op: "get_val c ''op'' \<noteq> PStr ''exists''"
    and run: "evaluate_comparison re ctx c = Inr x" "evaluate_comparison re ctx' c = Inr y"
  shows "less_defined x y"
proof -
  from run(1) obtain operator l r where parts: "condition_operator c = Inr operator"
    "condition_value ctx (get_val c ''left'') = Inr l" "condition_value ctx (get_val c ''right'') = Inr r"
    using op by (auto simp: evaluate_comparison_def condition_operator_Inr elim!: rbind_InrE split: if_splits)
  moreover from run(2) parts(1) obtain l' r' where parts':
    "condition_value ctx' (get_val c ''left'') = Inr l'" "condition_value ctx' (get_val c ''right'') = Inr r'"
    using op by (auto simp: evaluate_comparison_def condition_operator_Inr elim!: rbind_InrE split: if_splits)
  moreover note condition_value_mono [OF more parts(2) parts'(1)] condition_value_mono [OF more parts(3) parts'(2)]
  moreover have "operator \<noteq> ''exists''" using parts(1) op by (auto simp: condition_operator_Inr)
  ultimately show ?thesis
    using run by (auto simp: evaluate_comparison_def less_defined_def split: option.splits)
qed

lemma logical_result_mono:
  assumes "list_all2 less_defined xs ys"
  shows "less_defined (logical_result kind xs) (logical_result kind ys)"
proof -
  have "Some b \<in> set ys" if "Some b \<in> set xs" for b
    using assms that by (auto simp: list_all2_conv_all_nth in_set_conv_nth less_defined_def)
      (metis option.distinct(1))
  moreover have "xs = ys" if "None \<notin> set xs"
    using assms that by (induction rule: list_all2_induct) (auto simp: less_defined_def)
  ultimately show ?thesis by (auto simp: logical_result_def less_defined_def Let_def)
qed

text \<open>The operators a condition uses.\<close>

definition condition_operators_used :: "dict \<Rightarrow> pyval set result" where
  "condition_operators_used = condition_references (\<lambda>c. Inr {get_val c ''op''})"

lemma evaluate_validated_mono:
  assumes more: "knows_more ctx ctx'"
  shows "condition_operators_used c = Inr ops \<Longrightarrow> PStr ''exists'' \<notin> ops \<Longrightarrow>
    evaluate_validated_condition re ctx c = Inr x \<Longrightarrow> evaluate_validated_condition re ctx' c = Inr y \<Longrightarrow>
    less_defined x y"
proof (induction c arbitrary: ops x y rule: condition_induct)
  case (node c)
  from node.prems(3) obtain kind where kind: "condition_node_kind c = Inr kind"
    by (subst (asm) evaluate_validated_condition.simps) (auto elim!: rbind_InrE)
  then show ?case
  proof (cases rule: condition_node_cases)
    case group
    with node.prems kind obtain cs refs xs ys where cs: "condition_list kind (get_val c kind) = Inr cs"
      and refs: "map_result condition_operators_used cs = Inr refs" "ops = \<Union>(set refs)"
      and xs: "map_result (evaluate_validated_condition re ctx) cs = Inr xs" "x = logical_result kind xs"
      and ys: "map_result (evaluate_validated_condition re ctx') cs = Inr ys" "y = logical_result kind ys"
      by (auto simp: evaluate_group condition_operators_used_def condition_references.simps [of _ c] elim!: rbind_InrE)
    have "less_defined (xs ! i) (ys ! i)" if "i < length cs" for i
    proof (rule node.IH(1) [OF cs])
      show "cs ! i \<in> set cs" using that by simp
      show "condition_operators_used (cs ! i) = Inr (refs ! i)" "PStr ''exists'' \<notin> refs ! i"
        using refs that node.prems(2) by (auto simp: map_result_Inr list_all2_conv_all_nth)
      show "evaluate_validated_condition re ctx (cs ! i) = Inr (xs ! i)"
        "evaluate_validated_condition re ctx' (cs ! i) = Inr (ys ! i)"
        using xs(1) ys(1) that by (simp_all add: map_result_Inr list_all2_conv_all_nth)
    qed
    then have "list_all2 less_defined xs ys"
      using xs(1) ys(1) by (simp add: map_result_Inr list_all2_conv_all_nth)
    with xs(2) ys(2) show ?thesis by (simp add: logical_result_mono)
  next
    case neg
    with node.prems kind obtain child x' y' where child: "get_val c ''not'' = PDict child"
      "condition_operators_used child = Inr ops"
      "evaluate_validated_condition re ctx child = Inr x'" "x = map_option Not x'"
      "evaluate_validated_condition re ctx' child = Inr y'" "y = map_option Not y'"
      by (auto simp: evaluate_not condition_operators_used_def condition_references.simps [of _ c] elim!: rbind_InrE)
    with node.IH(2) [OF child(1,2) node.prems(2) child(3,5)] show ?thesis by (auto simp: less_defined_def)
  next
    case comparison
    with node.prems kind show ?thesis
      by (intro evaluate_comparison_mono [OF more, of c])
        (auto simp: evaluate_op condition_operators_used_def condition_references.simps [of _ c])
  qed
qed

section \<open>Properties\<close>

text \<open>
  On JSON values with unique keys and finite numbers, the equality of conditions is an equivalence
  relation, numbers are equal exactly when they denote the same decimal number, and a boolean never
  equals a number.
\<close>

theorem condition_equality_equivalence:
  assumes "\<forall>v \<in> {x, y, z}. wf_val v \<and> finite_value v"
  shows "action_condition_values_equal (Some x) (Some x)
    \<and> (action_condition_values_equal (Some x) (Some y) \<longrightarrow> action_condition_values_equal (Some y) (Some x))
    \<and> (action_condition_values_equal (Some x) (Some y) \<longrightarrow> action_condition_values_equal (Some y) (Some z)
         \<longrightarrow> action_condition_values_equal (Some x) (Some z))
    \<and> (decimal_number x = Some a \<longrightarrow> decimal_number y = Some b \<longrightarrow>
         action_condition_values_equal (Some x) (Some y) = (sci_val 10 a = sci_val 10 b))
    \<and> (decimal_number x = Some a \<longrightarrow> \<not> action_condition_values_equal (Some (PBool t)) (Some x))"
proof -
  have "is_numeric_type v" if "decimal_number v = Some d" for v d
    using that by (auto simp: decimal_number_def is_numeric_type_def split: pyval.splits)
  then have "present_values_equal x y = (sci_val 10 a = sci_val 10 b)"
    if "decimal_number x = Some a" "decimal_number y = Some b"
    using that by (auto simp: present_equal_numeric numeric_values_equal_iff)
  moreover have "\<not> present_values_equal (PBool t) x" if "decimal_number x = Some a"
    using that by (auto simp: decimal_number_def)
  ultimately show ?thesis
    using assms present_values_refl [of x] present_values_sym [of x y] present_values_trans [of x y z]
    by (simp add: action_condition_values_equal_def)
qed

theorem condition_equality_equivalence_witness:
  "action_condition_values_equal (Some (PFloat (Finite 3 (-1) 15 (-1)))) (Some (PFloat (Finite 3 (-1) 150 (-2))))
   \<and> \<not> action_condition_values_equal (Some (PBool True)) (Some (PFloat (Finite 3 (-1) 15 (-1))))"
  using condition_equality_equivalence [of "PFloat (Finite 3 (-1) 15 (-1))" "PFloat (Finite 3 (-1) 150 (-2))"
      "PFloat (Finite 3 (-1) 150 (-2))" "(15, -1)" "(150, -2)" True]
  by (simp add: decimal_number_def sci_val_def power_int_def power2_eq_square)

text \<open>
  Once a condition has been validated, evaluating it can only fail because a linked value was not
  resolved or because a pattern that comes from a value is refused by the pattern guard: every operator
  that validation accepts can be evaluated, whatever the operands are.
\<close>

theorem evaluate_action_condition_error_origin:
  assumes "validate_action_condition re c = Inr ()" "evaluate_action_condition re ctx c = Inl e"
  shows "e \<in> evaluation_errors"
  using assms by (auto simp: evaluate_action_condition_def rbind_eq_Inl intro: evaluate_validated_error)

definition sample_condition :: dict where
  "sample_condition = [(''all'', PList
     [PDict [(''op'', PStr ''matches''), (''left'', PDict [(''kind'', PStr ''parameter''), (''parameter'', PStr ''code'')]),
             (''right'', PDict [(''kind'', PStr ''parameter''), (''parameter'', PStr ''pattern'')])],
      PDict [(''not'', PDict [(''op'', PStr ''eq''),
               (''left'', PDict [(''kind'', PStr ''objectProperty''), (''property'', PStr ''state'')]),
               (''right'', PDict [(''kind'', PStr ''literal''), (''value'', PStr ''closed'')])])]])]"

definition sample_engine :: regex_engine where
  "sample_engine = \<lparr>re_compiles = (\<lambda>_. True), re_fullmatch = (=)\<rparr>"

definition sample_context :: "string \<Rightarrow> condition_context" where
  "sample_context pattern = \<lparr>cc_parameters = [(''code'', PStr ''A1''), (''pattern'', PStr pattern)],
     cc_object_properties = [(''state'', PStr ''open'')], cc_actor_user_id = ''u'', cc_actor_groups = [],
     cc_actor_attributes = [], cc_linked_object_properties = [], cc_parameter_types = [],
     cc_object_property_types = [], cc_linked_object_property_types = []\<rparr>"

theorem evaluate_action_condition_error_origin_witness:
  "validate_action_condition sample_engine sample_condition = Inr ()
   \<and> (\<exists>e \<in> evaluation_errors. evaluate_action_condition sample_engine (sample_context ''(a+)+'') sample_condition = Inl e)"
proof -
  have ok: "validate_action_condition sample_engine sample_condition = Inr ()" by code_simp
  have "case evaluate_action_condition sample_engine (sample_context ''(a+)+'') sample_condition of
      Inl _ \<Rightarrow> True | Inr _ \<Rightarrow> False" by code_simp
  then obtain e where "evaluate_action_condition sample_engine (sample_context ''(a+)+'') sample_condition = Inl e"
    by (auto split: sum.splits)
  with evaluate_action_condition_error_origin [OF ok this] ok show ?thesis by blast
qed

text \<open>
  C39. A missing value never decides: if a condition without the operator \<^verbatim>\<open>exists\<close> is satisfied while some
  parameters, object properties or user attributes are missing, then it stays satisfied whatever those
  values turn out to be, or its evaluation is refused.
\<close>

theorem satisfied_condition_stays_satisfied:
  assumes "condition_operators_used c = Inr ops" "PStr ''exists'' \<notin> ops"
    and "knows_more ctx ctx'" "evaluate_action_condition re ctx c = Inr True"
  shows "case evaluate_action_condition re ctx' c of Inl e \<Rightarrow> e \<in> evaluation_errors | Inr b \<Rightarrow> b"
proof -
  from assms(4) have valid: "validate_action_condition re c = Inr ()"
    and run: "evaluate_validated_condition re ctx c = Inr (Some True)"
    by (auto simp: evaluate_action_condition_def elim!: rbind_InrE)
  show ?thesis
  proof (cases "evaluate_validated_condition re ctx' c")
    case (Inl e)
    with valid evaluate_validated_error show ?thesis by (simp add: evaluate_action_condition_def)
  next
    case (Inr y)
    from evaluate_validated_mono [OF assms(3,1,2) run Inr] Inr valid show ?thesis
      by (auto simp: evaluate_action_condition_def less_defined_def)
  qed
qed

theorem satisfied_condition_stays_satisfied_witness:
  "(case evaluate_action_condition sample_engine ((sample_context ''A1'')\<lparr>cc_actor_attributes := [(''site'', PStr ''x'')]\<rparr>)
      sample_condition of Inl e \<Rightarrow> e \<in> evaluation_errors | Inr b \<Rightarrow> b)"
proof (rule satisfied_condition_stays_satisfied [where ctx = "sample_context ''A1''" and ops = "{PStr ''matches'', PStr ''eq''}"])
  show "condition_operators_used sample_condition = Inr {PStr ''matches'', PStr ''eq''}" by code_simp
  show "evaluate_action_condition sample_engine (sample_context ''A1'') sample_condition = Inr True" by code_simp
  show "knows_more (sample_context ''A1'') ((sample_context ''A1'')\<lparr>cc_actor_attributes := [(''site'', PStr ''x'')]\<rparr>)"
    by (simp add: knows_more_def sample_context_def)
qed simp

section \<open>What the guards let through\<close>

text \<open>The guard on group identity stops the operators \<^verbatim>\<open>neq\<close> and \<^verbatim>\<open>notIn\<close> but not \<^verbatim>\<open>eachIsNot\<close>, which is
  negative as well: a user without the group satisfies this condition.\<close>

definition not_in_group :: dict where
  "not_in_group = [(''op'', PStr ''eachIsNot''),
     (''left'', PDict [(''kind'', PStr ''currentUser''), (''attribute'', PStr ''groups'')]),
     (''right'', PDict [(''kind'', PStr ''literal''), (''value'', PStr ''auditors'')])]"

lemma negative_group_condition_accepted:
  "validate_action_condition sample_engine not_in_group = Inr ()
   \<and> evaluate_action_condition sample_engine (sample_context []) not_in_group = Inr True"
  by code_simp

text \<open>The quantifier \<open>{,9}\<close> is a repetition of Python's syntax, but the guard does not see it.\<close>

lemma open_ended_quantifier_accepted: "regex_backtracking_risk ''(a+){,9}'' = None"
  by code_simp

text \<open>A direction that is a list is not reported as a validation failure: testing it for membership
  raises.\<close>

lemma unhashable_direction_raises:
  "validate_condition_value (PDict [(''kind'', PStr ''linkedObjectProperty''), (''linkType'', PStr ''l''),
     (''property'', PStr ''p''), (''direction'', PList [])]) = Inl TypeError"
  by code_simp

end
