(* ===== verification/Row_Policy.thy ===== *)
theory Row_Policy
  imports Conditions
begin

text \<open>
  \<^verbatim>\<open>application/query_filters.py\<close> and \<^verbatim>\<open>application/services/object_store/row_policies.py\<close>: the filter
  language of object queries, with and without property types, and the row-level security built on it.
  Shown: what a caller sees is exactly the union of the filters of the roles held, nothing when none is
  held, and a query filter can only narrow it; a validated typed filter can fail on a row only where a
  timestamp has no UTC instant.
\<close>

section \<open>Untyped filter operations\<close>

fun filter_number :: "pyval \<Rightarrow> extended option option" where
  "filter_number (PInt n) = Some (py_number (PInt n))"
| "filter_number (PFloat f) = Some (py_number (PFloat f))"
| "filter_number _ = None"

text \<open>Comparison of two numbers or two texts; anything else, and NaN, compares false.\<close>

definition filter_order :: "order_op \<Rightarrow> pyval \<Rightarrow> pyval \<Rightarrow> bool" where
  "filter_order op current v =
     (case (filter_number current, filter_number v) of
        (Some a, Some b) \<Rightarrow> (case (a, b) of
            (Some x, Some y) \<Rightarrow> apply_order op extended_less x y
          | _ \<Rightarrow> False)
      | _ \<Rightarrow> (case (current, v) of
          (PStr s, PStr t) \<Rightarrow> apply_order op (<) s t
        | _ \<Rightarrow> False))"

definition filter_in :: "pyval \<Rightarrow> pyval \<Rightarrow> bool" where
  "filter_in current v = (case v of PList items \<Rightarrow> list_ex (present_values_equal current) items | _ \<Rightarrow> False)"

definition filter_contains :: "pyval \<Rightarrow> pyval \<Rightarrow> bool" where
  "filter_contains current v = (case (current, v) of
       (PStr s, PStr t) \<Rightarrow> contains_text (py_lower s) (py_lower t)
     | _ \<Rightarrow> False)"

definition filter_operations :: "(string \<times> (pyval \<Rightarrow> pyval \<Rightarrow> bool)) list" where
  "filter_operations = [(''eq'', present_values_equal), (''in'', filter_in), (''gte'', filter_order Gte),
     (''gt'', filter_order Gt), (''lte'', filter_order Lte), (''lt'', filter_order Lt), (''contains'', filter_contains)]"

section \<open>Typed filter operations\<close>

text \<open>The normalised values of a typed property; \<open>None\<close> is the marker of an invalid value. A normalised
  float is compared by its exact binary value, which orders and separates floats as their texts do.\<close>

datatype filter_value = FNone | FInt int | FNum sci | FBool bool | FText string

definition typed_filter_value :: "pyval \<Rightarrow> string \<Rightarrow> filter_value option result" where
  "typed_filter_value v data_type =
     (if v = PNone then Inr (Some FNone)
      else if data_type = ''integer'' then Inr (map_option FInt (integer_value v))
      else if data_type = ''float'' \<or> data_type = ''number'' then Inr (map_option FNum (finite_number_value v))
      else if data_type = ''boolean'' then Inr (case v of PBool b \<Rightarrow> Some (FBool b) | _ \<Rightarrow> None)
      else if data_type = ''date'' then
        Inr (case v of PStr s \<Rightarrow> if is_iso_date v then Some (FText s) else None | _ \<Rightarrow> None)
      else if data_type = ''timestamp'' then rbind (timestamp_microseconds v) (\<lambda>t. Inr (map_option FInt t))
      else if data_type = ''string'' then Inr (case v of PStr s \<Rightarrow> Some (FText s) | _ \<Rightarrow> None)
      else Inr None)"

fun typed_equal :: "filter_value \<Rightarrow> filter_value \<Rightarrow> bool" where
  "typed_equal (FNum x) (FNum y) = sci_eq 2 x y"
| "typed_equal x y = (x = y)"

fun typed_order :: "order_op \<Rightarrow> filter_value \<Rightarrow> filter_value \<Rightarrow> bool" where
  "typed_order op (FInt x) (FInt y) = apply_order op (<) x y"
| "typed_order op (FNum x) (FNum y) = apply_order op (sci_less 2) x y"
| "typed_order op (FText x) (FText y) = apply_order op (<) x y"
| "typed_order op _ _ = False"

text \<open>\<^verbatim>\<open>FILTER_OPERATIONS[op]\<close> on normalised values.\<close>

definition typed_compare :: "string \<Rightarrow> filter_value \<Rightarrow> filter_value \<Rightarrow> bool result" where
  "typed_compare op a b =
     (if op = ''eq'' then Inr (typed_equal a b)
      else case order_operator op of Some ord \<Rightarrow> Inr (typed_order ord a b) | None \<Rightarrow> Inl KeyError)"

definition matches_typed_in :: "pyval \<Rightarrow> pyval \<Rightarrow> string \<Rightarrow> bool result" where
  "matches_typed_in current expected data_type = (case expected of
       PList items \<Rightarrow>
         rbind (typed_filter_value current data_type) (\<lambda>c. case c of
             None \<Rightarrow> Inr False
           | Some x \<Rightarrow> rbind (map_result (\<lambda>item. typed_filter_value item data_type) items) (\<lambda>candidates.
               Inr (list_ex (\<lambda>y. case y of None \<Rightarrow> False | Some y \<Rightarrow> typed_equal x y) candidates)))
     | _ \<Rightarrow> Inr False)"

definition matches_typed_filter :: "pyval \<Rightarrow> string \<Rightarrow> pyval \<Rightarrow> string \<Rightarrow> bool result" where
  "matches_typed_filter current op expected data_type =
     (if op = ''in'' then matches_typed_in current expected data_type
      else if op = ''contains'' then Inr (data_type = ''string'' \<and> filter_contains current expected)
      else rbind (typed_filter_value current data_type) (\<lambda>c.
        rbind (typed_filter_value expected data_type) (\<lambda>x.
        case (c, x) of
          (Some a, Some b) \<Rightarrow> typed_compare op a b
        | _ \<Rightarrow> Inr False)))"

section \<open>Filter documents\<close>

definition filter_node :: "dict \<Rightarrow> string result" where
  "filter_node ast = (case filter (has_key ast) [''and'', ''or'', ''op''] of
       [node] \<Rightarrow>
         (let allowed = (if node \<in> {''and'', ''or''} then [node] else [''property'', ''op'', ''value'']) in
          if \<exists>name \<in> set (dkeys ast). name \<notin> set allowed
          then Inl (ValidationFailed ''filter contains unsupported fields'') else Inr node)
     | _ \<Rightarrow> Inl (ValidationFailed ''filter must contain exactly one logical or property node''))"

fun filter_group_item :: "pyval \<Rightarrow> dict result" where
  "filter_group_item (PDict d) = Inr d"
| "filter_group_item _ = Inl (ValidationFailed ''filter logical group items must be objects'')"

definition filter_group :: "pyval \<Rightarrow> dict list result" where
  "filter_group v = (case v of
       PList items \<Rightarrow>
         rbind (raise_if (items = []) (ValidationFailed ''filter logical group must be a non-empty list'')) (\<lambda>_.
         map_result filter_group_item items)
     | _ \<Rightarrow> Inl (ValidationFailed ''filter logical group must be a list''))"

definition required_filter_string :: "dict \<Rightarrow> string \<Rightarrow> string result" where
  "required_filter_string ast key = (case get_val ast key of
       PStr s \<Rightarrow> Inr s
     | _ \<Rightarrow> Inl (ValidationFailed ''filter field must be a string''))"

definition required_filter_value :: "dict \<Rightarrow> string \<Rightarrow> pyval result" where
  "required_filter_value ast key = (case map_of ast key of
       Some v \<Rightarrow> Inr v
     | None \<Rightarrow> Inl (ValidationFailed ''filter field is required''))"

definition required_property_data_type :: "string \<Rightarrow> (string \<times> string) list \<Rightarrow> string result" where
  "required_property_data_type prop types = (case map_of types prop of
       Some t \<Rightarrow> Inr t
     | None \<Rightarrow> Inl (ValidationFailed ''filter references unknown property''))"

definition validate_filter_operator_type :: "string \<Rightarrow> string \<Rightarrow> unit result" where
  "validate_filter_operator_type op data_type =
     rbind (raise_if (op = ''contains'' \<and> data_type \<noteq> ''string'')
              (ValidationFailed ''contains filter requires a string property'')) (\<lambda>_.
     raise_if (op \<in> {''gt'', ''gte'', ''lt'', ''lte''} \<and> data_type = ''boolean'')
       (ValidationFailed ''range filter does not support boolean properties''))"

definition typed_filter_candidates :: "string \<Rightarrow> pyval \<Rightarrow> pyval list result" where
  "typed_filter_candidates op v =
     (if op = ''in'' then
        (case v of PList items \<Rightarrow> Inr items | _ \<Rightarrow> Inl (ValidationFailed ''in filter value must be a list''))
      else Inr [v])"

definition validate_filter_candidate :: "string \<Rightarrow> string \<Rightarrow> pyval \<Rightarrow> unit result" where
  "validate_filter_candidate op data_type item =
     (if item = PNone \<and> op \<in> {''eq'', ''in''} then Inr ()
      else rbind (typed_filter_value item data_type) (\<lambda>v.
        raise_if (v = None) (ValidationFailed ''filter value does not match property type'')))"

definition validate_typed_filter :: "string \<Rightarrow> string \<Rightarrow> pyval \<Rightarrow> (string \<times> string) list \<Rightarrow> unit result" where
  "validate_typed_filter prop op v types =
     rbind (required_property_data_type prop types) (\<lambda>data_type.
     rbind (validate_filter_operator_type op data_type) (\<lambda>_.
     rbind (typed_filter_candidates op v) (\<lambda>items.
     each (validate_filter_candidate op data_type) items)))"

definition validate_property_filter :: "dict \<Rightarrow> (string \<times> string) list option \<Rightarrow> unit result" where
  "validate_property_filter ast types =
     rbind (required_filter_string ast ''op'') (\<lambda>op.
     rbind (required_filter_string ast ''property'') (\<lambda>prop.
     rbind (required_filter_value ast ''value'') (\<lambda>v.
     rbind (raise_if (map_of filter_operations op = None) (ValidationFailed ''unsupported filter operation'')) (\<lambda>_.
     case types of None \<Rightarrow> Inr () | Some ts \<Rightarrow> validate_typed_filter prop op v ts))))"

definition matches_property_filter :: "dict \<Rightarrow> dict \<Rightarrow> (string \<times> string) list option \<Rightarrow> bool result" where
  "matches_property_filter properties ast types =
     rbind (required_filter_string ast ''property'') (\<lambda>prop.
     rbind (required_filter_string ast ''op'') (\<lambda>op.
     case map_of filter_operations op of
       None \<Rightarrow> Inl (ValidationFailed ''unsupported filter operation'')
     | Some evaluator \<Rightarrow>
         rbind (required_filter_value ast ''value'') (\<lambda>expected.
         case types of
           None \<Rightarrow> Inr (evaluator (get_val properties prop) expected)
         | Some ts \<Rightarrow> rbind (required_property_data_type prop ts) (\<lambda>data_type.
             matches_typed_filter (get_val properties prop) op expected data_type))))"

lemma filter_group_item_Inr [simp]: "filter_group_item v = Inr d \<longleftrightarrow> v = PDict d"
  by (cases v) auto

lemma filter_group_Inr:
  "filter_group v = Inr cs \<longleftrightarrow> cs \<noteq> [] \<and> v = PList (map PDict cs)"
proof -
  have "list_all2 (\<lambda>x y. x = PDict y) items cs \<longleftrightarrow> items = map PDict cs" for items
    by (auto simp: list_all2_conv_all_nth list_eq_iff_nth_eq)
  then show ?thesis by (auto simp: filter_group_def map_result_Inr rbind_eq_Inr split: pyval.splits)
qed

lemma filter_group_member:
  assumes "filter_group v = Inr cs" "c \<in> set cs"
  obtains items where "v = PList items" "PDict c \<in> set items"
  using assms by (auto simp: filter_group_Inr)

lemma filter_group_size:
  assumes "filter_group (get_val d k) = Inr cs" "c \<in> set cs"
  shows "dict_size c < dict_size d"
proof -
  obtain items where items: "get_val d k = PList items" "PDict c \<in> set items"
    by (rule filter_group_member [OF assms])
  then have "size (PDict c) < size (PList items)" by (simp add: size_list_estimation' less_Suc_eq_le)
  with get_val_size [OF items(1)] show ?thesis by (simp add: dict_size_def)
qed

function validate_filter_ast :: "(string \<times> string) list option \<Rightarrow> dict \<Rightarrow> unit result" where
  "validate_filter_ast types ast =
     rbind (filter_node ast) (\<lambda>node.
     if node \<in> {''and'', ''or''}
     then rbind (filter_group (get_val ast node)) (\<lambda>items. each (validate_filter_ast types) items)
     else validate_property_filter ast types)"
  by pat_completeness auto
termination by (relation "measure (\<lambda>(types, d). dict_size d)") (auto intro: filter_group_size)

function matches_filter :: "(string \<times> string) list option \<Rightarrow> dict \<Rightarrow> dict \<Rightarrow> bool result" where
  "matches_filter types properties ast =
     rbind (filter_node ast) (\<lambda>node.
     if node = ''and''
     then rbind (filter_group (get_val ast node)) (\<lambda>items. all_result (matches_filter types properties) items)
     else if node = ''or''
     then rbind (filter_group (get_val ast node)) (\<lambda>items. any_result (matches_filter types properties) items)
     else matches_property_filter properties ast types)"
  by pat_completeness auto
termination by (relation "measure (\<lambda>(types, properties, d). dict_size d)") (auto intro: filter_group_size)

declare validate_filter_ast.simps [simp del] matches_filter.simps [simp del]

section \<open>Row policies\<close>

record row_policy_scope_t =
  rp_is_unrestricted :: bool
  rp_filter_ast :: "dict option"
  rp_property_data_types :: "(string \<times> string) list option"

definition hides_all_rows :: "row_policy_scope_t \<Rightarrow> bool" where
  "hides_all_rows scope = (\<not> rp_is_unrestricted scope \<and> rp_filter_ast scope = None)"

definition unrestricted_rows :: row_policy_scope_t where
  "unrestricted_rows = \<lparr>rp_is_unrestricted = True, rp_filter_ast = None, rp_property_data_types = None\<rparr>"

definition zero_rows :: row_policy_scope_t where
  "zero_rows = \<lparr>rp_is_unrestricted = False, rp_filter_ast = None, rp_property_data_types = None\<rparr>"

definition persisted_row_policy :: "pyval \<Rightarrow> (string \<times> dict) result" where
  "persisted_row_policy policy = (case policy of
       PDict p \<Rightarrow> (case (nonempty_text (get_val p ''role''), get_val p ''filter'') of
           (Some role, PDict policy_filter) \<Rightarrow>
             rbind (validate_filter_ast None policy_filter) (\<lambda>_. Inr (role, policy_filter))
         | _ \<Rightarrow> Inl (ValidationFailed ''object type row policy requires a role and a filter''))
     | _ \<Rightarrow> Inl (ValidationFailed ''object type row policy must be a mapping''))"

definition persisted_row_policies :: "dict \<Rightarrow> (string \<times> dict) list result" where
  "persisted_row_policies config = (case get_val config ''rowPolicies'' of
       PNone \<Rightarrow> Inr []
     | PList declared \<Rightarrow> map_result persisted_row_policy declared
     | _ \<Rightarrow> Inl (ValidationFailed ''object type row policies are malformed''))"

definition property_data_types :: "(string \<times> string) list option \<Rightarrow> (string \<times> string) list result" where
  "property_data_types property_types = (case property_types of
       None \<Rightarrow> Inl (ValidationFailed ''row policy property metadata is unavailable'')
     | Some rows \<Rightarrow> Inr (dupdate [] rows))"

definition row_policy_scope ::
  "dict \<Rightarrow> string list \<Rightarrow> (string \<times> string) list option \<Rightarrow> row_policy_scope_t result" where
  "row_policy_scope config roles property_types =
     rbind (persisted_row_policies config) (\<lambda>policies.
     if policies = [] then Inr unrestricted_rows
     else rbind (property_data_types property_types) (\<lambda>types.
       rbind (each (\<lambda>(role, f). validate_filter_ast (Some types) f) policies) (\<lambda>_.
       if ''admin'' \<in> set roles then Inr unrestricted_rows
       else let filters = map snd (filter (\<lambda>(role, f). role \<in> set roles) policies) in
         Inr (case filters of
             [] \<Rightarrow> zero_rows
           | [f] \<Rightarrow> \<lparr>rp_is_unrestricted = False, rp_filter_ast = Some f, rp_property_data_types = Some types\<rparr>
           | _ \<Rightarrow> \<lparr>rp_is_unrestricted = False, rp_filter_ast = Some [(''or'', PList (map PDict filters))],
                  rp_property_data_types = Some types\<rparr>))))"

definition scoped_filter_ast :: "row_policy_scope_t \<Rightarrow> dict option \<Rightarrow> dict option" where
  "scoped_filter_ast scope filter_ast = (case rp_filter_ast scope of
       None \<Rightarrow> filter_ast
     | Some policy \<Rightarrow> (case filter_ast of
           None \<Rightarrow> Some policy
         | Some f \<Rightarrow> Some [(''and'', PList [PDict policy, PDict f])]))"

definition row_visible :: "row_policy_scope_t \<Rightarrow> dict \<Rightarrow> bool result" where
  "row_visible scope properties =
     (if rp_is_unrestricted scope then Inr True
      else case rp_filter_ast scope of
          None \<Rightarrow> Inr False
        | Some ast \<Rightarrow> (case rp_property_data_types scope of
            None \<Rightarrow> Inl (ValidationFailed ''row policy property metadata is unavailable'')
          | Some types \<Rightarrow> matches_filter (Some types) properties ast))"

definition visible_record ::
  "('r \<Rightarrow> dict) \<Rightarrow> 'r option \<Rightarrow> dict \<Rightarrow> string list \<Rightarrow> (string \<times> string) list option \<Rightarrow> 'r option result" where
  "visible_record properties_of record_row config roles property_types = (case record_row of
       None \<Rightarrow> Inr None
     | Some r \<Rightarrow>
         rbind (row_policy_scope config roles property_types) (\<lambda>scope.
         rbind (row_visible scope (properties_of r)) (\<lambda>b. Inr (if b then Some r else None))))"

section \<open>Evaluating validated filters\<close>

text \<open>A tree of filters, from the bottom up.\<close>

lemma filter_induct [case_names node]:
  assumes "\<And>ast. (\<And>node cs x. filter_group (get_val ast node) = Inr cs \<Longrightarrow> x \<in> set cs \<Longrightarrow> P x) \<Longrightarrow> P ast"
  shows "P ast"
proof (induction ast rule: measure_induct_rule [of dict_size])
  case (less ast)
  show ?case
  proof (rule assms)
    show "P x" if "filter_group (get_val ast node) = Inr cs" "x \<in> set cs" for node cs x
      by (rule less) (rule filter_group_size [OF that])
  qed
qed

lemma any_result_Inl: "any_result f xs = Inl e \<Longrightarrow> \<exists>x \<in> set xs. f x = Inl e"
  by (induction xs) (auto simp: rbind_eq_Inl split: if_splits)

lemma all_result_Inl: "all_result f xs = Inl e \<Longrightarrow> \<exists>x \<in> set xs. f x = Inl e"
  by (induction xs) (auto simp: rbind_eq_Inl split: if_splits)

lemma typed_filter_value_error: "typed_filter_value v t = Inl e \<Longrightarrow> e = OverflowError"
  by (auto simp: typed_filter_value_def timestamp_microseconds_def rbind_eq_Inl split: option.splits if_splits)

lemma typed_compare_ok:
  assumes "map_of filter_operations op \<noteq> None" "op \<notin> {''in'', ''contains''}"
  shows "typed_compare op a b \<noteq> Inl e"
proof -
  have "op = ''eq'' \<or> order_operator op \<noteq> None"
    using assms by (auto simp: filter_operations_def order_operator_def split: if_splits)
  then show ?thesis by (auto simp: typed_compare_def)
qed

lemma matches_typed_in_error: "matches_typed_in current expected t = Inl e \<Longrightarrow> e = OverflowError"
  by (auto simp: matches_typed_in_def rbind_eq_Inl split: pyval.splits option.splits
      dest!: map_result_Inl typed_filter_value_error)

lemma matches_typed_filter_error:
  assumes "map_of filter_operations op \<noteq> None" "matches_typed_filter current op expected t = Inl e"
  shows "e = OverflowError"
proof (cases "op \<in> {''in'', ''contains''}")
  case True
  with assms(2) matches_typed_in_error show ?thesis by (auto simp: matches_typed_filter_def)
next
  case False
  with assms(2) typed_compare_ok [OF assms(1) False] show ?thesis
    by (auto simp: matches_typed_filter_def rbind_eq_Inl dest: typed_filter_value_error split: option.splits)
qed

lemma matches_property_filter_error:
  assumes "validate_property_filter ast (Some types) = Inr ()" "matches_property_filter properties ast (Some types) = Inl e"
  shows "e = OverflowError"
proof -
  obtain op pr x ty where parts: "required_filter_string ast ''op'' = Inr op"
    "required_filter_string ast ''property'' = Inr pr" "required_filter_value ast ''value'' = Inr x"
    "map_of filter_operations op \<noteq> None" "required_property_data_type pr types = Inr ty"
    using assms(1) unfolding validate_property_filter_def validate_typed_filter_def
    by (auto elim!: rbind_InrE)
  with assms(2) have "matches_typed_filter (get_val properties pr) op x ty = Inl e"
    by (auto simp: matches_property_filter_def split: option.splits)
  with matches_typed_filter_error [OF parts(4)] show ?thesis by blast
qed

lemma validate_filter_group:
  "filter_node ast = Inr node \<Longrightarrow> node \<in> {''and'', ''or''} \<Longrightarrow>
   validate_filter_ast types ast = rbind (filter_group (get_val ast node)) (\<lambda>items. each (validate_filter_ast types) items)"
  by (subst validate_filter_ast.simps) simp

lemma matches_filter_error:
  "validate_filter_ast (Some types) ast = Inr () \<Longrightarrow> matches_filter (Some types) properties ast = Inl e \<Longrightarrow> e = OverflowError"
proof (induction ast rule: filter_induct)
  case (node ast)
  obtain n where n: "filter_node ast = Inr n"
    using node.prems(1) by (subst (asm) validate_filter_ast.simps) (auto elim!: rbind_InrE)
  show ?case
  proof (cases "n \<in> {''and'', ''or''}")
    case True
    with node.prems(1) n obtain cs where cs: "filter_group (get_val ast n) = Inr cs"
      "\<forall>x \<in> set cs. validate_filter_ast (Some types) x = Inr ()"
      by (auto simp: validate_filter_group each_Inr elim!: rbind_InrE)
    have "\<exists>x \<in> set cs. matches_filter (Some types) properties x = Inl e"
      using node.prems(2) True n cs(1)
      by (subst (asm) matches_filter.simps) (auto dest!: any_result_Inl all_result_Inl)
    with node.IH [OF cs(1)] cs(2) show ?thesis by blast
  next
    case False
    with node.prems n show ?thesis
      by (intro matches_property_filter_error [of ast types properties])
        (auto simp: validate_filter_ast.simps [of _ ast] matches_filter.simps [of _ _ ast])
  qed
qed

section \<open>The union of the policies\<close>

lemma matches_or_group:
  assumes "fs \<noteq> []"
  shows "matches_filter types properties [(''or'', PList (map PDict fs))] = any_result (matches_filter types properties) fs"
proof -
  have "filter_node [(''or'', PList (map PDict fs))] = Inr ''or''" by (simp add: filter_node_def has_key_def)
  moreover have "filter_group (PList (map PDict fs)) = Inr fs" using assms by (simp add: filter_group_Inr)
  ultimately show ?thesis by (subst matches_filter.simps) (simp add: get_or_def)
qed

lemma any_result_one [simp]: "any_result m [f] = m f"
  by (cases "m f") auto

lemma all_result_one [simp]: "all_result m [f] = m f"
  by (cases "m f") auto

lemma matches_and_pair:
  "matches_filter types properties [(''and'', PList [PDict f, PDict g])] =
     rbind (matches_filter types properties f) (\<lambda>b. if b then matches_filter types properties g else Inr False)"
proof -
  have "filter_node [(''and'', PList [PDict f, PDict g])] = Inr ''and''" by (simp add: filter_node_def has_key_def)
  moreover have "filter_group (PList [PDict f, PDict g]) = Inr [f, g]" by (simp add: filter_group_Inr)
  ultimately show ?thesis
    by (subst matches_filter.simps)
      (cases "matches_filter types properties f"; cases "matches_filter types properties g"; simp add: get_or_def)
qed

definition held_filters :: "(string \<times> dict) list \<Rightarrow> string list \<Rightarrow> dict list" where
  "held_filters policies roles = map snd (filter (\<lambda>(role, f). role \<in> set roles) policies)"

definition held_scope :: "(string \<times> string) list \<Rightarrow> dict list \<Rightarrow> row_policy_scope_t" where
  "held_scope types filters = (case filters of
       [] \<Rightarrow> zero_rows
     | [f] \<Rightarrow> \<lparr>rp_is_unrestricted = False, rp_filter_ast = Some f, rp_property_data_types = Some types\<rparr>
     | _ \<Rightarrow> \<lparr>rp_is_unrestricted = False, rp_filter_ast = Some [(''or'', PList (map PDict filters))],
            rp_property_data_types = Some types\<rparr>)"

lemma row_policy_scope_cases:
  assumes "row_policy_scope config roles (Some rows) = Inr scope" "persisted_row_policies config = Inr policies"
  obtains (unrestricted) "policies = [] \<or> ''admin'' \<in> set roles" "scope = unrestricted_rows"
  | (restricted) "policies \<noteq> []" "''admin'' \<notin> set roles"
      "scope = held_scope (dupdate [] rows) (held_filters policies roles)"
      "\<And>f. f \<in> set (held_filters policies roles) \<Longrightarrow> validate_filter_ast (Some (dupdate [] rows)) f = Inr ()"
proof (cases "policies = [] \<or> ''admin'' \<in> set roles")
  case True
  with assms have "scope = unrestricted_rows"
    by (auto simp: row_policy_scope_def property_data_types_def elim!: rbind_InrE split: if_splits)
  with True show thesis by (rule that(1))
next
  case False
  with assms have checked: "each (\<lambda>(role, f). validate_filter_ast (Some (dupdate [] rows)) f) policies = Inr ()"
    and scope: "scope = held_scope (dupdate [] rows) (held_filters policies roles)"
    by (auto simp: row_policy_scope_def property_data_types_def held_filters_def held_scope_def Let_def
        elim!: rbind_InrE)
  have "validate_filter_ast (Some (dupdate [] rows)) f = Inr ()" if "f \<in> set (held_filters policies roles)" for f
    using checked that by (force simp: held_filters_def each_Inr)
  with False scope show thesis by (intro that(2)) auto
qed

lemma row_visible_held_scope:
  "row_visible (held_scope types filters) properties = any_result (matches_filter (Some types) properties) filters"
proof (cases filters)
  case (Cons f fs)
  then show ?thesis
    using matches_or_group [of filters "Some types" properties]
    by (cases fs) (simp_all add: held_scope_def row_visible_def del: any_result.simps(2))
qed (simp add: held_scope_def row_visible_def zero_rows_def)

lemma any_result_True: "any_result f xs = Inr True \<Longrightarrow> \<exists>x \<in> set xs. f x = Inr True"
  by (induction xs) (auto elim!: rbind_InrE split: if_splits)

lemma any_result_hit:
  "x \<in> set xs \<Longrightarrow> f x = Inr True \<Longrightarrow> any_result f xs = Inr True \<or> (\<exists>e. any_result f xs = Inl e)"
proof (induction xs)
  case (Cons y ys)
  then show ?case by (cases "f y") auto
qed simp

section \<open>Properties\<close>

text \<open>
  C36. Row-level security is the union of the held policies and fails closed: when the scope of a caller
  can be resolved, a row is visible exactly if the type declares no policy, the caller is an
  administrator, or the filters of the roles the caller holds, tried in the order of declaration, let
  the row through; a caller who holds none of the declared roles sees no row at all.
\<close>

theorem row_policy_union:
  assumes "row_policy_scope config roles (Some rows) = Inr scope" "persisted_row_policies config = Inr policies"
  shows "row_visible scope properties =
      (if policies = [] \<or> ''admin'' \<in> set roles then Inr True
       else any_result (matches_filter (Some (dupdate [] rows)) properties)
              (map snd (filter (\<lambda>(role, f). role \<in> set roles) policies)))
    \<and> (policies \<noteq> [] \<longrightarrow> set roles \<inter> ({''admin''} \<union> fst ` set policies) = {} \<longrightarrow>
         row_visible scope properties = Inr False \<and> hides_all_rows scope)"
proof -
  have none: "held_filters policies roles = []" if "set roles \<inter> ({''admin''} \<union> fst ` set policies) = {}"
    using that by (force simp: held_filters_def filter_empty_conv)
  from assms show ?thesis
  proof (cases rule: row_policy_scope_cases)
    case unrestricted
    then show ?thesis by (auto simp: row_visible_def unrestricted_rows_def)
  next
    case restricted
    then show ?thesis
      using none by (auto simp: row_visible_held_scope held_filters_def [symmetric])
        (simp add: held_scope_def hides_all_rows_def zero_rows_def)
  qed
qed

definition sample_filter :: "string \<Rightarrow> dict" where
  "sample_filter region = [(''op'', PStr ''eq''), (''property'', PStr ''region''), (''value'', PStr region)]"

definition sample_config :: dict where
  "sample_config = [(''rowPolicies'', PList
     [PDict [(''role'', PStr ''emea''), (''filter'', PDict (sample_filter ''EU''))],
      PDict [(''role'', PStr ''apac''), (''filter'', PDict (sample_filter ''JP''))]])]"

lemma sample_policies:
  "persisted_row_policies sample_config = Inr [(''emea'', sample_filter ''EU''), (''apac'', sample_filter ''JP'')]"
  by code_simp

theorem row_policy_union_witness:
  "\<exists>scope. row_policy_scope sample_config [''guest''] (Some [(''region'', ''string'')]) = Inr scope
     \<and> row_visible scope [(''region'', PStr ''EU'')] = Inr False"
proof -
  have "case row_policy_scope sample_config [''guest''] (Some [(''region'', ''string'')]) of
      Inr _ \<Rightarrow> True | Inl _ \<Rightarrow> False" by code_simp
  then obtain scope where scope: "row_policy_scope sample_config [''guest''] (Some [(''region'', ''string'')]) = Inr scope"
    by (auto split: sum.splits)
  with row_policy_union [OF scope sample_policies, of "[(''region'', PStr ''EU'')]"] show ?thesis by simp
qed

text \<open>
  Holding more roles never hides a row: a row that a caller sees is seen with any larger set of
  roles too, unless a filter of one of the added roles cannot be evaluated on it, which happens only for
  a timestamp without a UTC instant.
\<close>

theorem more_roles_see_more:
  assumes "row_policy_scope config roles (Some rows) = Inr scope" "row_policy_scope config roles' (Some rows) = Inr scope'"
    and "persisted_row_policies config = Inr policies" "set roles \<subseteq> set roles'"
    and "row_visible scope properties = Inr True"
  shows "row_visible scope' properties \<in> {Inr True, Inl OverflowError}"
  using assms(2,3)
proof (cases rule: row_policy_scope_cases)
  case unrestricted
  then show ?thesis by (simp add: row_visible_def unrestricted_rows_def)
next
  case restricted
  with assms(4) have "policies \<noteq> []" "''admin'' \<notin> set roles" by auto
  from assms(1,3) this have "scope = held_scope (dupdate [] rows) (held_filters policies roles)"
    by (auto elim!: row_policy_scope_cases)
  with assms(5) obtain f where f: "f \<in> set (held_filters policies roles)"
    "matches_filter (Some (dupdate [] rows)) properties f = Inr True"
    by (auto simp: row_visible_held_scope dest!: any_result_True)
  from f(1) assms(4) have "f \<in> set (held_filters policies roles')" by (force simp: held_filters_def)
  from any_result_hit [OF this, of "matches_filter (Some (dupdate [] rows)) properties"] f(2)
  consider "row_visible scope' properties = Inr True" | e where "row_visible scope' properties = Inl e"
    by (auto simp: restricted(3) row_visible_held_scope)
  then show ?thesis
  proof cases
    case 2
    then obtain g where "g \<in> set (held_filters policies roles')" "matches_filter (Some (dupdate [] rows)) properties g = Inl e"
      by (auto simp: restricted(3) row_visible_held_scope dest!: any_result_Inl)
    with matches_filter_error restricted(4) 2 show ?thesis by blast
  qed simp
qed

theorem more_roles_see_more_witness:
  "\<exists>scope scope'. row_policy_scope sample_config [''emea''] (Some [(''region'', ''string'')]) = Inr scope
     \<and> row_policy_scope sample_config [''apac'', ''emea''] (Some [(''region'', ''string'')]) = Inr scope'
     \<and> row_visible scope' [(''region'', PStr ''EU'')] \<in> {Inr True, Inl OverflowError}"
proof -
  have "case row_policy_scope sample_config [''emea''] (Some [(''region'', ''string'')]) of
      Inr scope \<Rightarrow> row_visible scope [(''region'', PStr ''EU'')] = Inr True | Inl _ \<Rightarrow> False" by code_simp
  then obtain scope where scope: "row_policy_scope sample_config [''emea''] (Some [(''region'', ''string'')]) = Inr scope"
    "row_visible scope [(''region'', PStr ''EU'')] = Inr True" by (auto split: sum.splits)
  have "case row_policy_scope sample_config [''apac'', ''emea''] (Some [(''region'', ''string'')]) of
      Inr _ \<Rightarrow> True | Inl _ \<Rightarrow> False" by code_simp
  then obtain scope' where scope': "row_policy_scope sample_config [''apac'', ''emea''] (Some [(''region'', ''string'')]) = Inr scope'"
    by (auto split: sum.splits)
  from more_roles_see_more [OF scope(1) scope' sample_policies _ scope(2)] scope(1) scope' show ?thesis by auto
qed

text \<open>
  A query filter can only narrow what the policies allow: combined with the scope of a restricted
  caller, it lets a row through exactly when the policy filter does and then the query filter does; a
  validated filter, combined or not, fails only on a timestamp without a UTC instant.
\<close>

theorem scoped_filter_narrows:
  assumes "rp_filter_ast scope = Some policy" "rp_property_data_types scope = Some types"
    and "\<not> rp_is_unrestricted scope" "scoped_filter_ast scope (Some query) = Some combined"
  shows "matches_filter (Some types) properties combined =
      rbind (row_visible scope properties) (\<lambda>b. if b then matches_filter (Some types) properties query else Inr False)
    \<and> (validate_filter_ast (Some types) policy = Inr () \<longrightarrow> validate_filter_ast (Some types) query = Inr () \<longrightarrow>
         matches_filter (Some types) properties combined = Inl e \<longrightarrow> e = OverflowError)"
proof -
  from assms have combined: "combined = [(''and'', PList [PDict policy, PDict query])]"
    by (simp add: scoped_filter_ast_def)
  have "row_visible scope properties = matches_filter (Some types) properties policy"
    using assms by (simp add: row_visible_def)
  then show ?thesis
    unfolding combined matches_and_pair
    by (auto simp: rbind_eq_Inl dest: matches_filter_error split: if_splits)
qed

theorem scoped_filter_narrows_witness:
  "matches_filter (Some [(''region'', ''string'')]) [(''region'', PStr ''EU'')]
     [(''and'', PList [PDict (sample_filter ''EU''), PDict (sample_filter ''JP'')])] =
   rbind (row_visible (held_scope [(''region'', ''string'')] [sample_filter ''EU'']) [(''region'', PStr ''EU'')])
     (\<lambda>b. if b then matches_filter (Some [(''region'', ''string'')]) [(''region'', PStr ''EU'')] (sample_filter ''JP'')
          else Inr False)"
  using scoped_filter_narrows [of "held_scope [(''region'', ''string'')] [sample_filter ''EU'']" "sample_filter ''EU''"
      "[(''region'', ''string'')]" "sample_filter ''JP''" _ "[(''region'', PStr ''EU'')]"]
  by (simp add: held_scope_def scoped_filter_ast_def)

text \<open>A row whose timestamp is valid but has no UTC instant cannot be filtered at all.\<close>

lemma timestamp_row_cannot_be_filtered:
  "matches_filter (Some [(''at'', ''timestamp'')]) [(''at'', PStr ''0001-01-01T00:00:00+01:00'')]
     [(''op'', PStr ''gte''), (''property'', PStr ''at''), (''value'', PStr ''2024-01-01T00:00:00Z'')] = Inl OverflowError"
  by code_simp

end
