(* ===== verification/Effect_Receipts.thy ===== *)
theory Effect_Receipts
  imports State_Transitions
begin

text \<open>
  \<^verbatim>\<open>infrastructure/repositories/action_effect_receipt_rows.py\<close> on the tables
  \<^verbatim>\<open>action_effect_receipts\<close> and \<^verbatim>\<open>action_effect_operation_requests\<close> of
  \<^verbatim>\<open>infrastructure/schema/actions.py\<close>: the durable record of every side effect of an action run.
  Workers claim a receipt under a lease and a fencing token, seal the race with a cancellation
  just before they dispatch, and write the outcome; operators cancel, retry and reconcile.

  Each operation is one transaction on the table, so the workers and operators of a system produce
  some sequence of calls (\<open>run_calls\<close>); the locale \<open>row_invariant\<close> reduces a property of every such
  sequence to the row that one call rewrites, and is interpreted on the operations below.
  \<^verbatim>\<open>String\<close> columns hold ISO timestamps and are compared as text, \<^verbatim>\<open>NULL\<close> is \<open>None\<close>, and the
  \<^verbatim>\<open>Integer\<close> counters are mathematical integers.
\<close>

section \<open>Rows and requests\<close>

record receipt_row =
  rc_id :: string
  rc_tenant_id :: string
  rc_action_run_id :: string
  rc_effect_id :: string
  rc_phase :: string
  rc_effect_kind :: string
  rc_target_ref :: string
  rc_status :: string
  rc_idempotency_key :: string
  rc_attempt_count :: int
  rc_max_attempts :: int
  rc_worker_id :: "string option"
  rc_lease_token :: "string option"
  rc_lease_expires_at :: "string option"
  rc_fencing_token :: int
  rc_heartbeat_at :: "string option"
  rc_dispatch_started_at :: "string option"
  rc_cancel_requested_at :: "string option"
  rc_cancel_reason :: "string option"
  rc_request :: dict
  rc_response :: "dict option"
  rc_error :: "dict option"
  rc_retry_at :: "string option"
  rc_external_execution_id :: "string option"
  rc_outbox_event_id :: "string option"
  rc_created_at :: string
  rc_updated_at :: string
  rc_completed_at :: "string option"
  rc_reconciled_at :: "string option"
  rc_reconciled_by_user_id :: "string option"
  rc_reconciliation :: "dict option"

record effect_operation_row =
  eo_id :: string
  eo_tenant_id :: string
  eo_actor_user_id :: string
  eo_receipt_id :: string
  eo_operation :: string
  eo_idempotency_key :: string
  eo_request_fingerprint :: string
  eo_response_json :: dict
  eo_created_at :: string

record receipt_record =
  rr_receipt_id :: string
  rr_tenant_id :: string
  rr_action_run_id :: string
  rr_effect_id :: string
  rr_phase :: string
  rr_effect_kind :: string
  rr_target_ref :: string
  rr_idempotency_key :: string
  rr_max_attempts :: int
  rr_request :: dict
  rr_created_at :: string
  rr_outbox_event_id :: "string option"

record effect_claim =
  cl_tenant_id :: string
  cl_receipt_id :: string
  cl_worker_id :: string
  cl_lease_token :: string
  cl_lease_expires_at :: string
  cl_claimed_at :: string
  cl_is_reconciliation :: bool

type_synonym receipts = "receipt_row list"

abbreviation rc_key :: "receipt_row \<Rightarrow> string \<times> string" where
  "rc_key r \<equiv> (rc_tenant_id r, rc_id r)"

text \<open>A comparison with \<^verbatim>\<open>NULL\<close> does not hold.\<close>

definition sql_holds :: "('a \<Rightarrow> bool) \<Rightarrow> 'a option \<Rightarrow> bool" where
  "sql_holds p v = (case v of None \<Rightarrow> False | Some x \<Rightarrow> p x)"

section \<open>Reads\<close>

text \<open>\<^verbatim>\<open>Result.one()\<close>.\<close>

definition sql_one :: "('r \<Rightarrow> bool) \<Rightarrow> 'r list \<Rightarrow> 'r result" where
  "sql_one p rows = (case filter p rows of [] \<Rightarrow> Inl NoResultFound | [r] \<Rightarrow> Inr r | _ \<Rightarrow> Inl MultipleResultsFound)"

definition required_receipt :: "string \<Rightarrow> string \<Rightarrow> receipts \<Rightarrow> receipt_row result" where
  "required_receipt tenant_id receipt_id rows = sql_one (\<lambda>r. rc_tenant_id r = tenant_id \<and> rc_id r = receipt_id) rows"

definition locked_receipt :: "string \<Rightarrow> string \<Rightarrow> receipts \<Rightarrow> receipt_row option" where
  "locked_receipt tenant_id receipt_id rows = sql_first (\<lambda>r. rc_tenant_id r = tenant_id \<and> rc_id r = receipt_id) rows"

definition receipt_by_id :: "string \<Rightarrow> string \<Rightarrow> receipts \<Rightarrow> receipt_row option" where
  "receipt_by_id tenant_id receipt_id rows = sql_first (\<lambda>r. rc_tenant_id r = tenant_id \<and> rc_id r = receipt_id) rows"

definition receipts_for_run :: "string \<Rightarrow> string \<Rightarrow> receipts \<Rightarrow> receipts" where
  "receipts_for_run tenant_id run_id rows =
     sort_key (\<lambda>r. (rc_created_at r, rc_effect_id r))
       (filter (\<lambda>r. rc_tenant_id r = tenant_id \<and> rc_action_run_id r = run_id) rows)"

definition list_receipts ::
  "string \<Rightarrow> string option \<Rightarrow> string option \<Rightarrow> string option \<Rightarrow> nat \<Rightarrow> receipts \<Rightarrow> receipts" where
  "list_receipts tenant_id status before_created_at before_receipt_id limit rows =
     take limit (rev (sort_key (\<lambda>r. (rc_created_at r, rc_id r))
       (filter (\<lambda>r. rc_tenant_id r = tenant_id
          \<and> (case status of None \<Rightarrow> True | Some s \<Rightarrow> rc_status r = s)
          \<and> (case (before_created_at, before_receipt_id) of
               (Some created, Some rid) \<Rightarrow> rc_created_at r < created \<or> (rc_created_at r = created \<and> rc_id r < rid)
             | _ \<Rightarrow> True)) rows)))"

definition pending_receipts :: "string \<Rightarrow> nat \<Rightarrow> string \<Rightarrow> receipts \<Rightarrow> receipts" where
  "pending_receipts tenant_id limit due_at rows =
     take limit (sort_key (\<lambda>r. (rc_created_at r, rc_id r))
       (filter (\<lambda>r. rc_tenant_id r = tenant_id \<and> rc_phase r = ''after_commit''
          \<and> rc_attempt_count r < rc_max_attempts r
          \<and> (rc_status r = ''pending''
             \<or> rc_status r = ''retry_wait'' \<and> sql_holds (\<lambda>t. t \<le> due_at) (rc_retry_at r)
             \<or> rc_status r = ''delivering'' \<and> sql_holds (\<lambda>t. t < due_at) (rc_lease_expires_at r))) rows))"

definition status_counts :: "string \<Rightarrow> receipts \<Rightarrow> (string \<times> nat) list" where
  "status_counts tenant_id rows =
     (let statuses = map rc_status (filter (\<lambda>r. rc_tenant_id r = tenant_id) rows) in
      map (\<lambda>s. (s, count_list statuses s)) (remdups statuses))"

section \<open>Writes\<close>

definition receipt_values :: "receipt_record \<Rightarrow> receipt_row" where
  "receipt_values rec = \<lparr>rc_id = rr_receipt_id rec, rc_tenant_id = rr_tenant_id rec,
     rc_action_run_id = rr_action_run_id rec, rc_effect_id = rr_effect_id rec, rc_phase = rr_phase rec,
     rc_effect_kind = rr_effect_kind rec, rc_target_ref = rr_target_ref rec, rc_status = ''pending'',
     rc_idempotency_key = rr_idempotency_key rec, rc_attempt_count = 0, rc_max_attempts = rr_max_attempts rec,
     rc_worker_id = None, rc_lease_token = None, rc_lease_expires_at = None, rc_fencing_token = 0,
     rc_heartbeat_at = None, rc_dispatch_started_at = None, rc_cancel_requested_at = None,
     rc_cancel_reason = None, rc_request = rr_request rec, rc_response = None, rc_error = None,
     rc_retry_at = None, rc_external_execution_id = None, rc_outbox_event_id = rr_outbox_event_id rec,
     rc_created_at = rr_created_at rec, rc_updated_at = rr_created_at rec, rc_completed_at = None,
     rc_reconciled_at = None, rc_reconciled_by_user_id = None, rc_reconciliation = None\<rparr>"

text \<open>The unique constraints of the table: the primary key, one receipt per effect of a run, and one
  receipt per idempotency key. \<^verbatim>\<open>ON CONFLICT DO NOTHING\<close> skips the insert when any of them is hit.\<close>

definition receipt_conflict :: "receipt_row \<Rightarrow> receipt_row \<Rightarrow> bool" where
  "receipt_conflict r r' \<longleftrightarrow> rc_id r = rc_id r'
     \<or> rc_tenant_id r = rc_tenant_id r' \<and> rc_action_run_id r = rc_action_run_id r' \<and> rc_effect_id r = rc_effect_id r'
     \<or> rc_tenant_id r = rc_tenant_id r' \<and> rc_idempotency_key r = rc_idempotency_key r'"

definition insert_or_ignore :: "receipt_record \<Rightarrow> receipts \<Rightarrow> receipts \<times> bool" where
  "insert_or_ignore rec rows =
     (let row = receipt_values rec in
      if list_ex (receipt_conflict row) rows then (rows, False) else (rows @ [row], True))"

definition insert_receipt :: "receipt_record \<Rightarrow> (receipts, receipt_row option) io" where
  "insert_receipt rec = (\<lambda>rows.
     let (rows', inserted) = insert_or_ignore rec rows in
     if inserted then rbind (required_receipt (rr_tenant_id rec) (rr_receipt_id rec) rows') (\<lambda>r. Inr (Some r, rows'))
     else Inr (None, rows'))"

text \<open>\<^verbatim>\<open>result.rowcount == 1\<close>.\<close>

definition one_row_updated :: "receipts \<times> nat \<Rightarrow> receipts \<times> bool" where
  "one_row_updated res = (fst res, snd res = 1)"

text \<open>\<^verbatim>\<open>cas_status_update\<close> on this table: the conditions and the assigned columns are SQL expressions
  over the stored row.\<close>

definition receipt_cas ::
  "string \<Rightarrow> string \<Rightarrow> status_transition \<Rightarrow> (receipt_row \<Rightarrow> bool) \<Rightarrow> (receipt_row \<Rightarrow> receipt_row)
     \<Rightarrow> receipts \<Rightarrow> receipts \<times> bool" where
  "receipt_cas tenant_id receipt_id t conditions assign rows =
     one_row_updated (sql_update
       (\<lambda>r. rc_tenant_id r = tenant_id \<and> rc_id r = receipt_id \<and> rc_status r \<in> set (from_statuses t) \<and> conditions r)
       (\<lambda>r. (assign r)\<lparr>rc_status := to_status t\<rparr>) rows)"

text \<open>The idiom \<^verbatim>\<open>return required_receipt(..) if updated else None\<close>.\<close>

definition receipt_if_updated :: "string \<Rightarrow> string \<Rightarrow> receipts \<times> bool \<Rightarrow> (receipt_row option \<times> receipts) result" where
  "receipt_if_updated tenant_id receipt_id res =
     (if snd res
      then rbind (required_receipt tenant_id receipt_id (fst res)) (\<lambda>r. Inr (Some r, fst res))
      else Inr (None, fst res))"

definition is_claimable :: "receipt_row \<Rightarrow> string \<Rightarrow> bool \<Rightarrow> bool" where
  "is_claimable row claimed_at is_reconciliation =
     (if rc_attempt_count row \<ge> rc_max_attempts row \<and> \<not> is_reconciliation then False
      else if rc_status row = ''pending'' then True
      else if rc_status row = ''retry_wait'' then sql_holds (\<lambda>t. t \<le> claimed_at) (rc_retry_at row)
      else rc_status row = ''delivering'' \<and> sql_holds (\<lambda>t. t < claimed_at) (rc_lease_expires_at row))"

definition claim_receipt :: "effect_claim \<Rightarrow> (receipts, receipt_row option) io" where
  "claim_receipt claim = (\<lambda>rows.
     case locked_receipt (cl_tenant_id claim) (cl_receipt_id claim) rows of
       None \<Rightarrow> Inr (None, rows)
     | Some row \<Rightarrow>
         if \<not> is_claimable row (cl_claimed_at claim) (cl_is_reconciliation claim) then Inr (None, rows)
         else receipt_if_updated (cl_tenant_id claim) (cl_receipt_id claim)
           (receipt_cas (cl_tenant_id claim) (cl_receipt_id claim) (the_transition ''ACTION_EFFECT_DELIVERING'')
             (\<lambda>r. rc_fencing_token r = rc_fencing_token row)
             (\<lambda>r. r\<lparr>rc_attempt_count := rc_attempt_count r + 1, rc_worker_id := Some (cl_worker_id claim),
                rc_lease_token := Some (cl_lease_token claim),
                rc_lease_expires_at := Some (cl_lease_expires_at claim),
                rc_fencing_token := rc_fencing_token row + 1, rc_heartbeat_at := Some (cl_claimed_at claim),
                rc_retry_at := None, rc_updated_at := cl_claimed_at claim\<rparr>) rows))"

definition start_dispatch ::
  "string \<Rightarrow> string \<Rightarrow> string \<Rightarrow> string \<Rightarrow> int \<Rightarrow> string \<Rightarrow> (receipts, receipt_row option) io" where
  "start_dispatch tenant_id receipt_id worker_id lease_token fencing_token started_at = (\<lambda>rows.
     receipt_if_updated tenant_id receipt_id (one_row_updated (sql_update
           (\<lambda>r. rc_tenant_id r = tenant_id \<and> rc_id r = receipt_id \<and> rc_status r = ''delivering''
              \<and> rc_worker_id r = Some worker_id \<and> rc_lease_token r = Some lease_token
              \<and> rc_fencing_token r = fencing_token \<and> rc_cancel_requested_at r = None
              \<and> rc_dispatch_started_at r = None)
           (\<lambda>r. r\<lparr>rc_dispatch_started_at := Some started_at, rc_heartbeat_at := Some started_at,
              rc_updated_at := started_at\<rparr>) rows)))"

definition request_cancel ::
  "string \<Rightarrow> string \<Rightarrow> string option \<Rightarrow> string \<Rightarrow> (receipts, receipt_row option) io" where
  "request_cancel tenant_id receipt_id reason requested_at = (\<lambda>rows.
     case locked_receipt tenant_id receipt_id rows of
       None \<Rightarrow> Inr (None, rows)
     | Some row \<Rightarrow>
         if rc_status row \<in> {''succeeded'', ''dead_letter'', ''outcome_unknown'', ''cancelled''} then Inr (Some row, rows)
         else if rc_status row = ''delivering'' \<and> rc_dispatch_started_at row \<noteq> None
         then let rows' = fst (sql_update
                    (\<lambda>r. rc_tenant_id r = tenant_id \<and> rc_id r = receipt_id \<and> rc_fencing_token r = rc_fencing_token row)
                    (\<lambda>r. r\<lparr>rc_cancel_requested_at := Some requested_at, rc_cancel_reason := reason,
                       rc_updated_at := requested_at\<rparr>) rows) in
              rbind (required_receipt tenant_id receipt_id rows') (\<lambda>r. Inr (Some r, rows'))
         else receipt_if_updated tenant_id receipt_id
           (receipt_cas tenant_id receipt_id (the_transition ''ACTION_EFFECT_CANCELLED'')
             (\<lambda>r. rc_fencing_token r = rc_fencing_token row)
             (\<lambda>r. r\<lparr>rc_cancel_requested_at := Some requested_at, rc_cancel_reason := reason,
                rc_worker_id := None, rc_lease_token := None, rc_lease_expires_at := None,
                rc_fencing_token := rc_fencing_token row + 1, rc_updated_at := requested_at,
                rc_completed_at := Some requested_at\<rparr>) rows))"

definition retry_receipt :: "string \<Rightarrow> string \<Rightarrow> string \<Rightarrow> (receipts, receipt_row option) io" where
  "retry_receipt tenant_id receipt_id requested_at = (\<lambda>rows.
     case locked_receipt tenant_id receipt_id rows of
       None \<Rightarrow> Inr (None, rows)
     | Some row \<Rightarrow>
         if rc_phase row \<noteq> ''after_commit'' then Inr (None, rows)
         else receipt_if_updated tenant_id receipt_id
           (receipt_cas tenant_id receipt_id (the_transition ''ACTION_EFFECT_MANUAL_RETRY'')
             (\<lambda>r. rc_fencing_token r = rc_fencing_token row)
             (\<lambda>r. r\<lparr>rc_max_attempts := rc_attempt_count row + 1, rc_retry_at := Some requested_at,
                rc_worker_id := None, rc_lease_token := None, rc_lease_expires_at := None,
                rc_dispatch_started_at := None, rc_completed_at := None, rc_updated_at := requested_at\<rparr>) rows))"

definition reconcile_receipt ::
  "string \<Rightarrow> string \<Rightarrow> string \<Rightarrow> dict \<Rightarrow> string \<Rightarrow> string \<Rightarrow> (receipts, receipt_row option) io" where
  "reconcile_receipt tenant_id receipt_id resolution evidence actor_user_id reconciled_at = (\<lambda>rows.
     if resolution \<notin> {''confirmed_delivered'', ''confirmed_not_delivered''} then Inl ValueError
     else case locked_receipt tenant_id receipt_id rows of
       None \<Rightarrow> Inr (None, rows)
     | Some row \<Rightarrow>
         receipt_if_updated tenant_id receipt_id
           (receipt_cas tenant_id receipt_id
             (if resolution = ''confirmed_delivered'' then the_transition ''ACTION_EFFECT_RECONCILED_SUCCEEDED''
              else the_transition ''ACTION_EFFECT_RECONCILED_DEAD_LETTER'')
             (\<lambda>r. rc_fencing_token r = rc_fencing_token row)
             (\<lambda>r. let r' = r\<lparr>rc_reconciled_at := Some reconciled_at,
                        rc_reconciled_by_user_id := Some actor_user_id,
                        rc_reconciliation := Some (dupdate [(''resolution'', PStr resolution)] evidence),
                        rc_updated_at := reconciled_at, rc_completed_at := Some reconciled_at\<rparr> in
                if resolution \<noteq> ''confirmed_delivered'' then r'
                else let r'' = r'\<lparr>rc_response := Some [(''reconciled'', PBool True), (''evidence'', PDict evidence)],
                                rc_error := None\<rparr> in
                  (case nonempty_text (get_val evidence ''externalExecutionId'') of
                     None \<Rightarrow> r''
                   | Some external_id \<Rightarrow> r''\<lparr>rc_external_execution_id := Some external_id\<rparr>)) rows))"

definition terminal_transition :: "string \<Rightarrow> status_transition result" where
  "terminal_transition status =
     (if status = ''succeeded'' then Inr (the_transition ''ACTION_EFFECT_SUCCEEDED'')
      else if status = ''retry_wait'' then Inr (the_transition ''ACTION_EFFECT_RETRY_WAIT'')
      else if status = ''dead_letter'' then Inr (the_transition ''ACTION_EFFECT_DEAD_LETTER'')
      else if status = ''outcome_unknown'' then Inr (the_transition ''ACTION_EFFECT_OUTCOME_UNKNOWN'')
      else if status = ''cancelled'' then Inr (the_transition ''ACTION_EFFECT_CANCELLED'')
      else Inl ValueError)"

text \<open>What a worker reports about its attempt.\<close>

record receipt_completion =
  co_tenant_id :: string
  co_receipt_id :: string
  co_worker_id :: string
  co_lease_token :: string
  co_fencing_token :: int
  co_status :: string
  co_response :: "dict option"
  co_error :: "dict option"
  co_retry_at :: "string option"
  co_external_execution_id :: "string option"
  co_completed_at :: string

definition complete_receipt :: "receipt_completion \<Rightarrow> (receipts, receipt_row option) io" where
  "complete_receipt c = (\<lambda>rows.
     rbind (terminal_transition (co_status c)) (\<lambda>t.
     receipt_if_updated (co_tenant_id c) (co_receipt_id c)
       (receipt_cas (co_tenant_id c) (co_receipt_id c) t
         (\<lambda>r. rc_worker_id r = Some (co_worker_id c) \<and> rc_lease_token r = Some (co_lease_token c)
            \<and> rc_fencing_token r = co_fencing_token c
            \<and> sql_holds (\<lambda>e. e \<ge> co_completed_at c) (rc_lease_expires_at r))
         (\<lambda>r. r\<lparr>rc_response := co_response c, rc_error := co_error c, rc_retry_at := co_retry_at c,
            rc_dispatch_started_at := (if co_status c = ''retry_wait'' then None else rc_dispatch_started_at r),
            rc_external_execution_id := co_external_execution_id c,
            rc_heartbeat_at := Some (co_completed_at c), rc_updated_at := co_completed_at c,
            rc_completed_at := (if co_status c = ''retry_wait'' then None else Some (co_completed_at c))\<rparr>) rows)))"

section \<open>Operator requests\<close>

type_synonym operation_key = "string \<times> string \<times> string \<times> string"

abbreviation eo_key :: "effect_operation_row \<Rightarrow> operation_key" where
  "eo_key r \<equiv> (eo_tenant_id r, eo_actor_user_id r, eo_operation r, eo_idempotency_key r)"

definition operation_by_idempotency :: "operation_key \<Rightarrow> effect_operation_row list \<Rightarrow> effect_operation_row option" where
  "operation_by_idempotency key rows = sql_first (\<lambda>r. eo_key r = key) rows"

definition insert_operation_or_existing ::
  "effect_operation_row \<Rightarrow> effect_operation_row list \<Rightarrow> effect_operation_row option \<times> effect_operation_row list" where
  "insert_operation_or_existing row rows =
     (if list_ex (\<lambda>r. eo_id r = eo_id row \<or> eo_key r = eo_key row) rows
      then (operation_by_idempotency (eo_key row) rows, rows)
      else (None, rows @ [row]))"

section \<open>Sequences of calls\<close>

text \<open>Every write of the repository as a value, so that the calls of racing workers and operators form
  a list. A call that raises is rolled back.\<close>

datatype receipt_call =
    Insert_receipt receipt_record
  | Claim_receipt effect_claim
  | Start_dispatch string string string string int string
  | Request_cancel string string "string option" string
  | Retry_receipt string string string
  | Reconcile_receipt string string string dict string string
  | Complete_receipt receipt_completion

fun perform :: "receipt_call \<Rightarrow> (receipts, receipt_row option) io" where
  "perform (Insert_receipt rec) = insert_receipt rec"
| "perform (Claim_receipt claim) = claim_receipt claim"
| "perform (Start_dispatch tenant_id receipt_id worker_id lease_token fencing_token started_at) =
     start_dispatch tenant_id receipt_id worker_id lease_token fencing_token started_at"
| "perform (Request_cancel tenant_id receipt_id reason requested_at) =
     request_cancel tenant_id receipt_id reason requested_at"
| "perform (Retry_receipt tenant_id receipt_id requested_at) = retry_receipt tenant_id receipt_id requested_at"
| "perform (Reconcile_receipt tenant_id receipt_id resolution evidence actor_user_id reconciled_at) =
     reconcile_receipt tenant_id receipt_id resolution evidence actor_user_id reconciled_at"
| "perform (Complete_receipt c) = complete_receipt c"

fun call_key :: "receipt_call \<Rightarrow> string \<times> string" where
  "call_key (Insert_receipt rec) = (rr_tenant_id rec, rr_receipt_id rec)"
| "call_key (Claim_receipt claim) = (cl_tenant_id claim, cl_receipt_id claim)"
| "call_key (Start_dispatch tenant_id receipt_id _ _ _ _) = (tenant_id, receipt_id)"
| "call_key (Request_cancel tenant_id receipt_id _ _) = (tenant_id, receipt_id)"
| "call_key (Retry_receipt tenant_id receipt_id _) = (tenant_id, receipt_id)"
| "call_key (Reconcile_receipt tenant_id receipt_id _ _ _ _) = (tenant_id, receipt_id)"
| "call_key (Complete_receipt c) = (co_tenant_id c, co_receipt_id c)"

fun is_insert :: "receipt_call \<Rightarrow> bool" where
  "is_insert (Insert_receipt _) = True"
| "is_insert _ = False"

definition commit_call :: "receipt_call \<Rightarrow> receipts \<Rightarrow> receipts \<times> receipt_row option" where
  "commit_call c rows = (case perform c rows of Inl _ \<Rightarrow> (rows, None) | Inr (res, rows') \<Rightarrow> (rows', res))"

type_synonym trace = "(receipt_call \<times> receipt_row option) list"

fun run_calls :: "receipt_call list \<Rightarrow> receipts \<Rightarrow> receipts \<times> trace" where
  "run_calls [] rows = (rows, [])"
| "run_calls (c # cs) rows =
     (let (rows', res) = commit_call c rows; (rows'', tr) = run_calls cs rows' in (rows'', (c, res) # tr))"

section \<open>A call rewrites the row with its key\<close>

lemma effect_table:
  "filter (\<lambda>(k, _). take 13 k = ''ACTION_EFFECT'') transition_table = action_effect_transitions"
  by code_simp

lemma the_effect_transition:
  assumes "take 13 name = ''ACTION_EFFECT''"
  shows "the_transition name = (case map_of action_effect_transitions name of Some t \<Rightarrow> t | None \<Rightarrow> mk_transition [] [])"
proof -
  have "map_of (filter (\<lambda>(k, _). take 13 k = ''ACTION_EFFECT'') table) name = map_of table name" for table :: "(string \<times> status_transition) list"
    using assms by (induction table) auto
  then show ?thesis unfolding effect_table [symmetric] the_transition_def by simp
qed

lemma effect_transitions [simp]:
  "the_transition ''ACTION_EFFECT_DELIVERING'' = mk_transition [''pending'', ''retry_wait'', ''delivering''] ''delivering''"
  "the_transition ''ACTION_EFFECT_SUCCEEDED'' = mk_transition [''delivering''] ''succeeded''"
  "the_transition ''ACTION_EFFECT_RETRY_WAIT'' = mk_transition [''delivering''] ''retry_wait''"
  "the_transition ''ACTION_EFFECT_DEAD_LETTER'' = mk_transition [''delivering''] ''dead_letter''"
  "the_transition ''ACTION_EFFECT_OUTCOME_UNKNOWN'' = mk_transition [''delivering''] ''outcome_unknown''"
  "the_transition ''ACTION_EFFECT_CANCELLED'' = mk_transition [''pending'', ''retry_wait'', ''delivering''] ''cancelled''"
  "the_transition ''ACTION_EFFECT_MANUAL_RETRY'' = mk_transition [''dead_letter''] ''retry_wait''"
  "the_transition ''ACTION_EFFECT_RECONCILED_SUCCEEDED'' = mk_transition [''outcome_unknown''] ''succeeded''"
  "the_transition ''ACTION_EFFECT_RECONCILED_DEAD_LETTER'' = mk_transition [''outcome_unknown''] ''dead_letter''"
  by (simp_all add: the_effect_transition action_effect_transitions_def)

lemma from_to_mk_transition [simp]:
  "from_statuses (mk_transition froms to) = froms" "to_status (mk_transition froms to) = to"
  by (simp_all add: mk_transition_def)

definition no_key :: "string \<times> string \<Rightarrow> receipts \<Rightarrow> bool" where
  "no_key k rows \<longleftrightarrow> (\<forall>r \<in> set rows. rc_key r \<noteq> k)"

lemma at_key:
  assumes "no_key k before" "no_key k after" "\<And>r. p r \<Longrightarrow> rc_key r = k"
  shows "sql_update p f (before @ r # after) = (before @ (if p r then f r else r) # after, if p r then 1 else 0)"
    and "sql_first p (before @ r # after) = (if p r then Some r else None)"
    and "sql_one p (before @ r # after) = (if p r then Inr r else Inl NoResultFound)"
proof -
  have none: "filter p before = []" "filter p after = []" using assms by (auto simp: no_key_def filter_empty_conv)
  moreover have "map (\<lambda>x. if p x then f x else x) before = before" "map (\<lambda>x. if p x then f x else x) after = after"
    using none by (auto simp: filter_empty_conv intro!: map_idI)
  ultimately show "sql_update p f (before @ r # after) = (before @ (if p r then f r else r) # after, if p r then 1 else 0)"
    "sql_one p (before @ r # after) = (if p r then Inr r else Inl NoResultFound)"
    by (auto simp: sql_update_def sql_one_def)
  show "sql_first p (before @ r # after) = (if p r then Some r else None)"
    using none by (induction before) (auto simp: sql_first_def find_None_iff filter_empty_conv split: if_splits)
qed

lemma at_one_row:
  "sql_update p f [r] = ([if p r then f r else r], if p r then 1 else 0)"
  "sql_first p [r] = (if p r then Some r else None)"
  "sql_one p [r] = (if p r then Inr r else Inl NoResultFound)"
  by (simp_all add: sql_update_def sql_first_def sql_one_def)

lemma without_key:
  assumes "no_key k rows" "\<And>r. p r \<Longrightarrow> rc_key r = k"
  shows "sql_update p f rows = (rows, 0)" "sql_first p rows = None"
proof -
  have none: "filter p rows = []" using assms by (auto simp: no_key_def filter_empty_conv)
  then show "sql_update p f rows = (rows, 0)" "sql_first p rows = None"
    by (auto simp: sql_update_def sql_first_def find_None_iff filter_empty_conv intro!: map_idI)
qed

text \<open>What a call does to a table with one row decides what it does to any table.\<close>

definition in_place :: "receipts \<Rightarrow> receipts \<Rightarrow> (receipt_row option \<times> receipts) result \<Rightarrow> (receipt_row option \<times> receipts) result" where
  "in_place before after res = rbind res (\<lambda>(found, rows). Inr (found, before @ rows @ after))"

lemmas receipt_ops = insert_receipt_def claim_receipt_def start_dispatch_def request_cancel_def retry_receipt_def
  reconcile_receipt_def complete_receipt_def

lemmas receipt_parts = locked_receipt_def receipt_cas_def receipt_if_updated_def required_receipt_def in_place_def Let_def

lemma at_receipt:
  assumes "no_key (t, i) before" "no_key (t, i) after"
  shows "sql_update (\<lambda>r. rc_tenant_id r = t \<and> rc_id r = i \<and> q r) f (before @ r # after) =
      (if rc_tenant_id r = t \<and> rc_id r = i \<and> q r then (before @ f r # after, 1) else (before @ r # after, 0))"
    and "sql_first (\<lambda>r. rc_tenant_id r = t \<and> rc_id r = i) (before @ r # after) =
      (if rc_tenant_id r = t \<and> rc_id r = i then Some r else None)"
    and "sql_one (\<lambda>r. rc_tenant_id r = t \<and> rc_id r = i) (before @ r # after) =
      (if rc_tenant_id r = t \<and> rc_id r = i then Inr r else Inl NoResultFound)"
  by (subst at_key [OF assms]; force)+

lemma receipt_cas_at:
  assumes "no_key (t, i) before" "no_key (t, i) after"
  shows "receipt_if_updated t i (one_row_updated (sql_update (\<lambda>r. rc_tenant_id r = t \<and> rc_id r = i \<and> q r) f
        (before @ r # after))) =
      in_place before after (receipt_if_updated t i (one_row_updated
        (sql_update (\<lambda>r. rc_tenant_id r = t \<and> rc_id r = i \<and> q r) f [r])))"
    and "receipt_if_updated t i (receipt_cas t i tr conditions assign (before @ r # after)) =
      in_place before after (receipt_if_updated t i (receipt_cas t i tr conditions assign [r]))"
    and "locked_receipt t i (before @ r # after) = locked_receipt t i [r]"
  by (simp_all add: receipt_cas_def one_row_updated_def receipt_if_updated_def required_receipt_def locked_receipt_def in_place_def
      at_receipt [OF assms] at_one_row)

lemma in_place_simps [simp]:
  "in_place before after (Inl e) = Inl e"
  "in_place before after (Inr (found, rows)) = Inr (found, before @ rows @ after)"
  by (simp_all add: in_place_def)

lemma perform_at:
  assumes "no_key (call_key c) before" "no_key (call_key c) after" "\<not> is_insert c"
  shows "perform c (before @ r # after) = in_place before after (perform c [r])"
proof (cases c)
  case (Claim_receipt claim)
  with assms(1,2) show ?thesis by (simp add: claim_receipt_def receipt_cas_at split: option.split)
next
  case (Start_dispatch t i)
  with assms(1,2) show ?thesis by (simp add: start_dispatch_def receipt_cas_at)
next
  case (Request_cancel t i)
  with assms(1,2) show ?thesis
    by (cases "rc_dispatch_started_at r")
      (simp_all add: request_cancel_def receipt_cas_at Let_def required_receipt_def at_receipt at_one_row locked_receipt_def)
next
  case (Retry_receipt t i)
  with assms(1,2) show ?thesis by (simp add: retry_receipt_def receipt_cas_at split: option.split)
next
  case (Reconcile_receipt t i)
  with assms(1,2) show ?thesis by (simp add: reconcile_receipt_def receipt_cas_at split: option.split)
next
  case (Complete_receipt co)
  with assms(1,2) show ?thesis by (cases "terminal_transition (co_status co)") (simp_all add: complete_receipt_def receipt_cas_at)
qed (use assms(3) in simp)


lemma perform_absent:
  assumes "no_key (call_key c) rows" "\<not> is_insert c"
  shows "perform c rows = Inr (None, rows) \<or> perform c rows = Inl ValueError"
proof -
  have absent: "sql_update (\<lambda>r. rc_tenant_id r = t \<and> rc_id r = i \<and> q r) f rows = (rows, 0)"
    "sql_first (\<lambda>r. rc_tenant_id r = t \<and> rc_id r = i) rows = None" if "no_key (t, i) rows" for t i q and f :: "receipt_row \<Rightarrow> receipt_row"
    by (rule without_key [OF that]; simp)+
  show ?thesis
    using assms by (cases c) (auto simp: receipt_ops receipt_cas_def one_row_updated_def receipt_if_updated_def
        locked_receipt_def absent terminal_transition_def)
qed

definition row_step :: "receipt_call \<Rightarrow> receipt_row \<Rightarrow> receipt_row \<Rightarrow> bool" where
  "row_step c r r' \<longleftrightarrow> \<not> is_insert c \<and> perform c [r] = Inr (Some r', [r'])"

lemmas one_row = at_one_row receipt_cas_def one_row_updated_def receipt_if_updated_def required_receipt_def
  locked_receipt_def

text \<open>The effect of every call on its row.\<close>

lemma row_step_insert [simp]: "\<not> row_step (Insert_receipt rec) r r'"
  by (simp add: row_step_def)

lemma row_step_claim:
  "row_step (Claim_receipt cl) r r' \<longleftrightarrow> rc_key r = (cl_tenant_id cl, cl_receipt_id cl)
     \<and> is_claimable r (cl_claimed_at cl) (cl_is_reconciliation cl)
     \<and> r' = r\<lparr>rc_attempt_count := rc_attempt_count r + 1, rc_worker_id := Some (cl_worker_id cl),
         rc_lease_token := Some (cl_lease_token cl), rc_lease_expires_at := Some (cl_lease_expires_at cl),
         rc_fencing_token := rc_fencing_token r + 1, rc_heartbeat_at := Some (cl_claimed_at cl), rc_retry_at := None,
         rc_updated_at := cl_claimed_at cl, rc_status := ''delivering''\<rparr>"
proof -
  have "rc_status r \<in> {''pending'', ''retry_wait'', ''delivering''}"
    if "is_claimable r (cl_claimed_at cl) (cl_is_reconciliation cl)"
    using that by (auto simp: is_claimable_def split: if_splits)
  then show ?thesis
    by (auto simp: row_step_def claim_receipt_def one_row)
qed

lemma row_step_dispatch:
  "row_step (Start_dispatch t i w l n started) r r' \<longleftrightarrow> rc_key r = (t, i) \<and> rc_status r = ''delivering''
     \<and> rc_worker_id r = Some w \<and> rc_lease_token r = Some l \<and> rc_fencing_token r = n
     \<and> rc_cancel_requested_at r = None \<and> rc_dispatch_started_at r = None
     \<and> r' = r\<lparr>rc_dispatch_started_at := Some started, rc_heartbeat_at := Some started, rc_updated_at := started\<rparr>"
  by (auto simp: row_step_def start_dispatch_def one_row)

lemma row_step_cancel:
  "row_step (Request_cancel t i reason requested) r r' \<longleftrightarrow> rc_key r = (t, i)
     \<and> (if rc_status r \<in> {''succeeded'', ''dead_letter'', ''outcome_unknown'', ''cancelled''} then r' = r
        else if rc_status r = ''delivering'' \<and> rc_dispatch_started_at r \<noteq> None
        then r' = r\<lparr>rc_cancel_requested_at := Some requested, rc_cancel_reason := reason, rc_updated_at := requested\<rparr>
        else rc_status r \<in> {''pending'', ''retry_wait'', ''delivering''}
          \<and> r' = r\<lparr>rc_cancel_requested_at := Some requested, rc_cancel_reason := reason,
              rc_worker_id := None, rc_lease_token := None, rc_lease_expires_at := None,
              rc_fencing_token := rc_fencing_token r + 1, rc_updated_at := requested,
              rc_completed_at := Some requested, rc_status := ''cancelled''\<rparr>)"
  by (cases "rc_dispatch_started_at r")
    (auto simp: row_step_def request_cancel_def one_row Let_def)

lemma row_step_retry:
  "row_step (Retry_receipt t i requested) r r' \<longleftrightarrow> rc_key r = (t, i) \<and> rc_phase r = ''after_commit''
     \<and> rc_status r = ''dead_letter''
     \<and> r' = r\<lparr>rc_max_attempts := rc_attempt_count r + 1, rc_retry_at := Some requested,
         rc_worker_id := None, rc_lease_token := None, rc_lease_expires_at := None,
         rc_dispatch_started_at := None, rc_completed_at := None, rc_updated_at := requested, rc_status := ''retry_wait''\<rparr>"
  by (auto simp: row_step_def retry_receipt_def one_row)

lemma row_step_reconcile:
  assumes "row_step (Reconcile_receipt t i resolution evidence actor reconciled) r r'"
  shows "rc_key r = (t, i) \<and> rc_status r = ''outcome_unknown'' \<and> rc_key r' = rc_key r
    \<and> rc_status r' = (if resolution = ''confirmed_delivered'' then ''succeeded'' else ''dead_letter'')
    \<and> rc_phase r' = rc_phase r \<and> rc_attempt_count r' = rc_attempt_count r \<and> rc_max_attempts r' = rc_max_attempts r
    \<and> rc_fencing_token r' = rc_fencing_token r \<and> rc_dispatch_started_at r' = rc_dispatch_started_at r
    \<and> rc_cancel_requested_at r' = rc_cancel_requested_at r \<and> rc_lease_expires_at r' = rc_lease_expires_at r"
  using assms
  by (auto simp: row_step_def reconcile_receipt_def one_row Let_def split: if_splits option.splits)

lemma row_step_complete:
  "row_step (Complete_receipt co) r r' \<longleftrightarrow> rc_key r = (co_tenant_id co, co_receipt_id co)
     \<and> co_status co \<in> {''succeeded'', ''retry_wait'', ''dead_letter'', ''outcome_unknown'', ''cancelled''}
     \<and> (if co_status co = ''cancelled'' then rc_status r \<in> {''pending'', ''retry_wait'', ''delivering''}
        else rc_status r = ''delivering'')
     \<and> rc_worker_id r = Some (co_worker_id co) \<and> rc_lease_token r = Some (co_lease_token co)
     \<and> rc_fencing_token r = co_fencing_token co
     \<and> sql_holds (\<lambda>e. e \<ge> co_completed_at co) (rc_lease_expires_at r)
     \<and> r' = r\<lparr>rc_response := co_response co, rc_error := co_error co, rc_retry_at := co_retry_at co,
         rc_dispatch_started_at := (if co_status co = ''retry_wait'' then None else rc_dispatch_started_at r),
         rc_external_execution_id := co_external_execution_id co,
         rc_heartbeat_at := Some (co_completed_at co), rc_updated_at := co_completed_at co,
         rc_completed_at := (if co_status co = ''retry_wait'' then None else Some (co_completed_at co)),
         rc_status := co_status co\<rparr>"
proof (cases "co_status co \<in> {''succeeded'', ''retry_wait'', ''dead_letter'', ''outcome_unknown'', ''cancelled''}")
  case True
  then show ?thesis
    by (elim insertE; auto simp: row_step_def complete_receipt_def terminal_transition_def one_row)
next
  case False
  then show ?thesis by (simp add: row_step_def complete_receipt_def terminal_transition_def)
qed

lemmas row_steps = row_step_claim row_step_dispatch row_step_cancel row_step_retry row_step_complete

lemma row_step_key:
  assumes "row_step c r r'"
  shows "rc_key r = call_key c" "rc_key r' = rc_key r"
  using assms by (cases c; auto simp: row_steps dest: row_step_reconcile split: if_splits)+

definition one_row_result :: "receipt_row \<Rightarrow> (receipt_row option \<times> receipts) result \<Rightarrow> bool" where
  "one_row_result r res \<longleftrightarrow> (\<exists>e. res = Inl e) \<or> res = Inr (None, [r]) \<or> (\<exists>r'. res = Inr (Some r', [r']))"

lemma one_row_results [simp]:
  "one_row_result r (Inl e)" "one_row_result r (Inr (None, [r]))" "one_row_result r (Inr (Some r', [r']))"
  "one_row_result r (receipt_if_updated t i (one_row_updated (sql_update p f [r])))"
  "one_row_result r (receipt_if_updated t i (receipt_cas t i tr conditions assign [r]))"
  by (simp_all add: one_row_result_def one_row)

lemma perform_one_row:
  assumes "\<not> is_insert c"
  shows "(\<exists>e. perform c [r] = Inl e) \<or> perform c [r] = Inr (None, [r]) \<or> (\<exists>r'. row_step c r r')"
proof -
  have "one_row_result r (perform c [r])"
  proof (cases c)
    case (Request_cancel t i reason requested)
    then show ?thesis
      by (auto simp: request_cancel_def Let_def locked_receipt_def required_receipt_def at_one_row)
  next
    case (Complete_receipt co)
    then show ?thesis by (cases "terminal_transition (co_status co)") (simp_all add: complete_receipt_def)
  next
    case Start_dispatch
    then show ?thesis by (simp add: start_dispatch_def)
  qed (use assms in \<open>simp_all add: claim_receipt_def retry_receipt_def reconcile_receipt_def
      locked_receipt_def at_one_row\<close>)
  with assms show ?thesis by (auto simp: one_row_result_def row_step_def)
qed

lemma required_new_receipt:
  assumes "no_key (t, i) rows" "rc_key row = (t, i)"
  shows "required_receipt t i (rows @ [row]) = Inr row"
  using at_receipt(3) [OF assms(1), of "[]" row] assms(2) by (simp add: required_receipt_def no_key_def)

lemma commit_call_cases:
  assumes "unique_on rc_key rows" "commit_call c rows = (rows', res)"
  obtains (same) "rows' = rows" "res = None"
  | (changed) before r r' after where "rows = before @ r # after" "row_step c r r'" "rows' = before @ r' # after"
      "res = Some r'"
  | (inserted) rec where "c = Insert_receipt rec" "no_key (call_key c) rows" "rows' = rows @ [receipt_values rec]"
      "res = Some (receipt_values rec)"
proof (cases "is_insert c")
  case True
  then obtain rec where c: "c = Insert_receipt rec" by (cases c) auto
  show thesis
  proof (cases "list_ex (receipt_conflict (receipt_values rec)) rows")
    case True
    with c assms(2) show thesis
      by (intro same) (auto simp: commit_call_def insert_receipt_def insert_or_ignore_def Let_def)
  next
    case False
    then have fresh: "no_key (rr_tenant_id rec, rr_receipt_id rec) rows"
      by (auto simp: no_key_def list_ex_iff receipt_conflict_def receipt_values_def)
    then have "required_receipt (rr_tenant_id rec) (rr_receipt_id rec) (rows @ [receipt_values rec]) = Inr (receipt_values rec)"
      by (rule required_new_receipt) (simp add: receipt_values_def)
    with False c assms(2) fresh show thesis
      by (intro inserted [of rec]) (auto simp: commit_call_def insert_receipt_def insert_or_ignore_def Let_def)
  qed
next
  case not_insert: False
  show thesis
  proof (cases "no_key (call_key c) rows")
    case True
    from perform_absent [OF this not_insert] assms(2) show thesis by (intro same) (auto simp: commit_call_def)
  next
    case False
    then obtain r where r: "r \<in> set rows" "rc_key r = call_key c" by (auto simp: no_key_def)
    then obtain before after where split: "rows = before @ r # after" by (meson split_list)
    have "no_key (call_key c) before" "no_key (call_key c) after"
      using assms(1) r(2) unfolding split unique_on_def no_key_def by force+
    then have perform: "perform c rows = in_place before after (perform c [r])"
      unfolding split by (rule perform_at) (rule not_insert)
    from perform_one_row [OF not_insert, of r] consider (raised) e where "perform c [r] = Inl e"
      | (refused) "perform c [r] = Inr (None, [r])" | (done_) r' where "row_step c r r'" by blast
    then show thesis
    proof cases
      case done_
      then show thesis
        using perform assms(2) by (intro changed [OF split]) (auto simp: commit_call_def row_step_def)
    qed (use perform assms(2) split in \<open>auto simp: commit_call_def intro: same\<close>)
  qed
qed

lemma commit_call_unique:
  assumes "unique_on rc_key rows" "commit_call c rows = (rows', res)"
  shows "unique_on rc_key rows'"
proof (cases rule: commit_call_cases [OF assms, case_names same changed inserted])
  case (changed before r r' after)
  with row_step_key [OF changed(2)] assms(1) show ?thesis by (simp add: unique_on_def)
next
  case (inserted rec)
  then show ?thesis using assms(1) by (auto simp: unique_on_def no_key_def receipt_values_def)
qed (use assms(1) in simp)

section \<open>Invariants of a row over every sequence of calls\<close>

text \<open>The calls on a key that took effect, oldest first.\<close>

definition own :: "string \<times> string \<Rightarrow> trace \<Rightarrow> receipt_call list" where
  "own k tr = map fst (filter (\<lambda>(c, res). call_key c = k \<and> res \<noteq> None) tr)"

lemma own_Nil [simp]: "own k [] = []"
  by (simp add: own_def)

lemma own_Cons: "own k ((c, res) # tr) = (if call_key c = k \<and> res \<noteq> None then c # own k tr else own k tr)"
  by (simp add: own_def)

text \<open>Every row satisfies \<open>I\<close> for the history \<open>H\<close> of its key, and a key without a row has no history.\<close>

definition table_ok ::
  "(receipt_call list \<Rightarrow> receipt_row \<Rightarrow> bool) \<Rightarrow> (string \<times> string \<Rightarrow> receipt_call list) \<Rightarrow> receipts \<Rightarrow> bool" where
  "table_ok I H rows \<longleftrightarrow> unique_on rc_key rows \<and> (\<forall>r \<in> set rows. I (H (rc_key r)) r)
     \<and> (\<forall>k. no_key k rows \<longrightarrow> H k = [])"

lemma table_okD: "table_ok I H rows \<Longrightarrow> r \<in> set rows \<Longrightarrow> I (H (rc_key r)) r"
  by (simp add: table_ok_def)

lemma table_ok_empty: "table_ok I (\<lambda>_. []) []"
  by (simp add: table_ok_def unique_on_def)

text \<open>A property of a row and the calls on it that every effective call keeps.\<close>

locale row_kept =
  fixes allowed :: "receipt_call \<Rightarrow> bool" and I :: "receipt_call list \<Rightarrow> receipt_row \<Rightarrow> bool"
  assumes kept: "I h r \<Longrightarrow> allowed c \<Longrightarrow> row_step c r r' \<Longrightarrow> I (h @ [c]) r'"
begin

lemma existing_row_call:
  assumes "unique_on rc_key rows" "allowed c" "commit_call c rows = (rows', res)" "r \<in> set rows" "I h r"
  obtains r' where "r' \<in> set rows'" "rc_key r' = rc_key r" "I (h @ own (rc_key r) [(c, res)]) r'"
proof (cases rule: commit_call_cases [OF assms(1,3), case_names same changed inserted])
  case same
  with assms(4,5) that show thesis by (simp add: own_Cons)
next
  case (changed before r1 r' after)
  note key = row_step_key [OF changed(2)]
  show thesis
  proof (cases "rc_key r1 = rc_key r")
    case True
    then have "r1 = r" using unique_on_inj [OF assms(1) _ assms(4)] changed(1) by auto
    with changed key kept [OF assms(5,2)] that [of r'] show thesis by (auto simp: own_Cons)
  next
    case False
    with changed key assms(4,5) that [of r] show thesis by (auto simp: own_Cons)
  qed
next
  case (inserted rec)
  then have "call_key c \<noteq> rc_key r" using assms(4) by (auto simp: no_key_def)
  with inserted assms(4,5) that [of r] show thesis by (auto simp: own_Cons)
qed

lemma existing_row_run:
  assumes "unique_on rc_key rows" "list_all allowed cs" "run_calls cs rows = (rows', tr)" "r \<in> set rows" "I h r"
  obtains r' where "r' \<in> set rows'" "rc_key r' = rc_key r" "I (h @ own (rc_key r) tr) r'"
  using assms
proof (induction cs arbitrary: h r rows tr thesis)
  case (Cons c cs)
  obtain rows1 res where call: "commit_call c rows = (rows1, res)" by fastforce
  obtain tr1 where run: "run_calls cs rows1 = (rows', tr1)" "tr = (c, res) # tr1"
    using Cons.prems(4) by (auto simp: call Let_def split: prod.splits)
  obtain r1 where r1: "r1 \<in> set rows1" "rc_key r1 = rc_key r" "I (h @ own (rc_key r) [(c, res)]) r1"
    using existing_row_call [OF Cons.prems(2) _ call Cons.prems(5,6)] Cons.prems(3) by auto
  obtain r' where "r' \<in> set rows'" "rc_key r' = rc_key r1" "I ((h @ own (rc_key r) [(c, res)]) @ own (rc_key r1) tr1) r'"
    using Cons.IH [OF _ commit_call_unique [OF Cons.prems(2) call] _ run(1) r1(1,3)] Cons.prems(3) by auto
  with r1(2) Cons.prems(1) [of r'] show ?case by (simp add: run(2) own_Cons split: if_splits)
qed auto

end

text \<open>With the row an insert creates, such a property holds of every row of a table that started empty.\<close>

locale row_invariant = row_kept +
  assumes inserted: "allowed (Insert_receipt rec) \<Longrightarrow> I [Insert_receipt rec] (receipt_values rec)"
begin

lemma call_keeps:
  assumes "table_ok I H rows" "allowed c" "commit_call c rows = (rows', res)"
  shows "table_ok I (\<lambda>k. H k @ own k [(c, res)]) rows'"
proof -
  have unique: "unique_on rc_key rows" using assms(1) by (simp add: table_ok_def)
  show ?thesis
  proof (cases rule: commit_call_cases [OF unique assms(3), case_names same changed inserted])
    case same
    with assms(1) show ?thesis by (simp add: own_Cons)
  next
    case (changed before r r' after)
    note key = row_step_key [OF changed(2)]
    have others: "call_key c \<noteq> rc_key x" if "x \<in> set before \<union> set after" for x
      using unique that unfolding changed(1) unique_on_def key(1) [symmetric] by (auto simp: image_iff)
    have "I (H (rc_key r) @ [c]) r'"
      using assms(1) kept [OF _ assms(2) changed(2)] unfolding table_ok_def changed(1) by simp
    moreover note commit_call_unique [OF unique assms(3)]
    moreover have "no_key k rows \<and> call_key c \<noteq> k" if "no_key k rows'" for k
      using that key unfolding changed(1,3) no_key_def by auto
    ultimately show ?thesis
      using assms(1) key others unfolding table_ok_def changed(1,3,4) own_Cons by simp
  next
    case (inserted rec)
    have "rc_key (receipt_values rec) = call_key c" by (simp add: receipt_values_def inserted(1))
    with inserted assms(1,2) unique row_invariant.inserted [OF row_invariant_axioms] show ?thesis
      by (auto simp: table_ok_def own_Cons no_key_def unique_on_def)
  qed
qed

lemma run_keeps:
  assumes "table_ok I H rows" "list_all allowed cs" "run_calls cs rows = (rows', tr)"
  shows "table_ok I (\<lambda>k. H k @ own k tr) rows'"
  using assms
proof (induction cs arbitrary: H rows tr)
  case (Cons c cs)
  obtain rows1 res where call: "commit_call c rows = (rows1, res)" by fastforce
  obtain tr1 where run: "run_calls cs rows1 = (rows', tr1)" "tr = (c, res) # tr1"
    using Cons.prems(3) by (auto simp: call Let_def split: prod.splits)
  have "table_ok I (\<lambda>k. H k @ own k [(c, res)]) rows1"
    using Cons.prems(1,2) call by (intro call_keeps) auto
  from Cons.IH [OF this _ run(1)] Cons.prems(2) have
    "table_ok I (\<lambda>k. (H k @ own k [(c, res)]) @ own k tr1) rows'" by simp
  moreover have "(H k @ own k [(c, res)]) @ own k tr1 = H k @ own k tr" for k
    by (simp add: run(2) own_Cons)
  ultimately show ?case by simp
qed simp

end

fun is_dispatch :: "receipt_call \<Rightarrow> bool" where
  "is_dispatch (Start_dispatch _ _ _ _ _ _) = True"
| "is_dispatch _ = False"

text \<open>The calls that allow another dispatch: a worker reports a failure known to be safe to retry, or an
  operator retries a dead letter.\<close>

fun is_release :: "receipt_call \<Rightarrow> bool" where
  "is_release (Complete_receipt co) = (co_status co = ''retry_wait'')"
| "is_release (Retry_receipt _ _ _) = True"
| "is_release _ = False"

definition sends :: "receipt_call list \<Rightarrow> nat" where
  "sends h = length (filter is_dispatch h)"

definition releases :: "receipt_call list \<Rightarrow> nat" where
  "releases h = length (filter is_release h)"

lemma sends_snoc [simp]:
  "sends [] = 0" "releases [] = 0"
  "sends (h @ [c]) = sends h + (if is_dispatch c then 1 else 0)"
  "releases (h @ [c]) = releases h + (if is_release c then 1 else 0)"
  by (simp_all add: sends_def releases_def)

lemma sends_insert [simp]: "sends [Insert_receipt rec] = 0" "releases [Insert_receipt rec] = 0"
  by (simp_all add: sends_def releases_def)

text \<open>A receipt counts at most one dispatch beyond the calls that released it.\<close>

definition released_sends :: "receipt_call list \<Rightarrow> receipt_row \<Rightarrow> bool" where
  "released_sends h r \<longleftrightarrow> sends h \<le> releases h + (if rc_dispatch_started_at r = None then 0 else 1)"

interpretation released: row_invariant "\<lambda>_. True" released_sends
proof unfold_locales
  fix h r c r'
  assume "released_sends h r" "row_step c r r'"
  then show "released_sends (h @ [c]) r'"
    by (cases c) (auto simp: released_sends_def row_steps dest: row_step_reconcile split: if_splits)
qed (simp add: released_sends_def receipt_values_def)

text \<open>Without reconciliation claims, attempts stay within the budget, and each attempt dispatches at most once.\<close>

fun budgeted :: "receipt_call \<Rightarrow> bool" where
  "budgeted (Insert_receipt rec) = (0 \<le> rr_max_attempts rec)"
| "budgeted (Claim_receipt cl) = (\<not> cl_is_reconciliation cl)"
| "budgeted _ = True"

definition budget_kept :: "receipt_call list \<Rightarrow> receipt_row \<Rightarrow> bool" where
  "budget_kept h r \<longleftrightarrow> int (sends h) \<le> rc_attempt_count r \<and> rc_attempt_count r \<le> rc_max_attempts r
     \<and> (rc_status r = ''delivering'' \<and> rc_dispatch_started_at r = None \<longrightarrow> int (sends h) < rc_attempt_count r)"

interpretation budget: row_invariant budgeted budget_kept
proof unfold_locales
  fix h r c r'
  assume "budget_kept h r" "budgeted c" "row_step c r r'"
  then show "budget_kept (h @ [c]) r'"
    by (cases c) (auto simp: budget_kept_def row_steps is_claimable_def dest: row_step_reconcile split: if_splits)
qed (simp add: budget_kept_def receipt_values_def)

interpretation fence: row_kept "\<lambda>_. True" "\<lambda>_ r. m \<le> rc_fencing_token r" for m
proof unfold_locales
  fix h r c r'
  assume "m \<le> rc_fencing_token r" "row_step c r r'"
  then show "m \<le> rc_fencing_token r'"
    by (cases c) (auto simp: row_steps dest: row_step_reconcile split: if_splits)
qed

definition stays_cancelled :: "receipt_row \<Rightarrow> receipt_call list \<Rightarrow> receipt_row \<Rightarrow> bool" where
  "stays_cancelled row h r \<longleftrightarrow> rc_status row = ''cancelled'' \<and> r = row \<and> sends h = 0"

lemma row_step_live:
  assumes "row_step c r r'" "\<And>t i reason requested. c \<noteq> Request_cancel t i reason requested"
  shows "rc_status r \<noteq> ''cancelled''"
proof (cases c)
  case (Claim_receipt cl)
  with assms(1) show ?thesis by (auto simp: row_step_claim is_claimable_def split: if_splits)
next
  case (Complete_receipt co)
  with assms(1) have "rc_status r \<in> {''pending'', ''retry_wait'', ''delivering''}"
    by (simp add: row_step_complete split: if_splits)
  then show ?thesis by auto
qed (use assms in \<open>auto simp: row_step_dispatch row_step_retry dest: row_step_reconcile\<close>)

lemma row_step_cancelled:
  assumes "row_step c r r'" "rc_status r = ''cancelled''"
  shows "r' = r" "\<not> is_dispatch c"
proof -
  obtain t i reason requested where c: "c = Request_cancel t i reason requested"
    using row_step_live [OF assms(1)] assms(2) by blast
  then show "r' = r" "\<not> is_dispatch c" using assms by (simp_all add: row_step_cancel)
qed

interpretation cancelled: row_kept "\<lambda>_. True" "stays_cancelled row" for row
proof unfold_locales
  fix h r c r'
  assume "stays_cancelled row h r" "row_step c r r'"
  then show "stays_cancelled row (h @ [c]) r'"
    using row_step_cancelled [of c r r'] by (simp add: stays_cancelled_def)
qed

interpretation cancel_marked: row_kept "\<lambda>_. True" "\<lambda>h r. rc_cancel_requested_at r \<noteq> None \<and> sends h = 0"
proof unfold_locales
  fix h r c r'
  assume "rc_cancel_requested_at r \<noteq> None \<and> sends h = 0" "row_step c r r'"
  then show "rc_cancel_requested_at r' \<noteq> None \<and> sends (h @ [c]) = 0"
    by (cases c) (auto simp: row_steps dest: row_step_reconcile split: if_splits)
qed

text \<open>Delivery workers after the lease \<open>lease\<close> of a receipt has passed.\<close>

fun after_lease :: "string \<Rightarrow> receipt_call \<Rightarrow> bool" where
  "after_lease lease (Claim_receipt cl) = (\<not> cl_is_reconciliation cl)"
| "after_lease lease (Complete_receipt co) = (lease < co_completed_at co)"
| "after_lease lease _ = True"

definition abandoned :: "string \<Rightarrow> receipt_row \<Rightarrow> bool" where
  "abandoned lease r \<longleftrightarrow> rc_status r = ''delivering'' \<and> rc_dispatch_started_at r \<noteq> None
     \<and> rc_max_attempts r \<le> rc_attempt_count r \<and> rc_lease_expires_at r = Some lease"

interpretation abandoned: row_kept "after_lease lease" "\<lambda>_. abandoned lease" for lease
proof unfold_locales
  fix h r c r'
  assume "abandoned lease r" "after_lease lease c" "row_step c r r'"
  then show "abandoned lease r'"
    by (cases c) (auto simp: abandoned_def row_steps is_claimable_def sql_holds_def dest: row_step_reconcile split: if_splits)
qed

lemma call_refused:
  assumes "unique_on rc_key rows" "r \<in> set rows" "rc_key r = call_key c" "\<And>r'. \<not> row_step c r r'" "\<not> is_insert c"
  shows "commit_call c rows = (rows, None)"
proof -
  obtain rows' res where call: "commit_call c rows = (rows', res)" by fastforce
  show ?thesis
  proof (cases rule: commit_call_cases [OF assms(1) call, case_names same changed inserted])
    case (changed before r1 r' after)
    then have "r1 = r" using unique_on_inj [OF assms(1) _ assms(2), of r1] row_step_key [OF changed(2)] assms(3) by auto
    with changed(2) assms(4) show ?thesis by simp
  qed (use call assms(5) in auto)
qed

lemma call_accepted:
  assumes "unique_on rc_key rows" "commit_call c rows = (rows', Some r')" "\<not> is_insert c"
  obtains r where "r \<in> set rows" "row_step c r r'" "r' \<in> set rows'"
  by (cases rule: commit_call_cases [OF assms(1,2), case_names same changed inserted]) (use assms(3) that in auto)

lemma run_calls_unique:
  "unique_on rc_key rows \<Longrightarrow> run_calls cs rows = (rows', tr) \<Longrightarrow> unique_on rc_key rows'"
proof (induction cs arbitrary: rows tr)
  case (Cons c cs)
  then show ?case
    by (cases "commit_call c rows") (auto simp: Let_def split: prod.splits dest: commit_call_unique)
qed simp

lemma released_sends_bound:
  assumes "run_calls cs [] = (rows, tr)"
  shows "sends (own k tr) \<le> Suc (releases (own k tr))"
proof -
  have ok: "table_ok released_sends (\<lambda>k. own k tr) rows"
    using released.run_keeps [OF table_ok_empty _ assms] by (simp add: list_all_iff)
  show ?thesis
  proof (cases "no_key k rows")
    case True
    with ok show ?thesis by (cases k) (simp add: table_ok_def)
  next
    case False
    then obtain r where "r \<in> set rows" "rc_key r = k" by (auto simp: no_key_def)
    with ok have "released_sends (own k tr) r" by (auto simp: table_ok_def)
    then show ?thesis by (auto simp: released_sends_def split: if_splits)
  qed
qed

section \<open>The status machine behind the calls\<close>

text \<open>The status of every receipt, as a row of the generic status tables.\<close>

definition status_view :: "receipt_row \<Rightarrow> status_row" where
  "status_view r = \<lparr>row_tenant_id = rc_tenant_id r, row_id = rc_id r, row_status = Some (rc_status r), row_values = []\<rparr>"

lemma row_step_status:
  assumes "row_step c r r'"
  shows "rc_status r' = rc_status r \<or> (\<exists>t \<in> set (map snd action_effect_transitions).
    rc_status r \<in> set (from_statuses t) \<and> rc_status r' = to_status t)"
proof (cases c)
  case (Claim_receipt cl)
  with assms have "rc_status r \<in> {''pending'', ''retry_wait'', ''delivering''}" "rc_status r' = ''delivering''"
    by (auto simp: row_step_claim is_claimable_def split: if_splits)
  then show ?thesis by (auto simp: action_effect_transitions_def)
next
  case (Request_cancel t i reason requested)
  with assms show ?thesis by (auto simp: row_step_cancel action_effect_transitions_def split: if_splits)
next
  case (Reconcile_receipt t i resolution evidence actor reconciled)
  with row_step_reconcile assms have "rc_status r = ''outcome_unknown''" "rc_status r' \<in> {''succeeded'', ''dead_letter''}"
    by auto
  then show ?thesis by (auto simp: action_effect_transitions_def)
qed (use assms in \<open>auto simp: row_steps action_effect_transitions_def split: if_splits\<close>)

lemma status_view_step:
  assumes "unique_on rc_key (before @ r # after)" "row_step c r r'"
  shows "cas_run (map snd action_effect_transitions) (map status_view (before @ r # after))
    (map status_view (before @ r' # after))"
proof -
  note key = row_step_key [OF assms(2)]
  from row_step_status [OF assms(2)] show ?thesis
  proof
    assume "rc_status r' = rc_status r"
    with key(2) have "status_view r' = status_view r" by (simp add: status_view_def)
    then show ?thesis by (simp add: cas_run.start)
  next
    assume "\<exists>t \<in> set (map snd action_effect_transitions). rc_status r \<in> set (from_statuses t) \<and> rc_status r' = to_status t"
    then obtain t where t: "t \<in> set (map snd action_effect_transitions)" "rc_status r \<in> set (from_statuses t)"
      "rc_status r' = to_status t" by blast
    have other: "rc_tenant_id x = rc_tenant_id r \<Longrightarrow> rc_id x \<noteq> rc_id r" if "x \<in> set before \<union> set after" for x
      using assms(1) that by (auto simp: unique_on_def image_iff)
    have "fst (cas_status_transition (rc_tenant_id r) (rc_id r) t [] (\<lambda>_. True) (map status_view (before @ r # after))) =
        map status_view (before @ r' # after)"
      using other t key(2) by (auto simp: fst_cas_status_transition sql_update_def status_in_def set_status_def status_view_def)
    with cas_run.more [OF cas_run.start cas_step.transition [OF t(1)]] show ?thesis by metis
  qed
qed

lemma cas_run_trans: "cas_run T rows rows' \<Longrightarrow> cas_run T rows' rows'' \<Longrightarrow> cas_run T rows rows''"
  by (rotate_tac 1, induction rule: cas_run.induct) (auto intro: cas_run.more)

lemma take_sql_update: "take n (fst (sql_update p f rows)) = fst (sql_update p f (take n rows))"
  by (simp add: sql_update_def take_map)

lemma take_cas:
  "take n (fst (cas_status_transition t i tr assigned conditions rows)) =
     fst (cas_status_transition t i tr assigned conditions (take n rows))"
  "take n (fst (cas_status_update_many t tr assigned conditions rows)) =
     fst (cas_status_update_many t tr assigned conditions (take n rows))"
  "take n (fst (cas_status_guarded_update t i ss assigned conditions rows)) =
     fst (cas_status_guarded_update t i ss assigned conditions (take n rows))"
  by (simp_all add: fst_cas_status_transition fst_cas_status_guarded_update cas_status_update_many_def take_sql_update)

lemma cas_step_take: "cas_step T rows rows' \<Longrightarrow> cas_step T (take n rows) (take n rows')"
  by (induction rule: cas_step.induct) (simp_all add: take_cas cas_step.intros)

lemma cas_run_take: "cas_run T rows rows' \<Longrightarrow> cas_run T (take n rows) (take n rows')"
  by (induction rule: cas_run.induct) (auto intro: cas_run.intros cas_step_take)

lemma status_view_call:
  assumes "unique_on rc_key rows" "commit_call c rows = (rows', res)"
  shows "cas_run (map snd action_effect_transitions) (map status_view rows) (map status_view (take (length rows) rows'))"
    and "length rows \<le> length rows'"
  by (cases rule: commit_call_cases [OF assms, case_names same changed inserted];
      use assms(1) status_view_step in \<open>force intro: cas_run.start\<close>)+

text \<open>What a worker lists as pending is what it can claim.\<close>

lemma pending_receipts_claimable:
  assumes "length rows \<le> limit"
  shows "set (pending_receipts tenant_id limit due_at rows) =
    {r \<in> set rows. rc_tenant_id r = tenant_id \<and> rc_phase r = ''after_commit'' \<and> is_claimable r due_at False}"
proof -
  have "length (filter p rows) \<le> limit" for p using assms order_trans [OF length_filter_le] by blast
  then show ?thesis by (auto simp: pending_receipts_def is_claimable_def)
qed

section \<open>A sample run\<close>

text \<open>A receipt with a budget of two attempts: the first worker dispatches and reports a transient
  failure, a second one takes over and succeeds.\<close>

definition sample_record :: receipt_record where
  "sample_record = \<lparr>rr_receipt_id = ''run:effect:mail'', rr_tenant_id = ''t'', rr_action_run_id = ''run'', rr_effect_id = ''mail'',
     rr_phase = ''after_commit'', rr_effect_kind = ''notification'', rr_target_ref = ''notification-policy:x'',
     rr_idempotency_key = ''action-effect:run:mail'', rr_max_attempts = 2, rr_request = [], rr_created_at = ''01'',
     rr_outbox_event_id = None\<rparr>"

definition sample_claim :: "string \<Rightarrow> string \<Rightarrow> string \<Rightarrow> effect_claim" where
  "sample_claim worker claimed expires = \<lparr>cl_tenant_id = ''t'', cl_receipt_id = ''run:effect:mail'', cl_worker_id = worker,
     cl_lease_token = ''lease_'' @ worker, cl_lease_expires_at = expires, cl_claimed_at = claimed, cl_is_reconciliation = False\<rparr>"

definition sample_completion :: "string \<Rightarrow> int \<Rightarrow> string \<Rightarrow> string option \<Rightarrow> string \<Rightarrow> receipt_completion" where
  "sample_completion worker token status retry completed = \<lparr>co_tenant_id = ''t'', co_receipt_id = ''run:effect:mail'',
     co_worker_id = worker, co_lease_token = ''lease_'' @ worker, co_fencing_token = token, co_status = status,
     co_response = None, co_error = None, co_retry_at = retry, co_external_execution_id = None, co_completed_at = completed\<rparr>"

definition sample_dispatch :: "string \<Rightarrow> int \<Rightarrow> string \<Rightarrow> receipt_call" where
  "sample_dispatch worker token started = Start_dispatch ''t'' ''run:effect:mail'' worker (''lease_'' @ worker) token started"

definition sample_calls :: "receipt_call list" where
  "sample_calls =
     [Insert_receipt sample_record,
      Claim_receipt (sample_claim ''a'' ''02'' ''09''), sample_dispatch ''a'' 1 ''03'',
      Complete_receipt (sample_completion ''a'' 1 ''retry_wait'' (Some ''05'') ''04''),
      Claim_receipt (sample_claim ''b'' ''06'' ''12''), sample_dispatch ''b'' 2 ''07'',
      Complete_receipt (sample_completion ''b'' 2 ''succeeded'' None ''08'')]"

lemmas sample_defs = sample_record_def sample_claim_def sample_completion_def sample_dispatch_def receipt_values_def

lemmas sample_eval = sample_defs commit_call_def receipt_ops one_row insert_or_ignore_def is_claimable_def
  sql_holds_def terminal_transition_def Let_def own_def less_char_def less_eq_char_def

lemma sample_sends:
  "sends (own (''t'', ''run:effect:mail'') (snd (run_calls sample_calls []))) = 2"
  "map rc_attempt_count (fst (run_calls sample_calls [])) = [2]"
  "map rc_key (fst (run_calls sample_calls [])) = [(''t'', ''run:effect:mail'')]"
  by (simp_all add: sample_calls_def sample_eval sends_def)

text \<open>The receipt as the first worker holds it.\<close>

definition sample_held :: receipt_row where
  "sample_held = (receipt_values sample_record)\<lparr>rc_attempt_count := 1, rc_worker_id := Some ''a'',
     rc_lease_token := Some ''lease_a'', rc_lease_expires_at := Some ''05'', rc_fencing_token := 1,
     rc_heartbeat_at := Some ''02'', rc_updated_at := ''02'', rc_status := ''delivering''\<rparr>"

lemma sample_unique: "unique_on rc_key [r]"
  by (simp add: unique_on_def)

lemma sample_held_claim:
  "commit_call (Claim_receipt (sample_claim ''a'' ''02'' ''05'')) [receipt_values sample_record] = ([sample_held], Some sample_held)"
  by (simp add: sample_eval sample_held_def)

section \<open>Properties\<close>

text \<open>
  C6. Fencing: once another worker has claimed a receipt, the earlier holder of the claim can
  neither dispatch the effect nor write its outcome, whatever happened in between and whatever
  happens later; the tokens of successive claims strictly increase.
\<close>

theorem superseded_claim_is_fenced_off:
  assumes "unique_on rc_key rows"
    and "commit_call (Claim_receipt first) rows = (rows1, Some held)"
    and "run_calls cs1 rows1 = (rows2, tr1)"
    and "commit_call (Claim_receipt second) rows2 = (rows3, Some taken)" "rc_key taken = rc_key held"
    and "run_calls cs2 rows3 = (rows4, tr2)"
  shows "rc_fencing_token held < rc_fencing_token taken
    \<and> commit_call (Start_dispatch (rc_tenant_id held) (rc_id held) w l (rc_fencing_token held) started) rows4 = (rows4, None)
    \<and> commit_call (Complete_receipt (co\<lparr>co_tenant_id := rc_tenant_id held, co_receipt_id := rc_id held,
        co_fencing_token := rc_fencing_token held\<rparr>)) rows4 = (rows4, None)"
proof -
  note unique1 = commit_call_unique [OF assms(1,2)]
  note unique2 = run_calls_unique [OF unique1 assms(3)]
  note unique3 = commit_call_unique [OF unique2 assms(4)]
  note unique4 = run_calls_unique [OF unique3 assms(6)]
  have held: "held \<in> set rows1" using call_accepted [OF assms(1,2)] by auto
  obtain r2 where r2: "r2 \<in> set rows2" "row_step (Claim_receipt second) r2 taken" "taken \<in> set rows3"
    using call_accepted [OF unique2 assms(4)] by auto
  obtain h2 where h2: "h2 \<in> set rows2" "rc_key h2 = rc_key held" "rc_fencing_token held \<le> rc_fencing_token h2"
    using fence.existing_row_run [OF unique1 _ assms(3) held order.refl] by (auto simp: list_all_iff)
  have "h2 = r2"
    using unique_on_inj [OF unique2 h2(1) r2(1)] h2(2) row_step_key [OF r2(2)] assms(5) by simp
  then have less: "rc_fencing_token held < rc_fencing_token taken"
    using h2(3) r2(2) by (simp add: row_step_claim)
  obtain r4 where r4: "r4 \<in> set rows4" "rc_key r4 = rc_key taken" "rc_fencing_token taken \<le> rc_fencing_token r4"
    using fence.existing_row_run [OF unique3 _ assms(6) r2(3) order.refl] by (auto simp: list_all_iff)
  have key: "rc_key r4 = (rc_tenant_id held, rc_id held)" using r4(2) assms(5) by simp
  have "commit_call (Start_dispatch (rc_tenant_id held) (rc_id held) w l (rc_fencing_token held) started) rows4 = (rows4, None)"
    by (rule call_refused [OF unique4 r4(1)]) (use key r4(3) less in \<open>simp_all add: row_step_dispatch\<close>)
  moreover have "commit_call (Complete_receipt (co\<lparr>co_tenant_id := rc_tenant_id held, co_receipt_id := rc_id held,
        co_fencing_token := rc_fencing_token held\<rparr>)) rows4 = (rows4, None)"
    by (rule call_refused [OF unique4 r4(1)]) (use key r4(3) less in \<open>simp_all add: row_step_complete\<close>)
  ultimately show ?thesis using less by blast
qed

theorem superseded_claim_is_fenced_off_witness:
  "\<exists>rows taken. commit_call (Claim_receipt (sample_claim ''b'' ''06'' ''12'')) [sample_held] = (rows, Some taken)
     \<and> rc_fencing_token sample_held < rc_fencing_token taken
     \<and> commit_call (Start_dispatch ''t'' ''run:effect:mail'' ''a'' ''lease_a'' 1 ''07'') rows = (rows, None)"
proof -
  obtain taken where take: "commit_call (Claim_receipt (sample_claim ''b'' ''06'' ''12'')) [sample_held] = ([taken], Some taken)"
    "rc_key taken = rc_key sample_held"
    by (simp add: sample_eval sample_held_def)
  have held: "rc_tenant_id sample_held = ''t''" "rc_id sample_held = ''run:effect:mail''" "rc_fencing_token sample_held = 1"
    by (simp_all add: sample_held_def sample_defs)
  have "run_calls [] rows = (rows, [])" for rows by simp
  from superseded_claim_is_fenced_off [OF sample_unique sample_held_claim this take this] show ?thesis
    unfolding held by (intro exI [of _ "[taken]"] exI [of _ taken] conjI take(1)) simp_all
qed

text \<open>
  C7. An effect is sent again only after the previous attempt ended in a failure known to be safe to
  retry or an operator retried it: over any sequence of calls, the accepted dispatches of a receipt
  exceed those releases by at most one.
\<close>

theorem effect_resent_only_after_release:
  assumes "run_calls cs [] = (rows, tr)"
  shows "sends (own k tr) \<le> Suc (releases (own k tr))"
  using assms by (rule released_sends_bound)

theorem effect_resent_only_after_release_witness:
  "sends (own (''t'', ''run:effect:mail'') (snd (run_calls sample_calls []))) = 2
   \<and> 2 \<le> Suc (releases (own (''t'', ''run:effect:mail'') (snd (run_calls sample_calls []))))"
  using effect_resent_only_after_release [OF prod.collapse [symmetric, of "run_calls sample_calls []"],
      of "(''t'', ''run:effect:mail'')"]
  by (simp only: sample_sends simp_thms)

text \<open>
  C8. The attempt budget: when no claim is a reconciliation, an effect is sent at most once per
  attempt and never attempted more often than \<^verbatim>\<open>max_attempts\<close>.
\<close>

theorem sends_within_attempt_budget:
  assumes "run_calls cs [] = (rows, tr)" "list_all budgeted cs" "r \<in> set rows"
  shows "int (sends (own (rc_key r) tr)) \<le> rc_attempt_count r \<and> rc_attempt_count r \<le> rc_max_attempts r"
proof -
  have "table_ok budget_kept (\<lambda>k. own k tr) rows"
    using budget.run_keeps [OF table_ok_empty assms(2,1)] by simp
  from table_okD [OF this assms(3)] show ?thesis by (simp add: budget_kept_def)
qed

theorem sends_within_attempt_budget_witness:
  "\<exists>r \<in> set (fst (run_calls sample_calls [])).
     int (sends (own (rc_key r) (snd (run_calls sample_calls [])))) \<le> rc_attempt_count r \<and> rc_attempt_count r \<le> rc_max_attempts r"
proof -
  obtain r where r: "r \<in> set (fst (run_calls sample_calls []))"
    using sample_sends(2) by (cases "fst (run_calls sample_calls [])") auto
  have "list_all budgeted sample_calls" by (simp add: sample_calls_def sample_defs)
  from sends_within_attempt_budget [OF prod.collapse [symmetric] this r] r show ?thesis by blast
qed

text \<open>
  Cancellation is final: once \<^verbatim>\<open>request_cancel\<close> has recorded the request, no later dispatch of the
  receipt is accepted, and when it reports the receipt as cancelled the row never changes again.
\<close>

theorem cancelled_receipt_never_dispatched:
  assumes "unique_on rc_key rows"
    and "commit_call (Request_cancel t i reason requested) rows = (rows1, Some r)" "rc_cancel_requested_at r \<noteq> None"
    and "run_calls cs rows1 = (rows2, tr)"
  shows "sends (own (t, i) tr) = 0 \<and> (rc_status r = ''cancelled'' \<longrightarrow> r \<in> set rows2)"
proof -
  obtain r0 where r0: "row_step (Request_cancel t i reason requested) r0 r" "r \<in> set rows1"
    using call_accepted [OF assms(1,2)] by auto
  note unique = commit_call_unique [OF assms(1,2)]
  have key: "rc_key r = (t, i)" using row_step_key [OF r0(1)] by simp
  have "sends (own (t, i) tr) = 0"
    using cancel_marked.existing_row_run [OF unique _ assms(4) r0(2), of "[]"] assms(3) key by (auto simp: list_all_iff)
  moreover have "r \<in> set rows2" if "rc_status r = ''cancelled''"
  proof -
    have "stays_cancelled r [] r" using that by (simp add: stays_cancelled_def)
    from cancelled.existing_row_run [OF unique _ assms(4) r0(2) this] show ?thesis
      by (auto simp: list_all_iff stays_cancelled_def)
  qed
  ultimately show ?thesis by blast
qed

theorem cancelled_receipt_never_dispatched_witness:
  "\<exists>r. commit_call (Request_cancel ''t'' ''run:effect:mail'' None ''03'') [sample_held] = ([r], Some r)
     \<and> sends (own (''t'', ''run:effect:mail'') (snd (run_calls [sample_dispatch ''a'' 1 ''04''] [r]))) = 0"
proof -
  obtain r where r: "commit_call (Request_cancel ''t'' ''run:effect:mail'' None ''03'') [sample_held] = ([r], Some r)"
    "rc_cancel_requested_at r \<noteq> None"
    by (simp add: sample_eval sample_held_def)
  from cancelled_receipt_never_dispatched [OF sample_unique this prod.collapse [symmetric]] r(1) show ?thesis by blast
qed

text \<open>
  C9. The calls on receipts implement the status machine of \<^verbatim>\<open>state_transitions.py\<close>: seen through
  their statuses, the receipts that existed before a sequence of calls are changed only by
  compare-and-set updates of the effect transitions.
\<close>

theorem receipts_refine_status_machine:
  assumes "unique_on rc_key rows" "run_calls cs rows = (rows', tr)"
  shows "cas_run (map snd action_effect_transitions) (map status_view rows)
    (map status_view (take (length rows) rows'))"
  using assms
proof (induction cs arbitrary: rows tr)
  case (Cons c cs)
  obtain rows1 res where call: "commit_call c rows = (rows1, res)" by fastforce
  obtain tr1 where run: "run_calls cs rows1 = (rows', tr1)"
    using Cons.prems(2) by (auto simp: call Let_def split: prod.splits)
  note one = status_view_call [OF Cons.prems(1) call]
  have "cas_run (map snd action_effect_transitions) (map status_view rows1) (map status_view (take (length rows1) rows'))"
    using Cons.IH commit_call_unique [OF Cons.prems(1) call] run by blast
  from cas_run_take [OF this, of "length rows"] one show ?case
    by (auto simp: take_map min_def intro: cas_run_trans)
qed (simp add: cas_run.start)

theorem receipts_refine_status_machine_witness:
  "cas_run (map snd action_effect_transitions) [status_view (receipt_values sample_record)] [status_view sample_held]"
proof -
  have "run_calls [Claim_receipt (sample_claim ''a'' ''02'' ''05'')] [receipt_values sample_record] =
      ([sample_held], [(Claim_receipt (sample_claim ''a'' ''02'' ''05''), Some sample_held)])"
    by (simp add: sample_held_claim)
  from receipts_refine_status_machine [OF sample_unique this] show ?thesis by simp
qed



text \<open>An operator may retry a dead letter whose cancellation was once requested; the request is kept, so the
  retried receipt can be claimed but its dispatch is always refused.\<close>

lemma retry_of_cancel_requested_never_dispatches:
  assumes "unique_on rc_key rows" "commit_call (Retry_receipt t i requested) rows = (rows1, Some r)"
    and "\<And>row. row \<in> set rows \<Longrightarrow> rc_key row = (t, i) \<Longrightarrow> rc_cancel_requested_at row \<noteq> None"
    and "run_calls cs rows1 = (rows2, tr)"
  shows "rc_status r = ''retry_wait'' \<and> sends (own (t, i) tr) = 0"
proof -
  obtain r0 where r0: "r0 \<in> set rows" "row_step (Retry_receipt t i requested) r0 r" "r \<in> set rows1"
    using call_accepted [OF assms(1,2)] by auto
  then have "rc_key r = (t, i)" "rc_cancel_requested_at r \<noteq> None" "rc_status r = ''retry_wait''"
    using assms(3) [OF r0(1)] row_step_key [OF r0(2)] by (auto simp: row_step_retry)
  with cancel_marked.existing_row_run [OF commit_call_unique [OF assms(1,2)] _ assms(4) r0(3), of "[]"] show ?thesis
    by (auto simp: list_all_iff)
qed

end
