(* ===== verification/Action_Effects.thy ===== *)
theory Action_Effects
  imports Scalars
begin

text \<open>
  \<^verbatim>\<open>domain/action_runtime/action_effects.py\<close> and \<^verbatim>\<open>action_notification_templates.py\<close>: the side effects an
  action declares, compiled from its definition into registered, bounded contracts, and the
  templates of notification payloads, checked when the action is compiled and rendered from the
  state before the commit. The paths in error details are diagnostic and are left out.
\<close>

section \<open>Notification templates\<close>

definition is_word_start :: "char \<Rightarrow> bool" where
  "is_word_start c = (is_upper c \<or> is_lower c \<or> c = CHR ''_'')"

definition is_coordinate_char :: "char \<Rightarrow> bool" where
  "is_coordinate_char c = (is_alnum c \<or> c = CHR ''_'' \<or> c = CHR ''.'')"

definition template_roots :: "string list" where
  "template_roots = [''object'', ''parameters'', ''actor'', ''action'']"

text \<open>\<^verbatim>\<open>(?:object|parameters|actor|action)\.[A-Za-z_][A-Za-z0-9_.]*\<close> on a maximal run of coordinate
  characters; the characters that may follow are not coordinate characters, so a shorter run never
  completes a match.\<close>

definition is_coordinate :: "string \<Rightarrow> bool" where
  "is_coordinate word = list_ex (\<lambda>root. starts_with word (root @ ''.'')
     \<and> (case drop (length root + 1) word of [] \<Rightarrow> False | c # _ \<Rightarrow> is_word_start c)) template_roots"

text \<open>A token at the start of the text: its coordinate and the text after it.\<close>

definition match_token :: "string \<Rightarrow> (string \<times> string) option" where
  "match_token s =
     (if \<not> starts_with s ''{{'' then None
      else let s1 = dropWhile is_space (drop 2 s); word = takeWhile is_coordinate_char s1;
             s2 = dropWhile is_space (dropWhile is_coordinate_char s1) in
        if is_coordinate word \<and> starts_with s2 ''}}'' then Some (word, drop 2 s2) else None)"

lemma match_token_shorter: "match_token s = Some (word, rest) \<Longrightarrow> length rest < length s"
proof -
  assume "match_token s = Some (word, rest)"
  then have rest: "rest = drop 2 (dropWhile is_space (dropWhile is_coordinate_char (dropWhile is_space (drop 2 s))))"
    "starts_with s ''{{''"
    by (auto simp: match_token_def Let_def split: if_splits)
  have "length rest \<le> length (drop 2 s)"
    unfolding rest(1) by (metis diff_le_self le_trans length_drop length_dropWhile_le)
  moreover have "2 \<le> length s" using rest(2) by (cases s; cases "tl s") auto
  ultimately show ?thesis by simp
qed

text \<open>The text as a scan from left to right sees it: the coordinates of the tokens and the characters
  between them.\<close>

function scan_tokens :: "string \<Rightarrow> (string + char) list" where
  "scan_tokens [] = []"
| "scan_tokens (c # s) = (case match_token (c # s) of
     Some (word, rest) \<Rightarrow> Inl word # scan_tokens rest
   | None \<Rightarrow> Inr c # scan_tokens s)"
  by pat_completeness auto
termination
  by (relation "measure length") (auto dest: match_token_shorter)

definition validate_text :: "string \<Rightarrow> unit result" where
  "validate_text s =
     (if \<not> contains_text s ''{{'' \<and> \<not> contains_text s ''}}'' then Inr ()
      else let parts = scan_tokens s;
             remainder = concat (map (case_sum (\<lambda>_. []) (\<lambda>c. [c])) parts) in
        raise_if (contains_text remainder ''{{'' \<or> contains_text remainder ''}}''
            \<or> \<not> list_ex isl parts)
          (ValidationFailed ''notification payload contains an invalid template placeholder''))"

fun validate_template_value :: "pyval \<Rightarrow> unit result" where
  "validate_template_value (PStr s) = validate_text s"
| "validate_template_value (PDict d) = each (\<lambda>(k, v). validate_template_value v) d"
| "validate_template_value (PList xs) = each validate_template_value xs"
| "validate_template_value _ = Inr ()"

definition validate_notification_template_payload :: "dict \<Rightarrow> unit result" where
  "validate_notification_template_payload payload = validate_template_value (PDict payload)"

text \<open>\<^verbatim>\<open>coordinate.split(".")\<close>.\<close>

fun split_dots :: "string \<Rightarrow> string list" where
  "split_dots [] = [[]]"
| "split_dots (c # s) = (if c = CHR ''.'' then [] # split_dots s
     else case split_dots s of [] \<Rightarrow> [[c]] | w # ws \<Rightarrow> (c # w) # ws)"

fun resolve_segments :: "string list \<Rightarrow> pyval \<Rightarrow> pyval result" where
  "resolve_segments [] v = Inr v"
| "resolve_segments (seg # segs) v = (case v of
     PDict d \<Rightarrow> (case map_of d seg of
         Some w \<Rightarrow> resolve_segments segs w
       | None \<Rightarrow> Inl (ValidationFailed ''notification template value is unavailable in the pre-commit snapshot''))
   | _ \<Rightarrow> Inl (ValidationFailed ''notification template value is unavailable in the pre-commit snapshot''))"

definition template_resolve :: "string \<Rightarrow> dict \<Rightarrow> pyval result" where
  "template_resolve coordinate context =
     (case split_dots coordinate of
        [] \<Rightarrow> Inl KeyError
      | base # segments \<Rightarrow> (case map_of context base of
          None \<Rightarrow> Inl KeyError
        | Some v \<Rightarrow> resolve_segments segments v))"

definition template_replace :: "dict \<Rightarrow> string + char \<Rightarrow> string result" where
  "template_replace context part = (case part of
     Inr c \<Rightarrow> Inr [c]
   | Inl coordinate \<Rightarrow> rbind (template_resolve coordinate context) (\<lambda>v.
       if is_mapping v \<or> is_sequence v
       then Inl (ValidationFailed ''notification embedded placeholder must resolve to a scalar'')
       else Inr (py_str v)))"

definition render_text :: "dict \<Rightarrow> string \<Rightarrow> pyval result" where
  "render_text context s = rbind (validate_text s) (\<lambda>_.
     case match_token s of
       Some (coordinate, []) \<Rightarrow> template_resolve coordinate context
     | _ \<Rightarrow> rbind (map_result (template_replace context) (scan_tokens s)) (\<lambda>parts. Inr (PStr (concat parts))))"

fun render_value :: "dict \<Rightarrow> pyval \<Rightarrow> pyval result" where
  "render_value context (PStr s) = render_text context s"
| "render_value context (PDict d) =
     rbind (map_result (\<lambda>(k, v). rbind (render_value context v) (\<lambda>w. Inr (k, w))) d) (\<lambda>d'. Inr (PDict d'))"
| "render_value context (PList xs) = rbind (map_result (render_value context) xs) (\<lambda>ys. Inr (PList ys))"
| "render_value context v = Inr v"

definition render_notification_template_payload ::
  "dict \<Rightarrow> dict \<Rightarrow> dict \<Rightarrow> string \<Rightarrow> string \<Rightarrow> string \<Rightarrow> dict result" where
  "render_notification_template_payload payload object_properties parameters actor_user_id action_run_id action_api_name =
     rbind (render_value [(''object'', PDict object_properties), (''parameters'', PDict parameters),
         (''actor'', PDict [(''userId'', PStr actor_user_id)]),
         (''action'', PDict [(''runId'', PStr action_run_id), (''apiName'', PStr action_api_name)])] (PDict payload))
       (\<lambda>rendered. case rendered of
          PDict d \<Rightarrow> Inr d
        | _ \<Rightarrow> Inl (ValidationFailed ''notification payload must remain an object after rendering''))"

section \<open>Effect contracts\<close>

definition action_effect_kinds :: "string list" where
  "action_effect_kinds = [''webhook'', ''notification'', ''event'', ''schedule_build'', ''connector_command'']"

definition action_effect_phases :: "string list" where
  "action_effect_phases = [''before_commit'', ''after_commit'']"

definition action_effect_response_types :: "string list" where
  "action_effect_response_types =
     [''string'', ''boolean'', ''integer'', ''long'', ''float'', ''decimal'', ''date'', ''timestamp'']"

record action_effect =
  ae_effect_id :: string
  ae_kind :: string
  ae_phase :: string
  ae_target_ref :: string
  ae_payload :: dict
  ae_response_fields :: "(string \<times> string) list"
  ae_max_attempts :: int
  ae_timeout_seconds :: int

definition action_effect_payload :: "action_effect \<Rightarrow> dict" where
  "action_effect_payload e =
     [(''effectId'', PStr (ae_effect_id e)), (''kind'', PStr (ae_kind e)), (''phase'', PStr (ae_phase e)),
      (''targetRef'', PStr (ae_target_ref e)), (''payload'', PDict (ae_payload e)),
      (''responseFields'', PDict (map (\<lambda>(f, t). (f, PStr t)) (ae_response_fields e))),
      (''maxAttempts'', PInt (ae_max_attempts e)), (''timeoutSeconds'', PInt (ae_timeout_seconds e))]"

definition validate_action_effect_response :: "action_effect \<Rightarrow> dict \<Rightarrow> unit result" where
  "validate_action_effect_response e response = each (\<lambda>(field, data_type).
     case map_of response field of
       None \<Rightarrow> Inl (ValidationFailed ''before-commit webhook response is missing a declared field'')
     | Some v \<Rightarrow> raise_if (\<not> matches_scalar_type data_type v)
         (ValidationFailed ''before-commit webhook response field has the wrong type'')) (ae_response_fields e)"

text \<open>\<^verbatim>\<open>a or b\<close>.\<close>

definition py_or :: "pyval \<Rightarrow> pyval \<Rightarrow> pyval" where
  "py_or a b = (if truthy a then a else b)"

definition effect_mapping :: "string \<Rightarrow> pyval \<Rightarrow> dict result" where
  "effect_mapping label raw = (case raw of PDict d \<Rightarrow> Inr d
     | _ \<Rightarrow> Inl (ValidationFailed (''action '' @ label @ '' must be an object'')))"

definition effect_mapping_or_empty :: "pyval \<Rightarrow> dict result" where
  "effect_mapping_or_empty raw = (if raw = PNone then Inr [] else effect_mapping ''effect payload'' raw)"

definition effect_sequence :: "pyval \<Rightarrow> pyval list result" where
  "effect_sequence raw = (case raw of PNone \<Rightarrow> Inr [] | PList xs \<Rightarrow> Inr xs
     | _ \<Rightarrow> Inl (ValidationFailed ''action effects must be a list''))"

definition effect_text :: "pyval \<Rightarrow> string \<Rightarrow> string" where
  "effect_text raw d = (case raw of PStr s \<Rightarrow> if py_strip s \<noteq> [] then py_strip s else d | _ \<Rightarrow> d)"

definition effect_bounded_int :: "pyval \<Rightarrow> int \<Rightarrow> int \<Rightarrow> int \<Rightarrow> int result" where
  "effect_bounded_int raw d minimum maximum =
     (case (if raw = PNone then Some d else plain_int raw) of
        Some n \<Rightarrow> if minimum \<le> n \<and> n \<le> maximum then Inr n
                  else Inl (ValidationFailed ''action effect integer policy is outside its allowed range'')
      | None \<Rightarrow> Inl (ValidationFailed ''action effect integer policy is outside its allowed range''))"

definition effect_kind :: "pyval \<Rightarrow> string result" where
  "effect_kind raw =
     (let v = (case map_of [(''schedule'', ''schedule_build''), (''build'', ''schedule_build''),
                 (''scheduleBuild'', ''schedule_build''), (''connectorCommand'', ''connector_command'')] (py_str raw) of
               Some alias \<Rightarrow> alias | None \<Rightarrow> py_str raw) in
      if v \<in> set action_effect_kinds then Inr v else Inl (ValidationFailed ''unsupported action effect kind''))"

definition effect_phase :: "pyval \<Rightarrow> string result" where
  "effect_phase raw =
     (let v = (case map_of [(''beforeCommit'', ''before_commit''), (''afterCommit'', ''after_commit'')] (py_str raw) of
               Some alias \<Rightarrow> alias | None \<Rightarrow> py_str (py_or raw (PStr ''after_commit''))) in
      if v \<in> set action_effect_phases then Inr v else Inl (ValidationFailed ''unsupported action effect phase''))"

text \<open>A membership test of a list or an object in a \<^verbatim>\<open>frozenset\<close> raises \<^verbatim>\<open>TypeError\<close>.\<close>

definition effect_response_fields :: "pyval \<Rightarrow> (string \<times> string) list result" where
  "effect_response_fields raw = rbind (effect_mapping_or_empty raw) (map_result (\<lambda>(field, data_type).
     if field = [] then Inl (ValidationFailed ''Action effect response field has an unsupported type'')
     else case data_type of
       PList _ \<Rightarrow> Inl TypeError
     | PDict _ \<Rightarrow> Inl TypeError
     | PStr t \<Rightarrow> if t \<in> set action_effect_response_types then Inr (field, t)
                 else Inl (ValidationFailed ''Action effect response field has an unsupported type'')
     | _ \<Rightarrow> Inl (ValidationFailed ''Action effect response field has an unsupported type'')))"

definition is_destination_key :: "string \<Rightarrow> bool" where
  "is_destination_key key = (py_lower (filter (\<lambda>c. c \<noteq> CHR ''_'') key) \<in> {''url'', ''uri'', ''endpoint'', ''destination''})"

fun reject_inline_destination :: "pyval \<Rightarrow> unit result" where
  "reject_inline_destination (PDict d) = each (\<lambda>(key, child).
     if is_destination_key key
     then Inl (ValidationFailed ''action effects cannot declare an inline destination; use targetRef'')
     else reject_inline_destination child) d"
| "reject_inline_destination (PList xs) = each reject_inline_destination xs"
| "reject_inline_destination _ = Inr ()"

definition compile_effect :: "nat \<Rightarrow> pyval \<Rightarrow> action_effect result" where
  "compile_effect index raw =
     rbind (effect_mapping ''effect'' raw) (\<lambda>item.
     rbind (reject_inline_destination (PDict item)) (\<lambda>_.
     rbind (effect_kind (py_or (get_val item ''kind'') (get_val item ''type''))) (\<lambda>kind.
     rbind (effect_phase (py_or (get_val item ''phase'') (get_val item ''mode''))) (\<lambda>phase.
     let effect_id = effect_text (py_or (get_val item ''effectId'') (get_val item ''apiName''))
           (''effect-'' @ show_nat (index + 1));
         target_ref = effect_text (py_or (get_val item ''targetRef'') (get_val item ''connector'')) [] in
     if target_ref = [] then Inl (ValidationFailed ''action effect requires a registered targetRef'')
     else
     rbind (effect_bounded_int (get_val item ''maxAttempts'') (if phase = ''before_commit'' then 1 else 3) 1 10) (\<lambda>max_attempts.
     rbind (effect_bounded_int (get_val item ''timeoutSeconds'') 30 1 300) (\<lambda>timeout_seconds.
     rbind (effect_mapping_or_empty (get_val item ''payload'')) (\<lambda>payload.
     rbind (if kind = ''notification'' then validate_notification_template_payload payload else Inr ()) (\<lambda>_.
     rbind (effect_response_fields (get_val item ''responseFields'')) (\<lambda>response_fields.
     Inr \<lparr>ae_effect_id = effect_id, ae_kind = kind, ae_phase = phase, ae_target_ref = target_ref, ae_payload = payload,
       ae_response_fields = response_fields, ae_max_attempts = max_attempts, ae_timeout_seconds = timeout_seconds\<rparr>)))))))))"

fun enumerate_result :: "(nat \<Rightarrow> 'a \<Rightarrow> 'b result) \<Rightarrow> nat \<Rightarrow> 'a list \<Rightarrow> 'b list result" where
  "enumerate_result f i [] = Inr []"
| "enumerate_result f i (x # xs) = rbind (f i x) (\<lambda>y. rbind (enumerate_result f (i + 1) xs) (\<lambda>ys. Inr (y # ys)))"

definition legacy_target_ref :: "dict \<Rightarrow> string \<Rightarrow> pyval" where
  "legacy_target_ref item kind =
     (let keys = (if kind = ''event'' then [''topic'']
        else if kind = ''notification'' then [''channel'', ''recipientPolicy'']
        else if kind = ''schedule_build'' then [''schedule'', ''build''] else [''connector'']) in
      case find (\<lambda>k. truthy (get_val item k)) keys of None \<Rightarrow> PNone | Some k \<Rightarrow> get_val item k)"

definition legacy_writeback :: "nat \<Rightarrow> pyval \<Rightarrow> action_effect result" where
  "legacy_writeback index raw = rbind (effect_mapping ''writeback'' raw) (\<lambda>item.
     compile_effect index (PDict
       [(''effectId'', py_or (get_val item ''apiName'') (PStr (''writeback-'' @ show_nat (index + 1)))),
        (''kind'', PStr ''webhook''), (''phase'', PStr ''before_commit''), (''targetRef'', get_val item ''connector''),
        (''payload'', py_or (get_val item ''payload'') (PDict [])), (''maxAttempts'', PInt 1)]))"

definition legacy_side_effect :: "nat \<Rightarrow> nat \<Rightarrow> pyval \<Rightarrow> action_effect result" where
  "legacy_side_effect offset index raw = rbind (effect_mapping ''side effect'' raw) (\<lambda>item.
     rbind (effect_kind (py_or (get_val item ''kind'') (get_val item ''type''))) (\<lambda>kind.
     compile_effect (offset + index) (PDict
       [(''effectId'', py_or (get_val item ''apiName'') (PStr (kind @ ''-'' @ show_nat (index + 1)))),
        (''kind'', PStr kind), (''phase'', PStr ''after_commit''), (''targetRef'', legacy_target_ref item kind),
        (''payload'', py_or (get_val item ''payload'') (PDict []))])))"

definition legacy_effects :: "dict \<Rightarrow> action_effect list result" where
  "legacy_effects def =
     rbind (effect_sequence (get_val def ''writebacks'')) (\<lambda>writebacks.
     rbind (enumerate_result legacy_writeback 0 writebacks) (\<lambda>result.
     rbind (effect_sequence (get_val def ''sideEffects'')) (\<lambda>side_effects.
     rbind (enumerate_result (legacy_side_effect (length result)) 0 side_effects) (\<lambda>rest.
     Inr (result @ rest)))))"

definition validate_unique_effect_ids :: "action_effect list \<Rightarrow> unit result" where
  "validate_unique_effect_ids effects =
     raise_if (length (map ae_effect_id effects) \<noteq> card (set (map ae_effect_id effects)))
       (ValidationFailed ''duplicate action effect id'')"

definition validate_before_effects :: "action_effect list \<Rightarrow> unit result" where
  "validate_before_effects effects =
     (let before = filter (\<lambda>e. ae_phase e = ''before_commit'') effects in
      if length before > 1 then Inl (ValidationFailed ''an Action may declare only one before-commit effect'')
      else raise_if (before \<noteq> [] \<and> ae_kind (hd before) \<noteq> ''webhook'')
        (ValidationFailed ''before-commit Action effect must be a webhook''))"

definition validate_effect_response_fields :: "action_effect list \<Rightarrow> unit result" where
  "validate_effect_response_fields effects = each (\<lambda>e.
     raise_if (ae_response_fields e \<noteq> [] \<and> ae_phase e \<noteq> ''before_commit'')
       (ValidationFailed ''Action effect response fields are only supported for before-commit webhooks'')) effects"

definition validate_effect_set :: "action_effect list \<Rightarrow> unit result" where
  "validate_effect_set effects =
     rbind (validate_unique_effect_ids effects) (\<lambda>_.
     rbind (validate_before_effects effects) (\<lambda>_.
     validate_effect_response_fields effects))"

definition compile_action_effects :: "dict \<Rightarrow> action_effect list result" where
  "compile_action_effects def =
     rbind (if has_key def ''effects''
            then rbind (effect_sequence (get_val def ''effects'')) (enumerate_result compile_effect 0)
            else legacy_effects def) (\<lambda>effects.
     rbind (validate_effect_set effects) (\<lambda>_. Inr effects))"

section \<open>What compilation guarantees\<close>

definition stripped :: "string \<Rightarrow> bool" where
  "stripped s \<longleftrightarrow> s \<noteq> [] \<and> py_strip s = s"

lemma stripped_numbered: "stripped (''effect-'' @ show_nat n)"
proof -
  have "show_nat n \<noteq> []" by (rule show_nat_nonempty)
  then have "last (''effect-'' @ show_nat n) \<in> set (show_nat n)" by simp
  then have "is_digit (last (''effect-'' @ show_nat n))"
    by (rule show_nat_digits)
  then have "\<not> is_space (last (''effect-'' @ show_nat n))" by (auto simp: is_digit_def is_space_def Let_def)
  then show ?thesis
    unfolding stripped_def py_strip_def by (intro conjI strip_by_ends) (simp_all add: is_space_def)
qed

lemma effect_text_cases: "effect_text raw d = d \<or> stripped (effect_text raw d)"
  by (cases raw) (auto simp: effect_text_def stripped_def)

lemma effect_text_stripped [simp]: "stripped s \<Longrightarrow> effect_text (PStr s) d = s"
  by (simp add: effect_text_def stripped_def)

text \<open>Every key at any depth of a value.\<close>

fun nested_keys :: "pyval \<Rightarrow> string list" where
  "nested_keys (PDict d) = map fst d @ concat (map (\<lambda>(k, v). nested_keys v) d)"
| "nested_keys (PList xs) = concat (map nested_keys xs)"
| "nested_keys _ = []"

definition no_destination :: "pyval \<Rightarrow> bool" where
  "no_destination v \<longleftrightarrow> (\<forall>k \<in> set (nested_keys v). \<not> is_destination_key k)"

lemma reject_inline_destination_Inr: "reject_inline_destination v = Inr () \<longleftrightarrow> no_destination v"
  unfolding no_destination_def
proof (induction v rule: reject_inline_destination.induct)
  case (1 d)
  have "(case x of (key, child) \<Rightarrow> if is_destination_key key
       then Inl (ValidationFailed ''action effects cannot declare an inline destination; use targetRef'')
       else reject_inline_destination child) = Inr ()
     \<longleftrightarrow> \<not> is_destination_key (fst x) \<and> (\<forall>k \<in> set (nested_keys (snd x)). \<not> is_destination_key k)"
    if "x \<in> set d" for x
    using 1 [OF that] by (cases x) simp
  then show ?case by (simp add: each_Inr ball_Un split_beta) blast
next
  case (2 xs)
  then show ?case by (auto simp: each_Inr)
qed auto

definition effect_ok :: "action_effect \<Rightarrow> bool" where
  "effect_ok e \<longleftrightarrow> stripped (ae_effect_id e) \<and> stripped (ae_target_ref e)
     \<and> ae_kind e \<in> set action_effect_kinds \<and> ae_phase e \<in> set action_effect_phases
     \<and> 1 \<le> ae_max_attempts e \<and> ae_max_attempts e \<le> 10 \<and> 1 \<le> ae_timeout_seconds e \<and> ae_timeout_seconds e \<le> 300
     \<and> no_destination (PDict (ae_payload e))
     \<and> (\<forall>(f, t) \<in> set (ae_response_fields e). f \<noteq> [] \<and> \<not> is_destination_key f \<and> t \<in> set action_effect_response_types)
     \<and> (ae_kind e = ''notification'' \<longrightarrow> validate_notification_template_payload (ae_payload e) = Inr ())"

lemma nested_keys_get:
  "set (nested_keys (get_val item k)) \<subseteq> set (nested_keys (PDict item))"
  by (auto simp: get_or_def dest!: map_of_SomeD split: option.splits)

lemma effect_bounded_int_Inr: "effect_bounded_int raw d a b = Inr n \<Longrightarrow> a \<le> n \<and> n \<le> b"
  by (auto simp: effect_bounded_int_def split: option.splits if_splits)

lemma effect_response_fields_Inr:
  assumes "effect_response_fields raw = Inr rfs" "(f, t) \<in> set rfs"
  shows "f \<noteq> [] \<and> t \<in> set action_effect_response_types \<and> f \<in> set (nested_keys raw)"
proof -
  obtain d where d: "effect_mapping_or_empty raw = Inr d" and rfs: "map_result (\<lambda>(field, data_type).
     if field = [] then Inl (ValidationFailed ''Action effect response field has an unsupported type'')
     else case data_type of
       PList _ \<Rightarrow> Inl TypeError
     | PDict _ \<Rightarrow> Inl TypeError
     | PStr t \<Rightarrow> if t \<in> set action_effect_response_types then Inr (field, t)
                 else Inl (ValidationFailed ''Action effect response field has an unsupported type'')
     | _ \<Rightarrow> Inl (ValidationFailed ''Action effect response field has an unsupported type'')) d = Inr rfs"
    using assms(1) unfolding effect_response_fields_def by (elim rbind_InrE)
  have "f \<noteq> [] \<and> t \<in> set action_effect_response_types \<and> f \<in> set (map fst d)"
    using rfs assms(2)
  proof (induction d arbitrary: rfs)
    case (Cons x d)
    then show ?case
      by (cases x; cases "snd x") (auto elim!: rbind_InrE split: if_splits)
  qed simp
  moreover have "set (map fst d) \<subseteq> set (nested_keys raw)"
    using d by (cases raw) (auto simp: effect_mapping_or_empty_def effect_mapping_def)
  ultimately show ?thesis by blast
qed

lemma if_Inl_InrE: "(if c then Inl e else m) = Inr y \<Longrightarrow> (\<not> c \<Longrightarrow> m = Inr y \<Longrightarrow> P) \<Longrightarrow> P"
  by (simp split: if_splits)

lemma compile_effect_ok:
  assumes "compile_effect i raw = Inr e"
  shows "effect_ok e"
proof -
  obtain item where item: "raw = PDict item" "reject_inline_destination (PDict item) = Inr ()"
    using assms by (cases raw) (auto simp: compile_effect_def effect_mapping_def elim!: rbind_InrE)
  have keys: "\<not> is_destination_key k'" if "k' \<in> set (nested_keys (get_val item k))" for k k'
    using item(2) nested_keys_get [of item k] that unfolding reject_inline_destination_Inr no_destination_def by blast
  have kind: "k \<in> set action_effect_kinds" if "effect_kind v = Inr k" for v k
    using that by (auto simp: effect_kind_def Let_def split: if_splits)
  have phase: "p \<in> set action_effect_phases" if "effect_phase v = Inr p" for v p
    using that by (auto simp: effect_phase_def Let_def split: if_splits)
  have payload: "no_destination (PDict d)" if "effect_mapping_or_empty (get_val item ''payload'') = Inr d" for d
    using that keys [of _ "''payload''"] unfolding no_destination_def
    by (cases "get_val item ''payload''") (auto simp: effect_mapping_or_empty_def effect_mapping_def)
  have ids: "stripped (effect_text v (''effect-'' @ show_nat n))" for v n
    using effect_text_cases [of v] stripped_numbered [of n] by metis
  have target: "stripped (effect_text v [])" if "effect_text v [] \<noteq> []" for v
    using effect_text_cases [of v "[]"] that by auto
  have fields': "f \<noteq> [] \<and> \<not> is_destination_key f \<and> t \<in> set action_effect_response_types"
    if "effect_response_fields (get_val item ''responseFields'') = Inr fs" "(f, t) \<in> set fs" for fs f t
    using effect_response_fields_Inr [OF that] keys by blast
  obtain kind phase max_attempts timeout payload rfs u where e:
    "effect_kind (py_or (get_val item ''kind'') (get_val item ''type'')) = Inr kind"
    "effect_phase (py_or (get_val item ''phase'') (get_val item ''mode'')) = Inr phase"
    "effect_bounded_int (get_val item ''maxAttempts'') (if phase = ''before_commit'' then 1 else 3) 1 10 = Inr max_attempts"
    "effect_bounded_int (get_val item ''timeoutSeconds'') 30 1 300 = Inr timeout"
    "effect_mapping_or_empty (get_val item ''payload'') = Inr payload"
    "(if kind = ''notification'' then validate_notification_template_payload payload else Inr ()) = Inr u"
    "effect_response_fields (get_val item ''responseFields'') = Inr rfs"
    "effect_text (py_or (get_val item ''targetRef'') (get_val item ''connector'')) [] \<noteq> []"
    "e = \<lparr>ae_effect_id = effect_text (py_or (get_val item ''effectId'') (get_val item ''apiName'')) (''effect-'' @ show_nat (i + 1)),
      ae_kind = kind, ae_phase = phase,
      ae_target_ref = effect_text (py_or (get_val item ''targetRef'') (get_val item ''connector'')) [],
      ae_payload = payload, ae_response_fields = rfs, ae_max_attempts = max_attempts, ae_timeout_seconds = timeout\<rparr>"
    using assms unfolding compile_effect_def item effect_mapping_def Let_def pyval.case rbind_Inr
    by (elim rbind_InrE if_Inl_InrE) (rule that, assumption+, simp)
  show ?thesis
    using kind [OF e(1)] phase [OF e(2)] effect_bounded_int_Inr [OF e(3)] effect_bounded_int_Inr [OF e(4)] payload [OF e(5)]
      e(6) target [OF e(8)] fields' [OF e(7)] ids
    unfolding e(9) effect_ok_def by (simp split: if_splits) auto
qed

lemma py_or_nonempty [simp]: "s \<noteq> [] \<Longrightarrow> py_or (PStr s) v = PStr s"
  by (simp add: py_or_def)

lemma effect_kind_canonical: "k \<in> set action_effect_kinds \<Longrightarrow> k \<noteq> [] \<and> effect_kind (PStr k) = Inr k"
  by (auto simp: action_effect_kinds_def effect_kind_def)

lemma effect_phase_canonical: "p \<in> set action_effect_phases \<Longrightarrow> p \<noteq> [] \<and> effect_phase (PStr p) = Inr p"
  by (auto simp: action_effect_phases_def effect_phase_def)

lemma effect_response_fields_canonical:
  assumes "\<forall>(f, t) \<in> set rfs. f \<noteq> [] \<and> t \<in> set action_effect_response_types"
  shows "effect_response_fields (PDict (map (\<lambda>(f, t). (f, PStr t)) rfs)) = Inr rfs"
  using assms by (induction rfs) (auto simp: effect_response_fields_def effect_mapping_or_empty_def effect_mapping_def)

lemma no_destination_dict:
  "no_destination (PDict d) \<longleftrightarrow> list_all (\<lambda>(k, v). \<not> is_destination_key k \<and> no_destination v) d"
  by (simp add: no_destination_def list_all_iff split_beta ball_Un) blast

lemma no_destination_scalars [simp]: "no_destination (PStr s)" "no_destination (PInt n)"
  by (simp_all add: no_destination_def)

lemma payload_without_destination:
  assumes "effect_ok e"
  shows "reject_inline_destination (PDict (action_effect_payload e)) = Inr ()"
proof -
  have "list_all (\<lambda>k. \<not> is_destination_key k) [''effectId'', ''kind'', ''phase'', ''targetRef'', ''payload'',
      ''responseFields'', ''maxAttempts'', ''timeoutSeconds'']"
    by code_simp
  moreover have "no_destination (PDict (map (\<lambda>(f, t). (f, PStr t)) (ae_response_fields e)))"
    using assms unfolding no_destination_dict by (auto simp: effect_ok_def list_all_iff)
  moreover have "no_destination (PDict (ae_payload e))" using assms by (simp add: effect_ok_def)
  ultimately show ?thesis
    unfolding reject_inline_destination_Inr no_destination_dict [of "action_effect_payload e"]
    by (simp add: action_effect_payload_def)
qed

lemma compile_effect_payload:
  assumes "effect_ok e"
  shows "compile_effect i (PDict (action_effect_payload e)) = Inr e"
proof -
  let ?item = "action_effect_payload e"
  have get: "get_val ?item ''kind'' = PStr (ae_kind e)" "get_val ?item ''phase'' = PStr (ae_phase e)"
    "get_val ?item ''effectId'' = PStr (ae_effect_id e)" "get_val ?item ''targetRef'' = PStr (ae_target_ref e)"
    "get_val ?item ''maxAttempts'' = PInt (ae_max_attempts e)" "get_val ?item ''timeoutSeconds'' = PInt (ae_timeout_seconds e)"
    "get_val ?item ''payload'' = PDict (ae_payload e)"
    "get_val ?item ''responseFields'' = PDict (map (\<lambda>(f, t). (f, PStr t)) (ae_response_fields e))"
    by (simp_all add: action_effect_payload_def get_or_def)
  have texts: "ae_effect_id e \<noteq> []" "ae_target_ref e \<noteq> []" "ae_kind e \<noteq> []" "ae_phase e \<noteq> []"
    using assms effect_kind_canonical effect_phase_canonical by (auto simp: effect_ok_def stripped_def)
  have parts: "effect_kind (PStr (ae_kind e)) = Inr (ae_kind e)" "effect_phase (PStr (ae_phase e)) = Inr (ae_phase e)"
    "effect_bounded_int (PInt (ae_max_attempts e)) d 1 10 = Inr (ae_max_attempts e)"
    "effect_bounded_int (PInt (ae_timeout_seconds e)) d 1 300 = Inr (ae_timeout_seconds e)"
    "(if ae_kind e = ''notification'' then validate_notification_template_payload (ae_payload e) else Inr ()) = Inr ()"
    "effect_text (PStr (ae_effect_id e)) t = ae_effect_id e" "effect_text (PStr (ae_target_ref e)) t = ae_target_ref e" for d t
    using assms effect_kind_canonical effect_phase_canonical by (auto simp: effect_ok_def effect_bounded_int_def)
  have "effect_response_fields (PDict (map (\<lambda>(f, t). (f, PStr t)) (ae_response_fields e))) = Inr (ae_response_fields e)"
    using assms by (intro effect_response_fields_canonical) (auto simp: effect_ok_def)
  with payload_without_destination [OF assms] show ?thesis
    unfolding compile_effect_def effect_mapping_def effect_mapping_or_empty_def
    by (simp add: get texts parts del: reject_inline_destination.simps)
qed

lemma enumerate_result_Inr:
  "enumerate_result f i xs = Inr ys \<Longrightarrow> y \<in> set ys \<Longrightarrow> \<exists>j. \<exists>x \<in> set xs. f j x = Inr y"
proof (induction xs arbitrary: i ys)
  case (Cons x xs)
  then obtain z zs where "f i x = Inr z" "enumerate_result f (i + 1) xs = Inr zs" "ys = z # zs"
    by (auto elim!: rbind_InrE)
  with Cons.IH [of "i + 1" zs] Cons.prems(2) show ?case by auto
qed simp

lemma legacy_effects_ok:
  assumes "legacy_effects def = Inr es" "e \<in> set es"
  shows "effect_ok e"
proof -
  have "legacy_writeback j x = Inr e \<Longrightarrow> effect_ok e" "legacy_side_effect m j x = Inr e \<Longrightarrow> effect_ok e" for m j x
    by (auto simp: legacy_writeback_def legacy_side_effect_def elim!: rbind_InrE intro: compile_effect_ok)
  then show ?thesis
    using assms unfolding legacy_effects_def by (elim rbind_InrE) (simp, metis Un_iff enumerate_result_Inr set_append)
qed

lemma compile_action_effects_ok:
  assumes "compile_action_effects def = Inr es" "e \<in> set es"
  shows "effect_ok e"
  using assms legacy_effects_ok compile_effect_ok
  by (fastforce simp: compile_action_effects_def split: if_splits elim!: rbind_InrE dest: enumerate_result_Inr)

lemma validate_effect_set_Inr:
  "validate_effect_set es = Inr () \<longleftrightarrow> distinct (map ae_effect_id es)
     \<and> length (filter (\<lambda>e. ae_phase e = ''before_commit'') es) \<le> 1
     \<and> (\<forall>e \<in> set es. (ae_phase e = ''before_commit'' \<longrightarrow> ae_kind e = ''webhook'')
         \<and> (ae_response_fields e \<noteq> [] \<longrightarrow> ae_phase e = ''before_commit''))"
proof -
  let ?before = "filter (\<lambda>e. ae_phase e = ''before_commit'') es"
  have ids: "validate_unique_effect_ids es = Inr () \<longleftrightarrow> distinct (map ae_effect_id es)"
    unfolding validate_unique_effect_ids_def raise_if_Inr
    by (metis card_distinct distinct_card)
  have "validate_before_effects es = Inr () \<longleftrightarrow> length ?before \<le> 1 \<and> (\<forall>e \<in> set ?before. ae_kind e = ''webhook'')"
    by (cases ?before; cases "tl ?before") (auto simp: validate_before_effects_def Let_def raise_if_simps)
  moreover have "validate_effect_response_fields es = Inr ()
      \<longleftrightarrow> (\<forall>e \<in> set es. ae_response_fields e \<noteq> [] \<longrightarrow> ae_phase e = ''before_commit'')"
    by (auto simp: validate_effect_response_fields_def each_Inr raise_if_Inr)
  ultimately show ?thesis using ids by (auto simp: validate_effect_set_def rbind_eq_Inr)
qed

text \<open>Stored effects come back unchanged: whatever definition an effect was compiled from, compiling
  its serialized form gives exactly that effect again.\<close>

lemma action_effect_payload_roundtrip:
  assumes "compile_action_effects def = Inr effects" "e \<in> set effects"
  shows "compile_action_effects [(''effects'', PList [PDict (action_effect_payload e)])] = Inr [e]"
proof -
  have "effect_ok e" using assms by (rule compile_action_effects_ok)
  moreover have "validate_effect_set effects = Inr ()"
    using assms(1) by (auto simp: compile_action_effects_def elim!: rbind_InrE)
  then have "validate_effect_set [e] = Inr ()" using assms(2) unfolding validate_effect_set_Inr by auto
  ultimately show ?thesis
    by (simp add: compile_action_effects_def has_key_def dkeys_def get_or_def effect_sequence_def compile_effect_payload)
qed

section \<open>Properties\<close>

text \<open>
  C13. A compiled action only carries governed effects: identifiers are distinct, at most one effect
  runs before the commit and it is a webhook, attempts and timeouts are within their bounds, every
  effect names a registered target, and no key at any depth of its payload names a destination.
\<close>

theorem compiled_effects_are_governed:
  assumes "compile_action_effects def = Inr effects"
  shows "distinct (map ae_effect_id effects)
    \<and> length (filter (\<lambda>e. ae_phase e = ''before_commit'') effects) \<le> 1
    \<and> (\<forall>e \<in> set effects. (ae_phase e = ''before_commit'' \<longrightarrow> ae_kind e = ''webhook'')
        \<and> (ae_response_fields e \<noteq> [] \<longrightarrow> ae_phase e = ''before_commit'')
        \<and> ae_target_ref e \<noteq> [] \<and> ae_kind e \<in> set action_effect_kinds \<and> ae_phase e \<in> set action_effect_phases
        \<and> 1 \<le> ae_max_attempts e \<and> ae_max_attempts e \<le> 10 \<and> 1 \<le> ae_timeout_seconds e \<and> ae_timeout_seconds e \<le> 300
        \<and> (\<forall>k \<in> set (nested_keys (PDict (ae_payload e))). \<not> is_destination_key k))"
proof -
  have "validate_effect_set effects = Inr ()"
    using assms by (auto simp: compile_action_effects_def elim!: rbind_InrE)
  moreover have "effect_ok e" if "e \<in> set effects" for e using assms that by (rule compile_action_effects_ok)
  ultimately show ?thesis
    unfolding validate_effect_set_Inr effect_ok_def stripped_def no_destination_def by blast
qed

definition sample_effects :: dict where
  "sample_effects = [(''effects'', PList [PDict [(''kind'', PStr ''notification''), (''targetRef'', PStr '' notification-policy:ops ''),
     (''payload'', PDict [(''body'', PStr ''Order {{ object.id }} by {{actor.userId}}'')])]])]"

definition sample_effect :: action_effect where
  "sample_effect = \<lparr>ae_effect_id = ''effect-1'', ae_kind = ''notification'', ae_phase = ''after_commit'',
     ae_target_ref = ''notification-policy:ops'', ae_payload = [(''body'', PStr ''Order {{ object.id }} by {{actor.userId}}'')],
     ae_response_fields = [], ae_max_attempts = 3, ae_timeout_seconds = 30\<rparr>"

lemma sample_effects_compiled: "compile_action_effects sample_effects = Inr [sample_effect]"
  by code_simp

theorem compiled_effects_are_governed_witness:
  "ae_max_attempts sample_effect \<le> 10 \<and> ae_target_ref sample_effect \<noteq> []"
  using compiled_effects_are_governed [OF sample_effects_compiled] by simp

text \<open>A declared response type that is a list raises \<^verbatim>\<open>TypeError\<close> instead of \<^verbatim>\<open>ValidationFailed\<close>.\<close>

lemma unhashable_response_type_raises:
  "compile_action_effects [(''effects'', PList [PDict [(''kind'', PStr ''webhook''), (''targetRef'', PStr ''c''),
     (''responseFields'', PDict [(''id'', PList [])])]])] = Inl TypeError"
  by code_simp

end
