(* ===== verification/Effect_Delivery.thy ===== *)
theory Effect_Delivery
  imports Effect_Receipts Action_Effects
begin

text \<open>
  \<^verbatim>\<open>application/services/action_effect_delivery_service.py\<close> with \<^verbatim>\<open>action_effect_runtime.py\<close>,
  \<^verbatim>\<open>action_notification_authorization.py\<close> and the port \<^verbatim>\<open>action_effect_executor.py\<close>: how a worker turns
  a durable receipt into at most one external call.

  A delivery is several transactions, and anything may be committed between two of them. The model
  runs the calls of the other workers and operators (\<open>dc_others\<close>, any lists of calls of
  \<open>Effect_Receipts\<close>) before each transaction, so a theorem about \<open>deliver_one\<close> holds under every
  interleaving. The executor, the recipient directory, the clock and the access check of a
  recipient are arguments. A raised exception keeps the world as it was when it was raised.
\<close>

section \<open>The worker and its surroundings\<close>

datatype effect_error =
    Effect_transient
  | Effect_permanent
  | Before_failed string
  | Before_outcome_unknown string
  | Effect_error error

record exec_request =
  xr_tenant_id :: string
  xr_action_run_id :: string
  xr_actor_user_id :: string
  xr_request_id :: string
  xr_idempotency_key :: string
  xr_effect :: action_effect
  xr_parameters :: dict
  xr_committed_result :: dict

text \<open>What an adapter returns: \<open>None\<close> for an object that is not an \<^verbatim>\<open>ActionEffectExecutionResult\<close>.\<close>

record adapter_result =
  ar_outcome :: string
  ar_external_execution_id :: pyval
  ar_response :: pyval
  ar_network_evidence :: pyval

record exec_result =
  er_outcome :: string
  er_external_execution_id :: "string option"
  er_response :: dict
  er_network_evidence :: dict

record notification_recipient =
  nr_user_id :: string
  nr_roles :: "string list"

record notification_policy =
  np_target_ref :: string
  np_delivery_mode :: string
  np_recipients :: "notification_recipient list"

record authorized_notification_request =
  au_request :: exec_request
  au_evidence :: dict
  au_is_delivery_suppressed :: bool

record effect_audit =
  ea_event_type :: string
  ea_resource_id :: string
  ea_decision :: string
  ea_after_ref :: dict
  ea_correlation_id :: string

record delivery_context =
  dc_now :: "nat \<Rightarrow> string"
  dc_later :: "nat \<Rightarrow> int \<Rightarrow> string"
  dc_lease_token :: "nat \<Rightarrow> string"
  dc_others :: "nat \<Rightarrow> receipt_call list"
  dc_execute :: "nat \<Rightarrow> exec_request \<Rightarrow> effect_error + adapter_result option"
  dc_policy_for :: "string \<Rightarrow> string \<Rightarrow> notification_policy option"
  dc_can_read_all :: "nat \<Rightarrow> exec_request \<Rightarrow> notification_recipient \<Rightarrow> dict list \<Rightarrow> effect_error + bool"
  dc_sha256 :: "string \<Rightarrow> string"
  dc_error_payload :: "effect_error \<Rightarrow> string \<Rightarrow> dict"

record delivery_world =
  dw_receipts :: receipts
  dw_calls :: trace
  dw_executed :: "((string \<times> string) \<times> exec_request) list"
  dw_audit :: "effect_audit list"
  dw_tick :: nat

type_synonym 'a act = "delivery_world \<Rightarrow> (effect_error + 'a) \<times> delivery_world"

definition act_return :: "'a \<Rightarrow> 'a act" where
  "act_return x = (\<lambda>w. (Inr x, w))"

definition act_raise :: "effect_error \<Rightarrow> 'a act" where
  "act_raise e = (\<lambda>w. (Inl e, w))"

definition act_bind :: "'a act \<Rightarrow> ('a \<Rightarrow> 'b act) \<Rightarrow> 'b act" where
  "act_bind m f = (\<lambda>w. case m w of (Inl e, w') \<Rightarrow> (Inl e, w') | (Inr x, w') \<Rightarrow> f x w')"

text \<open>\<^verbatim>\<open>try: m except ..: h\<close> and what follows it: the outcome of \<open>m\<close> as a value.\<close>

definition act_try :: "'a act \<Rightarrow> (effect_error + 'a \<Rightarrow> 'b act) \<Rightarrow> 'b act" where
  "act_try m h = (\<lambda>w. case m w of (r, w') \<Rightarrow> h r w')"

definition act_lift :: "effect_error + 'a \<Rightarrow> 'a act" where
  "act_lift r = (\<lambda>w. (r, w))"

definition of_result :: "'a result \<Rightarrow> effect_error + 'a" where
  "of_result r = (case r of Inl e \<Rightarrow> Inl (Effect_error e) | Inr x \<Rightarrow> Inr x)"

text \<open>One reading of the clock.\<close>

definition effect_now :: "delivery_context \<Rightarrow> string act" where
  "effect_now dc = (\<lambda>w. (Inr (dc_now dc (dw_tick w)), w\<lparr>dw_tick := dw_tick w + 1\<rparr>))"

text \<open>A transaction: the calls others committed in the meantime, then the call itself.\<close>

definition others_commit :: "delivery_context \<Rightarrow> delivery_world \<Rightarrow> delivery_world" where
  "others_commit dc w = (let (rows, tr) = run_calls (dc_others dc (dw_tick w)) (dw_receipts w) in
     w\<lparr>dw_receipts := rows, dw_calls := dw_calls w @ tr, dw_tick := dw_tick w + 1\<rparr>)"

definition begin_transaction :: "delivery_context \<Rightarrow> unit act" where
  "begin_transaction dc = (\<lambda>w. (Inr (), others_commit dc w))"

definition call :: "receipt_call \<Rightarrow> receipt_row option act" where
  "call c = (\<lambda>w. case perform c (dw_receipts w) of
     Inl e \<Rightarrow> (Inl (Effect_error e), w\<lparr>dw_calls := dw_calls w @ [(c, None)]\<rparr>)
   | Inr (res, rows) \<Rightarrow> (Inr res, w\<lparr>dw_receipts := rows, dw_calls := dw_calls w @ [(c, res)]\<rparr>))"

definition transact :: "delivery_context \<Rightarrow> receipt_call \<Rightarrow> receipt_row option act" where
  "transact dc c = act_bind (begin_transaction dc) (\<lambda>_. call c)"

definition current_receipt :: "delivery_context \<Rightarrow> string \<Rightarrow> string \<Rightarrow> receipt_row option act" where
  "current_receipt dc tenant_id receipt_id = (\<lambda>w. let w1 = others_commit dc w in
     (Inr (receipt_by_id tenant_id receipt_id (dw_receipts w1)), w1))"

section \<open>Requests and results\<close>

definition effect_from_request :: "dict \<Rightarrow> action_effect result" where
  "effect_from_request request = (case get_val request ''effect'' of
     PDict effect \<Rightarrow> rbind (compile_action_effects [(''effects'', PList [PDict effect])]) (\<lambda>effects. Inr (hd effects))
   | _ \<Rightarrow> Inl (InvariantViolation ''Action effect receipt is missing its immutable effect contract''))"

definition request_required_text :: "dict \<Rightarrow> string \<Rightarrow> string result" where
  "request_required_text d key = (case nonempty_text (get_val d key) of
     Some s \<Rightarrow> Inr s
   | None \<Rightarrow> Inl (InvariantViolation ''Action effect receipt is missing execution identity''))"

definition request_mapping :: "pyval \<Rightarrow> dict" where
  "request_mapping raw = (case raw of PDict d \<Rightarrow> d | _ \<Rightarrow> [])"

definition effect_request :: "receipt_row \<Rightarrow> string \<Rightarrow> exec_request result" where
  "effect_request receipt request_id =
     rbind (request_required_text (rc_request receipt) ''actorUserId'') (\<lambda>actor.
     rbind (effect_from_request (rc_request receipt)) (\<lambda>effect.
     Inr \<lparr>xr_tenant_id = rc_tenant_id receipt, xr_action_run_id = rc_action_run_id receipt, xr_actor_user_id = actor,
       xr_request_id = request_id, xr_idempotency_key = rc_idempotency_key receipt, xr_effect = effect,
       xr_parameters = request_mapping (get_val (rc_request receipt) ''parameters''),
       xr_committed_result = request_mapping (get_val (rc_request receipt) ''committedResult'')\<rparr>))"

text \<open>The run row fields and the request context an effect record is made of.\<close>

record effect_run =
  ef_run_id :: string
  ef_actor_user_id :: string
  ef_parameters :: dict

definition effect_receipt_record ::
  "string \<Rightarrow> string \<Rightarrow> effect_run \<Rightarrow> action_effect \<Rightarrow> dict \<Rightarrow> string option \<Rightarrow> dict \<Rightarrow> string \<Rightarrow> receipt_record" where
  "effect_receipt_record tenant_id request_id run effect committed_result outbox_event_id rendering_evidence created_at =
     \<lparr>rr_receipt_id = ef_run_id run @ '':effect:'' @ ae_effect_id effect, rr_tenant_id = tenant_id,
      rr_action_run_id = ef_run_id run, rr_effect_id = ae_effect_id effect, rr_phase = ae_phase effect,
      rr_effect_kind = ae_kind effect, rr_target_ref = ae_target_ref effect,
      rr_idempotency_key = ''action-effect:'' @ ef_run_id run @ '':'' @ ae_effect_id effect,
      rr_max_attempts = ae_max_attempts effect,
      rr_request = [(''effect'', PDict (action_effect_payload effect)), (''actorUserId'', PStr (ef_actor_user_id run)),
        (''requestId'', PStr request_id), (''parameters'', PDict (ef_parameters run)),
        (''committedResult'', PDict committed_result)]
        @ (if rendering_evidence \<noteq> [] then [(''notificationRendering'', PDict rendering_evidence)] else []),
      rr_created_at = created_at, rr_outbox_event_id = outbox_event_id\<rparr>"

definition require_action_effect_execution_result :: "adapter_result option \<Rightarrow> exec_result result" where
  "require_action_effect_execution_result raw = (case raw of
     None \<Rightarrow> Inl (InvariantViolation ''Action effect adapter returned an invalid result'')
   | Some r \<Rightarrow>
       if ar_outcome r \<notin> {''delivered'', ''ambiguous''}
       then Inl (InvariantViolation ''Action effect adapter returned an unknown outcome'')
       else if \<not> (ar_external_execution_id r = PNone \<or> nonempty_text (ar_external_execution_id r) \<noteq> None)
       then Inl (InvariantViolation ''Action effect adapter returned an invalid external execution id'')
       else case (ar_response r, ar_network_evidence r) of
         (PDict response, PDict evidence) \<Rightarrow>
           if is_bounded_json_value (PDict response) \<and> is_bounded_json_value (PDict evidence)
           then Inr \<lparr>er_outcome = ar_outcome r, er_external_execution_id = nonempty_text (ar_external_execution_id r),
             er_response = response, er_network_evidence = evidence\<rparr>
           else Inl (InvariantViolation ''Action effect adapter returned invalid evidence'')
       | _ \<Rightarrow> Inl (InvariantViolation ''Action effect adapter returned invalid evidence''))"

text \<open>The one place where something leaves the system; the world remembers for which receipt.\<close>

definition execute :: "delivery_context \<Rightarrow> receipt_row \<Rightarrow> exec_request \<Rightarrow> exec_result act" where
  "execute dc row request = (\<lambda>w.
     let w1 = w\<lparr>dw_executed := dw_executed w @ [(rc_key row, request)], dw_tick := dw_tick w + 1\<rparr> in
     (case dc_execute dc (dw_tick w) request of
        Inl e \<Rightarrow> Inl e
      | Inr raw \<Rightarrow> of_result (require_action_effect_execution_result raw), w1))"

section \<open>Authorization of notification recipients\<close>

definition committed_edits :: "dict \<Rightarrow> effect_error + dict list" where
  "committed_edits raw = (case get_or (PList []) raw ''edits'' of
     PList edits \<Rightarrow> (case map_result (\<lambda>edit. case edit of
         PDict d \<Rightarrow> if truthy (get_val d ''objectType'') \<and> truthy (get_val d ''objectId'') then Inr d else Inl TypeError
       | _ \<Rightarrow> Inl TypeError) edits of
         Inl _ \<Rightarrow> Inl Effect_permanent
       | Inr ds \<Rightarrow> Inr ds)
   | _ \<Rightarrow> Inl Effect_permanent)"

fun partition_recipients ::
  "delivery_context \<Rightarrow> nat \<Rightarrow> exec_request \<Rightarrow> dict list \<Rightarrow> notification_recipient list
     \<Rightarrow> effect_error + (notification_recipient list \<times> notification_recipient list)" where
  "partition_recipients dc n request edits [] = Inr ([], [])"
| "partition_recipients dc n request edits (r # rs) =
     (case dc_can_read_all dc n request r edits of
        Inl e \<Rightarrow> Inl e
      | Inr readable \<Rightarrow> (case partition_recipients dc n request edits rs of
          Inl e \<Rightarrow> Inl e
        | Inr (allowed, denied) \<Rightarrow> Inr (if readable then (r # allowed, denied) else (allowed, r # denied))))"

definition recipient_hash :: "delivery_context \<Rightarrow> string \<Rightarrow> string" where
  "recipient_hash dc user_id = ''sha256:'' @ dc_sha256 dc user_id"

definition authorization_evidence ::
  "delivery_context \<Rightarrow> notification_policy \<Rightarrow> notification_recipient list \<Rightarrow> notification_recipient list \<Rightarrow> dict" where
  "authorization_evidence dc policy allowed denied =
     [(''policyRef'', PStr (np_target_ref policy)), (''deliveryMode'', PStr (np_delivery_mode policy)),
      (''requestedCount'', PInt (int (length (np_recipients policy)))),
      (''authorizedCount'', PInt (int (length allowed))), (''deniedCount'', PInt (int (length denied))),
      (''authorizedRecipientHashes'', PList (map (\<lambda>r. PStr (recipient_hash dc (nr_user_id r))) allowed)),
      (''deniedRecipientHashes'', PList (map (\<lambda>r. PStr (recipient_hash dc (nr_user_id r))) denied))]"

definition request_with_recipients :: "exec_request \<Rightarrow> notification_recipient list \<Rightarrow> exec_request" where
  "request_with_recipients request recipients =
     (let effect = xr_effect request;
          payload = filter (\<lambda>(k, _). k \<noteq> ''recipients'') (ae_payload effect)
            @ [(''recipients'', PList (map (\<lambda>r. PDict [(''userId'', PStr (nr_user_id r))]) recipients))] in
      request\<lparr>xr_effect := effect\<lparr>ae_payload := payload\<rparr>\<rparr>)"

definition authorize_notification_request :: "delivery_context \<Rightarrow> nat \<Rightarrow> exec_request \<Rightarrow> effect_error + authorized_notification_request" where
  "authorize_notification_request dc n request =
     (if ae_kind (xr_effect request) \<noteq> ''notification''
      then Inr \<lparr>au_request = request, au_evidence = [], au_is_delivery_suppressed = False\<rparr>
      else case dc_policy_for dc (xr_tenant_id request) (ae_target_ref (xr_effect request)) of
        None \<Rightarrow> Inl Effect_permanent
      | Some policy \<Rightarrow> (case committed_edits (xr_committed_result request) of
          Inl e \<Rightarrow> Inl e
        | Inr edits \<Rightarrow> (case partition_recipients dc n request edits (np_recipients policy) of
            Inl e \<Rightarrow> Inl e
          | Inr (allowed, denied) \<Rightarrow>
              if denied \<noteq> [] \<and> np_delivery_mode policy = ''strict'' then Inl Effect_permanent
              else Inr \<lparr>au_request = request_with_recipients request allowed,
                au_evidence = authorization_evidence dc policy allowed denied,
                au_is_delivery_suppressed = (allowed = [])\<rparr>)))"

section \<open>Delivery after the commit\<close>

text \<open>\<^verbatim>\<open>str\<close> of an optional column.\<close>

definition column_text :: "string option \<Rightarrow> string" where
  "column_text v = (case v of None \<Rightarrow> ''None'' | Some s \<Rightarrow> s)"

definition new_effect_claim :: "delivery_context \<Rightarrow> receipt_row \<Rightarrow> string \<Rightarrow> int \<Rightarrow> bool \<Rightarrow> effect_claim act" where
  "new_effect_claim dc receipt worker_id lease_seconds is_reconciliation = (\<lambda>w.
     let n = dw_tick w in
     (Inr \<lparr>cl_tenant_id = rc_tenant_id receipt, cl_receipt_id = rc_id receipt, cl_worker_id = worker_id,
        cl_lease_token = dc_lease_token dc n, cl_lease_expires_at = dc_later dc n lease_seconds,
        cl_claimed_at = dc_now dc n, cl_is_reconciliation = is_reconciliation\<rparr>, w\<lparr>dw_tick := n + 1\<rparr>))"

definition retry_delay :: "int \<Rightarrow> int" where
  "retry_delay attempt_number = min 30 (2 ^ nat (max 0 (attempt_number - 1)))"

definition effect_retry_at :: "delivery_context \<Rightarrow> int \<Rightarrow> string act" where
  "effect_retry_at dc attempt_number =
     (\<lambda>w. (Inr (dc_later dc (dw_tick w) (retry_delay attempt_number)), w\<lparr>dw_tick := dw_tick w + 1\<rparr>))"

definition worker_request_id :: "receipt_row \<Rightarrow> string" where
  "worker_request_id row = ''action-effect:'' @ rc_id row @ '':'' @ show_int (rc_attempt_count row)"

definition audit_effect_receipt :: "receipt_row \<Rightarrow> unit act" where
  "audit_effect_receipt row = (\<lambda>w. (Inr (), w\<lparr>dw_audit := dw_audit w @
     [\<lparr>ea_event_type = ''action.effect.'' @ rc_status row, ea_resource_id = rc_id row,
       ea_decision = (if rc_status row = ''succeeded'' then ''allow'' else ''deny''),
       ea_after_ref = [(''status'', PStr (rc_status row)), (''effectId'', PStr (rc_effect_id row)),
         (''retryAt'', case rc_retry_at row of None \<Rightarrow> PNone | Some t \<Rightarrow> PStr t)],
       ea_correlation_id = rc_action_run_id row\<rparr>]\<rparr>))"

definition claim_delivery :: "delivery_context \<Rightarrow> receipt_row \<Rightarrow> string \<Rightarrow> int \<Rightarrow> receipt_row option act" where
  "claim_delivery dc row worker_id lease_seconds =
     act_bind (new_effect_claim dc row worker_id (max 1 (min lease_seconds 3600)) False) (\<lambda>claim.
     transact dc (Claim_receipt claim))"

definition start_delivery :: "delivery_context \<Rightarrow> receipt_row \<Rightarrow> receipt_row option act" where
  "start_delivery dc row = act_bind (effect_now dc) (\<lambda>started.
     transact dc (Start_dispatch (rc_tenant_id row) (rc_id row) (column_text (rc_worker_id row))
       (column_text (rc_lease_token row)) (rc_fencing_token row) started))"

definition completion ::
  "receipt_row \<Rightarrow> string \<Rightarrow> dict option \<Rightarrow> dict option \<Rightarrow> string option \<Rightarrow> string option \<Rightarrow> string \<Rightarrow> receipt_completion" where
  "completion row status response error retry_at external_execution_id completed_at =
     \<lparr>co_tenant_id = rc_tenant_id row, co_receipt_id = rc_id row, co_worker_id = column_text (rc_worker_id row),
      co_lease_token = column_text (rc_lease_token row), co_fencing_token = rc_fencing_token row, co_status = status,
      co_response = response, co_error = error, co_retry_at = retry_at,
      co_external_execution_id = external_execution_id, co_completed_at = completed_at\<rparr>"

definition complete_delivery ::
  "delivery_context \<Rightarrow> receipt_row \<Rightarrow> string \<Rightarrow> dict option \<Rightarrow> dict option \<Rightarrow> string option \<Rightarrow> string option \<Rightarrow> string act" where
  "complete_delivery dc row status response error external_execution_id retry_at =
     act_bind (effect_now dc) (\<lambda>completed_at.
     act_bind (transact dc (Complete_receipt (completion row status response error retry_at external_execution_id completed_at)))
       (\<lambda>completed. case completed of
          None \<Rightarrow> act_return ''skipped''
        | Some r \<Rightarrow> act_bind (audit_effect_receipt r) (\<lambda>_. act_return status)))"

definition status_after_dispatch_denial :: "delivery_context \<Rightarrow> receipt_row \<Rightarrow> string act" where
  "status_after_dispatch_denial dc row =
     act_bind (current_receipt dc (rc_tenant_id row) (rc_id row)) (\<lambda>current.
     act_return (case current of Some r \<Rightarrow> if rc_status r = ''cancelled'' then ''cancelled'' else ''skipped''
       | None \<Rightarrow> ''skipped''))"

text \<open>The time of a cancellation request on the current row, if there is one.\<close>

definition cancellation_requested :: "delivery_context \<Rightarrow> receipt_row \<Rightarrow> string option act" where
  "cancellation_requested dc row =
     act_bind (current_receipt dc (rc_tenant_id row) (rc_id row)) (\<lambda>current.
     act_return (case current of Some r \<Rightarrow> rc_cancel_requested_at r | None \<Rightarrow> None))"

definition record_suppressed :: "delivery_context \<Rightarrow> receipt_row \<Rightarrow> authorized_notification_request \<Rightarrow> string act" where
  "record_suppressed dc row authorized =
     complete_delivery dc row ''succeeded''
       (Some [(''deliverySuppressed'', PBool True), (''recipientAuthorization'', PDict (au_evidence authorized))])
       None None None"

definition record_result :: "delivery_context \<Rightarrow> receipt_row \<Rightarrow> exec_result \<Rightarrow> dict \<Rightarrow> string act" where
  "record_result dc row result recipient_authorization =
     (if er_outcome result = ''ambiguous''
      then complete_delivery dc row ''outcome_unknown'' (Some (er_response result)) (Some [(''kind'', PStr ''outcome_unknown'')]) None None
      else
        let response = dput ''networkEvidence'' (PDict (er_network_evidence result)) (er_response result);
            response = (if recipient_authorization \<noteq> []
              then dput ''recipientAuthorization'' (PDict recipient_authorization) response else response) in
        act_bind (cancellation_requested dc row) (\<lambda>requested.
        let response = (case requested of None \<Rightarrow> response
              | Some t \<Rightarrow> dput ''cancellationRace''
                  (PDict [(''requestedAt'', PStr t), (''disposition'', PStr ''remote_delivery_won'')]) response) in
        complete_delivery dc row ''succeeded'' (Some response) None (er_external_execution_id result) None))"

definition record_failure :: "delivery_context \<Rightarrow> receipt_row \<Rightarrow> effect_error \<Rightarrow> bool \<Rightarrow> string act" where
  "record_failure dc row e is_retryable =
     (let error = dc_error_payload dc e (rc_action_run_id row) in
      act_bind (cancellation_requested dc row) (\<lambda>requested.
      if requested \<noteq> None
      then complete_delivery dc row ''cancelled'' None
        (Some (dput ''kind'' (PStr ''cancelled_after_known_safe_failure'') error)) None None
      else if is_retryable \<and> rc_attempt_count row < rc_max_attempts row
      then act_bind (effect_retry_at dc (rc_attempt_count row)) (\<lambda>retry_at.
        complete_delivery dc row ''retry_wait'' None (Some error) None (Some retry_at))
      else complete_delivery dc row ''dead_letter'' None (Some error) None None))"

definition record_ambiguous :: "delivery_context \<Rightarrow> receipt_row \<Rightarrow> effect_error \<Rightarrow> string act" where
  "record_ambiguous dc row e =
     (let error = dput ''kind'' (PStr ''outcome_unknown'') (dc_error_payload dc e (rc_action_run_id row)) in
      act_bind (cancellation_requested dc row) (\<lambda>requested.
      complete_delivery dc row ''outcome_unknown'' None
        (Some (case requested of None \<Rightarrow> error | Some t \<Rightarrow> dput ''cancellationRequestedAt'' (PStr t) error)) None None))"

definition authorized_request :: "delivery_context \<Rightarrow> receipt_row \<Rightarrow> authorized_notification_request act" where
  "authorized_request dc row =
     act_bind (act_lift (of_result (effect_request row (worker_request_id row)))) (\<lambda>request.
     act_bind (begin_transaction dc) (\<lambda>_. \<lambda>w. (authorize_notification_request dc (dw_tick w) request, w)))"

definition deliver_one :: "delivery_context \<Rightarrow> receipt_row \<Rightarrow> string \<Rightarrow> int \<Rightarrow> string act" where
  "deliver_one dc row worker_id lease_seconds =
     act_bind (claim_delivery dc row worker_id lease_seconds) (\<lambda>claim.
     case claim of
       None \<Rightarrow> act_return ''skipped''
     | Some claimed \<Rightarrow>
         if rc_dispatch_started_at claimed \<noteq> None
         then record_ambiguous dc claimed
           (Effect_error (RuntimeError ''previous worker lease expired after external dispatch started''))
         else act_try (authorized_request dc claimed) (\<lambda>auth.
           case auth of
             Inl e \<Rightarrow> record_failure dc claimed e (e \<noteq> Effect_permanent)
           | Inr authorized \<Rightarrow>
               if au_is_delivery_suppressed authorized then record_suppressed dc claimed authorized
               else act_try
                 (act_bind (start_delivery dc claimed) (\<lambda>dispatched.
                  case dispatched of
                    None \<Rightarrow> act_bind (status_after_dispatch_denial dc claimed) (\<lambda>status. act_return (Inl status))
                  | Some _ \<Rightarrow> act_bind (execute dc claimed (au_request authorized)) (\<lambda>result. act_return (Inr result))))
                 (\<lambda>r. case r of
                    Inl Effect_transient \<Rightarrow> record_failure dc claimed Effect_transient True
                  | Inl Effect_permanent \<Rightarrow> record_failure dc claimed Effect_permanent False
                  | Inl e \<Rightarrow> record_ambiguous dc claimed e
                  | Inr (Inl status) \<Rightarrow> act_return status
                  | Inr (Inr result) \<Rightarrow> record_result dc claimed result (au_evidence authorized))))"

text \<open>\<^verbatim>\<open>deliver_effect_rows\<close> with one worker thread: the rows in order. With more threads the deliveries
  interleave, which for each of them is the calls of others between its transactions.\<close>

fun deliver_effect_rows :: "delivery_context \<Rightarrow> receipts \<Rightarrow> string \<Rightarrow> int \<Rightarrow> string list act" where
  "deliver_effect_rows dc [] worker_id lease_seconds = act_return []"
| "deliver_effect_rows dc (row # rows) worker_id lease_seconds =
     act_bind (deliver_one dc row worker_id lease_seconds) (\<lambda>status.
     act_bind (deliver_effect_rows dc rows worker_id lease_seconds) (\<lambda>statuses. act_return (status # statuses)))"

definition empty_counts :: "nat \<Rightarrow> (string \<times> nat) list" where
  "empty_counts n = [(''requested'', n), (''succeeded'', 0), (''retry_wait'', 0), (''dead_letter'', 0),
     (''outcome_unknown'', 0), (''cancelled'', 0), (''skipped'', 0)]"

text \<open>\<^verbatim>\<open>counts[status] += 1\<close>.\<close>

definition count_status :: "string \<Rightarrow> (string \<times> nat) list \<Rightarrow> effect_error + (string \<times> nat) list" where
  "count_status status counts = (case map_of counts status of
     None \<Rightarrow> Inl (Effect_error KeyError)
   | Some n \<Rightarrow> Inr (dput status (n + 1) counts))"

fun count_statuses :: "string list \<Rightarrow> (string \<times> nat) list \<Rightarrow> effect_error + (string \<times> nat) list" where
  "count_statuses [] counts = Inr counts"
| "count_statuses (s # ss) counts = (case count_status s counts of Inl e \<Rightarrow> Inl e | Inr counts' \<Rightarrow> count_statuses ss counts')"

definition deliver_pending :: "delivery_context \<Rightarrow> string \<Rightarrow> string \<Rightarrow> int \<Rightarrow> int \<Rightarrow> (string \<times> nat) list act" where
  "deliver_pending dc tenant_id worker_id limit lease_seconds =
     act_bind (effect_now dc) (\<lambda>due_at.
     act_bind (begin_transaction dc) (\<lambda>_. \<lambda>w.
       let rows = pending_receipts tenant_id (nat (max 1 (min limit 500))) due_at (dw_receipts w) in
       act_bind (deliver_effect_rows dc rows worker_id lease_seconds) (\<lambda>statuses.
       act_lift (count_statuses statuses (empty_counts (length rows)))) w))"

section \<open>The effect before the commit\<close>

definition complete_before ::
  "delivery_context \<Rightarrow> receipt_row \<Rightarrow> string \<Rightarrow> dict option \<Rightarrow> dict option \<Rightarrow> string option \<Rightarrow> unit act" where
  "complete_before dc row status response error external_execution_id =
     act_bind (effect_now dc) (\<lambda>completed_at.
     act_bind (transact dc (Complete_receipt (completion row status response error None external_execution_id completed_at)))
       (\<lambda>completed. case completed of
          None \<Rightarrow> act_raise (Before_outcome_unknown ''before-commit Action effect terminal write lost its fencing lease'')
        | Some r \<Rightarrow> audit_effect_receipt r))"

definition fail_before :: "delivery_context \<Rightarrow> receipt_row \<Rightarrow> effect_error \<Rightarrow> string \<Rightarrow> unit act" where
  "fail_before dc row e status = complete_before dc row status None (Some (dc_error_payload dc e (rc_action_run_id row))) None"

definition before_result :: "action_effect \<Rightarrow> receipt_row \<Rightarrow> dict \<Rightarrow> dict" where
  "before_result effect row response =
     [(''effectId'', PStr (ae_effect_id effect)), (''receiptId'', PStr (rc_id row)), (''response'', PDict response)]"

definition dispatch_before :: "delivery_context \<Rightarrow> string \<Rightarrow> receipt_row \<Rightarrow> dict act" where
  "dispatch_before dc request_id receipt =
     act_bind (start_delivery dc receipt) (\<lambda>started.
     case started of
       None \<Rightarrow> act_raise (Before_outcome_unknown ''before-commit Action effect lost its dispatch fence'')
     | Some dispatched \<Rightarrow>
         act_bind (act_lift (of_result (effect_request dispatched request_id))) (\<lambda>request.
         act_try (execute dc dispatched request) (\<lambda>r. case r of
           Inl e \<Rightarrow>
             if e = Effect_transient \<or> e = Effect_permanent
             then act_bind (fail_before dc dispatched e ''dead_letter'')
               (\<lambda>_. act_raise (Before_failed ''before-commit Action effect failed''))
             else act_bind (fail_before dc dispatched e ''outcome_unknown'')
               (\<lambda>_. act_raise (Before_outcome_unknown ''before-commit Action effect outcome is unknown''))
         | Inr result \<Rightarrow>
             if er_outcome result = ''ambiguous''
             then act_bind (complete_before dc dispatched ''outcome_unknown'' (Some (er_response result))
                 (Some [(''kind'', PStr ''outcome_unknown'')]) None)
               (\<lambda>_. act_raise (Before_outcome_unknown ''before-commit Action effect outcome is unknown''))
             else (case validate_action_effect_response (xr_effect request) (er_response result) of
                 Inl e \<Rightarrow> act_bind (fail_before dc dispatched (Effect_error e) ''outcome_unknown'')
                   (\<lambda>_. act_raise (Before_outcome_unknown ''before-commit Action effect response is invalid''))
               | Inr _ \<Rightarrow>
                   let response = dput ''networkEvidence'' (PDict (er_network_evidence result)) (er_response result) in
                   act_bind (complete_before dc dispatched ''succeeded'' (Some response) None (er_external_execution_id result))
                     (\<lambda>_. act_return (before_result (xr_effect request) dispatched response))))))"

definition resume_before :: "delivery_context \<Rightarrow> string \<Rightarrow> string \<Rightarrow> receipt_row \<Rightarrow> dict act" where
  "resume_before dc request_id worker_id receipt =
     (if rc_status receipt = ''succeeded''
      then act_return [(''effectId'', PStr (rc_effect_id receipt)), (''receiptId'', PStr (rc_id receipt)),
        (''response'', PDict (case rc_response receipt of None \<Rightarrow> [] | Some d \<Rightarrow> d))]
      else if rc_status receipt = ''outcome_unknown''
      then act_raise (Before_outcome_unknown ''before-commit Action effect is not replayable'')
      else if rc_status receipt = ''dead_letter''
      then act_raise (Before_failed ''before-commit Action effect previously failed'')
      else act_bind (new_effect_claim dc receipt worker_id 30 True) (\<lambda>claim.
        act_bind (transact dc (Claim_receipt claim)) (\<lambda>claimed.
        case claimed of
          None \<Rightarrow> act_raise (Before_outcome_unknown ''before-commit Action effect may have been delivered'')
        | Some row \<Rightarrow>
            if rc_dispatch_started_at receipt = None then dispatch_before dc request_id row
            else act_bind (complete_before dc row ''outcome_unknown'' None
                (Some [(''kind'', PStr ''worker_lost_after_dispatch'')]) None)
              (\<lambda>_. act_raise (Before_outcome_unknown ''before-commit Action effect may have been delivered'')))))"

text \<open>\<^verbatim>\<open>_prepare_before\<close>: insert and claim in one transaction, which the failure to claim rolls back.\<close>

definition prepare_before ::
  "delivery_context \<Rightarrow> string \<Rightarrow> string \<Rightarrow> effect_run \<Rightarrow> string \<Rightarrow> action_effect \<Rightarrow> (receipt_row \<times> bool) act" where
  "prepare_before dc tenant_id request_id run worker_id effect =
     act_bind (effect_now dc) (\<lambda>created_at.
     let record = effect_receipt_record tenant_id request_id run effect [] None [] created_at in
     act_bind (begin_transaction dc) (\<lambda>_. \<lambda>w0.
     act_bind (call (Insert_receipt record)) (\<lambda>inserted.
     case inserted of
       None \<Rightarrow> (\<lambda>w. (case find (\<lambda>r. rc_effect_id r = ae_effect_id effect)
             (receipts_for_run tenant_id (ef_run_id run) (dw_receipts w)) of
           None \<Rightarrow> Inl (Effect_error StopIteration)
         | Some receipt \<Rightarrow> Inr (receipt, False), w))
     | Some receipt \<Rightarrow>
         act_bind (new_effect_claim dc receipt worker_id (ae_timeout_seconds effect + 5) False) (\<lambda>claim.
         act_bind (call (Claim_receipt claim)) (\<lambda>claimed.
         case claimed of
           None \<Rightarrow> (\<lambda>w. (Inl (Before_outcome_unknown ''before-commit Action effect could not be fenced''), w0))
         | Some row \<Rightarrow> act_return (row, True)))) w0))"

definition execute_before ::
  "delivery_context \<Rightarrow> string \<Rightarrow> string \<Rightarrow> effect_run \<Rightarrow> string \<Rightarrow> action_effect list \<Rightarrow> dict option act" where
  "execute_before dc tenant_id request_id run worker_id effects =
     (case filter (\<lambda>e. ae_phase e = ''before_commit'') effects of
        [] \<Rightarrow> act_return None
      | effect # _ \<Rightarrow>
          act_bind (prepare_before dc tenant_id request_id run worker_id effect) (\<lambda>(receipt, is_created).
          act_bind (if is_created then dispatch_before dc request_id receipt
                    else resume_before dc request_id worker_id receipt) (\<lambda>result.
          act_return (Some result))))"

section \<open>Repository calls only\<close>

lemma run_calls_append:
  "run_calls (cs @ ds) rows = (let (rows', tr) = run_calls cs rows; (rows'', tr') = run_calls ds rows' in (rows'', tr @ tr'))"
  by (induction cs arbitrary: rows) (auto simp: Let_def split: prod.splits)

lemma run_calls_calls: "run_calls cs rows = (rows', tr) \<Longrightarrow> map fst tr = cs"
  by (induction cs arbitrary: rows tr) (auto simp: Let_def split: prod.splits)

text \<open>Between two worlds nothing was executed and the receipts changed by calls only.\<close>

definition only_calls :: "delivery_world \<Rightarrow> delivery_world \<Rightarrow> bool" where
  "only_calls w w' \<longleftrightarrow> dw_executed w' = dw_executed w
     \<and> (\<exists>tr. dw_calls w' = dw_calls w @ tr \<and> run_calls (map fst tr) (dw_receipts w) = (dw_receipts w', tr))"

lemma only_calls_refl: "only_calls w w"
  by (simp add: only_calls_def)

lemma only_calls_trans: "only_calls w w' \<Longrightarrow> only_calls w' w'' \<Longrightarrow> only_calls w w''"
  by (auto simp: only_calls_def run_calls_append)

lemma only_calls_unique: "only_calls w w' \<Longrightarrow> unique_on rc_key (dw_receipts w) \<Longrightarrow> unique_on rc_key (dw_receipts w')"
  by (auto simp: only_calls_def intro: run_calls_unique)

definition quiet :: "'a act \<Rightarrow> bool" where
  "quiet m \<longleftrightarrow> (\<forall>w. only_calls w (snd (m w)))"

named_theorems quiet_intros \<open>acts that only make repository calls\<close>

lemma quiet_return [quiet_intros]: "quiet (act_return x)" "quiet (act_raise e)" "quiet (act_lift r)"
  by (simp_all add: quiet_def act_return_def act_raise_def act_lift_def only_calls_refl)

lemma quiet_bind [quiet_intros]: "quiet m \<Longrightarrow> (\<And>x. quiet (f x)) \<Longrightarrow> quiet (act_bind m f)"
  unfolding quiet_def
proof
  fix w
  assume "\<forall>w. only_calls w (snd (m w))" "\<And>x. \<forall>w. only_calls w (snd (f x w))"
  moreover obtain r w' where m: "m w = (r, w')" by fastforce
  ultimately have "only_calls w w'" "\<And>x. only_calls w' (snd (f x w'))" by (metis snd_conv)+
  then show "only_calls w (snd (act_bind m f w))"
    by (cases r) (auto simp: act_bind_def m intro: only_calls_trans)
qed

lemma quiet_try [quiet_intros]: "quiet m \<Longrightarrow> (\<And>r. quiet (h r)) \<Longrightarrow> quiet (act_try m h)"
  unfolding quiet_def act_try_def by (metis case_prod_beta only_calls_trans)

lemma only_calls_tick: "only_calls w (w\<lparr>dw_tick := n\<rparr>)" "only_calls w (w\<lparr>dw_audit := a\<rparr>)"
  by (simp_all add: only_calls_def)

lemma quiet_clock [quiet_intros]:
  "quiet (effect_now dc)" "quiet (effect_retry_at dc n)" "quiet (new_effect_claim dc r worker lease recon)"
  "quiet (audit_effect_receipt r)"
  by (simp_all add: quiet_def effect_now_def effect_retry_at_def new_effect_claim_def audit_effect_receipt_def
      Let_def only_calls_tick)

lemma only_calls_others: "only_calls w (others_commit dc w)"
proof -
  obtain rows tr where run: "run_calls (dc_others dc (dw_tick w)) (dw_receipts w) = (rows, tr)" by fastforce
  with run_calls_calls [OF run] show ?thesis by (simp add: only_calls_def others_commit_def)
qed

lemma quiet_begin [quiet_intros]: "quiet (begin_transaction dc)"
  by (simp add: quiet_def begin_transaction_def only_calls_others)

lemma quiet_call [quiet_intros]: "quiet (call c)"
proof -
  have "only_calls w (snd (call c w))" for w
    by (cases "perform c (dw_receipts w)") (auto simp: call_def only_calls_def commit_call_def split: prod.splits)
  then show ?thesis by (simp add: quiet_def)
qed

lemma quiet_transact [quiet_intros]: "quiet (transact dc c)"
  unfolding transact_def by (intro quiet_intros)

lemma quiet_current_receipt [quiet_intros]: "quiet (current_receipt dc t i)"
  by (simp add: quiet_def current_receipt_def Let_def only_calls_others)

lemma quiet_parts [quiet_intros]:
  "quiet (claim_delivery dc row worker lease)"
  "quiet (start_delivery dc row)"
  "quiet (complete_delivery dc row status response err ext retry)"
  "quiet (status_after_dispatch_denial dc row)"
  "quiet (cancellation_requested dc row)"
  by (auto simp: claim_delivery_def start_delivery_def complete_delivery_def status_after_dispatch_denial_def
      cancellation_requested_def intro!: quiet_intros split: option.splits)

lemma quiet_records [quiet_intros]:
  "quiet (record_suppressed dc row auth)" "quiet (record_result dc row result evidence)"
  "quiet (record_failure dc row e retryable)" "quiet (record_ambiguous dc row e)"
  by (auto simp: record_suppressed_def record_result_def record_failure_def record_ambiguous_def Let_def
      intro!: quiet_intros)

lemma quiet_authorized [quiet_intros]: "quiet (authorized_request dc row)"
proof -
  have "quiet (\<lambda>w. (f w, w))" for f :: "delivery_world \<Rightarrow> effect_error + 'a"
    by (simp add: quiet_def only_calls_refl)
  then show ?thesis unfolding authorized_request_def by (intro quiet_intros)
qed

text \<open>What an act returns, without raising, on a table with its unique key.\<close>

definition returns :: "'a act \<Rightarrow> ('a \<Rightarrow> bool) \<Rightarrow> bool" where
  "returns m P \<longleftrightarrow> (\<forall>w. unique_on rc_key (dw_receipts w) \<longrightarrow> (\<exists>x. fst (m w) = Inr x \<and> P x))"

lemma returns_bind:
  assumes "quiet m" "returns m P" "\<And>x. P x \<Longrightarrow> returns (f x) Q"
  shows "returns (act_bind m f) Q"
  unfolding returns_def
proof (intro allI impI)
  fix w :: delivery_world
  assume unique: "unique_on rc_key (dw_receipts w)"
  obtain r w' where m: "m w = (r, w')" by fastforce
  with assms(2) unique obtain x where x: "r = Inr x" "P x" by (auto simp: returns_def)
  have "only_calls w w'" using assms(1) m by (metis quiet_def snd_conv)
  with unique have "unique_on rc_key (dw_receipts w')" by (rule only_calls_unique [rotated])
  with assms(3) [OF x(2)] m x(1) show "\<exists>y. fst (act_bind m f w) = Inr y \<and> Q y"
    by (simp add: returns_def act_bind_def)
qed

lemma returns_return: "P x \<Longrightarrow> returns (act_return x) P"
  by (simp add: returns_def act_return_def)

lemma returns_mono: "returns m P \<Longrightarrow> (\<And>x. P x \<Longrightarrow> Q x) \<Longrightarrow> returns m Q"
  by (auto simp: returns_def)

lemma returns_clock:
  "returns (effect_now dc) (\<lambda>_. True)" "returns (effect_retry_at dc n) (\<lambda>_. True)"
  "returns (new_effect_claim dc r worker lease recon) (\<lambda>_. True)" "returns (audit_effect_receipt r) (\<lambda>_. True)"
  "returns (begin_transaction dc) (\<lambda>_. True)" "returns (current_receipt dc t i) (\<lambda>_. True)"
  by (simp_all add: returns_def effect_now_def effect_retry_at_def new_effect_claim_def audit_effect_receipt_def
      begin_transaction_def current_receipt_def Let_def)

fun delivery_call :: "receipt_call \<Rightarrow> bool" where
  "delivery_call (Claim_receipt _) = True"
| "delivery_call (Start_dispatch _ _ _ _ _ _) = True"
| "delivery_call (Complete_receipt co) =
     (co_status co \<in> {''succeeded'', ''retry_wait'', ''dead_letter'', ''outcome_unknown'', ''cancelled''})"
| "delivery_call _ = False"

lemma delivery_call_insert: "delivery_call c \<Longrightarrow> \<not> is_insert c"
  by (cases c) auto

lemma terminal_transition_known:
  "s \<in> {''succeeded'', ''retry_wait'', ''dead_letter'', ''outcome_unknown'', ''cancelled''} \<Longrightarrow> \<exists>t. terminal_transition s = Inr t"
  by (auto simp: terminal_transition_def)

lemma completion_transition:
  assumes "delivery_call (Complete_receipt co)"
  obtains t where "terminal_transition (co_status co) = Inr t"
proof -
  have "\<exists>t. terminal_transition (co_status co) = Inr t"
    by (rule terminal_transition_known) (use assms in \<open>simp only: delivery_call.simps\<close>)
  then show thesis using that by blast
qed

lemma update_returns:
  assumes "\<And>r. rc_key (f r) = rc_key r"
  shows "is_ok (receipt_if_updated t i (one_row_updated (sql_update (\<lambda>r. rc_tenant_id r = t \<and> rc_id r = i \<and> q r) f [r])))"
  using assms [of r] by (simp add: receipt_if_updated_def one_row_updated_def at_one_row required_receipt_def is_ok_def)

lemma cas_returns:
  assumes "\<And>r. rc_key (assign r) = rc_key r"
  shows "is_ok (receipt_if_updated t i (receipt_cas t i tr conditions assign [r]))"
  unfolding receipt_cas_def by (rule update_returns) (use assms in simp)

lemma delivery_call_one_row:
  assumes "delivery_call c"
  shows "is_ok (perform c [r])"
proof (cases c)
  case (Complete_receipt co)
  with assms have "delivery_call (Complete_receipt co)" by simp
  then obtain t where t: "terminal_transition (co_status co) = Inr t" by (rule completion_transition)
  show ?thesis
    unfolding Complete_receipt perform.simps complete_receipt_def t rbind_Inr by (rule cas_returns) simp
next
  case (Claim_receipt cl)
  then show ?thesis
    by (cases "locked_receipt (cl_tenant_id cl) (cl_receipt_id cl) [r]")
      (simp_all add: claim_receipt_def cas_returns is_ok_def [of "Inr x" for x] del: is_ok_iff)
next
  case (Start_dispatch t i worker lease token started)
  show ?thesis unfolding Start_dispatch perform.simps start_dispatch_def by (rule update_returns) simp
qed (use assms in simp_all)

lemma delivery_call_absent:
  assumes "delivery_call c" "no_key (call_key c) rows"
  shows "is_ok (perform c rows)"
proof -
  have update: "receipt_if_updated t i res \<noteq> Inl ValueError" for t i res
    by (auto simp: receipt_if_updated_def required_receipt_def sql_one_def rbind_eq_Inl split: list.split)
  have "perform c rows \<noteq> Inl ValueError"
  proof (cases c)
    case (Complete_receipt co)
    with assms(1) have "delivery_call (Complete_receipt co)" by simp
    then obtain t where "terminal_transition (co_status co) = Inr t" by (rule completion_transition)
    with Complete_receipt show ?thesis by (simp add: complete_receipt_def update)
  qed (use assms(1) in \<open>simp_all add: claim_receipt_def start_dispatch_def update split: option.split\<close>)
  with perform_absent [OF assms(2) delivery_call_insert [OF assms(1)]] show ?thesis by (auto simp: is_ok_def)
qed

lemma returns_call:
  assumes "delivery_call c"
  shows "returns (call c) (\<lambda>_. True)"
  unfolding returns_def
proof (intro allI impI)
  fix w :: delivery_world
  assume unique: "unique_on rc_key (dw_receipts w)"
  have "is_ok (perform c (dw_receipts w))"
  proof (cases "no_key (call_key c) (dw_receipts w)")
    case True
    with assms show ?thesis by (rule delivery_call_absent)
  next
    case False
    then obtain r where r: "r \<in> set (dw_receipts w)" "rc_key r = call_key c" by (auto simp: no_key_def)
    then obtain before after where split: "dw_receipts w = before @ r # after" by (meson split_list)
    have "no_key (call_key c) before" "no_key (call_key c) after"
      using unique r(2) unfolding split unique_on_def no_key_def by force+
    with perform_at [OF this delivery_call_insert [OF assms], of r] delivery_call_one_row [OF assms, of r] show ?thesis
      by (auto simp: split in_place_def is_ok_iff)
  qed
  then show "\<exists>x. fst (call c w) = Inr x \<and> True" by (auto simp: call_def is_ok_iff split: prod.splits)
qed

lemma returns_transact: "delivery_call c \<Longrightarrow> returns (transact dc c) (\<lambda>_. True)"
  unfolding transact_def by (rule returns_bind [OF quiet_begin returns_clock(5)]) (rule returns_call)

lemma returns_claim: "returns (claim_delivery dc row worker lease) (\<lambda>_. True)"
  unfolding claim_delivery_def by (rule returns_bind [OF quiet_clock(3) returns_clock(3)]) (simp add: returns_transact)

lemma returns_start: "returns (start_delivery dc row) (\<lambda>_. True)"
  unfolding start_delivery_def by (rule returns_bind [OF quiet_clock(1) returns_clock(1)]) (simp add: returns_transact)

lemma returns_complete:
  assumes "status \<in> {''succeeded'', ''retry_wait'', ''dead_letter'', ''outcome_unknown'', ''cancelled''}"
  shows "returns (complete_delivery dc row status response err ext retry) (\<lambda>s. s \<in> {status, ''skipped''})"
  unfolding complete_delivery_def
  by (rule returns_bind [OF quiet_clock(1) returns_clock(1)],
      rule returns_bind [OF quiet_transact returns_transact])
    (use assms in \<open>auto simp: completion_def intro!: returns_return returns_bind [OF quiet_clock(4) returns_clock(4)]
      split: option.splits\<close>)

lemma returns_cancellation: "returns (cancellation_requested dc row) (\<lambda>_. True)"
  unfolding cancellation_requested_def
  by (rule returns_bind [OF quiet_current_receipt returns_clock(6)]) (simp add: returns_return)

lemma returns_denial: "returns (status_after_dispatch_denial dc row) (\<lambda>s. s \<in> {''cancelled'', ''skipped''})"
  unfolding status_after_dispatch_denial_def
  by (rule returns_bind [OF quiet_current_receipt returns_clock(6)]) (auto intro!: returns_return split: option.splits)

lemma returns_failure:
  "returns (record_failure dc row e retryable)
     (\<lambda>s. s \<in> (if retryable then {''retry_wait''} else {}) \<union> {''dead_letter'', ''cancelled'', ''skipped''})"
  unfolding record_failure_def Let_def
  by (rule returns_bind [OF quiet_parts(5) returns_cancellation])
    (auto intro!: returns_mono [OF returns_complete] returns_bind [OF quiet_clock(2) returns_clock(2)])

lemma returns_ambiguous: "returns (record_ambiguous dc row e) (\<lambda>s. s \<in> {''outcome_unknown'', ''skipped''})"
  unfolding record_ambiguous_def Let_def
  by (rule returns_bind [OF quiet_parts(5) returns_cancellation], rule returns_complete) simp

lemma returns_suppressed: "returns (record_suppressed dc row auth) (\<lambda>s. s \<in> {''succeeded'', ''skipped''})"
  unfolding record_suppressed_def by (rule returns_complete) simp

lemma returns_result:
  "returns (record_result dc row result evidence)
     (\<lambda>s. s \<in> {if er_outcome result = ''ambiguous'' then ''outcome_unknown'' else ''succeeded'', ''skipped''})"
proof (cases "er_outcome result = ''ambiguous''")
  case True
  then show ?thesis unfolding record_result_def if_P [OF True] by (intro returns_complete) simp
next
  case False
  then show ?thesis
    unfolding record_result_def Let_def if_not_P [OF False]
    by (intro returns_bind [OF quiet_parts(5) returns_cancellation] returns_complete) simp
qed

section \<open>The outcome of a delivery\<close>

text \<open>The statuses a delivery may report for what its executor did.\<close>

definition reports :: "effect_error + adapter_result option \<Rightarrow> string set" where
  "reports r = insert ''skipped'' (case r of
     Inl Effect_transient \<Rightarrow> {''retry_wait'', ''dead_letter'', ''cancelled''}
   | Inl Effect_permanent \<Rightarrow> {''dead_letter'', ''cancelled''}
   | Inl _ \<Rightarrow> {''outcome_unknown''}
   | Inr raw \<Rightarrow> (case require_action_effect_execution_result raw of
       Inl _ \<Rightarrow> {''outcome_unknown''}
     | Inr result \<Rightarrow> if er_outcome result = ''ambiguous'' then {''outcome_unknown''} else {''succeeded''}))"

text \<open>A world reached from another by calls, after which one request for a receipt went out directly
  after its accepted dispatch, and calls again.\<close>

definition executed_once :: "delivery_context \<Rightarrow> string \<times> string \<Rightarrow> delivery_world \<Rightarrow> string \<Rightarrow> delivery_world \<Rightarrow> bool" where
  "executed_once dc k w status w' \<longleftrightarrow> (\<exists>w1 w2 n request worker lease token started r.
     only_calls w w1 \<and> dw_executed w2 = dw_executed w1 @ [(k, request)]
     \<and> dw_calls w2 = dw_calls w1 \<and> dw_receipts w2 = dw_receipts w1
     \<and> dw_calls w1 \<noteq> dw_calls w
     \<and> last (dw_calls w1) = (Start_dispatch (fst k) (snd k) worker lease token started, Some r)
     \<and> only_calls w2 w' \<and> status \<in> reports (dc_execute dc n request))"

lemma transact_accepted:
  assumes "transact dc c w = (Inr (Some r), w')"
  shows "last (dw_calls w') = (c, Some r) \<and> dw_calls w' \<noteq> dw_calls w"
proof -
  let ?w = "others_commit dc w"
  have "call c ?w = (Inr (Some r), w')"
    using assms by (simp add: transact_def act_bind_def begin_transaction_def)
  then have "dw_calls w' = dw_calls ?w @ [(c, Some r)]" by (auto simp: call_def split: sum.splits prod.splits)
  moreover obtain tr where "dw_calls ?w = dw_calls w @ tr" using only_calls_others [of w dc] by (auto simp: only_calls_def)
  ultimately show ?thesis by simp
qed

lemma quietD: "quiet m \<Longrightarrow> m w = (r, w') \<Longrightarrow> only_calls w w'"
  by (metis quiet_def snd_conv)

lemma returnsD: "returns m P \<Longrightarrow> unique_on rc_key (dw_receipts w) \<Longrightarrow> m w = (r, w') \<Longrightarrow> \<exists>x. r = Inr x \<and> P x"
  by (auto simp: returns_def)

lemma quiet_outcome:
  "quiet m \<Longrightarrow> returns m P \<Longrightarrow> unique_on rc_key (dw_receipts w) \<Longrightarrow> m w = (res, w')
     \<Longrightarrow> \<exists>x. res = Inr x \<and> P x \<and> only_calls w w'"
  using quietD returnsD by blast

lemma start_accepted:
  assumes "start_delivery dc claimed w = (Inr (Some r), w')"
  shows "\<exists>started. last (dw_calls w') = (Start_dispatch (rc_tenant_id claimed) (rc_id claimed) (column_text (rc_worker_id claimed))
      (column_text (rc_lease_token claimed)) (rc_fencing_token claimed) started, Some r) \<and> dw_calls w' \<noteq> dw_calls w"
proof -
  obtain t where "transact dc (Start_dispatch (rc_tenant_id claimed) (rc_id claimed) (column_text (rc_worker_id claimed))
      (column_text (rc_lease_token claimed)) (rc_fencing_token claimed) t) (w\<lparr>dw_tick := dw_tick w + 1\<rparr>) = (Inr (Some r), w')"
    using assms by (simp add: start_delivery_def act_bind_def effect_now_def)
  from transact_accepted [OF this] show ?thesis by auto
qed

lemma claim_accepted:
  assumes "claim_delivery dc row worker lease w = (Inr (Some claimed), w')" "unique_on rc_key (dw_receipts w)"
  shows "rc_key claimed = rc_key row"
proof -
  define claim where "claim = \<lparr>cl_tenant_id = rc_tenant_id row, cl_receipt_id = rc_id row, cl_worker_id = worker,
      cl_lease_token = dc_lease_token dc (dw_tick w), cl_lease_expires_at = dc_later dc (dw_tick w) (max 1 (min lease 3600)),
      cl_claimed_at = dc_now dc (dw_tick w), cl_is_reconciliation = False\<rparr>"
  have claim: "call_key (Claim_receipt claim) = rc_key row"
    "transact dc (Claim_receipt claim) (w\<lparr>dw_tick := dw_tick w + 1\<rparr>) = (Inr (Some claimed), w')"
    using assms(1) by (simp_all add: claim_def claim_delivery_def act_bind_def new_effect_claim_def Let_def)
  let ?w = "others_commit dc (w\<lparr>dw_tick := dw_tick w + 1\<rparr>)"
  have unique: "unique_on rc_key (dw_receipts ?w)"
    using only_calls_unique [OF only_calls_others, of "w\<lparr>dw_tick := dw_tick w + 1\<rparr>" dc] assms(2) by simp
  have "commit_call (Claim_receipt claim) (dw_receipts ?w) = (dw_receipts w', Some claimed)"
    using claim(2) by (auto simp: transact_def act_bind_def begin_transaction_def call_def commit_call_def split: sum.splits prod.splits)
  from call_accepted [OF unique this] obtain r where "row_step (Claim_receipt claim) r claimed" by auto
  from row_step_key [OF this] claim(1) show ?thesis by simp
qed

lemma execute_reports:
  assumes "execute dc row request w = (r, w')" "unique_on rc_key (dw_receipts w')"
    and "(case r of
        Inl Effect_transient \<Rightarrow> record_failure dc claimed Effect_transient True
      | Inl Effect_permanent \<Rightarrow> record_failure dc claimed Effect_permanent False
      | Inl e \<Rightarrow> record_ambiguous dc claimed e
      | Inr result \<Rightarrow> record_result dc claimed result evidence) w' = (res, w'')"
  shows "\<exists>status. res = Inr status \<and> only_calls w' w'' \<and> status \<in> reports (dc_execute dc (dw_tick w) request)"
proof (cases "dc_execute dc (dw_tick w) request")
  case (Inl e)
  with assms(1) have "r = Inl e" by (simp add: execute_def)
  note run = assms(3) [unfolded \<open>r = Inl e\<close> sum.case]
  show ?thesis
  proof (cases e)
    case Effect_transient
    with run obtain status where "res = Inr status" "only_calls w' w''"
      "status \<in> {''retry_wait''} \<union> {''dead_letter'', ''cancelled'', ''skipped''}"
      using quiet_outcome [OF quiet_records(3) returns_failure assms(2), of dc claimed Effect_transient True res w''] by auto
    then show ?thesis by (intro exI [of _ status]) (simp add: reports_def Inl Effect_transient, blast)
  next
    case Effect_permanent
    with run obtain status where "res = Inr status" "only_calls w' w''" "status \<in> {''dead_letter'', ''cancelled'', ''skipped''}"
      using quiet_outcome [OF quiet_records(3) returns_failure assms(2), of dc claimed Effect_permanent False res w''] by auto
    then show ?thesis by (intro exI [of _ status]) (simp add: reports_def Inl Effect_permanent, blast)
  qed (use run quiet_outcome [OF quiet_records(4) returns_ambiguous assms(2), of dc claimed e res w''] in
      \<open>auto simp: reports_def Inl\<close>)
next
  case (Inr raw)
  show ?thesis
  proof (cases "require_action_effect_execution_result raw")
    case (Inl e)
    with assms(1) Inr have "r = Inl (Effect_error e)" by (auto simp: execute_def of_result_def)
    with assms(2,3) Inl Inr show ?thesis
      by (auto simp: reports_def dest: quietD [OF quiet_records(4)] returnsD [OF returns_ambiguous])
  next
    case (Inr result)
    with assms(1) \<open>dc_execute dc (dw_tick w) request = Inr raw\<close> have "r = Inr result"
      by (auto simp: execute_def of_result_def)
    with assms(3) have "record_result dc claimed result evidence w' = (res, w'')" by simp
    from quiet_outcome [OF quiet_records(2) returns_result assms(2) this] Inr
      \<open>dc_execute dc (dw_tick w) request = Inr raw\<close> show ?thesis
      by (auto simp: reports_def split: if_splits)
  qed
qed

definition delivery_statuses :: "string list" where
  "delivery_statuses = [''succeeded'', ''retry_wait'', ''dead_letter'', ''outcome_unknown'', ''cancelled'', ''skipped'']"

lemma reports_statuses: "reports r \<subseteq> set delivery_statuses"
  by (auto simp: reports_def delivery_statuses_def split: sum.splits effect_error.splits if_splits)

lemma known_statuses:
  "(if retryable then {''retry_wait''} else {}) \<union> {''dead_letter'', ''cancelled'', ''skipped''} \<subseteq> set delivery_statuses"
  "{''outcome_unknown'', ''skipped''} \<subseteq> set delivery_statuses"
  "{''succeeded'', ''skipped''} \<subseteq> set delivery_statuses"
  "{''cancelled'', ''skipped''} \<subseteq> set delivery_statuses"
  by (simp_all add: delivery_statuses_def)

lemma deliver_one_result:
  assumes "deliver_one dc row worker_id lease_seconds w = (res, w')" "unique_on rc_key (dw_receipts w)"
  obtains status where "res = Inr status" "status \<in> set delivery_statuses"
    "only_calls w w' \<or> executed_once dc (rc_key row) w status w'"
proof -
  obtain r1 w1 where claim: "claim_delivery dc row worker_id lease_seconds w = (r1, w1)" by fastforce
  obtain claim' where r1: "r1 = Inr claim'" using returnsD [OF returns_claim assms(2) claim] by auto
  note calls1 = quietD [OF quiet_parts(1) claim]
  note unique1 = only_calls_unique [OF calls1 assms(2)]
  show thesis
  proof (cases claim')
    case None
    with assms(1) claim r1 calls1 show thesis
      by (intro that [of "''skipped''"]) (auto simp: deliver_one_def act_bind_def act_return_def delivery_statuses_def)
  next
    case (Some claimed)
    note key = claim_accepted [OF claim [unfolded r1 Some] assms(2)]
    obtain r2 w2 where auth: "authorized_request dc claimed w1 = (r2, w2)" by fastforce
    note calls2 = only_calls_trans [OF calls1 quietD [OF quiet_authorized auth]]
    note unique2 = only_calls_unique [OF calls2 assms(2)]
    obtain r3 w3 where start: "start_delivery dc claimed w2 = (r3, w3)" by fastforce
    obtain started where r3: "r3 = Inr started" using returnsD [OF returns_start unique2 start] by auto
    note calls3 = only_calls_trans [OF calls2 quietD [OF quiet_parts(2) start]]
    note unique3 = only_calls_unique [OF calls3 assms(2)]
    consider (lost) "rc_dispatch_started_at claimed \<noteq> None"
      | (unauthorized) e where "rc_dispatch_started_at claimed = None" "r2 = Inl e"
      | (suppressed) a where "rc_dispatch_started_at claimed = None" "r2 = Inr a" "au_is_delivery_suppressed a"
      | (denied) a where "rc_dispatch_started_at claimed = None" "r2 = Inr a" "\<not> au_is_delivery_suppressed a" "started = None"
      | (sent) a r where "rc_dispatch_started_at claimed = None" "r2 = Inr a" "\<not> au_is_delivery_suppressed a" "started = Some r"
      by (cases r2; cases started) auto
    then show thesis
    proof cases
      case lost
      with assms(1) claim r1 Some have "record_ambiguous dc claimed
          (Effect_error (RuntimeError ''previous worker lease expired after external dispatch started'')) w1 = (res, w')"
        by (simp add: deliver_one_def act_bind_def)
      from quiet_outcome [OF quiet_records(4) returns_ambiguous unique1 this] obtain status where
        "res = Inr status" "status \<in> set delivery_statuses" "only_calls w1 w'" using known_statuses(2) by blast
      with only_calls_trans [OF calls1] that show thesis by blast
    next
      case (unauthorized e)
      with assms(1) claim r1 Some auth have "record_failure dc claimed e (e \<noteq> Effect_permanent) w2 = (res, w')"
        by (simp add: deliver_one_def act_bind_def act_try_def)
      from quiet_outcome [OF quiet_records(3) returns_failure unique2 this] obtain status where
        "res = Inr status" "status \<in> set delivery_statuses" "only_calls w2 w'" using known_statuses(1) by blast
      with only_calls_trans [OF calls2] that show thesis by blast
    next
      case (suppressed a)
      with assms(1) claim r1 Some auth have "record_suppressed dc claimed a w2 = (res, w')"
        by (simp add: deliver_one_def act_bind_def act_try_def)
      from quiet_outcome [OF quiet_records(1) returns_suppressed unique2 this] obtain status where
        "res = Inr status" "status \<in> set delivery_statuses" "only_calls w2 w'" using known_statuses(3) by blast
      with only_calls_trans [OF calls2] that show thesis by blast
    next
      case (denied a)
      obtain r4 w4 where denial: "status_after_dispatch_denial dc claimed w3 = (r4, w4)" by fastforce
      obtain status where r4: "r4 = Inr status" "status \<in> {''cancelled'', ''skipped''}"
        using returnsD [OF returns_denial unique3 denial] by auto
      with denied assms(1) claim r1 Some auth start r3 denial have "res = Inr status" "w' = w4"
        by (auto simp: deliver_one_def act_bind_def act_try_def act_return_def)
      with only_calls_trans [OF calls3 quietD [OF quiet_parts(4) denial]] that r4(2) known_statuses(4)
      show thesis by blast
    next
      case (sent a r)
      obtain r4 w4 where run: "execute dc claimed (au_request a) w3 = (r4, w4)" by fastforce
      then have w4: "dw_executed w4 = dw_executed w3 @ [(rc_key claimed, au_request a)]" "dw_calls w4 = dw_calls w3"
        "dw_receipts w4 = dw_receipts w3" by (auto simp: execute_def Let_def)
      have "(case r4 of
          Inl Effect_transient \<Rightarrow> record_failure dc claimed Effect_transient True
        | Inl Effect_permanent \<Rightarrow> record_failure dc claimed Effect_permanent False
        | Inl e \<Rightarrow> record_ambiguous dc claimed e
        | Inr result \<Rightarrow> record_result dc claimed result (au_evidence a)) w4 = (res, w')"
        using sent assms(1) claim r1 Some auth start r3 run
        by (cases r4) (auto simp: deliver_one_def act_bind_def act_try_def act_return_def split: effect_error.splits)
      from execute_reports [OF run _ this] obtain status where status: "res = Inr status" "only_calls w4 w'"
        "status \<in> reports (dc_execute dc (dw_tick w3) (au_request a))" using unique3 w4(3) by auto
      obtain tr2 where "dw_calls w2 = dw_calls w @ tr2" using calls2 by (auto simp: only_calls_def)
      with start_accepted [OF start [unfolded r3 sent(4)]] obtain begun where
        "last (dw_calls w3) = (Start_dispatch (rc_tenant_id claimed) (rc_id claimed) (column_text (rc_worker_id claimed))
           (column_text (rc_lease_token claimed)) (rc_fencing_token claimed) begun, Some r)" by blast
      moreover have "dw_calls w3 \<noteq> dw_calls w"
        using start_accepted [OF start [unfolded r3 sent(4)]] quietD [OF quiet_parts(2) start] calls2
        by (auto simp: only_calls_def)
      ultimately have "executed_once dc (rc_key row) w status w'"
        unfolding executed_once_def using calls3 w4 status(2,3) key by (metis fst_conv snd_conv)
      with status(1,3) reports_statuses that show thesis by blast
    qed
  qed
qed

section \<open>Every execution is covered by an accepted dispatch\<close>

definition executions :: "string \<times> string \<Rightarrow> delivery_world \<Rightarrow> nat" where
  "executions k w = length (filter (\<lambda>(k', _). k' = k) (dw_executed w))"

text \<open>A world whose table was built by the recorded calls alone, and which executed no receipt more
  often than dispatches of it were accepted.\<close>

definition world_ok :: "delivery_world \<Rightarrow> bool" where
  "world_ok w \<longleftrightarrow> run_calls (map fst (dw_calls w)) [] = (dw_receipts w, dw_calls w)
     \<and> (\<forall>k. executions k w \<le> sends (own k (dw_calls w)))"

lemma own_append: "own k (tr @ tr') = own k tr @ own k tr'"
  by (simp add: own_def)

lemma sends_append: "sends (h @ h') = sends h + sends h'"
  by (simp add: sends_def)

lemma world_ok_unique: "world_ok w \<Longrightarrow> unique_on rc_key (dw_receipts w)"
  using run_calls_unique [of "[]"] by (auto simp: world_ok_def unique_on_def)

lemma world_ok_calls: "world_ok w \<Longrightarrow> only_calls w w' \<Longrightarrow> world_ok w'"
  unfolding world_ok_def only_calls_def executions_def
  by (auto simp: run_calls_append own_append sends_append simp del: split_paired_All intro!: trans_le_add1)

lemma world_ok_executed:
  assumes "world_ok w" "executed_once dc k w status w'"
  shows "world_ok w'"
proof -
  obtain w1 w2 request worker lease token started r where
    step: "only_calls w w1" "dw_executed w2 = dw_executed w1 @ [(k, request)]" "dw_calls w2 = dw_calls w1"
      "dw_receipts w2 = dw_receipts w1" "dw_calls w1 \<noteq> dw_calls w"
      "last (dw_calls w1) = (Start_dispatch (fst k) (snd k) worker lease token started, Some r)" "only_calls w2 w'"
    using assms(2) by (auto simp: executed_once_def)
  obtain tr where tr: "dw_calls w1 = dw_calls w @ tr" "dw_executed w1 = dw_executed w"
    using step(1) by (auto simp: only_calls_def)
  with step(5,6) obtain tr0 where "tr = tr0 @ [(Start_dispatch (fst k) (snd k) worker lease token started, Some r)]"
    by (cases tr rule: rev_cases) auto
  then have sent: "1 \<le> sends (own k tr)" by (simp add: own_append own_Cons sends_append) (simp add: sends_def)
  have covered: "executions k' w \<le> sends (own k' (dw_calls w))" for k' using assms(1) unfolding world_ok_def by blast
  have grown: "executions k' w2 = executions k' w + (if k' = k then 1 else 0)"
    "sends (own k' (dw_calls w2)) = sends (own k' (dw_calls w)) + sends (own k' tr)" for k'
    by (simp_all add: executions_def step(2,3) tr own_append sends_append)
  have "executions k' w2 \<le> sends (own k' (dw_calls w2))" for k'
    using covered [of k'] sent unfolding grown by (cases "k' = k") simp_all
  moreover have "run_calls (map fst (dw_calls w2)) [] = (dw_receipts w2, dw_calls w2)"
    using world_ok_calls [OF assms(1) step(1)] by (simp add: world_ok_def step(3,4))
  ultimately have "world_ok w2" by (simp add: world_ok_def)
  with step(7) show ?thesis by (rule world_ok_calls [rotated])
qed

lemma deliver_one_world_ok:
  assumes "world_ok w" "deliver_one dc row worker_id lease_seconds w = (res, w')"
  shows "world_ok w'" "\<exists>status \<in> set delivery_statuses. res = Inr status"
proof -
  from deliver_one_result [OF assms(2) world_ok_unique [OF assms(1)]] obtain status where
    "res = Inr status" "status \<in> set delivery_statuses" "only_calls w w' \<or> executed_once dc (rc_key row) w status w'" by blast
  then show "world_ok w'" "\<exists>status \<in> set delivery_statuses. res = Inr status" using assms(1) world_ok_calls world_ok_executed by blast+
qed

lemma deliver_rows_world_ok:
  assumes "world_ok w" "deliver_effect_rows dc rows worker_id lease_seconds w = (res, w')"
  shows "world_ok w' \<and> (\<exists>statuses. res = Inr statuses \<and> set statuses \<subseteq> set delivery_statuses \<and> length statuses = length rows)"
  using assms
proof (induction rows arbitrary: w res w')
  case (Cons row rows)
  obtain r1 w1 where one: "deliver_one dc row worker_id lease_seconds w = (r1, w1)" by fastforce
  note ok = deliver_one_world_ok [OF Cons.prems(1) one]
  obtain r2 w2 where rest: "deliver_effect_rows dc rows worker_id lease_seconds w1 = (r2, w2)" by fastforce
  from Cons.IH [OF ok(1) rest] ok(2) Cons.prems(2) show ?case
    by (auto simp: act_bind_def act_return_def one rest)
qed (auto simp: act_return_def)

lemma count_statuses_total:
  assumes "set statuses \<subseteq> set delivery_statuses" "set delivery_statuses \<subseteq> set (dkeys counts)" "distinct (dkeys counts)"
  shows "\<exists>counts'. count_statuses statuses counts = Inr counts'
    \<and> (\<forall>k. k \<notin> set delivery_statuses \<longrightarrow> map_of counts' k = map_of counts k)
    \<and> sum_list (map snd counts') = sum_list (map snd counts) + length statuses"
  using assms
proof (induction statuses arbitrary: counts)
  case (Cons s statuses)
  have "s \<in> set (dkeys counts)" using Cons.prems(1,2) by auto
  then obtain n where n: "map_of counts s = Some n" by (force simp: dkeys_def map_of_eq_None_iff)
  have put: "dkeys (dput s (n + 1) counts) = dkeys counts \<and> sum_list (map snd (dput s (n + 1) counts)) = sum_list (map snd counts) + 1"
    using n by (induction counts) (auto simp: dkeys_def split: if_splits)
  obtain counts' where "count_statuses statuses (dput s (n + 1) counts) = Inr counts'"
    "\<forall>k. k \<notin> set delivery_statuses \<longrightarrow> map_of counts' k = map_of (dput s (n + 1) counts) k"
    "sum_list (map snd counts') = sum_list (map snd (dput s (n + 1) counts)) + length statuses"
    using Cons.IH [of "dput s (n + 1) counts"] Cons.prems put by auto
  with put n Cons.prems(1) show ?case by (auto simp: count_status_def map_of_dput)
qed simp

lemma deliver_pending_runs:
  assumes "world_ok w" "deliver_pending dc tenant_id worker_id limit lease_seconds w = (res, w')"
  shows "world_ok w' \<and> (\<exists>counts n. res = Inr counts \<and> map_of counts ''requested'' = Some n \<and> sum_list (map snd counts) = n + n)"
proof -
  let ?w1 = "others_commit dc (w\<lparr>dw_tick := dw_tick w + 1\<rparr>)"
  let ?rows = "pending_receipts tenant_id (nat (max 1 (min limit 500))) (dc_now dc (dw_tick w)) (dw_receipts ?w1)"
  obtain r2 w2 where rows: "deliver_effect_rows dc ?rows worker_id lease_seconds ?w1 = (r2, w2)" by fastforce
  have "world_ok ?w1" using world_ok_calls [OF assms(1) only_calls_trans [OF only_calls_tick(1) only_calls_others]] .
  from deliver_rows_world_ok [OF this rows] obtain statuses where ok: "world_ok w2" "r2 = Inr statuses"
    "set statuses \<subseteq> set delivery_statuses" "length statuses = length ?rows" by auto
  have keys: "set delivery_statuses \<subseteq> set (dkeys (empty_counts n))" "distinct (dkeys (empty_counts n))"
    "sum_list (map snd (empty_counts n)) = n" for n
    by (simp_all add: delivery_statuses_def empty_counts_def dkeys_def)
  from count_statuses_total [OF ok(3) keys(1,2)] obtain counts where
    counts: "count_statuses statuses (empty_counts (length ?rows)) = Inr counts"
      "sum_list (map snd counts) = length ?rows + length statuses"
      "\<forall>k. k \<notin> set delivery_statuses \<longrightarrow> map_of counts k = map_of (empty_counts (length ?rows)) k" using keys(3) by metis
  then have "map_of counts ''requested'' = Some (length ?rows)"
    by (simp add: delivery_statuses_def empty_counts_def)
  moreover  have "res = Inr counts" "w' = w2"
    using assms(2) rows ok(2) counts(1)
    by (simp_all add: deliver_pending_def act_bind_def effect_now_def begin_transaction_def act_lift_def Let_def)
  ultimately show ?thesis using ok(1,4) counts(2) by simp
qed

section \<open>Properties\<close>


text \<open>
  C11. Delivering the pending effects of a tenant never raises, counts every listed receipt exactly
  once, and executes an effect again only after a release: over the whole history of the table,
  the executions of a receipt exceed the safe failures and operator retries recorded for it by at
  most one, whatever the other workers and operators do meanwhile.
\<close>

theorem pending_delivery_executes_once_per_release:
  assumes "world_ok w" "deliver_pending dc tenant_id worker_id limit lease_seconds w = (res, w')"
  shows "world_ok w' \<and> executions k w' \<le> Suc (releases (own k (dw_calls w')))
    \<and> (\<exists>counts n. res = Inr counts \<and> map_of counts ''requested'' = Some n \<and> sum_list (map snd counts) = n + n)"
proof -
  note run = deliver_pending_runs [OF assms]
  then have "run_calls (map fst (dw_calls w')) [] = (dw_receipts w', dw_calls w')" by (simp add: world_ok_def)
  from released_sends_bound [OF this] have "sends (own k (dw_calls w')) \<le> Suc (releases (own k (dw_calls w')))" .
  moreover have "executions k w' \<le> sends (own k (dw_calls w'))" using run unfolding world_ok_def by blast
  ultimately show ?thesis using run by simp
qed

text \<open>
  C14. The request a worker rebuilds from a stored receipt carries exactly the effect that was compiled
  from the action, its parameters and the committed result.
\<close>

theorem effect_request_rehydrates:
  assumes "compile_action_effects def = Inr effects" "e \<in> set effects" "ef_actor_user_id run \<noteq> []"
  shows "effect_request (receipt_values (effect_receipt_record tenant_id rid run e committed event evidence created)) request_id =
    Inr \<lparr>xr_tenant_id = tenant_id, xr_action_run_id = ef_run_id run, xr_actor_user_id = ef_actor_user_id run,
      xr_request_id = request_id, xr_idempotency_key = ''action-effect:'' @ ef_run_id run @ '':'' @ ae_effect_id e,
      xr_effect = e, xr_parameters = ef_parameters run, xr_committed_result = committed\<rparr>"
  using action_effect_payload_roundtrip [OF assms(1,2)] assms(3)
  by (simp add: effect_request_def request_required_text_def effect_from_request_def receipt_values_def
      effect_receipt_record_def request_mapping_def get_or_def)

section \<open>Witnesses\<close>

text \<open>One committed run with an event effect; the receipt is inserted by the request thread while
  the worker looks for pending receipts, and the executor delivers it.\<close>

definition sample_event :: action_effect where
  "sample_event = \<lparr>ae_effect_id = ''notify'', ae_kind = ''event'', ae_phase = ''after_commit'', ae_target_ref = ''topic:orders'',
     ae_payload = [], ae_response_fields = [], ae_max_attempts = 3, ae_timeout_seconds = 30\<rparr>"

definition sample_run :: effect_run where
  "sample_run = \<lparr>ef_run_id = ''run'', ef_actor_user_id = ''ann'', ef_parameters = []\<rparr>"

definition sample_receipt :: receipt_record where
  "sample_receipt = effect_receipt_record ''t'' ''req'' sample_run sample_event [] None [] ''01''"

definition sample_context :: delivery_context where
  "sample_context = \<lparr>dc_now = (\<lambda>_. ''05''), dc_later = (\<lambda>_ _. ''09''), dc_lease_token = (\<lambda>_. ''lease''),
     dc_others = (\<lambda>n. if n = 1 then [Insert_receipt sample_receipt] else []),
     dc_execute = (\<lambda>_ _. Inr (Some \<lparr>ar_outcome = ''delivered'', ar_external_execution_id = PStr ''x1'',
       ar_response = PDict [], ar_network_evidence = PDict []\<rparr>)),
     dc_policy_for = (\<lambda>_ _. None), dc_can_read_all = (\<lambda>_ _ _ _. Inr True), dc_sha256 = (\<lambda>s. s),
     dc_error_payload = (\<lambda>_ _. [])\<rparr>"

definition empty_world :: delivery_world where
  "empty_world = \<lparr>dw_receipts = [], dw_calls = [], dw_executed = [], dw_audit = [], dw_tick = 0\<rparr>"

declare effect_transitions [code_unfold]

lemma sample_pending_executed:
  "map fst (dw_executed (snd (deliver_pending sample_context ''t'' ''worker'' 10 30 empty_world))) = [(''t'', ''run:effect:notify'')]"
  by code_simp

lemma empty_world_ok: "world_ok empty_world"
  by (simp add: world_ok_def empty_world_def executions_def)


theorem pending_delivery_executes_once_per_release_witness:
  "executions (''t'', ''run:effect:notify'') (snd (deliver_pending sample_context ''t'' ''worker'' 10 30 empty_world)) = 1
   \<and> world_ok (snd (deliver_pending sample_context ''t'' ''worker'' 10 30 empty_world))"
proof
  let ?w = "snd (deliver_pending sample_context ''t'' ''worker'' 10 30 empty_world)"
  have "executions k ?w = length (filter (\<lambda>k'. k' = k) (map fst (dw_executed ?w)))" for k
    by (simp add: executions_def filter_map comp_def case_prod_unfold)
  then show "executions (''t'', ''run:effect:notify'') ?w = 1" unfolding sample_pending_executed by simp
  show "world_ok ?w"
    using pending_delivery_executes_once_per_release [OF empty_world_ok prod.collapse [symmetric]] by blast
qed

theorem effect_request_rehydrates_witness:
  "map_sum id xr_effect (effect_request (receipt_values (effect_receipt_record ''t'' ''req'' sample_run sample_effect [] None [] ''01'')) ''req'')
     = Inr sample_effect"
  using effect_request_rehydrates [OF sample_effects_compiled, of sample_effect sample_run]
  by (simp add: sample_run_def)

end
