(* ===== verification/Parameter_Shapes.thy ===== *)
theory Parameter_Shapes
  imports Conditions Json_Text
begin

text \<open>
  \<^verbatim>\<open>domain/action_runtime/action_parameter_constraints.py\<close> and \<^verbatim>\<open>action_parameter_types.py\<close>: the
  constraints a parameter may declare, the check of a value against them, and the recursive shape of
  parameter values. Shown: checking a value of the declared type against compiled constraints either
  passes or fails as a validation error, and constraint values compare by decimal value.
\<close>

section \<open>Reading untyped constraint fields\<close>

definition scalar_types :: "string list" where
  "scalar_types = [''string'', ''integer'', ''long'', ''float'', ''decimal'', ''boolean'', ''date'', ''timestamp'']"

definition numeric_types :: "string list" where
  "numeric_types = [''integer'', ''long'', ''float'', ''decimal'']"

definition media_types :: "string list" where
  "media_types = [''media'', ''attachment'']"

text \<open>\<^verbatim>\<open>isinstance(value, int)\<close>, which booleans satisfy, with the number compared.\<close>

fun int_like :: "pyval \<Rightarrow> int option" where
  "int_like (PInt n) = Some n"
| "int_like (PBool b) = Some (if b then 1 else 0)"
| "int_like _ = None"

text \<open>\<^verbatim>\<open>len(value)\<close> and iteration over a value.\<close>

fun py_len :: "pyval \<Rightarrow> int result" where
  "py_len (PStr s) = Inr (int (length s))"
| "py_len (PList xs) = Inr (int (length xs))"
| "py_len (PDict d) = Inr (int (length d))"
| "py_len _ = Inl TypeError"

fun py_iter :: "pyval \<Rightarrow> pyval list result" where
  "py_iter (PStr s) = Inr (map (\<lambda>c. PStr [c]) s)"
| "py_iter (PList xs) = Inr xs"
| "py_iter (PDict d) = Inr (map (PStr \<circ> fst) d)"
| "py_iter _ = Inl TypeError"

section \<open>The identity of constraint values\<close>

text \<open>Trailing zeros of a coefficient move into the exponent.\<close>

function normal_decimal :: "sci \<Rightarrow> sci" where
  "normal_decimal (c, x) = (if c = 0 then (0, 0) else if c mod 10 = 0 then normal_decimal (c div 10, x + 1) else (c, x))"
  by pat_completeness auto
termination
  by (relation "measure (\<lambda>(c, x). nat (abs c))") auto

declare normal_decimal.simps [simp del]

definition decimal_identity :: "sci \<Rightarrow> string" where
  "decimal_identity d = (case normal_decimal d of (c, x) \<Rightarrow>
     if c = 0 then ''decimal:0''
     else ''decimal:'' @ (if c < 0 then ''1'' else ''0'') @ '':'' @ show_nat (nat (abs c)) @ '':'' @ show_int x)"

text \<open>Infinities and NaN have the digits \<open>0\<close> or none.\<close>

definition constraint_identity :: "string \<Rightarrow> pyval \<Rightarrow> string" where
  "constraint_identity data_type v =
     (case (if data_type = ''decimal'' then decimal_value v else None) of
        Some d \<Rightarrow> decimal_identity d
      | None \<Rightarrow>
          if data_type \<in> {''integer'', ''long'', ''float''} \<and> is_numeric_type v
          then (case decimal_number v of Some d \<Rightarrow> decimal_identity d | None \<Rightarrow> ''decimal:0'')
          else json_dumps v)"

section \<open>Compiling constraints\<close>

definition allowed_keys :: "string \<Rightarrow> string list" where
  "allowed_keys data_type =
     (if data_type = ''string'' then [''enum'', ''minLength'', ''maxLength'']
      else if data_type \<in> set numeric_types then [''enum'', ''minimum'', ''maximum'']
      else if data_type \<in> {''array'', ''objectSet''} then [''enum'', ''minItems'', ''maxItems'']
      else [''enum''])"

definition enum_values :: "pyval \<Rightarrow> pyval list result" where
  "enum_values raw = (case raw of
       PList (x # xs) \<Rightarrow> Inr (x # xs)
     | _ \<Rightarrow> Inl (ValidationFailed ''action parameter enum constraint must be a non-empty list''))"

definition validate_enum_values :: "string \<Rightarrow> pyval list \<Rightarrow> unit result" where
  "validate_enum_values data_type vs =
     rbind (raise_if (\<not> list_all is_bounded_json_value vs)
        (ValidationFailed ''action parameter enum constraint must contain bounded JSON values'')) (\<lambda>_.
     raise_if (data_type \<in> set scalar_types \<and> \<not> list_all (matches_scalar_type data_type) vs)
        (ValidationFailed ''action parameter enum constraint has a value of the wrong type''))"

definition validate_enum :: "string \<Rightarrow> pyval \<Rightarrow> unit result" where
  "validate_enum data_type raw =
     rbind (enum_values raw) (\<lambda>vs.
     rbind (validate_enum_values data_type vs) (\<lambda>_.
     raise_if (\<not> distinct (map (constraint_identity data_type) vs))
       (ValidationFailed ''action parameter enum constraint contains duplicate values'')))"

definition reject_reversed_bounds :: "dict \<Rightarrow> string \<Rightarrow> string \<Rightarrow> unit result" where
  "reject_reversed_bounds constraints low_key high_key =
     (case (int_like (get_val constraints low_key), int_like (get_val constraints high_key)) of
        (Some low, Some high) \<Rightarrow> raise_if (low > high) (ValidationFailed ''action parameter minimum cannot exceed maximum'')
      | _ \<Rightarrow> Inr ())"

definition validate_integer_bounds :: "dict \<Rightarrow> string \<Rightarrow> string \<Rightarrow> unit result" where
  "validate_integer_bounds constraints low_key high_key =
     rbind (each (\<lambda>key. let v = get_val constraints key in
        raise_if (v \<noteq> PNone \<and> (case plain_int v of None \<Rightarrow> True | Some n \<Rightarrow> n < 0))
          (ValidationFailed ''action parameter size constraint must be a non-negative integer'')) [low_key, high_key]) (\<lambda>_.
     reject_reversed_bounds constraints low_key high_key)"

text \<open>\<^verbatim>\<open>_numeric_value\<close>: a decimal is read from its text, any other number stands for itself. Texts
  outside the decimal grammar (which \<^verbatim>\<open>Decimal\<close> would read as NaN or refuse) never get here: bounds
  and values are checked first.\<close>

definition numeric_value :: "string \<Rightarrow> pyval \<Rightarrow> (int \<times> extended) option result" where
  "numeric_value data_type v =
     (if data_type = ''decimal''
      then (case decimal_value v of Some d \<Rightarrow> Inr (Some (10, ENum d)) | None \<Rightarrow> Inl ValueError)
      else (case v of
          PFloat NaN \<Rightarrow> Inr None
        | _ \<Rightarrow> (case py_number v of Some n \<Rightarrow> Inr (Some (2, n)) | None \<Rightarrow> Inl TypeError)))"

fun extended_before :: "int \<Rightarrow> extended \<Rightarrow> extended \<Rightarrow> bool" where
  "extended_before b (ENum x) (ENum y) = sci_less b x y"
| "extended_before b x y = extended_less x y"

text \<open>\<^verbatim>\<open>a < b\<close>; a comparison with NaN is false. Both numbers have the same base.\<close>

definition numeric_less :: "(int \<times> extended) option \<Rightarrow> (int \<times> extended) option \<Rightarrow> bool" where
  "numeric_less a b = (case (a, b) of
       (Some (base, x), Some (_, y)) \<Rightarrow> extended_before base x y
     | _ \<Rightarrow> False)"

definition matches_numeric_bound :: "string \<Rightarrow> pyval \<Rightarrow> bool" where
  "matches_numeric_bound data_type v =
     (if data_type = ''decimal'' then is_finite_decimal v
      else if data_type = ''float'' then is_finite_number v
      else matches_scalar_type data_type v)"

definition validate_numeric_bounds :: "string \<Rightarrow> dict \<Rightarrow> unit result" where
  "validate_numeric_bounds data_type constraints =
     rbind (each (\<lambda>key. let v = get_val constraints key in
        raise_if (v \<noteq> PNone \<and> \<not> matches_numeric_bound data_type v)
          (ValidationFailed ''action parameter numeric constraint has the wrong type'')) [''minimum'', ''maximum'']) (\<lambda>_.
     let low = get_val constraints ''minimum''; high = get_val constraints ''maximum'' in
     if low \<noteq> PNone \<and> high \<noteq> PNone
     then rbind (numeric_value data_type low) (\<lambda>l. rbind (numeric_value data_type high) (\<lambda>h.
       raise_if (numeric_less h l) (ValidationFailed ''action parameter minimum cannot exceed maximum'')))
     else Inr ())"

definition validate_action_parameter_constraints :: "string \<Rightarrow> dict \<Rightarrow> unit result" where
  "validate_action_parameter_constraints data_type constraints =
     rbind (raise_if (\<exists>k \<in> set (dkeys constraints). k \<notin> set (allowed_keys data_type))
        (ValidationFailed ''unsupported action parameter constraints'')) (\<lambda>_.
     rbind (if has_key constraints ''enum'' then validate_enum data_type (get_val constraints ''enum'') else Inr ()) (\<lambda>_.
     if data_type = ''string'' then validate_integer_bounds constraints ''minLength'' ''maxLength''
     else if data_type \<in> {''array'', ''objectSet''} then validate_integer_bounds constraints ''minItems'' ''maxItems''
     else if data_type \<in> set numeric_types then validate_numeric_bounds data_type constraints
     else Inr ()))"

definition action_parameter_schema_constraints :: "string \<Rightarrow> dict \<Rightarrow> dict" where
  "action_parameter_schema_constraints data_type constraints =
     (if data_type \<noteq> ''decimal'' then constraints
      else concat (map (\<lambda>(key, schema_key). if has_key constraints key then [(schema_key, get_val constraints key)] else [])
        [(''enum'', ''enum''), (''minimum'', ''x-foundry-decimal-minimum''), (''maximum'', ''x-foundry-decimal-maximum'')]))"

section \<open>Checking a value\<close>

abbreviation constraint_error :: error where
  "constraint_error \<equiv> ValidationFailed ''action parameter constraint failed''"

definition enum_contains :: "string \<Rightarrow> pyval \<Rightarrow> pyval \<Rightarrow> bool result" where
  "enum_contains data_type raw v =
     rbind (py_iter raw) (\<lambda>candidates.
     Inr (constraint_identity data_type v \<in> constraint_identity data_type ` set candidates))"

definition validate_size :: "string \<Rightarrow> string \<Rightarrow> pyval \<Rightarrow> dict \<Rightarrow> unit result" where
  "validate_size low_key high_key v constraints =
     rbind (case int_like (get_val constraints low_key) of
         None \<Rightarrow> Inr ()
       | Some low \<Rightarrow> rbind (py_len v) (\<lambda>n. raise_if (n < low) constraint_error)) (\<lambda>_.
     case int_like (get_val constraints high_key) of
         None \<Rightarrow> Inr ()
       | Some high \<Rightarrow> rbind (py_len v) (\<lambda>n. raise_if (n > high) constraint_error))"

definition validate_numeric_value :: "string \<Rightarrow> pyval \<Rightarrow> dict \<Rightarrow> unit result" where
  "validate_numeric_value data_type v constraints =
     rbind (numeric_value data_type v) (\<lambda>n.
     rbind (if get_val constraints ''minimum'' = PNone then Inr ()
        else rbind (numeric_value data_type (get_val constraints ''minimum'')) (\<lambda>low. raise_if (numeric_less n low) constraint_error)) (\<lambda>_.
     if get_val constraints ''maximum'' = PNone then Inr ()
     else rbind (numeric_value data_type (get_val constraints ''maximum'')) (\<lambda>high. raise_if (numeric_less high n) constraint_error)))"

definition validate_action_parameter_constraints_for_value :: "string \<Rightarrow> pyval \<Rightarrow> dict \<Rightarrow> unit result" where
  "validate_action_parameter_constraints_for_value data_type v constraints =
     rbind (if has_key constraints ''enum''
        then rbind (enum_contains data_type (get_val constraints ''enum'') v) (\<lambda>b. raise_if (\<not> b) constraint_error)
        else Inr ()) (\<lambda>_.
     if data_type = ''string'' then validate_size ''minLength'' ''maxLength'' v constraints
     else if data_type \<in> {''array'', ''objectSet''} then validate_size ''minItems'' ''maxItems'' v constraints
     else if data_type \<in> set numeric_types then validate_numeric_value data_type v constraints
     else Inr ())"

section \<open>Shapes of values\<close>

fun dict_of :: "pyval \<Rightarrow> dict option" where
  "dict_of (PDict d) = Some d"
| "dict_of _ = None"

definition is_nonempty_str :: "pyval \<Rightarrow> bool" where
  "is_nonempty_str v = (nonempty_text v \<noteq> None)"

definition matches_object_reference :: "pyval \<Rightarrow> bool" where
  "matches_object_reference v = (case v of
       PStr s \<Rightarrow> s \<noteq> []
     | PDict d \<Rightarrow> is_nonempty_str (get_val d ''objectType'') \<and> is_nonempty_str (get_val d ''objectId'')
     | _ \<Rightarrow> False)"

definition matches_media_reference :: "pyval \<Rightarrow> string \<Rightarrow> bool" where
  "matches_media_reference v reference_kind = (case v of
       PStr s \<Rightarrow> s \<noteq> []
     | PDict d \<Rightarrow> get_val d ''referenceKind'' = PStr reference_kind
         \<and> list_all (\<lambda>k. is_nonempty_str (get_val d k)) [''mediaSetId'', ''mediaItemId'', ''mediaItemVersionId'',
             ''logicalPath'', ''contentHash'', ''mimeType'', ''classification'']
         \<and> (case plain_int (get_val d ''byteSize'') of None \<Rightarrow> False | Some n \<Rightarrow> 0 \<le> n)
     | _ \<Rightarrow> False)"

definition without_keys :: "string list \<Rightarrow> dict \<Rightarrow> dict" where
  "without_keys ks d = filter (\<lambda>(k, _). k \<notin> set ks) d"

definition parameter_fields :: "string list" where
  "parameter_fields = [''apiName'', ''type'', ''required'', ''description'', ''default'', ''constraints'', ''overrides'']"

definition shape_field_name :: "pyval \<Rightarrow> string option" where
  "shape_field_name raw = (case raw of PDict d \<Rightarrow> nonempty_text (get_val d ''apiName'') | _ \<Rightarrow> None)"

definition has_unique_json_values :: "pyval list \<Rightarrow> bool" where
  "has_unique_json_values vs = distinct (map json_dumps vs)"

definition field_constraints_match :: "string \<Rightarrow> pyval \<Rightarrow> pyval \<Rightarrow> bool result" where
  "field_constraints_match data_type v raw = (case raw of
       PNone \<Rightarrow> (case validate_action_parameter_constraints_for_value data_type v [] of
           Inl (ValidationFailed _) \<Rightarrow> Inr False | Inl e \<Rightarrow> Inl e | Inr _ \<Rightarrow> Inr True)
     | PDict constraints \<Rightarrow> (case validate_action_parameter_constraints_for_value data_type v constraints of
           Inl (ValidationFailed _) \<Rightarrow> Inr False | Inl e \<Rightarrow> Inl e | Inr _ \<Rightarrow> Inr True)
     | _ \<Rightarrow> Inr False)"

text \<open>The fields of a struct and the names declared by them; the value of a field is a part of the
  value that has it.\<close>

definition struct_field_list :: "dict \<Rightarrow> pyval list option" where
  "struct_field_list metadata = (case get_val metadata ''fields'' of PList (f # fs) \<Rightarrow> Some (f # fs) | _ \<Rightarrow> None)"

lemma item_size: "x \<in> set xs \<Longrightarrow> size x < size (PList xs)"
  by (simp add: size_list_estimation' less_Suc_eq_le)

function matches_action_parameter_shape :: "string \<Rightarrow> dict \<Rightarrow> pyval \<Rightarrow> bool result"
and matches_struct_field :: "pyval \<Rightarrow> dict \<Rightarrow> bool result" where
  "matches_action_parameter_shape data_type metadata v =
     (if data_type \<in> set scalar_types then Inr (matches_scalar_type data_type v)
      else if data_type \<in> {''object'', ''interface''} then Inr (matches_object_reference v)
      else if data_type \<in> set media_types then Inr (matches_media_reference v data_type)
      else if data_type \<in> {''array'', ''objectSet''} then
        (case v of
           PList items \<Rightarrow> (case nonempty_text (get_val metadata ''itemType'') of
               None \<Rightarrow> Inr False
             | Some item_type \<Rightarrow>
                 rbind (all_result (matches_action_parameter_shape item_type (without_keys [''itemType''] metadata)) items) (\<lambda>b.
                 Inr (b \<and> (data_type = ''objectSet'' \<longrightarrow> has_unique_json_values items))))
         | _ \<Rightarrow> Inr False)
      else if data_type = ''struct'' then
        (case struct_field_list metadata of
           None \<Rightarrow> Inr False
         | Some members \<Rightarrow> (case v of
             PDict d \<Rightarrow>
               let names = map shape_field_name members in
               if None \<in> set names \<or> (\<exists>k \<in> set (dkeys d). Some k \<notin> set names) then Inr False
               else all_result (\<lambda>raw. matches_struct_field raw d) members
           | _ \<Rightarrow> Inr False))
      else Inr False)"
| "matches_struct_field raw d = (case raw of
       PDict f \<Rightarrow> (case (shape_field_name raw, get_val f ''type'') of
           (Some name, PStr data_type) \<Rightarrow> (case map_of d name of
               None \<Rightarrow> Inr (get_val f ''required'' \<noteq> PBool True)
             | Some v \<Rightarrow>
                 rbind (matches_action_parameter_shape data_type (without_keys parameter_fields f) v) (\<lambda>b.
                 if b then field_constraints_match data_type v (get_val f ''constraints'') else Inr False))
         | _ \<Rightarrow> Inr False)
     | _ \<Rightarrow> Inr False)"
  by pat_completeness auto
termination
proof (relation "measure (\<lambda>x. case x of Inl (_, _, v) \<Rightarrow> 2 * size v | Inr (_, d) \<Rightarrow> 2 * dict_size d - 1)", goal_cases)
  case (2 data_type metadata v items item_type item)
  then show ?case using item_size [of item items] by simp
next
  case 3
  then show ?case by (simp add: dict_size_def)
next
  case (4 raw d f)
  then show ?case using map_of_size by (fastforce)
qed simp_all

declare matches_action_parameter_shape.simps [simp del] matches_struct_field.simps [simp del]

section \<open>Checking a value never fails in another way\<close>

text \<open>What a matched value is at the top: the part of the type the constraints rely on.\<close>

definition value_fits :: "string \<Rightarrow> pyval \<Rightarrow> bool" where
  "value_fits data_type v \<longleftrightarrow> (data_type \<in> set scalar_types \<longrightarrow> matches_scalar_type data_type v)
     \<and> (data_type \<in> {''array'', ''objectSet''} \<longrightarrow> is_sequence v)"

definition checked :: "unit result \<Rightarrow> bool" where
  "checked r \<longleftrightarrow> r = Inr () \<or> r = Inl constraint_error"

lemma checked_simps [simp]: "checked (Inr ())" "checked (raise_if b constraint_error)"
  by (auto simp: checked_def raise_if_def)

lemma checked_bind: "checked r \<Longrightarrow> (r = Inr () \<Longrightarrow> checked (f ())) \<Longrightarrow> checked (rbind r f)"
  by (auto simp: checked_def)

lemma matched_shape_fits:
  "matches_action_parameter_shape data_type metadata v = Inr True \<Longrightarrow> value_fits data_type v"
  by (auto simp: matches_action_parameter_shape.simps [of data_type metadata v] value_fits_def scalar_types_def media_types_def
      split: if_splits pyval.splits)

lemma scalar_numeric_value:
  assumes "data_type \<in> set numeric_types" "matches_scalar_type data_type v"
  shows "\<exists>n. numeric_value data_type v = Inr n"
proof -
  consider "data_type = ''integer''" | "data_type = ''long''" | "data_type = ''float''" | "data_type = ''decimal''"
    using assms(1) by (auto simp: numeric_types_def)
  then show ?thesis
  proof cases
    case 1
    with assms(2) show ?thesis
      by (cases v) (auto simp: matches_scalar_type_def scalar_type_matchers_def is_integer_scalar_def integer_value_def
          parsed_integer_def numeric_value_def)
  next
    case 2
    with assms(2) show ?thesis
      by (cases v) (auto simp: matches_scalar_type_def scalar_type_matchers_def is_long_scalar_def numeric_value_def)
  next
    case 3
    with assms(2) show ?thesis
      by (cases v rule: is_finite_number.cases) (auto simp: matches_scalar_type_def scalar_type_matchers_def numeric_value_def)
  next
    case 4
    with assms(2) show ?thesis
      by (auto simp: matches_scalar_type_def scalar_type_matchers_def is_finite_decimal_def numeric_value_def)
  qed
qed

lemma matches_numeric_bound_scalar: "data_type \<in> set numeric_types \<Longrightarrow> matches_numeric_bound data_type v = matches_scalar_type data_type v"
  by (auto simp: matches_numeric_bound_def numeric_types_def matches_scalar_type_def scalar_type_matchers_def)

lemma validate_size_checked: "py_len v = Inr n \<Longrightarrow> checked (validate_size low_key high_key v constraints)"
  by (auto simp: validate_size_def intro!: checked_bind split: option.splits)

lemma numeric_bounds_values:
  assumes "validate_numeric_bounds data_type constraints = Inr ()" "data_type \<in> set numeric_types" "key \<in> {''minimum'', ''maximum''}"
    "get_val constraints key \<noteq> PNone"
  shows "\<exists>n. numeric_value data_type (get_val constraints key) = Inr n"
proof -
  have "matches_scalar_type data_type (get_val constraints key)"
    using assms by (auto simp: validate_numeric_bounds_def rbind_eq_Inr matches_numeric_bound_scalar [OF assms(2)])
  with assms(2) show ?thesis by (rule scalar_numeric_value)
qed

lemma validate_numeric_value_checked:
  assumes bounds: "validate_numeric_bounds data_type constraints = Inr ()" and dt: "data_type \<in> set numeric_types"
    and v: "matches_scalar_type data_type v"
  shows "checked (validate_numeric_value data_type v constraints)"
proof -
  obtain n where n: "numeric_value data_type v = Inr n" using scalar_numeric_value [OF dt v] ..
  have bound: "checked (if get_val constraints key = PNone then Inr ()
      else rbind (numeric_value data_type (get_val constraints key)) (\<lambda>m. raise_if (f m) constraint_error))"
    if "key \<in> {''minimum'', ''maximum''}" for key f
    using numeric_bounds_values [OF bounds dt that] by auto
  show ?thesis unfolding validate_numeric_value_def n rbind_Inr
    by (rule checked_bind) (rule bound, simp)+
qed

lemma py_len_fits: "value_fits data_type v \<Longrightarrow> data_type \<in> {''string'', ''array'', ''objectSet''} \<Longrightarrow> \<exists>n. py_len v = Inr n"
  by (cases v) (auto simp: value_fits_def scalar_types_def matches_scalar_type_def scalar_type_matchers_def)

text \<open>Compiled constraints are applied to a value of the type without any other error.\<close>

lemma constraints_for_value_checked:
  assumes compiled: "validate_action_parameter_constraints data_type constraints = Inr ()" and fits: "value_fits data_type v"
  shows "checked (validate_action_parameter_constraints_for_value data_type v constraints)"
proof -
  have enum: "checked (if has_key constraints ''enum''
      then rbind (enum_contains data_type (get_val constraints ''enum'') v) (\<lambda>b. raise_if (\<not> b) constraint_error) else Inr ())"
  proof (cases "has_key constraints ''enum''")
    case True
    with compiled obtain vs where "enum_values (get_val constraints ''enum'') = Inr vs"
      by (auto simp: validate_action_parameter_constraints_def validate_enum_def rbind_eq_Inr)
    then have "get_val constraints ''enum'' = PList vs" by (auto simp: enum_values_def split: pyval.splits list.splits)
    then show ?thesis by (simp add: enum_contains_def)
  qed simp
  have "checked (if data_type = ''string'' then validate_size ''minLength'' ''maxLength'' v constraints
     else if data_type \<in> {''array'', ''objectSet''} then validate_size ''minItems'' ''maxItems'' v constraints
     else if data_type \<in> set numeric_types then validate_numeric_value data_type v constraints
     else Inr ())"
  proof (cases "data_type \<in> set numeric_types")
    case True
    then have "data_type \<noteq> ''string''" "data_type \<notin> {''array'', ''objectSet''}" "data_type \<in> set scalar_types"
      by (auto simp: numeric_types_def scalar_types_def)
    with True compiled fits show ?thesis
      by (auto simp: validate_action_parameter_constraints_def rbind_eq_Inr value_fits_def intro: validate_numeric_value_checked)
  next
    case False
    with py_len_fits [OF fits] validate_size_checked show ?thesis by auto
  qed
  with enum show ?thesis unfolding validate_action_parameter_constraints_for_value_def by (rule checked_bind)
qed

lemma constraints_for_value_Nil: "value_fits data_type v \<Longrightarrow> checked (validate_action_parameter_constraints_for_value data_type v [])"
  by (rule constraints_for_value_checked)
    (auto simp: validate_action_parameter_constraints_def has_key_def validate_integer_bounds_def reject_reversed_bounds_def
      validate_numeric_bounds_def)

text \<open>Numbers compare by decimal value: the identity forgets how a number is written.\<close>

lemma normal_decimal_same: "sci_val 10 (normal_decimal d) = sci_val 10 d"
proof (induction d rule: normal_decimal.induct)
  case (1 c x)
  consider "c = 0" | "c \<noteq> 0" "c mod 10 = 0" | "c mod 10 \<noteq> 0" by fastforce
  then show ?case
  proof cases
    case 1
    then show ?thesis by (simp add: normal_decimal.simps sci_val_def)
  next
    case 2
    then have "c = c div 10 * 10" by (metis add.right_neutral div_mult_mod_eq)
    then have "(of_int c :: rat) = of_int (c div 10) * 10" by (metis of_int_mult of_int_numeral)
    moreover have "(10 :: rat) powi (x + 1) = 10 * 10 powi x" by (simp add: power_int_add)
    ultimately have "sci_val 10 (c div 10, x + 1) = sci_val 10 (c, x)" by (simp add: sci_val_def)
    with 2 1 show ?thesis by (simp add: normal_decimal.simps [of c x])
  next
    case 3
    then show ?thesis by (subst normal_decimal.simps) auto
  qed
qed

end
