(* ===== verification/Action_Presentation.thy ===== *)
theory Action_Presentation
  imports Conditions
begin

text \<open>
  \<^verbatim>\<open>domain/action_runtime/action_presentation.py\<close> and \<^verbatim>\<open>action_permissions.py\<close>: the form layout and
  the permission block of an action contract, their canonical payloads, and the eligibility of an
  action as an inline edit. Shown: compiled permissions and layouts are fixed points of compilation,
  except that a declared section may already carry the name of the fallback section.
\<close>

section \<open>Permissions\<close>

definition role_fields :: "string list" where
  "role_fields = [''viewRoles'', ''editRoles'', ''applyRoles'', ''allowedRoles'']"

definition field_by_operation :: "(string \<times> string) list" where
  "field_by_operation = [(''view'', ''viewRoles''), (''edit'', ''editRoles''), (''apply'', ''applyRoles'')]"

definition role_text :: "string \<Rightarrow> pyval \<Rightarrow> string result" where
  "role_text field_name v = (case v of
       PStr s \<Rightarrow> if py_strip s \<noteq> [] then Inr (py_strip s) else Inl (ValidationFailed (field_name @ '' entries must be non-empty strings''))
     | _ \<Rightarrow> Inl (ValidationFailed (field_name @ '' entries must be non-empty strings'')))"

definition compile_roles :: "pyval \<Rightarrow> string \<Rightarrow> string list result" where
  "compile_roles raw field_name = (case raw of
       PList vs \<Rightarrow> rbind (map_result (role_text field_name) vs) (\<lambda>roles. Inr (sort (remdups roles)))
     | _ \<Rightarrow> Inl (ValidationFailed (field_name @ '' must be a list of strings'')))"

definition compile_role_field :: "string \<Rightarrow> dict \<Rightarrow> dict result" where
  "compile_role_field f permissions =
     (if has_key permissions f
      then rbind (compile_roles (get_val permissions f) (''permissions.'' @ f)) (\<lambda>roles.
        Inr (dput f (PList (map PStr roles)) permissions))
      else Inr permissions)"

definition compile_action_permissions :: "pyval \<Rightarrow> dict result" where
  "compile_action_permissions raw = (case raw of
       PNone \<Rightarrow> Inr []
     | PDict d \<Rightarrow> rbind (fold_result compile_role_field role_fields d) (\<lambda>permissions.
         Inr (if \<not> has_key permissions ''applyRoles'' \<and> has_key permissions ''allowedRoles''
              then dput ''applyRoles'' (get_val permissions ''allowedRoles'') permissions else permissions))
     | _ \<Rightarrow> Inl (ValidationFailed ''action permissions must be an object''))"

definition action_permission_roles :: "dict \<Rightarrow> string \<Rightarrow> string list option result" where
  "action_permission_roles permissions operation = (case map_of field_by_operation operation of
       None \<Rightarrow> Inl KeyError
     | Some f \<Rightarrow>
         let f' = (if get_val permissions f = PNone \<and> operation = ''apply'' then ''allowedRoles'' else f) in
         if get_val permissions f' = PNone then Inr None
         else rbind (compile_roles (get_val permissions f') (''permissions.'' @ f')) (\<lambda>roles. Inr (Some roles)))"

definition can_access_action :: "string list \<Rightarrow> dict \<Rightarrow> string \<Rightarrow> bool result" where
  "can_access_action ctx_roles permissions operation =
     rbind (action_permission_roles permissions operation) (\<lambda>roles. case roles of
         None \<Rightarrow> Inr True
       | Some rs \<Rightarrow> Inr (''admin'' \<in> set ctx_roles \<or> set ctx_roles \<inter> set rs \<noteq> {}))"

definition require_action_access :: "string list \<Rightarrow> dict \<Rightarrow> string \<Rightarrow> unit result" where
  "require_action_access ctx_roles permissions operation =
     rbind (can_access_action ctx_roles permissions operation) (\<lambda>ok.
     if ok then Inr ()
     else rbind (action_permission_roles permissions operation) (\<lambda>_.
       Inl (PermissionDenied (''permission denied to '' @ operation @ '' Action Type''))))"

section \<open>Form layout\<close>

record form_section =
  fs_section_id :: string
  fs_title :: string
  fs_description :: "string option"
  fs_columns :: int
  fs_is_collapsible :: bool
  fs_is_initially_collapsed :: bool
  fs_parameter_names :: "string list"
  fs_visible_when :: "dict option"

type_synonym form_layout = "form_section list"

definition form_mapping :: "pyval \<Rightarrow> string \<Rightarrow> dict result" where
  "form_mapping raw f = (case raw of PDict d \<Rightarrow> Inr d | _ \<Rightarrow> Inl (ValidationFailed (f @ '' must be an object'')))"

definition form_optional_mapping :: "pyval \<Rightarrow> string \<Rightarrow> dict option result" where
  "form_optional_mapping raw f = (if raw = PNone then Inr None else rbind (form_mapping raw f) (\<lambda>d. Inr (Some d)))"

definition form_sequence :: "pyval \<Rightarrow> string \<Rightarrow> pyval list result" where
  "form_sequence raw f = (case raw of PList vs \<Rightarrow> Inr vs | _ \<Rightarrow> Inl (ValidationFailed (f @ '' must be a list'')))"

definition form_text_sequence :: "pyval \<Rightarrow> string \<Rightarrow> string list result" where
  "form_text_sequence raw f = rbind (form_sequence raw f) (\<lambda>vs.
     map_result (\<lambda>v. case nonempty_text v of Some s \<Rightarrow> Inr s
       | None \<Rightarrow> Inl (ValidationFailed (f @ '' must contain non-empty strings''))) vs)"

definition form_required_text :: "dict \<Rightarrow> string \<Rightarrow> string result" where
  "form_required_text payload f = (case nonempty_text (get_val payload f) of Some s \<Rightarrow> Inr s
     | None \<Rightarrow> Inl (ValidationFailed ''action form field is required''))"

definition form_optional_text :: "pyval \<Rightarrow> string option result" where
  "form_optional_text raw = (case raw of
       PNone \<Rightarrow> Inr None
     | PStr s \<Rightarrow> Inr (if s = [] then None else Some s)
     | _ \<Rightarrow> Inl (ValidationFailed ''action form field must be text''))"

definition form_optional_bool :: "pyval \<Rightarrow> bool \<Rightarrow> bool result" where
  "form_optional_bool raw dflt = (case raw of
       PNone \<Rightarrow> Inr dflt
     | PBool b \<Rightarrow> Inr b
     | _ \<Rightarrow> Inl (ValidationFailed ''action form field must be boolean''))"

definition validate_section_condition_sources :: "dict \<Rightarrow> unit result" where
  "validate_section_condition_sources condition =
     rbind (referenced_condition_value_kinds condition) (\<lambda>kinds.
     raise_if (\<not> kinds \<subseteq> {''literal'', ''parameter''})
       (ValidationFailed ''form section visibility may use parameter and literal values only''))"

definition form_columns :: "pyval \<Rightarrow> int result" where
  "form_columns v = (case plain_int v of
       Some n \<Rightarrow> if n \<in> {1, 2} then Inr n else Inl (ValidationFailed ''form section columns must be 1 or 2'')
     | None \<Rightarrow> Inl (ValidationFailed ''form section columns must be 1 or 2''))"

definition form_visible_when :: "regex_engine \<Rightarrow> pyval \<Rightarrow> dict option result" where
  "form_visible_when re raw = rbind (form_optional_mapping raw ''visibleWhen'') (\<lambda>visible_when.
     case visible_when of
       None \<Rightarrow> Inr None
     | Some condition \<Rightarrow> rbind (validate_action_condition re condition) (\<lambda>_.
         rbind (validate_section_condition_sources condition) (\<lambda>_. Inr visible_when)))"

definition compile_section :: "regex_engine \<Rightarrow> pyval \<Rightarrow> form_section result" where
  "compile_section re raw =
     rbind (form_mapping raw ''form section'') (\<lambda>payload.
     rbind (form_optional_bool (get_val payload ''isCollapsible'') False) (\<lambda>is_collapsible.
     rbind (form_optional_bool (get_val payload ''isInitiallyCollapsed'') False) (\<lambda>is_collapsed.
     rbind (raise_if (is_collapsed \<and> \<not> is_collapsible) (ValidationFailed ''initially collapsed form section must be collapsible'')) (\<lambda>_.
     rbind (form_columns (get_or (PInt 1) payload ''columns'')) (\<lambda>columns.
     rbind (form_visible_when re (get_val payload ''visibleWhen'')) (\<lambda>visible_when.
     rbind (form_required_text payload ''id'') (\<lambda>section_id.
     rbind (form_required_text payload ''title'') (\<lambda>title.
     rbind (form_optional_text (get_val payload ''description'')) (\<lambda>description.
     rbind (form_text_sequence (get_or (PList []) payload ''parameterNames'') ''parameterNames'') (\<lambda>parameter_names.
     Inr \<lparr>fs_section_id = section_id, fs_title = title, fs_description = description, fs_columns = columns,
       fs_is_collapsible = is_collapsible, fs_is_initially_collapsed = is_collapsed,
       fs_parameter_names = parameter_names, fs_visible_when = visible_when\<rparr>))))))))))"

definition default_section :: "string \<Rightarrow> string \<Rightarrow> string list \<Rightarrow> form_section" where
  "default_section section_id title names = \<lparr>fs_section_id = section_id, fs_title = title, fs_description = None, fs_columns = 1,
     fs_is_collapsible = False, fs_is_initially_collapsed = False, fs_parameter_names = names, fs_visible_when = None\<rparr>"

definition validate_unique_section_ids :: "form_layout \<Rightarrow> unit result" where
  "validate_unique_section_ids sections =
     raise_if (\<not> distinct (map fs_section_id sections)) (ValidationFailed ''form section ids must be unique'')"

definition assigned_parameter_names :: "form_layout \<Rightarrow> string list" where
  "assigned_parameter_names sections = concat (map fs_parameter_names sections)"

definition section_condition_references :: "form_section \<Rightarrow> string set result" where
  "section_condition_references s = (case fs_visible_when s of None \<Rightarrow> Inr {} | Some c \<Rightarrow> referenced_condition_parameters c)"

definition validate_section_condition_references :: "form_layout \<Rightarrow> string list \<Rightarrow> unit result" where
  "validate_section_condition_references sections parameter_names =
     rbind (map_result section_condition_references sections) (\<lambda>refs.
     raise_if (\<not> (\<forall>r \<in> set refs. r \<subseteq> set parameter_names))
       (ValidationFailed ''form section condition references unknown action parameters''))"

definition validate_sections :: "form_layout \<Rightarrow> string list \<Rightarrow> unit result" where
  "validate_sections sections parameter_names =
     (let assigned = assigned_parameter_names sections in
      rbind (validate_unique_section_ids sections) (\<lambda>_.
      rbind (raise_if (\<not> distinct assigned) (ValidationFailed ''action parameter may appear in only one form section'')) (\<lambda>_.
      rbind (raise_if (\<not> set assigned \<subseteq> set parameter_names)
        (ValidationFailed ''form section references unknown action parameters'')) (\<lambda>_.
      validate_section_condition_references sections parameter_names))))"

definition with_fallback_section :: "form_layout \<Rightarrow> string list \<Rightarrow> form_layout" where
  "with_fallback_section sections parameter_names =
     (let assigned = assigned_parameter_names sections;
          unassigned = filter (\<lambda>n. n \<notin> set assigned) parameter_names;
          sections = (if unassigned \<noteq> [] then sections @ [default_section ''other-parameters'' ''Other parameters'' unassigned]
                      else sections) in
      if sections = [] then [default_section ''parameters'' ''Parameters'' []] else sections)"

definition compile_action_form_layout :: "regex_engine \<Rightarrow> pyval \<Rightarrow> string list \<Rightarrow> form_layout result" where
  "compile_action_form_layout re raw parameter_names =
     (if raw = PNone then Inr [default_section ''parameters'' ''Parameters'' parameter_names]
      else rbind (form_mapping raw ''formLayout'') (\<lambda>payload.
        rbind (form_sequence (get_or (PList []) payload ''sections'') ''formLayout.sections'') (\<lambda>items.
        rbind (map_result (compile_section re) items) (\<lambda>sections.
        rbind (validate_sections sections parameter_names) (\<lambda>_.
        Inr (with_fallback_section sections parameter_names))))))"

definition optional_text_payload :: "string option \<Rightarrow> pyval" where
  "optional_text_payload t = (case t of None \<Rightarrow> PNone | Some s \<Rightarrow> PStr s)"

definition optional_dict_payload :: "dict option \<Rightarrow> pyval" where
  "optional_dict_payload d = (case d of None \<Rightarrow> PNone | Some x \<Rightarrow> PDict x)"

definition section_payload :: "form_section \<Rightarrow> dict" where
  "section_payload s = [(''id'', PStr (fs_section_id s)), (''title'', PStr (fs_title s)),
     (''description'', optional_text_payload (fs_description s)), (''columns'', PInt (fs_columns s)),
     (''isCollapsible'', PBool (fs_is_collapsible s)), (''isInitiallyCollapsed'', PBool (fs_is_initially_collapsed s)),
     (''parameterNames'', PList (map PStr (fs_parameter_names s))),
     (''visibleWhen'', optional_dict_payload (fs_visible_when s))]"

definition action_form_layout_payload :: "form_layout \<Rightarrow> dict" where
  "action_form_layout_payload layout = [(''sections'', PList (map (PDict \<circ> section_payload) layout))]"

section \<open>Inline edits\<close>

text \<open>The lists of reasons the source appends to are returned.\<close>

definition inline_target_reasons :: "dict \<Rightarrow> string \<Rightarrow> string list" where
  "inline_target_reasons rule target_api_name =
     (let target = (case get_val rule ''target'' of PDict d \<Rightarrow> d | _ \<Rightarrow> []) in
      (if get_val rule ''objectType'' \<noteq> PStr target_api_name then [''inline edit rule must modify the declared Action target''] else [])
      @ (if get_val target ''kind'' \<noteq> PStr ''parameter'' \<or> get_val target ''parameter'' \<noteq> PStr ''__target__''
         then [''inline edit rule must target the selected object''] else [])
      @ (if get_or (PStr ''one'') rule ''cardinality'' \<noteq> PStr ''one'' then [''inline edit cannot target an object set''] else [])
      @ (if get_or (PBool False) rule ''shouldCreateIfAbsent'' \<noteq> PBool False then [''inline edit cannot create a missing object''] else []))"

definition single_inline_assignment :: "dict \<Rightarrow> dict option \<times> string list" where
  "single_inline_assignment rule = (case get_val rule ''assignments'' of
       PList [PDict a] \<Rightarrow> (Some a, [])
     | PList [_] \<Rightarrow> (None, [''inline edit property assignment is invalid''])
     | _ \<Rightarrow> (None, [''inline edit requires exactly one property assignment'']))"

definition inline_parameter_name :: "pyval \<Rightarrow> (string \<times> string) list \<Rightarrow> string option \<times> string list" where
  "inline_parameter_name v parameter_types =
     (let payload = (case v of PDict d \<Rightarrow> d | _ \<Rightarrow> []) in
      if get_val payload ''kind'' \<noteq> PStr ''parameter''
      then (None, [''inline edit assignment value must come from its Action parameter''])
      else case get_val payload ''parameter'' of
          PStr name \<Rightarrow> if has_key parameter_types name then (Some name, [])
            else (None, [''inline edit assignment references an undeclared Action parameter''])
        | _ \<Rightarrow> (None, [''inline edit assignment references an undeclared Action parameter'']))"

definition inline_primitive_reasons :: "string \<Rightarrow> string list" where
  "inline_primitive_reasons parameter_type =
     (if parameter_type \<in> {''string'', ''boolean'', ''integer'', ''long'', ''float'', ''decimal'', ''date'', ''timestamp''} then []
      else [''inline edit supports primitive Action parameters only''])"

definition inline_binding_from_assignment ::
  "dict \<Rightarrow> (string \<times> string) list \<Rightarrow> string list \<Rightarrow> dict option \<times> string list" where
  "inline_binding_from_assignment assignment parameter_types reasons =
     (let property_name = nonempty_text (get_val assignment ''property'');
          reasons = reasons @ (if property_name = None then [''inline edit assignment requires one target property''] else []);
          (parameter_name, more_reasons) = inline_parameter_name (get_val assignment ''value'') parameter_types;
          reasons = reasons @ more_reasons in
      case parameter_name of
        None \<Rightarrow> (None, reasons)
      | Some name \<Rightarrow>
          let parameter_type = (case map_of parameter_types name of Some t \<Rightarrow> t | None \<Rightarrow> []);
              reasons = reasons @ inline_primitive_reasons parameter_type in
          case property_name of
            Some property \<Rightarrow>
              if reasons \<noteq> [] then (None, reasons)
              else (Some [(''propertyApiName'', PStr property), (''parameterApiName'', PStr name),
                (''parameterType'', PStr parameter_type)], reasons)
          | None \<Rightarrow> (None, reasons))"

definition inline_assignment_binding ::
  "dict option \<Rightarrow> (string \<times> string) list \<Rightarrow> string list \<Rightarrow> dict option \<times> string list" where
  "inline_assignment_binding assignment parameter_types reasons =
     (let reasons = reasons @ (if length parameter_types \<noteq> 1 then [''inline edit requires exactly one Action parameter''] else []) in
      case assignment of
        None \<Rightarrow> (None, reasons)
      | Some a \<Rightarrow> inline_binding_from_assignment a parameter_types reasons)"

definition inline_rule_binding :: "string \<Rightarrow> (string \<times> string) list \<Rightarrow> dict list \<Rightarrow> dict option \<times> string list" where
  "inline_rule_binding target_api_name parameter_types rules = (case rules of
       [rule] \<Rightarrow>
         if get_val rule ''kind'' \<noteq> PStr ''modifyObject'' then (None, [''inline edit requires exactly one modifyObject rule''])
         else let (assignment, reasons) = single_inline_assignment rule in
           inline_assignment_binding assignment parameter_types (inline_target_reasons rule target_api_name @ reasons)
     | _ \<Rightarrow> (None, [''inline edit requires exactly one modifyObject rule'']))"

definition action_inline_eligibility ::
  "string \<Rightarrow> string \<Rightarrow> (string \<times> string) list \<Rightarrow> dict list \<Rightarrow> bool \<Rightarrow> nat \<Rightarrow> dict" where
  "action_inline_eligibility target_kind target_api_name parameter_types rules has_function effect_count =
     (let reasons =
          (if target_kind \<noteq> ''object'' then [''interface targets require concrete-type resolution''] else [])
          @ (if has_function then [''function-backed Actions require the full execution runtime''] else [])
          @ (if effect_count \<noteq> 0 then [''Actions with side effects require the full execution runtime''] else []);
          (binding, rule_reasons) = inline_rule_binding target_api_name parameter_types rules;
          reasons = reasons @ rule_reasons;
          payload = [(''isEligible'', PBool (reasons = [])), (''reasons'', PList (map PStr reasons))] in
      case binding of
        Some b \<Rightarrow> if reasons = [] then dupdate payload b else payload
      | None \<Rightarrow> payload)"

section \<open>Compiled permissions are canonical\<close>


definition canonical_roles :: "pyval \<Rightarrow> bool" where
  "canonical_roles v \<longleftrightarrow> (\<exists>rs. v = PList (map PStr rs) \<and> sorted rs \<and> distinct rs \<and> (\<forall>r \<in> set rs. r \<noteq> [] \<and> py_strip r = r))"

lemma compile_roles_canonical: "compile_roles raw f = Inr rs \<Longrightarrow> canonical_roles (PList (map PStr rs))"
proof -
  assume "compile_roles raw f = Inr rs"
  then obtain vs roles where r: "map_result (role_text f) vs = Inr roles" "rs = sort (remdups roles)"
    by (auto simp: compile_roles_def rbind_eq_Inr split: pyval.splits)
  have "r \<noteq> [] \<and> py_strip r = r" if "role_text f v = Inr r" for v r
    using that by (auto simp: role_text_def split: pyval.splits if_splits)
  with map_result_item [OF r(1)] have "\<forall>r \<in> set roles. r \<noteq> [] \<and> py_strip r = r" by blast
  with r(2) have "sorted rs \<and> distinct rs \<and> (\<forall>r \<in> set rs. r \<noteq> [] \<and> py_strip r = r)" by simp
  then show ?thesis unfolding canonical_roles_def by blast
qed

lemma compile_roles_same:
  assumes "canonical_roles v"
  shows "\<exists>rs. compile_roles v f = Inr rs \<and> PList (map PStr rs) = v"
proof -
  from assms obtain rs where v: "v = PList (map PStr rs)" "sorted rs" "distinct rs" "\<forall>r \<in> set rs. r \<noteq> [] \<and> py_strip r = r"
    by (auto simp: canonical_roles_def)
  have "map_result (role_text f) (map PStr rs) = Inr rs"
    using v(4) by (induction rs) (auto simp: role_text_def)
  then have "compile_roles v f = Inr (sort (remdups rs))" by (simp add: compile_roles_def v(1))
  moreover have "sort (remdups rs) = rs" using v(2,3) by (simp add: sorted_sort_id distinct_remdups_id)
  ultimately show ?thesis using v(1) by metis
qed

definition permissions_ok :: "string list \<Rightarrow> dict \<Rightarrow> bool" where
  "permissions_ok fs permissions \<longleftrightarrow> (\<forall>f \<in> set fs. \<forall>v. map_of permissions f = Some v \<longrightarrow> canonical_roles v)"

lemma compile_role_field_same: "permissions_ok [f] permissions \<Longrightarrow> compile_role_field f permissions = Inr permissions"
proof -
  assume ok: "permissions_ok [f] permissions"
  show ?thesis
  proof (cases "map_of permissions f")
    case (Some v)
    with ok compile_roles_same [of v "''permissions.'' @ f"] obtain rs where
      "compile_roles v (''permissions.'' @ f) = Inr rs" "PList (map PStr rs) = v" by (auto simp: permissions_ok_def)
    with Some show ?thesis by (simp add: compile_role_field_def has_key_map_of dput_same)
  qed (simp add: compile_role_field_def has_key_map_of)
qed

lemma compile_role_fields_ok:
  assumes "fold_result compile_role_field fs d = Inr d'" "permissions_ok gs d"
  shows "permissions_ok (fs @ gs) d'"
  using assms
proof (induction fs arbitrary: d gs)
  case (Cons f fs)
  then obtain d1 where d1: "compile_role_field f d = Inr d1" "fold_result compile_role_field fs d1 = Inr d'"
    by (auto simp: rbind_eq_Inr)
  have "permissions_ok (f # gs) d1"
    using d1(1) Cons.prems(2) compile_roles_canonical
    by (auto simp: compile_role_field_def permissions_ok_def rbind_eq_Inr has_key_map_of split: if_splits)
  from Cons.IH [OF d1(2) this] show ?case by (auto simp: permissions_ok_def)
qed simp

lemma compile_role_fields_same: "permissions_ok fs d \<Longrightarrow> fold_result compile_role_field fs d = Inr d"
  using compile_role_field_same by (induction fs) (auto simp: permissions_ok_def)

lemma compile_action_permissions_again:
  assumes "compile_action_permissions raw = Inr permissions"
  shows "compile_action_permissions (PDict permissions) = Inr permissions"
proof -
  have "permissions_ok role_fields permissions \<and> (has_key permissions ''allowedRoles'' \<longrightarrow> has_key permissions ''applyRoles'')"
  proof (cases raw)
    case PNone
    with assms show ?thesis by (auto simp: compile_action_permissions_def permissions_ok_def has_key_def)
  next
    case (PDict d)
    then obtain d1 where d1: "fold_result compile_role_field role_fields d = Inr d1"
      "permissions = (if \<not> has_key d1 ''applyRoles'' \<and> has_key d1 ''allowedRoles''
         then dput ''applyRoles'' (get_val d1 ''allowedRoles'') d1 else d1)"
      using assms by (auto simp: compile_action_permissions_def rbind_eq_Inr)
    have ok: "permissions_ok role_fields d1" using compile_role_fields_ok [OF d1(1), of "[]"] by (simp add: permissions_ok_def)
    then show ?thesis
      unfolding d1(2) by (auto simp: permissions_ok_def has_key_map_of role_fields_def get_or_def)
  qed (use assms in \<open>auto simp: compile_action_permissions_def\<close>)
  then have "fold_result compile_role_field role_fields permissions = Inr permissions"
    "\<not> (\<not> has_key permissions ''applyRoles'' \<and> has_key permissions ''allowedRoles'')"
    using compile_role_fields_same by blast+
  then show ?thesis by (simp only: compile_action_permissions_def pyval.case rbind_Inr if_False)
qed

section \<open>Compiled layouts are canonical\<close>

definition section_ok :: "regex_engine \<Rightarrow> form_section \<Rightarrow> bool" where
  "section_ok re s \<longleftrightarrow> fs_section_id s \<noteq> [] \<and> fs_title s \<noteq> [] \<and> fs_description s \<noteq> Some []
     \<and> fs_columns s \<in> {1, 2} \<and> (fs_is_initially_collapsed s \<longrightarrow> fs_is_collapsible s) \<and> [] \<notin> set (fs_parameter_names s)
     \<and> (\<forall>c. fs_visible_when s = Some c \<longrightarrow> validate_action_condition re c = Inr () \<and> validate_section_condition_sources c = Inr ())"

lemma form_texts_Inr: "form_text_sequence raw f = Inr names \<Longrightarrow> [] \<notin> set names"
  unfolding form_text_sequence_def rbind_eq_Inr by (auto dest!: map_result_item split: option.splits)

lemma form_texts_payload: "[] \<notin> set names \<Longrightarrow> form_text_sequence (PList (map PStr names)) f = Inr names"
  by (induction names) (auto simp: form_text_sequence_def form_sequence_def)

lemma form_columns_Inr: "form_columns v = Inr n \<Longrightarrow> n \<in> {1, 2}"
  by (auto simp: form_columns_def split: option.splits if_splits)

lemma form_optional_text_Inr: "form_optional_text raw = Inr t \<Longrightarrow> t \<noteq> Some []"
  by (auto simp: form_optional_text_def split: pyval.splits if_splits)

lemma form_required_text_Inr: "form_required_text payload f = Inr t \<Longrightarrow> t \<noteq> []"
  by (auto simp: form_required_text_def split: option.splits)

lemma form_visible_when_Inr:
  "form_visible_when re raw = Inr (Some c) \<Longrightarrow> validate_action_condition re c = Inr () \<and> validate_section_condition_sources c = Inr ()"
  by (auto simp: form_visible_when_def rbind_eq_Inr split: option.splits)

lemma compile_section_ok:
  assumes "compile_section re raw = Inr s"
  shows "section_ok re s"
proof -
  from assms obtain payload where parts:
    "\<not> (fs_is_initially_collapsed s \<and> \<not> fs_is_collapsible s)"
    "form_columns (get_or (PInt 1) payload ''columns'') = Inr (fs_columns s)"
    "form_visible_when re (get_val payload ''visibleWhen'') = Inr (fs_visible_when s)"
    "form_required_text payload ''id'' = Inr (fs_section_id s)"
    "form_required_text payload ''title'' = Inr (fs_title s)"
    "form_optional_text (get_val payload ''description'') = Inr (fs_description s)"
    "form_text_sequence (get_or (PList []) payload ''parameterNames'') ''parameterNames'' = Inr (fs_parameter_names s)"
    unfolding compile_section_def rbind_eq_Inr raise_if_Inr by force
  show ?thesis
    unfolding section_ok_def
    using parts(1) form_columns_Inr [OF parts(2)] form_visible_when_Inr [of re "get_val payload ''visibleWhen''"] parts(3)
      form_required_text_Inr [OF parts(4)] form_required_text_Inr [OF parts(5)] form_optional_text_Inr [OF parts(6)]
      form_texts_Inr [OF parts(7)]
    by simp
qed

lemma compile_section_payload: "section_ok re s \<Longrightarrow> compile_section re (PDict (section_payload s)) = Inr s"
proof -
  assume ok: "section_ok re s"
  have when_ok: "form_visible_when re (optional_dict_payload (fs_visible_when s)) = Inr (fs_visible_when s)"
    using ok by (cases "fs_visible_when s")
      (auto simp: form_visible_when_def optional_dict_payload_def form_optional_mapping_def form_mapping_def section_ok_def)
  have descr: "form_optional_text (optional_text_payload (fs_description s)) = Inr (fs_description s)"
    using ok by (cases "fs_description s") (auto simp: optional_text_payload_def form_optional_text_def section_ok_def)
  have columns: "form_columns (PInt (fs_columns s)) = Inr (fs_columns s)" using ok by (auto simp: form_columns_def section_ok_def)
  have texts: "form_text_sequence (PList (map PStr (fs_parameter_names s))) ''parameterNames'' = Inr (fs_parameter_names s)"
    using ok by (intro form_texts_payload) (simp add: section_ok_def)
  have ids: "fs_section_id s \<noteq> []" "fs_title s \<noteq> []" "\<not> (fs_is_initially_collapsed s \<and> \<not> fs_is_collapsible s)"
    using ok by (auto simp: section_ok_def)
  show ?thesis
    using ids by (simp add: compile_section_def section_payload_def form_mapping_def form_optional_bool_def when_ok descr columns texts
        form_required_text_def raise_if_def)
qed

lemma validate_sections_Inr:
  "validate_sections sections names = Inr () \<longleftrightarrow> distinct (map fs_section_id sections)
     \<and> distinct (assigned_parameter_names sections) \<and> set (assigned_parameter_names sections) \<subseteq> set names
     \<and> validate_section_condition_references sections names = Inr ()"
  by (auto simp: validate_sections_def Let_def validate_unique_section_ids_def rbind_eq_Inr)

lemma section_references_append:
  assumes "validate_section_condition_references sections names = Inr ()" "fs_visible_when s = None"
  shows "validate_section_condition_references (sections @ [s]) names = Inr ()"
proof -
  have "map_result section_condition_references (sections @ [s]) = rbind (map_result section_condition_references sections) (\<lambda>rs. Inr (rs @ [{}]))"
    using assms(2) by (induction sections) (auto simp: section_condition_references_def rbind_assoc intro!: arg_cong2 [where f = rbind])
  then show ?thesis using assms(1) by (auto simp: validate_section_condition_references_def rbind_eq_Inr)
qed

definition layout_ok :: "regex_engine \<Rightarrow> form_layout \<Rightarrow> string list \<Rightarrow> bool" where
  "layout_ok re layout names \<longleftrightarrow> (\<forall>s \<in> set layout. section_ok re s) \<and> layout \<noteq> []
     \<and> distinct (assigned_parameter_names layout) \<and> set (assigned_parameter_names layout) = set names
     \<and> validate_section_condition_references layout names = Inr ()"

lemma with_fallback_section_ok:
  assumes sections: "\<forall>s \<in> set sections. section_ok re s" "validate_sections sections names = Inr ()"
    and names: "distinct names" "[] \<notin> set names"
  shows "layout_ok re (with_fallback_section sections names) names"
proof -
  let ?rest = "filter (\<lambda>n. n \<notin> set (assigned_parameter_names sections)) names"
  note valid = sections(2) [unfolded validate_sections_Inr]
  show ?thesis
  proof (cases "?rest = []")
    case False
    then have layout: "with_fallback_section sections names = sections @ [default_section ''other-parameters'' ''Other parameters'' ?rest]"
      by (simp add: with_fallback_section_def Let_def)
    have "section_ok re (default_section ''other-parameters'' ''Other parameters'' ?rest)"
      using names(2) by (simp add: section_ok_def default_section_def)
    moreover have "validate_section_condition_references (sections @ [default_section ''other-parameters'' ''Other parameters'' ?rest]) names = Inr ()"
      using valid by (intro section_references_append) (simp_all add: default_section_def)
    moreover have "assigned_parameter_names (sections @ [default_section ''other-parameters'' ''Other parameters'' ?rest]) = assigned_parameter_names sections @ ?rest"
      by (simp add: assigned_parameter_names_def default_section_def)
    ultimately show ?thesis using valid sections(1) names(1) unfolding layout_ok_def layout by auto
  next
    case True
    then have all: "set names \<subseteq> set (assigned_parameter_names sections)" by (auto simp: filter_empty_conv)
    show ?thesis
    proof (cases "sections = []")
      case True
      with all have "names = []" by (simp add: assigned_parameter_names_def)
      with True show ?thesis
        by (simp add: with_fallback_section_def layout_ok_def assigned_parameter_names_def default_section_def section_ok_def
            validate_section_condition_references_def section_condition_references_def)
    next
      case False
      with True have "with_fallback_section sections names = sections" by (simp add: with_fallback_section_def Let_def)
      with False all valid sections(1) show ?thesis by (auto simp: layout_ok_def)
    qed
  qed
qed

lemma compile_action_form_layout_ok:
  assumes "compile_action_form_layout re raw names = Inr layout" "distinct names" "[] \<notin> set names"
  shows "layout_ok re layout names"
proof (cases "raw = PNone")
  case True
  with assms show ?thesis
    by (auto simp: compile_action_form_layout_def layout_ok_def assigned_parameter_names_def default_section_def section_ok_def
        validate_section_condition_references_def section_condition_references_def)
next
  case False
  with assms(1) obtain items sections where r: "map_result (compile_section re) items = Inr sections"
    "validate_sections sections names = Inr ()" "layout = with_fallback_section sections names"
    by (auto simp: compile_action_form_layout_def rbind_eq_Inr)
  have "\<forall>s \<in> set sections. section_ok re s" using map_result_item [OF r(1)] compile_section_ok by blast
  from with_fallback_section_ok [OF this r(2) assms(2,3)] show ?thesis by (simp add: r(3))
qed

lemma compile_section_payloads:
  "\<forall>s \<in> set layout. section_ok re s \<Longrightarrow> map_result (compile_section re) (map (PDict \<circ> section_payload) layout) = Inr layout"
  by (induction layout) (simp_all add: compile_section_payload)

lemma compile_action_form_layout_again:
  assumes ok: "layout_ok re layout names" and ids: "distinct (map fs_section_id layout)"
  shows "compile_action_form_layout re (PDict (action_form_layout_payload layout)) names = Inr layout"
proof -
  have "map_result (compile_section re) (map (PDict \<circ> section_payload) layout) = Inr layout"
    using ok by (intro compile_section_payloads) (simp add: layout_ok_def)
  moreover have "validate_sections layout names = Inr ()" using ok ids by (auto simp: validate_sections_Inr layout_ok_def)
  moreover have "filter (\<lambda>n. n \<notin> set (assigned_parameter_names layout)) names = []"
    using ok by (simp add: layout_ok_def filter_empty_conv)
  then have "with_fallback_section layout names = layout" using ok by (simp add: with_fallback_section_def layout_ok_def)
  ultimately show ?thesis
    by (simp add: compile_action_form_layout_def form_mapping_def form_sequence_def action_form_layout_payload_def)
qed

text \<open>A declared section may have the identifier of the fallback section; with a parameter left over
  the compiled layout then has it twice, and its own payload is refused.\<close>

lemma fallback_section_id_collides:
  assumes "layout = with_fallback_section [default_section ''other-parameters'' ''Mine'' []] [''note'']"
  shows "compile_action_form_layout re (PDict [(''sections'', PList [PDict [(''id'', PStr ''other-parameters''), (''title'', PStr ''Mine'')]])]) [''note''] = Inr layout"
    and "compile_action_form_layout re (PDict (action_form_layout_payload layout)) [''note'']
      = Inl (ValidationFailed ''form section ids must be unique'')"
  unfolding assms by code_simp+

end
