(* ===== verification/Action_Contract.thy ===== *)
theory Action_Contract
  imports Parameter_Shapes Action_Presentation Action_Effects
begin

text \<open>
  \<^verbatim>\<open>domain/action_runtime/action_contract.py\<close>: compilation of persisted action definitions, of any of the
  three versions, into the canonical contract, the contract's stable payload, and its JSON schemas. The
  digest is a parameter. Shown: the stored payload of a compiled contract is restored to the same contract,
  and what a compiled contract's parameters and defaults may refer to.
\<close>

section \<open>Contracts\<close>

definition action_parameter_types :: "string list" where
  "action_parameter_types = [''string'', ''boolean'', ''integer'', ''long'', ''float'', ''decimal'', ''date'', ''timestamp'',
     ''object'', ''interface'', ''objectSet'', ''array'', ''struct'', ''media'', ''attachment'']"

definition action_risk_levels :: "string list" where
  "action_risk_levels = [''low'', ''medium'', ''high'']"

definition agent_execution_policies :: "string list" where
  "agent_execution_policies = [''plan_only'', ''approval_required'', ''autonomous'']"

definition action_function_execution_modes :: "string list" where
  "action_function_execution_modes = [''per_request'', ''batched'']"

definition action_function_per_request_batch_limit :: int where
  "action_function_per_request_batch_limit = 20"

definition action_function_batch_limit :: int where
  "action_function_batch_limit = 10000"

definition action_attachment_max_bytes :: int where
  "action_attachment_max_bytes = 200 * 1024 * 1024"

record action_target =
  at_kind :: string
  at_api_name :: string

record parameter_override =
  po_when :: dict
  po_config :: dict

record action_parameter =
  ap_api_name :: string
  ap_data_type :: string
  ap_required :: bool
  ap_description :: "string option"
  ap_default :: "dict option"
  ap_constraints :: dict
  ap_metadata :: dict
  ap_overrides :: "parameter_override list"

record action_function_ref =
  fr_api_name :: string
  fr_version :: string
  fr_execution_mode :: string
  fr_batch_input_name :: "string option"
  fr_max_batch_size :: int

text \<open>The source version is \<^verbatim>\<open>int\<close> by annotation, and may be \<^verbatim>\<open>True\<close>.\<close>

record action_contract =
  ac_api_name :: string
  ac_display_name :: string
  ac_description :: "string option"
  ac_target :: action_target
  ac_parameters :: "action_parameter list"
  ac_rules :: "dict list"
  ac_function :: "action_function_ref option"
  ac_submission_criteria :: "dict option"
  ac_permissions :: dict
  ac_effects :: "action_effect list"
  ac_risk_level :: string
  ac_agent_execution_policy :: string
  ac_agent_tool_description :: "string option"
  ac_log_policy :: dict
  ac_revert_policy :: dict
  ac_branch_policy :: dict
  ac_form_layout :: form_layout
  ac_source_version :: pyval

section \<open>Reading untyped fields\<close>

definition contract_sequence :: "string \<Rightarrow> pyval \<Rightarrow> pyval list result" where
  "contract_sequence f raw = (case raw of PNone \<Rightarrow> Inr [] | PList vs \<Rightarrow> Inr vs
     | _ \<Rightarrow> Inl (ValidationFailed (f @ '' must be a list'')))"

definition contract_mapping :: "string \<Rightarrow> pyval \<Rightarrow> dict result" where
  "contract_mapping f raw = (case raw of PDict d \<Rightarrow> Inr d | _ \<Rightarrow> Inl (ValidationFailed (f @ '' must be an object'')))"

definition contract_mapping_or_empty :: "pyval \<Rightarrow> dict" where
  "contract_mapping_or_empty raw = (case raw of PDict d \<Rightarrow> d | _ \<Rightarrow> [])"

definition contract_optional_mapping :: "pyval \<Rightarrow> dict option result" where
  "contract_optional_mapping raw =
     (if raw = PNone then Inr None else rbind (contract_mapping ''action field'' raw) (\<lambda>d. Inr (Some d)))"

definition contract_text :: "dict \<Rightarrow> string \<Rightarrow> string result" where
  "contract_text payload key = (case nonempty_text (get_val payload key) of
       Some s \<Rightarrow> Inr s | None \<Rightarrow> Inl (ValidationFailed ''action field is required''))"

definition contract_optional_text :: "pyval \<Rightarrow> string option result" where
  "contract_optional_text raw = (case raw of
       PNone \<Rightarrow> Inr None
     | PStr s \<Rightarrow> Inr (if s = [] then None else Some s)
     | _ \<Rightarrow> Inl (ValidationFailed ''action field must be text''))"

definition contract_optional_bool :: "pyval \<Rightarrow> bool \<Rightarrow> bool result" where
  "contract_optional_bool raw dflt = (case raw of
       PNone \<Rightarrow> Inr dflt
     | PBool b \<Rightarrow> Inr b
     | _ \<Rightarrow> Inl (ValidationFailed ''action field must be boolean''))"

definition bounded_positive_int :: "pyval \<Rightarrow> int \<Rightarrow> int \<Rightarrow> int result" where
  "bounded_positive_int raw dflt maximum =
     (case plain_int (if raw = PNone then PInt dflt else raw) of
        Some n \<Rightarrow> if n < 1 \<or> n > maximum then Inl (ValidationFailed ''Action function maxBatchSize is invalid'') else Inr n
      | None \<Rightarrow> Inl (ValidationFailed ''Action function maxBatchSize is invalid''))"

definition contract_enum :: "pyval \<Rightarrow> string list \<Rightarrow> string \<Rightarrow> string result" where
  "contract_enum raw allowed dflt =
     (let v = (case nonempty_text raw of Some s \<Rightarrow> s | None \<Rightarrow> dflt) in
      if v \<in> set allowed then Inr v else Inl (ValidationFailed ''unsupported action field value''))"

section \<open>Parameters\<close>

definition validate_override_config :: "dict \<Rightarrow> string \<Rightarrow> unit result" where
  "validate_override_config config data_type =
     rbind (raise_if (\<exists>k \<in> set (dkeys config). k \<notin> {''required'', ''visible'', ''editable'', ''constraints'', ''default''})
        (ValidationFailed ''unsupported parameter override config'')) (\<lambda>_.
     rbind (each (\<lambda>f. raise_if (has_key config f \<and> (\<forall>b \<in> {True, False}. get_val config f \<noteq> PBool b))
        (ValidationFailed ''parameter override flag must be boolean'')) [''required'', ''visible'', ''editable'']) (\<lambda>_.
     rbind (if has_key config ''constraints''
        then rbind (contract_mapping ''override constraints'' (get_val config ''constraints'')) (validate_action_parameter_constraints data_type)
        else Inr ()) (\<lambda>_.
     if has_key config ''default''
     then rbind (contract_mapping ''override default'' (get_val config ''default'')) (\<lambda>_. Inr ())
     else Inr ())))"

definition compile_override :: "regex_engine \<Rightarrow> string \<Rightarrow> pyval \<Rightarrow> parameter_override result" where
  "compile_override re data_type item =
     rbind (contract_mapping ''parameter override'' item) (\<lambda>payload.
     rbind (contract_mapping ''parameter override condition'' (get_val payload ''when'')) (\<lambda>w.
     rbind (validate_action_condition re w) (\<lambda>_.
     rbind (contract_mapping ''override config'' (get_val payload ''config'')) (\<lambda>config.
     rbind (validate_override_config config data_type) (\<lambda>_.
     Inr \<lparr>po_when = w, po_config = config\<rparr>)))))"

definition compile_overrides :: "regex_engine \<Rightarrow> pyval \<Rightarrow> string \<Rightarrow> parameter_override list result" where
  "compile_overrides re raw data_type = rbind (contract_sequence ''overrides'' raw) (map_result (compile_override re data_type))"

text \<open>\<^verbatim>\<open>str(item_type or "string")\<close>: the text of a value that is not text is no type name.\<close>

definition item_type_name :: "dict \<Rightarrow> string option" where
  "item_type_name metadata = (case get_val metadata ''itemType'' of
       PStr s \<Rightarrow> Some (if s = [] then ''string'' else s)
     | v \<Rightarrow> if truthy v then None else Some ''string'')"

definition array_item_type :: "dict \<Rightarrow> string result" where
  "array_item_type metadata = (case item_type_name metadata of
       None \<Rightarrow> Inl (ValidationFailed ''unsupported array item type'')
     | Some t \<Rightarrow> if t \<notin> set action_parameter_types \<or> t \<in> {''array'', ''objectSet''}
         then Inl (ValidationFailed ''unsupported array item type'') else Inr t)"

text \<open>The fields before the parameter's own checks.\<close>

definition read_parameter :: "regex_engine \<Rightarrow> dict \<Rightarrow> action_parameter result" where
  "read_parameter re raw =
     rbind (contract_text raw ''type'') (\<lambda>data_type.
     rbind (raise_if (data_type \<notin> set action_parameter_types) (ValidationFailed ''unsupported action parameter type'')) (\<lambda>_.
     rbind (contract_text raw ''apiName'') (\<lambda>api_name.
     rbind (contract_optional_bool (get_val raw ''required'') False) (\<lambda>required.
     rbind (contract_optional_text (get_val raw ''description'')) (\<lambda>description.
     rbind (contract_optional_mapping (get_val raw ''default'')) (\<lambda>dflt.
     rbind (compile_overrides re (get_or (PList []) raw ''overrides'') data_type) (\<lambda>overrides.
     Inr \<lparr>ap_api_name = api_name, ap_data_type = data_type, ap_required = required, ap_description = description,
       ap_default = dflt, ap_constraints = contract_mapping_or_empty (get_val raw ''constraints''),
       ap_metadata = without_keys parameter_fields raw, ap_overrides = overrides\<rparr>)))))))"

subsection \<open>Media parameters\<close>

definition media_parameter_kind :: "string \<Rightarrow> dict \<Rightarrow> string option result" where
  "media_parameter_kind data_type metadata =
     (if data_type \<in> set media_types then Inr (Some data_type)
      else if data_type \<in> {''array'', ''objectSet''}
      then rbind (in_names (get_val metadata ''itemType'') media_types) (\<lambda>b.
        Inr (if b then nonempty_text (get_val metadata ''itemType'') else None))
      else Inr None)"

definition validate_media_set_reference :: "dict \<Rightarrow> unit result" where
  "validate_media_set_reference metadata =
     raise_if (case get_val metadata ''mediaSet'' of
         PStr s \<Rightarrow> length (split_dots s) \<noteq> 2 \<or> [] \<in> set (split_dots s)
       | _ \<Rightarrow> True) (ValidationFailed ''media and attachment parameters require a namespace.name mediaSet'')"

definition is_non_empty_text_sequence :: "pyval \<Rightarrow> bool" where
  "is_non_empty_text_sequence v = (case v of PList vs \<Rightarrow> vs \<noteq> [] \<and> list_all is_nonempty_str vs | _ \<Rightarrow> False)"

definition validate_allowed_mime_types :: "dict \<Rightarrow> unit result" where
  "validate_allowed_mime_types metadata =
     (let v = get_val metadata ''allowedMimeTypes'' in
      raise_if (v \<noteq> PNone \<and> \<not> is_non_empty_text_sequence v) (ValidationFailed ''allowedMimeTypes must be a non-empty string list''))"

definition is_valid_media_max_bytes :: "string option \<Rightarrow> pyval \<Rightarrow> bool" where
  "is_valid_media_max_bytes kind v = (case plain_int v of
       None \<Rightarrow> False
     | Some n \<Rightarrow> n > 0 \<and> (kind \<noteq> Some ''attachment'' \<or> n \<le> action_attachment_max_bytes))"

definition validate_media_max_bytes :: "string option \<Rightarrow> dict \<Rightarrow> unit result" where
  "validate_media_max_bytes kind metadata =
     (let v = get_val metadata ''maxBytes'' in
      raise_if (v \<noteq> PNone \<and> \<not> is_valid_media_max_bytes kind v) (ValidationFailed ''media parameter maxBytes is invalid''))"

definition validate_media_render_mode :: "dict \<Rightarrow> unit result" where
  "validate_media_render_mode metadata =
     rbind (in_names (get_or (PStr ''filePicker'') metadata ''render'') [''filePicker'', ''textInput'']) (\<lambda>b.
     raise_if (\<not> b) (ValidationFailed ''media parameter render must be filePicker or textInput''))"

definition validate_media_parameter_shape :: "string \<Rightarrow> dict \<Rightarrow> unit result" where
  "validate_media_parameter_shape data_type metadata =
     rbind (media_parameter_kind data_type metadata) (\<lambda>kind.
     if kind = None then Inr ()
     else rbind (validate_media_set_reference metadata) (\<lambda>_.
       rbind (validate_allowed_mime_types metadata) (\<lambda>_.
       rbind (validate_media_max_bytes kind metadata) (\<lambda>_.
       validate_media_render_mode metadata))))"

definition validate_enum_parameter_types :: "action_parameter \<Rightarrow> unit result" where
  "validate_enum_parameter_types p = (case get_val (ap_constraints p) ''enum'' of
       PList vs \<Rightarrow> rbind (all_result (matches_action_parameter_shape (ap_data_type p) (ap_metadata p)) vs) (\<lambda>b.
         raise_if (\<not> b) (ValidationFailed ''action parameter enum constraint has a value of the wrong type''))
     | _ \<Rightarrow> Inr ())"

subsection \<open>Payloads and schemas\<close>

definition override_payload :: "parameter_override \<Rightarrow> dict" where
  "override_payload ov = [(''when'', PDict (po_when ov)), (''config'', PDict (po_config ov))]"

text \<open>\<^verbatim>\<open>dict(x) if x else None\<close>: an empty dictionary is stored as null.\<close>

definition nonempty_dict_payload :: "dict option \<Rightarrow> pyval" where
  "nonempty_dict_payload d = (case d of Some (e # r) \<Rightarrow> PDict (e # r) | _ \<Rightarrow> PNone)"

definition parameter_payload :: "action_parameter \<Rightarrow> dict" where
  "parameter_payload p = dupdate
     [(''apiName'', PStr (ap_api_name p)), (''type'', PStr (ap_data_type p)), (''required'', PBool (ap_required p)),
      (''description'', optional_text_payload (ap_description p)), (''default'', nonempty_dict_payload (ap_default p)),
      (''constraints'', PDict (ap_constraints p)),
      (''overrides'', PList (map (PDict \<circ> override_payload) (ap_overrides p)))] (ap_metadata p)"

definition primitive_parameter_schema :: "string \<Rightarrow> dict option" where
  "primitive_parameter_schema data_type = map_of
     [(''string'', [(''type'', PStr ''string'')]), (''integer'', [(''type'', PStr ''integer'')]),
      (''long'', [(''type'', PStr ''integer'')]), (''float'', [(''type'', PStr ''number'')]),
      (''decimal'', [(''type'', PStr ''string''), (''format'', PStr ''decimal''),
         (''pattern'', PStr ([CHR ''^''] @ ''[+-]?([0-9]+('' @ [CHR 0x5C] @ ''.[0-9]*)?|'' @ [CHR 0x5C] @ ''.[0-9]+)([eE][+-]?[0-9]+)?$''))]),
      (''boolean'', [(''type'', PStr ''boolean'')]),
      (''date'', [(''type'', PStr ''string''), (''format'', PStr ''date'')]),
      (''timestamp'', [(''type'', PStr ''string''), (''format'', PStr ''date-time'')])] data_type"

definition object_reference_parameter_schema :: "string \<Rightarrow> dict" where
  "object_reference_parameter_schema data_type = [(''oneOf'', PList
     [PDict [(''type'', PStr ''string''), (''format'', PStr (''foundry-'' @ data_type))],
      PDict [(''type'', PStr ''object''), (''additionalProperties'', PBool False),
        (''properties'', PDict [(''objectType'', PDict [(''type'', PStr ''string'')]), (''objectId'', PDict [(''type'', PStr ''string'')])]),
        (''required'', PList [PStr ''objectType'', PStr ''objectId''])]])]"

definition immutable_media_reference_schema :: "string \<Rightarrow> dict" where
  "immutable_media_reference_schema reference_kind =
     (let properties = (''referenceKind'', PDict [(''const'', PStr reference_kind)])
          # map (\<lambda>k. (k, PDict [(''type'', PStr ''string'')]))
              [''mediaSetId'', ''mediaItemId'', ''mediaItemVersionId'', ''logicalPath'', ''contentHash'', ''mimeType'']
          @ [(''byteSize'', PDict [(''type'', PStr ''integer''), (''minimum'', PInt 0)]),
             (''classification'', PDict [(''type'', PStr ''string'')])] in
      [(''type'', PStr ''object''), (''additionalProperties'', PBool False), (''properties'', PDict properties),
       (''required'', PList (map (PStr \<circ> fst) properties))])"

definition media_reference_parameter_schema :: "string \<Rightarrow> dict" where
  "media_reference_parameter_schema data_type = [(''oneOf'', PList
     [PDict [(''type'', PStr ''string''), (''format'', PStr (''foundry-'' @ data_type @ ''-version-id''))],
      PDict (immutable_media_reference_schema data_type)])]"

text \<open>\<^verbatim>\<open>_parameter_schema\<close> after the base schema.\<close>

definition described_schema :: "action_parameter \<Rightarrow> dict \<Rightarrow> dict" where
  "described_schema p schema =
     dput ''x-foundry-parameter-config'' (PDict (parameter_payload p))
       (dupdate (case ap_description p of None \<Rightarrow> schema | Some s \<Rightarrow> dput ''description'' (PStr s) schema)
         (action_parameter_schema_constraints (ap_data_type p) (ap_constraints p)))"

definition object_schema :: "(action_parameter \<times> dict) list \<Rightarrow> dict" where
  "object_schema members =
     [(''type'', PStr ''object''), (''additionalProperties'', PBool False),
      (''properties'', PDict (map (\<lambda>(p, schema). (ap_api_name p, PDict schema)) members)),
      (''required'', PList (map (PStr \<circ> ap_api_name) (filter ap_required (map fst members))))]"

definition unique_field_names :: "action_parameter list \<Rightarrow> unit result" where
  "unique_field_names ps = raise_if (\<not> distinct (map ap_api_name ps)) (ValidationFailed ''duplicate struct field'')"

definition array_schema :: "string \<Rightarrow> dict \<Rightarrow> dict" where
  "array_schema data_type items =
     [(''type'', PStr ''array''), (''items'', PDict items), (''uniqueItems'', PBool (data_type = ''objectSet''))]"

text \<open>A parameter, the fields of a struct parameter and the schema of a parameter shape. The base schema
  depends on the type and the metadata of a parameter only; the metadata of a compiled field is the raw
  field without the declared keys, which is how the recursion is written here.\<close>

definition struct_members :: "dict \<Rightarrow> pyval list" where
  "struct_members metadata = (case struct_field_list metadata of None \<Rightarrow> [] | Some members \<Rightarrow> members)"

lemma without_keys_size: "dict_size (without_keys ks d) \<le> dict_size d"
  by (induction d) (auto simp: without_keys_def dict_size_def)

lemma array_item_type_Inr: "array_item_type metadata = Inr t \<Longrightarrow> t \<notin> {''array'', ''objectSet''}"
  by (auto simp: array_item_type_def split: option.splits if_splits)

lemma member_size:
  assumes d: "PDict d \<in> set (struct_members metadata)"
  shows "dict_size d < dict_size metadata"
proof (cases "struct_field_list metadata")
  case None
  with d show ?thesis by (simp add: struct_members_def)
next
  case (Some members)
  then have "get_val metadata ''fields'' = PList members"
    by (auto simp: struct_field_list_def split: pyval.splits list.splits)
  then have "size (PList members) < dict_size metadata" by (rule get_val_size) simp
  with item_size [of "PDict d" members] d Some show ?thesis by (simp add: dict_size_def struct_members_def)
qed

lemma item_schema_size:
  "array_item_type metadata = Inr t \<Longrightarrow> dict_size metadata \<le> n \<Longrightarrow>
     4 * dict_size (without_keys [''itemType''] metadata) + (if t \<in> {''array'', ''objectSet''} then 2 else 1) < 4 * n + 2"
  using array_item_type_Inr [of metadata t] without_keys_size [of "[''itemType'']" metadata] by auto

function compile_parameter :: "regex_engine \<Rightarrow> dict \<Rightarrow> action_parameter result"
and struct_fields :: "regex_engine \<Rightarrow> dict \<Rightarrow> action_parameter list result"
and base_parameter_schema :: "regex_engine \<Rightarrow> string \<Rightarrow> dict \<Rightarrow> dict result" where
  "compile_parameter re raw =
     rbind (read_parameter re raw) (\<lambda>p.
     rbind (validate_action_parameter_constraints (ap_data_type p) (ap_constraints p)) (\<lambda>_.
     rbind (if ap_data_type p \<in> {''array'', ''objectSet''}
        then rbind (array_item_type (without_keys parameter_fields raw)) (\<lambda>t.
          rbind (base_parameter_schema re t (without_keys [''itemType''] (without_keys parameter_fields raw))) (\<lambda>_. Inr ()))
        else Inr ()) (\<lambda>_.
     rbind (if ap_data_type p = ''struct'' then rbind (struct_fields re (without_keys parameter_fields raw)) (\<lambda>_. Inr ()) else Inr ()) (\<lambda>_.
     rbind (validate_media_parameter_shape (ap_data_type p) (ap_metadata p)) (\<lambda>_.
     rbind (validate_enum_parameter_types p) (\<lambda>_. Inr p))))))"
| "struct_fields re metadata =
     rbind (raise_if (struct_field_list metadata = None) (ValidationFailed ''struct action parameter requires at least one typed field'')) (\<lambda>_.
     rbind (map_result (\<lambda>m. case m of
         PDict raw \<Rightarrow> compile_parameter re raw
       | _ \<Rightarrow> Inl (ValidationFailed ''struct field must be an object'')) (struct_members metadata)) (\<lambda>ps.
     rbind (unique_field_names ps) (\<lambda>_. Inr ps)))"
| "base_parameter_schema re data_type metadata =
     (case primitive_parameter_schema data_type of
        Some schema \<Rightarrow> Inr schema
      | None \<Rightarrow>
          if data_type \<in> {''object'', ''interface''} then Inr (object_reference_parameter_schema data_type)
          else if data_type \<in> set media_types then Inr (media_reference_parameter_schema data_type)
          else if data_type \<in> {''array'', ''objectSet''} then
            rbind (array_item_type metadata) (\<lambda>t.
            rbind (base_parameter_schema re t (without_keys [''itemType''] metadata)) (\<lambda>items.
            Inr (array_schema data_type items)))
          else
            rbind (struct_fields re metadata) (\<lambda>ps.
            rbind (map_result (\<lambda>(m, p). case m of
                PDict raw \<Rightarrow>
                  rbind (base_parameter_schema re (ap_data_type p) (without_keys parameter_fields raw)) (\<lambda>schema.
                  Inr (p, described_schema p schema))
              | _ \<Rightarrow> Inl TypeError) (zip (struct_members metadata) ps)) (\<lambda>members.
            Inr (object_schema members))))"
  by pat_completeness auto
termination
proof (relation "measure (\<lambda>x. case x of
      Inl (_, raw) \<Rightarrow> 4 * dict_size raw + 3
    | Inr (Inl (_, metadata)) \<Rightarrow> 4 * dict_size metadata
    | Inr (Inr (_, t, metadata)) \<Rightarrow> 4 * dict_size metadata + (if t \<in> {''array'', ''objectSet''} then 2 else 1))", goal_cases)
  case (2 re raw p _ t)
  with item_schema_size [OF 2(4) without_keys_size] show ?case by simp
next
  case (3 re raw)
  show ?case using without_keys_size [of parameter_fields raw] by simp
next
  case (4 re metadata _ m raw)
  with member_size [of raw metadata] show ?case by simp
next
  case (5 re data_type metadata t)
  with item_schema_size [OF 5(5) order_refl] show ?case by simp
next
  case (7 re data_type metadata ps _ m p raw)
  then have "PDict raw \<in> set (struct_members metadata)" by (auto dest: set_zip_leftD)
  then have "dict_size (without_keys parameter_fields raw) < dict_size metadata"
    using member_size without_keys_size le_less_trans by metis
  then show ?case by simp
qed simp_all

declare compile_parameter.simps [simp del] struct_fields.simps [simp del] base_parameter_schema.simps [simp del]

definition parameter_schema :: "regex_engine \<Rightarrow> action_parameter \<Rightarrow> dict result" where
  "parameter_schema re p =
     rbind (base_parameter_schema re (ap_data_type p) (ap_metadata p)) (\<lambda>schema. Inr (described_schema p schema))"

definition compile_parameters :: "regex_engine \<Rightarrow> pyval \<Rightarrow> action_parameter list result" where
  "compile_parameters re raw =
     rbind (contract_sequence ''parameters'' raw) (\<lambda>items.
     rbind (map_result (\<lambda>item. rbind (contract_mapping ''parameter'' item) (compile_parameter re)) items) (\<lambda>ps.
     rbind (raise_if (\<not> distinct (map ap_api_name ps)) (ValidationFailed ''duplicate action parameter'')) (\<lambda>_. Inr ps)))"

section \<open>Defaults and references between parameters\<close>

definition default_fields :: "pyval \<Rightarrow> string list" where
  "default_fields kind = (case kind of
       PStr k \<Rightarrow> (case map_of [(''literal'', [''kind'', ''value'']), (''parameter'', [''kind'', ''parameter'']),
           (''objectProperty'', [''kind'', ''property'']), (''currentUser'', [''kind'', ''attribute'']),
           (''currentTime'', [''kind'', ''unit'']), (''generatedId'', [''kind'', ''strategy''])] k of
         Some fs \<Rightarrow> fs | None \<Rightarrow> [''kind''])
     | _ \<Rightarrow> [''kind''])"

definition validate_literal_default :: "action_parameter \<Rightarrow> pyval \<Rightarrow> dict \<Rightarrow> unit result" where
  "validate_literal_default p v constraints =
     rbind (raise_if (\<not> is_bounded_json_value v) (ValidationFailed ''literal action parameter default must be bounded JSON'')) (\<lambda>_.
     rbind (matches_action_parameter_shape (ap_data_type p) (ap_metadata p) v) (\<lambda>b.
     rbind (raise_if (\<not> b) (ValidationFailed ''literal action parameter default has the wrong type'')) (\<lambda>_.
     validate_action_parameter_constraints_for_value (ap_data_type p) v constraints)))"

definition validate_current_time_default :: "action_parameter \<Rightarrow> dict \<Rightarrow> unit result" where
  "validate_current_time_default p dflt =
     rbind (contract_text dflt ''unit'') (\<lambda>u.
     if ap_data_type p = ''string'' \<and> u \<in> {''date'', ''timestamp''} then Inr ()
     else raise_if ((ap_data_type p, u) \<notin> {(''date'', ''date''), (''timestamp'', ''timestamp'')})
       (ValidationFailed ''current-time default unit does not match the parameter type''))"

definition validate_current_user_default :: "action_parameter \<Rightarrow> dict \<Rightarrow> unit result" where
  "validate_current_user_default p dflt =
     (case get_or (PStr ''id'') dflt ''attribute'' of
        PStr a \<Rightarrow>
          rbind (raise_if (py_strip a = []) (ValidationFailed ''current-user default attribute must be non-empty text'')) (\<lambda>_.
          rbind (raise_if (a = ''id'' \<and> ap_data_type p \<noteq> ''string'')
            (ValidationFailed ''current-user id default requires a string parameter'')) (\<lambda>_.
          raise_if (a \<in> {''group'', ''groups'', ''roles''}
              \<and> (ap_data_type p \<notin> {''array'', ''objectSet''} \<or> get_val (ap_metadata p) ''itemType'' \<noteq> PStr ''string''))
            (ValidationFailed ''current-user groups default requires a string collection parameter'')))
      | _ \<Rightarrow> Inl (ValidationFailed ''current-user default attribute must be non-empty text''))"

definition validate_standard_default :: "action_parameter \<Rightarrow> dict \<Rightarrow> dict \<Rightarrow> pyval \<Rightarrow> unit result" where
  "validate_standard_default p dflt constraints kind =
     (if kind = PStr ''literal'' then validate_literal_default p (get_val dflt ''value'') constraints
      else if kind = PStr ''currentTime'' then validate_current_time_default p dflt
      else validate_current_user_default p dflt)"

definition validate_generated_id_default :: "action_parameter \<Rightarrow> dict \<Rightarrow> unit result" where
  "validate_generated_id_default p dflt =
     rbind (contract_text dflt ''strategy'') (\<lambda>_.
     raise_if (ap_data_type p \<noteq> ''string'') (ValidationFailed ''generated-id default requires a string parameter''))"

definition validate_parameter_reference_default :: "dict \<Rightarrow> string set \<Rightarrow> unit result" where
  "validate_parameter_reference_default dflt available =
     raise_if (get_val dflt ''parameter'' \<notin> PStr ` available)
       (ValidationFailed ''parameter default may reference earlier parameters only'')"

definition validate_reference_default :: "action_parameter \<Rightarrow> dict \<Rightarrow> string set \<Rightarrow> pyval \<Rightarrow> unit result" where
  "validate_reference_default p dflt available kind =
     (if kind = PStr ''generatedId'' then validate_generated_id_default p dflt
      else rbind (in_names kind [''parameter'', ''objectProperty'']) (\<lambda>b.
        if \<not> b then Inl (ValidationFailed ''unsupported action parameter default'')
        else if kind = PStr ''objectProperty'' then rbind (contract_text dflt ''property'') (\<lambda>_. Inr ())
        else validate_parameter_reference_default dflt available))"

definition validate_default :: "action_parameter \<Rightarrow> dict \<Rightarrow> string set \<Rightarrow> dict \<Rightarrow> unit result" where
  "validate_default p dflt available constraints =
     (let kind = get_val dflt ''kind'' in
      rbind (raise_if (\<exists>k \<in> set (dkeys dflt). k \<notin> set (default_fields kind))
        (ValidationFailed ''unsupported action parameter default fields'')) (\<lambda>_.
      rbind (in_names kind [''literal'', ''currentTime'', ''currentUser'']) (\<lambda>b.
      if b then validate_standard_default p dflt constraints kind
      else validate_reference_default p dflt available kind)))"

definition validate_default_order :: "action_parameter \<Rightarrow> string set \<Rightarrow> unit result" where
  "validate_default_order p available = (case ap_default p of
       None \<Rightarrow> Inr ()
     | Some d \<Rightarrow> validate_default p d available (ap_constraints p))"

definition validate_override_order ::
  "action_parameter \<Rightarrow> string set \<Rightarrow> (string \<times> string) list \<Rightarrow> parameter_override \<Rightarrow> unit result" where
  "validate_override_order p available available_types ov =
     rbind (validate_action_condition_parameter_literals (po_when ov) available_types) (\<lambda>_.
     rbind (referenced_condition_value_kinds (po_when ov)) (\<lambda>kinds.
     rbind (raise_if (''linkedObjectProperty'' \<in> kinds) (ValidationFailed ''parameter overrides cannot read linked objects'')) (\<lambda>_.
     rbind (referenced_condition_parameters (po_when ov)) (\<lambda>refs.
     rbind (raise_if (\<not> refs \<subseteq> available) (ValidationFailed ''parameter override may reference earlier parameters only'')) (\<lambda>_.
     let override_default = get_val (po_config ov) ''default'' in
     if override_default = PNone then Inr ()
     else rbind (contract_mapping ''override default'' override_default) (\<lambda>dflt.
       rbind (contract_mapping ''override constraints'' (get_or (PDict (ap_constraints p)) (po_config ov) ''constraints'')) (\<lambda>constraints.
       validate_default p dflt available constraints)))))))"

fun validate_parameter_order_from ::
  "string set \<Rightarrow> (string \<times> string) list \<Rightarrow> action_parameter list \<Rightarrow> unit result" where
  "validate_parameter_order_from available available_types [] = Inr ()"
| "validate_parameter_order_from available available_types (p # ps) =
     rbind (each (validate_override_order p available available_types) (ap_overrides p)) (\<lambda>_.
     rbind (validate_default_order p available) (\<lambda>_.
     validate_parameter_order_from (insert (ap_api_name p) available)
       (dput (ap_api_name p) (ap_data_type p) available_types) ps))"

definition validate_parameter_order :: "action_parameter list \<Rightarrow> unit result" where
  "validate_parameter_order ps = validate_parameter_order_from {} [] ps"

definition parameter_types :: "action_parameter list \<Rightarrow> (string \<times> string) list" where
  "parameter_types ps = map (\<lambda>p. (ap_api_name p, ap_data_type p)) ps"

definition validate_submission_criteria_references :: "dict \<Rightarrow> action_parameter list \<Rightarrow> unit result" where
  "validate_submission_criteria_references criteria ps =
     rbind (referenced_condition_parameters criteria) (\<lambda>refs.
     raise_if (\<not> refs \<subseteq> set (map ap_api_name ps)) (ValidationFailed ''submission criteria references unknown parameters''))"

section \<open>Targets, rules, functions and effects\<close>

definition target_kind :: "pyval \<Rightarrow> string result" where
  "target_kind raw =
     (let kind = (case nonempty_text raw of Some s \<Rightarrow> s | None \<Rightarrow> ''object'') in
      if kind \<in> {''object'', ''interface''} then Inr kind else Inl (ValidationFailed ''unsupported action target kind''))"

fun first_object_type :: "pyval list \<Rightarrow> string option result" where
  "first_object_type [] = Inr None"
| "first_object_type (raw # rest) = rbind (contract_mapping ''action rule'' raw) (\<lambda>rule.
     case nonempty_text (get_val rule ''objectType'') of Some t \<Rightarrow> Inr (Some t) | None \<Rightarrow> first_object_type rest)"

definition legacy_target :: "dict \<Rightarrow> action_target result" where
  "legacy_target def =
     (if py_eq (get_or (PInt 1) def ''contractVersion'') (PInt 3) then Inl (ValidationFailed ''action target is required'')
      else rbind (contract_sequence ''rulesV2'' (get_or (PList []) def ''rulesV2'')) (\<lambda>rules.
        rbind (first_object_type rules) (\<lambda>t.
        Inr \<lparr>at_kind = ''object'', at_api_name = (case t of Some s \<Rightarrow> s | None \<Rightarrow> ''__multi__'')\<rparr>)))"

definition contract_target :: "dict \<Rightarrow> action_target result" where
  "contract_target def = (case get_val def ''target'' of
       PDict payload \<Rightarrow>
         rbind (target_kind (get_val payload ''kind'')) (\<lambda>kind.
         rbind (contract_text payload ''apiName'') (\<lambda>name. Inr \<lparr>at_kind = kind, at_api_name = name\<rparr>))
     | PStr s \<Rightarrow>
         if s = [] then legacy_target def
         else rbind (target_kind (get_val def ''targetKind'')) (\<lambda>kind. Inr \<lparr>at_kind = kind, at_api_name = s\<rparr>)
     | _ \<Rightarrow> legacy_target def)"

definition contract_rules :: "dict \<Rightarrow> dict list result" where
  "contract_rules def =
     (let raw = (if get_val def ''rules'' = PNone then get_or (PList []) def ''rulesV2'' else get_val def ''rules'') in
      rbind (contract_sequence ''rules'' raw) (map_result (contract_mapping ''action rule'')))"

definition contract_function :: "pyval \<Rightarrow> action_function_ref option result" where
  "contract_function raw =
     (if raw = PNone then Inr None
      else rbind (contract_mapping ''function'' raw) (\<lambda>payload.
        rbind (contract_enum (get_val payload ''executionMode'') action_function_execution_modes ''per_request'') (\<lambda>mode.
        rbind (contract_optional_text (get_val payload ''batchInputName'')) (\<lambda>batch_input.
        rbind (raise_if (mode = ''batched'' \<and> batch_input = None) (ValidationFailed ''batched Action function requires batchInputName'')) (\<lambda>_.
        rbind (raise_if (mode = ''per_request'' \<and> batch_input \<noteq> None)
          (ValidationFailed ''per-request Action function cannot declare batchInputName'')) (\<lambda>_.
        let ceiling = (if mode = ''batched'' then action_function_batch_limit else action_function_per_request_batch_limit) in
        rbind (bounded_positive_int (get_val payload ''maxBatchSize'') ceiling ceiling) (\<lambda>size.
        rbind (contract_text payload ''apiName'') (\<lambda>name.
        rbind (contract_text payload ''version'') (\<lambda>version.
        Inr (Some \<lparr>fr_api_name = name, fr_version = version, fr_execution_mode = mode,
          fr_batch_input_name = batch_input, fr_max_batch_size = size\<rparr>))))))))))"

definition contract_source_version :: "dict \<Rightarrow> pyval result" where
  "contract_source_version def =
     (let raw = get_or (PInt 1) def ''contractVersion'' in
      case int_like raw of
        Some n \<Rightarrow> if n \<in> {1, 2, 3} then Inr raw else Inl (ValidationFailed ''unsupported action contract version'')
      | None \<Rightarrow> Inl (ValidationFailed ''unsupported action contract version''))"

fun response_fields_in :: "pyval \<Rightarrow> string set" where
  "response_fields_in (PDict d) =
     ((case get_val d ''field'' of PStr f \<Rightarrow> if get_val d ''kind'' = PStr ''webhookResponse'' then {f} else {} | _ \<Rightarrow> {})
      \<union> \<Union> (set (map (\<lambda>(k, v). response_fields_in v) d))) - {[]}"
| "response_fields_in (PList vs) = \<Union> (set (map response_fields_in vs))"
| "response_fields_in _ = {}"

definition assignment_response_fields :: "dict \<Rightarrow> string set result" where
  "assignment_response_fields rule =
     rbind (contract_sequence ''assignments'' (get_val rule ''assignments'')) (\<lambda>assignments.
     rbind (map_result (\<lambda>a. rbind (contract_mapping ''assignment'' a) (\<lambda>payload.
       Inr (response_fields_in (get_val payload ''value'')))) assignments) (\<lambda>fs. Inr (\<Union> (set fs))))"

definition webhook_response_fields :: "dict list \<Rightarrow> string set result" where
  "webhook_response_fields rules =
     (let all_fields = response_fields_in (PList (map PDict rules)) in
      rbind (map_result assignment_response_fields rules) (\<lambda>fs.
      if all_fields \<noteq> \<Union> (set fs)
      then Inl (ValidationFailed ''webhook response values may be used only in Action property assignments'')
      else Inr all_fields))"

definition validate_effect_contract :: "action_effect list \<Rightarrow> dict list \<Rightarrow> pyval \<Rightarrow> unit result" where
  "validate_effect_contract effects rules source_version =
     (if (case int_like source_version of Some n \<Rightarrow> n < 3 | None \<Rightarrow> False) then Inr ()
      else rbind (webhook_response_fields rules) (\<lambda>fs.
        case find (\<lambda>e. ae_phase e = ''before_commit'') effects of
          None \<Rightarrow> raise_if (fs \<noteq> {}) (ValidationFailed ''webhook response rule values require a before-commit Action effect'')
        | Some before \<Rightarrow> raise_if (fs - set (map fst (ae_response_fields before)) \<noteq> {})
            (ValidationFailed ''webhook response rule value is not declared by the before-commit effect'')))"

section \<open>Compilation\<close>

definition contract_criteria :: "regex_engine \<Rightarrow> pyval \<Rightarrow> action_parameter list \<Rightarrow> dict option result" where
  "contract_criteria re raw ps =
     rbind (contract_optional_mapping raw) (\<lambda>criteria. case criteria of
         None \<Rightarrow> Inr None
       | Some c \<Rightarrow>
           rbind (validate_action_condition re c) (\<lambda>_.
           rbind (validate_submission_criteria_references c ps) (\<lambda>_.
           rbind (validate_action_condition_parameter_literals c (parameter_types ps)) (\<lambda>_.
           Inr criteria))))"

definition compile_action_contract :: "regex_engine \<Rightarrow> dict \<Rightarrow> action_contract result" where
  "compile_action_contract re def =
     rbind (contract_text def ''apiName'') (\<lambda>api_name.
     rbind (contract_target def) (\<lambda>target.
     rbind (compile_parameters re (get_or (PList []) def ''parameters'')) (\<lambda>ps.
     rbind (validate_parameter_order ps) (\<lambda>_.
     rbind (contract_rules def) (\<lambda>rules.
     rbind (contract_function (get_val def ''function'')) (\<lambda>func.
     rbind (raise_if (func \<noteq> None \<and> rules \<noteq> []) (ValidationFailed ''function-backed action cannot also declare rules'')) (\<lambda>_.
     rbind (contract_criteria re (get_val def ''submissionCriteria'') ps) (\<lambda>criteria.
     rbind (contract_enum (get_val def ''riskLevel'') action_risk_levels ''high'') (\<lambda>risk_level.
     rbind (contract_enum (get_val def ''agentExecutionPolicy'') agent_execution_policies ''approval_required'') (\<lambda>agent_policy.
     rbind (compile_action_effects def) (\<lambda>effects.
     rbind (compile_action_form_layout re (get_val def ''formLayout'') (map ap_api_name ps)) (\<lambda>form_layout.
     rbind (contract_source_version def) (\<lambda>source_version.
     rbind (validate_effect_contract effects rules source_version) (\<lambda>_.
     rbind (contract_optional_text (get_val def ''displayName'')) (\<lambda>display_name.
     rbind (contract_optional_text (get_val def ''description'')) (\<lambda>description.
     rbind (compile_action_permissions (get_val def ''permissions'')) (\<lambda>permissions.
     rbind (contract_optional_text (get_val def ''agentToolDescription'')) (\<lambda>tool_description.
     Inr \<lparr>ac_api_name = api_name, ac_display_name = (case display_name of Some s \<Rightarrow> s | None \<Rightarrow> api_name),
       ac_description = description, ac_target = target, ac_parameters = ps, ac_rules = rules, ac_function = func,
       ac_submission_criteria = criteria, ac_permissions = permissions, ac_effects = effects,
       ac_risk_level = risk_level, ac_agent_execution_policy = agent_policy,
       ac_agent_tool_description = tool_description,
       ac_log_policy = contract_mapping_or_empty (get_val def ''actionLog''),
       ac_revert_policy = contract_mapping_or_empty (get_val def ''revert''),
       ac_branch_policy = contract_mapping_or_empty (get_val def ''branchPolicy''),
       ac_form_layout = form_layout, ac_source_version = source_version\<rparr>))))))))))))))))))"

definition compile_action_contract_snapshot :: "regex_engine \<Rightarrow> dict \<Rightarrow> action_contract result" where
  "compile_action_contract_snapshot re snapshot =
     rbind (raise_if (\<not> py_eq (get_val snapshot ''contractVersion'') (PInt 3))
        (ValidationFailed ''stored action contract must use canonical contractVersion 3'')) (\<lambda>_.
     case plain_int (get_val snapshot ''sourceVersion'') of
       Some n \<Rightarrow> if n \<in> {1, 2, 3} then compile_action_contract re (dput ''contractVersion'' (PInt n) snapshot)
         else Inl (ValidationFailed ''stored action contract has an invalid sourceVersion'')
     | None \<Rightarrow> Inl (ValidationFailed ''stored action contract has an invalid sourceVersion''))"

definition function_payload :: "action_function_ref option \<Rightarrow> pyval" where
  "function_payload func = (case func of
       None \<Rightarrow> PNone
     | Some f \<Rightarrow> PDict [(''apiName'', PStr (fr_api_name f)), (''version'', PStr (fr_version f)),
         (''executionMode'', PStr (fr_execution_mode f)), (''batchInputName'', optional_text_payload (fr_batch_input_name f)),
         (''maxBatchSize'', PInt (fr_max_batch_size f))])"

definition contract_inline_eligibility :: "action_contract \<Rightarrow> dict" where
  "contract_inline_eligibility c = action_inline_eligibility (at_kind (ac_target c)) (at_api_name (ac_target c))
     (parameter_types (ac_parameters c)) (ac_rules c) (ac_function c \<noteq> None) (length (ac_effects c))"

definition action_contract_payload :: "action_contract \<Rightarrow> dict" where
  "action_contract_payload c =
     [(''contractVersion'', PInt 3), (''sourceVersion'', ac_source_version c), (''apiName'', PStr (ac_api_name c)),
      (''displayName'', PStr (ac_display_name c)), (''description'', optional_text_payload (ac_description c)),
      (''target'', PDict [(''kind'', PStr (at_kind (ac_target c))), (''apiName'', PStr (at_api_name (ac_target c)))]),
      (''parameters'', PList (map (PDict \<circ> parameter_payload) (ac_parameters c))),
      (''rules'', PList (map PDict (ac_rules c))), (''function'', function_payload (ac_function c)),
      (''submissionCriteria'', nonempty_dict_payload (ac_submission_criteria c)), (''permissions'', PDict (ac_permissions c)),
      (''effects'', PList (map (PDict \<circ> action_effect_payload) (ac_effects c))), (''riskLevel'', PStr (ac_risk_level c)),
      (''agentExecutionPolicy'', PStr (ac_agent_execution_policy c)),
      (''agentToolDescription'', optional_text_payload (ac_agent_tool_description c)),
      (''actionLog'', PDict (ac_log_policy c)), (''revert'', PDict (ac_revert_policy c)),
      (''branchPolicy'', PDict (ac_branch_policy c)), (''formLayout'', PDict (action_form_layout_payload (ac_form_layout c))),
      (''inlineEligibility'', PDict (contract_inline_eligibility c))]"

definition action_contract_uses_webhook_response :: "action_contract \<Rightarrow> bool result" where
  "action_contract_uses_webhook_response c = rbind (webhook_response_fields (ac_rules c)) (\<lambda>fs. Inr (fs \<noteq> {}))"

text \<open>\<open>digest\<close> is the hexadecimal SHA-256 digest of a text.\<close>

definition action_contract_fingerprint :: "(string \<Rightarrow> string) \<Rightarrow> action_contract \<Rightarrow> string" where
  "action_contract_fingerprint digest c = ''sha256:'' @ digest (json_dumps (PDict (action_contract_payload c)))"

definition action_parameter_json_schema :: "(string \<Rightarrow> string) \<Rightarrow> regex_engine \<Rightarrow> action_contract \<Rightarrow> dict result" where
  "action_parameter_json_schema digest re c =
     rbind (map_result (\<lambda>p. rbind (parameter_schema re p) (\<lambda>schema. Inr (ap_api_name p, PDict schema))) (ac_parameters c)) (\<lambda>properties.
     Inr [(''$schema'', PStr ''https://json-schema.org/draft/2020-12/schema''), (''type'', PStr ''object''),
       (''additionalProperties'', PBool False), (''properties'', PDict properties),
       (''required'', PList (map (PStr \<circ> ap_api_name) (filter ap_required (ac_parameters c)))),
       (''x-foundry-action'', PStr (ac_api_name c)),
       (''x-foundry-contract-fingerprint'', PStr (action_contract_fingerprint digest c)),
       (''x-foundry-form-layout'', PDict (action_form_layout_payload (ac_form_layout c))),
       (''x-foundry-inline-eligibility'', PDict (contract_inline_eligibility c))])"

section \<open>A compiled parameter is a fixed point\<close>

text \<open>The checks of a parameter read the parameter only, not the raw field it comes from.\<close>

definition check_parameter :: "regex_engine \<Rightarrow> action_parameter \<Rightarrow> unit result" where
  "check_parameter re p =
     rbind (validate_action_parameter_constraints (ap_data_type p) (ap_constraints p)) (\<lambda>_.
     rbind (if ap_data_type p \<in> {''array'', ''objectSet''}
        then rbind (array_item_type (ap_metadata p)) (\<lambda>t.
          rbind (base_parameter_schema re t (without_keys [''itemType''] (ap_metadata p))) (\<lambda>_. Inr ()))
        else Inr ()) (\<lambda>_.
     rbind (if ap_data_type p = ''struct'' then rbind (struct_fields re (ap_metadata p)) (\<lambda>_. Inr ()) else Inr ()) (\<lambda>_.
     rbind (validate_media_parameter_shape (ap_data_type p) (ap_metadata p)) (\<lambda>_.
     validate_enum_parameter_types p))))"

lemma read_parameter_metadata: "read_parameter re raw = Inr p \<Longrightarrow> ap_metadata p = without_keys parameter_fields raw"
  by (auto simp: read_parameter_def elim!: rbind_InrE)

lemma compile_parameter_eq:
  "compile_parameter re raw = rbind (read_parameter re raw) (\<lambda>p. rbind (check_parameter re p) (\<lambda>_. Inr p))"
proof (cases "read_parameter re raw")
  case (Inr p)
  from read_parameter_metadata [OF this] show ?thesis
    unfolding compile_parameter.simps [of re raw] check_parameter_def Inr rbind_Inr by (simp add: rbind_assoc)
qed (simp add: compile_parameter.simps)

definition override_ok :: "regex_engine \<Rightarrow> string \<Rightarrow> parameter_override \<Rightarrow> bool" where
  "override_ok re t ov \<longleftrightarrow> validate_action_condition re (po_when ov) = Inr () \<and> validate_override_config (po_config ov) t = Inr ()"

definition parameter_ok :: "regex_engine \<Rightarrow> action_parameter \<Rightarrow> bool" where
  "parameter_ok re p \<longleftrightarrow> ap_api_name p \<noteq> [] \<and> ap_data_type p \<noteq> [] \<and> ap_data_type p \<in> set action_parameter_types
     \<and> ap_description p \<noteq> Some [] \<and> (\<forall>ov \<in> set (ap_overrides p). override_ok re (ap_data_type p) ov)
     \<and> distinct (dkeys (ap_metadata p)) \<and> set (dkeys (ap_metadata p)) \<inter> set parameter_fields = {}"

lemma contract_mapping_Inr [simp]: "contract_mapping f v = Inr d \<longleftrightarrow> v = PDict d"
  by (cases v) (auto simp: contract_mapping_def)

lemma contract_text_Inr: "contract_text d k = Inr t \<longleftrightarrow> get_val d k = PStr t \<and> t \<noteq> []"
  by (cases "get_val d k") (auto simp: contract_text_def split: option.splits)

lemma contract_optional_text_payload: "t \<noteq> Some [] \<Longrightarrow> contract_optional_text (optional_text_payload t) = Inr t"
  by (cases t) (auto simp: contract_optional_text_def optional_text_payload_def)

lemma contract_optional_text_Inr: "contract_optional_text raw = Inr t \<Longrightarrow> t \<noteq> Some []"
  by (auto simp: contract_optional_text_def split: pyval.splits if_splits)

lemma compile_override_ok: "compile_override re t item = Inr ov \<Longrightarrow> override_ok re t ov"
  by (auto simp: compile_override_def override_ok_def elim!: rbind_InrE)

lemma compile_override_payload: "override_ok re t ov \<Longrightarrow> compile_override re t (PDict (override_payload ov)) = Inr ov"
  by (simp add: compile_override_def override_payload_def contract_mapping_def override_ok_def)

lemma compile_overrides_payload:
  "\<forall>ov \<in> set ovs. override_ok re t ov \<Longrightarrow> compile_overrides re (PList (map (PDict \<circ> override_payload) ovs)) t = Inr ovs"
  unfolding compile_overrides_def contract_sequence_def by (induction ovs) (simp_all add: compile_override_payload)

lemma without_keys_dkeys: "set (dkeys (without_keys ks d)) \<inter> set ks = {}"
  by (auto simp: without_keys_def dkeys_def)

lemma without_keys_distinct: "distinct (map fst d) \<Longrightarrow> distinct (dkeys (without_keys ks d))"
  by (induction d) (auto simp: without_keys_def dkeys_def)

lemma read_parameter_ok:
  assumes "read_parameter re raw = Inr p" "distinct (map fst raw)"
  shows "parameter_ok re p"
proof -
  have "override_ok re t ov" if "compile_overrides re v t = Inr ovs" "ov \<in> set ovs" for v t ovs ov
    using that map_result_item compile_override_ok unfolding compile_overrides_def by (metis rbind_InrE)
  with assms show ?thesis
    unfolding parameter_ok_def read_parameter_def
    using without_keys_dkeys [of parameter_fields raw]
    by (auto simp: contract_text_Inr without_keys_distinct dest: contract_optional_text_Inr elim!: rbind_InrE)
qed

lemma parameter_payload_append:
  assumes "parameter_ok re p"
  shows "parameter_payload p =
     [(''apiName'', PStr (ap_api_name p)), (''type'', PStr (ap_data_type p)), (''required'', PBool (ap_required p)),
      (''description'', optional_text_payload (ap_description p)), (''default'', nonempty_dict_payload (ap_default p)),
      (''constraints'', PDict (ap_constraints p)),
      (''overrides'', PList (map (PDict \<circ> override_payload) (ap_overrides p)))] @ ap_metadata p"
  unfolding parameter_payload_def
proof (rule dupdate_fresh)
  show "distinct (dkeys ([(''apiName'', PStr (ap_api_name p)), (''type'', PStr (ap_data_type p)), (''required'', PBool (ap_required p)),
      (''description'', optional_text_payload (ap_description p)), (''default'', nonempty_dict_payload (ap_default p)),
      (''constraints'', PDict (ap_constraints p)),
      (''overrides'', PList (map (PDict \<circ> override_payload) (ap_overrides p)))] @ ap_metadata p))"
    using assms by (auto simp: parameter_ok_def parameter_fields_def)
qed

lemma without_keys_disjoint: "set (dkeys d) \<inter> set ks = {} \<Longrightarrow> without_keys ks d = d"
  by (induction d) (auto simp: without_keys_def)

lemma compile_parameter_payload:
  assumes compiled: "compile_parameter re raw = Inr p" and wf: "distinct (map fst raw)" and dflt: "ap_default p \<noteq> Some []"
  shows "compile_parameter re (parameter_payload p) = Inr p"
proof -
  from compiled have read: "read_parameter re raw = Inr p" and check: "check_parameter re p = Inr ()"
    by (auto simp: compile_parameter_eq elim!: rbind_InrE)
  from read_parameter_ok [OF read wf] have ok: "parameter_ok re p" .
  note payload = parameter_payload_append [OF ok]
  have metadata: "without_keys parameter_fields (parameter_payload p) = ap_metadata p"
    using ok without_keys_disjoint [of "ap_metadata p" parameter_fields]
    by (simp add: payload parameter_ok_def) (simp add: without_keys_def parameter_fields_def)
  have overrides: "compile_overrides re (PList (map (PDict \<circ> override_payload) (ap_overrides p))) (ap_data_type p) = Inr (ap_overrides p)"
    using ok by (intro compile_overrides_payload) (simp add: parameter_ok_def)
  have descr: "contract_optional_text (optional_text_payload (ap_description p)) = Inr (ap_description p)"
    using ok by (intro contract_optional_text_payload) (simp add: parameter_ok_def)
  have default: "contract_optional_mapping (nonempty_dict_payload (ap_default p)) = Inr (ap_default p)"
    using dflt by (auto simp: contract_optional_mapping_def nonempty_dict_payload_def contract_mapping_def split: option.splits list.splits)
  have "read_parameter re (parameter_payload p) = Inr p"
    using ok unfolding read_parameter_def metadata
    by (simp add: payload parameter_ok_def contract_text_def contract_optional_bool_def contract_mapping_or_empty_def overrides descr default)
  with check show ?thesis by (simp add: compile_parameter_eq)
qed

section \<open>The stored contract\<close>

lemma validate_default_Nil: "validate_default p [] available constraints \<noteq> Inr ()"
  by (simp add: validate_default_def in_names_def validate_reference_default_def default_fields_def)

lemma validate_parameter_order_from_default:
  "validate_parameter_order_from available available_types ps = Inr () \<Longrightarrow> p \<in> set ps \<Longrightarrow> \<exists>a. validate_default_order p a = Inr ()"
  by (induction ps arbitrary: available available_types) (auto elim!: rbind_InrE)

lemma ordered_default_nonempty: "validate_parameter_order ps = Inr () \<Longrightarrow> p \<in> set ps \<Longrightarrow> ap_default p \<noteq> Some []"
  using validate_parameter_order_from_default [of "{}" "[]" ps p]
  by (auto simp: validate_parameter_order_def validate_default_order_def validate_default_Nil)

lemma validate_condition_Nil: "validate_action_condition re [] \<noteq> Inr ()"
  by (simp add: validate_action_condition.simps [of re "[]"] condition_node_kind_def has_key_def)

lemma compile_parameters_Inr:
  assumes "compile_parameters re raw = Inr ps" "p \<in> set ps" "wf_val raw"
  shows "\<exists>d. compile_parameter re d = Inr p \<and> wf_val (PDict d)"
proof -
  from assms(1) obtain items where items: "contract_sequence ''parameters'' raw = Inr items"
    and run: "map_result (\<lambda>item. rbind (contract_mapping ''parameter'' item) (compile_parameter re)) items = Inr ps"
    by (auto simp: compile_parameters_def elim!: rbind_InrE)
  from map_result_item [OF run assms(2)] obtain d where d: "PDict d \<in> set items" "compile_parameter re d = Inr p"
    by (auto elim!: rbind_InrE)
  have "\<forall>x \<in> set items. wf_val x" using items assms(3) by (auto simp: contract_sequence_def split: pyval.splits)
  with d(1) have "wf_val (PDict d)" by blast
  with d(2) show ?thesis by blast
qed

lemma compile_parameters_names: "compile_parameters re raw = Inr ps \<Longrightarrow> distinct (map ap_api_name ps)"
  by (auto simp: compile_parameters_def elim!: rbind_InrE)

lemma compile_parameters_payload:
  assumes "distinct (map ap_api_name ps)" "\<forall>p \<in> set ps. compile_parameter re (parameter_payload p) = Inr p"
  shows "compile_parameters re (PList (map (PDict \<circ> parameter_payload) ps)) = Inr ps"
proof -
  have "map_result (\<lambda>item. rbind (contract_mapping ''parameter'' item) (compile_parameter re)) (map (PDict \<circ> parameter_payload) ps) = Inr ps"
    using assms(2) by (induction ps) (simp_all add: contract_mapping_def)
  then show ?thesis using assms(1) by (simp add: compile_parameters_def contract_sequence_def)
qed

lemma contract_target_payload:
  assumes "contract_target def = Inr t"
  shows "target_kind (PStr (at_kind t)) = Inr (at_kind t)" "at_api_name t \<noteq> []"
proof -
  have kind: "target_kind (PStr k) = Inr k" if "target_kind raw = Inr k" for raw k
    using that by (auto simp: target_kind_def Let_def split: if_splits)
  have first: "first_object_type rules \<noteq> Inr (Some [])" for rules
    by (induction rules) (auto elim!: rbind_InrE split: option.splits)
  have legacy: "target_kind (PStr (at_kind t)) = Inr (at_kind t) \<and> at_api_name t \<noteq> []" if "legacy_target def = Inr t"
    using that first by (auto simp: legacy_target_def target_kind_def elim!: rbind_InrE split: if_splits option.splits)
  from assms show "target_kind (PStr (at_kind t)) = Inr (at_kind t)" "at_api_name t \<noteq> []"
    using legacy kind by (auto simp: contract_target_def contract_text_Inr elim!: rbind_InrE split: pyval.splits if_splits)
qed

lemma contract_rules_payload: "map_result (contract_mapping f) (map PDict rules) = Inr rules"
  by (induction rules) (simp_all add: contract_mapping_def)

lemma contract_enum_Inr: "contract_enum raw allowed d = Inr v \<Longrightarrow> v \<in> set allowed"
  by (auto simp: contract_enum_def Let_def split: if_splits)

lemma contract_enum_text: "v \<in> set allowed \<Longrightarrow> v \<noteq> [] \<Longrightarrow> contract_enum (PStr v) allowed d = Inr v"
  by (simp add: contract_enum_def)

lemma bounded_positive_int_Inr: "bounded_positive_int raw d m = Inr n \<Longrightarrow> 1 \<le> n \<and> n \<le> m"
  by (auto simp: bounded_positive_int_def split: option.splits if_splits)

lemma contract_function_payload:
  assumes "contract_function raw = Inr func"
  shows "contract_function (function_payload func) = Inr func"
proof (cases func)
  case None
  then show ?thesis by (simp add: function_payload_def contract_function_def)
next
  case (Some f)
  have parts: "fr_execution_mode f \<in> set action_function_execution_modes" "fr_batch_input_name f \<noteq> Some []"
    "\<not> (fr_execution_mode f = ''batched'' \<and> fr_batch_input_name f = None)"
    "\<not> (fr_execution_mode f = ''per_request'' \<and> fr_batch_input_name f \<noteq> None)"
    "1 \<le> fr_max_batch_size f \<and> fr_max_batch_size f \<le> (if fr_execution_mode f = ''batched'' then action_function_batch_limit
       else action_function_per_request_batch_limit)" "fr_api_name f \<noteq> []" "fr_version f \<noteq> []"
    using assms unfolding Some contract_function_def Let_def
    by (auto simp: contract_text_Inr dest!: contract_enum_Inr bounded_positive_int_Inr contract_optional_text_Inr
        elim!: rbind_InrE split: if_splits)
  then have "fr_execution_mode f \<noteq> []" by (auto simp: action_function_execution_modes_def)
  with parts show ?thesis
    by (cases "fr_batch_input_name f") (auto simp: Some raise_if_def function_payload_def contract_function_def contract_mapping_def contract_enum_text Let_def
        contract_optional_text_payload contract_text_def bounded_positive_int_def)
qed

lemma contract_criteria_payload:
  assumes "contract_criteria re raw ps = Inr criteria"
  shows "contract_criteria re (nonempty_dict_payload criteria) ps = Inr criteria"
proof (cases criteria)
  case None
  then show ?thesis by (simp add: contract_criteria_def nonempty_dict_payload_def contract_optional_mapping_def)
next
  case (Some c)
  then have checks: "validate_action_condition re c = Inr ()" "validate_submission_criteria_references c ps = Inr ()"
    "validate_action_condition_parameter_literals c (parameter_types ps) = Inr ()"
    using assms by (auto simp: contract_criteria_def elim!: rbind_InrE split: option.splits)
  moreover from this have "c \<noteq> []" using validate_condition_Nil by metis
  ultimately show ?thesis
    by (cases c) (simp_all add: Some contract_criteria_def nonempty_dict_payload_def contract_optional_mapping_def contract_mapping_def)
qed

lemma compile_effects_payload:
  assumes "compile_action_effects def = Inr effects" "has_key d ''effects''"
    "get_val d ''effects'' = PList (map (PDict \<circ> action_effect_payload) effects)"
  shows "compile_action_effects d = Inr effects"
proof -
  have "enumerate_result compile_effect i (map (PDict \<circ> action_effect_payload) es) = Inr es"
    if "\<forall>e \<in> set es. effect_ok e" for es i
    using that by (induction es arbitrary: i) (simp_all add: compile_effect_payload)
  moreover have "\<forall>e \<in> set effects. effect_ok e" using compile_action_effects_ok [OF assms(1)] by blast
  moreover have "validate_effect_set effects = Inr ()"
    using assms(1) by (auto simp: compile_action_effects_def elim!: rbind_InrE)
  ultimately show ?thesis using assms(2,3) by (simp add: compile_action_effects_def effect_sequence_def)
qed

text \<open>What compilation of any definition gives the contract.\<close>

definition contract_ok :: "regex_engine \<Rightarrow> action_contract \<Rightarrow> bool" where
  "contract_ok re c \<longleftrightarrow> ac_api_name c \<noteq> [] \<and> ac_display_name c \<noteq> []
     \<and> target_kind (PStr (at_kind (ac_target c))) = Inr (at_kind (ac_target c)) \<and> at_api_name (ac_target c) \<noteq> []
     \<and> compile_parameters re (PList (map (PDict \<circ> parameter_payload) (ac_parameters c))) = Inr (ac_parameters c)
     \<and> validate_parameter_order (ac_parameters c) = Inr ()
     \<and> contract_function (function_payload (ac_function c)) = Inr (ac_function c)
     \<and> \<not> (ac_function c \<noteq> None \<and> ac_rules c \<noteq> [])
     \<and> contract_criteria re (nonempty_dict_payload (ac_submission_criteria c)) (ac_parameters c) = Inr (ac_submission_criteria c)
     \<and> contract_enum (PStr (ac_risk_level c)) action_risk_levels ''high'' = Inr (ac_risk_level c)
     \<and> contract_enum (PStr (ac_agent_execution_policy c)) agent_execution_policies ''approval_required'' = Inr (ac_agent_execution_policy c)
     \<and> (\<exists>def. compile_action_effects def = Inr (ac_effects c))
     \<and> layout_ok re (ac_form_layout c) (map ap_api_name (ac_parameters c))
     \<and> validate_effect_contract (ac_effects c) (ac_rules c) (ac_source_version c) = Inr ()
     \<and> ac_description c \<noteq> Some [] \<and> ac_agent_tool_description c \<noteq> Some []
     \<and> compile_action_permissions (PDict (ac_permissions c)) = Inr (ac_permissions c)
     \<and> int_like (ac_source_version c) \<in> {Some 1, Some 2, Some 3}"

lemma compile_contract_parameters:
  assumes "compile_parameters re raw = Inr ps" "validate_parameter_order ps = Inr ()" "wf_val raw"
  shows "compile_parameters re (PList (map (PDict \<circ> parameter_payload) ps)) = Inr ps"
proof (rule compile_parameters_payload [OF compile_parameters_names [OF assms(1)]])
  show "\<forall>p \<in> set ps. compile_parameter re (parameter_payload p) = Inr p"
  proof
    fix p assume p: "p \<in> set ps"
    from compile_parameters_Inr [OF assms(1) p assms(3)] obtain d where
      "compile_parameter re d = Inr p" "distinct (map fst d)" by auto
    with ordered_default_nonempty [OF assms(2) p] show "compile_parameter re (parameter_payload p) = Inr p"
      by (intro compile_parameter_payload)
  qed
qed

lemma compile_parameter_name: "compile_parameter re raw = Inr p \<Longrightarrow> ap_api_name p \<noteq> []"
  by (auto simp: compile_parameter_eq read_parameter_def contract_text_Inr elim!: rbind_InrE)

lemma enum_levels [simp]: "[] \<notin> set action_risk_levels" "[] \<notin> set agent_execution_policies"
  by (simp_all add: action_risk_levels_def agent_execution_policies_def)

lemma contract_enum_again: "contract_enum raw allowed d = Inr v \<Longrightarrow> [] \<notin> set allowed \<Longrightarrow> contract_enum (PStr v) allowed d = Inr v"
  by (metis contract_enum_Inr contract_enum_text)

lemma wf_val_get: "wf_val (PDict d) \<Longrightarrow> wf_val v \<Longrightarrow> wf_val (get_or v d k)"
  by (induction d) auto

lemma compile_action_contract_ok:
  assumes compiled: "compile_action_contract re def = Inr c" and wf: "wf_val (PDict def)"
  shows "contract_ok re c"
proof -
  from compiled obtain display where parts:
    "contract_text def ''apiName'' = Inr (ac_api_name c)" "contract_target def = Inr (ac_target c)"
    "compile_parameters re (get_or (PList []) def ''parameters'') = Inr (ac_parameters c)"
    "validate_parameter_order (ac_parameters c) = Inr ()" "contract_function (get_val def ''function'') = Inr (ac_function c)"
    "\<not> (ac_function c \<noteq> None \<and> ac_rules c \<noteq> [])"
    "contract_criteria re (get_val def ''submissionCriteria'') (ac_parameters c) = Inr (ac_submission_criteria c)"
    "contract_enum (get_val def ''riskLevel'') action_risk_levels ''high'' = Inr (ac_risk_level c)"
    "contract_enum (get_val def ''agentExecutionPolicy'') agent_execution_policies ''approval_required'' = Inr (ac_agent_execution_policy c)"
    "compile_action_effects def = Inr (ac_effects c)"
    "compile_action_form_layout re (get_val def ''formLayout'') (map ap_api_name (ac_parameters c)) = Inr (ac_form_layout c)"
    "contract_source_version def = Inr (ac_source_version c)"
    "validate_effect_contract (ac_effects c) (ac_rules c) (ac_source_version c) = Inr ()"
    "contract_optional_text (get_val def ''displayName'') = Inr display"
    "ac_display_name c = (case display of Some s \<Rightarrow> s | None \<Rightarrow> ac_api_name c)"
    "contract_optional_text (get_val def ''description'') = Inr (ac_description c)"
    "compile_action_permissions (get_val def ''permissions'') = Inr (ac_permissions c)"
    "contract_optional_text (get_val def ''agentToolDescription'') = Inr (ac_agent_tool_description c)"
    unfolding compile_action_contract_def rbind_eq_Inr raise_if_Inr
    by - (elim exE conjE, drule Inr_inject, hypsubst, simp split: option.split)
  have raw: "wf_val (get_or (PList []) def ''parameters'')" using wf by (rule wf_val_get) simp
  have names: "distinct (map ap_api_name (ac_parameters c))" using parts(3) by (rule compile_parameters_names)
  have nonempty: "[] \<notin> set (map ap_api_name (ac_parameters c))"
    using compile_parameters_Inr [OF parts(3) _ raw] compile_parameter_name by fastforce
  have version: "int_like (ac_source_version c) \<in> {Some 1, Some 2, Some 3}"
    using parts(12) by (auto simp: contract_source_version_def Let_def split: option.splits if_splits)
  have display: "ac_display_name c \<noteq> []"
    using parts(1) contract_optional_text_Inr [OF parts(14)] unfolding parts(15) by (auto simp: contract_text_Inr split: option.splits)
  show ?thesis
    unfolding contract_ok_def
    using parts(4,6,10,13) contract_target_payload [OF parts(2)] compile_contract_parameters [OF parts(3,4) raw] names nonempty
      contract_function_payload [OF parts(5)] contract_criteria_payload [OF parts(7)] version display
      contract_enum_again [OF parts(8)] contract_enum_again [OF parts(9)]
      compile_action_form_layout_ok [OF parts(11) names nonempty] contract_optional_text_Inr [OF parts(16)]
      contract_optional_text_Inr [OF parts(18)] compile_action_permissions_again [OF parts(17)] parts(1)
    by (auto simp: contract_text_Inr)
qed

lemma compile_action_contract_payload:
  assumes ok: "contract_ok re c" and ids: "distinct (map fs_section_id (ac_form_layout c))"
    and version: "ac_source_version c = PInt n" "n \<in> {1, 2, 3}"
  shows "compile_action_contract re (dput ''contractVersion'' (PInt n) (action_contract_payload c)) = Inr c"
proof -
  let ?P = "dput ''contractVersion'' (PInt n) (action_contract_payload c)"
  have get: "get_or v ?P k = (if k = ''contractVersion'' then PInt n else get_or v (action_contract_payload c) k)" for v k
    by (simp add: get_or_def)
  have layout: "compile_action_form_layout re (PDict (action_form_layout_payload (ac_form_layout c))) (map ap_api_name (ac_parameters c)) = Inr (ac_form_layout c)"
    using ok ids by (intro compile_action_form_layout_again) (simp_all add: contract_ok_def)
  have effects: "compile_action_effects ?P = Inr (ac_effects c)"
    using ok by (auto simp: contract_ok_def get action_contract_payload_def has_key_def intro: compile_effects_payload)
  have target: "contract_target ?P = Inr (ac_target c)"
    using ok by (simp add: contract_target_def get action_contract_payload_def contract_text_def contract_ok_def)
  have rules: "contract_rules ?P = Inr (ac_rules c)"
    by (simp add: contract_rules_def get action_contract_payload_def contract_sequence_def contract_rules_payload)
  have source: "contract_source_version ?P = Inr (ac_source_version c)"
    using version by (auto simp: contract_source_version_def get)
  have texts: "contract_text ?P ''apiName'' = Inr (ac_api_name c)"
    "contract_optional_text (optional_text_payload (ac_description c)) = Inr (ac_description c)"
    "contract_optional_text (optional_text_payload (ac_agent_tool_description c)) = Inr (ac_agent_tool_description c)"
    using ok by (simp_all add: contract_ok_def contract_text_def get action_contract_payload_def contract_optional_text_payload)
  have display: "contract_optional_text (PStr (ac_display_name c)) = Inr (Some (ac_display_name c))"
    using ok by (simp add: contract_ok_def contract_optional_text_def)
  note parts = ok [unfolded contract_ok_def]
  have fields: "get_or v ?P ''parameters'' = PList (map (PDict \<circ> parameter_payload) (ac_parameters c))"
    "get_val ?P ''function'' = function_payload (ac_function c)"
    "get_val ?P ''submissionCriteria'' = nonempty_dict_payload (ac_submission_criteria c)"
    "get_val ?P ''riskLevel'' = PStr (ac_risk_level c)" "get_val ?P ''agentExecutionPolicy'' = PStr (ac_agent_execution_policy c)"
    "get_val ?P ''formLayout'' = PDict (action_form_layout_payload (ac_form_layout c))"
    "get_val ?P ''displayName'' = PStr (ac_display_name c)" "get_val ?P ''description'' = optional_text_payload (ac_description c)"
    "get_val ?P ''permissions'' = PDict (ac_permissions c)"
    "get_val ?P ''agentToolDescription'' = optional_text_payload (ac_agent_tool_description c)"
    "get_val ?P ''actionLog'' = PDict (ac_log_policy c)" "get_val ?P ''revert'' = PDict (ac_revert_policy c)"
    "get_val ?P ''branchPolicy'' = PDict (ac_branch_policy c)" for v
    unfolding get by (simp_all add: action_contract_payload_def)
  show ?thesis
    unfolding compile_action_contract_def fields texts display target effects rules source
    using parts by (simp add: layout contract_mapping_or_empty_def raise_if_def)
qed

section \<open>Properties\<close>

text \<open>
  C21. A stored contract is restored unchanged: whatever definition a contract was compiled from, of any
  version, restoring its canonical payload gives exactly that contract, as long as its form sections
  have distinct identifiers and its source version is a number rather than a boolean.
\<close>

theorem contract_snapshot_roundtrip:
  assumes "compile_action_contract re def = Inr c" "wf_val (PDict def)"
    and "distinct (map fs_section_id (ac_form_layout c))" "\<forall>b. ac_source_version c \<noteq> PBool b"
  shows "compile_action_contract_snapshot re (action_contract_payload c) = Inr c"
proof -
  have ok: "contract_ok re c" using assms(1,2) by (rule compile_action_contract_ok)
  then obtain n where n: "ac_source_version c = PInt n" "n \<in> {1, 2, 3}"
    using assms(4) by (cases "ac_source_version c") (auto simp: contract_ok_def)
  have "py_eq (PInt 3) (PInt 3)" by code_simp
  with n compile_action_contract_payload [OF ok assms(3) n] show ?thesis
    by (simp add: compile_action_contract_snapshot_def action_contract_payload_def)
qed

definition sample_definition :: dict where
  "sample_definition = [(''apiName'', PStr ''resolve''), (''contractVersion'', PInt 3), (''target'', PStr ''Ticket''),
     (''parameters'', PList
       [PDict [(''apiName'', PStr ''state''), (''type'', PStr ''string''), (''required'', PBool True),
          (''constraints'', PDict [(''enum'', PList [PStr ''open'', PStr ''closed''])]),
          (''default'', PDict [(''kind'', PStr ''literal''), (''value'', PStr ''closed'')])],
        PDict [(''apiName'', PStr ''tags''), (''type'', PStr ''array''), (''itemType'', PStr ''string''),
          (''overrides'', PList [PDict
            [(''when'', PDict [(''op'', PStr ''eq''),
               (''left'', PDict [(''kind'', PStr ''parameter''), (''parameter'', PStr ''state'')]),
               (''right'', PDict [(''kind'', PStr ''literal''), (''value'', PStr ''open'')])]),
             (''config'', PDict [(''required'', PBool True)])]])]]),
     (''rules'', PList [PDict [(''kind'', PStr ''modifyObject''), (''objectType'', PStr ''Ticket'')]]),
     (''permissions'', PDict [(''allowedRoles'', PList [PStr '' editor '', PStr ''admin''])])]"

lemma sample_definition_compiles:
  "case compile_action_contract sample_engine sample_definition of Inl e \<Rightarrow> False
   | Inr c \<Rightarrow> distinct (map fs_section_id (ac_form_layout c)) \<and> ac_source_version c = PInt 3 \<and> length (ac_parameters c) = 2"
  by code_simp

theorem contract_snapshot_roundtrip_witness:
  "\<exists>c. compile_action_contract sample_engine sample_definition = Inr c \<and> length (ac_parameters c) = 2
     \<and> compile_action_contract_snapshot sample_engine (action_contract_payload c) = Inr c"
proof -
  obtain c where c: "compile_action_contract sample_engine sample_definition = Inr c" "distinct (map fs_section_id (ac_form_layout c))"
    "ac_source_version c = PInt 3" "length (ac_parameters c) = 2"
    using sample_definition_compiles by (auto split: sum.splits)
  moreover have "wf_val (PDict sample_definition)" by code_simp
  ultimately show ?thesis using contract_snapshot_roundtrip [OF c(1) _ c(2)] by simp
qed

section \<open>Definitions that are accepted and should not be\<close>

text \<open>A boolean contract version is accepted and stored, and the stored contract is refused.\<close>

lemma boolean_version_not_restored:
  "case compile_action_contract sample_engine [(''apiName'', PStr ''a''), (''contractVersion'', PBool True)] of Inl e \<Rightarrow> False
   | Inr c \<Rightarrow> compile_action_contract_snapshot sample_engine (action_contract_payload c)
       = Inl (ValidationFailed ''stored action contract has an invalid sourceVersion'')"
  by code_simp

text \<open>An array without an item type compiles, with the schema of an array of texts, and matches no value.\<close>

lemma untyped_array_matches_nothing:
  "case compile_parameter sample_engine [(''apiName'', PStr ''tags''), (''type'', PStr ''array'')] of Inl e \<Rightarrow> False
   | Inr p \<Rightarrow> parameter_schema sample_engine p = Inr [(''type'', PStr ''array''), (''items'', PDict [(''type'', PStr ''string'')]),
         (''uniqueItems'', PBool False), (''x-foundry-parameter-config'', PDict (parameter_payload p))]
       \<and> matches_action_parameter_shape (ap_data_type p) (ap_metadata p) (PList [PStr ''a'']) = Inr False"
  by code_simp

text \<open>A default whose kind is a list raises \<^verbatim>\<open>TypeError\<close>.\<close>

lemma unhashable_default_kind_raises:
  "validate_default p [(''kind'', PList [])] available constraints = Inl TypeError"
  by (simp add: validate_default_def default_fields_def in_names_def)

end
