(* ===== verification/Action_Parameters.thy ===== *)
theory Action_Parameters
  imports Action_Contract
begin

text \<open>
  \<^verbatim>\<open>domain/action_runtime/action_parameters.py\<close>: the parameters of a submitted action are resolved in
  declaration order against the compiled contract. The identifier generator of the runtime is a parameter
  that may read and change the world \<open>'w\<close>, and the clock is given as the two texts the code prints. Shown:
  resolved values are declared, well typed and within the effective constraints, the effective
  configuration is the one the final values give, and resolution of a compiled contract only fails as a
  validation error or with an error of the generator.
\<close>

section \<open>Contexts and configurations\<close>

record parameter_config =
  rc_required :: bool
  rc_is_visible :: bool
  rc_is_editable :: bool
  rc_constraints :: dict
  rc_default :: "dict option"
  rc_matched_override :: "nat option"

type_synonym parameter_configs = "(string \<times> parameter_config) list"

text \<open>\<open>px_now_date\<close> is \<^verbatim>\<open>now.date().isoformat()\<close> and \<open>px_now\<close> is \<^verbatim>\<open>now.isoformat()\<close>.\<close>

record parameter_context =
  px_submitted :: dict
  px_object_properties :: dict
  px_actor_user_id :: string
  px_actor_groups :: "string list"
  px_actor_attributes :: dict
  px_now_date :: string
  px_now :: string

text \<open>\<^verbatim>\<open>s.replace(old, new)\<close> for a non-empty \<^verbatim>\<open>old\<close>.\<close>

function text_replace :: "string \<Rightarrow> string \<Rightarrow> string \<Rightarrow> string" where
  "text_replace old new s = (case s of
       [] \<Rightarrow> []
     | c # t \<Rightarrow> if old \<noteq> [] \<and> starts_with s old then new @ text_replace old new (drop (length old) s)
         else c # text_replace old new t)"
  by pat_completeness auto
termination by (relation "measure (\<lambda>(_, _, s). length s)") auto

declare text_replace.simps [simp del]

definition parameter_config_payload :: "parameter_config \<Rightarrow> dict" where
  "parameter_config_payload config =
     [(''required'', PBool (rc_required config)), (''visible'', PBool (rc_is_visible config)),
      (''editable'', PBool (rc_is_editable config)), (''constraints'', PDict (rc_constraints config)),
      (''default'', nonempty_dict_payload (rc_default config)),
      (''matchedOverride'', case rc_matched_override config of None \<Rightarrow> PNone | Some i \<Rightarrow> PInt (int i))]"

definition parameter_condition_context :: "dict \<Rightarrow> parameter_context \<Rightarrow> (string \<times> string) list \<Rightarrow> condition_context" where
  "parameter_condition_context vs ctx types =
     \<lparr>cc_parameters = vs, cc_object_properties = px_object_properties ctx, cc_actor_user_id = px_actor_user_id ctx,
      cc_actor_groups = px_actor_groups ctx, cc_actor_attributes = px_actor_attributes ctx,
      cc_linked_object_properties = [], cc_parameter_types = types, cc_object_property_types = [],
      cc_linked_object_property_types = []\<rparr>"

definition merge_config :: "dict \<Rightarrow> dict \<Rightarrow> dict result" where
  "merge_config base override_config =
     rbind (raise_if (\<exists>k \<in> set (dkeys override_config). k \<notin> {''required'', ''visible'', ''editable'', ''constraints'', ''default''})
        (ValidationFailed ''unsupported parameter override config'')) (\<lambda>_.
     Inr (dupdate base override_config))"

definition bool_config :: "dict \<Rightarrow> string \<Rightarrow> bool result" where
  "bool_config raw f = (case get_val raw f of PBool b \<Rightarrow> Inr b | _ \<Rightarrow> Inl (ValidationFailed ''parameter config must be boolean''))"

definition mapping_config :: "pyval \<Rightarrow> dict result" where
  "mapping_config raw = (case raw of PDict d \<Rightarrow> Inr d | _ \<Rightarrow> Inl (ValidationFailed ''parameter config must be an object''))"

definition optional_mapping_config :: "pyval \<Rightarrow> dict option result" where
  "optional_mapping_config raw = (if raw = PNone then Inr None else rbind (mapping_config raw) (\<lambda>d. Inr (Some d)))"

definition resolved_config :: "dict \<Rightarrow> nat option \<Rightarrow> parameter_config result" where
  "resolved_config raw matched =
     rbind (bool_config raw ''required'') (\<lambda>required.
     rbind (bool_config raw ''visible'') (\<lambda>is_visible.
     rbind (bool_config raw ''editable'') (\<lambda>is_editable.
     rbind (mapping_config (get_val raw ''constraints'')) (\<lambda>constraints.
     rbind (optional_mapping_config (get_val raw ''default'')) (\<lambda>dflt.
     Inr \<lparr>rc_required = required, rc_is_visible = is_visible, rc_is_editable = is_editable,
       rc_constraints = constraints, rc_default = dflt, rc_matched_override = matched\<rparr>)))))"

fun first_matching_override ::
  "regex_engine \<Rightarrow> condition_context \<Rightarrow> nat \<Rightarrow> parameter_override list \<Rightarrow> (nat \<times> parameter_override) option result" where
  "first_matching_override re ctx i [] = Inr None"
| "first_matching_override re ctx i (ov # ovs) =
     rbind (evaluate_action_condition re ctx (po_when ov)) (\<lambda>b.
     if b then Inr (Some (i, ov)) else first_matching_override re ctx (i + 1) ovs)"

definition base_config :: "action_parameter \<Rightarrow> dict" where
  "base_config p =
     [(''required'', PBool (ap_required p)), (''visible'', PBool True), (''editable'', PBool True),
      (''constraints'', PDict (ap_constraints p)), (''default'', optional_dict_payload (ap_default p))]"

definition effective_config ::
  "regex_engine \<Rightarrow> action_parameter \<Rightarrow> dict \<Rightarrow> parameter_context \<Rightarrow> (string \<times> string) list \<Rightarrow> parameter_config result" where
  "effective_config re p vs ctx types =
     rbind (first_matching_override re (parameter_condition_context vs ctx types) 0 (ap_overrides p)) (\<lambda>matched.
     case matched of
       None \<Rightarrow> resolved_config (base_config p) None
     | Some (i, ov) \<Rightarrow> rbind (merge_config (base_config p) (po_config ov)) (\<lambda>config. resolved_config config (Some i)))"

section \<open>Defaults\<close>

definition default_text :: "dict \<Rightarrow> string \<Rightarrow> string result" where
  "default_text payload key = (case nonempty_text (get_val payload key) of
       Some s \<Rightarrow> Inr s | None \<Rightarrow> Inl (ValidationFailed ''parameter default field is required''))"

definition current_user_default :: "dict \<Rightarrow> parameter_context \<Rightarrow> pyval result" where
  "current_user_default dflt ctx =
     (let attribute = get_val dflt ''attribute'' in
      if attribute \<in> {PNone, PStr ''id''} then Inr (PStr (px_actor_user_id ctx))
      else rbind (in_names attribute [''group'', ''groups'', ''roles'']) (\<lambda>b.
        if b then Inr (PList (map PStr (px_actor_groups ctx)))
        else case attribute of
            PStr a \<Rightarrow> if py_strip a \<noteq> [] then Inr (get_val (px_actor_attributes ctx) a)
              else Inl (ValidationFailed ''unsupported current-user default attribute'')
          | _ \<Rightarrow> Inl (ValidationFailed ''unsupported current-user default attribute'')))"

definition current_time_default :: "dict \<Rightarrow> parameter_context \<Rightarrow> pyval result" where
  "current_time_default dflt ctx =
     (let u = get_val dflt ''unit'' in
      if u = PStr ''date'' then Inr (PStr (px_now_date ctx))
      else if u = PStr ''timestamp'' then Inr (PStr (text_replace ''+00:00'' ''Z'' (px_now ctx)))
      else Inl (ValidationFailed ''unsupported current-time default unit''))"

definition resolve_default ::
  "(string \<Rightarrow> ('w, string) io) \<Rightarrow> dict \<Rightarrow> dict \<Rightarrow> parameter_context \<Rightarrow> ('w, pyval) io" where
  "resolve_default generate_id dflt vs ctx =
     (let kind = get_val dflt ''kind'' in
      if kind = PStr ''literal'' then io_return (get_val dflt ''value'')
      else if kind = PStr ''parameter'' then io_lift (rbind (default_text dflt ''parameter'') (\<lambda>k. Inr (get_val vs k)))
      else if kind = PStr ''objectProperty''
        then io_lift (rbind (default_text dflt ''property'') (\<lambda>k. Inr (get_val (px_object_properties ctx) k)))
      else if kind = PStr ''currentUser'' then io_lift (current_user_default dflt ctx)
      else if kind = PStr ''currentTime'' then io_lift (current_time_default dflt ctx)
      else if kind = PStr ''generatedId''
        then io_bind (io_lift (default_text dflt ''strategy'')) (\<lambda>strategy.
          io_bind (generate_id strategy) (\<lambda>s. io_return (PStr s)))
      else io_raise (ValidationFailed ''unsupported action parameter default''))"

section \<open>Resolution\<close>

text \<open>A value together with \<^verbatim>\<open>is_present\<close>: \<open>None\<close> when absent.\<close>

definition parameter_value ::
  "(string \<Rightarrow> ('w, string) io) \<Rightarrow> action_parameter \<Rightarrow> parameter_config \<Rightarrow> dict \<Rightarrow> parameter_context \<Rightarrow> ('w, pyval option) io" where
  "parameter_value generate_id p config vs ctx =
     (case map_of (px_submitted ctx) (ap_api_name p) of
        Some v \<Rightarrow>
          if \<not> rc_is_editable config then io_raise (ValidationFailed ''action parameter is not editable'')
          else io_return (Some v)
      | None \<Rightarrow> (case rc_default config of
            None \<Rightarrow> io_return None
          | Some d \<Rightarrow> io_bind (resolve_default generate_id d vs ctx) (\<lambda>v. io_return (Some v))))"

definition validate_parameter_presence :: "parameter_config \<Rightarrow> pyval option \<Rightarrow> unit result" where
  "validate_parameter_presence config v =
     raise_if (rc_required config \<and> v = None) (ValidationFailed ''missing required action parameters'')"

definition validate_parameter_value :: "action_parameter \<Rightarrow> pyval \<Rightarrow> dict \<Rightarrow> unit result" where
  "validate_parameter_value p v constraints =
     rbind (matches_action_parameter_shape (ap_data_type p) (ap_metadata p) v) (\<lambda>b.
     rbind (raise_if (\<not> b) (ValidationFailed ''invalid action parameter types'')) (\<lambda>_.
     validate_action_parameter_constraints_for_value (ap_data_type p) v constraints))"

definition resolve_parameter ::
  "regex_engine \<Rightarrow> (string \<Rightarrow> ('w, string) io) \<Rightarrow> parameter_context \<Rightarrow> (string \<times> string) list \<Rightarrow>
   action_parameter \<Rightarrow> dict \<times> parameter_configs \<Rightarrow> ('w, dict \<times> parameter_configs) io" where
  "resolve_parameter re generate_id ctx types p = (\<lambda>(vs, configs).
     io_bind (io_lift (effective_config re p vs ctx types)) (\<lambda>config.
     io_bind (parameter_value generate_id p config vs ctx) (\<lambda>v.
     io_bind (io_lift (validate_parameter_presence config v)) (\<lambda>_.
     io_bind (case v of
         None \<Rightarrow> io_return vs
       | Some x \<Rightarrow> io_bind (io_lift (validate_parameter_value p x (rc_constraints config))) (\<lambda>_.
           io_return (dput (ap_api_name p) x vs))) (\<lambda>vs'.
     io_return (vs', dput (ap_api_name p) config configs))))))"

definition resolve_action_parameters ::
  "regex_engine \<Rightarrow> (string \<Rightarrow> ('w, string) io) \<Rightarrow> action_contract \<Rightarrow> parameter_context \<Rightarrow> ('w, dict \<times> parameter_configs) io" where
  "resolve_action_parameters re generate_id c ctx =
     io_bind (io_lift (raise_if (\<exists>k \<in> set (dkeys (px_submitted ctx)). k \<notin> set (map ap_api_name (ac_parameters c)))
       (ValidationFailed ''unexpected action parameters''))) (\<lambda>_.
     io_fold (resolve_parameter re generate_id ctx (parameter_types (ac_parameters c))) (ac_parameters c) ([], []))"

section \<open>Conditions read the parameters they refer to\<close>

definition same_parameters :: "string set \<Rightarrow> dict \<Rightarrow> dict \<Rightarrow> bool" where
  "same_parameters names vs vs' \<longleftrightarrow> (\<forall>k \<in> names. map_of vs k = map_of vs' k)"

lemma condition_value_agree:
  assumes "same_parameters (operand_text ''parameter'' ''parameter'' raw) vs (cc_parameters ctx)"
  shows "condition_value (ctx\<lparr>cc_parameters := vs\<rparr>) raw = condition_value ctx raw"
proof (cases raw)
  case (PDict v)
  have user: "current_user (ctx\<lparr>cc_parameters := vs\<rparr>) a = current_user ctx a" for a
    by (simp add: current_user_def split: option.split)
  have linked: "linked_object_property (ctx\<lparr>cc_parameters := vs\<rparr>) k = linked_object_property ctx k" for k
    by (simp add: linked_object_property_def)
  show ?thesis
  proof (cases "get_val v ''kind'' = PStr ''parameter''")
    case True
    with assms PDict show ?thesis
      by (cases "nonempty_text (get_val v ''parameter'')")
        (simp_all add: condition_value_def condition_mapping_def condition_text_def operand_text_def same_parameters_def Let_def)
  next
    case False
    then show ?thesis unfolding condition_value_def PDict condition_mapping_def by (simp add: user linked Let_def)
  qed
qed (simp_all add: condition_value_def condition_mapping_def)

lemma evaluate_comparison_agree:
  assumes "same_parameters (operand_text ''parameter'' ''parameter'' (get_val c ''left'')
      \<union> operand_text ''parameter'' ''parameter'' (get_val c ''right'')) vs (cc_parameters ctx)"
  shows "evaluate_comparison re (ctx\<lparr>cc_parameters := vs\<rparr>) c = evaluate_comparison re ctx c"
proof -
  have "condition_value (ctx\<lparr>cc_parameters := vs\<rparr>) (get_val c side) = condition_value ctx (get_val c side)"
    if "side \<in> {''left'', ''right''}" for side
    using that assms by (intro condition_value_agree) (auto simp: same_parameters_def)
  then have sides: "condition_value (ctx\<lparr>cc_parameters := vs\<rparr>) (get_val c ''left'') = condition_value ctx (get_val c ''left'')"
    "condition_value (ctx\<lparr>cc_parameters := vs\<rparr>) (get_val c ''right'') = condition_value ctx (get_val c ''right'')" by blast+
  show ?thesis unfolding evaluate_comparison_def sides ..
qed

lemma evaluate_validated_agree:
  "referenced_condition_parameters c = Inr refs \<Longrightarrow> same_parameters refs vs (cc_parameters ctx) \<Longrightarrow>
     evaluate_validated_condition re (ctx\<lparr>cc_parameters := vs\<rparr>) c = evaluate_validated_condition re ctx c"
proof (induction c arbitrary: refs rule: condition_induct)
  case (node c)
  note refs = node.prems(1) [unfolded referenced_condition_parameters_def condition_references.simps [of _ c],
      folded referenced_condition_parameters_def]
  from refs obtain kind where kind: "condition_node_kind c = Inr kind" by (auto elim!: rbind_InrE)
  then show ?case
  proof (cases rule: condition_node_cases)
    case group
    with refs kind obtain cs rs where cs: "condition_list kind (get_val c kind) = Inr cs"
      and rs: "map_result referenced_condition_parameters cs = Inr rs" "refs = \<Union>(set rs)"
      by (auto elim!: rbind_InrE)
    have "evaluate_validated_condition re (ctx\<lparr>cc_parameters := vs\<rparr>) x = evaluate_validated_condition re ctx x" if x: "x \<in> set cs" for x
    proof -
      obtain r where r: "r \<in> set rs" "referenced_condition_parameters x = Inr r"
        using map_result_source [OF rs(1) x] by blast
      then have "same_parameters r vs (cc_parameters ctx)" using node.prems(2) rs(2) by (auto simp: same_parameters_def)
      with node.IH(1) [OF cs x r(2)] show ?thesis .
    qed
    then have "map_result (evaluate_validated_condition re (ctx\<lparr>cc_parameters := vs\<rparr>)) cs = map_result (evaluate_validated_condition re ctx) cs"
      by (intro map_result_cong) simp_all
    with cs show ?thesis by (simp add: evaluate_group [OF kind group])
  next
    case neg
    with refs kind obtain child where child: "get_val c ''not'' = PDict child" "referenced_condition_parameters child = Inr refs"
      by (auto elim!: rbind_InrE)
    with node.IH(2) [OF child node.prems(2)] kind neg show ?thesis by (simp add: evaluate_not condition_mapping_def)
  next
    case comparison
    with refs kind node.prems(2) show ?thesis by (simp add: evaluate_op) (rule evaluate_comparison_agree, simp)
  qed
qed

lemma evaluate_condition_agree:
  assumes "referenced_condition_parameters c = Inr refs" "same_parameters refs vs (cc_parameters ctx)"
  shows "evaluate_action_condition re (ctx\<lparr>cc_parameters := vs\<rparr>) c = evaluate_action_condition re ctx c"
  using evaluate_validated_agree [OF assms] by (simp add: evaluate_action_condition_def)

section \<open>What a resolution step keeps\<close>

text \<open>Compiled overrides and defaults refer to parameters declared before their own.\<close>

definition overrides_refer_to :: "string set \<Rightarrow> action_parameter \<Rightarrow> bool" where
  "overrides_refer_to available p \<longleftrightarrow>
     (\<forall>ov \<in> set (ap_overrides p). \<exists>refs. referenced_condition_parameters (po_when ov) = Inr refs \<and> refs \<subseteq> available)"

fun refer_backwards :: "string set \<Rightarrow> action_parameter list \<Rightarrow> bool" where
  "refer_backwards available [] = True"
| "refer_backwards available (p # ps) \<longleftrightarrow> overrides_refer_to available p \<and> refer_backwards (insert (ap_api_name p) available) ps"

lemma order_refers_backwards:
  "validate_parameter_order_from available available_types ps = Inr () \<Longrightarrow> refer_backwards available ps"
proof (induction ps arbitrary: available available_types)
  case (Cons p ps)
  from Cons.prems have "\<forall>ov \<in> set (ap_overrides p). validate_override_order p available available_types ov = Inr ()"
    by (auto simp: each_Inr elim!: rbind_InrE)
  then have "overrides_refer_to available p"
    unfolding overrides_refer_to_def validate_override_order_def by (fastforce elim!: rbind_InrE)
  with Cons show ?case by (auto elim!: rbind_InrE)
qed simp

lemma first_matching_override_agree:
  assumes "\<forall>ov \<in> set ovs. \<exists>refs. referenced_condition_parameters (po_when ov) = Inr refs \<and> refs \<subseteq> available"
    and "same_parameters available vs (cc_parameters ctx)"
  shows "first_matching_override re (ctx\<lparr>cc_parameters := vs\<rparr>) i ovs = first_matching_override re ctx i ovs"
  using assms(1)
proof (induction ovs arbitrary: i)
  case (Cons ov ovs)
  then obtain refs where refs: "referenced_condition_parameters (po_when ov) = Inr refs" "refs \<subseteq> available" by auto
  then have "same_parameters refs vs (cc_parameters ctx)" using assms(2) by (auto simp: same_parameters_def)
  from evaluate_condition_agree [OF refs(1) this] Cons show ?case
    by (cases "evaluate_action_condition re ctx (po_when ov)") simp_all
qed simp

lemma effective_config_agree:
  assumes "overrides_refer_to available p" "same_parameters available vs vs'"
  shows "effective_config re p vs ctx types = effective_config re p vs' ctx types"
proof -
  have "parameter_condition_context vs ctx types = (parameter_condition_context vs' ctx types)\<lparr>cc_parameters := vs\<rparr>"
    by (simp add: parameter_condition_context_def)
  moreover have "same_parameters available vs (cc_parameters (parameter_condition_context vs' ctx types))"
    using assms(2) by (simp add: parameter_condition_context_def)
  ultimately have "first_matching_override re (parameter_condition_context vs ctx types) 0 (ap_overrides p)
      = first_matching_override re (parameter_condition_context vs' ctx types) 0 (ap_overrides p)"
    using assms(1) by (simp add: overrides_refer_to_def first_matching_override_agree)
  then show ?thesis by (simp add: effective_config_def)
qed

text \<open>A parameter is settled in a resolution: its configuration is the effective one, its value fits.\<close>

definition settled ::
  "regex_engine \<Rightarrow> parameter_context \<Rightarrow> (string \<times> string) list \<Rightarrow> action_parameter \<Rightarrow> dict \<Rightarrow> parameter_configs \<Rightarrow> bool" where
  "settled re ctx types p vs configs \<longleftrightarrow> (\<exists>config. map_of configs (ap_api_name p) = Some config
     \<and> effective_config re p vs ctx types = Inr config
     \<and> (rc_required config \<longrightarrow> map_of vs (ap_api_name p) \<noteq> None)
     \<and> (\<forall>v. map_of vs (ap_api_name p) = Some v \<longrightarrow> validate_parameter_value p v (rc_constraints config) = Inr ())
     \<and> (\<forall>v. map_of (px_submitted ctx) (ap_api_name p) = Some v \<longrightarrow> rc_is_editable config \<and> map_of vs (ap_api_name p) = Some v))"

lemma resolve_parameter_step:
  assumes run: "resolve_parameter re gen ctx types p (vs, configs) w = Inr ((vs', configs'), w')"
  obtains config v where "effective_config re p vs ctx types = Inr config"
    "(rc_required config \<longrightarrow> v \<noteq> None)" "vs' = (case v of None \<Rightarrow> vs | Some x \<Rightarrow> dput (ap_api_name p) x vs)"
    "\<forall>x. v = Some x \<longrightarrow> validate_parameter_value p x (rc_constraints config) = Inr ()"
    "\<forall>x. map_of (px_submitted ctx) (ap_api_name p) = Some x \<longrightarrow> rc_is_editable config \<and> v = Some x"
    "configs' = dput (ap_api_name p) config configs"
proof -
  from run obtain config v w1 w2 where r: "effective_config re p vs ctx types = Inr config"
    "parameter_value gen p config vs ctx w = Inr (v, w1)" "validate_parameter_presence config v = Inr ()"
    "(case v of None \<Rightarrow> io_return vs
       | Some x \<Rightarrow> io_bind (io_lift (validate_parameter_value p x (rc_constraints config))) (\<lambda>_.
           io_return (dput (ap_api_name p) x vs))) w1 = Inr (vs', w2)" "configs' = dput (ap_api_name p) config configs"
    unfolding resolve_parameter_def by (auto simp: io_bind_Inr io_lift_Inr)
  have "\<forall>x. map_of (px_submitted ctx) (ap_api_name p) = Some x \<longrightarrow> rc_is_editable config \<and> v = Some x"
    using r(2) by (auto simp: parameter_value_def split: if_splits)
  with r show thesis
    by (intro that [of config v]) (auto simp: validate_parameter_presence_def io_bind_Inr io_lift_Inr split: option.splits)
qed

lemma settled_later:
  assumes "settled re ctx types p vs configs" "overrides_refer_to available p"
    and "same_parameters (insert (ap_api_name p) available) vs vs'" "map_of configs' (ap_api_name p) = map_of configs (ap_api_name p)"
  shows "settled re ctx types p vs' configs'"
proof -
  have "map_of vs (ap_api_name p) = map_of vs' (ap_api_name p)" "same_parameters available vs vs'"
    using assms(3) by (auto simp: same_parameters_def)
  with effective_config_agree [OF assms(2), of vs vs'] assms(1,4) show ?thesis by (simp add: settled_def)
qed

text \<open>The fold keeps the settled parameters settled and adds the others in order.\<close>

lemma resolve_fold_settles:
  assumes "io_fold (resolve_parameter re gen ctx types) ps (vs, configs) w = Inr ((vs', configs'), w')"
    and "refer_backwards available ps" "distinct (map ap_api_name ps)" "set (map ap_api_name ps) \<inter> available = {}"
    and "set (dkeys vs) \<subseteq> available"
  shows "(\<forall>p \<in> set ps. settled re ctx types p vs' configs') \<and> same_parameters available vs vs'
    \<and> (\<forall>k \<in> available. map_of configs' k = map_of configs k) \<and> set (dkeys vs') \<subseteq> available \<union> set (map ap_api_name ps)"
  using assms
proof (induction ps arbitrary: available vs configs w)
  case (Cons p ps)
  from Cons.prems(1) obtain vs1 configs1 w1 where step: "resolve_parameter re gen ctx types p (vs, configs) w = Inr ((vs1, configs1), w1)"
    and rest: "io_fold (resolve_parameter re gen ctx types) ps (vs1, configs1) w1 = Inr ((vs', configs'), w')"
    by (auto simp: io_bind_Inr)
  from step obtain config v where c: "effective_config re p vs ctx types = Inr config"
    "(rc_required config \<longrightarrow> v \<noteq> None)" "vs1 = (case v of None \<Rightarrow> vs | Some x \<Rightarrow> dput (ap_api_name p) x vs)"
    "\<forall>x. v = Some x \<longrightarrow> validate_parameter_value p x (rc_constraints config) = Inr ()"
    "\<forall>x. map_of (px_submitted ctx) (ap_api_name p) = Some x \<longrightarrow> rc_is_editable config \<and> v = Some x"
    "configs1 = dput (ap_api_name p) config configs" by (rule resolve_parameter_step)
  let ?available = "insert (ap_api_name p) available"
  have refs: "overrides_refer_to available p" "refer_backwards ?available ps" using Cons.prems(2) by simp_all
  have fresh: "ap_api_name p \<notin> available" "ap_api_name p \<notin> set (map ap_api_name ps)" using Cons.prems(3,4) by auto
  then have "map_of vs (ap_api_name p) = None" using Cons.prems(5) map_of_in_dkeys by (metis not_None_eq subsetD)
  then have v1: "map_of vs1 (ap_api_name p) = v" using c(3) by (simp split: option.split)
  have same1: "same_parameters available vs vs1" using fresh(1) c(3) by (auto simp: same_parameters_def split: option.split)
  have "settled re ctx types p vs1 configs1"
    using c v1 effective_config_agree [OF refs(1) same1] by (auto simp: settled_def)
  moreover have IH: "(\<forall>q \<in> set ps. settled re ctx types q vs' configs') \<and> same_parameters ?available vs1 vs'
    \<and> (\<forall>k \<in> ?available. map_of configs' k = map_of configs1 k) \<and> set (dkeys vs') \<subseteq> ?available \<union> set (map ap_api_name ps)"
  proof (rule Cons.IH [OF rest refs(2)])
    show "distinct (map ap_api_name ps)" "set (map ap_api_name ps) \<inter> ?available = {}"
      using Cons.prems(3,4) fresh by auto
    show "set (dkeys vs1) \<subseteq> ?available" using Cons.prems(5) c(3) by (auto split: option.splits)
  qed
  ultimately have "settled re ctx types p vs' configs'" using settled_later refs(1) by blast
  moreover have "same_parameters available vs vs'" using same1 IH by (auto simp: same_parameters_def)
  moreover have "\<forall>k \<in> available. map_of configs' k = map_of configs k" using IH c(6) fresh(1) by auto
  ultimately show ?case using IH by auto
qed (auto simp: same_parameters_def)

section \<open>Errors of a resolution\<close>

definition validation_error :: "error \<Rightarrow> bool" where
  "validation_error e \<longleftrightarrow> (\<exists>m. e = ValidationFailed m)"

lemma validation_error_simps [simp]: "validation_error (ValidationFailed m)" "\<not> validation_error TypeError"
  by (simp_all add: validation_error_def)

text \<open>The shape of a compiled parameter can be matched against any value without an error.\<close>

definition compiled_shape :: "regex_engine \<Rightarrow> string \<Rightarrow> dict \<Rightarrow> bool" where
  "compiled_shape re data_type metadata \<longleftrightarrow>
     (data_type \<in> {''array'', ''objectSet''} \<longrightarrow>
        (\<exists>t s. array_item_type metadata = Inr t \<and> base_parameter_schema re t (without_keys [''itemType''] metadata) = Inr s))
     \<and> (data_type = ''struct'' \<longrightarrow> (\<exists>ps. struct_fields re metadata = Inr ps))"

lemma checked_parameter_shape: "check_parameter re p = Inr () \<Longrightarrow> compiled_shape re (ap_data_type p) (ap_metadata p)"
  by (auto simp: check_parameter_def compiled_shape_def elim!: rbind_InrE split: if_splits)

lemma schema_compiled_shape:
  assumes "base_parameter_schema re t metadata = Inr s"
  shows "compiled_shape re t metadata"
proof (cases "t \<in> {''array'', ''objectSet'', ''struct''}")
  case True
  then have kinds: "primitive_parameter_schema t = None" "t \<notin> {''object'', ''interface''}" "t \<notin> set media_types"
    by (elim insertE emptyE; simp add: primitive_parameter_schema_def media_types_def)+
  show ?thesis
  proof (cases "t = ''struct''")
    case False
    with True have t: "t \<in> {''array'', ''objectSet''}" by blast
    with assms kinds show ?thesis
      by (simp only: compiled_shape_def base_parameter_schema.simps [of re t metadata] option.case if_True if_False rbind_eq_Inr) auto
  next
    case struct: True
    then have t: "t \<notin> {''array'', ''objectSet''}" by simp
    with assms kinds have "\<exists>ps. struct_fields re metadata = Inr ps"
      by (simp only: base_parameter_schema.simps [of re t metadata] option.case if_True if_False rbind_eq_Inr) blast
    with t show ?thesis by (simp add: compiled_shape_def)
  qed
qed (auto simp: compiled_shape_def)

lemma array_item_type_name: "array_item_type metadata = Inr t \<Longrightarrow> nonempty_text (get_val metadata ''itemType'') = Some t' \<Longrightarrow> t' = t"
  by (auto simp: array_item_type_def item_type_name_def split: if_splits)

lemma all_result_total: "\<forall>x \<in> set xs. \<exists>b. f x = Inr b \<Longrightarrow> \<exists>b. all_result f xs = Inr b"
  by (induction xs) auto

lemma struct_fields_members:
  assumes "struct_fields re metadata = Inr ps"
  shows "struct_field_list metadata = Some (struct_members metadata)"
    "\<forall>m \<in> set (struct_members metadata). \<exists>f p. m = PDict f \<and> compile_parameter re f = Inr p"
proof -
  from assms have list: "struct_field_list metadata \<noteq> None"
    and run: "map_result (\<lambda>m. case m of PDict raw \<Rightarrow> compile_parameter re raw
       | _ \<Rightarrow> Inl (ValidationFailed ''struct field must be an object'')) (struct_members metadata) = Inr ps"
    by (auto simp: struct_fields.simps [of re metadata] elim!: rbind_InrE)
  from list show "struct_field_list metadata = Some (struct_members metadata)" by (auto simp: struct_members_def)
  show "\<forall>m \<in> set (struct_members metadata). \<exists>f p. m = PDict f \<and> compile_parameter re f = Inr p"
  proof
    fix m assume "m \<in> set (struct_members metadata)"
    from map_result_source [OF run this] show "\<exists>f p. m = PDict f \<and> compile_parameter re f = Inr p"
      by (cases m) auto
  qed
qed

lemma compiled_field:
  assumes "compile_parameter re f = Inr p"
  shows "get_val f ''type'' = PStr (ap_data_type p)" "shape_field_name (PDict f) = Some (ap_api_name p)"
    "ap_metadata p = without_keys parameter_fields f" "compiled_shape re (ap_data_type p) (ap_metadata p)"
    "get_val f ''constraints'' = PDict cs \<Longrightarrow> validate_action_parameter_constraints (ap_data_type p) cs = Inr ()"
proof -
  from assms have read: "read_parameter re f = Inr p" and check: "check_parameter re p = Inr ()"
    by (auto simp: compile_parameter_eq elim!: rbind_InrE)
  from read show "get_val f ''type'' = PStr (ap_data_type p)" "shape_field_name (PDict f) = Some (ap_api_name p)"
    by (auto simp: read_parameter_def contract_text_Inr shape_field_name_def elim!: rbind_InrE)
  from read show "ap_metadata p = without_keys parameter_fields f" by (rule read_parameter_metadata)
  from check show "compiled_shape re (ap_data_type p) (ap_metadata p)" by (rule checked_parameter_shape)
  assume "get_val f ''constraints'' = PDict cs"
  with read have "ap_constraints p = cs" by (auto simp: read_parameter_def contract_mapping_or_empty_def elim!: rbind_InrE)
  with check show "validate_action_parameter_constraints (ap_data_type p) cs = Inr ()" by (auto simp: check_parameter_def elim!: rbind_InrE)
qed

lemma field_constraints_total:
  assumes "value_fits t v" "\<And>cs. raw = PDict cs \<Longrightarrow> validate_action_parameter_constraints t cs = Inr ()"
  shows "\<exists>b. field_constraints_match t v raw = Inr b"
proof -
  have "\<exists>b. (case validate_action_parameter_constraints_for_value t v cs of
           Inl (ValidationFailed _) \<Rightarrow> Inr False | Inl e \<Rightarrow> Inl e | Inr _ \<Rightarrow> Inr True) = (Inr b :: bool result)"
    if "checked (validate_action_parameter_constraints_for_value t v cs)" for cs
    using that by (auto simp: checked_def)
  note total = this
  show ?thesis
  proof (cases raw)
    case PNone
    with total [OF constraints_for_value_Nil [OF assms(1)]] show ?thesis by (simp add: field_constraints_match_def)
  next
    case (PDict cs)
    with total [OF constraints_for_value_checked [OF assms(2) assms(1)]] show ?thesis by (simp add: field_constraints_match_def)
  qed (auto simp: field_constraints_match_def intro: exI [of _ False])
qed

lemma matches_array:
  assumes t: "t \<in> {''array'', ''objectSet''}"
  shows "matches_action_parameter_shape t metadata v =
     (case v of
        PList items \<Rightarrow> (case nonempty_text (get_val metadata ''itemType'') of
            None \<Rightarrow> Inr False
          | Some item_type \<Rightarrow>
              rbind (all_result (matches_action_parameter_shape item_type (without_keys [''itemType''] metadata)) items) (\<lambda>b.
              Inr (b \<and> (t = ''objectSet'' \<longrightarrow> has_unique_json_values items))))
      | _ \<Rightarrow> Inr False)"
proof -
  have kinds: "t \<notin> set scalar_types" "t \<notin> {''object'', ''interface''}" "t \<notin> set media_types"
    using t by (elim insertE emptyE; simp add: scalar_types_def media_types_def)+
  show ?thesis
    unfolding matches_action_parameter_shape.simps [of t metadata v] if_not_P [OF kinds(1)] if_not_P [OF kinds(2)]
      if_not_P [OF kinds(3)] if_P [OF t] ..
qed

lemma matches_struct:
  "matches_action_parameter_shape ''struct'' metadata v =
     (case struct_field_list metadata of
        None \<Rightarrow> Inr False
      | Some members \<Rightarrow> (case v of
          PDict d \<Rightarrow>
            let names = map shape_field_name members in
            if None \<in> set names \<or> (\<exists>k \<in> set (dkeys d). Some k \<notin> set names) then Inr False
            else all_result (\<lambda>raw. matches_struct_field raw d) members
        | _ \<Rightarrow> Inr False))"
  by (simp add: matches_action_parameter_shape.simps [of "''struct''" metadata v] scalar_types_def media_types_def cong: pyval.case_cong option.case_cong)

lemma matches_field:
  "shape_field_name (PDict f) = Some name \<Longrightarrow> get_val f ''type'' = PStr t \<Longrightarrow> matches_struct_field (PDict f) d =
     (case map_of d name of
        None \<Rightarrow> Inr (get_val f ''required'' \<noteq> PBool True)
      | Some v \<Rightarrow> rbind (matches_action_parameter_shape t (without_keys parameter_fields f) v) (\<lambda>b.
          if b then field_constraints_match t v (get_val f ''constraints'') else Inr False))"
  by (simp add: matches_struct_field.simps [of "PDict f" d])

lemma matches_total:
  "compiled_shape re t metadata \<longrightarrow> (\<exists>b. matches_action_parameter_shape t metadata v = Inr b)"
  "(\<exists>f p. raw = PDict f \<and> compile_parameter re f = Inr p) \<longrightarrow> (\<exists>b. matches_struct_field raw d = Inr b)"
proof (induction t metadata v and raw d rule: matches_action_parameter_shape_matches_struct_field.induct)
  case (1 t metadata v)
  show ?case
  proof (intro impI)
    assume shape: "compiled_shape re t metadata"
    consider "t \<in> set scalar_types \<or> t \<in> {''object'', ''interface''} \<or> t \<in> set media_types"
      | "t \<in> {''array'', ''objectSet''}" "t \<notin> set scalar_types" "t \<notin> {''object'', ''interface''}" "t \<notin> set media_types"
      | "t = ''struct''" | "t \<notin> set scalar_types" "t \<notin> {''object'', ''interface''}" "t \<notin> set media_types"
        "t \<notin> {''array'', ''objectSet''}" "t \<noteq> ''struct''"
      by blast
    then show "\<exists>b. matches_action_parameter_shape t metadata v = Inr b"
    proof cases
      case 1
      then show ?thesis by (auto simp: matches_action_parameter_shape.simps [of t metadata v])
    next
      case 2
      with shape have "\<exists>item s. array_item_type metadata = Inr item \<and> base_parameter_schema re item (without_keys [''itemType''] metadata) = Inr s"
        unfolding compiled_shape_def by blast
      then obtain item s where item: "array_item_type metadata = Inr item"
        "base_parameter_schema re item (without_keys [''itemType''] metadata) = Inr s" by blast
      show ?thesis
      proof (cases "(\<exists>items. v = PList items) \<and> nonempty_text (get_val metadata ''itemType'') \<noteq> None")
        case True
        then obtain items where v: "v = PList items" and name: "nonempty_text (get_val metadata ''itemType'') = Some item"
          using array_item_type_name [OF item(1)] by auto
        have "\<forall>x \<in> set items. \<exists>b. matches_action_parameter_shape item (without_keys [''itemType''] metadata) x = Inr b"
          using 1(1) [OF 2(2,3,4,1) v name] schema_compiled_shape [OF item(2)] by blast
        from all_result_total [OF this] show ?thesis
          unfolding matches_array [OF 2(1)] v pyval.case name option.case by (elim exE) simp
      next
        case False
        then show ?thesis unfolding matches_array [OF 2(1)]
          by (cases v; cases "nonempty_text (get_val metadata ''itemType'')") (simp_all, (intro exI [of _ False], simp)+)
      qed
    next
      case 3
      with shape obtain ps where ps: "struct_fields re metadata = Inr ps" by (auto simp: compiled_shape_def)
      have kinds: "t \<notin> set scalar_types" "t \<notin> {''object'', ''interface''}" "t \<notin> set media_types" "t \<notin> {''array'', ''objectSet''}"
        using 3 by (simp_all add: scalar_types_def media_types_def)
      show ?thesis
      proof (cases "\<exists>d. v = PDict d \<and> \<not> (None \<in> set (map shape_field_name (struct_members metadata))
          \<or> (\<exists>k \<in> set (dkeys d). Some k \<notin> set (map shape_field_name (struct_members metadata))))")
        case True
        then obtain d where v: "v = PDict d" and names: "\<not> (None \<in> set (map shape_field_name (struct_members metadata))
          \<or> (\<exists>k \<in> set (dkeys d). Some k \<notin> set (map shape_field_name (struct_members metadata))))" by blast
        have "\<forall>m \<in> set (struct_members metadata). \<exists>b. matches_struct_field m d = Inr b"
          using 1(2) [OF kinds 3 struct_fields_members(1) [OF ps] v refl names] struct_fields_members(2) [OF ps] by blast
        from all_result_total [OF this] show ?thesis
          unfolding 3 matches_struct struct_fields_members(1) [OF ps] option.case v pyval.case Let_def if_not_P [OF names] .
      next
        case False
        show ?thesis
        proof (cases "is_mapping v")
          case True
          then obtain d where v: "v = PDict d" by (cases v) auto
          with False have bad: "None \<in> set (map shape_field_name (struct_members metadata))
            \<or> (\<exists>k \<in> set (dkeys d). Some k \<notin> set (map shape_field_name (struct_members metadata)))" by blast
          show ?thesis
            unfolding 3 matches_struct struct_fields_members(1) [OF ps] option.case v pyval.case Let_def if_P [OF bad] by blast
        next
          case False
          then have "matches_action_parameter_shape t metadata v = Inr False"
            unfolding 3 matches_struct struct_fields_members(1) [OF ps] option.case by (cases v) simp_all
          then show ?thesis ..
        qed
      qed
    next
      case 4
      then show ?thesis by (simp add: matches_action_parameter_shape.simps [of t metadata v]) (intro exI [of _ False], simp)
    qed
  qed
next
  case (2 raw d)
  show ?case
  proof (intro impI)
    assume "\<exists>f p. raw = PDict f \<and> compile_parameter re f = Inr p"
    then obtain f p where raw: "raw = PDict f" and p: "compile_parameter re f = Inr p" by blast
    note field = compiled_field [OF p]
    show "\<exists>b. matches_struct_field raw d = Inr b"
    proof (cases "map_of d (ap_api_name p)")
      case None
      then show ?thesis unfolding raw matches_field [OF field(2,1)] by simp
    next
      case (Some v)
      from 2 [OF raw refl field(2) [folded raw] field(1) Some] field(3,4) obtain b where
        b: "matches_action_parameter_shape (ap_data_type p) (without_keys parameter_fields f) v = Inr b" by auto
      show ?thesis
      proof (cases b)
        case True
        with b have "value_fits (ap_data_type p) v" by (simp add: matched_shape_fits)
        from field_constraints_total [OF this field(5)] True b Some show ?thesis
          unfolding raw matches_field [OF field(2,1)] by simp
      next
        case False
        with b Some show ?thesis unfolding raw matches_field [OF field(2,1)] by (simp, blast)
      qed
    qed
  qed
qed

text \<open>What compilation says about a parameter and its defaults.\<close>

definition default_ok :: "dict \<Rightarrow> bool" where
  "default_ok d \<longleftrightarrow> (get_val d ''kind'' = PStr ''currentUser'' \<longrightarrow> (\<exists>a. get_or (PStr ''id'') d ''attribute'' = PStr a))"

definition resolvable :: "regex_engine \<Rightarrow> action_parameter \<Rightarrow> bool" where
  "resolvable re p \<longleftrightarrow> compiled_shape re (ap_data_type p) (ap_metadata p)
     \<and> validate_action_parameter_constraints (ap_data_type p) (ap_constraints p) = Inr ()
     \<and> (\<forall>d. ap_default p = Some d \<longrightarrow> default_ok d)
     \<and> (\<forall>ov \<in> set (ap_overrides p). override_ok re (ap_data_type p) ov \<and> distinct (dkeys (po_config ov))
         \<and> (\<forall>d. get_val (po_config ov) ''default'' = PDict d \<longrightarrow> default_ok d))"

lemma validate_default_ok: "validate_default p d available constraints = Inr () \<Longrightarrow> default_ok d"
  by (auto simp: validate_default_def default_ok_def in_names_def validate_standard_default_def validate_current_user_default_def
      Let_def split: pyval.splits elim!: rbind_InrE)

lemma override_default_ok:
  assumes "validate_override_order p available types ov = Inr ()" "get_val (po_config ov) ''default'' = PDict d"
  shows "default_ok d"
  using assms unfolding validate_override_order_def by (auto simp: Let_def elim!: rbind_InrE intro: validate_default_ok)

lemma order_defaults_ok:
  "validate_parameter_order_from available types ps = Inr () \<Longrightarrow> p \<in> set ps \<Longrightarrow>
     (\<forall>d. ap_default p = Some d \<longrightarrow> default_ok d)
     \<and> (\<forall>ov \<in> set (ap_overrides p). \<forall>d. get_val (po_config ov) ''default'' = PDict d \<longrightarrow> default_ok d)"
proof (induction ps arbitrary: available types)
  case (Cons q ps)
  from Cons.prems(1) have parts: "\<forall>ov \<in> set (ap_overrides q). validate_override_order q available types ov = Inr ()"
    "validate_default_order q available = Inr ()"
    "validate_parameter_order_from (insert (ap_api_name q) available) (dput (ap_api_name q) (ap_data_type q) types) ps = Inr ()"
    by (auto simp: each_Inr elim!: rbind_InrE)
  show ?case
  proof (cases "p = q")
    case True
    with parts(1,2) show ?thesis
      by (auto simp: validate_default_order_def intro: validate_default_ok override_default_ok)
  next
    case False
    with Cons.prems(2) Cons.IH [OF parts(3)] show ?thesis by simp
  qed
qed simp

lemma compiled_overrides_ok:
  assumes "compile_parameter re raw = Inr p" "ov \<in> set (ap_overrides p)"
  shows "override_ok re (ap_data_type p) ov"
proof -
  from assms(1) obtain v where "compile_overrides re v (ap_data_type p) = Inr (ap_overrides p)"
    by (auto simp: compile_parameter_eq read_parameter_def elim!: rbind_InrE)
  then obtain items where "map_result (compile_override re (ap_data_type p)) items = Inr (ap_overrides p)"
    by (auto simp: compile_overrides_def elim!: rbind_InrE)
  from map_result_item [OF this assms(2)] show ?thesis using compile_override_ok by blast
qed

lemma first_matching_override_in: "first_matching_override re ctx i ovs = Inr (Some (j, ov)) \<Longrightarrow> ov \<in> set ovs"
proof (induction ovs arbitrary: i)
  case (Cons a ovs)
  then show ?case by (cases "evaluate_action_condition re ctx (po_when a)") (auto split: if_splits)
qed simp

lemma resolved_config_Inr:
  assumes "resolved_config raw m = Inr config"
  shows "get_val raw ''constraints'' = PDict (rc_constraints config)"
    "rc_default config = Some d \<Longrightarrow> get_val raw ''default'' = PDict d"
  using assms by (auto simp: resolved_config_def mapping_config_def optional_mapping_config_def elim!: rbind_InrE split: pyval.splits if_splits)

lemma get_val_dupdate:
  assumes "distinct (dkeys b)"
  shows "get_val (dupdate a b) k = (if has_key b k then get_val b k else get_val a k)"
proof -
  have "map_of (rev b) k = Some v \<longleftrightarrow> map_of b k = Some v" for v
    using assms by (simp add: map_of_eq_Some_iff dkeys_def flip: rev_map)
  then have "map_of (rev b) k = map_of b k" by (metis not_None_eq)
  then show ?thesis by (auto simp: get_or_def has_key_map_of split: option.split)
qed

lemma compiled_overrides_wf:
  assumes "compile_parameter re raw = Inr p" "wf_val (PDict raw)" "ov \<in> set (ap_overrides p)"
  shows "distinct (dkeys (po_config ov))"
proof -
  from assms(1) have "compile_overrides re (get_or (PList []) raw ''overrides'') (ap_data_type p) = Inr (ap_overrides p)"
    by (auto simp: compile_parameter_eq read_parameter_def elim!: rbind_InrE)
  then obtain items where items: "contract_sequence ''overrides'' (get_or (PList []) raw ''overrides'') = Inr items"
    and run: "map_result (compile_override re (ap_data_type p)) items = Inr (ap_overrides p)"
    by (auto simp: compile_overrides_def elim!: rbind_InrE)
  from map_result_item [OF run assms(3)] obtain payload where payload: "PDict payload \<in> set items" "get_val payload ''config'' = PDict (po_config ov)"
    by (auto simp: compile_override_def elim!: rbind_InrE)
  have "wf_val (get_or (PList []) raw ''overrides'')" using assms(2) by (rule wf_val_get) simp
  with items have "\<forall>x \<in> set items. wf_val x" by (auto simp: contract_sequence_def split: pyval.splits)
  with payload(1) have "wf_val (PDict payload)" by blast
  from wf_val_get [OF this, of PNone "''config''"] payload(2) show ?thesis by (simp add: dkeys_def)
qed

lemma compiled_parameters:
  assumes "compile_action_contract re def = Inr c" "wf_val (PDict def)"
  shows "validate_parameter_order (ac_parameters c) = Inr ()" "distinct (map ap_api_name (ac_parameters c))"
    "\<forall>p \<in> set (ac_parameters c). resolvable re p"
proof -
  from assms(1) have both: "compile_parameters re (get_or (PList []) def ''parameters'') = Inr (ac_parameters c)
      \<and> validate_parameter_order (ac_parameters c) = Inr ()"
    unfolding compile_action_contract_def rbind_eq_Inr raise_if_Inr
    by - (elim exE conjE, drule Inr_inject, hypsubst, simp)
  then have raw: "compile_parameters re (get_or (PList []) def ''parameters'') = Inr (ac_parameters c)"
    and order: "validate_parameter_order (ac_parameters c) = Inr ()" by simp_all
  show "validate_parameter_order (ac_parameters c) = Inr ()" by (rule order)
  show "distinct (map ap_api_name (ac_parameters c))" using raw by (rule compile_parameters_names)
  show "\<forall>p \<in> set (ac_parameters c). resolvable re p"
  proof
    fix p assume p: "p \<in> set (ac_parameters c)"
    have "wf_val (get_or (PList []) def ''parameters'')" using assms(2) by (rule wf_val_get) simp
    from compile_parameters_Inr [OF raw p this] obtain d where d: "compile_parameter re d = Inr p" and wf: "wf_val (PDict d)" by blast
    then have "check_parameter re p = Inr ()" by (auto simp: compile_parameter_eq elim!: rbind_InrE)
    then have "validate_action_parameter_constraints (ap_data_type p) (ap_constraints p) = Inr ()"
      by (auto simp: check_parameter_def elim!: rbind_InrE)
    with compiled_field(4) [OF d] compiled_overrides_ok [OF d] compiled_overrides_wf [OF d wf] order_defaults_ok [OF order [unfolded validate_parameter_order_def] p]
    show "resolvable re p" by (simp add: resolvable_def)
  qed
qed

lemma evaluation_errors_validation: "e \<in> evaluation_errors \<Longrightarrow> validation_error e"
  by (auto simp: evaluation_errors_def)

lemma first_matching_override_error:
  assumes "first_matching_override re ctx i ovs = Inl e" "\<forall>ov \<in> set ovs. validate_action_condition re (po_when ov) = Inr ()"
  shows "validation_error e"
  using assms
proof (induction ovs arbitrary: i)
  case (Cons ov ovs)
  show ?case
  proof (cases "evaluate_action_condition re ctx (po_when ov)")
    case (Inl e')
    with Cons.prems have e: "e' = e" and valid: "validate_action_condition re (po_when ov) = Inr ()" by simp_all
    from Inl valid have "evaluate_validated_condition re ctx (po_when ov) = Inl e"
      by (simp add: e evaluate_action_condition_def rbind_eq_Inl)
    from evaluate_validated_error [OF valid this] show ?thesis by (rule evaluation_errors_validation)
  next
    case (Inr b)
    with Cons show ?thesis by (cases b) auto
  qed
qed simp

lemma resolved_config_error: "resolved_config raw m = Inl e \<Longrightarrow> validation_error e"
  by (auto simp: resolved_config_def bool_config_def mapping_config_def optional_mapping_config_def rbind_eq_Inl
      split: pyval.splits if_splits)

lemma effective_config_error:
  assumes "resolvable re p" "effective_config re p vs ctx types = Inl e"
  shows "validation_error e"
proof (cases "first_matching_override re (parameter_condition_context vs ctx types) 0 (ap_overrides p)")
  case (Inl e')
  have "\<forall>ov \<in> set (ap_overrides p). validate_action_condition re (po_when ov) = Inr ()"
    using assms(1) by (simp add: resolvable_def override_ok_def)
  from first_matching_override_error [OF Inl this] Inl assms(2) show ?thesis by (simp add: effective_config_def)
next
  case (Inr matched)
  show ?thesis
  proof (cases matched)
    case None
    with Inr assms(2) resolved_config_error show ?thesis by (simp add: effective_config_def)
  next
    case (Some m)
    with Inr assms(2) resolved_config_error show ?thesis
      by (cases m) (auto simp: effective_config_def merge_config_def rbind_eq_Inl)
  qed
qed

lemma effective_config_source:
  assumes "effective_config re p vs ctx types = Inr config"
  shows "\<exists>raw m. resolved_config raw m = Inr config
    \<and> (raw = base_config p \<or> (\<exists>ov \<in> set (ap_overrides p). raw = dupdate (base_config p) (po_config ov)))"
proof -
  from assms obtain matched where matched: "first_matching_override re (parameter_condition_context vs ctx types) 0 (ap_overrides p) = Inr matched"
    by (auto simp: effective_config_def elim!: rbind_InrE)
  show ?thesis
  proof (cases matched)
    case None
    with matched assms show ?thesis by (auto simp: effective_config_def)
  next
    case (Some m)
    obtain i ov where m: "m = (i, ov)" by (cases m)
    with Some matched have "ov \<in> set (ap_overrides p)" by (auto intro: first_matching_override_in)
    moreover have "resolved_config (dupdate (base_config p) (po_config ov)) (Some i) = Inr config"
      using assms matched Some m by (simp add: effective_config_def merge_config_def) (auto elim!: rbind_InrE)
    ultimately show ?thesis by blast
  qed
qed

lemma effective_config_facts:
  assumes p: "resolvable re p" and config: "effective_config re p vs ctx types = Inr config"
  shows "validate_action_parameter_constraints (ap_data_type p) (rc_constraints config) = Inr ()"
    "rc_default config = Some d \<Longrightarrow> default_ok d"
proof -
  from effective_config_source [OF config] obtain raw m where raw: "resolved_config raw m = Inr config"
    and cases: "raw = base_config p \<or> (\<exists>ov \<in> set (ap_overrides p). raw = dupdate (base_config p) (po_config ov))" by blast
  have base: "get_val (base_config p) ''constraints'' = PDict (ap_constraints p)"
    "get_val (base_config p) ''default'' = optional_dict_payload (ap_default p)" by (simp_all add: base_config_def)
  have "validate_action_parameter_constraints (ap_data_type p) cs = Inr ()" if "get_val raw ''constraints'' = PDict cs" for cs
    using cases
  proof
    assume "raw = base_config p"
    with that base p show ?thesis by (simp add: resolvable_def)
  next
    assume "\<exists>ov \<in> set (ap_overrides p). raw = dupdate (base_config p) (po_config ov)"
    then obtain ov where ov: "ov \<in> set (ap_overrides p)" "raw = dupdate (base_config p) (po_config ov)" by blast
    with p have "validate_override_config (po_config ov) (ap_data_type p) = Inr ()" "distinct (dkeys (po_config ov))"
      by (simp_all add: resolvable_def override_ok_def)
    with that base p ov(2) show ?thesis
      by (cases "has_key (po_config ov) ''constraints''")
        (auto simp: get_val_dupdate validate_override_config_def resolvable_def elim!: rbind_InrE)
  qed
  with resolved_config_Inr(1) [OF raw]
  show "validate_action_parameter_constraints (ap_data_type p) (rc_constraints config) = Inr ()" by blast
  assume "rc_default config = Some d"
  from resolved_config_Inr(2) [OF raw this] have d: "get_val raw ''default'' = PDict d" .
  have ap: "default_ok d" if "optional_dict_payload (ap_default p) = PDict d"
    using that p by (cases "ap_default p") (auto simp: optional_dict_payload_def resolvable_def)
  from cases show "default_ok d"
  proof
    assume "raw = base_config p"
    with d base ap show ?thesis by simp
  next
    assume "\<exists>ov \<in> set (ap_overrides p). raw = dupdate (base_config p) (po_config ov)"
    then obtain ov where ov: "ov \<in> set (ap_overrides p)" "raw = dupdate (base_config p) (po_config ov)" by blast
    with p have "distinct (dkeys (po_config ov))" "\<forall>d. get_val (po_config ov) ''default'' = PDict d \<longrightarrow> default_ok d"
      by (simp_all add: resolvable_def)
    with d base ap ov(2) show ?thesis by (cases "has_key (po_config ov) ''default''") (auto simp: get_val_dupdate)
  qed
qed

text \<open>An error of the resolution.\<close>

definition resolution_error :: "(string \<Rightarrow> ('w, string) io) \<Rightarrow> error \<Rightarrow> bool" where
  "resolution_error gen e \<longleftrightarrow> validation_error e \<or> (\<exists>strategy w. gen strategy w = Inl e)"

lemma current_user_default_error:
  assumes "get_or (PStr ''id'') d ''attribute'' = PStr a" "current_user_default d ctx = Inl e"
  shows "validation_error e"
proof -
  have "get_val d ''attribute'' = PNone \<or> get_val d ''attribute'' = PStr a"
    using assms(1) by (auto simp: get_or_def split: option.splits)
  with assms(2) show ?thesis
    by (auto simp: current_user_default_def in_names_def Let_def split: if_splits)
qed

lemma resolve_default_error:
  assumes "default_ok d" "resolve_default gen d vs ctx w = Inl e"
  shows "resolution_error gen e"
proof -
  show ?thesis
  proof (cases "get_val d ''kind'' = PStr ''currentUser''")
    case True
    with assms current_user_default_error show ?thesis
      by (auto simp: resolve_default_def default_ok_def io_lift_Inl resolution_error_def)
  next
    case False
    then show ?thesis
      using assms(2) by (auto simp: resolve_default_def resolution_error_def io_lift_Inl io_bind_Inl default_text_def current_time_default_def
          rbind_eq_Inl Let_def split: if_splits option.splits)
  qed
qed

lemma validate_parameter_value_error:
  assumes p: "resolvable re p" and constraints: "validate_action_parameter_constraints (ap_data_type p) constraints = Inr ()"
    and e: "validate_parameter_value p v constraints = Inl e"
  shows "validation_error e"
proof -
  obtain b where b: "matches_action_parameter_shape (ap_data_type p) (ap_metadata p) v = Inr b"
    using p matches_total(1) [of re "ap_data_type p" "ap_metadata p" v] unfolding resolvable_def by blast
  show ?thesis
  proof (cases b)
    case True
    with b have "value_fits (ap_data_type p) v" by (simp add: matched_shape_fits)
    from constraints_for_value_checked [OF constraints this] e b True show ?thesis
      by (auto simp: validate_parameter_value_def checked_def)
  next
    case False
    with e b show ?thesis by (auto simp: validate_parameter_value_def)
  qed
qed

lemma resolve_parameter_error:
  assumes p: "resolvable re p" and e: "resolve_parameter re gen ctx types p st w = Inl e"
  shows "resolution_error gen e"
proof -
  obtain vs configs where st: "st = (vs, configs)" by (cases st)
  show ?thesis
  proof (cases "effective_config re p vs ctx types")
    case (Inl e')
    with e st effective_config_error [OF p] show ?thesis
      by (auto simp: resolve_parameter_def io_bind_Inl io_lift_Inl io_lift_Inr resolution_error_def)
  next
    case (Inr config)
    note facts = effective_config_facts [OF p Inr]
    have default: "resolution_error gen e" if "parameter_value gen p config vs ctx w = Inl e" for w
      using that facts(2) by (auto simp: parameter_value_def io_bind_Inl resolution_error_def [of _ "ValidationFailed _"]
          split: option.splits if_splits intro: resolve_default_error)
    from e Inr st default validate_parameter_value_error [OF p facts(1)] show ?thesis
      by (auto simp: resolve_parameter_def io_bind_Inl io_lift_Inl io_lift_Inr validate_parameter_presence_def
          resolution_error_def [of gen "ValidationFailed _"] resolution_error_def [of gen e] split: option.splits)
  qed
qed

section \<open>Properties\<close>

text \<open>
  C19. Resolved parameters are sound: whatever a client submits for a compiled action, the resolved values
  are values of declared parameters only, nothing undeclared was submitted, and every parameter has a
  configuration. That configuration is the effective one for the final values, a required parameter has a
  value, every value has the declared type and satisfies the effective constraints, and a submitted value is
  kept as it is and was editable.
\<close>

theorem resolve_action_parameters_sound:
  assumes "compile_action_contract re def = Inr c" "wf_val (PDict def)"
    and "resolve_action_parameters re gen c ctx w = Inr ((vs, configs), w')"
  shows "set (dkeys vs) \<subseteq> set (map ap_api_name (ac_parameters c))
    \<and> set (dkeys (px_submitted ctx)) \<subseteq> set (map ap_api_name (ac_parameters c))
    \<and> (\<forall>p \<in> set (ac_parameters c). \<exists>config. map_of configs (ap_api_name p) = Some config
        \<and> effective_config re p vs ctx (parameter_types (ac_parameters c)) = Inr config
        \<and> (rc_required config \<longrightarrow> map_of vs (ap_api_name p) \<noteq> None)
        \<and> (\<forall>v. map_of vs (ap_api_name p) = Some v \<longrightarrow>
             matches_action_parameter_shape (ap_data_type p) (ap_metadata p) v = Inr True
             \<and> validate_action_parameter_constraints_for_value (ap_data_type p) v (rc_constraints config) = Inr ())
        \<and> (\<forall>v. map_of (px_submitted ctx) (ap_api_name p) = Some v \<longrightarrow> rc_is_editable config \<and> map_of vs (ap_api_name p) = Some v))"
proof -
  note compiled = compiled_parameters [OF assms(1,2)]
  have order: "refer_backwards {} (ac_parameters c)"
    using compiled(1) unfolding validate_parameter_order_def by (rule order_refers_backwards)
  from assms(3) have submitted: "set (dkeys (px_submitted ctx)) \<subseteq> set (map ap_api_name (ac_parameters c))"
    and run: "io_fold (resolve_parameter re gen ctx (parameter_types (ac_parameters c))) (ac_parameters c) ([], []) w = Inr ((vs, configs), w')"
    by (auto simp: resolve_action_parameters_def io_bind_Inr io_lift_Inr)
  have value_ok: "matches_action_parameter_shape (ap_data_type p) (ap_metadata p) v = Inr True
      \<and> validate_action_parameter_constraints_for_value (ap_data_type p) v constraints = Inr ()"
    if "validate_parameter_value p v constraints = Inr ()" for p v constraints
    using that by (auto simp: validate_parameter_value_def elim!: rbind_InrE)
  from resolve_fold_settles [OF run order compiled(2)] have "set (dkeys vs) \<subseteq> set (map ap_api_name (ac_parameters c))"
    and settled: "\<forall>p \<in> set (ac_parameters c). settled re ctx (parameter_types (ac_parameters c)) p vs configs" by simp_all
  with submitted value_ok show ?thesis unfolding settled_def by meson
qed

definition sample_parameter_context :: parameter_context where
  "sample_parameter_context = \<lparr>px_submitted = [(''tags'', PList [PStr ''a''])], px_object_properties = [],
     px_actor_user_id = ''u'', px_actor_groups = [], px_actor_attributes = [], px_now_date = ''2026-01-01'',
     px_now = ''2026-01-01T00:00:00+00:00''\<rparr>"

definition counter_id :: "string \<Rightarrow> (nat, string) io" where
  "counter_id strategy = (\<lambda>n. Inr (strategy @ show_nat n, n + 1))"

lemma sample_resolution:
  "case compile_action_contract sample_engine sample_definition of Inl e \<Rightarrow> False
   | Inr c \<Rightarrow> (case resolve_action_parameters sample_engine counter_id c sample_parameter_context 0 of Inl e \<Rightarrow> False
       | Inr ((vs, configs), w) \<Rightarrow> vs = [(''state'', PStr ''closed''), (''tags'', PList [PStr ''a''])] \<and> w = 0)"
  by code_simp

theorem resolve_action_parameters_sound_witness:
  "\<exists>c vs configs. compile_action_contract sample_engine sample_definition = Inr c
     \<and> resolve_action_parameters sample_engine counter_id c sample_parameter_context 0 = Inr ((vs, configs), 0)
     \<and> set (dkeys vs) \<subseteq> set (map ap_api_name (ac_parameters c)) \<and> vs \<noteq> []"
proof -
  obtain c vs configs where c: "compile_action_contract sample_engine sample_definition = Inr c"
    "resolve_action_parameters sample_engine counter_id c sample_parameter_context 0 = Inr ((vs, configs), 0)"
    "vs = [(''state'', PStr ''closed''), (''tags'', PList [PStr ''a''])]"
    using sample_resolution by (auto split: sum.splits prod.splits)
  have "wf_val (PDict sample_definition)" by code_simp
  from resolve_action_parameters_sound [OF c(1) this c(2)] c show ?thesis by blast
qed


lemma sample_refusal:
  "case compile_action_contract sample_engine sample_definition of Inl e \<Rightarrow> False
   | Inr c \<Rightarrow> resolve_action_parameters sample_engine counter_id c (sample_parameter_context\<lparr>px_submitted := [(''state'', PStr ''open'')]\<rparr>) 0
       = Inl (ValidationFailed ''missing required action parameters'')"
  by code_simp


end
