(* ===== verification/Pipeline_Catalog.thy ===== *)
theory Pipeline_Catalog
  imports Prelude
begin

text \<open>
  \<^verbatim>\<open>application/services/pipeline_graph_contracts.py\<close>, \<^verbatim>\<open>pipeline_node_execution_policy.py\<close> and
  \<^verbatim>\<open>pipeline_graph_descriptor_payloads.py\<close>: the catalog of node descriptors a pipeline graph is
  checked against, entry by entry, and its projection to JSON; and the canonical graph rows of
  \<^verbatim>\<open>pipeline_graph_types.py\<close>.
\<close>

section \<open>Descriptors\<close>

datatype artifact_kind =
    Dataset_version
  | Virtual_table
  | Media_set_selection
  | Media_derivative_set
  | Content_unit_set
  | Vector_index_generation
  | Stream_checkpoint
  | Geospatial_series
  | Ontology_mapping

datatype node_kind = Source_node | Transform_node | Output_node

datatype availability = Legacy_executable | Graph_v2_executable | Governed_candidate | Validation_only

datatype port_cardinality = One | Many

datatype config_value_kind = String_value | Integer_value | Boolean_value | Array_value | Object_value

record input_port_descriptor =
  ip_port_id :: string
  ip_accepted_artifact_kinds :: "artifact_kind list"
  ip_cardinality :: port_cardinality
  ip_is_required :: bool

record output_port_descriptor =
  op_port_id :: string
  op_artifact_kind :: artifact_kind

record config_field_descriptor =
  cf_field_name :: string
  cf_value_kind :: config_value_kind
  cf_is_required :: bool
  cf_allowed_values :: "string list"

record execution_policy =
  xp_maximum_attempts :: int
  xp_initial_backoff_seconds :: int
  xp_maximum_backoff_seconds :: int
  xp_timeout_seconds :: int
  xp_requires_stable_idempotency :: bool

record node_descriptor =
  ds_descriptor_id :: string
  ds_spec_version :: int
  ds_node_kind :: node_kind
  ds_input_ports :: "input_port_descriptor list"
  ds_output_ports :: "output_port_descriptor list"
  ds_config_fields :: "config_field_descriptor list"
  ds_availability :: availability
  ds_runtime_capability :: string
  ds_execution_policy :: execution_policy

text \<open>The \<^verbatim>\<open>value\<close> of each enumeration member.\<close>

fun artifact_kind_value :: "artifact_kind \<Rightarrow> string" where
  "artifact_kind_value Dataset_version = ''dataset_version''"
| "artifact_kind_value Virtual_table = ''virtual_table''"
| "artifact_kind_value Media_set_selection = ''media_set_selection''"
| "artifact_kind_value Media_derivative_set = ''media_derivative_set''"
| "artifact_kind_value Content_unit_set = ''content_unit_set''"
| "artifact_kind_value Vector_index_generation = ''vector_index_generation''"
| "artifact_kind_value Stream_checkpoint = ''stream_checkpoint''"
| "artifact_kind_value Geospatial_series = ''geospatial_series''"
| "artifact_kind_value Ontology_mapping = ''ontology_mapping''"

fun node_kind_value :: "node_kind \<Rightarrow> string" where
  "node_kind_value Source_node = ''source''"
| "node_kind_value Transform_node = ''transform''"
| "node_kind_value Output_node = ''output''"

fun availability_value :: "availability \<Rightarrow> string" where
  "availability_value Legacy_executable = ''legacy_executable''"
| "availability_value Graph_v2_executable = ''graph_v2_executable''"
| "availability_value Governed_candidate = ''governed_candidate''"
| "availability_value Validation_only = ''validation_only''"

fun cardinality_value :: "port_cardinality \<Rightarrow> string" where
  "cardinality_value One = ''one''"
| "cardinality_value Many = ''many''"

fun config_value_kind_value :: "config_value_kind \<Rightarrow> string" where
  "config_value_kind_value String_value = ''string''"
| "config_value_kind_value Integer_value = ''integer''"
| "config_value_kind_value Boolean_value = ''boolean''"
| "config_value_kind_value Array_value = ''array''"
| "config_value_kind_value Object_value = ''object''"

definition pipeline_node_execution_policy :: "string \<Rightarrow> execution_policy" where
  "pipeline_node_execution_policy descriptor_id =
     (if descriptor_id \<in> {''transform.use_llm'', ''transform.trained_model''}
      then \<lparr>xp_maximum_attempts = 1, xp_initial_backoff_seconds = 1, xp_maximum_backoff_seconds = 30,
        xp_timeout_seconds = 300, xp_requires_stable_idempotency = True\<rparr>
      else \<lparr>xp_maximum_attempts = 3, xp_initial_backoff_seconds = 1, xp_maximum_backoff_seconds = 30,
        xp_timeout_seconds = 300, xp_requires_stable_idempotency = False\<rparr>)"

definition input_port :: "string \<Rightarrow> artifact_kind list \<Rightarrow> port_cardinality \<Rightarrow> bool \<Rightarrow> input_port_descriptor" where
  "input_port port_id kinds cardinality is_required = \<lparr>ip_port_id = port_id, ip_accepted_artifact_kinds = kinds,
     ip_cardinality = cardinality, ip_is_required = is_required\<rparr>"

definition output_port :: "string \<Rightarrow> artifact_kind \<Rightarrow> output_port_descriptor" where
  "output_port port_id kind = \<lparr>op_port_id = port_id, op_artifact_kind = kind\<rparr>"

definition config_field :: "string \<Rightarrow> config_value_kind \<Rightarrow> bool \<Rightarrow> string list \<Rightarrow> config_field_descriptor" where
  "config_field field_name kind is_required allowed = \<lparr>cf_field_name = field_name, cf_value_kind = kind,
     cf_is_required = is_required, cf_allowed_values = allowed\<rparr>"

definition required_string :: "string \<Rightarrow> config_field_descriptor" where
  "required_string field_name = config_field field_name String_value True []"

definition optional_string :: "string \<Rightarrow> string list \<Rightarrow> config_field_descriptor" where
  "optional_string field_name allowed = config_field field_name String_value False allowed"

definition required_integer :: "string \<Rightarrow> config_field_descriptor" where
  "required_integer field_name = config_field field_name Integer_value True []"

definition catalog_descriptor ::
  "availability \<Rightarrow> string \<Rightarrow> string \<Rightarrow> node_kind \<Rightarrow> input_port_descriptor list \<Rightarrow> output_port_descriptor list
     \<Rightarrow> config_field_descriptor list \<Rightarrow> node_descriptor" where
  "catalog_descriptor avail capability descriptor_id kind inputs outputs config_fields =
     \<lparr>ds_descriptor_id = descriptor_id, ds_spec_version = 1, ds_node_kind = kind, ds_input_ports = inputs,
      ds_output_ports = outputs, ds_config_fields = config_fields, ds_availability = avail,
      ds_runtime_capability = capability, ds_execution_policy = pipeline_node_execution_policy descriptor_id\<rparr>"

definition legacy_descriptor ::
  "string \<Rightarrow> node_kind \<Rightarrow> input_port_descriptor list \<Rightarrow> output_port_descriptor list \<Rightarrow> config_field_descriptor list \<Rightarrow> node_descriptor" where
  "legacy_descriptor = catalog_descriptor Legacy_executable ''tabular_v1_compiler''"

definition planned_descriptor ::
  "string \<Rightarrow> node_kind \<Rightarrow> input_port_descriptor list \<Rightarrow> output_port_descriptor list \<Rightarrow> config_field_descriptor list \<Rightarrow> string \<Rightarrow> node_descriptor" where
  "planned_descriptor descriptor_id kind inputs outputs config_fields capability =
     catalog_descriptor Validation_only capability descriptor_id kind inputs outputs config_fields"

definition graph_v2_descriptor ::
  "string \<Rightarrow> node_kind \<Rightarrow> input_port_descriptor list \<Rightarrow> output_port_descriptor list \<Rightarrow> config_field_descriptor list \<Rightarrow> string \<Rightarrow> node_descriptor" where
  "graph_v2_descriptor descriptor_id kind inputs outputs config_fields capability =
     catalog_descriptor Graph_v2_executable capability descriptor_id kind inputs outputs config_fields"

definition candidate_descriptor ::
  "string \<Rightarrow> input_port_descriptor list \<Rightarrow> output_port_descriptor list \<Rightarrow> config_field_descriptor list \<Rightarrow> string \<Rightarrow> node_descriptor" where
  "candidate_descriptor descriptor_id inputs outputs config_fields capability =
     catalog_descriptor Governed_candidate capability descriptor_id Output_node inputs outputs config_fields"

section \<open>The catalog\<close>

definition geospatial_config_fields :: "config_field_descriptor list" where
  "geospatial_config_fields = [required_string ''resourceRef'', optional_string ''geometryField'' [],
     optional_string ''longitudeField'' [], optional_string ''latitudeField'' [], optional_string ''timeField'' []]"

definition tabular_descriptors :: "node_descriptor list" where
  "tabular_descriptors = [
     legacy_descriptor ''source.dataset'' Source_node
       [] [output_port ''dataset'' Dataset_version]
       [required_string ''datasetRef''],
     legacy_descriptor ''transform.sql'' Transform_node
       [input_port ''inputs'' [Dataset_version] Many False] [output_port ''dataset'' Dataset_version]
       [required_string ''sql'', required_string ''outputDatasetRef''],
     legacy_descriptor ''transform.python'' Transform_node
       [input_port ''inputs'' [Dataset_version] Many False] [output_port ''dataset'' Dataset_version]
       [required_string ''sourceCode'', required_string ''outputDatasetRef''],
     legacy_descriptor ''transform.join'' Transform_node
       [input_port ''left'' [Dataset_version] One True, input_port ''right'' [Dataset_version] One True] [output_port ''dataset'' Dataset_version]
       [required_string ''leftKey'',
       required_string ''rightKey'',
       optional_string ''joinType'' [''inner'', ''left'', ''right'', ''full outer''],
       required_string ''outputDatasetRef''],
     legacy_descriptor ''transform.union'' Transform_node
       [input_port ''inputs'' [Dataset_version] Many True] [output_port ''dataset'' Dataset_version]
       [required_string ''outputDatasetRef''],
     legacy_descriptor ''transform.select_cast'' Transform_node
       [input_port ''input'' [Dataset_version] One True] [output_port ''dataset'' Dataset_version]
       [config_field ''columns'' Array_value True [], required_string ''outputDatasetRef''],
     legacy_descriptor ''output.dataset'' Output_node
       [input_port ''input'' [Dataset_version] One True] [output_port ''dataset'' Dataset_version]
       [required_string ''outputDatasetRef'']]"

definition graph_v2_descriptors :: "node_descriptor list" where
  "graph_v2_descriptors = [
     graph_v2_descriptor ''source.virtual_table'' Source_node
       [] [output_port ''table'' Virtual_table]
       [required_string ''virtualTableRef''] ''virtual_table_runtime'',
     graph_v2_descriptor ''source.media_set'' Source_node
       [] [output_port ''media'' Media_set_selection]
       [required_string ''mediaSetRef'', config_field ''selection'' Object_value False []] ''media_pipeline_runtime'',
     graph_v2_descriptor ''source.stream'' Source_node
       [] [output_port ''stream'' Stream_checkpoint]
       [required_string ''sourceRef''] ''streaming_pipeline_runtime'',
     graph_v2_descriptor ''source.geospatial'' Source_node
       [] [output_port ''series'' Geospatial_series]
       geospatial_config_fields ''geospatial_pipeline_runtime'',
     graph_v2_descriptor ''transform.media'' Transform_node
       [input_port ''media'' [Media_set_selection, Media_derivative_set] One True] [output_port ''derivatives'' Media_derivative_set]
       [required_string ''processorId''] ''media_processor_registry'',
     graph_v2_descriptor ''transform.document_extract'' Transform_node
       [input_port ''media'' [Media_set_selection, Media_derivative_set] One True] [output_port ''content'' Content_unit_set]
       [required_string ''processorId''] ''media_processor_registry'',
     graph_v2_descriptor ''transform.chunk'' Transform_node
       [input_port ''content'' [Content_unit_set] One True] [output_port ''content'' Content_unit_set]
       [required_integer ''chunkSize''] ''content_pipeline_runtime'',
     graph_v2_descriptor ''transform.embedding.text'' Transform_node
       [input_port ''content'' [Content_unit_set] One True] [output_port ''index'' Vector_index_generation]
       [required_string ''modelRef''] ''model_pipeline_runtime'',
     planned_descriptor ''transform.embedding.vision'' Transform_node
       [input_port ''media'' [Media_set_selection, Media_derivative_set] One True] [output_port ''index'' Vector_index_generation]
       [required_string ''modelRef''] ''model_pipeline_runtime'']"

definition model_and_output_descriptors :: "node_descriptor list" where
  "model_and_output_descriptors = [
     graph_v2_descriptor ''transform.use_llm'' Transform_node
       [input_port ''input'' [Dataset_version] One True] [output_port ''dataset'' Dataset_version]
       [required_string ''modelAlias'',
       optional_string ''expectedModelId'' [],
       optional_string ''expectedModelRevision'' [],
       required_string ''promptVersionId'',
       optional_string ''promptMode'' [''text'', ''basic_vision'', ''layout_aware_vision''],
       optional_string ''promptTemplate'' [],
       required_string ''outputColumn'',
       config_field ''inputFields'' Array_value True [],
       config_field ''outputSchema'' Object_value True [],
       required_string ''dataClassification'',
       optional_string ''systemPrompt'' [],
       optional_string ''outputMode'' [''simple'', ''with_errors''],
       config_field ''skipRecomputingRows'' Boolean_value False [],
       config_field ''cacheGeneration'' Integer_value False [],
       optional_string ''cachePolicy'' [''referenced_fields''],
       config_field ''modelParameters'' Object_value False [],
       optional_string ''mediaReferenceField'' [],
       optional_string ''environment'' [],
       optional_string ''regionRequirement'' []] ''governed_model_gateway_runtime'',
     graph_v2_descriptor ''transform.trained_model'' Transform_node
       [input_port ''input'' [Dataset_version] One True] [output_port ''dataset'' Dataset_version]
       [required_string ''modelRef'',
       optional_string ''modelBranch'' [],
       config_field ''fallbackBranches'' Array_value False [],
       config_field ''inputMappings'' Object_value True [],
       config_field ''outputMappings'' Object_value True []] ''trained_model_batch_runtime'',
     graph_v2_descriptor ''bridge.media_to_table_rows'' Transform_node
       [input_port ''media'' [Media_set_selection, Media_derivative_set] One True] [output_port ''dataset'' Dataset_version]
       [] ''multimodal_bridge_runtime'',
     graph_v2_descriptor ''bridge.content_units_to_dataset'' Transform_node
       [input_port ''content'' [Content_unit_set] One True] [output_port ''dataset'' Dataset_version]
       [] ''multimodal_bridge_runtime'',
     graph_v2_descriptor ''bridge.stream_to_dataset'' Transform_node
       [input_port ''stream'' [Stream_checkpoint] One True] [output_port ''dataset'' Dataset_version]
       [] ''streaming_pipeline_runtime'',
     graph_v2_descriptor ''output.media_set'' Output_node
       [input_port ''media'' [Media_set_selection, Media_derivative_set] One True] [output_port ''media'' Media_set_selection]
       [required_string ''mediaSetRef''] ''media_output_runtime'',
     candidate_descriptor ''output.semantic_index''
       [input_port ''index'' [Vector_index_generation, Dataset_version, Content_unit_set] One True] [output_port ''index'' Vector_index_generation]
       [required_string ''indexRef''] ''semantic_index_candidate_runtime'',
     planned_descriptor ''output.virtual_table'' Output_node
       [input_port ''input'' [Dataset_version, Virtual_table] One True] [output_port ''table'' Virtual_table]
       [required_string ''virtualTableRef''] ''virtual_table_runtime'',
     candidate_descriptor ''output.ontology''
       [input_port ''input'' [Dataset_version, Content_unit_set, Media_set_selection] One True] [output_port ''mapping'' Ontology_mapping]
       [required_string ''mappingRef''] ''ontology_mapping_candidate_runtime'',
     graph_v2_descriptor ''output.geospatial'' Output_node
       [input_port ''input'' [Dataset_version, Geospatial_series] One True] [output_port ''series'' Geospatial_series]
       geospatial_config_fields ''geospatial_pipeline_runtime'']"

definition pipeline_node_descriptors :: "node_descriptor list" where
  "pipeline_node_descriptors = tabular_descriptors @ graph_v2_descriptors @ model_and_output_descriptors"

text \<open>The lookup in \<^verbatim>\<open>_DESCRIPTOR_BY_KEY\<close>; a later entry of the catalog replaces an earlier one.\<close>

definition pipeline_node_descriptor :: "string \<Rightarrow> int \<Rightarrow> node_descriptor option" where
  "pipeline_node_descriptor descriptor_id spec_version =
     find (\<lambda>d. ds_descriptor_id d = descriptor_id \<and> ds_spec_version d = spec_version) (rev pipeline_node_descriptors)"

section \<open>Canonical graphs\<close>

text \<open>The rows of \<^verbatim>\<open>pipeline_graph_types.py\<close>. A normalized row keeps the other keys of the row it was
  made from; they are its \<open>rest\<close>.\<close>

record pipeline_node =
  nd_id :: string
  nd_kind :: string
  nd_descriptor_id :: string
  nd_spec_version :: int
  nd_config :: dict
  nd_rest :: dict

record pipeline_edge =
  eg_id :: string
  eg_source_node_id :: string
  eg_source_port_id :: string
  eg_target_node_id :: string
  eg_target_port_id :: string
  eg_rest :: dict

record pipeline_graph =
  gr_nodes :: "pipeline_node list"
  gr_edges :: "pipeline_edge list"
  gr_layout :: dict
  gr_output_contract :: dict
  gr_tests :: "dict list"
  gr_schedule :: pyval
  gr_metadata :: "dict option"
  gr_rest :: dict

section \<open>Payloads\<close>

definition input_port_payload :: "input_port_descriptor \<Rightarrow> pyval" where
  "input_port_payload p = PDict [(''portId'', PStr (ip_port_id p)),
     (''acceptedArtifactKinds'', PList (map (PStr \<circ> artifact_kind_value) (ip_accepted_artifact_kinds p))),
     (''cardinality'', PStr (cardinality_value (ip_cardinality p))), (''required'', PBool (ip_is_required p))]"

definition output_port_payload :: "output_port_descriptor \<Rightarrow> pyval" where
  "output_port_payload p = PDict [(''portId'', PStr (op_port_id p)),
     (''artifactKind'', PStr (artifact_kind_value (op_artifact_kind p)))]"

definition config_field_payload :: "config_field_descriptor \<Rightarrow> pyval" where
  "config_field_payload f = PDict [(''fieldName'', PStr (cf_field_name f)),
     (''valueKind'', PStr (config_value_kind_value (cf_value_kind f))), (''required'', PBool (cf_is_required f)),
     (''allowedValues'', PList (map PStr (cf_allowed_values f)))]"

definition pipeline_node_descriptor_payload :: "node_descriptor \<Rightarrow> dict" where
  "pipeline_node_descriptor_payload d = (let p = ds_execution_policy d in
     [(''descriptorId'', PStr (ds_descriptor_id d)), (''specVersion'', PInt (ds_spec_version d)),
      (''kind'', PStr (node_kind_value (ds_node_kind d))), (''availability'', PStr (availability_value (ds_availability d))),
      (''runtimeCapability'', PStr (ds_runtime_capability d)),
      (''inputPorts'', PList (map input_port_payload (ds_input_ports d))),
      (''outputPorts'', PList (map output_port_payload (ds_output_ports d))),
      (''configFields'', PList (map config_field_payload (ds_config_fields d))),
      (''executionPolicy'', PDict [(''maximumAttempts'', PInt (xp_maximum_attempts p)),
        (''initialBackoffSeconds'', PInt (xp_initial_backoff_seconds p)),
        (''maximumBackoffSeconds'', PInt (xp_maximum_backoff_seconds p)), (''timeoutSeconds'', PInt (xp_timeout_seconds p)),
        (''requiresStableIdempotency'', PBool (xp_requires_stable_idempotency p))])])"

definition pipeline_node_descriptor_payloads :: "dict list" where
  "pipeline_node_descriptor_payloads = map pipeline_node_descriptor_payload pipeline_node_descriptors"

section \<open>Facts about the catalog\<close>

lemma catalog_ids_distinct: "distinct (map ds_descriptor_id pipeline_node_descriptors)"
  by code_simp

lemma node_kind_value_inject [simp]: "node_kind_value k = node_kind_value k' \<longleftrightarrow> k = k'"
  by (cases k; cases k') simp_all

lemma pipeline_node_descriptor_in:
  "pipeline_node_descriptor i v = Some d \<Longrightarrow> d \<in> set pipeline_node_descriptors \<and> ds_descriptor_id d = i \<and> ds_spec_version d = v"
  by (auto simp: pipeline_node_descriptor_def find_Some_iff) (metis nth_mem length_rev set_rev)

text \<open>Every port and every field of a descriptor has a name of its own.\<close>

lemma catalog_ports_distinct:
  "list_all (\<lambda>d. distinct (map ip_port_id (ds_input_ports d)) \<and> distinct (map op_port_id (ds_output_ports d))
     \<and> distinct (map cf_field_name (ds_config_fields d))) pipeline_node_descriptors"
  by code_simp

end
