(* ===== verification/Graph_Topology.thy ===== *)
theory Graph_Topology
  imports Pipeline_Catalog
begin

text \<open>
  \<^verbatim>\<open>application/services/pipeline_graph_v2_topology.py\<close>: the checks on the edges of a canonical graph,
  up to the cycle check, a topological consumption of the nodes from those without incoming edges.
  Every error is the JSON row the code reports. A subscript of a missing key raises \<open>KeyError\<close>.
\<close>

section \<open>Endpoints, ports and kinds\<close>

definition descriptor_map :: "pipeline_node list \<Rightarrow> (string \<times> node_descriptor option) list" where
  "descriptor_map nodes =
     dupdate [] (map (\<lambda>n. (nd_id n, pipeline_node_descriptor (nd_descriptor_id n) (nd_spec_version n))) nodes)"

definition edge_endpoint_errors :: "pipeline_edge list \<Rightarrow> (string \<times> node_descriptor option) list \<Rightarrow> dict list" where
  "edge_endpoint_errors edges descriptors = concat (map (\<lambda>e.
     (if has_key descriptors (eg_source_node_id e) then []
      else [[(''code'', PStr ''dangling_edge_source''), (''edgeId'', PStr (eg_id e))]])
     @ (if has_key descriptors (eg_target_node_id e) then []
      else [[(''code'', PStr ''dangling_edge_target''), (''edgeId'', PStr (eg_id e))]])) edges)"

definition known_descriptor :: "(string \<times> node_descriptor option) list \<Rightarrow> string \<Rightarrow> node_descriptor option" where
  "known_descriptor descriptors node_id = (case map_of descriptors node_id of None \<Rightarrow> None | Some d \<Rightarrow> d)"

definition missing_port_errors ::
  "pipeline_edge \<Rightarrow> output_port_descriptor option \<Rightarrow> input_port_descriptor option \<Rightarrow> dict list" where
  "missing_port_errors e source_port target_port =
     (if source_port = None then [[(''code'', PStr ''source_port_not_found''), (''edgeId'', PStr (eg_id e)),
        (''portId'', PStr (eg_source_port_id e))]] else [])
     @ (if target_port = None then [[(''code'', PStr ''target_port_not_found''), (''edgeId'', PStr (eg_id e)),
        (''portId'', PStr (eg_target_port_id e))]] else [])"

definition artifact_compatibility_errors ::
  "pipeline_edge \<Rightarrow> artifact_kind \<Rightarrow> input_port_descriptor \<Rightarrow> dict list" where
  "artifact_compatibility_errors e kind target_port =
     (if kind \<in> set (ip_accepted_artifact_kinds target_port) then []
      else [[(''code'', PStr ''artifact_kind_mismatch''), (''edgeId'', PStr (eg_id e)),
        (''artifactKind'', PStr (artifact_kind_value kind)),
        (''acceptedArtifactKinds'', PList (map (\<lambda>k. PStr (artifact_kind_value k)) (ip_accepted_artifact_kinds target_port)))]])"

definition edge_port_contract_errors ::
  "(string \<times> node_descriptor option) list \<Rightarrow> pipeline_edge \<Rightarrow> dict list" where
  "edge_port_contract_errors descriptors e =
     (case (known_descriptor descriptors (eg_source_node_id e), known_descriptor descriptors (eg_target_node_id e)) of
        (Some source, Some target) \<Rightarrow>
          let source_port = find (\<lambda>p. op_port_id p = eg_source_port_id e) (ds_output_ports source);
              target_port = find (\<lambda>p. ip_port_id p = eg_target_port_id e) (ds_input_ports target) in
          missing_port_errors e source_port target_port
          @ (case (source_port, target_port) of
               (Some sp, Some tp) \<Rightarrow> artifact_compatibility_errors e (op_artifact_kind sp) tp
             | _ \<Rightarrow> [])
      | _ \<Rightarrow> [])"

definition port_contract_errors :: "pipeline_edge list \<Rightarrow> (string \<times> node_descriptor option) list \<Rightarrow> dict list" where
  "port_contract_errors edges descriptors = concat (map (edge_port_contract_errors descriptors) edges)"

fun input_connection_counts ::
  "pipeline_edge list \<Rightarrow> ((string \<times> string) \<times> int) list \<Rightarrow> ((string \<times> string) \<times> int) list" where
  "input_connection_counts [] counts = counts"
| "input_connection_counts (e # edges) counts =
     (let key = (eg_target_node_id e, eg_target_port_id e);
          n = (case map_of counts key of None \<Rightarrow> 0 | Some n \<Rightarrow> n) in
      input_connection_counts edges (dput key (n + 1) counts))"

definition port_count_errors :: "string \<Rightarrow> input_port_descriptor \<Rightarrow> int \<Rightarrow> dict list" where
  "port_count_errors node_id port count =
     (if ip_is_required port \<and> count = 0
      then [[(''code'', PStr ''required_input_port_missing''), (''nodeId'', PStr node_id), (''portId'', PStr (ip_port_id port))]]
      else if ip_cardinality port = One \<and> count > 1
      then [[(''code'', PStr ''input_port_cardinality''), (''nodeId'', PStr node_id), (''portId'', PStr (ip_port_id port)),
        (''actual'', PInt count)]]
      else [])"

definition required_port_errors ::
  "pipeline_node list \<Rightarrow> pipeline_edge list \<Rightarrow> (string \<times> node_descriptor option) list \<Rightarrow> dict list" where
  "required_port_errors nodes edges descriptors =
     (let counts = input_connection_counts edges [] in
      concat (map (\<lambda>n. case known_descriptor descriptors (nd_id n) of
          None \<Rightarrow> []
        | Some d \<Rightarrow> concat (map (\<lambda>port. port_count_errors (nd_id n) port
            (case map_of counts (nd_id n, ip_port_id port) of None \<Rightarrow> 0 | Some c \<Rightarrow> c)) (ds_input_ports d))) nodes))"

definition terminal_kind_errors :: "pipeline_node list \<Rightarrow> pipeline_edge list \<Rightarrow> dict list" where
  "terminal_kind_errors nodes edges =
     (let kind_by_id = dupdate [] (map (\<lambda>n. (nd_id n, nd_kind n)) nodes) in
      concat (map (\<lambda>e.
        (if map_of kind_by_id (eg_source_node_id e) = Some ''output''
         then [[(''code'', PStr ''output_node_has_outgoing_edge''), (''edgeId'', PStr (eg_id e))]] else [])
        @ (if map_of kind_by_id (eg_target_node_id e) = Some ''source''
         then [[(''code'', PStr ''source_node_has_incoming_edge''), (''edgeId'', PStr (eg_id e))]] else [])) edges))"

section \<open>The cycle check\<close>

text \<open>Releasing the targets of a consumed node: each of them loses an incoming edge, and those that
  lost their last one become ready.\<close>

fun release_targets ::
  "string list \<Rightarrow> (string \<times> int) list \<Rightarrow> string list \<Rightarrow> ((string \<times> int) list \<times> string list) result" where
  "release_targets [] incoming ready = Inr (incoming, ready)"
| "release_targets (target # targets) incoming ready = (case map_of incoming target of
     None \<Rightarrow> Inl KeyError
   | Some n \<Rightarrow> release_targets targets (dput target (n - 1) incoming) (if n - 1 = 0 then ready @ [target] else ready))"

text \<open>What is left to consume: the ready nodes and the incoming edges not yet removed.\<close>

definition pending_work :: "string list \<Rightarrow> (string \<times> int) list \<Rightarrow> nat" where
  "pending_work ready incoming = length ready + sum_list (map (\<lambda>(_, n). nat n) incoming)"

lemma pending_work_dput:
  "map_of incoming k = Some n \<Longrightarrow>
   sum_list (map (\<lambda>(_, n). nat n) (dput k m incoming)) + nat n = sum_list (map (\<lambda>(_, n). nat n) incoming) + nat m"
  by (induction incoming) (auto split: if_splits)

lemma release_targets_pending:
  "release_targets targets incoming ready = Inr (incoming', ready') \<Longrightarrow> pending_work ready' incoming' \<le> pending_work ready incoming"
proof (induction targets incoming ready rule: release_targets.induct)
  case (2 target targets incoming ready)
  then obtain n where n: "map_of incoming target = Some n" by (auto split: option.splits)
  let ?ready = "if n - 1 = 0 then ready @ [target] else ready"
  have "pending_work ready' incoming' \<le> pending_work ?ready (dput target (n - 1) incoming)"
    using 2 n by simp
  also have "\<dots> \<le> pending_work ready incoming"
    using pending_work_dput [OF n, of "n - 1"] by (auto simp: pending_work_def)
  finally show ?case .
qed simp

function consume_topology ::
  "string list \<Rightarrow> (string \<times> int) list \<Rightarrow> (string \<times> string list) list \<Rightarrow> nat \<Rightarrow> nat result" where
  "consume_topology [] incoming outgoing consumed = Inr consumed"
| "consume_topology (current # ready) incoming outgoing consumed = (case map_of outgoing current of
     None \<Rightarrow> Inl KeyError
   | Some targets \<Rightarrow> (case release_targets (sort targets) incoming ready of
       Inl e \<Rightarrow> Inl e
     | Inr (incoming', ready') \<Rightarrow> consume_topology ready' incoming' outgoing (consumed + 1)))"
  by pat_completeness auto

termination
proof (relation "measure (\<lambda>(ready, incoming, _, _). pending_work ready incoming)", goal_cases)
  case (2 current ready incoming outgoing consumed targets p incoming' ready')
  then have "pending_work ready' incoming' \<le> pending_work ready incoming"
    by (auto dest: release_targets_pending)
  then show ?case by (simp add: pending_work_def)
qed simp

text \<open>\<^verbatim>\<open>incoming[target] += 1\<close> and \<^verbatim>\<open>outgoing[source].append(target)\<close> for every edge.\<close>

fun count_edges ::
  "pipeline_edge list \<Rightarrow> (string \<times> int) list \<Rightarrow> (string \<times> string list) list
     \<Rightarrow> ((string \<times> int) list \<times> (string \<times> string list) list) result" where
  "count_edges [] incoming outgoing = Inr (incoming, outgoing)"
| "count_edges (e # edges) incoming outgoing = (case map_of incoming (eg_target_node_id e) of
     None \<Rightarrow> Inl KeyError
   | Some n \<Rightarrow> (case map_of outgoing (eg_source_node_id e) of
       None \<Rightarrow> Inl KeyError
     | Some targets \<Rightarrow> count_edges edges (dput (eg_target_node_id e) (n + 1) incoming)
         (dput (eg_source_node_id e) (targets @ [eg_target_node_id e]) outgoing)))"

definition cycle_errors :: "pipeline_node list \<Rightarrow> pipeline_edge list \<Rightarrow> dict list result" where
  "cycle_errors nodes edges =
     rbind (count_edges edges (dupdate [] (map (\<lambda>n. (nd_id n, 0)) nodes)) (dupdate [] (map (\<lambda>n. (nd_id n, [])) nodes)))
       (\<lambda>(incoming, outgoing).
     rbind (consume_topology (sort (map fst (filter (\<lambda>(_, count). count = 0) incoming))) incoming outgoing 0) (\<lambda>consumed.
     Inr (if consumed = length nodes then []
          else [[(''code'', PStr ''cycle_detected''), (''node_count'', PInt (int (length nodes)))]])))"

definition pipeline_topology_errors :: "pipeline_graph \<Rightarrow> dict list result" where
  "pipeline_topology_errors graph =
     (let descriptors = descriptor_map (gr_nodes graph);
          errors = edge_endpoint_errors (gr_edges graph) descriptors in
      if errors \<noteq> [] then Inr errors
      else rbind (cycle_errors (gr_nodes graph) (gr_edges graph)) (\<lambda>cycles.
        Inr (port_contract_errors (gr_edges graph) descriptors
          @ required_port_errors (gr_nodes graph) (gr_edges graph) descriptors
          @ terminal_kind_errors (gr_nodes graph) (gr_edges graph) @ cycles)))"

section \<open>Counting the edges\<close>

definition edge_pairs :: "pipeline_edge list \<Rightarrow> (string \<times> string) list" where
  "edge_pairs edges = map (\<lambda>e. (eg_source_node_id e, eg_target_node_id e)) edges"

text \<open>The edges into a node whose source is not yet consumed, and the targets of a node.\<close>

definition open_edges :: "(string \<times> string) list \<Rightarrow> string list \<Rightarrow> string \<Rightarrow> (string \<times> string) list" where
  "open_edges es consumed v = filter (\<lambda>(s, t). t = v \<and> s \<notin> set consumed) es"

definition targets_of :: "(string \<times> string) list \<Rightarrow> string \<Rightarrow> string list" where
  "targets_of es v = map snd (filter (\<lambda>(s, t). s = v) es)"

lemma count_edges_total:
  assumes "\<forall>e \<in> set edges. eg_target_node_id e \<in> set (dkeys incoming) \<and> eg_source_node_id e \<in> set (dkeys outgoing)"
  shows "\<exists>incoming' outgoing'. count_edges edges incoming outgoing = Inr (incoming', outgoing')
    \<and> dkeys incoming' = dkeys incoming \<and> dkeys outgoing' = dkeys outgoing
    \<and> (\<forall>v n. map_of incoming v = Some n \<longrightarrow> map_of incoming' v = Some (n + int (length (open_edges (edge_pairs edges) [] v))))
    \<and> (\<forall>v ts. map_of outgoing v = Some ts \<longrightarrow> map_of outgoing' v = Some (ts @ targets_of (edge_pairs edges) v))"
  using assms
proof (induction edges arbitrary: incoming outgoing)
  case (Cons e edges)
  from Cons.prems obtain n where n: "map_of incoming (eg_target_node_id e) = Some n"
    by (force simp: dkeys_def map_of_eq_None_iff)
  from Cons.prems obtain ts where ts: "map_of outgoing (eg_source_node_id e) = Some ts"
    by (force simp: dkeys_def map_of_eq_None_iff)
  let ?i = "dput (eg_target_node_id e) (n + 1) incoming"
  let ?o = "dput (eg_source_node_id e) (ts @ [eg_target_node_id e]) outgoing"
  have "\<forall>e \<in> set edges. eg_target_node_id e \<in> set (dkeys ?i) \<and> eg_source_node_id e \<in> set (dkeys ?o)"
    using Cons.prems by auto
  from Cons.IH [OF this] obtain incoming' outgoing' where run: "count_edges edges ?i ?o = Inr (incoming', outgoing')"
    "dkeys incoming' = dkeys ?i" "dkeys outgoing' = dkeys ?o"
    and i: "\<And>v n. map_of ?i v = Some n \<Longrightarrow> map_of incoming' v = Some (n + int (length (open_edges (edge_pairs edges) [] v)))"
    and o': "\<And>v ts. map_of ?o v = Some ts \<Longrightarrow> map_of outgoing' v = Some (ts @ targets_of (edge_pairs edges) v)" by blast
  have "map_of incoming' v = Some (m + int (length (open_edges (edge_pairs (e # edges)) [] v)))"
    if "map_of incoming v = Some m" for v m
    using i [of v "if v = eg_target_node_id e then n + 1 else m"] that n
    by (auto simp: edge_pairs_def open_edges_def split: if_splits)
  moreover have "map_of outgoing' v = Some (us @ targets_of (edge_pairs (e # edges)) v)"
    if "map_of outgoing v = Some us" for v us
    using o' [of v "if v = eg_source_node_id e then ts @ [eg_target_node_id e] else us"] that ts
    by (auto simp: edge_pairs_def targets_of_def split: if_splits)
  moreover have "count_edges (e # edges) incoming outgoing = Inr (incoming', outgoing')" using n ts run(1) by simp
  moreover have "dkeys incoming' = dkeys incoming" "dkeys outgoing' = dkeys outgoing"
    using run(2,3) Cons.prems by (simp_all add: dkeys_dput)
  ultimately show ?case by blast
qed (simp add: open_edges_def targets_of_def edge_pairs_def)

lemma release_targets_total:
  assumes "set targets \<subseteq> set (dkeys incoming)" "\<forall>v n. map_of incoming v = Some n \<longrightarrow> int (count_list targets v) \<le> n"
  shows "\<exists>incoming' new. release_targets targets incoming ready = Inr (incoming', ready @ new)
    \<and> dkeys incoming' = dkeys incoming \<and> distinct new
    \<and> (\<forall>v n. map_of incoming v = Some n \<longrightarrow> map_of incoming' v = Some (n - int (count_list targets v)))
    \<and> set new = {v \<in> set targets. map_of incoming v = Some (int (count_list targets v))}"
  using assms
proof (induction targets arbitrary: incoming ready)
  case (Cons t ts)
  from Cons.prems obtain n where n: "map_of incoming t = Some n" by (force simp: dkeys_def map_of_eq_None_iff)
  let ?i = "dput t (n - 1) incoming"
  have dk: "dkeys ?i = dkeys incoming" using Cons.prems by (simp add: dkeys_dput)
  have le: "int (count_list ts v) \<le> m" if "map_of ?i v = Some m" for v m
  proof (cases "v = t")
    case True
    have "int (count_list (t # ts) t) \<le> n" using Cons.prems(2) n by blast
    with True that show ?thesis by simp
  next
    case False
    with that have "map_of incoming v = Some m" by simp
    with Cons.prems(2) have "int (count_list (t # ts) v) \<le> m" by blast
    with False show ?thesis by simp
  qed
  have "set ts \<subseteq> set (dkeys ?i)" using Cons.prems(1) dk by auto
  with Cons.IH [of ?i "if n - 1 = 0 then ready @ [t] else ready"] le obtain incoming' new where
    run: "release_targets ts ?i (if n - 1 = 0 then ready @ [t] else ready) = Inr (incoming', (if n - 1 = 0 then ready @ [t] else ready) @ new)"
    "dkeys incoming' = dkeys ?i" "distinct new"
    and i: "\<And>v m. map_of ?i v = Some m \<Longrightarrow> map_of incoming' v = Some (m - int (count_list ts v))"
    and new: "set new = {v \<in> set ts. map_of ?i v = Some (int (count_list ts v))}" by blast
  have count: "map_of incoming' v = Some (m - int (count_list (t # ts) v))" if "map_of incoming v = Some m" for v m
  proof (cases "v = t")
    case True
    with n that have "map_of ?i v = Some (n - 1)" "m = n" by simp_all
    from i [OF this(1)] this(2) True show ?thesis by simp
  next
    case False
    with that have "map_of ?i v = Some m" by simp
    from i [OF this] False show ?thesis by simp
  qed
  have new_iff: "v \<in> set new \<longleftrightarrow> v \<in> set ts \<and> map_of incoming v = Some (int (count_list (t # ts) v))" for v
    using n by (auto simp: new)
  have step: "release_targets (t # ts) incoming ready = Inr (incoming', (if n - 1 = 0 then ready @ [t] else ready) @ new)"
    using run(1) n by simp
  have pos: "0 < count_list ts v" if "v \<in> set ts" for v using that by (metis count_list_0_iff neq0_conv)
  have le_t: "int (count_list (t # ts) t) \<le> n" using Cons.prems(2) n by blast
  have result: ?case
    if "release_targets (t # ts) incoming ready = Inr (incoming', ready @ new')" "distinct new'"
      "set new' = {v \<in> set (t # ts). map_of incoming v = Some (int (count_list (t # ts) v))}" for new'
  proof (rule exI [of _ incoming'], rule exI [of _ new'], intro conjI)
    show "dkeys incoming' = dkeys incoming" using run(2) dk by simp
    show "\<forall>v n. map_of incoming v = Some n \<longrightarrow> map_of incoming' v = Some (n - int (count_list (t # ts) v))"
      by (intro allI impI) (rule count)
  qed (fact that)+
  show ?case
  proof (cases "n = 1")
    case True
    with le_t have t: "t \<notin> set ts" using pos [of t] by auto
    then have "map_of incoming t = Some (int (count_list (t # ts) t))" using n True by (simp add: count_list_0_iff)
    then have "v \<in> set (t # new) \<longleftrightarrow> v \<in> {v \<in> set (t # ts). map_of incoming v = Some (int (count_list (t # ts) v))}" for v
      using new_iff [of v] by (cases "v = t") simp_all
    then have "set (t # new) = {v \<in> set (t # ts). map_of incoming v = Some (int (count_list (t # ts) v))}" by (rule set_eqI)
    moreover have "distinct (t # new)" using new_iff t run(3) by simp
    moreover have "release_targets (t # ts) incoming ready = Inr (incoming', ready @ t # new)" using step True by simp
    ultimately show ?thesis by (intro result [of "t # new"]) simp_all
  next
    case False
    have "map_of incoming t = Some (int (count_list (t # ts) t)) \<Longrightarrow> t \<in> set ts"
      using n False by (cases "t \<in> set ts") (simp_all add: count_list_0_iff)
    then have "v \<in> set new \<longleftrightarrow> v \<in> {v \<in> set (t # ts). map_of incoming v = Some (int (count_list (t # ts) v))}" for v
      using new_iff [of v] by (cases "v = t") (simp_all, blast)
    then have "set new = {v \<in> set (t # ts). map_of incoming v = Some (int (count_list (t # ts) v))}" by (rule set_eqI)
    moreover have "release_targets (t # ts) incoming ready = Inr (incoming', ready @ new)" using step False by simp
    ultimately show ?thesis using run(3) by (intro result)
  qed
qed simp

section \<open>Consuming in topological order\<close>

text \<open>A sequence of nodes in which every node comes after all sources of its edges.\<close>

definition in_topological_order :: "(string \<times> string) list \<Rightarrow> string list \<Rightarrow> bool" where
  "in_topological_order es consumed \<longleftrightarrow>
     (\<forall>us v ws. consumed = us @ v # ws \<longrightarrow> (\<forall>s. (s, v) \<in> set es \<longrightarrow> s \<in> set us))"

text \<open>The state of the loop: the nodes consumed so far are in topological order, the counters hold the
  edges not yet removed, and the ready nodes are those without any.\<close>

definition consuming ::
  "string set \<Rightarrow> (string \<times> string) list \<Rightarrow> string list \<Rightarrow> string list \<Rightarrow> (string \<times> int) list \<Rightarrow> bool" where
  "consuming V es consumed ready incoming \<longleftrightarrow>
     distinct (consumed @ ready) \<and> set (consumed @ ready) \<subseteq> V \<and> set (dkeys incoming) = V
     \<and> (\<forall>v \<in> V. map_of incoming v = Some (int (length (open_edges es consumed v))))
     \<and> (\<forall>v \<in> V. v \<in> set (consumed @ ready) \<longleftrightarrow> open_edges es consumed v = [])
     \<and> in_topological_order es consumed"

lemma open_edges_snoc:
  "u \<notin> set consumed \<Longrightarrow> length (open_edges es consumed v) = length (open_edges es (consumed @ [u]) v) + count_list (targets_of es u) v"
  by (induction es) (auto simp: open_edges_def targets_of_def)

lemma open_edges_Nil: "open_edges es consumed v = [] \<longleftrightarrow> (\<forall>s. (s, v) \<in> set es \<longrightarrow> s \<in> set consumed)"
  by (auto simp: open_edges_def filter_empty_conv)

lemma topological_snoc:
  "in_topological_order es consumed \<Longrightarrow> open_edges es consumed v = [] \<Longrightarrow> in_topological_order es (consumed @ [v])"
  unfolding in_topological_order_def open_edges_Nil
proof (intro allI impI, goal_cases)
  case (1 us u ws s)
  then show ?case by (cases ws rule: rev_cases) auto
qed

lemma count_list_sort [simp]: "count_list (sort xs) x = count_list xs x"
  by (simp add: count_list_eq_length_filter filter_sort)

lemma consuming_step:
  assumes inv: "consuming V es consumed (u # ready) incoming"
    and targets: "map_of outgoing u = Some (targets_of es u)" "set (targets_of es u) \<subseteq> V"
  shows "\<exists>incoming' ready'. release_targets (sort (targets_of es u)) incoming ready = Inr (incoming', ready')
    \<and> consuming V es (consumed @ [u]) ready' incoming'"
proof -
  let ?ts = "targets_of es u" and ?c = "consumed @ [u]"
  note inv = inv [unfolded consuming_def]
  have u: "u \<in> V" "u \<notin> set consumed" "open_edges es consumed u = []" using inv by auto
  have len: "length (open_edges es consumed v) = length (open_edges es ?c v) + count_list ?ts v" for v
    using open_edges_snoc [OF u(2)] .
  have count: "map_of incoming v = Some (int (length (open_edges es consumed v)))" if "v \<in> V" for v using inv that by blast
  have le: "int (count_list (sort ?ts) v) \<le> n" if "map_of incoming v = Some n" for v n
  proof -
    have "v \<in> V" using map_of_in_dkeys [OF that] inv by blast
    with that count len show ?thesis by simp
  qed
  have "set (sort ?ts) \<subseteq> set (dkeys incoming)" using targets(2) inv by simp
  with release_targets_total [of "sort ?ts" incoming ready] le obtain incoming' new where
    run: "release_targets (sort ?ts) incoming ready = Inr (incoming', ready @ new)" "dkeys incoming' = dkeys incoming" "distinct new"
    and left: "\<And>v n. map_of incoming v = Some n \<Longrightarrow> map_of incoming' v = Some (n - int (count_list (sort ?ts) v))"
    and new: "set new = {v \<in> set (sort ?ts). map_of incoming v = Some (int (count_list (sort ?ts) v))}" by blast
  have pos: "v \<in> set ?ts \<longleftrightarrow> 0 < count_list ?ts v" for v by (metis count_list_0_iff neq0_conv)
  have new_iff: "v \<in> set new \<longleftrightarrow> open_edges es consumed v \<noteq> [] \<and> open_edges es ?c v = []" if "v \<in> V" for v
  proof -
    have "v \<in> set new \<longleftrightarrow> 0 < count_list ?ts v \<and> length (open_edges es consumed v) = count_list ?ts v"
      using count [OF that] by (auto simp: new pos)
    then have "v \<in> set new \<longleftrightarrow> length (open_edges es consumed v) \<noteq> 0 \<and> length (open_edges es ?c v) = 0"
      using len [of v] by linarith
    then show ?thesis by simp
  qed
  have newV: "set new \<subseteq> V" using new targets(2) by auto
  have "consuming V es ?c (ready @ new) incoming'"
    unfolding consuming_def
  proof (intro conjI ballI)
    have "set new \<inter> set (consumed @ u # ready) = {}" using new_iff newV inv by blast
    then show "distinct (?c @ ready @ new)" using inv run(3) by auto
    show "set (?c @ ready @ new) \<subseteq> V" using inv newV by auto
    show "set (dkeys incoming') = V" using inv run(2) by simp
    show "map_of incoming' v = Some (int (length (open_edges es ?c v)))" if "v \<in> V" for v
      using left [OF count [OF that]] len [of v] by simp
    show "(v \<in> set (?c @ ready @ new)) = (open_edges es ?c v = [])" if "v \<in> V" for v
    proof -
      have "v \<in> set (consumed @ u # ready) \<longleftrightarrow> open_edges es consumed v = []" using inv that by blast
      moreover have "open_edges es consumed v = [] \<Longrightarrow> open_edges es ?c v = []" by (auto simp: open_edges_Nil)
      ultimately show ?thesis using new_iff [OF that] by auto
    qed
    show "in_topological_order es ?c" using topological_snoc inv u(3) by blast
  qed
  with run(1) show ?thesis by blast
qed

lemma consume_topology_total:
  assumes "consuming V es consumed ready incoming" "\<forall>v \<in> V. map_of outgoing v = Some (targets_of es v)"
    "\<forall>(s, t) \<in> set es. t \<in> V"
  shows "\<exists>done' incoming'. consume_topology ready incoming outgoing (length consumed) = Inr (length done')
    \<and> consuming V es done' [] incoming'"
  using assms
proof (induction ready incoming outgoing "length consumed" arbitrary: consumed rule: consume_topology.induct)
  case (2 u ready incoming outgoing)
  have u: "u \<in> V" using 2(2) by (auto simp: consuming_def)
  then have targets: "map_of outgoing u = Some (targets_of es u)" "set (targets_of es u) \<subseteq> V"
    using 2(3,4) by (auto simp: targets_of_def)
  from consuming_step [OF 2(2) this] obtain incoming' ready' where
    step: "release_targets (sort (targets_of es u)) incoming ready = Inr (incoming', ready')"
    and inv: "consuming V es (consumed @ [u]) ready' incoming'" by blast
  have "\<exists>done' incoming''. consume_topology ready' incoming' outgoing (length consumed + 1) = Inr (length done')
      \<and> consuming V es done' [] incoming''"
    using 2(1) [OF targets(1) step refl, of "consumed @ [u]"] inv 2(3,4) by simp
  with targets(1) step show ?case by simp
qed auto

section \<open>Cycles\<close>

lemma topological_before:
  assumes "(s, v) \<in> (set es)\<^sup>+" "in_topological_order es consumed" "consumed = us @ v # ws"
  shows "s \<in> set us"
  using assms
proof (induction arbitrary: us ws rule: trancl_induct)
  case (base v)
  then show ?case by (auto simp: in_topological_order_def)
next
  case (step v w)
  have "v \<in> set us" using step.hyps(2) step.prems by (auto simp: in_topological_order_def)
  then obtain xs ys where "us = xs @ v # ys" by (auto simp: in_set_conv_decomp)
  with step.prems have "s \<in> set xs" by (intro step.IH [of xs "ys @ w # ws"]) auto
  with \<open>us = xs @ v # ys\<close> show ?case by simp
qed

lemma topological_acyclic:
  assumes "in_topological_order es consumed" "distinct consumed" "\<forall>(s, t) \<in> set es. s \<in> set consumed"
  shows "acyclic (set es)"
proof (rule acyclicI, intro allI notI)
  fix v assume cycle: "(v, v) \<in> (set es)\<^sup>+"
  then obtain t where "(v, t) \<in> set es" by (meson converse_tranclE)
  with assms(3) obtain us ws where split: "consumed = us @ v # ws" by (auto simp: in_set_conv_decomp)
  from topological_before [OF cycle assms(1) split] assms(2) split show False by auto
qed

lemma stuck_cyclic:
  assumes "consuming V es consumed [] incoming" "set consumed \<noteq> V" "\<forall>(s, t) \<in> set es. s \<in> V"
  shows "\<not> acyclic (set es)"
proof
  assume "acyclic (set es)"
  then have "wf (set es)" by (simp add: finite_acyclic_wf)
  moreover obtain x where "x \<in> V - set consumed" using assms(1,2) by (auto simp: consuming_def)
  ultimately obtain z where z: "z \<in> V - set consumed" "\<And>s. (s, z) \<in> set es \<Longrightarrow> s \<notin> V - set consumed"
    by (meson wfE_min)
  then have "open_edges es consumed z \<noteq> []" using assms(1) by (auto simp: consuming_def)
  then obtain s where "(s, z) \<in> set es" "s \<notin> set consumed" by (auto simp: open_edges_Nil)
  with assms(3) z(2) show False by blast
qed

lemma map_of_dupdate_const: "map_of (dupdate [] (map (\<lambda>n. (f n, c)) xs)) v = (if v \<in> set (map f xs) then Some c else None)"
  by (induction xs rule: rev_induct) (auto simp: rev_map)

lemma dkeys_dupdate_map: "set (dkeys (dupdate [] (map (\<lambda>n. (f n, g n)) xs))) = f ` set xs"
  unfolding set_dkeys_dupdate by (simp add: dkeys_def image_image)

text \<open>The check terminates on every graph whose edges have known endpoints, and reports a cycle exactly
  when there is one.\<close>

lemma cycle_errors_exact:
  assumes ends: "\<forall>e \<in> set edges. eg_source_node_id e \<in> nd_id ` set nodes \<and> eg_target_node_id e \<in> nd_id ` set nodes"
  shows "cycle_errors nodes edges = Inr (if distinct (map nd_id nodes) \<and> acyclic (set (edge_pairs edges)) then []
    else [[(''code'', PStr ''cycle_detected''), (''node_count'', PInt (int (length nodes)))]])"
proof -
  let ?V = "nd_id ` set nodes" and ?es = "edge_pairs edges"
  let ?i = "dupdate [] (map (\<lambda>n. (nd_id n, 0 :: int)) nodes)" and ?o = "dupdate [] (map (\<lambda>n. (nd_id n, [] :: string list)) nodes)"
  have keys: "set (dkeys ?i) = ?V" "set (dkeys ?o) = ?V" by (simp_all only: dkeys_dupdate_map)
  with ends have "\<forall>e \<in> set edges. eg_target_node_id e \<in> set (dkeys ?i) \<and> eg_source_node_id e \<in> set (dkeys ?o)" by simp
  from count_edges_total [OF this] obtain incoming outgoing where
    counted: "count_edges edges ?i ?o = Inr (incoming, outgoing)" "dkeys incoming = dkeys ?i"
    and i: "\<And>v n. map_of ?i v = Some n \<Longrightarrow> map_of incoming v = Some (n + int (length (open_edges ?es [] v)))"
    and out: "\<And>v ts. map_of ?o v = Some ts \<Longrightarrow> map_of outgoing v = Some (ts @ targets_of ?es v)" using keys by metis
  have incoming: "map_of incoming v = Some (int (length (open_edges ?es [] v)))" if "v \<in> ?V" for v
  proof -
    have "map_of ?i v = Some 0" using that by (subst map_of_dupdate_const) simp
    from i [OF this] show ?thesis by simp
  qed
  have outgoing: "\<forall>v \<in> ?V. map_of outgoing v = Some (targets_of ?es v)"
  proof
    fix v assume "v \<in> ?V"
    then have "map_of ?o v = Some []" by (subst map_of_dupdate_const) simp
    from out [OF this] show "map_of outgoing v = Some (targets_of ?es v)" by simp
  qed
  have es: "\<forall>(s, t) \<in> set ?es. t \<in> ?V" "\<forall>(s, t) \<in> set ?es. s \<in> ?V"
    using ends by (auto simp: edge_pairs_def)
  let ?ready = "sort (map fst (filter (\<lambda>(_, count). count = 0) incoming))"
  have dist: "distinct (map fst incoming)" using counted(2) wf_dict_dupdate [OF wf_dict_Nil, of "map (\<lambda>n. (nd_id n, 0)) nodes"] by (simp add: wf_dict_def dkeys_def)
  have ready: "v \<in> set ?ready \<longleftrightarrow> v \<in> ?V \<and> open_edges ?es [] v = []" for v
  proof -
    have "v \<in> set ?ready \<longleftrightarrow> map_of incoming v = Some 0"
      using dist by (force simp: map_of_eq_Some_iff)
    also have "\<dots> \<longleftrightarrow> v \<in> ?V \<and> open_edges ?es [] v = []"
      using incoming map_of_in_dkeys [of incoming v 0] counted(2) keys(1) by auto
    finally show ?thesis .
  qed
  have "distinct ?ready" using dist by (simp add: distinct_map_filter)
  then have "consuming ?V ?es [] ?ready incoming"
    using ready incoming counted(2) keys(1) by (auto simp: consuming_def in_topological_order_def)
  from consume_topology_total [OF this outgoing es(1)] obtain done' incoming' where
    done': "consume_topology ?ready incoming outgoing 0 = Inr (length done')" "consuming ?V ?es done' [] incoming'" by auto
  then have d: "distinct done'" "set done' \<subseteq> ?V" "in_topological_order ?es done'" by (auto simp: consuming_def)
  have card: "card ?V = length nodes \<longleftrightarrow> distinct (map nd_id nodes)" "card ?V \<le> length nodes"
    by (metis card_distinct distinct_card length_map set_map) (rule card_image_le [THEN order_trans], simp_all add: card_length)
  have "length done' = card (set done')" "card (set done') \<le> card ?V"
    using d(1) card_mono [OF _ d(2)] by (simp_all only: distinct_card finite_imageI finite_set)
  then have "length done' = length nodes \<longleftrightarrow> set done' = ?V \<and> distinct (map nd_id nodes)"
    using card d(2) by (metis card_subset_eq finite_imageI finite_set order_antisym)
  also have "\<dots> \<longleftrightarrow> distinct (map nd_id nodes) \<and> acyclic (set ?es)"
    using topological_acyclic [OF d(3,1)] stuck_cyclic [OF done'(2) _ es(2)] es(2) by metis
  finally show ?thesis using counted(1) done'(1) by (simp add: cycle_errors_def)
qed

section \<open>What a graph without topology errors looks like\<close>

definition node_descriptor_of :: "pipeline_node \<Rightarrow> node_descriptor option" where
  "node_descriptor_of n = pipeline_node_descriptor (nd_descriptor_id n) (nd_spec_version n)"

definition edges_into :: "pipeline_edge list \<Rightarrow> string \<Rightarrow> string \<Rightarrow> pipeline_edge list" where
  "edges_into edges node_id port_id = filter (\<lambda>e. eg_target_node_id e = node_id \<and> eg_target_port_id e = port_id) edges"

definition ports_fit :: "pipeline_edge \<Rightarrow> node_descriptor \<Rightarrow> node_descriptor \<Rightarrow> bool" where
  "ports_fit e source target \<longleftrightarrow> (\<exists>p \<in> set (ds_output_ports source). \<exists>q \<in> set (ds_input_ports target).
     op_port_id p = eg_source_port_id e \<and> ip_port_id q = eg_target_port_id e \<and> op_artifact_kind p \<in> set (ip_accepted_artifact_kinds q))"

definition port_connected :: "pipeline_edge list \<Rightarrow> string \<Rightarrow> input_port_descriptor \<Rightarrow> bool" where
  "port_connected edges node_id port \<longleftrightarrow> (let n = length (edges_into edges node_id (ip_port_id port)) in
     (ip_is_required port \<longrightarrow> 1 \<le> n) \<and> (ip_cardinality port = One \<longrightarrow> n \<le> 1))"

definition edge_allowed :: "pipeline_node list \<Rightarrow> pipeline_edge \<Rightarrow> bool" where
  "edge_allowed nodes e \<longleftrightarrow> (\<exists>source \<in> set nodes. \<exists>target \<in> set nodes.
     nd_id source = eg_source_node_id e \<and> nd_id target = eg_target_node_id e
     \<and> nd_kind source \<noteq> ''output'' \<and> nd_kind target \<noteq> ''source''
     \<and> (\<forall>ds dt. node_descriptor_of source = Some ds \<longrightarrow> node_descriptor_of target = Some dt \<longrightarrow> ports_fit e ds dt))"

definition well_connected :: "pipeline_graph \<Rightarrow> bool" where
  "well_connected g \<longleftrightarrow> (\<forall>e \<in> set (gr_edges g). edge_allowed (gr_nodes g) e)
     \<and> (\<forall>n \<in> set (gr_nodes g). \<forall>d. node_descriptor_of n = Some d \<longrightarrow>
          (\<forall>port \<in> set (ds_input_ports d). port_connected (gr_edges g) (nd_id n) port))"

lemma dupdate_by_id:
  "distinct (map nd_id nodes) \<Longrightarrow> dupdate [] (map (\<lambda>n. (nd_id n, f n)) nodes) = map (\<lambda>n. (nd_id n, f n)) nodes"
  by (subst dupdate_fresh) (auto simp: dkeys_def comp_def)

lemma map_of_by_id:
  "distinct (map nd_id nodes) \<Longrightarrow> n \<in> set nodes \<Longrightarrow> map_of (map (\<lambda>n. (nd_id n, f n)) nodes) (nd_id n) = Some (f n)"
  by (rule map_of_is_SomeI) (auto simp: comp_def)

lemma has_key_descriptor_map: "has_key (descriptor_map nodes) v \<longleftrightarrow> v \<in> nd_id ` set nodes"
  by (simp add: has_key_def descriptor_map_def) (force simp: dkeys_def)

lemma known_descriptor_node:
  "distinct (map nd_id nodes) \<Longrightarrow> n \<in> set nodes \<Longrightarrow> known_descriptor (descriptor_map nodes) (nd_id n) = node_descriptor_of n"
  by (simp add: known_descriptor_def descriptor_map_def dupdate_by_id map_of_by_id node_descriptor_of_def del: map_of_dupdate)

lemma edge_endpoint_errors_Nil:
  "edge_endpoint_errors edges (descriptor_map nodes) = [] \<longleftrightarrow>
     (\<forall>e \<in> set edges. eg_source_node_id e \<in> nd_id ` set nodes \<and> eg_target_node_id e \<in> nd_id ` set nodes)"
  by (auto simp: edge_endpoint_errors_def has_key_descriptor_map split: if_splits)

lemma find_by_id:
  assumes "distinct (map f xs)"
  shows "find (\<lambda>x. f x = k) xs = Some x \<longleftrightarrow> x \<in> set xs \<and> f x = k"
  using assms by (induction xs) auto

lemma catalog_ports:
  assumes "node_descriptor_of n = Some d"
  shows "distinct (map ip_port_id (ds_input_ports d))" "distinct (map op_port_id (ds_output_ports d))"
  using catalog_ports_distinct pipeline_node_descriptor_in assms by (auto simp: node_descriptor_of_def list_all_iff)

lemma edge_port_contract_errors_Nil:
  assumes ids: "distinct (map nd_id nodes)" and nodes: "source \<in> set nodes" "target \<in> set nodes"
    and e: "nd_id source = eg_source_node_id e" "nd_id target = eg_target_node_id e"
  shows "edge_port_contract_errors (descriptor_map nodes) e = [] \<longleftrightarrow>
    (\<forall>ds dt. node_descriptor_of source = Some ds \<longrightarrow> node_descriptor_of target = Some dt \<longrightarrow> ports_fit e ds dt)"
proof (cases "node_descriptor_of source"; cases "node_descriptor_of target")
  fix ds dt assume d: "node_descriptor_of source = Some ds" "node_descriptor_of target = Some dt"
  let ?p = "find (\<lambda>p. op_port_id p = eg_source_port_id e) (ds_output_ports ds)"
  let ?q = "find (\<lambda>p. ip_port_id p = eg_target_port_id e) (ds_input_ports dt)"
  have "edge_port_contract_errors (descriptor_map nodes) e = [] \<longleftrightarrow>
      (\<exists>p q. ?p = Some p \<and> ?q = Some q \<and> op_artifact_kind p \<in> set (ip_accepted_artifact_kinds q))"
    using known_descriptor_node [OF ids nodes(1)] known_descriptor_node [OF ids nodes(2)] d e
    by (cases ?p; cases ?q)
      (auto simp: edge_port_contract_errors_def missing_port_errors_def artifact_compatibility_errors_def Let_def)
  also have "\<dots> \<longleftrightarrow> ports_fit e ds dt"
    using find_by_id [OF catalog_ports(1) [OF d(2)]] find_by_id [OF catalog_ports(2) [OF d(1)]] by (auto simp: ports_fit_def)
  finally show ?thesis using d by simp
qed (use known_descriptor_node [OF ids nodes(1)] known_descriptor_node [OF ids nodes(2)] e
  in \<open>auto simp: edge_port_contract_errors_def\<close>)

lemma input_connection_counts:
  "(case map_of (input_connection_counts edges counts) (v, p) of None \<Rightarrow> 0 | Some c \<Rightarrow> c)
     = (case map_of counts (v, p) of None \<Rightarrow> 0 | Some c \<Rightarrow> c) + int (length (edges_into edges v p))"
  by (induction edges counts rule: input_connection_counts.induct) (auto simp: edges_into_def Let_def split: option.splits)

lemma required_port_errors_Nil:
  assumes "distinct (map nd_id nodes)"
  shows "required_port_errors nodes edges (descriptor_map nodes) = [] \<longleftrightarrow>
    (\<forall>n \<in> set nodes. \<forall>d. node_descriptor_of n = Some d \<longrightarrow> (\<forall>port \<in> set (ds_input_ports d). port_connected edges (nd_id n) port))"
proof -
  have "port_count_errors v port (int k) = [] \<longleftrightarrow>
      (ip_is_required port \<longrightarrow> 1 \<le> k) \<and> (ip_cardinality port = One \<longrightarrow> k \<le> 1)" for v port k
    by (auto simp: port_count_errors_def)
  then show ?thesis
    using known_descriptor_node [OF assms]
    by (auto simp: required_port_errors_def Let_def input_connection_counts port_connected_def split: option.splits)
qed

lemma terminal_kind_errors_Nil:
  assumes "distinct (map nd_id nodes)"
  shows "terminal_kind_errors nodes edges = [] \<longleftrightarrow> (\<forall>e \<in> set edges.
    map_of (map (\<lambda>n. (nd_id n, nd_kind n)) nodes) (eg_source_node_id e) \<noteq> Some ''output''
    \<and> map_of (map (\<lambda>n. (nd_id n, nd_kind n)) nodes) (eg_target_node_id e) \<noteq> Some ''source'')"
  unfolding terminal_kind_errors_def Let_def dupdate_by_id [OF assms] by (auto split: if_splits)

text \<open>An edge passes the three checks exactly when it is allowed.\<close>

lemma edge_allowed_iff:
  assumes ids: "distinct (map nd_id nodes)"
    and ends: "eg_source_node_id e \<in> nd_id ` set nodes" "eg_target_node_id e \<in> nd_id ` set nodes"
  shows "edge_allowed nodes e \<longleftrightarrow> edge_port_contract_errors (descriptor_map nodes) e = []
    \<and> map_of (map (\<lambda>n. (nd_id n, nd_kind n)) nodes) (eg_source_node_id e) \<noteq> Some ''output''
    \<and> map_of (map (\<lambda>n. (nd_id n, nd_kind n)) nodes) (eg_target_node_id e) \<noteq> Some ''source''"
proof -
  obtain source target where n: "source \<in> set nodes" "target \<in> set nodes"
    "nd_id source = eg_source_node_id e" "nd_id target = eg_target_node_id e" using ends by auto
  have unique: "m = n" if "m \<in> set nodes" "n \<in> set nodes" "nd_id m = nd_id n" for m n
    using ids that by (metis distinct_map inj_onD)
  have "edge_allowed nodes e \<longleftrightarrow> nd_kind source \<noteq> ''output'' \<and> nd_kind target \<noteq> ''source''
      \<and> (\<forall>ds dt. node_descriptor_of source = Some ds \<longrightarrow> node_descriptor_of target = Some dt \<longrightarrow> ports_fit e ds dt)"
    (is "_ \<longleftrightarrow> ?P source target")
  proof
    assume "edge_allowed nodes e"
    then obtain s t where st: "s \<in> set nodes" "t \<in> set nodes" "nd_id s = eg_source_node_id e" "nd_id t = eg_target_node_id e"
      "?P s t" unfolding edge_allowed_def by blast
    then have "s = source" "t = target" using unique n by simp_all
    with st(5) show "?P source target" by simp
  next
    assume "?P source target"
    with n show "edge_allowed nodes e" unfolding edge_allowed_def by blast
  qed
  also have "\<dots> \<longleftrightarrow> nd_kind source \<noteq> ''output'' \<and> nd_kind target \<noteq> ''source'' \<and> edge_port_contract_errors (descriptor_map nodes) e = []"
    using edge_port_contract_errors_Nil [OF ids n] by blast
  finally show ?thesis
    using map_of_by_id [OF ids n(1), of nd_kind] map_of_by_id [OF ids n(2), of nd_kind] n(3,4) by auto
qed

lemma edge_allowed_ends:
  "edge_allowed nodes e \<Longrightarrow> eg_source_node_id e \<in> nd_id ` set nodes \<and> eg_target_node_id e \<in> nd_id ` set nodes"
  unfolding edge_allowed_def by force

section \<open>Properties\<close>

lemma topology_exact:
  "\<exists>errors. pipeline_topology_errors g = Inr errors
    \<and> (errors = [] \<longleftrightarrow> distinct (map nd_id (gr_nodes g)) \<and> well_connected g \<and> acyclic (set (edge_pairs (gr_edges g))))"
proof (cases "edge_endpoint_errors (gr_edges g) (descriptor_map (gr_nodes g)) = []")
  case False
  then have "\<not> well_connected g"
    using edge_allowed_ends by (auto simp: edge_endpoint_errors_Nil well_connected_def)
  with False show ?thesis by (simp add: pipeline_topology_errors_def Let_def)
next
  case True
  then have ends: "\<forall>e \<in> set (gr_edges g). eg_source_node_id e \<in> nd_id ` set (gr_nodes g) \<and> eg_target_node_id e \<in> nd_id ` set (gr_nodes g)"
    by (simp add: edge_endpoint_errors_Nil)
  have "well_connected g \<longleftrightarrow> port_contract_errors (gr_edges g) (descriptor_map (gr_nodes g)) = []
      \<and> required_port_errors (gr_nodes g) (gr_edges g) (descriptor_map (gr_nodes g)) = []
      \<and> terminal_kind_errors (gr_nodes g) (gr_edges g) = []" if ids: "distinct (map nd_id (gr_nodes g))"
    using ends edge_allowed_iff [OF ids] unfolding well_connected_def required_port_errors_Nil [OF ids] terminal_kind_errors_Nil [OF ids]
      port_contract_errors_def by auto
  with True show ?thesis
    by (auto simp: pipeline_topology_errors_def Let_def cycle_errors_exact [OF ends])
qed

text \<open>
  C33. The topology check of a graph always terminates without raising, and reports nothing exactly when
  node ids are distinct, every edge joins existing nodes through compatible ports, no edge leaves an output
  or enters a source, every required port is connected and every single port at most once, and the edges
  form no cycle.
\<close>

theorem pipeline_topology_exact:
  "\<exists>errors. pipeline_topology_errors g = Inr errors
    \<and> (errors = [] \<longleftrightarrow> distinct (map nd_id (gr_nodes g)) \<and> well_connected g \<and> acyclic (set (edge_pairs (gr_edges g))))"
  by (rule topology_exact)

definition sample_node :: "string \<Rightarrow> string \<Rightarrow> string \<Rightarrow> pipeline_node" where
  "sample_node i kind descriptor = \<lparr>nd_id = i, nd_kind = kind, nd_descriptor_id = descriptor, nd_spec_version = 1,
     nd_config = [], nd_rest = []\<rparr>"

definition sample_edge :: "string \<Rightarrow> string \<Rightarrow> string \<Rightarrow> string \<Rightarrow> pipeline_edge" where
  "sample_edge source source_port target target_port = \<lparr>eg_id = source @ target, eg_source_node_id = source,
     eg_source_port_id = source_port, eg_target_node_id = target, eg_target_port_id = target_port, eg_rest = []\<rparr>"

definition sample_graph :: "pipeline_edge list \<Rightarrow> pipeline_graph" where
  "sample_graph edges = \<lparr>gr_nodes = [sample_node ''in'' ''source'' ''source.dataset'', sample_node ''a'' ''transform'' ''transform.union'',
       sample_node ''b'' ''transform'' ''transform.union'', sample_node ''out'' ''output'' ''output.dataset''],
     gr_edges = edges, gr_layout = [], gr_output_contract = [], gr_tests = [], gr_schedule = PNone, gr_metadata = None, gr_rest = []\<rparr>"

definition sample_edges :: "pipeline_edge list" where
  "sample_edges = [sample_edge ''in'' ''dataset'' ''a'' ''inputs'', sample_edge ''a'' ''dataset'' ''b'' ''inputs'',
     sample_edge ''b'' ''dataset'' ''out'' ''input'']"

lemma sample_topology:
  "pipeline_topology_errors (sample_graph sample_edges) = Inr []"
  "pipeline_topology_errors (sample_graph (sample_edge ''b'' ''dataset'' ''a'' ''inputs'' # sample_edges))
     = Inr [[(''code'', PStr ''cycle_detected''), (''node_count'', PInt 4)]]"
  by code_simp+

text \<open>Two nodes of one id are reported as a cycle.\<close>

lemma duplicate_ids_reported_as_cycle:
  "pipeline_topology_errors (sample_graph []\<lparr>gr_nodes := [sample_node ''a'' ''source'' ''source.dataset'', sample_node ''a'' ''source'' ''source.dataset'']\<rparr>)
     = Inr [[(''code'', PStr ''cycle_detected''), (''node_count'', PInt 2)]]"
  by code_simp

end
