(* ===== verification/Json_Equality.thy ===== *)
theory Json_Equality
  imports Prelude
begin

text \<open>
  Python's \<^verbatim>\<open>==\<close> on JSON documents (\<open>py_eq\<close>) and on values that may be missing. Shown: on documents with
  unique keys and without NaN it is an equivalence relation, and equal documents have equal members.
\<close>

section \<open>Equality by constructor\<close>

lemma py_eq_list_iff: "py_eq_list xs ys \<longleftrightarrow> list_all2 py_eq xs ys"
  by (induction xs arbitrary: ys) (auto split: list.splits)

lemma py_eq_items_iff: "py_eq_items d d' \<longleftrightarrow> (\<forall>(k, v) \<in> set d. \<exists>w. map_of d' k = Some w \<and> py_eq v w)"
  by (induction d) (auto split: option.splits)

definition is_number :: "pyval \<Rightarrow> bool" where
  "is_number v \<longleftrightarrow> (case v of PBool _ \<Rightarrow> True | PInt _ \<Rightarrow> True | PFloat _ \<Rightarrow> True | _ \<Rightarrow> False)"

definition numbers_equal :: "pyval \<Rightarrow> pyval \<Rightarrow> bool" where
  "numbers_equal v w \<longleftrightarrow> (\<exists>a b. py_number v = Some a \<and> py_number w = Some b \<and> extended_eq a b)"

lemma py_number_is_number: "py_number v = Some a \<Longrightarrow> is_number v"
  by (cases v) (auto simp: is_number_def)

lemma py_eq_simps [simp]:
  "py_eq PNone w \<longleftrightarrow> w = PNone"
  "py_eq (PStr s) w \<longleftrightarrow> w = PStr s"
  "py_eq (PList xs) w \<longleftrightarrow> (\<exists>ys. w = PList ys \<and> list_all2 py_eq xs ys)"
  "py_eq (PDict d) w \<longleftrightarrow> (\<exists>d'. w = PDict d' \<and> length d = length d' \<and> (\<forall>(k, v) \<in> set d. \<exists>u. map_of d' k = Some u \<and> py_eq v u))"
  by (cases w; auto simp: py_eq.simps py_eq_list_iff py_eq_items_iff)+

lemma py_eq_number: "is_number v \<Longrightarrow> py_eq v w \<longleftrightarrow> numbers_equal v w"
  by (cases v) (auto simp: is_number_def numbers_equal_def py_eq.simps [of _ w] split: option.splits)

lemma numbers_equal_sym: "numbers_equal v w \<Longrightarrow> numbers_equal w v"
  by (auto simp: numbers_equal_def intro: extended_eq_sym)

lemma numbers_equal_trans: "numbers_equal u v \<Longrightarrow> numbers_equal v w \<Longrightarrow> numbers_equal u w"
  by (auto simp: numbers_equal_def intro: extended_eq_trans)

lemma numbers_equal_number: "numbers_equal v w \<Longrightarrow> is_number v \<and> is_number w"
  by (auto simp: numbers_equal_def py_number_is_number)

lemma number_eq_sym: "is_number v \<Longrightarrow> py_eq v w \<Longrightarrow> py_eq w v"
  by (metis numbers_equal_number numbers_equal_sym py_eq_number)

lemma number_eq_trans: "is_number u \<Longrightarrow> py_eq u v \<Longrightarrow> py_eq v w \<Longrightarrow> py_eq u w"
  by (metis numbers_equal_number numbers_equal_trans py_eq_number)

lemma is_number_simps [simp]: "is_number (PBool b)" "is_number (PInt n)" "is_number (PFloat f)"
  by (simp_all add: is_number_def)

fun nan_free :: "pyval \<Rightarrow> bool" where
  "nan_free (PFloat f) = (f \<noteq> NaN)"
| "nan_free (PList xs) = (\<forall>x \<in> set xs. nan_free x)"
| "nan_free (PDict d) = (\<forall>x \<in> set (map snd d). nan_free x)"
| "nan_free _ = True"

section \<open>An equivalence\<close>

lemma py_eq_refl: "wf_val v \<Longrightarrow> nan_free v \<Longrightarrow> py_eq v v"
proof (induction v)
  case (PFloat f)
  then show ?case by (cases f) (auto simp: py_eq_number is_number_def numbers_equal_def)
next
  case (PDict d)
  have "map_of d k = Some v \<and> py_eq v v" if kv: "(k, v) \<in> set d" for k v
  proof -
    from kv PDict.prems have "wf_val v" "nan_free v" by force+
    with PDict.IH [of "(k, v)" v] kv PDict.prems(1) show ?thesis by (simp add: snds.simps)
  qed
  then show ?case by auto
qed (auto simp: list_all2_same py_eq_number is_number_def numbers_equal_def)

lemma equal_dict_keys:
  assumes "distinct (map fst d)" "distinct (map fst d')" "length d = length d'" "set (map fst d) \<subseteq> set (map fst d')"
  shows "set (map fst d) = set (map fst d')"
proof (rule card_subset_eq)
  show "card (set (map fst d)) = card (set (map fst d'))"
    using assms(1-3) by (metis distinct_card length_map)
qed (use assms(4) in simp_all)

lemma py_eq_dict_keys:
  assumes "py_eq (PDict d) (PDict d')" "wf_val (PDict d)" "wf_val (PDict d')"
  shows "set (map fst d) = set (map fst d')"
proof (rule equal_dict_keys)
  show "set (map fst d) \<subseteq> set (map fst d')" using assms(1) by (force dest: map_of_SomeD)
qed (use assms in auto)

lemma py_eq_sym: "wf_val v \<Longrightarrow> wf_val w \<Longrightarrow> py_eq v w \<Longrightarrow> py_eq w v"
proof (induction v arbitrary: w)
  case (PList xs)
  then obtain ys where ys: "w = PList ys" "list_all2 py_eq xs ys" by auto
  with PList have "list_all2 py_eq ys xs" by (auto simp: list_all2_conv_all_nth)
  with ys show ?case by simp
next
  case (PDict d)
  then obtain d' where d': "w = PDict d'" "length d = length d'" "\<forall>(k, v) \<in> set d. \<exists>u. map_of d' k = Some u \<and> py_eq v u" by auto
  have keys: "set (map fst d) = set (map fst d')"
    using PDict.prems d'(1) by (intro py_eq_dict_keys) auto
  have "\<exists>v. map_of d k = Some v \<and> py_eq u v" if ku: "(k, u) \<in> set d'" for k u
  proof -
    from ku keys obtain v where v: "(k, v) \<in> set d" by force
    from ku d'(1) PDict.prems(2) have "map_of d' k = Some u" by simp
    with d'(3) v have "py_eq v u" by auto
    moreover from v ku PDict.prems d'(1) have "wf_val v" "wf_val u" by force+
    ultimately have "py_eq u v" using PDict.IH [of "(k, v)" v u] v by (simp add: snds.simps)
    with v PDict.prems(1) show ?thesis by auto
  qed
  with d' show ?case by auto
qed (auto intro: number_eq_sym)

lemma py_eq_trans: "wf_val u \<Longrightarrow> wf_val v \<Longrightarrow> wf_val w \<Longrightarrow> py_eq u v \<Longrightarrow> py_eq v w \<Longrightarrow> py_eq u w"
proof (induction u arbitrary: v w)
  case (PList xs)
  then obtain ys zs where l: "v = PList ys" "w = PList zs" "list_all2 py_eq xs ys" "list_all2 py_eq ys zs" by auto
  with PList have "list_all2 py_eq xs zs" by (auto simp: list_all2_conv_all_nth) (metis nth_mem)
  with l show ?case by simp
next
  case (PDict d)
  then obtain d1 d2 where m: "v = PDict d1" "w = PDict d2" "length d = length d2"
    "\<forall>(k, v) \<in> set d. \<exists>u. map_of d1 k = Some u \<and> py_eq v u" "\<forall>(k, v) \<in> set d1. \<exists>u. map_of d2 k = Some u \<and> py_eq v u" by auto
  have "\<exists>z. map_of d2 k = Some z \<and> py_eq x z" if kx: "(k, x) \<in> set d" for k x
  proof -
    from kx m(4) obtain y where y: "map_of d1 k = Some y" "py_eq x y" by auto
    from m(5) map_of_SomeD [OF y(1)] obtain z where z: "map_of d2 k = Some z" "py_eq y z" by auto
    have "wf_val x" "wf_val y" "wf_val z"
      using PDict.prems(1-3) m(1,2) kx map_of_SomeD [OF y(1)] map_of_SomeD [OF z(1)] by force+
    with PDict.IH [of "(k, x)" x y z] kx y z show ?thesis by (simp add: snds.simps)
  qed
  with m show ?case by auto
qed (auto intro: number_eq_trans)

section \<open>Values that may be missing\<close>

text \<open>\<open>None\<close> is the sentinel of a missing value, which equals only itself.\<close>

fun opt_eq :: "pyval option \<Rightarrow> pyval option \<Rightarrow> bool" where
  "opt_eq None None = True"
| "opt_eq (Some v) (Some w) = py_eq v w"
| "opt_eq _ _ = False"

definition ok_opt :: "pyval option \<Rightarrow> bool" where
  "ok_opt x \<longleftrightarrow> (\<forall>v. x = Some v \<longrightarrow> wf_val v \<and> nan_free v)"

lemma opt_eq_refl: "ok_opt x \<Longrightarrow> opt_eq x x"
  by (cases x) (auto simp: ok_opt_def py_eq_refl)

lemma opt_eq_sym: "ok_opt x \<Longrightarrow> ok_opt y \<Longrightarrow> opt_eq x y \<Longrightarrow> opt_eq y x"
  by (cases x; cases y) (auto simp: ok_opt_def py_eq_sym)

lemma opt_eq_trans: "ok_opt x \<Longrightarrow> ok_opt y \<Longrightarrow> ok_opt z \<Longrightarrow> opt_eq x y \<Longrightarrow> opt_eq y z \<Longrightarrow> opt_eq x z"
  by (cases x; cases y; cases z) (auto simp: ok_opt_def intro: py_eq_trans)

lemma map_of_equal:
  assumes "py_eq (PDict d) (PDict d')" "wf_val (PDict d)" "wf_val (PDict d')"
  shows "opt_eq (map_of d k) (map_of d' k)"
proof (cases "map_of d k")
  case None
  then have "map_of d' k = None" using py_eq_dict_keys [OF assms] by (simp add: map_of_eq_None_iff)
  with None show ?thesis by simp
next
  case (Some v)
  with assms(1) map_of_SomeD [OF Some] show ?thesis by force
qed

end
