(* ===== verification/Graph_Merge.thy ===== *)
theory Graph_Merge
  imports Json_Equality
begin

text \<open>
  \<^verbatim>\<open>application/services/pipeline_graph_three_way_merge.py\<close>: the three-way merge of pipeline graphs when a
  branch is rebased. The sentinel of a missing value is \<open>None\<close>, and the conflicts a call appends are
  returned with its value. Shown: at every position of the document, what only one side changed is what
  the merge has, and a merge without conflicts loses no change of either side.
\<close>

section \<open>The merge\<close>

type_synonym merge_conflict = "string \<times> string"

text \<open>The items of a list by their identifier; a later item with the same identifier replaces an earlier one.\<close>

fun keyed_items_from :: "dict \<Rightarrow> pyval list \<Rightarrow> dict option" where
  "keyed_items_from result [] = Some result"
| "keyed_items_from result (item # items) =
     (case item of
        PDict d \<Rightarrow> (case get_val d ''id'' of PStr s \<Rightarrow> keyed_items_from (dput s item result) items | _ \<Rightarrow> None)
      | _ \<Rightarrow> None)"

definition keyed_items :: "pyval option \<Rightarrow> dict option" where
  "keyed_items v = (case v of
       None \<Rightarrow> Some []
     | Some (PList items) \<Rightarrow> keyed_items_from [] items
     | Some _ \<Rightarrow> None)"

definition mapping_or_empty :: "pyval option \<Rightarrow> dict" where
  "mapping_or_empty v = (case v of Some (PDict d) \<Rightarrow> d | _ \<Rightarrow> [])"

definition are_mappings :: "pyval option \<Rightarrow> pyval option \<Rightarrow> pyval option \<Rightarrow> bool" where
  "are_mappings base ours theirs \<longleftrightarrow> (case base of None \<Rightarrow> True | Some v \<Rightarrow> is_mapping v)
     \<and> (case ours of None \<Rightarrow> False | Some v \<Rightarrow> is_mapping v) \<and> (case theirs of None \<Rightarrow> False | Some v \<Rightarrow> is_mapping v)"

definition are_lists :: "pyval option \<Rightarrow> pyval option \<Rightarrow> pyval option \<Rightarrow> bool" where
  "are_lists base ours theirs \<longleftrightarrow> (case base of None \<Rightarrow> True | Some v \<Rightarrow> is_sequence v)
     \<and> (case ours of None \<Rightarrow> False | Some v \<Rightarrow> is_sequence v) \<and> (case theirs of None \<Rightarrow> False | Some v \<Rightarrow> is_sequence v)"

definition is_keyed_list_path :: "string \<Rightarrow> bool" where
  "is_keyed_list_path path \<longleftrightarrow> path \<in> {''$.nodes'', ''$.edges''}"

definition merge_keys :: "dict \<Rightarrow> dict \<Rightarrow> dict \<Rightarrow> string list" where
  "merge_keys b m t = sort (remdups (dkeys b @ dkeys m @ dkeys t))"

definition present_members :: "(string \<times> pyval option \<times> merge_conflict list) list \<Rightarrow> dict" where
  "present_members rs = concat (map (\<lambda>(k, v, _). case v of None \<Rightarrow> [] | Some x \<Rightarrow> [(k, x)]) rs)"

definition member_conflicts :: "(string \<times> pyval option \<times> merge_conflict list) list \<Rightarrow> merge_conflict list" where
  "member_conflicts rs = concat (map (\<lambda>(_, _, cs). cs) rs)"

text \<open>Sizes of values that may be missing, for termination.\<close>

definition opt_size :: "pyval option \<Rightarrow> nat" where
  "opt_size v = (case v of None \<Rightarrow> 0 | Some x \<Rightarrow> Suc (size x))"

lemma graph_member_size: "map_of d k = Some v \<Longrightarrow> size v < size (PDict d)"
  by (induction d) (auto split: if_splits)

lemma mapping_child_size:
  "v \<noteq> None \<Longrightarrow> opt_size (map_of (mapping_or_empty v) k) < opt_size v"
  "opt_size (map_of (mapping_or_empty v) k) \<le> opt_size v"
proof -
  have child: "opt_size (map_of d k) < opt_size (Some (PDict d))" for d
    using graph_member_size [of d k] by (cases "map_of d k") (auto simp: opt_size_def)
  have "opt_size (map_of (mapping_or_empty (Some x)) k) < opt_size (Some x)" for x
    using child by (cases x) (simp_all add: mapping_or_empty_def, simp_all add: opt_size_def)
  moreover have "opt_size (map_of (mapping_or_empty None) k) = 0" by (simp add: mapping_or_empty_def opt_size_def)
  ultimately show "v \<noteq> None \<Longrightarrow> opt_size (map_of (mapping_or_empty v) k) < opt_size v"
    "opt_size (map_of (mapping_or_empty v) k) \<le> opt_size v"
    by (cases v; simp add: less_imp_le)+
qed

lemma keyed_items_from_members:
  "keyed_items_from r items = Some d \<Longrightarrow> map_of d k = Some v \<Longrightarrow> map_of r k = Some v \<or> v \<in> set items"
proof (induction items arbitrary: r)
  case (Cons item items)
  from Cons.prems obtain s where "keyed_items_from (dput s item r) items = Some d" by (auto split: pyval.splits)
  from Cons.IH [OF this Cons.prems(2)] show ?case by (auto split: if_splits)
qed simp

lemma list_child_size:
  assumes "keyed_items v = Some d"
  shows "opt_size (map_of d k) \<le> opt_size v" "v \<noteq> None \<Longrightarrow> opt_size (map_of d k) < opt_size v"
proof -
  have "opt_size (map_of d k) < Suc (size (PList items))" if "keyed_items_from [] items = Some d" for items
  proof (cases "map_of d k")
    case (Some x)
    with keyed_items_from_members [OF that] have "x \<in> set items" by auto
    with Some show ?thesis by (simp add: opt_size_def size_list_estimation' less_Suc_eq_le)
  qed (simp add: opt_size_def)
  with assms show "opt_size (map_of d k) \<le> opt_size v" "v \<noteq> None \<Longrightarrow> opt_size (map_of d k) < opt_size v"
    by (auto simp: keyed_items_def opt_size_def less_imp_le split: option.splits pyval.splits)
qed

function merge_value ::
  "pyval option \<Rightarrow> pyval option \<Rightarrow> pyval option \<Rightarrow> string \<Rightarrow> pyval option \<times> merge_conflict list" where
  "merge_value base ours theirs path =
     (if opt_eq ours theirs then (ours, [])
      else if opt_eq ours base then (theirs, [])
      else if opt_eq theirs base then (ours, [])
      else if are_mappings base ours theirs then
        (let b = mapping_or_empty base; m = mapping_or_empty ours; t = mapping_or_empty theirs;
             rs = map (\<lambda>k. (k, merge_value (map_of b k) (map_of m k) (map_of t k) (path @ ''.'' @ k))) (merge_keys b m t) in
         (Some (PDict (present_members rs)), member_conflicts rs))
      else if is_keyed_list_path path \<and> are_lists base ours theirs then
        (case (keyed_items base, keyed_items ours, keyed_items theirs) of
           (Some b, Some m, Some t) \<Rightarrow>
             (let rs = map (\<lambda>k. (k, merge_value (map_of b k) (map_of m k) (map_of t k) (path @ ''['' @ k @ '']''))) (merge_keys b m t) in
              (Some (PList (map snd (present_members rs))), member_conflicts rs))
         | _ \<Rightarrow> (ours, [(path, ''missing_item_identity'')]))
      else (ours, [(path, ''concurrent_change'')]))"
  by pat_completeness auto
termination
  by (relation "measure (\<lambda>(base, ours, theirs, path). opt_size ours + opt_size theirs)")
    (auto simp: are_mappings_def are_lists_def intro!: add_less_le_mono
      intro: mapping_child_size list_child_size split: option.splits)

declare merge_value.simps [simp del]

definition dedupe_conflicts :: "merge_conflict list \<Rightarrow> merge_conflict list" where
  "dedupe_conflicts conflicts = rev (remdups (rev conflicts))"

definition merge_pipeline_graphs :: "dict \<Rightarrow> dict \<Rightarrow> dict \<Rightarrow> dict \<times> merge_conflict list" where
  "merge_pipeline_graphs base ours theirs =
     (case merge_value (Some (PDict base)) (Some (PDict ours)) (Some (PDict theirs)) ''$'' of
        (Some (PDict merged), conflicts) \<Rightarrow> (merged, dedupe_conflicts conflicts)
      | (_, conflicts) \<Rightarrow> (ours, dedupe_conflicts (conflicts @ [(''$'', ''document_shape'')])))"

section \<open>Positions of a document\<close>

text \<open>A step goes to a member of an object, or to an item of a keyed list by its identifier.\<close>

definition item_at :: "string \<Rightarrow> pyval option \<Rightarrow> string \<Rightarrow> pyval option" where
  "item_at path v k = (case v of
       Some (PDict d) \<Rightarrow> map_of d k
     | Some (PList items) \<Rightarrow> if is_keyed_list_path path
         then (case keyed_items v of Some d \<Rightarrow> map_of d k | None \<Rightarrow> None) else None
     | _ \<Rightarrow> None)"

definition child_path :: "string \<Rightarrow> pyval option \<Rightarrow> string \<Rightarrow> string" where
  "child_path path v k = (case v of Some (PList _) \<Rightarrow> path @ ''['' @ k @ '']'' | _ \<Rightarrow> path @ ''.'' @ k)"

fun at_path :: "string \<Rightarrow> pyval option \<Rightarrow> string list \<Rightarrow> pyval option" where
  "at_path path v [] = v"
| "at_path path v (k # ks) = at_path (child_path path v k) (item_at path v k) ks"

lemma at_path_None [simp]: "at_path path None ks = None"
  by (induction ks arbitrary: path) (simp_all add: item_at_def)

lemma ok_members: "ok_opt (Some (PDict d)) \<Longrightarrow> ok_opt (map_of d k)"
  by (auto simp: ok_opt_def dest!: map_of_SomeD)

lemma keyed_items_ok: "keyed_items v = Some d \<Longrightarrow> ok_opt v \<Longrightarrow> ok_opt (map_of d k)"
  by (cases v) (auto simp: keyed_items_def ok_opt_def dest!: keyed_items_from_members split: pyval.splits)

lemma item_at_ok: "ok_opt v \<Longrightarrow> ok_opt (item_at path v k)"
  using ok_members keyed_items_ok
  by (cases v) (auto simp: item_at_def ok_opt_def [of None] split: pyval.splits option.splits)

lemma get_val_PStr: "get_val d k = PStr s \<longleftrightarrow> map_of d k = Some (PStr s)"
  by (simp add: get_or_def split: option.split)

lemma identity_kept:
  assumes "py_eq (PDict d) (PDict d')" "wf_val (PDict d)" "wf_val (PDict d')" "get_val d k = PStr s"
  shows "get_val d' k = PStr s"
  using map_of_equal [OF assms(1-3), of k] assms(4) by (cases "map_of d' k") (simp_all add: get_val_PStr)

lemma equal_identity:
  assumes "py_eq (PDict d) (PDict d')" "wf_val (PDict d)" "wf_val (PDict d')"
  shows "get_val d ''id'' = PStr s \<longleftrightarrow> get_val d' ''id'' = PStr s"
  using identity_kept [OF assms] identity_kept [OF py_eq_sym [OF assms(2,3,1)] assms(3,2)] by blast

lemma keyed_items_equal:
  assumes "list_all2 py_eq xs ys" "\<forall>x \<in> set xs. wf_val x" "\<forall>y \<in> set ys. wf_val y"
    and "\<forall>k. opt_eq (map_of r k) (map_of r' k)"
  shows "(case (keyed_items_from r xs, keyed_items_from r' ys) of
      (None, None) \<Rightarrow> True | (Some d, Some d') \<Rightarrow> \<forall>k. opt_eq (map_of d k) (map_of d' k) | _ \<Rightarrow> False)"
  using assms
proof (induction xs ys arbitrary: r r' rule: list_all2_induct)
  case (Cons x xs y ys)
  show ?case
  proof (cases "is_mapping x")
    case True
    then obtain d d' where d: "x = PDict d" "y = PDict d'" using Cons.hyps(1) by (cases x) auto
    with Cons.hyps Cons.prems have same: "get_val d ''id'' = PStr s \<longleftrightarrow> get_val d' ''id'' = PStr s" for s
      by (intro equal_identity) auto
    show ?thesis
    proof (cases "\<exists>s. get_val d ''id'' = PStr s")
      case True
      then obtain s where s: "get_val d ''id'' = PStr s" "get_val d' ''id'' = PStr s" using same by blast
      have "\<forall>k. opt_eq (map_of (dput s x r) k) (map_of (dput s y r') k)"
        using Cons.prems(3) Cons.hyps(1) by simp
      with Cons.IH [of "dput s x r" "dput s y r'"] Cons.prems d s show ?thesis by simp
    next
      case False
      with same have "keyed_items_from r (x # xs) = None" "keyed_items_from r' (y # ys) = None"
        unfolding d by (auto split: pyval.splits)
      then show ?thesis by simp
    qed
  next
    case False
    then have "\<not> is_mapping y" using Cons.hyps(1) Cons.prems py_eq_sym [of x y] by (cases y) (auto simp del: py_eq_simps simp: py_eq_simps(4))
    with False have "keyed_items_from r (x # xs) = None" "keyed_items_from r' (y # ys) = None"
      by (cases x; cases y; simp)+
    then show ?thesis by simp
  qed
qed simp

lemma item_at_equal:
  assumes "opt_eq v w" "ok_opt v" "ok_opt w"
  shows "opt_eq (item_at path v k) (item_at path w k) \<and> (child_path path v k = child_path path w k \<or> item_at path v k = None)"
proof (cases v)
  case None
  with assms(1) show ?thesis by (cases w) (auto simp: item_at_def)
next
  case (Some x)
  then obtain y where y: "w = Some y" "py_eq x y" using assms(1) by (cases w) auto
  have wf: "wf_val x" "wf_val y" using assms(2,3) Some y(1) by (auto simp: ok_opt_def)
  consider d where "x = PDict d" | xs where "x = PList xs" | "\<not> is_mapping x" "\<not> is_sequence x" by (cases x) auto
  then show ?thesis
  proof cases
    case 1
    with y obtain d' where d': "y = PDict d'" by auto
    with 1 y wf map_of_equal [of d d'] show ?thesis by (simp add: Some item_at_def child_path_def)
  next
    case 2
    with y obtain ys where ys: "y = PList ys" "list_all2 py_eq xs ys" by auto
    from keyed_items_equal [OF ys(2), of "[]" "[]"] wf 2 ys(1)
    have "(case (keyed_items_from [] xs, keyed_items_from [] ys) of
      (None, None) \<Rightarrow> True | (Some d, Some d') \<Rightarrow> \<forall>k. opt_eq (map_of d k) (map_of d' k) | _ \<Rightarrow> False)" by simp
    with 2 y(1) ys(1) show ?thesis
      by (auto simp: Some item_at_def child_path_def keyed_items_def split: option.splits)
  next
    case 3
    have "\<not> is_mapping y \<and> \<not> is_sequence y"
      using 3 py_eq_sym [OF wf y(2)] by (cases y) auto
    with 3 show ?thesis unfolding Some y(1) by (cases x; cases y) (simp_all add: item_at_def)
  qed
qed

lemma at_path_equal: "opt_eq v w \<Longrightarrow> ok_opt v \<Longrightarrow> ok_opt w \<Longrightarrow> opt_eq (at_path path v ks) (at_path path w ks)"
proof (induction ks arbitrary: path v w)
  case (Cons k ks)
  note step = item_at_equal [OF Cons.prems, of path k]
  note eq = step [THEN conjunct1] and child = step [THEN conjunct2]
  show ?case
  proof (cases "item_at path v k = None")
    case True
    with eq have "item_at path w k = None" by (cases "item_at path w k") auto
    with True show ?thesis by simp
  next
    case False
    with child have "child_path path v k = child_path path w k" by simp
    with Cons.IH [OF eq item_at_ok [OF Cons.prems(2)] item_at_ok [OF Cons.prems(3)]] show ?thesis by simp
  qed
qed simp

lemma at_path_ok: "ok_opt v \<Longrightarrow> ok_opt (at_path path v ks)"
  by (induction ks arbitrary: path v) (simp_all add: item_at_ok)

section \<open>Positions of the merge\<close>

lemma merge_missing [simp]: "merge_value None None None path = (None, [])"
  by (simp add: merge_value.simps)

lemma dkeys_present_members: "set (dkeys (present_members rs)) \<subseteq> set (map fst rs)"
  unfolding present_members_def dkeys_def by (force split: option.splits)

lemma distinct_present_members: "distinct (map fst rs) \<Longrightarrow> distinct (dkeys (present_members rs))"
proof (induction rs)
  case (Cons r rs)
  obtain k v cs where r: "r = (k, v, cs)" by (cases r)
  with Cons dkeys_present_members [of rs] show ?case
    by (cases v) (auto simp: present_members_def)
qed (simp add: present_members_def)

lemma map_of_present_members:
  "distinct ks \<Longrightarrow> map_of (present_members (map (\<lambda>k. (k, f k)) ks)) k = (if k \<in> set ks then fst (f k) else None)"
proof (induction ks)
  case (Cons a ks)
  have "present_members (map (\<lambda>k. (k, f k)) (a # ks))
      = (case fst (f a) of None \<Rightarrow> [] | Some x \<Rightarrow> [(a, x)]) @ present_members (map (\<lambda>k. (k, f k)) ks)"
    by (cases "f a") (simp add: present_members_def)
  with Cons show ?case by (cases "fst (f a)") auto
qed (simp add: present_members_def)

text \<open>What the merge of two objects, or of two keyed lists, has at a step.\<close>

definition member_results ::
  "(string \<Rightarrow> string) \<Rightarrow> dict \<Rightarrow> dict \<Rightarrow> dict \<Rightarrow> (string \<times> pyval option \<times> merge_conflict list) list" where
  "member_results child b m t = map (\<lambda>k. (k, merge_value (map_of b k) (map_of m k) (map_of t k) (child k))) (merge_keys b m t)"

lemma merge_keys_distinct [simp]: "distinct (merge_keys b m t)"
  by (simp add: merge_keys_def)

lemma member_results_at:
  "map_of (present_members (member_results child b m t)) k = fst (merge_value (map_of b k) (map_of m k) (map_of t k) (child k))"
proof (cases "k \<in> set (merge_keys b m t)")
  case False
  then have "map_of b k = None" "map_of m k = None" "map_of t k = None"
    by (auto simp: merge_keys_def dkeys_def map_of_eq_None_iff)
  with False show ?thesis by (simp add: member_results_def map_of_present_members)
qed (simp add: member_results_def map_of_present_members)

lemma member_results_conflicts:
  assumes "member_conflicts (member_results child b m t) = []"
  shows "snd (merge_value (map_of b k) (map_of m k) (map_of t k) (child k)) = []"
proof (cases "k \<in> set (merge_keys b m t)")
  case False
  then have "map_of b k = None" "map_of m k = None" "map_of t k = None"
    by (auto simp: merge_keys_def dkeys_def map_of_eq_None_iff)
  then show ?thesis by simp
next
  case True
  with assms show ?thesis
    by (cases "merge_value (map_of b k) (map_of m k) (map_of t k) (child k)")
      (fastforce simp: member_conflicts_def member_results_def split: prod.splits)
qed

lemma merge_mappings:
  assumes "\<not> opt_eq ours theirs" "\<not> opt_eq ours base" "\<not> opt_eq theirs base" "are_mappings base ours theirs"
  shows "merge_value base ours theirs path =
    (let rs = member_results (\<lambda>k. path @ ''.'' @ k) (mapping_or_empty base) (mapping_or_empty ours) (mapping_or_empty theirs) in
     (Some (PDict (present_members rs)), member_conflicts rs))"
  unfolding merge_value.simps [of base ours theirs path] if_not_P [OF assms(1)] if_not_P [OF assms(2)] if_not_P [OF assms(3)] if_P [OF assms(4)]
    member_results_def Let_def ..

lemma merge_lists:
  assumes "\<not> opt_eq ours theirs" "\<not> opt_eq ours base" "\<not> opt_eq theirs base" "\<not> are_mappings base ours theirs"
    and lists: "is_keyed_list_path path \<and> are_lists base ours theirs"
    and items: "keyed_items base = Some b" "keyed_items ours = Some m" "keyed_items theirs = Some t"
  shows "merge_value base ours theirs path =
    (let rs = member_results (\<lambda>k. path @ ''['' @ k @ '']'') b m t in
     (Some (PList (map snd (present_members rs))), member_conflicts rs))"
  unfolding merge_value.simps [of base ours theirs path] if_not_P [OF assms(1)] if_not_P [OF assms(2)] if_not_P [OF assms(3)] if_not_P [OF assms(4)]
    if_P [OF lists] items member_results_def Let_def prod.case option.case ..

text \<open>Items keep their identifier.\<close>

definition identified :: "string \<Rightarrow> pyval option \<Rightarrow> bool" where
  "identified k v \<longleftrightarrow> v = None \<or> (\<exists>d. v = Some (PDict d) \<and> map_of d ''id'' = Some (PStr k))"

lemma merge_identified:
  assumes "identified k base" "identified k ours" "identified k theirs"
  shows "identified k (fst (merge_value base ours theirs path))"
proof -
  have list: "\<not> are_lists base ours theirs" using assms(2) by (auto simp: are_lists_def identified_def)
  consider "opt_eq ours theirs" | "\<not> opt_eq ours theirs" "opt_eq ours base" | "\<not> opt_eq ours theirs" "\<not> opt_eq ours base" "opt_eq theirs base"
    | "\<not> opt_eq ours theirs" "\<not> opt_eq ours base" "\<not> opt_eq theirs base" "are_mappings base ours theirs"
    | "\<not> opt_eq ours theirs" "\<not> opt_eq ours base" "\<not> opt_eq theirs base" "\<not> are_mappings base ours theirs" by blast
  then show ?thesis
  proof cases
    case 4
    then obtain m t where "ours = Some (PDict m)" "theirs = Some (PDict t)" "map_of m ''id'' = Some (PStr k)" "map_of t ''id'' = Some (PStr k)"
      using assms(2,3) by (auto simp: are_mappings_def identified_def)
    then have "map_of (present_members (member_results (\<lambda>k. path @ ''.'' @ k) (mapping_or_empty base) (mapping_or_empty ours) (mapping_or_empty theirs))) ''id''
        = Some (PStr k)"
      by (simp add: member_results_at mapping_or_empty_def merge_value.simps)
    then show ?thesis unfolding merge_mappings [OF 4] Let_def identified_def by simp
  qed (use assms list in \<open>simp_all add: merge_value.simps [of base ours theirs path]\<close>)
qed

lemma keyed_items_from_identified:
  "keyed_items_from r items = Some d \<Longrightarrow> \<forall>k. identified k (map_of r k) \<Longrightarrow> identified k (map_of d k)"
proof (induction items arbitrary: r)
  case (Cons item items)
  from Cons.prems(1) obtain e s where item: "item = PDict e" "get_val e ''id'' = PStr s" "keyed_items_from (dput s item r) items = Some d"
    by (auto split: pyval.splits)
  then have "\<forall>k. identified k (map_of (dput s item r) k)" using Cons.prems(2) by (auto simp: identified_def get_val_PStr)
  with Cons.IH item(3) show ?case by blast
qed simp

lemma keyed_items_identified: "keyed_items v = Some d \<Longrightarrow> identified k (map_of d k)"
  by (auto simp: keyed_items_def identified_def [of _ None] intro: keyed_items_from_identified split: option.splits pyval.splits)

lemma keyed_items_of_members:
  assumes "\<forall>(k, x) \<in> set ms. identified k (Some x)" "distinct (dkeys (r @ ms))"
  shows "keyed_items_from r (map snd ms) = Some (r @ ms)"
  using assms
proof (induction ms arbitrary: r)
  case (Cons kx ms)
  obtain k x where kx: "kx = (k, x)" by (cases kx)
  with Cons.prems(1) obtain d where d: "x = PDict d" "get_val d ''id'' = PStr k" by (auto simp: identified_def get_val_PStr)
  have "k \<notin> set (dkeys r)" using Cons.prems(2) kx by auto
  then have "dput k x r = r @ [(k, x)]" by (rule dput_append)
  with Cons.IH [of "r @ [(k, x)]"] Cons.prems kx d show ?case by simp
qed simp

lemma merged_list_items:
  assumes "keyed_items base = Some b" "keyed_items ours = Some m" "keyed_items theirs = Some t"
  shows "keyed_items (Some (PList (map snd (present_members (member_results child b m t))))) = Some (present_members (member_results child b m t))"
proof -
  let ?ms = "present_members (member_results child b m t)"
  have distinct: "distinct (dkeys ?ms)"
    by (rule distinct_present_members) (simp add: member_results_def comp_def)
  have "identified k (Some x)" if "(k, x) \<in> set ?ms" for k x
  proof -
    have "map_of ?ms k = Some x" using that distinct by (simp add: dkeys_def)
    moreover have "identified k (fst (merge_value (map_of b k) (map_of m k) (map_of t k) (child k)))"
      using assms by (intro merge_identified keyed_items_identified)
    ultimately show ?thesis by (simp add: member_results_at)
  qed
  then have "keyed_items_from [] (map snd ?ms) = Some ([] @ ?ms)"
    using distinct by (intro keyed_items_of_members) auto
  then show ?thesis by (simp add: keyed_items_def)
qed

section \<open>One-sided changes\<close>

text \<open>What the merge may have at a position, from what the three documents have there and the conflicts.\<close>

definition one_sided :: "pyval option \<Rightarrow> pyval option \<Rightarrow> pyval option \<Rightarrow> pyval option \<Rightarrow> merge_conflict list \<Rightarrow> bool" where
  "one_sided base ours theirs merged conflicts \<longleftrightarrow>
     (opt_eq theirs base \<longrightarrow> opt_eq merged ours) \<and> (conflicts = [] \<longrightarrow> opt_eq ours base \<longrightarrow> opt_eq merged theirs)"

lemma one_sidedI:
  assumes "ok_opt base" "ok_opt ours" "ok_opt theirs"
    and "opt_eq ours theirs \<and> m = ours \<or> opt_eq ours base \<and> m = theirs \<or> opt_eq theirs base \<and> m = ours \<or> m = ours \<and> cs \<noteq> []"
  shows "one_sided base ours theirs m cs"
  using assms(4)
proof (elim disjE conjE)
  assume "opt_eq ours theirs" "m = ours"
  then show ?thesis using opt_eq_refl [OF assms(2)] by (simp add: one_sided_def)
next
  assume eq: "opt_eq ours base" "m = theirs"
  then have "opt_eq theirs base \<Longrightarrow> opt_eq theirs ours"
    using opt_eq_trans [OF assms(3,1,2)] opt_eq_sym [OF assms(2,1)] by blast
  with eq show ?thesis using opt_eq_refl [OF assms(3)] by (simp add: one_sided_def)
next
  assume eq: "opt_eq theirs base" "m = ours"
  then have "opt_eq ours base \<Longrightarrow> opt_eq ours theirs"
    using opt_eq_trans [OF assms(2,1,3)] opt_eq_sym [OF assms(3,1)] by blast
  with eq show ?thesis using opt_eq_refl [OF assms(2)] by (simp add: one_sided_def)
next
  assume "m = ours" "cs \<noteq> []"
  then show ?thesis using opt_eq_refl [OF assms(2)] by (simp add: one_sided_def)
qed

lemma one_sided_missing: "one_sided None None None None cs"
  by (simp add: one_sided_def)

text \<open>The merge either takes a side, or goes to the members.\<close>

lemma merge_cases:
  obtains (ours) "opt_eq ours theirs" "merge_value base ours theirs path = (ours, [])"
  | (theirs) "opt_eq ours base" "merge_value base ours theirs path = (theirs, [])"
  | (unchanged) "opt_eq theirs base" "merge_value base ours theirs path = (ours, [])"
  | (conflict) cs where "cs \<noteq> []" "merge_value base ours theirs path = (ours, cs)"
  | (mappings) "are_mappings base ours theirs" "\<not> opt_eq ours theirs" "\<not> opt_eq ours base" "\<not> opt_eq theirs base"
  | (lists) b m t where "is_keyed_list_path path \<and> are_lists base ours theirs" "\<not> are_mappings base ours theirs"
      "\<not> opt_eq ours theirs" "\<not> opt_eq ours base" "\<not> opt_eq theirs base"
      "keyed_items base = Some b" "keyed_items ours = Some m" "keyed_items theirs = Some t"
proof -
  note def = merge_value.simps [of base ours theirs path]
  consider "opt_eq ours theirs" | "\<not> opt_eq ours theirs" "opt_eq ours base" | "\<not> opt_eq ours theirs" "\<not> opt_eq ours base" "opt_eq theirs base"
    | "\<not> opt_eq ours theirs" "\<not> opt_eq ours base" "\<not> opt_eq theirs base" by blast
  then show thesis
  proof cases
    case 4
    note neq = this
    show thesis
    proof (cases "are_mappings base ours theirs")
      case True
      then show thesis using neq mappings by blast
    next
      case maps: False
      show thesis
      proof (cases "is_keyed_list_path path \<and> are_lists base ours theirs")
        case paths: True
        show thesis
        proof (cases "keyed_items base = None \<or> keyed_items ours = None \<or> keyed_items theirs = None")
          case True
          then have "merge_value base ours theirs path = (ours, [(path, ''missing_item_identity'')])"
            unfolding def if_not_P [OF neq(1)] if_not_P [OF neq(2)] if_not_P [OF neq(3)] if_not_P [OF maps] if_P [OF paths]
            by (auto split: option.splits)
          then show thesis by (rule conflict [rotated]) simp
        next
          case False
          then obtain b m t where "keyed_items base = Some b" "keyed_items ours = Some m" "keyed_items theirs = Some t" by auto
          then show thesis by (rule lists [OF paths maps neq])
        qed
      next
        case False
        with maps neq have "merge_value base ours theirs path = (ours, [(path, ''concurrent_change'')])"
          by (simp add: def del: de_Morgan_conj)
        then show thesis by (rule conflict [rotated]) simp
      qed
    qed
  qed (simp_all add: def ours theirs unchanged)
qed

lemma mapping_step:
  assumes "are_mappings base ours theirs" "v \<in> {base, ours, theirs}"
  shows "item_at path v k = map_of (mapping_or_empty v) k" "child_path path v k = path @ ''.'' @ k"
  using assms by (auto simp: are_mappings_def item_at_def child_path_def mapping_or_empty_def split: option.splits pyval.splits)

lemma list_step:
  assumes "is_keyed_list_path path" "keyed_items v = Some d"
  shows "item_at path v k = map_of d k" "v \<noteq> None \<Longrightarrow> child_path path v k = path @ ''['' @ k @ '']''"
  using assms by (auto simp: item_at_def child_path_def keyed_items_def split: option.splits pyval.splits)

lemma at_path_step:
  "item_at path v k = w \<Longrightarrow> child_path path v k = p \<or> w = None \<Longrightarrow> at_path path v (k # ks) = at_path p w ks"
  by auto

lemma merge_one_sided:
  assumes "ok_opt base" "ok_opt ours" "ok_opt theirs"
  shows "one_sided (at_path path base ks) (at_path path ours ks) (at_path path theirs ks)
    (at_path path (fst (merge_value base ours theirs path)) ks) (snd (merge_value base ours theirs path))"
  using assms
proof (induction ks arbitrary: base ours theirs path)
  case (Cons k ks)
  note ok = Cons.prems
  have sides: "one_sided (at_path path base (k # ks)) (at_path path ours (k # ks)) (at_path path theirs (k # ks)) (at_path path m (k # ks)) cs"
    if "opt_eq ours theirs \<and> m = ours \<or> opt_eq ours base \<and> m = theirs \<or> opt_eq theirs base \<and> m = ours \<or> m = ours \<and> cs \<noteq> []" for m cs
    using that ok at_path_equal by (intro one_sidedI at_path_ok) blast+
  show ?case
  proof (cases rule: merge_cases [of ours theirs base path])
    case mappings
    let ?b = "mapping_or_empty base" and ?m = "mapping_or_empty ours" and ?t = "mapping_or_empty theirs"
    let ?p = "path @ ''.'' @ k" and ?rs = "member_results (\<lambda>k. path @ ''.'' @ k) (mapping_or_empty base) (mapping_or_empty ours) (mapping_or_empty theirs)"
    let ?w = "merge_value (map_of ?b k) (map_of ?m k) (map_of ?t k) ?p"
    have res: "merge_value base ours theirs path = (Some (PDict (present_members ?rs)), member_conflicts ?rs)"
      using merge_mappings [OF mappings(2-4,1)] by (simp only: Let_def)
    have step: "at_path path v (k # ks) = at_path ?p (map_of (mapping_or_empty v) k) ks" if "v \<in> {base, ours, theirs}" for v
      using mapping_step [OF mappings(1) that] by (intro at_path_step) auto
    have merged: "at_path path (Some (PDict (present_members ?rs))) (k # ks) = at_path ?p (fst ?w) ks"
      by (rule at_path_step) (simp_all add: item_at_def child_path_def member_results_at)
    have "ok_opt (map_of (mapping_or_empty v) k)" if "v \<in> {base, ours, theirs}" for v
      using item_at_ok [of v path k] mapping_step(1) [OF mappings(1) that] ok that by auto
    then have "one_sided (at_path ?p (map_of ?b k) ks) (at_path ?p (map_of ?m k) ks) (at_path ?p (map_of ?t k) ks) (at_path ?p (fst ?w) ks) (snd ?w)"
      by (intro Cons.IH) simp_all
    moreover have "member_conflicts ?rs = [] \<Longrightarrow> snd ?w = []" by (rule member_results_conflicts)
    ultimately show ?thesis
      unfolding res fst_conv snd_conv merged using step by (simp add: one_sided_def del: at_path.simps)
  next
    case (lists b m t)
    let ?p = "path @ ''['' @ k @ '']''" and ?rs = "member_results (\<lambda>k. path @ ''['' @ k @ '']'') b m t"
    let ?w = "merge_value (map_of b k) (map_of m k) (map_of t k) ?p"
    have res: "merge_value base ours theirs path = (Some (PList (map snd (present_members ?rs))), member_conflicts ?rs)"
      using merge_lists [OF lists(3-5,2,1,6-8)] by (simp only: Let_def)
    have step: "at_path path v (k # ks) = at_path ?p (map_of d k) ks" if "keyed_items v = Some d" for v d
      using list_step [OF lists(1) [THEN conjunct1] that] that
      by (intro at_path_step) (auto simp: keyed_items_def split: option.splits)
    note merged = step [OF merged_list_items [OF lists(6-8), of "\<lambda>k. path @ ''['' @ k @ '']''"], unfolded member_results_at]
    have "one_sided (at_path ?p (map_of b k) ks) (at_path ?p (map_of m k) ks) (at_path ?p (map_of t k) ks) (at_path ?p (fst ?w) ks) (snd ?w)"
      using ok lists(6-8) by (intro Cons.IH keyed_items_ok)
    moreover have "member_conflicts ?rs = [] \<Longrightarrow> snd ?w = []" by (rule member_results_conflicts)
    ultimately show ?thesis
      unfolding res fst_conv snd_conv merged step [OF lists(6)] step [OF lists(7)] step [OF lists(8)] by (simp add: one_sided_def)
  qed (simp_all only: fst_conv snd_conv, (rule sides, blast)+)
next
  case Nil
  show ?case
  proof (cases rule: merge_cases [of ours theirs base path])
    case mappings
    then show ?thesis by (simp add: merge_mappings Let_def one_sided_def)
  next
    case (lists b m t)
    then show ?thesis by (simp add: one_sided_def)
  qed (simp_all only: fst_conv snd_conv at_path.simps, (rule one_sidedI [OF Nil], blast)+)
qed

text \<open>
  C35: In the three-way merge of pipeline graphs, at every position of the document (a member of an object, or
  a node or edge by its identifier), what only our side changed is what the merged graph has; and when the
  merge reports no conflict, what only their side changed, added or deleted is what it has too.
\<close>
theorem merge_keeps_one_sided_changes:
  assumes "wf_val (PDict base)" "wf_val (PDict ours)" "wf_val (PDict theirs)"
    and "nan_free (PDict base)" "nan_free (PDict ours)" "nan_free (PDict theirs)"
    and "merge_pipeline_graphs base ours theirs = (merged, conflicts)"
  shows "one_sided (at_path ''$'' (Some (PDict base)) ks) (at_path ''$'' (Some (PDict ours)) ks)
    (at_path ''$'' (Some (PDict theirs)) ks) (at_path ''$'' (Some (PDict merged)) ks) conflicts"
proof -
  let ?v = "merge_value (Some (PDict base)) (Some (PDict ours)) (Some (PDict theirs)) ''$''"
  have ok: "ok_opt (Some (PDict base))" "ok_opt (Some (PDict ours))" "ok_opt (Some (PDict theirs))"
    using assms(1-6) unfolding ok_opt_def by blast+
  have "\<exists>d. fst ?v = Some (PDict d)"
    by (rule merge_cases [of "Some (PDict ours)" "Some (PDict theirs)" "Some (PDict base)" "''$''"])
      (simp_all add: merge_mappings Let_def are_lists_def del: opt_eq.simps)
  then obtain d cs where v: "?v = (Some (PDict d), cs)" by (metis prod.collapse)
  with assms(7) have "merged = d" "conflicts = dedupe_conflicts cs" by (simp_all add: merge_pipeline_graphs_def)
  moreover have "dedupe_conflicts cs = [] \<longleftrightarrow> cs = []" by (simp add: dedupe_conflicts_def)
  ultimately show ?thesis using merge_one_sided [OF ok, of "''$''" ks] unfolding v one_sided_def by simp
qed

definition example_node :: "string \<Rightarrow> string \<Rightarrow> pyval" where
  "example_node i label = PDict [(''id'', PStr i), (''label'', PStr label)]"

definition example_base :: dict where
  "example_base = [(''nodes'', PList [example_node ''a'' ''A'', example_node ''b'' ''B''])]"

definition example_ours :: dict where
  "example_ours = [(''nodes'', PList [example_node ''a'' ''A1'', example_node ''b'' ''B''])]"

definition example_theirs :: dict where
  "example_theirs = [(''nodes'', PList [example_node ''c'' ''C'', example_node ''a'' ''A'']), (''edges'', PList [])]"

definition example_merged :: dict where
  "example_merged = [(''edges'', PList []), (''nodes'', PList [example_node ''a'' ''A1'', example_node ''c'' ''C''])]"

lemmas example_graph_defs = example_node_def example_base_def example_ours_def example_theirs_def example_merged_def

lemma example_merge: "merge_pipeline_graphs example_base example_ours example_theirs = (example_merged, [])"
  by code_simp

theorem merge_keeps_one_sided_changes_witness:
  "one_sided (Some (PStr ''B'')) (Some (PStr ''B'')) None None []
   \<and> one_sided (Some (PStr ''A'')) (Some (PStr ''A1'')) (Some (PStr ''A'')) (Some (PStr ''A1'')) []"
  using merge_keeps_one_sided_changes [OF _ _ _ _ _ _ example_merge, of "[''nodes'', ''b'', ''label'']"]
    merge_keeps_one_sided_changes [OF _ _ _ _ _ _ example_merge, of "[''nodes'', ''a'', ''label'']"]
  by (simp add: example_graph_defs item_at_def child_path_def is_keyed_list_path_def keyed_items_def)

text \<open>Of two nodes with the same identifier, the merge of changed lists keeps only the last, without a conflict.\<close>

lemma duplicate_nodes_dropped:
  "merge_pipeline_graphs [(''nodes'', PList [])] [(''nodes'', PList [example_node ''a'' ''A1'', example_node ''a'' ''A2''])]
     [(''nodes'', PList [example_node ''c'' ''C''])]
   = ([(''nodes'', PList [example_node ''a'' ''A2'', example_node ''c'' ''C''])], [])"
  by code_simp

end
