(* ===== verification/Graph_Normalizer.thy ===== *)
theory Graph_Normalizer
  imports Pipeline_Catalog
begin

text \<open>
  \<^verbatim>\<open>application/services/pipeline_graph_normalizer.py\<close>: reading a stored graph of schema version 1 or 2
  into the canonical rows. \<^verbatim>\<open>_clone_object\<close> and \<^verbatim>\<open>_clone_value\<close> copy JSON values and are the identity
  here. The rows a canonical graph is stored as are \<open>graph_payload\<close>. Shown: reading the stored form of a
  canonical graph back gives that graph.
\<close>

section \<open>Readers\<close>

definition graph_required_text :: "pyval \<Rightarrow> string \<Rightarrow> string result" where
  "graph_required_text v f =
     (let e = Inl (ValidationFailed (''pipeline graph '' @ f @ '' is required'')) in
      case v of PStr s \<Rightarrow> if py_strip s = [] then e else Inr (py_strip s) | _ \<Rightarrow> e)"

definition graph_optional_text :: "pyval \<Rightarrow> string" where
  "graph_optional_text v = (case v of PStr s \<Rightarrow> py_strip s | _ \<Rightarrow> [])"

definition graph_object_rows :: "pyval \<Rightarrow> string \<Rightarrow> dict list result" where
  "graph_object_rows v f = (case v of
       PList items \<Rightarrow> map_result (\<lambda>item. case item of PDict d \<Rightarrow> Inr d
         | _ \<Rightarrow> Inl (ValidationFailed (''pipeline graph '' @ f @ '' item must be an object''))) items
     | _ \<Rightarrow> Inl (ValidationFailed (''pipeline graph '' @ f @ '' must be a list'')))"

definition optional_object_rows :: "pyval \<Rightarrow> dict list result" where
  "optional_object_rows v = (if v = PNone then Inr [] else graph_object_rows v ''tests'')"

definition graph_optional_object :: "pyval \<Rightarrow> string \<Rightarrow> dict result" where
  "graph_optional_object v f = (case v of PNone \<Rightarrow> Inr [] | PDict d \<Rightarrow> Inr d
     | _ \<Rightarrow> Inl (ValidationFailed (''pipeline graph '' @ f @ '' must be an object'')))"

definition optional_node_object :: "dict \<Rightarrow> string \<Rightarrow> dict result" where
  "optional_node_object node f = (case get_val node f of PNone \<Rightarrow> Inr [] | PDict d \<Rightarrow> Inr d
     | _ \<Rightarrow> Inl (ValidationFailed (''pipeline graph node '' @ f @ '' must be an object'')))"

definition pipeline_graph_schema_version :: "dict \<Rightarrow> int result" where
  "pipeline_graph_schema_version graph = (case plain_int (get_or (PInt 1) graph ''schemaVersion'') of
       None \<Rightarrow> Inl (ValidationFailed ''pipeline graph schemaVersion must be an integer'')
     | Some n \<Rightarrow> if n \<in> {1, 2} then Inr n
         else Inl (ValidationFailed ''unsupported pipeline graph schemaVersion''))"

definition other_entries :: "string list \<Rightarrow> dict \<Rightarrow> dict" where
  "other_entries ks d = filter (\<lambda>(k, _). k \<notin> set ks) d"

section \<open>Nodes\<close>

definition legacy_descriptor_by_type :: "(string \<times> string) list" where
  "legacy_descriptor_by_type = [(''dataset'', ''source.dataset''), (''sql'', ''transform.sql''), (''python'', ''transform.python''),
     (''join'', ''transform.join''), (''union'', ''transform.union''), (''select_cast'', ''transform.select_cast''),
     (''output_dataset'', ''output.dataset'')]"

definition normalize_join_type :: "string \<Rightarrow> string" where
  "normalize_join_type v =
     (let normalized = map (\<lambda>c. if c \<in> {CHR ''_'', CHR ''-''} then CHR '' '' else c) (py_lower (py_strip v)) in
      if normalized \<in> {''full'', ''full outer'', ''fullouter''} then ''full outer'' else normalized)"

definition with_join_type :: "dict \<Rightarrow> dict" where
  "with_join_type merged = (case get_val merged ''joinType'' of
       PStr t \<Rightarrow> dput ''joinType'' (PStr (normalize_join_type t)) merged
     | _ \<Rightarrow> merged)"

definition canonical_node_config :: "dict \<Rightarrow> dict result" where
  "canonical_node_config node =
     rbind (optional_node_object node ''config'') (\<lambda>config.
     rbind (optional_node_object node ''data'') (\<lambda>legacy.
     let merged = dupdate config legacy;
         merged = (if is_sequence (get_val node ''schema'') then dput ''schema'' (get_val node ''schema'') merged else merged) in
     Inr (with_join_type merged)))"

definition canonical_descriptor_config :: "string \<Rightarrow> dict \<Rightarrow> dict" where
  "canonical_descriptor_config descriptor_id config =
     (if descriptor_id = ''output.dataset'' \<and> \<not> truthy (get_val config ''outputDatasetRef'')
      then (case get_val config ''datasetRef'' of
          PStr s \<Rightarrow> if py_strip s = [] then config else dput ''outputDatasetRef'' (PStr (py_strip s)) config
        | _ \<Rightarrow> config)
      else config)"

definition graph_descriptor_id :: "dict \<Rightarrow> int \<Rightarrow> string result" where
  "graph_descriptor_id node version =
     (if version = 2 then graph_required_text (get_val node ''descriptorId'') ''node descriptorId''
      else rbind (graph_required_text (get_val node ''type'') ''node type'') (\<lambda>node_type.
        case map_of legacy_descriptor_by_type node_type of
          None \<Rightarrow> Inl (ValidationFailed ''unsupported legacy pipeline node type'')
        | Some d \<Rightarrow> Inr d))"

definition graph_spec_version :: "dict \<Rightarrow> int \<Rightarrow> int result" where
  "graph_spec_version node version =
     (case plain_int (if version = 2 then get_or (PInt 1) node ''specVersion'' else PInt 1) of
        Some n \<Rightarrow> if n < 1 then Inl (ValidationFailed ''pipeline node specVersion must be a positive integer'') else Inr n
      | None \<Rightarrow> Inl (ValidationFailed ''pipeline node specVersion must be a positive integer''))"

definition literal_node_kind :: "string \<Rightarrow> string result" where
  "literal_node_kind v = (if v \<in> {''source'', ''transform'', ''output''} then Inr v
     else Inl (ValidationFailed ''unsupported pipeline node kind''))"

definition graph_node_kind :: "dict \<Rightarrow> node_descriptor option \<Rightarrow> int \<Rightarrow> string result" where
  "graph_node_kind node descriptor version =
     (if version = 2 then rbind (graph_required_text (get_val node ''kind'') ''node kind'') literal_node_kind
      else case descriptor of
        None \<Rightarrow> Inl (ValidationFailed ''pipeline node descriptor not found'')
      | Some d \<Rightarrow> literal_node_kind (node_kind_value (ds_node_kind d)))"

definition node_keys :: "string list" where
  "node_keys = [''id'', ''kind'', ''descriptorId'', ''specVersion'', ''config'']"

definition normalize_node :: "int \<Rightarrow> dict \<Rightarrow> pipeline_node result" where
  "normalize_node version node =
     rbind (graph_required_text (get_val node ''id'') ''node id'') (\<lambda>node_id.
     rbind (graph_descriptor_id node version) (\<lambda>descriptor_id.
     rbind (graph_spec_version node version) (\<lambda>spec_version.
     rbind (graph_node_kind node (pipeline_node_descriptor descriptor_id spec_version) version) (\<lambda>kind.
     rbind (canonical_node_config node) (\<lambda>config.
     Inr \<lparr>nd_id = node_id, nd_kind = kind, nd_descriptor_id = descriptor_id, nd_spec_version = spec_version,
       nd_config = canonical_descriptor_config descriptor_id config,
       nd_rest = (if version = 2 then other_entries node_keys node else [])\<rparr>)))))"

section \<open>Join ports of graphs of version 1\<close>

definition explicit_join_ports :: "(nat \<times> dict) list \<Rightarrow> (nat \<times> string) list" where
  "explicit_join_ports incoming = concat (map (\<lambda>(index, edge).
     let v = (if truthy (get_val edge ''targetHandle'') then get_val edge ''targetHandle''
              else if truthy (get_val edge ''input'') then get_val edge ''input'' else get_val edge ''role'') in
     case v of PStr s \<Rightarrow> if py_lower s \<in> {''left'', ''right''} then [(index, py_lower s)] else []
     | _ \<Rightarrow> []) incoming)"

definition assign_configured_join_port ::
  "(nat \<times> string) list \<Rightarrow> (nat \<times> dict) list \<Rightarrow> pyval \<Rightarrow> string \<Rightarrow> (nat \<times> string) list" where
  "assign_configured_join_port assigned incoming source_value port = (case nonempty_text source_value of
       None \<Rightarrow> assigned
     | Some s \<Rightarrow> (case find (\<lambda>(index, edge). \<not> has_key assigned index \<and> get_val edge ''source'' = PStr s) incoming of
         None \<Rightarrow> assigned
       | Some (index, _) \<Rightarrow> dput index port assigned))"

definition text_or_empty :: "pyval \<Rightarrow> string" where
  "text_or_empty v = py_str (if truthy v then v else PStr [])"

definition edge_sort_key :: "nat \<times> dict \<Rightarrow> string \<times> string \<times> nat" where
  "edge_sort_key item = (case item of (index, edge) \<Rightarrow>
     (text_or_empty (get_val edge ''source''), text_or_empty (get_val edge ''id''), index))"

definition join_ports_for_node :: "dict \<Rightarrow> (nat \<times> dict) list \<Rightarrow> (nat \<times> string) list result" where
  "join_ports_for_node node incoming =
     rbind (canonical_node_config node) (\<lambda>config.
     let assigned = explicit_join_ports incoming;
         assigned = assign_configured_join_port assigned incoming (get_val config ''leftNodeId'') ''left'';
         assigned = assign_configured_join_port assigned incoming (get_val config ''rightNodeId'') ''right'';
         remaining = sort_key edge_sort_key (filter (\<lambda>(index, _). \<not> has_key assigned index) incoming);
         available = filter (\<lambda>port. port \<notin> snd ` set assigned) [''left'', ''right''] in
     Inr (dupdate assigned (zip (map fst remaining) available)))"

definition legacy_join_ports :: "dict list \<Rightarrow> dict list \<Rightarrow> (nat \<times> string) list result" where
  "legacy_join_ports edges nodes =
     (let join_nodes = dupdate [] (map (\<lambda>n. (py_str (get_val n ''id''), n)) (filter (\<lambda>n. get_val n ''type'' = PStr ''join'') nodes)) in
      fold_result (\<lambda>(target_id, node) ports.
        rbind (join_ports_for_node node
            (filter (\<lambda>(_, edge). get_val edge ''target'' = PStr target_id) (enumerate 0 edges))) (\<lambda>new.
        Inr (dupdate ports new))) join_nodes [])"

section \<open>Edges\<close>

definition edge_node_id :: "dict \<Rightarrow> string \<Rightarrow> string \<Rightarrow> int \<Rightarrow> string result" where
  "edge_node_id edge v2_key v1_key version =
     graph_required_text (get_val edge (if version = 2 then v2_key else v1_key)) (''edge '' @ v2_key)"

definition edge_port :: "dict \<Rightarrow> string \<Rightarrow> string \<Rightarrow> int \<Rightarrow> string option" where
  "edge_port edge v2_key v1_key version =
     (let s = graph_optional_text (get_val edge (if version = 2 then v2_key else v1_key)) in if s = [] then None else Some s)"

definition default_input_port :: "node_descriptor option \<Rightarrow> string" where
  "default_input_port descriptor = (case descriptor of None \<Rightarrow> ''input''
     | Some d \<Rightarrow> (case ds_input_ports d of [] \<Rightarrow> ''input'' | p # _ \<Rightarrow> ip_port_id p))"

definition default_output_port :: "node_descriptor option \<Rightarrow> string" where
  "default_output_port descriptor = (case descriptor of None \<Rightarrow> ''output''
     | Some d \<Rightarrow> (case ds_output_ports d of [] \<Rightarrow> ''output'' | p # _ \<Rightarrow> op_port_id p))"

definition descriptors_by_node_id :: "pipeline_node list \<Rightarrow> (string \<times> node_descriptor option) list" where
  "descriptors_by_node_id nodes =
     dupdate [] (map (\<lambda>n. (nd_id n, pipeline_node_descriptor (nd_descriptor_id n) (nd_spec_version n))) nodes)"

definition descriptor_get :: "(string \<times> node_descriptor option) list \<Rightarrow> string \<Rightarrow> node_descriptor option" where
  "descriptor_get descriptors node_id = (case map_of descriptors node_id of None \<Rightarrow> None | Some d \<Rightarrow> d)"

definition edge_keys :: "string list" where
  "edge_keys = [''id'', ''sourceNodeId'', ''sourcePortId'', ''targetNodeId'', ''targetPortId'']"

definition normalize_edge ::
  "dict \<Rightarrow> string \<Rightarrow> string \<Rightarrow> (string \<times> node_descriptor option) list \<Rightarrow> int \<Rightarrow> string option \<Rightarrow> pipeline_edge" where
  "normalize_edge edge source target descriptors version legacy_join_port =
     \<lparr>eg_id = graph_optional_text (get_val edge ''id''), eg_source_node_id = source,
      eg_source_port_id = (case edge_port edge ''sourcePortId'' ''sourceHandle'' version of Some p \<Rightarrow> p
        | None \<Rightarrow> default_output_port (descriptor_get descriptors source)),
      eg_target_node_id = target,
      eg_target_port_id = (case edge_port edge ''targetPortId'' ''targetHandle'' version of Some p \<Rightarrow> p
        | None \<Rightarrow> (case legacy_join_port of Some p \<Rightarrow> p
            | None \<Rightarrow> default_input_port (descriptor_get descriptors target))),
      eg_rest = (if version = 2 then other_entries edge_keys edge else [])\<rparr>"

definition edge_drafts ::
  "dict list \<Rightarrow> dict list \<Rightarrow> (string \<times> node_descriptor option) list \<Rightarrow> int \<Rightarrow> pipeline_edge list result" where
  "edge_drafts edges raw_nodes descriptors version =
     rbind (if version = 1 then legacy_join_ports edges raw_nodes else Inr []) (\<lambda>join_ports.
     map_result (\<lambda>(index, edge).
       rbind (edge_node_id edge ''sourceNodeId'' ''source'' version) (\<lambda>source.
       rbind (edge_node_id edge ''targetNodeId'' ''target'' version) (\<lambda>target.
       Inr (normalize_edge edge source target descriptors version (map_of join_ports index))))) (enumerate 0 edges))"

definition normalized_edge_sort_key :: "pipeline_edge \<Rightarrow> string \<times> string \<times> string \<times> string \<times> string" where
  "normalized_edge_sort_key e =
     (eg_target_node_id e, eg_target_port_id e, eg_source_node_id e, eg_source_port_id e, eg_id e)"

definition generated_edge_id :: "pipeline_edge \<Rightarrow> string" where
  "generated_edge_id e = ''edge_'' @ eg_source_node_id e @ ''_'' @ eg_source_port_id e @ ''__''
     @ eg_target_node_id e @ ''_'' @ eg_target_port_id e"

fun number_edges :: "(string \<times> nat) list \<Rightarrow> pipeline_edge list \<Rightarrow> pipeline_edge list" where
  "number_edges counts [] = []"
| "number_edges counts (e # edges) =
     (if eg_id e = [] then
        let base = generated_edge_id e; n = (case map_of counts base of None \<Rightarrow> 0 | Some n \<Rightarrow> n) + 1 in
        e\<lparr>eg_id := base @ ''_'' @ show_nat n\<rparr> # number_edges (dput base n counts) edges
      else e # number_edges counts edges)"

definition finalize_edges :: "pipeline_edge list \<Rightarrow> pipeline_edge list" where
  "finalize_edges edges = number_edges [] (sort_key normalized_edge_sort_key edges)"

section \<open>Graphs\<close>

definition graph_keys :: "string list" where
  "graph_keys = [''schemaVersion'', ''nodes'', ''edges'', ''layout'', ''outputContract'', ''tests'', ''schedule'', ''metadata'']"

definition normalized_graph :: "dict \<Rightarrow> pipeline_node list \<Rightarrow> pipeline_edge list \<Rightarrow> int \<Rightarrow> pipeline_graph result" where
  "normalized_graph graph nodes edges version =
     rbind (graph_optional_object (get_val graph ''layout'') ''layout'') (\<lambda>layout.
     rbind (graph_optional_object (get_val graph ''outputContract'') ''outputContract'') (\<lambda>output_contract.
     rbind (optional_object_rows (get_val graph ''tests'')) (\<lambda>tests.
     Inr \<lparr>gr_nodes = nodes, gr_edges = edges, gr_layout = layout, gr_output_contract = output_contract, gr_tests = tests,
       gr_schedule = get_val graph ''schedule'',
       gr_metadata = (case get_val graph ''metadata'' of PDict d \<Rightarrow> Some d | _ \<Rightarrow> None),
       gr_rest = (if version = 2 then other_entries graph_keys graph else [])\<rparr>)))"

definition normalize_pipeline_graph :: "dict \<Rightarrow> pipeline_graph result" where
  "normalize_pipeline_graph graph =
     rbind (pipeline_graph_schema_version graph) (\<lambda>version.
     rbind (graph_object_rows (get_val graph ''nodes'') ''nodes'') (\<lambda>raw_nodes.
     rbind (graph_object_rows (get_val graph ''edges'') ''edges'') (\<lambda>raw_edges.
     rbind (map_result (normalize_node version) raw_nodes) (\<lambda>drafts.
     let nodes = sort_key nd_id drafts in
     rbind (edge_drafts raw_edges raw_nodes (descriptors_by_node_id nodes) version) (\<lambda>edges.
     normalized_graph graph nodes (finalize_edges edges) version)))))"

definition empty_pipeline_graph_v2 :: pipeline_graph where
  "empty_pipeline_graph_v2 = \<lparr>gr_nodes = [], gr_edges = [], gr_layout = [], gr_output_contract = [(''columns'', PList [])],
     gr_tests = [], gr_schedule = PNone, gr_metadata = None, gr_rest = []\<rparr>"

text \<open>The stored form: the rows of \<^verbatim>\<open>pipeline_graph_types.py\<close> as JSON objects.\<close>

definition node_payload :: "pipeline_node \<Rightarrow> dict" where
  "node_payload n = [(''id'', PStr (nd_id n)), (''kind'', PStr (nd_kind n)), (''descriptorId'', PStr (nd_descriptor_id n)),
     (''specVersion'', PInt (nd_spec_version n)), (''config'', PDict (nd_config n))] @ nd_rest n"

definition edge_payload :: "pipeline_edge \<Rightarrow> dict" where
  "edge_payload e = [(''id'', PStr (eg_id e)), (''sourceNodeId'', PStr (eg_source_node_id e)),
     (''sourcePortId'', PStr (eg_source_port_id e)), (''targetNodeId'', PStr (eg_target_node_id e)),
     (''targetPortId'', PStr (eg_target_port_id e))] @ eg_rest e"

definition graph_payload :: "pipeline_graph \<Rightarrow> dict" where
  "graph_payload g = [(''schemaVersion'', PInt 2), (''nodes'', PList (map (PDict \<circ> node_payload) (gr_nodes g))),
     (''edges'', PList (map (PDict \<circ> edge_payload) (gr_edges g))), (''layout'', PDict (gr_layout g)),
     (''outputContract'', PDict (gr_output_contract g)), (''tests'', PList (map PDict (gr_tests g))),
     (''schedule'', gr_schedule g)]
     @ (case gr_metadata g of None \<Rightarrow> [] | Some m \<Rightarrow> [(''metadata'', PDict m)]) @ gr_rest g"

section \<open>Text and dictionaries\<close>

definition text_ok :: "string \<Rightarrow> bool" where
  "text_ok s \<longleftrightarrow> s \<noteq> [] \<and> py_strip s = s"

lemma graph_required_text_Inr: "graph_required_text v f = Inr s \<Longrightarrow> text_ok s"
  by (auto simp: graph_required_text_def text_ok_def Let_def split: pyval.splits if_splits)

lemma graph_required_text_ok [simp]: "text_ok s \<Longrightarrow> graph_required_text (PStr s) f = Inr s"
  by (simp add: graph_required_text_def text_ok_def)

lemma graph_optional_text_strip [simp]: "py_strip (graph_optional_text v) = graph_optional_text v"
proof -
  have "py_strip [] = []" by (simp add: py_strip_def strip_by_def)
  then show ?thesis by (simp add: graph_optional_text_def split: pyval.split)
qed

lemma graph_optional_text_ok [simp]: "text_ok s \<Longrightarrow> graph_optional_text (PStr s) = s"
  by (simp add: graph_optional_text_def text_ok_def)

lemma other_entries_dkeys: "set (dkeys (other_entries ks d)) = set (dkeys d) - set ks"
  by (auto simp: other_entries_def dkeys_def)

lemma other_entries_none: "set (dkeys d) \<inter> set ks = {} \<Longrightarrow> other_entries ks d = d"
  unfolding other_entries_def dkeys_def by (intro filter_True) force

lemma other_entries_append: "other_entries ks (d @ d') = other_entries ks d @ other_entries ks d'"
  by (simp add: other_entries_def)

lemma get_or_append: "k \<notin> set (dkeys d) \<Longrightarrow> get_or v (d @ d') k = get_or v d' k"
  by (simp add: get_or_def map_add_def dkeys_def map_of_eq_None_iff [symmetric] split: option.split)

lemma get_or_absent: "k \<notin> set (dkeys d) \<Longrightarrow> get_or v d k = v"
  unfolding get_or_def dkeys_def by (simp add: map_of_eq_None_iff [THEN iffD2])

lemma graph_object_rows_payload [simp]: "graph_object_rows (PList (map PDict ds)) f = Inr ds"
  by (induction ds) (simp_all add: graph_object_rows_def)

section \<open>Canonical nodes\<close>

definition join_type_stable :: "pipeline_node \<Rightarrow> bool" where
  "join_type_stable n \<longleftrightarrow> (case get_val (nd_config n) ''joinType'' of PStr t \<Rightarrow> normalize_join_type t = t | _ \<Rightarrow> True)"

text \<open>A configuration no further reading changes.\<close>

definition settled_config :: "string \<Rightarrow> dict \<Rightarrow> bool" where
  "settled_config descriptor_id config \<longleftrightarrow> canonical_descriptor_config descriptor_id config = config"

definition canonical_node :: "pipeline_node \<Rightarrow> bool" where
  "canonical_node n \<longleftrightarrow> text_ok (nd_id n) \<and> nd_kind n \<in> {''source'', ''transform'', ''output''}
     \<and> text_ok (nd_descriptor_id n) \<and> 1 \<le> nd_spec_version n \<and> set (dkeys (nd_rest n)) \<inter> set node_keys = {}
     \<and> settled_config (nd_descriptor_id n) (nd_config n)
     \<and> (is_sequence (get_val (nd_rest n) ''schema'') \<longrightarrow> map_of (nd_config n) ''schema'' = Some (get_val (nd_rest n) ''schema''))"

lemma canonical_descriptor_config_idem: "settled_config i (canonical_descriptor_config i config)"
proof (cases "i = ''output.dataset'' \<and> \<not> truthy (get_val config ''outputDatasetRef'')")
  case True
  then show ?thesis
    by (cases "get_val config ''datasetRef''")
      (auto simp: settled_config_def canonical_descriptor_config_def get_or_def)
next
  case False
  then have "canonical_descriptor_config i config = config" unfolding canonical_descriptor_config_def by (rule if_not_P)
  then show ?thesis by (simp add: settled_config_def)
qed

lemma map_of_canonical_descriptor_config:
  "k \<noteq> ''outputDatasetRef'' \<Longrightarrow> map_of (canonical_descriptor_config i config) k = map_of config k"
  by (simp add: canonical_descriptor_config_def split: pyval.split)

lemma map_of_with_join_type: "k \<noteq> ''joinType'' \<Longrightarrow> map_of (with_join_type d) k = map_of d k"
  by (simp add: with_join_type_def split: pyval.split)

lemma canonical_node_config_schema:
  assumes "canonical_node_config node = Inr config" "is_sequence (get_val node ''schema'')"
  shows "map_of config ''schema'' = Some (get_val node ''schema'')"
  using assms by (auto simp: canonical_node_config_def result_simps map_of_with_join_type)

lemma literal_node_kind_Inr: "literal_node_kind v = Inr k \<longleftrightarrow> k = v \<and> v \<in> {''source'', ''transform'', ''output''}"
  by (auto simp: literal_node_kind_def)

lemma legacy_descriptor_ids: "map_of legacy_descriptor_by_type t = Some i \<Longrightarrow> text_ok i"
proof -
  have "list_all (\<lambda>(_, i). text_ok i) legacy_descriptor_by_type" by code_simp
  then show "map_of legacy_descriptor_by_type t = Some i \<Longrightarrow> text_ok i"
    by (auto simp: list_all_iff dest!: map_of_SomeD)
qed

lemma graph_descriptor_id_ok: "graph_descriptor_id node version = Inr i \<Longrightarrow> text_ok i"
  by (auto simp: graph_descriptor_id_def result_simps legacy_descriptor_ids split: if_splits option.splits dest: graph_required_text_Inr)

lemma normalize_node_canonical: "normalize_node version raw = Inr n \<Longrightarrow> canonical_node n"
proof -
  assume run: "normalize_node version raw = Inr n"
  from run obtain i descriptor spec kind config where parts:
    "graph_required_text (get_val raw ''id'') ''node id'' = Inr i" "graph_descriptor_id raw version = Inr descriptor"
    "graph_spec_version raw version = Inr spec" "graph_node_kind raw (pipeline_node_descriptor descriptor spec) version = Inr kind"
    "canonical_node_config raw = Inr config"
    and n: "n = \<lparr>nd_id = i, nd_kind = kind, nd_descriptor_id = descriptor, nd_spec_version = spec,
      nd_config = canonical_descriptor_config descriptor config, nd_rest = (if version = 2 then other_entries node_keys raw else [])\<rparr>"
    by (auto simp: normalize_node_def result_simps)
  have "kind \<in> {''source'', ''transform'', ''output''}"
    using parts(4) by (auto simp: graph_node_kind_def literal_node_kind_Inr result_simps split: if_splits option.splits)
  moreover have "1 \<le> spec" using parts(3) by (auto simp: graph_spec_version_def split: option.splits if_splits)
  moreover have "map_of (canonical_descriptor_config descriptor config) ''schema'' = Some (get_val (nd_rest n) ''schema'')"
    if seq: "is_sequence (get_val (nd_rest n) ''schema'')"
  proof -
    have "get_val (nd_rest n) ''schema'' = get_val raw ''schema''"
    proof (cases "version = 2")
      case True
      have "map_of (other_entries node_keys raw) ''schema'' = map_of raw ''schema''"
        by (induction raw) (auto simp: other_entries_def node_keys_def)
      with True show ?thesis by (simp add: n get_or_def)
    next
      case False
      with seq show ?thesis by (simp add: n get_or_def)
    qed
    with seq canonical_node_config_schema [OF parts(5)] show ?thesis by (simp add: map_of_canonical_descriptor_config)
  qed
  moreover have "text_ok i" "text_ok descriptor"
    using parts(1,2) graph_required_text_Inr graph_descriptor_id_ok by blast+
  moreover have "set (dkeys (nd_rest n)) \<inter> set node_keys = {}"
    using other_entries_dkeys [of node_keys raw] by (auto simp: n)
  ultimately show ?thesis
    unfolding canonical_node_def using canonical_descriptor_config_idem by (simp add: n)
qed

lemma node_payload_rest: "canonical_node n \<Longrightarrow> other_entries node_keys (node_payload n) = nd_rest n"
  unfolding node_payload_def other_entries_append
  by (simp add: other_entries_none canonical_node_def) (simp add: other_entries_def node_keys_def)

lemma node_payload_other: "k \<notin> set node_keys \<Longrightarrow> get_or v (node_payload n) k = get_or v (nd_rest n) k"
  by (auto simp: node_payload_def node_keys_def)

lemma node_payload_config:
  assumes "canonical_node n" "join_type_stable n" "\<not> has_key (nd_rest n) ''data''"
  shows "canonical_node_config (node_payload n) = Inr (nd_config n)"
proof -
  have config: "optional_node_object (node_payload n) ''config'' = Inr (nd_config n)"
    by (simp add: optional_node_object_def node_payload_def)
  have "optional_node_object (node_payload n) ''data'' = Inr []"
    using assms(3) by (simp add: optional_node_object_def node_payload_other node_keys_def get_or_absent has_key_def)
  moreover have "get_val (node_payload n) ''schema'' = get_val (nd_rest n) ''schema''"
    by (rule node_payload_other) (simp add: node_keys_def)
  moreover have "is_sequence (get_val (nd_rest n) ''schema'') \<Longrightarrow> dput ''schema'' (get_val (nd_rest n) ''schema'') (nd_config n) = nd_config n"
    using assms(1) by (intro dput_same) (simp add: canonical_node_def)
  moreover have "with_join_type (nd_config n) = nd_config n"
    using assms(2) unfolding with_join_type_def join_type_stable_def
    by (cases "get_val (nd_config n) ''joinType''") (auto intro!: dput_same simp: get_or_def split: option.splits)
  ultimately show ?thesis using config by (simp add: canonical_node_config_def)
qed

lemma node_payload_normalizes:
  assumes "canonical_node n" "join_type_stable n" "\<not> has_key (nd_rest n) ''data''"
  shows "normalize_node 2 (node_payload n) = Inr n"
proof -
  note ok = assms(1) [unfolded canonical_node_def]
  have "graph_descriptor_id (node_payload n) 2 = Inr (nd_descriptor_id n)" "graph_spec_version (node_payload n) 2 = Inr (nd_spec_version n)"
    "graph_node_kind (node_payload n) d 2 = Inr (nd_kind n)" "graph_required_text (get_val (node_payload n) ''id'') ''node id'' = Inr (nd_id n)" for d
    using ok by (auto simp: graph_descriptor_id_def graph_spec_version_def graph_node_kind_def literal_node_kind_def node_payload_def
      text_ok_def graph_required_text_def py_strip_def strip_by_def is_space_def)
  then show ?thesis
    using ok by (simp add: normalize_node_def node_payload_config [OF assms] node_payload_rest [OF assms(1)] settled_config_def)
qed

section \<open>Canonical edges\<close>

definition canonical_edge :: "pipeline_edge \<Rightarrow> bool" where
  "canonical_edge e \<longleftrightarrow> text_ok (eg_source_node_id e) \<and> text_ok (eg_source_port_id e)
     \<and> text_ok (eg_target_node_id e) \<and> text_ok (eg_target_port_id e) \<and> set (dkeys (eg_rest e)) \<inter> set edge_keys = {}"

lemma edge_port_Some: "edge_port edge k k' version = Some p \<Longrightarrow> text_ok p"
  by (auto simp: edge_port_def text_ok_def Let_def split: if_splits)

lemma catalog_port_texts:
  "list_all (\<lambda>d. list_all (text_ok \<circ> ip_port_id) (ds_input_ports d) \<and> list_all (text_ok \<circ> op_port_id) (ds_output_ports d))
     pipeline_node_descriptors"
  by code_simp

lemma descriptor_get_catalog:
  "descriptor_get (descriptors_by_node_id nodes) i = Some d \<Longrightarrow> d \<in> set pipeline_node_descriptors"
proof -
  have "map_of (dupdate [] (map (\<lambda>n. (nd_id n, pipeline_node_descriptor (nd_descriptor_id n) (nd_spec_version n))) ns)) i = Some (Some d)
      \<Longrightarrow> d \<in> set pipeline_node_descriptors" for ns
    by (induction ns rule: rev_induct) (auto simp: rev_map split: if_splits dest: pipeline_node_descriptor_in)
  then show "descriptor_get (descriptors_by_node_id nodes) i = Some d \<Longrightarrow> d \<in> set pipeline_node_descriptors"
    unfolding descriptor_get_def descriptors_by_node_id_def by (auto simp del: map_of_dupdate split: option.splits)
qed

lemma default_ports_ok:
  "text_ok (default_input_port (descriptor_get (descriptors_by_node_id nodes) i))"
  "text_ok (default_output_port (descriptor_get (descriptors_by_node_id nodes) i))"
proof -
  have texts: "text_ok ''input''" "text_ok ''output''" by code_simp+
  show "text_ok (default_input_port (descriptor_get (descriptors_by_node_id nodes) i))"
    using catalog_port_texts descriptor_get_catalog [of nodes i] texts
    by (auto simp: default_input_port_def list_all_iff split: option.split list.split)
  show "text_ok (default_output_port (descriptor_get (descriptors_by_node_id nodes) i))"
    using catalog_port_texts descriptor_get_catalog [of nodes i] texts
    by (auto simp: default_output_port_def list_all_iff split: option.split list.split)
qed

text \<open>Legacy join ports are left or right.\<close>

definition join_sided :: "(nat \<times> string) list \<Rightarrow> bool" where
  "join_sided ports \<longleftrightarrow> snd ` set ports \<subseteq> {''left'', ''right''}"

lemma set_dput: "set (dput k v d) \<subseteq> insert (k, v) (set d)"
  by (induction d) (auto split: if_splits)

lemma join_sided_dput: "join_sided ports \<Longrightarrow> p \<in> {''left'', ''right''} \<Longrightarrow> join_sided (dput i p ports)"
  using set_dput [of i p ports] unfolding join_sided_def by fastforce

lemma join_sided_dupdate: "join_sided ports \<Longrightarrow> join_sided new \<Longrightarrow> join_sided (dupdate ports new)"
proof (induction ports new rule: dupdate.induct)
  case (2 a k v b)
  then show ?case using join_sided_dput [of a v k] by (simp add: join_sided_def)
qed simp

lemma join_sided_explicit: "join_sided (explicit_join_ports incoming)"
  by (auto simp: join_sided_def explicit_join_ports_def Let_def split: pyval.splits if_splits)

lemma join_sided_assigned: "join_sided a \<Longrightarrow> p \<in> {''left'', ''right''} \<Longrightarrow> join_sided (assign_configured_join_port a incoming v p)"
  by (auto simp: assign_configured_join_port_def join_sided_dput split: option.split)

lemma join_ports_for_node_sided: "join_ports_for_node node incoming = Inr ports \<Longrightarrow> join_sided ports"
proof -
  assume "join_ports_for_node node incoming = Inr ports"
  then obtain a rs where ports: "ports = dupdate a (zip rs (filter (\<lambda>port. port \<notin> snd ` set a) [''left'', ''right'']))" "join_sided a"
    by (auto simp: join_ports_for_node_def result_simps Let_def join_sided_assigned join_sided_explicit)
  have "join_sided (zip rs (filter (\<lambda>port. port \<notin> snd ` set a) [''left'', ''right'']))"
    by (auto simp: join_sided_def dest!: set_zip_rightD split: if_splits)
  with ports show ?thesis by (simp add: join_sided_dupdate)
qed

lemma legacy_join_ports_sided:
  assumes "legacy_join_ports edges nodes = Inr ports"
  shows "join_sided ports"
  using assms unfolding legacy_join_ports_def Let_def
proof (rule fold_result_invariant)
  show "join_sided []" by (simp add: join_sided_def)
next
  fix item s t
  assume "join_sided s" "(case item of (target_id, node) \<Rightarrow> \<lambda>ports. rbind (join_ports_for_node node
      (filter (\<lambda>(_, edge). get_val edge ''target'' = PStr target_id) (enumerate 0 edges))) (\<lambda>new. Inr (dupdate ports new))) s = Inr t"
  then show "join_sided t"
    by (cases item) (auto simp: rbind_eq_Inr intro: join_sided_dupdate join_ports_for_node_sided)
qed

lemma edge_drafts_canonical:
  assumes "edge_drafts edges raw_nodes (descriptors_by_node_id nodes) version = Inr drafts" "e \<in> set drafts"
  shows "canonical_edge e \<and> py_strip (eg_id e) = eg_id e"
proof -
  from assms(1) obtain ports where ports: "join_sided ports"
    and run: "map_result (\<lambda>(index, edge).
       rbind (edge_node_id edge ''sourceNodeId'' ''source'' version) (\<lambda>source.
       rbind (edge_node_id edge ''targetNodeId'' ''target'' version) (\<lambda>target.
       Inr (normalize_edge edge source target (descriptors_by_node_id nodes) version (map_of ports index))))) (enumerate 0 edges) = Inr drafts"
  proof -
    from assms(1) obtain ports where
      ports: "(if version = 1 then legacy_join_ports edges raw_nodes else Inr []) = Inr ports" and
      run: "map_result (\<lambda>(index, edge).
       rbind (edge_node_id edge ''sourceNodeId'' ''source'' version) (\<lambda>source.
       rbind (edge_node_id edge ''targetNodeId'' ''target'' version) (\<lambda>target.
       Inr (normalize_edge edge source target (descriptors_by_node_id nodes) version (map_of ports index))))) (enumerate 0 edges) = Inr drafts"
      unfolding edge_drafts_def by (elim rbind_InrE)
    from ports have "join_sided ports" by (auto simp: join_sided_def [of "[]"] split: if_splits dest: legacy_join_ports_sided)
    with run that show thesis by blast
  qed
  from map_result_item [OF run assms(2)] obtain index edge source target where
    ends: "edge_node_id edge ''sourceNodeId'' ''source'' version = Inr source" "edge_node_id edge ''targetNodeId'' ''target'' version = Inr target"
    and e: "e = normalize_edge edge source target (descriptors_by_node_id nodes) version (map_of ports index)"
    by (auto simp: result_simps)
  have "text_ok ''left''" "text_ok ''right''" by code_simp+
  moreover have "map_of ports index = Some p \<Longrightarrow> p \<in> {''left'', ''right''}" for p
    using ports by (force simp: join_sided_def dest: map_of_SomeD)
  ultimately have "map_of ports index = Some p \<Longrightarrow> text_ok p" for p by blast
  moreover have "text_ok source" "text_ok target" using ends by (auto simp: edge_node_id_def dest: graph_required_text_Inr)
  moreover have "set (dkeys (eg_rest e)) \<inter> set edge_keys = {}"
    using other_entries_dkeys [of edge_keys edge] by (auto simp: e normalize_edge_def)
  ultimately show ?thesis
    using default_ports_ok
    by (auto simp: e canonical_edge_def normalize_edge_def split: option.splits dest: edge_port_Some)
qed

lemma generated_id_ok: "text_ok (generated_edge_id e @ ''_'' @ show_nat n)"
proof -
  let ?s = "generated_edge_id e @ ''_'' @ show_nat n"
  have "last ?s \<in> set (show_nat n)" by simp
  then have "is_digit (last ?s)" by (rule show_nat_digits)
  then have "\<not> is_space (last ?s)" by (auto simp: is_digit_def is_space_def Let_def)
  moreover have "hd ?s = CHR ''e''" by (simp add: generated_edge_id_def)
  ultimately have "strip_by is_space ?s = ?s" by (intro strip_by_ends) (simp_all add: is_space_def)
  then show ?thesis by (simp add: text_ok_def py_strip_def)
qed

lemma number_edges_canonical:
  "\<forall>e \<in> set edges. canonical_edge e \<and> py_strip (eg_id e) = eg_id e \<Longrightarrow> e \<in> set (number_edges counts edges)
    \<Longrightarrow> canonical_edge e \<and> text_ok (eg_id e)"
proof (induction counts edges rule: number_edges.induct)
  case (2 counts e' edges)
  let ?base = "generated_edge_id e'" and ?rest = "\<lambda>counts. number_edges counts edges"
  let ?n = "(case map_of counts ?base of None \<Rightarrow> 0 | Some n \<Rightarrow> n) + 1"
  show ?case
  proof (cases "eg_id e' = []")
    case True
    with 2(4) have "e = e'\<lparr>eg_id := ?base @ ''_'' @ show_nat ?n\<rparr> \<or> e \<in> set (?rest (dput ?base ?n counts))" by (simp add: Let_def)
    then show ?thesis
    proof
      assume "e = e'\<lparr>eg_id := ?base @ ''_'' @ show_nat ?n\<rparr>"
      with 2(3) generated_id_ok [of e' ?n] show ?thesis by (simp add: canonical_edge_def)
    next
      assume "e \<in> set (?rest (dput ?base ?n counts))"
      with 2(1) [OF True refl refl] 2(3) show ?thesis by simp
    qed
  next
    case False
    with 2 show ?thesis by (auto simp: text_ok_def)
  qed
qed simp

lemma number_edges_given: "\<forall>e \<in> set edges. eg_id e \<noteq> [] \<Longrightarrow> number_edges counts edges = edges"
  by (induction edges arbitrary: counts) simp_all

lemma finalize_edges_canonical:
  assumes "edge_drafts edges raw_nodes (descriptors_by_node_id nodes) version = Inr drafts" "e \<in> set (finalize_edges drafts)"
  shows "canonical_edge e \<and> text_ok (eg_id e)"
  using assms(2) edge_drafts_canonical [OF assms(1)] unfolding finalize_edges_def by (intro number_edges_canonical) auto

lemma edge_payload_normalizes:
  assumes "canonical_edge e" "text_ok (eg_id e)"
  shows "edge_node_id (edge_payload e) ''sourceNodeId'' k 2 = Inr (eg_source_node_id e)"
    "edge_node_id (edge_payload e) ''targetNodeId'' k 2 = Inr (eg_target_node_id e)"
    "normalize_edge (edge_payload e) (eg_source_node_id e) (eg_target_node_id e) descriptors 2 port = e"
proof -
  note ok = assms(1) [unfolded canonical_edge_def]
  have rest: "other_entries edge_keys (edge_payload e) = eg_rest e"
    unfolding edge_payload_def other_entries_append using ok by (simp add: other_entries_none) (simp add: other_entries_def edge_keys_def)
  show "edge_node_id (edge_payload e) ''sourceNodeId'' k 2 = Inr (eg_source_node_id e)"
    "edge_node_id (edge_payload e) ''targetNodeId'' k 2 = Inr (eg_target_node_id e)"
    using ok by (simp_all add: edge_node_id_def edge_payload_def)
  have nonempty: "text_ok s \<Longrightarrow> s \<noteq> []" for s by (simp add: text_ok_def)
  show "normalize_edge (edge_payload e) (eg_source_node_id e) (eg_target_node_id e) descriptors 2 port = e"
    using ok assms(2) nonempty unfolding normalize_edge_def rest by (simp add: edge_port_def edge_payload_def Let_def)
qed

lemma edge_drafts_payload:
  assumes "\<forall>e \<in> set edges. canonical_edge e \<and> text_ok (eg_id e)"
  shows "edge_drafts (map edge_payload edges) raw_nodes descriptors 2 = Inr edges"
proof -
  have "map_result (\<lambda>(index, edge).
       rbind (edge_node_id edge ''sourceNodeId'' ''source'' 2) (\<lambda>source.
       rbind (edge_node_id edge ''targetNodeId'' ''target'' 2) (\<lambda>target.
       Inr (normalize_edge edge source target descriptors 2 (map_of [] index))))) (enumerate n (map edge_payload edges)) = Inr edges" for n
    using assms by (induction edges arbitrary: n) (simp_all add: edge_payload_normalizes)
  then show ?thesis by (simp add: edge_drafts_def)
qed

section \<open>Reading a stored graph back\<close>

definition canonical_graph :: "pipeline_graph \<Rightarrow> bool" where
  "canonical_graph g \<longleftrightarrow> (\<forall>n \<in> set (gr_nodes g). canonical_node n) \<and> sorted (map nd_id (gr_nodes g))
     \<and> (\<forall>e \<in> set (gr_edges g). canonical_edge e \<and> text_ok (eg_id e)) \<and> set (dkeys (gr_rest g)) \<inter> set graph_keys = {}"

lemma normalize_pipeline_graph_canonical:
  assumes "normalize_pipeline_graph graph = Inr g"
  shows "canonical_graph g"
proof -
  from assms obtain version raw_nodes raw_edges drafts edges where
    nodes: "map_result (normalize_node version) raw_nodes = Inr drafts"
    and edges: "edge_drafts raw_edges raw_nodes (descriptors_by_node_id (sort_key nd_id drafts)) version = Inr edges"
    and g: "normalized_graph graph (sort_key nd_id drafts) (finalize_edges edges) version = Inr g"
    by (auto simp: normalize_pipeline_graph_def result_simps Let_def)
  have parts: "gr_nodes g = sort_key nd_id drafts" "gr_edges g = finalize_edges edges"
    "gr_rest g = (if version = 2 then other_entries graph_keys graph else [])"
    using g by (auto simp: normalized_graph_def result_simps)
  have "set (dkeys (gr_rest g)) \<inter> set graph_keys = {}"
    using other_entries_dkeys [of graph_keys graph] by (auto simp: parts)
  moreover have "\<forall>n \<in> set drafts. canonical_node n"
    using map_result_item [OF nodes] normalize_node_canonical by blast
  ultimately show ?thesis
    using finalize_edges_canonical [OF edges] by (simp add: canonical_graph_def parts)
qed

lemma normalize_reads_back:
  assumes "normalize_pipeline_graph graph = Inr g"
    and "\<forall>n \<in> set (gr_nodes g). join_type_stable n \<and> \<not> has_key (nd_rest n) ''data''"
  shows "normalize_pipeline_graph (graph_payload g) = Inr (g\<lparr>gr_edges := sort_key normalized_edge_sort_key (gr_edges g)\<rparr>)"
proof -
  have ok: "\<forall>n \<in> set (gr_nodes g). canonical_node n" "sorted (map nd_id (gr_nodes g))"
    "\<forall>e \<in> set (gr_edges g). canonical_edge e \<and> text_ok (eg_id e)" "set (dkeys (gr_rest g)) \<inter> set graph_keys = {}"
    using normalize_pipeline_graph_canonical [OF assms(1)] by (auto simp: canonical_graph_def)
  let ?p = "graph_payload g"
  have lookups: "get_or v ?p ''schemaVersion'' = PInt 2" "get_val ?p ''nodes'' = PList (map PDict (map node_payload (gr_nodes g)))"
    "get_val ?p ''edges'' = PList (map PDict (map edge_payload (gr_edges g)))" for v
    by (simp_all add: graph_payload_def)
  have "\<forall>n \<in> set ns. normalize_node 2 (node_payload n) = Inr n \<Longrightarrow> map_result (normalize_node 2) (map node_payload ns) = Inr ns" for ns
    by (induction ns) simp_all
  then have nodes: "map_result (normalize_node 2) (map node_payload (gr_nodes g)) = Inr (gr_nodes g)"
    using ok(1) assms(2) node_payload_normalizes by blast
  have "\<forall>e \<in> set (sort_key normalized_edge_sort_key (gr_edges g)). eg_id e \<noteq> []" using ok(3) by (simp add: text_ok_def)
  then have edges: "finalize_edges (gr_edges g) = sort_key normalized_edge_sort_key (gr_edges g)"
    unfolding finalize_edges_def by (rule number_edges_given)
  have "normalized_graph ?p (gr_nodes g) es 2 = Inr (g\<lparr>gr_edges := es\<rparr>)" for es
  proof -
    have "other_entries graph_keys ?p = gr_rest g"
      unfolding graph_payload_def other_entries_append
      using ok(4) by (simp add: other_entries_none split: option.split) (simp add: other_entries_def graph_keys_def)
    moreover have "get_val ?p ''metadata'' = (case gr_metadata g of None \<Rightarrow> PNone | Some m \<Rightarrow> PDict m)"
      using ok(4) by (auto simp: graph_payload_def graph_keys_def get_or_absent split: option.split)
    moreover have "optional_object_rows (PList (map PDict (gr_tests g))) = Inr (gr_tests g)"
      by (simp add: optional_object_rows_def)
    ultimately show ?thesis
      by (simp add: normalized_graph_def) (simp add: graph_payload_def graph_optional_object_def split: option.split)
  qed
  then show ?thesis
    using ok(2,3) by (simp add: normalize_pipeline_graph_def pipeline_graph_schema_version_def lookups nodes edges edge_drafts_payload
        sort_key_id_if_sorted del: map_map)
qed

text \<open>
  A normalized graph, of whatever schema version it was read from, is stored and read back to the same
  nodes, contract, tests and metadata, with the edges in their canonical order, provided no node keeps a
  legacy data object and the join types are stable.
\<close>
theorem normalize_pipeline_graph_roundtrip:
  assumes "normalize_pipeline_graph graph = Inr g"
    and "\<forall>n \<in> set (gr_nodes g). join_type_stable n \<and> \<not> has_key (nd_rest n) ''data''"
  shows "normalize_pipeline_graph (graph_payload g) = Inr (g\<lparr>gr_edges := sort_key normalized_edge_sort_key (gr_edges g)\<rparr>)"
  using assms by (rule normalize_reads_back)

text \<open>A graph of version 1: two data sets joined into an output, edges without ids and ports.\<close>

definition legacy_graph :: dict where
  "legacy_graph = [(''nodes'', PList [
       PDict [(''id'', PStr ''j''), (''type'', PStr ''join''), (''data'', PDict [(''joinType'', PStr ''Full_Outer''), (''rightNodeId'', PStr ''a'')])],
       PDict [(''id'', PStr ''b''), (''type'', PStr ''dataset''), (''data'', PDict [(''datasetRef'', PStr ''sales'')])],
       PDict [(''id'', PStr '' a''), (''type'', PStr ''dataset''), (''data'', PDict [(''datasetRef'', PStr ''shops'')])],
       PDict [(''id'', PStr ''out''), (''type'', PStr ''output_dataset''), (''config'', PDict [(''datasetRef'', PStr ''joined'')])]]),
     (''edges'', PList [PDict [(''source'', PStr ''a''), (''target'', PStr ''j'')], PDict [(''source'', PStr ''b''), (''target'', PStr ''j'')],
       PDict [(''source'', PStr ''j''), (''target'', PStr ''out'')]])]"

definition legacy_canonical :: pipeline_graph where
  "legacy_canonical = (case normalize_pipeline_graph legacy_graph of Inr g \<Rightarrow> g | Inl _ \<Rightarrow> empty_pipeline_graph_v2)"

lemma legacy_graph_normalizes:
  "case normalize_pipeline_graph legacy_graph of
     Inr g \<Rightarrow> list_all (\<lambda>n. join_type_stable n \<and> \<not> has_key (nd_rest n) ''data'') (gr_nodes g)
       \<and> map (\<lambda>e. (eg_id e, eg_target_port_id e)) (gr_edges g) =
         [(''edge_b_dataset__j_left_1'', ''left''), (''edge_a_dataset__j_right_1'', ''right''), (''edge_j_dataset__out_input_1'', ''input'')]
   | Inl _ \<Rightarrow> False"
  by code_simp

theorem normalize_pipeline_graph_roundtrip_witness:
  "normalize_pipeline_graph (graph_payload legacy_canonical)
     = Inr (legacy_canonical\<lparr>gr_edges := sort_key normalized_edge_sort_key (gr_edges legacy_canonical)\<rparr>)
   \<and> map eg_target_port_id (gr_edges legacy_canonical) = [''left'', ''right'', ''input'']"
proof -
  have run: "normalize_pipeline_graph legacy_graph = Inr legacy_canonical"
    and ok: "list_all (\<lambda>n. join_type_stable n \<and> \<not> has_key (nd_rest n) ''data'') (gr_nodes legacy_canonical)"
    and edges: "map (\<lambda>e. (eg_id e, eg_target_port_id e)) (gr_edges legacy_canonical) =
      [(''edge_b_dataset__j_left_1'', ''left''), (''edge_a_dataset__j_right_1'', ''right''), (''edge_j_dataset__out_input_1'', ''input'')]"
    using legacy_graph_normalizes by (simp_all add: legacy_canonical_def split: sum.splits)
  from arg_cong [OF edges, of "map snd"] have "map eg_target_port_id (gr_edges legacy_canonical) = [''left'', ''right'', ''input'']"
    by (simp add: comp_def)
  with normalize_pipeline_graph_roundtrip [OF run] ok show ?thesis unfolding list_all_iff by blast
qed

text \<open>Join types that are not stable: a trailing separator becomes a space, which the next reading strips.\<close>

lemma join_type_not_idempotent: "normalize_join_type ''left_'' = ''left ''" "normalize_join_type ''left '' = ''left''"
  by code_simp+

text \<open>A generated edge id can be the one another edge has.\<close>

lemma generated_edge_id_collides:
  "(case normalize_pipeline_graph [(''nodes'', PList []), (''edges'', PList [
       PDict [(''source'', PStr ''a''), (''target'', PStr ''b'')],
       PDict [(''id'', PStr ''edge_a_output__b_input_1''), (''source'', PStr ''a''), (''target'', PStr ''b'')]])] of
     Inr g \<Rightarrow> map eg_id (gr_edges g) | Inl _ \<Rightarrow> []) = [''edge_a_output__b_input_1'', ''edge_a_output__b_input_1'']"
  by code_simp

end
