(* ===== verification/Graph_Validation.thy ===== *)
theory Graph_Validation
  imports Graph_Topology Graph_Normalizer
begin

text \<open>
  \<^verbatim>\<open>application/services/pipeline_graph_v2_validation.py\<close>: the validation of a graph of schema version 2, its
  shape first, then the normalized graph against the catalog, the topology and the rules of single
  operations. Shown: a graph is valid exactly when its canonical graph is sound in an abstract sense, and the
  canonical graph of a valid graph is valid with the same result.
\<close>

section \<open>Shape\<close>

definition max_pipeline_nodes :: nat where "max_pipeline_nodes = 200"

definition max_pipeline_edges :: nat where "max_pipeline_edges = 600"

definition is_non_empty_text :: "pyval \<Rightarrow> bool" where
  "is_non_empty_text v = (case v of PStr s \<Rightarrow> py_strip s \<noteq> [] | _ \<Rightarrow> False)"

definition is_positive_integer :: "pyval \<Rightarrow> bool" where
  "is_positive_integer v = (case plain_int v of Some n \<Rightarrow> 0 < n | None \<Rightarrow> False)"

definition limit_errors :: "dict list \<Rightarrow> dict list \<Rightarrow> dict list" where
  "limit_errors nodes edges =
     (let outputs = length (filter (\<lambda>n. get_val n ''kind'' = PStr ''output'') nodes) in
      (if length nodes > max_pipeline_nodes then [[(''code'', PStr ''too_many_nodes''), (''limit'', PInt (int max_pipeline_nodes)),
         (''actual'', PInt (int (length nodes)))]] else [])
      @ (if length edges > max_pipeline_edges then [[(''code'', PStr ''too_many_edges''), (''limit'', PInt (int max_pipeline_edges)),
         (''actual'', PInt (int (length edges)))]] else [])
      @ (if outputs < 1 then [[(''code'', PStr ''output_node_count''), (''minimum'', PInt 1), (''actual'', PInt (int outputs))]] else []))"

definition node_identity_errors :: "dict \<Rightarrow> string list \<Rightarrow> dict list" where
  "node_identity_errors node seen = (case nonempty_text (get_val node ''id'') of
       None \<Rightarrow> [[(''code'', PStr ''node_id_required''), (''node'', PDict node)]]
     | Some i \<Rightarrow> if i \<in> set seen then [[(''code'', PStr ''duplicate_node_id''), (''nodeId'', PStr i)]] else [])"

definition node_contract_shape_errors :: "dict \<Rightarrow> dict list result" where
  "node_contract_shape_errors node =
     (let i = PStr (py_str (get_val node ''id'')) in
      rbind (in_names (get_val node ''kind'') [''source'', ''transform'', ''output'']) (\<lambda>known.
      Inr ((if known then [] else [[(''code'', PStr ''unsupported_node_kind''), (''nodeId'', i), (''kind'', get_val node ''kind'')]])
        @ (if is_non_empty_text (get_val node ''descriptorId'') then [] else [[(''code'', PStr ''node_descriptor_required''), (''nodeId'', i)]])
        @ (if is_positive_integer (get_val node ''specVersion'') then [] else [[(''code'', PStr ''node_spec_version_required''), (''nodeId'', i)]])
        @ (if is_mapping (get_val node ''config'') then [] else [[(''code'', PStr ''node_config_required''), (''nodeId'', i)]])
        @ (if has_key node ''data'' then [[(''code'', PStr ''legacy_node_data_not_allowed''), (''nodeId'', i)]] else []))))"

fun node_shape_errors :: "string list \<Rightarrow> dict list \<Rightarrow> dict list result" where
  "node_shape_errors seen [] = Inr []"
| "node_shape_errors seen (node # nodes) =
     rbind (node_contract_shape_errors node) (\<lambda>contract.
     rbind (node_shape_errors (case nonempty_text (get_val node ''id'') of Some i \<Rightarrow> i # seen | None \<Rightarrow> seen) nodes) (\<lambda>errors.
     Inr (node_identity_errors node seen @ contract @ errors)))"

definition edge_field_errors :: "dict \<Rightarrow> dict list" where
  "edge_field_errors edge = concat (map (\<lambda>f. if is_non_empty_text (get_val edge f) then []
     else [[(''code'', PStr ''edge_field_required''), (''field'', PStr f), (''edge'', PDict edge)]])
     [''sourceNodeId'', ''sourcePortId'', ''targetNodeId'', ''targetPortId''])"

fun edge_shape_errors :: "string list \<Rightarrow> dict list \<Rightarrow> dict list" where
  "edge_shape_errors seen [] = []"
| "edge_shape_errors seen (edge # edges) =
     (case get_val edge ''id'' of
        PStr i \<Rightarrow>
          if py_strip i = [] then [(''code'', PStr ''edge_id_required''), (''edge'', PDict edge)] # edge_field_errors edge @ edge_shape_errors seen edges
          else if i \<in> set seen then [(''code'', PStr ''duplicate_edge_id''), (''edgeId'', PStr i)] # edge_field_errors edge @ edge_shape_errors seen edges
          else edge_field_errors edge @ edge_shape_errors (i # seen) edges
      | _ \<Rightarrow> [(''code'', PStr ''edge_id_required''), (''edge'', PDict edge)] # edge_field_errors edge @ edge_shape_errors seen edges)"

definition shape_warnings :: "dict list \<Rightarrow> dict list" where
  "shape_warnings nodes = map (\<lambda>n. [(''code'', PStr ''top_level_schema_normalized''), (''nodeId'', get_val n ''id'')])
     (filter (\<lambda>n. has_key n ''schema'') nodes)"

section \<open>Descriptors and configuration\<close>

definition is_missing_required_value :: "pyval \<Rightarrow> bool" where
  "is_missing_required_value v \<longleftrightarrow> v \<in> {PNone, PStr [], PList [], PDict []}"

definition matches_config_kind :: "pyval \<Rightarrow> config_value_kind \<Rightarrow> bool" where
  "matches_config_kind v expected = (case expected of
       String_value \<Rightarrow> is_non_empty_text v
     | Integer_value \<Rightarrow> plain_int v \<noteq> None
     | Boolean_value \<Rightarrow> (case v of PBool _ \<Rightarrow> True | _ \<Rightarrow> False)
     | Array_value \<Rightarrow> is_sequence v
     | Object_value \<Rightarrow> is_mapping v)"

definition config_field_errors :: "pipeline_node \<Rightarrow> config_field_descriptor \<Rightarrow> dict list" where
  "config_field_errors n f =
     (let v = get_val (nd_config n) (cf_field_name f) in
      if cf_is_required f \<and> is_missing_required_value v
      then [[(''code'', PStr ''node_config_required''), (''nodeId'', PStr (nd_id n)), (''field'', PStr (cf_field_name f))]]
      else if v \<noteq> PNone \<and> \<not> matches_config_kind v (cf_value_kind f)
      then [[(''code'', PStr ''node_config_type''), (''nodeId'', PStr (nd_id n)), (''field'', PStr (cf_field_name f)),
        (''expected'', PStr (config_value_kind_value (cf_value_kind f)))]]
      else if v \<noteq> PNone \<and> cf_allowed_values f \<noteq> [] \<and> v \<notin> PStr ` set (cf_allowed_values f)
      then [[(''code'', PStr ''node_config_value''), (''nodeId'', PStr (nd_id n)), (''field'', PStr (cf_field_name f)),
        (''actual'', v), (''allowed'', PList (map PStr (cf_allowed_values f)))]]
      else [])"

definition config_errors :: "pipeline_node \<Rightarrow> node_descriptor \<Rightarrow> dict list" where
  "config_errors n d = concat (map (config_field_errors n) (ds_config_fields d))"

definition descriptor_errors :: "pipeline_node list \<Rightarrow> dict list" where
  "descriptor_errors nodes = concat (map (\<lambda>n. case pipeline_node_descriptor (nd_descriptor_id n) (nd_spec_version n) of
       None \<Rightarrow> [[(''code'', PStr ''node_descriptor_not_found''), (''nodeId'', PStr (nd_id n)),
         (''descriptorId'', PStr (nd_descriptor_id n)), (''specVersion'', PInt (nd_spec_version n))]]
     | Some d \<Rightarrow>
         (if nd_kind n \<noteq> node_kind_value (ds_node_kind d)
          then [[(''code'', PStr ''node_kind_mismatch''), (''nodeId'', PStr (nd_id n)),
            (''expected'', PStr (node_kind_value (ds_node_kind d))), (''actual'', PStr (nd_kind n))]] else [])
         @ config_errors n d) nodes)"

section \<open>Rules of single operations\<close>

definition schema_text :: "pyval \<Rightarrow> string" where
  "schema_text v = py_str (if truthy v then v else PStr [])"

definition schema_signature :: "pipeline_node \<Rightarrow> (string \<times> string) list option" where
  "schema_signature n = (case get_val (nd_config n) ''schema'' of
       PList columns \<Rightarrow> Some (concat (map (\<lambda>c. case c of
           PDict d \<Rightarrow> [(schema_text (get_val d ''name''), py_lower (schema_text (get_val d ''type'')))]
         | _ \<Rightarrow> []) columns))
     | _ \<Rightarrow> None)"

definition schema_column_names :: "pipeline_node \<Rightarrow> string set option" where
  "schema_column_names n = map_option (\<lambda>signature. fst ` set signature) (schema_signature n)"

definition nodes_by_id :: "pipeline_node list \<Rightarrow> (string \<times> pipeline_node) list" where
  "nodes_by_id nodes = dupdate [] (map (\<lambda>n. (nd_id n, n)) nodes)"

definition source_node_for_port ::
  "string \<Rightarrow> string \<Rightarrow> (string \<times> pipeline_node) list \<Rightarrow> pipeline_edge list \<Rightarrow> pipeline_node option" where
  "source_node_for_port node_id port_id nodes edges =
     (case find (\<lambda>e. eg_target_node_id e = node_id \<and> eg_target_port_id e = port_id) edges of
        None \<Rightarrow> None
      | Some e \<Rightarrow> map_of nodes (eg_source_node_id e))"

definition join_port_errors ::
  "pipeline_node \<Rightarrow> (string \<times> pipeline_node) list \<Rightarrow> pipeline_edge list \<Rightarrow> string \<times> string \<Rightarrow> dict list" where
  "join_port_errors n nodes edges pk = (case pk of (port, key_name) \<Rightarrow>
     (case (source_node_for_port (nd_id n) port nodes edges, get_val (nd_config n) key_name) of
        (Some source, PStr key) \<Rightarrow> (case schema_column_names source of
            None \<Rightarrow> []
          | Some columns \<Rightarrow> if key \<in> columns then []
              else [[(''code'', PStr ''join_key_missing''), (''nodeId'', PStr (nd_id n)), (''role'', PStr port),
                (''source'', PStr (nd_id source)), (''column'', PStr key)]])
      | _ \<Rightarrow> []))"

definition join_schema_errors :: "pipeline_node \<Rightarrow> (string \<times> pipeline_node) list \<Rightarrow> pipeline_edge list \<Rightarrow> dict list" where
  "join_schema_errors n nodes edges =
     concat (map (join_port_errors n nodes edges) [(''left'', ''leftKey''), (''right'', ''rightKey'')])"

definition minimum_input_errors :: "pipeline_node \<Rightarrow> pipeline_edge list \<Rightarrow> nat \<Rightarrow> dict list" where
  "minimum_input_errors n edges minimum =
     (let actual = length (filter (\<lambda>e. eg_target_node_id e = nd_id n) edges) in
      if actual \<ge> minimum then []
      else [[(''code'', PStr ''input_count''), (''nodeId'', PStr (nd_id n)), (''minimum'', PInt (int minimum)), (''actual'', PInt (int actual))]])"

definition edge_signature :: "pipeline_node \<Rightarrow> (string \<times> pipeline_node) list \<Rightarrow> pipeline_edge \<Rightarrow> (string \<times> string) list option" where
  "edge_signature n nodes e =
     (if eg_target_node_id e \<noteq> nd_id n \<or> eg_target_port_id e \<noteq> ''inputs'' then None
      else case map_of nodes (eg_source_node_id e) of None \<Rightarrow> None | Some source \<Rightarrow> schema_signature source)"

definition union_signatures :: "pipeline_node \<Rightarrow> (string \<times> pipeline_node) list \<Rightarrow> pipeline_edge list \<Rightarrow> (string \<times> string) list list" where
  "union_signatures n nodes edges = List.map_filter (edge_signature n nodes) edges"

definition union_schema_errors :: "pipeline_node \<Rightarrow> (string \<times> pipeline_node) list \<Rightarrow> pipeline_edge list \<Rightarrow> dict list" where
  "union_schema_errors n nodes edges =
     (case union_signatures n nodes edges of
        s # t # signatures \<Rightarrow> if list_all (\<lambda>x. x = s) (t # signatures) then []
          else [[(''code'', PStr ''union_schema_mismatch''), (''nodeId'', PStr (nd_id n))]]
      | _ \<Rightarrow> [])"

text \<open>\<^verbatim>\<open>imported_trained_model_refs\<close> of \<^verbatim>\<open>pipeline_trained_model_contracts.py\<close>.\<close>

definition imported_trained_model_refs :: "pipeline_graph \<Rightarrow> string list" where
  "imported_trained_model_refs g = (case gr_metadata g of
       None \<Rightarrow> []
     | Some metadata \<Rightarrow> (case get_val metadata ''reusables'' of
         PDict reusables \<Rightarrow> (case get_val reusables ''trainedModels'' of
             PList refs \<Rightarrow> filter (\<lambda>s. s \<noteq> []) (map graph_optional_text refs)
           | _ \<Rightarrow> [])
       | _ \<Rightarrow> []))"

definition trained_model_import_errors :: "pipeline_node \<Rightarrow> pipeline_graph \<Rightarrow> dict list" where
  "trained_model_import_errors n g = (case get_val (nd_config n) ''modelRef'' of
       PStr model_ref \<Rightarrow> if model_ref \<in> set (imported_trained_model_refs g) then []
         else [[(''code'', PStr ''trained_model_not_imported''), (''nodeId'', PStr (nd_id n)), (''modelRef'', PStr model_ref)]]
     | _ \<Rightarrow> [])"

definition operation_errors :: "pipeline_graph \<Rightarrow> dict list" where
  "operation_errors g =
     (let nodes = nodes_by_id (gr_nodes g); edges = gr_edges g in
      concat (map (\<lambda>n.
        (if nd_descriptor_id n = ''transform.join'' then join_schema_errors n nodes edges else [])
        @ (if nd_descriptor_id n = ''transform.union'' then minimum_input_errors n edges 2 @ union_schema_errors n nodes edges else [])
        @ (if nd_descriptor_id n = ''transform.trained_model'' then trained_model_import_errors n g else [])) (gr_nodes g)))"

section \<open>The validation\<close>

definition availability_warning :: "pipeline_node \<Rightarrow> node_descriptor \<Rightarrow> dict option" where
  "availability_warning n d = (case ds_availability d of
       Validation_only \<Rightarrow> Some [(''code'', PStr ''node_runtime_unavailable''), (''nodeId'', PStr (nd_id n)),
         (''runtimeCapability'', PStr (ds_runtime_capability d))]
     | Governed_candidate \<Rightarrow> Some [(''code'', PStr ''node_commits_governed_candidate_only''), (''nodeId'', PStr (nd_id n)),
         (''runtimeCapability'', PStr (ds_runtime_capability d)), (''servingAssetCreated'', PBool False), (''promotionRequired'', PBool True)]
     | _ \<Rightarrow> None)"

definition graph_warnings :: "pipeline_graph \<Rightarrow> dict list" where
  "graph_warnings g = shape_warnings (map node_payload (gr_nodes g))
     @ concat (map (\<lambda>n. case pipeline_node_descriptor (nd_descriptor_id n) (nd_spec_version n) of
         None \<Rightarrow> []
       | Some d \<Rightarrow> (case availability_warning n d of None \<Rightarrow> [] | Some w \<Rightarrow> [w])) (gr_nodes g))"

definition validation_result :: "dict list \<Rightarrow> dict list \<Rightarrow> pipeline_graph option \<Rightarrow> dict" where
  "validation_result errors warnings canonical =
     [(''valid'', PBool (errors = [])), (''errors'', PList (map PDict errors)), (''warnings'', PList (map PDict warnings))]
     @ (case canonical of None \<Rightarrow> [] | Some g \<Rightarrow> [(''normalizedGraph'', PDict (graph_payload g))])"

definition validate_pipeline_graph_v2 :: "dict \<Rightarrow> dict result" where
  "validate_pipeline_graph_v2 graph =
     rbind (graph_object_rows (get_val graph ''nodes'') ''nodes'') (\<lambda>nodes.
     rbind (graph_object_rows (get_val graph ''edges'') ''edges'') (\<lambda>edges.
     rbind (node_shape_errors [] nodes) (\<lambda>node_errors.
     let errors = limit_errors nodes edges @ node_errors @ edge_shape_errors [] edges in
     if errors \<noteq> [] then Inr (validation_result errors (shape_warnings nodes) None)
     else rbind (normalize_pipeline_graph graph) (\<lambda>canonical.
       rbind (pipeline_topology_errors canonical) (\<lambda>topology.
       Inr (validation_result (descriptor_errors (gr_nodes canonical) @ topology @ operation_errors canonical)
         (graph_warnings canonical) (Some canonical)))))))"

section \<open>Soundness of a canonical graph\<close>

definition field_fits :: "config_field_descriptor \<Rightarrow> pyval \<Rightarrow> bool" where
  "field_fits f v \<longleftrightarrow> (cf_is_required f \<longrightarrow> \<not> is_missing_required_value v)
     \<and> (v \<noteq> PNone \<longrightarrow> matches_config_kind v (cf_value_kind f) \<and> (cf_allowed_values f \<noteq> [] \<longrightarrow> v \<in> PStr ` set (cf_allowed_values f)))"

definition node_fits :: "pipeline_node \<Rightarrow> bool" where
  "node_fits n \<longleftrightarrow> (\<exists>d. node_descriptor_of n = Some d \<and> nd_kind n = node_kind_value (ds_node_kind d)
     \<and> (\<forall>f \<in> set (ds_config_fields d). field_fits f (get_val (nd_config n) (cf_field_name f))))"

definition connected_source :: "pipeline_graph \<Rightarrow> pipeline_node \<Rightarrow> string \<Rightarrow> pipeline_node \<Rightarrow> bool" where
  "connected_source g n port s \<longleftrightarrow> s \<in> set (gr_nodes g) \<and> (\<exists>e \<in> set (gr_edges g).
     eg_target_node_id e = nd_id n \<and> eg_target_port_id e = port \<and> eg_source_node_id e = nd_id s)"

definition join_sound :: "pipeline_graph \<Rightarrow> pipeline_node \<Rightarrow> bool" where
  "join_sound g n \<longleftrightarrow> (\<forall>(port, key_name) \<in> {(''left'', ''leftKey''), (''right'', ''rightKey'')}. \<forall>s key signature.
     connected_source g n port s \<longrightarrow> get_val (nd_config n) key_name = PStr key \<longrightarrow> schema_signature s = Some signature
       \<longrightarrow> key \<in> fst ` set signature)"

definition union_sound :: "pipeline_graph \<Rightarrow> pipeline_node \<Rightarrow> bool" where
  "union_sound g n \<longleftrightarrow> 2 \<le> length (filter (\<lambda>e. eg_target_node_id e = nd_id n) (gr_edges g))
     \<and> (\<forall>s t a b. connected_source g n ''inputs'' s \<longrightarrow> connected_source g n ''inputs'' t
         \<longrightarrow> schema_signature s = Some a \<longrightarrow> schema_signature t = Some b \<longrightarrow> a = b)"

definition model_sound :: "pipeline_graph \<Rightarrow> pipeline_node \<Rightarrow> bool" where
  "model_sound g n \<longleftrightarrow> (\<forall>m. get_val (nd_config n) ''modelRef'' = PStr m \<longrightarrow> m \<in> set (imported_trained_model_refs g))"

definition operation_sound :: "pipeline_graph \<Rightarrow> pipeline_node \<Rightarrow> bool" where
  "operation_sound g n \<longleftrightarrow> (nd_descriptor_id n = ''transform.join'' \<longrightarrow> join_sound g n)
     \<and> (nd_descriptor_id n = ''transform.union'' \<longrightarrow> union_sound g n)
     \<and> (nd_descriptor_id n = ''transform.trained_model'' \<longrightarrow> model_sound g n)"

definition graph_sound :: "pipeline_graph \<Rightarrow> bool" where
  "graph_sound g \<longleftrightarrow> length (gr_nodes g) \<le> 200 \<and> length (gr_edges g) \<le> 600 \<and> (\<exists>n \<in> set (gr_nodes g). nd_kind n = ''output'')
     \<and> distinct (map nd_id (gr_nodes g)) \<and> well_connected g \<and> acyclic (set (edge_pairs (gr_edges g)))
     \<and> (\<forall>n \<in> set (gr_nodes g). node_fits n \<and> operation_sound g n)"

lemma config_field_errors_Nil: "config_field_errors n f = [] \<longleftrightarrow> field_fits f (get_val (nd_config n) (cf_field_name f))"
  by (auto simp: config_field_errors_def field_fits_def Let_def is_missing_required_value_def)

lemma descriptor_errors_Nil: "descriptor_errors nodes = [] \<longleftrightarrow> (\<forall>n \<in> set nodes. node_fits n)"
proof -
  have "(case pipeline_node_descriptor (nd_descriptor_id n) (nd_spec_version n) of
       None \<Rightarrow> [[(''code'', PStr ''node_descriptor_not_found''), (''nodeId'', PStr (nd_id n)),
         (''descriptorId'', PStr (nd_descriptor_id n)), (''specVersion'', PInt (nd_spec_version n))]]
     | Some d \<Rightarrow>
         (if nd_kind n \<noteq> node_kind_value (ds_node_kind d)
          then [[(''code'', PStr ''node_kind_mismatch''), (''nodeId'', PStr (nd_id n)),
            (''expected'', PStr (node_kind_value (ds_node_kind d))), (''actual'', PStr (nd_kind n))]] else [])
         @ config_errors n d) = [] \<longleftrightarrow> node_fits n" for n
    unfolding node_fits_def node_descriptor_of_def
    by (cases "pipeline_node_descriptor (nd_descriptor_id n) (nd_spec_version n)")
      (simp_all add: config_errors_def config_field_errors_Nil)
  then show ?thesis by (simp add: descriptor_errors_def)
qed

lemma nodes_by_id_Some:
  assumes "distinct (map nd_id nodes)"
  shows "map_of (nodes_by_id nodes) i = Some s \<longleftrightarrow> s \<in> set nodes \<and> nd_id s = i"
proof -
  have "distinct (map fst (map (\<lambda>n. (nd_id n, n)) nodes))" using assms by (simp add: comp_def)
  then show ?thesis
    unfolding nodes_by_id_def dupdate_by_id [OF assms] by (subst map_of_eq_Some_iff) auto
qed

lemma find_filter: "find P xs = (case filter P xs of [] \<Rightarrow> None | x # _ \<Rightarrow> Some x)"
  by (induction xs) simp_all

lemma source_node_for_port_Some:
  assumes ids: "distinct (map nd_id (gr_nodes g))" and one: "length (edges_into (gr_edges g) (nd_id n) port) \<le> 1"
  shows "source_node_for_port (nd_id n) port (nodes_by_id (gr_nodes g)) (gr_edges g) = Some s \<longleftrightarrow> connected_source g n port s"
proof -
  let ?into = "edges_into (gr_edges g) (nd_id n) port"
  have set: "e \<in> set ?into \<longleftrightarrow> e \<in> set (gr_edges g) \<and> eg_target_node_id e = nd_id n \<and> eg_target_port_id e = port" for e
    by (auto simp: edges_into_def)
  have port: "source_node_for_port (nd_id n) port (nodes_by_id (gr_nodes g)) (gr_edges g) =
      (case ?into of [] \<Rightarrow> None | e # _ \<Rightarrow> map_of (nodes_by_id (gr_nodes g)) (eg_source_node_id e))"
    unfolding source_node_for_port_def find_filter edges_into_def by (simp split: list.split)
  from one consider "?into = []" | e where "?into = [e]" by (cases ?into) auto
  then show ?thesis
  proof cases
    case 1
    with set port show ?thesis by (auto simp: connected_source_def)
  next
    case (2 e)
    have "connected_source g n port s \<longleftrightarrow> s \<in> set (gr_nodes g) \<and> (\<exists>e \<in> set ?into. eg_source_node_id e = nd_id s)"
      using set by (auto simp: connected_source_def)
    with 2 port nodes_by_id_Some [OF ids] show ?thesis by auto
  qed
qed

lemma join_ports_single:
  assumes "well_connected g" "n \<in> set (gr_nodes g)" "node_fits n" "nd_descriptor_id n = ''transform.join''" "port \<in> {''left'', ''right''}"
  shows "length (edges_into (gr_edges g) (nd_id n) port) \<le> 1"
proof -
  have catalog: "list_all (\<lambda>d. ds_descriptor_id d = ''transform.join'' \<longrightarrow> list_all (\<lambda>port.
      list_ex (\<lambda>p. ip_port_id p = port \<and> ip_cardinality p = One) (ds_input_ports d)) [''left'', ''right'']) pipeline_node_descriptors"
    by code_simp
  from assms(3) obtain d where d: "node_descriptor_of n = Some d" by (auto simp: node_fits_def)
  then have "d \<in> set pipeline_node_descriptors" "ds_descriptor_id d = ''transform.join''"
    using assms(4) by (auto simp: node_descriptor_of_def dest: pipeline_node_descriptor_in)
  with catalog assms(5) obtain p where p: "p \<in> set (ds_input_ports d)" "ip_port_id p = port" "ip_cardinality p = One"
    by (auto simp: list_all_iff list_ex_iff)
  with assms(1,2) d have "port_connected (gr_edges g) (nd_id n) p" unfolding well_connected_def by blast
  with p show ?thesis by (simp add: port_connected_def Let_def)
qed

lemma join_schema_errors_Nil:
  assumes "distinct (map nd_id (gr_nodes g))" "well_connected g" "n \<in> set (gr_nodes g)" "node_fits n" "nd_descriptor_id n = ''transform.join''"
  shows "join_schema_errors n (nodes_by_id (gr_nodes g)) (gr_edges g) = [] \<longleftrightarrow> join_sound g n"
proof -
  have "join_port_errors n (nodes_by_id (gr_nodes g)) (gr_edges g) (port, key_name) = [] \<longleftrightarrow> (\<forall>s key signature.
      connected_source g n port s \<longrightarrow> get_val (nd_config n) key_name = PStr key \<longrightarrow> schema_signature s = Some signature
       \<longrightarrow> key \<in> fst ` set signature)" if port: "port \<in> {''left'', ''right''}" for port key_name
    unfolding join_port_errors_def prod.case source_node_for_port_Some [OF assms(1) join_ports_single [OF assms(2-5) port], symmetric]
    by (auto simp: schema_column_names_def split: option.splits pyval.splits)
  then show ?thesis by (simp add: join_schema_errors_def join_sound_def)
qed

lemma union_schema_errors_Nil:
  "union_schema_errors n nodes edges = [] \<longleftrightarrow> (\<forall>a \<in> set (union_signatures n nodes edges). \<forall>b \<in> set (union_signatures n nodes edges). a = b)"
proof -
  have "(\<forall>x \<in> set xs. x = s) \<longleftrightarrow> (\<forall>a \<in> set (s # xs). \<forall>b \<in> set (s # xs). a = b)" for s :: "(string \<times> string) list" and xs
    by (simp; metis)
  note all_equal = this
  show ?thesis
  proof (cases "union_signatures n nodes edges")
    case (Cons s xs)
    then show ?thesis
      unfolding union_schema_errors_def Cons all_equal [symmetric] by (cases xs) (simp_all add: list_all_iff)
  qed (simp add: union_schema_errors_def)
qed

lemma map_filter_in: "y \<in> set (List.map_filter f xs) \<longleftrightarrow> (\<exists>x \<in> set xs. f x = Some y)"
  by (induction xs) (auto simp: List.map_filter_simps split: option.split)

lemma union_signatures_in:
  assumes "distinct (map nd_id (gr_nodes g))"
  shows "a \<in> set (union_signatures n (nodes_by_id (gr_nodes g)) (gr_edges g)) \<longleftrightarrow>
    (\<exists>s. connected_source g n ''inputs'' s \<and> schema_signature s = Some a)"
proof -
  have edge: "edge_signature n (nodes_by_id (gr_nodes g)) e = Some a \<longleftrightarrow> eg_target_node_id e = nd_id n \<and> eg_target_port_id e = ''inputs''
      \<and> (\<exists>s. map_of (nodes_by_id (gr_nodes g)) (eg_source_node_id e) = Some s \<and> schema_signature s = Some a)" for e
    by (auto simp: edge_signature_def split: option.splits)
  show ?thesis
    unfolding union_signatures_def map_filter_in edge nodes_by_id_Some [OF assms] connected_source_def by (rule iffI; elim exE conjE bexE; intro exI conjI bexI; simp)
qed

lemma operation_errors_Nil:
  assumes "distinct (map nd_id (gr_nodes g))" "well_connected g" "\<forall>n \<in> set (gr_nodes g). node_fits n"
  shows "operation_errors g = [] \<longleftrightarrow> (\<forall>n \<in> set (gr_nodes g). operation_sound g n)"
proof -
  have "minimum_input_errors n (gr_edges g) 2 @ union_schema_errors n (nodes_by_id (gr_nodes g)) (gr_edges g) = [] \<longleftrightarrow> union_sound g n" for n
  proof -
    have "minimum_input_errors n (gr_edges g) 2 = [] \<longleftrightarrow> 2 \<le> length (filter (\<lambda>e. eg_target_node_id e = nd_id n) (gr_edges g))"
      by (simp add: minimum_input_errors_def Let_def)
    then show ?thesis
      unfolding union_sound_def append_is_Nil_conv union_schema_errors_Nil Ball_def union_signatures_in [OF assms(1)] by blast
  qed
  moreover have "trained_model_import_errors n g = [] \<longleftrightarrow> model_sound g n" for n
    by (auto simp: trained_model_import_errors_def model_sound_def split: pyval.split)
  ultimately show ?thesis
    using join_schema_errors_Nil [OF assms(1,2)] assms(3)
    by (auto simp: operation_errors_def operation_sound_def Let_def)
qed

text \<open>A canonical graph within the limits has no errors exactly when it is sound.\<close>

definition canonical_errors :: "pipeline_graph \<Rightarrow> dict list \<Rightarrow> dict list" where
  "canonical_errors g topology = descriptor_errors (gr_nodes g) @ topology @ operation_errors g"

lemma canonical_errors_Nil:
  assumes "length (gr_nodes g) \<le> 200" "length (gr_edges g) \<le> 600" "\<exists>n \<in> set (gr_nodes g). nd_kind n = ''output''"
  obtains topology where "pipeline_topology_errors g = Inr topology" "canonical_errors g topology = [] \<longleftrightarrow> graph_sound g"
proof -
  obtain topology where t: "pipeline_topology_errors g = Inr topology"
    "topology = [] \<longleftrightarrow> distinct (map nd_id (gr_nodes g)) \<and> well_connected g \<and> acyclic (set (edge_pairs (gr_edges g)))"
    using topology_exact by blast
  have "canonical_errors g topology = [] \<longleftrightarrow> graph_sound g"
    using t(2) descriptor_errors_Nil operation_errors_Nil [of g] assms unfolding canonical_errors_def graph_sound_def append_is_Nil_conv by blast
  with t(1) that show thesis by blast
qed

section \<open>From the raw graph to the canonical one\<close>

lemma node_shape_errors_contract:
  "node_shape_errors seen nodes = Inr [] \<Longrightarrow> node \<in> set nodes \<Longrightarrow> node_contract_shape_errors node = Inr []"
  by (induction seen nodes rule: node_shape_errors.induct) (auto simp: rbind_eq_Inr)

lemma edge_shape_errors_id: "edge_shape_errors seen edges = [] \<Longrightarrow> edge \<in> set edges \<Longrightarrow> is_non_empty_text (get_val edge ''id'')"
  by (induction seen edges rule: edge_shape_errors.induct) (auto simp: is_non_empty_text_def split: pyval.splits if_splits)

lemma node_contract_no_data: "node_contract_shape_errors node = Inr [] \<Longrightarrow> \<not> has_key node ''data''"
  by (auto simp: node_contract_shape_errors_def Let_def rbind_eq_Inr split: if_splits)

lemma limit_errors_Nil:
  "limit_errors nodes edges = [] \<longleftrightarrow> length nodes \<le> 200 \<and> length edges \<le> 600 \<and> (\<exists>n \<in> set nodes. get_val n ''kind'' = PStr ''output'')"
  by (auto simp: limit_errors_def Let_def max_pipeline_nodes_def max_pipeline_edges_def filter_empty_conv)

lemma length_number_edges: "length (number_edges counts edges) = length edges"
  by (induction counts edges rule: number_edges.induct) (simp_all add: Let_def)

lemma edge_drafts_length: "edge_drafts edges raw_nodes descriptors version = Inr drafts \<Longrightarrow> length drafts = length edges"
  by (auto simp: edge_drafts_def rbind_eq_Inr map_result_Inr dest!: list_all2_lengthD)

lemma normalize_kind_kept: "normalize_node 2 raw = Inr n \<Longrightarrow> get_val raw ''kind'' = PStr ''output'' \<Longrightarrow> nd_kind n = ''output''"
proof -
  assume run: "normalize_node 2 raw = Inr n" and kind: "get_val raw ''kind'' = PStr ''output''"
  have "text_ok ''output''" by code_simp
  then have "graph_node_kind raw d 2 = Inr ''output''" for d by (simp add: graph_node_kind_def kind literal_node_kind_def)
  with run show "nd_kind n = ''output''" by (auto simp: normalize_node_def rbind_eq_Inr)
qed

lemma normalize_keeps_no_data: "normalize_node 2 raw = Inr n \<Longrightarrow> \<not> has_key raw ''data'' \<Longrightarrow> \<not> has_key (nd_rest n) ''data''"
  using other_entries_dkeys [of node_keys raw] by (auto simp: normalize_node_def rbind_eq_Inr has_key_def)

lemma edge_drafts_ids:
  assumes "edge_drafts edges raw_nodes descriptors version = Inr drafts" "\<forall>e \<in> set edges. is_non_empty_text (get_val e ''id'')" "d \<in> set drafts"
  shows "eg_id d \<noteq> []"
proof -
  from assms(1) obtain ports where run: "map_result (\<lambda>(index, edge).
       rbind (edge_node_id edge ''sourceNodeId'' ''source'' version) (\<lambda>source.
       rbind (edge_node_id edge ''targetNodeId'' ''target'' version) (\<lambda>target.
       Inr (normalize_edge edge source target descriptors version (map_of ports index))))) (enumerate 0 edges) = Inr drafts"
    unfolding edge_drafts_def by (elim rbind_InrE)
  from map_result_item [OF run assms(3)] obtain index edge where
    "(index, edge) \<in> set (enumerate 0 edges)" "eg_id d = graph_optional_text (get_val edge ''id'')"
    by (auto simp: rbind_eq_Inr normalize_edge_def)
  moreover from this(1) have "edge \<in> set edges" by (auto simp: in_set_enumerate_eq)
  ultimately show ?thesis using assms(2) by (auto simp: is_non_empty_text_def graph_optional_text_def split: pyval.splits)
qed

text \<open>What a validated graph and its canonical graph look like.\<close>

lemma validate_cases:
  assumes version: "get_val graph ''schemaVersion'' = PInt 2"
    and run: "validate_pipeline_graph_v2 graph = Inr r" and valid: "get_val r ''valid'' = PBool True"
  obtains g where "normalize_pipeline_graph graph = Inr g" "graph_sound g" "r = validation_result [] (graph_warnings g) (Some g)"
    "\<forall>n \<in> set (gr_nodes g). \<not> has_key (nd_rest n) ''data''" "sort_key normalized_edge_sort_key (gr_edges g) = gr_edges g"
proof -
  have valid_iff: "get_val (validation_result errors warnings c) ''valid'' = PBool True \<longleftrightarrow> errors = []" for errors warnings c
    by (simp add: validation_result_def)
  from run obtain nodes edges node_errors where rows:
    "graph_object_rows (get_val graph ''nodes'') ''nodes'' = Inr nodes" "graph_object_rows (get_val graph ''edges'') ''edges'' = Inr edges"
    "node_shape_errors [] nodes = Inr node_errors" unfolding validate_pipeline_graph_v2_def by (elim rbind_InrE)
  note run' = run [unfolded validate_pipeline_graph_v2_def rows rbind_Inr Let_def]
  have shape: "limit_errors nodes edges @ node_errors @ edge_shape_errors [] edges = []"
  proof (rule ccontr)
    assume "limit_errors nodes edges @ node_errors @ edge_shape_errors [] edges \<noteq> []"
    with run' valid valid_iff show False by auto
  qed
  with run' obtain g topology where g: "normalize_pipeline_graph graph = Inr g" "pipeline_topology_errors g = Inr topology"
    "r = validation_result (canonical_errors g topology) (graph_warnings g) (Some g)"
    by (auto simp: rbind_eq_Inr canonical_errors_def)
  have "get_or (PInt 1) graph ''schemaVersion'' = PInt 2" using version by (simp add: get_or_def split: option.splits)
  then have two: "pipeline_graph_schema_version graph = Inr 2" by (simp add: pipeline_graph_schema_version_def)
  from g(1) obtain drafts es where drafts: "map_result (normalize_node 2) nodes = Inr drafts"
    and es: "edge_drafts edges nodes (descriptors_by_node_id (sort_key nd_id drafts)) 2 = Inr es"
    and gr: "gr_nodes g = sort_key nd_id drafts" "gr_edges g = finalize_edges es"
    by (auto simp: normalize_pipeline_graph_def two rows rbind_eq_Inr Let_def normalized_graph_def)
  have limits: "length nodes \<le> 200" "length edges \<le> 600" "\<exists>n \<in> set nodes. get_val n ''kind'' = PStr ''output''"
    using shape by (auto simp: limit_errors_Nil)
  have "length drafts = length nodes" using drafts by (auto simp: map_result_Inr dest: list_all2_lengthD)
  then have "length (gr_nodes g) \<le> 200" "length (gr_edges g) \<le> 600"
    using limits edge_drafts_length [OF es] by (simp_all add: gr finalize_edges_def length_number_edges)
  moreover have "\<exists>n \<in> set (gr_nodes g). nd_kind n = ''output''"
    using limits(3) map_result_source [OF drafts] normalize_kind_kept by (force simp: gr)
  ultimately obtain topology' where "pipeline_topology_errors g = Inr topology'" "canonical_errors g topology' = [] \<longleftrightarrow> graph_sound g"
    by (rule canonical_errors_Nil)
  moreover have "canonical_errors g topology = []" using valid g(3) valid_iff by blast
  moreover have "\<not> has_key (nd_rest n) ''data''" if n: "n \<in> set (gr_nodes g)" for n
  proof -
    from n map_result_item [OF drafts] obtain raw where "raw \<in> set nodes" "normalize_node 2 raw = Inr n" by (auto simp: gr)
    moreover from this(1) have "\<not> has_key raw ''data''"
    proof -
      assume "raw \<in> set nodes"
      with shape rows(3) have "node_contract_shape_errors raw = Inr []" by (intro node_shape_errors_contract) simp_all
      then show ?thesis by (rule node_contract_no_data)
    qed
    ultimately show ?thesis by (auto dest: normalize_keeps_no_data)
  qed
  moreover have "sort_key normalized_edge_sort_key (gr_edges g) = gr_edges g"
  proof -
    have "\<forall>e \<in> set es. eg_id e \<noteq> []" using edge_drafts_ids [OF es] edge_shape_errors_id [of "[]" edges] shape by auto
    then have "gr_edges g = sort_key normalized_edge_sort_key es"
      unfolding gr finalize_edges_def by (intro number_edges_given) simp
    then show ?thesis by (simp add: sort_key_id_if_sorted)
  qed
  ultimately show thesis using that g by auto
qed


section \<open>Validating the canonical graph again\<close>

lemma text_ok_nonempty: "text_ok s \<Longrightarrow> is_non_empty_text (PStr s) \<and> s \<noteq> []"
  by (auto simp: text_ok_def is_non_empty_text_def)

lemma node_payload_shape:
  assumes "canonical_node n" "\<not> has_key (nd_rest n) ''data''"
  shows "node_contract_shape_errors (node_payload n) = Inr []" "nonempty_text (get_val (node_payload n) ''id'') = Some (nd_id n)"
proof -
  have "get_val (node_payload n) ''kind'' = PStr (nd_kind n)" "get_val (node_payload n) ''descriptorId'' = PStr (nd_descriptor_id n)"
    "get_val (node_payload n) ''specVersion'' = PInt (nd_spec_version n)" "get_val (node_payload n) ''config'' = PDict (nd_config n)"
    "has_key (node_payload n) ''data'' = has_key (nd_rest n) ''data''"
    by (simp_all add: node_payload_def has_key_def)
  then show "node_contract_shape_errors (node_payload n) = Inr []"
    using assms text_ok_nonempty [of "nd_descriptor_id n"]
    by (auto simp: node_contract_shape_errors_def Let_def in_names_def canonical_node_def is_positive_integer_def has_key_def)
  show "nonempty_text (get_val (node_payload n) ''id'') = Some (nd_id n)"
    using assms(1) by (simp add: node_payload_def canonical_node_def text_ok_def)
qed

lemma node_payloads_shape:
  assumes "\<forall>n \<in> set nodes. canonical_node n \<and> \<not> has_key (nd_rest n) ''data''" "distinct (map nd_id nodes)" "nd_id ` set nodes \<inter> set seen = {}"
  shows "node_shape_errors seen (map node_payload nodes) = Inr []"
  using assms
proof (induction nodes arbitrary: seen)
  case (Cons n nodes)
  then have "canonical_node n" "\<not> has_key (nd_rest n) ''data''" by simp_all
  note n = node_payload_shape [OF this]
  have "node_shape_errors (nd_id n # seen) (map node_payload nodes) = Inr []" using Cons by (intro Cons.IH) auto
  with n Cons.prems(3) show ?case by (simp add: node_identity_errors_def)
qed simp

lemma edge_payloads_shape:
  assumes "\<forall>e \<in> set edges. canonical_edge e \<and> text_ok (eg_id e)" "distinct (map eg_id edges)" "eg_id ` set edges \<inter> set seen = {}"
  shows "edge_shape_errors seen (map edge_payload edges) = []"
  using assms
proof (induction edges arbitrary: seen)
  case (Cons e edges)
  have "edge_field_errors (edge_payload e) = []"
    using Cons.prems(1) text_ok_nonempty by (simp add: edge_field_errors_def edge_payload_def canonical_edge_def)
  moreover have "edge_shape_errors (eg_id e # seen) (map edge_payload edges) = []" using Cons by (intro Cons.IH) auto
  moreover have "get_val (edge_payload e) ''id'' = PStr (eg_id e)" by (simp add: edge_payload_def)
  ultimately show ?case using Cons.prems by (simp add: text_ok_def)
qed simp

lemma canonical_validates:
  assumes canonical: "canonical_graph g" and sound: "graph_sound g"
    and nodes: "\<forall>n \<in> set (gr_nodes g). join_type_stable n \<and> \<not> has_key (nd_rest n) ''data''"
    and edges: "distinct (map eg_id (gr_edges g))" and read: "normalize_pipeline_graph (graph_payload g) = Inr g"
  shows "validate_pipeline_graph_v2 (graph_payload g) = Inr (validation_result [] (graph_warnings g) (Some g))"
proof -
  note ok = canonical [unfolded canonical_graph_def]
  note s = sound [unfolded graph_sound_def]
  have rows: "get_val (graph_payload g) ''nodes'' = PList (map PDict (map node_payload (gr_nodes g)))"
    "get_val (graph_payload g) ''edges'' = PList (map PDict (map edge_payload (gr_edges g)))"
    by (simp_all add: graph_payload_def)
  have "node_shape_errors [] (map node_payload (gr_nodes g)) = Inr []"
    using ok s nodes by (intro node_payloads_shape) auto
  moreover have "edge_shape_errors [] (map edge_payload (gr_edges g)) = []"
    using ok edges by (intro edge_payloads_shape) auto
  moreover have "limit_errors (map node_payload (gr_nodes g)) (map edge_payload (gr_edges g)) = []"
    unfolding limit_errors_Nil using s by (force simp: node_payload_def)
  moreover have "pipeline_topology_errors g = Inr [] \<and> canonical_errors g [] = []"
  proof -
    from canonical_errors_Nil [of g] s obtain topology where t: "pipeline_topology_errors g = Inr topology" "canonical_errors g topology = [] \<longleftrightarrow> graph_sound g"
      by blast
    with sound have "canonical_errors g topology = []" by simp
    then have "topology = []" by (simp add: canonical_errors_def)
    with t sound show ?thesis by simp
  qed
  ultimately show ?thesis
    unfolding validate_pipeline_graph_v2_def rows graph_object_rows_payload rbind_Inr by (simp add: read canonical_errors_def)
qed

text \<open>Only the join operation restricts its join type, to stable ones.\<close>

lemma join_nodes_stable: "node_fits n \<Longrightarrow> nd_descriptor_id n = ''transform.join'' \<Longrightarrow> join_type_stable n"
proof -
  have catalog: "list_all (\<lambda>d. ds_descriptor_id d = ''transform.join'' \<longrightarrow> list_ex (\<lambda>f. cf_field_name f = ''joinType''
      \<and> cf_allowed_values f \<noteq> [] \<and> list_all (\<lambda>t. normalize_join_type t = t) (cf_allowed_values f)) (ds_config_fields d)) pipeline_node_descriptors"
    by code_simp
  assume "node_fits n" and join: "nd_descriptor_id n = ''transform.join''"
  then obtain d where d: "node_descriptor_of n = Some d" "\<forall>f \<in> set (ds_config_fields d). field_fits f (get_val (nd_config n) (cf_field_name f))"
    by (auto simp: node_fits_def)
  from d(1) join have "d \<in> set pipeline_node_descriptors" "ds_descriptor_id d = ''transform.join''"
    by (auto simp: node_descriptor_of_def dest: pipeline_node_descriptor_in)
  with catalog obtain f where f: "f \<in> set (ds_config_fields d)" "cf_field_name f = ''joinType''" "cf_allowed_values f \<noteq> []"
    "\<forall>t \<in> set (cf_allowed_values f). normalize_join_type t = t"
    by (auto simp: list_all_iff list_ex_iff)
  with d(2) have "field_fits f (get_val (nd_config n) ''joinType'')" by force
  with f(3,4) show "join_type_stable n" by (auto simp: field_fits_def join_type_stable_def split: pyval.split)
qed

text \<open>
  The canonical graph of a valid graph validates with exactly the same result, provided its edge ids
  stay distinct when stripped and no node other than a join carries a join type that is not stable. In
  particular it is its own canonical graph.
\<close>
theorem valid_graph_validates_again:
  assumes "get_val graph ''schemaVersion'' = PInt 2"
    and "validate_pipeline_graph_v2 graph = Inr r" "get_val r ''valid'' = PBool True"
    and "normalize_pipeline_graph graph = Inr g" "distinct (map eg_id (gr_edges g))"
    and "\<forall>n \<in> set (gr_nodes g). nd_descriptor_id n \<noteq> ''transform.join'' \<longrightarrow> join_type_stable n"
  shows "validate_pipeline_graph_v2 (graph_payload g) = Inr r \<and> normalize_pipeline_graph (graph_payload g) = Inr g"
proof -
  from assms(1-3) obtain h where h: "normalize_pipeline_graph graph = Inr h" "graph_sound h" "r = validation_result [] (graph_warnings h) (Some h)"
    "\<forall>n \<in> set (gr_nodes h). \<not> has_key (nd_rest n) ''data''" "sort_key normalized_edge_sort_key (gr_edges h) = gr_edges h"
    by (rule validate_cases)
  with assms(4) have g: "h = g" by simp
  have nodes: "\<forall>n \<in> set (gr_nodes g). join_type_stable n \<and> \<not> has_key (nd_rest n) ''data''"
    using h(2,4) assms(6) join_nodes_stable unfolding g graph_sound_def by blast
  have read: "normalize_pipeline_graph (graph_payload g) = Inr g"
    using normalize_reads_back [OF assms(4) nodes] h(5) unfolding g by simp
  with canonical_validates [OF normalize_pipeline_graph_canonical [OF assms(4)] _ nodes assms(5)] h(2,3) show ?thesis unfolding g by blast
qed

text \<open>A valid graph: a data set with two spellings of its schema, a selection, and an output.\<close>

definition select_graph :: dict where
  "select_graph = [(''schemaVersion'', PInt 2), (''nodes'', PList [
       PDict [(''id'', PStr ''out ''), (''kind'', PStr ''output''), (''descriptorId'', PStr ''output.dataset''), (''specVersion'', PInt 1),
         (''config'', PDict [(''datasetRef'', PStr ''totals'')])],
       PDict [(''id'', PStr ''in''), (''kind'', PStr ''source''), (''descriptorId'', PStr ''source.dataset''), (''specVersion'', PInt 1),
         (''config'', PDict [(''datasetRef'', PStr ''sales'')]), (''schema'', PList [])]]),
     (''edges'', PList [PDict [(''id'', PStr ''e1''), (''sourceNodeId'', PStr ''in''), (''sourcePortId'', PStr ''dataset''),
       (''targetNodeId'', PStr ''out''), (''targetPortId'', PStr ''input'')]])]"

lemma select_graph_valid:
  "case validate_pipeline_graph_v2 select_graph of Inr r \<Rightarrow> get_val r ''valid'' = PBool True | Inl _ \<Rightarrow> False"
  "case normalize_pipeline_graph select_graph of Inr g \<Rightarrow> distinct (map eg_id (gr_edges g)) \<and> list_all join_type_stable (gr_nodes g) | Inl _ \<Rightarrow> False"
  by code_simp+


theorem valid_graph_validates_again_witness:
  "\<exists>g r. normalize_pipeline_graph select_graph = Inr g \<and> validate_pipeline_graph_v2 (graph_payload g) = Inr r \<and> get_val r ''valid'' = PBool True"
proof -
  obtain r where r: "validate_pipeline_graph_v2 select_graph = Inr r" "get_val r ''valid'' = PBool True"
    using select_graph_valid(1) by (auto split: sum.splits)
  obtain g where g: "normalize_pipeline_graph select_graph = Inr g" "distinct (map eg_id (gr_edges g))" "list_all join_type_stable (gr_nodes g)"
    using select_graph_valid(2) by (auto split: sum.splits)
  have "get_val select_graph ''schemaVersion'' = PInt 2" by (simp add: select_graph_def)
  from valid_graph_validates_again [OF this r g(1,2)] g(3) have "validate_pipeline_graph_v2 (graph_payload g) = Inr r"
    by (simp add: list_all_iff)
  with r(2) g(1) show ?thesis by blast
qed

text \<open>Edge ids that differ only in surrounding space are accepted, but the canonical graph then has the same id twice.\<close>

lemma spaced_edge_ids_refused_again:
  "edge_shape_errors [] [[(''id'', PStr ''e''), (''sourceNodeId'', PStr ''a''), (''sourcePortId'', PStr ''p''), (''targetNodeId'', PStr ''b''), (''targetPortId'', PStr ''q'')],
     [(''id'', PStr ''e ''), (''sourceNodeId'', PStr ''a''), (''sourcePortId'', PStr ''p''), (''targetNodeId'', PStr ''b''), (''targetPortId'', PStr ''q'')]] = []"
  "graph_optional_text (PStr ''e '') = graph_optional_text (PStr ''e'')"
  by code_simp+

text \<open>A kind that is a list raises \<^verbatim>\<open>TypeError\<close> instead of being reported.\<close>

lemma unhashable_node_kind_raises: "node_contract_shape_errors [(''kind'', PList [])] = Inl TypeError"
  by code_simp

end
