(* ===== verification/Action_Risk.thy ===== *)
theory Action_Risk
  imports Action_Contract Edit_Plan
begin

text \<open>
  \<^verbatim>\<open>domain/action_runtime/action_risk.py\<close>: the risk derived from an action contract and from the edits planned
  for one request. Shown: classification of a compiled contract never raises, never lowers the declared risk,
  and an agent only executes on its own what is harmless.
\<close>

section \<open>Assessment\<close>

record risk_assessment =
  ra_declared_level :: string
  ra_effective_level :: string
  ra_reasons :: "string list"

definition risk_rank :: "string \<Rightarrow> int result" where
  "risk_rank level = (case map_of [(''low'', 0), (''medium'', 1), (''high'', 2)] level of None \<Rightarrow> Inl KeyError | Some n \<Rightarrow> Inr n)"

definition raise_risk :: "string \<Rightarrow> string \<Rightarrow> string result" where
  "raise_risk current minimum =
     rbind (risk_rank current) (\<lambda>a. rbind (risk_rank minimum) (\<lambda>b. Inr (if a \<ge> b then current else minimum)))"

definition rule_kind :: "dict \<Rightarrow> string" where
  "rule_kind rule = py_str (if truthy (get_val rule ''kind'') then get_val rule ''kind'' else PStr [])"

definition raise_for :: "string \<Rightarrow> string \<Rightarrow> string \<times> string list \<Rightarrow> (string \<times> string list) result" where
  "raise_for level reason s = (case s of (current, reasons) \<Rightarrow>
     rbind (raise_risk current level) (\<lambda>new. Inr (new, reasons @ [reason])))"

definition rule_risk :: "dict \<Rightarrow> string \<times> string list \<Rightarrow> (string \<times> string list) result" where
  "rule_risk rule s =
     (let kind = rule_kind rule in
      if kind \<in> {''deleteObject'', ''deleteObjects''} then raise_for ''high'' ''object_delete'' s
      else if kind \<in> {''modifyObjects''} then raise_for ''high'' ''large_batch'' s
      else if kind \<in> {''createObject'', ''createLink'', ''deleteLink'', ''createOrModifyObject''}
      then raise_for ''medium'' ''multi_resource_edit'' s
      else if kind = ''functionEdit'' then raise_for ''high'' ''function_execution_fail_closed'' s
      else Inr s)"

definition structural_action_risk :: "action_contract \<Rightarrow> risk_assessment result" where
  "structural_action_risk c =
     rbind (if ac_permissions c = [] then raise_for ''high'' ''permissions_missing'' (''low'', []) else Inr (''low'', [])) (\<lambda>s.
     rbind (if ac_effects c \<noteq> [] then raise_for ''high'' ''external_effect'' s else Inr s) (\<lambda>s.
     rbind (if ac_function c \<noteq> None then raise_for ''high'' ''function_execution_fail_closed'' s else Inr s) (\<lambda>s.
     rbind (fold_result rule_risk (ac_rules c) s) (\<lambda>(minimum, reasons).
     rbind (raise_risk (ac_risk_level c) minimum) (\<lambda>effective.
     Inr \<lparr>ra_declared_level = ac_risk_level c, ra_effective_level = effective, ra_reasons = reasons\<rparr>)))))"

definition sensitive_of :: "(string \<times> string list) list \<Rightarrow> string \<Rightarrow> string list" where
  "sensitive_of sensitive t = (case map_of sensitive t of None \<Rightarrow> [] | Some ps \<Rightarrow> ps)"

definition touches_sensitive_property :: "edit_plan \<Rightarrow> (string \<times> string list) list \<Rightarrow> bool" where
  "touches_sensitive_property plan sensitive \<longleftrightarrow>
     list_ex (\<lambda>c. set (dkeys (oc_properties c)) \<inter> set (sensitive_of sensitive (oc_object_type c)) \<noteq> {}) (objects_to_create plan)
     \<or> list_ex (\<lambda>m. set (dkeys (om_patch m)) \<inter> set (sensitive_of sensitive (om_object_type m)) \<noteq> {}) (objects_to_modify plan)
     \<or> objects_to_delete plan \<noteq> [] \<and> list_ex (\<lambda>(_, ps). ps \<noteq> []) sensitive"

definition edit_count :: "edit_plan \<Rightarrow> nat" where
  "edit_count plan = length (objects_to_create plan) + length (objects_to_modify plan) + length (objects_to_delete plan)
     + length (links_to_create plan) + length (links_to_delete plan)"

definition action_plan_risk :: "action_contract \<Rightarrow> edit_plan \<Rightarrow> (string \<times> string list) list \<Rightarrow> risk_assessment result" where
  "action_plan_risk c plan sensitive =
     rbind (structural_action_risk c) (\<lambda>structural.
     let s = (ra_effective_level structural, ra_reasons structural) in
     rbind (if edit_count plan > 1 then raise_for ''medium'' ''multi_edit'' s else Inr s) (\<lambda>s.
     rbind (if objects_to_delete plan \<noteq> [] then raise_for ''high'' ''object_delete'' s else Inr s) (\<lambda>s.
     rbind (if touches_sensitive_property plan sensitive then raise_for ''high'' ''sensitive_property_edit'' s else Inr s) (\<lambda>(minimum, reasons).
     Inr \<lparr>ra_declared_level = ac_risk_level c, ra_effective_level = minimum, ra_reasons = rev (remdups (rev reasons))\<rparr>))))"

definition is_approval_required_for_agent :: "risk_assessment \<Rightarrow> bool" where
  "is_approval_required_for_agent a \<longleftrightarrow> ra_effective_level a \<noteq> ''low''"

definition require_declared_risk_floor :: "risk_assessment \<Rightarrow> unit result" where
  "require_declared_risk_floor a =
     rbind (risk_rank (ra_declared_level a)) (\<lambda>declared. rbind (risk_rank (ra_effective_level a)) (\<lambda>effective.
     if declared \<ge> effective then Inr () else Inl (ValidationFailed ''action risk level is below the system-derived minimum'')))"

definition can_agent_execute_autonomously :: "action_contract \<Rightarrow> risk_assessment \<Rightarrow> bool" where
  "can_agent_execute_autonomously c a \<longleftrightarrow> ac_agent_execution_policy c = ''autonomous'' \<and> ra_effective_level a = ''low''"

section \<open>Ranks\<close>

definition known_level :: "string \<Rightarrow> bool" where
  "known_level l \<longleftrightarrow> l \<in> {''low'', ''medium'', ''high''}"

lemma risk_rank_total: "known_level l \<Longrightarrow> \<exists>n. risk_rank l = Inr n \<and> (n = 0 \<longleftrightarrow> l = ''low'') \<and> 0 \<le> n"
  by (auto simp: known_level_def risk_rank_def)

lemma risk_rank_known: "risk_rank l = Inr n \<Longrightarrow> known_level l"
  by (auto simp: known_level_def risk_rank_def split: if_splits)

lemma raise_risk_total:
  assumes "known_level a" "known_level b"
  shows "\<exists>l m n. raise_risk a b = Inr l \<and> known_level l \<and> risk_rank l = Inr m \<and> risk_rank a = Inr n \<and> n \<le> m"
proof -
  obtain m n where "risk_rank a = Inr n" "risk_rank b = Inr m" using risk_rank_total assms by blast
  then show ?thesis using assms by (cases "m \<le> n") (auto simp: raise_risk_def)
qed

lemma risk_rank_low: "risk_rank l = Inr n \<Longrightarrow> 0 \<le> n \<and> (n = 0 \<longleftrightarrow> l = ''low'')"
  using risk_rank_total [OF risk_rank_known] by fastforce

lemma raise_risk_low: "raise_risk a b = Inr ''low'' \<Longrightarrow> a = ''low'' \<and> b = ''low''"
proof -
  assume run: "raise_risk a b = Inr ''low''"
  then obtain m n where ranks: "risk_rank a = Inr n" "risk_rank b = Inr m" and low: "(if n \<ge> m then a else b) = ''low''"
    by (auto simp: raise_risk_def rbind_eq_Inr)
  note zero = risk_rank_low [OF ranks(1)] risk_rank_low [OF ranks(2)]
  show ?thesis
  proof (cases "n \<ge> m")
    case True
    with low have "a = ''low''" by simp
    with zero True have "m = 0" by linarith
    with zero \<open>a = ''low''\<close> show ?thesis by blast
  next
    case False
    with low have "b = ''low''" by simp
    with zero have "m = 0" by blast
    with zero False show ?thesis by linarith
  qed
qed

text \<open>The level that is kept while the reasons are collected.\<close>

lemma raise_for_total:
  "known_level (fst s) \<Longrightarrow> known_level l \<Longrightarrow> \<exists>t. raise_for l reason s = Inr t \<and> known_level (fst t)"
  using raise_risk_total by (cases s) (fastforce simp: raise_for_def)

lemma raise_for_low: "raise_for l reason s = Inr t \<Longrightarrow> fst t = ''low'' \<Longrightarrow> fst s = ''low'' \<and> l = ''low''"
  by (cases s) (auto simp: raise_for_def rbind_eq_Inr dest: raise_risk_low)

lemma raise_if_low:
  "(if c then raise_for l reason s else Inr s) = Inr t \<Longrightarrow> fst t = ''low'' \<Longrightarrow> l \<noteq> ''low'' \<Longrightarrow> fst s = ''low'' \<and> \<not> c"
  by (auto split: if_splits dest: raise_for_low)

definition harmless_kind :: "string \<Rightarrow> bool" where
  "harmless_kind kind \<longleftrightarrow> kind \<notin> {''deleteObject'', ''deleteObjects'', ''modifyObjects'', ''createObject'', ''createLink'', ''deleteLink'',
     ''createOrModifyObject'', ''functionEdit''}"

lemma rule_risk_low: "rule_risk rule s = Inr t \<Longrightarrow> fst t = ''low'' \<Longrightarrow> fst s = ''low'' \<and> harmless_kind (rule_kind rule)"
  unfolding rule_risk_def Let_def harmless_kind_def by (auto split: if_splits dest: raise_for_low)

lemma known_levels: "known_level ''low''" "known_level ''medium''" "known_level ''high''"
  by (simp_all add: known_level_def)

definition raised :: "(string \<times> string list) result \<Rightarrow> bool" where
  "raised r \<longleftrightarrow> (\<exists>t. r = Inr t \<and> known_level (fst t))"

lemma raised_if: "raised a \<Longrightarrow> raised b \<Longrightarrow> raised (if c then a else b)"
  by simp

lemma rule_risk_total: "known_level (fst s) \<Longrightarrow> raised (rule_risk rule s)"
  unfolding rule_risk_def Let_def
  by (intro raised_if) (simp_all add: raised_def raise_for_total known_levels del: split_paired_Ex)

lemma rules_risk_low:
  "fold_result rule_risk rules s = Inr t \<Longrightarrow> fst t = ''low'' \<Longrightarrow> fst s = ''low'' \<and> (\<forall>r \<in> set rules. harmless_kind (rule_kind r))"
  by (induction rules arbitrary: s) (auto simp: rbind_eq_Inr dest: rule_risk_low)

lemma rules_risk_total: "known_level (fst s) \<Longrightarrow> \<exists>t. fold_result rule_risk rules s = Inr t \<and> known_level (fst t)"
proof (induction rules arbitrary: s)
  case (Cons r rules)
  from rule_risk_total [OF Cons.prems] obtain t where "rule_risk r s = Inr t" "known_level (fst t)" unfolding raised_def by blast
  with Cons.IH show ?case by simp
qed simp

section \<open>What agents execute on their own\<close>

lemma structural_risk_total:
  assumes "known_level (ac_risk_level c)"
  obtains a n m where "structural_action_risk c = Inr a" "known_level (ra_effective_level a)" "ra_declared_level a = ac_risk_level c"
    "risk_rank (ac_risk_level c) = Inr n" "risk_rank (ra_effective_level a) = Inr m" "n \<le> m"
proof -
  have step: "\<exists>t. (if b then raise_for ''high'' reason s else Inr s) = Inr t \<and> known_level (fst t)" if "known_level (fst s)" for b reason s
    using raise_for_total [OF that known_levels(3)] that by (cases b) (simp_all del: split_paired_Ex)
  have "known_level (fst (''low'', [] :: string list))" by (simp add: known_level_def)
  from step [OF this] obtain s1 where s1: "(if ac_permissions c = [] then raise_for ''high'' ''permissions_missing'' (''low'', []) else Inr (''low'', [])) = Inr s1"
    "known_level (fst s1)" by blast
  from step [OF s1(2)] obtain s2 where s2: "(if ac_effects c \<noteq> [] then raise_for ''high'' ''external_effect'' s1 else Inr s1) = Inr s2"
    "known_level (fst s2)" by blast
  from step [OF s2(2)] obtain s3 where s3: "(if ac_function c \<noteq> None then raise_for ''high'' ''function_execution_fail_closed'' s2 else Inr s2) = Inr s3"
    "known_level (fst s3)" by blast
  from rules_risk_total [OF s3(2)] obtain minimum reasons where s4: "fold_result rule_risk (ac_rules c) s3 = Inr (minimum, reasons)" "known_level minimum"
    by (metis prod.collapse)
  from raise_risk_total [OF assms s4(2)] obtain l m n where l: "raise_risk (ac_risk_level c) minimum = Inr l" "known_level l"
    "risk_rank l = Inr m" "risk_rank (ac_risk_level c) = Inr n" "n \<le> m" by blast
  let ?a = "\<lparr>ra_declared_level = ac_risk_level c, ra_effective_level = l, ra_reasons = reasons\<rparr>"
  have "structural_action_risk c = Inr ?a"
    unfolding structural_action_risk_def s1(1) rbind_Inr s2(1) s3(1) s4(1) prod.case l(1) ..
  with l that [of ?a n m] show thesis by simp
qed

text \<open>An edit plan without risk: at most one edit, no deletion, nothing sensitive.\<close>

definition harmless_plan :: "edit_plan \<Rightarrow> (string \<times> string list) list \<Rightarrow> bool" where
  "harmless_plan plan sensitive \<longleftrightarrow> edit_count plan \<le> 1 \<and> objects_to_delete plan = [] \<and> \<not> touches_sensitive_property plan sensitive"

definition harmless_contract :: "action_contract \<Rightarrow> bool" where
  "harmless_contract c \<longleftrightarrow> ac_risk_level c = ''low'' \<and> ac_permissions c \<noteq> [] \<and> ac_effects c = [] \<and> ac_function c = None
     \<and> (\<forall>r \<in> set (ac_rules c). harmless_kind (rule_kind r))"

lemma structural_risk_low: "structural_action_risk c = Inr a \<Longrightarrow> ra_effective_level a = ''low'' \<Longrightarrow> harmless_contract c"
proof -
  assume run: "structural_action_risk c = Inr a" and low: "ra_effective_level a = ''low''"
  from run obtain s1 s2 s3 s4 l where steps:
    "(if ac_permissions c = [] then raise_for ''high'' ''permissions_missing'' (''low'', []) else Inr (''low'', [])) = Inr s1"
    "(if ac_effects c \<noteq> [] then raise_for ''high'' ''external_effect'' s1 else Inr s1) = Inr s2"
    "(if ac_function c \<noteq> None then raise_for ''high'' ''function_execution_fail_closed'' s2 else Inr s2) = Inr s3"
    "fold_result rule_risk (ac_rules c) s3 = Inr s4" "raise_risk (ac_risk_level c) (fst s4) = Inr l" "ra_effective_level a = l"
    unfolding structural_action_risk_def by (elim rbind_InrE) (fastforce simp: rbind_eq_Inr)
  with low raise_risk_low have risk: "ac_risk_level c = ''low''" "fst s4 = ''low''" by simp_all
  have "fst s3 = ''low''" "\<forall>r \<in> set (ac_rules c). harmless_kind (rule_kind r)" using rules_risk_low [OF steps(4) risk(2)] by simp_all
  moreover from raise_if_low [OF steps(3) this(1)] have "fst s2 = ''low''" "ac_function c = None" by simp_all
  moreover from raise_if_low [OF steps(2) this(1)] have "fst s1 = ''low''" "ac_effects c = []" by simp_all
  moreover from raise_if_low [OF steps(1) this(1)] have "ac_permissions c \<noteq> []" by simp
  ultimately show ?thesis using risk(1) by (simp add: harmless_contract_def)
qed

lemma plan_risk_low:
  "action_plan_risk c plan sensitive = Inr a \<Longrightarrow> ra_effective_level a = ''low'' \<Longrightarrow> harmless_contract c \<and> harmless_plan plan sensitive"
proof -
  assume run: "action_plan_risk c plan sensitive = Inr a" and low: "ra_effective_level a = ''low''"
  from run obtain structural s1 s2 s3 where steps: "structural_action_risk c = Inr structural"
    "(if edit_count plan > 1 then raise_for ''medium'' ''multi_edit'' (ra_effective_level structural, ra_reasons structural)
      else Inr (ra_effective_level structural, ra_reasons structural)) = Inr s1"
    "(if objects_to_delete plan \<noteq> [] then raise_for ''high'' ''object_delete'' s1 else Inr s1) = Inr s2"
    "(if touches_sensitive_property plan sensitive then raise_for ''high'' ''sensitive_property_edit'' s2 else Inr s2) = Inr s3"
    "ra_effective_level a = fst s3"
    unfolding action_plan_risk_def Let_def by (elim rbind_InrE) (fastforce simp: rbind_eq_Inr)
  from raise_if_low [OF steps(4)] low steps(5) have "fst s2 = ''low''" "\<not> touches_sensitive_property plan sensitive" by simp_all
  moreover from raise_if_low [OF steps(3) this(1)] have "fst s1 = ''low''" "objects_to_delete plan = []" by simp_all
  moreover from raise_if_low [OF steps(2) this(1)] have "ra_effective_level structural = ''low''" "edit_count plan \<le> 1" by simp_all
  ultimately show ?thesis using structural_risk_low [OF steps(1)] by (simp add: harmless_plan_def)
qed

text \<open>
  C26: An agent executes a planned request on its own only if the action is declared of low risk and
  autonomous, has permissions, no external effect, no function and no rule that creates, deletes, links or
  touches many objects, and the plan holds at most one edit, no deletion and nothing sensitive.
\<close>
theorem autonomous_execution_is_harmless:
  assumes "action_plan_risk c plan sensitive = Inr a" "can_agent_execute_autonomously c a"
  shows "ac_agent_execution_policy c = ''autonomous'' \<and> harmless_contract c \<and> harmless_plan plan sensitive"
  using assms(2) plan_risk_low [OF assms(1)] by (simp add: can_agent_execute_autonomously_def)

text \<open>Classification of compiled contracts is total, and never below the declared risk.\<close>

lemma structural_risk_floor:
  assumes "known_level (ac_risk_level c)"
  shows "\<exists>a m n. structural_action_risk c = Inr a \<and> risk_rank (ra_declared_level a) = Inr n \<and> risk_rank (ra_effective_level a) = Inr m \<and> n \<le> m"
  using structural_risk_total [OF assms] by metis

lemma risk_floor_exact:
  assumes "known_level (ra_declared_level a)" "known_level (ra_effective_level a)"
  shows "require_declared_risk_floor a = Inr () \<longleftrightarrow> raise_risk (ra_declared_level a) (ra_effective_level a) = Inr (ra_declared_level a)"
  using assms by (auto simp: require_declared_risk_floor_def raise_risk_def known_level_def risk_rank_def)

definition quiet_definition :: dict where
  "quiet_definition = [(''apiName'', PStr ''close''), (''contractVersion'', PInt 3), (''target'', PStr ''Ticket''),
     (''riskLevel'', PStr ''low''), (''agentExecutionPolicy'', PStr ''autonomous''),
     (''rules'', PList [PDict [(''kind'', PStr ''modifyObject''), (''objectType'', PStr ''Ticket'')]]),
     (''permissions'', PDict [(''allowedRoles'', PList [PStr ''editor''])])]"

definition quiet_plan :: edit_plan where
  "quiet_plan = \<lparr>objects_to_create = [], objects_to_modify = [\<lparr>om_operation_key = ''k'', om_rule_id = ''r'', om_object_type = ''Ticket'',
       om_object_id = ''t1'', om_expected_version = 1, om_patch = [(''state'', PStr ''closed'')], om_should_create_if_absent = False\<rparr>],
     objects_to_delete = [], links_to_create = [], links_to_delete = [], read_set_versions = [], criteria_read_expectations = []\<rparr>"

lemma quiet_run:
  "case compile_action_contract sample_engine quiet_definition of Inl _ \<Rightarrow> False
   | Inr c \<Rightarrow> (case action_plan_risk c quiet_plan [(''Ticket'', [''secret''])] of Inl _ \<Rightarrow> False | Inr a \<Rightarrow> can_agent_execute_autonomously c a)"
  by code_simp

theorem autonomous_execution_is_harmless_witness:
  "\<exists>c. compile_action_contract sample_engine quiet_definition = Inr c \<and> harmless_contract c \<and> harmless_plan quiet_plan [(''Ticket'', [''secret''])]"
proof -
  obtain c a where "compile_action_contract sample_engine quiet_definition = Inr c"
    "action_plan_risk c quiet_plan [(''Ticket'', [''secret''])] = Inr a" "can_agent_execute_autonomously c a"
    using quiet_run by (auto split: sum.splits)
  then show ?thesis using autonomous_execution_is_harmless by blast
qed

end
