(* ===== verification/Function_Types.thy ===== *)
theory Function_Types
  imports Prelude
begin

text \<open>
  \<^verbatim>\<open>domain/ontology/function_types.py\<close>: the canonical payload of a function type, read from a definition or
  from a stored snapshot. Shown: normalization is idempotent, so that replaying a snapshot never reads as a
  change.
\<close>

section \<open>Readers\<close>

definition fn_required_str :: "dict \<Rightarrow> string \<Rightarrow> string result" where
  "fn_required_str m key = (case nonempty_text (get_val m key) of Some s \<Rightarrow> Inr s
     | None \<Rightarrow> Inl (ValidationFailed (''function '' @ key @ '' must be a non-empty string'')))"

definition fn_optional_str :: "dict \<Rightarrow> string \<Rightarrow> string \<Rightarrow> string result" where
  "fn_optional_str m key default_text = (case nonempty_text (get_or (PStr default_text) m key) of Some s \<Rightarrow> Inr s
     | None \<Rightarrow> Inl (ValidationFailed (''function '' @ key @ '' must be a non-empty string'')))"

definition fn_optional_int :: "dict \<Rightarrow> string \<Rightarrow> int \<Rightarrow> int result" where
  "fn_optional_int m key default_int = (case plain_int (get_or (PInt default_int) m key) of Some n \<Rightarrow> Inr n
     | None \<Rightarrow> Inl (ValidationFailed (''function '' @ key @ '' must be an integer'')))"

definition fn_required_flag :: "dict \<Rightarrow> bool result" where
  "fn_required_flag m = (case get_or (PBool False) m ''required'' of PBool b \<Rightarrow> Inr b
     | _ \<Rightarrow> Inl (ValidationFailed ''function input required must be a boolean''))"

definition fn_required_mapping :: "dict \<Rightarrow> string \<Rightarrow> dict result" where
  "fn_required_mapping m key = (case get_val m key of PDict d \<Rightarrow> Inr d
     | _ \<Rightarrow> Inl (ValidationFailed (''function '' @ key @ '' must be a mapping'')))"

definition fn_optional_mapping :: "dict \<Rightarrow> string \<Rightarrow> dict result" where
  "fn_optional_mapping m key = (if get_val m key = PNone then Inr [] else fn_required_mapping m key)"

definition fn_mapping_sequence :: "dict \<Rightarrow> string \<Rightarrow> dict list result" where
  "fn_mapping_sequence m key = (case get_or (PList []) m key of
       PNone \<Rightarrow> Inr []
     | PList items \<Rightarrow> map_result (\<lambda>item. case item of PDict d \<Rightarrow> Inr d
         | _ \<Rightarrow> Inl (ValidationFailed (''function '' @ key @ '' entries must be mappings''))) items
     | _ \<Rightarrow> Inl (ValidationFailed (''function '' @ key @ '' must be a list'')))"

definition fn_string_sequence :: "pyval \<Rightarrow> string \<Rightarrow> string list result" where
  "fn_string_sequence v f = (case v of
       PNone \<Rightarrow> Inr []
     | PList items \<Rightarrow> map_result (\<lambda>item. case item of PStr s \<Rightarrow> Inr s
         | _ \<Rightarrow> Inl (ValidationFailed (''function '' @ f @ '' entries must be strings''))) items
     | _ \<Rightarrow> Inl (ValidationFailed (''function '' @ f @ '' must be a list of strings'')))"

definition function_data_types :: "string list" where
  "function_data_types = [''array'', ''attachment'', ''boolean'', ''date'', ''decimal'', ''float'', ''integer'', ''interface'', ''long'',
     ''media'', ''media_reference'', ''object'', ''objectSet'', ''ontology_edit_batch'', ''string'', ''struct'', ''timestamp'']"

definition require_function_data_type :: "dict \<Rightarrow> unit result" where
  "require_function_data_type m = rbind (fn_required_str m ''type'') (\<lambda>declared.
     raise_if (declared \<notin> set function_data_types) (ValidationFailed ''unsupported function data type''))"

section \<open>Inputs and output\<close>

text \<open>Optional members are read in the order of the source, each only when its key is present.\<close>

definition if_present :: "dict \<Rightarrow> string \<Rightarrow> pyval result \<Rightarrow> dict result" where
  "if_present m key r = (if has_key m key then rbind r (\<lambda>v. Inr [(key, v)]) else Inr [])"

definition input_text_keys :: "string list" where
  "input_text_keys = [''description'', ''objectType'', ''interfaceType'', ''itemType'', ''mediaSet'', ''render'']"

definition read_text :: "string \<Rightarrow> dict \<Rightarrow> pyval result" where
  "read_text key m = rbind (fn_required_str m key) (\<lambda>s. Inr (PStr s))"

definition read_mapping :: "string \<Rightarrow> dict \<Rightarrow> pyval result" where
  "read_mapping key m = rbind (fn_required_mapping m key) (\<lambda>d. Inr (PDict d))"

definition read_strings :: "string \<Rightarrow> dict \<Rightarrow> pyval result" where
  "read_strings key m = rbind (fn_string_sequence (get_val m key) key) (\<lambda>ss. Inr (PList (map PStr ss)))"

definition read_int :: "string \<Rightarrow> dict \<Rightarrow> pyval result" where
  "read_int key m = rbind (fn_optional_int m key 0) (\<lambda>n. Inr (PInt n))"

definition input_readers :: "(string \<times> (dict \<Rightarrow> pyval result)) list" where
  "input_readers = map (\<lambda>key. (key, read_text key)) input_text_keys
     @ map (\<lambda>key. (key, read_mapping key)) [''default'', ''constraints'']
     @ [(''allowedMimeTypes'', read_strings ''allowedMimeTypes''), (''maxBytes'', read_int ''maxBytes'')]"

definition input_members :: "dict \<Rightarrow> dict result" where
  "input_members m = rbind (map_result (\<lambda>(key, read). if_present m key (read m)) input_readers) (\<lambda>ms. Inr (concat ms))"

lemma fn_mapping_sequence_Inr:
  "fn_mapping_sequence m key = Inr ds \<Longrightarrow> ds = [] \<or> get_val m key = PList (map PDict ds)"
proof -
  have "map_result (\<lambda>item. case item of PDict d \<Rightarrow> Inr d | _ \<Rightarrow> Inl (ValidationFailed e)) items = Inr ds \<Longrightarrow> items = map PDict ds" for e items
    by (induction items arbitrary: ds) (auto simp: rbind_eq_Inr split: pyval.splits)
  then show "fn_mapping_sequence m key = Inr ds \<Longrightarrow> ds = [] \<or> get_val m key = PList (map PDict ds)"
    by (auto simp: fn_mapping_sequence_def get_or_def split: pyval.splits option.splits)
qed

lemma dict_value_size: "get_val m key = v \<Longrightarrow> v \<noteq> PNone \<Longrightarrow> size v < size (PDict m)"
  by (induction m) (auto simp: get_or_def split: if_splits)

lemma fn_mapping_sequence_size:
  assumes "fn_mapping_sequence m key = Inr ds" "d \<in> set ds"
  shows "size (PDict d) < size (PDict m)"
proof -
  from assms have items: "get_val m key = PList (map PDict ds)" using fn_mapping_sequence_Inr by fastforce
  have "PDict d \<in> set (map PDict ds)" using assms(2) by simp
  then have "size (PDict d) \<le> size_list size (map PDict ds)" by (rule size_list_estimation') simp
  with dict_value_size [OF items] show ?thesis by simp
qed

function normalized_input :: "dict \<Rightarrow> dict result" where
  "normalized_input m =
     rbind (require_function_data_type m) (\<lambda>_.
     rbind (fn_required_str m ''apiName'') (\<lambda>api_name.
     rbind (fn_required_str m ''type'') (\<lambda>data_type.
     rbind (fn_required_flag m) (\<lambda>is_required.
     rbind (input_members m) (\<lambda>members.
     rbind (if has_key m ''fields'' then
         rbind (fn_mapping_sequence m ''fields'') (\<lambda>fs.
         rbind (map_result (\<lambda>f. rbind (fn_required_str f ''apiName'') (\<lambda>_. normalized_input f)) fs) (\<lambda>ns.
         Inr [(''fields'', PList (map PDict ns))]))
       else Inr []) (\<lambda>nested.
     Inr ([(''apiName'', PStr api_name), (''type'', PStr data_type), (''required'', PBool is_required)] @ members @ nested)))))))"
  by pat_completeness auto
termination
  by (relation "measure (\<lambda>m. size (PDict m))") (auto simp del: pyval.size dest: fn_mapping_sequence_size)

declare normalized_input.simps [simp del]

fun normalized_inputs_from :: "string list \<Rightarrow> dict list \<Rightarrow> dict list result" where
  "normalized_inputs_from seen [] = Inr []"
| "normalized_inputs_from seen (m # ms) =
     rbind (fn_required_str m ''apiName'') (\<lambda>api_name.
     rbind (raise_if (api_name \<in> set seen) (ValidationFailed ''duplicate function input apiName'')) (\<lambda>_.
     rbind (normalized_input m) (\<lambda>n.
     rbind (normalized_inputs_from (api_name # seen) ms) (\<lambda>ns. Inr (n # ns)))))"

definition normalized_inputs :: "dict \<Rightarrow> dict list result" where
  "normalized_inputs item = rbind (fn_mapping_sequence item ''inputs'') (normalized_inputs_from [])"

definition normalized_output :: "dict \<Rightarrow> dict result" where
  "normalized_output item =
     rbind (fn_required_mapping item ''output'') (\<lambda>output.
     rbind (require_function_data_type output) (\<lambda>_.
     rbind (fn_required_str output ''type'') (\<lambda>t. Inr [(''type'', PStr t)])))"

section \<open>Definitions by runtime\<close>

definition code_function_runtimes :: "string list" where
  "code_function_runtimes = [''python'', ''typescript'']"

definition supported_function_runtimes :: "string list" where
  "supported_function_runtimes = [''logic_dag'', ''python'', ''typescript'']"

definition function_runtime :: "dict \<Rightarrow> string result" where
  "function_runtime item = rbind (fn_required_str item ''runtime'') (\<lambda>runtime.
     if runtime \<in> set supported_function_runtimes then Inr runtime
     else Inl (ValidationFailed ''unsupported function runtime''))"

definition function_timeout_seconds :: "dict \<Rightarrow> int result" where
  "function_timeout_seconds item = rbind (fn_optional_int item ''timeoutSeconds'' 60) (\<lambda>timeout.
     if timeout < 1 \<or> timeout > 280 then Inl (ValidationFailed ''function timeout is outside the permitted range'')
     else Inr timeout)"

definition normalized_source :: "dict \<Rightarrow> dict result" where
  "normalized_source item =
     rbind (fn_required_mapping item ''definition'') (\<lambda>definition'.
     rbind (fn_required_str definition' ''source'') (\<lambda>source.
     rbind (raise_if (py_strip source = []) (ValidationFailed ''function source must not be blank'')) (\<lambda>_.
     rbind (raise_if (has_key definition' ''blocks'') (ValidationFailed ''a code function cannot declare Logic DAG blocks'')) (\<lambda>_.
     rbind (fn_optional_str definition' ''entrypoint'' ''compute'') (\<lambda>entrypoint.
     Inr [(''source'', PStr source), (''entrypoint'', PStr entrypoint)])))))"

definition normalized_block :: "dict \<Rightarrow> dict result" where
  "normalized_block block =
     rbind (fn_required_str block ''blockId'') (\<lambda>block_id.
     rbind (fn_required_str block ''kind'') (\<lambda>kind.
     rbind (fn_optional_mapping block ''inputs'') (\<lambda>inputs.
     rbind (fn_string_sequence (get_val block ''dependsOn'') ''dependsOn'') (\<lambda>depends_on.
     Inr [(''blockId'', PStr block_id), (''kind'', PStr kind), (''inputs'', PDict inputs), (''dependsOn'', PList (map PStr depends_on))]))))"

definition normalized_tool :: "dict \<Rightarrow> dict result" where
  "normalized_tool tool =
     rbind (fn_required_str tool ''toolId'') (\<lambda>tool_id.
     rbind (fn_required_str tool ''version'') (\<lambda>version.
     rbind (fn_optional_mapping tool ''inputSchema'') (\<lambda>input_schema.
     rbind (fn_optional_mapping tool ''outputSchema'') (\<lambda>output_schema.
     rbind (fn_optional_str tool ''effect'' ''READ'') (\<lambda>effect.
     rbind (fn_optional_str tool ''requiredPermission'' ''object:read'') (\<lambda>permission.
     rbind (fn_optional_str tool ''confirmationPolicy'' ''NONE'') (\<lambda>confirmation.
     rbind (fn_string_sequence (get_val tool ''objectTypeAllowlist'') ''objectTypeAllowlist'') (\<lambda>object_types.
     rbind (fn_string_sequence (get_val tool ''propertyAllowlist'') ''propertyAllowlist'') (\<lambda>properties.
     rbind (fn_optional_int tool ''timeoutSeconds'' 30) (\<lambda>timeout.
     rbind (fn_optional_int tool ''maxResultItems'' 50) (\<lambda>max_items.
     rbind (fn_optional_str tool ''resultClassification'' ''public'') (\<lambda>classification.
     rbind (fn_optional_str tool ''status'' ''published'') (\<lambda>status.
     Inr [(''toolId'', PStr tool_id), (''version'', PStr version), (''inputSchema'', PDict input_schema), (''outputSchema'', PDict output_schema),
       (''effect'', PStr effect), (''requiredPermission'', PStr permission), (''confirmationPolicy'', PStr confirmation),
       (''objectTypeAllowlist'', PList (map PStr object_types)), (''propertyAllowlist'', PList (map PStr properties)),
       (''timeoutSeconds'', PInt timeout), (''maxResultItems'', PInt max_items), (''resultClassification'', PStr classification),
       (''status'', PStr status)])))))))))))))"

definition normalized_logic :: "dict \<Rightarrow> dict result" where
  "normalized_logic item =
     rbind (fn_required_mapping item ''definition'') (\<lambda>logic.
     rbind (fn_mapping_sequence logic ''blocks'') (\<lambda>raw_blocks.
     rbind (map_result normalized_block raw_blocks) (\<lambda>blocks.
     rbind (raise_if (blocks = []) (ValidationFailed ''function definition must declare blocks'')) (\<lambda>_.
     rbind (fn_mapping_sequence logic ''tools'') (\<lambda>raw_tools.
     rbind (map_result normalized_tool raw_tools) (\<lambda>tools.
     Inr [(''blocks'', PList (map PDict blocks)), (''tools'', PList (map PDict tools))]))))))"

definition normalized_runtime_definition :: "dict \<Rightarrow> string \<Rightarrow> dict result" where
  "normalized_runtime_definition item runtime =
     (if runtime \<in> set code_function_runtimes then normalized_source item else normalized_logic item)"

definition normalized_permissions :: "dict \<Rightarrow> dict option result" where
  "normalized_permissions item =
     (if get_val item ''permissions'' = PNone then Inr None
      else rbind (fn_optional_mapping item ''permissions'') (\<lambda>permissions.
        if get_val permissions ''allowedRoles'' \<noteq> PNone then
          rbind (fn_string_sequence (get_val permissions ''allowedRoles'') ''permissions.allowedRoles'') (\<lambda>roles.
          Inr (Some (dput ''allowedRoles'' (PList (map PStr roles)) permissions)))
        else Inr (Some permissions)))"

definition normalized_function_definition :: "dict \<Rightarrow> dict result" where
  "normalized_function_definition item =
     rbind (fn_required_str item ''apiName'') (\<lambda>api_name.
     rbind (function_runtime item) (\<lambda>runtime.
     rbind (fn_optional_str item ''displayName'' api_name) (\<lambda>display_name.
     rbind (fn_optional_str item ''version'' ''v1'') (\<lambda>version.
     rbind (normalized_inputs item) (\<lambda>inputs.
     rbind (normalized_output item) (\<lambda>output.
     rbind (normalized_runtime_definition item runtime) (\<lambda>body.
     rbind (function_timeout_seconds item) (\<lambda>timeout.
     rbind (normalized_permissions item) (\<lambda>permissions.
     Inr ([(''apiName'', PStr api_name), (''displayName'', PStr display_name), (''version'', PStr version), (''runtime'', PStr runtime),
         (''inputs'', PList (map PDict inputs)), (''output'', PDict output), (''definition'', PDict body), (''timeoutSeconds'', PInt timeout)]
       @ (case permissions of None \<Rightarrow> [] | Some p \<Rightarrow> [(''permissions'', PDict p)])))))))))))"

section \<open>Reading a normalized payload again\<close>

lemma fn_required_str_Inr: "fn_required_str m key = Inr s \<longleftrightarrow> map_of m key = Some (PStr s) \<and> s \<noteq> []"
  by (cases "nonempty_text (get_val m key)") (auto simp: fn_required_str_def get_or_def split: option.splits if_splits)

lemma fn_optional_str_Inr: "fn_optional_str m key d = Inr s \<Longrightarrow> s \<noteq> []"
  by (auto simp: fn_optional_str_def split: option.splits)

lemma fn_optional_str_again: "map_of m key = Some (PStr s) \<Longrightarrow> s \<noteq> [] \<Longrightarrow> fn_optional_str m key d = Inr s"
  by (simp add: fn_optional_str_def)

lemma fn_optional_int_again: "map_of m key = Some (PInt n) \<Longrightarrow> fn_optional_int m key d = Inr n"
  by (simp add: fn_optional_int_def)

lemma fn_required_mapping_again: "map_of m key = Some (PDict d) \<Longrightarrow> fn_required_mapping m key = Inr d"
  by (simp add: fn_required_mapping_def)

lemma fn_optional_mapping_again: "map_of m key = Some (PDict d) \<Longrightarrow> fn_optional_mapping m key = Inr d"
  by (simp add: fn_optional_mapping_def fn_required_mapping_def)

lemma fn_string_sequence_again: "fn_string_sequence (PList (map PStr ss)) f = Inr ss"
  by (induction ss) (simp_all add: fn_string_sequence_def)

lemma fn_mapping_sequence_again: "map_of m key = Some (PList (map PDict ds)) \<Longrightarrow> fn_mapping_sequence m key = Inr ds"
proof -
  have "map_result (\<lambda>item. case item of PDict d \<Rightarrow> Inr d | _ \<Rightarrow> Inl (ValidationFailed e)) (map PDict ds) = Inr ds" for e
    by (induction ds) simp_all
  then show "map_of m key = Some (PList (map PDict ds)) \<Longrightarrow> fn_mapping_sequence m key = Inr ds" by (simp add: fn_mapping_sequence_def)
qed

lemma map_result_again: "\<forall>y \<in> set ys. f y = Inr y \<Longrightarrow> map_result f ys = Inr ys"
  by (induction ys) simp_all

text \<open>A reader that finds what it returned.\<close>

definition stable_reader :: "string \<Rightarrow> (dict \<Rightarrow> pyval result) \<Rightarrow> bool" where
  "stable_reader key read \<longleftrightarrow> (\<forall>m n v. read m = Inr v \<longrightarrow> map_of n key = Some v \<longrightarrow> read n = Inr v)"

lemma stable_readers: "(key, read) \<in> set input_readers \<Longrightarrow> stable_reader key read"
proof -
  have "stable_reader k (read_text k)" for k
    by (auto simp: stable_reader_def read_text_def rbind_eq_Inr fn_required_str_Inr)
  moreover have "stable_reader k (read_mapping k)" for k
    by (auto simp: stable_reader_def read_mapping_def rbind_eq_Inr fn_required_mapping_again)
  moreover have "stable_reader k (read_strings k)" for k
    by (auto simp: stable_reader_def read_strings_def rbind_eq_Inr fn_string_sequence_again)
  moreover have "stable_reader k (read_int k)" for k
    by (auto simp: stable_reader_def read_int_def rbind_eq_Inr fn_optional_int_again)
  ultimately show "(key, read) \<in> set input_readers \<Longrightarrow> stable_reader key read" by (auto simp: input_readers_def)
qed

lemma input_reader_keys:
  "distinct (map fst input_readers)"
  "set (map fst input_readers) \<inter> {''apiName'', ''type'', ''required'', ''fields''} = {}"
  by (simp_all add: input_readers_def input_text_keys_def)

lemma if_present_keys: "if_present m key r = Inr x \<Longrightarrow> set (dkeys x) \<subseteq> {key}"
  by (auto simp: if_present_def rbind_eq_Inr dkeys_def split: if_splits)

lemma members_keys:
  "map_result (\<lambda>(key, read). if_present m key (read m)) rs = Inr ms \<Longrightarrow> set (dkeys (concat ms)) \<subseteq> set (map fst rs)"
proof (induction rs arbitrary: ms)
  case (Cons r rs)
  then obtain x xs where x: "if_present m (fst r) (snd r m) = Inr x" "ms = x # xs"
    and xs: "map_result (\<lambda>(key, read). if_present m key (read m)) rs = Inr xs" by (cases r) (auto simp: rbind_eq_Inr)
  have "dkeys (concat ms) = dkeys x @ dkeys (concat xs)" by (simp add: x(2) dkeys_def)
  with if_present_keys [OF x(1)] Cons.IH [OF xs] show ?case by simp blast
qed simp

definition found_member :: "string \<Rightarrow> pyval option \<Rightarrow> dict" where
  "found_member key found = (case found of None \<Rightarrow> [] | Some v \<Rightarrow> [(key, v)])"

lemma if_present_found: "if_present m key r = Inr x \<Longrightarrow> x = found_member key (map_of x key)"
  by (auto simp: if_present_def rbind_eq_Inr found_member_def split: if_splits)

lemma members_lookup:
  "map_result (\<lambda>(key, read). if_present m key (read m)) rs = Inr ms \<Longrightarrow> distinct (map fst rs) \<Longrightarrow> (key, read) \<in> set rs \<Longrightarrow>
   if_present m key (read m) = Inr (found_member key (map_of (concat ms) key))"
proof (induction rs arbitrary: ms)
  case (Cons r rs)
  then obtain x xs where x: "if_present m (fst r) (snd r m) = Inr x" and ms: "ms = x # xs"
    and xs: "map_result (\<lambda>(key, read). if_present m key (read m)) rs = Inr xs" by (cases r) (auto simp: rbind_eq_Inr)
  have fresh: "map_of (concat xs) (fst r) = None"
  proof -
    have "fst r \<notin> set (map fst rs)" using Cons.prems(2) by simp
    with members_keys [OF xs] show ?thesis by (auto simp: dkeys_def map_of_eq_None_iff)
  qed
  show ?case
  proof (cases "(key, read) = r")
    case True
    then have r: "fst r = key" "snd r = read" by auto
    have "map_of (concat ms) key = map_of x key"
      using fresh by (simp add: ms r map_add_def split: option.split)
    with if_present_found [OF x] x show ?thesis by (simp add: r)
  next
    case False
    with Cons.prems(3) have later: "(key, read) \<in> set rs" by simp
    then have "key \<in> set (map fst rs)" by (metis fst_conv image_eqI set_map)
    with Cons.prems(2) have "key \<noteq> fst r" unfolding list.map distinct.simps by metis
    then have "map_of x key = None" using if_present_keys [OF x] by (auto simp: dkeys_def map_of_eq_None_iff)
    with Cons.IH [OF xs _ later] Cons.prems(2) show ?thesis by (simp add: ms map_add_def split: option.split)
  qed
qed simp

lemma if_present_again:
  assumes "if_present m key (read m) = Inr (found_member key (map_of n key))" "stable_reader key read"
  shows "if_present n key (read n) = if_present m key (read m)"
proof (cases "map_of n key")
  case None
  then have "\<not> has_key n key" by (simp add: has_key_map_of)
  then have "if_present n key (read n) = Inr []" by (simp add: if_present_def)
  with assms(1) None show ?thesis by (simp add: found_member_def)
next
  case (Some v)
  then have present: "has_key n key" by (simp add: has_key_map_of)
  from assms(1) Some have "read m = Inr v"
    by (auto simp: if_present_def found_member_def rbind_eq_Inr split: if_splits)
  with assms(2) Some have "read n = Inr v" unfolding stable_reader_def by blast
  with present assms(1) Some show ?thesis by (simp add: if_present_def found_member_def)
qed

lemma input_members_again:
  assumes "input_members m = Inr members" and lookup: "\<And>key. key \<in> set (map fst input_readers) \<Longrightarrow> map_of n key = map_of members key"
  shows "input_members n = Inr members"
proof -
  from assms(1) obtain ms where ms: "map_result (\<lambda>(key, read). if_present m key (read m)) input_readers = Inr ms" "members = concat ms"
    by (auto simp: input_members_def rbind_eq_Inr)
  have again: "if_present n key (read n) = if_present m key (read m)" if r: "(key, read) \<in> set input_readers" for key read
  proof -
    from r have "key \<in> set (map fst input_readers)" by (metis fst_conv image_eqI set_map)
    then have "map_of n key = map_of (concat ms) key" using lookup ms(2) by simp
    with members_lookup [OF ms(1) input_reader_keys(1) r] if_present_again [OF _ stable_readers [OF r]]
    show ?thesis by simp
  qed
  have "map_result (\<lambda>(key, read). if_present n key (read n)) input_readers = map_result (\<lambda>(key, read). if_present m key (read m)) input_readers"
    by (rule map_result_cong) (use again in \<open>auto simp del: split_paired_All\<close>)
  with ms show ?thesis by (simp add: input_members_def)
qed

lemma input_members_keys: "input_members m = Inr members \<Longrightarrow> set (dkeys members) \<subseteq> set (map fst input_readers)"
  unfolding input_members_def rbind_eq_Inr using members_keys by blast

lemma require_type_again:
  "require_function_data_type m = Inr () \<Longrightarrow> fn_required_str m ''type'' = Inr t \<Longrightarrow> map_of n ''type'' = Some (PStr t) \<Longrightarrow>
   require_function_data_type n = Inr ()"
  by (auto simp: require_function_data_type_def rbind_eq_Inr fn_required_str_Inr)

lemma normalized_input_again: "normalized_input m = Inr n \<Longrightarrow> normalized_input n = Inr n \<and> (\<exists>a. fn_required_str n ''apiName'' = Inr a \<and> fn_required_str m ''apiName'' = Inr a)"
proof (induction m arbitrary: n rule: measure_induct_rule [where f = "\<lambda>m. size (PDict m)"])
  case (less m)
  from less.prems obtain a t b members nested where parts:
    "require_function_data_type m = Inr ()" "fn_required_str m ''apiName'' = Inr a" "fn_required_str m ''type'' = Inr t" "fn_required_flag m = Inr b"
    "input_members m = Inr members"
    "(if has_key m ''fields'' then
         rbind (fn_mapping_sequence m ''fields'') (\<lambda>fs.
         rbind (map_result (\<lambda>f. rbind (fn_required_str f ''apiName'') (\<lambda>_. normalized_input f)) fs) (\<lambda>ns.
         Inr [(''fields'', PList (map PDict ns))]))
       else Inr []) = Inr nested"
    and n: "n = [(''apiName'', PStr a), (''type'', PStr t), (''required'', PBool b)] @ members @ nested"
    unfolding normalized_input.simps [of m] by (elim rbind_InrE) (auto simp: rbind_eq_Inr)
  have nested_keys: "set (dkeys nested) \<subseteq> {''fields''}" using parts(6) by (auto simp: rbind_eq_Inr split: if_splits)
  note keys = input_members_keys [OF parts(5)] input_reader_keys(2) nested_keys
  have members: "map_of n key = map_of members key" if "key \<in> set (map fst input_readers)" for key
  proof -
    have "key \<notin> set (dkeys nested)" "key \<notin> {''apiName'', ''type'', ''required''}" using that keys by blast+
    then show ?thesis by (auto simp: n map_add_def dkeys_def map_of_eq_None_iff [symmetric] split: option.split)
  qed
  have absent: "map_of members k = None" if "k \<in> {''apiName'', ''type'', ''required'', ''fields''}" for k
  proof -
    have "k \<notin> set (dkeys members)" using that keys(1,2) by blast
    then show ?thesis by (simp add: dkeys_def map_of_eq_None_iff)
  qed
  have fs: "map_of n ''fields'' = map_of nested ''fields''"
    using absent [of "''fields''"] by (simp add: n map_add_def split: option.split)
  have "(if has_key n ''fields'' then
         rbind (fn_mapping_sequence n ''fields'') (\<lambda>fs.
         rbind (map_result (\<lambda>f. rbind (fn_required_str f ''apiName'') (\<lambda>_. normalized_input f)) fs) (\<lambda>ns.
         Inr [(''fields'', PList (map PDict ns))]))
       else Inr []) = Inr nested"
  proof (cases "has_key m ''fields''")
    case True
    with parts(6) obtain ds ns where ds: "fn_mapping_sequence m ''fields'' = Inr ds" "nested = [(''fields'', PList (map PDict ns))]"
      and ns: "map_result (\<lambda>f. rbind (fn_required_str f ''apiName'') (\<lambda>_. normalized_input f)) ds = Inr ns"
      by (auto simp: rbind_eq_Inr)
    have "rbind (fn_required_str f' ''apiName'') (\<lambda>_. normalized_input f') = Inr f'" if f': "f' \<in> set ns" for f'
    proof -
      from map_result_item [OF ns f'] obtain f where "f \<in> set ds" "normalized_input f = Inr f'" by (auto simp: rbind_eq_Inr)
      with less.IH [OF fn_mapping_sequence_size [OF ds(1)]] show ?thesis by fastforce
    qed
    then have "map_result (\<lambda>f. rbind (fn_required_str f ''apiName'') (\<lambda>_. normalized_input f)) ns = Inr ns" by (intro map_result_again) blast
    moreover have "fn_mapping_sequence n ''fields'' = Inr ns" using fs ds(2) by (intro fn_mapping_sequence_again) simp
    moreover have "has_key n ''fields''" using fs ds(2) by (simp add: has_key_map_of)
    ultimately show ?thesis using ds(2) by simp
  next
    case False
    with parts(6) have "nested = []" by simp
    with fs show ?thesis by (simp add: has_key_map_of)
  qed
  moreover have "fn_required_str n ''apiName'' = Inr a" "fn_required_str n ''type'' = Inr t" "fn_required_flag n = Inr b"
    using parts(2,3) by (simp_all add: fn_required_str_Inr n fn_required_flag_def)
  moreover have "require_function_data_type n = Inr ()"
    by (rule require_type_again [OF parts(1,3)]) (simp add: n)
  moreover have "input_members n = Inr members" by (rule input_members_again [OF parts(5) members])
  ultimately show ?case using parts(2) unfolding normalized_input.simps [of n] by (simp add: n)
qed

lemma normalized_inputs_again:
  "normalized_inputs_from seen ms = Inr ns \<Longrightarrow> normalized_inputs_from seen ns = Inr ns"
proof (induction seen ms arbitrary: ns rule: normalized_inputs_from.induct)
  case (2 seen m ms)
  then obtain a n ns' where parts: "fn_required_str m ''apiName'' = Inr a" "a \<notin> set seen" "normalized_input m = Inr n"
    "normalized_inputs_from (a # seen) ms = Inr ns'" "ns = n # ns'" by (auto simp: rbind_eq_Inr)
  from 2(1) [OF parts(1) _ parts(3,4)] parts(2) have "normalized_inputs_from (a # seen) ns' = Inr ns'" by simp
  with normalized_input_again [OF parts(3)] parts show ?case by simp
qed simp

lemma normalized_block_again: "normalized_block m = Inr n \<Longrightarrow> normalized_block n = Inr n"
  unfolding normalized_block_def rbind_eq_Inr
  by (elim exE conjE, drule Inr_inject, hypsubst)
    (simp add: fn_required_str_Inr fn_optional_mapping_again fn_string_sequence_again)

lemma normalized_tool_again: "normalized_tool m = Inr n \<Longrightarrow> normalized_tool n = Inr n"
  unfolding normalized_tool_def rbind_eq_Inr
  by (elim exE conjE, drule Inr_inject, hypsubst)
    (simp add: fn_required_str_Inr fn_optional_mapping_again fn_string_sequence_again fn_optional_str_again fn_optional_int_again fn_optional_str_Inr)

lemma normalized_source_again:
  "normalized_source item = Inr d \<Longrightarrow> map_of item' ''definition'' = Some (PDict d) \<Longrightarrow> normalized_source item' = Inr d"
  unfolding normalized_source_def rbind_eq_Inr
  by (elim exE conjE, drule Inr_inject, hypsubst)
    (auto simp: fn_required_mapping_again fn_required_str_Inr fn_optional_str_again fn_optional_str_Inr has_key_map_of)

lemma normalized_logic_again:
  "normalized_logic item = Inr d \<Longrightarrow> map_of item' ''definition'' = Some (PDict d) \<Longrightarrow> normalized_logic item' = Inr d"
proof -
  assume "normalized_logic item = Inr d" and body: "map_of item' ''definition'' = Some (PDict d)"
  then obtain logic rb bs rt ts where parts: "map_result normalized_block rb = Inr bs" "bs \<noteq> []" "map_result normalized_tool rt = Inr ts"
    and d: "d = [(''blocks'', PList (map PDict bs)), (''tools'', PList (map PDict ts))]"
    by (auto simp: normalized_logic_def rbind_eq_Inr)
  have "map_result normalized_block bs = Inr bs" "map_result normalized_tool ts = Inr ts"
    using map_result_item [OF parts(1)] map_result_item [OF parts(3)] normalized_block_again normalized_tool_again by (intro map_result_again; blast)+
  moreover have "fn_mapping_sequence d ''blocks'' = Inr bs" "fn_mapping_sequence d ''tools'' = Inr ts"
    by (rule fn_mapping_sequence_again; simp add: d)+
  ultimately show ?thesis using body parts(2) by (simp add: normalized_logic_def fn_required_mapping_again) (simp add: d)
qed

lemma normalized_permissions_again:
  "normalized_permissions item = Inr r \<Longrightarrow> get_val item' ''permissions'' = (case r of None \<Rightarrow> PNone | Some p \<Rightarrow> PDict p) \<Longrightarrow>
   normalized_permissions item' = Inr r"
proof -
  assume run: "normalized_permissions item = Inr r" and stored: "get_val item' ''permissions'' = (case r of None \<Rightarrow> PNone | Some p \<Rightarrow> PDict p)"
  show ?thesis
  proof (cases r)
    case None
    with stored show ?thesis by (simp add: normalized_permissions_def)
  next
    case (Some p)
    with stored have again: "fn_optional_mapping item' ''permissions'' = Inr p"
      by (simp add: fn_optional_mapping_def fn_required_mapping_def)
    show ?thesis
    proof (cases "get_val p ''allowedRoles'' = PNone")
      case True
      with again stored Some show ?thesis by (simp add: normalized_permissions_def)
    next
      case False
      with run Some obtain p0 roles where "p = dput ''allowedRoles'' (PList (map PStr roles)) p0"
        by (auto simp: normalized_permissions_def rbind_eq_Inr split: if_splits)
      then have roles: "map_of p ''allowedRoles'' = Some (PList (map PStr roles))" by simp
      with again stored Some show ?thesis
        by (simp add: normalized_permissions_def fn_string_sequence_again dput_same)
    qed
  qed
qed

text \<open>
  C27: Normalizing a normalized function definition changes nothing: the stored definition of a function,
  read through the same parser again, is the stored definition.
\<close>
theorem normalized_function_definition_idempotent:
  assumes "normalized_function_definition item = Inr n"
  shows "normalized_function_definition n = Inr n"
proof -
  from assms obtain a runtime dn v raw ins out body timeout perms where parts:
    "fn_required_str item ''apiName'' = Inr a" "function_runtime item = Inr runtime" "fn_optional_str item ''displayName'' a = Inr dn"
    "fn_optional_str item ''version'' ''v1'' = Inr v" "normalized_inputs_from [] raw = Inr ins" "normalized_output item = Inr out"
    "normalized_runtime_definition item runtime = Inr body" "function_timeout_seconds item = Inr timeout" "normalized_permissions item = Inr perms"
    and n: "n = [(''apiName'', PStr a), (''displayName'', PStr dn), (''version'', PStr v), (''runtime'', PStr runtime),
         (''inputs'', PList (map PDict ins)), (''output'', PDict out), (''definition'', PDict body), (''timeoutSeconds'', PInt timeout)]
       @ (case perms of None \<Rightarrow> [] | Some p \<Rightarrow> [(''permissions'', PDict p)])"
    unfolding normalized_function_definition_def normalized_inputs_def rbind_eq_Inr by blast
  have lookups: "map_of n ''inputs'' = Some (PList (map PDict ins))" "map_of n ''definition'' = Some (PDict body)"
    "get_val n ''permissions'' = (case perms of None \<Rightarrow> PNone | Some p \<Rightarrow> PDict p)" "map_of n ''output'' = Some (PDict out)"
    by (simp_all add: n get_or_def split: option.split)
  have "normalized_inputs n = Inr ins"
    by (simp add: normalized_inputs_def fn_mapping_sequence_again [OF lookups(1)] normalized_inputs_again [OF parts(5)])
  moreover have "normalized_runtime_definition n runtime = Inr body"
    using parts(7) normalized_source_again [OF _ lookups(2)] normalized_logic_again [OF _ lookups(2)]
    by (auto simp: normalized_runtime_definition_def)
  moreover have "normalized_output n = Inr out"
    using parts(6) require_type_again lookups(4)
    by (auto simp: normalized_output_def rbind_eq_Inr fn_required_mapping_again fn_required_str_Inr)
  moreover have "function_runtime n = Inr runtime" "function_timeout_seconds n = Inr timeout"
    "fn_required_str n ''apiName'' = Inr a" "fn_optional_str n ''displayName'' a = Inr dn" "fn_optional_str n ''version'' ''v1'' = Inr v"
    using parts(1-4,8) fn_optional_str_Inr
    by (auto simp: n function_runtime_def function_timeout_seconds_def rbind_eq_Inr fn_required_str_Inr fn_optional_int_def
      intro!: fn_optional_str_again split: if_splits)
  moreover have "normalized_permissions n = Inr perms" by (rule normalized_permissions_again [OF parts(9) lookups(3)])
  ultimately show ?thesis unfolding normalized_function_definition_def by (simp add: n)
qed

definition sample_function :: dict where
  "sample_function = [(''apiName'', PStr ''score''), (''runtime'', PStr ''python''),
     (''inputs'', PList [PDict [(''type'', PStr ''struct''), (''apiName'', PStr ''order''), (''maxBytes'', PInt 10),
       (''fields'', PList [PDict [(''apiName'', PStr ''amount''), (''type'', PStr ''decimal''), (''required'', PBool True)]])]]),
     (''output'', PDict [(''type'', PStr ''float''), (''note'', PStr ''dropped'')]),
     (''definition'', PDict [(''source'', PStr ''def compute(order): ...'')]),
     (''permissions'', PDict [(''allowedRoles'', PList [PStr ''admin''])])]"

lemma sample_function_normalizes:
  "case normalized_function_definition sample_function of Inl _ \<Rightarrow> False
   | Inr n \<Rightarrow> get_val n ''version'' = PStr ''v1'' \<and> get_val n ''timeoutSeconds'' = PInt 60"
  by code_simp

theorem normalized_function_definition_idempotent_witness:
  "\<exists>n. normalized_function_definition sample_function = Inr n \<and> normalized_function_definition n = Inr n \<and> get_val n ''version'' = PStr ''v1''"
proof -
  obtain n where "normalized_function_definition sample_function = Inr n" "get_val n ''version'' = PStr ''v1''"
    using sample_function_normalizes by (auto split: sum.splits)
  then show ?thesis using normalized_function_definition_idempotent by blast
qed

end
