(* ===== verification/Ontology_Datasources.thy ===== *)
theory Ontology_Datasources
  imports Json_Text
begin

text \<open>
  \<^verbatim>\<open>domain/ontology/datasources.py\<close>: the backing of an object type by one or several datasets, normalized into
  segments; the roles that guard a segment and the properties they mask; the source version of an index run over
  several datasets. Shown: composite version ids are read back, no caller without the role sees a guarded
  property, and the rows of the security policy guard exactly those properties.
\<close>

section \<open>Segments\<close>

record datasource_segment =
  sg_name :: string
  sg_dataset_ref :: string
  sg_primary_key_columns :: "string list"
  sg_required_role :: "string option"

definition primary_datasource_name :: string where
  "primary_datasource_name = ''primary''"

definition composite_version_separator :: string where
  "composite_version_separator = ''+''"

definition is_multi_datasource_backing :: "dict \<Rightarrow> bool" where
  "is_multi_datasource_backing backing = (case get_val backing ''datasources'' of PList items \<Rightarrow> items \<noteq> [] | _ \<Rightarrow> False)"

definition string_tuple :: "pyval \<Rightarrow> string \<Rightarrow> string list result" where
  "string_tuple v f = (case v of
       PNone \<Rightarrow> Inr []
     | PList items \<Rightarrow> map_result (\<lambda>item. case nonempty_text item of Some s \<Rightarrow> Inr s
         | None \<Rightarrow> Inl (ValidationFailed (f @ '' entries must be non-empty strings''))) items
     | _ \<Rightarrow> Inl (ValidationFailed (f @ '' must be a list of strings'')))"

definition single_dataset_segment :: "dict \<Rightarrow> datasource_segment result" where
  "single_dataset_segment backing = (case nonempty_text (get_val backing ''dataset'') of
       None \<Rightarrow> Inl (ValidationFailed ''object backing must declare a dataset or datasources'')
     | Some dataset \<Rightarrow> rbind (string_tuple (get_val backing ''primaryKeyColumns'') ''primaryKeyColumns'') (\<lambda>columns.
         Inr \<lparr>sg_name = primary_datasource_name, sg_dataset_ref = dataset, sg_primary_key_columns = columns, sg_required_role = None\<rparr>))"

definition declared_role :: "pyval \<Rightarrow> string option result" where
  "declared_role v = (if v = PNone then Inr None else case nonempty_text v of
       Some role \<Rightarrow> Inr (Some role)
     | None \<Rightarrow> Inl (ValidationFailed ''datasource requiredRole must be a non-empty string''))"

definition declared_segment :: "pyval \<Rightarrow> datasource_segment result" where
  "declared_segment item = (case item of
       PDict entry \<Rightarrow> (case nonempty_text (get_val entry ''name'') of
           None \<Rightarrow> Inl (ValidationFailed ''datasource name must be a non-empty string'')
         | Some name \<Rightarrow> (case nonempty_text (get_val entry ''dataset'') of
             None \<Rightarrow> Inl (ValidationFailed ''datasource dataset must be a non-empty string'')
           | Some dataset \<Rightarrow>
               rbind (declared_role (get_val entry ''requiredRole'')) (\<lambda>role.
               rbind (string_tuple (get_val entry ''primaryKeyColumns'') ''primaryKeyColumns'') (\<lambda>columns.
               Inr \<lparr>sg_name = name, sg_dataset_ref = dataset, sg_primary_key_columns = columns, sg_required_role = role\<rparr>))))
     | _ \<Rightarrow> Inl (ValidationFailed ''backing datasources entries must be mappings''))"

definition backing_datasources :: "dict \<Rightarrow> datasource_segment list result" where
  "backing_datasources backing = (case get_val backing ''datasources'' of
       PList (item # items) \<Rightarrow> map_result declared_segment (item # items)
     | _ \<Rightarrow> rbind (single_dataset_segment backing) (\<lambda>segment. Inr [segment]))"

text \<open>\<^verbatim>\<open>segments[0]\<close>.\<close>

definition first_segment :: "datasource_segment list \<Rightarrow> datasource_segment result" where
  "first_segment segments = (case segments of [] \<Rightarrow> Inl IndexError | segment # _ \<Rightarrow> Inr segment)"

definition primary_dataset_ref :: "dict \<Rightarrow> string result" where
  "primary_dataset_ref backing = rbind (backing_datasources backing) (\<lambda>segments.
     rbind (first_segment segments) (\<lambda>segment. Inr (sg_dataset_ref segment)))"

definition is_dataset_property :: "dict \<Rightarrow> bool" where
  "is_dataset_property prop' =
     (let source = get_val prop' ''source'' in if source \<noteq> PNone then source = PStr ''dataset'' else has_key prop' ''column'')"

definition property_datasource_name :: "dict \<Rightarrow> datasource_segment list \<Rightarrow> string \<Rightarrow> string option result" where
  "property_datasource_name prop' segments datasource_key =
     (if \<not> is_dataset_property prop' then Inr None
      else let declared = get_val prop' datasource_key in
        if declared = PNone then rbind (first_segment segments) (\<lambda>segment. Inr (Some (sg_name segment)))
        else case nonempty_text declared of
            Some name \<Rightarrow> Inr (Some name)
          | None \<Rightarrow> Inl (ValidationFailed
              ''property datasource must be a single datasource name (row-wise multi-datasource is not supported)''))"

definition segment_primary_key_column :: "datasource_segment \<Rightarrow> string \<Rightarrow> string" where
  "segment_primary_key_column segment default_column =
     (case sg_primary_key_columns segment of [] \<Rightarrow> default_column | column # _ \<Rightarrow> column)"

section \<open>Access roles\<close>

definition datasource_required_roles :: "datasource_segment list \<Rightarrow> (string \<times> string) list" where
  "datasource_required_roles segments = dupdate []
     (concat (map (\<lambda>s. case sg_required_role s of None \<Rightarrow> [] | Some role \<Rightarrow> [(sg_name s, role)]) segments))"

text \<open>A set of names is a list read by its elements.\<close>

definition segment_masked_property_names ::
  "(string \<times> string) list \<Rightarrow> (string \<times> string) list \<Rightarrow> string list \<Rightarrow> string list" where
  "segment_masked_property_names property_datasources roles_by_datasource caller_roles =
     (if ''admin'' \<in> set caller_roles then []
      else map fst (filter (\<lambda>(_, datasource). case map_of roles_by_datasource datasource of
          None \<Rightarrow> False | Some role \<Rightarrow> role \<notin> set caller_roles) property_datasources))"

definition persisted_property_datasource :: "dict \<Rightarrow> datasource_segment list \<Rightarrow> string result" where
  "persisted_property_datasource row segments =
     (let name = py_str (get_or (PStr []) row ''property_api_name'');
          found = (case get_val row ''config'' of
              PDict config \<Rightarrow> (case get_val config ''propertyDatasources'' of
                  PDict declared \<Rightarrow> nonempty_text (get_val declared name) | _ \<Rightarrow> None)
            | _ \<Rightarrow> None) in
      case found of Some datasource \<Rightarrow> Inr datasource
      | None \<Rightarrow> rbind (first_segment segments) (\<lambda>segment. Inr (sg_name segment)))"

definition segment_required_role_for_row :: "dict \<Rightarrow> string option result" where
  "segment_required_role_for_row row =
     (if get_val row ''source'' \<noteq> PStr ''dataset'' then Inr None
      else case get_val row ''backing'' of
          PDict backing \<Rightarrow>
            if \<not> is_multi_datasource_backing backing then Inr None
            else rbind (backing_datasources backing) (\<lambda>segments.
              let roles = datasource_required_roles segments in
              if roles = [] then Inr None
              else rbind (persisted_property_datasource row segments) (\<lambda>datasource. Inr (map_of roles datasource)))
        | _ \<Rightarrow> Inr None)"

definition property_datasource_row :: "dict \<Rightarrow> string \<Rightarrow> dict" where
  "property_datasource_row row role =
     [(''object_type_api_name'', get_val row ''object_type_api_name''), (''property_api_name'', get_val row ''property_api_name''),
      (''column_name'', get_val row ''column_name''), (''classification'', PNone), (''segment_required_role'', PStr role)]"

fun property_datasource_rows :: "dict list \<Rightarrow> dict list result" where
  "property_datasource_rows [] = Inr []"
| "property_datasource_rows (row # rows) =
     rbind (segment_required_role_for_row row) (\<lambda>role.
     rbind (property_datasource_rows rows) (\<lambda>rest.
     Inr (case role of None \<Rightarrow> rest | Some r \<Rightarrow> property_datasource_row row r # rest)))"

section \<open>Source versions\<close>

definition composite_source_dataset_version_id :: "string list \<Rightarrow> string result" where
  "composite_source_dataset_version_id version_ids =
     (if version_ids = [] then Inl (ValidationFailed ''at least one dataset version id is required'')
      else Inr (join_with composite_version_separator version_ids))"

text \<open>\<^verbatim>\<open>value.split(c)\<close> of one character.\<close>

fun split_char :: "char \<Rightarrow> string \<Rightarrow> string list" where
  "split_char c [] = [[]]"
| "split_char c (x # s) = (if x = c then [] # split_char c s
     else case split_char c s of [] \<Rightarrow> [[x]] | part # parts \<Rightarrow> (x # part) # parts)"

definition split_source_dataset_version_id :: "string \<Rightarrow> string list" where
  "split_source_dataset_version_id v = filter (\<lambda>part. part \<noteq> []) (split_char (hd composite_version_separator) v)"

section \<open>Segments are never empty, version ids are read back\<close>

lemma backing_datasources_nonempty: "backing_datasources backing = Inr segments \<Longrightarrow> segments \<noteq> []"
  by (auto simp: backing_datasources_def rbind_eq_Inr split: pyval.splits list.splits)

lemma backing_datasources_single: "\<not> is_multi_datasource_backing backing \<Longrightarrow> backing_datasources backing = Inr segments \<Longrightarrow>
  \<exists>s. segments = [s] \<and> sg_name s = primary_datasource_name \<and> get_val backing ''dataset'' = PStr (sg_dataset_ref s) \<and> sg_required_role s = None"
  by (auto simp: is_multi_datasource_backing_def backing_datasources_def single_dataset_segment_def rbind_eq_Inr
      split: pyval.splits list.splits option.splits)

lemma split_char_plain: "c \<notin> set s \<Longrightarrow> split_char c s = [s]"
  by (induction s) auto

lemma split_char_join: "c \<notin> set s \<Longrightarrow> split_char c (s @ c # t) = s # split_char c t"
  by (induction s) auto

lemma split_char_join_with: "vs \<noteq> [] \<Longrightarrow> (\<forall>v \<in> set vs. c \<notin> set v) \<Longrightarrow> split_char c (join_with [c] vs) = vs"
  by (induction "[c]" vs rule: join_with.induct) (auto simp: split_char_plain split_char_join)

text \<open>
  The source version recorded for an index run over several datasets names exactly their versions, in the order
  of the segments, for version ids that are non-empty and free of the separator.
\<close>

lemma composite_version_roundtrip:
  assumes "composite_source_dataset_version_id vs = Inr v" "\<forall>x \<in> set vs. x \<noteq> [] \<and> CHR ''+'' \<notin> set x"
  shows "split_source_dataset_version_id v = vs"
proof -
  have "split_char CHR ''+'' (join_with ''+'' vs) = vs" using assms split_char_join_with
    by (auto simp: composite_source_dataset_version_id_def split: if_splits)
  with assms show ?thesis
    by (auto simp: composite_source_dataset_version_id_def split_source_dataset_version_id_def composite_version_separator_def
        filter_id_conv split: if_splits)
qed

section \<open>What a caller sees\<close>

text \<open>The role that guards a property, by the segments of the backing.\<close>

lemma datasource_required_roles_last:
  "map_of (datasource_required_roles segments) name =
     (case filter (\<lambda>s. sg_name s = name \<and> sg_required_role s \<noteq> None) (rev segments) of [] \<Rightarrow> None | s # _ \<Rightarrow> sg_required_role s)"
proof -
  have "map_of (rev (concat (map (\<lambda>s. case sg_required_role s of None \<Rightarrow> [] | Some role \<Rightarrow> [(sg_name s, role)]) segments))) name =
     (case filter (\<lambda>s. sg_name s = name \<and> sg_required_role s \<noteq> None) (rev segments) of [] \<Rightarrow> None | s # _ \<Rightarrow> sg_required_role s)"
    by (induction segments rule: rev_induct) (auto split: option.splits)
  then show ?thesis by (simp add: datasource_required_roles_def split: option.split)
qed

lemma masked_property_iff:
  "name \<in> set (segment_masked_property_names pd roles callers) \<longleftrightarrow>
     ''admin'' \<notin> set callers \<and> (\<exists>d role. (name, d) \<in> set pd \<and> map_of roles d = Some role \<and> role \<notin> set callers)"
proof -
  have found: "x \<in> set (map fst (filter P ps)) \<longleftrightarrow> (\<exists>d. (x, d) \<in> set ps \<and> P (x, d))" for x P and ps :: "(string \<times> string) list"
    by (induction ps) auto
  show ?thesis
  proof (cases "''admin'' \<in> set callers")
    case True
    then show ?thesis by (simp add: segment_masked_property_names_def)
  next
    case False
    then show ?thesis by (simp only: segment_masked_property_names_def if_False found) (auto split: option.splits)
  qed
qed

lemma more_roles_mask_less:
  "set callers \<subseteq> set callers' \<Longrightarrow>
   set (segment_masked_property_names pd roles callers') \<subseteq> set (segment_masked_property_names pd roles callers)"
  using masked_property_iff by (fastforce simp: subset_eq)

lemma property_datasource_rows_Inr:
  "property_datasource_rows rows = Inr out \<Longrightarrow>
   out = concat (map (\<lambda>row. case segment_required_role_for_row row of Inr (Some role) \<Rightarrow> [property_datasource_row row role] | _ \<Rightarrow> []) rows)
   \<and> (\<forall>row \<in> set rows. is_ok (segment_required_role_for_row row))"
  by (induction rows arbitrary: out) (auto simp: rbind_eq_Inr split: option.splits)

end
