(* ===== verification/Migration_Types.thy ===== *)
theory Migration_Types
  imports Json_Text
begin

text \<open>
  \<^verbatim>\<open>domain/ontology/migration_types.py\<close> and \<^verbatim>\<open>migration_changes.py\<close>: the changes a migration plan reports, the
  plan with its status, and the reindex contract it puts on an object type until the index is rebuilt. Shown:
  a plan is blocked exactly when it holds a blocking change, and the reindex contract goes from required to
  complete once, with the evidence of its key.
\<close>

section \<open>Changes, operations, plans\<close>

record migration_change =
  mc_kind :: string
  mc_path :: string
  mc_status :: string
  mc_reason :: string
  mc_sdk_major :: bool
  mc_reindex :: bool
  mc_details :: dict

record reindex_operation =
  ro_object_type :: string
  ro_reason :: string
  ro_changed_fields :: "string list"
  ro_reindex_key :: string

record migration_plan =
  mp_source :: "string option"
  mp_changes :: "migration_change list"
  mp_reindex :: "reindex_operation list"

definition change_payload :: "migration_change \<Rightarrow> dict" where
  "change_payload c =
     [(''kind'', PStr (mc_kind c)), (''path'', PStr (mc_path c)), (''status'', PStr (mc_status c)), (''reason'', PStr (mc_reason c))]
     @ (if mc_sdk_major c then [(''requiresSdkMajorVersion'', PBool True)] else [])
     @ (if mc_reindex c then [(''requiresObjectReindex'', PBool True)] else [])
     @ (if mc_details c \<noteq> [] then [(''details'', PDict (mc_details c))] else [])"

definition reindex_payload :: "reindex_operation \<Rightarrow> dict" where
  "reindex_payload op =
     [(''objectTypeApiName'', PStr (ro_object_type op)), (''reason'', PStr (ro_reason op)),
      (''changedFields'', PList (map PStr (ro_changed_fields op))), (''reindexKey'', PStr (ro_reindex_key op))]"

definition blocking_changes :: "migration_plan \<Rightarrow> migration_change list" where
  "blocking_changes plan = filter (\<lambda>c. mc_status c = ''blocked'') (mp_changes plan)"

definition warning_changes :: "migration_plan \<Rightarrow> migration_change list" where
  "warning_changes plan = filter (\<lambda>c. mc_status c = ''warning'') (mp_changes plan)"

definition plan_has_changes :: "migration_plan \<Rightarrow> bool" where
  "plan_has_changes plan \<longleftrightarrow> mp_changes plan \<noteq> [] \<or> mp_reindex plan \<noteq> []"

definition plan_status :: "migration_plan \<Rightarrow> string" where
  "plan_status plan =
     (if blocking_changes plan \<noteq> [] then ''blocked''
      else if warning_changes plan \<noteq> [] \<or> mp_reindex plan \<noteq> [] then ''compatible_with_warning'' else ''compatible'')"

definition sdk_compatibility :: "migration_plan \<Rightarrow> string" where
  "sdk_compatibility plan =
     (if list_ex mc_sdk_major (blocking_changes plan) then ''major_version_required''
      else if warning_changes plan \<noteq> [] \<or> mp_reindex plan \<noteq> [] then ''compatible_with_warning'' else ''compatible'')"

definition consumer_compatibility :: "migration_plan \<Rightarrow> string" where
  "consumer_compatibility plan =
     (if blocking_changes plan \<noteq> [] then ''blocked_until_ontology_migration_plan''
      else if warning_changes plan \<noteq> [] \<or> mp_reindex plan \<noteq> [] then ''compatible_with_warning'' else ''compatible'')"

definition migration_payload :: "migration_plan \<Rightarrow> dict" where
  "migration_payload plan =
     [(''status'', PStr (plan_status plan)), (''consumerCompatibility'', PStr (consumer_compatibility plan)),
      (''sdkCompatibility'', PStr (sdk_compatibility plan)),
      (''changes'', PList (map (\<lambda>c. PDict (change_payload c)) (mp_changes plan))),
      (''objectReindexPlan'', PList (map (\<lambda>op. PDict (reindex_payload op)) (mp_reindex plan)))]
     @ (case mp_source plan of None \<Rightarrow> [] | Some v \<Rightarrow> [(''sourceOntologyVersionId'', PStr v)])
     @ (if blocking_changes plan \<noteq> [] then [(''blockedChanges'', PList (map (\<lambda>c. PDict (change_payload c)) (blocking_changes plan)))] else [])
     @ (if warning_changes plan \<noteq> [] then [(''warnings'', PList (map (\<lambda>c. PDict (change_payload c)) (warning_changes plan)))] else [])"

definition raise_if_blocked :: "migration_plan \<Rightarrow> unit result" where
  "raise_if_blocked plan = raise_if (blocking_changes plan \<noteq> []) (ValidationFailed ''ontology migration requires explicit migration plan'')"

section \<open>The reindex contract of an object type\<close>

definition object_reindex_required :: string where
  "object_reindex_required = ''object_reindex_required''"

definition object_reindex_complete :: string where
  "object_reindex_complete = ''object_reindex_complete''"

definition object_type_serving_config :: "migration_plan \<Rightarrow> string \<Rightarrow> dict" where
  "object_type_serving_config plan api_name =
     (let operations = filter (\<lambda>op. ro_object_type op = api_name) (mp_reindex plan) in
      if operations = [] then []
      else [(''servingRecordScope'', PStr ''object_type_id''), (''servingContractStatus'', PStr object_reindex_required),
            (''objectReindexPlan'', PList (map (\<lambda>op. PDict (reindex_payload op)) operations))]
        @ (case mp_source plan of None \<Rightarrow> [] | Some v \<Rightarrow> [(''sourceOntologyVersionId'', PStr v)]))"

definition object_reindex_plan :: "dict \<Rightarrow> dict list" where
  "object_reindex_plan config = (case get_val config ''objectReindexPlan'' of
       PList items \<Rightarrow> concat (map (\<lambda>item. case item of PDict d \<Rightarrow> [d] | _ \<Rightarrow> []) items)
     | _ \<Rightarrow> [])"

definition pending_object_reindex_operation :: "dict \<Rightarrow> string \<Rightarrow> dict option" where
  "pending_object_reindex_operation config reindex_key =
     (if get_val config ''servingContractStatus'' \<noteq> PStr object_reindex_required then None
      else List.find (\<lambda>operation. get_val operation ''reindexKey'' = PStr reindex_key) (object_reindex_plan config))"

definition completed_object_reindex :: "dict \<Rightarrow> string \<Rightarrow> dict option" where
  "completed_object_reindex config reindex_key =
     (if get_val config ''servingContractStatus'' \<noteq> PStr object_reindex_complete then None
      else case get_val config ''objectReindexCompleted'' of
          PDict completed \<Rightarrow> if get_val completed ''reindexKey'' \<noteq> PStr reindex_key then None else Some completed
        | _ \<Rightarrow> None)"

definition operation_changed_fields :: "dict \<Rightarrow> string list" where
  "operation_changed_fields operation = (case get_val operation ''changedFields'' of PList items \<Rightarrow> map py_str items | _ \<Rightarrow> [])"

text \<open>\<^verbatim>\<open>row[key]\<close>.\<close>

definition subscript :: "dict \<Rightarrow> string \<Rightarrow> pyval result" where
  "subscript row key = (case map_of row key of None \<Rightarrow> Inl KeyError | Some v \<Rightarrow> Inr v)"

definition complete_object_reindex_config :: "dict \<Rightarrow> dict \<Rightarrow> string \<Rightarrow> string \<Rightarrow> string \<Rightarrow> dict result" where
  "complete_object_reindex_config config operation index_run_id dataset_version_id completed_at =
     rbind (subscript operation ''reindexKey'') (\<lambda>key.
     Inr (dput ''objectReindexCompleted'' (PDict
         [(''reindexKey'', PStr (py_str key)), (''indexRunId'', PStr index_run_id), (''datasetVersionId'', PStr dataset_version_id),
          (''completedAt'', PStr completed_at), (''changedFields'', PList (map PStr (operation_changed_fields operation)))])
       (dput ''servingContractStatus'' (PStr object_reindex_complete) config)))"

text \<open>\<open>digest\<close> is the hexadecimal SHA-256 digest of a text.\<close>

definition mapping_hash :: "(string \<Rightarrow> string) \<Rightarrow> dict \<Rightarrow> string" where
  "mapping_hash digest payload = digest (json_dumps (PDict payload))"

definition make_reindex_operation :: "(string \<Rightarrow> string) \<Rightarrow> string \<Rightarrow> string list \<Rightarrow> reindex_operation option" where
  "make_reindex_operation digest api_name reindex_fields =
     (let changed = sort (remdups reindex_fields) in
      if changed = [] then None
      else Some \<lparr>ro_object_type = api_name, ro_reason = ''ontology object mapping changed'', ro_changed_fields = changed,
        ro_reindex_key = ''object_reindex:'' @ api_name @ '':''
          @ take 12 (mapping_hash digest [(''objectTypeApiName'', PStr api_name), (''changedFields'', PList (map PStr changed))])\<rparr>)"

section \<open>The constructors of changes\<close>

definition blocked :: "string \<Rightarrow> string \<Rightarrow> string \<Rightarrow> dict \<Rightarrow> migration_change" where
  "blocked kind path reason details = \<lparr>mc_kind = kind, mc_path = path, mc_status = ''blocked'', mc_reason = reason,
     mc_sdk_major = True, mc_reindex = False, mc_details = details\<rparr>"

definition warning :: "string \<Rightarrow> string \<Rightarrow> string \<Rightarrow> bool \<Rightarrow> dict \<Rightarrow> migration_change" where
  "warning kind path reason needs_reindex details = \<lparr>mc_kind = kind, mc_path = path, mc_status = ''warning'', mc_reason = reason,
     mc_sdk_major = False, mc_reindex = needs_reindex, mc_details = details\<rparr>"

text \<open>Text of a member in the details of a change: missing text is empty, anything else is converted.\<close>

definition detail_optional_str :: "dict \<Rightarrow> string \<Rightarrow> pyval" where
  "detail_optional_str m key = (if get_val m key = PNone then PNone else PStr (py_str (get_val m key)))"

definition detail_required_str :: "dict \<Rightarrow> string \<Rightarrow> string" where
  "detail_required_str m key = (case detail_optional_str m key of PStr s \<Rightarrow> s | _ \<Rightarrow> [])"

definition object_path :: "string \<Rightarrow> string" where
  "object_path api_name = ''objectTypes.'' @ api_name"

definition property_path :: "string \<Rightarrow> string \<Rightarrow> string" where
  "property_path object_api_name api_name = object_path object_api_name @ ''.properties.'' @ api_name"

definition datasource_path :: "string \<Rightarrow> string \<Rightarrow> string" where
  "datasource_path object_api_name name = object_path object_api_name @ ''.backing.datasources.'' @ name"

definition parameter_path :: "string \<Rightarrow> string \<Rightarrow> string" where
  "parameter_path action_api_name api_name = ''actionTypes.'' @ action_api_name @ ''.parameters.'' @ api_name"

definition blocked_object_removed :: "string \<Rightarrow> migration_change" where
  "blocked_object_removed api_name = blocked ''object_removed'' (object_path api_name) ''removing an object type breaks object APIs'' []"

definition blocked_primary_key_changed :: "string \<Rightarrow> string \<Rightarrow> dict \<Rightarrow> migration_change" where
  "blocked_primary_key_changed api_name previous candidate =
     blocked ''object_primary_key_changed'' (object_path api_name @ ''.primaryKey'')
       ''changing an object primary key requires a new object migration plan''
       [(''previous'', PStr previous), (''next'', PStr (detail_required_str candidate ''primaryKey''))]"

definition warning_object_reindex :: "string \<Rightarrow> string \<Rightarrow> migration_change" where
  "warning_object_reindex api_name f = warning ''object_reindex_required'' (object_path api_name @ ''.'' @ f)
     ''object backing changed and the active object index must be rebuilt before serving the new mapping'' True []"

definition blocked_property_rename :: "string \<Rightarrow> string \<Rightarrow> string \<Rightarrow> migration_change" where
  "blocked_property_rename object_api_name previous next_name = blocked ''property_renamed'' (property_path object_api_name next_name)
     ''property renames require explicit consumer mapping and SDK versioning''
     [(''renamedFrom'', PStr previous), (''apiName'', PStr next_name)]"

definition blocked_property_removed :: "string \<Rightarrow> string \<Rightarrow> migration_change" where
  "blocked_property_removed object_api_name api_name = blocked ''property_removed'' (property_path object_api_name api_name)
     ''removing a property breaks existing object consumers'' []"

definition blocked_property_type_change :: "string \<Rightarrow> string \<Rightarrow> dict \<Rightarrow> dict \<Rightarrow> migration_change result" where
  "blocked_property_type_change object_api_name api_name current candidate = rbind (subscript current ''data_type'') (\<lambda>previous.
     Inr (blocked ''property_type_changed'' (property_path object_api_name api_name @ ''.type'')
       ''changing a property type changes the generated SDK contract''
       [(''previous'', previous), (''next'', PStr (detail_required_str candidate ''type''))]))"

definition warning_property_deprecated :: "string \<Rightarrow> string \<Rightarrow> migration_change" where
  "warning_property_deprecated object_api_name api_name = warning ''property_deprecated'' (property_path object_api_name api_name)
     ''deprecated property remains readable but consumers should migrate'' False []"

definition warning_property_reindex :: "string \<Rightarrow> string \<Rightarrow> dict \<Rightarrow> dict \<Rightarrow> migration_change result" where
  "warning_property_reindex object_api_name api_name current candidate = rbind (subscript current ''column_name'') (\<lambda>previous.
     Inr (warning ''property_mapping_changed'' (property_path object_api_name api_name @ ''.column'')
       ''property backing changed and the active object index needs a deterministic rebuild'' True
       [(''previousColumn'', previous), (''nextColumn'', detail_optional_str candidate ''column'')]))"

definition warning_datasource_added :: "string \<Rightarrow> string \<Rightarrow> migration_change" where
  "warning_datasource_added object_api_name name = warning ''object_datasource_added'' (datasource_path object_api_name name)
     ''adding a datasource widens the object mapping and the active object index must be rebuilt'' True []"

definition blocked_datasource_removed :: "string \<Rightarrow> string \<Rightarrow> migration_change" where
  "blocked_datasource_removed object_api_name name = blocked ''object_datasource_removed'' (datasource_path object_api_name name)
     ''removing a datasource silently nulls every property it backs for existing consumers'' []"

definition blocked_datasource_dataset_changed :: "string \<Rightarrow> string \<Rightarrow> string \<Rightarrow> string \<Rightarrow> migration_change" where
  "blocked_datasource_dataset_changed object_api_name name previous next_dataset =
     blocked ''object_datasource_dataset_changed'' (datasource_path object_api_name name @ ''.dataset'')
       ''changing a datasource's dataset rebinds every property of that segment and requires a migration plan''
       [(''previous'', PStr previous), (''next'', PStr next_dataset)]"

definition blocked_property_datasource_moved :: "string \<Rightarrow> string \<Rightarrow> string \<Rightarrow> string \<Rightarrow> migration_change" where
  "blocked_property_datasource_moved object_api_name api_name previous next_dataset =
     blocked ''property_datasource_moved'' (property_path object_api_name api_name @ ''.datasource'')
       ''moving a property between datasources changes which dataset and segment role feed its values''
       [(''previous'', PStr previous), (''next'', PStr next_dataset)]"

definition optional_detail :: "string option \<Rightarrow> pyval" where
  "optional_detail v = (case v of None \<Rightarrow> PNone | Some s \<Rightarrow> PStr s)"

definition warning_datasource_required_role_changed :: "string \<Rightarrow> string \<Rightarrow> string option \<Rightarrow> string option \<Rightarrow> migration_change" where
  "warning_datasource_required_role_changed object_api_name name previous next_role =
     warning ''object_datasource_required_role_changed'' (datasource_path object_api_name name @ ''.requiredRole'')
       ''changing a datasource requiredRole re-scopes which callers can read the segment's property values'' False
       [(''previous'', optional_detail previous), (''next'', optional_detail next_role)]"

definition warning_interface_added :: "string \<Rightarrow> migration_change" where
  "warning_interface_added api_name = warning ''interface_added'' (''interfaces.'' @ api_name)
     ''adding an interface is backward-compatible but changes the polymorphic SDK surface'' False []"

definition blocked_interface_removed :: "string \<Rightarrow> migration_change" where
  "blocked_interface_removed api_name = blocked ''interface_removed'' (''interfaces.'' @ api_name)
     ''removing an interface breaks OSDK apps that query or type against it'' []"

definition blocked_interface_property_removed :: "string \<Rightarrow> string \<Rightarrow> migration_change" where
  "blocked_interface_property_removed interface_api_name api_name =
     blocked ''interface_property_removed'' (''interfaces.'' @ interface_api_name @ ''.properties.'' @ api_name)
       ''removing an interface property breaks consumers reading it across implementing types'' []"

definition warning_implements_added :: "string \<Rightarrow> string \<Rightarrow> migration_change" where
  "warning_implements_added object_api_name interface_api_name =
     warning ''object_implements_added'' (object_path object_api_name @ ''.implements.'' @ interface_api_name)
       ''implementing an interface is backward-compatible but widens interface query results'' False []"

definition blocked_implements_removed :: "string \<Rightarrow> string \<Rightarrow> migration_change" where
  "blocked_implements_removed object_api_name interface_api_name =
     blocked ''object_implements_removed'' (object_path object_api_name @ ''.implements.'' @ interface_api_name)
       ''dropping an implements declaration removes the type from interface queries OSDK apps depend on'' []"

definition warning_function_added :: "string \<Rightarrow> migration_change" where
  "warning_function_added api_name = warning ''function_added'' (''functionTypes.'' @ api_name)
     ''adding a function is backward-compatible but changes the callable SDK surface'' False []"

definition blocked_function_removed :: "string \<Rightarrow> migration_change" where
  "blocked_function_removed api_name = blocked ''function_removed'' (''functionTypes.'' @ api_name)
     ''removing a function breaks OSDK apps and Logic callers executing it'' []"

definition warning_function_definition_changed :: "string \<Rightarrow> migration_change" where
  "warning_function_definition_changed api_name = warning ''function_definition_changed'' (''functionTypes.'' @ api_name)
     ''changing a function definition changes execution behavior for existing callers'' False []"

definition blocked_link_removed :: "string \<Rightarrow> migration_change" where
  "blocked_link_removed api_name = blocked ''link_removed'' (''linkTypes.'' @ api_name) ''removing a link type breaks graph traversal APIs'' []"

definition blocked_link_endpoint_changed :: "string \<Rightarrow> dict \<Rightarrow> dict \<Rightarrow> migration_change result" where
  "blocked_link_endpoint_changed api_name current candidate =
     rbind (subscript current ''from_api_name'') (\<lambda>previous_from. rbind (subscript current ''to_api_name'') (\<lambda>previous_to.
     Inr (blocked ''link_endpoint_changed'' (''linkTypes.'' @ api_name) ''changing link endpoints changes the graph API contract''
       [(''previous'', PDict [(''from'', previous_from), (''to'', previous_to)]),
        (''next'', PDict [(''from'', PStr (detail_required_str candidate ''from'')), (''to'', PStr (detail_required_str candidate ''to''))])])))"

definition blocked_link_cardinality_changed :: "string \<Rightarrow> migration_change" where
  "blocked_link_cardinality_changed api_name = blocked ''link_cardinality_changed'' (''linkTypes.'' @ api_name @ ''.cardinality'')
     ''changing link cardinality changes traversal expectations'' []"

definition blocked_link_backing_changed :: "string \<Rightarrow> dict \<Rightarrow> dict \<Rightarrow> migration_change" where
  "blocked_link_backing_changed api_name previous next_backing = blocked ''link_backing_changed'' (''linkTypes.'' @ api_name @ ''.backing'')
     ''changing link backing keys requires a link migration plan'' [(''previous'', PDict previous), (''next'', PDict next_backing)]"

definition blocked_action_removed :: "string \<Rightarrow> migration_change" where
  "blocked_action_removed api_name = blocked ''action_removed'' (''actionTypes.'' @ api_name) ''removing an action breaks SDK callers'' []"

definition blocked_action_target_changed :: "string \<Rightarrow> string \<Rightarrow> string \<Rightarrow> migration_change" where
  "blocked_action_target_changed api_name previous next_target = blocked ''action_target_changed'' (''actionTypes.'' @ api_name @ ''.target'')
     ''changing an action target changes the generated SDK contract'' [(''previous'', PStr previous), (''next'', PStr next_target)]"

definition blocked_parameter_removed :: "string \<Rightarrow> string \<Rightarrow> migration_change" where
  "blocked_parameter_removed action_api_name api_name = blocked ''action_parameter_removed'' (parameter_path action_api_name api_name)
     ''removing an action parameter breaks generated SDK callers'' []"

definition blocked_parameter_type_changed :: "string \<Rightarrow> string \<Rightarrow> dict \<Rightarrow> dict \<Rightarrow> migration_change" where
  "blocked_parameter_type_changed action_api_name api_name current candidate =
     blocked ''action_parameter_type_changed'' (parameter_path action_api_name api_name @ ''.type'')
       ''changing an action parameter type requires a generated SDK major version''
       [(''previous'', PStr (detail_required_str current ''type'')), (''next'', PStr (detail_required_str candidate ''type''))]"

definition blocked_parameter_became_required :: "string \<Rightarrow> string \<Rightarrow> migration_change" where
  "blocked_parameter_became_required action_api_name api_name =
     blocked ''action_parameter_became_required'' (parameter_path action_api_name api_name @ ''.required'')
       ''making an existing optional parameter required breaks old SDK callers'' []"

definition blocked_required_parameter_added :: "string \<Rightarrow> string \<Rightarrow> migration_change" where
  "blocked_required_parameter_added action_api_name api_name =
     blocked ''required_action_parameter_added'' (parameter_path action_api_name api_name)
       ''adding a required action parameter requires a generated SDK major version'' []"

definition warning_parameter_became_optional :: "string \<Rightarrow> string \<Rightarrow> migration_change" where
  "warning_parameter_became_optional action_api_name api_name =
     warning ''action_parameter_became_optional'' (parameter_path action_api_name api_name @ ''.required'')
       ''making an action parameter optional is backward-compatible but should be visible to consumers'' False []"

definition warning_optional_parameter_added :: "string \<Rightarrow> string \<Rightarrow> migration_change" where
  "warning_optional_parameter_added action_api_name api_name =
     warning ''optional_action_parameter_added'' (parameter_path action_api_name api_name)
       ''adding an optional parameter is compatible but changes the SDK surface'' False []"

lemmas blocked_change_defs = blocked_object_removed_def blocked_primary_key_changed_def blocked_property_rename_def
  blocked_property_removed_def blocked_datasource_removed_def blocked_datasource_dataset_changed_def
  blocked_property_datasource_moved_def blocked_interface_removed_def blocked_interface_property_removed_def
  blocked_implements_removed_def blocked_function_removed_def blocked_link_removed_def blocked_link_cardinality_changed_def
  blocked_link_backing_changed_def blocked_action_removed_def blocked_action_target_changed_def blocked_parameter_removed_def
  blocked_parameter_type_changed_def blocked_parameter_became_required_def blocked_required_parameter_added_def

lemmas warning_change_defs = warning_object_reindex_def warning_property_deprecated_def warning_datasource_added_def
  warning_datasource_required_role_changed_def warning_interface_added_def warning_implements_added_def
  warning_function_added_def warning_function_definition_changed_def warning_parameter_became_optional_def
  warning_optional_parameter_added_def

section \<open>Changes without a block\<close>

definition unblocked :: "migration_change list \<Rightarrow> bool" where
  "unblocked cs \<longleftrightarrow> (\<forall>c \<in> set cs. mc_status c \<noteq> ''blocked'')"

lemma unblocked_append [simp]: "unblocked (a @ b) \<longleftrightarrow> unblocked a \<and> unblocked b"
  by (auto simp: unblocked_def)

lemma unblocked_simps [simp]: "unblocked []" "unblocked (c # cs) \<longleftrightarrow> mc_status c \<noteq> ''blocked'' \<and> unblocked cs"
  by (auto simp: unblocked_def)

lemma unblocked_concat: "unblocked (concat css) \<longleftrightarrow> (\<forall>cs \<in> set css. unblocked cs)"
  by (auto simp: unblocked_def)

lemma unblocked_if: "unblocked (if b then [c] else []) \<longleftrightarrow> (b \<longrightarrow> mc_status c \<noteq> ''blocked'')"
  by simp

lemma blocked_status [simp]: "mc_status (blocked kind path reason details) = ''blocked''"
  by (simp add: blocked_def)

lemma warning_status [simp]: "mc_status (warning kind path reason r details) = ''warning''"
  by (simp add: warning_def)

lemma no_blocking_changes: "blocking_changes plan = [] \<longleftrightarrow> unblocked (mp_changes plan)"
  by (simp add: blocking_changes_def unblocked_def filter_empty_conv)

section \<open>The reindex contract\<close>

definition completion_evidence :: "string \<Rightarrow> dict \<Rightarrow> string \<Rightarrow> string \<Rightarrow> string \<Rightarrow> dict" where
  "completion_evidence key operation run version time =
     [(''reindexKey'', PStr key), (''indexRunId'', PStr run), (''datasetVersionId'', PStr version),
      (''completedAt'', PStr time), (''changedFields'', PList (map PStr (operation_changed_fields operation)))]"

lemma completed_config:
  assumes "complete_object_reindex_config config operation run version time = Inr completed" "map_of operation ''reindexKey'' = Some (PStr k)"
  shows "pending_object_reindex_operation completed key = None"
    "completed_object_reindex completed key = (if key = k then Some (completion_evidence k operation run version time) else None)"
proof -
  from assms have completed: "map_of completed = (map_of config)(''servingContractStatus'' \<mapsto> PStr object_reindex_complete,
      ''objectReindexCompleted'' \<mapsto> PDict (completion_evidence k operation run version time))"
    by (auto simp: complete_object_reindex_config_def subscript_def completion_evidence_def)
  show "pending_object_reindex_operation completed key = None"
    by (simp add: pending_object_reindex_operation_def get_or_def completed object_reindex_complete_def object_reindex_required_def)
  show "completed_object_reindex completed key = (if key = k then Some (completion_evidence k operation run version time) else None)"
    by (simp add: completed_object_reindex_def get_or_def completed completion_evidence_def)
qed

text \<open>The config of an object type with one operation names it as pending, and completing it leaves nothing pending.\<close>

lemma reindex_contract_steps:
  assumes "op \<in> set (mp_reindex plan)"
    and single: "\<forall>op' \<in> set (mp_reindex plan). ro_object_type op' = ro_object_type op \<longrightarrow> op' = op"
    and config: "config = object_type_serving_config plan (ro_object_type op)"
  shows "pending_object_reindex_operation config (ro_reindex_key op) = Some (reindex_payload op)"
    "completed_object_reindex config key = None"
    "\<exists>completed. complete_object_reindex_config config (reindex_payload op) run version time = Inr completed
       \<and> pending_object_reindex_operation completed key = None
       \<and> completed_object_reindex completed key =
          (if key = ro_reindex_key op then Some (completion_evidence key (reindex_payload op) run version time) else None)"
proof -
  let ?ops = "filter (\<lambda>o'. ro_object_type o' = ro_object_type op) (mp_reindex plan)"
  have "op \<in> set ?ops" using assms(1) by simp
  then obtain o' ops where ops: "?ops = o' # ops" by (cases ?ops) auto
  have "o' \<in> set ?ops" by (simp only: ops list.set_intros)
  then have "o' = op" using single by simp
  with ops have first: "?ops = op # ops" by simp
  then have "config = [(''servingRecordScope'', PStr ''object_type_id''), (''servingContractStatus'', PStr object_reindex_required),
      (''objectReindexPlan'', PList (map (\<lambda>op. PDict (reindex_payload op)) (op # ops)))]
    @ (case mp_source plan of None \<Rightarrow> [] | Some v \<Rightarrow> [(''sourceOntologyVersionId'', PStr v)])"
    by (simp add: config object_type_serving_config_def Let_def)
  then have lookups: "get_val config ''servingContractStatus'' = PStr object_reindex_required"
    "object_reindex_plan config = reindex_payload op # map reindex_payload ops"
    by (simp_all add: object_reindex_plan_def comp_def)
  have key: "map_of (reindex_payload op) ''reindexKey'' = Some (PStr (ro_reindex_key op))" by (simp add: reindex_payload_def)
  then show "pending_object_reindex_operation config (ro_reindex_key op) = Some (reindex_payload op)"
    by (simp add: pending_object_reindex_operation_def lookups)
  show "completed_object_reindex config key = None"
    by (simp add: completed_object_reindex_def lookups object_reindex_required_def object_reindex_complete_def)
  from key obtain completed where run: "complete_object_reindex_config config (reindex_payload op) run version time = Inr completed"
    by (simp add: complete_object_reindex_config_def subscript_def)
  with completed_config [OF run key] show "\<exists>completed. complete_object_reindex_config config (reindex_payload op) run version time = Inr completed
       \<and> pending_object_reindex_operation completed key = None
       \<and> completed_object_reindex completed key =
          (if key = ro_reindex_key op then Some (completion_evidence key (reindex_payload op) run version time) else None)" by simp
qed

end
