(* ===== verification/Ontology_Migration.thy ===== *)
theory Ontology_Migration
  imports Function_Types Ontology_Datasources Migration_Types
begin

text \<open>
  \<^verbatim>\<open>domain/ontology/migration.py\<close> and \<^verbatim>\<open>migration_datasources.py\<close>: the plan that classifies a candidate ontology
  definition against the active ontology rows. Shown: a plan without a blocking change keeps what consumers rely
  on, and the reindex contract of every object type in a plan is completed once.
\<close>

section \<open>Readers\<close>

definition mg_optional_str :: "dict \<Rightarrow> string \<Rightarrow> pyval \<Rightarrow> pyval result" where
  "mg_optional_str m key d = (case get_or d m key of PNone \<Rightarrow> Inr PNone | PStr s \<Rightarrow> Inr (PStr s)
     | _ \<Rightarrow> Inl (ValidationFailed (key @ '' must be a string'')))"

definition mg_required_str :: "dict \<Rightarrow> string \<Rightarrow> string result" where
  "mg_required_str m key = rbind (mg_optional_str m key PNone) (\<lambda>v. case nonempty_text v of Some s \<Rightarrow> Inr s
     | None \<Rightarrow> Inl (ValidationFailed (key @ '' must be set'')))"

definition mg_optional_bool :: "dict \<Rightarrow> string \<Rightarrow> bool \<Rightarrow> bool result" where
  "mg_optional_bool m key d = (case get_or (PBool d) m key of PBool b \<Rightarrow> Inr b | _ \<Rightarrow> Inl (ValidationFailed (key @ '' must be a boolean'')))"

definition as_mapping :: "pyval \<Rightarrow> dict result" where
  "as_mapping v = (case v of PDict d \<Rightarrow> Inr d | _ \<Rightarrow> Inl (ValidationFailed ''expected mapping''))"

definition mg_mapping_sequence :: "dict \<Rightarrow> string \<Rightarrow> dict list result" where
  "mg_mapping_sequence m key = (case get_or (PList []) m key of PNone \<Rightarrow> Inr [] | PList items \<Rightarrow> map_result as_mapping items
     | _ \<Rightarrow> Inl (ValidationFailed (key @ '' must be a list'')))"

definition string_items :: "pyval \<Rightarrow> string list result" where
  "string_items v = (case v of PNone \<Rightarrow> Inr [] | PList items \<Rightarrow> Inr (map py_str items)
     | _ \<Rightarrow> Inl (ValidationFailed ''implements must be a list of strings''))"

definition object_type_backing :: "dict \<Rightarrow> dict result" where
  "object_type_backing item = (case get_val item ''backing'' of PDict d \<Rightarrow> Inr d
     | _ \<Rightarrow> rbind (mg_required_str item ''dataset'') (\<lambda>dataset. Inr [(''dataset'', PStr dataset)]))"

definition link_type_backing :: "dict \<Rightarrow> dict result" where
  "link_type_backing item = (case get_val item ''backing'' of PDict d \<Rightarrow> Inr d
     | _ \<Rightarrow> rbind (mg_required_str item ''dataset'') (\<lambda>dataset. rbind (mg_required_str item ''fromKey'') (\<lambda>from_key.
         rbind (mg_required_str item ''toKey'') (\<lambda>to_key.
         Inr [(''dataset'', PStr dataset), (''fromKey'', PStr from_key), (''toKey'', PStr to_key)]))))"

text \<open>The error of a source that is explicitly null names the property, and reads its name first.\<close>

definition property_source :: "dict \<Rightarrow> pyval result" where
  "property_source p = rbind (mg_optional_str p ''source'' (PStr (if has_key p ''column'' then ''dataset'' else ''edit_layer''))) (\<lambda>source.
     if source = PNone then rbind (mg_required_str p ''apiName'') (\<lambda>_. Inl (ValidationFailed ''property source must be set'')) else Inr source)"

definition mapping_changed :: "(string \<Rightarrow> string) \<Rightarrow> dict \<Rightarrow> dict \<Rightarrow> bool" where
  "mapping_changed digest previous next' \<longleftrightarrow>
     mapping_hash digest [(''value'', PDict previous)] \<noteq> mapping_hash digest [(''value'', PDict next')]"

definition subscript_mapping :: "dict \<Rightarrow> string \<Rightarrow> dict result" where
  "subscript_mapping row key = rbind (subscript row key) as_mapping"

section \<open>Rows by name\<close>

definition rows_by_api :: "string \<Rightarrow> dict list \<Rightarrow> (string \<times> dict) list result" where
  "rows_by_api message rows = fold_result (\<lambda>row d. rbind (subscript row ''api_name'') (\<lambda>v.
     if has_key d (py_str v) then Inl (ValidationFailed message) else Inr (dput (py_str v) row d))) rows []"

definition yaml_rows_by_api :: "string \<Rightarrow> dict list \<Rightarrow> (string \<times> dict) list result" where
  "yaml_rows_by_api message rows = fold_result (\<lambda>row d. rbind (mg_required_str row ''apiName'') (\<lambda>name.
     if has_key d name then Inl (ValidationFailed message) else Inr (dput name row d))) rows []"

definition definitions_by_api :: "string \<Rightarrow> string \<Rightarrow> dict \<Rightarrow> (string \<times> dict) list result" where
  "definitions_by_api key message m = rbind (mg_mapping_sequence m key) (yaml_rows_by_api message)"

definition object_definitions_by_api :: "dict \<Rightarrow> (string \<times> dict) list result" where
  "object_definitions_by_api = definitions_by_api ''objectTypes'' ''duplicate object apiName''"

definition property_definitions_by_api :: "dict \<Rightarrow> (string \<times> dict) list result" where
  "property_definitions_by_api = definitions_by_api ''properties'' ''duplicate property apiName''"

definition interface_definitions_by_api :: "dict \<Rightarrow> (string \<times> dict) list result" where
  "interface_definitions_by_api = definitions_by_api ''interfaces'' ''duplicate interface apiName''"

definition link_definitions_by_api :: "dict \<Rightarrow> (string \<times> dict) list result" where
  "link_definitions_by_api = definitions_by_api ''linkTypes'' ''duplicate link apiName''"

definition action_definitions_by_api :: "dict \<Rightarrow> (string \<times> dict) list result" where
  "action_definitions_by_api = definitions_by_api ''actionTypes'' ''duplicate action apiName''"

definition parameter_definitions_by_api :: "dict list \<Rightarrow> (string \<times> dict) list result" where
  "parameter_definitions_by_api = yaml_rows_by_api ''duplicate action parameter apiName''"

definition interface_rows_by_api :: "dict list \<Rightarrow> (string \<times> dict) list result" where
  "interface_rows_by_api = rows_by_api ''duplicate persisted interface apiName''"

definition function_rows_by_api :: "dict list \<Rightarrow> (string \<times> dict) list result" where
  "function_rows_by_api = rows_by_api ''duplicate persisted function apiName''"

definition link_rows_by_api :: "dict list \<Rightarrow> (string \<times> dict) list result" where
  "link_rows_by_api = rows_by_api ''duplicate persisted ontology apiName''"

definition action_rows_by_api :: "dict list \<Rightarrow> (string \<times> dict) list result" where
  "action_rows_by_api = rows_by_api ''duplicate persisted action apiName''"

definition property_by_api :: "dict list \<Rightarrow> (string \<times> dict) list result" where
  "property_by_api rows = rbind (map_result (\<lambda>row. rbind (subscript row ''api_name'') (\<lambda>v. Inr (py_str v, row))) rows) (\<lambda>pairs.
     Inr (dupdate [] pairs))"

text \<open>A loop over the items in the order of their names, each adding its changes.\<close>

definition collect :: "('a \<Rightarrow> 'c list result) \<Rightarrow> 'a list \<Rightarrow> 'c list result" where
  "collect f xs = rbind (map_result f xs) (\<lambda>css. Inr (concat css))"

definition sorted_items :: "(string \<times> 'v) list \<Rightarrow> (string \<times> 'v) list" where
  "sorted_items d = sort_key fst d"

text \<open>A set of names, walked in order.\<close>

definition sorted_names :: "(string \<Rightarrow> bool) \<Rightarrow> string list \<Rightarrow> string list" where
  "sorted_names P names = sort (remdups (filter P names))"

section \<open>Datasources\<close>

definition backing_of :: "dict \<Rightarrow> dict" where
  "backing_of row = (case get_val row ''backing'' of PDict d \<Rightarrow> d | _ \<Rightarrow> [])"

definition segments_by_name :: "datasource_segment list \<Rightarrow> (string \<times> datasource_segment) list" where
  "segments_by_name segments = dupdate [] (map (\<lambda>s. (sg_name s, s)) segments)"

definition common_segment_changes :: "string \<Rightarrow> datasource_segment \<Rightarrow> datasource_segment \<Rightarrow> migration_change list" where
  "common_segment_changes api_name current candidate =
     (if sg_dataset_ref current \<noteq> sg_dataset_ref candidate
      then [blocked_datasource_dataset_changed api_name (sg_name current) (sg_dataset_ref current) (sg_dataset_ref candidate)] else [])
     @ (if sg_required_role current \<noteq> sg_required_role candidate
      then [warning_datasource_required_role_changed api_name (sg_name current) (sg_required_role current) (sg_required_role candidate)] else [])"

definition implicit_rename_pairs ::
  "dict \<Rightarrow> datasource_segment list \<Rightarrow> (string \<times> datasource_segment) list \<Rightarrow> datasource_segment list \<Rightarrow> (string \<times> string) list result" where
  "implicit_rename_pairs current_backing current_segments candidate_by_name candidate_segments =
     (if is_multi_datasource_backing current_backing then Inr []
      else rbind (first_segment current_segments) (\<lambda>primary.
        if has_key candidate_by_name (sg_name primary) then Inr []
        else Inr (case List.find (\<lambda>c. sg_dataset_ref c = sg_dataset_ref primary) candidate_segments of
            None \<Rightarrow> [] | Some c \<Rightarrow> [(sg_name primary, sg_name c)])))"

text \<open>\<^verbatim>\<open>by_name[name]\<close>.\<close>

definition segment_named :: "(string \<times> datasource_segment) list \<Rightarrow> string \<Rightarrow> datasource_segment result" where
  "segment_named by_name name = (case map_of by_name name of None \<Rightarrow> Inl KeyError | Some s \<Rightarrow> Inr s)"

definition compare_segments ::
  "string \<Rightarrow> (string \<times> datasource_segment) list \<Rightarrow> (string \<times> datasource_segment) list \<Rightarrow> string \<times> string \<Rightarrow> migration_change list result" where
  "compare_segments api_name currents candidates names =
     rbind (segment_named currents (fst names)) (\<lambda>a. rbind (segment_named candidates (snd names)) (\<lambda>b. Inr (common_segment_changes api_name a b)))"

definition segment_shape_changes ::
  "string \<Rightarrow> dict \<Rightarrow> datasource_segment list \<Rightarrow> datasource_segment list \<Rightarrow> migration_change list result" where
  "segment_shape_changes api_name current_backing current_segments candidate_segments =
     (let currents = segments_by_name current_segments; candidates = segments_by_name candidate_segments in
      rbind (implicit_rename_pairs current_backing current_segments candidates candidate_segments) (\<lambda>renamed.
      let removed = map (blocked_datasource_removed api_name)
            (sorted_names (\<lambda>n. \<not> has_key candidates n \<and> \<not> has_key renamed n) (dkeys currents));
          added = map (warning_datasource_added api_name)
            (sorted_names (\<lambda>n. \<not> has_key currents n \<and> n \<notin> snd ` set renamed) (dkeys candidates)) in
      rbind (collect (\<lambda>n. compare_segments api_name currents candidates (n, n)) (sorted_names (has_key candidates) (dkeys currents))) (\<lambda>common.
      rbind (collect (compare_segments api_name currents candidates) (sorted_items renamed)) (\<lambda>continued.
      Inr (removed @ added @ common @ continued)))))"

definition persisted_property_datasources :: "dict \<Rightarrow> (string \<times> string) list" where
  "persisted_property_datasources current = (case get_val current ''config'' of
       PDict config \<Rightarrow> (case get_val config ''propertyDatasources'' of
           PDict declared \<Rightarrow> concat (map (\<lambda>(k, v). case v of PStr s \<Rightarrow> [(k, s)] | _ \<Rightarrow> []) declared)
         | _ \<Rightarrow> [])
     | _ \<Rightarrow> [])"

definition current_property_dataset_refs :: "dict \<Rightarrow> dict list \<Rightarrow> datasource_segment list \<Rightarrow> (string \<times> string) list result" where
  "current_property_dataset_refs current current_properties current_segments =
     (let refs_by_name = map (\<lambda>(n, s). (n, sg_dataset_ref s)) (segments_by_name current_segments);
          declared = persisted_property_datasources current in
      fold_result (\<lambda>p refs.
        if get_val p ''source'' \<noteq> PStr ''dataset'' then Inr refs
        else rbind (subscript p ''api_name'') (\<lambda>v. rbind (first_segment current_segments) (\<lambda>first.
          let segment_name = (case map_of declared (py_str v) of None \<Rightarrow> sg_name first | Some n \<Rightarrow> n) in
          Inr (case map_of refs_by_name segment_name of None \<Rightarrow> refs | Some ref \<Rightarrow> dput (py_str v) ref refs)))) current_properties [])"

definition property_move_changes ::
  "string \<Rightarrow> dict \<Rightarrow> dict list \<Rightarrow> datasource_segment list \<Rightarrow> (string \<times> dict) list \<Rightarrow> datasource_segment list \<Rightarrow> migration_change list result" where
  "property_move_changes api_name current current_properties current_segments candidate_properties candidate_segments =
     rbind (current_property_dataset_refs current current_properties current_segments) (\<lambda>current_refs.
     let candidate_refs = map (\<lambda>(n, s). (n, sg_dataset_ref s)) (segments_by_name candidate_segments) in
     collect (\<lambda>name. case (map_of current_refs name, map_of candidate_properties name) of
         (Some current_ref, Some candidate_property) \<Rightarrow>
           rbind (property_datasource_name candidate_property candidate_segments ''datasource'') (\<lambda>candidate_name.
           Inr (case candidate_name of None \<Rightarrow> [] | Some n \<Rightarrow> (case map_of candidate_refs n of
               None \<Rightarrow> []
             | Some candidate_ref \<Rightarrow> if candidate_ref \<noteq> current_ref
                 then [blocked_property_datasource_moved api_name name current_ref candidate_ref] else [])))
       | _ \<Rightarrow> Inl KeyError)
       (sorted_names (has_key candidate_properties) (dkeys current_refs)))"

definition datasource_migration_changes ::
  "string \<Rightarrow> dict \<Rightarrow> dict list \<Rightarrow> dict \<Rightarrow> (string \<times> dict) list \<Rightarrow> migration_change list result" where
  "datasource_migration_changes api_name current current_properties candidate candidate_properties =
     (let current_backing = backing_of current; candidate_backing = backing_of candidate in
      if \<not> is_multi_datasource_backing current_backing \<and> \<not> is_multi_datasource_backing candidate_backing then Inr []
      else rbind (backing_datasources current_backing) (\<lambda>current_segments. rbind (backing_datasources candidate_backing) (\<lambda>candidate_segments.
        rbind (segment_shape_changes api_name current_backing current_segments candidate_segments) (\<lambda>shape.
        rbind (property_move_changes api_name current current_properties current_segments candidate_properties candidate_segments) (\<lambda>moved.
        Inr (shape @ moved))))))"

section \<open>Properties\<close>

fun first_text :: "dict \<Rightarrow> string list \<Rightarrow> string option result" where
  "first_text m [] = Inr None"
| "first_text m (key # keys) = rbind (mg_optional_str m key PNone) (\<lambda>v. case v of PStr s \<Rightarrow> Inr (Some s) | _ \<Rightarrow> first_text m keys)"

definition rename_source :: "dict \<Rightarrow> string option result" where
  "rename_source p = first_text p [''renamedFrom'', ''previousName'', ''previousApiName'']"

definition property_rename_sources :: "(string \<times> dict) list \<Rightarrow> (string \<times> string) list result" where
  "property_rename_sources properties = fold_result (\<lambda>(api_name, p) d. rbind (rename_source p) (\<lambda>source.
     Inr (case source of None \<Rightarrow> d | Some s \<Rightarrow> dput s api_name d))) properties []"

definition removed_property_changes ::
  "string \<Rightarrow> dict list \<Rightarrow> (string \<times> dict) list \<Rightarrow> (string \<times> string) list \<Rightarrow> migration_change list result" where
  "removed_property_changes object_api_name current_properties candidate_properties rename_sources =
     collect (\<lambda>current. rbind (subscript current ''api_name'') (\<lambda>v.
       rbind (in_names v (dkeys candidate_properties)) (\<lambda>is_kept.
       rbind (if is_kept then Inr True else in_names v (dkeys rename_sources)) (\<lambda>is_accounted.
       Inr (if is_accounted then [] else [blocked_property_removed object_api_name (py_str v)]))))) current_properties"

definition property_requires_reindex :: "dict option \<Rightarrow> dict \<Rightarrow> bool result" where
  "property_requires_reindex current candidate = (case current of
       None \<Rightarrow> rbind (property_source candidate) (\<lambda>source. Inr (source = PStr ''dataset''))
     | Some row \<Rightarrow> rbind (property_source candidate) (\<lambda>source. rbind (subscript row ''source'') (\<lambda>previous.
         if source \<noteq> previous then Inr True
         else rbind (mg_optional_str candidate ''column'' PNone) (\<lambda>column. rbind (subscript row ''column_name'') (\<lambda>previous_column.
           Inr (column \<noteq> previous_column))))))"

text \<open>A change that is reported under a condition; its details may read further members.\<close>

definition change_if :: "bool \<Rightarrow> migration_change result \<Rightarrow> migration_change list result" where
  "change_if b c = (if b then rbind c (\<lambda>x. Inr [x]) else Inr [])"

definition candidate_property_changes :: "string \<Rightarrow> string \<Rightarrow> dict option \<Rightarrow> dict \<Rightarrow> migration_change list result" where
  "candidate_property_changes object_api_name api_name current candidate =
     rbind (rename_source candidate) (\<lambda>renamed.
     let renames = (case renamed of None \<Rightarrow> [] | Some s \<Rightarrow> [blocked_property_rename object_api_name s api_name]) in
     case current of None \<Rightarrow> Inr renames
     | Some row \<Rightarrow>
         rbind (mg_required_str candidate ''type'') (\<lambda>data_type. rbind (subscript row ''data_type'') (\<lambda>previous.
         rbind (change_if (PStr data_type \<noteq> previous) (blocked_property_type_change object_api_name api_name row candidate)) (\<lambda>retyped.
         rbind (mg_optional_bool candidate ''deprecated'' False) (\<lambda>is_deprecated.
         rbind (property_requires_reindex current candidate) (\<lambda>needs_reindex.
         rbind (change_if needs_reindex (warning_property_reindex object_api_name api_name row candidate)) (\<lambda>remapped.
         Inr (renames @ retyped @ (if is_deprecated then [warning_property_deprecated object_api_name api_name] else []) @ remapped))))))))"

definition property_migration_changes :: "string \<Rightarrow> dict list \<Rightarrow> dict \<Rightarrow> (migration_change list \<times> string list) result" where
  "property_migration_changes object_api_name current_properties candidate =
     rbind (property_definitions_by_api candidate) (\<lambda>candidate_properties.
     rbind (property_rename_sources candidate_properties) (\<lambda>rename_sources.
     rbind (removed_property_changes object_api_name current_properties candidate_properties rename_sources) (\<lambda>removed.
     rbind (map_result (\<lambda>(api_name, p).
         rbind (property_by_api current_properties) (\<lambda>currents.
         rbind (candidate_property_changes object_api_name api_name (map_of currents api_name) p) (\<lambda>cs.
         rbind (property_requires_reindex (map_of currents api_name) p) (\<lambda>needs_reindex.
         Inr (cs, if needs_reindex then [''properties.'' @ api_name] else []))))) (sorted_items candidate_properties)) (\<lambda>walked.
     Inr (removed @ concat (map fst walked), concat (map snd walked))))))"

section \<open>Objects\<close>

definition object_shape_changes :: "(string \<Rightarrow> string) \<Rightarrow> string \<Rightarrow> dict \<Rightarrow> dict \<Rightarrow> migration_change list result" where
  "object_shape_changes digest api_name current candidate =
     rbind (mg_required_str candidate ''primaryKey'') (\<lambda>primary_key. rbind (subscript current ''primary_key_property'') (\<lambda>previous.
     rbind (subscript_mapping current ''backing'') (\<lambda>backing. rbind (object_type_backing candidate) (\<lambda>next_backing.
     Inr ((if PStr primary_key \<noteq> previous then [blocked_primary_key_changed api_name (py_str previous) candidate] else [])
       @ (if mapping_changed digest backing next_backing then [warning_object_reindex api_name ''backing''] else []))))))"

definition single_object_migration_changes ::
  "(string \<Rightarrow> string) \<Rightarrow> string \<Rightarrow> dict \<Rightarrow> dict list \<Rightarrow> dict \<Rightarrow> (migration_change list \<times> reindex_operation option) result" where
  "single_object_migration_changes digest api_name current current_properties candidate =
     rbind (object_shape_changes digest api_name current candidate) (\<lambda>shape.
     rbind (property_definitions_by_api candidate) (\<lambda>candidate_properties.
     rbind (datasource_migration_changes api_name current current_properties candidate candidate_properties) (\<lambda>datasources.
     rbind (property_migration_changes api_name current_properties candidate) (\<lambda>(properties, reindex_fields).
     rbind (subscript_mapping current ''backing'') (\<lambda>backing. rbind (object_type_backing candidate) (\<lambda>next_backing.
     Inr (shape @ datasources @ properties, make_reindex_operation digest api_name
       (reindex_fields @ (if mapping_changed digest backing next_backing then [''backing''] else [])))))))))"

definition rows_of :: "(string \<times> dict list) list \<Rightarrow> string \<Rightarrow> dict list" where
  "rows_of rows api_name = (case map_of rows api_name of None \<Rightarrow> [] | Some ps \<Rightarrow> ps)"

definition object_migration_changes ::
  "(string \<Rightarrow> string) \<Rightarrow> (string \<times> dict) list \<Rightarrow> (string \<times> dict list) list \<Rightarrow> (string \<times> dict) list
   \<Rightarrow> (migration_change list \<times> reindex_operation list) result" where
  "object_migration_changes digest current_objects current_properties candidate_objects =
     rbind (map_result (\<lambda>(api_name, current). case map_of candidate_objects api_name of
         None \<Rightarrow> Inr ([blocked_object_removed api_name], None)
       | Some candidate \<Rightarrow> single_object_migration_changes digest api_name current (rows_of current_properties api_name) candidate)
       (sorted_items current_objects)) (\<lambda>walked.
     Inr (concat (map fst walked), concat (map (\<lambda>w. case snd w of None \<Rightarrow> [] | Some op \<Rightarrow> [op]) walked)))"

section \<open>Interfaces and functions\<close>

definition declared_names :: "dict list \<Rightarrow> string list result" where
  "declared_names = map_result (\<lambda>p. mg_required_str p ''apiName'')"

definition interface_row_property_names :: "dict \<Rightarrow> string list result" where
  "interface_row_property_names row =
     rbind (subscript_mapping row ''definition'') (\<lambda>d. rbind (mg_mapping_sequence d ''properties'') declared_names)"

definition added_changes :: "(string \<Rightarrow> migration_change) \<Rightarrow> (string \<times> 'a) list \<Rightarrow> (string \<times> 'b) list \<Rightarrow> migration_change list" where
  "added_changes change currents candidates = map change (filter (\<lambda>n. \<not> has_key currents n) (sort (dkeys candidates)))"

definition interface_migration_changes :: "(string \<times> dict) list \<Rightarrow> dict \<Rightarrow> migration_change list result" where
  "interface_migration_changes current_interfaces defn =
     rbind (interface_definitions_by_api defn) (\<lambda>candidates.
     rbind (collect (\<lambda>(api_name, current). case map_of candidates api_name of
         None \<Rightarrow> Inr [blocked_interface_removed api_name]
       | Some candidate \<Rightarrow>
           rbind (mg_mapping_sequence candidate ''properties'') (\<lambda>ps. rbind (declared_names ps) (\<lambda>names.
           rbind (interface_row_property_names current) (\<lambda>previous.
           Inr (map (blocked_interface_property_removed api_name) (filter (\<lambda>n. n \<notin> set names) previous))))))
       (sorted_items current_interfaces)) (\<lambda>cs.
     Inr (cs @ added_changes warning_interface_added current_interfaces candidates)))"

definition implements_migration_changes :: "(string \<times> dict) list \<Rightarrow> (string \<times> dict) list \<Rightarrow> migration_change list result" where
  "implements_migration_changes current_objects candidate_objects =
     collect (\<lambda>(api_name, current). case map_of candidate_objects api_name of
         None \<Rightarrow> Inr []
       | Some candidate \<Rightarrow>
           rbind (subscript_mapping current ''config'') (\<lambda>config. rbind (string_items (get_val config ''implements'')) (\<lambda>previous.
           rbind (string_items (get_val candidate ''implements'')) (\<lambda>next'.
           Inr (map (blocked_implements_removed api_name) (sorted_names (\<lambda>n. n \<notin> set next') previous)
             @ map (warning_implements_added api_name) (sorted_names (\<lambda>n. n \<notin> set previous) next'))))))
       (sorted_items current_objects)"

definition function_migration_changes :: "(string \<Rightarrow> string) \<Rightarrow> (string \<times> dict) list \<Rightarrow> dict \<Rightarrow> migration_change list result" where
  "function_migration_changes digest current_functions defn =
     rbind (definitions_by_api ''functionTypes'' ''duplicate function apiName'' defn) (\<lambda>raw_candidates.
     rbind (map_result (\<lambda>(api_name, item). rbind (normalized_function_definition item) (\<lambda>n. Inr (api_name, n))) raw_candidates) (\<lambda>candidates.
     rbind (collect (\<lambda>(api_name, current). case map_of candidates api_name of
         None \<Rightarrow> Inr [blocked_function_removed api_name]
       | Some candidate \<Rightarrow> rbind (subscript_mapping current ''definition'') (\<lambda>d.
           Inr (if mapping_changed digest d candidate then [warning_function_definition_changed api_name] else [])))
       (sorted_items current_functions)) (\<lambda>cs.
     Inr (cs @ added_changes warning_function_added current_functions candidates))))"

section \<open>Links\<close>

definition single_link_migration_changes :: "(string \<Rightarrow> string) \<Rightarrow> string \<Rightarrow> dict \<Rightarrow> dict \<Rightarrow> migration_change list result" where
  "single_link_migration_changes digest api_name current candidate =
     rbind (mg_required_str candidate ''from'') (\<lambda>from_name. rbind (subscript current ''from_api_name'') (\<lambda>previous_from.
     rbind (if PStr from_name \<noteq> previous_from then Inr True
       else rbind (mg_required_str candidate ''to'') (\<lambda>to_name. rbind (subscript current ''to_api_name'') (\<lambda>previous_to.
         Inr (PStr to_name \<noteq> previous_to)))) (\<lambda>is_moved.
     rbind (change_if is_moved (blocked_link_endpoint_changed api_name current candidate)) (\<lambda>endpoints.
     rbind (mg_optional_str candidate ''cardinality'' (PStr ''many_to_one'')) (\<lambda>cardinality.
     rbind (subscript current ''cardinality'') (\<lambda>previous_cardinality.
     rbind (subscript_mapping current ''backing'') (\<lambda>backing. rbind (link_type_backing candidate) (\<lambda>next_backing.
     Inr (endpoints @ (if cardinality \<noteq> previous_cardinality then [blocked_link_cardinality_changed api_name] else [])
       @ (if mapping_changed digest backing next_backing then [blocked_link_backing_changed api_name backing next_backing] else []))))))))))"

definition link_migration_changes ::
  "(string \<Rightarrow> string) \<Rightarrow> (string \<times> dict) list \<Rightarrow> (string \<times> dict) list \<Rightarrow> migration_change list result" where
  "link_migration_changes digest current_links candidate_links =
     collect (\<lambda>(api_name, current). case map_of candidate_links api_name of
         None \<Rightarrow> Inr [blocked_link_removed api_name]
       | Some candidate \<Rightarrow> single_link_migration_changes digest api_name current candidate) (sorted_items current_links)"

section \<open>Actions\<close>

definition current_action_parameters :: "dict \<Rightarrow> dict list result" where
  "current_action_parameters action = rbind (subscript_mapping action ''definition'') (\<lambda>d.
     case get_or (PList []) d ''parameters'' of PList items \<Rightarrow> map_result as_mapping items
     | _ \<Rightarrow> rbind (subscript action ''api_name'') (\<lambda>_. Inl (ValidationFailed ''persisted action parameters must be a list'')))"

definition parameter_required :: "dict \<Rightarrow> bool" where
  "parameter_required parameter \<longleftrightarrow> get_val parameter ''required'' = PBool True"

definition changed_parameter_changes :: "string \<Rightarrow> string \<Rightarrow> dict \<Rightarrow> dict \<Rightarrow> migration_change list result" where
  "changed_parameter_changes action_api_name api_name current candidate =
     rbind (mg_required_str candidate ''type'') (\<lambda>data_type. rbind (mg_required_str current ''type'') (\<lambda>previous.
     Inr ((if data_type \<noteq> previous then [blocked_parameter_type_changed action_api_name api_name current candidate] else [])
       @ (if \<not> parameter_required current \<and> parameter_required candidate then [blocked_parameter_became_required action_api_name api_name] else [])
       @ (if parameter_required current \<and> \<not> parameter_required candidate
          then [warning_parameter_became_optional action_api_name api_name] else []))))"

definition removed_or_changed_parameter_changes ::
  "string \<Rightarrow> (string \<times> dict) list \<Rightarrow> (string \<times> dict) list \<Rightarrow> migration_change list result" where
  "removed_or_changed_parameter_changes action_api_name current_params candidate_params =
     collect (\<lambda>(api_name, current). case map_of candidate_params api_name of
         None \<Rightarrow> Inr [blocked_parameter_removed action_api_name api_name]
       | Some candidate \<Rightarrow> changed_parameter_changes action_api_name api_name current candidate) (sorted_items current_params)"

definition added_parameter_changes :: "string \<Rightarrow> (string \<times> dict) list \<Rightarrow> (string \<times> dict) list \<Rightarrow> migration_change list" where
  "added_parameter_changes action_api_name current_params candidate_params =
     concat (map (\<lambda>(api_name, candidate). if has_key current_params api_name then []
       else if parameter_required candidate then [blocked_required_parameter_added action_api_name api_name]
       else [warning_optional_parameter_added action_api_name api_name]) (sorted_items candidate_params))"

definition parameter_migration_changes :: "string \<Rightarrow> dict \<Rightarrow> dict \<Rightarrow> migration_change list result" where
  "parameter_migration_changes action_api_name current candidate =
     rbind (rbind (current_action_parameters current) parameter_definitions_by_api) (\<lambda>current_params.
     rbind (rbind (mg_mapping_sequence candidate ''parameters'') parameter_definitions_by_api) (\<lambda>candidate_params.
     rbind (removed_or_changed_parameter_changes action_api_name current_params candidate_params) (\<lambda>cs.
     Inr (cs @ added_parameter_changes action_api_name current_params candidate_params))))"

definition single_action_migration_changes :: "string \<Rightarrow> dict \<Rightarrow> dict \<Rightarrow> migration_change list result" where
  "single_action_migration_changes api_name current candidate =
     rbind (mg_required_str candidate ''target'') (\<lambda>target. rbind (subscript current ''target_api_name'') (\<lambda>previous.
     rbind (parameter_migration_changes api_name current candidate) (\<lambda>params.
     Inr ((if PStr target \<noteq> previous then [blocked_action_target_changed api_name (py_str previous) target] else []) @ params))))"

definition action_migration_changes :: "(string \<times> dict) list \<Rightarrow> (string \<times> dict) list \<Rightarrow> migration_change list result" where
  "action_migration_changes current_actions candidate_actions =
     collect (\<lambda>(api_name, current). case map_of candidate_actions api_name of
         None \<Rightarrow> Inr [blocked_action_removed api_name]
       | Some candidate \<Rightarrow> single_action_migration_changes api_name current candidate) (sorted_items current_actions)"

section \<open>The plan\<close>

text \<open>The active ontology as the rows the plan is built from.\<close>

record ontology_rows =
  ow_objects :: "(string \<times> dict) list"
  ow_properties :: "(string \<times> dict list) list"
  ow_links :: "dict list"
  ow_actions :: "dict list"
  ow_interfaces :: "dict list"
  ow_functions :: "dict list"

definition build_ontology_migration_plan ::
  "(string \<Rightarrow> string) \<Rightarrow> string option \<Rightarrow> ontology_rows \<Rightarrow> dict \<Rightarrow> migration_plan result" where
  "build_ontology_migration_plan digest source current defn =
     rbind (object_definitions_by_api defn) (\<lambda>candidate_objects.
     rbind (link_definitions_by_api defn) (\<lambda>candidate_links.
     rbind (action_definitions_by_api defn) (\<lambda>candidate_actions.
     rbind (object_migration_changes digest (ow_objects current) (ow_properties current) candidate_objects) (\<lambda>(object_changes, operations).
     rbind (rbind (interface_rows_by_api (ow_interfaces current)) (\<lambda>rows. interface_migration_changes rows defn)) (\<lambda>interfaces.
     rbind (implements_migration_changes (ow_objects current) candidate_objects) (\<lambda>implements.
     rbind (rbind (function_rows_by_api (ow_functions current)) (\<lambda>rows. function_migration_changes digest rows defn)) (\<lambda>functions.
     rbind (rbind (link_rows_by_api (ow_links current)) (\<lambda>rows. link_migration_changes digest rows candidate_links)) (\<lambda>links.
     rbind (rbind (action_rows_by_api (ow_actions current)) (\<lambda>rows. action_migration_changes rows candidate_actions)) (\<lambda>actions.
     Inr \<lparr>mp_source = source, mp_changes = object_changes @ interfaces @ implements @ functions @ links @ actions,
       mp_reindex = operations\<rparr>)))))))))"

section \<open>Rows by name, and loops over them\<close>

lemma named_rows:
  assumes "fold_result (\<lambda>row d. rbind (key row) (\<lambda>n. if has_key d n then Inl e else Inr (dput n row d))) rows d0 = Inr d"
  shows "(\<forall>n row. map_of d0 n = Some row \<longrightarrow> map_of d n = Some row)
    \<and> (\<forall>row \<in> set rows. \<exists>n. key row = Inr n \<and> map_of d n = Some row)
    \<and> (\<forall>n row. map_of d n = Some row \<longrightarrow> map_of d0 n = Some row \<or> row \<in> set rows \<and> key row = Inr n)"
  using assms
proof (induction rows arbitrary: d0)
  case (Cons row rows)
  then obtain n where n: "key row = Inr n" "map_of d0 n = None"
    and rest: "fold_result (\<lambda>row d. rbind (key row) (\<lambda>n. if has_key d n then Inl e else Inr (dput n row d))) rows (dput n row d0) = Inr d"
    by (auto simp: rbind_eq_Inr has_key_map_of split: if_splits)
  note IH = Cons.IH [OF rest]
  have "map_of d n = Some row" using IH by simp
  moreover have "map_of d m = Some r" if "map_of d0 m = Some r" for m r
    using IH that n(2) by (metis map_of_dput fun_upd_apply option.distinct(1))
  moreover have "map_of d0 m = Some r \<or> r \<in> set (row # rows) \<and> key r = Inr m" if "map_of d m = Some r" for m r
  proof -
    from IH that have "map_of (dput n row d0) m = Some r \<or> r \<in> set rows \<and> key r = Inr m" by blast
    then show ?thesis using n(1) by (auto split: if_splits)
  qed
  ultimately show ?case using IH n(1) by auto
qed simp

lemma yaml_rows_named:
  assumes "yaml_rows_by_api message rows = Inr d"
  shows "row \<in> set rows \<Longrightarrow> \<exists>n. mg_required_str row ''apiName'' = Inr n \<and> map_of d n = Some row"
    "map_of d n = Some row \<Longrightarrow> row \<in> set rows \<and> mg_required_str row ''apiName'' = Inr n"
  using named_rows [OF assms [unfolded yaml_rows_by_api_def]] by auto

lemma api_rows_named:
  assumes "rows_by_api message rows = Inr d" "row \<in> set rows"
  shows "\<exists>v. subscript row ''api_name'' = Inr v \<and> map_of d (py_str v) = Some row"
proof -
  have "(\<lambda>row d. rbind (subscript row ''api_name'') (\<lambda>v. if has_key d (py_str v) then Inl (ValidationFailed message) else Inr (dput (py_str v) row d)))
      = (\<lambda>row d. rbind (rbind (subscript row ''api_name'') (\<lambda>v. Inr (py_str v)))
        (\<lambda>n. if has_key d n then Inl (ValidationFailed message) else Inr (dput n row d)))"
    by (simp add: rbind_assoc)
  from named_rows [OF assms(1) [unfolded rows_by_api_def this]] assms(2) show ?thesis by (auto simp: rbind_eq_Inr)
qed

lemma collect_unblocked: "collect f xs = Inr cs \<Longrightarrow> unblocked cs \<Longrightarrow> x \<in> set xs \<Longrightarrow> \<exists>c. f x = Inr c \<and> unblocked c"
  unfolding collect_def rbind_eq_Inr using map_result_source by (fastforce simp: unblocked_concat)

lemma set_sorted_items [simp]: "set (sorted_items d) = set d"
  by (simp add: sorted_items_def)

lemma set_sorted_names [simp]: "set (sorted_names P ns) = {n \<in> set ns. P n}"
  by (auto simp: sorted_names_def)

lemma subscript_Inr: "subscript row key = Inr v \<longleftrightarrow> map_of row key = Some v"
  by (auto simp: subscript_def split: option.splits)

lemma subscript_get_val: "subscript row key = Inr v \<Longrightarrow> get_val row key = v"
  by (simp add: subscript_Inr)

lemma as_mapping_Inr: "as_mapping v = Inr d \<longleftrightarrow> v = PDict d"
  by (cases v) (auto simp: as_mapping_def)

lemma subscript_mapping_Inr: "subscript_mapping row key = Inr d \<longleftrightarrow> map_of row key = Some (PDict d)"
  by (auto simp: subscript_mapping_def subscript_Inr rbind_eq_Inr as_mapping_Inr)

lemma mg_optional_str_get_or: "mg_optional_str m key d = Inr v \<Longrightarrow> get_or d m key = v"
  by (auto simp: mg_optional_str_def split: pyval.splits)

lemma mg_required_str_get_val: "mg_required_str m key = Inr s \<Longrightarrow> get_val m key = PStr s"
  by (auto simp: mg_required_str_def rbind_eq_Inr split: option.splits dest: mg_optional_str_get_or)

lemma change_if_unblocked: "change_if b c = Inr cs \<Longrightarrow> (\<And>x. c = Inr x \<Longrightarrow> mc_status x = ''blocked'') \<Longrightarrow> unblocked cs \<Longrightarrow> \<not> b"
  by (auto simp: change_if_def rbind_eq_Inr split: if_splits)

section \<open>What an unblocked plan keeps of an object type\<close>

definition implemented :: "pyval \<Rightarrow> string set" where
  "implemented v = (case v of PList items \<Rightarrow> py_str ` set items | _ \<Rightarrow> {})"

lemma string_items_set: "string_items v = Inr names \<Longrightarrow> implemented v = set names"
  by (auto simp: string_items_def implemented_def split: pyval.splits)

definition property_kept :: "dict \<Rightarrow> dict \<Rightarrow> bool" where
  "property_kept p candidate \<longleftrightarrow> (\<exists>properties n q. property_definitions_by_api candidate = Inr properties
     \<and> get_val p ''api_name'' = PStr n \<and> map_of properties n = Some q \<and> get_val q ''type'' = get_val p ''data_type''
     \<and> rename_source q = Inr None)"

text \<open>The datasets of an object type with several datasources stay bound to their segments.\<close>

definition datasources_kept :: "dict \<Rightarrow> dict \<Rightarrow> bool" where
  "datasources_kept row candidate \<longleftrightarrow> (is_multi_datasource_backing (backing_of row) \<longrightarrow>
     (\<exists>currents candidates. backing_datasources (backing_of row) = Inr currents \<and> backing_datasources (backing_of candidate) = Inr candidates
      \<and> (\<forall>name s. map_of (segments_by_name currents) name = Some s \<longrightarrow>
          (\<exists>t. map_of (segments_by_name candidates) name = Some t \<and> sg_dataset_ref t = sg_dataset_ref s))))"

definition object_kept :: "dict \<Rightarrow> dict list \<Rightarrow> dict \<Rightarrow> bool" where
  "object_kept row properties candidate \<longleftrightarrow>
     get_val candidate ''primaryKey'' = get_val row ''primary_key_property''
     \<and> (\<forall>p \<in> set properties. property_kept p candidate)
     \<and> datasources_kept row candidate
     \<and> (\<exists>config. get_val row ''config'' = PDict config
        \<and> implemented (get_val config ''implements'') \<subseteq> implemented (get_val candidate ''implements''))"

lemma shape_kept:
  assumes "object_shape_changes digest n row c = Inr cs" "unblocked cs"
  shows "get_val c ''primaryKey'' = get_val row ''primary_key_property''"
  using assms by (auto simp: object_shape_changes_def rbind_eq_Inr blocked_change_defs
      dest!: mg_required_str_get_val subscript_get_val split: if_splits)

lemma unblocked_map_blocked: "unblocked (map f xs) \<Longrightarrow> (\<And>x. mc_status (f x) = ''blocked'') \<Longrightarrow> xs = []"
  by (cases xs) auto

lemma segments_kept:
  assumes "segment_shape_changes n backing currents candidates = Inr cs" "unblocked cs" "is_multi_datasource_backing backing"
    "map_of (segments_by_name currents) name = Some s"
  shows "\<exists>t. map_of (segments_by_name candidates) name = Some t \<and> sg_dataset_ref t = sg_dataset_ref s"
proof -
  let ?cs = "segments_by_name currents" and ?ts = "segments_by_name candidates"
  from assms(3) have "implicit_rename_pairs backing currents ?ts candidates = Inr []" by (simp add: implicit_rename_pairs_def)
  with assms(1) obtain removed common rest where parts:
    "removed = map (blocked_datasource_removed n) (sorted_names (\<lambda>m. \<not> has_key ?ts m \<and> \<not> has_key ([] :: (string \<times> string) list) m) (dkeys ?cs))"
    "collect (\<lambda>m. compare_segments n ?cs ?ts (m, m)) (sorted_names (has_key ?ts) (dkeys ?cs)) = Inr common"
    "unblocked removed" "unblocked common"
    using assms(2) by (auto simp: segment_shape_changes_def Let_def rbind_eq_Inr)
  have "sorted_names (\<lambda>m. \<not> has_key ?ts m \<and> \<not> has_key ([] :: (string \<times> string) list) m) (dkeys ?cs) = []"
    using unblocked_map_blocked [OF parts(3) [unfolded parts(1)]] by (simp add: blocked_datasource_removed_def)
  then have none: "{m \<in> set (dkeys ?cs). \<not> has_key ?ts m \<and> \<not> has_key ([] :: (string \<times> string) list) m} = {}"
    by (metis set_sorted_names list.set(1))
  have name: "name \<in> set (dkeys ?cs)" by (rule map_of_in_dkeys [OF assms(4)])
  with none have kept: "has_key ?ts name" by (auto simp: has_key_def)
  with name collect_unblocked [OF parts(2,4), of name] obtain c where c: "compare_segments n ?cs ?ts (name, name) = Inr c" "unblocked c" by auto
  from kept obtain t where t: "map_of ?ts name = Some t" by (auto simp: has_key_map_of)
  with c assms(4) have "unblocked (common_segment_changes n s t)" by (auto simp: compare_segments_def segment_named_def)
  then have "sg_dataset_ref t = sg_dataset_ref s"
    by (auto simp: common_segment_changes_def blocked_datasource_dataset_changed_def split: if_splits)
  with t show ?thesis by blast
qed

lemma datasources_unblocked:
  assumes "datasource_migration_changes n row rows c ps = Inr cs" "unblocked cs"
  shows "datasources_kept row c"
proof (cases "is_multi_datasource_backing (backing_of row)")
  case True
  with assms obtain currents candidates shape moved where parts: "backing_datasources (backing_of row) = Inr currents"
    "backing_datasources (backing_of c) = Inr candidates" "segment_shape_changes n (backing_of row) currents candidates = Inr shape"
    "cs = shape @ moved" unfolding datasource_migration_changes_def Let_def by (auto simp: rbind_eq_Inr)
  with segments_kept [OF parts(3) _ True] assms(2) show ?thesis by (simp add: datasources_kept_def)
qed (simp add: datasources_kept_def)

lemma in_names_True: "in_names v names = Inr True \<longleftrightarrow> (\<exists>n. v = PStr n \<and> n \<in> set names)"
  by (cases v) (auto simp: in_names_def)

text \<open>A name that is kept out of the removed ones by a rename is the source of some candidate's rename.\<close>

lemma property_rename_sources_name:
  "property_rename_sources ps = Inr d \<Longrightarrow> s \<in> set (dkeys d) \<Longrightarrow> \<exists>(n, p) \<in> set ps. rename_source p = Inr (Some s)"
proof -
  have "fold_result (\<lambda>(api_name, p) d. rbind (rename_source p) (\<lambda>source. Inr (case source of None \<Rightarrow> d | Some s \<Rightarrow> dput s api_name d))) ps d0 = Inr d \<Longrightarrow>
    s \<in> set (dkeys d) \<Longrightarrow> s \<in> set (dkeys d0) \<or> (\<exists>(n, p) \<in> set ps. rename_source p = Inr (Some s))" for d0
    by (induction ps arbitrary: d0) (fastforce simp: rbind_eq_Inr split: option.splits)+
  then show "property_rename_sources ps = Inr d \<Longrightarrow> s \<in> set (dkeys d) \<Longrightarrow> \<exists>(n, p) \<in> set ps. rename_source p = Inr (Some s)"
    unfolding property_rename_sources_def by fastforce
qed

lemma candidate_property_unblocked:
  assumes "candidate_property_changes obj n current q = Inr cs" "unblocked cs"
  shows "rename_source q = Inr None"
    "current = Some row \<Longrightarrow> get_val q ''type'' = get_val row ''data_type''"
proof -
  from assms(1) obtain renamed where renamed: "rename_source q = Inr renamed" by (auto simp: candidate_property_changes_def rbind_eq_Inr)
  have "renamed = None"
  proof (cases renamed)
    case (Some s)
    with assms renamed show ?thesis
      by (cases current) (auto simp: candidate_property_changes_def Let_def blocked_change_defs rbind_eq_Inr)
  qed simp
  with renamed show "rename_source q = Inr None" by simp
  assume "current = Some row"
  with assms renamed \<open>renamed = None\<close> obtain t previous retyped where
    t: "mg_required_str q ''type'' = Inr t" "subscript row ''data_type'' = Inr previous"
    and retyped: "change_if (PStr t \<noteq> previous) (blocked_property_type_change obj n row q) = Inr retyped" "unblocked retyped"
    by (auto simp: candidate_property_changes_def rbind_eq_Inr)
  have "PStr t = previous"
  proof (rule ccontr)
    assume "PStr t \<noteq> previous"
    moreover have "mc_status x = ''blocked''" if "blocked_property_type_change obj n row q = Inr x" for x
      using that by (auto simp: blocked_property_type_change_def rbind_eq_Inr)
    ultimately show False using change_if_unblocked [OF retyped(1) _ retyped(2)] by blast
  qed
  then show "get_val q ''type'' = get_val row ''data_type''"
    using mg_required_str_get_val [OF t(1)] subscript_get_val [OF t(2)] by simp
qed

lemma property_by_api_lookup:
  assumes "property_by_api rows = Inr currents" "distinct (map (\<lambda>p. get_val p ''api_name'') rows)"
    "\<forall>p \<in> set rows. \<exists>n. get_val p ''api_name'' = PStr n" "p \<in> set rows" "get_val p ''api_name'' = PStr n"
  shows "map_of currents n = Some p"
proof -
  from assms(1) obtain pairs where pairs: "map_result (\<lambda>row. rbind (subscript row ''api_name'') (\<lambda>v. Inr (py_str v, row))) rows = Inr pairs"
    and currents: "currents = dupdate [] pairs" by (auto simp: property_by_api_def rbind_eq_Inr)
  from pairs have pairs_eq: "pairs = map (\<lambda>p. (py_str (get_val p ''api_name''), p)) rows"
    by (induction rows arbitrary: pairs) (auto simp: rbind_eq_Inr subscript_Inr)
  have "inj_on py_str (set (map (\<lambda>p. get_val p ''api_name'') rows))"
  proof (rule inj_onI)
    fix v w
    assume v: "v \<in> set (map (\<lambda>p. get_val p ''api_name'') rows)" and w: "w \<in> set (map (\<lambda>p. get_val p ''api_name'') rows)"
      and same: "py_str v = py_str w"
    from v w assms(3) obtain a b where "v = PStr a" "w = PStr b" by fastforce
    with same show "v = w" by simp
  qed
  with assms(2) have "distinct (map py_str (map (\<lambda>p. get_val p ''api_name'') rows))" unfolding distinct_map [of py_str] by blast
  then have "distinct (map fst (rev pairs))" by (simp add: pairs_eq comp_def rev_map [symmetric] del: distinct_map)
  moreover have "(n, p) \<in> set (rev pairs)" using assms(4,5) by (force simp: pairs_eq)
  ultimately have "map_of (rev pairs) n = Some p" by simp
  then show ?thesis by (simp add: currents)
qed

lemma properties_kept:
  assumes "property_migration_changes obj rows c = Inr (cs, changed)" "unblocked cs"
    "distinct (map (\<lambda>p. get_val p ''api_name'') rows)" "p \<in> set rows"
  shows "property_kept p c"
proof -
  let ?walk = "\<lambda>(n, q). rbind (property_by_api rows) (\<lambda>currents. rbind (candidate_property_changes obj n (map_of currents n) q) (\<lambda>cs.
      rbind (property_requires_reindex (map_of currents n) q) (\<lambda>needs_reindex. Inr (cs, if needs_reindex then [''properties.'' @ n] else []))))"
  from assms(1) obtain ps sources removed walked where parts: "property_definitions_by_api c = Inr ps" "property_rename_sources ps = Inr sources"
    "removed_property_changes obj rows ps sources = Inr removed" "map_result ?walk (sorted_items ps) = Inr walked"
    and cs: "cs = removed @ concat (map fst walked)" unfolding property_migration_changes_def by (elim rbind_InrE) auto
  have walk: "rename_source q = Inr None \<and> (\<forall>currents row. property_by_api rows = Inr currents \<longrightarrow> map_of currents n = Some row \<longrightarrow>
      get_val q ''type'' = get_val row ''data_type'')" if q: "(n, q) \<in> set ps" for n q
  proof -
    from map_result_source [OF parts(4)] q obtain w where w: "w \<in> set walked" "?walk (n, q) = Inr w" by fastforce
    then obtain currents qs where qs: "property_by_api rows = Inr currents" "candidate_property_changes obj n (map_of currents n) q = Inr qs" "fst w = qs"
      by (auto simp: rbind_eq_Inr)
    have "unblocked qs" using assms(2) w(1) qs(3) by (auto simp: cs unblocked_concat)
    from candidate_property_unblocked [OF qs(2) this] qs(1) show ?thesis by simp
  qed
  have named: "\<exists>n. get_val p ''api_name'' = PStr n \<and> has_key ps n" if p: "p \<in> set rows" for p
  proof -
    have "unblocked removed" using assms(2) by (simp add: cs)
    from collect_unblocked [OF parts(3) [unfolded removed_property_changes_def] this p] obtain v kept accounted where
      v: "subscript p ''api_name'' = Inr v" "in_names v (dkeys ps) = Inr kept"
      "(if kept then Inr True else in_names v (dkeys sources)) = Inr accounted" "accounted"
      by (auto simp: rbind_eq_Inr blocked_change_defs split: if_splits)
    have "kept"
    proof (rule ccontr)
      assume "\<not> kept"
      with v(3,4) obtain s where "s \<in> set (dkeys sources)" by (auto simp: in_names_True)
      from property_rename_sources_name [OF parts(2) this] walk show False by fastforce
    qed
    with v(2) obtain n where "v = PStr n" "n \<in> set (dkeys ps)" by (auto simp: in_names_True)
    with subscript_get_val [OF v(1)] show ?thesis by (auto simp: has_key_def)
  qed
  from named [OF assms(4)] obtain n q where n: "get_val p ''api_name'' = PStr n" "map_of ps n = Some q" by (auto simp: has_key_map_of)
  from n(2) have q: "(n, q) \<in> set ps" by (rule map_of_SomeD)
  with parts(4) obtain currents where currents: "property_by_api rows = Inr currents"
    using map_result_source [OF parts(4)] by (fastforce simp: rbind_eq_Inr)
  have "map_of currents n = Some p"
    by (rule property_by_api_lookup [OF currents assms(3) _ assms(4) n(1)]) (use named in blast)
  with walk [OF q] currents n parts(1) show ?thesis unfolding property_kept_def by blast
qed

lemma single_object_unblocked:
  assumes "single_object_migration_changes digest n row rows c = Inr (cs, op)" "unblocked cs"
    "distinct (map (\<lambda>p. get_val p ''api_name'') rows)"
  shows "get_val c ''primaryKey'' = get_val row ''primary_key_property'' \<and> datasources_kept row c \<and> (\<forall>p \<in> set rows. property_kept p c)"
proof -
  from assms(1) obtain shape ds cps pcs changed where "object_shape_changes digest n row c = Inr shape"
    "datasource_migration_changes n row rows c cps = Inr ds" "property_migration_changes n rows c = Inr (pcs, changed)" "cs = shape @ ds @ pcs"
    unfolding single_object_migration_changes_def by (elim rbind_InrE) (auto simp: rbind_eq_Inr)
  with assms(2,3) shape_kept properties_kept datasources_unblocked show ?thesis by simp
qed

lemma objects_unblocked:
  assumes "object_migration_changes digest objects properties candidates = Inr (cs, ops)" "unblocked cs" "(n, row) \<in> set objects"
    "distinct (map (\<lambda>p. get_val p ''api_name'') (rows_of properties n))"
  shows "\<exists>c. map_of candidates n = Some c \<and> get_val c ''primaryKey'' = get_val row ''primary_key_property''
    \<and> datasources_kept row c \<and> (\<forall>p \<in> set (rows_of properties n). property_kept p c)"
proof -
  let ?walk = "\<lambda>(n, row). case map_of candidates n of None \<Rightarrow> Inr ([blocked_object_removed n], None)
    | Some c \<Rightarrow> single_object_migration_changes digest n row (rows_of properties n) c"
  from assms(1) obtain walked where walked: "map_result ?walk (sorted_items objects) = Inr walked" "cs = concat (map fst walked)"
    unfolding object_migration_changes_def by (elim rbind_InrE) auto
  from map_result_source [OF walked(1)] assms(3) obtain w where w: "w \<in> set walked" "?walk (n, row) = Inr w" by fastforce
  have free: "unblocked (fst w)" using assms(2) w(1) by (auto simp: walked(2) unblocked_concat)
  then obtain c where c: "map_of candidates n = Some c"
    using w(2) by (cases "map_of candidates n") (auto simp: blocked_change_defs)
  with w(2) have "single_object_migration_changes digest n row (rows_of properties n) c = Inr (fst w, snd w)" by simp
  from single_object_unblocked [OF this free assms(4)] c show ?thesis by blast
qed

lemma implements_unblocked:
  assumes "implements_migration_changes objects candidates = Inr cs" "unblocked cs" "(n, row) \<in> set objects" "map_of candidates n = Some c"
  shows "\<exists>config. get_val row ''config'' = PDict config \<and> implemented (get_val config ''implements'') \<subseteq> implemented (get_val c ''implements'')"
proof -
  from collect_unblocked [OF assms(1) [unfolded implements_migration_changes_def] assms(2), of "(n, row)"] assms(3,4)
  obtain config previous next' where parts: "subscript_mapping row ''config'' = Inr config" "string_items (get_val config ''implements'') = Inr previous"
    "string_items (get_val c ''implements'') = Inr next'"
    and free: "unblocked (map (blocked_implements_removed n) (sorted_names (\<lambda>i. i \<notin> set next') previous))"
    by (auto simp: rbind_eq_Inr)
  from free have "sorted_names (\<lambda>i. i \<notin> set next') previous = []"
    by (cases "sorted_names (\<lambda>i. i \<notin> set next') previous") (auto simp: blocked_change_defs)
  then have "{i \<in> set previous. i \<notin> set next'} = {}" by (metis set_sorted_names list.set(1))
  with parts show ?thesis by (auto simp: subscript_mapping_Inr string_items_set)
qed

section \<open>Links, interfaces, functions\<close>

definition link_kept :: "(string \<Rightarrow> string) \<Rightarrow> dict \<Rightarrow> dict \<Rightarrow> bool" where
  "link_kept digest row candidate \<longleftrightarrow>
     get_val candidate ''from'' = get_val row ''from_api_name'' \<and> get_val candidate ''to'' = get_val row ''to_api_name''
     \<and> get_or (PStr ''many_to_one'') candidate ''cardinality'' = get_val row ''cardinality''
     \<and> (\<exists>backing next'. get_val row ''backing'' = PDict backing \<and> link_type_backing candidate = Inr next'
        \<and> \<not> mapping_changed digest backing next')"

lemma link_unblocked:
  assumes "single_link_migration_changes digest n row c = Inr cs" "unblocked cs"
  shows "link_kept digest row c"
proof -
  from assms(1) obtain from_name previous_from is_moved endpoints cardinality previous_cardinality backing next' where parts:
    "mg_required_str c ''from'' = Inr from_name" "subscript row ''from_api_name'' = Inr previous_from"
    "(if PStr from_name \<noteq> previous_from then Inr True
       else rbind (mg_required_str c ''to'') (\<lambda>to_name. rbind (subscript row ''to_api_name'') (\<lambda>previous_to.
         Inr (PStr to_name \<noteq> previous_to)))) = Inr is_moved"
    "change_if is_moved (blocked_link_endpoint_changed n row c) = Inr endpoints"
    "mg_optional_str c ''cardinality'' (PStr ''many_to_one'') = Inr cardinality" "subscript row ''cardinality'' = Inr previous_cardinality"
    "subscript_mapping row ''backing'' = Inr backing" "link_type_backing c = Inr next'"
    and cs: "cs = endpoints @ (if cardinality \<noteq> previous_cardinality then [blocked_link_cardinality_changed n] else [])
       @ (if mapping_changed digest backing next' then [blocked_link_backing_changed n backing next'] else [])"
    unfolding single_link_migration_changes_def by (elim rbind_InrE) auto
  have free: "unblocked endpoints" "cardinality = previous_cardinality" "\<not> mapping_changed digest backing next'"
    using assms(2) by (auto simp: cs blocked_change_defs split: if_splits)
  have "mc_status x = ''blocked''" if "blocked_link_endpoint_changed n row c = Inr x" for x
    using that by (auto simp: blocked_link_endpoint_changed_def rbind_eq_Inr)
  with change_if_unblocked [OF parts(4) _ free(1)] have "\<not> is_moved" by blast
  with parts(3) obtain to_name where "PStr from_name = previous_from" "mg_required_str c ''to'' = Inr to_name"
    "subscript row ''to_api_name'' = Inr (PStr to_name)" by (auto simp: rbind_eq_Inr split: if_splits)
  with parts(1,2,5-8) free show ?thesis
    by (auto simp: link_kept_def subscript_mapping_Inr dest!: mg_required_str_get_val mg_optional_str_get_or subscript_get_val)
qed

definition interface_kept :: "dict \<Rightarrow> dict \<Rightarrow> bool" where
  "interface_kept row candidate \<longleftrightarrow> (\<exists>previous properties names. interface_row_property_names row = Inr previous
     \<and> mg_mapping_sequence candidate ''properties'' = Inr properties \<and> declared_names properties = Inr names \<and> set previous \<subseteq> set names)"

lemma interfaces_unblocked:
  assumes "interface_migration_changes rows defn = Inr cs" "unblocked cs" "(n, row) \<in> set rows"
  shows "\<exists>ds c. interface_definitions_by_api defn = Inr ds \<and> map_of ds n = Some c \<and> interface_kept row c"
proof -
  let ?walk = "\<lambda>ds (n, row). case map_of ds n of None \<Rightarrow> Inr [blocked_interface_removed n]
       | Some c \<Rightarrow> rbind (mg_mapping_sequence c ''properties'') (\<lambda>ps. rbind (declared_names ps) (\<lambda>names.
           rbind (interface_row_property_names row) (\<lambda>previous.
           Inr (map (blocked_interface_property_removed n) (filter (\<lambda>i. i \<notin> set names) previous)))))"
  from assms(1) obtain ds walked where ds: "interface_definitions_by_api defn = Inr ds" "collect (?walk ds) (sorted_items rows) = Inr walked"
    and cs: "cs = walked @ added_changes warning_interface_added rows ds"
    unfolding interface_migration_changes_def by (elim rbind_InrE) auto
  have "unblocked walked" using assms(2) by (simp add: cs)
  from collect_unblocked [OF ds(2) this, of "(n, row)"] assms(3) obtain w where w: "?walk ds (n, row) = Inr w" "unblocked w" by auto
  then obtain c where c: "map_of ds n = Some c" by (cases "map_of ds n") (auto simp: blocked_change_defs)
  with w obtain ps names previous where "mg_mapping_sequence c ''properties'' = Inr ps" "declared_names ps = Inr names"
    "interface_row_property_names row = Inr previous" and free: "unblocked (map (blocked_interface_property_removed n) (filter (\<lambda>i. i \<notin> set names) previous))"
    by (auto simp: rbind_eq_Inr)
  moreover have "set previous \<subseteq> set names"
    using free by (auto simp: unblocked_def blocked_change_defs)
  ultimately show ?thesis using ds(1) c unfolding interface_kept_def by blast
qed

lemma functions_unblocked:
  assumes "function_migration_changes digest rows defn = Inr cs" "unblocked cs" "(n, row) \<in> set rows"
  shows "\<exists>ds c f. definitions_by_api ''functionTypes'' ''duplicate function apiName'' defn = Inr ds \<and> map_of ds n = Some c
    \<and> normalized_function_definition c = Inr f"
proof -
  let ?walk = "\<lambda>cs (n, row). case map_of cs n of None \<Rightarrow> Inr [blocked_function_removed n]
       | Some candidate \<Rightarrow> rbind (subscript_mapping row ''definition'') (\<lambda>d.
           Inr (if mapping_changed digest d candidate then [warning_function_definition_changed n] else []))"
  from assms(1) obtain ds fs walked where parts: "definitions_by_api ''functionTypes'' ''duplicate function apiName'' defn = Inr ds"
    "map_result (\<lambda>(n, item). rbind (normalized_function_definition item) (\<lambda>f. Inr (n, f))) ds = Inr fs"
    "collect (?walk fs) (sorted_items rows) = Inr walked"
    and cs: "cs = walked @ added_changes warning_function_added rows fs"
    unfolding function_migration_changes_def by (elim rbind_InrE) auto
  have "unblocked walked" using assms(2) by (simp add: cs)
  from collect_unblocked [OF parts(3) this, of "(n, row)"] assms(3) obtain w where "?walk fs (n, row) = Inr w" "unblocked w" by auto
  then obtain f where f: "map_of fs n = Some f" by (cases "map_of fs n") (auto simp: blocked_change_defs)
  have "map_result (\<lambda>(n, item). rbind (normalized_function_definition item) (\<lambda>f. Inr (n, f))) ds = Inr fs \<Longrightarrow> map_of fs n = Some f \<Longrightarrow>
    \<exists>c. map_of ds n = Some c \<and> normalized_function_definition c = Inr f" for ds fs
    by (induction ds arbitrary: fs) (auto simp: rbind_eq_Inr split: if_splits)
  with parts(1,2) f show ?thesis by blast
qed

lemma concat_mapI: "x \<in> set xs \<Longrightarrow> y \<in> set (f x) \<Longrightarrow> y \<in> set (concat (map f xs))"
  by auto

lemma unblocked_concat_map: "unblocked (concat (map f xs)) \<Longrightarrow> x \<in> set xs \<Longrightarrow> unblocked (f x)"
  by (auto simp: unblocked_concat)

section \<open>Actions\<close>

definition action_kept :: "dict \<Rightarrow> dict \<Rightarrow> bool" where
  "action_kept row candidate \<longleftrightarrow> get_val candidate ''target'' = get_val row ''target_api_name''
     \<and> (\<exists>ps qs. current_action_parameters row = Inr ps \<and> mg_mapping_sequence candidate ''parameters'' = Inr qs
        \<and> (\<forall>p \<in> set ps. \<exists>q \<in> set qs. get_val q ''apiName'' = get_val p ''apiName'' \<and> get_val q ''type'' = get_val p ''type'')
        \<and> (\<forall>q \<in> set qs. parameter_required q \<longrightarrow>
            (\<exists>p \<in> set ps. get_val p ''apiName'' = get_val q ''apiName'' \<and> parameter_required p)))"

lemma parameters_unblocked:
  assumes "parameter_migration_changes a row c = Inr cs" "unblocked cs" "get_val c ''target'' = get_val row ''target_api_name''"
  shows "action_kept row c"
proof -
  from assms(1) obtain ps currents qs candidates walked where parts:
    "current_action_parameters row = Inr ps" "parameter_definitions_by_api ps = Inr currents"
    "mg_mapping_sequence c ''parameters'' = Inr qs" "parameter_definitions_by_api qs = Inr candidates"
    "removed_or_changed_parameter_changes a currents candidates = Inr walked" "cs = walked @ added_parameter_changes a currents candidates"
    unfolding parameter_migration_changes_def by (elim rbind_InrE) auto
  note currents = yaml_rows_named [OF parts(2) [unfolded parameter_definitions_by_api_def]]
  note candidates = yaml_rows_named [OF parts(4) [unfolded parameter_definitions_by_api_def]]
  have free: "unblocked walked" "unblocked (added_parameter_changes a currents candidates)" using assms(2) by (simp_all add: parts(6))
  have same: "\<exists>q. map_of candidates n = Some q \<and> get_val q ''type'' = get_val p ''type'' \<and> (parameter_required q \<longrightarrow> parameter_required p)"
    if p: "map_of currents n = Some p" for n p
  proof -
    from map_of_SomeD [OF p] collect_unblocked [OF parts(5) [unfolded removed_or_changed_parameter_changes_def] free(1), of "(n, p)"]
    obtain w where w: "(case map_of candidates n of None \<Rightarrow> Inr [blocked_parameter_removed a n] | Some q \<Rightarrow> changed_parameter_changes a n p q) = Inr w"
      "unblocked w" by auto
    then obtain q where q: "map_of candidates n = Some q" by (cases "map_of candidates n") (auto simp: blocked_change_defs)
    with w obtain t where t: "mg_required_str q ''type'' = Inr t" "mg_required_str p ''type'' = Inr t"
      and kept: "parameter_required q \<longrightarrow> parameter_required p"
      by (auto simp: changed_parameter_changes_def rbind_eq_Inr blocked_change_defs split: if_splits)
    show ?thesis using q kept mg_required_str_get_val [OF t(1)] mg_required_str_get_val [OF t(2)] by simp
  qed
  have "\<exists>q \<in> set qs. get_val q ''apiName'' = get_val p ''apiName'' \<and> get_val q ''type'' = get_val p ''type''" if "p \<in> set ps" for p
  proof -
    from currents(1) [OF that] obtain n where n: "mg_required_str p ''apiName'' = Inr n" "map_of currents n = Some p" by blast
    from same [OF n(2)] obtain q where q: "map_of candidates n = Some q" "get_val q ''type'' = get_val p ''type''" by blast
    from candidates(2) [OF q(1)] have "q \<in> set qs" "mg_required_str q ''apiName'' = Inr n" by simp_all
    with q(2) mg_required_str_get_val [OF n(1)] show ?thesis by (auto dest: mg_required_str_get_val)
  qed
  moreover have "\<exists>p \<in> set ps. get_val p ''apiName'' = get_val q ''apiName'' \<and> parameter_required p"
    if "q \<in> set qs" "parameter_required q" for q
  proof -
    from candidates(1) [OF that(1)] obtain n where n: "mg_required_str q ''apiName'' = Inr n" "map_of candidates n = Some q" by blast
    have "has_key currents n"
    proof (rule ccontr)
      assume "\<not> has_key currents n"
      with that(2) unblocked_concat_map [OF free(2) [unfolded added_parameter_changes_def], of "(n, q)"] map_of_SomeD [OF n(2)]
      have "unblocked [blocked_required_parameter_added a n]" by simp
      then show False by (simp add: blocked_change_defs)
    qed
    then obtain p where p: "map_of currents n = Some p" by (auto simp: has_key_map_of)
    from same [OF p] n(2) that(2) have "parameter_required p" by auto
    moreover from currents(2) [OF p] have "p \<in> set ps" "mg_required_str p ''apiName'' = Inr n" by simp_all
    ultimately show ?thesis using mg_required_str_get_val [OF n(1)] by (auto dest: mg_required_str_get_val)
  qed
  ultimately show ?thesis using assms(3) parts(1,3) unfolding action_kept_def by blast
qed

lemma action_unblocked:
  assumes "single_action_migration_changes n row c = Inr cs" "unblocked cs"
  shows "action_kept row c"
proof -
  from assms(1) obtain target previous params where parts: "mg_required_str c ''target'' = Inr target" "subscript row ''target_api_name'' = Inr previous"
    "parameter_migration_changes n row c = Inr params"
    "cs = (if PStr target \<noteq> previous then [blocked_action_target_changed n (py_str previous) target] else []) @ params"
    unfolding single_action_migration_changes_def by (elim rbind_InrE) auto
  then have "PStr target = previous" "unblocked params" using assms(2) by (auto simp: blocked_change_defs split: if_splits)
  with parameters_unblocked [OF parts(3)] mg_required_str_get_val [OF parts(1)] subscript_get_val [OF parts(2)] show ?thesis by simp
qed

section \<open>A plan without blocking changes is backward compatible\<close>

definition persisted_name :: "dict \<Rightarrow> string" where
  "persisted_name row = py_str (get_val row ''api_name'')"

definition backward_compatible :: "(string \<Rightarrow> string) \<Rightarrow> ontology_rows \<Rightarrow> dict \<Rightarrow> bool" where
  "backward_compatible digest current defn \<longleftrightarrow>
     (\<exists>ds. object_definitions_by_api defn = Inr ds \<and> (\<forall>(n, row) \<in> set (ow_objects current).
        \<exists>c. map_of ds n = Some c \<and> object_kept row (rows_of (ow_properties current) n) c))
     \<and> (\<exists>ds. link_definitions_by_api defn = Inr ds \<and> (\<forall>row \<in> set (ow_links current).
        \<exists>c. map_of ds (persisted_name row) = Some c \<and> link_kept digest row c))
     \<and> (\<exists>ds. action_definitions_by_api defn = Inr ds \<and> (\<forall>row \<in> set (ow_actions current).
        \<exists>c. map_of ds (persisted_name row) = Some c \<and> action_kept row c))
     \<and> (\<forall>row \<in> set (ow_interfaces current). \<exists>ds c. interface_definitions_by_api defn = Inr ds
        \<and> map_of ds (persisted_name row) = Some c \<and> interface_kept row c)
     \<and> (\<forall>row \<in> set (ow_functions current). \<exists>ds c f. definitions_by_api ''functionTypes'' ''duplicate function apiName'' defn = Inr ds
        \<and> map_of ds (persisted_name row) = Some c \<and> normalized_function_definition c = Inr f)"

lemma api_rows_item:
  "rows_by_api message rows = Inr d \<Longrightarrow> row \<in> set rows \<Longrightarrow> (persisted_name row, row) \<in> set d"
  using api_rows_named [of message rows d row] by (auto simp: persisted_name_def dest!: subscript_get_val map_of_SomeD)

lemma links_unblocked:
  assumes "link_migration_changes digest rows candidates = Inr cs" "unblocked cs" "(n, row) \<in> set rows"
  shows "\<exists>c. map_of candidates n = Some c \<and> link_kept digest row c"
proof -
  from collect_unblocked [OF assms(1) [unfolded link_migration_changes_def] assms(2), of "(n, row)"] assms(3) obtain w where
    w: "(case map_of candidates n of None \<Rightarrow> Inr [blocked_link_removed n] | Some c \<Rightarrow> single_link_migration_changes digest n row c) = Inr w"
    "unblocked w" by auto
  then obtain c where "map_of candidates n = Some c" by (cases "map_of candidates n") (auto simp: blocked_change_defs)
  with w link_unblocked show ?thesis by fastforce
qed

lemma actions_unblocked:
  assumes "action_migration_changes rows candidates = Inr cs" "unblocked cs" "(n, row) \<in> set rows"
  shows "\<exists>c. map_of candidates n = Some c \<and> action_kept row c"
proof -
  from collect_unblocked [OF assms(1) [unfolded action_migration_changes_def] assms(2), of "(n, row)"] assms(3) obtain w where
    w: "(case map_of candidates n of None \<Rightarrow> Inr [blocked_action_removed n] | Some c \<Rightarrow> single_action_migration_changes n row c) = Inr w"
    "unblocked w" by auto
  then obtain c where "map_of candidates n = Some c" by (cases "map_of candidates n") (auto simp: blocked_change_defs)
  with w action_unblocked show ?thesis by fastforce
qed

definition distinct_property_names :: "ontology_rows \<Rightarrow> bool" where
  "distinct_property_names current \<longleftrightarrow> list_all (\<lambda>(_, ps). distinct (map (\<lambda>p. get_val p ''api_name'') ps)) (ow_properties current)"

lemma distinct_property_rows: "distinct_property_names current \<Longrightarrow> distinct (map (\<lambda>p. get_val p ''api_name'') (rows_of (ow_properties current) n))"
  by (auto simp: distinct_property_names_def rows_of_def list_all_iff split: option.split dest: map_of_SomeD)

lemma plan_parts:
  assumes "build_ontology_migration_plan digest source current defn = Inr plan"
  obtains os ls acts objects operations irows interfaces implements frows funs lrows links arows actions where
    "object_definitions_by_api defn = Inr os" "link_definitions_by_api defn = Inr ls" "action_definitions_by_api defn = Inr acts"
    "object_migration_changes digest (ow_objects current) (ow_properties current) os = Inr (objects, operations)"
    "interface_rows_by_api (ow_interfaces current) = Inr irows" "interface_migration_changes irows defn = Inr interfaces"
    "implements_migration_changes (ow_objects current) os = Inr implements"
    "function_rows_by_api (ow_functions current) = Inr frows" "function_migration_changes digest frows defn = Inr funs"
    "link_rows_by_api (ow_links current) = Inr lrows" "link_migration_changes digest lrows ls = Inr links"
    "action_rows_by_api (ow_actions current) = Inr arows" "action_migration_changes arows acts = Inr actions"
    "plan = \<lparr>mp_source = source, mp_changes = objects @ interfaces @ implements @ funs @ links @ actions, mp_reindex = operations\<rparr>"
  using assms unfolding build_ontology_migration_plan_def rbind_eq_Inr
  by (elim exE conjE, simp only: split_paired_all prod.case rbind_eq_Inr) (elim exE conjE, rule that, assumption+, simp)

lemma unblocked_plan_compatible:
  assumes "build_ontology_migration_plan digest source current defn = Inr plan" "blocking_changes plan = []" "distinct_property_names current"
  shows "backward_compatible digest current defn"
proof (rule plan_parts [OF assms(1)])
  fix os ls acts objects operations irows interfaces implements frows funs lrows links arows actions
  assume defs: "object_definitions_by_api defn = Inr os" "link_definitions_by_api defn = Inr ls" "action_definitions_by_api defn = Inr acts"
    and runs: "object_migration_changes digest (ow_objects current) (ow_properties current) os = Inr (objects, operations)"
    "interface_migration_changes irows defn = Inr interfaces" "implements_migration_changes (ow_objects current) os = Inr implements"
    "function_migration_changes digest frows defn = Inr funs" "link_migration_changes digest lrows ls = Inr links"
    "action_migration_changes arows acts = Inr actions"
    and rows: "interface_rows_by_api (ow_interfaces current) = Inr irows" "function_rows_by_api (ow_functions current) = Inr frows"
    "link_rows_by_api (ow_links current) = Inr lrows" "action_rows_by_api (ow_actions current) = Inr arows"
    and plan: "plan = \<lparr>mp_source = source, mp_changes = objects @ interfaces @ implements @ funs @ links @ actions, mp_reindex = operations\<rparr>"
  have free: "unblocked objects" "unblocked interfaces" "unblocked implements" "unblocked funs" "unblocked links" "unblocked actions"
    using assms(2) by (simp_all add: no_blocking_changes plan)
  note items = api_rows_item [OF rows(1) [unfolded interface_rows_by_api_def]] api_rows_item [OF rows(2) [unfolded function_rows_by_api_def]]
    api_rows_item [OF rows(3) [unfolded link_rows_by_api_def]] api_rows_item [OF rows(4) [unfolded action_rows_by_api_def]]
  have "\<exists>c. map_of os n = Some c \<and> object_kept row (rows_of (ow_properties current) n) c" if "(n, row) \<in> set (ow_objects current)" for n row
    using objects_unblocked [OF runs(1) free(1) that distinct_property_rows [OF assms(3)]] implements_unblocked [OF runs(3) free(3) that]
    unfolding object_kept_def by blast
  moreover have "\<exists>c. map_of ls (persisted_name row) = Some c \<and> link_kept digest row c" if "row \<in> set (ow_links current)" for row
    by (rule links_unblocked [OF runs(5) free(5) items(3) [OF that]])
  moreover have "\<exists>c. map_of acts (persisted_name row) = Some c \<and> action_kept row c" if "row \<in> set (ow_actions current)" for row
    by (rule actions_unblocked [OF runs(6) free(6) items(4) [OF that]])
  moreover note interfaces_unblocked [OF runs(2) free(2) items(1)] functions_unblocked [OF runs(4) free(4) items(2)]
  ultimately show ?thesis using defs unfolding backward_compatible_def by fast
qed

section \<open>The reindex contract of a plan\<close>

lemma planned_operations:
  assumes "object_migration_changes digest objects properties candidates = Inr (cs, ops)" "wf_dict objects"
  shows "distinct (map ro_object_type ops)"
proof -
  let ?walk = "\<lambda>(n, row). case map_of candidates n of None \<Rightarrow> Inr ([blocked_object_removed n], None)
    | Some c \<Rightarrow> single_object_migration_changes digest n row (rows_of properties n) c"
  let ?ops = "\<lambda>walked. concat (map (\<lambda>w. case snd w of None \<Rightarrow> [] | Some op \<Rightarrow> [op]) walked)"
  have named: "ro_object_type op = n" if "?walk (n, row) = Inr (cs, Some op)" for n row cs op
    using that by (auto simp: single_object_migration_changes_def make_reindex_operation_def Let_def rbind_eq_Inr split: option.splits if_splits)
  have walk: "map_result ?walk items = Inr walked \<Longrightarrow> distinct (map fst items) \<Longrightarrow>
    distinct (map ro_object_type (?ops walked)) \<and> ro_object_type ` set (?ops walked) \<subseteq> fst ` set items" for items walked
  proof (induction items arbitrary: walked)
    case (Cons item items)
    obtain n row where item: "item = (n, row)" by (cases item)
    from Cons.prems(1) obtain w ws where w: "?walk (n, row) = Inr w" "map_result ?walk items = Inr ws" "walked = w # ws"
      by (auto simp: item rbind_eq_Inr)
    with Cons have IH: "distinct (map ro_object_type (?ops ws))" "ro_object_type ` set (?ops ws) \<subseteq> fst ` set items" by simp_all
    show ?case
    proof (cases "snd w")
      case None
      with IH w(3) show ?thesis by (auto simp: item)
    next
      case (Some op)
      with w(1) named [of n row "fst w" op] have "ro_object_type op = n" by (metis prod.collapse)
      moreover have "n \<notin> fst ` set items" using Cons.prems(2) by (simp add: item)
      ultimately show ?thesis using IH w(3) Some by (auto simp: item)
    qed
  qed simp
  from assms(1) obtain walked where "map_result ?walk (sorted_items objects) = Inr walked" "ops = ?ops walked"
    unfolding object_migration_changes_def by (elim rbind_InrE) auto
  moreover have "distinct (map fst (sorted_items objects))" using assms(2) by (simp add: sorted_items_def wf_dict_def dkeys_def distinct_map)
  ultimately show ?thesis using walk by blast
qed

lemma remapped_operation:
  assumes "object_migration_changes digest objects properties candidates = Inr (cs, ops)" "(n, row) \<in> set objects" "map_of candidates n = Some c"
    "property_definitions_by_api c = Inr ps" "map_of ps k = Some q" "property_by_api (rows_of properties n) = Inr currents"
    "property_requires_reindex (map_of currents k) q \<noteq> Inr False"
  shows "\<exists>op \<in> set ops. ro_object_type op = n \<and> ''properties.'' @ k \<in> set (ro_changed_fields op)"
proof -
  let ?walk = "\<lambda>(n, row). case map_of candidates n of None \<Rightarrow> Inr ([blocked_object_removed n], None)
    | Some c \<Rightarrow> single_object_migration_changes digest n row (rows_of properties n) c"
  from assms(1) obtain walked where walked: "map_result ?walk (sorted_items objects) = Inr walked"
    "ops = concat (map (\<lambda>w. case snd w of None \<Rightarrow> [] | Some op \<Rightarrow> [op]) walked)"
    unfolding object_migration_changes_def by (elim rbind_InrE) auto
  from map_result_source [OF walked(1)] assms(2) obtain w where w: "w \<in> set walked" "?walk (n, row) = Inr w" by fastforce
  with assms(3) have "single_object_migration_changes digest n row (rows_of properties n) c = Inr (fst w, snd w)" by simp
  then obtain pcs changed extra where run: "property_migration_changes n (rows_of properties n) c = Inr (pcs, changed)"
    "snd w = make_reindex_operation digest n (changed @ extra)"
    unfolding single_object_migration_changes_def by (elim rbind_InrE) (auto simp: rbind_eq_Inr)
  let ?step = "\<lambda>(k, q). rbind (property_by_api (rows_of properties n)) (\<lambda>currents.
      rbind (candidate_property_changes n k (map_of currents k) q) (\<lambda>cs.
      rbind (property_requires_reindex (map_of currents k) q) (\<lambda>needs_reindex. Inr (cs, if needs_reindex then [''properties.'' @ k] else []))))"
  from run(1) assms(4) obtain steps where steps: "map_result ?step (sorted_items ps) = Inr steps" "changed = concat (map snd steps)"
    unfolding property_migration_changes_def by (elim rbind_InrE) auto
  from map_result_source [OF steps(1), of "(k, q)"] map_of_SomeD [OF assms(5)] obtain s where s: "s \<in> set steps" "?step (k, q) = Inr s" by auto
  then have "snd s = [''properties.'' @ k]" using assms(6,7) by (auto simp: rbind_eq_Inr)
  then have "''properties.'' @ k \<in> set (snd s)" by simp
  then have "''properties.'' @ k \<in> set changed" using s(1) unfolding steps(2) set_concat set_map by blast
  then have member: "''properties.'' @ k \<in> set (sort (remdups (changed @ extra)))" by simp
  then obtain op where "snd w = Some op" "ro_object_type op = n" "ro_changed_fields op = sort (remdups (changed @ extra))"
    unfolding run(2) make_reindex_operation_def Let_def by (cases "sort (remdups (changed @ extra)) = []") auto
  moreover from this(1) w(1) have "op \<in> set ops" unfolding walked(2) by (intro concat_mapI [of w]) simp_all
  ultimately show ?thesis using member by metis
qed

lemma unchanged_property:
  assumes "property_requires_reindex (Some p) q = Inr False"
  shows "property_source q = Inr (get_val p ''source'')" "get_val q ''column'' = get_val p ''column_name''"
proof -
  from assms obtain previous column where parts: "property_source q = Inr previous" "subscript p ''source'' = Inr previous"
    "mg_optional_str q ''column'' PNone = Inr column" "subscript p ''column_name'' = Inr column"
    by (auto simp: property_requires_reindex_def rbind_eq_Inr split: if_splits)
  then show "property_source q = Inr (get_val p ''source'')" "get_val q ''column'' = get_val p ''column_name''"
    by (auto dest: mg_optional_str_get_or subscript_get_val)
qed

section \<open>Properties\<close>


definition sample_property :: "string \<Rightarrow> string \<Rightarrow> dict" where
  "sample_property name column = [(''api_name'', PStr name), (''data_type'', PStr ''string''), (''source'', PStr ''dataset''), (''column_name'', PStr column)]"

definition migration_current :: ontology_rows where
  "migration_current = \<lparr>
     ow_objects = [(''Order'', [(''primary_key_property'', PStr ''id''), (''backing'', PDict [(''dataset'', PStr ''orders'')]),
       (''config'', PDict [(''implements'', PList [PStr ''Tracked''])])])],
     ow_properties = [(''Order'', [sample_property ''id'' ''id'', sample_property ''total'' ''total''])],
     ow_links = [[(''api_name'', PStr ''parent''), (''from_api_name'', PStr ''Order''), (''to_api_name'', PStr ''Order''),
       (''cardinality'', PStr ''many_to_one''), (''backing'', PDict [(''dataset'', PStr ''orders'')])]],
     ow_actions = [[(''api_name'', PStr ''approve''), (''target_api_name'', PStr ''Order''), (''definition'', PDict [(''parameters'',
       PList [PDict [(''apiName'', PStr ''note''), (''type'', PStr ''string''), (''required'', PBool True)]])])]],
     ow_interfaces = [], ow_functions = []\<rparr>"

definition migration_candidate :: dict where
  "migration_candidate = [
     (''objectTypes'', PList [PDict [(''apiName'', PStr ''Order''), (''primaryKey'', PStr ''id''), (''dataset'', PStr ''orders''),
       (''implements'', PList [PStr ''Tracked'']), (''properties'', PList [
         PDict [(''apiName'', PStr ''id''), (''type'', PStr ''string''), (''column'', PStr ''id'')],
         PDict [(''apiName'', PStr ''total''), (''type'', PStr ''string''), (''column'', PStr ''amount'')]])]]),
     (''linkTypes'', PList [PDict [(''apiName'', PStr ''parent''), (''from'', PStr ''Order''), (''to'', PStr ''Order''),
       (''backing'', PDict [(''dataset'', PStr ''orders'')])]]),
     (''actionTypes'', PList [PDict [(''apiName'', PStr ''approve''), (''target'', PStr ''Order''), (''parameters'', PList [
       PDict [(''apiName'', PStr ''note''), (''type'', PStr ''string'')],
       PDict [(''apiName'', PStr ''urgent''), (''type'', PStr ''boolean'')]])]])]"

lemma sample_migration:
  "case build_ontology_migration_plan (\<lambda>s. s) (Some ''v1'') migration_current migration_candidate of Inl _ \<Rightarrow> False
   | Inr plan \<Rightarrow> raise_if_blocked plan = Inr () \<and> map mc_kind (mp_changes plan) =
       [''property_mapping_changed'', ''action_parameter_became_optional'', ''optional_action_parameter_added'']"
  by code_simp


text \<open>
  C25: When the source or the column of a declared property differs from the active one, the plan has a reindex
  operation of its object type that lists the property; the serving config of the object type names exactly this
  operation as pending and nothing as complete; completing it leaves nothing pending and the evidence of its key.
\<close>
theorem remapped_property_awaits_reindex:
  assumes "build_ontology_migration_plan digest source current defn = Inr plan" "wf_dict (ow_objects current)"
    "(n, row) \<in> set (ow_objects current)" "object_definitions_by_api defn = Inr os" "map_of os n = Some c"
    "property_definitions_by_api c = Inr ps" "map_of ps k = Some q"
    "property_by_api (rows_of (ow_properties current) n) = Inr currents" "map_of currents k = Some p"
    "property_source q \<noteq> Inr (get_val p ''source'') \<or> get_val q ''column'' \<noteq> get_val p ''column_name''"
  shows "\<exists>op \<in> set (mp_reindex plan). ''properties.'' @ k \<in> set (ro_changed_fields op) \<and> (case object_type_serving_config plan n of config \<Rightarrow>
     pending_object_reindex_operation config (ro_reindex_key op) = Some (reindex_payload op)
     \<and> completed_object_reindex config key = None
     \<and> (\<exists>completed. complete_object_reindex_config config (reindex_payload op) run version time = Inr completed
        \<and> pending_object_reindex_operation completed key = None
        \<and> completed_object_reindex completed key =
           (if key = ro_reindex_key op then Some (completion_evidence key (reindex_payload op) run version time) else None)))"
proof (rule plan_parts [OF assms(1)])
  fix os' objects operations changes
  assume os': "object_definitions_by_api defn = Inr os'"
    and run: "object_migration_changes digest (ow_objects current) (ow_properties current) os' = Inr (objects, operations)"
    and plan: "plan = \<lparr>mp_source = source, mp_changes = changes, mp_reindex = operations\<rparr>"
  have "property_requires_reindex (map_of currents k) q \<noteq> Inr False" using unchanged_property [of p q] assms(9,10) by auto
  with remapped_operation [OF run assms(3) _ assms(6-8)] os' assms(4,5) obtain op where
    op: "op \<in> set operations" "ro_object_type op = n" "''properties.'' @ k \<in> set (ro_changed_fields op)" by auto
  have "\<forall>op' \<in> set operations. ro_object_type op' = ro_object_type op \<longrightarrow> op' = op"
    using planned_operations [OF run assms(2)] op(1) by (auto simp: distinct_map dest: inj_onD)
  then have "\<forall>op' \<in> set (mp_reindex plan). ro_object_type op' = ro_object_type op \<longrightarrow> op' = op" "op \<in> set (mp_reindex plan)"
    using op(1) by (simp_all add: plan)
  note contract = reindex_contract_steps [OF this(2,1) refl]
  show ?thesis using \<open>op \<in> set (mp_reindex plan)\<close> op(3) contract unfolding op(2) by blast
qed

lemma case_resultE: "(case r of Inl _ \<Rightarrow> False | Inr x \<Rightarrow> P x) \<Longrightarrow> (\<And>x. r = Inr x \<Longrightarrow> P x \<Longrightarrow> thesis) \<Longrightarrow> thesis"
  by (cases r) auto

lemma case_optionE: "(case r of None \<Rightarrow> False | Some x \<Rightarrow> P x) \<Longrightarrow> (\<And>x. r = Some x \<Longrightarrow> P x \<Longrightarrow> thesis) \<Longrightarrow> thesis"
  by (cases r) auto

lemma sample_remapped:
  "case object_definitions_by_api migration_candidate of Inl _ \<Rightarrow> False | Inr os \<Rightarrow>
    (case map_of os ''Order'' of None \<Rightarrow> False | Some c \<Rightarrow> (case property_definitions_by_api c of Inl _ \<Rightarrow> False | Inr ps \<Rightarrow>
    (case map_of ps ''total'' of None \<Rightarrow> False | Some q \<Rightarrow> get_val q ''column'' = PStr ''amount'')))"
  "property_by_api (rows_of (ow_properties migration_current) ''Order'') =
     Inr [(''id'', sample_property ''id'' ''id''), (''total'', sample_property ''total'' ''total'')]"
  by code_simp+

theorem remapped_property_awaits_reindex_witness:
  "\<exists>plan op. build_ontology_migration_plan (\<lambda>s. s) (Some ''v1'') migration_current migration_candidate = Inr plan \<and> op \<in> set (mp_reindex plan)
     \<and> ''properties.'' @ ''total'' \<in> set (ro_changed_fields op)"
proof -
  obtain plan where plan: "build_ontology_migration_plan (\<lambda>s. s) (Some ''v1'') migration_current migration_candidate = Inr plan"
    using sample_migration by (auto split: sum.splits)
  from sample_remapped(1) obtain os c ps q where defs: "object_definitions_by_api migration_candidate = Inr os" "map_of os ''Order'' = Some c"
    "property_definitions_by_api c = Inr ps" "map_of ps ''total'' = Some q" and q: "get_val q ''column'' = PStr ''amount''"
    by (elim case_resultE case_optionE)
  have wf: "wf_dict (ow_objects migration_current)" and row: "(''Order'', snd (hd (ow_objects migration_current))) \<in> set (ow_objects migration_current)"
    by (simp_all add: migration_current_def wf_dict_def)
  have current: "map_of [(''id'', sample_property ''id'' ''id''), (''total'', sample_property ''total'' ''total'')] ''total''
    = Some (sample_property ''total'' ''total'')" by simp
  have "get_val q ''column'' \<noteq> get_val (sample_property ''total'' ''total'') ''column_name''" using q by (simp add: sample_property_def)
  from remapped_property_awaits_reindex [OF plan wf row defs(1-4) sample_remapped(2) current disjI2 [OF this], of "''k''" "''run''" "''v1''" "''now''"] plan
  show ?thesis by blast
qed

text \<open>
  A candidate that goes back from several datasources to the plain \<^verbatim>\<open>dataset\<close> key is not classified: the datasource
  rules read only its \<^verbatim>\<open>backing\<close>, and raise.
\<close>

lemma dataset_shorthand_not_classified:
  "datasource_migration_changes ''Order''
     [(''backing'', PDict [(''datasources'', PList [PDict [(''name'', PStr ''a''), (''dataset'', PStr ''orders'')]])])] []
     [(''apiName'', PStr ''Order''), (''dataset'', PStr ''orders'')] [] =
   Inl (ValidationFailed ''object backing must declare a dataset or datasources'')"
  by code_simp

end
