(* ===== verification/Ordered_Updates.thy ===== *)
theory Ordered_Updates
  imports Prelude
begin

text \<open>
  The interface of a log whose events carry keys of a linear order and may arrive late or twice: an event no newer
  than what a record stores is skipped, a newer one replaces what the record shows. Shown, from two laws of the
  replacement: after any delivery a record shows the newest event, and two deliveries of the same events agree.
  \<^verbatim>\<open>Cdc_Indexing\<close> interprets it on change events and object records.
\<close>

definition reached :: "'k::linorder option \<Rightarrow> 'k \<Rightarrow> bool" where
  "reached k' k \<longleftrightarrow> (case k' of None \<Rightarrow> False | Some m \<Rightarrow> k \<le> m)"

definition surpassed :: "'k::linorder option \<Rightarrow> 'k \<Rightarrow> bool" where
  "surpassed k' k \<longleftrightarrow> (case k' of None \<Rightarrow> True | Some m \<Rightarrow> m < k)"

lemma reached_trans: "reached (Some k) j \<Longrightarrow> reached m k \<Longrightarrow> reached m j"
  by (auto simp: reached_def split: option.splits)

lemma surpassed_reached: "surpassed k' k \<Longrightarrow> \<not> reached k' k"
  by (auto simp: reached_def surpassed_def split: option.splits)

lemma surpassed_trans: "surpassed k' k \<Longrightarrow> surpassed (Some k) j \<Longrightarrow> surpassed k' j"
  by (auto simp: surpassed_def split: option.splits)

lemma surpassed_below: "surpassed k' k \<Longrightarrow> k' = Some j \<Longrightarrow> reached (Some k) j"
  by (simp add: surpassed_def reached_def)

lemma reached_antisym: "reached (Some k) j \<Longrightarrow> reached (Some j) k \<Longrightarrow> k = j"
  by (simp add: reached_def)

lemma not_reached: "\<not> reached k' k \<longleftrightarrow> surpassed k' k"
  by (auto simp: reached_def surpassed_def split: option.splits)

lemma reached_refl: "reached (Some k) k"
  by (simp add: reached_def)

definition newest_applied :: "('e \<Rightarrow> 'k::linorder \<Rightarrow> bool) \<Rightarrow> ('r \<Rightarrow> 'k option) \<Rightarrow> ('e \<Rightarrow> 'r \<Rightarrow> 'r \<Rightarrow> bool) \<Rightarrow> 'e list \<Rightarrow> 'r \<Rightarrow> 'r \<Rightarrow> bool" where
  "newest_applied bears_key stored work events before after \<longleftrightarrow>
     (\<forall>e \<in> set events. \<forall>k. bears_key e k \<longrightarrow> reached (stored after) k)
     \<and> (\<forall>k. stored before = Some k \<longrightarrow> reached (stored after) k)
     \<and> (after = before \<or> (\<exists>e \<in> set events. \<exists>k. work e before after \<and> bears_key e k \<and> surpassed (stored before) k))"

locale ordered_updates =
  fixes bears_key :: "'e \<Rightarrow> 'k::linorder \<Rightarrow> bool" and stored :: "'r \<Rightarrow> 'k option" and work :: "'e \<Rightarrow> 'r \<Rightarrow> 'r \<Rightarrow> bool"
  assumes work_key: "work e before after \<Longrightarrow> bears_key e k \<Longrightarrow> stored after = Some k"
    and work_trans: "work e before mid \<Longrightarrow> work e' mid after \<Longrightarrow> work e' before after"
begin

lemma newest_Nil: "newest_applied bears_key stored work [] r r"
  by (simp add: newest_applied_def reached_refl)

lemma newest_skip:
  assumes "reached (stored before) k" "bears_key e k" "\<And>k'. bears_key e k' \<Longrightarrow> k' = k"
    and rest: "newest_applied bears_key stored work events before after"
  shows "newest_applied bears_key stored work (e # events) before after"
proof -
  from assms(1) obtain k' where k': "stored before = Some k'" by (cases "stored before") (simp_all add: reached_def)
  with rest have "reached (stored after) k'" unfolding newest_applied_def by blast
  with assms(1) have "reached (stored after) k" unfolding k' by (rule reached_trans)
  with assms(3) rest show ?thesis unfolding newest_applied_def set_simps by blast
qed

lemma newest_work:
  assumes older: "surpassed (stored before) k" and step: "work e before mid" and key: "bears_key e k" "\<And>k'. bears_key e k' \<Longrightarrow> k' = k"
    and rest: "newest_applied bears_key stored work events mid after"
  shows "newest_applied bears_key stored work (e # events) before after"
proof -
  note mid = work_key [OF step key(1)]
  from rest mid have after: "reached (stored after) k" unfolding newest_applied_def by blast
  have "reached (stored after) j" if "stored before = Some j" for j
    using surpassed_below [OF older that] after by (rule reached_trans)
  moreover have "reached (stored after) j" if "e' \<in> set (e # events)" "bears_key e' j" for e' j
  proof (cases "e' = e")
    case True
    with key(2) [of j] that(2) after show ?thesis by simp
  next
    case False
    with that rest show ?thesis unfolding newest_applied_def by simp
  qed
  moreover have "\<exists>e' \<in> set (e # events). \<exists>k. work e' before after \<and> bears_key e' k \<and> surpassed (stored before) k"
  proof (cases "after = mid")
    case True
    with step key(1) older show ?thesis by auto
  next
    case False
    with rest obtain e' k1 where e': "e' \<in> set events" "work e' mid after" "bears_key e' k1" "surpassed (stored mid) k1"
      unfolding newest_applied_def by blast
    have "surpassed (stored before) k1" using older e'(4) unfolding mid by (rule surpassed_trans)
    with e' work_trans [OF step e'(2)] show ?thesis by auto
  qed
  ultimately show ?thesis unfolding newest_applied_def by blast
qed

text \<open>Nothing was applied, in both deliveries, or the same newest event.\<close>

lemma newest_unique:
  assumes a: "newest_applied bears_key stored work es before a" and b: "newest_applied bears_key stored work es' before b" and same: "set es = set es'"
    and inj: "\<And>e e' k. e \<in> set es \<Longrightarrow> e' \<in> set es \<Longrightarrow> bears_key e k \<Longrightarrow> bears_key e' k \<Longrightarrow> e = e'"
  shows "a = before \<and> b = before \<or> (\<exists>e \<in> set es. work e before a \<and> work e before b)"
proof -
  have untouched: "y = before" if "newest_applied bears_key stored work xs before before"
      "newest_applied bears_key stored work ys before y" "set xs = set ys" for xs ys y
  proof (rule ccontr)
    assume "y \<noteq> before"
    with that(2) obtain e k where e: "e \<in> set ys" "bears_key e k" "surpassed (stored before) k" unfolding newest_applied_def by blast
    from that(1,3) e(1,2) have "reached (stored before) k" unfolding newest_applied_def by blast
    with surpassed_reached [OF e(3)] show False ..
  qed
  show ?thesis
  proof (cases "a = before \<or> b = before")
    case True
    then show ?thesis using untouched a b same by metis
  next
    case False
    with a obtain e k where e: "e \<in> set es" "work e before a" "bears_key e k" unfolding newest_applied_def by blast
    from False b obtain e' k' where e': "e' \<in> set es'" "work e' before b" "bears_key e' k'" unfolding newest_applied_def by blast
    have "reached (stored a) k'" using a e' same unfolding newest_applied_def by blast
    moreover have "reached (stored b) k" using b e same unfolding newest_applied_def by blast
    ultimately have "k = k'" unfolding work_key [OF e(2,3)] work_key [OF e'(2,3)] by (rule reached_antisym)
    with inj [of e e' k] e e' same have "e = e'" by simp
    with e e' show ?thesis by blast
  qed
qed

end
end
