(* ===== verification/Cdc_Events.thy ===== *)
theory Cdc_Events
  imports Json_Text
begin

text \<open>
  \<^verbatim>\<open>domain/object_store/cdc.py\<close>, \<^verbatim>\<open>domain/object_store/indexing.py\<close> and
  \<^verbatim>\<open>application/services/object_store/cdc_indexing.py\<close>: change events of a source table, their parsing, and the
  total order that decides which of two events of an object is the newer one. The JSON parser of the standard
  library and the digest are parameters. Shown: the order is read back from what a record stores, and the
  events that are skipped are exactly those not newer than the stored one.
\<close>

section \<open>Integers in text\<close>

text \<open>\<^verbatim>\<open>int(text)\<close>: surrounding blanks, a sign, digits with single underscores between them, at most 4300 digits.\<close>

fun grouped_digits :: "string \<Rightarrow> bool" where
  "grouped_digits [] = False"
| "grouped_digits [c] = is_digit c"
| "grouped_digits (c # d # s) = (is_digit c \<and> (if d = CHR ''_'' then grouped_digits s else grouped_digits (d # s)))"

definition int_from_text :: "string \<Rightarrow> int option" where
  "int_from_text v =
     (let s = py_strip v;
          negative = (s \<noteq> [] \<and> hd s = CHR ''-'');
          body = (if s \<noteq> [] \<and> hd s \<in> {CHR ''-'', CHR ''+''} then tl s else s);
          ds = filter is_digit body in
      if grouped_digits body \<and> length ds \<le> 4300
      then Some (if negative then - int (read_nat ds) else int (read_nat ds)) else None)"

section \<open>The order of events\<close>

fun optional_int_or_none :: "dict \<Rightarrow> string list \<Rightarrow> int option" where
  "optional_int_or_none place [] = None"
| "optional_int_or_none place (name # names) = (case plain_int (get_val place name) of
     Some n \<Rightarrow> Some n | None \<Rightarrow> optional_int_or_none place names)"

definition optional_int_value :: "dict \<Rightarrow> string list \<Rightarrow> int" where
  "optional_int_value place names = (case optional_int_or_none place names of None \<Rightarrow> 0 | Some n \<Rightarrow> n)"

definition required_int :: "dict \<Rightarrow> string \<Rightarrow> int result" where
  "required_int place name = (case plain_int (get_val place name) of Some n \<Rightarrow> Inr n
     | None \<Rightarrow> Inl (ValidationFailed ''CDC place field must be an integer''))"

text \<open>The text before and after the last occurrence of a character.\<close>

definition split_at_last :: "char \<Rightarrow> string \<Rightarrow> (string \<times> string) option" where
  "split_at_last c s = (if c \<in> set s
     then Some (rev (tl (dropWhile (\<lambda>x. x \<noteq> c) (rev s))), rev (takeWhile (\<lambda>x. x \<noteq> c) (rev s))) else None)"

definition event_id_partition_offset :: "string \<Rightarrow> (int \<times> int) option" where
  "event_id_partition_offset event_id = (case split_at_last (CHR '':'') event_id of None \<Rightarrow> None
     | Some (front, offset_text) \<Rightarrow> (case split_at_last (CHR '':'') front of None \<Rightarrow> None
       | Some (_, partition_text) \<Rightarrow> (case (int_from_text partition_text, int_from_text offset_text) of
           (Some p, Some n) \<Rightarrow> Some (p, n) | _ \<Rightarrow> None)))"

definition event_stream_position :: "dict \<Rightarrow> string \<Rightarrow> (int \<times> int) result" where
  "event_stream_position place event_id =
     (let p = optional_int_value place [''partition'', ''stream_partition'', ''kafka_partition''];
          n = optional_int_or_none place [''offset'', ''stream_offset'', ''kafka_offset''];
          parsed = event_id_partition_offset event_id;
          n' = (case (parsed, n) of (Some (_, m), None) \<Rightarrow> Some m | _ \<Rightarrow> n);
          p' = (case parsed of Some (q, _) \<Rightarrow> if p = 0 then q else p | None \<Rightarrow> p) in
      case n' of None \<Rightarrow> Inl (ValidationFailed ''CDC place requires a stream offset tie-breaker'') | Some m \<Rightarrow> Inr (p', m))"

type_synonym ordering_key = "int \<times> int \<times> int \<times> int \<times> string \<times> int \<times> int \<times> string"

definition cdc_ordering_key :: "dict \<Rightarrow> string \<Rightarrow> ordering_key result" where
  "cdc_ordering_key place event_id =
     rbind (event_stream_position place event_id) (\<lambda>(p, n). rbind (required_int place ''lsn'') (\<lambda>lsn.
     Inr (lsn, optional_int_value place [''transaction_order'', ''transactionOrder'', ''tx_order'', ''txOrder''],
       optional_int_value place [''transaction_id'', ''transactionId'', ''tx_id'', ''txId''],
       optional_int_value place [''source_ts_ms''], py_str (get_or (PStr []) place ''table''), p, n, event_id)))"

definition require_cdc_ordering :: "dict \<Rightarrow> string \<Rightarrow> unit result" where
  "require_cdc_ordering place event_id =
     rbind (required_int place ''lsn'') (\<lambda>_. rbind (event_stream_position place event_id) (\<lambda>_. Inr ()))"

definition should_skip_cdc_event :: "dict \<Rightarrow> string \<Rightarrow> dict \<Rightarrow> string \<Rightarrow> bool result" where
  "should_skip_cdc_event previous_ordering previous_event_id event_ordering event_id =
     rbind (cdc_ordering_key previous_ordering previous_event_id) (\<lambda>previous_key.
     rbind (cdc_ordering_key event_ordering event_id) (\<lambda>event_key. Inr (event_key \<le> previous_key)))"

definition cdc_deletion_reason :: "bool \<Rightarrow> string option" where
  "cdc_deletion_reason is_deleted = (if is_deleted then Some ''source_deleted'' else None)"

text \<open>A difference between a source value and an edit is recorded for review.\<close>

definition should_record_base_update_conflict :: "string \<Rightarrow> string \<Rightarrow> dict \<Rightarrow> pyval \<Rightarrow> bool" where
  "should_record_base_update_conflict edit_policy name edit_properties source_value =
     (edit_policy = ''conflict_requires_review'' \<and> (case map_of edit_properties name of None \<Rightarrow> False | Some v \<Rightarrow> \<not> py_eq v source_value))"

section \<open>Parsing\<close>

record indexed_property =
  ip_api_name :: string
  ip_edit_policy :: string
  ip_source :: string
  ip_column_name :: "string option"

record indexed_object_type =
  it_id :: string
  it_api_name :: string
  it_backing :: dict
  it_primary_key_property :: string

record cdc_event =
  cv_event_id :: string
  cv_op :: string
  cv_object_id :: string
  cv_base_patch :: dict
  cv_ordering :: dict
  cv_late_data_status :: "string option"
  cv_event_time_lag_seconds :: "int option"

definition cdc_version_key :: string where
  "cdc_version_key = ''_cdc''"

definition cdc_index_ops :: "string list" where
  "cdc_index_ops = [''c'', ''u'', ''r'', ''d'']"

definition cdc_source_dataset :: "indexed_object_type \<Rightarrow> string result" where
  "cdc_source_dataset object_type = (case get_val (it_backing object_type) ''cdc'' of
       PDict cdc \<Rightarrow> (case nonempty_text (get_val cdc ''dataset'') of Some dataset \<Rightarrow> Inr dataset
         | None \<Rightarrow> Inl (ValidationFailed ''CDC source mapping dataset is required''))
     | _ \<Rightarrow> Inl (ValidationFailed ''object type has no CDC source mapping''))"

text \<open>\<open>loads\<close> is \<^verbatim>\<open>json.loads\<close>; text it refuses raises \<^verbatim>\<open>JSONDecodeError\<close>, a \<^verbatim>\<open>ValueError\<close>.\<close>

type_synonym json_parser = "string \<Rightarrow> pyval option"

definition decode_json_mapping :: "json_parser \<Rightarrow> string \<Rightarrow> dict option result" where
  "decode_json_mapping loads encoded = (if encoded = ''null'' then Inr None else case loads encoded of
       None \<Rightarrow> Inl ValueError
     | Some (PDict d) \<Rightarrow> Inr (Some d)
     | Some _ \<Rightarrow> Inl (ValidationFailed ''CDC JSON field must decode to an object''))"

definition nullable_json_mapping :: "json_parser \<Rightarrow> dict \<Rightarrow> string \<Rightarrow> string \<Rightarrow> dict option result" where
  "nullable_json_mapping loads raw key json_key = (case get_val raw key of PDict d \<Rightarrow> Inr (Some d)
     | _ \<Rightarrow> (case get_val raw json_key of PStr encoded \<Rightarrow> decode_json_mapping loads encoded | _ \<Rightarrow> Inr None))"

definition json_mapping :: "json_parser \<Rightarrow> dict \<Rightarrow> string \<Rightarrow> string \<Rightarrow> dict result" where
  "json_mapping loads raw key json_key = rbind (nullable_json_mapping loads raw key json_key) (\<lambda>v. case v of
     None \<Rightarrow> Inl (ValidationFailed ''CDC event mapping field is required'') | Some d \<Rightarrow> Inr d)"

definition cdc_event_id :: "dict \<Rightarrow> string result" where
  "cdc_event_id raw = (case nonempty_text (get_or (get_val raw ''eventId'') raw ''event_id'') of Some s \<Rightarrow> Inr s
     | None \<Rightarrow> Inl (ValidationFailed ''CDC event id is required''))"

definition cdc_event_op :: "dict \<Rightarrow> string result" where
  "cdc_event_op raw = (case get_val raw ''op'' of
       PStr op \<Rightarrow> if op \<in> set cdc_index_ops then Inr op else Inl (ValidationFailed ''CDC event operation is invalid'')
     | _ \<Rightarrow> Inl (ValidationFailed ''CDC event operation is invalid''))"

definition cdc_event_data :: "json_parser \<Rightarrow> dict \<Rightarrow> string \<Rightarrow> dict result" where
  "cdc_event_data loads raw op =
     rbind (if op = ''d'' then nullable_json_mapping loads raw ''before'' ''before_json''
       else nullable_json_mapping loads raw ''after'' ''after_json'') (\<lambda>data.
     case data of Some d \<Rightarrow> Inr d
     | None \<Rightarrow> if op \<noteq> ''d'' then Inl (ValidationFailed ''CDC upsert event after payload is required'') else Inr [])"

definition primary_key_column :: "indexed_object_type \<Rightarrow> indexed_property list \<Rightarrow> string result" where
  "primary_key_column object_type properties =
     (case List.find (\<lambda>p. ip_api_name p = it_primary_key_property object_type) properties of
       None \<Rightarrow> Inl StopIteration
     | Some p \<Rightarrow> (case ip_column_name p of None \<Rightarrow> Inl (ValidationFailed ''object primary key column missing'') | Some c \<Rightarrow> Inr c))"

text \<open>The columns of a key: declared for CDC, declared for the backing (whatever value is iterated), or the one
  column of the primary key property.\<close>

definition iterated :: "pyval \<Rightarrow> pyval list result" where
  "iterated v = (case v of PList xs \<Rightarrow> Inr xs | PStr s \<Rightarrow> Inr (map (\<lambda>c. PStr [c]) s) | PDict d \<Rightarrow> Inr (map PStr (dkeys d))
     | _ \<Rightarrow> Inl TypeError)"

definition primary_key_columns :: "indexed_object_type \<Rightarrow> indexed_property list \<Rightarrow> pyval list result" where
  "primary_key_columns object_type properties =
     (let columns = (case get_val (it_backing object_type) ''cdc'' of PDict cdc \<Rightarrow> get_val cdc ''primaryKeyColumns'' | _ \<Rightarrow> PNone) in
      case columns of PList xs \<Rightarrow> Inr (filter is_text xs)
      | _ \<Rightarrow> if truthy (get_val (it_backing object_type) ''primaryKeyColumns'')
          then iterated (get_val (it_backing object_type) ''primaryKeyColumns'')
          else rbind (primary_key_column object_type properties) (\<lambda>c. Inr [PStr c]))"

text \<open>\<^verbatim>\<open>mapping.get(key)\<close> and \<^verbatim>\<open>key in mapping\<close> for any key value: a list or a dictionary cannot be hashed.\<close>

definition get_member :: "dict \<Rightarrow> pyval \<Rightarrow> pyval result" where
  "get_member d key = (case key of PStr s \<Rightarrow> Inr (get_val d s) | PList _ \<Rightarrow> Inl TypeError | PDict _ \<Rightarrow> Inl TypeError | _ \<Rightarrow> Inr PNone)"

definition required_pk_component :: "dict \<Rightarrow> pyval \<Rightarrow> pyval result" where
  "required_pk_component pk column = rbind (get_member pk column) (\<lambda>v.
     if v = PNone \<or> v = PStr [] then Inl (ValidationFailed ''CDC primary key value is missing'') else Inr v)"

text \<open>\<^verbatim>\<open>base64.urlsafe_b64encode\<close> of ASCII text, without the padding.\<close>

definition base64_char :: "nat \<Rightarrow> char" where
  "base64_char n = (if n < 26 then char_of (65 + n) else if n < 52 then char_of (71 + n) else if n < 62 then char_of (n - 4)
     else if n = 62 then CHR ''-'' else CHR ''_'')"

fun base64_unpadded :: "nat list \<Rightarrow> string" where
  "base64_unpadded [] = []"
| "base64_unpadded [a] = [base64_char (a div 4), base64_char (a mod 4 * 16)]"
| "base64_unpadded [a, b] = [base64_char (a div 4), base64_char (a mod 4 * 16 + b div 16), base64_char (b mod 16 * 4)]"
| "base64_unpadded (a # b # c # s) = [base64_char (a div 4), base64_char (a mod 4 * 16 + b div 16),
     base64_char (b mod 16 * 4 + c div 64), base64_char (c mod 64)] @ base64_unpadded s"

definition composite_pk_json_value :: "pyval \<Rightarrow> pyval result" where
  "composite_pk_json_value v = (case v of PNone \<Rightarrow> Inl (ValidationFailed ''CDC composite primary key value must be a JSON scalar'')
     | PList _ \<Rightarrow> Inl (ValidationFailed ''CDC composite primary key value must be a JSON scalar'')
     | PDict _ \<Rightarrow> Inl (ValidationFailed ''CDC composite primary key value must be a JSON scalar'') | _ \<Rightarrow> Inr v)"

text \<open>\<^verbatim>\<open>json.dumps(..., allow_nan=False)\<close> refuses the floats that are no JSON numbers.\<close>

definition is_json_number :: "pyval \<Rightarrow> bool" where
  "is_json_number v = (case v of PFloat PosInf \<Rightarrow> False | PFloat NegInf \<Rightarrow> False | PFloat NaN \<Rightarrow> False | _ \<Rightarrow> True)"

definition cdc_object_id :: "dict \<Rightarrow> pyval list \<Rightarrow> string result" where
  "cdc_object_id pk columns = rbind (map_result (required_pk_component pk) columns) (\<lambda>vs.
     case vs of [] \<Rightarrow> Inl (ValidationFailed ''CDC primary key value is missing'')
     | [v] \<Rightarrow> Inr (py_str v)
     | _ \<Rightarrow> rbind (map_result (\<lambda>(c, v). rbind (composite_pk_json_value v) (\<lambda>w. Inr (PDict [(''column'', c), (''value'', w)]))) (zip columns vs)) (\<lambda>payload.
         if list_all is_json_number vs
         then Inr (''cdc_pk:v1:'' @ base64_unpadded (map of_char (json_dumps (PList payload)))) else Inl ValueError))"

definition member_of :: "dict \<Rightarrow> pyval \<Rightarrow> bool result" where
  "member_of d key = in_names key (dkeys d)"

definition payload_object_id :: "dict option \<Rightarrow> pyval list \<Rightarrow> string option result" where
  "payload_object_id payload columns = (case payload of None \<Rightarrow> Inr None
     | Some d \<Rightarrow> rbind (all_result (member_of d) columns) (\<lambda>has_all.
         if \<not> has_all then Inr None else rbind (cdc_object_id d columns) (\<lambda>i. Inr (Some i))))"

definition require_primary_key_stable :: "json_parser \<Rightarrow> dict \<Rightarrow> string \<Rightarrow> pyval list \<Rightarrow> string \<Rightarrow> unit result" where
  "require_primary_key_stable loads raw op columns event_object_id =
     rbind (rbind (nullable_json_mapping loads raw ''before'' ''before_json'') (\<lambda>p. payload_object_id p columns)) (\<lambda>before_id.
     rbind (rbind (nullable_json_mapping loads raw ''after'' ''after_json'') (\<lambda>p. payload_object_id p columns)) (\<lambda>after_id.
     rbind (raise_if (before_id \<noteq> None \<and> after_id \<noteq> None \<and> before_id \<noteq> after_id)
       (ValidationFailed ''CDC primary key update is not supported'')) (\<lambda>_.
     let payload_id = (if op = ''d'' then before_id else after_id) in
     raise_if (payload_id \<noteq> None \<and> payload_id \<noteq> Some event_object_id)
       (ValidationFailed ''CDC primary key payload does not match event key''))))"

definition base_patch_of :: "dict \<Rightarrow> indexed_property list \<Rightarrow> dict" where
  "base_patch_of raw properties = fold (\<lambda>p patch.
     if ip_source p \<noteq> ''dataset'' then patch
     else case ip_column_name p of None \<Rightarrow> patch
     | Some c \<Rightarrow> (case map_of raw c of None \<Rightarrow> patch | Some v \<Rightarrow> dput (ip_api_name p) v patch)) properties []"

definition parse_object_cdc_event ::
  "json_parser \<Rightarrow> dict \<Rightarrow> indexed_object_type \<Rightarrow> indexed_property list \<Rightarrow> cdc_event result" where
  "parse_object_cdc_event loads raw object_type properties =
     rbind (cdc_event_op raw) (\<lambda>op.
     rbind (cdc_event_id raw) (\<lambda>event_id.
     rbind (json_mapping loads raw ''pk'' ''pk_json'') (\<lambda>pk.
     rbind (primary_key_columns object_type properties) (\<lambda>columns.
     rbind (cdc_object_id pk columns) (\<lambda>object_id.
     rbind (cdc_event_data loads raw op) (\<lambda>data.
     rbind (json_mapping loads raw ''ordering'' ''ordering_json'') (\<lambda>place.
     rbind (require_cdc_ordering place event_id) (\<lambda>_.
     rbind (require_primary_key_stable loads raw op columns object_id) (\<lambda>_.
     Inr \<lparr>cv_event_id = event_id, cv_op = op, cv_object_id = object_id, cv_base_patch = base_patch_of data properties,
       cv_ordering = place, cv_late_data_status = nonempty_text (get_val raw ''late_data_status''),
       cv_event_time_lag_seconds = plain_int (get_val raw ''event_time_lag_seconds'')\<rparr>)))))))))"

section \<open>What a record stores of the last event\<close>

definition cdc_event_should_skip :: "dict \<Rightarrow> cdc_event \<Rightarrow> bool" where
  "cdc_event_should_skip property_versions event = (case get_val property_versions cdc_version_key of
       PDict previous \<Rightarrow> (case (get_val previous ''ordering'', get_val previous ''eventId'') of
           (PDict previous_ordering, PStr previous_event_id) \<Rightarrow>
             (case should_skip_cdc_event previous_ordering previous_event_id (cv_ordering event) (cv_event_id event) of
                Inr b \<Rightarrow> b | Inl _ \<Rightarrow> False)
         | _ \<Rightarrow> False)
     | _ \<Rightarrow> False)"

definition next_property_version :: "pyval \<Rightarrow> int" where
  "next_property_version v = (case plain_int v of Some n \<Rightarrow> n + 1 | None \<Rightarrow> 1)"

definition cdc_marker :: "cdc_event \<Rightarrow> dict" where
  "cdc_marker event = [(''eventId'', PStr (cv_event_id event)), (''ordering'', PDict (cv_ordering event))]"

definition cdc_property_versions :: "dict option \<Rightarrow> cdc_event \<Rightarrow> dict \<Rightarrow> dict" where
  "cdc_property_versions existing event properties =
     (let versions = fold (\<lambda>name vs. dput name (PInt (next_property_version (get_val vs name))) vs) (dkeys properties)
            (case existing of None \<Rightarrow> [] | Some vs \<Rightarrow> vs) in
      dput cdc_version_key (PDict (cdc_marker event)) versions)"

definition cdc_source_dataset_version_id :: "cdc_event \<Rightarrow> string" where
  "cdc_source_dataset_version_id event = ''cdc:'' @ cv_event_id event"

definition cdc_source_hash :: "(string \<Rightarrow> string) \<Rightarrow> cdc_event \<Rightarrow> dict \<Rightarrow> string" where
  "cdc_source_hash digest event base_patch = digest (json_dumps (PDict
     [(''base'', PDict base_patch), (''op'', PStr (cv_op event)), (''ordering'', PDict (cv_ordering event))]))"

text \<open>The cursor of a run: the last event, and what arrived late.\<close>

record late_data =
  ld_counts :: "(string \<times> int) list"
  ld_late_event_ids :: "string list"
  ld_max_lag :: "int option"

definition late_data_step :: "cdc_event \<Rightarrow> late_data \<Rightarrow> late_data" where
  "late_data_step event s = (case cv_late_data_status event of None \<Rightarrow> s
     | Some status \<Rightarrow> \<lparr>
         ld_counts = dput status ((case map_of (ld_counts s) status of None \<Rightarrow> 0 | Some n \<Rightarrow> n) + 1) (ld_counts s),
         ld_late_event_ids = ld_late_event_ids s @ (if status = ''LATE_REQUIRES_REPROCESS'' then [cv_event_id event] else []),
         ld_max_lag = (case cv_event_time_lag_seconds event of None \<Rightarrow> ld_max_lag s
           | Some lag \<Rightarrow> Some (max lag (case ld_max_lag s of None \<Rightarrow> lag | Some m \<Rightarrow> if m = 0 then lag else m)))\<rparr>)"

definition late_data_cursor :: "cdc_event list \<Rightarrow> dict" where
  "late_data_cursor events =
     (let s = fold late_data_step events \<lparr>ld_counts = [], ld_late_event_ids = [], ld_max_lag = None\<rparr> in
      if ld_counts s = [] then []
      else [(''lateDataStatusCounts'', PDict (map (\<lambda>(k, n). (k, PInt n)) (ld_counts s))),
        (''lateEventIds'', PList (map PStr (ld_late_event_ids s))),
        (''maxEventTimeLagSeconds'', case ld_max_lag s of None \<Rightarrow> PNone | Some m \<Rightarrow> PInt m)])"

definition cdc_cursor :: "cdc_event list \<Rightarrow> nat \<Rightarrow> dict" where
  "cdc_cursor events skipped =
     (if events = [] then [(''last_event_id'', PNone), (''events_skipped'', PInt (int skipped))]
      else dupdate [(''last_event_id'', PStr (cv_event_id (List.last events))), (''last_ordering'', PDict (cv_ordering (List.last events))),
        (''events_skipped'', PInt (int skipped))] (late_data_cursor events))"

section \<open>The stored order\<close>

text \<open>The key of the event a record stores, when it stores one that can be ordered.\<close>

definition stored_key :: "dict \<Rightarrow> ordering_key option" where
  "stored_key property_versions = (case get_val property_versions cdc_version_key of
       PDict previous \<Rightarrow> (case (get_val previous ''ordering'', get_val previous ''eventId'') of
           (PDict place, PStr event_id) \<Rightarrow> (case cdc_ordering_key place event_id of Inr k \<Rightarrow> Some k | Inl _ \<Rightarrow> None)
         | _ \<Rightarrow> None)
     | _ \<Rightarrow> None)"

definition event_key :: "cdc_event \<Rightarrow> ordering_key result" where
  "event_key event = cdc_ordering_key (cv_ordering event) (cv_event_id event)"

lemma stored_key_after [simp]: "stored_key (cdc_property_versions vs event properties) = (case event_key event of Inr k \<Rightarrow> Some k | Inl _ \<Rightarrow> None)"
  by (simp add: stored_key_def cdc_property_versions_def cdc_marker_def event_key_def Let_def)

lemma cdc_event_should_skip_iff:
  assumes "event_key event = Inr k"
  shows "cdc_event_should_skip vs event \<longleftrightarrow> (\<exists>k'. stored_key vs = Some k' \<and> k \<le> k')"
  using assms by (auto simp: cdc_event_should_skip_def stored_key_def should_skip_cdc_event_def event_key_def
      rbind_def split: pyval.splits sum.splits)

lemma required_ordering_has_key: "require_cdc_ordering place event_id = Inr () \<Longrightarrow> \<exists>k. cdc_ordering_key place event_id = Inr k"
  by (auto simp: require_cdc_ordering_def cdc_ordering_key_def rbind_eq_Inr)

lemma parsed_event_key: "parse_object_cdc_event loads raw object_type properties = Inr event \<Longrightarrow> \<exists>k. event_key event = Inr k"
  unfolding parse_object_cdc_event_def event_key_def
  by (elim rbind_InrE) (auto dest: required_ordering_has_key)

text \<open>A lag of zero is forgotten by the next late event, so the maximum can be too small.\<close>

lemma zero_lag_forgotten:
  "late_data_step \<lparr>cv_event_id = ''e'', cv_op = ''u'', cv_object_id = ''o'', cv_base_patch = [], cv_ordering = [],
     cv_late_data_status = Some ''LATE'', cv_event_time_lag_seconds = Some (- 5)\<rparr>
   \<lparr>ld_counts = [(''LATE'', 1)], ld_late_event_ids = [], ld_max_lag = Some 0\<rparr>
   = \<lparr>ld_counts = [(''LATE'', 2)], ld_late_event_ids = [], ld_max_lag = Some (- 5)\<rparr>"
  by (simp add: late_data_step_def)

end
