(* ===== verification/Cdc_Indexing.thy ===== *)
theory Cdc_Indexing
  imports Cdc_Events Plan_Committer Ordered_Updates
begin

text \<open>
  \<^verbatim>\<open>application/services/object_store/indexing_cdc_service.py\<close> with the writes of
  \<^verbatim>\<open>object_index_repository.py\<close> and \<^verbatim>\<open>indexing_record_mutations.py\<close> it calls: change events are applied to the
  active object records in one transaction. Shown: events delivered in any order and any number of times lead to
  the same objects; a batch that fails changes no object.
\<close>

section \<open>State\<close>

record conflict_row =
  cf_id :: string
  cf_tenant_id :: string
  cf_object_type_id :: string
  cf_object_id :: string
  cf_property_api_name :: string
  cf_source_value :: pyval
  cf_edit_value :: pyval
  cf_source_dataset_version_id :: string
  cf_edit_id :: "string option"
  cf_status :: string
  cf_created_at :: string

text \<open>The object tables with the conflicts, the active index version of each object type, and the index runs.\<close>

record cdc_db =
  cd_objects :: object_db
  cd_conflicts :: "conflict_row list"
  cd_active_versions :: "((string \<times> string) \<times> string) list"
  cd_runs :: "status_row list"

record cdc_env =
  cx_ids :: id_supply
  cx_tenant_id :: string
  cx_loads :: json_parser
  cx_digest :: "string \<Rightarrow> string"
  cx_object_types :: "(string \<times> indexed_object_type) list"
  cx_properties :: "string \<Rightarrow> indexed_property list"
  cx_error_payload :: "error \<Rightarrow> pyval"

definition on_objects :: "(object_db, 'a) io \<Rightarrow> (cdc_db, 'a) io" where
  "on_objects m = (\<lambda>s. rbind (m (cd_objects s)) (\<lambda>(x, db). Inr (x, s\<lparr>cd_objects := db\<rparr>)))"

section \<open>Writes of the index repository\<close>

text \<open>The index pointer of an object type, or the version of its record updated last.\<close>

definition legacy_active_index_version :: "object_row list \<Rightarrow> string \<Rightarrow> string \<Rightarrow> string" where
  "legacy_active_index_version rows tenant_id object_type_id =
     (let actives = filter (\<lambda>r. or_tenant_id r = tenant_id \<and> or_object_type_id r = object_type_id \<and> or_is_active r) rows in
      if actives = [] then ''active''
      else let latest = Max (set (map or_updated_at actives)) in
        Min (set (map or_index_version (filter (\<lambda>r. or_updated_at r = latest) actives))))"

definition active_index_version :: "string \<Rightarrow> string \<Rightarrow> cdc_db \<Rightarrow> string" where
  "active_index_version tenant_id object_type_id s = (case map_of (cd_active_versions s) (tenant_id, object_type_id) of
       Some v \<Rightarrow> v | None \<Rightarrow> legacy_active_index_version (db_records (cd_objects s)) tenant_id object_type_id)"

definition insert_object_record :: "id_supply \<Rightarrow> string \<Rightarrow> (int \<Rightarrow> object_row) \<Rightarrow> (object_db, unit) io" where
  "insert_object_record ids tenant_id row_of =
     io_bind (next_object_change_sequence tenant_id) (\<lambda>change_sequence. \<lambda>db.
     let row = row_of change_sequence in
     if or_id row \<in> set (map or_id (db_records db)) \<or> object_identity row \<in> set (map object_identity (db_records db))
     then Inl IntegrityError
     else io_bind (new_id ids ''object_record_version'') (\<lambda>i.
            \<lambda>db. Inr ((), db\<lparr>db_versions := db_versions db @ [\<lparr>ov_id = i, ov_row = row\<rparr>]\<rparr>))
          (db\<lparr>db_records := db_records db @ [row]\<rparr>))"

record cdc_update =
  cu_record_id :: string
  cu_tenant_id :: string
  cu_expected_object_version :: int
  cu_properties :: dict
  cu_base_properties :: dict
  cu_property_versions :: dict
  cu_source_dataset_version_id :: string
  cu_source_hash :: string
  cu_object_version :: int
  cu_deleted :: bool
  cu_deletion_reason :: "string option"
  cu_updated_at :: string

definition update_object_record_from_cdc :: "id_supply \<Rightarrow> cdc_update \<Rightarrow> (object_db, bool) io" where
  "update_object_record_from_cdc ids u =
     object_cas ids (cu_tenant_id u) (cu_record_id u) (\<lambda>r. or_object_version r = cu_expected_object_version u)
       (\<lambda>change_sequence r. r\<lparr>or_properties := cu_properties u, or_base_properties := cu_base_properties u,
          or_property_versions := cu_property_versions u, or_source_dataset_version_id := Some (cu_source_dataset_version_id u),
          or_source_hash := Some (cu_source_hash u), or_object_version := cu_object_version u,
          or_object_change_sequence := Some change_sequence, or_deleted := cu_deleted u,
          or_deletion_reason := cu_deletion_reason u, or_updated_at := cu_updated_at u\<rparr>)"

definition insert_object_conflict :: "conflict_row \<Rightarrow> (cdc_db, unit) io" where
  "insert_object_conflict row = (\<lambda>s. if cf_id row \<in> set (map cf_id (cd_conflicts s)) then Inl IntegrityError
     else Inr ((), s\<lparr>cd_conflicts := cd_conflicts s @ [row]\<rparr>))"

section \<open>Index runs\<close>

definition index_run_succeeded :: status_transition where
  "index_run_succeeded = mk_transition [''running''] ''succeeded''"

definition index_run_failed :: status_transition where
  "index_run_failed = mk_transition [''running''] ''failed''"

definition create_index_run :: "status_row \<Rightarrow> (cdc_db, unit) io" where
  "create_index_run row = (\<lambda>s. if row_id row \<in> set (map row_id (cd_runs s)) then Inl IntegrityError
     else Inr ((), s\<lparr>cd_runs := cd_runs s @ [row]\<rparr>))"

record cdc_counts =
  ic_rows_read :: nat
  ic_objects_upserted :: nat
  ic_objects_deleted :: nat
  ic_events_skipped :: nat
  ic_links_upserted :: nat

definition mark_index_run_succeeded :: "cdc_env \<Rightarrow> string \<Rightarrow> cdc_counts \<Rightarrow> dict \<Rightarrow> (cdc_db, unit) io" where
  "mark_index_run_succeeded env run_id counts cursor =
     io_bind (on_objects (now (cx_ids env))) (\<lambda>time. \<lambda>s.
     let (runs, updated) = cas_status_update (cx_tenant_id env) run_id index_run_succeeded
       [(''rows_read'', PInt (int (ic_rows_read counts))), (''objects_upserted'', PInt (int (ic_objects_upserted counts))),
        (''objects_deleted'', PInt (int (ic_objects_deleted counts))), (''links_upserted'', PInt (int (ic_links_upserted counts))),
        (''cursor'', PDict cursor), (''completed_at'', PStr time)] (\<lambda>_. True) (cd_runs s) in
     if \<not> updated then Inl (ConflictDetected ''index run terminal state changed concurrently'')
     else Inr ((), s\<lparr>cd_runs := runs\<rparr>))"

definition mark_index_run_failed :: "cdc_env \<Rightarrow> string \<Rightarrow> error \<Rightarrow> (cdc_db, unit) io" where
  "mark_index_run_failed env run_id e =
     io_bind (on_objects (now (cx_ids env))) (\<lambda>time. \<lambda>s.
     Inr ((), s\<lparr>cd_runs := fst (cas_status_update (cx_tenant_id env) run_id index_run_failed
       [(''error'', cx_error_payload env e), (''completed_at'', PStr time)] (\<lambda>_. True) (cd_runs s))\<rparr>))"

section \<open>Applying an event\<close>

definition policy_rows :: "indexed_property list \<Rightarrow> property_type_row list" where
  "policy_rows = map (\<lambda>p. \<lparr>pt_api_name = ip_api_name p, pt_edit_policy = ip_edit_policy p\<rparr>)"

definition merged_properties :: "cdc_env \<Rightarrow> indexed_object_type \<Rightarrow> dict \<Rightarrow> dict \<Rightarrow> dict" where
  "merged_properties env object_type base edits = merge_properties (policy_rows (cx_properties env (it_id object_type))) base edits"

definition insert_conflict_if_needed ::
  "cdc_env \<Rightarrow> indexed_object_type \<Rightarrow> string \<Rightarrow> object_row \<Rightarrow> dict \<Rightarrow> string \<Rightarrow> indexed_property \<Rightarrow> (cdc_db, unit) io" where
  "insert_conflict_if_needed env object_type object_id existing base_patch source p =
     (let name = ip_api_name p in
      if \<not> should_record_base_update_conflict (ip_edit_policy p) name (or_edit_properties existing) (get_val base_patch name)
      then io_return ()
      else io_bind (on_objects (new_id (cx_ids env) ''conflict'')) (\<lambda>i. io_bind (on_objects (now (cx_ids env))) (\<lambda>time.
        insert_object_conflict \<lparr>cf_id = i, cf_tenant_id = cx_tenant_id env, cf_object_type_id = it_id object_type,
          cf_object_id = object_id, cf_property_api_name = name, cf_source_value = get_val base_patch name,
          cf_edit_value = get_val (or_edit_properties existing) name, cf_source_dataset_version_id = source,
          cf_edit_id = None, cf_status = ''open'', cf_created_at = time\<rparr>)))"

definition record_conflicts_for_base_update ::
  "cdc_env \<Rightarrow> indexed_object_type \<Rightarrow> string \<Rightarrow> object_row \<Rightarrow> dict \<Rightarrow> string \<Rightarrow> (cdc_db, unit list) io" where
  "record_conflicts_for_base_update env object_type object_id existing base_patch source =
     io_map (insert_conflict_if_needed env object_type object_id existing base_patch source) (cx_properties env (it_id object_type))"

definition emit_object_changed :: "indexed_object_type \<Rightarrow> cdc_event \<Rightarrow> (cdc_db, unit) io" where
  "emit_object_changed object_type event =
     on_objects (outbox \<lparr>ob_event_type = ''object.changed'', ob_aggregate_type = ''object'',
       ob_aggregate_id = it_api_name object_type @ ''/'' @ cv_object_id event,
       ob_payload = [(''objectType'', PStr (it_api_name object_type)), (''objectId'', PStr (cv_object_id event))],
       ob_idempotency_key = cdc_source_dataset_version_id event @ '':'' @ it_api_name object_type @ '':'' @ cv_object_id event\<rparr>)"

definition cdc_object_insert ::
  "cdc_env \<Rightarrow> indexed_object_type \<Rightarrow> cdc_event \<Rightarrow> dict \<Rightarrow> string \<Rightarrow> bool \<Rightarrow> string \<Rightarrow> string \<Rightarrow> int \<Rightarrow> object_row" where
  "cdc_object_insert env object_type event current index_version deleted time record_id change_sequence =
     \<lparr>or_id = record_id, or_tenant_id = cx_tenant_id env, or_object_type_id = it_id object_type,
      or_object_type_api_name = it_api_name object_type, or_object_id = cv_object_id event, or_index_version = index_version,
      or_is_active = True, or_properties = current, or_base_properties = cv_base_patch event, or_edit_properties = [],
      or_property_versions = cdc_property_versions None event current,
      or_source_dataset_version_id = Some (cdc_source_dataset_version_id event),
      or_source_hash = Some (cdc_source_hash (cx_digest env) event (cv_base_patch event)), or_object_version = 1,
      or_object_change_sequence = Some change_sequence, or_deleted = deleted, or_deletion_reason = cdc_deletion_reason deleted,
      or_created_at = time, or_updated_at = time\<rparr>"

definition insert_cdc_object_record :: "cdc_env \<Rightarrow> indexed_object_type \<Rightarrow> cdc_event \<Rightarrow> bool \<Rightarrow> (cdc_db, unit) io" where
  "insert_cdc_object_record env object_type event deleted = (\<lambda>s.
     let current = merged_properties env object_type (cv_base_patch event) [];
         index_version = active_index_version (cx_tenant_id env) (it_id object_type) s in
     io_bind (on_objects (now (cx_ids env))) (\<lambda>time. io_bind (on_objects (new_id (cx_ids env) ''obj'')) (\<lambda>record_id.
     io_bind (on_objects (insert_object_record (cx_ids env) (cx_tenant_id env)
       (cdc_object_insert env object_type event current index_version deleted time record_id))) (\<lambda>_.
     emit_object_changed object_type event))) s)"

definition cdc_record_update :: "cdc_env \<Rightarrow> object_row \<Rightarrow> cdc_event \<Rightarrow> dict \<Rightarrow> dict \<Rightarrow> bool \<Rightarrow> string \<Rightarrow> cdc_update" where
  "cdc_record_update env existing event base current deleted time =
     \<lparr>cu_record_id = or_id existing, cu_tenant_id = cx_tenant_id env, cu_expected_object_version = or_object_version existing,
      cu_properties = current, cu_base_properties = base,
      cu_property_versions = cdc_property_versions (Some (or_property_versions existing)) event current,
      cu_source_dataset_version_id = cdc_source_dataset_version_id event,
      cu_source_hash = cdc_source_hash (cx_digest env) event base, cu_object_version = or_object_version existing + 1,
      cu_deleted = deleted, cu_deletion_reason = cdc_deletion_reason deleted, cu_updated_at = time\<rparr>"

text \<open>A refused update reads the record again: an event that has become old is skipped, anything else is a conflict.\<close>

definition update_cdc_object_record ::
  "cdc_env \<Rightarrow> indexed_object_type \<Rightarrow> cdc_event \<Rightarrow> object_row \<Rightarrow> bool \<Rightarrow> (cdc_db, bool) io" where
  "update_cdc_object_record env object_type event existing deleted =
     (let base = (if cv_base_patch event \<noteq> [] then cv_base_patch event else or_base_properties existing);
          current = merged_properties env object_type base (or_edit_properties existing) in
      io_bind (on_objects (now (cx_ids env))) (\<lambda>time.
      io_bind (on_objects (update_object_record_from_cdc (cx_ids env) (cdc_record_update env existing event base current deleted time))) (\<lambda>updated.
      if \<not> updated then (\<lambda>s.
        case object_record (cx_tenant_id env) (it_api_name object_type) (cv_object_id event) (cd_objects s) of
          Some refreshed \<Rightarrow> if cdc_event_should_skip (or_property_versions refreshed) event then Inr (False, s)
            else Inl (ConflictDetected ''CDC object record changed during update'')
        | None \<Rightarrow> Inl (ConflictDetected ''CDC object record changed during update''))
      else io_bind (emit_object_changed object_type event) (\<lambda>_. io_return True))))"

definition apply_cdc_upsert :: "cdc_env \<Rightarrow> indexed_object_type \<Rightarrow> cdc_event \<Rightarrow> object_row option \<Rightarrow> (cdc_db, bool) io" where
  "apply_cdc_upsert env object_type event existing = (case existing of
       None \<Rightarrow> io_bind (insert_cdc_object_record env object_type event False) (\<lambda>_. io_return True)
     | Some row \<Rightarrow> io_bind (record_conflicts_for_base_update env object_type (cv_object_id event) row (cv_base_patch event)
           (cdc_source_dataset_version_id event)) (\<lambda>_.
         update_cdc_object_record env object_type event row False))"

definition apply_cdc_delete :: "cdc_env \<Rightarrow> indexed_object_type \<Rightarrow> cdc_event \<Rightarrow> object_row option \<Rightarrow> (cdc_db, bool) io" where
  "apply_cdc_delete env object_type event existing = (case existing of
       None \<Rightarrow> io_bind (insert_cdc_object_record env object_type event True) (\<lambda>_. io_return True)
     | Some row \<Rightarrow> update_cdc_object_record env object_type event row True)"

datatype cdc_outcome = Upserted | Deleted | Skipped

definition apply_cdc_event :: "cdc_env \<Rightarrow> indexed_object_type \<Rightarrow> cdc_event \<Rightarrow> (cdc_db, cdc_outcome) io" where
  "apply_cdc_event env object_type event = (\<lambda>s.
     let existing = object_record (cx_tenant_id env) (it_api_name object_type) (cv_object_id event) (cd_objects s) in
     if (case existing of None \<Rightarrow> False | Some row \<Rightarrow> cdc_event_should_skip (or_property_versions row) event) then Inr (Skipped, s)
     else if cv_op event = ''d''
     then io_bind (apply_cdc_delete env object_type event existing) (\<lambda>done. io_return (if done then Deleted else Skipped)) s
     else io_bind (apply_cdc_upsert env object_type event existing) (\<lambda>done. io_return (if done then Upserted else Skipped)) s)"

section \<open>Batches\<close>

definition count_outcome :: "cdc_outcome \<Rightarrow> cdc_counts \<Rightarrow> cdc_counts" where
  "count_outcome out c = (case out of
       Upserted \<Rightarrow> c\<lparr>ic_objects_upserted := ic_objects_upserted c + 1\<rparr>
     | Deleted \<Rightarrow> c\<lparr>ic_objects_deleted := ic_objects_deleted c + 1\<rparr>
     | Skipped \<Rightarrow> c\<lparr>ic_events_skipped := ic_events_skipped c + 1\<rparr>)"

definition persist_cdc_events :: "cdc_env \<Rightarrow> indexed_object_type \<Rightarrow> cdc_event list \<Rightarrow> (cdc_db, cdc_counts) io" where
  "persist_cdc_events env object_type events =
     io_fold (\<lambda>event c. io_bind (apply_cdc_event env object_type event) (\<lambda>out. io_return (count_outcome out c))) events
       \<lparr>ic_rows_read = length events, ic_objects_upserted = 0, ic_objects_deleted = 0, ic_events_skipped = 0, ic_links_upserted = 0\<rparr>"

definition parse_cdc_events :: "cdc_env \<Rightarrow> indexed_object_type \<Rightarrow> dict list \<Rightarrow> cdc_event list result" where
  "parse_cdc_events env object_type =
     map_result (\<lambda>raw. parse_object_cdc_event (cx_loads env) raw object_type (cx_properties env (it_id object_type)))"

definition cdc_object_type :: "cdc_env \<Rightarrow> string \<Rightarrow> indexed_object_type result" where
  "cdc_object_type env api_name = (case map_of (cx_object_types env) api_name of
       None \<Rightarrow> Inl (NotFound ''object type not found'')
     | Some object_type \<Rightarrow> rbind (cdc_source_dataset object_type) (\<lambda>_. Inr object_type))"

definition create_cdc_index_run :: "cdc_env \<Rightarrow> indexed_object_type \<Rightarrow> dict list \<Rightarrow> (cdc_db, string) io" where
  "create_cdc_index_run env object_type events =
     io_bind (on_objects (new_id (cx_ids env) ''index_run'')) (\<lambda>run_id. io_bind (on_objects (now (cx_ids env))) (\<lambda>time.
     io_bind (io_lift (cdc_source_dataset object_type)) (\<lambda>dataset.
     io_bind (create_index_run \<lparr>row_tenant_id = cx_tenant_id env, row_id = run_id, row_status = Some ''running'', row_values =
       [(''object_type_id'', PStr (it_id object_type)), (''object_type_api_name'', PStr (it_api_name object_type)),
        (''trigger_type'', PStr ''cdc_incremental''),
        (''source_ref'', PDict [(''cdc_dataset'', PStr dataset), (''event_count'', PInt (int (length events)))]),
        (''cursor'', PDict []), (''rows_read'', PInt 0), (''objects_upserted'', PInt 0), (''objects_deleted'', PInt 0),
        (''links_upserted'', PInt 0), (''error'', PNone), (''started_at'', PStr time), (''completed_at'', PNone),
        (''created_at'', PStr time)]\<rparr>) (\<lambda>_. io_return run_id))))"

definition audit_cdc_index :: "indexed_object_type \<Rightarrow> string \<Rightarrow> cdc_counts \<Rightarrow> (cdc_db, unit) io" where
  "audit_cdc_index object_type run_id counts = on_objects (\<lambda>db. Inr ((), db\<lparr>db_audit := db_audit db @
     [\<lparr>au_event_type = ''object.index.cdc_applied'', au_resource_id = it_id object_type, au_action = ''index_cdc_events'',
       au_after_ref = [(''index_run_id'', PStr run_id), (''objects_upserted'', PInt (int (ic_objects_upserted counts))),
         (''objects_deleted'', PInt (int (ic_objects_deleted counts))), (''events_skipped'', PInt (int (ic_events_skipped counts)))]\<rparr>]\<rparr>))"

definition run_cdc_index_batch :: "cdc_env \<Rightarrow> string \<Rightarrow> dict list \<Rightarrow> string \<Rightarrow> (cdc_db, cdc_counts) io" where
  "run_cdc_index_batch env api_name events run_id =
     io_bind (io_lift (cdc_object_type env api_name)) (\<lambda>object_type.
     io_bind (io_lift (parse_cdc_events env object_type events)) (\<lambda>parsed.
     io_bind (persist_cdc_events env object_type parsed) (\<lambda>counts.
     io_bind (mark_index_run_succeeded env run_id counts (cdc_cursor parsed (ic_events_skipped counts))) (\<lambda>_.
     io_bind (audit_cdc_index object_type run_id counts) (\<lambda>_. io_return counts)))))"

definition object_index_cdc_response :: "string \<Rightarrow> string \<Rightarrow> cdc_counts \<Rightarrow> dict" where
  "object_index_cdc_response run_id api_name counts =
     [(''index_run_id'', PStr run_id), (''object_type'', PStr api_name), (''rows_read'', PInt (int (ic_rows_read counts))),
      (''objects_upserted'', PInt (int (ic_objects_upserted counts))), (''objects_deleted'', PInt (int (ic_objects_deleted counts))),
      (''events_skipped'', PInt (int (ic_events_skipped counts)))]"

text \<open>Three transactions: the run is created, the batch is applied, and after an error of the batch, which rolls it
  back, the run is marked as failed. The result and the state that stays.\<close>

definition index_cdc_events :: "cdc_env \<Rightarrow> string \<Rightarrow> dict list \<Rightarrow> cdc_db \<Rightarrow> dict result \<times> cdc_db" where
  "index_cdc_events env api_name events s =
     (case io_bind (io_lift (cdc_object_type env api_name)) (\<lambda>object_type. create_cdc_index_run env object_type events) s of
        Inl e \<Rightarrow> (Inl e, s)
      | Inr (run_id, started) \<Rightarrow> (case run_cdc_index_batch env api_name events run_id started of
          Inr (counts, finished) \<Rightarrow> (Inr (object_index_cdc_response run_id api_name counts), finished)
        | Inl e \<Rightarrow> (case mark_index_run_failed env run_id e started of
            Inl e' \<Rightarrow> (Inl e', started) | Inr (_, failed) \<Rightarrow> (Inl e, failed))))"

section \<open>What one event does to the records\<close>

text \<open>Two states with the same object tables: everything the invariant of the object tables reads.\<close>

definition tables_kept :: "cdc_db \<Rightarrow> cdc_db \<Rightarrow> bool" where
  "tables_kept s s' \<longleftrightarrow> db_records (cd_objects s') = db_records (cd_objects s) \<and> db_versions (cd_objects s') = db_versions (cd_objects s)
     \<and> db_counters (cd_objects s') = db_counters (cd_objects s)"

lemma tables_kept_refl [simp]: "tables_kept s s"
  by (simp add: tables_kept_def)

lemma tables_kept_trans: "tables_kept s s' \<Longrightarrow> tables_kept s' s'' \<Longrightarrow> tables_kept s s''"
  by (simp add: tables_kept_def)

lemma tables_kept_ok: "tables_kept s s' \<Longrightarrow> db_ok (cd_objects s') \<longleftrightarrow> db_ok (cd_objects s)"
  by (simp add: tables_kept_def db_ok_def)

lemma tables_kept_record: "tables_kept s s' \<Longrightarrow> object_record t n i (cd_objects s') = object_record t n i (cd_objects s)"
  by (simp add: tables_kept_def object_record_def)

lemma on_objects_Inr: "on_objects m s = Inr (x, s') \<longleftrightarrow> (\<exists>db. m (cd_objects s) = Inr (x, db) \<and> s' = s\<lparr>cd_objects := db\<rparr>)"
  by (auto simp: on_objects_def rbind_eq_Inr)

lemma now_kept: "on_objects (now ids) s = Inr (x, s') \<Longrightarrow> tables_kept s s'"
  by (auto simp: on_objects_Inr now_def tables_kept_def)

lemma new_id_kept: "on_objects (new_id ids p) s = Inr (x, s') \<Longrightarrow> tables_kept s s'"
  by (auto simp: on_objects_Inr new_id_def tables_kept_def)

lemma emit_kept: "emit_object_changed ot e s = Inr (x, s') \<Longrightarrow> tables_kept s s'"
  by (auto simp: emit_object_changed_def on_objects_Inr outbox_def tables_kept_def)

lemma conflict_kept: "insert_conflict_if_needed env ot i row base source p s = Inr (x, s') \<Longrightarrow> tables_kept s s'"
  by (auto simp: insert_conflict_if_needed_def Let_def io_bind_Inr insert_object_conflict_def split: if_splits
      dest!: new_id_kept now_kept) (auto simp: tables_kept_def)

lemma conflicts_kept: "record_conflicts_for_base_update env ot i row base source s = Inr (x, s') \<Longrightarrow> tables_kept s s'"
proof -
  have "io_map (insert_conflict_if_needed env ot i row base source) ps s = Inr (x, s') \<Longrightarrow> tables_kept s s'" for ps s x
    by (induction ps arbitrary: s x) (auto simp: io_bind_Inr dest!: conflict_kept intro: tables_kept_trans)
  then show "record_conflicts_for_base_update env ot i row base source s = Inr (x, s') \<Longrightarrow> tables_kept s s'"
    by (simp add: record_conflicts_for_base_update_def)
qed

interpretation cdc_writer: versioned_change
  "\<lambda>r. or_object_version r = expected"
  "\<lambda>change_sequence r. r\<lparr>or_properties := properties, or_base_properties := base, or_property_versions := versions,
      or_source_dataset_version_id := source, or_source_hash := hash, or_object_version := expected + 1,
      or_object_change_sequence := Some change_sequence, or_deleted := deleted, or_deletion_reason := reason,
      or_updated_at := time\<rparr>"
  for expected properties base versions source hash deleted reason time
  by unfold_locales simp_all

text \<open>The row an event leaves, for a record that exists and for one that does not.\<close>

definition event_base :: "cdc_event \<Rightarrow> dict \<Rightarrow> dict" where
  "event_base event base = (if cv_base_patch event \<noteq> [] then cv_base_patch event else base)"

definition updated_row :: "cdc_env \<Rightarrow> indexed_object_type \<Rightarrow> cdc_event \<Rightarrow> object_row \<Rightarrow> bool \<Rightarrow> string \<Rightarrow> int \<Rightarrow> object_row" where
  "updated_row env ot e row deleted time seq =
     (let base = event_base e (or_base_properties row); current = merged_properties env ot base (or_edit_properties row) in
      row\<lparr>or_properties := current, or_base_properties := base,
        or_property_versions := cdc_property_versions (Some (or_property_versions row)) e current,
        or_source_dataset_version_id := Some (cdc_source_dataset_version_id e),
        or_source_hash := Some (cdc_source_hash (cx_digest env) e base), or_object_version := or_object_version row + 1,
        or_object_change_sequence := Some seq, or_deleted := deleted, or_deletion_reason := cdc_deletion_reason deleted,
        or_updated_at := time\<rparr>)"

lemma object_record_member: "object_record t n i db = Some row \<Longrightarrow>
  row \<in> set (db_records db) \<and> or_tenant_id row = t \<and> or_object_type_api_name row = n \<and> or_is_active row \<and> or_object_id row = i"
  by (auto simp: object_record_def dest!: sql_first_Some)

lemma update_effect:
  assumes ok: "db_ok (cd_objects s)" and row: "object_record (cx_tenant_id env) (it_api_name ot) (cv_object_id e) (cd_objects s) = Some row"
    and run: "update_cdc_object_record env ot e row deleted s = Inr (b, s')"
  obtains time seq before after where "b" "db_ok (cd_objects s')" "db_records (cd_objects s) = before @ row # after"
    "db_records (cd_objects s') = before @ updated_row env ot e row deleted time seq # after"
proof -
  let ?base = "event_base e (or_base_properties row)"
  let ?current = "merged_properties env ot ?base (or_edit_properties row)"
  from row have member: "row \<in> set (db_records (cd_objects s))" "or_tenant_id row = cx_tenant_id env"
    using object_record_member by blast+
  let ?u = "\<lambda>time. cdc_record_update env row e ?base ?current deleted time"
  have "\<exists>time s1 updated s2. on_objects (now (cx_ids env)) s = Inr (time, s1)
      \<and> on_objects (update_object_record_from_cdc (cx_ids env) (?u time)) s1 = Inr (updated, s2)
      \<and> (updated \<longrightarrow> io_bind (emit_object_changed ot e) (\<lambda>_. io_return True) s2 = Inr (b, s'))"
    using run [unfolded update_cdc_object_record_def Let_def event_base_def [symmetric] io_bind_Inr]
    by (elim exE conjE) (intro exI conjI impI, assumption, assumption, simp add: io_bind_Inr)
  then obtain time s1 updated s2 where time: "on_objects (now (cx_ids env)) s = Inr (time, s1)"
    and cas: "on_objects (update_object_record_from_cdc (cx_ids env) (?u time)) s1 = Inr (updated, s2)"
    and rest: "updated \<Longrightarrow> io_bind (emit_object_changed ot e) (\<lambda>_. io_return True) s2 = Inr (b, s')" by blast
  have ok1: "db_ok (cd_objects s1)" and member1: "row \<in> set (db_records (cd_objects s1))"
    using tables_kept_ok [OF now_kept [OF time]] now_kept [OF time, unfolded tables_kept_def] ok member(1) by simp_all
  from cas obtain db2 where wrote: "update_object_record_from_cdc (cx_ids env) (?u time) (cd_objects s1) = Inr (updated, db2)" "s2 = s1\<lparr>cd_objects := db2\<rparr>"
    by (auto simp: on_objects_Inr)
  have wrote_def: "update_object_record_from_cdc (cx_ids env) (?u time) = object_cas (cx_ids env) (cx_tenant_id env) (or_id row)
      (\<lambda>r. or_object_version r = or_object_version row)
      (\<lambda>change_sequence r. r\<lparr>or_properties := ?current, or_base_properties := ?base,
        or_property_versions := cdc_property_versions (Some (or_property_versions row)) e ?current,
        or_source_dataset_version_id := Some (cdc_source_dataset_version_id e),
        or_source_hash := Some (cdc_source_hash (cx_digest env) e ?base), or_object_version := or_object_version row + 1,
        or_object_change_sequence := Some change_sequence, or_deleted := deleted, or_deletion_reason := cdc_deletion_reason deleted,
        or_updated_at := time\<rparr>)"
    by (simp add: update_object_record_from_cdc_def cdc_record_update_def)
  note unique = db_ok_unique_id [OF ok1]
  have ok2: "db_ok db2" using wrote(1) unfolding wrote_def by (rule cdc_writer.cas_keeps_ok [OF ok1])
  show thesis
  proof (cases rule: cdc_writer.cas_cases [OF unique, where tenant_id = "cx_tenant_id env" and record_id = "or_id row" and ids = "cx_ids env"
      and expected = "or_object_version row" and properties = ?current and base = ?base
      and versions = "cdc_property_versions (Some (or_property_versions row)) e ?current"
      and source = "Some (cdc_source_dataset_version_id e)" and hash = "Some (cdc_source_hash (cx_digest env) e ?base)"
      and deleted = deleted and reason = "cdc_deletion_reason deleted" and time = time, case_names hit miss])
    case (hit before row' after)
    have same: "row' = row" using unique_on_inj [OF unique _ member1 hit(3)] hit(1) by simp
    have success: "updated" using wrote(1) hit(5) unfolding wrote_def by simp
    have records: "db_records db2 = before @ updated_row env ot e row deleted time (next_sequence (cx_tenant_id env) (cd_objects s1)) # after"
      using wrote(1) hit(5) unfolding wrote_def same by (auto simp: put_version_def updated_row_def Let_def)
    from rest [OF success] have b: "b" and kept: "tables_kept s2 s'" by (auto simp: io_bind_Inr dest: emit_kept)
    show thesis
    proof (rule that [OF b])
      show "db_ok (cd_objects s')" using tables_kept_ok [OF kept] ok2 wrote(2) by simp
      show "db_records (cd_objects s) = before @ row # after"
        using now_kept [OF time] hit(1) same by (simp add: tables_kept_def)
      show "db_records (cd_objects s') = before @ updated_row env ot e row deleted time (next_sequence (cx_tenant_id env) (cd_objects s1)) # after"
        using kept records wrote(2) by (simp add: tables_kept_def)
    qed
  next
    case miss
    from miss(1) [OF member1 member(2) refl] show thesis by simp
  qed
qed

lemma insert_effect:
  assumes ok: "db_ok (cd_objects s)" and run: "insert_cdc_object_record env ot e deleted s = Inr (u, s')"
  obtains index_version time record_id seq where "db_ok (cd_objects s')"
    "db_records (cd_objects s') = db_records (cd_objects s)
       @ [cdc_object_insert env ot e (merged_properties env ot (cv_base_patch e) []) index_version deleted time record_id seq]"
proof -
  let ?v = "active_index_version (cx_tenant_id env) (it_id ot) s"
  let ?row = "cdc_object_insert env ot e (merged_properties env ot (cv_base_patch e) []) ?v deleted"
  from run obtain time s1 record_id s2 s3 where steps: "on_objects (now (cx_ids env)) s = Inr (time, s1)"
    "on_objects (new_id (cx_ids env) ''obj'') s1 = Inr (record_id, s2)"
    "on_objects (insert_object_record (cx_ids env) (cx_tenant_id env) (?row time record_id)) s2 = Inr ((), s3)"
    "emit_object_changed ot e s3 = Inr (u, s')"
    by (auto simp: insert_cdc_object_record_def Let_def io_bind_Inr)
  have kept: "tables_kept s s2" by (rule tables_kept_trans [OF now_kept [OF steps(1)] new_id_kept [OF steps(2)]])
  have ok2: "db_ok (cd_objects s2)" using tables_kept_ok [OF kept] ok by simp
  let ?new = "?row time record_id (next_sequence (cx_tenant_id env) (cd_objects s2))"
  from steps(3) have fresh: "or_id ?new \<notin> set (map or_id (db_records (cd_objects s2)))"
      "object_identity ?new \<notin> set (map object_identity (db_records (cd_objects s2)))"
    and put: "cd_objects s3 = put_version (cx_ids env) (db_records (cd_objects s2) @ [?new]) ?new (advance_counter (or_tenant_id ?new) (cd_objects s2))"
    by (auto simp: on_objects_Inr insert_object_record_def io_bind_def next_object_change_sequence_eq Let_def new_id_def put_version_def
        advance_counter_def cdc_object_insert_def split: if_splits)
  have "db_ok (cd_objects s3)" unfolding put
  proof (rule db_ok_put [OF ok2])
    show "unique_on or_id (db_records (cd_objects s2) @ [?new])" "unique_on object_identity (db_records (cd_objects s2) @ [?new])"
      using db_ok_unique_id [OF ok2] db_ok_unique_identity [OF ok2] fresh by (simp_all add: unique_on_def)
    show "or_object_change_sequence ?new = Some (next_sequence (or_tenant_id ?new) (cd_objects s2))" by (simp add: cdc_object_insert_def)
    show "or_object_version r < or_object_version ?new" if "r \<in> set (db_records (cd_objects s2))" "or_id r = or_id ?new" for r
      using that fresh(1) by (metis image_eqI list.set_map)
  qed auto
  then have "db_ok (cd_objects s')" using tables_kept_ok [OF emit_kept [OF steps(4)]] by simp
  moreover have "db_records (cd_objects s') = db_records (cd_objects s) @ [?new]"
    using emit_kept [OF steps(4)] kept put by (simp add: tables_kept_def put_version_def)
  ultimately show thesis by (rule that)
qed

section \<open>What a record shows of the events\<close>

text \<open>The row is the work of the event: its order, its deletion flag, its source version, its base values if it carried
  any, and the edits that were there.\<close>

definition shows_event :: "cdc_env \<Rightarrow> indexed_object_type \<Rightarrow> cdc_event \<Rightarrow> dict \<Rightarrow> object_row \<Rightarrow> bool" where
  "shows_event env ot e edits r \<longleftrightarrow>
     (case event_key e of Inl _ \<Rightarrow> False | Inr k \<Rightarrow> stored_key (or_property_versions r) = Some k)
     \<and> or_deleted r = (cv_op e = ''d'') \<and> or_source_dataset_version_id r = Some (cdc_source_dataset_version_id e)
     \<and> (cv_base_patch e \<noteq> [] \<longrightarrow> or_base_properties r = cv_base_patch e) \<and> or_edit_properties r = edits
     \<and> or_properties r = merged_properties env ot (or_base_properties r) edits"

definition edits_of :: "object_row option \<Rightarrow> dict" where
  "edits_of r = (case r of None \<Rightarrow> [] | Some row \<Rightarrow> or_edit_properties row)"

definition key_of :: "object_row option \<Rightarrow> ordering_key option" where
  "key_of r = (case r of None \<Rightarrow> None | Some row \<Rightarrow> stored_key (or_property_versions row))"

definition applied :: "cdc_env \<Rightarrow> indexed_object_type \<Rightarrow> cdc_event \<Rightarrow> object_row option \<Rightarrow> object_row option \<Rightarrow> bool" where
  "applied env ot e before after \<longleftrightarrow> (\<exists>r. after = Some r \<and> shows_event env ot e (edits_of before) r)"

lemma skip_iff_reached: "event_key e = Inr k \<Longrightarrow> cdc_event_should_skip (or_property_versions row) e \<longleftrightarrow> reached (key_of (Some row)) k"
  by (simp add: cdc_event_should_skip_iff reached_def key_of_def split: option.split)

lemma updated_row_shows: "event_key e = Inr k \<Longrightarrow> deleted = (cv_op e = ''d'') \<Longrightarrow>
  shows_event env ot e (or_edit_properties row) (updated_row env ot e row deleted time seq)"
  by (auto simp: shows_event_def updated_row_def Let_def event_base_def)

lemma inserted_row_shows: "event_key e = Inr k \<Longrightarrow> deleted = (cv_op e = ''d'') \<Longrightarrow>
  shows_event env ot e [] (cdc_object_insert env ot e (merged_properties env ot (cv_base_patch e) []) v deleted time i seq)"
  by (auto simp: shows_event_def cdc_object_insert_def)

lemma find_replaced:
  assumes "find P (before @ row # after) = Some row" "row \<notin> set before" "P row'"
  shows "find P (before @ row' # after) = Some row'"
  using assms by (induction before) (auto split: if_splits)

lemma find_other: "\<not> P row \<Longrightarrow> \<not> P row' \<Longrightarrow> find P (before @ row' # after) = find P (before @ row # after)"
  by (induction before) auto

lemma find_append: "find P (xs @ ys) = (case find P xs of None \<Rightarrow> find P ys | Some x \<Rightarrow> Some x)"
  by (induction xs) auto

text \<open>The active record of an object after an event.\<close>

lemma updated_record:
  assumes "db_ok db" "object_record t n i db = Some row" "db_records db = before @ row # after" "db_records db' = before @ row' # after"
    "or_tenant_id row' = or_tenant_id row" "or_object_type_api_name row' = or_object_type_api_name row"
    "or_is_active row' = or_is_active row" "or_object_id row' = or_object_id row"
  shows "object_record t n j db' = (if j = i then Some row' else object_record t n j db)"
proof -
  note r = object_record_member [OF assms(2)]
  have "row \<notin> set before" using db_ok_unique_id [OF assms(1)] unfolding assms(3) unique_on_def by auto
  show ?thesis
  proof (cases "j = i")
    case True
    with find_replaced [OF _ \<open>row \<notin> set before\<close>] assms r show ?thesis by (simp add: object_record_def sql_first_def)
  next
    case False
    then show ?thesis using assms r by (simp add: object_record_def sql_first_def find_other)
  qed
qed

lemma apply_event_effect:
  assumes ok: "db_ok (cd_objects s)" and key: "event_key e = Inr k" and run: "apply_cdc_event env ot e s = Inr (out, s')"
  defines "seen \<equiv> \<lambda>i s. object_record (cx_tenant_id env) (it_api_name ot) i (cd_objects s)"
  shows "db_ok (cd_objects s') \<and> (\<forall>i. i \<noteq> cv_object_id e \<longrightarrow> seen i s' = seen i s) \<and>
    (reached (key_of (seen (cv_object_id e) s)) k \<and> seen (cv_object_id e) s' = seen (cv_object_id e) s
     \<or> surpassed (key_of (seen (cv_object_id e) s)) k \<and> applied env ot e (seen (cv_object_id e) s) (seen (cv_object_id e) s'))"
proof -
  let ?i = "cv_object_id e" and ?deleted = "cv_op e = ''d''"
  consider (insert) "seen ?i s = None" | (skip) row where "seen ?i s = Some row" "reached (key_of (Some row)) k"
    | (update) row where "seen ?i s = Some row" "\<not> reached (key_of (Some row)) k"
    by (cases "seen ?i s") blast+
  then show ?thesis
  proof cases
    case skip
    with run have "s' = s" by (simp add: apply_cdc_event_def seen_def Let_def skip_iff_reached [OF key])
    with skip ok show ?thesis by simp
  next
    case insert
    with run have "insert_cdc_object_record env ot e ?deleted s = Inr ((), s')"
      by (auto simp: apply_cdc_event_def seen_def Let_def apply_cdc_delete_def apply_cdc_upsert_def io_bind_Inr split: if_splits)
    from insert_effect [OF ok this] obtain v time j seq where new: "db_ok (cd_objects s')"
      "db_records (cd_objects s') = db_records (cd_objects s)
         @ [cdc_object_insert env ot e (merged_properties env ot (cv_base_patch e) []) v ?deleted time j seq]" by blast
    let ?row = "cdc_object_insert env ot e (merged_properties env ot (cv_base_patch e) []) v ?deleted time j seq"
    have "seen i s' = (if i = ?i then Some ?row else seen i s)" for i
      using insert by (auto simp: seen_def object_record_def sql_first_def new(2) find_append cdc_object_insert_def split: option.splits)
    then show ?thesis using new(1) insert inserted_row_shows [OF key refl, of env ot v time j seq]
      by (simp add: applied_def key_of_def edits_of_def surpassed_def)
  next
    case (update row)
    have existing: "object_record (cx_tenant_id env) (it_api_name ot) ?i (cd_objects s) = Some row"
      and kept_event: "\<not> cdc_event_should_skip (or_property_versions row) e"
      using update skip_iff_reached [OF key] by (simp_all add: seen_def)
    obtain b s1 where s1: "tables_kept s s1" "update_cdc_object_record env ot e row ?deleted s1 = Inr (b, s')"
    proof (cases ?deleted)
      case True
      from run have "\<exists>b. update_cdc_object_record env ot e row True s = Inr (b, s')"
        unfolding apply_cdc_event_def Let_def existing apply_cdc_delete_def by (simp add: kept_event True io_bind_Inr) blast
      then obtain b where "update_cdc_object_record env ot e row ?deleted s = Inr (b, s')" using True by auto
      with tables_kept_refl show thesis by (rule that)
    next
      case False
      from run have "\<exists>u b s1. record_conflicts_for_base_update env ot ?i row (cv_base_patch e) (cdc_source_dataset_version_id e) s = Inr (u, s1)
          \<and> update_cdc_object_record env ot e row False s1 = Inr (b, s')"
        unfolding apply_cdc_event_def Let_def existing apply_cdc_upsert_def by (simp add: kept_event False io_bind_Inr) blast
      then obtain u b s1 where
        "record_conflicts_for_base_update env ot ?i row (cv_base_patch e) (cdc_source_dataset_version_id e) s = Inr (u, s1)"
        and updated: "update_cdc_object_record env ot e row ?deleted s1 = Inr (b, s')" using False by auto
      from conflicts_kept [OF this(1)] updated show thesis by (rule that)
    qed
    have ok1: "db_ok (cd_objects s1)" using tables_kept_ok [OF s1(1)] ok by simp
    have row1: "object_record (cx_tenant_id env) (it_api_name ot) ?i (cd_objects s1) = Some row"
      using tables_kept_record [OF s1(1)] update(1) by (simp add: seen_def)
    obtain time seq before after where new: "db_ok (cd_objects s')" "db_records (cd_objects s1) = before @ row # after"
      "db_records (cd_objects s') = before @ updated_row env ot e row ?deleted time seq # after"
      by (rule update_effect [OF ok1 row1 s1(2)])
    let ?row = "updated_row env ot e row ?deleted time seq"
    have "seen i s' = (if i = ?i then Some ?row else seen i s)" for i
      using updated_record [OF ok1 row1 new(2,3)] tables_kept_record [OF s1(1)] by (simp add: seen_def updated_row_def Let_def)
    then show ?thesis using new(1) update updated_row_shows [OF key refl, of env ot row time seq]
      by (simp add: applied_def edits_of_def not_reached)
  qed
qed

section \<open>Batches of events\<close>

text \<open>The outcome for one object: its record is not older than any event, and it is either untouched or the work of an
  event newer than what was stored.\<close>

definition bears_key :: "cdc_event \<Rightarrow> ordering_key \<Rightarrow> bool" where
  "bears_key e k \<longleftrightarrow> event_key e = Inr k"

interpretation cdc_updates: ordered_updates bears_key key_of "applied env ot" for env ot
  by unfold_locales (auto simp: applied_def shows_event_def bears_key_def key_of_def edits_of_def)

definition newest_seen ::
  "cdc_env \<Rightarrow> indexed_object_type \<Rightarrow> cdc_event list \<Rightarrow> object_row option \<Rightarrow> object_row option \<Rightarrow> bool" where
  "newest_seen env ot = newest_applied bears_key key_of (applied env ot)"

definition events_for :: "string \<Rightarrow> cdc_event list \<Rightarrow> cdc_event list" where
  "events_for i events = filter (\<lambda>e. cv_object_id e = i) events"

lemma newest_seen_step:
  assumes "reached (key_of before) k \<and> mid = before \<or> surpassed (key_of before) k \<and> applied env ot e before mid"
    and "event_key e = Inr k" and rest: "newest_seen env ot events mid after"
  shows "newest_seen env ot (e # events) before after"
proof -
  have key: "bears_key e k" "\<And>k'. bears_key e k' \<Longrightarrow> k' = k" using assms(2) by (simp_all add: bears_key_def)
  from assms(1) show ?thesis
  proof (elim disjE conjE)
    assume "reached (key_of before) k" "mid = before"
    with cdc_updates.newest_skip [OF _ key] rest show ?thesis unfolding newest_seen_def by blast
  next
    assume "surpassed (key_of before) k" "applied env ot e before mid"
    with cdc_updates.newest_work [OF _ _ key] rest show ?thesis unfolding newest_seen_def by blast
  qed
qed

lemma persist_newest:
  assumes "io_fold (\<lambda>event c. io_bind (apply_cdc_event env ot event) (\<lambda>out. io_return (count_outcome out c))) events c s = Inr (c', s')"
    and "db_ok (cd_objects s)" "\<forall>e \<in> set events. \<exists>k. event_key e = Inr k"
  shows "db_ok (cd_objects s') \<and> newest_seen env ot (events_for i events)
     (object_record (cx_tenant_id env) (it_api_name ot) i (cd_objects s)) (object_record (cx_tenant_id env) (it_api_name ot) i (cd_objects s'))"
  using assms
proof (induction events arbitrary: c s)
  case Nil
  then show ?case by (simp add: events_for_def newest_seen_def cdc_updates.newest_Nil)
next
  case (Cons e events)
  from Cons.prems(3) obtain k where k: "event_key e = Inr k" by auto
  from Cons.prems(1) obtain out s1 where s1: "apply_cdc_event env ot e s = Inr (out, s1)"
    and rest: "io_fold (\<lambda>event c. io_bind (apply_cdc_event env ot event) (\<lambda>out. io_return (count_outcome out c))) events
      (count_outcome out c) s1 = Inr (c', s')" by (auto simp: io_bind_Inr)
  note effect = apply_event_effect [OF Cons.prems(2) k s1]
  from Cons.IH [OF rest _ ] effect Cons.prems(3) have IH: "db_ok (cd_objects s')" "newest_seen env ot (events_for i events)
     (object_record (cx_tenant_id env) (it_api_name ot) i (cd_objects s1)) (object_record (cx_tenant_id env) (it_api_name ot) i (cd_objects s'))"
    by simp_all
  show ?case
  proof (cases "cv_object_id e = i")
    case True
    with effect newest_seen_step [OF _ k IH(2)] IH(1) show ?thesis by (simp add: events_for_def)
  next
    case False
    with effect IH show ?thesis by (simp add: events_for_def)
  qed
qed

section \<open>Properties\<close>

text \<open>What two deliveries have to agree on: nothing indexed, or the same order, deletion, source version, edits, and
  with values in every event the same base and merged properties.\<close>

definition same_source_state :: "cdc_event set \<Rightarrow> object_row option \<Rightarrow> object_row option \<Rightarrow> bool" where
  "same_source_state events a b \<longleftrightarrow> (case (a, b) of
       (None, None) \<Rightarrow> True
     | (Some r, Some r') \<Rightarrow> stored_key (or_property_versions r) = stored_key (or_property_versions r')
         \<and> or_deleted r = or_deleted r' \<and> or_source_dataset_version_id r = or_source_dataset_version_id r'
         \<and> or_edit_properties r = or_edit_properties r'
         \<and> ((\<forall>e \<in> events. cv_base_patch e \<noteq> []) \<longrightarrow> or_base_properties r = or_base_properties r' \<and> or_properties r = or_properties r')
     | _ \<Rightarrow> False)"

lemma newest_seen_unique:
  assumes "newest_seen env ot es before a" "newest_seen env ot es' before b" "set es = set es'" "inj_on event_key (set es)"
  shows "same_source_state (set es) a b"
proof -
  have inj: "\<And>e e' k. e \<in> set es \<Longrightarrow> e' \<in> set es \<Longrightarrow> bears_key e k \<Longrightarrow> bears_key e' k \<Longrightarrow> e = e'"
    using inj_onD [OF assms(4)] unfolding bears_key_def by metis
  have "a = before \<and> b = before \<or> (\<exists>e \<in> set es. applied env ot e before a \<and> applied env ot e before b)"
    by (rule cdc_updates.newest_unique [OF assms(1,2) [unfolded newest_seen_def] assms(3)]) (rule inj)
  then show ?thesis
    unfolding same_source_state_def applied_def shows_event_def
    by (elim disjE bexE exE conjE) (simp_all split: option.split sum.split_asm)
qed

text \<open>
  C22: Change events converge. Two batches with the same events, in any order and with any repetitions, applied
  to the same state, leave every object with the same place in the order of events, the same deletion flag and
  source version, its edits, and (when all events carry values) the same base and merged properties.
\<close>
theorem cdc_delivery_converges:
  assumes "persist_cdc_events env ot events s = Inr (c, s1)" "persist_cdc_events env ot events' s = Inr (c', s2)"
    and "set events = set events'" "inj_on event_key (set events)"
    and "\<forall>e \<in> set events. require_cdc_ordering (cv_ordering e) (cv_event_id e) = Inr ()" "db_ok (cd_objects s)"
  shows "same_source_state (set (events_for i events))
     (object_record (cx_tenant_id env) (it_api_name ot) i (cd_objects s1)) (object_record (cx_tenant_id env) (it_api_name ot) i (cd_objects s2))"
proof -
  have keys: "\<forall>e \<in> set events. \<exists>k. event_key e = Inr k" "\<forall>e \<in> set events'. \<exists>k. event_key e = Inr k"
    using assms(3,5) required_ordering_has_key by (auto simp: event_key_def)
  note runs = assms(1,2) [unfolded persist_cdc_events_def]
  have "set (events_for i events) = set (events_for i events')" using assms(3) by (auto simp: events_for_def)
  moreover have "inj_on event_key (set (events_for i events))"
    by (rule inj_on_subset [OF assms(4)]) (auto simp: events_for_def)
  ultimately show ?thesis
    using newest_seen_unique persist_newest [OF runs(1) assms(6) keys(1)] persist_newest [OF runs(2) assms(6) keys(2)] by blast
qed


section \<open>A run of events, and a record that blocks one\<close>

definition cdc_sample_env :: cdc_env where
  "cdc_sample_env = \<lparr>cx_ids = \<lparr>uuid_hex = show_nat, clock_text = (\<lambda>_. ''t'')\<rparr>, cx_tenant_id = ''acme'', cx_loads = (\<lambda>_. None),
     cx_digest = (\<lambda>s. s), cx_object_types = [], cx_properties = (\<lambda>_. [\<lparr>ip_api_name = ''total'', ip_edit_policy = ''edit_wins'',
       ip_source = ''dataset'', ip_column_name = Some ''total''\<rparr>]), cx_error_payload = (\<lambda>_. PNone)\<rparr>"

definition cdc_sample_type :: indexed_object_type where
  "cdc_sample_type = \<lparr>it_id = ''ot1'', it_api_name = ''Order'', it_backing = [], it_primary_key_property = ''id''\<rparr>"

definition cdc_sample_event :: "string \<Rightarrow> int \<Rightarrow> string \<Rightarrow> cdc_event" where
  "cdc_sample_event op lsn amount = \<lparr>cv_event_id = ''orders:0:'' @ amount, cv_op = op, cv_object_id = ''o1'', cv_base_patch = [(''total'', PStr amount)],
     cv_ordering = [(''lsn'', PInt lsn)], cv_late_data_status = None, cv_event_time_lag_seconds = None\<rparr>"

definition empty_cdc_db :: cdc_db where
  "empty_cdc_db = \<lparr>cd_objects = \<lparr>db_records = [], db_versions = [], db_links = [], db_counters = [], db_edits = [], db_action_runs = [],
     db_outbox = [], db_audit = [], db_uuids = 0, db_ticks = 0\<rparr>, cd_conflicts = [], cd_active_versions = [], cd_runs = []\<rparr>"

lemma cdc_samples:
  "case persist_cdc_events cdc_sample_env cdc_sample_type [cdc_sample_event ''c'' 1 ''10'', cdc_sample_event ''d'' 2 ''20''] empty_cdc_db of
     Inl _ \<Rightarrow> False | Inr (c, s) \<Rightarrow> map or_deleted (db_records (cd_objects s)) = [True]"
  "case persist_cdc_events cdc_sample_env cdc_sample_type
       [cdc_sample_event ''d'' 2 ''20'', cdc_sample_event ''c'' 1 ''10'', cdc_sample_event ''d'' 2 ''20''] empty_cdc_db of
     Inl _ \<Rightarrow> False | Inr (c, s) \<Rightarrow> ic_events_skipped c = 2"
  "event_key (cdc_sample_event ''c'' 1 ''10'') \<noteq> event_key (cdc_sample_event ''d'' 2 ''20'')"
  "require_cdc_ordering (cv_ordering (cdc_sample_event ''c'' 1 ''10'')) (cv_event_id (cdc_sample_event ''c'' 1 ''10'')) = Inr ()"
  "require_cdc_ordering (cv_ordering (cdc_sample_event ''d'' 2 ''20'')) (cv_event_id (cdc_sample_event ''d'' 2 ''20'')) = Inr ()"
  by code_simp+

lemma empty_cdc_db_ok: "db_ok (cd_objects empty_cdc_db)"
  by (simp add: empty_cdc_db_def db_ok_def unique_on_def)

theorem cdc_delivery_converges_witness:
  "\<exists>c c' s1 s2. persist_cdc_events cdc_sample_env cdc_sample_type [cdc_sample_event ''c'' 1 ''10'', cdc_sample_event ''d'' 2 ''20''] empty_cdc_db = Inr (c, s1)
     \<and> persist_cdc_events cdc_sample_env cdc_sample_type
         [cdc_sample_event ''d'' 2 ''20'', cdc_sample_event ''c'' 1 ''10'', cdc_sample_event ''d'' 2 ''20''] empty_cdc_db = Inr (c', s2)
     \<and> map or_deleted (db_records (cd_objects s1)) = [True]
     \<and> same_source_state (set (events_for ''o1'' [cdc_sample_event ''c'' 1 ''10'', cdc_sample_event ''d'' 2 ''20'']))
        (object_record ''acme'' ''Order'' ''o1'' (cd_objects s1)) (object_record ''acme'' ''Order'' ''o1'' (cd_objects s2))"
proof -
  from cdc_samples(1) obtain c s1 where one: "persist_cdc_events cdc_sample_env cdc_sample_type [cdc_sample_event ''c'' 1 ''10'', cdc_sample_event ''d'' 2 ''20''] empty_cdc_db = Inr (c, s1)"
    "map or_deleted (db_records (cd_objects s1)) = [True]" by (auto split: sum.split_asm)
  from cdc_samples(2) obtain c' s2 where two: "persist_cdc_events cdc_sample_env cdc_sample_type
         [cdc_sample_event ''d'' 2 ''20'', cdc_sample_event ''c'' 1 ''10'', cdc_sample_event ''d'' 2 ''20''] empty_cdc_db = Inr (c', s2)"
    by (auto split: sum.split_asm)
  have "inj_on event_key (set [cdc_sample_event ''c'' 1 ''10'', cdc_sample_event ''d'' 2 ''20''])"
    using cdc_samples(3) by (auto simp: inj_on_def)
  moreover have "\<forall>e \<in> set [cdc_sample_event ''c'' 1 ''10'', cdc_sample_event ''d'' 2 ''20'']. require_cdc_ordering (cv_ordering e) (cv_event_id e) = Inr ()"
    using cdc_samples(4,5) by simp
  moreover have "set [cdc_sample_event ''c'' 1 ''10'', cdc_sample_event ''d'' 2 ''20'']
    = set [cdc_sample_event ''d'' 2 ''20'', cdc_sample_event ''c'' 1 ''10'', cdc_sample_event ''d'' 2 ''20'']" by auto
  ultimately have "same_source_state (set (events_for ''o1'' [cdc_sample_event ''c'' 1 ''10'', cdc_sample_event ''d'' 2 ''20'']))
        (object_record (cx_tenant_id cdc_sample_env) (it_api_name cdc_sample_type) ''o1'' (cd_objects s1))
        (object_record (cx_tenant_id cdc_sample_env) (it_api_name cdc_sample_type) ''o1'' (cd_objects s2))"
    using cdc_delivery_converges [OF one(1) two _ _ _ empty_cdc_db_ok] by blast
  with one two show ?thesis by (auto simp: cdc_sample_env_def cdc_sample_type_def)
qed


text \<open>
  A record that an action deleted is inactive but keeps its place in the index: the next change event of the object does
  not see it, inserts it again, and the unique constraint of the table fails the whole batch.
\<close>

lemma inactive_record_fails_batch:
  assumes "object_record (cx_tenant_id env) (it_api_name ot) (cv_object_id e) (cd_objects s) = None"
    and "row \<in> set (db_records (cd_objects s))" "or_tenant_id row = cx_tenant_id env" "or_object_type_id row = it_id ot"
    "or_object_id row = cv_object_id e" "or_index_version row = active_index_version (cx_tenant_id env) (it_id ot) s"
  shows "apply_cdc_event env ot e s = Inl IntegrityError"
proof -
  have "(cx_tenant_id env, it_id ot, cv_object_id e, active_index_version (cx_tenant_id env) (it_id ot) s)
      \<in> set (map object_identity (db_records (cd_objects s)))"
    using assms(2-6) by (force simp: image_iff)
  then have "insert_cdc_object_record env ot e deleted s = Inl IntegrityError" for deleted
    by (simp add: insert_cdc_object_record_def Let_def io_bind_def on_objects_def now_def new_id_def insert_object_record_def
        next_object_change_sequence_def cdc_object_insert_def)
  with assms(1) show ?thesis
    by (simp add: apply_cdc_event_def apply_cdc_delete_def apply_cdc_upsert_def io_bind_def)
qed

end
