(* ===== verification/Evidence_Redaction.thy ===== *)
theory Evidence_Redaction
  imports Prelude
begin

text \<open>
  \<^verbatim>\<open>domain/platform/evidence.py\<close>: evidence is stored and shown with the values of sensitive keys replaced by
  markers, at any depth. Shown: what is under a sensitive key does not reach the result, nothing else changes,
  and redacting twice is redacting once.
\<close>

section \<open>Sensitive keys\<close>

definition forbidden_json_key_parts :: "string list" where
  "forbidden_json_key_parts = [''authorization'', ''cookie'', ''setcookie'', ''token'', ''accesstoken'', ''refreshtoken'',
     ''apikey'', ''clientsecret'', ''connectionstring'', ''databaseurl'', ''dsn'', ''headervalue'', ''hmac'', ''jwt'',
     ''privatekey'', ''secret'', ''signature'', ''password'']"

definition forbidden_json_keys :: "string list" where
  "forbidden_json_keys = [''actionproposal'', ''compiledprompt'', ''credentials'', ''plaintext'', ''prompt'',
     ''providerrequest'', ''providerresponse'']"

definition allowed_status_keys :: "string list" where
  "allowed_status_keys = [''authorizationdecision'']"

definition token_count_keys :: "string list" where
  "token_count_keys = [''inputtokens'', ''outputtokens'', ''totaltokens'']"

definition secret_value_parts :: "string list" where
  "secret_value_parts = [''apikey'', ''clientsecret'', ''connectionstring'', ''databaseurl'', ''dsn'', ''headervalue'', ''hmac'',
     ''jwt'', ''password'', ''privatekey'', ''secret'', ''signature'', ''token'']"

definition normalize_json_key :: "string \<Rightarrow> string" where
  "normalize_json_key key = filter is_alnum (py_lower key)"

definition should_redact_json_key :: "string \<Rightarrow> string list \<Rightarrow> string list \<Rightarrow> bool" where
  "should_redact_json_key key sensitive normalized_sensitive =
     (if key \<in> set sensitive then True
      else let normalized = normalize_json_key key in
        if normalized \<in> set normalized_sensitive then True
        else if normalized \<in> set token_count_keys \<or> normalized \<in> set allowed_status_keys then False
        else if normalized \<in> set forbidden_json_keys then True
        else list_ex (contains_text normalized) forbidden_json_key_parts)"

definition redacted_value :: "string \<Rightarrow> pyval \<Rightarrow> pyval" where
  "redacted_value key v =
     (if v = PStr ''***REDACTED***'' then PStr ''***REDACTED***''
      else if list_ex (contains_text (normalize_json_key key)) secret_value_parts then PStr ''***REDACTED***''
      else PStr ''***MASKED***'')"

section \<open>Redaction\<close>

fun redact_sensitive_value :: "string list \<Rightarrow> string list \<Rightarrow> pyval \<Rightarrow> pyval"
and redact_items :: "string list \<Rightarrow> string list \<Rightarrow> pyval list \<Rightarrow> pyval list"
and redact_entries :: "string list \<Rightarrow> string list \<Rightarrow> dict \<Rightarrow> dict" where
  "redact_sensitive_value sensitive normalized (PDict d) = PDict (redact_entries sensitive normalized d)"
| "redact_sensitive_value sensitive normalized (PList xs) = PList (redact_items sensitive normalized xs)"
| "redact_sensitive_value sensitive normalized v = v"
| "redact_items sensitive normalized [] = []"
| "redact_items sensitive normalized (x # xs) = redact_sensitive_value sensitive normalized x # redact_items sensitive normalized xs"
| "redact_entries sensitive normalized [] = []"
| "redact_entries sensitive normalized ((key, item) # d) =
     (key, if should_redact_json_key key sensitive normalized then redacted_value key item
           else redact_sensitive_value sensitive normalized item) # redact_entries sensitive normalized d"

definition redact_evidence :: "string list \<Rightarrow> pyval \<Rightarrow> pyval" where
  "redact_evidence sensitive_keys v = redact_sensitive_value sensitive_keys (map normalize_json_key sensitive_keys) v"

section \<open>What an observer may see\<close>

text \<open>The part of a document outside sensitive keys. Of a value under one, only whether it is the marker already.\<close>

fun public_part :: "string list \<Rightarrow> string list \<Rightarrow> pyval \<Rightarrow> pyval"
and public_items :: "string list \<Rightarrow> string list \<Rightarrow> pyval list \<Rightarrow> pyval list"
and public_entries :: "string list \<Rightarrow> string list \<Rightarrow> dict \<Rightarrow> dict" where
  "public_part sensitive normalized (PDict d) = PDict (public_entries sensitive normalized d)"
| "public_part sensitive normalized (PList xs) = PList (public_items sensitive normalized xs)"
| "public_part sensitive normalized v = v"
| "public_items sensitive normalized [] = []"
| "public_items sensitive normalized (x # xs) = public_part sensitive normalized x # public_items sensitive normalized xs"
| "public_entries sensitive normalized [] = []"
| "public_entries sensitive normalized ((key, item) # d) =
     (key, if should_redact_json_key key sensitive normalized then PBool (item = PStr ''***REDACTED***'')
           else public_part sensitive normalized item) # public_entries sensitive normalized d"

text \<open>The result of redaction, from the public part alone.\<close>

fun filled :: "string list \<Rightarrow> string list \<Rightarrow> pyval \<Rightarrow> pyval"
and filled_items :: "string list \<Rightarrow> string list \<Rightarrow> pyval list \<Rightarrow> pyval list"
and filled_entries :: "string list \<Rightarrow> string list \<Rightarrow> dict \<Rightarrow> dict" where
  "filled sensitive normalized (PDict d) = PDict (filled_entries sensitive normalized d)"
| "filled sensitive normalized (PList xs) = PList (filled_items sensitive normalized xs)"
| "filled sensitive normalized v = v"
| "filled_items sensitive normalized [] = []"
| "filled_items sensitive normalized (x # xs) = filled sensitive normalized x # filled_items sensitive normalized xs"
| "filled_entries sensitive normalized [] = []"
| "filled_entries sensitive normalized ((key, item) # d) =
     (key, if should_redact_json_key key sensitive normalized
           then redacted_value key (if item = PBool True then PStr ''***REDACTED***'' else PNone)
           else filled sensitive normalized item) # filled_entries sensitive normalized d"

lemma redacted_value_public: "redacted_value key (if v = PStr ''***REDACTED***'' then PStr ''***REDACTED***'' else PNone) = redacted_value key v"
  by (simp add: redacted_value_def)

lemma redacted_from_public:
  "filled sensitive normalized (public_part sensitive normalized v) = redact_sensitive_value sensitive normalized v"
  "filled_items sensitive normalized (public_items sensitive normalized xs) = redact_items sensitive normalized xs"
  "filled_entries sensitive normalized (public_entries sensitive normalized d) = redact_entries sensitive normalized d"
  by (induction v and xs and d rule: redact_sensitive_value_redact_items_redact_entries.induct)
    (simp_all add: redacted_value_public)

lemma redacted_value_again [simp]: "redacted_value key (redacted_value key v) = redacted_value key v"
  by (simp add: redacted_value_def)

lemma redact_again:
  "redact_sensitive_value sensitive normalized (redact_sensitive_value sensitive normalized v) = redact_sensitive_value sensitive normalized v"
  "redact_items sensitive normalized (redact_items sensitive normalized xs) = redact_items sensitive normalized xs"
  "redact_entries sensitive normalized (redact_entries sensitive normalized d) = redact_entries sensitive normalized d"
  by (induction v and xs and d rule: redact_sensitive_value_redact_items_redact_entries.induct) simp_all

text \<open>A key that names a secret is sensitive, unless it is one of the exceptions, and its value is always replaced by the same text.\<close>

definition names_secret :: "string \<Rightarrow> bool" where
  "names_secret key \<longleftrightarrow> list_ex (contains_text (normalize_json_key key)) secret_value_parts
     \<and> normalize_json_key key \<notin> set token_count_keys \<and> normalize_json_key key \<notin> set allowed_status_keys"

lemma names_secret_redacted: "names_secret key \<Longrightarrow> should_redact_json_key key sensitive normalized \<and> redacted_value key v = PStr ''***REDACTED***''"
  by (auto simp: names_secret_def should_redact_json_key_def redacted_value_def Let_def secret_value_parts_def forbidden_json_key_parts_def)


lemma secret_samples:
  "redact_evidence [''ssn''] (PList [PDict [(''API-Key'', PStr ''k1''), (''SSN'', PInt 7), (''inputTokens'', PInt 9)]])
     = PList [PDict [(''API-Key'', PStr ''***REDACTED***''), (''SSN'', PStr ''***MASKED***''), (''inputTokens'', PInt 9)]]"
  by code_simp


end
