(* ===== verification/Function_Versions.thy ===== *)
theory Function_Versions
  imports Prelude
begin

text \<open>
  \<^verbatim>\<open>domain/ontology/function_versions.py\<close>: versions of functions and the ranges a caller may ask for. Shown:
  the text of a version is read back to it; a patch range is inside the compatible range of the same version; an
  upgrade that keeps the major version never breaks a compatible range.
\<close>

section \<open>Versions\<close>

record function_version =
  fv_major :: nat
  fv_minor :: nat
  fv_patch :: nat

definition version_str :: "function_version \<Rightarrow> string" where
  "version_str v = show_nat (fv_major v) @ ''.'' @ show_nat (fv_minor v) @ ''.'' @ show_nat (fv_patch v)"

text \<open>\<open>$\<close> also matches before a newline that ends the text; \<^verbatim>\<open>int\<close> refuses more than 4300 digits.\<close>

definition drop_final_newline :: "string \<Rightarrow> string" where
  "drop_final_newline s = (if s \<noteq> [] \<and> List.last s = CHR 10 then butlast s else s)"

definition digits_only :: "string \<Rightarrow> bool" where
  "digits_only s = (s \<noteq> [] \<and> list_all is_digit s)"

definition version_number :: "string \<Rightarrow> nat result" where
  "version_number s = (if 4300 < length s then Inl ValueError else Inr (read_nat s))"

definition legacy_match :: "string \<Rightarrow> string option" where
  "legacy_match raw = (case drop_final_newline raw of
       c # s \<Rightarrow> if c = CHR ''v'' \<and> digits_only s then Some s else None | [] \<Rightarrow> None)"

definition semver_match :: "string \<Rightarrow> (string \<times> string \<times> string) option" where
  "semver_match raw = (let s = drop_final_newline raw; a = takeWhile is_digit s; s' = dropWhile is_digit s;
        b = takeWhile is_digit (tl s'); s'' = dropWhile is_digit (tl s'); c = tl s'' in
     if a \<noteq> [] \<and> s' \<noteq> [] \<and> hd s' = CHR ''.'' \<and> b \<noteq> [] \<and> s'' \<noteq> [] \<and> hd s'' = CHR ''.'' \<and> digits_only c
     then Some (a, b, c) else None)"

definition parse_function_version :: "string \<Rightarrow> function_version result" where
  "parse_function_version raw = (case legacy_match raw of
       Some s \<Rightarrow> rbind (version_number s) (\<lambda>n. Inr \<lparr>fv_major = n, fv_minor = 0, fv_patch = 0\<rparr>)
     | None \<Rightarrow> (case semver_match raw of
         None \<Rightarrow> Inl (ValidationFailed ''function version must be semver or a legacy vN identifier'')
       | Some (a, b, c) \<Rightarrow> rbind (version_number a) (\<lambda>major. rbind (version_number b) (\<lambda>minor. rbind (version_number c) (\<lambda>patch.
           Inr \<lparr>fv_major = major, fv_minor = minor, fv_patch = patch\<rparr>)))))"

definition version_less :: "function_version \<Rightarrow> function_version \<Rightarrow> bool" where
  "version_less v w = (fv_major v < fv_major w \<or> fv_major v = fv_major w \<and>
     (fv_minor v < fv_minor w \<or> fv_minor v = fv_minor w \<and> fv_patch v < fv_patch w))"

section \<open>Requirements\<close>

definition split_requirement :: "string \<Rightarrow> (char option \<times> string) result" where
  "split_requirement requirement = (let s = py_strip requirement;
        operator = (if s \<noteq> [] \<and> (hd s = CHR ''^'' \<or> hd s = CHR ''~'') then Some (hd s) else None);
        base = (if operator = None then s else tl s) in
     if CHR 10 \<in> set s \<or> base = [] then Inl (ValidationFailed ''function version requirement is empty'')
     else Inr (operator, base))"

definition satisfies :: "string \<Rightarrow> string \<Rightarrow> bool result" where
  "satisfies version requirement =
     rbind (parse_function_version version) (\<lambda>published.
     rbind (split_requirement requirement) (\<lambda>(operator, base_raw).
     rbind (parse_function_version base_raw) (\<lambda>base.
     Inr (case operator of None \<Rightarrow> published = base
       | Some c \<Rightarrow> if version_less published base \<or> fv_major published \<noteq> fv_major base then False
           else c = CHR ''^'' \<or> fv_minor published = fv_minor base))))"

definition is_range :: "string \<Rightarrow> bool" where
  "is_range requirement = (starts_with requirement ''^'' \<or> starts_with requirement ''~'')"

section \<open>Reading a version back\<close>

lemma digits_only_show_nat: "digits_only (show_nat n)"
  by (auto simp: digits_only_def list_all_iff dest: show_nat_digits)

lemma takeWhile_digits: "list_all is_digit s \<Longrightarrow> \<not> is_digit c \<Longrightarrow> takeWhile is_digit (s @ c # t) = s \<and> dropWhile is_digit (s @ c # t) = c # t"
  by (induction s) auto

lemma last_digit_no_newline: "digits_only s \<Longrightarrow> drop_final_newline (t @ s) = t @ s"
  by (auto simp: drop_final_newline_def digits_only_def list_all_iff is_digit_def Let_def dest!: last_in_set [of s])

lemma dot_no_digit [simp]: "\<not> is_digit (CHR ''.'')"
  by code_simp

lemma v_no_digit: "\<not> is_digit (CHR ''v'')"
  by code_simp

lemma semver_match_str:
  "semver_match (version_str v) = Some (show_nat (fv_major v), show_nat (fv_minor v), show_nat (fv_patch v))"
proof -
  note digits = digits_only_show_nat [unfolded digits_only_def]
  have "drop_final_newline (version_str v) = version_str v"
    using last_digit_no_newline [OF digits_only_show_nat] by (simp add: version_str_def) (metis append.assoc append_Cons append_Nil)
  then show ?thesis
    using digits takeWhile_digits [of _ "CHR ''.''"] by (simp add: semver_match_def version_str_def Let_def digits_only_show_nat)
qed

lemma legacy_match_str: "legacy_match (version_str v) = None"
proof -
  obtain c s where s: "show_nat (fv_major v) = c # s" by (cases "show_nat (fv_major v)") auto
  then have "is_digit c" using show_nat_digits [of c "fv_major v"] by simp
  then have "c \<noteq> CHR ''v''" using v_no_digit by auto
  moreover have "drop_final_newline (version_str v) = version_str v"
    using last_digit_no_newline [OF digits_only_show_nat] by (simp add: version_str_def) (metis append.assoc append_Cons append_Nil)
  ultimately show ?thesis by (simp add: legacy_match_def version_str_def s)
qed

theorem function_version_roundtrip:
  assumes "length (show_nat (fv_major v)) \<le> 4300" "length (show_nat (fv_minor v)) \<le> 4300" "length (show_nat (fv_patch v)) \<le> 4300"
  shows "parse_function_version (version_str v) = Inr v"
  using assms by (simp add: parse_function_version_def legacy_match_str semver_match_str version_number_def)

section \<open>Ranges\<close>

lemma range_char_kept: "c = CHR ''^'' \<or> c = CHR ''~'' \<Longrightarrow> \<not> is_space c"
  by (auto simp: is_space_def)

lemma py_strip_Cons: "\<not> is_space c \<Longrightarrow> py_strip (c # s) = c # rev (dropWhile is_space (rev s))"
  by (auto simp: py_strip_def strip_by_def dropWhile_append)

lemma split_range:
  assumes "c = CHR ''^'' \<or> c = CHR ''~''"
  shows "split_requirement (c # s) = (let base = rev (dropWhile is_space (rev s)) in
     if CHR 10 \<in> set base \<or> base = [] then Inl (ValidationFailed ''function version requirement is empty'') else Inr (Some c, base))"
  using assms by (auto simp: split_requirement_def py_strip_Cons range_char_kept Let_def)

lemma satisfies_range:
  assumes "c = CHR ''^'' \<or> c = CHR ''~''"
  shows "satisfies v (c # s) = Inr True \<longleftrightarrow>
    (\<exists>x base b. parse_function_version v = Inr x \<and> split_requirement (c # s) = Inr (Some c, base) \<and> parse_function_version base = Inr b
       \<and> \<not> version_less x b \<and> fv_major x = fv_major b \<and> (c = CHR ''~'' \<longrightarrow> fv_minor x = fv_minor b))"
  using assms by (auto simp: satisfies_def rbind_eq_Inr split_range Let_def)

lemma version_less_trans: "\<not> version_less y x \<Longrightarrow> \<not> version_less x b \<Longrightarrow> \<not> version_less y b"
  by (auto simp: version_less_def)

text \<open>
  Publishing a newer function version never breaks a caller's range. A version no older than one that satisfies a
  compatible range, with the same major version, satisfies it too; for a patch range the minor version has to stay as well;
  and what satisfies a patch range satisfies the compatible range of the same base.
\<close>
theorem upgrades_keep_requirements:
  assumes "satisfies v (c # s) = Inr True" "c = CHR ''^'' \<or> c = CHR ''~''"
    and "parse_function_version v = Inr x" "parse_function_version v' = Inr x'" "\<not> version_less x' x"
    and "fv_major x' = fv_major x" "c = CHR ''~'' \<longrightarrow> fv_minor x' = fv_minor x"
  shows "satisfies v' (c # s) = Inr True \<and> satisfies v' (CHR ''^'' # s) = Inr True"
proof -
  from assms(1,3) satisfies_range [OF assms(2)] obtain base b where base: "split_requirement (c # s) = Inr (Some c, base)"
    "parse_function_version base = Inr b" "\<not> version_less x b" "fv_major x = fv_major b" "c = CHR ''~'' \<longrightarrow> fv_minor x = fv_minor b" by auto
  have less: "\<not> version_less x' b" by (rule version_less_trans [OF assms(5) base(3)])
  have "split_requirement (CHR ''^'' # s) = Inr (Some (CHR ''^''), base)"
    using base(1) split_range [OF assms(2), of s] split_range [of "CHR ''^''" s] by (auto simp: Let_def split: if_splits)
  with base less assms(4,6,7) satisfies_range [OF assms(2), of v' s] satisfies_range [of "CHR ''^''" v' s] show ?thesis by auto
qed

theorem upgrades_keep_requirements_witness:
  "satisfies ''1.4.9'' ''~1.4.2'' = Inr True \<and> satisfies ''1.4.9'' ''^1.4.2'' = Inr True"
proof -
  have "satisfies ''1.4.3'' (CHR ''~'' # ''1.4.2'') = Inr True"
    "parse_function_version ''1.4.3'' = Inr \<lparr>fv_major = 1, fv_minor = 4, fv_patch = 3\<rparr>"
    "parse_function_version ''1.4.9'' = Inr \<lparr>fv_major = 1, fv_minor = 4, fv_patch = 9\<rparr>" by code_simp+
  from upgrades_keep_requirements [OF this(1) _ this(2,3)] show ?thesis by (simp add: version_less_def)
qed

text \<open>
  Blanks around a requirement are dropped before its operator is read, but not by the test whether it is a range: this one
  admits several versions and is not called a range.
\<close>

lemma blank_hides_range:
  "satisfies ''1.4.3'' '' ^1.4.2'' = Inr True" "satisfies ''1.9.0'' '' ^1.4.2'' = Inr True" "\<not> is_range '' ^1.4.2''"
  by code_simp+

end
