(* ===== verification/OAuth_Tokens.thy ===== *)
theory OAuth_Tokens
  imports Cdc_Events State_Transitions
begin

text \<open>
  \<^verbatim>\<open>application/services/osdk_oauth_session_tokens.py\<close> and the rate limiter of
  \<^verbatim>\<open>osdk_oauth_session_support.py\<close>: proof keys, opaque tokens bound to a resource, expiry, and the sliding window.
  SHA-256 is a parameter that gives bytes. An instant is its number of microseconds; the host clock is in UTC.
  Shown: a credential bound to one resource is not accepted for another, and no window of time admits more
  requests than the capacity.
\<close>

section \<open>Digests and proof keys\<close>

type_synonym sha = "string \<Rightarrow> nat list"

definition hexdigest :: "nat list \<Rightarrow> string" where
  "hexdigest bs = concat (map (\<lambda>b. [hex_digit (b div 16), hex_digit (b mod 16)]) bs)"

definition hash_secret :: "sha \<Rightarrow> string \<Rightarrow> string" where
  "hash_secret sha256 v = ''sha256:'' @ hexdigest (sha256 v)"

definition pkce_method :: "string \<Rightarrow> string result" where
  "pkce_method m = (if m \<noteq> ''S256'' then Inl (ValidationFailed ''OSDK OAuth code_challenge_method must be S256'') else Inr m)"

definition challenge_char :: "char \<Rightarrow> bool" where
  "challenge_char c = (is_alnum c \<or> c = CHR ''_'' \<or> c = CHR ''-'')"

definition require_valid_code_challenge :: "string \<Rightarrow> unit result" where
  "require_valid_code_challenge code_challenge =
     raise_if (length code_challenge < 43 \<or> 128 < length code_challenge \<or> \<not> list_all challenge_char code_challenge)
       (ValidationFailed ''OSDK OAuth code_challenge must be 43-128 base64url characters'')"

definition pkce_matches :: "sha \<Rightarrow> string \<Rightarrow> string \<Rightarrow> string \<Rightarrow> bool" where
  "pkce_matches sha256 m challenge verifier = (m = ''S256'' \<and> challenge = base64_unpadded (sha256 verifier))"

section \<open>Opaque tokens\<close>

text \<open>\<open>secret\<close> is what \<^verbatim>\<open>secrets.token_urlsafe(32)\<close> returned.\<close>

definition raw_authorization_code :: "sha \<Rightarrow> string option \<Rightarrow> string \<Rightarrow> string" where
  "raw_authorization_code sha256 resource secret = (case resource of
       None \<Rightarrow> ''oauth_code_'' @ secret
     | Some r \<Rightarrow> ''oauth_code_resource_'' @ hexdigest (sha256 r) @ ''_'' @ secret)"

definition raw_refresh_token :: "sha \<Rightarrow> string option \<Rightarrow> string \<Rightarrow> string" where
  "raw_refresh_token sha256 resource secret = (case resource of
       None \<Rightarrow> ''refresh_'' @ secret
     | Some r \<Rightarrow> ''refresh_resource_'' @ hexdigest (sha256 r) @ ''_'' @ secret)"

definition matches_resource :: "sha \<Rightarrow> string \<Rightarrow> string \<Rightarrow> string option \<Rightarrow> bool" where
  "matches_resource sha256 prefix token resource =
     (if \<not> starts_with token prefix then resource = None
      else case resource of None \<Rightarrow> False | Some r \<Rightarrow> take 64 (drop (length prefix) token) = hexdigest (sha256 r))"

definition authorization_code_matches_resource :: "sha \<Rightarrow> string \<Rightarrow> string option \<Rightarrow> bool" where
  "authorization_code_matches_resource sha256 = matches_resource sha256 ''oauth_code_resource_''"

definition refresh_token_matches_resource :: "sha \<Rightarrow> string \<Rightarrow> string option \<Rightarrow> bool" where
  "refresh_token_matches_resource sha256 = matches_resource sha256 ''refresh_resource_''"

section \<open>Expiry\<close>

text \<open>The last instant of the year 9999, after which \<^verbatim>\<open>datetime\<close> overflows.\<close>

definition max_instant :: int where
  "max_instant = 253402300799999999"

definition token_expires_at :: "int \<Rightarrow> int \<Rightarrow> int result" where
  "token_expires_at time seconds = (let t = time + seconds * 1000000 in if max_instant < t then Inl OverflowError else Inr t)"

definition is_expired :: "int \<Rightarrow> int \<Rightarrow> bool" where
  "is_expired expires time = (expires \<le> time)"

section \<open>Rate limiting\<close>

type_synonym limit_key = "string \<times> string \<times> string \<times> string"

definition recent_requests :: "int \<Rightarrow> int \<Rightarrow> int list \<Rightarrow> int list" where
  "recent_requests window time seen = filter (\<lambda>t. time - t < window) seen"

definition rate_check :: "nat \<Rightarrow> int \<Rightarrow> limit_key \<Rightarrow> int \<Rightarrow> (limit_key \<Rightarrow> int list) \<Rightarrow> unit result \<times> (limit_key \<Rightarrow> int list)" where
  "rate_check capacity window key time buckets =
     (let recent = recent_requests window time (buckets key) in
      if capacity \<le> length recent then (Inl (RateLimited ''OSDK OAuth rate limit exceeded''), buckets)
      else (Inr (), buckets(key := recent @ [time])))"

text \<open>The requests that were let through, over a sequence of them.\<close>

fun admitted :: "nat \<Rightarrow> int \<Rightarrow> limit_key \<Rightarrow> (limit_key \<times> int) list \<Rightarrow> (limit_key \<Rightarrow> int list) \<Rightarrow> int list" where
  "admitted capacity window key [] buckets = []"
| "admitted capacity window key ((k, time) # requests) buckets =
     (let (r, buckets') = rate_check capacity window k time buckets in
      (if k = key \<and> is_ok r then [time] else []) @ admitted capacity window key requests buckets')"

section \<open>Properties\<close>

lemma length_hexdigest: "length (hexdigest bs) = 2 * length bs"
  by (induction bs) (auto simp: hexdigest_def)

text \<open>A code or token minted for a resource is accepted for exactly the resources with its digest.\<close>

lemma resource_bound:
  assumes "length (sha256 r) = 32"
  shows "matches_resource sha256 p (p @ hexdigest (sha256 r) @ s) resource \<longleftrightarrow> (\<exists>r'. resource = Some r' \<and> hexdigest (sha256 r') = hexdigest (sha256 r))"
  using assms by (auto simp: matches_resource_def starts_with_append length_hexdigest split: option.splits)

definition window_bounded :: "nat \<Rightarrow> int \<Rightarrow> int list \<Rightarrow> bool" where
  "window_bounded capacity window seen \<longleftrightarrow> (\<forall>t. length (filter (\<lambda>x. t - window < x \<and> x \<le> t) seen) \<le> capacity)"

lemma filter_length_mono: "(\<And>x. x \<in> set xs \<Longrightarrow> p x \<Longrightarrow> q x) \<Longrightarrow> length (filter p xs) \<le> length (filter q xs)"
  by (induction xs) auto

lemma window_bounded_admit:
  assumes bounded: "window_bounded capacity window seen" and room: "length (filter (\<lambda>x. time - x < window) seen) < capacity"
  shows "window_bounded capacity window (seen @ [time])"
  unfolding window_bounded_def
proof
  fix t
  have "length (filter (\<lambda>x. t - window < x \<and> x \<le> t) seen) \<le> length (filter (\<lambda>x. time - x < window) seen)" if "time \<le> t"
    by (rule filter_length_mono) (use that in auto)
  with bounded [unfolded window_bounded_def, rule_format, of t] room
  show "length (filter (\<lambda>x. t - window < x \<and> x \<le> t) (seen @ [time])) \<le> capacity" by auto
qed

lemma recent_later: "time \<le> time' \<Longrightarrow> recent_requests window time' (recent_requests window time xs) = recent_requests window time' xs"
  by (auto simp: recent_requests_def intro!: filter_cong)

lemma admitted_bounded:
  assumes "window_bounded capacity window past" "sorted (time # map snd requests)"
    and "recent_requests window time (buckets key) = recent_requests window time past"
  shows "window_bounded capacity window (past @ admitted capacity window key requests buckets)"
  using assms
proof (induction requests arbitrary: past time buckets)
  case Nil
  then show ?case by simp
next
  case (Cons request requests)
  obtain k t where request: "request = (k, t)" by fastforce
  have order: "time \<le> t" "sorted (t # map snd requests)" using Cons.prems(2) by (simp_all add: request)
  have same: "recent_requests window t (buckets key) = recent_requests window t past"
    using Cons.prems(3) recent_later [OF order(1)] by metis
  show ?case
  proof (cases "k = key \<and> length (recent_requests window t past) < capacity")
    case True
    then have check: "rate_check capacity window key t buckets = (Inr (), buckets(key := recent_requests window t past @ [t]))"
      by (simp add: rate_check_def Let_def same)
    have "window_bounded capacity window (past @ [t])"
      using Cons.prems(1) True by (intro window_bounded_admit) (auto simp: recent_requests_def)
    moreover have "recent_requests window t (recent_requests window t past @ [t]) = recent_requests window t (past @ [t])"
      by (simp add: recent_requests_def)
    ultimately show ?thesis
      using Cons.IH [OF _ order(2), of "past @ [t]" "buckets(key := recent_requests window t past @ [t])"] True
      by (simp add: request check is_ok_def fun_upd_def)
  next
    case False
    obtain r buckets' where check: "rate_check capacity window k t buckets = (r, buckets')" by fastforce
    have "buckets' key = buckets key" "\<not> (k = key \<and> is_ok r)"
      using False check same by (auto simp: rate_check_def Let_def is_ok_def split: if_splits)
    with Cons.IH [OF Cons.prems(1) order(2), of buckets'] same show ?thesis by (auto simp: request check)
  qed
qed

text \<open>
  No client gets more through the rate limiter than its capacity. For requests in the order of the clock, of any
  clients and in any number, at most \<open>capacity\<close> of one key are admitted within any window of time.
\<close>
theorem rate_limit_holds_in_every_window:
  assumes "sorted (map snd requests)"
  shows "length (filter (\<lambda>x. t - window < x \<and> x \<le> t) (admitted capacity window key requests (\<lambda>_. []))) \<le> capacity"
proof (cases requests)
  case Nil
  then show ?thesis by simp
next
  case (Cons request rest)
  have "window_bounded capacity window ([] @ admitted capacity window key requests (\<lambda>_. []))"
    by (rule admitted_bounded [where time = "snd request"])
      (use assms Cons in \<open>auto simp: window_bounded_def recent_requests_def\<close>)
  then show ?thesis unfolding window_bounded_def by simp
qed

theorem rate_limit_holds_in_every_window_witness:
  "length (filter (\<lambda>x. 12 - 10 < x \<and> x \<le> 12) (admitted 2 10 (''t'', ''u'', ''c'', ''token'')
     [((''t'', ''u'', ''c'', ''token''), 1), ((''t'', ''u'', ''c'', ''token''), 5), ((''t'', ''u'', ''c'', ''token''), 7),
      ((''t'', ''u'', ''c'', ''token''), 12)] (\<lambda>_. []))) \<le> 2
   \<and> admitted 2 10 (''t'', ''u'', ''c'', ''token'')
     [((''t'', ''u'', ''c'', ''token''), 1), ((''t'', ''u'', ''c'', ''token''), 5), ((''t'', ''u'', ''c'', ''token''), 7),
      ((''t'', ''u'', ''c'', ''token''), 12)] (\<lambda>_. []) = [1, 5, 12]"
proof
  show "length (filter (\<lambda>x. 12 - 10 < x \<and> x \<le> 12) (admitted 2 10 (''t'', ''u'', ''c'', ''token'')
     [((''t'', ''u'', ''c'', ''token''), 1), ((''t'', ''u'', ''c'', ''token''), 5), ((''t'', ''u'', ''c'', ''token''), 7),
      ((''t'', ''u'', ''c'', ''token''), 12)] (\<lambda>_. []))) \<le> 2"
    by (rule rate_limit_holds_in_every_window) simp
  show "admitted 2 10 (''t'', ''u'', ''c'', ''token'')
     [((''t'', ''u'', ''c'', ''token''), 1), ((''t'', ''u'', ''c'', ''token''), 5), ((''t'', ''u'', ''c'', ''token''), 7),
      ((''t'', ''u'', ''c'', ''token''), 12)] (\<lambda>_. []) = [1, 5, 12]"
    by (simp add: rate_check_def recent_requests_def is_ok_def Let_def)
qed

end
