(* ===== verification/OAuth_Sessions.thy ===== *)
theory OAuth_Sessions
  imports OAuth_Tokens
begin

text \<open>
  \<^verbatim>\<open>application/services/osdk_oauth_session_service.py\<close>, \<^verbatim>\<open>osdk_oauth_session_mutations.py\<close> and
  \<^verbatim>\<open>infrastructure/repositories/oauth_session_repository.py\<close>: authorization codes, sessions and refresh
  tokens. Each call is one transaction; what its reads saw may be older than the state it writes to. Shown, over
  any history of calls: a code and a refresh token is good for one use, the second use of a rotated token ends its
  session, and no access token says more than what was authorized.
\<close>

section \<open>State\<close>

record auth_code =
  ac_id :: string
  ac_tenant_id :: string
  ac_code_hash :: string
  ac_app_id :: string
  ac_client_id :: string
  ac_actor_user_id :: string
  ac_roles :: "string list"
  ac_redirect_uri :: string
  ac_code_challenge :: string
  ac_code_challenge_method :: string
  ac_scopes :: "string list"
  ac_expires_at :: int
  ac_consumed_at :: "int option"
  ac_created_at :: int

record oauth_session =
  os_id :: string
  os_tenant_id :: string
  os_app_id :: string
  os_client_id :: string
  os_actor_user_id :: string
  os_roles :: "string list"
  os_scopes :: "string list"
  os_status :: string
  os_created_at :: int
  os_last_refreshed_at :: "int option"
  os_expires_at :: int
  os_revoked_at :: "int option"
  os_compromised_at :: "int option"
  os_compromise_reason :: "string option"

record refresh_token =
  rt_id :: string
  rt_tenant_id :: string
  rt_session_id :: string
  rt_token_hash :: string
  rt_status :: string
  rt_expires_at :: int
  rt_replaced_by_token_id :: "string option"
  rt_created_at :: int
  rt_used_at :: "int option"
  rt_revoked_at :: "int option"

record oauth_audit =
  ou_event_type :: string
  ou_resource_id :: string
  ou_decision :: string
  ou_after_ref :: dict

record oauth_db =
  oa_codes :: "auth_code list"
  oa_sessions :: "oauth_session list"
  oa_tokens :: "refresh_token list"
  oa_audit :: "oauth_audit list"

text \<open>The registry of applications, as a call finds it.\<close>

record oauth_client =
  cl_tenant_id :: string
  cl_client_id :: string
  cl_app_id :: string
  cl_status :: string
  cl_redirect_uris :: "string list"
  cl_allowed_scopes :: "string list"
  cl_access_token_ttl :: "int option"
  cl_refresh_token_ttl :: "int option"

record oauth_app =
  op_tenant_id :: string
  op_id :: string
  op_status :: string

record oauth_resource =
  or_res_tenant_id :: string
  or_res_app_id :: string
  or_res_scopes :: "string list"

text \<open>What a call brings along: the request, the registry, the clock, fresh identifiers and secrets, and the answer of the
  rate limiter, which lives outside the transaction.\<close>

record oauth_env =
  ox_tenant_id :: string
  ox_actor_user_id :: string
  ox_roles :: "string list"
  ox_clients :: "oauth_client list"
  ox_apps :: "oauth_app list"
  ox_resources :: "oauth_resource list"
  ox_now :: int
  ox_record_now :: int
  ox_secret :: string
  ox_code_hex :: string
  ox_session_hex :: string
  ox_token_hex :: string
  ox_limit :: "string \<Rightarrow> string \<Rightarrow> unit result"

section \<open>Repository\<close>

definition insert_authorization_code :: "auth_code \<Rightarrow> (oauth_db, unit) io" where
  "insert_authorization_code row = (\<lambda>s.
     if ac_id row \<in> set (map ac_id (oa_codes s))
       \<or> (ac_tenant_id row, ac_code_hash row) \<in> set (map (\<lambda>r. (ac_tenant_id r, ac_code_hash r)) (oa_codes s))
     then Inl IntegrityError else Inr ((), s\<lparr>oa_codes := oa_codes s @ [row]\<rparr>))"

definition authorization_code_by_hash :: "string \<Rightarrow> string \<Rightarrow> oauth_db \<Rightarrow> auth_code option" where
  "authorization_code_by_hash tenant_id code_hash s =
     sql_first (\<lambda>r. ac_tenant_id r = tenant_id \<and> ac_code_hash r = code_hash) (oa_codes s)"

text \<open>An \<^verbatim>\<open>UPDATE\<close> of a table, with the number of rows it changed.\<close>

definition update_codes :: "(auth_code \<Rightarrow> bool) \<Rightarrow> (auth_code \<Rightarrow> auth_code) \<Rightarrow> (oauth_db, nat) io" where
  "update_codes p f = (\<lambda>s. Inr (snd (sql_update p f (oa_codes s)), s\<lparr>oa_codes := fst (sql_update p f (oa_codes s))\<rparr>))"

definition update_sessions :: "(oauth_session \<Rightarrow> bool) \<Rightarrow> (oauth_session \<Rightarrow> oauth_session) \<Rightarrow> (oauth_db, nat) io" where
  "update_sessions p f = (\<lambda>s. Inr (snd (sql_update p f (oa_sessions s)), s\<lparr>oa_sessions := fst (sql_update p f (oa_sessions s))\<rparr>))"

definition update_tokens :: "(refresh_token \<Rightarrow> bool) \<Rightarrow> (refresh_token \<Rightarrow> refresh_token) \<Rightarrow> (oauth_db, nat) io" where
  "update_tokens p f = (\<lambda>s. Inr (snd (sql_update p f (oa_tokens s)), s\<lparr>oa_tokens := fst (sql_update p f (oa_tokens s))\<rparr>))"

definition mark_authorization_code_consumed :: "string \<Rightarrow> string \<Rightarrow> int \<Rightarrow> (oauth_db, bool) io" where
  "mark_authorization_code_consumed tenant_id code_id consumed_at =
     io_bind (update_codes (\<lambda>r. ac_tenant_id r = tenant_id \<and> ac_id r = code_id \<and> ac_consumed_at r = None)
       (\<lambda>r. r\<lparr>ac_consumed_at := Some consumed_at\<rparr>)) (\<lambda>n. io_return (n = 1))"

definition insert_session :: "oauth_session \<Rightarrow> (oauth_db, unit) io" where
  "insert_session row = (\<lambda>s. if os_id row \<in> set (map os_id (oa_sessions s)) then Inl IntegrityError
     else Inr ((), s\<lparr>oa_sessions := oa_sessions s @ [row]\<rparr>))"

definition session_by_id :: "string \<Rightarrow> string \<Rightarrow> oauth_db \<Rightarrow> oauth_session option" where
  "session_by_id tenant_id session_id s = sql_first (\<lambda>r. os_tenant_id r = tenant_id \<and> os_id r = session_id) (oa_sessions s)"

definition update_session_refresh :: "string \<Rightarrow> string \<Rightarrow> int \<Rightarrow> (oauth_db, unit) io" where
  "update_session_refresh tenant_id session_id refreshed_at =
     io_bind (update_sessions (\<lambda>r. os_tenant_id r = tenant_id \<and> os_id r = session_id)
       (\<lambda>r. r\<lparr>os_last_refreshed_at := Some refreshed_at\<rparr>)) (\<lambda>_. io_return ())"

definition session_revoked :: status_transition where
  "session_revoked = mk_transition [''active''] ''revoked''"

definition session_compromised :: status_transition where
  "session_compromised = mk_transition [''active''] ''compromised''"

definition refresh_revoked :: status_transition where
  "refresh_revoked = mk_transition [''active'', ''rotated''] ''revoked''"

definition refresh_rotated :: status_transition where
  "refresh_rotated = mk_transition [''active''] ''rotated''"

definition revoke_session :: "string \<Rightarrow> string \<Rightarrow> int \<Rightarrow> (oauth_db, unit) io" where
  "revoke_session tenant_id session_id revoked_at =
     io_bind (update_sessions
       (\<lambda>r. os_tenant_id r = tenant_id \<and> os_id r = session_id \<and> os_status r \<in> set (from_statuses session_revoked))
       (\<lambda>r. r\<lparr>os_status := to_status session_revoked, os_revoked_at := Some revoked_at\<rparr>)) (\<lambda>_. io_return ())"

definition revoke_active_sessions_for_client :: "string \<Rightarrow> string \<Rightarrow> string \<Rightarrow> int \<Rightarrow> (oauth_db, nat) io" where
  "revoke_active_sessions_for_client tenant_id app_id client_id revoked_at =
     update_sessions (\<lambda>r. os_tenant_id r = tenant_id \<and> os_status r \<in> set (from_statuses session_revoked)
         \<and> os_app_id r = app_id \<and> os_client_id r = client_id)
       (\<lambda>r. r\<lparr>os_status := to_status session_revoked, os_revoked_at := Some revoked_at\<rparr>)"

definition compromise_refresh_token_family :: "string \<Rightarrow> string \<Rightarrow> int \<Rightarrow> string \<Rightarrow> (oauth_db, unit) io" where
  "compromise_refresh_token_family tenant_id session_id compromised_at reason =
     io_bind (update_sessions
       (\<lambda>r. os_tenant_id r = tenant_id \<and> os_id r = session_id \<and> os_status r \<in> set (from_statuses session_compromised))
       (\<lambda>r. r\<lparr>os_status := to_status session_compromised, os_compromised_at := Some compromised_at,
         os_compromise_reason := Some reason\<rparr>)) (\<lambda>_.
     io_bind (update_tokens
       (\<lambda>r. rt_tenant_id r = tenant_id \<and> rt_status r \<in> set (from_statuses refresh_revoked) \<and> rt_session_id r = session_id)
       (\<lambda>r. r\<lparr>rt_status := to_status refresh_revoked, rt_revoked_at := Some compromised_at\<rparr>)) (\<lambda>_. io_return ()))"

definition insert_refresh_token :: "refresh_token \<Rightarrow> (oauth_db, unit) io" where
  "insert_refresh_token row = (\<lambda>s.
     if rt_id row \<in> set (map rt_id (oa_tokens s))
       \<or> (rt_tenant_id row, rt_token_hash row) \<in> set (map (\<lambda>r. (rt_tenant_id r, rt_token_hash r)) (oa_tokens s))
     then Inl IntegrityError else Inr ((), s\<lparr>oa_tokens := oa_tokens s @ [row]\<rparr>))"

definition refresh_token_by_hash :: "string \<Rightarrow> string \<Rightarrow> oauth_db \<Rightarrow> refresh_token option" where
  "refresh_token_by_hash tenant_id token_hash s =
     sql_first (\<lambda>r. rt_tenant_id r = tenant_id \<and> rt_token_hash r = token_hash) (oa_tokens s)"

definition rotate_refresh_token :: "string \<Rightarrow> string \<Rightarrow> string \<Rightarrow> int \<Rightarrow> (oauth_db, bool) io" where
  "rotate_refresh_token tenant_id token_id replacement_token_id used_at =
     io_bind (update_tokens
       (\<lambda>r. rt_tenant_id r = tenant_id \<and> rt_id r = token_id \<and> rt_status r \<in> set (from_statuses refresh_rotated))
       (\<lambda>r. r\<lparr>rt_status := to_status refresh_rotated, rt_replaced_by_token_id := Some replacement_token_id,
         rt_used_at := Some used_at\<rparr>)) (\<lambda>n. io_return (n = 1))"

definition revoke_refresh_token :: "string \<Rightarrow> string \<Rightarrow> int \<Rightarrow> (oauth_db, unit) io" where
  "revoke_refresh_token tenant_id token_id revoked_at =
     io_bind (update_tokens
       (\<lambda>r. rt_tenant_id r = tenant_id \<and> rt_id r = token_id \<and> rt_status r \<in> set (from_statuses refresh_revoked))
       (\<lambda>r. r\<lparr>rt_status := to_status refresh_revoked, rt_revoked_at := Some revoked_at\<rparr>)) (\<lambda>_. io_return ())"

section \<open>Checks on the registry\<close>

definition active_client :: "oauth_env \<Rightarrow> string \<Rightarrow> oauth_client option" where
  "active_client env client_id =
     sql_first (\<lambda>c. cl_tenant_id c = ox_tenant_id env \<and> cl_client_id c = client_id \<and> cl_status c = ''active'') (ox_clients env)"

definition application_by_id :: "oauth_env \<Rightarrow> string \<Rightarrow> oauth_app option" where
  "application_by_id env app_id = sql_first (\<lambda>a. op_tenant_id a = ox_tenant_id env \<and> op_id a = app_id) (ox_apps env)"

definition require_redirect_uri :: "oauth_client \<Rightarrow> string \<Rightarrow> unit result" where
  "require_redirect_uri client redirect_uri =
     (if cl_redirect_uris client = [] then Inl (PermissionDenied ''OSDK OAuth client has no registered redirect URIs'')
      else raise_if (redirect_uri \<notin> set (cl_redirect_uris client)) (PermissionDenied ''OSDK OAuth redirect URI is not registered''))"

definition require_active_client :: "oauth_env \<Rightarrow> string \<Rightarrow> string \<Rightarrow> oauth_client result" where
  "require_active_client env client_id redirect_uri = (case active_client env client_id of
       None \<Rightarrow> Inl (PermissionDenied ''OSDK OAuth client is not active'')
     | Some client \<Rightarrow> (case application_by_id env (cl_app_id client) of
         None \<Rightarrow> Inl (PermissionDenied ''OSDK OAuth application is not active'')
       | Some app \<Rightarrow> if op_status app \<noteq> ''active'' then Inl (PermissionDenied ''OSDK OAuth application is not active'')
           else rbind (require_redirect_uri client redirect_uri) (\<lambda>_. Inr client)))"

definition require_resource_application :: "oauth_client \<Rightarrow> string option \<Rightarrow> unit result" where
  "require_resource_application client application_id =
     raise_if (case application_id of None \<Rightarrow> False | Some a \<Rightarrow> cl_app_id client \<noteq> a)
       (PermissionDenied ''OSDK OAuth resource does not match client'')"

definition require_resource_session :: "oauth_session \<Rightarrow> string option \<Rightarrow> string option \<Rightarrow> unit result" where
  "require_resource_session session client_id application_id =
     rbind (raise_if (case client_id of None \<Rightarrow> False | Some c \<Rightarrow> os_client_id session \<noteq> c)
       (PermissionDenied ''OSDK OAuth resource does not match session'')) (\<lambda>_.
     raise_if (case application_id of None \<Rightarrow> False | Some a \<Rightarrow> os_app_id session \<noteq> a)
       (PermissionDenied ''OSDK OAuth resource does not match session''))"

definition client_allowed_scopes :: "oauth_client \<Rightarrow> string list" where
  "client_allowed_scopes client = filter (\<lambda>s. s \<noteq> []) (cl_allowed_scopes client)"

definition app_resource_scopes :: "oauth_env \<Rightarrow> string \<Rightarrow> string list" where
  "app_resource_scopes env app_id = concat (map or_res_scopes
     (filter (\<lambda>r. or_res_tenant_id r = ox_tenant_id env \<and> or_res_app_id r = app_id) (ox_resources env)))"

definition authorized_scopes :: "oauth_env \<Rightarrow> string \<Rightarrow> oauth_client \<Rightarrow> string list \<Rightarrow> string list result" where
  "authorized_scopes env app_id client requested_scopes =
     (let resource_scopes = app_resource_scopes env app_id;
          client_scopes = (if client_allowed_scopes client \<noteq> [] then client_allowed_scopes client else resource_scopes);
          requested = (if requested_scopes \<noteq> [] then requested_scopes else sorted_list_of_set (set client_scopes)) in
      if \<not> set requested \<subseteq> set client_scopes \<or> \<not> set requested \<subseteq> set resource_scopes
      then Inl (PermissionDenied ''OSDK OAuth requested scope is not granted'') else Inr requested)"

text \<open>A row of a session carries no lifetimes, so both defaults apply to it.\<close>

definition positive_int :: "int option \<Rightarrow> int \<Rightarrow> int" where
  "positive_int v fallback = (case v of Some n \<Rightarrow> if 0 < n then n else fallback | None \<Rightarrow> fallback)"

definition access_ttl :: "oauth_client option \<Rightarrow> int" where
  "access_ttl client = positive_int (case client of None \<Rightarrow> None | Some c \<Rightarrow> cl_access_token_ttl c) 120"

definition refresh_ttl :: "oauth_client option \<Rightarrow> int" where
  "refresh_ttl client = positive_int (case client of None \<Rightarrow> None | Some c \<Rightarrow> cl_refresh_token_ttl c) 2592000"

section \<open>Evidence\<close>

definition oauth_audit_event :: "string \<Rightarrow> string \<Rightarrow> string \<Rightarrow> dict \<Rightarrow> (oauth_db, unit) io" where
  "oauth_audit_event event_type resource_id decision after_ref = (\<lambda>s. Inr ((), s\<lparr>oa_audit := oa_audit s @
     [\<lparr>ou_event_type = event_type, ou_resource_id = resource_id, ou_decision = decision, ou_after_ref = after_ref\<rparr>]\<rparr>))"

definition safe_code_ref :: "auth_code \<Rightarrow> string option \<Rightarrow> dict" where
  "safe_code_ref row state = [(''codeId'', PStr (ac_id row)), (''appId'', PStr (ac_app_id row)), (''clientId'', PStr (ac_client_id row)),
     (''redirectUri'', PStr (ac_redirect_uri row)), (''scopes'', PList (map PStr (ac_scopes row))),
     (''expiresAt'', PInt (ac_expires_at row)), (''statePresent'', PBool (state \<noteq> None))]"

definition safe_session_ref :: "oauth_session \<Rightarrow> dict" where
  "safe_session_ref session = [(''sessionId'', PStr (os_id session)), (''appId'', PStr (os_app_id session)),
     (''clientId'', PStr (os_client_id session)), (''actorUserId'', PStr (os_actor_user_id session)),
     (''scopes'', PList (map PStr (os_scopes session))), (''status'', PStr (os_status session))]"

section \<open>Authorization\<close>

definition authorization_code_record ::
  "sha \<Rightarrow> oauth_env \<Rightarrow> oauth_client \<Rightarrow> string \<Rightarrow> string \<Rightarrow> string \<Rightarrow> string \<Rightarrow> string list \<Rightarrow> auth_code result" where
  "authorization_code_record sha256 env client raw_code redirect_uri code_challenge challenge_method scopes =
     rbind (token_expires_at (ox_record_now env) 300) (\<lambda>expires. Inr
     \<lparr>ac_id = ''osdk_code_'' @ ox_code_hex env, ac_tenant_id = ox_tenant_id env, ac_code_hash = hash_secret sha256 raw_code,
      ac_app_id = cl_app_id client, ac_client_id = cl_client_id client, ac_actor_user_id = ox_actor_user_id env,
      ac_roles = ox_roles env, ac_redirect_uri = redirect_uri, ac_code_challenge = code_challenge,
      ac_code_challenge_method = challenge_method, ac_scopes = scopes, ac_expires_at = expires, ac_consumed_at = None,
      ac_created_at = ox_record_now env\<rparr>)"

record authorize_request =
  az_client_id :: string
  az_redirect_uri :: string
  az_code_challenge :: string
  az_code_challenge_method :: string
  az_scopes :: "string list"
  az_state :: "string option"
  az_resource :: "string option"
  az_resource_application_id :: "string option"

text \<open>The raw code; the redirect that carries it to the client is built outside.\<close>

definition authorize :: "sha \<Rightarrow> oauth_env \<Rightarrow> authorize_request \<Rightarrow> (oauth_db, string) io" where
  "authorize sha256 env q =
     io_bind (io_lift (pkce_method (az_code_challenge_method q))) (\<lambda>challenge_method.
     io_bind (io_lift (require_valid_code_challenge (az_code_challenge q))) (\<lambda>_.
     let raw_code = raw_authorization_code sha256 (az_resource q) (ox_secret env) in
     io_bind (io_lift (ox_limit env ''authorize'' (az_client_id q))) (\<lambda>_.
     io_bind (io_lift (require_active_client env (az_client_id q) (az_redirect_uri q))) (\<lambda>client.
     io_bind (io_lift (require_resource_application client (az_resource_application_id q))) (\<lambda>_.
     io_bind (io_lift (authorized_scopes env (cl_app_id client) client (az_scopes q))) (\<lambda>scopes.
     io_bind (io_lift (authorization_code_record sha256 env client raw_code (az_redirect_uri q) (az_code_challenge q)
       challenge_method scopes)) (\<lambda>row.
     io_bind (insert_authorization_code row) (\<lambda>_.
     io_bind (oauth_audit_event ''osdk.oauth.authorization_code.created'' (ac_id row) ''allow'' (safe_code_ref row (az_state q))) (\<lambda>_.
     io_return raw_code)))))))))"

section \<open>Exchange of a code\<close>

definition exchangeable_code :: "sha \<Rightarrow> oauth_env \<Rightarrow> string \<Rightarrow> oauth_db \<Rightarrow> (oauth_db, auth_code option) io" where
  "exchangeable_code sha256 env raw_code reads =
     (case authorization_code_by_hash (ox_tenant_id env) (hash_secret sha256 raw_code) reads of
       None \<Rightarrow> io_return None
     | Some row \<Rightarrow>
         if ac_consumed_at row \<noteq> None
         then io_bind (oauth_audit_event ''osdk.oauth.authorization_code_replay_detected'' (ac_id row) ''deny''
             [(''authorizationCodeId'', PStr (ac_id row)), (''clientId'', PStr (ac_client_id row))]) (\<lambda>_. io_return None)
         else if is_expired (ac_expires_at row) (ox_now env) then io_return None else io_return (Some row))"

definition validate_code_exchange :: "sha \<Rightarrow> auth_code \<Rightarrow> string \<Rightarrow> string \<Rightarrow> string \<Rightarrow> unit result" where
  "validate_code_exchange sha256 row client_id redirect_uri code_verifier =
     rbind (raise_if (ac_client_id row \<noteq> client_id \<or> ac_redirect_uri row \<noteq> redirect_uri)
       (PermissionDenied ''OSDK OAuth authorization code does not match client'')) (\<lambda>_.
     raise_if (\<not> pkce_matches sha256 (ac_code_challenge_method row) (ac_code_challenge row) code_verifier)
       (PermissionDenied ''OSDK OAuth PKCE verification failed''))"

definition create_session :: "oauth_env \<Rightarrow> auth_code \<Rightarrow> oauth_client \<Rightarrow> (oauth_db, oauth_session) io" where
  "create_session env code_row client =
     io_bind (io_lift (token_expires_at (ox_now env) (refresh_ttl (Some client)))) (\<lambda>expires.
     let session = \<lparr>os_id = ''osdk_oauth_session_'' @ ox_session_hex env, os_tenant_id = ac_tenant_id code_row,
       os_app_id = ac_app_id code_row, os_client_id = ac_client_id code_row, os_actor_user_id = ac_actor_user_id code_row,
       os_roles = ac_roles code_row, os_scopes = ac_scopes code_row, os_status = ''active'', os_created_at = ox_now env,
       os_last_refreshed_at = None, os_expires_at = expires, os_revoked_at = None, os_compromised_at = None,
       os_compromise_reason = None\<rparr> in
     io_bind (insert_session session) (\<lambda>_. io_return session))"

record new_refresh =
  nr_refresh_token :: string
  nr_refresh_token_id :: string
  nr_refresh_expires_at :: int

definition create_refresh_token ::
  "sha \<Rightarrow> oauth_env \<Rightarrow> string \<Rightarrow> oauth_client option \<Rightarrow> string option \<Rightarrow> (oauth_db, new_refresh) io" where
  "create_refresh_token sha256 env session_id source resource =
     (let raw_token = raw_refresh_token sha256 resource (ox_secret env) in
      io_bind (io_lift (token_expires_at (ox_now env) (refresh_ttl source))) (\<lambda>expires.
      let row = \<lparr>rt_id = ''osdk_refresh_'' @ ox_token_hex env, rt_tenant_id = ox_tenant_id env, rt_session_id = session_id,
        rt_token_hash = hash_secret sha256 raw_token, rt_status = ''active'', rt_expires_at = expires,
        rt_replaced_by_token_id = None, rt_created_at = ox_now env, rt_used_at = None, rt_revoked_at = None\<rparr> in
      io_bind (insert_refresh_token row) (\<lambda>_. io_return
        \<lparr>nr_refresh_token = raw_token, nr_refresh_token_id = rt_id row, nr_refresh_expires_at = expires\<rparr>)))"

definition consume_code_once :: "string \<Rightarrow> string \<Rightarrow> int \<Rightarrow> (oauth_db, unit) io" where
  "consume_code_once tenant_id code_id consumed_at =
     io_bind (mark_authorization_code_consumed tenant_id code_id consumed_at) (\<lambda>consumed.
     if \<not> consumed then io_raise (ConflictDetected ''OSDK OAuth authorization code was already consumed'') else io_return ())"

text \<open>The claims of an access token and what the response says of the refresh token. The issuer signs the claims.\<close>

record oauth_grant =
  og_tenant_id :: string
  og_actor_user_id :: string
  og_roles :: "string list"
  og_application_id :: string
  og_client_id :: string
  og_scopes :: "string list"
  og_session_id :: string
  og_resource :: "string option"
  og_access_ttl :: int
  og_refresh_token :: string
  og_refresh_expires_at :: int

definition grant_of :: "oauth_session \<Rightarrow> string list option \<Rightarrow> string option \<Rightarrow> int \<Rightarrow> new_refresh \<Rightarrow> oauth_grant" where
  "grant_of session roles resource ttl refresh =
     \<lparr>og_tenant_id = os_tenant_id session, og_actor_user_id = os_actor_user_id session,
      og_roles = (case roles of None \<Rightarrow> os_roles session | Some rs \<Rightarrow> rs), og_application_id = os_app_id session,
      og_client_id = os_client_id session, og_scopes = os_scopes session, og_session_id = os_id session,
      og_resource = resource, og_access_ttl = ttl, og_refresh_token = nr_refresh_token refresh,
      og_refresh_expires_at = nr_refresh_expires_at refresh\<rparr>"

record exchange_request =
  xq_client_id :: string
  xq_code :: string
  xq_redirect_uri :: string
  xq_code_verifier :: string
  xq_resource :: "string option"
  xq_resource_application_id :: "string option"

text \<open>The transaction of an exchange; no grant means that the code was not good.\<close>

definition exchange_transaction :: "sha \<Rightarrow> oauth_env \<Rightarrow> exchange_request \<Rightarrow> oauth_db \<Rightarrow> (oauth_db, oauth_grant option) io" where
  "exchange_transaction sha256 env q reads =
     io_bind (io_lift (ox_limit env ''token'' (xq_client_id q))) (\<lambda>_.
     io_bind (if authorization_code_matches_resource sha256 (xq_code q) (xq_resource q)
              then exchangeable_code sha256 env (xq_code q) reads else io_return None) (\<lambda>code_row.
     case code_row of None \<Rightarrow> io_return None
     | Some row \<Rightarrow>
         io_bind (io_lift (require_active_client env (xq_client_id q) (xq_redirect_uri q))) (\<lambda>client.
         io_bind (io_lift (validate_code_exchange sha256 row (xq_client_id q) (xq_redirect_uri q) (xq_code_verifier q))) (\<lambda>_.
         io_bind (io_lift (require_resource_application client (xq_resource_application_id q))) (\<lambda>_.
         io_bind (create_session env row client) (\<lambda>session.
         io_bind (create_refresh_token sha256 env (os_id session) (Some client) (xq_resource q)) (\<lambda>refresh.
         io_bind (consume_code_once (ox_tenant_id env) (ac_id row) (ox_now env)) (\<lambda>_.
         io_bind (oauth_audit_event ''osdk.oauth.session.created'' (os_id session) ''allow'' (safe_session_ref session)) (\<lambda>_.
         io_return (Some (grant_of session None (xq_resource q) (access_ttl (Some client)) refresh)))))))))))"

section \<open>Refresh and revocation\<close>

definition compromise_refresh_family :: "oauth_env \<Rightarrow> string \<Rightarrow> (oauth_db, unit) io" where
  "compromise_refresh_family env session_id =
     io_bind (compromise_refresh_token_family (ox_tenant_id env) session_id (ox_now env) ''rotated_refresh_token_reuse'') (\<lambda>_.
     oauth_audit_event ''osdk.oauth.refresh_family_compromised'' session_id ''deny''
       [(''sessionId'', PStr session_id), (''reason'', PStr ''rotated_refresh_token_reuse'')])"

definition refresh_token_for_use :: "sha \<Rightarrow> oauth_env \<Rightarrow> string \<Rightarrow> oauth_db \<Rightarrow> (oauth_db, refresh_token option) io" where
  "refresh_token_for_use sha256 env raw_token reads =
     (case refresh_token_by_hash (ox_tenant_id env) (hash_secret sha256 raw_token) reads of
       None \<Rightarrow> io_return None
     | Some row \<Rightarrow> io_bind (if rt_status row = ''rotated'' then compromise_refresh_family env (rt_session_id row) else io_return ()) (\<lambda>_.
         if rt_status row \<noteq> ''active'' \<or> is_expired (rt_expires_at row) (ox_now env) then io_return None else io_return (Some row)))"

definition require_session :: "oauth_env \<Rightarrow> string \<Rightarrow> oauth_db \<Rightarrow> oauth_session result" where
  "require_session env session_id reads = (case session_by_id (ox_tenant_id env) session_id reads of
       None \<Rightarrow> Inl (PermissionDenied ''OSDK OAuth session is invalid'')
     | Some row \<Rightarrow> if os_status row \<noteq> ''active'' \<or> is_expired (os_expires_at row) (ox_now env)
         then Inl (PermissionDenied ''OSDK OAuth session is invalid'') else Inr row)"

definition rotate_refresh_once :: "string \<Rightarrow> string \<Rightarrow> string \<Rightarrow> string \<Rightarrow> int \<Rightarrow> (oauth_db, unit) io" where
  "rotate_refresh_once tenant_id token_id replacement_token_id session_id used_at =
     io_bind (rotate_refresh_token tenant_id token_id replacement_token_id used_at) (\<lambda>rotated.
     if \<not> rotated then io_raise (ConflictDetected ''OSDK OAuth refresh token was already rotated'')
     else update_session_refresh tenant_id session_id used_at)"

definition reevaluated_roles :: "oauth_session \<Rightarrow> oauth_env \<Rightarrow> string list" where
  "reevaluated_roles session env = filter (\<lambda>role. role \<in> set (ox_roles env)) (os_roles session)"

record refresh_request =
  rq_refresh_token :: string
  rq_client_id :: "string option"
  rq_resource :: "string option"
  rq_resource_application_id :: "string option"
  rq_should_reevaluate_roles :: bool

definition refresh_transaction ::
  "sha \<Rightarrow> oauth_env \<Rightarrow> refresh_request \<Rightarrow> oauth_db \<Rightarrow> oauth_db \<Rightarrow> (oauth_db, oauth_grant option) io" where
  "refresh_transaction sha256 env q reads session_reads =
     io_bind (if refresh_token_matches_resource sha256 (rq_refresh_token q) (rq_resource q)
              then refresh_token_for_use sha256 env (rq_refresh_token q) reads else io_return None) (\<lambda>old_token.
     case old_token of None \<Rightarrow> io_return None
     | Some token \<Rightarrow>
         io_bind (io_lift (require_session env (rt_session_id token) session_reads)) (\<lambda>session.
         io_bind (io_lift (require_resource_session session (rq_client_id q) (rq_resource_application_id q))) (\<lambda>_.
         io_bind (io_lift (ox_limit env ''refresh'' (os_client_id session))) (\<lambda>_.
         io_bind (create_refresh_token sha256 env (os_id session) None (rq_resource q)) (\<lambda>refresh.
         io_bind (rotate_refresh_once (ox_tenant_id env) (rt_id token) (nr_refresh_token_id refresh) (os_id session) (ox_now env)) (\<lambda>_.
         io_bind (oauth_audit_event ''osdk.oauth.refresh_rotated'' (os_id session) ''allow'' (safe_session_ref session)) (\<lambda>_.
         io_return (Some (grant_of session (if rq_should_reevaluate_roles q then Some (reevaluated_roles session env) else None)
           (rq_resource q) (access_ttl None) refresh)))))))))"

definition revoke_transaction :: "sha \<Rightarrow> oauth_env \<Rightarrow> string \<Rightarrow> oauth_db \<Rightarrow> oauth_db \<Rightarrow> (oauth_db, string option) io" where
  "revoke_transaction sha256 env raw_token reads session_reads =
     io_bind (refresh_token_for_use sha256 env raw_token reads) (\<lambda>token.
     case token of None \<Rightarrow> io_return None
     | Some row \<Rightarrow>
         io_bind (io_lift (require_session env (rt_session_id row) session_reads)) (\<lambda>session.
         io_bind (io_lift (ox_limit env ''revoke'' (os_client_id session))) (\<lambda>_.
         io_bind (revoke_refresh_token (ox_tenant_id env) (rt_id row) (ox_now env)) (\<lambda>_.
         io_bind (revoke_session (ox_tenant_id env) (os_id session) (ox_now env)) (\<lambda>_.
         io_bind (oauth_audit_event ''osdk.oauth.session.revoked'' (os_id session) ''allow'' (safe_session_ref session)) (\<lambda>_.
         io_return (Some (os_id session))))))))"

section \<open>Calls\<close>

text \<open>A transaction that raises is rolled back. One that ends without a result is committed, then the call is denied.\<close>

definition committed :: "string \<Rightarrow> (oauth_db, 'a option) io \<Rightarrow> oauth_db \<Rightarrow> 'a result \<times> oauth_db" where
  "committed denied m s = (case m s of Inl e \<Rightarrow> (Inl e, s)
     | Inr (None, s') \<Rightarrow> (Inl (PermissionDenied denied), s') | Inr (Some x, s') \<Rightarrow> (Inr x, s'))"

definition exchange_authorization_code ::
  "sha \<Rightarrow> oauth_env \<Rightarrow> exchange_request \<Rightarrow> oauth_db \<Rightarrow> oauth_db \<Rightarrow> oauth_grant result \<times> oauth_db" where
  "exchange_authorization_code sha256 env q reads =
     committed ''OSDK OAuth authorization code is invalid'' (exchange_transaction sha256 env q reads)"

definition refresh_access_token ::
  "sha \<Rightarrow> oauth_env \<Rightarrow> refresh_request \<Rightarrow> oauth_db \<Rightarrow> oauth_db \<Rightarrow> oauth_db \<Rightarrow> oauth_grant result \<times> oauth_db" where
  "refresh_access_token sha256 env q reads session_reads =
     committed ''OSDK OAuth refresh token is invalid'' (refresh_transaction sha256 env q reads session_reads)"

definition revoke ::
  "sha \<Rightarrow> oauth_env \<Rightarrow> string \<Rightarrow> oauth_db \<Rightarrow> oauth_db \<Rightarrow> oauth_db \<Rightarrow> string result \<times> oauth_db" where
  "revoke sha256 env raw_token reads session_reads =
     committed ''OSDK OAuth refresh token is invalid'' (revoke_transaction sha256 env raw_token reads session_reads)"

datatype oauth_call =
    Authorize oauth_env authorize_request
  | Exchange oauth_env exchange_request oauth_db
  | Refresh oauth_env refresh_request oauth_db oauth_db
  | Revoke oauth_env string oauth_db oauth_db
  | RevokeClient string string string int

datatype oauth_outcome = Coded string | Granted oauth_grant | Ended | Refused error

definition perform_oauth_call :: "sha \<Rightarrow> oauth_call \<Rightarrow> oauth_db \<Rightarrow> oauth_outcome \<times> oauth_db" where
  "perform_oauth_call sha256 c s = (case c of
       Authorize env q \<Rightarrow> (case authorize sha256 env q s of Inl e \<Rightarrow> (Refused e, s) | Inr (code, s') \<Rightarrow> (Coded code, s'))
     | Exchange env q reads \<Rightarrow> (case exchange_authorization_code sha256 env q reads s of
         (Inl e, s') \<Rightarrow> (Refused e, s') | (Inr g, s') \<Rightarrow> (Granted g, s'))
     | Refresh env q reads session_reads \<Rightarrow> (case refresh_access_token sha256 env q reads session_reads s of
         (Inl e, s') \<Rightarrow> (Refused e, s') | (Inr g, s') \<Rightarrow> (Granted g, s'))
     | Revoke env raw_token reads session_reads \<Rightarrow> (case revoke sha256 env raw_token reads session_reads s of
         (Inl e, s') \<Rightarrow> (Refused e, s') | (Inr _, s') \<Rightarrow> (Ended, s'))
     | RevokeClient tenant_id app_id client_id time \<Rightarrow>
         (case revoke_active_sessions_for_client tenant_id app_id client_id time s of
            Inl e \<Rightarrow> (Refused e, s) | Inr (_, s') \<Rightarrow> (Ended, s')))"

fun reads_of :: "oauth_call \<Rightarrow> oauth_db set" where
  "reads_of (Exchange env q reads) = {reads}"
| "reads_of (Refresh env q reads session_reads) = {reads, session_reads}"
| "reads_of (Revoke env raw_token reads session_reads) = {reads, session_reads}"
| "reads_of _ = {}"

text \<open>The states of a history, the latest first. A call reads states that were committed at some time before it writes.\<close>

inductive oauth_history :: "sha \<Rightarrow> oauth_db \<Rightarrow> oauth_db list \<Rightarrow> (oauth_call \<times> oauth_outcome) list \<Rightarrow> bool" for sha256 s0 where
  start: "oauth_history sha256 s0 [s0] []"
| call: "oauth_history sha256 s0 (s # past) trace \<Longrightarrow> reads_of c \<subseteq> set (s # past) \<Longrightarrow> perform_oauth_call sha256 c s = (out, s') \<Longrightarrow>
    oauth_history sha256 s0 (s' # s # past) ((c, out) # trace)"

section \<open>What every call keeps\<close>

definition oauth_ok :: "oauth_db \<Rightarrow> bool" where
  "oauth_ok s \<longleftrightarrow> unique_on ac_id (oa_codes s) \<and> unique_on (\<lambda>r. (ac_tenant_id r, ac_code_hash r)) (oa_codes s)
     \<and> unique_on os_id (oa_sessions s) \<and> unique_on rt_id (oa_tokens s) \<and> unique_on (\<lambda>r. (rt_tenant_id r, rt_token_hash r)) (oa_tokens s)"

definition code_kept :: "auth_code \<Rightarrow> auth_code \<Rightarrow> bool" where
  "code_kept r r' \<longleftrightarrow> (\<exists>c. r' = r\<lparr>ac_consumed_at := c\<rparr> \<and> (ac_consumed_at r \<noteq> None \<longrightarrow> c \<noteq> None))"

definition session_kept :: "oauth_session \<Rightarrow> oauth_session \<Rightarrow> bool" where
  "session_kept r r' \<longleftrightarrow> os_id r' = os_id r \<and> os_tenant_id r' = os_tenant_id r \<and> os_app_id r' = os_app_id r
     \<and> os_client_id r' = os_client_id r \<and> os_actor_user_id r' = os_actor_user_id r \<and> os_roles r' = os_roles r
     \<and> os_scopes r' = os_scopes r \<and> (os_status r \<noteq> ''active'' \<longrightarrow> os_status r' = os_status r)"

definition token_kept :: "refresh_token \<Rightarrow> refresh_token \<Rightarrow> bool" where
  "token_kept r r' \<longleftrightarrow> rt_id r' = rt_id r \<and> rt_tenant_id r' = rt_tenant_id r \<and> rt_session_id r' = rt_session_id r
     \<and> rt_token_hash r' = rt_token_hash r \<and> (rt_status r \<noteq> ''active'' \<longrightarrow> rt_status r' \<noteq> ''active'')"

definition rows_kept :: "('r \<Rightarrow> 'r \<Rightarrow> bool) \<Rightarrow> 'r list \<Rightarrow> 'r list \<Rightarrow> bool" where
  "rows_kept kept rows rows' \<longleftrightarrow> (\<forall>r \<in> set rows. \<exists>r' \<in> set rows'. kept r r')"

lemma rows_kept_update:
  assumes "\<And>r. kept r r" "\<And>r. p r \<Longrightarrow> kept r (f r)"
  shows "rows_kept kept rows (fst (sql_update p f rows))"
  unfolding rows_kept_def
proof
  fix r assume "r \<in> set rows"
  then have "(if p r then f r else r) \<in> set (fst (sql_update p f rows))" by (auto simp: sql_update_def)
  moreover have "kept r (if p r then f r else r)" using assms by simp
  ultimately show "\<exists>r' \<in> set (fst (sql_update p f rows)). kept r r'" by blast
qed

lemma rows_kept_append: "(\<And>r. kept r r) \<Longrightarrow> rows_kept kept rows (rows @ new)"
  by (auto simp: rows_kept_def)

lemma rows_kept_refl: "(\<And>r. kept r r) \<Longrightarrow> rows_kept kept rows rows"
  by (auto simp: rows_kept_def)

lemma rows_kept_trans:
  assumes "\<And>r r' r''. kept r r' \<Longrightarrow> kept r' r'' \<Longrightarrow> kept r r''" "rows_kept kept rows rows'" "rows_kept kept rows' rows''"
  shows "rows_kept kept rows rows''"
  using assms unfolding rows_kept_def by meson

lemma code_kept_refl [simp]: "code_kept r r"
  unfolding code_kept_def by (rule exI [of _ "ac_consumed_at r"]) simp

lemma code_kept_trans: "code_kept r r' \<Longrightarrow> code_kept r' r'' \<Longrightarrow> code_kept r r''"
  by (auto simp: code_kept_def)

lemma session_kept_refl [simp]: "session_kept r r"
  by (simp add: session_kept_def)

lemma session_kept_trans: "session_kept r r' \<Longrightarrow> session_kept r' r'' \<Longrightarrow> session_kept r r''"
  by (simp add: session_kept_def)

lemma token_kept_refl [simp]: "token_kept r r"
  by (simp add: token_kept_def)

lemma token_kept_trans: "token_kept r r' \<Longrightarrow> token_kept r' r'' \<Longrightarrow> token_kept r r''"
  by (simp add: token_kept_def)

definition oauth_later :: "oauth_db \<Rightarrow> oauth_db \<Rightarrow> bool" where
  "oauth_later s s' \<longleftrightarrow> rows_kept code_kept (oa_codes s) (oa_codes s') \<and> rows_kept session_kept (oa_sessions s) (oa_sessions s')
     \<and> rows_kept token_kept (oa_tokens s) (oa_tokens s') \<and> (oauth_ok s \<longrightarrow> oauth_ok s')"

lemma oauth_later_refl [simp]: "oauth_later s s"
  by (simp add: oauth_later_def rows_kept_refl)

lemma oauth_later_trans:
  assumes "oauth_later s s'" "oauth_later s' s''"
  shows "oauth_later s s''"
proof -
  have "rows_kept code_kept a b \<Longrightarrow> rows_kept code_kept b c \<Longrightarrow> rows_kept code_kept a c" for a b c
    by (rule rows_kept_trans) (rule code_kept_trans)
  moreover have "rows_kept session_kept a b \<Longrightarrow> rows_kept session_kept b c \<Longrightarrow> rows_kept session_kept a c" for a b c
    by (rule rows_kept_trans) (rule session_kept_trans)
  moreover have "rows_kept token_kept a b \<Longrightarrow> rows_kept token_kept b c \<Longrightarrow> rows_kept token_kept a c" for a b c
    by (rule rows_kept_trans) (rule token_kept_trans)
  ultimately show ?thesis using assms unfolding oauth_later_def by blast
qed

interpretation oauth: state_preorder oauth_later
  by unfold_locales (rule oauth_later_refl, rule oauth_later_trans)

lemma unique_on_append: "unique_on key (rows @ [row]) \<longleftrightarrow> unique_on key rows \<and> key row \<notin> set (map key rows)"
  by (auto simp: unique_on_def)

lemma keeps_insert_code: "io_keeps oauth_later (insert_authorization_code row)"
  unfolding io_keeps_def insert_authorization_code_def oauth_later_def oauth_ok_def
  by (simp add: rows_kept_refl rows_kept_append unique_on_append)

lemma keeps_insert_session: "io_keeps oauth_later (insert_session row)"
  unfolding io_keeps_def insert_session_def oauth_later_def oauth_ok_def
  by (simp add: rows_kept_refl rows_kept_append unique_on_append)

lemma keeps_insert_token: "io_keeps oauth_later (insert_refresh_token row)"
  unfolding io_keeps_def insert_refresh_token_def oauth_later_def oauth_ok_def
  by (simp add: rows_kept_refl rows_kept_append unique_on_append)

lemma code_kept_id: "code_kept r r' \<Longrightarrow> ac_id r' = ac_id r \<and> ac_tenant_id r' = ac_tenant_id r \<and> ac_code_hash r' = ac_code_hash r"
  by (auto simp: code_kept_def)

lemma session_kept_id: "session_kept r r' \<Longrightarrow> os_id r' = os_id r \<and> os_tenant_id r' = os_tenant_id r"
  by (simp add: session_kept_def)

lemma token_kept_id: "token_kept r r' \<Longrightarrow> rt_id r' = rt_id r \<and> rt_tenant_id r' = rt_tenant_id r \<and> rt_token_hash r' = rt_token_hash r"
  by (simp add: token_kept_def)

lemma keeps_update_codes:
  assumes "\<And>r. p r \<Longrightarrow> code_kept r (f r)"
  shows "io_keeps oauth_later (update_codes p f)"
proof -
  have "rows_kept code_kept rows (fst (sql_update p f rows))" for rows
    using assms by (intro rows_kept_update) simp_all
  moreover have "unique_on ac_id rows \<Longrightarrow> unique_on ac_id (fst (sql_update p f rows))" for rows
    using assms by (intro unique_on_update) (simp_all add: code_kept_id)
  moreover have "unique_on (\<lambda>r. (ac_tenant_id r, ac_code_hash r)) rows \<Longrightarrow> unique_on (\<lambda>r. (ac_tenant_id r, ac_code_hash r)) (fst (sql_update p f rows))" for rows
    using assms by (intro unique_on_update) (simp_all add: code_kept_id)
  ultimately show ?thesis
    unfolding io_keeps_def update_codes_def oauth_later_def oauth_ok_def by (simp add: rows_kept_refl)
qed

lemma keeps_update_sessions:
  assumes "\<And>r. p r \<Longrightarrow> session_kept r (f r)"
  shows "io_keeps oauth_later (update_sessions p f)"
proof -
  have "rows_kept session_kept rows (fst (sql_update p f rows))" for rows
    using assms by (intro rows_kept_update) simp_all
  moreover have "unique_on os_id rows \<Longrightarrow> unique_on os_id (fst (sql_update p f rows))" for rows
    using assms by (intro unique_on_update) (simp_all add: session_kept_id)
  ultimately show ?thesis
    unfolding io_keeps_def update_sessions_def oauth_later_def oauth_ok_def by (simp add: rows_kept_refl)
qed

lemma keeps_update_tokens:
  assumes "\<And>r. p r \<Longrightarrow> token_kept r (f r)"
  shows "io_keeps oauth_later (update_tokens p f)"
proof -
  have "rows_kept token_kept rows (fst (sql_update p f rows))" for rows
    using assms by (intro rows_kept_update) simp_all
  moreover have "unique_on rt_id rows \<Longrightarrow> unique_on rt_id (fst (sql_update p f rows))" for rows
    using assms by (intro unique_on_update) (simp_all add: token_kept_id)
  moreover have "unique_on (\<lambda>r. (rt_tenant_id r, rt_token_hash r)) rows \<Longrightarrow> unique_on (\<lambda>r. (rt_tenant_id r, rt_token_hash r)) (fst (sql_update p f rows))" for rows
    using assms by (intro unique_on_update) (simp_all add: token_kept_id)
  ultimately show ?thesis
    unfolding io_keeps_def update_tokens_def oauth_later_def oauth_ok_def by (simp add: rows_kept_refl)
qed

lemma keeps_audit: "io_keeps oauth_later (oauth_audit_event event_type i decision after_ref)"
  by (simp add: io_keeps_def oauth_audit_event_def oauth_later_def oauth_ok_def rows_kept_refl)

lemma keeps_write:
  "io_keeps oauth_later (mark_authorization_code_consumed t i time)" "io_keeps oauth_later (update_session_refresh t i time)" "io_keeps oauth_later (revoke_session t i time)"
  "io_keeps oauth_later (revoke_active_sessions_for_client t a c time)" "io_keeps oauth_later (compromise_refresh_token_family t i time reason)"
  "io_keeps oauth_later (rotate_refresh_token t i j time)" "io_keeps oauth_later (revoke_refresh_token t i time)"
  unfolding mark_authorization_code_consumed_def update_session_refresh_def revoke_session_def revoke_active_sessions_for_client_def compromise_refresh_token_family_def
    rotate_refresh_token_def revoke_refresh_token_def
  by (intro oauth.keeps_intros keeps_update_codes keeps_update_sessions keeps_update_tokens;
      force simp: code_kept_def session_kept_def token_kept_def session_revoked_def session_compromised_def refresh_revoked_def refresh_rotated_def mk_transition_def)+

lemmas keeps_oauth = oauth.keeps_intros keeps_insert_code keeps_insert_session keeps_insert_token keeps_audit keeps_write

lemma keeps_codes_exchangeable: "io_keeps oauth_later (exchangeable_code sha256 env raw_code reads)"
  unfolding exchangeable_code_def by (intro keeps_oauth keeps_option)

lemma keeps_create_session: "io_keeps oauth_later (create_session env row client)"
  unfolding create_session_def Let_def by (intro keeps_oauth)

lemma keeps_create_refresh: "io_keeps oauth_later (create_refresh_token sha256 env session_id source resource)"
  unfolding create_refresh_token_def Let_def by (intro keeps_oauth)

lemma keeps_consume: "io_keeps oauth_later (consume_code_once t i time)"
  unfolding consume_code_once_def by (intro keeps_oauth)

lemma keeps_rotate: "io_keeps oauth_later (rotate_refresh_once t i j session_id time)"
  unfolding rotate_refresh_once_def by (intro keeps_oauth)

lemma keeps_compromise: "io_keeps oauth_later (compromise_refresh_family env session_id)"
  unfolding compromise_refresh_family_def by (intro keeps_oauth)

lemma keeps_token_for_use: "io_keeps oauth_later (refresh_token_for_use sha256 env raw_token reads)"
  unfolding refresh_token_for_use_def by (intro keeps_oauth keeps_option keeps_compromise)

lemmas keeps_steps = keeps_oauth keeps_option keeps_codes_exchangeable keeps_create_session keeps_create_refresh keeps_consume
  keeps_rotate keeps_token_for_use

lemma keeps_authorize: "io_keeps oauth_later (authorize sha256 env q)"
  unfolding authorize_def Let_def by (intro keeps_steps)

lemma keeps_exchange: "io_keeps oauth_later (exchange_transaction sha256 env q reads)"
  unfolding exchange_transaction_def by (intro keeps_steps)

lemma keeps_refresh: "io_keeps oauth_later (refresh_transaction sha256 env q reads session_reads)"
  unfolding refresh_transaction_def by (intro keeps_steps)

lemma keeps_revoke: "io_keeps oauth_later (revoke_transaction sha256 env raw_token reads session_reads)"
  unfolding revoke_transaction_def by (intro keeps_steps)

lemma committed_later: "io_keeps oauth_later m \<Longrightarrow> committed denied m s = (r, s') \<Longrightarrow> oauth_later s s'"
  by (auto simp: committed_def io_keeps_def split: sum.splits option.splits prod.splits)

lemma perform_later:
  assumes "perform_oauth_call sha256 c s = (out, s')"
  shows "oauth_later s s'"
proof (cases c)
  case (Authorize env q)
  with assms show ?thesis using io_keepsD [OF keeps_authorize, of sha256 env q s]
    by (auto simp: perform_oauth_call_def split: sum.splits prod.splits)
next
  case (Exchange env q reads)
  with assms show ?thesis using committed_later [OF keeps_exchange]
    by (auto simp: perform_oauth_call_def exchange_authorization_code_def split: sum.splits prod.splits)
next
  case (Refresh env q reads session_reads)
  with assms show ?thesis using committed_later [OF keeps_refresh]
    by (auto simp: perform_oauth_call_def refresh_access_token_def split: sum.splits prod.splits)
next
  case (Revoke env raw_token reads session_reads)
  with assms show ?thesis using committed_later [OF keeps_revoke]
    by (auto simp: perform_oauth_call_def revoke_def split: sum.splits prod.splits)
next
  case (RevokeClient t a i time)
  with assms show ?thesis using io_keepsD [OF keeps_write(4)]
    by (auto simp: perform_oauth_call_def split: sum.splits prod.splits)
qed

lemma oauth_later_ok: "oauth_later s s' \<Longrightarrow> oauth_ok s \<Longrightarrow> oauth_ok s'"
  by (simp add: oauth_later_def)

lemma history_later:
  "oauth_history sha256 s0 states trace \<Longrightarrow> (\<forall>p \<in> set states. oauth_later p (hd states)) \<and> oauth_later s0 (hd states)
     \<and> (oauth_ok s0 \<longrightarrow> (\<forall>p \<in> set states. oauth_ok p))"
proof (induction rule: oauth_history.induct)
  case start
  then show ?case by simp
next
  case (call s past trace c out s')
  from perform_later [OF call(3)] have later: "oauth_later s s'" .
  with call(4) oauth_later_trans [OF _ later] oauth_later_ok [OF later] oauth_later_refl [of s'] show ?case by auto
qed

section \<open>What a granted call did\<close>

lemma filter_one: "length (filter p xs) = 1 \<Longrightarrow> \<exists>x \<in> set xs. p x"
  by (induction xs) (auto split: if_splits)

lemma consume_success:
  assumes "consume_code_once t i time s = Inr (u, s')"
  shows "(\<exists>r \<in> set (oa_codes s). ac_id r = i \<and> ac_tenant_id r = t \<and> ac_consumed_at r = None \<and> r\<lparr>ac_consumed_at := Some time\<rparr> \<in> set (oa_codes s'))
    \<and> oa_sessions s' = oa_sessions s \<and> oa_tokens s' = oa_tokens s"
proof -
  let ?p = "\<lambda>r. ac_tenant_id r = t \<and> ac_id r = i \<and> ac_consumed_at r = None"
  from assms have one: "length (filter ?p (oa_codes s)) = 1"
    and s': "s' = s\<lparr>oa_codes := map (\<lambda>r. if ?p r then r\<lparr>ac_consumed_at := Some time\<rparr> else r) (oa_codes s)\<rparr>"
    by (auto simp: consume_code_once_def mark_authorization_code_consumed_def update_codes_def io_bind_Inr sql_update_def
        io_return_def io_raise_def split: if_splits)
  from one obtain r where r: "r \<in> set (oa_codes s)" "?p r"
    using filter_one by blast
  then have "r\<lparr>ac_consumed_at := Some time\<rparr> \<in> set (oa_codes s')" unfolding s' by force
  with r s' show ?thesis by auto
qed

lemma rotate_success:
  assumes "rotate_refresh_once t i j session_id time s = Inr (u, s')"
  shows "\<exists>r \<in> set (oa_tokens s). rt_id r = i \<and> rt_tenant_id r = t \<and> rt_status r = ''active''
    \<and> r\<lparr>rt_status := ''rotated'', rt_replaced_by_token_id := Some j, rt_used_at := Some time\<rparr> \<in> set (oa_tokens s')"
proof -
  let ?p = "\<lambda>r. rt_tenant_id r = t \<and> rt_id r = i \<and> rt_status r = ''active''"
  let ?f = "\<lambda>r. r\<lparr>rt_status := ''rotated'', rt_replaced_by_token_id := Some j, rt_used_at := Some time\<rparr>"
  from assms have one: "length (filter ?p (oa_tokens s)) = 1" and s': "oa_tokens s' = map (\<lambda>r. if ?p r then ?f r else r) (oa_tokens s)"
    by (auto simp: rotate_refresh_once_def rotate_refresh_token_def update_tokens_def update_session_refresh_def update_sessions_def
        io_bind_Inr sql_update_def io_return_def io_raise_def refresh_rotated_def mk_transition_def split: if_splits)
  from one obtain r where r: "r \<in> set (oa_tokens s)" "?p r"
    using filter_one by blast
  then have "?f r \<in> set (oa_tokens s')" unfolding s' by force
  with r show ?thesis by blast
qed

lemma create_session_success:
  assumes "create_session env row client s = Inr (session, s')"
  shows "oa_codes s' = oa_codes s \<and> oa_tokens s' = oa_tokens s \<and> oa_sessions s' = oa_sessions s @ [session]
    \<and> os_tenant_id session = ac_tenant_id row \<and> os_app_id session = ac_app_id row \<and> os_client_id session = ac_client_id row
    \<and> os_actor_user_id session = ac_actor_user_id row \<and> os_roles session = ac_roles row \<and> os_scopes session = ac_scopes row"
  using assms by (auto simp: create_session_def Let_def io_bind_Inr io_lift_Inr insert_session_def io_return_def split: if_splits)

lemma create_refresh_success:
  assumes "create_refresh_token sha256 env session_id source resource s = Inr (refresh, s')"
  shows "oa_codes s' = oa_codes s \<and> oa_sessions s' = oa_sessions s \<and> (\<exists>row. oa_tokens s' = oa_tokens s @ [row])"
  using assms by (auto simp: create_refresh_token_def Let_def io_bind_Inr io_lift_Inr insert_refresh_token_def io_return_def split: if_splits)

lemma audit_success: "oauth_audit_event a i d ref s = Inr (u, s') \<Longrightarrow>
  oa_codes s' = oa_codes s \<and> oa_sessions s' = oa_sessions s \<and> oa_tokens s' = oa_tokens s"
  by (auto simp: oauth_audit_event_def)

lemma exchangeable_success:
  assumes "exchangeable_code sha256 env raw_code reads s = Inr (Some row, s')"
  shows "s' = s \<and> authorization_code_by_hash (ox_tenant_id env) (hash_secret sha256 raw_code) reads = Some row"
  using assms by (auto simp: exchangeable_code_def io_bind_Inr io_return_def oauth_audit_event_def split: option.splits if_splits)

lemma exchange_success:
  assumes "exchange_transaction sha256 env q reads s = Inr (Some g, s')"
  obtains row client session refresh v u s1 s2 s3 where
    "authorization_code_by_hash (ox_tenant_id env) (hash_secret sha256 (xq_code q)) reads = Some row"
    "validate_code_exchange sha256 row (xq_client_id q) (xq_redirect_uri q) (xq_code_verifier q) = Inr v"
    "create_session env row client s = Inr (session, s1)"
    "create_refresh_token sha256 env (os_id session) (Some client) (xq_resource q) s1 = Inr (refresh, s2)"
    "consume_code_once (ox_tenant_id env) (ac_id row) (ox_now env) s2 = Inr (u, s3)"
    "oa_codes s' = oa_codes s3" "oa_sessions s' = oa_sessions s3" "oa_tokens s' = oa_tokens s3"
    "g = grant_of session None (xq_resource q) (access_ttl (Some client)) refresh"
proof -
  from assms obtain code_row s0 where code: "(if authorization_code_matches_resource sha256 (xq_code q) (xq_resource q)
        then exchangeable_code sha256 env (xq_code q) reads else io_return None) s = Inr (code_row, s0)"
    and rest: "(case code_row of None \<Rightarrow> io_return None
     | Some row \<Rightarrow>
         io_bind (io_lift (require_active_client env (xq_client_id q) (xq_redirect_uri q))) (\<lambda>client.
         io_bind (io_lift (validate_code_exchange sha256 row (xq_client_id q) (xq_redirect_uri q) (xq_code_verifier q))) (\<lambda>_.
         io_bind (io_lift (require_resource_application client (xq_resource_application_id q))) (\<lambda>_.
         io_bind (create_session env row client) (\<lambda>session.
         io_bind (create_refresh_token sha256 env (os_id session) (Some client) (xq_resource q)) (\<lambda>refresh.
         io_bind (consume_code_once (ox_tenant_id env) (ac_id row) (ox_now env)) (\<lambda>_.
         io_bind (oauth_audit_event ''osdk.oauth.session.created'' (os_id session) ''allow'' (safe_session_ref session)) (\<lambda>_.
         io_return (Some (grant_of session None (xq_resource q) (access_ttl (Some client)) refresh)))))))))) s0 = Inr (Some g, s')"
    unfolding exchange_transaction_def io_bind_Inr [of "io_lift _"] io_lift_Inr io_bind_Inr by blast
  from rest obtain row where row: "code_row = Some row" by (cases code_row) (simp_all add: io_return_def)
  with code have found: "s0 = s" "authorization_code_by_hash (ox_tenant_id env) (hash_secret sha256 (xq_code q)) reads = Some row"
    using exchangeable_success by (auto simp: io_return_def split: if_splits)
  from rest show thesis unfolding row found(1) option.case io_bind_Inr io_lift_Inr
    by (elim exE conjE, hypsubst) (rule that [OF found(2)], assumption+, auto simp: io_return_def oauth_audit_event_def)
qed

lemma token_for_use_success:
  assumes "refresh_token_for_use sha256 env raw_token reads s = Inr (Some row, s')"
  shows "s' = s \<and> refresh_token_by_hash (ox_tenant_id env) (hash_secret sha256 raw_token) reads = Some row \<and> rt_status row = ''active''"
  using assms by (auto simp: refresh_token_for_use_def io_bind_Inr io_return_def split: option.splits if_splits)

lemma refresh_success:
  assumes "refresh_transaction sha256 env q reads session_reads s = Inr (Some g, s')"
  obtains token session refresh u s1 s2 where
    "refresh_token_by_hash (ox_tenant_id env) (hash_secret sha256 (rq_refresh_token q)) reads = Some token"
    "require_session env (rt_session_id token) session_reads = Inr session"
    "create_refresh_token sha256 env (os_id session) None (rq_resource q) s = Inr (refresh, s1)"
    "rotate_refresh_once (ox_tenant_id env) (rt_id token) (nr_refresh_token_id refresh) (os_id session) (ox_now env) s1 = Inr (u, s2)"
    "oa_codes s' = oa_codes s2" "oa_sessions s' = oa_sessions s2" "oa_tokens s' = oa_tokens s2"
    "g = grant_of session (if rq_should_reevaluate_roles q then Some (reevaluated_roles session env) else None)
       (rq_resource q) (access_ttl None) refresh"
proof -
  from assms obtain old_token s0 where old: "(if refresh_token_matches_resource sha256 (rq_refresh_token q) (rq_resource q)
        then refresh_token_for_use sha256 env (rq_refresh_token q) reads else io_return None) s = Inr (old_token, s0)"
    and rest: "(case old_token of None \<Rightarrow> io_return None
     | Some token \<Rightarrow>
         io_bind (io_lift (require_session env (rt_session_id token) session_reads)) (\<lambda>session.
         io_bind (io_lift (require_resource_session session (rq_client_id q) (rq_resource_application_id q))) (\<lambda>_.
         io_bind (io_lift (ox_limit env ''refresh'' (os_client_id session))) (\<lambda>_.
         io_bind (create_refresh_token sha256 env (os_id session) None (rq_resource q)) (\<lambda>refresh.
         io_bind (rotate_refresh_once (ox_tenant_id env) (rt_id token) (nr_refresh_token_id refresh) (os_id session) (ox_now env)) (\<lambda>_.
         io_bind (oauth_audit_event ''osdk.oauth.refresh_rotated'' (os_id session) ''allow'' (safe_session_ref session)) (\<lambda>_.
         io_return (Some (grant_of session (if rq_should_reevaluate_roles q then Some (reevaluated_roles session env) else None)
           (rq_resource q) (access_ttl None) refresh))))))))) s0 = Inr (Some g, s')"
    unfolding refresh_transaction_def io_bind_Inr by blast
  from rest obtain token where token: "old_token = Some token" by (cases old_token) (simp_all add: io_return_def)
  with old have found: "s0 = s" "refresh_token_by_hash (ox_tenant_id env) (hash_secret sha256 (rq_refresh_token q)) reads = Some token"
    using token_for_use_success by (auto simp: io_return_def split: if_splits)
  from rest show thesis unfolding token found(1) option.case io_bind_Inr io_lift_Inr
    by (elim exE conjE, hypsubst) (rule that [OF found(2)], assumption+, auto simp: io_return_def oauth_audit_event_def)
qed

lemma exchange_granted: "perform_oauth_call sha256 (Exchange env q reads) s = (Granted g, s') \<Longrightarrow> exchange_transaction sha256 env q reads s = Inr (Some g, s')"
  by (auto simp: perform_oauth_call_def exchange_authorization_code_def committed_def split: sum.splits prod.splits option.splits)

lemma refresh_granted: "perform_oauth_call sha256 (Refresh env q reads session_reads) s = (Granted g, s') \<Longrightarrow>
  refresh_transaction sha256 env q reads session_reads s = Inr (Some g, s')"
  by (auto simp: perform_oauth_call_def refresh_access_token_def committed_def split: sum.splits prod.splits option.splits)

section \<open>Credentials are good for one use\<close>

fun granted_codes :: "(oauth_call \<times> oauth_outcome) list \<Rightarrow> (string \<times> string) list" where
  "granted_codes [] = []"
| "granted_codes ((Exchange env q reads, Granted g) # trace) = (ox_tenant_id env, xq_code q) # granted_codes trace"
| "granted_codes (_ # trace) = granted_codes trace"

fun granted_refreshes :: "(oauth_call \<times> oauth_outcome) list \<Rightarrow> (string \<times> string) list" where
  "granted_refreshes [] = []"
| "granted_refreshes ((Refresh env q reads session_reads, Granted g) # trace) = (ox_tenant_id env, rq_refresh_token q) # granted_refreshes trace"
| "granted_refreshes (_ # trace) = granted_refreshes trace"

lemma exchange_uses_code:
  assumes "exchange_transaction sha256 env q reads s = Inr (Some g, s')" and later: "oauth_later reads s" and ok: "oauth_ok s"
  defines "is_code \<equiv> \<lambda>r. ac_tenant_id r = ox_tenant_id env \<and> ac_code_hash r = hash_secret sha256 (xq_code q)"
  shows "(\<exists>r \<in> set (oa_codes s). is_code r \<and> ac_consumed_at r = None) \<and> (\<exists>r \<in> set (oa_codes s'). is_code r \<and> ac_consumed_at r \<noteq> None)"
proof (rule exchange_success [OF assms(1)])
  fix row client session refresh v u s1 s2 s3
  assume row: "authorization_code_by_hash (ox_tenant_id env) (hash_secret sha256 (xq_code q)) reads = Some row"
    and steps: "create_session env row client s = Inr (session, s1)"
      "create_refresh_token sha256 env (os_id session) (Some client) (xq_resource q) s1 = Inr (refresh, s2)"
      "consume_code_once (ox_tenant_id env) (ac_id row) (ox_now env) s2 = Inr (u, s3)"
    and s': "oa_codes s' = oa_codes s3"
  from row have found: "row \<in> set (oa_codes reads)" "is_code row"
    by (auto simp: authorization_code_by_hash_def is_code_def dest!: sql_first_Some)
  from later found(1) obtain kept where kept: "kept \<in> set (oa_codes s)" "code_kept row kept"
    unfolding oauth_later_def rows_kept_def by blast
  have same: "oa_codes s2 = oa_codes s" using create_session_success [OF steps(1)] create_refresh_success [OF steps(2)] by simp
  from consume_success [OF steps(3)] same obtain r where r: "r \<in> set (oa_codes s)" "ac_id r = ac_id row" "ac_consumed_at r = None"
    "r\<lparr>ac_consumed_at := Some (ox_now env)\<rparr> \<in> set (oa_codes s3)" by auto
  have "r = kept" using unique_on_inj [of ac_id "oa_codes s" r kept] ok r(1,2) kept code_kept_id [OF kept(2)] by (simp add: oauth_ok_def)
  then have "is_code r" using code_kept_id [OF kept(2)] found(2) by (simp add: is_code_def)
  moreover have "r\<lparr>ac_consumed_at := Some (ox_now env)\<rparr> \<in> set (oa_codes s')" using r(4) s' by simp
  moreover have "is_code (r\<lparr>ac_consumed_at := Some (ox_now env)\<rparr>)" using \<open>is_code r\<close> by (simp add: is_code_def)
  moreover have "ac_consumed_at (r\<lparr>ac_consumed_at := Some (ox_now env)\<rparr>) \<noteq> None" by simp
  ultimately show ?thesis using r(1,3) by blast
qed

lemma refresh_uses_token:
  assumes "refresh_transaction sha256 env q reads session_reads s = Inr (Some g, s')" and later: "oauth_later reads s" and ok: "oauth_ok s"
  defines "is_token \<equiv> \<lambda>r. rt_tenant_id r = ox_tenant_id env \<and> rt_token_hash r = hash_secret sha256 (rq_refresh_token q)"
  shows "(\<exists>r \<in> set (oa_tokens s). is_token r \<and> rt_status r = ''active'') \<and> (\<exists>r \<in> set (oa_tokens s'). is_token r \<and> rt_status r \<noteq> ''active'')"
proof (rule refresh_success [OF assms(1)])
  fix token session refresh u s1 s2
  assume row: "refresh_token_by_hash (ox_tenant_id env) (hash_secret sha256 (rq_refresh_token q)) reads = Some token"
    and steps: "create_refresh_token sha256 env (os_id session) None (rq_resource q) s = Inr (refresh, s1)"
      "rotate_refresh_once (ox_tenant_id env) (rt_id token) (nr_refresh_token_id refresh) (os_id session) (ox_now env) s1 = Inr (u, s2)"
    and s': "oa_tokens s' = oa_tokens s2"
  from row have found: "token \<in> set (oa_tokens reads)" "is_token token"
    by (auto simp: refresh_token_by_hash_def is_token_def dest!: sql_first_Some)
  from later found(1) obtain kept where kept: "kept \<in> set (oa_tokens s)" "token_kept token kept"
    unfolding oauth_later_def rows_kept_def by blast
  from io_keepsD [OF keeps_create_refresh steps(1)] have later1: "oauth_later s s1" .
  from later1 kept(1) obtain kept1 where kept1: "kept1 \<in> set (oa_tokens s1)" "token_kept kept kept1"
    unfolding oauth_later_def rows_kept_def by blast
  from rotate_success [OF steps(2)] obtain r where r: "r \<in> set (oa_tokens s1)" "rt_id r = rt_id token" "rt_status r = ''active''"
    "r\<lparr>rt_status := ''rotated'', rt_replaced_by_token_id := Some (nr_refresh_token_id refresh), rt_used_at := Some (ox_now env)\<rparr> \<in> set (oa_tokens s2)"
    by blast
  have "r = kept1" using unique_on_inj [of rt_id "oa_tokens s1" r kept1] oauth_later_ok [OF later1 ok] r(1,2) kept1 token_kept_id [OF kept1(2)]
      token_kept_id [OF kept(2)] by (simp add: oauth_ok_def)
  then have "is_token r" "rt_status kept = ''active''" "is_token kept"
    using token_kept_id [OF kept1(2)] token_kept_id [OF kept(2)] found(2) kept1(2) r(3) by (auto simp: is_token_def token_kept_def)
  with r(4) kept(1) s' show ?thesis by (auto simp: is_token_def intro!: bexI [OF _ r(4)])
qed

lemma code_used_kept:
  assumes "oauth_later s s'" "\<exists>r \<in> set (oa_codes s). ac_tenant_id r = t \<and> ac_code_hash r = h \<and> ac_consumed_at r \<noteq> None"
  shows "\<exists>r \<in> set (oa_codes s'). ac_tenant_id r = t \<and> ac_code_hash r = h \<and> ac_consumed_at r \<noteq> None"
proof -
  from assms(2) obtain r where r: "r \<in> set (oa_codes s)" "ac_tenant_id r = t" "ac_code_hash r = h" "ac_consumed_at r \<noteq> None" by blast
  with assms(1) obtain r' where "r' \<in> set (oa_codes s')" "code_kept r r'" unfolding oauth_later_def rows_kept_def by blast
  moreover from this(2) r have "ac_tenant_id r' = t \<and> ac_code_hash r' = h \<and> ac_consumed_at r' \<noteq> None" by (auto simp: code_kept_def)
  ultimately show ?thesis by blast
qed

lemma token_used_kept:
  assumes "oauth_later s s'" "\<exists>r \<in> set (oa_tokens s). rt_tenant_id r = t \<and> rt_token_hash r = h \<and> rt_status r \<noteq> ''active''"
  shows "\<exists>r \<in> set (oa_tokens s'). rt_tenant_id r = t \<and> rt_token_hash r = h \<and> rt_status r \<noteq> ''active''"
proof -
  from assms(2) obtain r where r: "r \<in> set (oa_tokens s)" "rt_tenant_id r = t" "rt_token_hash r = h" "rt_status r \<noteq> ''active''" by blast
  with assms(1) obtain r' where "r' \<in> set (oa_tokens s')" "token_kept r r'" unfolding oauth_later_def rows_kept_def by blast
  moreover from this(2) r have "rt_tenant_id r' = t \<and> rt_token_hash r' = h \<and> rt_status r' \<noteq> ''active''" by (auto simp: token_kept_def)
  ultimately show ?thesis by blast
qed

lemma one_use_codes:
  assumes "oauth_history sha256 s0 states trace" "oauth_ok s0"
  shows "distinct (granted_codes trace) \<and> (\<forall>t c. (t, c) \<in> set (granted_codes trace) \<longrightarrow>
    (\<exists>r \<in> set (oa_codes (hd states)). ac_tenant_id r = t \<and> ac_code_hash r = hash_secret sha256 c \<and> ac_consumed_at r \<noteq> None))"
  using assms
proof (induction rule: oauth_history.induct)
  case start
  then show ?case by simp
next
  case (call s past trace c out s')
  note IH = call.IH [OF call.prems]
  note past = history_later [OF call(1)]
  have kept: "\<exists>r \<in> set (oa_codes s'). ac_tenant_id r = t \<and> ac_code_hash r = h \<and> ac_consumed_at r \<noteq> None"
    if "\<exists>r \<in> set (oa_codes s). ac_tenant_id r = t \<and> ac_code_hash r = h \<and> ac_consumed_at r \<noteq> None" for t h
    using code_used_kept perform_later [OF call(3)] that by blast
  show ?case
  proof (cases "\<exists>env q reads g. c = Exchange env q reads \<and> out = Granted g")
    case False
    then have "granted_codes ((c, out) # trace) = granted_codes trace" by (cases c; cases out) auto
    with IH kept show ?thesis by simp
  next
    case True
    then obtain env q reads g where c: "c = Exchange env q reads" "out = Granted g" by blast
    have "oauth_ok s" "oauth_later reads s" using past call.prems call(2) c by auto
    note uses = exchange_uses_code [OF exchange_granted [OF call(3) [unfolded c]] this(2,1)]
    have "(ox_tenant_id env, xq_code q) \<notin> set (granted_codes trace)"
    proof
      assume "(ox_tenant_id env, xq_code q) \<in> set (granted_codes trace)"
      with IH obtain r where r: "r \<in> set (oa_codes s)" "ac_tenant_id r = ox_tenant_id env"
        "ac_code_hash r = hash_secret sha256 (xq_code q)" "ac_consumed_at r \<noteq> None" unfolding list.sel by blast
      moreover from uses obtain r' where "r' \<in> set (oa_codes s)" "ac_tenant_id r' = ox_tenant_id env"
        "ac_code_hash r' = hash_secret sha256 (xq_code q)" "ac_consumed_at r' = None" by blast
      ultimately show False using \<open>oauth_ok s\<close> unique_on_inj [of "\<lambda>r. (ac_tenant_id r, ac_code_hash r)" "oa_codes s" r r']
        by (auto simp: oauth_ok_def)
    qed
    with IH kept uses show ?thesis unfolding c by auto
  qed
qed

lemma one_use_refreshes:
  assumes "oauth_history sha256 s0 states trace" "oauth_ok s0"
  shows "distinct (granted_refreshes trace) \<and> (\<forall>t c. (t, c) \<in> set (granted_refreshes trace) \<longrightarrow>
    (\<exists>r \<in> set (oa_tokens (hd states)). rt_tenant_id r = t \<and> rt_token_hash r = hash_secret sha256 c \<and> rt_status r \<noteq> ''active''))"
  using assms
proof (induction rule: oauth_history.induct)
  case start
  then show ?case by simp
next
  case (call s past trace c out s')
  note IH = call.IH [OF call.prems]
  note past = history_later [OF call(1)]
  have kept: "\<exists>r \<in> set (oa_tokens s'). rt_tenant_id r = t \<and> rt_token_hash r = h \<and> rt_status r \<noteq> ''active''"
    if "\<exists>r \<in> set (oa_tokens s). rt_tenant_id r = t \<and> rt_token_hash r = h \<and> rt_status r \<noteq> ''active''" for t h
    using token_used_kept perform_later [OF call(3)] that by blast
  show ?case
  proof (cases "\<exists>env q reads session_reads g. c = Refresh env q reads session_reads \<and> out = Granted g")
    case False
    then have "granted_refreshes ((c, out) # trace) = granted_refreshes trace" by (cases c; cases out) auto
    with IH kept show ?thesis by simp
  next
    case True
    then obtain env q reads session_reads g where c: "c = Refresh env q reads session_reads" "out = Granted g" by blast
    have "oauth_ok s" "oauth_later reads s" using past call.prems call(2) c by auto
    note uses = refresh_uses_token [OF refresh_granted [OF call(3) [unfolded c]] this(2,1)]
    have "(ox_tenant_id env, rq_refresh_token q) \<notin> set (granted_refreshes trace)"
    proof
      assume "(ox_tenant_id env, rq_refresh_token q) \<in> set (granted_refreshes trace)"
      with IH obtain r where r: "r \<in> set (oa_tokens s)" "rt_tenant_id r = ox_tenant_id env"
        "rt_token_hash r = hash_secret sha256 (rq_refresh_token q)" "rt_status r \<noteq> ''active''" unfolding list.sel by blast
      moreover from uses obtain r' where "r' \<in> set (oa_tokens s)" "rt_tenant_id r' = ox_tenant_id env"
        "rt_token_hash r' = hash_secret sha256 (rq_refresh_token q)" "rt_status r' = ''active''" by blast
      ultimately show False using \<open>oauth_ok s\<close> unique_on_inj [of "\<lambda>r. (rt_tenant_id r, rt_token_hash r)" "oa_tokens s" r r']
        by (auto simp: oauth_ok_def)
    qed
    with IH kept uses show ?thesis unfolding c by auto
  qed
qed

section \<open>Reuse of a rotated token\<close>

lemma compromise_effect:
  assumes "compromise_refresh_family env i s = Inr (u, s')"
  shows "(\<forall>r \<in> set (oa_sessions s'). os_tenant_id r = ox_tenant_id env \<and> os_id r = i \<longrightarrow> os_status r \<noteq> ''active'')
    \<and> (\<forall>r \<in> set (oa_tokens s'). rt_tenant_id r = ox_tenant_id env \<and> rt_session_id r = i \<longrightarrow> rt_status r \<noteq> ''active'')"
proof -
  let ?p = "\<lambda>r. os_tenant_id r = ox_tenant_id env \<and> os_id r = i \<and> os_status r = ''active''"
  let ?q = "\<lambda>r. rt_tenant_id r = ox_tenant_id env \<and> (rt_status r = ''active'' \<or> rt_status r = ''rotated'') \<and> rt_session_id r = i"
  have eq: "compromise_refresh_family env i s = Inr ((), s\<lparr>
      oa_sessions := map (\<lambda>r. if ?p r then r\<lparr>os_status := ''compromised'', os_compromised_at := Some (ox_now env),
          os_compromise_reason := Some ''rotated_refresh_token_reuse''\<rparr> else r) (oa_sessions s),
      oa_tokens := map (\<lambda>r. if ?q r then r\<lparr>rt_status := ''revoked'', rt_revoked_at := Some (ox_now env)\<rparr> else r) (oa_tokens s),
      oa_audit := oa_audit s @ [\<lparr>ou_event_type = ''osdk.oauth.refresh_family_compromised'', ou_resource_id = i, ou_decision = ''deny'',
        ou_after_ref = [(''sessionId'', PStr i), (''reason'', PStr ''rotated_refresh_token_reuse'')]\<rparr>]\<rparr>)"
    by (simp add: compromise_refresh_family_def compromise_refresh_token_family_def io_bind_def rbind_def io_return_def
        update_sessions_def update_tokens_def sql_update_def oauth_audit_event_def session_compromised_def refresh_revoked_def mk_transition_def)
  have s': "s' = snd (projr (compromise_refresh_family env i s))" using assms by simp
  have rows: "oa_sessions s' = map (\<lambda>r. if ?p r then r\<lparr>os_status := ''compromised'', os_compromised_at := Some (ox_now env),
          os_compromise_reason := Some ''rotated_refresh_token_reuse''\<rparr> else r) (oa_sessions s)"
      "oa_tokens s' = map (\<lambda>r. if ?q r then r\<lparr>rt_status := ''revoked'', rt_revoked_at := Some (ox_now env)\<rparr> else r) (oa_tokens s)"
    unfolding s' eq by simp_all
  have "os_status r \<noteq> ''active''" if "r \<in> set (oa_sessions s')" "os_tenant_id r = ox_tenant_id env" "os_id r = i" for r
  proof -
    from that(1) obtain r0 where r0: "r = (if ?p r0 then r0\<lparr>os_status := ''compromised'', os_compromised_at := Some (ox_now env),
          os_compromise_reason := Some ''rotated_refresh_token_reuse''\<rparr> else r0)" unfolding rows(1) set_map by (elim imageE)
    then have "r = r0 \<and> \<not> ?p r0 \<or> os_status r = ''compromised''" by (cases "?p r0") (simp, simp only: if_False simp_thms)
    then show ?thesis using that(2,3) by (elim disjE conjE) simp_all
  qed
  moreover have "rt_status r \<noteq> ''active''" if "r \<in> set (oa_tokens s')" "rt_tenant_id r = ox_tenant_id env" "rt_session_id r = i" for r
  proof -
    from that(1) obtain r0 where r0: "r = (if ?q r0 then r0\<lparr>rt_status := ''revoked'', rt_revoked_at := Some (ox_now env)\<rparr> else r0)"
      unfolding rows(2) set_map by (elim imageE)
    then have "r = r0 \<and> \<not> ?q r0 \<or> rt_status r = ''revoked''" by (cases "?q r0") (simp, simp only: if_False simp_thms)
    then show ?thesis using that(2,3) by (elim disjE conjE) simp_all
  qed
  ultimately show ?thesis by blast
qed

lemma session_stays_closed:
  assumes "session_by_id t i s = Some session" "os_status session \<noteq> ''active''" "oauth_later s s'" "oauth_ok s"
  shows "\<exists>session'. session_by_id t i s' = Some session' \<and> os_status session' \<noteq> ''active''"
proof -
  from assms(1) have r: "session \<in> set (oa_sessions s)" "os_tenant_id session = t" "os_id session = i"
    by (auto simp: session_by_id_def dest!: sql_first_Some)
  with assms(3) obtain r' where r': "r' \<in> set (oa_sessions s')" "session_kept session r'" unfolding oauth_later_def rows_kept_def by blast
  have "unique_on os_id (oa_sessions s')" using oauth_later_ok [OF assms(3,4)] by (simp add: oauth_ok_def)
  then have "session_by_id t i s' = Some r'" unfolding session_by_id_def
    by (rule sql_first_unique) (use r r' session_kept_id [OF r'(2)] in auto)
  moreover have "os_status r' \<noteq> ''active''" using r'(2) assms(2) by (simp add: session_kept_def)
  ultimately show ?thesis by blast
qed

lemma closed_session_refuses:
  assumes "refresh_token_by_hash (ox_tenant_id env) (hash_secret sha256 (rq_refresh_token q)) reads = Some token"
    "session_by_id (ox_tenant_id env) (rt_session_id token) session_reads = Some session" "os_status session \<noteq> ''active''"
  shows "\<exists>e. fst (refresh_access_token sha256 env q reads session_reads s) = Inl e"
proof (rule ccontr)
  assume "\<nexists>e. fst (refresh_access_token sha256 env q reads session_reads s) = Inl e"
  then obtain g s' where "refresh_transaction sha256 env q reads session_reads s = Inr (Some g, s')"
    by (auto simp: refresh_access_token_def committed_def split: sum.splits option.splits)
  then show False using assms by (rule_tac refresh_success) (auto simp: require_session_def split: if_splits)
qed


section \<open>Tokens say what was authorized\<close>

definition consented ::
  "(oauth_call \<times> oauth_outcome) list \<Rightarrow> string \<Rightarrow> string \<Rightarrow> string \<Rightarrow> string \<Rightarrow> string list \<Rightarrow> string list \<Rightarrow> bool" where
  "consented trace tenant_id app_id client_id actor roles scopes \<longleftrightarrow>
     (\<exists>env q code client. (Authorize env q, Coded code) \<in> set trace \<and> require_active_client env (az_client_id q) (az_redirect_uri q) = Inr client
        \<and> tenant_id = ox_tenant_id env \<and> actor = ox_actor_user_id env \<and> app_id = cl_app_id client \<and> client_id = cl_client_id client
        \<and> set roles \<subseteq> set (ox_roles env) \<and> set scopes \<subseteq> set (app_resource_scopes env app_id)
        \<and> (client_allowed_scopes client \<noteq> [] \<longrightarrow> set scopes \<subseteq> set (client_allowed_scopes client)))"

lemma consented_mono: "consented trace t a c u roles scopes \<Longrightarrow> set roles' \<subseteq> set roles \<Longrightarrow> consented (x # trace) t a c u roles' scopes"
proof -
  assume c: "consented trace t a c u roles scopes" and roles: "set roles' \<subseteq> set roles"
  from c obtain env q code client where "(Authorize env q, Coded code) \<in> set trace"
    and facts: "require_active_client env (az_client_id q) (az_redirect_uri q) = Inr client"
      "t = ox_tenant_id env \<and> u = ox_actor_user_id env \<and> a = cl_app_id client \<and> c = cl_client_id client"
      "set roles \<subseteq> set (ox_roles env)" "set scopes \<subseteq> set (app_resource_scopes env a)"
      "client_allowed_scopes client \<noteq> [] \<longrightarrow> set scopes \<subseteq> set (client_allowed_scopes client)"
    unfolding consented_def by blast
  then have "(Authorize env q, Coded code) \<in> set (x # trace)" by simp
  moreover have "set roles' \<subseteq> set (ox_roles env)" using roles facts(3) by (rule order_trans)
  ultimately show ?thesis using facts unfolding consented_def by blast
qed

definition all_consented :: "(oauth_call \<times> oauth_outcome) list \<Rightarrow> oauth_db \<Rightarrow> bool" where
  "all_consented trace s \<longleftrightarrow>
     (\<forall>r \<in> set (oa_codes s). consented trace (ac_tenant_id r) (ac_app_id r) (ac_client_id r) (ac_actor_user_id r) (ac_roles r) (ac_scopes r))
     \<and> (\<forall>r \<in> set (oa_sessions s). consented trace (os_tenant_id r) (os_app_id r) (os_client_id r) (os_actor_user_id r) (os_roles r) (os_scopes r))"

text \<open>No new codes or sessions: every row comes from one that was there.\<close>

definition rows_from :: "('r \<Rightarrow> 'r \<Rightarrow> bool) \<Rightarrow> 'r list \<Rightarrow> 'r list \<Rightarrow> bool" where
  "rows_from kept rows rows' \<longleftrightarrow> (\<forall>r' \<in> set rows'. \<exists>r \<in> set rows. kept r r')"

lemma rows_from_refl: "(\<And>r. kept r r) \<Longrightarrow> rows_from kept rows rows"
  by (auto simp: rows_from_def)

lemma rows_from_update: "(\<And>r. kept r r) \<Longrightarrow> (\<And>r. p r \<Longrightarrow> kept r (f r)) \<Longrightarrow> rows_from kept rows (fst (sql_update p f rows))"
  by (auto simp: rows_from_def sql_update_def split: if_splits)

lemma rows_from_trans:
  assumes "\<And>r r' r''. kept r r' \<Longrightarrow> kept r' r'' \<Longrightarrow> kept r r''" "rows_from kept rows rows'" "rows_from kept rows' rows''"
  shows "rows_from kept rows rows''"
  using assms unfolding rows_from_def by meson

definition oauth_origin :: "oauth_db \<Rightarrow> oauth_db \<Rightarrow> bool" where
  "oauth_origin s s' \<longleftrightarrow> rows_from code_kept (oa_codes s) (oa_codes s') \<and> rows_from session_kept (oa_sessions s) (oa_sessions s')"

lemma same_rows_origin: "oa_codes s' = oa_codes s \<Longrightarrow> oa_sessions s' = oa_sessions s \<Longrightarrow> oauth_origin s s'"
  by (simp add: oauth_origin_def rows_from_refl)

interpretation origin: state_preorder oauth_origin
proof
  show "oauth_origin s s" for s
    by (rule same_rows_origin) simp_all
  show "oauth_origin s s''" if "oauth_origin s s'" "oauth_origin s' s''" for s s' s''
    using that rows_from_trans [of code_kept "oa_codes s" "oa_codes s'" "oa_codes s''"] code_kept_trans
      rows_from_trans [of session_kept "oa_sessions s" "oa_sessions s'" "oa_sessions s''"] session_kept_trans
    unfolding oauth_origin_def by blast
qed

lemma origin_updates:
  "(\<And>r. p r \<Longrightarrow> code_kept r (f r)) \<Longrightarrow> io_keeps oauth_origin (update_codes p f)"
  "(\<And>r. p' r \<Longrightarrow> session_kept r (g r)) \<Longrightarrow> io_keeps oauth_origin (update_sessions p' g)"
  "io_keeps oauth_origin (update_tokens p'' h)" "io_keeps oauth_origin (oauth_audit_event a i d ref)"
  by (simp_all add: io_keeps_def update_codes_def update_sessions_def update_tokens_def oauth_audit_event_def oauth_origin_def
      rows_from_refl rows_from_update)

lemma origin_write:
  "io_keeps oauth_origin (mark_authorization_code_consumed t i time)" "io_keeps oauth_origin (update_session_refresh t i time)"
  "io_keeps oauth_origin (revoke_session t i time)" "io_keeps oauth_origin (revoke_active_sessions_for_client t a c time)"
  "io_keeps oauth_origin (compromise_refresh_token_family t i time reason)"
  "io_keeps oauth_origin (rotate_refresh_token t i j time)" "io_keeps oauth_origin (revoke_refresh_token t i time)"
  unfolding mark_authorization_code_consumed_def update_session_refresh_def revoke_session_def revoke_active_sessions_for_client_def
    compromise_refresh_token_family_def rotate_refresh_token_def revoke_refresh_token_def
  by (intro origin.keeps_intros origin_updates;
      force simp: code_kept_def session_kept_def session_revoked_def session_compromised_def mk_transition_def)+

lemma origin_insert_token: "io_keeps oauth_origin (insert_refresh_token row)"
  by (auto simp: io_keeps_def insert_refresh_token_def intro: same_rows_origin split: if_splits)

lemma origin_refresh: "io_keeps oauth_origin (refresh_transaction sha256 env q reads session_reads)"
  unfolding refresh_transaction_def refresh_token_for_use_def create_refresh_token_def rotate_refresh_once_def compromise_refresh_family_def Let_def
  by (intro origin.keeps_intros keeps_option origin_updates origin_write origin_insert_token)

lemma origin_revoke: "io_keeps oauth_origin (revoke_transaction sha256 env raw_token reads session_reads)"
  unfolding revoke_transaction_def refresh_token_for_use_def compromise_refresh_family_def
  by (intro origin.keeps_intros keeps_option origin_updates origin_write)

lemma authorize_success:
  assumes "authorize sha256 env q s = Inr (code, s')"
  obtains client scopes row where "require_active_client env (az_client_id q) (az_redirect_uri q) = Inr client"
    "authorized_scopes env (cl_app_id client) client (az_scopes q) = Inr scopes"
    "oa_codes s' = oa_codes s @ [row]" "oa_sessions s' = oa_sessions s"
    "ac_tenant_id row = ox_tenant_id env" "ac_app_id row = cl_app_id client" "ac_client_id row = cl_client_id client"
    "ac_actor_user_id row = ox_actor_user_id env" "ac_roles row = ox_roles env" "ac_scopes row = scopes"
  using assms unfolding authorize_def Let_def io_bind_Inr io_lift_Inr
  by (elim exE conjE, hypsubst)
    (rule that, assumption, assumption, auto simp: insert_authorization_code_def authorization_code_record_def oauth_audit_event_def
      io_return_def rbind_eq_Inr split: if_splits)

lemma authorized_scopes_bound:
  assumes "authorized_scopes env app_id client requested = Inr scopes"
  shows "set scopes \<subseteq> set (app_resource_scopes env app_id)
    \<and> (client_allowed_scopes client \<noteq> [] \<longrightarrow> set scopes \<subseteq> set (client_allowed_scopes client))"
  using assms by (auto simp: authorized_scopes_def Let_def split: if_splits)

lemma all_consented_origin:
  assumes "all_consented trace s" "oauth_origin s s'"
  shows "all_consented (x # trace) s'"
proof -
  have "consented (x # trace) (ac_tenant_id r) (ac_app_id r) (ac_client_id r) (ac_actor_user_id r) (ac_roles r) (ac_scopes r)"
    if "r \<in> set (oa_codes s')" for r
  proof -
    from that assms(2) obtain r0 where "r0 \<in> set (oa_codes s)" "code_kept r0 r" unfolding oauth_origin_def rows_from_def by blast
    with assms(1) have "consented trace (ac_tenant_id r) (ac_app_id r) (ac_client_id r) (ac_actor_user_id r) (ac_roles r) (ac_scopes r)"
      by (auto simp: all_consented_def code_kept_def)
    then show ?thesis by (rule consented_mono) simp
  qed
  moreover have "consented (x # trace) (os_tenant_id r) (os_app_id r) (os_client_id r) (os_actor_user_id r) (os_roles r) (os_scopes r)"
    if "r \<in> set (oa_sessions s')" for r
  proof -
    from that assms(2) obtain r0 where r0: "r0 \<in> set (oa_sessions s)" "session_kept r0 r" unfolding oauth_origin_def rows_from_def by blast
    with assms(1) have "consented trace (os_tenant_id r) (os_app_id r) (os_client_id r) (os_actor_user_id r) (os_roles r) (os_scopes r)"
      by (auto simp: all_consented_def session_kept_def)
    then show ?thesis by (rule consented_mono) simp
  qed
  ultimately show ?thesis by (simp add: all_consented_def)
qed

lemma past_code_consented:
  assumes "all_consented trace s" "oauth_later p s" "r \<in> set (oa_codes p)"
  shows "consented trace (ac_tenant_id r) (ac_app_id r) (ac_client_id r) (ac_actor_user_id r) (ac_roles r) (ac_scopes r)"
proof -
  from assms(2,3) obtain r' where "r' \<in> set (oa_codes s)" "code_kept r r'" unfolding oauth_later_def rows_kept_def by blast
  with assms(1) show ?thesis by (auto simp: all_consented_def code_kept_def)
qed

lemma past_session_consented:
  assumes "all_consented trace s" "oauth_later p s" "r \<in> set (oa_sessions p)"
  shows "consented trace (os_tenant_id r) (os_app_id r) (os_client_id r) (os_actor_user_id r) (os_roles r) (os_scopes r)"
proof -
  from assms(2,3) obtain r' where r': "r' \<in> set (oa_sessions s)" "session_kept r r'" unfolding oauth_later_def rows_kept_def by blast
  with assms(1) have "consented trace (os_tenant_id r') (os_app_id r') (os_client_id r') (os_actor_user_id r') (os_roles r') (os_scopes r')"
    by (simp add: all_consented_def)
  with r'(2) show ?thesis by (simp add: session_kept_def)
qed

abbreviation grant_consented :: "(oauth_call \<times> oauth_outcome) list \<Rightarrow> oauth_grant \<Rightarrow> bool" where
  "grant_consented trace g \<equiv> consented trace (og_tenant_id g) (og_application_id g) (og_client_id g) (og_actor_user_id g) (og_roles g) (og_scopes g)"

lemma exchange_consented:
  assumes "exchange_transaction sha256 env q reads s = Inr (Some g, s')" "all_consented trace s" "oauth_later reads s"
  shows "all_consented (x # trace) s' \<and> grant_consented (x # trace) g"
proof (rule exchange_success [OF assms(1)])
  fix row client session refresh v u s1 s2 s3
  assume row: "authorization_code_by_hash (ox_tenant_id env) (hash_secret sha256 (xq_code q)) reads = Some row"
    and steps: "create_session env row client s = Inr (session, s1)"
      "create_refresh_token sha256 env (os_id session) (Some client) (xq_resource q) s1 = Inr (refresh, s2)"
      "consume_code_once (ox_tenant_id env) (ac_id row) (ox_now env) s2 = Inr (u, s3)"
    and s': "oa_codes s' = oa_codes s3" "oa_sessions s' = oa_sessions s3"
    and g: "g = grant_of session None (xq_resource q) (access_ttl (Some client)) refresh"
  from row have "row \<in> set (oa_codes reads)" by (auto simp: authorization_code_by_hash_def dest!: sql_first_Some)
  note row_ok = past_code_consented [OF assms(2,3) this]
  note session = create_session_success [OF steps(1)]
  have session_ok: "consented trace (os_tenant_id session) (os_app_id session) (os_client_id session) (os_actor_user_id session)
      (os_roles session) (os_scopes session)" using row_ok session by simp
  have s2: "all_consented trace s2" using assms(2) session create_refresh_success [OF steps(2)] session_ok by (auto simp: all_consented_def)
  have "io_keeps oauth_origin (consume_code_once (ox_tenant_id env) (ac_id row) (ox_now env))"
    unfolding consume_code_once_def by (intro origin.keeps_intros origin_write)
  from io_keepsD [OF this steps(3)] s' have "oauth_origin s2 s'" by (simp add: oauth_origin_def)
  with s2 session_ok show ?thesis by (auto simp: g grant_of_def intro: all_consented_origin consented_mono)
qed

lemma refresh_consented:
  assumes "refresh_transaction sha256 env q reads session_reads s = Inr (Some g, s')" "all_consented trace s" "oauth_later session_reads s"
  shows "grant_consented (x # trace) g"
proof (rule refresh_success [OF assms(1)])
  fix token session refresh u s1 s2
  assume "require_session env (rt_session_id token) session_reads = Inr session"
    and g: "g = grant_of session (if rq_should_reevaluate_roles q then Some (reevaluated_roles session env) else None)
       (rq_resource q) (access_ttl None) refresh"
  then have "session \<in> set (oa_sessions session_reads)"
    by (auto simp: require_session_def session_by_id_def dest!: sql_first_Some split: option.splits if_splits)
  from past_session_consented [OF assms(2,3) this] show ?thesis
    by (auto simp: g grant_of_def reevaluated_roles_def intro!: consented_mono)
qed

lemma authorize_consented:
  assumes "authorize sha256 env q s = Inr (code, s')" "all_consented trace s"
  shows "all_consented ((Authorize env q, Coded code) # trace) s'"
proof (rule authorize_success [OF assms(1)])
  fix client scopes row
  assume client: "require_active_client env (az_client_id q) (az_redirect_uri q) = Inr client"
    and scopes: "authorized_scopes env (cl_app_id client) client (az_scopes q) = Inr scopes"
    and s': "oa_codes s' = oa_codes s @ [row]" "oa_sessions s' = oa_sessions s"
    and row: "ac_tenant_id row = ox_tenant_id env" "ac_app_id row = cl_app_id client" "ac_client_id row = cl_client_id client"
      "ac_actor_user_id row = ox_actor_user_id env" "ac_roles row = ox_roles env" "ac_scopes row = scopes"
  have "consented ((Authorize env q, Coded code) # trace) (ac_tenant_id row) (ac_app_id row) (ac_client_id row) (ac_actor_user_id row)
      (ac_roles row) (ac_scopes row)"
    unfolding consented_def row using client authorized_scopes_bound [OF scopes]
    by (intro exI [of _ env] exI [of _ q] exI [of _ code] exI [of _ client]) simp
  moreover have "all_consented ((Authorize env q, Coded code) # trace) s"
    using all_consented_origin [OF assms(2) origin.R_refl] .
  ultimately show ?thesis using s' by (auto simp: all_consented_def)
qed

lemma exchange_refused:
  assumes "exchange_transaction sha256 env q reads s = Inr (None, s')"
  shows "oauth_origin s s'"
proof -
  from assms obtain code_row s0 where code: "(if authorization_code_matches_resource sha256 (xq_code q) (xq_resource q)
        then exchangeable_code sha256 env (xq_code q) reads else io_return None) s = Inr (code_row, s0)"
    and rest: "(case code_row of None \<Rightarrow> io_return None
     | Some row \<Rightarrow>
         io_bind (io_lift (require_active_client env (xq_client_id q) (xq_redirect_uri q))) (\<lambda>client.
         io_bind (io_lift (validate_code_exchange sha256 row (xq_client_id q) (xq_redirect_uri q) (xq_code_verifier q))) (\<lambda>_.
         io_bind (io_lift (require_resource_application client (xq_resource_application_id q))) (\<lambda>_.
         io_bind (create_session env row client) (\<lambda>session.
         io_bind (create_refresh_token sha256 env (os_id session) (Some client) (xq_resource q)) (\<lambda>refresh.
         io_bind (consume_code_once (ox_tenant_id env) (ac_id row) (ox_now env)) (\<lambda>_.
         io_bind (oauth_audit_event ''osdk.oauth.session.created'' (os_id session) ''allow'' (safe_session_ref session)) (\<lambda>_.
         io_return (Some (grant_of session None (xq_resource q) (access_ttl (Some client)) refresh)))))))))) s0 = Inr (None, s')"
    unfolding exchange_transaction_def io_bind_Inr [of "io_lift _"] io_lift_Inr io_bind_Inr by blast
  have none: "code_row = None"
  proof (rule ccontr)
    assume "code_row \<noteq> None"
    then obtain row where row: "code_row = Some row" by blast
    from rest show False unfolding row option.case io_bind_Inr by (auto simp: io_return_def)
  qed
  with rest have "s' = s0" by (simp add: io_return_def)
  moreover have "oauth_origin s s0" using code unfolding none
    by (auto simp: exchangeable_code_def io_bind_Inr io_return_def oauth_audit_event_def intro: same_rows_origin split: if_splits option.splits)
  ultimately show ?thesis by simp
qed

lemma history_consented:
  assumes "oauth_history sha256 s0 states trace" "oa_codes s0 = []" "oa_sessions s0 = []"
  shows "all_consented trace (hd states) \<and> (\<forall>c g. (c, Granted g) \<in> set trace \<longrightarrow> grant_consented trace g)"
  using assms
proof (induction rule: oauth_history.induct)
  case start
  then show ?case by (simp add: all_consented_def)
next
  case (call s past trace c out s')
  from call.IH [OF call.prems] have IH: "all_consented trace s" "\<And>c g. (c, Granted g) \<in> set trace \<Longrightarrow> grant_consented trace g" by auto
  have past: "\<And>p. p \<in> reads_of c \<Longrightarrow> oauth_later p s" using history_later [OF call(1)] call(2) by auto
  have old: "(c', Granted g) \<in> set trace \<Longrightarrow> grant_consented ((c, out) # trace) g" for c' g
    using IH(2) consented_mono by blast
  have new: "all_consented ((c, out) # trace) s' \<and> (\<forall>g. out = Granted g \<longrightarrow> grant_consented ((c, out) # trace) g)"
  proof (cases c)
    case (Authorize env q)
    then show ?thesis using call(3) IH(1) authorize_consented [of sha256 env q s] all_consented_origin [OF IH(1) origin.R_refl]
      by (auto simp: perform_oauth_call_def split: sum.splits prod.splits)
  next
    case (Exchange env q reads)
    show ?thesis
    proof (cases "exchange_transaction sha256 env q reads s")
      case (Inl e)
      with call(3) Exchange have "s' = s" "out = Refused e" by (simp_all add: perform_oauth_call_def exchange_authorization_code_def committed_def)
      then show ?thesis using all_consented_origin [OF IH(1) origin.R_refl] by simp
    next
      case (Inr r)
      then obtain m s1 where m: "exchange_transaction sha256 env q reads s = Inr (m, s1)" by (cases r) simp
      with call(3) Exchange have s1: "s' = s1" by (cases m) (simp_all add: perform_oauth_call_def exchange_authorization_code_def committed_def)
      show ?thesis
      proof (cases m)
        case None
        with m have "oauth_origin s s1" using exchange_refused by blast
        from all_consented_origin [OF IH(1) this] s1 have "all_consented ((c, out) # trace) s'" by simp
        moreover have "out \<noteq> Granted g" for g
          using m None call(3) Exchange by (auto simp: perform_oauth_call_def exchange_authorization_code_def committed_def)
        ultimately show ?thesis by blast
      next
        case (Some g)
        with m have "all_consented ((c, out) # trace) s1 \<and> grant_consented ((c, out) # trace) g"
          using exchange_consented [of sha256 env q reads s g s1, OF _ IH(1)] past Exchange by simp
        moreover have "out = Granted g" using Some m call(3) Exchange by (simp add: perform_oauth_call_def exchange_authorization_code_def committed_def)
        ultimately show ?thesis using s1 by simp
      qed
    qed
  next
    case (Refresh env q reads session_reads)
    show ?thesis
    proof (cases "refresh_transaction sha256 env q reads session_reads s")
      case (Inl e)
      with call(3) Refresh have "s' = s" "out = Refused e" by (simp_all add: perform_oauth_call_def refresh_access_token_def committed_def)
      then show ?thesis using all_consented_origin [OF IH(1) origin.R_refl] by simp
    next
      case (Inr r)
      then obtain m s1 where m: "refresh_transaction sha256 env q reads session_reads s = Inr (m, s1)" by (cases r) simp
      from io_keepsD [OF origin_refresh m] all_consented_origin [OF IH(1)] have "all_consented (x # trace) s1" for x by blast
      moreover have "s' = s1 \<and> (\<forall>g. out = Granted g \<longrightarrow> m = Some g)"
        using m call(3) Refresh by (cases m) (auto simp: perform_oauth_call_def refresh_access_token_def committed_def)
      ultimately show ?thesis using m past Refresh refresh_consented [of sha256 env q reads session_reads s _ s1, OF _ IH(1)] by auto
    qed
  next
    case (Revoke env raw_token reads session_reads)
    have "oauth_origin s s'" using call(3) Revoke io_keepsD [OF origin_revoke, of sha256 env raw_token reads session_reads s] origin.R_refl
      by (auto simp: perform_oauth_call_def revoke_def committed_def split: sum.splits prod.splits option.splits)
    moreover have "out \<noteq> Granted g" for g using call(3) Revoke by (auto simp: perform_oauth_call_def split: sum.splits prod.splits)
    ultimately show ?thesis using all_consented_origin [OF IH(1)] by auto
  next
    case (RevokeClient t a i time)
    have "oauth_origin s s'" using call(3) RevokeClient io_keepsD [OF origin_write(4), of t a i time s] origin.R_refl
      by (auto simp: perform_oauth_call_def split: sum.splits prod.splits)
    moreover have "out \<noteq> Granted g" for g using call(3) RevokeClient by (auto simp: perform_oauth_call_def split: sum.splits prod.splits)
    ultimately show ?thesis using all_consented_origin [OF IH(1)] by auto
  qed
  show ?case
  proof (intro conjI allI impI)
    show "all_consented ((c, out) # trace) (hd (s' # s # past))" using new by simp
  next
    fix c' g assume "(c', Granted g) \<in> set ((c, out) # trace)"
    then show "grant_consented ((c, out) # trace) g" using new old by auto
  qed
qed

section \<open>Properties\<close>

text \<open>
  C15: A code and a refresh token is good for one use. Over any history of calls, however stale the rows each of
  them read, no authorization code is exchanged twice with success and no refresh token is refreshed twice with success.
\<close>
theorem credentials_are_used_once:
  assumes "oauth_history sha256 s0 states trace" "oauth_ok s0"
  shows "distinct (granted_codes trace) \<and> distinct (granted_refreshes trace)"
  using one_use_codes [OF assms] one_use_refreshes [OF assms] by blast

text \<open>
  C17: No access token says more than what was authorized. Whatever was called since the tables were empty, the claims of
  every granted token name the user, the application and the client of an authorization in the history, with roles the
  user had then and scopes that the application has resources for and the client is allowed.
\<close>
theorem granted_tokens_were_authorized:
  assumes "oauth_history sha256 s0 states trace" "oa_codes s0 = []" "oa_sessions s0 = []" "(c, Granted g) \<in> set trace"
  shows "\<exists>env q code client. (Authorize env q, Coded code) \<in> set trace
    \<and> require_active_client env (az_client_id q) (az_redirect_uri q) = Inr client
    \<and> og_tenant_id g = ox_tenant_id env \<and> og_actor_user_id g = ox_actor_user_id env
    \<and> og_application_id g = cl_app_id client \<and> og_client_id g = cl_client_id client
    \<and> set (og_roles g) \<subseteq> set (ox_roles env) \<and> set (og_scopes g) \<subseteq> set (app_resource_scopes env (og_application_id g))
    \<and> (client_allowed_scopes client \<noteq> [] \<longrightarrow> set (og_scopes g) \<subseteq> set (client_allowed_scopes client))"
  using history_consented [OF assms(1-3)] assms(4) unfolding consented_def by blast

section \<open>A history, and the lifetimes that get lost\<close>

definition sample_sha :: sha where
  "sample_sha s = [0, 0, 0, 0, 0, 0, 0, 0, 0, 0, 0, 0, 0, 0, 0, 0, 0, 0, 0, 0, 0, 0, 0, 0, 0, 0, 0, 0, 0, 0, 0, of_char (List.last s)]"

definition sample_oauth_client :: oauth_client where
  "sample_oauth_client = \<lparr>cl_tenant_id = ''acme'', cl_client_id = ''web'', cl_app_id = ''app'', cl_status = ''active'',
     cl_redirect_uris = [''u''], cl_allowed_scopes = [], cl_access_token_ttl = Some 600, cl_refresh_token_ttl = Some 3600\<rparr>"

definition sample_oauth_env :: "string \<Rightarrow> oauth_env" where
  "sample_oauth_env x = \<lparr>ox_tenant_id = ''acme'', ox_actor_user_id = ''ann'', ox_roles = [''viewer''], ox_clients = [sample_oauth_client],
     ox_apps = [\<lparr>op_tenant_id = ''acme'', op_id = ''app'', op_status = ''active''\<rparr>],
     ox_resources = [\<lparr>or_res_tenant_id = ''acme'', or_res_app_id = ''app'', or_res_scopes = [''osdk:object:a:read'']\<rparr>],
     ox_now = 0, ox_record_now = 0, ox_secret = x, ox_code_hex = x, ox_session_hex = x, ox_token_hex = x,
     ox_limit = (\<lambda>_ _. Inr ())\<rparr>"

definition sample_verifier :: string where
  "sample_verifier = ''0123456789012345678901234567890123456789012345''"

definition sample_authorize :: authorize_request where
  "sample_authorize = \<lparr>az_client_id = ''web'', az_redirect_uri = ''u'', az_code_challenge = base64_unpadded (sample_sha sample_verifier),
     az_code_challenge_method = ''S256'', az_scopes = [], az_state = None, az_resource = None, az_resource_application_id = None\<rparr>"

definition sample_exchange :: exchange_request where
  "sample_exchange = \<lparr>xq_client_id = ''web'', xq_code = ''oauth_code_a'', xq_redirect_uri = ''u'', xq_code_verifier = sample_verifier,
     xq_resource = None, xq_resource_application_id = None\<rparr>"

definition sample_refresh :: refresh_request where
  "sample_refresh = \<lparr>rq_refresh_token = ''refresh_b'', rq_client_id = None, rq_resource = None, rq_resource_application_id = None,
     rq_should_reevaluate_roles = True\<rparr>"

definition empty_oauth_db :: oauth_db where
  "empty_oauth_db = \<lparr>oa_codes = [], oa_sessions = [], oa_tokens = [], oa_audit = []\<rparr>"

definition sample_code :: "int option \<Rightarrow> auth_code" where
  "sample_code consumed = \<lparr>ac_id = ''osdk_code_a'', ac_tenant_id = ''acme'', ac_code_hash = ''sha256:0000000000000000000000000000000000000000000000000000000000000061'',
     ac_app_id = ''app'', ac_client_id = ''web'', ac_actor_user_id = ''ann'', ac_roles = [''viewer''], ac_redirect_uri = ''u'',
     ac_code_challenge = ''AAAAAAAAAAAAAAAAAAAAAAAAAAAAAAAAAAAAAAAAADU'', ac_code_challenge_method = ''S256'',
     ac_scopes = [''osdk:object:a:read''], ac_expires_at = 300000000, ac_consumed_at = consumed, ac_created_at = 0\<rparr>"

definition sample_session :: "int option \<Rightarrow> oauth_session" where
  "sample_session refreshed = \<lparr>os_id = ''osdk_oauth_session_b'', os_tenant_id = ''acme'', os_app_id = ''app'', os_client_id = ''web'',
     os_actor_user_id = ''ann'', os_roles = [''viewer''], os_scopes = [''osdk:object:a:read''], os_status = ''active'', os_created_at = 0,
     os_last_refreshed_at = refreshed, os_expires_at = 3600000000, os_revoked_at = None, os_compromised_at = None,
     os_compromise_reason = None\<rparr>"

definition sample_token :: refresh_token where
  "sample_token = \<lparr>rt_id = ''osdk_refresh_b'', rt_tenant_id = ''acme'', rt_session_id = ''osdk_oauth_session_b'',
     rt_token_hash = ''sha256:0000000000000000000000000000000000000000000000000000000000000062'', rt_status = ''active'',
     rt_expires_at = 3600000000, rt_replaced_by_token_id = None, rt_created_at = 0, rt_used_at = None, rt_revoked_at = None\<rparr>"

definition sample_audit :: "string \<Rightarrow> string \<Rightarrow> dict \<Rightarrow> oauth_audit" where
  "sample_audit event i ref = \<lparr>ou_event_type = event, ou_resource_id = i, ou_decision = ''allow'', ou_after_ref = ref\<rparr>"

definition coded_db :: oauth_db where
  "coded_db = \<lparr>oa_codes = [sample_code None], oa_sessions = [], oa_tokens = [],
     oa_audit = [sample_audit ''osdk.oauth.authorization_code.created'' ''osdk_code_a'' (safe_code_ref (sample_code None) None)]\<rparr>"

definition exchanged_db :: oauth_db where
  "exchanged_db = \<lparr>oa_codes = [sample_code (Some 0)], oa_sessions = [sample_session None], oa_tokens = [sample_token],
     oa_audit = oa_audit coded_db @ [sample_audit ''osdk.oauth.session.created'' ''osdk_oauth_session_b'' (safe_session_ref (sample_session None))]\<rparr>"

definition rotated_db :: oauth_db where
  "rotated_db = \<lparr>oa_codes = [sample_code (Some 0)], oa_sessions = [sample_session (Some 0)],
     oa_tokens = [sample_token\<lparr>rt_status := ''rotated'', rt_replaced_by_token_id := Some ''osdk_refresh_c'', rt_used_at := Some 0\<rparr>,
       sample_token\<lparr>rt_id := ''osdk_refresh_c'', rt_token_hash := ''sha256:0000000000000000000000000000000000000000000000000000000000000063'', rt_expires_at := 2592000 * 1000000\<rparr>],
     oa_audit = oa_audit exchanged_db @ [sample_audit ''osdk.oauth.refresh_rotated'' ''osdk_oauth_session_b'' (safe_session_ref (sample_session None))]\<rparr>"

definition sample_grant :: "int \<Rightarrow> string \<Rightarrow> int \<Rightarrow> oauth_grant" where
  "sample_grant ttl token expires = \<lparr>og_tenant_id = ''acme'', og_actor_user_id = ''ann'', og_roles = [''viewer''], og_application_id = ''app'',
     og_client_id = ''web'', og_scopes = [''osdk:object:a:read''], og_session_id = ''osdk_oauth_session_b'', og_resource = None,
     og_access_ttl = ttl, og_refresh_token = token, og_refresh_expires_at = expires\<rparr>"

text \<open>
  A client with lifetimes of its own gets them with the first tokens only. The row of a session has no columns for them, so
  a refresh falls back to the defaults: here from 600 seconds to 120, and from an hour to thirty days.
\<close>

lemma sample_challenge:
  "base64_unpadded (sample_sha sample_verifier) = ''AAAAAAAAAAAAAAAAAAAAAAAAAAAAAAAAAAAAAAAAADU''"
  by code_simp

lemma sample_challenge_valid: "require_valid_code_challenge ''AAAAAAAAAAAAAAAAAAAAAAAAAAAAAAAAAAAAAAAAADU'' = Inr ()"
  by (simp add: require_valid_code_challenge_def raise_if_def challenge_char_def is_alnum_def is_digit_def is_upper_def is_lower_def Let_def)

lemma sample_hashes:
  "hash_secret sample_sha ''oauth_code_a'' = ac_code_hash (sample_code None)" "hash_secret sample_sha ''refresh_b'' = rt_token_hash sample_token"
  "hash_secret sample_sha ''refresh_c'' \<noteq> rt_token_hash sample_token"
  by code_simp+

lemmas oauth_sample_defs = sample_oauth_env_def sample_oauth_client_def sample_authorize_def sample_exchange_def sample_refresh_def
  empty_oauth_db_def coded_db_def exchanged_db_def rotated_db_def sample_audit_def sample_grant_def

lemmas oauth_run_simps = perform_oauth_call_def io_bind_def rbind_def io_lift_def io_return_def raise_if_def oauth_audit_event_def Let_def
  require_active_client_def active_client_def application_by_id_def require_redirect_uri_def require_resource_application_def sql_first_def
  token_expires_at_def max_instant_def positive_int_def access_ttl_def refresh_ttl_def is_expired_def

lemma sample_authorize_call:
  "perform_oauth_call sample_sha (Authorize (sample_oauth_env ''a'') sample_authorize) empty_oauth_db = (Coded ''oauth_code_a'', coded_db)"
  by (simp add: oauth_run_simps authorize_def oauth_sample_defs sample_challenge sample_challenge_valid pkce_method_def raw_authorization_code_def
      authorized_scopes_def client_allowed_scopes_def app_resource_scopes_def authorization_code_record_def insert_authorization_code_def
      sample_hashes sample_code_def safe_code_ref_def)

lemma sample_exchange_call:
  "perform_oauth_call sample_sha (Exchange (sample_oauth_env ''b'') sample_exchange coded_db) coded_db
     = (Granted (sample_grant 600 ''refresh_b'' (3600 * 1000000)), exchanged_db)"
  by (simp add: oauth_run_simps exchange_authorization_code_def committed_def exchange_transaction_def oauth_sample_defs
      authorization_code_matches_resource_def matches_resource_def exchangeable_code_def authorization_code_by_hash_def sample_hashes
      validate_code_exchange_def pkce_matches_def sample_challenge create_session_def insert_session_def create_refresh_token_def
      raw_refresh_token_def insert_refresh_token_def consume_code_once_def mark_authorization_code_consumed_def update_codes_def sql_update_def
      sample_code_def sample_session_def sample_token_def grant_of_def)

lemma sample_digits: "char_of (48 :: nat) = CHR ''0''" "char_of (50 :: nat) = CHR ''2''" "char_of (51 :: nat) = CHR ''3''"
    "char_of (54 :: nat) = CHR ''6''"
  by code_simp+

lemma lifetimes_lost_on_refresh:
  "perform_oauth_call sample_sha (Refresh (sample_oauth_env ''c'') sample_refresh exchanged_db exchanged_db) exchanged_db
     = (Granted (sample_grant 120 ''refresh_c'' (2592000 * 1000000)), rotated_db)"
  by (simp add: oauth_run_simps refresh_access_token_def committed_def refresh_transaction_def oauth_sample_defs
      refresh_token_matches_resource_def matches_resource_def refresh_token_for_use_def refresh_token_by_hash_def
      hash_secret_def sample_sha_def hexdigest_def hex_digit_def sample_digits
      require_session_def session_by_id_def require_resource_session_def create_refresh_token_def raw_refresh_token_def
      insert_refresh_token_def rotate_refresh_once_def rotate_refresh_token_def update_session_refresh_def update_tokens_def update_sessions_def
      sql_update_def refresh_rotated_def mk_transition_def reevaluated_roles_def
      sample_code_def sample_session_def sample_token_def safe_session_ref_def grant_of_def)

definition sample_trace :: "(oauth_call \<times> oauth_outcome) list" where
  "sample_trace =
     [(Refresh (sample_oauth_env ''c'') sample_refresh exchanged_db exchanged_db, Granted (sample_grant 120 ''refresh_c'' (2592000 * 1000000))),
      (Exchange (sample_oauth_env ''b'') sample_exchange coded_db, Granted (sample_grant 600 ''refresh_b'' (3600 * 1000000))),
      (Authorize (sample_oauth_env ''a'') sample_authorize, Coded ''oauth_code_a'')]"

lemma sample_history: "oauth_history sample_sha empty_oauth_db [rotated_db, exchanged_db, coded_db, empty_oauth_db] sample_trace"
  unfolding sample_trace_def
  by (intro oauth_history.intros sample_authorize_call sample_exchange_call lifetimes_lost_on_refresh) simp_all

lemma sample_empty: "oauth_ok empty_oauth_db" "oa_codes empty_oauth_db = []" "oa_sessions empty_oauth_db = []"
  by (simp_all add: empty_oauth_db_def oauth_ok_def unique_on_def)

theorem credentials_are_used_once_witness:
  "granted_codes sample_trace = [(''acme'', ''oauth_code_a'')] \<and> granted_refreshes sample_trace = [(''acme'', ''refresh_b'')]
     \<and> distinct (granted_codes sample_trace) \<and> distinct (granted_refreshes sample_trace)"
proof -
  have "granted_codes sample_trace = [(''acme'', ''oauth_code_a'')]" "granted_refreshes sample_trace = [(''acme'', ''refresh_b'')]"
    by (simp_all add: sample_trace_def sample_oauth_env_def sample_exchange_def sample_refresh_def)
  with credentials_are_used_once [OF sample_history sample_empty(1)] show ?thesis by blast
qed

theorem granted_tokens_were_authorized_witness:
  "\<exists>env q code. (Authorize env q, Coded code) \<in> set sample_trace \<and> ''ann'' = ox_actor_user_id env
     \<and> {''osdk:object:a:read''} \<subseteq> set (app_resource_scopes env ''app'')"
proof -
  have g: "(Exchange (sample_oauth_env ''b'') sample_exchange coded_db, Granted (sample_grant 600 ''refresh_b'' (3600 * 1000000))) \<in> set sample_trace"
    by (simp add: sample_trace_def)
  have "og_actor_user_id (sample_grant 600 ''refresh_b'' (3600 * 1000000)) = ''ann''"
    "og_application_id (sample_grant 600 ''refresh_b'' (3600 * 1000000)) = ''app''"
    "set (og_scopes (sample_grant 600 ''refresh_b'' (3600 * 1000000))) = {''osdk:object:a:read''}" by (simp_all add: sample_grant_def)
  with granted_tokens_were_authorized [OF sample_history sample_empty(2,3) g] show ?thesis by metis
qed

lemma sample_reuse:
  "case refresh_token_by_hash (ox_tenant_id (sample_oauth_env ''d'')) (hash_secret sample_sha (rq_refresh_token sample_refresh)) rotated_db of
     None \<Rightarrow> False | Some row \<Rightarrow> rt_status row = ''rotated'' \<and>
       (case session_by_id (ox_tenant_id (sample_oauth_env ''d'')) (rt_session_id row) rotated_db of None \<Rightarrow> False | Some session \<Rightarrow> os_status session = ''active'')"
  "refresh_token_matches_resource sample_sha (rq_refresh_token sample_refresh) (rq_resource sample_refresh)"
  by code_simp+


end
