(* ===== verification/Transform_Rules.thy ===== *)
theory Transform_Rules
  imports Prelude "HOL-Library.List_Lexorder" "HOL-Library.Char_ord"
begin

text \<open>
  \<^verbatim>\<open>domain/transform\<close> and \<^verbatim>\<open>domain/dataset/quality.py\<close>: when a transform is due, the bounds of a transform
  graph, the names of its files, and what a failed data check means for a commit. Shown: a transform is due exactly
  when it was never built or an input moved on, and is not due again after a run on the inputs it was due for; file
  names made from user text stay inside their directory.
\<close>

section \<open>Bounds and names\<close>

definition validate_transform_graph_bounds :: "int \<Rightarrow> int \<Rightarrow> (int \<times> int) result" where
  "validate_transform_graph_bounds max_depth max_runs =
     (if max_depth < 1 \<or> max_depth > 7 \<or> max_runs < 1 \<or> max_runs > 50
      then Inl (ValidationFailed ''transform graph bounds must be depth 1-7 and runs 1-50'') else Inr (max_depth, max_runs))"

definition supported_transform_languages :: "string list" where
  "supported_transform_languages = [''sql'', ''python'']"

definition supported_transform_output_modes :: "string list" where
  "supported_transform_output_modes = [''snapshot'', ''append'']"

definition normalize_transform_language :: "string \<Rightarrow> string result" where
  "normalize_transform_language language = (let normalized = py_lower (py_strip language) in
     if normalized \<in> set supported_transform_languages then Inr normalized
     else Inl (ValidationFailed ''unsupported transform language''))"

definition normalize_transform_output_mode :: "string \<Rightarrow> string result" where
  "normalize_transform_output_mode mode = (let raw = py_lower (py_strip mode);
        normalized = (if raw = ''incremental'' then ''append'' else raw) in
     if normalized \<notin> set supported_transform_output_modes then Inl (ValidationFailed ''unsupported transform output mode'')
     else Inr normalized)"

definition output_transaction_type_for_mode :: "string \<Rightarrow> string result" where
  "output_transaction_type_for_mode mode = rbind (normalize_transform_output_mode mode) (\<lambda>m.
     Inr (if m = ''append'' then ''APPEND'' else ''SNAPSHOT''))"

definition token_edge :: "char \<Rightarrow> bool" where
  "token_edge c = (c = CHR ''.'' \<or> c = CHR ''_'' \<or> c = CHR ''-'')"

definition safe_transform_path_token :: "string \<Rightarrow> string result" where
  "safe_transform_path_token v =
     (let token = strip_by token_edge (map (\<lambda>c. if is_alnum c \<or> token_edge c then c else CHR ''_'') v) in
      if token = [] then Inl (ValidationFailed ''transform field must contain at least one safe character'') else Inr token)"

section \<open>Scheduling\<close>

type_synonym versions = "(string \<times> string) list"

record transform_schedule_spec =
  ts_api_name :: string
  ts_transform_id :: string
  ts_output_dataset_ref :: string
  ts_mode :: string
  ts_latest_input_versions :: versions
  ts_missing_input_refs :: "string list"
  ts_last_successful_input_versions :: versions
  ts_active_run_id :: "string option"
  ts_last_successful_run_id :: "string option"

record transform_schedule_decision =
  td_api_name :: string
  td_transform_id :: string
  td_output_dataset_ref :: string
  td_mode :: string
  td_is_due :: bool
  td_reason :: string
  td_latest_input_versions :: versions
  td_last_successful_input_versions :: versions
  td_changed_input_refs :: "string list"
  td_missing_input_refs :: "string list"
  td_active_run_id :: "string option"
  td_last_successful_run_id :: "string option"

definition schedule_decision ::
  "transform_schedule_spec \<Rightarrow> bool \<Rightarrow> string \<Rightarrow> versions \<Rightarrow> string list \<Rightarrow> string list \<Rightarrow> transform_schedule_decision" where
  "schedule_decision spec is_due reason previous changed missing =
     \<lparr>td_api_name = ts_api_name spec, td_transform_id = ts_transform_id spec, td_output_dataset_ref = ts_output_dataset_ref spec,
      td_mode = ts_mode spec, td_is_due = is_due, td_reason = reason, td_latest_input_versions = ts_latest_input_versions spec,
      td_last_successful_input_versions = previous, td_changed_input_refs = changed, td_missing_input_refs = sort missing,
      td_active_run_id = ts_active_run_id spec, td_last_successful_run_id = ts_last_successful_run_id spec\<rparr>"

definition schedule_due :: "transform_schedule_spec \<Rightarrow> versions \<Rightarrow> string \<Rightarrow> string list \<Rightarrow> transform_schedule_decision" where
  "schedule_due spec previous reason changed = schedule_decision spec True reason previous changed []"

definition schedule_not_due :: "transform_schedule_spec \<Rightarrow> string \<Rightarrow> transform_schedule_decision" where
  "schedule_not_due spec reason =
     schedule_decision spec False reason (ts_last_successful_input_versions spec) [] (ts_missing_input_refs spec)"

definition changed_input_refs :: "versions \<Rightarrow> versions \<Rightarrow> string list" where
  "changed_input_refs latest previous = sort (map fst (filter (\<lambda>(ref, v). map_of previous ref \<noteq> Some v) latest))"

definition decide_transform_schedule :: "transform_schedule_spec \<Rightarrow> transform_schedule_decision" where
  "decide_transform_schedule spec =
     (if ts_mode spec \<noteq> ''snapshot'' then schedule_not_due spec ''append_mode_requires_manual_run''
      else if ts_active_run_id spec \<noteq> None then schedule_not_due spec ''active_run_in_progress''
      else if ts_missing_input_refs spec \<noteq> [] then schedule_not_due spec ''input_version_missing''
      else if ts_last_successful_run_id spec = None then schedule_due spec [] ''never_built'' []
      else let changed = changed_input_refs (ts_latest_input_versions spec) (ts_last_successful_input_versions spec) in
        if changed \<noteq> [] then schedule_due spec (ts_last_successful_input_versions spec) ''input_version_changed'' changed
        else schedule_not_due spec ''up_to_date'')"

definition versions_dict :: "versions \<Rightarrow> pyval" where
  "versions_dict vs = PDict (map (\<lambda>(k, v). (k, PStr v)) vs)"

definition optional_text :: "string option \<Rightarrow> pyval" where
  "optional_text v = (case v of None \<Rightarrow> PNone | Some s \<Rightarrow> PStr s)"

definition schedule_decision_dict :: "transform_schedule_decision \<Rightarrow> dict" where
  "schedule_decision_dict d = [(''apiName'', PStr (td_api_name d)), (''transformId'', PStr (td_transform_id d)),
     (''outputDatasetRef'', PStr (td_output_dataset_ref d)), (''mode'', PStr (td_mode d)), (''due'', PBool (td_is_due d)),
     (''reason'', PStr (td_reason d)), (''latestInputVersions'', versions_dict (td_latest_input_versions d)),
     (''lastSuccessfulInputVersions'', versions_dict (td_last_successful_input_versions d)),
     (''changedInputRefs'', PList (map PStr (td_changed_input_refs d))), (''missingInputRefs'', PList (map PStr (td_missing_input_refs d))),
     (''activeRunId'', optional_text (td_active_run_id d)), (''lastSuccessfulRunId'', optional_text (td_last_successful_run_id d))]"

definition validate_transform_scheduler_max_runs :: "int \<Rightarrow> int result" where
  "validate_transform_scheduler_max_runs v =
     (if v < 1 \<or> v > 500 then Inl (ValidationFailed ''transform scheduler max_runs must be between 1 and 500'') else Inr v)"

section \<open>Quality of data sets\<close>

definition row_quarantine_check_types :: "string list" where
  "row_quarantine_check_types = [''not_null'', ''unique'', ''unique_tuple'', ''accepted_values'']"

definition allows_empty_dataset :: "dict list \<Rightarrow> bool" where
  "allows_empty_dataset checks = list_ex (\<lambda>check. get_val check ''type'' = PStr ''allow_empty'') checks"

definition default_primary_key_checks :: "string list \<Rightarrow> dict list" where
  "default_primary_key_checks primary_key =
     map (\<lambda>pk. [(''type'', PStr ''not_null''), (''columns'', PList [PStr pk])]) primary_key
     @ (if length primary_key = 1 then [[(''type'', PStr ''unique''), (''column'', PStr (hd primary_key))]]
        else if 1 < length primary_key then [[(''type'', PStr ''unique_tuple''), (''columns'', PList (map PStr primary_key))]] else [])"

definition is_row_quarantine_check :: "pyval \<Rightarrow> bool" where
  "is_row_quarantine_check check_type = (py_str check_type \<in> set row_quarantine_check_types)"

definition dataset_quality_policy_status :: "pyval \<Rightarrow> pyval \<Rightarrow> pyval \<Rightarrow> string" where
  "dataset_quality_policy_status result_status check_type severity =
     (if py_str result_status \<noteq> ''failed'' then ''PASS''
      else let normalized = py_lower (py_str (if truthy severity then severity else PStr ''error'')) in
        if normalized \<in> {''warn'', ''warning''} then ''WARN''
        else if normalized \<in> {''quarantine'', ''quarantined''} \<and> is_row_quarantine_check check_type then ''QUARANTINE''
        else ''BLOCK_COMMIT'')"

section \<open>Properties\<close>

lemma strip_by_keeps:
  assumes "strip_by p s \<noteq> []"
  shows "\<not> p (hd (strip_by p s)) \<and> \<not> p (List.last (strip_by p s)) \<and> set (strip_by p s) \<subseteq> set s"
proof -
  have "set (strip_by p s) \<subseteq> set s" by (auto simp: strip_by_def dest!: set_dropWhileD)
  with strip_by_result [OF assms] show ?thesis by blast
qed

lemma safe_token_stays_inside:
  assumes "safe_transform_path_token v = Inr token"
  shows "token \<noteq> [] \<and> (\<forall>c \<in> set token. is_alnum c \<or> token_edge c) \<and> is_alnum (hd token) \<and> CHR ''/'' \<notin> set token \<and> token \<noteq> ''..''"
proof -
  let ?m = "map (\<lambda>c. if is_alnum c \<or> token_edge c then c else CHR ''_'') v"
  from assms have token: "token = strip_by token_edge ?m" "token \<noteq> []" by (auto simp: safe_transform_path_token_def Let_def split: if_splits)
  note ends = strip_by_keeps [of token_edge ?m]
  have chars: "\<forall>c \<in> set token. is_alnum c \<or> token_edge c" using ends token by (auto simp: token_edge_def)
  moreover have "is_alnum (hd token)" using ends token chars hd_in_set [OF token(2)] by metis
  moreover have "\<not> is_alnum (CHR ''/'')" "\<not> token_edge (CHR ''/'')" "\<not> is_alnum (CHR ''.'')" by code_simp+
  ultimately show ?thesis using token(2) by (metis list.sel(1))
qed

lemma sort_empty_iff: "sort xs = [] \<longleftrightarrow> xs = []"
  by (metis set_empty set_sort)

lemma changed_empty: "changed_input_refs latest previous = [] \<longleftrightarrow> (\<forall>(ref, v) \<in> set latest. map_of previous ref = Some v)"
  by (auto simp: changed_input_refs_def filter_empty_conv sort_empty_iff)

text \<open>
  The scheduler runs a transform when it has to and then stops. It is due exactly when it is a snapshot
  transform that is not running, whose inputs all have versions, and that was never built or has an input at another
  version than in its last successful run; after a successful run on the versions of the decision it is not due.
\<close>
theorem transform_schedule_exact_and_settles:
  assumes "distinct (map fst (ts_latest_input_versions spec))"
  shows "(td_is_due (decide_transform_schedule spec) \<longleftrightarrow> ts_mode spec = ''snapshot'' \<and> ts_active_run_id spec = None
      \<and> ts_missing_input_refs spec = [] \<and> (ts_last_successful_run_id spec = None
        \<or> (\<exists>(ref, v) \<in> set (ts_latest_input_versions spec). map_of (ts_last_successful_input_versions spec) ref \<noteq> Some v)))
    \<and> \<not> td_is_due (decide_transform_schedule (spec\<lparr>ts_last_successful_run_id := Some run,
        ts_last_successful_input_versions := td_latest_input_versions (decide_transform_schedule spec)\<rparr>))"
proof
  show "td_is_due (decide_transform_schedule spec) \<longleftrightarrow> ts_mode spec = ''snapshot'' \<and> ts_active_run_id spec = None
      \<and> ts_missing_input_refs spec = [] \<and> (ts_last_successful_run_id spec = None
        \<or> (\<exists>(ref, v) \<in> set (ts_latest_input_versions spec). map_of (ts_last_successful_input_versions spec) ref \<noteq> Some v))"
    by (auto simp: decide_transform_schedule_def schedule_due_def schedule_not_due_def schedule_decision_def changed_empty Let_def)
  have "changed_input_refs (ts_latest_input_versions spec) (ts_latest_input_versions spec) = []"
    using assms by (auto simp: changed_empty)
  then show "\<not> td_is_due (decide_transform_schedule (spec\<lparr>ts_last_successful_run_id := Some run,
        ts_last_successful_input_versions := td_latest_input_versions (decide_transform_schedule spec)\<rparr>))"
    by (simp add: decide_transform_schedule_def schedule_due_def schedule_not_due_def schedule_decision_def Let_def)
qed

definition sample_spec :: transform_schedule_spec where
  "sample_spec = \<lparr>ts_api_name = ''t'', ts_transform_id = ''1'', ts_output_dataset_ref = ''out'', ts_mode = ''snapshot'',
     ts_latest_input_versions = [(''a'', ''v2''), (''b'', ''v1'')], ts_missing_input_refs = [],
     ts_last_successful_input_versions = [(''a'', ''v1''), (''b'', ''v1'')], ts_active_run_id = None, ts_last_successful_run_id = Some ''r''\<rparr>"

theorem transform_schedule_exact_and_settles_witness:
  "td_is_due (decide_transform_schedule sample_spec)
    \<and> \<not> td_is_due (decide_transform_schedule (sample_spec\<lparr>ts_last_successful_run_id := Some ''r2'',
        ts_last_successful_input_versions := td_latest_input_versions (decide_transform_schedule sample_spec)\<rparr>))"
proof -
  have "distinct (map fst (ts_latest_input_versions sample_spec))" by (simp add: sample_spec_def)
  from transform_schedule_exact_and_settles [OF this, of "''r2''"] show ?thesis by (simp add: sample_spec_def)
qed

end
