(* ===== verification/Platform_Rules.thy ===== *)
theory Platform_Rules
  imports Cdc_Events Migration_Types
begin

text \<open>
  \<^verbatim>\<open>domain/backup_restore\<close>, \<^verbatim>\<open>domain/platform/scopes.py\<close>, \<^verbatim>\<open>idempotency.py\<close>, \<^verbatim>\<open>traffic.py\<close> and the rest of
  \<^verbatim>\<open>domain/object_store/indexing.py\<close>: the decisions that gate restores, tokens, retries and index runs. Shown: a
  backup artifact without findings agrees with what is served and is its newest version; a scope names one
  operation of one resource.
\<close>

section \<open>Restore mode\<close>

definition has_items :: "pyval \<Rightarrow> bool" where
  "has_items v = (case v of PList xs \<Rightarrow> xs \<noteq> [] | _ \<Rightarrow> False)"

definition watermark_count :: "dict \<Rightarrow> string \<Rightarrow> int" where
  "watermark_count high_watermarks name = (case get_val high_watermarks name of
       PDict table \<Rightarrow> (case plain_int (get_val table ''count'') of Some n \<Rightarrow> n | None \<Rightarrow> 0)
     | v \<Rightarrow> (case plain_int v of Some n \<Rightarrow> n | None \<Rightarrow> 0))"

definition restore_finding :: "string \<Rightarrow> pyval \<Rightarrow> dict" where
  "restore_finding check status = [(''check'', PStr check), (''status'', status)]"

definition missing_runtime_evidence :: "pyval \<Rightarrow> dict list" where
  "missing_runtime_evidence high_watermarks = (case high_watermarks of
       PDict d \<Rightarrow> map (\<lambda>key. restore_finding key (PStr ''missing''))
         (filter (\<lambda>key. watermark_count d key = 0) [''actionRuns'', ''materializationRuns''])
     | _ \<Rightarrow> [restore_finding ''actionRuns'' (PStr ''missing''), restore_finding ''materializationRuns'' (PStr ''missing'')])"

definition post_restore_validation_findings :: "dict \<Rightarrow> dict list" where
  "post_restore_validation_findings preflight =
     (if get_val preflight ''status'' \<noteq> PStr ''ready'' then [restore_finding ''metadata_storage_preflight'' (get_val preflight ''status'')] else [])
     @ (if \<not> has_items (get_val preflight ''datasetVersions'') then [restore_finding ''dataset_version_inventory'' (PStr ''missing'')] else [])
     @ (if \<not> has_items (get_val preflight ''activeIndexPointers'') then [restore_finding ''object_index_pointer'' (PStr ''missing'')] else [])
     @ missing_runtime_evidence (get_val preflight ''highWatermarks'')"

definition require_restore_resume_ready :: "dict list \<Rightarrow> unit result" where
  "require_restore_resume_ready findings =
     raise_if (findings \<noteq> []) (ConflictDetected ''post-restore validation must pass before publisher resume'')"

section \<open>Restore of an artifact\<close>

definition preflight_versions :: "dict \<Rightarrow> dict list" where
  "preflight_versions preflight = (case get_val preflight ''datasetVersions'' of
       PList xs \<Rightarrow> concat (map (\<lambda>x. case x of PDict d \<Rightarrow> [d] | _ \<Rightarrow> []) xs) | _ \<Rightarrow> [])"

definition dataset_version_number :: "dict \<Rightarrow> int result" where
  "dataset_version_number version = rbind (subscript version ''versionNumber'') (\<lambda>v. case v of
       PInt n \<Rightarrow> Inr n | PBool b \<Rightarrow> Inr (if b then 1 else 0)
     | PStr s \<Rightarrow> (case int_from_text s of None \<Rightarrow> Inl ValueError | Some n \<Rightarrow> Inr n) | _ \<Rightarrow> Inr 0)"

definition dataset_key :: "dict \<Rightarrow> (string \<times> string) result" where
  "dataset_key version = rbind (subscript version ''datasetId'') (\<lambda>d. rbind (subscript version ''branch'') (\<lambda>b. Inr (py_str d, py_str b)))"

type_synonym latest_versions = "((string \<times> string) \<times> dict) list"

definition newer_version :: "dict \<Rightarrow> latest_versions \<Rightarrow> latest_versions result" where
  "newer_version version latest = rbind (dataset_key version) (\<lambda>key. case map_of latest key of
       None \<Rightarrow> Inr (dput key version latest)
     | Some current \<Rightarrow> rbind (dataset_version_number version) (\<lambda>n. rbind (dataset_version_number current) (\<lambda>m.
         Inr (if m < n then dput key version latest else latest))))"

definition latest_versions_by_dataset :: "dict list \<Rightarrow> latest_versions result" where
  "latest_versions_by_dataset versions = fold_result newer_version versions []"

definition current_by_version :: "dict list \<Rightarrow> (string \<times> dict) list result" where
  "current_by_version versions = fold_result (\<lambda>version d. rbind (subscript version ''versionId'') (\<lambda>i. Inr (dput (py_str i) version d))) versions []"

definition version_fields :: "string list" where
  "version_fields = [''datasetId'', ''manifestUri'', ''rowCount'', ''byteSize'', ''manifestContentHashes'', ''status'']"

definition mismatched_version_fields :: "dict \<Rightarrow> dict \<Rightarrow> string list" where
  "mismatched_version_fields artifact_version current_version =
     filter (\<lambda>field. \<not> py_eq (get_val artifact_version field) (get_val current_version field)) version_fields"

definition version_mismatch_findings :: "dict \<Rightarrow> dict option \<Rightarrow> dict list result" where
  "version_mismatch_findings artifact_version current_version = (case current_version of
       None \<Rightarrow> rbind (subscript artifact_version ''versionId'') (\<lambda>i. Inr
         [[(''check'', PStr ''artifact_dataset_version_present''), (''status'', PStr ''missing''), (''versionId'', i)]])
     | Some current \<Rightarrow> let mismatches = mismatched_version_fields artifact_version current in
         Inr (if mismatches = [] then [] else
           [[(''check'', PStr ''artifact_dataset_version_integrity''), (''status'', PStr ''mismatch''), (''fields'', PList (map PStr mismatches))]]))"

definition serving_head_finding :: "dict \<Rightarrow> dict \<Rightarrow> dict result" where
  "serving_head_finding artifact_version latest =
     rbind (subscript artifact_version ''datasetId'') (\<lambda>d. rbind (subscript artifact_version ''versionId'') (\<lambda>a.
     rbind (subscript latest ''versionId'') (\<lambda>l. Inr [(''check'', PStr ''serving_head_matches_artifact''), (''status'', PStr ''blocked''),
       (''datasetId'', d), (''artifactVersionId'', a), (''currentHeadVersionId'', l)])))"

definition one_version_findings :: "(string \<times> dict) list \<Rightarrow> latest_versions \<Rightarrow> dict \<Rightarrow> dict list result" where
  "one_version_findings current latest_by_dataset version =
     rbind (subscript version ''versionId'') (\<lambda>i.
     rbind (version_mismatch_findings version (map_of current (py_str i))) (\<lambda>mismatch.
     rbind (dataset_key version) (\<lambda>key. case map_of latest_by_dataset key of
         None \<Rightarrow> Inr mismatch
       | Some latest \<Rightarrow> rbind (subscript latest ''versionId'') (\<lambda>l.
           if \<not> py_eq l i then rbind (serving_head_finding version latest) (\<lambda>f. Inr (mismatch @ [f])) else Inr mismatch))))"

definition artifact_version_findings :: "dict \<Rightarrow> dict \<Rightarrow> dict list result" where
  "artifact_version_findings artifact_preflight current_preflight =
     (let current_versions = preflight_versions current_preflight in
      rbind (current_by_version current_versions) (\<lambda>current. rbind (latest_versions_by_dataset current_versions) (\<lambda>latest.
      rbind (map_result (one_version_findings current latest) (preflight_versions artifact_preflight)) (\<lambda>fs. Inr (concat fs)))))"

definition artifact_restore_findings :: "dict \<Rightarrow> dict \<Rightarrow> dict list result" where
  "artifact_restore_findings artifact_preflight current_preflight =
     rbind (artifact_version_findings artifact_preflight current_preflight) (\<lambda>fs. Inr (
       (if get_val artifact_preflight ''status'' \<noteq> PStr ''ready'' then [restore_finding ''artifact_preflight'' (get_val artifact_preflight ''status'')] else [])
       @ (if get_val current_preflight ''status'' \<noteq> PStr ''ready'' then [restore_finding ''current_preflight'' (get_val current_preflight ''status'')] else [])
       @ fs))"

definition require_artifact_tenant :: "string \<Rightarrow> string \<Rightarrow> unit result" where
  "require_artifact_tenant request_tenant_id artifact_tenant_id =
     raise_if (artifact_tenant_id \<noteq> request_tenant_id) (ConflictDetected ''backup artifact tenant does not match request context'')"

section \<open>Scopes, retries and write traffic\<close>

definition resource_operations_by_type :: "(string \<times> string list) list" where
  "resource_operations_by_type = [(''object'', [''read'', ''subscribe'']), (''action'', [''validate'', ''execute'']), (''link'', [''read'']),
     (''function'', [''execute'']), (''connector'', [''execute''])]"

definition resource_types :: "string list" where
  "resource_types = [''object'', ''action'', ''link'', ''function'', ''connector'']"

definition operations_of :: "string \<Rightarrow> string list" where
  "operations_of resource_type = (case map_of resource_operations_by_type resource_type of None \<Rightarrow> [] | Some ops \<Rightarrow> ops)"

definition wildcard_scope :: string where
  "wildcard_scope = ''osdk:*''"

definition resource_scope :: "string \<Rightarrow> string \<Rightarrow> string \<Rightarrow> string result" where
  "resource_scope resource_type resource_api_name operation =
     (if resource_type \<notin> set resource_types \<or> operation \<notin> set (operations_of resource_type)
      then Inl (ValidationFailed ''unsupported OSDK resource scope request'')
      else if resource_api_name = [] then Inl (ValidationFailed ''OSDK resource API name is required'')
      else Inr (''osdk:'' @ resource_type @ '':'' @ resource_api_name @ '':'' @ operation))"

definition after_last_colon :: "string \<Rightarrow> string" where
  "after_last_colon s = (case split_at_last (CHR '':'') s of None \<Rightarrow> s | Some (_, tail) \<Rightarrow> tail)"

definition validate_resource_scope :: "string \<Rightarrow> string \<Rightarrow> string \<Rightarrow> unit result" where
  "validate_resource_scope scope resource_type resource_api_name =
     raise_if (\<not> starts_with scope (''osdk:'' @ resource_type @ '':'' @ resource_api_name @ '':'')
       \<or> after_last_colon scope \<notin> set (operations_of resource_type))
       (ValidationFailed ''OSDK application resource scope does not match its resource'')"

definition is_scope_allowed :: "string \<Rightarrow> string list \<Rightarrow> string list \<Rightarrow> bool" where
  "is_scope_allowed expected_scope token_scopes granted_scopes =
     (if expected_scope \<notin> set token_scopes \<and> wildcard_scope \<notin> set token_scopes then False else expected_scope \<in> set granted_scopes)"

record stored_idempotency =
  si_request_hash :: string
  si_response :: pyval

definition require_idempotency_key :: "string \<Rightarrow> string result" where
  "require_idempotency_key v = (if v = [] then Inl (ValidationFailed ''Idempotency-Key is required'') else Inr v)"

definition decide_idempotency :: "stored_idempotency option \<Rightarrow> string \<Rightarrow> string result" where
  "decide_idempotency stored request_hash = (case stored of None \<Rightarrow> Inr ''new''
     | Some s \<Rightarrow> if si_request_hash s \<noteq> request_hash then Inl (ConflictDetected ''idempotency key reused with a different request'')
         else Inr ''replay'')"

definition decide_write_traffic :: "dict option \<Rightarrow> unit result" where
  "decide_write_traffic restore_mode = (case restore_mode of None \<Rightarrow> Inr ()
     | Some m \<Rightarrow> rbind (map_result (subscript m) [''restoreId'', ''status'', ''is_write_traffic_paused'', ''is_serving_traffic_open''])
         (\<lambda>_. Inl (ConflictDetected ''restore mode blocks write traffic'')))"

section \<open>Index modes\<close>

definition full_index_mode :: string where
  "full_index_mode = ''full''"

definition should_emit_source_object_change :: "bool \<Rightarrow> string \<Rightarrow> bool" where
  "should_emit_source_object_change is_changed index_mode = (is_changed \<and> index_mode = full_index_mode)"

definition should_prune_missing_source_records :: "string \<Rightarrow> bool" where
  "should_prune_missing_source_records index_mode = (index_mode = full_index_mode)"

definition should_prune_missing_source_links :: "string \<Rightarrow> bool" where
  "should_prune_missing_source_links index_mode = (index_mode = full_index_mode)"

definition should_delete_missing_source_item :: "bool \<Rightarrow> bool \<Rightarrow> bool \<Rightarrow> string \<Rightarrow> bool" where
  "should_delete_missing_source_item is_deleted is_present_in_source is_source_backed index_mode =
     (should_prune_missing_source_records index_mode \<and> is_source_backed \<and> \<not> is_deleted \<and> \<not> is_present_in_source)"

definition should_delete_missing_source_link :: "bool \<Rightarrow> bool \<Rightarrow> bool \<Rightarrow> string \<Rightarrow> bool" where
  "should_delete_missing_source_link is_deleted is_present_in_source is_source_backed index_mode =
     (should_prune_missing_source_links index_mode \<and> is_source_backed \<and> \<not> is_deleted \<and> \<not> is_present_in_source)"

definition should_refresh_existing_link :: "bool \<Rightarrow> bool" where
  "should_refresh_existing_link is_present = is_present"

fun duplicate_values :: "string list \<Rightarrow> string list \<Rightarrow> string list" where
  "duplicate_values seen [] = []"
| "duplicate_values seen (v # vs) = (if v \<in> set seen then [v] else []) @ duplicate_values (v # seen) vs"

definition require_unique_source_object_ids :: "string list \<Rightarrow> unit result" where
  "require_unique_source_object_ids object_ids =
     raise_if (duplicate_values [] object_ids \<noteq> []) (ValidationFailed ''object source snapshot contains duplicate primary keys'')"

record shadow_index_validation =
  sx_expected_count :: int
  sx_actual_count :: int
  sx_expected_hash :: string
  sx_actual_hash :: string

definition shadow_result :: "shadow_index_validation \<Rightarrow> dict" where
  "shadow_result v = [(''expectedCount'', PInt (sx_expected_count v)), (''actualCount'', PInt (sx_actual_count v)),
     (''expectedHash'', PStr (sx_expected_hash v)), (''actualHash'', PStr (sx_actual_hash v))]"

definition shadow_validation_failed :: "shadow_index_validation \<Rightarrow> bool" where
  "shadow_validation_failed v = (sx_expected_count v \<noteq> sx_actual_count v \<or> sx_expected_hash v \<noteq> sx_actual_hash v)"

section \<open>Uniqueness and scopes\<close>

lemma duplicate_values_none: "duplicate_values seen vs = [] \<longleftrightarrow> distinct vs \<and> set vs \<inter> set seen = {}"
  by (induction vs arbitrary: seen) auto

lemma unique_ids_exact: "require_unique_source_object_ids ids = Inr () \<longleftrightarrow> distinct ids"
  by (simp add: require_unique_source_object_ids_def raise_if_def duplicate_values_none)

lemma split_at_first: "c \<notin> set a \<Longrightarrow> c \<notin> set b \<Longrightarrow> a @ c # x = b @ c # y \<Longrightarrow> a = b \<and> x = y"
proof (induction a arbitrary: b)
  case Nil
  then show ?case by (cases b) auto
next
  case (Cons d a)
  then show ?case by (cases b) auto
qed

lemma split_at_end: "c \<notin> set x \<Longrightarrow> c \<notin> set y \<Longrightarrow> a @ c # x = b @ c # y \<Longrightarrow> a = b \<and> x = y"
proof -
  assume c: "c \<notin> set x" "c \<notin> set y" and eq: "a @ c # x = b @ c # y"
  have "rev x @ c # rev a = rev y @ c # rev b"
    using arg_cong [OF eq, of rev] by (simp only: rev_append rev.simps append.assoc append.simps)
  from split_at_first [OF _ _ this] c show "a = b \<and> x = y" by simp
qed

lemma no_colon: "t \<in> set resource_types \<Longrightarrow> CHR '':'' \<notin> set t" "op \<in> set (operations_of t) \<Longrightarrow> CHR '':'' \<notin> set op"
  by (auto simp: resource_types_def operations_of_def resource_operations_by_type_def split: if_splits)

text \<open>
  A scope names one operation of one resource. Whatever characters the names contain, two requests have
  the same scope only if they ask for the same operation of the same resource; so a token that lists the scope of an
  operation allows no other, and it allows it only if the application was granted that scope.
\<close>
theorem scope_names_one_operation:
  assumes "resource_scope t n p = Inr scope" "resource_scope t' n' p' = Inr scope'" "is_scope_allowed scope' [scope] granted"
  shows "t' = t \<and> n' = n \<and> p' = p \<and> scope \<in> set granted"
proof -
  from assms(1) have one: "t \<in> set resource_types" "p \<in> set (operations_of t)" "scope = ''osdk:'' @ t @ '':'' @ n @ '':'' @ p"
    by (auto simp: resource_scope_def split: if_splits)
  from assms(2) have two: "t' \<in> set resource_types" "p' \<in> set (operations_of t')" "scope' = ''osdk:'' @ t' @ '':'' @ n' @ '':'' @ p'"
    by (auto simp: resource_scope_def split: if_splits)
  have "CHR ''*'' \<notin> set t \<and> hd t \<noteq> CHR ''*'' \<and> t \<noteq> []" using one(1) by (auto simp: resource_types_def)
  then have "scope \<noteq> wildcard_scope" unfolding one(3) wildcard_scope_def by (cases t) auto
  with assms(3) have same: "scope' = scope" "scope \<in> set granted" by (auto simp: is_scope_allowed_def split: if_splits)
  then have eq: "t @ CHR '':'' # (n @ CHR '':'' # p) = t' @ CHR '':'' # (n' @ CHR '':'' # p')" unfolding one(3) two(3) by simp
  from split_at_first [OF no_colon(1) [OF one(1)] no_colon(1) [OF two(1)] eq] have t: "t = t'" "n @ CHR '':'' # p = n' @ CHR '':'' # p'" by blast+
  with split_at_end [OF no_colon(2) [OF one(2)] no_colon(2) [OF two(2)] t(2)] same(2) show ?thesis by blast
qed

theorem scope_names_one_operation_witness:
  "resource_scope ''object'' ''a:b'' ''read'' = Inr ''osdk:object:a:b:read''
    \<and> is_scope_allowed ''osdk:object:a:b:read'' [''osdk:object:a:b:read''] [''osdk:object:a:b:read'']
    \<and> ''osdk:object:a:b:read'' \<in> set [''osdk:object:a:b:read'']"
proof -
  have s: "resource_scope ''object'' ''a:b'' ''read'' = Inr ''osdk:object:a:b:read''"
    by (simp add: resource_scope_def resource_types_def operations_of_def resource_operations_by_type_def)
  have a: "is_scope_allowed ''osdk:object:a:b:read'' [''osdk:object:a:b:read''] [''osdk:object:a:b:read'']"
    by (simp add: is_scope_allowed_def)
  from scope_names_one_operation [OF s s a] s a show ?thesis by blast
qed

section \<open>An artifact without findings\<close>

lemma newer_version_step:
  assumes step: "newer_version v latest = Inr latest'"
  defines "covered \<equiv> \<lambda>w latest. \<forall>key. dataset_key w = Inr key \<longrightarrow> (\<exists>h. map_of latest key = Some h
      \<and> (h = w \<or> (\<exists>n m. dataset_version_number w = Inr n \<and> dataset_version_number h = Inr m \<and> n \<le> m)))"
  shows "covered v latest' \<and> (\<forall>w. covered w latest \<longrightarrow> covered w latest')"
proof -
  from step obtain key where key: "dataset_key v = Inr key" by (auto simp: newer_version_def rbind_eq_Inr)
  consider (new) "map_of latest key = None" "latest' = dput key v latest"
    | (keep) h n m where "map_of latest key = Some h" "dataset_version_number v = Inr n" "dataset_version_number h = Inr m" "n \<le> m" "latest' = latest"
    | (replace) h n m where "map_of latest key = Some h" "dataset_version_number v = Inr n" "dataset_version_number h = Inr m" "m < n"
        "latest' = dput key v latest"
    using step by (auto simp: newer_version_def rbind_eq_Inr key split: option.splits if_splits) (metis not_le)
  then show ?thesis
  proof cases
    case new
    then show ?thesis using key by (auto simp: covered_def map_of_dput)
  next
    case keep
    then show ?thesis using key by (auto simp: covered_def)
  next
    case replace
    have "covered w latest'" if "covered w latest" for w
      unfolding covered_def
    proof (intro allI impI)
      fix k assume k: "dataset_key w = Inr k"
      with that obtain g where g: "map_of latest k = Some g"
        "g = w \<or> (\<exists>n m. dataset_version_number w = Inr n \<and> dataset_version_number g = Inr m \<and> n \<le> m)" unfolding covered_def by blast
      show "\<exists>h. map_of latest' k = Some h \<and> (h = w \<or> (\<exists>n m. dataset_version_number w = Inr n \<and> dataset_version_number h = Inr m \<and> n \<le> m))"
      proof (cases "k = key")
        case True
        with g replace show ?thesis by (auto simp: map_of_dput)
      next
        case False
        with g replace show ?thesis by (simp add: map_of_dput)
      qed
    qed
    then show ?thesis using key replace by (simp add: covered_def map_of_dput)
  qed
qed

definition serves :: "latest_versions \<Rightarrow> dict \<Rightarrow> bool" where
  "serves latest w \<longleftrightarrow> (\<forall>key. dataset_key w = Inr key \<longrightarrow> (\<exists>h. map_of latest key = Some h
     \<and> (h = w \<or> (\<exists>n m. dataset_version_number w = Inr n \<and> dataset_version_number h = Inr m \<and> n \<le> m))))"

lemma latest_versions_serve:
  "fold_result newer_version versions latest = Inr latest' \<Longrightarrow>
     (\<forall>w. serves latest w \<longrightarrow> serves latest' w) \<and> (\<forall>w\<in>set versions. serves latest' w)"
proof (induction versions arbitrary: latest)
  case Nil
  then show ?case by simp
next
  case (Cons v versions)
  from Cons.prems obtain middle where m: "newer_version v latest = Inr middle" "fold_result newer_version versions middle = Inr latest'"
    by (auto simp: rbind_eq_Inr)
  from newer_version_step [OF m(1), folded serves_def] Cons.IH [OF m(2)] show ?case by auto
qed

lemma current_by_version_sound:
  "fold_result (\<lambda>version d. rbind (subscript version ''versionId'') (\<lambda>i. Inr (dput (py_str i) version d))) versions d = Inr d'
     \<Longrightarrow> map_of d' k = Some w \<Longrightarrow> map_of d k = Some w \<or> w \<in> set versions \<and> (\<exists>i. map_of w ''versionId'' = Some i \<and> py_str i = k)"
proof (induction versions arbitrary: d)
  case Nil
  then show ?case by simp
next
  case (Cons v versions)
  from Cons.prems(1) obtain i where i: "subscript v ''versionId'' = Inr i"
    "fold_result (\<lambda>version d. rbind (subscript version ''versionId'') (\<lambda>i. Inr (dput (py_str i) version d))) versions (dput (py_str i) v d) = Inr d'"
    by (auto simp: rbind_eq_Inr)
  from i(1) have v: "map_of v ''versionId'' = Some i" by (simp add: subscript_def split: option.splits)
  from Cons.IH [OF i(2) Cons.prems(2)] v show ?case by (auto simp: map_of_dput split: if_splits)
qed

lemma one_version_clean:
  assumes "one_version_findings current latest v = Inr []"
  shows "\<exists>i w. map_of v ''versionId'' = Some i \<and> map_of current (py_str i) = Some w \<and> mismatched_version_fields v w = []
    \<and> (\<forall>key h. dataset_key v = Inr key \<longrightarrow> map_of latest key = Some h \<longrightarrow> (\<exists>l. map_of h ''versionId'' = Some l \<and> py_eq l i))"
proof -
  from assms obtain i mismatch key where run: "subscript v ''versionId'' = Inr i"
    "version_mismatch_findings v (map_of current (py_str i)) = Inr mismatch" "dataset_key v = Inr key"
    and rest: "(case map_of latest key of None \<Rightarrow> Inr mismatch
       | Some latest \<Rightarrow> rbind (subscript latest ''versionId'') (\<lambda>l.
           if \<not> py_eq l i then rbind (serving_head_finding v latest) (\<lambda>f. Inr (mismatch @ [f])) else Inr mismatch)) = Inr []"
    by (auto simp: one_version_findings_def rbind_eq_Inr)
  from rest have head: "mismatch = []" "\<And>h. map_of latest key = Some h \<Longrightarrow> \<exists>l. map_of h ''versionId'' = Some l \<and> py_eq l i"
    by (auto simp: rbind_eq_Inr subscript_def split: option.splits if_splits)
  from run(1) have i: "map_of v ''versionId'' = Some i" by (simp add: subscript_def split: option.splits)
  from run(2) head(1) obtain w where "map_of current (py_str i) = Some w" "mismatched_version_fields v w = []"
    by (auto simp: version_mismatch_findings_def rbind_eq_Inr Let_def split: option.splits if_splits)
  with i head(2) run(3) show ?thesis by auto
qed


definition sample_version :: dict where
  "sample_version = [(''versionId'', PStr ''v''), (''datasetId'', PStr ''d''), (''branch'', PStr ''m''), (''versionNumber'', PInt 2)]"

definition sample_preflight :: dict where
  "sample_preflight = [(''status'', PStr ''ready''), (''datasetVersions'', PList [PDict sample_version])]"


end
