(* ===== verification/Spec2Isabelle.thy ===== *)
theory Spec2Isabelle
  imports Prelude Edit_Plan Action_IR Plan_Builder Plan_Manifest Edit_Batch Sql_Table State_Transitions
    Object_Store Plan_Committer Action_Revert Scalars Conditions Row_Policy Effect_Receipts Action_Effects Effect_Delivery
    Json_Text Parameter_Shapes Action_Presentation Action_Contract Action_Parameters Pipeline_Catalog Graph_Topology Json_Equality Graph_Merge Graph_Normalizer Graph_Validation
    Action_Risk Function_Types Ontology_Datasources Migration_Types Ontology_Migration
    Ordered_Updates Cdc_Events Cdc_Indexing
    Evidence_Redaction Function_Versions OAuth_Tokens OAuth_Sessions Transform_Rules Platform_Rules
begin

text \<open>
  A verification library of Foundry-lite, the Python program under \<^verbatim>\<open>src/libs/foundry_lite\<close>.

  \<^bold>\<open>The program.\<close> Foundry-lite keeps an ontology: object types, objects with versions, links between
  them. Users and agents change it through \<^emph>\<open>actions\<close>. An action type is a stored definition; it is
  compiled into a canonical contract, a submission is resolved against the contract's parameters and
  conditions, the rules of the action become an edit plan, the plan is committed in one transaction
  with its evidence, and the declared side effects are recorded with it and delivered by workers
  afterwards. A committed run can be reverted from its evidence. Objects are read under row-level
  policies. Pipelines are graphs of typed nodes over data sets; a graph is checked before it is run.
  The development follows one submission through these steps and then turns to the graphs.

  \<^bold>\<open>Ground.\<close>
  \<^item> \<^theory_text>\<open>Prelude\<close>: errors, results, calls that touch an outside world (\<open>io\<close>), JSON-like values,
    insertion-ordered dictionaries, text and exact numbers of the Python standard library.
  \<^item> \<^theory_text>\<open>Json_Text\<close>: the canonical JSON text values are hashed and compared by.
  \<^item> \<^theory_text>\<open>Sql_Table\<close>: tables as lists of rows, with the statements the repositories use.
  \<^item> \<^theory_text>\<open>Scalars\<close> (\<^verbatim>\<open>domain/scalar_values.py\<close>, \<^verbatim>\<open>json_values.py\<close>): number, date and timestamp
    grammars, rounding to doubles, the calendar, the depth bound of JSON documents. The calendar is
    shown to be a bijection, timestamps make the round trip through their microsecond key, and integers
    stay inside 32 bits.

  \<^bold>\<open>From a definition to a plan\<close> (\<^verbatim>\<open>domain/action_runtime\<close>).
  \<^item> \<^theory_text>\<open>Conditions\<close> (\<^verbatim>\<open>action_conditions.py\<close>): the condition language, its pattern guard, validation
    and three-valued evaluation. Equality is an equivalence relation; a validated condition fails only
    for the documented reasons; a missing value never decides.
  \<^item> \<^theory_text>\<open>Parameter_Shapes\<close> (\<^verbatim>\<open>action_parameter_constraints.py\<close>, \<^verbatim>\<open>action_parameter_types.py\<close>),
    \<^theory_text>\<open>Action_Presentation\<close> (\<^verbatim>\<open>action_presentation.py\<close>, \<^verbatim>\<open>action_permissions.py\<close>) and
    \<^theory_text>\<open>Action_Effects\<close> (\<^verbatim>\<open>action_effects.py\<close>, \<^verbatim>\<open>action_notification_templates.py\<close>): the parts of
    a contract. Each is a fixed point of its own compilation.
  \<^item> \<^theory_text>\<open>Action_Contract\<close> (\<^verbatim>\<open>action_contract.py\<close>): compilation of definitions of all three versions
    into \<open>action_contract\<close>, the stored payload, its snapshot, and the JSON schemas. The stored payload
    is restored to the same contract.
  \<^item> \<^theory_text>\<open>Action_Parameters\<close> (\<^verbatim>\<open>action_parameters.py\<close>): resolution of a submission in declaration order.
    What comes out is declared, well typed, constrained and consistent with the final values, and
    resolution of a compiled contract only fails as a validation error.
  \<^item> \<^theory_text>\<open>Action_IR\<close> (\<^verbatim>\<open>value_expression.py\<close>, \<^verbatim>\<open>action_ir.py\<close>): value sources and rules; validation is
    shown equivalent to an abstract well-orderedness.
  \<^item> \<^theory_text>\<open>Edit_Plan\<close> (\<^verbatim>\<open>edit_plan.py\<close>): the plan and its validator, equivalent to \<open>plan_consistent\<close>.
  \<^item> \<^theory_text>\<open>Plan_Builder\<close> (\<^verbatim>\<open>edit_plan_builder.py\<close>): the rule walk. The resolution context, which performs
    the reads, is a record of functions.
  \<^item> \<^theory_text>\<open>Plan_Manifest\<close> (\<^verbatim>\<open>action_execution_plan.py\<close>) and \<^theory_text>\<open>Edit_Batch\<close>
    (\<^verbatim>\<open>ontology_edit_batch.py\<close>): the stored forms of plans and of function results, with their round trips.

  \<^item> \<^theory_text>\<open>Action_Risk\<close> (\<^verbatim>\<open>action_risk.py\<close>): the risk of a contract and of one plan. The reasons of a level are
    followed back from the result: what an agent may execute on its own is harmless.

  \<^bold>\<open>The ontology and its versions\<close> (\<^verbatim>\<open>domain/ontology\<close>).
  \<^item> \<^theory_text>\<open>Function_Types\<close> (\<^verbatim>\<open>function_types.py\<close>): the canonical payload of a function; normalization is
    idempotent, by recursion on the size of nested struct fields.
  \<^item> \<^theory_text>\<open>Ontology_Datasources\<close> (\<^verbatim>\<open>datasources.py\<close>): segments of a backing, the roles that mask properties, the
    composite version id and its round trip.
  \<^item> \<^theory_text>\<open>Migration_Types\<close> (\<^verbatim>\<open>migration_types.py\<close>, \<^verbatim>\<open>migration_changes.py\<close>) and \<^theory_text>\<open>Ontology_Migration\<close>
    (\<^verbatim>\<open>migration.py\<close>, \<^verbatim>\<open>migration_datasources.py\<close>): the plan for a candidate ontology. \<open>backward_compatible\<close>
    says abstractly what consumers keep; a plan without blocking changes implies it. A remapped property is
    pending for reindexing until the index run completes it.
  \<^item> \<^theory_text>\<open>Function_Versions\<close> (\<^verbatim>\<open>function_versions.py\<close>): versions of functions and the ranges a caller may ask for; an
    upgrade within a major version keeps the compatible ranges.

  \<^bold>\<open>Commit, revert, reads\<close> (\<^verbatim>\<open>infrastructure/repositories\<close>, \<^verbatim>\<open>application\<close>).
  \<^item> \<^theory_text>\<open>State_Transitions\<close> (\<^verbatim>\<open>state_transitions.py\<close>, \<^verbatim>\<open>status_cas.py\<close>, \<^verbatim>\<open>domain/platform/state.py\<close>):
    every status transition of the program and the compare-and-set updates that perform them. Racing
    workers are the inductive relations \<open>cas_step\<close> and \<open>cas_run\<close>; the locale \<open>closed_statuses\<close> says when
    statuses cannot be left and is interpreted on the transition tables.
  \<^item> \<^theory_text>\<open>Object_Store\<close> (\<^verbatim>\<open>object_write_ops.py\<close>, \<^verbatim>\<open>object_change_sequence.py\<close>, parts of
    \<^verbatim>\<open>action_repository.py\<close>): the object and link tables. The locale \<open>versioned_change\<close> is the contract of a
    compare-and-set write, interpreted on update, delete and restore; \<open>write_run\<close> is any sequence of
    writes, and \<open>db_ok\<close> the invariant every sequence keeps.
  \<^item> \<^theory_text>\<open>Plan_Committer\<close> (\<^verbatim>\<open>action_edit_plan_committer.py\<close> and the modules it calls): the commit of a
    plan, on the operations of \<open>Object_Store\<close>. The locale \<open>state_preorder\<close> lifts what one operation
    keeps to the whole commit. Shown: the effect of a commit on every object, and its evidence.
  \<^item> \<^theory_text>\<open>Action_Revert\<close> (\<^verbatim>\<open>action_revert_mutations.py\<close>, \<^verbatim>\<open>action_log_revert_service.py\<close>): the inverse edits;
    undoing a committed property edit restores the object's edits at a newer version.
  \<^item> \<^theory_text>\<open>Cdc_Events\<close> (\<^verbatim>\<open>domain/object_store/cdc.py\<close>, \<^verbatim>\<open>cdc_indexing.py\<close>) and \<^theory_text>\<open>Cdc_Indexing\<close>
    (\<^verbatim>\<open>indexing_cdc_service.py\<close>, \<^verbatim>\<open>object_index_repository.py\<close>): change events of a source table and their
    application to the object records, a third writer of the tables of \<open>Object_Store\<close>. The locale
    \<open>ordered_updates\<close> of \<^theory_text>\<open>Ordered_Updates\<close> is the contract of a log with ordered keys; its interpretation gives
    convergence of late and repeated deliveries.
  \<^item> \<^theory_text>\<open>Row_Policy\<close> (\<^verbatim>\<open>query_filters.py\<close>, \<^verbatim>\<open>row_policies.py\<close>): query filters and row-level security;
    visibility is the union of the filters of the roles held.

  \<^bold>\<open>Side effects\<close>.
  \<^item> \<^theory_text>\<open>Effect_Receipts\<close> (\<^verbatim>\<open>action_effect_receipt_rows.py\<close>): the durable receipts, every call on them, and
    any sequence of calls (\<open>run_calls\<close>). The locales \<open>row_kept\<close> and \<open>row_invariant\<close> reduce a property of
    all sequences to the row one call rewrites; their interpretations give fencing, the attempt budget,
    the covering of sends by releases, and what a cancellation does. The calls refine the status machine
    of \<open>State_Transitions\<close>.
  \<^item> \<^theory_text>\<open>Effect_Delivery\<close> (\<^verbatim>\<open>action_effect_delivery_service.py\<close> and the modules it calls): the worker. A
    delivery is several transactions, and arbitrary calls of other workers run before each of them.

  \<^bold>\<open>Applications and their tokens\<close> (\<^verbatim>\<open>application/services\<close>, \<^verbatim>\<open>infrastructure/repositories\<close>).
  \<^item> \<^theory_text>\<open>OAuth_Tokens\<close> (\<^verbatim>\<open>osdk_oauth_session_tokens.py\<close>, \<^verbatim>\<open>osdk_oauth_session_support.py\<close>): digests, proof keys, the
    binding of a token to a resource, expiry, and the rate limiter with its bound on every window of time.
  \<^item> \<^theory_text>\<open>OAuth_Sessions\<close> (\<^verbatim>\<open>osdk_oauth_session_service.py\<close>, \<^verbatim>\<open>osdk_oauth_session_mutations.py\<close>,
    \<^verbatim>\<open>oauth_session_repository.py\<close>): authorization codes, sessions and refresh tokens. \<open>oauth_history\<close> is any
    sequence of calls in which what a call read may be older than the state it writes to; two interpretations of
    \<open>state_preorder\<close> give what every call keeps (\<open>oauth_later\<close>) and where its rows come from (\<open>oauth_origin\<close>).

  \<^bold>\<open>Rules of the platform\<close> (\<^verbatim>\<open>domain\<close>).
  \<^item> \<^theory_text>\<open>Evidence_Redaction\<close> (\<^verbatim>\<open>platform/evidence.py\<close>): redaction of evidence depends on its public part only.
  \<^item> \<^theory_text>\<open>Platform_Rules\<close> (\<^verbatim>\<open>backup_restore\<close>, \<^verbatim>\<open>platform/scopes.py\<close>, \<^verbatim>\<open>idempotency.py\<close>, \<^verbatim>\<open>traffic.py\<close>,
    \<^verbatim>\<open>object_store/indexing.py\<close>): what gates a restore, a token, a retry and an index run.
  \<^item> \<^theory_text>\<open>Transform_Rules\<close> (\<^verbatim>\<open>transform\<close>, \<^verbatim>\<open>dataset/quality.py\<close>): when a transform is due, its names and modes, and the
    policy of failed quality checks.

  \<^bold>\<open>Pipeline graphs\<close> (\<^verbatim>\<open>application/services\<close>).
  \<^item> \<^theory_text>\<open>Pipeline_Catalog\<close> (\<^verbatim>\<open>pipeline_graph_contracts.py\<close> and its types): the node descriptors, entry by
    entry, and the canonical graph.
  \<^item> \<^theory_text>\<open>Graph_Topology\<close> (\<^verbatim>\<open>pipeline_graph_v2_topology.py\<close>): the checks on edges, up to the cycle check.
  \<^item> \<^theory_text>\<open>Graph_Normalizer\<close> (\<^verbatim>\<open>pipeline_graph_normalizer.py\<close>): reading a stored graph of either schema
    version into canonical rows; the stored form of a canonical graph is read back to it.
  \<^item> \<^theory_text>\<open>Graph_Validation\<close> (\<^verbatim>\<open>pipeline_graph_v2_validation.py\<close>): shape, catalog, topology and operation
    checks. \<open>graph_sound\<close> says abstractly what a valid graph is; validating its canonical graph again changes
    nothing.
  \<^item> \<^theory_text>\<open>Json_Equality\<close>: equality of JSON documents is an equivalence relation (on unique keys, without NaN).
  \<^item> \<^theory_text>\<open>Graph_Merge\<close> (\<^verbatim>\<open>pipeline_graph_three_way_merge.py\<close>): the three-way merge of graph documents. Shown
    position by position: a one-sided change is never lost.

  \<^bold>\<open>How the model corresponds to the code.\<close> A dataclass is a record, its fields with a short prefix; an
  enumeration or a union is a datatype; a JSON document is a \<open>pyval\<close>. A raised exception is \<open>Inl\<close> of its
  class and message, every early return and every raise of the source is a branch, and the order of the
  checks is the order of the code. A transaction that raises is rolled back by its caller; where the
  code commits step by step (the delivery of effects), so does the model. Loops are structural recursion
  or recursion with a measure, so no fuel is used anywhere: the topological consumption of a graph ends
  because every round removes a node, the recursion over struct and array parameters because metadata
  shrinks.

  \<^bold>\<open>Parameters of the model.\<close> What is not under \<^verbatim>\<open>src/\<close> or lies in the surroundings is an argument: the
  regular-expression engine, the JSON parser, the digest, identifier supplies, clocks, the resolution context of the plan
  builder, the executor and the recipient directory of side effects, the calls of other workers, the random secrets
  of tokens, the registry of applications a token call finds, and the answer of the rate limiter to it.

  \<^bold>\<open>Bounds of the model.\<close> Text is ASCII; \<^verbatim>\<open>bytes\<close> and \<^verbatim>\<open>Decimal\<close> instances do not occur inside JSON
  values; negative zero is zero; the \<^verbatim>\<open>details\<close> of errors are left out. The times of tokens are microseconds
  of one time zone.

  \<^bold>\<open>Not modelled.\<close> Request routing and authentication, apart from the sessions of applications (of these the redirect that carries a code, the
  signing of tokens, the credentials of clients and the two public lookups); the orchestration of runs around the
  modelled steps (policy decisions, audit records, the outbox); SQL outside the tables above, search and
  index rebuilds from datasets; data frames, data sets and media, which are byte processing through external libraries;
  language models; connectors and network adapters; backup and operations scripts; the SDK generator, the web
  console and the packages in other languages. These parts are I/O around external systems, code
  generation or bookkeeping over repositories.
\<close>

end
